(* ===== verification/Go_Prelude.thy ===== *)
theory Go_Prelude
  imports Main "HOL-Library.AList"
begin

text \<open>
  Shared vocabulary of the development: Go maps, instants and durations, 64-bit integers, and the generic lemmas the component theories
  rely on.

  \<^item> A Go map is an association list with distinct keys (\<open>gomap\<close>). \<open>gget\<close>, \<open>gput\<close>,
    \<open>gdel\<close>, \<open>glen\<close> are the map expressions of the language. Where a \<^verbatim>\<open>for range\<close> loop over
    a map has an effect that depends on the iteration order, the model takes that order as
    an argument; where it does not (deleting every entry that satisfies a condition) the
    loop is \<open>gfilter\<close>.
  \<^item> \<open>time.Time\<close> is the number of nanoseconds since Go's zero time (year 1), so the
    zero value is \<open>0\<close>; \<open>time.Duration\<close> is a number of nanoseconds. Operations that read the
    clock take the reading as an argument, one argument per call of \<^verbatim>\<open>time.Now\<close>.
  \<^item> \<open>int\<close> and \<open>int64\<close> are integers; \<open>wrap64\<close> writes out two's complement wrap-around where
    an operand comes from outside and may be large.
  \<^item> A Go string is a byte string; \<open>Go_Strings\<close> has the library functions on it.
\<close>

named_theorems go_simps \<open>unfolding equations of small Go library functions\<close>

subsection \<open>Maps\<close>

type_synonym ('k, 'v) gomap = "('k \<times> 'v) list"

definition gget :: "('k, 'v) gomap \<Rightarrow> 'k \<Rightarrow> 'v option" where
  "gget m k = map_of m k"

definition gput :: "'k \<Rightarrow> 'v \<Rightarrow> ('k, 'v) gomap \<Rightarrow> ('k, 'v) gomap" where
  "gput k v m = AList.update k v m"

definition gdel :: "'k \<Rightarrow> ('k, 'v) gomap \<Rightarrow> ('k, 'v) gomap" where
  "gdel k m = AList.delete k m"

definition glen :: "('k, 'v) gomap \<Rightarrow> int" where
  "glen m = int (length m)"

definition gkeys :: "('k, 'v) gomap \<Rightarrow> 'k list" where
  "gkeys m = map fst m"

definition gfilter :: "('k \<Rightarrow> 'v \<Rightarrow> bool) \<Rightarrow> ('k, 'v) gomap \<Rightarrow> ('k, 'v) gomap" where
  "gfilter P m = filter (\<lambda>(k, v). P k v) m"

definition wf_gomap :: "('k, 'v) gomap \<Rightarrow> bool" where
  "wf_gomap m \<longleftrightarrow> distinct (gkeys m)"

lemma gget_empty [simp]: "gget [] k = None"
  by (simp add: gget_def)

lemma gget_gput [simp]: "gget (gput k v m) k' = (if k' = k then Some v else gget m k')"
  by (simp add: gget_def gput_def update_conv')

lemma gget_gdel [simp]: "gget (gdel k m) k' = (if k' = k then None else gget m k')"
  by (simp add: gget_def gdel_def delete_conv')

lemma wf_gomap_empty [simp]: "wf_gomap []"
  by (simp add: wf_gomap_def gkeys_def)

lemma wf_gomap_gput [simp]: "wf_gomap m \<Longrightarrow> wf_gomap (gput k v m)"
  by (simp add: wf_gomap_def gkeys_def gput_def distinct_update)

lemma wf_gomap_gdel [simp]: "wf_gomap m \<Longrightarrow> wf_gomap (gdel k m)"
  by (simp add: wf_gomap_def gkeys_def gdel_def distinct_delete)

lemma wf_gomap_gfilter [simp]: "wf_gomap m \<Longrightarrow> wf_gomap (gfilter P m)"
  by (simp add: wf_gomap_def gkeys_def gfilter_def distinct_map_filter)

lemma set_gkeys: "set (gkeys m) = {k. gget m k \<noteq> None}"
  by (simp add: gkeys_def gget_def map_of_eq_None_iff)

lemma gget_gfilter:
  assumes "wf_gomap m"
  shows "gget (gfilter P m) k = (case gget m k of None \<Rightarrow> None | Some v \<Rightarrow> if P k v then Some v else None)"
  using assms
proof (induction m)
  case Nil
  show ?case by (simp add: gfilter_def)
next
  case (Cons kv m)
  obtain k' v' where kv: "kv = (k', v')" by (cases kv)
  from Cons.prems kv have wf: "wf_gomap m" and fresh: "map_of m k' = None"
    by (auto simp: wf_gomap_def gkeys_def map_of_eq_None_iff)
  show ?case
  proof (cases "k = k'")
    case True
    with fresh have "map_of (filter (\<lambda>(k, v). P k v) m) k = None"
      by (auto simp: map_of_eq_None_iff)
    with True fresh kv show ?thesis by (simp add: gfilter_def gget_def)
  next
    case False
    with Cons.IH [OF wf] kv show ?thesis by (simp add: gfilter_def gget_def)
  qed
qed

lemma glen_nonneg [simp]: "0 \<le> glen m"
  by (simp add: glen_def)

lemma length_AList_update:
  "length (AList.update k v m) = (if k \<in> fst ` set m then length m else Suc (length m))"
  by (induction m) auto

lemma glen_gput: "glen (gput k v m) = (if gget m k = None then glen m + 1 else glen m)"
  by (auto simp: glen_def gput_def gget_def length_AList_update map_of_eq_None_iff)

lemma length_AList_delete:
  "distinct (map fst m) \<Longrightarrow>
   length (AList.delete k m) = (if k \<in> fst ` set m then length m - 1 else length m)"
proof (induction m)
  case Nil
  show ?case by simp
next
  case (Cons kv m)
  then have IH: "length (AList.delete k m) = (if k \<in> fst ` set m then length m - 1 else length m)"
    by simp
  have "length m \<noteq> 0" if "k \<in> fst ` set m" using that by auto
  with IH Cons.prems show ?case
    by (auto simp: AList.delete_eq)
qed

lemma glen_gdel: "wf_gomap m \<Longrightarrow> glen (gdel k m) = (if gget m k = None then glen m else glen m - 1)"
proof -
  assume wf: "wf_gomap m"
  have "int (length m - 1) = int (length m) - 1" if "k \<in> fst ` set m"
    using that by (cases m) auto
  with wf length_AList_delete [of m k] show ?thesis
    by (auto simp: glen_def gdel_def gget_def wf_gomap_def gkeys_def map_of_eq_None_iff)
qed

lemma glen_gfilter_le: "glen (gfilter P m) \<le> glen m"
  by (simp add: glen_def gfilter_def length_filter_le)

subsection \<open>Instants and durations\<close>

type_synonym gotime = int
type_synonym duration = int

definition zero_time :: gotime where
  "zero_time = 0"

definition IsZero :: "gotime \<Rightarrow> bool" where
  "IsZero t \<longleftrightarrow> t = zero_time"

definition max_duration :: duration where
  "max_duration = 2 ^ 63 - 1"

definition min_duration :: duration where
  "min_duration = - (2 ^ 63)"

text \<open>\<^verbatim>\<open>Time.Sub\<close> saturates at the ends of the \<^verbatim>\<open>int64\<close> range; \<^verbatim>\<open>time.Since(t)\<close> is \<^verbatim>\<open>now.Sub(t)\<close>.\<close>

definition time_Sub :: "gotime \<Rightarrow> gotime \<Rightarrow> duration" where
  "time_Sub t u = max min_duration (min max_duration (t - u))"

definition time_Since :: "gotime \<Rightarrow> gotime \<Rightarrow> duration" where
  "time_Since now t = time_Sub now t"

definition time_Add :: "gotime \<Rightarrow> duration \<Rightarrow> gotime" where
  "time_Add t d = t + d"

text \<open>\<^verbatim>\<open>Time.Truncate\<close> rounds down to a multiple of the duration since the zero time.\<close>

definition time_Truncate :: "gotime \<Rightarrow> duration \<Rightarrow> gotime" where
  "time_Truncate t d = (if d \<le> 0 then t else t - t mod d)"

definition Millisecond :: duration where "Millisecond = 1000000"
definition Second :: duration where "Second = 1000000000"
definition Minute :: duration where "Minute = 60 * Second"
definition Hour :: duration where "Hour = 60 * Minute"

lemmas duration_defs = Millisecond_def Second_def Minute_def Hour_def
lemmas time_defs = time_Since_def time_Sub_def time_Add_def max_duration_def min_duration_def

lemma time_Sub_self [simp]: "time_Sub t t = 0"
  by (simp add: time_defs)

text \<open>Below the saturation bound a comparison with a duration is a comparison of instants.\<close>

lemma time_Sub_gt_iff:
  "d < max_duration \<Longrightarrow> min_duration \<le> d \<Longrightarrow> d < time_Sub t u \<longleftrightarrow> d < t - u"
  by (auto simp: time_defs)

lemma time_Sub_mono: "t \<le> t' \<Longrightarrow> time_Sub t u \<le> time_Sub t' u"
  by (auto simp: time_Sub_def)

lemma time_Truncate_le: "time_Truncate t d \<le> t"
  by (simp add: time_Truncate_def pos_mod_sign)

subsection \<open>Integers\<close>

definition wrap64 :: "int \<Rightarrow> int" where
  "wrap64 x = (x + 2 ^ 63) mod 2 ^ 64 - 2 ^ 63"

definition in_int64 :: "int \<Rightarrow> bool" where
  "in_int64 x \<longleftrightarrow> - (2 ^ 63) \<le> x \<and> x < 2 ^ 63"

lemma wrap64_range: "in_int64 (wrap64 x)"
  by (simp add: wrap64_def in_int64_def)

lemma wrap64_id: "in_int64 x \<Longrightarrow> wrap64 x = x"
  by (simp add: wrap64_def in_int64_def)

text \<open>Integer division of Go truncates towards zero.\<close>

definition go_div :: "int \<Rightarrow> int \<Rightarrow> int" where
  "go_div a b = sgn a * sgn b * (\<bar>a\<bar> div \<bar>b\<bar>)"

lemma go_div_pos: "0 \<le> a \<Longrightarrow> 0 < b \<Longrightarrow> go_div a b = a div b"
  by (cases "a = 0") (auto simp: go_div_def sgn_if)

end
