(* ===== verification/Float64.thy ===== *)
theory Float64
  imports Complex_Main "HOL-Library.Log_Nat" Go_Prelude
begin

text \<open>
  IEEE 754 binary64 arithmetic as Go's \<^verbatim>\<open>float64\<close> performs it, on rational numbers: every
  operation is the exact operation followed by \<open>fl\<close>, rounding to nearest (ties to even) with
  a 53-bit significand and the subnormal exponent floor. Overflow to infinity, NaN and the
  sign of zero are outside the model; none of the modelled code divides by a value that can
  be zero without a guard, and the magnitudes it handles are far below the overflow bound.

  The component proofs never look inside \<open>fl\<close>: they use the laws of the locale \<open>rounding\<close>
  (monotone, identity on its own results, exact on small integers), interpreted here on \<open>fl\<close>.
\<close>

type_synonym f64 = rat

subsection \<open>The rounding function\<close>

definition flog2 :: "rat \<Rightarrow> int" where
  "flog2 x = (let (p, q) = quotient_of x; k = bitlen p - bitlen q
              in if x < 2 powi k then k - 1 else k)"

definition rne :: "rat \<Rightarrow> int" where
  "rne r = (let n = \<lfloor>r\<rfloor>; d = r - of_int n
            in if d < 1 / 2 then n else if 1 / 2 < d then n + 1
               else if even n then n else n + 1)"

definition fexp :: "rat \<Rightarrow> int" where
  "fexp x = max (flog2 x - 52) (- 1074)"

definition flpos :: "rat \<Rightarrow> rat" where
  "flpos x = of_int (rne (x / 2 powi fexp x)) * 2 powi fexp x"

definition fl :: "rat \<Rightarrow> f64" where
  "fl x = (if x = 0 then 0 else if x < 0 then - flpos (- x) else flpos x)"

definition is_f64 :: "rat \<Rightarrow> bool" where
  "is_f64 x \<longleftrightarrow> fl x = x"

definition fadd :: "f64 \<Rightarrow> f64 \<Rightarrow> f64" where "fadd a b = fl (a + b)"
definition fsub :: "f64 \<Rightarrow> f64 \<Rightarrow> f64" where "fsub a b = fl (a - b)"
definition fmul :: "f64 \<Rightarrow> f64 \<Rightarrow> f64" where "fmul a b = fl (a * b)"
definition fdiv :: "f64 \<Rightarrow> f64 \<Rightarrow> f64" where "fdiv a b = fl (a / b)"

text \<open>Conversions: \<^verbatim>\<open>float64(n)\<close> rounds, \<^verbatim>\<open>int(x)\<close> truncates towards zero.\<close>

definition f_of_int :: "int \<Rightarrow> f64" where "f_of_int n = fl (of_int n)"
definition int_of_f :: "f64 \<Rightarrow> int" where "int_of_f x = (if x < 0 then - \<lfloor>- x\<rfloor> else \<lfloor>x\<rfloor>)"

lemmas float_ops = fadd_def fsub_def fmul_def fdiv_def f_of_int_def

subsection \<open>Binary logarithm\<close>

lemma powi_2_pos [simp]: "0 < (2::rat) powi k"
  by simp

lemma powi_2_mono: "k \<le> l \<Longrightarrow> (2::rat) powi k \<le> 2 powi l"
  by (simp add: power_int_increasing)

lemma powi_2_less: "(2::rat) powi k < 2 powi l \<longleftrightarrow> k < l"
  by (metis powi_2_mono linorder_not_le power_int_strict_increasing one_less_numeral_iff semiring_norm(76))

lemma bitlen_powi_bounds:
  assumes "0 < p"
  shows "(2::rat) powi (bitlen p - 1) \<le> of_int p" and "of_int p < (2::rat) powi (bitlen p)"
proof -
  from assms have b: "2 ^ nat (bitlen p - 1) \<le> p \<and> p < 2 ^ nat (bitlen p)"
    by (rule bitlen_bounds)
  with assms have "0 < bitlen p" by (cases "bitlen p \<le> 0") auto
  then have e: "(2::rat) powi (bitlen p - 1) = of_int (2 ^ nat (bitlen p - 1))"
    "(2::rat) powi (bitlen p) = of_int (2 ^ nat (bitlen p))"
    by (simp_all add: power_int_def)
  show "(2::rat) powi (bitlen p - 1) \<le> of_int p" unfolding e using b by (simp only: of_int_le_iff)
  show "of_int p < (2::rat) powi (bitlen p)" unfolding e using b by (simp only: of_int_less_iff)
qed

lemma flog2_bounds:
  assumes "0 < x"
  shows "2 powi flog2 x \<le> x" and "x < 2 powi (flog2 x + 1)"
proof -
  obtain p q where pq: "quotient_of x = (p, q)" by fastforce
  then have q: "0 < q" and x: "x = of_int p / of_int q"
    by (auto dest: quotient_of_denom_pos quotient_of_div)
  with assms have p: "0 < p" by (simp add: zero_less_divide_iff)
  let ?k = "bitlen p - bitlen q"
  note bp = bitlen_powi_bounds [OF p] and bq = bitlen_powi_bounds [OF q]
  have q': "0 < (of_int q :: rat)" using q by simp
  have "2 powi (?k - 1) * of_int q \<le> 2 powi (?k - 1) * (2::rat) powi (bitlen q)"
    using bq(2) by (intro mult_left_mono) auto
  also have "\<dots> = 2 powi (bitlen p - 1)"
    by (simp flip: power_int_add)
  also have "\<dots> \<le> of_int p" by (rule bp(1))
  finally have lo: "2 powi (?k - 1) \<le> x" using q' by (simp add: x field_simps)
  have "of_int p < (2::rat) powi bitlen p" by (rule bp(2))
  also have "\<dots> = 2 powi (?k + 1) * 2 powi (bitlen q - 1)"
    by (simp flip: power_int_add)
  also have "\<dots> \<le> 2 powi (?k + 1) * of_int q"
    using bq(1) by (intro mult_left_mono) auto
  finally have hi: "x < 2 powi (?k + 1)" using q' by (simp add: x field_simps)
  have fl: "flog2 x = (if x < 2 powi ?k then ?k - 1 else ?k)"
    by (simp add: flog2_def pq Let_def)
  show "2 powi flog2 x \<le> x" using lo by (simp add: fl)
  show "x < 2 powi (flog2 x + 1)" using hi by (simp add: fl)
qed

lemma flog2_mono: "0 < x \<Longrightarrow> x \<le> y \<Longrightarrow> flog2 x \<le> flog2 y"
  using flog2_bounds [of x] flog2_bounds [of y] powi_2_less [of "flog2 x" "flog2 y + 1"] by simp

lemma flog2_unique: "0 < x \<Longrightarrow> 2 powi k \<le> x \<Longrightarrow> k \<le> flog2 x"
  using flog2_bounds [of x] powi_2_less [of k "flog2 x + 1"] by simp

subsection \<open>Rounding to nearest\<close>

lemma rne_bounds: "\<lfloor>r\<rfloor> \<le> rne r" "rne r \<le> \<lfloor>r\<rfloor> + 1"
  by (auto simp: rne_def Let_def)

lemma rne_of_int [simp]: "rne (of_int n) = n"
  by (simp add: rne_def)

lemma rne_mono:
  assumes "r \<le> s"
  shows "rne r \<le> rne s"
proof (cases "\<lfloor>r\<rfloor> = \<lfloor>s\<rfloor>")
  case True
  with assms show ?thesis by (auto simp: rne_def Let_def)
next
  case False
  with assms have "\<lfloor>r\<rfloor> + 1 \<le> \<lfloor>s\<rfloor>" using floor_mono [OF assms] by linarith
  with rne_bounds [of r] rne_bounds [of s] show ?thesis by linarith
qed

lemma rne_ge: "of_int n \<le> r \<Longrightarrow> n \<le> rne r"
  using rne_mono [of "of_int n" r] by simp

lemma rne_le: "r \<le> of_int n \<Longrightarrow> rne r \<le> n"
  using rne_mono [of r "of_int n"] by simp

lemma flpos_nonneg: "0 < x \<Longrightarrow> 0 \<le> flpos x"
  using rne_ge [of 0 "x / 2 powi fexp x"] by (simp add: flpos_def)

lemma flpos_upper:
  assumes "0 < x"
  shows "rne (x / 2 powi fexp x) \<le> 2 ^ 53"
proof -
  have "x \<le> 2 powi (flog2 x + 1)" using flog2_bounds(2) [OF assms] by simp
  also have "\<dots> \<le> 2 powi (53 + fexp x)" by (rule powi_2_mono) (simp add: fexp_def)
  also have "\<dots> = 2 ^ 53 * 2 powi fexp x" by (simp add: power_int_add)
  finally have "x / 2 powi fexp x \<le> of_int (2 ^ 53)" by (simp add: divide_le_eq)
  then show ?thesis by (rule rne_le)
qed

lemma flpos_mono:
  assumes "0 < x" "x \<le> y"
  shows "flpos x \<le> flpos y"
proof (cases "fexp x = fexp y")
  case True
  have "x / 2 powi fexp y \<le> y / 2 powi fexp y" using assms by (simp add: divide_right_mono)
  then have "rne (x / 2 powi fexp y) \<le> rne (y / 2 powi fexp y)" by (rule rne_mono)
  with True show ?thesis by (simp add: flpos_def mult_right_mono)
next
  case False
  with flog2_mono [OF assms] have lt: "fexp x + 1 \<le> fexp y" by (auto simp: fexp_def)
  then have ey: "flog2 y = fexp y + 52" by (auto simp: fexp_def)
  have "flpos x \<le> of_int (2 ^ 53) * 2 powi fexp x"
    unfolding flpos_def using flpos_upper [OF assms(1)] by (intro mult_right_mono) (simp_all only: of_int_le_iff, simp)
  also have "\<dots> = 2 powi (53 + fexp x)" by (simp add: power_int_add)
  also have "\<dots> \<le> 2 powi (52 + fexp y)" using lt by (intro powi_2_mono) simp
  also have "\<dots> = of_int (2 ^ 52) * 2 powi fexp y" by (simp add: power_int_add)
  also have "\<dots> \<le> flpos y"
  proof -
    have "2 powi (52 + fexp y) \<le> y" using flog2_bounds(1) [of y] assms by (simp add: ey add.commute)
    then have "of_int (2 ^ 52) \<le> y / 2 powi fexp y" by (simp add: power_int_add le_divide_eq)
    then have "2 ^ 52 \<le> rne (y / 2 powi fexp y)" by (rule rne_ge)
    then have "(of_int (2 ^ 52) :: rat) \<le> of_int (rne (y / 2 powi fexp y))" by (simp only: of_int_le_iff)
    then show ?thesis unfolding flpos_def by (rule mult_right_mono) simp
  qed
  finally show ?thesis .
qed

lemma fl_zero [simp]: "fl 0 = 0"
  by (simp add: fl_def)

lemma fl_mono: "x \<le> y \<Longrightarrow> fl x \<le> fl y"
  using flpos_mono [of x y] flpos_mono [of "- y" "- x"] flpos_nonneg [of y] flpos_nonneg [of "- x"]
  by (auto simp: fl_def intro: order_trans [of _ 0])

subsection \<open>Representable numbers\<close>

text \<open>A number \<open>m * 2 ^ e\<close> with a significand of at most 53 bits is not changed by rounding.\<close>

lemma flpos_exact:
  assumes "0 < m" "m \<le> 2 ^ 53" "- 1074 \<le> e"
  shows "flpos (of_int m * 2 powi e) = of_int m * 2 powi e"
proof -
  let ?x = "of_int m * 2 powi e :: rat"
  have pos: "0 < ?x" using assms(1) by simp
  have "\<exists>n. ?x / 2 powi fexp ?x = of_int n"
  proof (cases "fexp ?x \<le> e")
    case True
    then have p: "(2::rat) powi (e - fexp ?x) = of_int (2 ^ nat (e - fexp ?x))" by (simp add: power_int_def)
    have "?x / 2 powi fexp ?x = of_int m * 2 powi (e - fexp ?x)" by (simp add: power_int_diff)
    also have "\<dots> = of_int (m * 2 ^ nat (e - fexp ?x))" unfolding p by simp
    finally show ?thesis by blast
  next
    case False
    with assms(3) have f: "fexp ?x = flog2 ?x - 52" and le: "e + 53 \<le> flog2 ?x" by (auto simp: fexp_def)
    from le have "2 powi (e + 53) \<le> (2::rat) powi flog2 ?x" by (intro powi_2_mono)
    also have "\<dots> \<le> ?x" by (rule flog2_bounds(1) [OF pos])
    finally have "2 ^ 53 * 2 powi e \<le> ?x" by (simp add: power_int_add)
    then have "(of_int (2 ^ 53) :: rat) \<le> of_int m" by simp
    then have "2 ^ 53 \<le> m" by (simp only: of_int_le_iff)
    with assms(2) have m: "m = 2 ^ 53" by simp
    have x: "?x = 2 powi (e + 53)" by (simp add: m power_int_add)
    have "(2::rat) powi flog2 ?x \<le> 2 powi (e + 53)" using flog2_bounds(1) [OF pos] unfolding x .
    also have "\<dots> < 2 powi (e + 54)" by (simp only: powi_2_less)
    finally have "flog2 ?x < e + 54" by (simp only: powi_2_less)
    with le f have f': "fexp ?x = e + 1" by simp
    have "?x / 2 powi fexp ?x = 2 powi (e + 53 - (e + 1))" unfolding f' unfolding x
      by (rule power_int_diff [symmetric]) simp
    then have "?x / 2 powi fexp ?x = of_int (2 ^ 52)" by simp
    then show ?thesis by blast
  qed
  then obtain n where n: "?x / 2 powi fexp ?x = of_int n" by blast
  then have "of_int n * 2 powi fexp ?x = ?x" by (simp add: divide_eq_eq)
  then show ?thesis unfolding flpos_def n by simp
qed

lemma fl_exact:
  assumes "\<bar>m\<bar> \<le> 2 ^ 53" "- 1074 \<le> e"
  shows "fl (of_int m * 2 powi e) = of_int m * 2 powi e"
proof -
  consider "m = 0" | "0 < m" | "m < 0" by linarith
  then show ?thesis
  proof cases
    case 1
    then show ?thesis by simp
  next
    case 2
    then have "(0::rat) < of_int m * 2 powi e" by simp
    then have "\<not> (of_int m * 2 powi e :: rat) < 0" by linarith
    with 2 flpos_exact [of m e] assms show ?thesis by (simp add: fl_def)
  next
    case 3
    then have "(of_int m * 2 powi e :: rat) < 0" by (simp add: mult_less_0_iff)
    with 3 flpos_exact [of "- m" e] assms show ?thesis by (simp add: fl_def)
  qed
qed

lemma fl_idem [simp]: "fl (fl x) = fl x"
proof -
  have *: "fl (flpos y) = flpos y" if "0 < y" for y
  proof -
    have "0 \<le> rne (y / 2 powi fexp y)" using that rne_ge [of 0 "y / 2 powi fexp y"] by simp
    then have "\<bar>rne (y / 2 powi fexp y)\<bar> \<le> 2 ^ 53" using flpos_upper [OF that] by simp
    then show ?thesis unfolding flpos_def by (rule fl_exact) (simp add: fexp_def)
  qed
  have minus: "fl (- z) = - fl z" for z by (auto simp: fl_def)
  show ?thesis
    using * [of x] * [of "- x"] by (auto simp: fl_def [of x] minus)
qed

lemma fl_of_int: "\<bar>n\<bar> \<le> 2 ^ 53 \<Longrightarrow> fl (of_int n) = of_int n"
  using fl_exact [of n 0] by simp

lemma fl_numeral: "numeral w \<le> (2::int) ^ 53 \<Longrightarrow> fl (numeral w) = numeral w"
  using fl_of_int [of "numeral w"] by simp

lemma fl_one [simp]: "fl 1 = 1"
  using fl_of_int [of 1] by simp

lemma rne_near:
  assumes "of_int m - 1 / 2 \<le> r" "r \<le> of_int m + 1 / 2" "even m \<or> (of_int m - 1 / 2 < r \<and> r < of_int m + 1 / 2)"
  shows "rne r = m"
proof -
  have "\<lfloor>r\<rfloor> = m \<or> \<lfloor>r\<rfloor> = m - 1" using assms by linarith
  then show ?thesis using assms by (auto simp: rne_def Let_def)
qed

lemma fl_value:
  assumes "(2::rat) ^ 52 \<le> x * 2 ^ k" "x * 2 ^ k < 2 ^ 53" "of_int m - 1 / 2 \<le> x * 2 ^ k" "x * 2 ^ k \<le> of_int m + 1 / 2"
    and "even m \<or> (of_int m - 1 / 2 < x * 2 ^ k \<and> x * 2 ^ k < of_int m + 1 / 2)" "k \<le> 1074"
  shows "fl x = of_int m / 2 ^ k"
proof -
  have scale: "(2::rat) powi (a - int k) * 2 ^ k = 2 powi a" for a
    by (simp add: power_int_diff)
  have "0 < x * 2 ^ k" by (rule less_le_trans [OF _ assms(1)]) simp
  then have pos: "0 < x" by (simp add: zero_less_mult_iff)
  have "2 powi (52 - int k) * 2 ^ k \<le> x * 2 ^ k" using assms(1) unfolding scale by (simp add: power_int_def)
  then have "52 - int k \<le> flog2 x" by (intro flog2_unique pos) simp
  moreover have "(2::rat) powi flog2 x * 2 ^ k < 2 powi (53 - int k) * 2 ^ k"
  proof -
    have "2 powi flog2 x * 2 ^ k \<le> x * 2 ^ k" by (intro mult_right_mono flog2_bounds(1) pos) simp
    also note assms(2)
    also have "(2::rat) ^ 53 = 2 powi (53 - int k) * 2 ^ k" unfolding scale by (simp add: power_int_def)
    finally show ?thesis .
  qed
  then have "2 powi flog2 x < (2::rat) powi (53 - int k)" by simp
  then have "flog2 x < 53 - int k" by (simp only: powi_2_less)
  ultimately have "flog2 x = 52 - int k" by simp
  then have e: "fexp x = - int k" using assms(6) by (simp add: fexp_def)
  have "rne (x / 2 powi fexp x) = m" using rne_near [OF assms(3-5)] by (simp add: e power_int_minus divide_inverse)
  then show ?thesis using pos by (simp add: fl_def flpos_def e power_int_minus divide_inverse)
qed

text \<open>Constants of the sources, computed once: numerator and power of two of the nearest double.\<close>

lemma fl_constants:
  "fl (1 / 10) = 3602879701896397 / 36028797018963968" "fl (3 / 10) = 5404319552844595 / 18014398509481984"
  "fl (7 / 10) = 3152519739159347 / 4503599627370496" "fl (4 / 5) = 3602879701896397 / 4503599627370496"
  using fl_value [of "1 / 10" 56 7205759403792794] fl_value [of "3 / 10" 54 5404319552844595]
    fl_value [of "7 / 10" 53 6305039478318694] fl_value [of "4 / 5" 53 7205759403792794] by simp_all

subsection \<open>The contract of rounded arithmetic\<close>

text \<open>
  What the rest of the development relies on. The bounds below are proved once, for any
  rounding with these three laws.
\<close>

locale rounding =
  fixes rnd :: "rat \<Rightarrow> rat"
  assumes rnd_mono: "x \<le> y \<Longrightarrow> rnd x \<le> rnd y"
    and rnd_idem: "rnd (rnd x) = rnd x"
    and rnd_int: "\<bar>n\<bar> \<le> 2 ^ 53 \<Longrightarrow> rnd (of_int n) = of_int n"
begin

lemma rnd_0: "rnd 0 = 0"
  using rnd_int [of 0] by simp

lemma rnd_nonneg: "0 \<le> x \<Longrightarrow> 0 \<le> rnd x"
  using rnd_mono [of 0 x] by (simp add: rnd_0)

lemma rnd_upper: "x \<le> b \<Longrightarrow> rnd b = b \<Longrightarrow> rnd x \<le> b"
  using rnd_mono [of x b] by simp

lemma rnd_lower: "b \<le> x \<Longrightarrow> rnd b = b \<Longrightarrow> b \<le> rnd x"
  using rnd_mono [of b x] by simp

lemma add_nonneg_increases: "rnd a = a \<Longrightarrow> 0 \<le> b \<Longrightarrow> a \<le> rnd (a + b)"
  by (rule rnd_lower) simp_all

lemma sub_one_bounds: "rnd a = a \<Longrightarrow> 1 \<le> a \<Longrightarrow> 0 \<le> rnd (a - 1) \<and> rnd (a - 1) \<le> a"
  by (auto intro: rnd_nonneg rnd_upper)

lemma gate_monotone: "rnd (u + p) \<le> b \<Longrightarrow> c \<le> p \<Longrightarrow> rnd (u + c) \<le> b"
  using rnd_mono [of "u + c" "u + p"] by simp

end

interpretation f64: rounding fl
  by unfold_locales (simp_all add: fl_mono fl_of_int)

lemma is_f64_fl [simp]: "is_f64 (fl x)"
  by (simp add: is_f64_def)

lemma is_f64_ops [simp]: "is_f64 (fadd a b)" "is_f64 (fsub a b)" "is_f64 (fmul a b)" "is_f64 (fdiv a b)" "is_f64 (f_of_int n)"
  by (simp_all add: float_ops)

lemma is_f64_0 [simp]: "is_f64 0"
  by (simp add: is_f64_def)

lemma is_f64_1 [simp]: "is_f64 1"
  by (simp add: is_f64_def)

subsection \<open>Durations in seconds\<close>

text \<open>\<^verbatim>\<open>Duration.Seconds\<close>: whole seconds plus the remaining nanoseconds, each as a float.\<close>

definition duration_Seconds :: "duration \<Rightarrow> f64" where
  "duration_Seconds d =
     (let sec = go_div d Second; nsec = d - sec * Second
      in fadd (f_of_int sec) (fdiv (f_of_int nsec) 1000000000))"

text \<open>\<^verbatim>\<open>int(d.Seconds())\<close>, and \<^verbatim>\<open>fmt.Sprintf("%.0f", d.Seconds())\<close>, which rounds to even.\<close>

definition seconds_of :: "duration \<Rightarrow> int" where
  "seconds_of d = int_of_f (duration_Seconds d)"

definition seconds_rounded :: "duration \<Rightarrow> int" where
  "seconds_rounded d = rne (duration_Seconds d)"

lemma duration_Seconds_whole: "\<bar>n\<bar> \<le> 2 ^ 53 \<Longrightarrow> duration_Seconds (n * Second) = of_int n"
  by (simp add: duration_Seconds_def Let_def float_ops go_div_def sgn_mult abs_mult Second_def fl_of_int mult_sgn_abs)

lemma seconds_of_whole: "\<bar>n\<bar> \<le> 2 ^ 53 \<Longrightarrow> seconds_of (n * Second) = n"
  by (simp add: seconds_of_def duration_Seconds_whole int_of_f_def)

end
