(* ===== verification/Llm_Types.thy ===== *)
theory Llm_Types
  imports Float64
begin

text \<open>
  The data model of \<^verbatim>\<open>internal/llm\<close> (\<^verbatim>\<open>provider.go\<close> lines 20 to 212): requests, responses, model
  descriptions, routing tasks and routing decisions. \<^verbatim>\<open>interface{}\<close> values decoded from JSON
  are the datatype \<open>json\<close>. A nil slice and an empty slice are both the empty list: no modelled
  code distinguishes them. The human-readable \<^verbatim>\<open>Reason\<close> text of candidates and decisions is
  left out: nothing reads it back.
\<close>

datatype json = JNull | JBool bool | JNum f64 | JStr string | JArr "json list" | JObj "(string \<times> json) list"

record ToolCall =
  tc_ID :: string
  tc_Name :: string
  tc_Arguments :: "(string, json) gomap"

record ToolDef =
  td_Name :: string
  td_Description :: string
  td_Parameters :: "(string, json) gomap"

record Message =
  msg_Role :: string
  msg_Content :: string
  msg_ToolCallID :: string
  msg_ToolCalls :: "ToolCall list"

record ChatRequest =
  req_Model :: string
  req_Messages :: "Message list"
  req_MaxTokens :: int
  req_Temperature :: f64
  req_Tools :: "ToolDef list"
  req_System :: string

record ChatResponse =
  rsp_Content :: string
  rsp_ToolCalls :: "ToolCall list"
  rsp_InputTokens :: int
  rsp_OutputTokens :: int
  rsp_Cost :: f64
  rsp_Latency :: duration
  rsp_Model :: string
  rsp_Provider :: string
  rsp_StopReason :: string

record ModelInfo =
  mi_Name :: string
  mi_Provider :: string
  InputCostPer1K :: f64
  OutputCostPer1K :: f64
  mi_MaxTokens :: int
  Capabilities :: "string list"

definition Supports :: "ModelInfo \<Rightarrow> string \<Rightarrow> bool" where
  "Supports m capability = list_ex (\<lambda>c. c = capability) (Capabilities m)"

definition supportsAll :: "ModelInfo \<Rightarrow> string list \<Rightarrow> bool" where
  "supportsAll info required = list_all (\<lambda>cap. Supports info cap) required"

record LlmTask =
  tk_ID :: string
  tk_OrgID :: string
  tk_Type :: string
  tk_Description :: string
  tk_FilesChanged :: "string list"
  RequiresReasoning :: bool
  IsNovel :: bool
  tk_Tags :: "string list"
  tk_Messages :: "Message list"
  tk_Complexity :: f64
  RequiredCapabilities :: "string list"
  TargetModel :: string

record FallbackOption =
  fo_Provider :: string
  fo_Model :: string
  fo_EstCost :: f64

record RoutingCandidate =
  rc_Provider :: string
  rc_Model :: string
  rc_EstCost :: f64
  rc_EstLatency :: duration
  rc_Confidence :: f64

record RoutingDecision =
  rd_Provider :: string
  rd_Model :: string
  rd_EstCost :: f64
  rd_EstLatency :: duration
  rd_Confidence :: f64
  rd_Fallbacks :: "FallbackOption list"

record RouterConfig =
  cfg_DefaultModel :: string
  BudgetPerTask :: f64
  DefaultOutputTokens :: int

text \<open>Message and task literals, as the callers of the router write them.\<close>

definition chat_message :: "string \<Rightarrow> string \<Rightarrow> Message" where
  "chat_message role content = \<lparr>msg_Role = role, msg_Content = content, msg_ToolCallID = [], msg_ToolCalls = []\<rparr>"

definition review_task :: "string \<Rightarrow> string \<Rightarrow> string \<Rightarrow> string list \<Rightarrow> Message list \<Rightarrow> LlmTask" where
  "review_task i ty desc tags msgs =
     \<lparr>tk_ID = i, tk_OrgID = [], tk_Type = ty, tk_Description = desc, tk_FilesChanged = [], RequiresReasoning = False, IsNovel = False,
      tk_Tags = tags, tk_Messages = msgs, tk_Complexity = 0, RequiredCapabilities = [], TargetModel = []\<rparr>"

lemma supportsAll_iff: "supportsAll info required \<longleftrightarrow> set required \<subseteq> set (Capabilities info)"
  by (auto simp: supportsAll_def Supports_def list_all_iff list_ex_iff)

end
