(* ===== verification/Circuit_Breaker.thy ===== *)
theory Circuit_Breaker
  imports Go_Prelude
begin

text \<open>
  The per-provider circuit breaker of \<^verbatim>\<open>internal/llm/circuit_breaker.go\<close>.

  \<^verbatim>\<open>Execute\<close> holds the mutex twice: before the protected call (\<open>cb_Execute_enter\<close>, which
  decides whether the call may run) and after it (\<open>cb_Execute_exit\<close>, which records its
  outcome); the call itself runs unlocked. \<open>cb_Execute\<close> is one uninterrupted execution.
  \<open>cb_step\<close> is the interleaving of any number of goroutines that share one breaker: its state
  adds the number of calls that have entered and not yet left.

  Shown: in every reachable interleaving a half-open breaker has let exactly one probe
  through, rejects every further call, and has a call in flight whose completion resolves it;
  an open breaker has reached its threshold; the sequential behaviour of \<^verbatim>\<open>Execute\<close> on every
  branch; failures are counted since the last reset and not consecutively.
\<close>

subsection \<open>State\<close>

datatype CircuitState = CircuitClosed | CircuitOpen | CircuitHalfOpen

record CircuitBreaker =
  cb_state :: CircuitState
  failCount :: int
  successCount :: int
  lastFailure :: gotime
  threshold :: int
  cb_timeout :: duration
  halfOpenProbes :: int

definition NewCircuitBreaker :: "int \<Rightarrow> duration \<Rightarrow> CircuitBreaker" where
  "NewCircuitBreaker thr tmo =
     \<lparr>cb_state = CircuitClosed, failCount = 0, successCount = 0, lastFailure = zero_time,
      threshold = thr, cb_timeout = tmo, halfOpenProbes = 0\<rparr>"

subsection \<open>Operations\<close>

text \<open>The first critical section: the new state, and whether the call is admitted.\<close>

definition cb_Execute_enter :: "gotime \<Rightarrow> CircuitBreaker \<Rightarrow> CircuitBreaker \<times> bool" where
  "cb_Execute_enter now cb =
     (if cb_state cb = CircuitOpen \<and> \<not> cb_timeout cb < time_Since now (lastFailure cb)
      then (cb, False)
      else
        let cb1 = (if cb_state cb = CircuitOpen
                   then cb\<lparr>cb_state := CircuitHalfOpen, halfOpenProbes := 0\<rparr> else cb)
        in if cb_state cb1 = CircuitHalfOpen
           then (if halfOpenProbes cb1 = 0 then (cb1\<lparr>halfOpenProbes := 1\<rparr>, True) else (cb1, False))
           else (cb1, True))"

text \<open>The second critical section, after the call returned an error (\<open>failed\<close>) or nil.\<close>

definition cb_Execute_exit :: "gotime \<Rightarrow> bool \<Rightarrow> CircuitBreaker \<Rightarrow> CircuitBreaker" where
  "cb_Execute_exit now failed cb =
     (if failed
      then let cb1 = cb\<lparr>failCount := failCount cb + 1, lastFailure := now\<rparr>
           in if threshold cb1 \<le> failCount cb1 then cb1\<lparr>cb_state := CircuitOpen\<rparr> else cb1
      else let cb1 = cb\<lparr>successCount := successCount cb + 1\<rparr>
           in if cb_state cb1 = CircuitHalfOpen
              then cb1\<lparr>cb_state := CircuitClosed, failCount := 0\<rparr> else cb1)"

datatype 'e exec_error = ErrCircuitOpen | FnError 'e

text \<open>
  \<open>Execute\<close> with the result of the protected function given; \<open>now\<close> and \<open>now'\<close> are the two
  readings of the clock.
\<close>

definition cb_Execute ::
  "gotime \<Rightarrow> gotime \<Rightarrow> 'e option \<Rightarrow> CircuitBreaker \<Rightarrow> CircuitBreaker \<times> 'e exec_error option" where
  "cb_Execute now now' err cb =
     (case cb_Execute_enter now cb of
        (cb1, False) \<Rightarrow> (cb1, Some ErrCircuitOpen)
      | (cb1, True) \<Rightarrow> (cb_Execute_exit now' (err \<noteq> None) cb1, map_option FnError err))"

definition cb_IsOpen :: "CircuitBreaker \<Rightarrow> bool" where
  "cb_IsOpen cb \<longleftrightarrow> cb_state cb = CircuitOpen"

definition cb_Reset :: "CircuitBreaker \<Rightarrow> CircuitBreaker" where
  "cb_Reset cb = cb\<lparr>cb_state := CircuitClosed, failCount := 0, successCount := 0\<rparr>"

lemmas cb_defs = cb_Execute_enter_def cb_Execute_exit_def cb_Reset_def cb_IsOpen_def

subsection \<open>Goroutines sharing a breaker\<close>

record cb_sys =
  breaker :: CircuitBreaker
  inflight :: nat

inductive cb_step :: "cb_sys \<Rightarrow> cb_sys \<Rightarrow> bool" where
  admit: "cb_Execute_enter now (breaker s) = (cb', True) \<Longrightarrow>
     cb_step s (s\<lparr>breaker := cb', inflight := Suc (inflight s)\<rparr>)"
| refuse: "cb_Execute_enter now (breaker s) = (cb', False) \<Longrightarrow> cb_step s (s\<lparr>breaker := cb'\<rparr>)"
| leave: "inflight s = Suc n \<Longrightarrow>
     cb_step s (s\<lparr>breaker := cb_Execute_exit now failed (breaker s), inflight := n\<rparr>)"
| reset: "cb_step s (s\<lparr>breaker := cb_Reset (breaker s)\<rparr>)"

inductive_cases cb_stepE: "cb_step s t"

inductive cb_reachable :: "int \<Rightarrow> duration \<Rightarrow> cb_sys \<Rightarrow> bool" for thr tmo where
  start: "cb_reachable thr tmo \<lparr>breaker = NewCircuitBreaker thr tmo, inflight = 0\<rparr>"
| step: "cb_reachable thr tmo s \<Longrightarrow> cb_step s t \<Longrightarrow> cb_reachable thr tmo t"

subsection \<open>Invariant\<close>

text \<open>
  A breaker that is not closed has counted at least \<open>threshold\<close> failures, and a half-open one
  has handed out its probe and has some call in flight.
\<close>

definition cb_inv :: "cb_sys \<Rightarrow> bool" where
  "cb_inv s \<longleftrightarrow>
     (let cb = breaker s in
      (cb_state cb \<noteq> CircuitClosed \<longrightarrow> threshold cb \<le> failCount cb) \<and>
      (cb_state cb = CircuitHalfOpen \<longrightarrow> halfOpenProbes cb = 1 \<and> 0 < inflight s))"

lemma enter_cases:
  assumes "cb_Execute_enter now cb = (cb', ok)"
  obtains (closed) "cb_state cb = CircuitClosed" "cb' = cb" "ok"
  | (shut) "cb_state cb = CircuitOpen" "cb' = cb" "\<not> ok"
  | (probe) "cb_state cb = CircuitOpen" "cb' = cb\<lparr>cb_state := CircuitHalfOpen, halfOpenProbes := 1\<rparr>" "ok"
  | (first) "cb_state cb = CircuitHalfOpen" "halfOpenProbes cb = 0" "cb' = cb\<lparr>halfOpenProbes := 1\<rparr>" "ok"
  | (busy) "cb_state cb = CircuitHalfOpen" "halfOpenProbes cb \<noteq> 0" "cb' = cb" "\<not> ok"
  using assms
  by (cases "cb_state cb") (auto simp: cb_Execute_enter_def Let_def split: if_splits)

lemma cb_inv_step: "cb_step s t \<Longrightarrow> cb_inv s \<Longrightarrow> cb_inv t"
proof (induction rule: cb_step.induct)
  case (admit now s cb')
  from admit(1) show ?case
    by (cases rule: enter_cases) (use admit(2) in \<open>auto simp: cb_inv_def Let_def\<close>)
next
  case (refuse now s cb')
  from refuse(1) show ?case
    by (cases rule: enter_cases) (use refuse(2) in \<open>auto simp: cb_inv_def Let_def\<close>)
next
  case (leave s n now failed)
  then show ?case
    by (cases "cb_state (breaker s)") (auto simp: cb_inv_def cb_Execute_exit_def Let_def)
next
  case (reset s)
  show ?case by (simp add: cb_inv_def cb_Reset_def)
qed

lemma cb_reachable_inv: "cb_reachable thr tmo s \<Longrightarrow> cb_inv s"
proof (induction rule: cb_reachable.induct)
  case start
  show ?case by (simp add: cb_inv_def NewCircuitBreaker_def)
next
  case (step s t)
  then show ?case by (blast intro: cb_inv_step)
qed

lemma cb_step_config:
  "cb_step s t \<Longrightarrow> threshold (breaker t) = threshold (breaker s) \<and> cb_timeout (breaker t) = cb_timeout (breaker s)"
proof (induction rule: cb_step.induct)
  case (admit now s cb')
  from admit show ?case by (cases rule: enter_cases) auto
next
  case (refuse now s cb')
  from refuse show ?case by (cases rule: enter_cases) auto
qed (auto simp: cb_Execute_exit_def cb_Reset_def Let_def)

subsection \<open>Sequences of calls\<close>

text \<open>
  A list of executions one after the other, each given by its two clock readings and whether
  the protected call failed.
\<close>

fun cb_run :: "(gotime \<times> gotime \<times> bool) list \<Rightarrow> CircuitBreaker \<Rightarrow> CircuitBreaker" where
  "cb_run [] cb = cb"
| "cb_run ((now, now', failed) # os) cb =
     cb_run os (fst (cb_Execute now now' (if failed then Some () else None) cb))"

definition failures :: "(gotime \<times> gotime \<times> bool) list \<Rightarrow> int" where
  "failures os = int (length (filter (\<lambda>(now, now', failed). failed) os))"

lemma failures_simps [simp]:
  "failures [] = 0" "failures ((n, n', b) # os) = (if b then 1 else 0) + failures os"
  by (simp_all add: failures_def)

lemma failures_nonneg: "0 \<le> failures os"
  by (simp add: failures_def)

lemma cb_run_append: "cb_run (os @ ps) cb = cb_run ps (cb_run os cb)"
  by (induction os cb rule: cb_run.induct) auto

text \<open>A closed breaker admits the call, and counts it.\<close>

lemma cb_Execute_closed:
  assumes "cb_state cb = CircuitClosed"
  shows "cb_Execute now now' err cb = (cb_Execute_exit now' (err \<noteq> None) cb, map_option FnError err)"
  using assms by (simp add: cb_Execute_def cb_Execute_enter_def)

lemma cb_run_below_threshold:
  "cb_state cb = CircuitClosed \<Longrightarrow> failCount cb + failures os < threshold cb \<Longrightarrow>
   cb_state (cb_run os cb) = CircuitClosed \<and> failCount (cb_run os cb) = failCount cb + failures os \<and>
   threshold (cb_run os cb) = threshold cb"
proof (induction os cb rule: cb_run.induct)
  case (1 cb)
  then show ?case by simp
next
  case (2 now now' failed os cb)
  define cb1 where "cb1 = fst (cb_Execute now now' (if failed then Some () else None) cb)"
  have nn: "0 \<le> failures os" by (rule failures_nonneg)
  from 2(2) have cb1: "cb1 = cb_Execute_exit now' failed cb"
    by (simp add: cb1_def cb_Execute_closed)
  with 2(2,3) nn have "cb_state cb1 = CircuitClosed" "failCount cb1 = failCount cb + (if failed then 1 else 0)"
    "threshold cb1 = threshold cb"
    by (auto simp: cb_Execute_exit_def Let_def)
  with 2(1,3) show ?case by (auto simp flip: cb1_def)
qed

subsection \<open>Properties\<close>

text \<open>
  In every interleaving of goroutines over one breaker: a half-open breaker has admitted
  its single probe (the next caller is refused and changes nothing), some call is in flight,
  and whichever in-flight call completes first resolves the half-open state: a success
  closes the circuit and clears the failure count, a failure reopens it. A half-open breaker
  is therefore never stuck while calls return.
\<close>

theorem half_open_single_probe:
  assumes "cb_reachable thr tmo s" and "cb_state (breaker s) = CircuitHalfOpen"
  shows "cb_Execute_enter now (breaker s) = (breaker s, False) \<and> 0 < inflight s \<and>
    cb_state (cb_Execute_exit now' False (breaker s)) = CircuitClosed \<and>
    failCount (cb_Execute_exit now' False (breaker s)) = 0 \<and>
    cb_state (cb_Execute_exit now' True (breaker s)) = CircuitOpen"
proof -
  from assms have "threshold (breaker s) \<le> failCount (breaker s)" "halfOpenProbes (breaker s) = 1" "0 < inflight s"
    using cb_reachable_inv [OF assms(1)] by (auto simp: cb_inv_def Let_def)
  with assms(2) show ?thesis
    by (simp add: cb_Execute_enter_def cb_Execute_exit_def Let_def)
qed

definition probing_example :: cb_sys where
  "probing_example =
     \<lparr>breaker = \<lparr>cb_state = CircuitHalfOpen, failCount = 1, successCount = 0, lastFailure = 5,
                threshold = 1, cb_timeout = 10, halfOpenProbes = 1\<rparr>, inflight = 1\<rparr>"

lemma probing_example_reachable: "cb_reachable 1 10 probing_example"
proof -
  let ?s0 = "\<lparr>breaker = NewCircuitBreaker 1 10, inflight = 0\<rparr>"
  let ?s1 = "?s0\<lparr>inflight := 1\<rparr>"
  let ?s2 = "\<lparr>breaker = cb_Execute_exit 5 True (NewCircuitBreaker 1 10), inflight = 0\<rparr>"
  have 1: "cb_step ?s0 ?s1"
    using cb_step.admit [of 0 ?s0 "NewCircuitBreaker 1 10"]
    by (simp add: cb_Execute_enter_def NewCircuitBreaker_def)
  have 2: "cb_step ?s1 ?s2" using cb_step.leave [of ?s1 0 5 True] by simp
  have 3: "cb_step ?s2 probing_example"
    using cb_step.admit [of 20 ?s2 "breaker probing_example"]
    by (simp add: cb_defs NewCircuitBreaker_def probing_example_def time_defs)
  from cb_reachable.start 1 2 3 show ?thesis by (blast intro: cb_reachable.step)
qed

theorem half_open_single_probe_witness:
  "cb_reachable 1 10 probing_example \<and> cb_state (breaker probing_example) = CircuitHalfOpen \<and>
   cb_Execute_enter 30 (breaker probing_example) = (breaker probing_example, False)"
  using probing_example_reachable half_open_single_probe [OF probing_example_reachable, of 30 40]
  by (simp add: probing_example_def)

text \<open>
  Failures are counted since the last reset, not consecutively: from a fresh breaker with a
  positive threshold, any sequence of calls with fewer failures than the threshold leaves it
  closed with exactly that failure count, whatever successes lie between them; and when the
  count is one short of the threshold, the next failure opens the circuit and stamps the
  time of that failure.
\<close>

theorem failures_accumulate:
  assumes "failures os < thr"
  shows "cb_state (cb_run os (NewCircuitBreaker thr tmo)) = CircuitClosed \<and>
    failCount (cb_run os (NewCircuitBreaker thr tmo)) = failures os \<and>
    (failures os = thr - 1 \<longrightarrow>
       cb_IsOpen (cb_run (os @ [(now, now', True)]) (NewCircuitBreaker thr tmo)) \<and>
       lastFailure (cb_run (os @ [(now, now', True)]) (NewCircuitBreaker thr tmo)) = now')"
proof -
  let ?cb = "cb_run os (NewCircuitBreaker thr tmo)"
  have r: "cb_state ?cb = CircuitClosed" "failCount ?cb = failures os" "threshold ?cb = thr"
    using cb_run_below_threshold [of "NewCircuitBreaker thr tmo" os] assms
    by (simp_all add: NewCircuitBreaker_def)
  then show ?thesis
    by (simp add: cb_run_append cb_Execute_closed cb_Execute_exit_def Let_def cb_IsOpen_def)
qed

theorem failures_accumulate_witness:
  "failures [(0, 1, True), (2, 3, False), (4, 5, True), (6, 7, False)] < 3 \<and>
   cb_IsOpen (cb_run ([(0, 1, True), (2, 3, False), (4, 5, True), (6, 7, False)] @ [(8, 9, True)]) (NewCircuitBreaker 3 10))"
  using failures_accumulate [of "[(0, 1, True), (2, 3, False), (4, 5, True), (6, 7, False)]" 3 10 8 9] by simp

text \<open>
  An open breaker: until strictly more than the timeout has passed since the last failure
  every call is refused with \<open>ErrCircuitOpen\<close> and the state does not change; after that a single
  call is let through, and its success closes the circuit with a cleared failure count while
  its failure (reported to the caller) opens it again with the cool-down restarted.
\<close>

theorem open_breaker_cooldown:
  assumes "cb_state cb = CircuitOpen" and "threshold cb \<le> failCount cb"
  shows "(time_Since now (lastFailure cb) \<le> cb_timeout cb \<longrightarrow>
            cb_Execute now now' err cb = (cb, Some ErrCircuitOpen)) \<and>
         (cb_timeout cb < time_Since now (lastFailure cb) \<longrightarrow>
            (case err of
               None \<Rightarrow> (\<exists>cb'. cb_Execute now now' err cb = (cb', None) \<and>
                          cb_state cb' = CircuitClosed \<and> failCount cb' = 0)
             | Some e \<Rightarrow> (\<exists>cb'. cb_Execute now now' err cb = (cb', Some (FnError e)) \<and>
                            cb_state cb' = CircuitOpen \<and> lastFailure cb' = now')))"
  using assms by (auto simp: cb_Execute_def cb_defs Let_def split: option.split)

theorem open_breaker_cooldown_witness:
  "\<exists>cb'. cb_Execute 31 40 (None :: string option) (cb_Execute_exit 0 True (NewCircuitBreaker 1 30)) = (cb', None) \<and>
     cb_state cb' = CircuitClosed \<and> failCount cb' = 0"
  using open_breaker_cooldown [of "cb_Execute_exit 0 True (NewCircuitBreaker 1 30)" 31 40 "None :: string option"]
  by (simp add: cb_Execute_exit_def NewCircuitBreaker_def time_defs)

end
