(* ===== verification/Health_Monitor.thy ===== *)
theory Health_Monitor
  imports Float64
begin

text \<open>
  Provider health tracking of \<^verbatim>\<open>internal/llm/health.go\<close>: per provider a status, an error rate, the
  number of consecutive failures and a window of the last hundred latencies with its median.
  The Prometheus gauge that two of the operations set is the field \<open>hm_gauge\<close>.
  \<open>'p\<close> is the type of provider handles; the provider's own \<^verbatim>\<open>HealthCheck\<close> is code behind an
  interface and enters as an argument.

  Shown: the invariant of every tracked provider (error rate in \<open>[0, 1]\<close>, bounded window,
  status determined by the number of consecutive failures), the confidence score lies in
  \<open>[0, 1]\<close>, and the recorded P50 is a median of the window.
\<close>

subsection \<open>State\<close>

datatype HealthStatus = StatusHealthy | StatusDegraded | StatusUnhealthy | StatusDown

record 'p ProviderHealth =
  ph_Status :: HealthStatus
  ph_Provider :: "'p option"
  ErrorRate :: f64
  ConsecutiveFails :: int
  LastChecked :: gotime
  LatencyP50 :: duration
  latencies :: "duration list"

record 'p HealthMonitor =
  hm_providers :: "(string, 'p ProviderHealth) gomap"
  hm_gauge :: "(string, int) gomap"

definition NewHealthMonitor :: "'p HealthMonitor" where
  "NewHealthMonitor = \<lparr>hm_providers = [], hm_gauge = []\<rparr>"

subsection \<open>Operations\<close>

definition hm_RegisterProvider :: "string \<Rightarrow> 'p option \<Rightarrow> 'p HealthMonitor \<Rightarrow> 'p HealthMonitor" where
  "hm_RegisterProvider name p h =
     h\<lparr>hm_providers := gput name
        \<lparr>ph_Status = StatusHealthy, ph_Provider = p, ErrorRate = 0, ConsecutiveFails = 0,
         LastChecked = zero_time, LatencyP50 = 0, latencies = []\<rparr> (hm_providers h)\<rparr>"

text \<open>The iteration order of the map is the argument \<open>ks\<close>.\<close>

definition GetHealthyProviders :: "string list \<Rightarrow> 'p HealthMonitor \<Rightarrow> string list" where
  "GetHealthyProviders ks h =
     filter (\<lambda>name. case gget (hm_providers h) name of
                      None \<Rightarrow> False
                    | Some health \<Rightarrow> ph_Status health = StatusHealthy \<or> ph_Status health = StatusDegraded) ks"

definition hm_Confidence :: "string \<Rightarrow> 'p HealthMonitor \<Rightarrow> f64" where
  "hm_Confidence name h =
     (case gget (hm_providers h) name of
        None \<Rightarrow> fl (1 / 2)
      | Some health \<Rightarrow>
          (case ph_Status health of
             StatusHealthy \<Rightarrow> max (fl (1 / 2)) (fsub 1 (ErrorRate health))
           | StatusDegraded \<Rightarrow> max (fl (3 / 10)) (fsub (fl (8 / 10)) (ErrorRate health))
           | StatusUnhealthy \<Rightarrow> fl (2 / 10)
           | StatusDown \<Rightarrow> 0))"

definition ph_fail :: "'p ProviderHealth \<Rightarrow> 'p ProviderHealth" where
  "ph_fail health =
     (let h1 = health\<lparr>ConsecutiveFails := ConsecutiveFails health + 1,
                      ErrorRate := (if fadd (ErrorRate health) (fl (1 / 10)) < 1
                                    then fadd (ErrorRate health) (fl (1 / 10)) else 1)\<rparr>
      in if 3 \<le> ConsecutiveFails h1 then h1\<lparr>ph_Status := StatusDown\<rparr>
         else if 1 \<le> ConsecutiveFails h1 then h1\<lparr>ph_Status := StatusUnhealthy\<rparr>
         else h1)"

definition hm_RecordFailure :: "string \<Rightarrow> 'p HealthMonitor \<Rightarrow> 'p HealthMonitor" where
  "hm_RecordFailure name h =
     (case gget (hm_providers h) name of
        None \<Rightarrow> h
      | Some health \<Rightarrow>
          h\<lparr>hm_providers := gput name (ph_fail health) (hm_providers h),
            hm_gauge := gput name 0 (hm_gauge h)\<rparr>)"

definition ph_succeed :: "gotime \<Rightarrow> duration \<Rightarrow> 'p ProviderHealth \<Rightarrow> 'p ProviderHealth" where
  "ph_succeed now latency health =
     (let h1 = health\<lparr>ConsecutiveFails := 0, ErrorRate := 0, LastChecked := now,
                      latencies := latencies health @ [latency]\<rparr>;
          h2 = (if 100 < length (latencies h1) then h1\<lparr>latencies := tl (latencies h1)\<rparr> else h1);
          h3 = (if 0 < length (latencies h2)
                then h2\<lparr>LatencyP50 := sort (latencies h2) ! (length (latencies h2) div 2)\<rparr> else h2)
      in if ErrorRate h3 < fl (1 / 10) then h3\<lparr>ph_Status := StatusHealthy\<rparr>
         else h3\<lparr>ph_Status := StatusDegraded\<rparr>)"

definition hm_RecordSuccess :: "gotime \<Rightarrow> string \<Rightarrow> duration \<Rightarrow> 'p HealthMonitor \<Rightarrow> 'p HealthMonitor" where
  "hm_RecordSuccess now name latency h =
     (let h1 = h\<lparr>hm_gauge := gput name 1 (hm_gauge h)\<rparr>
      in case gget (hm_providers h1) name of
           None \<Rightarrow> h1
         | Some health \<Rightarrow>
             h1\<lparr>hm_providers := gput name (ph_succeed now latency health) (hm_providers h1)\<rparr>)"

text \<open>
  \<open>healthcheck p\<close> is the provider's answer (whether \<^verbatim>\<open>HealthCheck\<close> returned an error); \<open>start\<close>,
  \<open>finish\<close> and \<open>now\<close> are the clock readings before the check, after it, and inside
  \<^verbatim>\<open>RecordSuccess\<close>.
\<close>

definition CheckHealth ::
  "('p \<Rightarrow> bool) \<Rightarrow> gotime \<Rightarrow> gotime \<Rightarrow> gotime \<Rightarrow> string \<Rightarrow> 'p HealthMonitor \<Rightarrow> 'p HealthMonitor" where
  "CheckHealth healthcheck start finish now name h =
     (case gget (hm_providers h) name of
        None \<Rightarrow> h
      | Some health \<Rightarrow>
          (case ph_Provider health of
             None \<Rightarrow> h
           | Some p \<Rightarrow>
               if healthcheck p then hm_RecordFailure name h
               else hm_RecordSuccess now name (time_Since finish start) h))"

subsection \<open>Invariant\<close>

definition status_of_fails :: "int \<Rightarrow> HealthStatus" where
  "status_of_fails n = (if n = 0 then StatusHealthy else if n < 3 then StatusUnhealthy else StatusDown)"

definition ph_inv :: "'p ProviderHealth \<Rightarrow> bool" where
  "ph_inv health \<longleftrightarrow>
     0 \<le> ErrorRate health \<and> ErrorRate health \<le> 1 \<and> 0 \<le> ConsecutiveFails health \<and>
     length (latencies health) \<le> 100 \<and>
     ph_Status health = status_of_fails (ConsecutiveFails health)"

definition hm_inv :: "'p HealthMonitor \<Rightarrow> bool" where
  "hm_inv h \<longleftrightarrow> (\<forall>name health. gget (hm_providers h) name = Some health \<longrightarrow> ph_inv health)"

lemma hm_invD: "hm_inv h \<Longrightarrow> gget (hm_providers h) name = Some health \<Longrightarrow> ph_inv health"
  by (simp add: hm_inv_def)

lemma tenth_bounds: "0 < fl (1 / 10)" "fl (1 / 10) < 1"
  by code_simp+

lemma ph_inv_fail: "ph_inv health \<Longrightarrow> ph_inv (ph_fail health)"
  using tenth_bounds(1)
  by (auto simp: ph_inv_def ph_fail_def Let_def status_of_fails_def fadd_def intro: f64.rnd_nonneg)

lemma ph_succeed_simps [simp]:
  "ConsecutiveFails (ph_succeed now l health) = 0" "ErrorRate (ph_succeed now l health) = 0"
  "LastChecked (ph_succeed now l health) = now" "ph_Status (ph_succeed now l health) = StatusHealthy"
  "ph_Provider (ph_succeed now l health) = ph_Provider health"
  "latencies (ph_succeed now l health) =
     (if 100 < length (latencies health @ [l]) then tl (latencies health @ [l]) else latencies health @ [l])"
  using tenth_bounds(1) by (auto simp: ph_succeed_def Let_def)

lemma latencies_succeed_ne: "latencies (ph_succeed now l health) \<noteq> []"
  by (cases "latencies health") auto

lemma LatencyP50_succeed:
  "LatencyP50 (ph_succeed now l health) =
     sort (latencies (ph_succeed now l health)) ! (length (latencies (ph_succeed now l health)) div 2)"
proof (cases "100 < length (latencies health @ [l])")
  case True
  then have "tl (latencies health @ [l]) \<noteq> []" by (cases "latencies health") auto
  with True show ?thesis by (simp add: ph_succeed_def Let_def)
next
  case False
  then show ?thesis by (simp add: ph_succeed_def Let_def)
qed

lemma ph_inv_succeed: "ph_inv health \<Longrightarrow> ph_inv (ph_succeed now l health)"
  by (auto simp: ph_inv_def status_of_fails_def)

lemma hm_inv_new: "hm_inv NewHealthMonitor"
  by (simp add: hm_inv_def NewHealthMonitor_def)

lemma hm_inv_register: "hm_inv h \<Longrightarrow> hm_inv (hm_RegisterProvider name p h)"
  by (simp add: hm_inv_def hm_RegisterProvider_def ph_inv_def status_of_fails_def)

lemma hm_inv_failure: "hm_inv h \<Longrightarrow> hm_inv (hm_RecordFailure name h)"
  by (auto simp: hm_inv_def hm_RecordFailure_def intro: ph_inv_fail split: option.split)

lemma hm_inv_success: "hm_inv h \<Longrightarrow> hm_inv (hm_RecordSuccess now name l h)"
  by (auto simp: hm_inv_def hm_RecordSuccess_def Let_def intro: ph_inv_succeed split: option.split)

lemma hm_inv_check: "hm_inv h \<Longrightarrow> hm_inv (CheckHealth hc t1 t2 t3 name h)"
  by (auto simp: CheckHealth_def hm_inv_failure hm_inv_success split: option.split)

subsection \<open>Reachable monitors\<close>

inductive hm_reachable :: "'p HealthMonitor \<Rightarrow> bool" where
  new: "hm_reachable NewHealthMonitor"
| register: "hm_reachable h \<Longrightarrow> hm_reachable (hm_RegisterProvider name p h)"
| failure: "hm_reachable h \<Longrightarrow> hm_reachable (hm_RecordFailure name h)"
| success: "hm_reachable h \<Longrightarrow> hm_reachable (hm_RecordSuccess now name l h)"
| check: "hm_reachable h \<Longrightarrow> hm_reachable (CheckHealth hc t1 t2 t3 name h)"

lemma hm_reachable_inv: "hm_reachable h \<Longrightarrow> hm_inv h"
  by (induction rule: hm_reachable.induct)
     (simp_all add: hm_inv_new hm_inv_register hm_inv_failure hm_inv_success hm_inv_check)

subsection \<open>Medians\<close>

text \<open>The element at the middle of a sorted list splits it in two halves.\<close>

lemma sort_filter_lengths:
  fixes xs :: "int list"
  shows "length (filter P (sort xs)) = length (filter P xs)"
  by (simp add: filter_sort)

lemma sorted_filter_less_nth:
  fixes ys :: "int list"
  assumes "sorted ys" "i < length ys"
  shows "length (filter (\<lambda>y. y < ys ! i) ys) \<le> i"
proof -
  have "filter (\<lambda>y. y < ys ! i) (drop i ys) = []"
    using assms by (auto simp: filter_empty_conv in_set_conv_nth sorted_iff_nth_mono linorder_not_less)
  then have "filter (\<lambda>y. y < ys ! i) ys = filter (\<lambda>y. y < ys ! i) (take i ys)"
    by (metis append.right_neutral append_take_drop_id filter_append)
  then show ?thesis using length_filter_le [of _ "take i ys"] by (metis length_take min.cobounded2 order_trans)
qed

lemma sorted_filter_greater_nth:
  fixes ys :: "int list"
  assumes "sorted ys" "i < length ys"
  shows "length (filter (\<lambda>y. ys ! i < y) ys) \<le> length ys - Suc i"
proof -
  have "filter (\<lambda>y. ys ! i < y) (take (Suc i) ys) = []"
    using assms by (auto simp: filter_empty_conv in_set_conv_nth sorted_iff_nth_mono linorder_not_less less_Suc_eq_le)
  then have "filter (\<lambda>y. ys ! i < y) ys = filter (\<lambda>y. ys ! i < y) (drop (Suc i) ys)"
    by (metis append_Nil append_take_drop_id filter_append)
  then show ?thesis using length_filter_le [of _ "drop (Suc i) ys"] by (metis length_drop)
qed

subsection \<open>Properties\<close>

text \<open>
  In every reachable monitor, the status of a provider is determined by its consecutive
  failures (none: healthy; one or two: unhealthy; three or more: down), its error rate is in
  \<open>[0, 1]\<close> and its latency window holds at most a hundred entries. In particular no provider is
  ever \<^verbatim>\<open>StatusDegraded\<close>: a success clears the error rate before comparing it with 0.1.
\<close>

theorem health_status_determined:
  assumes "hm_reachable h" and "gget (hm_providers h) name = Some health"
  shows "ph_Status health = status_of_fails (ConsecutiveFails health) \<and>
    ph_Status health \<noteq> StatusDegraded \<and> 0 \<le> ConsecutiveFails health \<and>
    0 \<le> ErrorRate health \<and> ErrorRate health \<le> 1 \<and> length (latencies health) \<le> 100"
  using hm_invD [OF hm_reachable_inv [OF assms(1)] assms(2)]
  by (auto simp: ph_inv_def status_of_fails_def)

theorem health_status_determined_witness:
  "ph_Status (ph_fail \<lparr>ph_Status = StatusHealthy, ph_Provider = Some (), ErrorRate = 0, ConsecutiveFails = 0,
      LastChecked = zero_time, LatencyP50 = 0, latencies = []\<rparr>) = status_of_fails 1"
proof -
  let ?p = "\<lparr>ph_Status = StatusHealthy, ph_Provider = Some (), ErrorRate = 0, ConsecutiveFails = 0,
      LastChecked = zero_time, LatencyP50 = 0, latencies = []\<rparr>"
  let ?h = "hm_RecordFailure ''a'' (hm_RegisterProvider ''a'' (Some ()) NewHealthMonitor)"
  have r: "hm_reachable ?h" by (intro hm_reachable.intros)
  have g: "gget (hm_providers ?h) ''a'' = Some (ph_fail ?p)"
    by (simp add: hm_RecordFailure_def hm_RegisterProvider_def)
  show ?thesis using health_status_determined [OF r g] by (simp add: ph_fail_def Let_def)
qed

text \<open>
  The confidence of a provider is a number in \<open>[0, 1]\<close> in every reachable monitor; it is at
  least 0.5 for a healthy provider, and below that for one that has just failed.
\<close>

theorem confidence_bounds:
  assumes "hm_reachable h"
  shows "0 \<le> hm_Confidence name h \<and> hm_Confidence name h \<le> 1 \<and>
    (\<forall>health. gget (hm_providers h) name = Some health \<longrightarrow>
       (1 / 2 \<le> hm_Confidence name h \<longleftrightarrow> ConsecutiveFails health = 0))"
proof -
  have c: "fl (1 / 2) = 1 / 2" "fl (2 / 10) \<le> 3 / 10" "0 \<le> fl (2 / 10)" by code_simp+
  have "fsub 1 (ErrorRate health) \<le> 1" if "gget (hm_providers h) name = Some health" for health
    using hm_invD [OF hm_reachable_inv [OF assms] that]
    by (auto simp: ph_inv_def fsub_def intro: f64.rnd_upper)
  then show ?thesis
    using hm_invD [OF hm_reachable_inv [OF assms], of name] c
    by (auto simp: hm_Confidence_def ph_inv_def status_of_fails_def max_def split: option.split if_splits)
qed

theorem confidence_bounds_witness:
  "1 / 2 \<le> hm_Confidence ''a'' (hm_RegisterProvider ''a'' (Some ()) NewHealthMonitor)"
proof -
  have r: "hm_reachable (hm_RegisterProvider ''a'' (Some ()) NewHealthMonitor)"
    by (intro hm_reachable.intros)
  show ?thesis using confidence_bounds [OF r, of "''a''"] by (simp add: hm_RegisterProvider_def)
qed

text \<open>
  The P50 recorded by a success is a median of the latency window after it: it is one of the
  window's entries, at most half of the entries are smaller and fewer than half plus one are
  larger.
\<close>

theorem recorded_p50_is_median:
  "LatencyP50 (ph_succeed now l health) \<in> set (latencies (ph_succeed now l health)) \<and>
   2 * length (filter (\<lambda>x. x < LatencyP50 (ph_succeed now l health)) (latencies (ph_succeed now l health)))
     \<le> length (latencies (ph_succeed now l health)) \<and>
   2 * length (filter (\<lambda>x. LatencyP50 (ph_succeed now l health) < x) (latencies (ph_succeed now l health)))
     \<le> length (latencies (ph_succeed now l health))"
proof -
  define ls where "ls = latencies (ph_succeed now l health)"
  have "ls \<noteq> []" unfolding ls_def by (rule latencies_succeed_ne)
  then have i: "length ls div 2 < length (sort ls)" by simp
  have p: "LatencyP50 (ph_succeed now l health) = sort ls ! (length ls div 2)"
    unfolding ls_def by (rule LatencyP50_succeed)
  have "sort ls ! (length ls div 2) \<in> set ls" using nth_mem [OF i] by simp
  moreover have "2 * length (filter (\<lambda>x. x < sort ls ! (length ls div 2)) ls) \<le> length ls"
    using sorted_filter_less_nth [OF sorted_sort i] by (simp add: sort_filter_lengths)
  moreover have "2 * length (filter (\<lambda>x. sort ls ! (length ls div 2) < x) ls) \<le> length ls"
    using sorted_filter_greater_nth [OF sorted_sort i] by (simp add: sort_filter_lengths)
  ultimately show ?thesis unfolding ls_def [symmetric] p by blast
qed

end
