(* ===== verification/Response_Cache.thy ===== *)
theory Response_Cache
  imports Llm_Types
begin

text \<open>
  The response cache of \<^verbatim>\<open>internal/llm/cache.go\<close>: the cache key of a request, the TTL-bounded
  \<^verbatim>\<open>InMemoryCache\<close>, and the contract of the \<^verbatim>\<open>ResponseCache\<close> interface as the locale
  \<open>response_cache\<close>, which the in-memory cache interprets.

  The key is \<^verbatim>\<open>hex(sha256(json(payload)))\<close>; the digest of a payload is the argument \<open>digest\<close>.
  A stored response is a private copy, so storing it by value is faithful.
\<close>

subsection \<open>Keys\<close>

record cache_payload =
  pl_model :: string
  pl_system :: string
  pl_messages :: "Message list"
  pl_max_tokens :: int
  pl_temperature :: f64

definition payload_of :: "ChatRequest \<Rightarrow> cache_payload" where
  "payload_of req =
     \<lparr>pl_model = req_Model req, pl_system = req_System req, pl_messages = req_Messages req,
      pl_max_tokens = req_MaxTokens req, pl_temperature = req_Temperature req\<rparr>"

definition CacheKey :: "(cache_payload \<Rightarrow> string) \<Rightarrow> ChatRequest \<Rightarrow> string" where
  "CacheKey digest req = digest (payload_of req)"

subsection \<open>The in-memory cache\<close>

record cacheEntry =
  ce_resp :: ChatResponse
  expiresAt :: gotime

record InMemoryCache =
  ic_ttl :: duration
  ic_entries :: "(string, cacheEntry) gomap"
  ic_hits :: int
  ic_misses :: int

definition NewInMemoryCache :: "duration \<Rightarrow> InMemoryCache" where
  "NewInMemoryCache ttl = \<lparr>ic_ttl = ttl, ic_entries = [], ic_hits = 0, ic_misses = 0\<rparr>"

definition cache_Get :: "gotime \<Rightarrow> string \<Rightarrow> InMemoryCache \<Rightarrow> InMemoryCache \<times> ChatResponse option" where
  "cache_Get now key c =
     (case gget (ic_entries c) key of
        None \<Rightarrow> (c\<lparr>ic_misses := ic_misses c + 1\<rparr>, None)
      | Some e \<Rightarrow>
          if expiresAt e < now
          then (c\<lparr>ic_entries := gdel key (ic_entries c), ic_misses := ic_misses c + 1\<rparr>, None)
          else (c\<lparr>ic_hits := ic_hits c + 1\<rparr>, Some ((ce_resp e)\<lparr>rsp_Cost := 0, rsp_Latency := 0\<rparr>)))"

definition cache_Set :: "gotime \<Rightarrow> string \<Rightarrow> ChatResponse option \<Rightarrow> InMemoryCache \<Rightarrow> InMemoryCache" where
  "cache_Set now key resp c =
     (case resp of
        None \<Rightarrow> c
      | Some r \<Rightarrow> c\<lparr>ic_entries := gput key \<lparr>ce_resp = r, expiresAt = time_Add now (ic_ttl c)\<rparr> (ic_entries c)\<rparr>)"

definition cache_Stats :: "InMemoryCache \<Rightarrow> int \<times> int" where
  "cache_Stats c = (ic_hits c, ic_misses c)"

subsection \<open>The interface\<close>

text \<open>
  What the router relies on: a hit is free and carries the content of the response stored last
  under that key, and stores under other keys do not interfere. \<open>live now key c = Some r\<close> says
  that \<open>r\<close> is the response a lookup at time \<open>now\<close> is served from.
\<close>

locale response_cache =
  fixes cget :: "gotime \<Rightarrow> string \<Rightarrow> 'c \<Rightarrow> 'c \<times> ChatResponse option"
    and cset :: "gotime \<Rightarrow> string \<Rightarrow> ChatResponse option \<Rightarrow> 'c \<Rightarrow> 'c"
    and live :: "gotime \<Rightarrow> string \<Rightarrow> 'c \<Rightarrow> ChatResponse option"
    and fresh_for :: "'c \<Rightarrow> duration"
  assumes get_live: "snd (cget now k c) = map_option (\<lambda>r. r\<lparr>rsp_Cost := 0, rsp_Latency := 0\<rparr>) (live now k c)"
    and live_get: "now \<le> t \<Longrightarrow> live t k' (fst (cget now k c)) = live t k' c"
    and live_set: "live t k' (cset now k (Some r) c) =
                     (if k' = k then (if now + fresh_for c < t then None else Some r) else live t k' c)"
    and set_nil: "cset now k None c = c"
begin

lemma hit_is_free: "cget now k c = (c', Some r) \<Longrightarrow> rsp_Cost r = 0 \<and> rsp_Latency r = 0"
  using get_live [of now k c] by (cases "live now k c") auto

lemma get_after_set:
  "t \<le> now + fresh_for c \<Longrightarrow>
   snd (cget t k (cset now k (Some r) c)) = Some (r\<lparr>rsp_Cost := 0, rsp_Latency := 0\<rparr>)"
  by (simp add: get_live live_set)

lemma get_expired: "now + fresh_for c < t \<Longrightarrow> snd (cget t k (cset now k (Some r) c)) = None"
  by (simp add: get_live live_set)

lemma get_again: "now \<le> t \<Longrightarrow> snd (cget t k' (fst (cget now k c))) = snd (cget t k' c)"
  by (simp add: get_live live_get)

lemma set_other: "k' \<noteq> k \<Longrightarrow> snd (cget t k' (cset now k resp c)) = snd (cget t k' c)"
  by (cases resp) (simp_all add: get_live live_set set_nil)

end

definition cache_live :: "gotime \<Rightarrow> string \<Rightarrow> InMemoryCache \<Rightarrow> ChatResponse option" where
  "cache_live now key c =
     (case gget (ic_entries c) key of
        None \<Rightarrow> None
      | Some e \<Rightarrow> if expiresAt e < now then None else Some (ce_resp e))"

interpretation mem_cache: response_cache cache_Get cache_Set cache_live ic_ttl
proof unfold_locales
  fix now t :: gotime and k k' :: string and r :: ChatResponse and c :: InMemoryCache
  show "snd (cache_Get now k c) = map_option (\<lambda>r. r\<lparr>rsp_Cost := 0, rsp_Latency := 0\<rparr>) (cache_live now k c)"
    by (simp add: cache_Get_def cache_live_def split: option.split)
  show "cache_live t k' (fst (cache_Get now k c)) = cache_live t k' c" if "now \<le> t"
    using that by (auto simp: cache_Get_def cache_live_def split: option.split)
  show "cache_live t k' (cache_Set now k (Some r) c) =
      (if k' = k then (if now + ic_ttl c < t then None else Some r) else cache_live t k' c)"
    by (simp add: cache_Set_def cache_live_def time_Add_def)
  show "cache_Set now k None c = c"
    by (simp add: cache_Set_def)
qed

subsection \<open>Properties\<close>

text \<open>
  The cache round trip: until the TTL has passed, a lookup returns the stored response with
  cost and latency zeroed; after it, the lookup misses and the entry is gone; a store under
  one key never changes what is served under another, and a lookup never changes what later
  lookups are served.
\<close>

theorem cache_roundtrip:
  "(t \<le> now + ic_ttl c \<longrightarrow>
      snd (cache_Get t k (cache_Set now k (Some r) c)) = Some (r\<lparr>rsp_Cost := 0, rsp_Latency := 0\<rparr>)) \<and>
   (now + ic_ttl c < t \<longrightarrow>
      snd (cache_Get t k (cache_Set now k (Some r) c)) = None \<and>
      gget (ic_entries (fst (cache_Get t k (cache_Set now k (Some r) c)))) k = None) \<and>
   (k' \<noteq> k \<longrightarrow> snd (cache_Get t k' (cache_Set now k resp c)) = snd (cache_Get t k' c)) \<and>
   (now \<le> t \<longrightarrow> snd (cache_Get t k' (fst (cache_Get now k c))) = snd (cache_Get t k' c))"
  using mem_cache.get_after_set [of t now c k r] mem_cache.get_expired [of now c t k r]
    mem_cache.set_other [of k' k t now resp c] mem_cache.get_again [of now t k' k c]
  by (auto simp: cache_Get_def cache_Set_def time_Add_def)

definition sample_response :: ChatResponse where
  "sample_response = \<lparr>rsp_Content = ''ok'', rsp_ToolCalls = [], rsp_InputTokens = 10, rsp_OutputTokens = 5,
     rsp_Cost = 1, rsp_Latency = 7, rsp_Model = ''gpt-4o'', rsp_Provider = ''openai'', rsp_StopReason = ''stop''\<rparr>"

theorem cache_roundtrip_witness:
  "snd (cache_Get 5 ''k'' (cache_Set 0 ''k'' (Some sample_response) (NewInMemoryCache 10)))
     = Some (sample_response\<lparr>rsp_Cost := 0, rsp_Latency := 0\<rparr>) \<and>
   snd (cache_Get 11 ''k'' (cache_Set 0 ''k'' (Some sample_response) (NewInMemoryCache 10))) = None"
  using cache_roundtrip [of 5 0 "NewInMemoryCache 10" "''k''" sample_response]
    cache_roundtrip [of 11 0 "NewInMemoryCache 10" "''k''" sample_response]
  by (simp add: NewInMemoryCache_def)

text \<open>
  The key is a function of model, system prompt, messages, token cap and temperature, and
  of nothing else: the tools of a request do not take part in it.
\<close>

lemma CacheKey_ignores_tools: "CacheKey digest (req\<lparr>req_Tools := tools\<rparr>) = CacheKey digest req"
  by (simp add: CacheKey_def payload_of_def)

end
