(* ===== verification/Budget.thy ===== *)
theory Budget
  imports Float64
begin

text \<open>
  Spend limits of \<^verbatim>\<open>internal/cost\<close> (\<^verbatim>\<open>budget.go\<close>, \<^verbatim>\<open>store.go\<close>): usage per organization and per task
  in memory, mirrored to a persistent table. Amounts are binary64 (theory Float64).

  The \<^verbatim>\<open>budget_usage\<close> table behind the \<^verbatim>\<open>UsageStore\<close> is the optional association \<open>bm_store\<close>
  (\<open>None\<close>: no store configured); whether a database call succeeds is an argument, one
  flag per call. The \<^verbatim>\<open>onExceeded\<close> callback is recorded as the list \<open>bm_notified\<close> of the errors it
  was called with. Log lines are not modelled.

  Shown: recorded usage is that of an abstract ledger of the admitted spends, and the gate keeps it
  within every positive limit as long as the recorded cost does not exceed the checked one; usage survives a restart when persistence
  succeeds; the behaviour of the gate on every branch.
\<close>

subsection \<open>State\<close>

record BudgetExceededError =
  be_Type :: string
  be_ID :: string
  be_Usage :: f64
  be_Budget :: f64
  be_Proposed :: f64

type_synonym amounts = "(string, f64) gomap"

record BudgetManager =
  bm_store :: "amounts option"
  orgBudgets :: amounts
  taskBudgets :: amounts
  bm_usage :: amounts
  defaultOrg :: f64
  defaultTask :: f64
  bm_loaded :: bool
  bm_callback :: bool
  bm_notified :: "BudgetExceededError list"

text \<open>A missing key of a \<^verbatim>\<open>map[string]float64\<close> reads as 0.\<close>

definition amount :: "amounts \<Rightarrow> string \<Rightarrow> f64" where
  "amount m k = (case gget m k of None \<Rightarrow> 0 | Some v \<Rightarrow> v)"

definition NewBudgetManager :: "amounts option \<Rightarrow> f64 \<Rightarrow> f64 \<Rightarrow> BudgetManager" where
  "NewBudgetManager pool defaultOrgBudget defaultTaskBudget =
     \<lparr>bm_store = pool, orgBudgets = [], taskBudgets = [], bm_usage = [],
      defaultOrg = defaultOrgBudget, defaultTask = defaultTaskBudget,
      bm_loaded = False, bm_callback = False, bm_notified = []\<rparr>"

subsection \<open>The usage table\<close>

text \<open>\<^verbatim>\<open>INSERT ... ON CONFLICT DO UPDATE SET amount = amount + delta\<close>; \<open>ok\<close>: the statement succeeds.\<close>

definition AddUsage :: "bool \<Rightarrow> string \<Rightarrow> f64 \<Rightarrow> amounts \<Rightarrow> amounts" where
  "AddUsage ok key delta tbl =
     (if ok then (case gget tbl key of
                    None \<Rightarrow> gput key delta tbl
                  | Some a \<Rightarrow> gput key (fadd a delta) tbl)
      else tbl)"

definition LoadUsage :: "bool \<Rightarrow> amounts \<Rightarrow> amounts option" where
  "LoadUsage ok tbl = (if ok then Some tbl else None)"

subsection \<open>Operations\<close>

definition bm_SetStore :: "amounts option \<Rightarrow> BudgetManager \<Rightarrow> BudgetManager" where
  "bm_SetStore store m = m\<lparr>bm_store := store, bm_loaded := False\<rparr>"

definition bm_OnExceeded :: "bool \<Rightarrow> BudgetManager \<Rightarrow> BudgetManager" where
  "bm_OnExceeded fn m = m\<lparr>bm_callback := fn\<rparr>"

definition ensureLoaded :: "bool \<Rightarrow> BudgetManager \<Rightarrow> BudgetManager" where
  "ensureLoaded ok m =
     (if bm_loaded m then m
      else case bm_store m of
             None \<Rightarrow> m
           | Some tbl \<Rightarrow>
               (case LoadUsage ok tbl of
                  None \<Rightarrow> m
                | Some persisted \<Rightarrow>
                    m\<lparr>bm_usage := foldl (\<lambda>u (k, v). gput k v u) (bm_usage m) persisted, bm_loaded := True\<rparr>))"

definition SetOrgBudget :: "string \<Rightarrow> f64 \<Rightarrow> BudgetManager \<Rightarrow> BudgetManager" where
  "SetOrgBudget orgID budget m = m\<lparr>orgBudgets := gput orgID budget (orgBudgets m)\<rparr>"

definition SetTaskBudget :: "string \<Rightarrow> f64 \<Rightarrow> BudgetManager \<Rightarrow> BudgetManager" where
  "SetTaskBudget taskID budget m = m\<lparr>taskBudgets := gput taskID budget (taskBudgets m)\<rparr>"

definition GetOrgBudget :: "string \<Rightarrow> BudgetManager \<Rightarrow> f64" where
  "GetOrgBudget orgID m = (case gget (orgBudgets m) orgID of Some b \<Rightarrow> b | None \<Rightarrow> defaultOrg m)"

definition GetTaskBudget :: "string \<Rightarrow> BudgetManager \<Rightarrow> f64" where
  "GetTaskBudget taskID m = (case gget (taskBudgets m) taskID of Some b \<Rightarrow> b | None \<Rightarrow> defaultTask m)"

definition getOrgUsage :: "string \<Rightarrow> BudgetManager \<Rightarrow> f64" where
  "getOrgUsage orgID m = amount (bm_usage m) (''org:'' @ orgID)"

definition getTaskUsage :: "string \<Rightarrow> BudgetManager \<Rightarrow> f64" where
  "getTaskUsage taskID m = amount (bm_usage m) (''task:'' @ taskID)"

definition notifyExceeded :: "BudgetExceededError \<Rightarrow> BudgetManager \<Rightarrow> BudgetManager" where
  "notifyExceeded err m = (if bm_callback m then m\<lparr>bm_notified := bm_notified m @ [err]\<rparr> else m)"

definition CheckBudget ::
  "bool \<Rightarrow> string \<Rightarrow> string \<Rightarrow> f64 \<Rightarrow> BudgetManager \<Rightarrow> BudgetManager \<times> BudgetExceededError option" where
  "CheckBudget ok orgID taskID proposedCost m0 =
     (let m = ensureLoaded ok m0;
          orgBudget = GetOrgBudget orgID m;
          orgUsage = getOrgUsage orgID m;
          taskBudget = GetTaskBudget taskID m;
          taskUsage = getTaskUsage taskID m
      in if 0 < orgBudget \<and> orgBudget < fadd orgUsage proposedCost
         then let be = \<lparr>be_Type = ''org'', be_ID = orgID, be_Usage = orgUsage, be_Budget = orgBudget,
                        be_Proposed = proposedCost\<rparr>
              in (notifyExceeded be m, Some be)
         else if 0 < taskBudget \<and> taskBudget < fadd taskUsage proposedCost
         then let be = \<lparr>be_Type = ''task'', be_ID = taskID, be_Usage = taskUsage, be_Budget = taskBudget,
                        be_Proposed = proposedCost\<rparr>
              in (notifyExceeded be m, Some be)
         else (m, None))"

definition RecordCost :: "bool \<Rightarrow> bool \<Rightarrow> string \<Rightarrow> string \<Rightarrow> f64 \<Rightarrow> BudgetManager \<Rightarrow> BudgetManager" where
  "RecordCost ok1 ok2 orgID taskID cost m =
     (let orgKey = ''org:'' @ orgID; taskKey = ''task:'' @ taskID;
          u1 = gput orgKey (fadd (amount (bm_usage m) orgKey) cost) (bm_usage m);
          u2 = gput taskKey (fadd (amount u1 taskKey) cost) u1;
          m1 = m\<lparr>bm_usage := u2\<rparr>
      in case bm_store m1 of
           None \<Rightarrow> m1
         | Some tbl \<Rightarrow>
             if cost = 0 then m1
             else m1\<lparr>bm_store := Some (AddUsage ok2 taskKey cost (AddUsage ok1 orgKey cost tbl))\<rparr>)"

definition ResetUsage :: "BudgetManager \<Rightarrow> BudgetManager" where
  "ResetUsage m = m\<lparr>bm_usage := []\<rparr>"

lemmas budget_gets = GetOrgBudget_def GetTaskBudget_def getOrgUsage_def getTaskUsage_def

subsection \<open>Lookup lemmas\<close>

lemma amount_gput [simp]: "amount (gput k v m) k' = (if k' = k then v else amount m k')"
  by (simp add: amount_def)

lemma amount_empty [simp]: "amount [] k = 0"
  by (simp add: amount_def)

text \<open>Organization and task keys live in disjoint namespaces.\<close>

lemma org_task_keys [simp]: "''org:'' @ a \<noteq> ''task:'' @ b" "''task:'' @ b \<noteq> ''org:'' @ a"
  by simp_all

lemma ensureLoaded_frame [simp]:
  "orgBudgets (ensureLoaded ok m) = orgBudgets m" "taskBudgets (ensureLoaded ok m) = taskBudgets m"
  "defaultOrg (ensureLoaded ok m) = defaultOrg m" "defaultTask (ensureLoaded ok m) = defaultTask m"
  "bm_store (ensureLoaded ok m) = bm_store m"
  by (simp_all add: ensureLoaded_def split: option.split)

lemma notifyExceeded_frame [simp]:
  "orgBudgets (notifyExceeded e m) = orgBudgets m" "taskBudgets (notifyExceeded e m) = taskBudgets m"
  "bm_usage (notifyExceeded e m) = bm_usage m" "bm_store (notifyExceeded e m) = bm_store m"
  "defaultOrg (notifyExceeded e m) = defaultOrg m" "defaultTask (notifyExceeded e m) = defaultTask m"
  "bm_loaded (notifyExceeded e m) = bm_loaded m"
  by (simp_all add: notifyExceeded_def)

lemma notifyExceeded_gets [simp]:
  "GetOrgBudget x (notifyExceeded e m) = GetOrgBudget x m" "GetTaskBudget x (notifyExceeded e m) = GetTaskBudget x m"
  "getOrgUsage x (notifyExceeded e m) = getOrgUsage x m" "getTaskUsage x (notifyExceeded e m) = getTaskUsage x m"
  by (simp_all add: budget_gets split: option.split)

lemma RecordCost_usage:
  "amount (bm_usage (RecordCost ok1 ok2 o' t c m)) k =
     (if k = ''org:'' @ o' \<or> k = ''task:'' @ t then fadd (amount (bm_usage m) k) c else amount (bm_usage m) k)"
  by (auto simp: RecordCost_def Let_def split: option.split)

lemma RecordCost_budgets [simp]:
  "GetOrgBudget x (RecordCost ok1 ok2 o' t c m) = GetOrgBudget x m"
  "GetTaskBudget x (RecordCost ok1 ok2 o' t c m) = GetTaskBudget x m"
  "bm_loaded (RecordCost ok1 ok2 o' t c m) = bm_loaded m"
  by (simp_all add: RecordCost_def Let_def budget_gets split: option.split)

lemma CheckBudget_nil:
  assumes "CheckBudget ok o' t p m0 = (m, None)"
  shows "m = ensureLoaded ok m0"
    and "0 < GetOrgBudget o' m \<Longrightarrow> fadd (getOrgUsage o' m) p \<le> GetOrgBudget o' m"
    and "0 < GetTaskBudget t m \<Longrightarrow> fadd (getTaskUsage t m) p \<le> GetTaskBudget t m"
  using assms by (auto simp: CheckBudget_def Let_def split: if_splits)

subsection \<open>The budget guard interface\<close>

text \<open>
  Callers (the model router) use a budget through \<^verbatim>\<open>CheckBudget\<close> and \<^verbatim>\<open>RecordCost\<close> only. The
  contract: a spend that passed the gate and costs no more than was proposed keeps the
  limits. \<open>spend_all\<close> is a sequence of such guarded spends, each an organization, a task, the
  proposed and the actual cost; a refused spend is not recorded.
\<close>

fun spend_all ::
  "(string \<Rightarrow> string \<Rightarrow> f64 \<Rightarrow> 'b \<Rightarrow> 'b \<times> 'e option) \<Rightarrow> (string \<Rightarrow> string \<Rightarrow> f64 \<Rightarrow> 'b \<Rightarrow> 'b) \<Rightarrow>
   (string \<times> string \<times> f64 \<times> f64) list \<Rightarrow> 'b \<Rightarrow> 'b" where
  "spend_all check recordc [] b = b"
| "spend_all check recordc ((org, task, proposed, actual) # xs) b =
     spend_all check recordc xs
       (case check org task proposed b of (b', None) \<Rightarrow> recordc org task actual b' | (b', Some e) \<Rightarrow> b')"

locale budget_guard =
  fixes check :: "string \<Rightarrow> string \<Rightarrow> f64 \<Rightarrow> 'b \<Rightarrow> 'b \<times> 'e option"
    and recordc :: "string \<Rightarrow> string \<Rightarrow> f64 \<Rightarrow> 'b \<Rightarrow> 'b"
    and sound :: "'b \<Rightarrow> bool"
  assumes refused_keeps: "sound b \<Longrightarrow> check org task p b = (b', Some e) \<Longrightarrow> sound b'"
    and passed_keeps: "sound b \<Longrightarrow> check org task p b = (b', None) \<Longrightarrow> c \<le> p \<Longrightarrow> sound (recordc org task c b')"
begin

lemma spend_all_within:
  "sound b \<Longrightarrow> \<forall>(org, task, p, c) \<in> set xs. c \<le> p \<Longrightarrow> sound (spend_all check recordc xs b)"
proof (induction xs arbitrary: b)
  case Nil
  then show ?case by simp
next
  case (Cons x xs)
  obtain org task p c where x: "x = (org, task, p, c)" by (cases x)
  have "sound (case check org task p b of (b', None) \<Rightarrow> recordc org task c b' | (b', Some e) \<Rightarrow> b')"
    using Cons.prems x by (auto split: prod.split option.split intro: refused_keeps passed_keeps)
  with Cons x show ?case by simp
qed

end

text \<open>
  All positive limits are respected, and the usage in memory is the one the checks read
  (hydrated from the store, or there is no store).
\<close>

definition within_limits :: "BudgetManager \<Rightarrow> bool" where
  "within_limits m \<longleftrightarrow>
     (bm_loaded m \<or> bm_store m = None) \<and>
     (\<forall>org. 0 < GetOrgBudget org m \<longrightarrow> getOrgUsage org m \<le> GetOrgBudget org m) \<and>
     (\<forall>task. 0 < GetTaskBudget task m \<longrightarrow> getTaskUsage task m \<le> GetTaskBudget task m)"

lemma ensureLoaded_settled: "bm_loaded m \<or> bm_store m = None \<Longrightarrow> ensureLoaded ok m = m"
  by (auto simp: ensureLoaded_def)

lemma RecordCost_store_None [simp]: "bm_store (RecordCost ok1 ok2 org task c m) = None \<longleftrightarrow> bm_store m = None"
  by (simp add: RecordCost_def Let_def split: option.split)

lemma CheckBudget_frame:
  assumes "bm_loaded m \<or> bm_store m = None"
  shows "within_limits (fst (CheckBudget ok org task p m)) \<longleftrightarrow> within_limits m"
proof -
  have n: "within_limits (notifyExceeded e m) \<longleftrightarrow> within_limits m" for e
    by (simp add: within_limits_def)
  show ?thesis
    using ensureLoaded_settled [OF assms] n by (simp add: CheckBudget_def Let_def)
qed

lemma gate_then_record:
  assumes "within_limits m0" "CheckBudget ok org task p m0 = (m, None)" "c \<le> p"
  shows "within_limits (RecordCost ok1 ok2 org task c m)"
proof -
  from assms(1) have m: "m = m0" and "bm_loaded m \<or> bm_store m = None"
    using CheckBudget_nil(1) [OF assms(2)] ensureLoaded_settled by (auto simp: within_limits_def)
  moreover have "0 < GetOrgBudget org m \<Longrightarrow> fadd (getOrgUsage org m) c \<le> GetOrgBudget org m"
    using CheckBudget_nil(2) [OF assms(2)] assms(3) f64.gate_monotone by (fastforce simp: fadd_def)
  moreover have "0 < GetTaskBudget task m \<Longrightarrow> fadd (getTaskUsage task m) c \<le> GetTaskBudget task m"
    using CheckBudget_nil(3) [OF assms(2)] assms(3) f64.gate_monotone by (fastforce simp: fadd_def)
  ultimately show ?thesis
    using assms(1) by (auto simp: within_limits_def getOrgUsage_def getTaskUsage_def RecordCost_usage)
qed

interpretation manager: budget_guard "CheckBudget ok" "RecordCost ok1 ok2" within_limits
proof unfold_locales
  fix b b' :: BudgetManager and org task :: string and p c :: f64 and e
  assume b: "within_limits b"
  then have s: "bm_loaded b \<or> bm_store b = None" by (simp add: within_limits_def)
  show "within_limits b'" if "CheckBudget ok org task p b = (b', Some e)"
    using b that CheckBudget_frame [OF s, of ok org task p] by simp
  show "within_limits (RecordCost ok1 ok2 org task c b')" if "CheckBudget ok org task p b = (b', None)" "c \<le> p"
    using gate_then_record [OF b that] .
qed

subsection \<open>Persistence\<close>

text \<open>The table and the memory agree on every key, on representable amounts.\<close>

definition mirrored :: "BudgetManager \<Rightarrow> bool" where
  "mirrored m \<longleftrightarrow>
     (case bm_store m of
        None \<Rightarrow> False
      | Some tbl \<Rightarrow> wf_gomap tbl \<and> (\<forall>k. amount tbl k = amount (bm_usage m) k \<and> is_f64 (amount tbl k)))"

lemma amount_AddUsage:
  "is_f64 d \<Longrightarrow> amount (AddUsage True k d tbl) k' = (if k' = k then fadd (amount tbl k) d else amount tbl k')"
  by (simp add: AddUsage_def amount_def fadd_def is_f64_def split: option.split)

lemma wf_AddUsage: "wf_gomap tbl \<Longrightarrow> wf_gomap (AddUsage ok k d tbl)"
  by (simp add: AddUsage_def split: option.split)

lemma mirrored_RecordCost:
  assumes "mirrored m" "is_f64 c"
  shows "mirrored (RecordCost True True org task c m)"
proof -
  from assms(1) obtain tbl where st: "bm_store m = Some tbl"
    by (cases "bm_store m") (simp_all add: mirrored_def)
  have all: "wf_gomap tbl \<and> (\<forall>k. amount tbl k = amount (bm_usage m) k \<and> is_f64 (amount tbl k))"
    by (rule assms(1) [unfolded mirrored_def st option.case])
  with st have tbl: "bm_store m = Some tbl" "wf_gomap tbl" by simp_all
  from all have eq: "amount tbl k = amount (bm_usage m) k" and f: "is_f64 (amount (bm_usage m) k)" for k
    by (metis)+
  show ?thesis
  proof (cases "c = 0")
    case True
    have "fadd (amount (bm_usage m) k) 0 = amount (bm_usage m) k" for k
      using f [of k] by (simp add: fadd_def is_f64_def eq)
    with True tbl eq f show ?thesis
      by (simp add: mirrored_def RecordCost_usage) (simp add: RecordCost_def Let_def)
  next
    case False
    let ?t = "AddUsage True (''task:'' @ task) c (AddUsage True (''org:'' @ org) c tbl)"
    have st: "bm_store (RecordCost True True org task c m) = Some ?t"
      using False tbl by (simp add: RecordCost_def Let_def)
    have "amount ?t k = amount (bm_usage (RecordCost True True org task c m)) k" for k
      using assms(2) by (auto simp: amount_AddUsage RecordCost_usage eq)
    moreover have "is_f64 (amount ?t k)" for k
      using assms(2) f [of k] by (simp add: amount_AddUsage eq)
    ultimately show ?thesis using tbl(2) by (simp add: mirrored_def st wf_AddUsage)
  qed
qed

lemma amount_hydrate:
  "wf_gomap tbl \<Longrightarrow> amount (foldl (\<lambda>u (k, v). gput k v u) u0 tbl) k = (case gget tbl k of None \<Rightarrow> amount u0 k | Some v \<Rightarrow> v)"
proof (induction tbl arbitrary: u0)
  case Nil
  then show ?case by simp
next
  case (Cons kv tbl)
  then show ?case
    by (cases kv) (auto simp: gget_def wf_gomap_def gkeys_def map_of_eq_None_iff [symmetric] split: option.split)
qed

lemma restart_usage:
  assumes "mirrored m"
  shows "amount (bm_usage (ensureLoaded True (NewBudgetManager (bm_store m) a b))) k = amount (bm_usage m) k"
proof -
  from assms obtain tbl where "bm_store m = Some tbl" "wf_gomap tbl" "amount tbl k = amount (bm_usage m) k"
    by (auto simp: mirrored_def split: option.splits)
  then show ?thesis
    by (simp add: ensureLoaded_def NewBudgetManager_def LoadUsage_def amount_hydrate)
       (simp add: amount_def split: option.splits)
qed

fun record_all :: "(string \<times> string \<times> f64) list \<Rightarrow> BudgetManager \<Rightarrow> BudgetManager" where
  "record_all [] m = m"
| "record_all ((org, task, c) # xs) m = record_all xs (RecordCost True True org task c m)"

lemma mirrored_record_all:
  "mirrored m \<Longrightarrow> \<forall>(org, task, c) \<in> set xs. is_f64 c \<Longrightarrow> mirrored (record_all xs m)"
  by (induction xs m rule: record_all.induct) (auto simp: mirrored_RecordCost)

subsection \<open>Properties\<close>

text \<open>
  The abstract view of guarded spending: a function from keys to amounts, to which a spend that both
  limits have room for adds its actual cost once under the organization and once under the task, and
  which any other spend leaves as it is.
\<close>

definition has_room :: "f64 \<Rightarrow> f64 \<Rightarrow> f64 \<Rightarrow> bool" where
  "has_room budget used p \<longleftrightarrow> budget \<le> 0 \<or> fadd used p \<le> budget"

fun ledger ::
  "(string \<Rightarrow> f64) \<Rightarrow> (string \<Rightarrow> f64) \<Rightarrow> (string \<times> string \<times> f64 \<times> f64) list \<Rightarrow> (string \<Rightarrow> f64) \<Rightarrow> string \<Rightarrow> f64" where
  "ledger orgB taskB [] u = u"
| "ledger orgB taskB ((org, task, proposed, actual) # xs) u =
     ledger orgB taskB xs
       (if has_room (orgB org) (u (''org:'' @ org)) proposed \<and> has_room (taskB task) (u (''task:'' @ task)) proposed
        then u(''org:'' @ org := fadd (u (''org:'' @ org)) actual, ''task:'' @ task := fadd (u (''task:'' @ task)) actual)
        else u)"

lemma CheckBudget_room:
  assumes "bm_loaded m \<or> bm_store m = None"
  shows "snd (CheckBudget ok org task p m) = None \<longleftrightarrow>
      has_room (GetOrgBudget org m) (getOrgUsage org m) p \<and> has_room (GetTaskBudget task m) (getTaskUsage task m) p"
    and "bm_usage (fst (CheckBudget ok org task p m)) = bm_usage m"
    and "GetOrgBudget x (fst (CheckBudget ok org task p m)) = GetOrgBudget x m"
    and "GetTaskBudget x (fst (CheckBudget ok org task p m)) = GetTaskBudget x m"
    and "bm_loaded (fst (CheckBudget ok org task p m)) = bm_loaded m"
    and "bm_store (fst (CheckBudget ok org task p m)) = bm_store m"
  using ensureLoaded_settled [OF assms] by (auto simp: CheckBudget_def has_room_def Let_def)

lemma spend_all_ledger:
  assumes "bm_loaded m \<or> bm_store m = None"
  shows "amount (bm_usage (spend_all (CheckBudget ok) (RecordCost ok1 ok2) xs m))
    = ledger (\<lambda>o'. GetOrgBudget o' m) (\<lambda>t. GetTaskBudget t m) xs (amount (bm_usage m))"
  using assms
proof (induction xs arbitrary: m)
  case Nil
  then show ?case by simp
next
  case (Cons x xs)
  obtain org task p c where x: "x = (org, task, p, c)" by (cases x)
  obtain b e where cb: "CheckBudget ok org task p m = (b, e)" by fastforce
  note r = CheckBudget_room [OF Cons.prems, where ok = ok and org = org and task = task and p = p, unfolded cb fst_conv snd_conv]
  let ?m = "case e of None \<Rightarrow> RecordCost ok1 ok2 org task c b | Some e \<Rightarrow> b"
  have settled: "bm_loaded ?m \<or> bm_store ?m = None" using Cons.prems r(5,6) by (auto split: option.split)
  have limits: "GetOrgBudget x ?m = GetOrgBudget x m" "GetTaskBudget x ?m = GetTaskBudget x m" for x
    using r(3,4) by (auto split: option.split)
  have usage: "amount (bm_usage ?m) =
      (if has_room (GetOrgBudget org m) (amount (bm_usage m) (''org:'' @ org)) p \<and>
          has_room (GetTaskBudget task m) (amount (bm_usage m) (''task:'' @ task)) p
       then (amount (bm_usage m))(''org:'' @ org := fadd (amount (bm_usage m) (''org:'' @ org)) c,
               ''task:'' @ task := fadd (amount (bm_usage m) (''task:'' @ task)) c)
       else amount (bm_usage m))"
    using r(1,2) by (auto simp: RecordCost_usage getOrgUsage_def getTaskUsage_def fun_eq_iff split: option.split)
  have step: "spend_all (CheckBudget ok) (RecordCost ok1 ok2) (x # xs) m = spend_all (CheckBudget ok) (RecordCost ok1 ok2) xs ?m"
    by (simp add: x cb)
  show ?case unfolding step Cons.IH [OF settled] limits usage by (simp add: x)
qed

text \<open>
  C40. The gate enforces the limits, and spending is recorded exactly. From a manager within its limits,
  for any sequence of guarded spends (each checked with a proposed cost and recorded only when the check
  passes) that cost no more than proposed: every organization and every task with a positive limit ends
  with recorded usage of at most its limit, in binary64 arithmetic with its rounding, and the recorded
  usage under every key is that of the abstract ledger, so each admitted spend was added once to its
  organization and once to its task. (The router does not keep to the condition on the costs: lemma
  \<open>last_resort_passes_gate\<close> of Router\_Props.)
\<close>

theorem budget_never_exceeded:
  assumes "within_limits m" and "\<forall>(org, task, proposed, actual) \<in> set xs. actual \<le> proposed"
  shows "within_limits (spend_all (CheckBudget ok) (RecordCost ok1 ok2) xs m) \<and>
    (\<forall>k. amount (bm_usage (spend_all (CheckBudget ok) (RecordCost ok1 ok2) xs m)) k
       = ledger (\<lambda>org. GetOrgBudget org m) (\<lambda>task. GetTaskBudget task m) xs (amount (bm_usage m)) k)"
  using manager.spend_all_within [OF assms] spend_all_ledger assms(1) by (simp add: within_limits_def)

theorem budget_never_exceeded_witness:
  "let m = spend_all (CheckBudget True) (RecordCost True True)
     [(''o'', ''t'', 3, 2), (''o'', ''u'', 9, 9)] (NewBudgetManager None 10 5)
   in within_limits m \<and> amount (bm_usage m) ''org:o'' = 2 \<and> amount (bm_usage m) ''task:t'' = 2 \<and> amount (bm_usage m) ''task:u'' = 0"
proof -
  let ?xs = "[(''o'', ''t'', 3, 2), (''o'', ''u'', 9, 9)] :: (string \<times> string \<times> f64 \<times> f64) list"
  have "within_limits (NewBudgetManager None 10 5)" by (simp add: within_limits_def NewBudgetManager_def budget_gets)
  from budget_never_exceeded [OF this, of ?xs True True True] show ?thesis
    by (simp add: NewBudgetManager_def budget_gets has_room_def fadd_def fl_numeral)
qed

text \<open>
  Spend survives a restart: when memory and table agree and the database accepts the
  writes, then after any sequence of recorded costs a new manager over the same table reads
  exactly the usage the old one had in memory, for every key.
\<close>

theorem usage_survives_restart:
  assumes "mirrored m" and "\<forall>(org, task, c) \<in> set xs. is_f64 c"
  shows "amount (bm_usage (ensureLoaded True (NewBudgetManager (bm_store (record_all xs m)) a b))) k
    = amount (bm_usage (record_all xs m)) k"
  using restart_usage mirrored_record_all [OF assms] by blast

theorem usage_survives_restart_witness:
  "amount (bm_usage (ensureLoaded True (NewBudgetManager
      (bm_store (record_all [(''o'', ''t'', 1), (''o'', ''u'', 1)] (NewBudgetManager (Some []) 0 0))) 0 0))) ''org:o''
    = amount (bm_usage (record_all [(''o'', ''t'', 1), (''o'', ''u'', 1)] (NewBudgetManager (Some []) 0 0))) ''org:o''"
  by (rule usage_survives_restart) (simp_all add: mirrored_def NewBudgetManager_def)

text \<open>
  What a refusal reports: \<^verbatim>\<open>CheckBudget\<close> refuses exactly when a positive limit would be
  passed (organization first, then task), the error carries that limit, the usage read and
  the proposed cost, the callback sees it exactly when one is installed, and no usage
  changes.
\<close>

theorem budget_refusal:
  assumes "bm_loaded m \<or> bm_store m = None"
  shows "snd (CheckBudget ok org task p m) =
      (if 0 < GetOrgBudget org m \<and> GetOrgBudget org m < fadd (getOrgUsage org m) p
       then Some \<lparr>be_Type = ''org'', be_ID = org, be_Usage = getOrgUsage org m, be_Budget = GetOrgBudget org m, be_Proposed = p\<rparr>
       else if 0 < GetTaskBudget task m \<and> GetTaskBudget task m < fadd (getTaskUsage task m) p
       then Some \<lparr>be_Type = ''task'', be_ID = task, be_Usage = getTaskUsage task m, be_Budget = GetTaskBudget task m, be_Proposed = p\<rparr>
       else None) \<and>
    bm_usage (fst (CheckBudget ok org task p m)) = bm_usage m \<and>
    bm_notified (fst (CheckBudget ok org task p m)) =
      bm_notified m @ (if bm_callback m then (case snd (CheckBudget ok org task p m) of None \<Rightarrow> [] | Some e \<Rightarrow> [e]) else [])"
  using ensureLoaded_settled [OF assms]
  by (simp add: CheckBudget_def Let_def notifyExceeded_def)

theorem budget_refusal_witness:
  "be_Type (the (snd (CheckBudget True ''o'' ''t'' 11 (NewBudgetManager None 10 5)))) = ''org''"
  using budget_refusal [of "NewBudgetManager None 10 5" True "''o''" "''t''" 11]
  by (simp add: NewBudgetManager_def budget_gets fadd_def fl_numeral)

end
