(* ===== verification/Go_Sort.thy ===== *)
theory Go_Sort
  imports Main "HOL-Library.Multiset"
begin

text \<open>
  Go's \<^verbatim>\<open>sort.Slice\<close> and \<^verbatim>\<open>sort.SliceStable\<close> with a \<^verbatim>\<open>less\<close> function. On at most twelve elements
  \<^verbatim>\<open>sort.Slice\<close> is insertion sort, and the result of \<^verbatim>\<open>sort.SliceStable\<close> is determined by
  stability; both are \<open>go_sort\<close>: each element moves left past those it is less than.

  The contract on the caller's side is that \<open>lt\<close> is a strict weak order (locale
  \<open>less_function\<close>); from it the result is a sorted permutation.
\<close>

fun insert_left :: "('a \<Rightarrow> 'a \<Rightarrow> bool) \<Rightarrow> 'a \<Rightarrow> 'a list \<Rightarrow> 'a list" where
  "insert_left lt x [] = [x]"
| "insert_left lt x (y # ys) = (if lt x y then y # insert_left lt x ys else x # y # ys)"

text \<open>The sorted prefix is kept reversed, so that its last element comes first.\<close>

definition go_sort :: "('a \<Rightarrow> 'a \<Rightarrow> bool) \<Rightarrow> 'a list \<Rightarrow> 'a list" where
  "go_sort lt xs = rev (foldl (\<lambda>acc x. insert_left lt x acc) [] xs)"

lemma mset_insert_left [simp]: "mset (insert_left lt x ys) = add_mset x (mset ys)"
  by (induction lt x ys rule: insert_left.induct) auto

lemma mset_foldl_insert: "mset (foldl (\<lambda>acc x. insert_left lt x acc) acc xs) = mset acc + mset xs"
  by (induction xs arbitrary: acc) auto

lemma mset_go_sort [simp]: "mset (go_sort lt xs) = mset xs"
  by (simp add: go_sort_def mset_foldl_insert)

lemma set_go_sort [simp]: "set (go_sort lt xs) = set xs"
  using mset_go_sort [of lt xs] by (rule mset_eq_setD)

lemma length_go_sort [simp]: "length (go_sort lt xs) = length xs"
  using mset_go_sort [of lt xs] by (rule mset_eq_length)

locale less_function =
  fixes lt :: "'a \<Rightarrow> 'a \<Rightarrow> bool"
  assumes asym: "lt x y \<Longrightarrow> \<not> lt y x"
    and negtrans: "lt x z \<Longrightarrow> lt x y \<or> lt y z"
begin

lemma not_less_trans: "\<not> lt x y \<Longrightarrow> \<not> lt y z \<Longrightarrow> \<not> lt x z"
  using negtrans by blast

lemma insert_left_sorted:
  "sorted_wrt (\<lambda>a b. \<not> lt a b) ys \<Longrightarrow> sorted_wrt (\<lambda>a b. \<not> lt a b) (insert_left lt x ys)"
proof (induction ys)
  case Nil
  show ?case by simp
next
  case (Cons y ys)
  have elems: "set (insert_left lt x ys) = insert x (set ys)"
    using mset_insert_left [of lt x ys] by (metis set_mset_add_mset_insert set_mset_mset)
  show ?case
  proof (cases "lt x y")
    case True
    with Cons elems show ?thesis by (auto dest: asym)
  next
    case False
    with Cons.prems show ?thesis by (auto dest: negtrans)
  qed
qed

lemma foldl_insert_sorted:
  "sorted_wrt (\<lambda>a b. \<not> lt a b) acc \<Longrightarrow>
   sorted_wrt (\<lambda>a b. \<not> lt a b) (foldl (\<lambda>acc x. insert_left lt x acc) acc xs)"
  by (induction xs arbitrary: acc) (auto intro: insert_left_sorted)

lemma go_sort_sorted: "sorted_wrt (\<lambda>a b. \<not> lt b a) (go_sort lt xs)"
  using foldl_insert_sorted [of "[]" xs] by (simp add: go_sort_def sorted_wrt_rev)

lemma go_sort_head_least: "go_sort lt xs = y # ys \<Longrightarrow> x \<in> set xs \<Longrightarrow> \<not> lt x y"
proof -
  assume s: "go_sort lt xs = y # ys" and x: "x \<in> set xs"
  from x have "x \<in> set (y # ys)" by (metis s set_go_sort)
  moreover have "\<forall>z \<in> set ys. \<not> lt z y" using go_sort_sorted [of xs] s by simp
  ultimately show ?thesis using asym by auto
qed

text \<open>When only equal elements are incomparable, the sorted order is unique.\<close>

lemma sorted_unique:
  assumes "sorted_wrt (\<lambda>a b. \<not> lt b a) xs" "sorted_wrt (\<lambda>a b. \<not> lt b a) ys" "mset xs = mset ys"
    and "\<And>a b. a \<in> set xs \<Longrightarrow> b \<in> set xs \<Longrightarrow> \<not> lt a b \<Longrightarrow> \<not> lt b a \<Longrightarrow> a = b"
  shows "xs = ys"
  using assms
proof (induction xs arbitrary: ys)
  case (Cons x xs)
  then obtain y ys' where ys: "ys = y # ys'" by (cases ys) auto
  have sets: "set (x # xs) = set ys" using Cons.prems(3) by (rule mset_eq_setD)
  have "x = y"
  proof (rule ccontr)
    assume ne: "x \<noteq> y"
    then have mem: "y \<in> set xs" "x \<in> set ys'" using sets ys by auto
    then have "\<not> lt y x" "\<not> lt x y" using Cons.prems(1,2) ys by auto
    with Cons.prems(4) [of x y] mem ne show False by simp
  qed
  moreover have "xs = ys'" using Cons ys \<open>x = y\<close> by auto
  ultimately show ?case by (simp add: ys)
qed simp

lemma go_sort_unique:
  assumes "mset xs = mset ys" "\<And>a b. a \<in> set xs \<Longrightarrow> b \<in> set xs \<Longrightarrow> \<not> lt a b \<Longrightarrow> \<not> lt b a \<Longrightarrow> a = b"
  shows "go_sort lt xs = go_sort lt ys"
  by (rule sorted_unique) (use assms go_sort_sorted in auto)

end

end
