(* ===== verification/Go_Strings.thy ===== *)
theory Go_Strings
  imports Go_Prelude
begin

text \<open>
  The functions of the Go packages \<^verbatim>\<open>strings\<close>, \<^verbatim>\<open>strconv\<close> and \<^verbatim>\<open>unicode\<close> that the sources call, on
  byte strings. Where the library is Unicode aware (\<open>TrimSpace\<close>, \<open>Fields\<close>, \<open>ToLower\<close>) the
  definitions are its behaviour on ASCII input. Positions are Go ints, so \<open>-1\<close> is \<open>not found\<close>.
\<close>

fun strings_HasPrefix :: "string \<Rightarrow> string \<Rightarrow> bool" where
  "strings_HasPrefix s [] = True"
| "strings_HasPrefix [] (p # ps) = False"
| "strings_HasPrefix (c # s) (p # ps) \<longleftrightarrow> c = p \<and> strings_HasPrefix s ps"

definition strings_HasSuffix :: "string \<Rightarrow> string \<Rightarrow> bool" where
  "strings_HasSuffix s suf \<longleftrightarrow> strings_HasPrefix (rev s) (rev suf)"

definition strings_TrimPrefix :: "string \<Rightarrow> string \<Rightarrow> string" where
  "strings_TrimPrefix s p = (if strings_HasPrefix s p then drop (length p) s else s)"

definition strings_TrimSuffix :: "string \<Rightarrow> string \<Rightarrow> string" where
  "strings_TrimSuffix s suf = (if strings_HasSuffix s suf then take (length s - length suf) s else s)"

fun index_from :: "int \<Rightarrow> string \<Rightarrow> string \<Rightarrow> int" where
  "index_from i [] sub = (if sub = [] then i else -1)"
| "index_from i (c # s) sub = (if strings_HasPrefix (c # s) sub then i else index_from (i + 1) s sub)"

definition strings_Index :: "string \<Rightarrow> string \<Rightarrow> int" where
  "strings_Index s sub = index_from 0 s sub"

fun last_index_from :: "int \<Rightarrow> int \<Rightarrow> string \<Rightarrow> string \<Rightarrow> int" where
  "last_index_from found i [] sub = (if sub = [] then i else found)"
| "last_index_from found i (c # s) sub =
     last_index_from (if strings_HasPrefix (c # s) sub then i else found) (i + 1) s sub"

definition strings_LastIndex :: "string \<Rightarrow> string \<Rightarrow> int" where
  "strings_LastIndex s sub = last_index_from (-1) 0 s sub"

definition strings_Contains :: "string \<Rightarrow> string \<Rightarrow> bool" where
  "strings_Contains s sub \<longleftrightarrow> 0 \<le> strings_Index s sub"

definition is_space :: "char \<Rightarrow> bool" where
  "is_space c \<longleftrightarrow> c \<in> {CHR 0x09, CHR 0x0A, CHR 0x0B, CHR 0x0C, CHR 0x0D, CHR '' ''}"

definition strings_TrimSpace :: "string \<Rightarrow> string" where
  "strings_TrimSpace s = rev (dropWhile is_space (rev (dropWhile is_space s)))"

fun strings_Join :: "string list \<Rightarrow> string \<Rightarrow> string" where
  "strings_Join [] sep = []"
| "strings_Join [x] sep = x"
| "strings_Join (x # y # xs) sep = x @ sep @ strings_Join (y # xs) sep"

text \<open>\<^verbatim>\<open>strings.Split\<close> for a separator of one byte, the only kind the sources use it with.\<close>

fun split_on :: "char \<Rightarrow> string \<Rightarrow> string \<Rightarrow> string list" where
  "split_on sep cur [] = [rev cur]"
| "split_on sep cur (c # s) = (if c = sep then rev cur # split_on sep [] s else split_on sep (c # cur) s)"

definition strings_Split :: "string \<Rightarrow> char \<Rightarrow> string list" where
  "strings_Split s sep = split_on sep [] s"

text \<open>\<^verbatim>\<open>strings.SplitN (s, sep, 2)\<close>.\<close>

definition strings_SplitN2 :: "string \<Rightarrow> char \<Rightarrow> string list" where
  "strings_SplitN2 s sep =
     (if sep \<in> set s then [takeWhile (\<lambda>c. c \<noteq> sep) s, tl (dropWhile (\<lambda>c. c \<noteq> sep) s)] else [s])"

fun fields_from :: "string \<Rightarrow> string \<Rightarrow> string list" where
  "fields_from cur [] = (if cur = [] then [] else [rev cur])"
| "fields_from cur (c # s) =
     (if is_space c then (if cur = [] then fields_from [] s else rev cur # fields_from [] s)
      else fields_from (c # cur) s)"

definition strings_Fields :: "string \<Rightarrow> string list" where
  "strings_Fields s = fields_from [] s"

definition ascii_lower :: "char \<Rightarrow> char" where
  "ascii_lower c = (if 65 \<le> (of_char c :: nat) \<and> (of_char c :: nat) \<le> 90 then char_of ((of_char c :: nat) + 32) else c)"

definition strings_ToLower :: "string \<Rightarrow> string" where
  "strings_ToLower s = map ascii_lower s"

definition ascii_upper :: "char \<Rightarrow> char" where
  "ascii_upper c = (if 97 \<le> (of_char c :: nat) \<and> (of_char c :: nat) \<le> 122 then char_of ((of_char c :: nat) - 32) else c)"

definition strings_ToUpper :: "string \<Rightarrow> string" where
  "strings_ToUpper s = map ascii_upper s"

fun digits_of :: "nat \<Rightarrow> string" where
  "digits_of n = (if n < 10 then [char_of (48 + n)] else digits_of (n div 10) @ [char_of (48 + n mod 10)])"

declare digits_of.simps [simp del]

definition strconv_Itoa :: "int \<Rightarrow> string" where
  "strconv_Itoa i = (if i < 0 then CHR ''-'' # digits_of (nat (- i)) else digits_of (nat i))"

text \<open>\<^verbatim>\<open>strings.Trim\<close> with a set of single-byte characters; \<^verbatim>\<open>strings.Count\<close> of one byte.\<close>

definition strings_Trim :: "string \<Rightarrow> char list \<Rightarrow> string" where
  "strings_Trim s cutset = rev (dropWhile (\<lambda>c. c \<in> set cutset) (rev (dropWhile (\<lambda>c. c \<in> set cutset) s)))"

definition strings_Count1 :: "string \<Rightarrow> char \<Rightarrow> int" where
  "strings_Count1 s c = int (length (filter (\<lambda>x. x = c) s))"

text \<open>\<^verbatim>\<open>strconv.Atoi\<close>: an optional sign and at least one digit, in the \<^verbatim>\<open>int64\<close> range.\<close>

fun atoi_digits :: "int \<Rightarrow> string \<Rightarrow> int option" where
  "atoi_digits n [] = Some n"
| "atoi_digits n (c # s) =
     (if 48 \<le> (of_char c :: int) \<and> (of_char c :: int) \<le> 57 then atoi_digits (10 * n + (of_char c - 48)) s else None)"

definition strconv_Atoi :: "string \<Rightarrow> int option" where
  "strconv_Atoi s =
     (let neg = (s \<noteq> [] \<and> hd s = CHR ''-'');
          t = (if s \<noteq> [] \<and> (hd s = CHR ''-'' \<or> hd s = CHR ''+'') then tl s else s)
      in if t = [] then None
         else case atoi_digits 0 t of
                None \<Rightarrow> None
              | Some n \<Rightarrow> let v = (if neg then - n else n) in if in_int64 v then Some v else None)"

text \<open>The verb \<^verbatim>\<open>%q\<close> (\<^verbatim>\<open>strconv.Quote\<close>): printable characters stand for themselves, others are escaped.\<close>

definition hex_digit :: "nat \<Rightarrow> char" where
  "hex_digit d = (if d < 10 then char_of (48 + d) else char_of (87 + d))"

definition quote_char :: "char \<Rightarrow> string" where
  "quote_char c =
     (let n = (of_char c :: nat); bs = CHR 0x5C in
      if c = CHR 0x22 \<or> c = bs then [bs, c]
      else if 32 \<le> n \<and> n < 127 then [c]
      else if n = 7 then [bs, CHR ''a''] else if n = 8 then [bs, CHR ''b''] else if n = 12 then [bs, CHR ''f'']
      else if n = 10 then [bs, CHR ''n''] else if n = 13 then [bs, CHR ''r''] else if n = 9 then [bs, CHR ''t'']
      else if n = 11 then [bs, CHR ''v''] else [bs, CHR ''x'', hex_digit (n div 16), hex_digit (n mod 16)])"

definition strconv_Quote :: "string \<Rightarrow> string" where
  "strconv_Quote s = CHR 0x22 # concat (map quote_char s) @ [CHR 0x22]"

subsection \<open>Lemmas\<close>

text \<open>Lines of a prompt.\<close>

definition nl :: string where "nl = [CHR 0x0A]"

definition unlines :: "string list \<Rightarrow> string" where
  "unlines ls = strings_Join ls nl"

lemma HasPrefix_iff [simp]: "strings_HasPrefix s p \<longleftrightarrow> (\<exists>t. s = p @ t)"
  by (induction s p rule: strings_HasPrefix.induct) auto

lemma index_from_cases:
  "(\<forall>i. index_from i s sub = -1) \<or> (\<exists>k \<ge> 0. k + int (length sub) \<le> int (length s) \<and> (\<forall>i. index_from i s sub = i + k))"
proof (induction s)
  case (Cons c s)
  show ?case
  proof (cases "\<exists>t. c # s = sub @ t")
    case True
    then have "length sub \<le> length (c # s)" by (metis length_append le_add1)
    with True show ?thesis by (auto intro: exI [of _ 0])
  next
    case False
    from Cons.IH show ?thesis
    proof
      assume "\<exists>k\<ge>0. k + int (length sub) \<le> int (length s) \<and> (\<forall>i. index_from i s sub = i + k)"
      then obtain k where "0 \<le> k" "k + int (length sub) \<le> int (length s)" "\<forall>i. index_from i s sub = i + k" by blast
      with False show ?thesis by (auto intro!: exI [of _ "k + 1"])
    qed (use False in auto)
  qed
qed simp

lemma index_from_shift: "index_from i s sub = (let k = index_from 0 s sub in if k = -1 then -1 else i + k)"
  using index_from_cases [of s sub] by (auto simp: Let_def)

lemma index_from_range: "index_from 0 s sub = -1 \<or> (0 \<le> index_from 0 s sub \<and> index_from 0 s sub + int (length sub) \<le> int (length s))"
  using index_from_cases [of s sub] by auto

text \<open>A found position is in the string, and the substring stands there.\<close>

lemma index_from_at:
  "index_from 0 s sub \<noteq> -1 \<Longrightarrow> \<exists>t. drop (nat (index_from 0 s sub)) s = sub @ t"
proof (induction s)
  case (Cons c s)
  show ?case
  proof (cases "\<exists>t. c # s = sub @ t")
    case False
    with Cons.prems index_from_shift [of 1 s sub] have n: "index_from 0 s sub \<noteq> -1" and
      i: "index_from 0 (c # s) sub = 1 + index_from 0 s sub" by (auto simp: Let_def split: if_splits)
    from index_from_range [of s sub] n have "nat (1 + index_from 0 s sub) = Suc (nat (index_from 0 s sub))" by auto
    with i Cons.IH [OF n] show ?thesis by simp
  qed auto
qed (auto split: if_splits)

lemma Index_range:
  "strings_Index s sub = -1 \<or> (0 \<le> strings_Index s sub \<and> strings_Index s sub + int (length sub) \<le> int (length s))"
  by (simp add: strings_Index_def index_from_range)

lemma last_index_range:
  "last_index_from f i s sub = f \<or> (i \<le> last_index_from f i s sub \<and> last_index_from f i s sub + int (length sub) \<le> i + int (length s))"
proof (induction s arbitrary: f i)
  case (Cons c s)
  have "\<exists>t. c # s = sub @ t \<Longrightarrow> int (length sub) \<le> 1 + int (length s)" by (metis length_append length_Cons le_add1 of_nat_Suc of_nat_le_iff add.commute)
  with Cons.IH [of "if strings_HasPrefix (c # s) sub then i else f" "i + 1"] show ?case by (auto split: if_splits)
qed simp

lemma LastIndex_range:
  "strings_LastIndex s sub = -1 \<or> (0 \<le> strings_LastIndex s sub \<and> strings_LastIndex s sub + int (length sub) \<le> int (length s))"
  using last_index_range [of "-1" 0 s sub] by (simp add: strings_LastIndex_def)

lemma Itoa_0 [simp]: "strconv_Itoa 0 = ''0''"
  by code_simp

lemma digits_of_nonempty [simp]: "digits_of n \<noteq> []"
  by (subst digits_of.simps) simp

lemma digit_chars: "c \<in> set (digits_of n) \<Longrightarrow> \<exists>d < 10. c = char_of (48 + d :: nat)"
proof (induction n rule: digits_of.induct)
  case (1 n)
  then show ?case by (subst (asm) (2) digits_of.simps) (auto split: if_splits intro: exI [of _ "n mod 10"])
qed

text \<open>Only capital letters come from another character.\<close>

lemma ascii_upper_other:
  assumes "ascii_upper c = d" "\<not> (65 \<le> (of_char d :: nat) \<and> (of_char d :: nat) \<le> 90)"
  shows "c = d"
proof (cases "97 \<le> (of_char c :: nat) \<and> (of_char c :: nat) \<le> 122")
  case True
  then have "of_char c - 32 < (256 :: nat)" by linarith
  then have "(of_char (ascii_upper c) :: nat) = of_char c - 32" using True by (simp add: ascii_upper_def mod_less)
  then have "of_char d = of_char c - (32 :: nat)" using assms(1) by simp
  then show ?thesis using True assms(2) by linarith
next
  case False
  then show ?thesis using assms(1) unfolding ascii_upper_def by argo
qed

lemma char_digit_inj: "d < 10 \<Longrightarrow> e < 10 \<Longrightarrow> char_of (48 + d :: nat) = char_of (48 + e) \<Longrightarrow> d = e"
proof -
  assume d: "d < 10" "e < 10" and eq: "char_of (48 + d :: nat) = (char_of (48 + e) :: char)"
  from eq have "(of_char (char_of (48 + d) :: char) :: nat) = of_char (char_of (48 + e) :: char)" by simp
  then have "(48 + d) mod 256 = (48 + e) mod 256" by (simp only: of_char_of)
  with d show "d = e" by simp
qed

lemma digits_of_inj: "digits_of m = digits_of n \<Longrightarrow> m = n"
proof (induction m arbitrary: n rule: digits_of.induct)
  case (1 m)
  show ?case
  proof (cases "m < 10")
    case True
    show ?thesis
    proof (cases "n < 10")
      case True
      with \<open>m < 10\<close> 1(2) char_digit_inj [of m n] show ?thesis by (simp add: digits_of.simps)
    next
      case False
      with True 1(2) digits_of_nonempty [of "n div 10"] show ?thesis
        by (auto simp: digits_of.simps [of m] digits_of.simps [of n])
    qed
  next
    case False
    show ?thesis
    proof (cases "n < 10")
      case True
      with False 1(2) digits_of_nonempty [of "m div 10"] show ?thesis
        by (auto simp: digits_of.simps [of m] digits_of.simps [of n])
    next
      case n: False
      from 1(2) False n have e: "digits_of (m div 10) = digits_of (n div 10)"
        "char_of (48 + m mod 10) = (char_of (48 + n mod 10) :: char)"
        by (simp_all add: digits_of.simps [of m] digits_of.simps [of n])
      from 1(1) [OF False e(1)] char_digit_inj [OF _ _ e(2)] show ?thesis by (metis div_mult_mod_eq mod_less_divisor zero_less_numeral)
    qed
  qed
qed

lemma Itoa_inj_nat: "0 \<le> i \<Longrightarrow> 0 \<le> j \<Longrightarrow> strconv_Itoa i = strconv_Itoa j \<longleftrightarrow> i = j"
  using digits_of_inj [of "nat i" "nat j"] by (auto simp: strconv_Itoa_def)

text \<open>Reading back a printed number.\<close>

lemma of_char_digit: "d < 10 \<Longrightarrow> (of_char (char_of (48 + d :: nat) :: char) :: int) = 48 + int d"
proof -
  assume "d < 10"
  then have "(of_char (char_of (48 + d :: nat) :: char) :: nat) = 48 + d" by (simp only: of_char_of) simp
  moreover have "(of_char (char_of (48 + d :: nat) :: char) :: int) = int (of_char (char_of (48 + d :: nat) :: char))" by (simp only: of_nat_of_char)
  ultimately show ?thesis by (metis of_nat_add of_nat_numeral)
qed

lemma atoi_digits_append:
  "atoi_digits n (s @ t) = (case atoi_digits n s of None \<Rightarrow> None | Some m \<Rightarrow> atoi_digits m t)"
  by (induction s arbitrary: n) auto

lemma atoi_digits_of: "atoi_digits 0 (digits_of n) = Some (int n)"
proof (induction n rule: digits_of.induct)
  case (1 n)
  show ?case
  proof (cases "n < 10")
    case True
    with of_char_digit [of n] show ?thesis by (simp add: digits_of.simps [of n])
  next
    case False
    have "int n = 10 * int (n div 10) + int (n mod 10)" by presburger
    with 1 [OF False] False of_char_digit [of "n mod 10"] show ?thesis
      by (simp add: digits_of.simps [of n] atoi_digits_append)
  qed
qed

lemma digits_of_not_sign: "hd (digits_of n) \<noteq> CHR ''-'' \<and> hd (digits_of n) \<noteq> CHR ''+''"
proof -
  have "hd (digits_of n) \<in> set (digits_of n)" by simp
  then obtain d :: nat where d: "d < 10" "hd (digits_of n) = char_of (48 + d)" using digit_chars by blast
  have "(of_char (hd (digits_of n)) :: int) = 48 + int d" unfolding d(2) by (rule of_char_digit [OF d(1)])
  then show ?thesis by auto
qed

lemma Atoi_Itoa: "in_int64 i \<Longrightarrow> strconv_Atoi (strconv_Itoa i) = Some i"
  using atoi_digits_of [of "nat i"] atoi_digits_of [of "nat (- i)"] digits_of_not_sign [of "nat i"]
  by (auto simp: strconv_Atoi_def strconv_Itoa_def Let_def)

text \<open>Containment is what it should be.\<close>

lemma Contains_iff: "strings_Contains s sub \<longleftrightarrow> (\<exists>a b. s = a @ sub @ b)"
proof
  assume "strings_Contains s sub"
  then have "index_from 0 s sub \<noteq> -1" by (simp add: strings_Contains_def strings_Index_def)
  from index_from_at [OF this] obtain t where "drop (nat (index_from 0 s sub)) s = sub @ t" by blast
  then have "s = take (nat (index_from 0 s sub)) s @ sub @ t" by (metis append_take_drop_id)
  then show "\<exists>a b. s = a @ sub @ b" by blast
next
  assume "\<exists>a b. s = a @ sub @ b"
  then obtain a b where "s = a @ sub @ b" by blast
  then have "index_from i s sub \<noteq> -1" if "0 \<le> i" for i
    using that
  proof (induction a arbitrary: s i)
    case Nil
    then have "strings_HasPrefix s sub" by auto
    with Nil(2) show ?case by (cases s) auto
  next
    case (Cons x a)
    from Cons.prems(1) Cons.IH [OF refl, of "i + 1"] Cons.prems(2) show ?case by (auto split: if_splits)
  qed
  with index_from_range [of s sub] show "strings_Contains s sub" by (auto simp: strings_Contains_def strings_Index_def)
qed

end
