(* ===== verification/Model_Router.thy ===== *)
theory Model_Router
  imports Llm_Types Circuit_Breaker Health_Monitor Response_Cache Budget Go_Sort Go_Strings
begin

text \<open>
  The model router of \<^verbatim>\<open>internal/llm/provider.go\<close>: it ranks models for a task by estimated cost
  over the healthy providers, and executes a request on the chosen provider and its fallbacks
  behind the circuit breaker, the response cache and the budget guard.

  What lies outside the sources is in \<open>call_env\<close>: the answer of a provider to a request, the
  clock readings in program order, the outcome of the database calls of the budget store,
  and the digest of the cache key. Every attempt has its own environment. Iteration orders
  of Go maps are arguments.
\<close>

subsection \<open>Prices\<close>

definition price :: "string \<Rightarrow> string \<Rightarrow> rat \<Rightarrow> rat \<Rightarrow> int \<Rightarrow> string list \<Rightarrow> string \<times> ModelInfo" where
  "price name provider inp out maxTokens caps =
     (name, \<lparr>mi_Name = name, mi_Provider = provider, InputCostPer1K = fl inp, OutputCostPer1K = fl out,
             mi_MaxTokens = maxTokens, Capabilities = caps\<rparr>)"

definition PriceTable :: "(string, ModelInfo) gomap" where
  "PriceTable =
    [price ''claude-opus-4'' ''anthropic'' (15/1000) (75/1000) 8192 [''tools'', ''vision'', ''reasoning''],
     price ''claude-sonnet-4-20250514'' ''anthropic'' (3/1000) (15/1000) 8192 [''tools'', ''vision''],
     price ''claude-haiku-3.5'' ''anthropic'' (8/10000) (4/1000) 8192 [''tools''],
     price ''gpt-4.5'' ''openai'' (15/1000) (6/100) 16384 [''tools'', ''vision'', ''reasoning''],
     price ''gpt-4o'' ''openai'' (25/10000) (1/100) 16384 [''tools'', ''vision''],
     price ''gpt-4o-mini'' ''openai'' (15/100000) (6/10000) 16384 [''tools''],
     price ''deepseek-r1'' ''deepseek'' (55/100000) (219/100000) 8192 [''reasoning''],
     price ''gemini-2.5-pro'' ''gemini'' (125/100000) (1/100) 8192 [''tools'', ''vision'', ''reasoning''],
     price ''gemini-2.0-flash'' ''gemini'' (75/1000000) (3/10000) 8192 [''tools'', ''vision''],
     price ''mistral-large-latest'' ''mistral'' (2/1000) (6/1000) 8192 [''tools''],
     price ''mistral-small-latest'' ''mistral'' (1/1000) (3/1000) 8192 [''tools''],
     price ''llama-3.1-70b-versatile'' ''groq'' (59/100000) (79/100000) 8192 [''tools''],
     price ''llama-3.1-8b-instant'' ''groq'' (5/100000) (8/100000) 8192 [''tools''],
     price ''nvidia/llama-3.1-405b-instruct'' ''nvidia_nim'' (3/1000) (9/1000) 8192 [''tools'', ''reasoning''],
     price ''nvidia/llama-3.1-70b-instruct'' ''nvidia_nim'' (88/100000) (88/100000) 8192 [''tools''],
     price ''meta/llama-3.1-8b-instruct'' ''nvidia_nim'' (1/10000) (1/10000) 8192 [''tools''],
     price ''command-r-plus'' ''cohere'' (15/10000) (225/100000) 8192 [''tools''],
     price ''command-r'' ''cohere'' (15/100000) (15/100000) 8192 [''tools'']]"

text \<open>The global table is mutable; its current content is the argument \<open>tbl\<close>.\<close>

definition LookupPrice :: "(string, ModelInfo) gomap \<Rightarrow> string \<Rightarrow> ModelInfo option" where
  "LookupPrice tbl model = gget tbl model"

definition SetPrice :: "string \<Rightarrow> ModelInfo \<Rightarrow> (string, ModelInfo) gomap \<Rightarrow> (string, ModelInfo) gomap" where
  "SetPrice model info tbl = gput model info tbl"

definition AllPrices :: "(string, ModelInfo) gomap \<Rightarrow> (string, ModelInfo) gomap" where
  "AllPrices tbl = foldl (\<lambda>cp (k, v). gput k v cp) [] tbl"

subsection \<open>Router state\<close>

record 'p ModelRouter =
  mr_providers :: "(string, 'p) gomap"
  mr_health :: "'p HealthMonitor"
  mr_breakers :: "(string, CircuitBreaker) gomap"
  mr_config :: RouterConfig
  mr_prices :: "(string, ModelInfo) gomap"
  mr_cache :: "InMemoryCache option"
  mr_budget :: "BudgetManager option"

definition NewModelRouter :: "(string, ModelInfo) gomap \<Rightarrow> RouterConfig option \<Rightarrow> 'p ModelRouter" where
  "NewModelRouter tbl cfg =
     (let c0 = (case cfg of
                  Some c \<Rightarrow> c
                | None \<Rightarrow> \<lparr>cfg_DefaultModel = ''claude-sonnet-4-20250514'', BudgetPerTask = 1, DefaultOutputTokens = 0\<rparr>);
          c1 = (if DefaultOutputTokens c0 = 0 then c0\<lparr>DefaultOutputTokens := 500\<rparr> else c0)
      in \<lparr>mr_providers = [], mr_health = NewHealthMonitor, mr_breakers = [], mr_config = c1,
          mr_prices = AllPrices tbl, mr_cache = None, mr_budget = None\<rparr>)"

definition SetCache :: "InMemoryCache option \<Rightarrow> 'p ModelRouter \<Rightarrow> 'p ModelRouter" where
  "SetCache c r = r\<lparr>mr_cache := c\<rparr>"

definition SetBudgetGuard :: "BudgetManager option \<Rightarrow> 'p ModelRouter \<Rightarrow> 'p ModelRouter" where
  "SetBudgetGuard b r = r\<lparr>mr_budget := b\<rparr>"

definition SetPrices :: "(string, ModelInfo) gomap \<Rightarrow> 'p ModelRouter \<Rightarrow> 'p ModelRouter" where
  "SetPrices prices r = (if 0 < glen prices then r\<lparr>mr_prices := prices\<rparr> else r)"

definition DefaultModel :: "'p ModelRouter \<Rightarrow> string" where
  "DefaultModel r = cfg_DefaultModel (mr_config r)"

definition mr_RegisterProvider :: "string \<Rightarrow> 'p \<Rightarrow> 'p ModelRouter \<Rightarrow> 'p ModelRouter" where
  "mr_RegisterProvider name p r =
     r\<lparr>mr_providers := gput name p (mr_providers r),
       mr_health := hm_RegisterProvider name (Some p) (mr_health r),
       mr_breakers := gput name (NewCircuitBreaker 5 (30 * Second)) (mr_breakers r)\<rparr>"

subsection \<open>Routing\<close>

definition type_score :: "string \<Rightarrow> f64" where
  "type_score ty =
     (if ty \<in> {''formatting'', ''rename'', ''documentation''} then fadd 0 (fl (1 / 10))
      else if ty \<in> {''bug_fix'', ''small_feature''} then fadd 0 (fl (3 / 10))
      else if ty \<in> {''refactoring'', ''feature''} then fadd 0 (fl (5 / 10))
      else if ty \<in> {''architecture'', ''security''} then fadd 0 (fl (7 / 10))
      else 0)"

definition classifyComplexity :: "LlmTask \<Rightarrow> f64" where
  "classifyComplexity task =
     (let s0 = type_score (tk_Type task);
          fileCount = length (tk_FilesChanged task);
          s1 = (if 10 < fileCount then fadd s0 (fl (3 / 10))
                else if 5 < fileCount then fadd s0 (fl (2 / 10))
                else if 1 < fileCount then fadd s0 (fl (1 / 10)) else s0);
          s2 = (if RequiresReasoning task then fadd s1 (fl (2 / 10)) else s1);
          s3 = (if IsNovel task then fadd s2 (fl (15 / 100)) else s2);
          s4 = (if list_ex (\<lambda>tag. tag = ''security'' \<or> tag = ''production'') (tk_Tags task)
                then fadd s3 (fl (3 / 10)) else s3)
      in min 1 s4)"

definition estimateInputTokens :: "LlmTask \<Rightarrow> int" where
  "estimateInputTokens task =
     (let chars = foldl (\<lambda>n m. n + int (length (msg_Content m))) 0 (tk_Messages task);
          tokens = go_div chars 4
      in if tokens < 50 then 50 else tokens)"

definition getModelsForComplexity :: "f64 \<Rightarrow> string list" where
  "getModelsForComplexity c =
     (if c \<le> fl (3 / 10) then [''gpt-4o-mini'', ''claude-haiku-3.5'', ''gemini-2.0-flash'']
      else if c \<le> fl (6 / 10) then [''claude-sonnet-4-20250514'', ''gpt-4o'', ''gemini-2.5-pro'']
      else if c \<le> fl (85 / 100) then [''claude-opus-4'', ''gpt-4.5'', ''deepseek-r1'']
      else [''claude-opus-4'', ''gpt-4.5''])"

text \<open>The closure \<^verbatim>\<open>addCandidate\<close>: appends a candidate when the model is admissible.\<close>

definition addCandidate ::
  "'p ModelRouter \<Rightarrow> LlmTask \<Rightarrow> string list \<Rightarrow> RoutingCandidate list \<Rightarrow> string \<Rightarrow> RoutingCandidate list" where
  "addCandidate r task healthy candidates model =
     (case gget (mr_prices r) model of
        None \<Rightarrow> candidates
      | Some info \<Rightarrow>
          if mi_Provider info \<notin> set healthy then candidates
          else if \<not> supportsAll info (RequiredCapabilities task) then candidates
          else
            let estInput = estimateInputTokens task;
                estOutput = DefaultOutputTokens (mr_config r);
                estCost = fadd (fmul (fdiv (f_of_int estInput) 1000) (InputCostPer1K info))
                               (fmul (fdiv (f_of_int estOutput) 1000) (OutputCostPer1K info))
            in candidates @
               [\<lparr>rc_Provider = mi_Provider info, rc_Model = model, rc_EstCost = estCost,
                 rc_EstLatency = 2 * Second, rc_Confidence = hm_Confidence (mi_Provider info) (mr_health r)\<rparr>])"

definition candidate_less :: "RoutingCandidate \<Rightarrow> RoutingCandidate \<Rightarrow> bool" where
  "candidate_less a b =
     (if rc_EstCost a \<noteq> rc_EstCost b then rc_EstCost a < rc_EstCost b
      else rc_Confidence b < rc_Confidence a)"

definition rankCandidates :: "'p ModelRouter \<Rightarrow> LlmTask \<Rightarrow> string list \<Rightarrow> f64 \<Rightarrow> RoutingCandidate list" where
  "rankCandidates r task healthy complexity =
     (let models0 = getModelsForComplexity complexity;
          modelsToConsider = (if TargetModel task \<noteq> '''' then TargetModel task # models0 else models0);
          c1 = foldl (addCandidate r task healthy) [] modelsToConsider;
          c2 = (if c1 = [] \<and> cfg_DefaultModel (mr_config r) \<noteq> '''' \<and>
                   cfg_DefaultModel (mr_config r) \<noteq> TargetModel task
                then addCandidate r task healthy c1 (cfg_DefaultModel (mr_config r)) else c1)
      in go_sort candidate_less c2)"

definition fallback_of :: "RoutingCandidate \<Rightarrow> FallbackOption" where
  "fallback_of c = \<lparr>fo_Provider = rc_Provider c, fo_Model = rc_Model c, fo_EstCost = rc_EstCost c\<rparr>"

text \<open>\<open>ks\<close>: the iteration order of the health monitor's provider map. \<open>None\<close>: no candidate.\<close>

definition Route :: "string list \<Rightarrow> LlmTask \<Rightarrow> 'p ModelRouter \<Rightarrow> RoutingDecision option" where
  "Route ks task r =
     (let complexity = classifyComplexity task;
          healthy = GetHealthyProviders ks (mr_health r)
      in case rankCandidates r task healthy complexity of
           [] \<Rightarrow> None
         | primary # rest \<Rightarrow>
             Some \<lparr>rd_Provider = rc_Provider primary, rd_Model = rc_Model primary, rd_EstCost = rc_EstCost primary,
                   rd_EstLatency = rc_EstLatency primary, rd_Confidence = rc_Confidence primary,
                   rd_Fallbacks = map fallback_of (take 3 rest)\<rparr>)"

subsection \<open>One attempt\<close>

record ChatChunk =
  ch_Content :: string
  ch_ToolCalls :: "ToolCall list"
  ch_StopReason :: string
  ch_Finish :: bool

text \<open>
  What the draining goroutine of a stream observes: a chunk (and whether the outgoing
  channel has room for it), the end of the provider's channel, or cancellation.
\<close>

datatype stream_event = RecvChunk ChatChunk bool | ChannelClosed | CtxDone

record 'p call_env =
  ev_clk :: "nat \<Rightarrow> gotime"
  ev_chat :: "'p \<Rightarrow> ChatRequest \<Rightarrow> string + ChatResponse"
  ev_stream :: "'p \<Rightarrow> ChatRequest \<Rightarrow> string + stream_event list"
  ev_load_ok :: bool
  ev_add_org_ok :: bool
  ev_add_task_ok :: bool
  ev_digest :: "cache_payload \<Rightarrow> string"

datatype attempt_error =
    NotRegistered string | BreakerOpen string | BudgetError BudgetExceededError | ProviderError string

definition maxTokensFor :: "string \<Rightarrow> 'p ModelRouter \<Rightarrow> int" where
  "maxTokensFor model r =
     (case gget (mr_prices r) model of
        Some info \<Rightarrow> if 0 < mi_MaxTokens info then mi_MaxTokens info else 4096
      | None \<Rightarrow> 4096)"

text \<open>\<open>mk\<close>: the iteration order of the price table.\<close>

definition defaultModelFor :: "string list \<Rightarrow> string \<Rightarrow> 'p ModelRouter \<Rightarrow> string" where
  "defaultModelFor mk provider r =
     (case filter (\<lambda>model. case gget (mr_prices r) model of
                             None \<Rightarrow> False | Some info \<Rightarrow> mi_Provider info = provider) mk of
        [] \<Rightarrow> [] | model # _ \<Rightarrow> model)"

definition systemPrompt :: "LlmTask \<Rightarrow> string" where
  "systemPrompt task =
     ''You are VigilAgent, an AI coding assistant. '' @
     (if tk_Type task = ''bug_fix'' then ''Focus on identifying and fixing the bug with minimal changes. ''
      else if tk_Type task = ''feature'' then ''Implement the requested feature following existing code patterns. ''
      else if tk_Type task = ''refactoring'' then ''Refactor the code for clarity and maintainability without changing behavior. ''
      else if tk_Type task = ''security'' then ''Analyze and fix security vulnerabilities. Follow security best practices. ''
      else if tk_Type task = ''architecture'' then ''Design and implement architectural changes. Consider scalability and maintainability. ''
      else ''Complete the requested task accurately and efficiently. '') @
     (if 0 < length (tk_FilesChanged task)
      then ''Files involved: '' @ strings_Join (tk_FilesChanged task) '', '' @ ''. '' else []) @
     (if 0 < length (tk_Tags task)
      then ''Context tags: '' @ strings_Join (tk_Tags task) '', '' @ ''. '' else [])"

definition chat_request :: "LlmTask \<Rightarrow> FallbackOption \<Rightarrow> 'p ModelRouter \<Rightarrow> ChatRequest" where
  "chat_request task opt r =
     \<lparr>req_Model = fo_Model opt, req_Messages = tk_Messages task, req_MaxTokens = maxTokensFor (fo_Model opt) r,
      req_Temperature = 0, req_Tools = [], req_System = systemPrompt task\<rparr>"

text \<open>\<^verbatim>\<open>cb.Execute\<close> on the breaker of a provider, if it has one; the result of \<^verbatim>\<open>Execute\<close> is dropped.\<close>

definition breaker_Execute :: "gotime \<Rightarrow> gotime \<Rightarrow> string option \<Rightarrow> string \<Rightarrow> 'p ModelRouter \<Rightarrow> 'p ModelRouter" where
  "breaker_Execute now now' err name r =
     (case gget (mr_breakers r) name of
        None \<Rightarrow> r
      | Some cb \<Rightarrow> r\<lparr>mr_breakers := gput name (fst (cb_Execute now now' err cb)) (mr_breakers r)\<rparr>)"

definition breaker_blocks :: "string \<Rightarrow> 'p ModelRouter \<Rightarrow> bool" where
  "breaker_blocks name r = (case gget (mr_breakers r) name of None \<Rightarrow> False | Some cb \<Rightarrow> cb_IsOpen cb)"

definition cache_lookup :: "'p call_env \<Rightarrow> ChatRequest \<Rightarrow> 'p ModelRouter \<Rightarrow> 'p ModelRouter \<times> ChatResponse option" where
  "cache_lookup ev req r =
     (case mr_cache r of
        None \<Rightarrow> (r, None)
      | Some c \<Rightarrow>
          (case cache_Get (ev_clk ev 0) (CacheKey (ev_digest ev) req) c of
             (c', hit) \<Rightarrow> (r\<lparr>mr_cache := Some c'\<rparr>, hit)))"

definition budget_gate ::
  "'p call_env \<Rightarrow> LlmTask \<Rightarrow> FallbackOption \<Rightarrow> 'p ModelRouter \<Rightarrow> 'p ModelRouter \<times> BudgetExceededError option" where
  "budget_gate ev task opt r =
     (case mr_budget r of
        None \<Rightarrow> (r, None)
      | Some b \<Rightarrow>
          (case CheckBudget (ev_load_ok ev) (tk_OrgID task) (tk_ID task) (fo_EstCost opt) b of
             (b', err) \<Rightarrow> (r\<lparr>mr_budget := Some b'\<rparr>, err)))"

definition budget_record :: "'p call_env \<Rightarrow> LlmTask \<Rightarrow> f64 \<Rightarrow> 'p ModelRouter \<Rightarrow> 'p ModelRouter" where
  "budget_record ev task cost r =
     r\<lparr>mr_budget := map_option (RecordCost (ev_add_org_ok ev) (ev_add_task_ok ev) (tk_OrgID task) (tk_ID task) cost)
                      (mr_budget r)\<rparr>"

definition attempt ::
  "'p call_env \<Rightarrow> LlmTask \<Rightarrow> FallbackOption \<Rightarrow> 'p ModelRouter \<Rightarrow> 'p ModelRouter \<times> (attempt_error + ChatResponse)" where
  "attempt ev task opt r0 =
     (case gget (mr_providers r0) (fo_Provider opt) of
        None \<Rightarrow> (r0, Inl (NotRegistered (fo_Provider opt)))
      | Some provider \<Rightarrow>
          if breaker_blocks (fo_Provider opt) r0 then (r0, Inl (BreakerOpen (fo_Provider opt)))
          else
            let req = chat_request task opt r0
            in case cache_lookup ev req r0 of
                 (r1, Some hit) \<Rightarrow> (r1, Inr hit)
               | (r1, None) \<Rightarrow>
                   (case budget_gate ev task opt r1 of
                      (r2, Some be) \<Rightarrow> (r2, Inl (BudgetError be))
                    | (r2, None) \<Rightarrow>
                        (case ev_chat ev provider req of
                           Inl e \<Rightarrow>
                             let r3 = r2\<lparr>mr_health := hm_RecordFailure (fo_Provider opt) (mr_health r2)\<rparr>;
                                 r4 = breaker_Execute (ev_clk ev 2) (ev_clk ev 3) (Some e) (fo_Provider opt) r3
                             in (r4, Inl (ProviderError e))
                         | Inr resp \<Rightarrow>
                             let r3 = r2\<lparr>mr_health := hm_RecordSuccess (ev_clk ev 1) (fo_Provider opt)
                                                       (rsp_Latency resp) (mr_health r2)\<rparr>;
                                 r4 = breaker_Execute (ev_clk ev 2) (ev_clk ev 3) None (fo_Provider opt) r3;
                                 r5 = budget_record ev task (rsp_Cost resp) r4;
                                 r6 = r5\<lparr>mr_cache := map_option
                                        (cache_Set (ev_clk ev 4) (CacheKey (ev_digest ev) req) (Some resp)) (mr_cache r5)\<rparr>
                             in (r6, Inr resp))))"

subsection \<open>Failover\<close>

datatype route_error = RoutingFailed | AllProvidersFailed string "attempt_error option"

text \<open>
  The attempt loop: stops at the first success, remembers the last error. \<open>i\<close> numbers the
  attempts, each with its own environment.
\<close>

fun try_attempts ::
  "(nat \<Rightarrow> 'p call_env) \<Rightarrow> LlmTask \<Rightarrow> nat \<Rightarrow> FallbackOption list \<Rightarrow> attempt_error option \<Rightarrow> 'p ModelRouter \<Rightarrow>
   'p ModelRouter \<times> (attempt_error option + ChatResponse)" where
  "try_attempts evs task i [] lastErr r = (r, Inl lastErr)"
| "try_attempts evs task i (a # as) lastErr r =
     (case attempt (evs i) task a r of
        (r', Inr resp) \<Rightarrow> (r', Inr resp)
      | (r', Inl err) \<Rightarrow> try_attempts evs task (Suc i) as (Some err) r')"

definition ranked_attempts :: "RoutingDecision \<Rightarrow> FallbackOption list" where
  "ranked_attempts d =
     \<lparr>fo_Provider = rd_Provider d, fo_Model = rd_Model d, fo_EstCost = rd_EstCost d\<rparr> # rd_Fallbacks d"

text \<open>
  The registered providers not tried yet, in map order \<open>pk\<close>, each with a model from the price
  table (order \<open>mk\<close>) and the zero value as its estimated cost.
\<close>

definition remaining_attempts ::
  "string list \<Rightarrow> (string \<Rightarrow> string list) \<Rightarrow> FallbackOption list \<Rightarrow> 'p ModelRouter \<Rightarrow> FallbackOption list" where
  "remaining_attempts pk mk tried r =
     map (\<lambda>name. \<lparr>fo_Provider = name, fo_Model = defaultModelFor (mk name) name r, fo_EstCost = 0\<rparr>)
       (filter (\<lambda>name. defaultModelFor (mk name) name r \<noteq> [])
         (filter (\<lambda>name. name \<notin> set (map fo_Provider tried)) pk))"

definition ExecuteWithFailover ::
  "(nat \<Rightarrow> 'p call_env) \<Rightarrow> string list \<Rightarrow> string list \<Rightarrow> (string \<Rightarrow> string list) \<Rightarrow> LlmTask \<Rightarrow> 'p ModelRouter \<Rightarrow>
   'p ModelRouter \<times> (route_error + ChatResponse)" where
  "ExecuteWithFailover evs ks pk mk task r =
     (case Route ks task r of
        None \<Rightarrow> (r, Inl RoutingFailed)
      | Some decision \<Rightarrow>
          let attempts = ranked_attempts decision
          in case try_attempts evs task 0 attempts None r of
               (r1, Inr resp) \<Rightarrow> (r1, Inr resp)
             | (r1, Inl lastErr) \<Rightarrow>
                 (case try_attempts evs task (length attempts) (remaining_attempts pk mk attempts r1) lastErr r1 of
                    (r2, Inr resp) \<Rightarrow> (r2, Inr resp)
                  | (r2, Inl lastErr') \<Rightarrow> (r2, Inl (AllProvidersFailed (tk_ID task) lastErr'))))"

subsection \<open>Streaming\<close>

text \<open>
  The goroutine that copies the provider's channel: accumulated content, chunks delivered
  downstream (a chunk is dropped when the outgoing buffer is full), and whether a finishing
  chunk was seen. An exhausted event list is a closed channel.
\<close>

fun drain :: "stream_event list \<Rightarrow> string \<Rightarrow> ChatChunk list \<Rightarrow> string \<times> ChatChunk list \<times> bool" where
  "drain [] content sent = (content, sent, False)"
| "drain (CtxDone # es) content sent = (content, sent, False)"
| "drain (ChannelClosed # es) content sent = (content, sent, False)"
| "drain (RecvChunk chunk room # es) content sent =
     (let content' = content @ ch_Content chunk; sent' = (if room then sent @ [chunk] else sent)
      in if ch_Finish chunk then (content', sent', True) else drain es content' sent')"

definition stream_cost :: "(string, ModelInfo) gomap \<Rightarrow> FallbackOption \<Rightarrow> string \<Rightarrow> f64" where
  "stream_cost tbl opt content =
     (let outputTokens = go_div (int (length content)) 4;
          out = (case LookupPrice tbl (fo_Model opt) of None \<Rightarrow> 0 | Some info \<Rightarrow> OutputCostPer1K info)
      in fadd (fdiv (fo_EstCost opt) 2) (fmul (fdiv (f_of_int outputTokens) 1000) out))"

text \<open>
  What the goroutine does once the channel is drained: \<open>t0\<close> is the instant the stream started,
  \<open>tbl\<close> the global price table.
\<close>

definition stream_settle ::
  "'p call_env \<Rightarrow> (string, ModelInfo) gomap \<Rightarrow> gotime \<Rightarrow> LlmTask \<Rightarrow> FallbackOption \<Rightarrow> stream_event list \<Rightarrow>
   'p ModelRouter \<Rightarrow> 'p ModelRouter \<times> ChatChunk list" where
  "stream_settle ev tbl t0 task opt es r =
     (case drain es [] [] of
        (content, sent, finished) \<Rightarrow>
          let latency = time_Since (ev_clk ev 1) t0
          in if finished
             then let r1 = r\<lparr>mr_health := hm_RecordSuccess (ev_clk ev 2) (fo_Provider opt) latency (mr_health r)\<rparr>;
                      r2 = breaker_Execute (ev_clk ev 3) (ev_clk ev 4) None (fo_Provider opt) r1
                  in (budget_record ev task (stream_cost tbl opt content) r2, sent)
             else let r1 = r\<lparr>mr_health := hm_RecordFailure (fo_Provider opt) (mr_health r)\<rparr>
                  in (breaker_Execute (ev_clk ev 3) (ev_clk ev 4) (Some ''stream cancelled'') (fo_Provider opt) r1, sent))"

text \<open>The synchronous part: an error, or the events the goroutine will see.\<close>

definition streamAttempt ::
  "'p call_env \<Rightarrow> LlmTask \<Rightarrow> FallbackOption \<Rightarrow> 'p ModelRouter \<Rightarrow> 'p ModelRouter \<times> (attempt_error + stream_event list)" where
  "streamAttempt ev task opt r0 =
     (case gget (mr_providers r0) (fo_Provider opt) of
        None \<Rightarrow> (r0, Inl (NotRegistered (fo_Provider opt)))
      | Some provider \<Rightarrow>
          if breaker_blocks (fo_Provider opt) r0 then (r0, Inl (BreakerOpen (fo_Provider opt)))
          else
            let req = chat_request task opt r0
            in case budget_gate ev task opt r0 of
                 (r1, Some be) \<Rightarrow> (r1, Inl (BudgetError be))
               | (r1, None) \<Rightarrow>
                   (case ev_stream ev provider req of
                      Inl e \<Rightarrow>
                        let r2 = r1\<lparr>mr_health := hm_RecordFailure (fo_Provider opt) (mr_health r1)\<rparr>
                        in (breaker_Execute (ev_clk ev 2) (ev_clk ev 3) (Some e) (fo_Provider opt) r2, Inl (ProviderError e))
                    | Inr es \<Rightarrow> (r1, Inr es)))"

text \<open>
  The returned channel is described by the goroutine that feeds it: the attempt that started
  it (its number and its option) and the events it will see.
\<close>

record stream_chan =
  sc_attempt :: nat
  sc_opt :: FallbackOption
  sc_events :: "stream_event list"

record StreamResult =
  sr_Ch :: stream_chan
  sr_Model :: string
  sr_Provider :: string
  sr_EstInput :: int

fun try_streams ::
  "(nat \<Rightarrow> 'p call_env) \<Rightarrow> LlmTask \<Rightarrow> nat \<Rightarrow> FallbackOption list \<Rightarrow> 'p ModelRouter \<Rightarrow> 'p ModelRouter \<times> StreamResult option" where
  "try_streams evs task i [] r = (r, None)"
| "try_streams evs task i (a # as) r =
     (case streamAttempt (evs i) task a r of
        (r', Inr es) \<Rightarrow>
          (r', Some \<lparr>sr_Ch = \<lparr>sc_attempt = i, sc_opt = a, sc_events = es\<rparr>, sr_Model = fo_Model a, sr_Provider = fo_Provider a,
                     sr_EstInput = estimateInputTokens task\<rparr>)
      | (r', Inl err) \<Rightarrow> try_streams evs task (Suc i) as r')"

definition StreamWithFailover ::
  "(nat \<Rightarrow> 'p call_env) \<Rightarrow> string list \<Rightarrow> LlmTask \<Rightarrow> 'p ModelRouter \<Rightarrow> 'p ModelRouter \<times> (route_error + StreamResult)" where
  "StreamWithFailover evs ks task r =
     (case Route ks task r of
        None \<Rightarrow> (r, Inl RoutingFailed)
      | Some decision \<Rightarrow>
          (case try_streams evs task 0 (ranked_attempts decision) r of
             (r', Some sr) \<Rightarrow> (r', Inr sr)
           | (r', None) \<Rightarrow> (r', Inl (AllProvidersFailed (tk_ID task) None))))"

end
