(* ===== verification/Router_Props.thy ===== *)
theory Router_Props
  imports Model_Router
begin

text \<open>
  Correctness of the model router: routing decisions are sound and cheapest first, an attempt
  accounts for its cost exactly, failover is exhaustive, and two consequences of how the parts
  are composed: an open circuit is never probed again, and providers reached only by the last
  resort fallback pass the budget gate whatever they cost.
\<close>

subsection \<open>Candidate order\<close>

interpretation candidates: less_function candidate_less
  by unfold_locales (auto simp: candidate_less_def split: if_splits)

subsection \<open>Which models become candidates\<close>

definition admissible :: "'p ModelRouter \<Rightarrow> LlmTask \<Rightarrow> string list \<Rightarrow> string \<Rightarrow> bool" where
  "admissible r task healthy model =
     (case gget (mr_prices r) model of
        None \<Rightarrow> False
      | Some info \<Rightarrow> mi_Provider info \<in> set healthy \<and> supportsAll info (RequiredCapabilities task))"

definition considered :: "'p ModelRouter \<Rightarrow> LlmTask \<Rightarrow> string list" where
  "considered r task =
     (if TargetModel task \<noteq> [] then [TargetModel task] else []) @ getModelsForComplexity (classifyComplexity task)"

text \<open>A candidate faithfully describes an admissible model.\<close>

definition candidate_ok :: "'p ModelRouter \<Rightarrow> LlmTask \<Rightarrow> string list \<Rightarrow> string \<Rightarrow> string \<Rightarrow> bool" where
  "candidate_ok r task healthy provider model =
     (\<exists>info. gget (mr_prices r) model = Some info \<and> mi_Provider info = provider \<and>
        provider \<in> set healthy \<and> set (RequiredCapabilities task) \<subseteq> set (Capabilities info))"

lemma addCandidate_cases:
  "addCandidate r task healthy cs model =
     (if admissible r task healthy model
      then cs @ [\<lparr>rc_Provider = mi_Provider (the (gget (mr_prices r) model)), rc_Model = model,
          rc_EstCost = fadd (fmul (fdiv (f_of_int (estimateInputTokens task)) 1000) (InputCostPer1K (the (gget (mr_prices r) model))))
             (fmul (fdiv (f_of_int (DefaultOutputTokens (mr_config r))) 1000) (OutputCostPer1K (the (gget (mr_prices r) model)))),
          rc_EstLatency = 2 * Second,
          rc_Confidence = hm_Confidence (mi_Provider (the (gget (mr_prices r) model))) (mr_health r)\<rparr>]
      else cs)"
  by (simp add: addCandidate_def admissible_def Let_def split: option.split)

lemma addCandidate_models:
  "map rc_Model (addCandidate r task healthy cs model) =
     map rc_Model cs @ (if admissible r task healthy model then [model] else [])"
  by (simp add: addCandidate_cases)

lemma foldl_addCandidate_models:
  "map rc_Model (foldl (addCandidate r task healthy) cs ms) = map rc_Model cs @ filter (admissible r task healthy) ms"
  by (induction ms arbitrary: cs) (auto simp: addCandidate_models)

lemma addCandidate_ok:
  "\<forall>c \<in> set cs. candidate_ok r task healthy (rc_Provider c) (rc_Model c) \<Longrightarrow>
   \<forall>c \<in> set (addCandidate r task healthy cs model). candidate_ok r task healthy (rc_Provider c) (rc_Model c)"
  by (auto simp: addCandidate_cases admissible_def candidate_ok_def supportsAll_iff split: option.splits)

lemma foldl_addCandidate_ok:
  "\<forall>c \<in> set cs. candidate_ok r task healthy (rc_Provider c) (rc_Model c) \<Longrightarrow>
   \<forall>c \<in> set (foldl (addCandidate r task healthy) cs ms). candidate_ok r task healthy (rc_Provider c) (rc_Model c)"
proof (induction ms arbitrary: cs)
  case Nil
  then show ?case by simp
next
  case (Cons m ms)
  from Cons.IH [OF addCandidate_ok [OF Cons.prems]] show ?case by simp
qed

lemma rankCandidates_ok:
  "c \<in> set (rankCandidates r task healthy cx) \<Longrightarrow> candidate_ok r task healthy (rc_Provider c) (rc_Model c)"
  using foldl_addCandidate_ok [of "[]" r task healthy]
    addCandidate_ok [of "[]" r task healthy "cfg_DefaultModel (mr_config r)"]
  by (auto simp: rankCandidates_def Let_def split: if_splits)

lemma rankCandidates_Nil:
  "rankCandidates r task healthy (classifyComplexity task) = [] \<longleftrightarrow>
     (\<forall>m \<in> set (considered r task). \<not> admissible r task healthy m) \<and>
     (DefaultModel r \<noteq> [] \<and> DefaultModel r \<noteq> TargetModel task \<longrightarrow> \<not> admissible r task healthy (DefaultModel r))"
proof -
  let ?ms = "considered r task"
  let ?c1 = "foldl (addCandidate r task healthy) [] ?ms"
  have c1: "?c1 = [] \<longleftrightarrow> (\<forall>m \<in> set ?ms. \<not> admissible r task healthy m)"
    using foldl_addCandidate_models [of r task healthy "[]" ?ms]
    by (metis append_Nil filter_False filter_empty_conv list.map_disc_iff map_is_Nil_conv)
  have r: "rankCandidates r task healthy (classifyComplexity task) =
      go_sort candidate_less (if ?c1 = [] \<and> DefaultModel r \<noteq> [] \<and> DefaultModel r \<noteq> TargetModel task
        then addCandidate r task healthy ?c1 (DefaultModel r) else ?c1)"
    by (simp add: rankCandidates_def Let_def considered_def DefaultModel_def)
  have e: "go_sort lt xs = [] \<longleftrightarrow> xs = []" for lt and xs :: "RoutingCandidate list"
    by (metis length_0_conv length_go_sort)
  show ?thesis unfolding r e using c1 by (auto simp: addCandidate_cases)
qed

subsection \<open>Frames of the attempt's steps\<close>

lemma cache_lookup_frame:
  assumes "cache_lookup ev req r = (r', hit)"
  shows "mr_providers r' = mr_providers r" "mr_health r' = mr_health r" "mr_breakers r' = mr_breakers r"
    "mr_budget r' = mr_budget r" "mr_prices r' = mr_prices r" "mr_config r' = mr_config r"
    "mr_cache r' = None \<longleftrightarrow> mr_cache r = None"
  using assms by (auto simp: cache_lookup_def split: option.splits prod.splits)

lemma budget_gate_frame:
  assumes "budget_gate ev task opt r = (r', e)"
  shows "mr_providers r' = mr_providers r" "mr_health r' = mr_health r" "mr_breakers r' = mr_breakers r"
    "mr_cache r' = mr_cache r" "mr_prices r' = mr_prices r" "mr_config r' = mr_config r"
  using assms by (auto simp: budget_gate_def split: option.splits prod.splits)

lemma budget_record_frame [simp]:
  "mr_providers (budget_record ev task c r) = mr_providers r" "mr_health (budget_record ev task c r) = mr_health r"
  "mr_breakers (budget_record ev task c r) = mr_breakers r" "mr_cache (budget_record ev task c r) = mr_cache r"
  "mr_prices (budget_record ev task c r) = mr_prices r"
  by (simp_all add: budget_record_def)

lemma breaker_Execute_frame [simp]:
  "mr_providers (breaker_Execute n n' e p r) = mr_providers r" "mr_health (breaker_Execute n n' e p r) = mr_health r"
  "mr_budget (breaker_Execute n n' e p r) = mr_budget r" "mr_cache (breaker_Execute n n' e p r) = mr_cache r"
  "mr_prices (breaker_Execute n n' e p r) = mr_prices r"
  by (simp_all add: breaker_Execute_def split: option.split)

lemma breaker_blocks_cong: "mr_breakers r' = mr_breakers r \<Longrightarrow> breaker_blocks p r' = breaker_blocks p r"
  by (simp add: breaker_blocks_def)

lemma breaker_blocks_Execute_other:
  "p \<noteq> q \<Longrightarrow> breaker_blocks p (breaker_Execute n n' e q r) = breaker_blocks p r"
  by (simp add: breaker_blocks_def breaker_Execute_def split: option.split)

subsection \<open>The four outcomes of an attempt\<close>

lemma attempt_cases:
  assumes "attempt ev task opt r = (r', res)"
  obtains (unregistered) "gget (mr_providers r) (fo_Provider opt) = None" "r' = r" "res = Inl (NotRegistered (fo_Provider opt))"
  | (blocked) p where "gget (mr_providers r) (fo_Provider opt) = Some p" "breaker_blocks (fo_Provider opt) r" "r' = r"
      "res = Inl (BreakerOpen (fo_Provider opt))"
  | (hit) p resp where "gget (mr_providers r) (fo_Provider opt) = Some p" "\<not> breaker_blocks (fo_Provider opt) r"
      "cache_lookup ev (chat_request task opt r) r = (r', Some resp)" "res = Inr resp"
  | (refused) p r1 be where "gget (mr_providers r) (fo_Provider opt) = Some p" "\<not> breaker_blocks (fo_Provider opt) r"
      "cache_lookup ev (chat_request task opt r) r = (r1, None)" "budget_gate ev task opt r1 = (r', Some be)"
      "res = Inl (BudgetError be)"
  | (failed) p r1 r2 e where "gget (mr_providers r) (fo_Provider opt) = Some p" "\<not> breaker_blocks (fo_Provider opt) r"
      "cache_lookup ev (chat_request task opt r) r = (r1, None)" "budget_gate ev task opt r1 = (r2, None)"
      "ev_chat ev p (chat_request task opt r) = Inl e" "res = Inl (ProviderError e)"
      "r' = breaker_Execute (ev_clk ev 2) (ev_clk ev 3) (Some e) (fo_Provider opt)
              (r2\<lparr>mr_health := hm_RecordFailure (fo_Provider opt) (mr_health r2)\<rparr>)"
  | (answered) p r1 r2 r4 resp where "gget (mr_providers r) (fo_Provider opt) = Some p" "\<not> breaker_blocks (fo_Provider opt) r"
      "cache_lookup ev (chat_request task opt r) r = (r1, None)" "budget_gate ev task opt r1 = (r2, None)"
      "ev_chat ev p (chat_request task opt r) = Inr resp" "res = Inr resp"
      "r4 = breaker_Execute (ev_clk ev 2) (ev_clk ev 3) None (fo_Provider opt)
              (r2\<lparr>mr_health := hm_RecordSuccess (ev_clk ev 1) (fo_Provider opt) (rsp_Latency resp) (mr_health r2)\<rparr>)"
      "r' = (budget_record ev task (rsp_Cost resp) r4)\<lparr>mr_cache := map_option
              (cache_Set (ev_clk ev 4) (CacheKey (ev_digest ev) (chat_request task opt r)) (Some resp)) (mr_cache r4)\<rparr>"
  using assms
  by (auto simp: attempt_def Let_def split: option.splits if_splits prod.splits sum.splits)

lemma attempt_providers [simp]: "mr_providers (fst (attempt ev task opt r)) = mr_providers r"
proof -
  obtain r' res where a: "attempt ev task opt r = (r', res)" by fastforce
  then show ?thesis
    by (cases rule: attempt_cases) (auto simp: a dest!: cache_lookup_frame(1) budget_gate_frame(1))
qed

lemma attempt_prices [simp]: "mr_prices (fst (attempt ev task opt r)) = mr_prices r"
proof -
  obtain r' res where a: "attempt ev task opt r = (r', res)" by fastforce
  then show ?thesis
    by (cases rule: attempt_cases) (auto simp: a dest!: cache_lookup_frame(5) budget_gate_frame(5))
qed

text \<open>No attempt touches the breaker of a provider whose circuit is open.\<close>

lemma attempt_keeps_open:
  assumes "breaker_blocks q r"
  shows "breaker_blocks q (fst (attempt ev task opt r))"
proof -
  obtain r' res where a: "attempt ev task opt r = (r', res)" by fastforce
  then show ?thesis
  proof (cases rule: attempt_cases)
    case (failed p r1 r2 e)
    then have "q \<noteq> fo_Provider opt" and "mr_breakers r2 = mr_breakers r"
      using assms cache_lookup_frame(3) [OF failed(3)] budget_gate_frame(3) [OF failed(4)] by auto
    with assms show ?thesis
      by (simp add: a failed(7) breaker_blocks_Execute_other) (simp add: breaker_blocks_def)
  next
    case (answered p r1 r2 r4 resp)
    then have "q \<noteq> fo_Provider opt" and "mr_breakers r2 = mr_breakers r"
      using assms cache_lookup_frame(3) [OF answered(3)] budget_gate_frame(3) [OF answered(4)] by auto
    then have "breaker_blocks q r4"
      using assms by (simp add: answered(7) breaker_blocks_Execute_other) (simp add: breaker_blocks_def)
    then show ?thesis by (simp add: a answered(8) breaker_blocks_def)
  qed (use assms a in \<open>auto simp: breaker_blocks_def dest!: cache_lookup_frame(3) budget_gate_frame(3)\<close>)
qed

lemma try_attempts_keeps:
  "breaker_blocks q r \<Longrightarrow> breaker_blocks q (fst (try_attempts evs task i as le r))"
  "mr_providers (fst (try_attempts evs task i as le r)) = mr_providers r"
  "mr_prices (fst (try_attempts evs task i as le r)) = mr_prices r"
proof (induction evs task i as le r rule: try_attempts.induct)
  case (2 evs task i a as le r)
  obtain r' res where a: "attempt (evs i) task a r = (r', res)" by fastforce
  with attempt_keeps_open [of q r "evs i" task a] attempt_providers [of "evs i" task a r] attempt_prices [of "evs i" task a r]
  have r': "breaker_blocks q r \<Longrightarrow> breaker_blocks q r'" "mr_providers r' = mr_providers r" "mr_prices r' = mr_prices r"
    by simp_all
  { case 1 with r' a "2.IH"(1) show ?case by (auto split: sum.split) }
  { case 2 with r' a "2.IH"(2) show ?case by (auto split: sum.split) }
  { case 3 with r' a "2.IH"(3) show ?case by (auto split: sum.split) }
qed simp_all

lemma streamAttempt_keeps:
  "breaker_blocks q r \<Longrightarrow> breaker_blocks q (fst (streamAttempt ev task opt r))"
  "mr_providers (fst (streamAttempt ev task opt r)) = mr_providers r"
  by (auto simp: streamAttempt_def Let_def breaker_blocks_Execute_other breaker_blocks_def [of _ "_\<lparr>mr_health := _\<rparr>"]
        split: option.splits prod.splits sum.splits dest: budget_gate_frame)
     (auto simp: breaker_blocks_def breaker_Execute_def split: option.splits dest!: budget_gate_frame(3))

lemma try_streams_keeps:
  "breaker_blocks q r \<Longrightarrow> breaker_blocks q (fst (try_streams evs task i as r))"
  "mr_providers (fst (try_streams evs task i as r)) = mr_providers r"
proof (induction evs task i as r rule: try_streams.induct)
  case (2 evs task i a as r)
  obtain r' res where a: "streamAttempt (evs i) task a r = (r', res)" by fastforce
  with streamAttempt_keeps(1) [of q r "evs i" task a] streamAttempt_keeps(2) [of "evs i" task a r]
  have r': "breaker_blocks q r \<Longrightarrow> breaker_blocks q r'" "mr_providers r' = mr_providers r"
    by simp_all
  { case 1 with r' a "2.IH"(1) show ?case by (auto split: sum.split) }
  { case 2 with r' a "2.IH"(2) show ?case by (auto split: sum.split) }
qed simp_all

subsection \<open>Requests against a router\<close>

text \<open>
  The steps of a running router: a request, a streaming request (its synchronous part), a
  background health check. Environments, tasks and instants are arbitrary.
\<close>

inductive router_step :: "'p ModelRouter \<Rightarrow> 'p ModelRouter \<Rightarrow> bool" where
  exec: "router_step r (fst (ExecuteWithFailover evs ks pk mk task r))"
| stream: "router_step r (fst (StreamWithFailover evs ks task r))"
| check: "router_step r (r\<lparr>mr_health := CheckHealth hc t1 t2 t3 name (mr_health r)\<rparr>)"

lemma router_step_keeps:
  "router_step r r' \<Longrightarrow> mr_providers r' = mr_providers r \<and> (breaker_blocks q r \<longrightarrow> breaker_blocks q r')"
proof (induction rule: router_step.induct)
  case (exec r evs ks pk mk task)
  show ?case
  proof (cases "Route ks task r")
    case None
    then show ?thesis by (simp add: ExecuteWithFailover_def)
  next
    case (Some d)
    obtain r1 x where 1: "try_attempts evs task 0 (ranked_attempts d) None r = (r1, x)" by fastforce
    note k1 = try_attempts_keeps [where evs = evs and task = task and i = 0 and as = "ranked_attempts d" and le = None and r = r, simplified 1 fst_conv]
    note k2 = try_attempts_keeps [where evs = evs and task = task and r = r1]
    show ?thesis using k1 k2
      by (auto simp: ExecuteWithFailover_def Some 1 Let_def split: sum.split prod.split) (metis fst_conv)+
  qed
next
  case (stream r evs ks task)
  show ?case
    using try_streams_keeps [where r = r and evs = evs and task = task and i = 0]
    by (auto simp: StreamWithFailover_def split: option.split prod.split) (metis fst_conv)+
next
  case (check r hc t1 t2 t3 name)
  show ?case by (simp add: breaker_blocks_def)
qed

lemma router_steps_keep:
  "router_step\<^sup>*\<^sup>* r r' \<Longrightarrow> mr_providers r' = mr_providers r \<and> (breaker_blocks q r \<longrightarrow> breaker_blocks q r')"
  by (induction rule: rtranclp_induct) (auto dest: router_step_keeps)

subsection \<open>Spend of an attempt\<close>

definition spent :: "'p ModelRouter \<Rightarrow> string \<Rightarrow> f64" where
  "spent r k = (case mr_budget r of None \<Rightarrow> 0 | Some b \<Rightarrow> amount (bm_usage b) k)"

definition budget_settled :: "'p ModelRouter \<Rightarrow> bool" where
  "budget_settled r = (case mr_budget r of None \<Rightarrow> False | Some b \<Rightarrow> bm_loaded b \<or> bm_store b = None)"

lemma budget_gate_spent:
  assumes "budget_settled r" "budget_gate ev task opt r = (r', e)"
  shows "spent r' k = spent r k" "mr_budget r' \<noteq> None"
proof -
  from assms(1) obtain b where b: "mr_budget r = Some b" "bm_loaded b \<or> bm_store b = None"
    by (cases "mr_budget r") (auto simp: budget_settled_def)
  have "bm_usage (fst (CheckBudget ok org t p b)) = bm_usage b" for ok org t p
    using ensureLoaded_settled [OF b(2)] by (simp add: CheckBudget_def Let_def)
  with assms(2) b(1) show "spent r' k = spent r k" "mr_budget r' \<noteq> None"
    by (auto simp: budget_gate_def spent_def split: prod.splits) (metis fst_conv)
qed

lemma spent_budget_record:
  assumes "mr_budget r \<noteq> None"
  shows "spent (budget_record ev task c r) k =
    (if k = ''org:'' @ tk_OrgID task \<or> k = ''task:'' @ tk_ID task then fadd (spent r k) c else spent r k)"
  using assms by (auto simp: spent_def budget_record_def RecordCost_usage)

lemma spent_cong: "mr_budget r' = mr_budget r \<Longrightarrow> spent r' k = spent r k"
  by (simp add: spent_def)

text \<open>The attempts a run of the loop really makes: up to and including the first success.\<close>

fun attempts_made ::
  "(nat \<Rightarrow> 'p call_env) \<Rightarrow> LlmTask \<Rightarrow> nat \<Rightarrow> FallbackOption list \<Rightarrow> 'p ModelRouter \<Rightarrow> FallbackOption list" where
  "attempts_made evs task i [] r = []"
| "attempts_made evs task i (a # as) r =
     a # (case attempt (evs i) task a r of
            (r', Inr resp) \<Rightarrow> []
          | (r', Inl err) \<Rightarrow> attempts_made evs task (Suc i) as r')"

lemma try_attempts_Inl_made:
  "try_attempts evs task i as le r = (r', Inl le') \<Longrightarrow> attempts_made evs task i as r = as"
  by (induction evs task i as le r rule: try_attempts.induct) (auto split: prod.splits sum.splits)

lemma remaining_covers:
  assumes "name \<in> set pk" "name \<notin> set (map fo_Provider tried)" "model \<in> set (mk name)" "model \<noteq> []"
    "\<forall>m \<in> set (mk name). m \<noteq> []" "gget (mr_prices r) model = Some info" "mi_Provider info = name"
  shows "name \<in> set (map fo_Provider (remaining_attempts pk mk tried r))"
proof -
  let ?P = "\<lambda>m. case gget (mr_prices r) m of None \<Rightarrow> False | Some i \<Rightarrow> mi_Provider i = name"
  from assms(6,7) have "?P model" by simp
  with assms(3) have "filter ?P (mk name) \<noteq> []" by (metis (mono_tags, lifting) filter_empty_conv)
  then obtain m ms where f: "filter ?P (mk name) = m # ms" by (cases "filter ?P (mk name)") auto
  then have "m \<in> set (mk name)" by (metis filter_is_subset list.set_intros(1) subsetD)
  with f assms(5) have "defaultModelFor (mk name) name r \<noteq> []" by (simp add: defaultModelFor_def)
  with assms(1,2) show ?thesis by (auto simp: remaining_attempts_def)
qed

lemma remaining_attempts_cong:
  "mr_prices r' = mr_prices r \<Longrightarrow> remaining_attempts pk mk tried r' = remaining_attempts pk mk tried r"
  by (simp add: remaining_attempts_def defaultModelFor_def)

subsection \<open>Properties\<close>

text \<open>
  Routing is sound: the chosen model and each of the at most three fallbacks is priced, is
  served by a provider that is healthy now, and supports every capability the task requires;
  no fallback is estimated cheaper than the choice.
\<close>

theorem route_sound:
  assumes "Route ks task r = Some d"
  shows "candidate_ok r task (GetHealthyProviders ks (mr_health r)) (rd_Provider d) (rd_Model d) \<and>
    (\<forall>f \<in> set (rd_Fallbacks d).
       candidate_ok r task (GetHealthyProviders ks (mr_health r)) (fo_Provider f) (fo_Model f) \<and>
       rd_EstCost d \<le> fo_EstCost f) \<and>
    length (rd_Fallbacks d) \<le> 3"
proof -
  let ?h = "GetHealthyProviders ks (mr_health r)"
  from assms obtain c cs where rank: "rankCandidates r task ?h (classifyComplexity task) = c # cs"
    and d: "rd_Provider d = rc_Provider c" "rd_Model d = rc_Model c" "rd_EstCost d = rc_EstCost c"
      "rd_Fallbacks d = map fallback_of (take 3 cs)"
    by (auto simp: Route_def Let_def split: list.splits)
  have ok: "candidate_ok r task ?h (rc_Provider x) (rc_Model x)" if "x \<in> set (c # cs)" for x
    using rankCandidates_ok [of x r task ?h "classifyComplexity task"] that rank by simp
  have "rc_EstCost c \<le> rc_EstCost x" if "x \<in> set cs" for x
  proof -
    obtain l where "go_sort candidate_less l = c # cs" using rank by (auto simp: rankCandidates_def Let_def)
    with candidates.go_sort_sorted [of l] that have "\<not> candidate_less x c" by simp
    then show ?thesis by (auto simp: candidate_less_def split: if_splits)
  qed
  with ok d show ?thesis
    by (auto simp: fallback_of_def dest: in_set_takeD)
qed

definition demo_router :: "unit ModelRouter" where
  "demo_router = mr_RegisterProvider ''openai'' () 
     (NewModelRouter [(''gpt-4o-mini'', \<lparr>mi_Name = ''gpt-4o-mini'', mi_Provider = ''openai'', InputCostPer1K = 1,
        OutputCostPer1K = 2, mi_MaxTokens = 16384, Capabilities = [''tools'']\<rparr>)] None)"

definition demo_task :: LlmTask where
  "demo_task = \<lparr>tk_ID = ''t1'', tk_OrgID = ''o1'', tk_Type = [], tk_Description = [], tk_FilesChanged = [],
     RequiresReasoning = False, IsNovel = False, tk_Tags = [], tk_Messages = [], tk_Complexity = 0,
     RequiredCapabilities = [''tools''], TargetModel = []\<rparr>"

lemmas route_eval = Route_def rankCandidates_def classifyComplexity_def type_score_def getModelsForComplexity_def
  addCandidate_def GetHealthyProviders_def mr_RegisterProvider_def NewModelRouter_def AllPrices_def
  hm_RegisterProvider_def NewHealthMonitor_def supportsAll_def Supports_def go_sort_def fallback_of_def Let_def

lemma demo_route:
  "map_option (\<lambda>d. (rd_Provider d, rd_Model d, length (rd_Fallbacks d))) (Route [''openai''] demo_task demo_router)
     = Some (''openai'', ''gpt-4o-mini'', 0)"
  by (simp add: route_eval demo_router_def demo_task_def f64.rnd_nonneg)

theorem route_sound_witness:
  "\<exists>d. Route [''openai''] demo_task demo_router = Some d \<and> rd_Model d = ''gpt-4o-mini'' \<and>
     candidate_ok demo_router demo_task (GetHealthyProviders [''openai''] (mr_health demo_router)) ''openai'' ''gpt-4o-mini''"
proof -
  from demo_route obtain d where d: "Route [''openai''] demo_task demo_router = Some d"
    "rd_Provider d = ''openai''" "rd_Model d = ''gpt-4o-mini''" by auto
  with route_sound [OF d(1)] show ?thesis by auto
qed

text \<open>
  Routing fails exactly when no model is usable: none of the models of the task's complexity
  tier, nor the requested target model, is priced, served by a healthy provider and capable,
  and the configured default model (if it adds anything) is not either.
\<close>

theorem route_fails_iff:
  "Route ks task r = None \<longleftrightarrow>
     (\<forall>m \<in> set (considered r task). \<not> admissible r task (GetHealthyProviders ks (mr_health r)) m) \<and>
     (DefaultModel r \<noteq> [] \<and> DefaultModel r \<noteq> TargetModel task \<longrightarrow>
        \<not> admissible r task (GetHealthyProviders ks (mr_health r)) (DefaultModel r))"
  using rankCandidates_Nil [of r task "GetHealthyProviders ks (mr_health r)"]
  by (auto simp: Route_def Let_def split: list.split)

text \<open>
  The hypothesis-like parts of the previous statement occur in practice: with its only
  provider down the demonstration router cannot route.
\<close>

definition down_router :: "unit ModelRouter" where
  "down_router = demo_router\<lparr>mr_health := hm_RecordFailure ''openai'' (mr_health demo_router)\<rparr>"

theorem route_fails_iff_witness:
  "Route [''openai''] demo_task down_router = None \<and>
   list_all (\<lambda>m. \<not> admissible down_router demo_task (GetHealthyProviders [''openai''] (mr_health down_router)) m)
     (considered down_router demo_task)"
proof -
  have "Route [''openai''] demo_task down_router = None"
    by (simp add: route_eval demo_router_def down_router_def demo_task_def f64.rnd_nonneg hm_RecordFailure_def ph_fail_def)
  with route_fails_iff [of "[''openai'']" demo_task down_router] show ?thesis by (simp add: list_all_iff)
qed

text \<open>
  C39. Exact accounting of an attempt, with a budget guard attached that has no persistent store or has
  already loaded its usage from it (before that, the first attempt that reaches the gate reads it in,
  also when it then fails): a failed attempt leaves the recorded spend as it was. A successful one is either a cache hit,
  which is free, and leaves spend, health and circuit breakers as they were; or the answer of the
  registered provider, whose cost is added once to the spend of the organization and once to that of the
  task, and the spend under every other key stays as it was.
\<close>

theorem attempt_accounting:
  assumes "attempt ev task opt r = (r', res)" and "budget_settled r"
  shows "case res of
      Inl e \<Rightarrow> \<forall>k. spent r' k = spent r k
    | Inr resp \<Rightarrow>
        (rsp_Cost resp = 0 \<and> rsp_Latency resp = 0 \<and> (\<forall>k. spent r' k = spent r k) \<and>
         mr_health r' = mr_health r \<and> mr_breakers r' = mr_breakers r) \<or>
        (\<exists>p. gget (mr_providers r) (fo_Provider opt) = Some p \<and>
             ev_chat ev p (chat_request task opt r) = Inr resp \<and>
             (\<forall>k. spent r' k = (if k = ''org:'' @ tk_OrgID task \<or> k = ''task:'' @ tk_ID task
                                then fadd (spent r k) (rsp_Cost resp) else spent r k)))"
  using assms(1)
proof (cases rule: attempt_cases)
  case (hit p resp)
  from hit(3) obtain c c' where "cache_Get (ev_clk ev 0) (CacheKey (ev_digest ev) (chat_request task opt r)) c = (c', Some resp)"
    by (auto simp: cache_lookup_def split: option.splits prod.splits)
  then have "rsp_Cost resp = 0 \<and> rsp_Latency resp = 0" by (rule mem_cache.hit_is_free)
  moreover have "spent r' k = spent r k" for k by (rule spent_cong) (rule cache_lookup_frame(4) [OF hit(3)])
  ultimately show ?thesis using hit(4) cache_lookup_frame(2,3) [OF hit(3)] by simp
next
  case (refused p r1 be)
  have "budget_settled r1" using assms(2) cache_lookup_frame(4) [OF refused(3)] by (simp add: budget_settled_def)
  from budget_gate_spent(1) [OF this refused(4)] spent_cong [OF cache_lookup_frame(4) [OF refused(3)]] refused(5)
  show ?thesis by simp
next
  case (failed p r1 r2 e)
  have "budget_settled r1" using assms(2) cache_lookup_frame(4) [OF failed(3)] by (simp add: budget_settled_def)
  from budget_gate_spent(1) [OF this failed(4)] spent_cong [OF cache_lookup_frame(4) [OF failed(3)]] failed(6,7)
  show ?thesis by (simp add: spent_def)
next
  case (answered p r1 r2 r4 resp)
  have s1: "budget_settled r1" using assms(2) cache_lookup_frame(4) [OF answered(3)] by (simp add: budget_settled_def)
  have r4: "mr_budget r4 = mr_budget r2" unfolding answered(7) by simp
  have s4: "spent r4 k = spent r k" for k
    using budget_gate_spent(1) [OF s1 answered(4), of k] spent_cong [OF cache_lookup_frame(4) [OF answered(3)], of k]
      spent_cong [OF r4, of k] by simp
  have "mr_budget r' = mr_budget (budget_record ev task (rsp_Cost resp) r4)" unfolding answered(8) by simp
  then have "spent r' k = spent (budget_record ev task (rsp_Cost resp) r4) k" for k by (rule spent_cong)
  moreover have "mr_budget r4 \<noteq> None" using budget_gate_spent(2) [OF s1 answered(4)] r4 by simp
  ultimately show ?thesis using answered(1,5,6) s4 by (simp add: spent_budget_record)
qed (simp_all add: spent_def)

definition demo_env :: "(string + ChatResponse) \<Rightarrow> unit call_env" where
  "demo_env answer = \<lparr>ev_clk = (\<lambda>i. int i), ev_chat = (\<lambda>p req. answer), ev_stream = (\<lambda>p req. Inl ''unsupported''),
     ev_load_ok = True, ev_add_org_ok = True, ev_add_task_ok = True, ev_digest = pl_model\<rparr>"

definition demo_opt :: FallbackOption where
  "demo_opt = \<lparr>fo_Provider = ''openai'', fo_Model = ''gpt-4o-mini'', fo_EstCost = 1\<rparr>"

lemmas attempt_eval = attempt_def demo_env_def demo_opt_def demo_router_def mr_RegisterProvider_def NewModelRouter_def
  breaker_blocks_def cache_lookup_def budget_gate_def budget_record_def breaker_Execute_def CheckBudget_def RecordCost_def
  ensureLoaded_def NewBudgetManager_def budget_gets NewCircuitBreaker_def cb_IsOpen_def Let_def

theorem attempt_accounting_witness:
  "let r = demo_router\<lparr>mr_budget := Some (NewBudgetManager None 0 0)\<rparr>
   in budget_settled r \<and> snd (attempt (demo_env (Inr sample_response)) demo_task demo_opt r) = Inr sample_response \<and>
      spent (fst (attempt (demo_env (Inr sample_response)) demo_task demo_opt r)) ''org:o1'' = fadd (spent r ''org:o1'') 1"
proof -
  let ?r = "demo_router\<lparr>mr_budget := Some (NewBudgetManager None 0 0)\<rparr>"
  let ?a = "attempt (demo_env (Inr sample_response)) demo_task demo_opt ?r"
  have s: "budget_settled ?r" by (simp add: budget_settled_def NewBudgetManager_def)
  have res: "snd ?a = Inr sample_response" by (simp add: attempt_eval)
  have cost: "rsp_Cost sample_response = 1" by (simp add: sample_response_def)
  have ids: "tk_OrgID demo_task = ''o1''" by (simp add: demo_task_def)
  from attempt_accounting [OF prod.collapse [symmetric] s, of "demo_env (Inr sample_response)" demo_task demo_opt]
  have "spent (fst ?a) ''org:o1'' = fadd (spent ?r ''org:o1'') 1"
    unfolding res by (auto simp: cost ids)
  with s res show ?thesis by simp
qed

text \<open>
  Failover is exhaustive: when a routed request ends in the error "all providers failed",
  every registered provider for which the price table has a model was really attempted, as
  the choice, as a fallback, or as a last resort.
\<close>

theorem failover_exhaustive:
  assumes "Route ks task r = Some d"
    and "ExecuteWithFailover evs ks pk mk task r = (r', Inl err)"
    and "gget (mr_providers r) name = Some p" and "set pk = set (gkeys (mr_providers r))"
    and "gget (mr_prices r) model = Some info" and "mi_Provider info = name"
    and "set (mk name) = set (gkeys (mr_prices r))" and "[] \<notin> set (gkeys (mr_prices r))"
  shows "\<exists>r1. name \<in> fo_Provider ` set (attempts_made evs task 0 (ranked_attempts d) r @
      attempts_made evs task (length (ranked_attempts d)) (remaining_attempts pk mk (ranked_attempts d) r) r1)"
proof -
  let ?as = "ranked_attempts d"
  from assms(1,2) obtain r1 le where 1: "try_attempts evs task 0 ?as None r = (r1, Inl le)"
    by (auto simp: ExecuteWithFailover_def Let_def split: prod.splits sum.splits)
  let ?rs = "remaining_attempts pk mk ?as r1"
  from assms(1,2) 1 obtain r2 le' where 2: "try_attempts evs task (length ?as) ?rs le r1 = (r2, Inl le')"
    by (auto simp: ExecuteWithFailover_def Let_def split: prod.splits sum.splits)
  have rs: "?rs = remaining_attempts pk mk ?as r"
    using try_attempts_keeps(3) [of evs task 0 ?as None r] 1 by (intro remaining_attempts_cong) simp
  have "name \<in> set pk" using assms(3,4) by (simp add: set_gkeys)
  moreover have "model \<in> set (mk name)" "model \<noteq> []" "\<forall>m \<in> set (mk name). m \<noteq> []"
    using assms(5,7,8) by (auto simp: set_gkeys)
  ultimately have "name \<in> fo_Provider ` set (?as @ remaining_attempts pk mk ?as r)"
    using remaining_covers [of name pk ?as model mk r info] assms(5,6) by (cases "name \<in> fo_Provider ` set ?as") auto
  with try_attempts_Inl_made [OF 1] try_attempts_Inl_made [OF 2] rs show ?thesis by metis
qed

theorem failover_exhaustive_witness:
  "\<exists>d r1. Route [''openai''] demo_task demo_router = Some d \<and>
     ''openai'' \<in> fo_Provider ` set (attempts_made (\<lambda>i. demo_env (Inl ''down'')) demo_task 0 (ranked_attempts d) demo_router @
       attempts_made (\<lambda>i. demo_env (Inl ''down'')) demo_task (length (ranked_attempts d))
         (remaining_attempts [''openai''] (\<lambda>_. [''gpt-4o-mini'']) (ranked_attempts d) demo_router) r1)"
proof -
  let ?evs = "\<lambda>i. demo_env (Inl ''down'')"
  from demo_route obtain d where d: "Route [''openai''] demo_task demo_router = Some d"
    "rd_Provider d = ''openai''" "rd_Model d = ''gpt-4o-mini''" "rd_Fallbacks d = []" by auto
  have k: "set (gkeys (mr_providers demo_router)) = {''openai''}" "set (gkeys (mr_prices demo_router)) = {''gpt-4o-mini''}"
    by (simp_all add: set_gkeys demo_router_def mr_RegisterProvider_def NewModelRouter_def AllPrices_def Let_def)
  have e: "\<exists>r' err. ExecuteWithFailover ?evs [''openai''] [''openai''] (\<lambda>_. [''gpt-4o-mini'']) demo_task demo_router = (r', Inl err)"
    by (simp add: ExecuteWithFailover_def d ranked_attempts_def Let_def remaining_attempts_def)
       (simp add: attempt_eval)
  then obtain r' err where "ExecuteWithFailover ?evs [''openai''] [''openai''] (\<lambda>_. [''gpt-4o-mini'']) demo_task demo_router = (r', Inl err)"
    by blast
  from failover_exhaustive [OF d(1) this, of "''openai''" "()" "''gpt-4o-mini''"] d(1) k show ?thesis
    by (fastforce simp: demo_router_def mr_RegisterProvider_def NewModelRouter_def AllPrices_def Let_def)
qed

text \<open>
  An open circuit is never probed: once the breaker of a registered provider is open, and no call
  admitted earlier is still in flight, it stays open through every further sequence of
  requests, streaming requests and health checks, at whatever times they happen, and every
  attempt on that provider is refused without calling it. (The router asks \<^verbatim>\<open>IsOpen\<close> first, and only \<^verbatim>\<open>Execute\<close>, behind that check, moves an open
  breaker to half-open.)
\<close>

theorem open_circuit_never_probed:
  assumes "router_step\<^sup>*\<^sup>* r r'" and "breaker_blocks (fo_Provider opt) r"
    and "gget (mr_providers r) (fo_Provider opt) = Some p"
  shows "breaker_blocks (fo_Provider opt) r' \<and>
    attempt ev task opt r' = (r', Inl (BreakerOpen (fo_Provider opt))) \<and>
    streamAttempt ev task opt r' = (r', Inl (BreakerOpen (fo_Provider opt)))"
  using router_steps_keep [OF assms(1), of "fo_Provider opt"] assms(2,3)
  by (simp add: attempt_def streamAttempt_def)

text \<open>A provider error is counted by the breaker, so five of them open it.\<close>

definition failing_router :: "unit ModelRouter" where
  "failing_router = ((\<lambda>r. fst (attempt (demo_env (Inl ''down'')) demo_task demo_opt r)) ^^ Suc (Suc (Suc (Suc (Suc 0))))) demo_router"

lemma failing_router_open:
  "breaker_blocks ''openai'' failing_router" "gget (mr_providers failing_router) ''openai'' = Some ()"
proof -
  have attempt_fails:
    "attempt (demo_env (Inl ''down'')) demo_task demo_opt r =
       (breaker_Execute 2 3 (Some ''down'') ''openai'' (r\<lparr>mr_health := hm_RecordFailure ''openai'' (mr_health r)\<rparr>), Inl (ProviderError ''down''))"
    if "gget (mr_providers r) ''openai'' = Some ()" "\<not> breaker_blocks ''openai'' r" "mr_cache r = None" "mr_budget r = None" for r
    using that by (simp add: attempt_def demo_env_def demo_opt_def cache_lookup_def budget_gate_def Let_def)
  have p: "gget (mr_providers demo_router) ''openai'' = Some ()" "mr_cache demo_router = None" "mr_budget demo_router = None"
    "gget (mr_breakers demo_router) ''openai'' = Some (NewCircuitBreaker 5 (30 * Second))"
    by (simp_all add: demo_router_def mr_RegisterProvider_def NewModelRouter_def Let_def)
  show "breaker_blocks ''openai'' failing_router" "gget (mr_providers failing_router) ''openai'' = Some ()"
    unfolding failing_router_def
    by (simp_all add: attempt_fails p breaker_blocks_def breaker_Execute_def cb_Execute_def cb_defs NewCircuitBreaker_def Let_def)
qed

theorem open_circuit_never_probed_witness:
  "attempt ((demo_env (Inr sample_response))\<lparr>ev_clk := (\<lambda>i. 10 ^ 18)\<rparr>) demo_task demo_opt failing_router
     = (failing_router, Inl (BreakerOpen ''openai''))"
  using open_circuit_never_probed [of failing_router failing_router demo_opt "()"
      "(demo_env (Inr sample_response))\<lparr>ev_clk := (\<lambda>i. 10 ^ 18)\<rparr>" demo_task] failing_router_open
  by (simp add: demo_opt_def)

text \<open>
  The last resort passes the budget gate whatever it will cost: an attempt on a provider that
  was not ranked carries the estimate zero, so as long as the recorded usage is within the
  limits its check succeeds, also when the ranked attempts were refused because their
  estimated cost would pass the limit.
\<close>

theorem last_resort_passes_gate:
  assumes "opt \<in> set (remaining_attempts pk mk tried r0)"
    and "mr_budget r = Some b" and "within_limits b" and "\<forall>k. is_f64 (amount (bm_usage b) k)"
  shows "snd (budget_gate ev task opt r) = None"
proof -
  have "fo_EstCost opt = 0" using assms(1) by (auto simp: remaining_attempts_def)
  moreover have "fadd (getOrgUsage x b) 0 = getOrgUsage x b" "fadd (getTaskUsage x b) 0 = getTaskUsage x b" for x
    using assms(4) by (simp_all add: fadd_def getOrgUsage_def getTaskUsage_def is_f64_def)
  moreover have "ensureLoaded ok b = b" for ok using assms(3) by (auto simp: within_limits_def ensureLoaded_def)
  ultimately show ?thesis
    using assms(2,3) by (fastforce simp: budget_gate_def CheckBudget_def Let_def within_limits_def split: prod.split)
qed

text \<open>
  Instance: an organization limited to 1 with nothing spent; an attempt estimated at 2 is
  refused, the last resort is let through and its answer, costing 7, is recorded.
\<close>

definition limited_router :: "unit ModelRouter" where
  "limited_router = demo_router\<lparr>mr_budget := Some (NewBudgetManager None 1 0)\<rparr>"

theorem last_resort_passes_gate_witness:
  "snd (budget_gate (demo_env (Inr (sample_response\<lparr>rsp_Cost := 7\<rparr>))) demo_task (demo_opt\<lparr>fo_EstCost := 2\<rparr>) limited_router) \<noteq> None \<and>
   snd (budget_gate (demo_env (Inr (sample_response\<lparr>rsp_Cost := 7\<rparr>))) demo_task (demo_opt\<lparr>fo_EstCost := 0\<rparr>) limited_router) = None \<and>
   spent (fst (attempt (demo_env (Inr (sample_response\<lparr>rsp_Cost := 7\<rparr>))) demo_task (demo_opt\<lparr>fo_EstCost := 0\<rparr>) limited_router)) ''org:o1'' = 7"
proof -
  let ?ev = "demo_env (Inr (sample_response\<lparr>rsp_Cost := 7\<rparr>))" and ?o = "demo_opt\<lparr>fo_EstCost := 0\<rparr>"
  have b: "mr_budget limited_router = Some (NewBudgetManager None 1 0)" by (simp add: limited_router_def)
  have m: "?o \<in> set (remaining_attempts [''openai''] (\<lambda>_. [''gpt-4o-mini'']) [] limited_router)"
    by (simp add: remaining_attempts_def defaultModelFor_def limited_router_def demo_router_def mr_RegisterProvider_def
        NewModelRouter_def AllPrices_def demo_opt_def Let_def)
  have w: "within_limits (NewBudgetManager None 1 0)" "\<forall>k. is_f64 (amount (bm_usage (NewBudgetManager None 1 0)) k)"
    by (simp_all add: within_limits_def NewBudgetManager_def budget_gets)
  have g: "snd (budget_gate ?ev demo_task ?o limited_router) = None"
    by (rule last_resort_passes_gate [OF m b w])
  have n: "snd (budget_gate ?ev demo_task (demo_opt\<lparr>fo_EstCost := 2\<rparr>) limited_router) \<noteq> None"
    by (simp add: budget_gate_def b CheckBudget_def ensureLoaded_def NewBudgetManager_def budget_gets fadd_def fl_numeral Let_def)
  have "spent (fst (attempt ?ev demo_task ?o limited_router)) ''org:o1'' = 7"
    by (simp add: attempt_eval limited_router_def demo_task_def spent_def fadd_def fl_numeral)
  with g n show ?thesis by blast
qed

end
