(* ===== verification/Agent_State.thy ===== *)
theory Agent_State
  imports Llm_Types Go_Strings "HOL-Library.Sublist"
begin

text \<open>
  The task state machine of \<^verbatim>\<open>internal/agent/state.go\<close>: the task record, \<^verbatim>\<open>Transition\<close> with its
  guards (plan position, retry limit), \<^verbatim>\<open>ValidTransitions\<close> and \<^verbatim>\<open>IsTerminal\<close>.

  \<^verbatim>\<open>TaskState\<close> and \<^verbatim>\<open>Event\<close> are string types with one constant per value; they are datatypes
  here. Of the fields of \<^verbatim>\<open>Task\<close> the record has those the agent reads or writes (not the
  project id, priority, metadata, the file list, the message log and the iteration limit, which
  only the HTTP layer uses). The callback \<^verbatim>\<open>OnStateChange\<close> is the log of its calls, \<open>None\<close> when it
  is not set. The state machine has no state of its own besides its mutex.
\<close>

datatype TaskState = StatePending | StatePlanning | StateExecuting | StateWaitingHITL
  | StateReviewing | StateCompleted | StateFailed | StateCancelled

datatype Event = EventStart | EventPlanReady | EventStepComplete | EventStepFailed | EventHITLRequired
  | EventHITLApproved | EventHITLRejected | EventReviewPassed | EventReviewFailed | EventCancel

type_synonym params = "(string \<times> json) list"

record PlanStep =
  ps_Index :: int
  ps_Tool :: string
  ps_Description :: string
  ps_Params :: params

record Plan =
  pl_Steps :: "PlanStep list"
  pl_TotalSteps :: int

record StepResult =
  sp_Step :: int
  sp_Tool :: string
  sp_Status :: string
  sp_Result :: string
  sp_Error :: string
  sp_DurationMs :: int
  sp_TokensUsed :: int
  sp_Cost :: f64
  sp_StartedAt :: gotime
  sp_CompletedAt :: "gotime option"

record HITLCheckpoint =
  cp_CheckpointID :: string
  cp_Description :: string
  cp_Options :: "string list"
  cp_WaitingSince :: gotime

record Task =
  t_ID :: string
  t_UserID :: string
  t_OrgID :: string
  t_Title :: string
  t_Description :: string
  t_State :: TaskState
  t_Plan :: "Plan option"
  t_Steps :: "StepResult list"
  t_CurrentStep :: int
  t_Result :: string
  t_ModelUsed :: string
  t_Provider :: string
  t_Complexity :: string
  t_InputTokens :: int
  t_OutputTokens :: int
  t_ToolTokens :: int
  t_TotalTokens :: int
  t_Cost :: f64
  t_HITLRequired :: bool
  t_HITLCheckpoint :: "HITLCheckpoint option"
  t_Error :: string
  t_RetryCount :: int
  t_MaxRetries :: int
  t_MaxTokens :: int
  t_Tags :: "string list"
  t_StartedAt :: "gotime option"
  t_CompletedAt :: "gotime option"
  t_UpdatedAt :: gotime
  t_OnStateChange :: "(string \<times> TaskState \<times> TaskState) list option"

datatype transition_error = InvalidTransition TaskState Event

text \<open>
  \<open>now\<close> is the clock reading at the start of the call, \<open>now'\<close> the second one, taken when the
  review passes. The update time is written even when the transition is refused.
\<close>

definition Transition :: "gotime \<Rightarrow> gotime \<Rightarrow> Task \<Rightarrow> Event \<Rightarrow> Task \<times> transition_error option" where
  "Transition now now' task0 event =
     (let task = task0\<lparr>t_UpdatedAt := now\<rparr>; invalid = (task, Some (InvalidTransition (t_State task) event))
      in case t_State task of
           StatePending \<Rightarrow>
             (case event of
                EventStart \<Rightarrow> (task\<lparr>t_State := StatePlanning\<rparr>, None)
              | EventCancel \<Rightarrow> (task\<lparr>t_State := StateCancelled\<rparr>, None)
              | _ \<Rightarrow> invalid)
         | StatePlanning \<Rightarrow>
             (case event of
                EventPlanReady \<Rightarrow> (task\<lparr>t_State := StateExecuting\<rparr>, None)
              | EventStepFailed \<Rightarrow> (task\<lparr>t_State := StateFailed\<rparr>, None)
              | _ \<Rightarrow> invalid)
         | StateExecuting \<Rightarrow>
             (case event of
                EventStepComplete \<Rightarrow>
                  (case t_Plan task of
                     Some plan \<Rightarrow>
                       if t_CurrentStep task \<ge> pl_TotalSteps plan - 1
                       then (task\<lparr>t_State := StateReviewing\<rparr>, None) else (task, None)
                   | None \<Rightarrow> (task, None))
              | EventStepFailed \<Rightarrow>
                  if t_RetryCount task + 1 \<ge> t_MaxRetries task then (task\<lparr>t_State := StateFailed\<rparr>, None)
                  else (task\<lparr>t_RetryCount := t_RetryCount task + 1\<rparr>, None)
              | EventHITLRequired \<Rightarrow> (task\<lparr>t_State := StateWaitingHITL\<rparr>, None)
              | EventHITLApproved \<Rightarrow> (task\<lparr>t_State := StateExecuting\<rparr>, None)
              | EventCancel \<Rightarrow> (task\<lparr>t_State := StateCancelled\<rparr>, None)
              | _ \<Rightarrow> invalid)
         | StateWaitingHITL \<Rightarrow>
             (case event of
                EventHITLApproved \<Rightarrow> (task\<lparr>t_State := StateExecuting\<rparr>, None)
              | EventHITLRejected \<Rightarrow> (task\<lparr>t_State := StateFailed, t_Error := ''rejected by human''\<rparr>, None)
              | _ \<Rightarrow> invalid)
         | StateReviewing \<Rightarrow>
             (case event of
                EventReviewPassed \<Rightarrow> (task\<lparr>t_State := StateCompleted, t_CompletedAt := Some now'\<rparr>, None)
              | EventReviewFailed \<Rightarrow> (task\<lparr>t_State := StateExecuting\<rparr>, None)
              | _ \<Rightarrow> invalid)
         | _ \<Rightarrow> invalid)"

fun ValidTransitions :: "TaskState \<Rightarrow> Event list" where
  "ValidTransitions StatePending = [EventStart, EventCancel]"
| "ValidTransitions StatePlanning = [EventPlanReady, EventStepFailed]"
| "ValidTransitions StateExecuting =
     [EventStepComplete, EventStepFailed, EventHITLRequired, EventHITLApproved, EventCancel]"
| "ValidTransitions StateWaitingHITL = [EventHITLApproved, EventHITLRejected]"
| "ValidTransitions StateReviewing = [EventReviewPassed, EventReviewFailed]"
| "ValidTransitions _ = []"

definition IsTerminal :: "TaskState \<Rightarrow> bool" where
  "IsTerminal state \<longleftrightarrow> state = StateCompleted \<or> state = StateFailed \<or> state = StateCancelled"

text \<open>The names of the states, as the results and the callbacks show them.\<close>

fun string_of_state :: "TaskState \<Rightarrow> string" where
  "string_of_state StatePending = ''pending''"
| "string_of_state StatePlanning = ''planning''"
| "string_of_state StateExecuting = ''executing''"
| "string_of_state StateWaitingHITL = ''waiting_hitl''"
| "string_of_state StateReviewing = ''reviewing''"
| "string_of_state StateCompleted = ''completed''"
| "string_of_state StateFailed = ''failed''"
| "string_of_state StateCancelled = ''cancelled''"

subsection \<open>Runs of the state machine\<close>

text \<open>
  \<open>task_run t es t'\<close>: from \<open>t\<close> the events \<open>es\<close>, in this order, were accepted and led to \<open>t'\<close>.
  Between events the agent changes other fields of the task, but neither its state nor its
  retry counters: the environment step allows any such change.
\<close>

inductive task_run :: "Task \<Rightarrow> Event list \<Rightarrow> Task \<Rightarrow> bool" where
  run_refl: "task_run t [] t"
| run_event: "task_run t es u \<Longrightarrow> Transition now now' u e = (u', None) \<Longrightarrow> task_run t (es @ [e]) u'"
| run_other: "task_run t es u \<Longrightarrow> t_State u' = t_State u \<Longrightarrow> t_RetryCount u' = t_RetryCount u \<Longrightarrow>
    t_MaxRetries u' = t_MaxRetries u \<Longrightarrow> task_run t es u'"

inductive_cases task_runE: "task_run t es u"

lemmas transition_cases = TaskState.splits Event.splits option.splits if_splits

lemma ValidTransitions_terminal: "ValidTransitions s = [] \<longleftrightarrow> IsTerminal s"
  by (cases s) (simp_all add: IsTerminal_def)

lemma Transition_valid: "snd (Transition now now' task e) = None \<longleftrightarrow> e \<in> set (ValidTransitions (t_State task))"
  unfolding Transition_def Let_def
  by (cases "t_State task"; cases e) (simp_all split: option.split)

lemma Transition_refused:
  "snd (Transition now now' task e) \<noteq> None \<Longrightarrow>
     Transition now now' task e = (task\<lparr>t_UpdatedAt := now\<rparr>, Some (InvalidTransition (t_State task) e))"
  unfolding Transition_def Let_def
  by (cases "t_State task"; cases e) (simp_all split: option.splits if_splits)

subsection \<open>Invariants of runs\<close>

text \<open>What the accepted events of a task say about its state, for a task that started pending.\<close>

definition history_fits :: "TaskState \<Rightarrow> Event list \<Rightarrow> bool" where
  "history_fits s es =
     (case s of
        StatePending \<Rightarrow> es = []
      | StatePlanning \<Rightarrow> es = [EventStart]
      | StateExecuting \<Rightarrow> subseq [EventStart, EventPlanReady] es \<and> last es \<noteq> EventHITLRequired
      | StateWaitingHITL \<Rightarrow> subseq [EventStart, EventPlanReady] es \<and> last es = EventHITLRequired
      | StateReviewing \<Rightarrow> subseq [EventStart, EventPlanReady, EventStepComplete] es \<and> last es \<noteq> EventHITLRequired
      | StateCompleted \<Rightarrow> subseq [EventStart, EventPlanReady, EventStepComplete, EventReviewPassed] es \<and> last es = EventReviewPassed
      | _ \<Rightarrow> last es \<noteq> EventHITLRequired)"

definition answered :: "Event list \<Rightarrow> bool" where
  "answered es \<longleftrightarrow>
     (\<forall>xs y ys. es = xs @ EventHITLRequired # y # ys \<longrightarrow> y = EventHITLApproved \<or> y = EventHITLRejected) \<and>
     (\<forall>xs ys. es = xs @ EventHITLRejected # ys \<longrightarrow> ys = [])"

lemma subseq_snoc: "subseq xs es \<Longrightarrow> subseq xs (es @ [e])"
  using list_emb_append_mono [of "(=)" xs es "[]" "[e]"] by simp

lemma subseq_snoc2: "subseq xs es \<Longrightarrow> subseq (xs @ [e]) (es @ [e])"
  by (simp add: list_emb_append_mono)

lemma history_step:
  assumes "Transition now now' u e = (u', None)" and "history_fits (t_State u) es"
  shows "history_fits (t_State u') (es @ [e])"
proof -
  have v: "e \<in> set (ValidTransitions (t_State u))" using assms(1) Transition_valid [of now now' u e] by simp
  note mono = subseq_snoc [of _ es] subseq_snoc2 [of "[EventStart]" es EventPlanReady, simplified]
    subseq_snoc2 [of "[EventStart, EventPlanReady]" es EventStepComplete, simplified]
    subseq_snoc2 [of "[EventStart, EventPlanReady, EventStepComplete]" es EventReviewPassed, simplified]
    list_emb_ConsD subseq_Cons'
  have drop_last: "subseq [EventStart, EventPlanReady] es" if "subseq [EventStart, EventPlanReady, EventStepComplete] es"
    using subseq_order.order_trans [OF _ that, of "[EventStart, EventPlanReady]"] by simp
  from v assms show ?thesis
    unfolding Transition_def Let_def history_fits_def
    by (cases "t_State u"; cases e) (auto simp: mono(1-4) drop_last split: option.splits if_splits)
qed

lemma run_history: "task_run t es u \<Longrightarrow> t_State t = StatePending \<Longrightarrow> history_fits (t_State u) es"
proof (induction rule: task_run.induct)
  case (run_event t es u now now' e u')
  then show ?case using history_step by blast
qed (simp_all add: history_fits_def)

lemma run_not_after_reject: "task_run t es u \<Longrightarrow> EventHITLRejected \<in> set es \<Longrightarrow> t_State u = StateFailed"
proof (induction rule: task_run.induct)
  case (run_event t es u now now' e u')
  then show ?case
    using Transition_valid [of now now' u e]
    unfolding Transition_def Let_def by (cases "t_State u"; cases e) (auto split: option.splits if_splits)
qed simp_all

lemma answered_snoc:
  assumes "answered es" and "\<And>xs. es = xs @ [EventHITLRequired] \<Longrightarrow> e = EventHITLApproved \<or> e = EventHITLRejected"
    and "EventHITLRejected \<notin> set es"
  shows "answered (es @ [e])"
  unfolding answered_def
proof (intro conjI allI impI)
  fix xs y ys
  assume eq: "es @ [e] = xs @ EventHITLRequired # y # ys"
  show "y = EventHITLApproved \<or> y = EventHITLRejected"
  proof (cases ys rule: rev_cases)
    case Nil
    with eq assms(2) [of xs] show ?thesis by simp
  next
    case (snoc zs z)
    with eq assms(1) show ?thesis by (auto simp: answered_def)
  qed
next
  fix xs ys
  assume eq: "es @ [e] = xs @ EventHITLRejected # ys"
  show "ys = []"
    by (cases ys rule: rev_cases) (use eq assms(3) in auto)
qed

lemma run_answered: "task_run t es u \<Longrightarrow> t_State t = StatePending \<Longrightarrow> answered es"
proof (induction rule: task_run.induct)
  case (run_event t es u now now' e u')
  have v: "e \<in> set (ValidTransitions (t_State u))" using run_event(2) Transition_valid [of now now' u e] by simp
  have h: "history_fits (t_State u) es" using run_history run_event by blast
  have a: "answered es" using run_event by blast
  have "e = EventHITLApproved \<or> e = EventHITLRejected" if "es = xs @ [EventHITLRequired]" for xs
    using h v that by (cases "t_State u") (auto simp: history_fits_def)
  moreover have "EventHITLRejected \<notin> set es"
    using run_not_after_reject [OF run_event(1)] v by auto
  ultimately show ?case using a by (blast intro: answered_snoc)
qed (simp_all add: answered_def)

lemma run_retries:
  "task_run t es u \<Longrightarrow> t_State t = StatePending \<Longrightarrow> t_RetryCount t = 0 \<Longrightarrow>
     t_MaxRetries u = t_MaxRetries t \<and>
     (if t_State u = StateFailed then int (count_list es EventStepFailed) \<le> max 1 (t_MaxRetries t)
      else int (count_list es EventStepFailed) = t_RetryCount u \<and> t_RetryCount u < max 1 (t_MaxRetries t))"
proof (induction rule: task_run.induct)
  case (run_event t es u now now' e u')
  then have v: "e \<in> set (ValidTransitions (t_State u))" using Transition_valid [of now now' u e] by simp
  have p: "t_State u = StatePlanning \<Longrightarrow> es = [EventStart]" "t_State u = StatePending \<Longrightarrow> es = []"
    using run_history [OF run_event(1)] run_event by (auto simp: history_fits_def)
  from v run_event p show ?case unfolding Transition_def Let_def
    by (cases "t_State u"; cases e) (auto split: option.splits if_splits)
qed auto

subsection \<open>Properties\<close>

text \<open>
  \<^verbatim>\<open>Transition\<close> and \<^verbatim>\<open>ValidTransitions\<close> agree: an event is accepted exactly when it is listed
  for the current state, a refused event changes nothing but the update time and is reported
  with the state and the event, and the states with no valid event are exactly the terminal
  ones.
\<close>

theorem transition_table:
  "Transition now now' task e =
     (if e \<in> set (ValidTransitions (t_State task)) then (fst (Transition now now' task e), None)
      else (task\<lparr>t_UpdatedAt := now\<rparr>, Some (InvalidTransition (t_State task) e))) \<and>
   (IsTerminal s \<longleftrightarrow> ValidTransitions s = [])"
  using Transition_valid [of now now' task e] Transition_refused [of now now' task e]
  by (auto simp: prod_eq_iff ValidTransitions_terminal)

text \<open>
  C38. The life cycle of a task: a completed task was started, planned, had a step completed and
  passed its review, in this order; a request for human approval is answered by an approval or
  a rejection before any other event is accepted, and a rejection is final.
\<close>

theorem task_lifecycle:
  assumes "task_run t es u" and "t_State t = StatePending"
  shows "(t_State u = StateCompleted \<longrightarrow>
            subseq [EventStart, EventPlanReady, EventStepComplete, EventReviewPassed] es \<and> last es = EventReviewPassed) \<and>
         (\<forall>xs y ys. es = xs @ EventHITLRequired # y # ys \<longrightarrow> y = EventHITLApproved \<or> y = EventHITLRejected) \<and>
         (\<forall>xs ys. es = xs @ EventHITLRejected # ys \<longrightarrow> ys = [] \<and> t_State u = StateFailed)"
  using run_history [OF assms] run_answered [OF assms] run_not_after_reject [OF assms(1)]
  by (auto simp: history_fits_def answered_def)

definition fresh_task :: Task where
  "fresh_task = \<lparr>t_ID = ''t1'', t_UserID = ''u1'', t_OrgID = ''o1'', t_Title = ''fix'', t_Description = ''a bug'',
     t_State = StatePending, t_Plan = Some \<lparr>pl_Steps = [], pl_TotalSteps = 1\<rparr>, t_Steps = [], t_CurrentStep = 0, t_Result = [],
     t_ModelUsed = [], t_Provider = [], t_Complexity = ''bug_fix'', t_InputTokens = 0, t_OutputTokens = 0,
     t_ToolTokens = 0, t_TotalTokens = 0, t_Cost = 0, t_HITLRequired = False, t_HITLCheckpoint = None,
     t_Error = [], t_RetryCount = 0, t_MaxRetries = 3, t_MaxTokens = 0, t_Tags = [], t_StartedAt = None,
     t_CompletedAt = None, t_UpdatedAt = 0, t_OnStateChange = Some []\<rparr>"

fun accept_all :: "Task \<Rightarrow> Event list \<Rightarrow> Task" where
  "accept_all t [] = t"
| "accept_all t (e # es) = accept_all (fst (Transition 1 2 t e)) es"

fun all_accepted :: "Task \<Rightarrow> Event list \<Rightarrow> bool" where
  "all_accepted t [] = True"
| "all_accepted t (e # es) \<longleftrightarrow> snd (Transition 1 2 t e) = None \<and> all_accepted (fst (Transition 1 2 t e)) es"

lemma accept_all_run: "all_accepted u fs \<Longrightarrow> task_run t es u \<Longrightarrow> task_run t (es @ fs) (accept_all u fs)"
proof (induction fs arbitrary: u es)
  case (Cons f fs)
  then have "task_run t (es @ [f]) (fst (Transition 1 2 u f))"
    by (auto intro!: run_event [of t es u 1 2] simp: prod_eq_iff)
  with Cons show ?case by (metis accept_all.simps(2) all_accepted.simps(2) append.assoc append_Cons append_Nil)
qed simp

theorem task_lifecycle_witness:
  "t_State (accept_all fresh_task [EventStart, EventPlanReady, EventHITLRequired, EventHITLApproved, EventStepComplete, EventReviewPassed])
     = StateCompleted \<and>
   subseq [EventStart, EventPlanReady, EventStepComplete, EventReviewPassed]
     [EventStart, EventPlanReady, EventHITLRequired, EventHITLApproved, EventStepComplete, EventReviewPassed]"
proof -
  let ?es = "[EventStart, EventPlanReady, EventHITLRequired, EventHITLApproved, EventStepComplete, EventReviewPassed]"
  have "task_run fresh_task ([] @ ?es) (accept_all fresh_task ?es)"
    by (rule accept_all_run [OF _ run_refl]) (simp add: fresh_task_def Transition_def)
  moreover have s: "t_State (accept_all fresh_task ?es) = StateCompleted" by (simp add: fresh_task_def Transition_def)
  ultimately show ?thesis using task_lifecycle [of fresh_task ?es "accept_all fresh_task ?es"] by (simp add: fresh_task_def)
qed

text \<open>
  The retry limit: over the whole life of a task at most \<open>max 1 MaxRetries\<close> step failures are
  accepted, and a task in which that many were is failed.
\<close>

theorem retry_limit:
  assumes "task_run t es u" and "t_State t = StatePending" and "t_RetryCount t = 0"
  shows "int (count_list es EventStepFailed) \<le> max 1 (t_MaxRetries t) \<and>
    (int (count_list es EventStepFailed) = max 1 (t_MaxRetries t) \<longrightarrow> t_State u = StateFailed)"
  using run_retries [OF assms] by (auto split: if_splits)

theorem retry_limit_witness:
  "t_State (accept_all fresh_task [EventStart, EventPlanReady, EventStepFailed, EventStepFailed, EventStepFailed]) = StateFailed"
proof -
  let ?es = "[EventStart, EventPlanReady, EventStepFailed, EventStepFailed, EventStepFailed]"
  have "task_run fresh_task ([] @ ?es) (accept_all fresh_task ?es)"
    by (rule accept_all_run [OF _ run_refl]) (simp add: fresh_task_def Transition_def)
  then show ?thesis using retry_limit [of fresh_task ?es "accept_all fresh_task ?es"] by (simp add: fresh_task_def)
qed

end
