(* ===== verification/Agent_Loop.thy ===== *)
theory Agent_Loop
  imports Agent_State Model_Router
begin

text \<open>
  The agent of \<^verbatim>\<open>internal/agent/agent.go\<close>: planning, the step loop with human approval,
  reflection on failures, the final summary and the episodic memory, over the tool registry of
  \<^verbatim>\<open>internal/tools/tool.go\<close>.

  The state is the agent (its collaborators and limits) and the task, both passed and returned.
  \<open>ag_trace\<close> lists what the agent did to the outside, in order: LLM requests, checkpoints
  submitted with their answer, tools run, tokens pushed to the callback, episodes stored. What
  the outside answers comes from the environment record \<open>agent_env\<close>: clock readings,
  cancellation, iteration orders of the tool map, the tools themselves, the approval queue,
  the LLM backend (a state transformer on the router state \<open>'r\<close>, indexed by the call), the
  memory, and the JSON codec. All theorems hold for every environment.
\<close>

record 't tool =
  tl_Name :: string
  tl_Description :: string
  tl_impl :: 't

record ToolResult =
  tr_Output :: string
  tr_Cost :: f64
  tr_Success :: bool
  tr_Error :: string

type_synonym 't ToolRegistry = "(string, 't tool) gomap"

definition NewToolRegistry :: "'t ToolRegistry" where
  "NewToolRegistry = []"

definition Register :: "'t tool \<Rightarrow> 't ToolRegistry \<Rightarrow> 't ToolRegistry" where
  "Register tool r = gput (tl_Name tool) tool r"

definition tools_Get :: "string \<Rightarrow> 't ToolRegistry \<Rightarrow> 't tool option" where
  "tools_Get name r = gget r name"

text \<open>\<open>ks\<close>: the iteration order of the map.\<close>

definition tools_List :: "string list \<Rightarrow> 't ToolRegistry \<Rightarrow> 't tool list" where
  "tools_List ks r = List.map_filter (gget r) ks"

record HITLCheckpointEntry =
  he_ID :: string
  he_TaskID :: string
  he_UserID :: string
  he_OrgID :: string
  he_StepIndex :: int
  he_Description :: string
  he_Tool :: string
  he_Params :: params
  he_Options :: "string list"
  he_Status :: string

record MemoryResult =
  me_Type :: string
  me_Content :: string

record llmPlanStep =
  lp_Tool :: string
  lp_Description :: string
  lp_Params :: params

record TaskResult =
  tres_TaskID :: string
  tres_Status :: string
  tres_Result :: string
  tres_Steps :: int
  tres_Cost :: f64
  tres_Duration :: duration
  tres_TokensUsed :: int

datatype observation =
    AskedLLM LlmTask
  | Token string ChatChunk
  | Submitted HITLCheckpointEntry "string + HITLCheckpointEntry"
  | Executed nat PlanStep
  | Stored string string string string f64

record ('t, 'r) Agent =
  ag_router :: 'r
  ag_tools :: "'t ToolRegistry"
  ag_maxIter :: int
  ag_memory :: bool
  ag_tokenCallback :: bool
  ag_hitlQueue :: bool
  ag_trace :: "observation list"

record ('t, 'r) agent_env =
  ae_clk :: "nat \<Rightarrow> nat \<Rightarrow> gotime"
  ae_done :: "nat \<Rightarrow> bool"
  ae_order :: "nat \<Rightarrow> string list"
  ae_requires :: "nat \<Rightarrow> 't \<Rightarrow> params \<Rightarrow> bool"
  ae_execute :: "nat \<Rightarrow> 't \<Rightarrow> params \<Rightarrow> string + ToolResult"
  ae_submit :: "nat \<Rightarrow> HITLCheckpointEntry \<Rightarrow> string + HITLCheckpointEntry"
  ae_chat :: "nat \<Rightarrow> LlmTask \<Rightarrow> 'r \<Rightarrow> 'r \<times> (string + ChatResponse)"
  ae_stream :: "nat \<Rightarrow> LlmTask \<Rightarrow> 'r \<Rightarrow> 'r \<times> (string + StreamResult \<times> ChatChunk list)"
  ae_recall :: "string \<Rightarrow> string \<Rightarrow> int \<Rightarrow> MemoryResult list option"
  ae_unmarshal :: "string \<Rightarrow> llmPlanStep list option"
  ae_marshal :: "(string \<times> json) list \<Rightarrow> string"
  ae_fmt4 :: "f64 \<Rightarrow> string"

definition NewAgent :: "'r \<Rightarrow> 't ToolRegistry \<Rightarrow> ('t, 'r) Agent" where
  "NewAgent router toolRegistry =
     \<lparr>ag_router = router, ag_tools = toolRegistry, ag_maxIter = 20, ag_memory = False, ag_tokenCallback = False,
      ag_hitlQueue = False, ag_trace = []\<rparr>"

definition SetMemory :: "bool \<Rightarrow> ('t, 'r) Agent \<Rightarrow> ('t, 'r) Agent" where
  "SetMemory m a = a\<lparr>ag_memory := m\<rparr>"

definition SetTokenCallback :: "bool \<Rightarrow> ('t, 'r) Agent \<Rightarrow> ('t, 'r) Agent" where
  "SetTokenCallback cb a = a\<lparr>ag_tokenCallback := cb\<rparr>"

definition SetHITLQueue :: "bool \<Rightarrow> ('t, 'r) Agent \<Rightarrow> ('t, 'r) Agent" where
  "SetHITLQueue q a = a\<lparr>ag_hitlQueue := q\<rparr>"

definition observe :: "observation list \<Rightarrow> ('t, 'r) Agent \<Rightarrow> ('t, 'r) Agent" where
  "observe os a = a\<lparr>ag_trace := ag_trace a @ os\<rparr>"

subsection \<open>State changes\<close>

text \<open>\<open>n\<close> and \<open>k\<close> select the clock readings of this call.\<close>

definition transition ::
  "('t, 'r) agent_env \<Rightarrow> nat \<Rightarrow> nat \<Rightarrow> Event \<Rightarrow> Task \<Rightarrow> Task \<times> transition_error option" where
  "transition env n k event task =
     (case Transition (ae_clk env n k) (ae_clk env n (Suc k)) task event of
        (task', Some err) \<Rightarrow> (task', Some err)
      | (task', None) \<Rightarrow>
          (task'\<lparr>t_OnStateChange := map_option (\<lambda>calls. calls @ [(t_ID task', t_State task, t_State task')])
                                     (t_OnStateChange task')\<rparr>, None))"

subsection \<open>Text helpers\<close>

definition agent_truncate :: "string \<Rightarrow> int \<Rightarrow> string" where
  "agent_truncate s maxLen = (if int (length s) \<le> maxLen then s else take (nat maxLen) s @ ''...'')"

fun count_words :: "bool \<Rightarrow> string \<Rightarrow> int" where
  "count_words inWord [] = 0"
| "count_words inWord (r # s) =
     (if is_space r then count_words False s
      else if \<not> inWord then 1 + count_words True s else count_words inWord s)"

definition estimateTokens :: "string \<Rightarrow> int" where
  "estimateTokens s =
     (let words = count_words False s
      in if words = 0 then 0 else int_of_f (fmul (f_of_int words) (fl (13 / 10))))"

subsection \<open>Plans\<close>

definition buildDefaultPlan :: "Task \<Rightarrow> Plan" where
  "buildDefaultPlan task =
     (let steps =
        [\<lparr>ps_Index = 0, ps_Tool = ''list_directory'', ps_Description = ''Explore project structure'', ps_Params = [(''path'', JStr ''.'')]\<rparr>,
         \<lparr>ps_Index = 1, ps_Tool = ''search_code'', ps_Description = ''Search for relevant code'', ps_Params = [(''pattern'', JStr (t_Title task))]\<rparr>,
         \<lparr>ps_Index = 2, ps_Tool = ''read_file'', ps_Description = ''Read relevant files'', ps_Params = []\<rparr>,
         \<lparr>ps_Index = 3, ps_Tool = ''edit_file'', ps_Description = ''Make changes'', ps_Params = []\<rparr>,
         \<lparr>ps_Index = 4, ps_Tool = ''run_command'', ps_Description = ''Run tests to verify'', ps_Params = []\<rparr>]
      in \<lparr>pl_Steps = steps, pl_TotalSteps = int (length steps)\<rparr>)"

text \<open>The text between the first fence \<open>f\<close> at \<open>idx\<close> and the next fence.\<close>

definition fenced :: "int \<Rightarrow> string \<Rightarrow> string" where
  "fenced from_idx content =
     (let c = drop (nat from_idx) content; endIdx = strings_Index c ''```''
      in if endIdx \<noteq> -1 then take (nat endIdx) c else c)"

definition parsePlanFromResponse :: "(string \<Rightarrow> llmPlanStep list option) \<Rightarrow> string \<Rightarrow> string + Plan" where
  "parsePlanFromResponse unmarshal content0 =
     (let c1 = strings_TrimSpace content0;
          idx = strings_Index c1 ''```json''; idx' = strings_Index c1 ''```'';
          c2 = (if idx \<noteq> -1 then fenced (idx + 7) c1 else if idx' \<noteq> -1 then fenced (idx' + 3) c1 else c1);
          start = strings_Index c2 ''{''; stop = strings_LastIndex c2 ''}''
      in if start = -1 \<or> stop = -1 \<or> stop \<le> start then Inl ''no JSON object found in response''
         else case unmarshal (take (nat (stop + 1 - start)) (drop (nat start) c2)) of
                None \<Rightarrow> Inl ''failed to parse JSON plan''
              | Some steps \<Rightarrow>
                  if length steps = 0 then Inl ''plan has no steps''
                  else Inr \<lparr>pl_Steps = map (\<lambda>(i, s). \<lparr>ps_Index = int i, ps_Tool = lp_Tool s,
                                ps_Description = lp_Description s, ps_Params = lp_Params s\<rparr>) (enumerate 0 steps),
                            pl_TotalSteps = int (length steps)\<rparr>)"

definition filterValidSteps :: "'t ToolRegistry \<Rightarrow> string list \<Rightarrow> PlanStep list \<Rightarrow> PlanStep list" where
  "filterValidSteps tools ks steps =
     (let validToolNames = map tl_Name (tools_List ks tools)
      in filter (\<lambda>s. ps_Tool s \<in> set validToolNames) steps)"

subsection \<open>LLM requests\<close>

definition plain_message :: "string \<Rightarrow> string \<Rightarrow> Message" where
  "plain_message role content = \<lparr>msg_Role = role, msg_Content = content, msg_ToolCallID = [], msg_ToolCalls = []\<rparr>"

text \<open>The fields an \<^verbatim>\<open>llm.Task\<close> literal leaves out have their zero value.\<close>

definition zero_llm_task :: LlmTask where
  "zero_llm_task = \<lparr>tk_ID = [], tk_OrgID = [], tk_Type = [], tk_Description = [], tk_FilesChanged = [],
     RequiresReasoning = False, IsNovel = False, tk_Tags = [], tk_Messages = [], tk_Complexity = 0,
     RequiredCapabilities = [], TargetModel = []\<rparr>"

definition agent_systemPrompt :: "'t ToolRegistry \<Rightarrow> string list \<Rightarrow> string" where
  "agent_systemPrompt tools ks =
     (let toolDescriptions = map (\<lambda>t. ''- '' @ tl_Name t @ '': '' @ tl_Description t) (tools_List ks tools)
      in ''You are VigilAgent, an expert AI coding assistant.'' @ nl @
         ''You can use tools to read, write, edit files, search code, and run commands.'' @ nl @ nl @
         ''Available tools:'' @ nl @
         strings_Join toolDescriptions nl @ nl @ nl @
         ''When planning, respond with a JSON array of steps:'' @ nl @
         ''{\"steps\": [{\"tool\": \"tool_name\", \"description\": \"what to do\", \"params\": {\"key\": \"value\"}}]}'' @ nl @ nl @
         ''When reflecting on failures, respond with adjusted remaining steps in the same format.'' @ nl @
         ''Always be concise and action-oriented.'')"

text \<open>
  Reading a streamed answer: chunks until the channel closes or a finishing chunk; the content
  is collected, and every chunk with content goes to the callback.
\<close>

fun consume :: "ChatChunk list \<Rightarrow> string \<times> ChatChunk list" where
  "consume [] = ([], [])"
| "consume (chunk # chs) =
     (let (content, shown) = (if ch_Finish chunk then ([], []) else consume chs)
      in (ch_Content chunk @ content, if ch_Content chunk \<noteq> [] then chunk # shown else shown))"

definition ask_stream ::
  "('t, 'r) agent_env \<Rightarrow> nat \<Rightarrow> string \<Rightarrow> LlmTask \<Rightarrow> ('t, 'r) Agent \<Rightarrow> ('t, 'r) Agent \<times> (string + StreamResult \<times> string)" where
  "ask_stream env n taskID lt a =
     (case ae_stream env n lt (ag_router a) of
        (r', Inl err) \<Rightarrow> (observe [AskedLLM lt] (a\<lparr>ag_router := r'\<rparr>), Inl err)
      | (r', Inr (sr, chunks)) \<Rightarrow>
          (case consume chunks of
             (content, shown) \<Rightarrow>
               (observe (AskedLLM lt # map (Token taskID) shown) (a\<lparr>ag_router := r'\<rparr>), Inr (sr, content))))"

definition ask_chat ::
  "('t, 'r) agent_env \<Rightarrow> nat \<Rightarrow> LlmTask \<Rightarrow> ('t, 'r) Agent \<Rightarrow> ('t, 'r) Agent \<times> (string + ChatResponse)" where
  "ask_chat env n lt a =
     (case ae_chat env n lt (ag_router a) of
        (r', res) \<Rightarrow> (observe [AskedLLM lt] (a\<lparr>ag_router := r'\<rparr>), res))"

definition recallMemory :: "('t, 'r) agent_env \<Rightarrow> ('t, 'r) Agent \<Rightarrow> Task \<Rightarrow> string" where
  "recallMemory env a task =
     (if \<not> ag_memory a then []
      else case ae_recall env (t_UserID task) (t_Title task @ '' '' @ t_Description task) 3 of
             None \<Rightarrow> []
           | Some results \<Rightarrow>
               if length results = 0 then []
               else nl @ nl @ ''## Relevant past memories:'' @ nl @
                    strings_Join (map (\<lambda>r. ''['' @ me_Type r @ ''] '' @ me_Content r) results) nl @ nl)"

definition storeMemory :: "('t, 'r) agent_env \<Rightarrow> Task \<Rightarrow> ('t, 'r) Agent \<Rightarrow> ('t, 'r) Agent" where
  "storeMemory env task a =
     (if \<not> ag_memory a then a
      else
        let title = ''task: '' @ agent_truncate (t_Title task) 100;
            content = ''Title: '' @ t_Title task @ nl @ ''Description: '' @ t_Description task @ nl @
                      ''Result: '' @ agent_truncate (t_Result task) 500 @ nl @
                      ''Steps: '' @ strconv_Itoa (int (length (t_Steps task))) @ nl @ ''Cost: $'' @ ae_fmt4 env (t_Cost task);
            i0 = (if t_State task = StateCompleted then fl (7 / 10) else fl (5 / 10));
            importance = (if fl (1 / 10) < t_Cost task then fl (8 / 10) else i0)
        in observe [Stored (t_UserID task) ''agent_task'' title content importance] a)"

definition plan_prompt :: "Task \<Rightarrow> string \<Rightarrow> string" where
  "plan_prompt task memoryContext =
     ''Plan the execution for this task:'' @ nl @ nl @ ''Title: '' @ t_Title task @ nl @ ''Description: '' @ t_Description task @
     memoryContext @ nl @ nl @
     ''Respond with JSON: {\"steps\": [{\"tool\": \"...\", \"description\": \"...\", \"params\": {...}}]}''"

definition plan_request :: "('t, 'r) agent_env \<Rightarrow> ('t, 'r) Agent \<Rightarrow> Task \<Rightarrow> string \<Rightarrow> LlmTask" where
  "plan_request env a task memoryContext =
     zero_llm_task\<lparr>tk_ID := t_ID task, tk_Type := t_Complexity task, tk_Description := t_Description task, tk_Tags := t_Tags task,
       tk_Messages := [plain_message ''system'' (agent_systemPrompt (ag_tools a) (ae_order env 0)),
                       plain_message ''user'' (plan_prompt task memoryContext)]\<rparr>"

text \<open>Planning falls back to the default plan when the request fails or its answer is no plan.\<close>

definition planTask ::
  "('t, 'r) agent_env \<Rightarrow> string \<Rightarrow> ('t, 'r) Agent \<Rightarrow> Task \<Rightarrow> ('t, 'r) Agent \<times> Task \<times> (string + Plan)" where
  "planTask env memoryContext a task =
     (let lt = plan_request env a task memoryContext
      in if ag_tokenCallback a then
           (case ask_stream env 0 (t_ID task) lt a of
              (a', Inl err) \<Rightarrow> (a', task, Inr (buildDefaultPlan task))
            | (a', Inr (sr, content)) \<Rightarrow>
                let task' = task\<lparr>t_ModelUsed := sr_Model sr, t_Provider := sr_Provider sr,
                                 t_InputTokens := t_InputTokens task + sr_EstInput sr,
                                 t_OutputTokens := t_OutputTokens task + estimateTokens content\<rparr>
                in case parsePlanFromResponse (ae_unmarshal env) content of
                     Inl err \<Rightarrow> (a', task', Inr (buildDefaultPlan task'))
                   | Inr plan \<Rightarrow> (a', task', Inr plan))
         else
           (case ask_chat env 0 lt a of
              (a', Inl err) \<Rightarrow> (a', task, Inr (buildDefaultPlan task))
            | (a', Inr response) \<Rightarrow>
                let task' = task\<lparr>t_InputTokens := t_InputTokens task + rsp_InputTokens response,
                                 t_OutputTokens := t_OutputTokens task + rsp_OutputTokens response,
                                 t_Cost := fadd (t_Cost task) (rsp_Cost response),
                                 t_ModelUsed := rsp_Model response, t_Provider := rsp_Provider response\<rparr>
                in case parsePlanFromResponse (ae_unmarshal env) (rsp_Content response) of
                     Inl err \<Rightarrow> (a', task', Inr (buildDefaultPlan task'))
                   | Inr plan \<Rightarrow> (a', task', Inr plan)))"

definition reflect_request :: "('t, 'r) agent_env \<Rightarrow> nat \<Rightarrow> Message list \<Rightarrow> ('t, 'r) Agent \<Rightarrow> Task \<Rightarrow> Plan \<Rightarrow> LlmTask" where
  "reflect_request env n history a task plan =
     zero_llm_task\<lparr>tk_ID := t_ID task,
       tk_Messages := history @ [plain_message ''user''
         (''A step just failed. Please provide adjusted remaining steps to recover. '' @
          ''Current step: '' @ strconv_Itoa (t_CurrentStep task + 1) @ ''/'' @ strconv_Itoa (pl_TotalSteps plan) @
          ''. Available tools: '' @ strings_Join (map tl_Name (tools_List (ae_order env n) (ag_tools a))) '', '' @
          ''. Respond with JSON: {\"steps\": [...]}'')]\<rparr>"

definition reflectOnFailure ::
  "('t, 'r) agent_env \<Rightarrow> nat \<Rightarrow> Message list \<Rightarrow> Plan \<Rightarrow> ('t, 'r) Agent \<Rightarrow> Task \<Rightarrow> ('t, 'r) Agent \<times> Task \<times> (string + Plan)" where
  "reflectOnFailure env n history plan a task =
     (let lt = reflect_request env n history a task plan
      in if ag_tokenCallback a then
           (case ask_stream env n (t_ID task) lt a of
              (a', Inl err) \<Rightarrow> (a', task, Inl err)
            | (a', Inr (sr, content)) \<Rightarrow>
                (a', task\<lparr>t_InputTokens := t_InputTokens task + sr_EstInput sr,
                          t_OutputTokens := t_OutputTokens task + estimateTokens content\<rparr>,
                 parsePlanFromResponse (ae_unmarshal env) content))
         else
           (case ask_chat env n lt a of
              (a', Inl err) \<Rightarrow> (a', task, Inl err)
            | (a', Inr response) \<Rightarrow>
                (a', task\<lparr>t_InputTokens := t_InputTokens task + rsp_InputTokens response,
                          t_OutputTokens := t_OutputTokens task + rsp_OutputTokens response,
                          t_Cost := fadd (t_Cost task) (rsp_Cost response)\<rparr>,
                 parsePlanFromResponse (ae_unmarshal env) (rsp_Content response))))"

definition fallbackResult :: "string list \<Rightarrow> string \<Rightarrow> string" where
  "fallbackResult outputs lastOutput =
     (if lastOutput \<noteq> []
      then ''Task completed in '' @ strconv_Itoa (int (length outputs)) @ '' steps. Last output: '' @ lastOutput
      else ''Task completed. '' @ strconv_Itoa (int (length outputs)) @ '' steps executed successfully.'')"

definition buildResult ::
  "('t, 'r) agent_env \<Rightarrow> nat \<Rightarrow> string \<Rightarrow> Message list \<Rightarrow> ('t, 'r) Agent \<Rightarrow> ('t, 'r) Agent \<times> string" where
  "buildResult env n taskID history a =
     (let outputs = map msg_Content
            (filter (\<lambda>m. msg_Role m = ''user'' \<and> strings_Contains (msg_Content m) ''Step result:'') history);
          lastOutput = (if outputs = [] then [] else last outputs)
      in if length outputs = 0 then (a, ''Task completed with no observable output.'')
         else
           let lt = zero_llm_task\<lparr>tk_Messages :=
                 [plain_message ''system'' ''You are summarizing the results of a completed task. Be concise and specific about what was done.'',
                  plain_message ''user'' (''Task step outputs:'' @ nl @ strings_Join outputs nl @ nl @ nl @
                    ''Provide a brief summary of what was accomplished.'')]\<rparr>
           in if ag_tokenCallback a then
                (case ask_stream env n taskID lt a of
                   (a', Inl err) \<Rightarrow> (a', fallbackResult outputs lastOutput)
                 | (a', Inr (sr, content)) \<Rightarrow> (a', content))
              else
                (case ask_chat env n lt a of
                   (a', Inl err) \<Rightarrow> (a', fallbackResult outputs lastOutput)
                 | (a', Inr response) \<Rightarrow> (a', rsp_Content response)))"

subsection \<open>Approval and execution of a step\<close>

definition checkpoint_id :: "Task \<Rightarrow> nat \<Rightarrow> string" where
  "checkpoint_id task i = ''cp-'' @ t_ID task @ ''-'' @ strconv_Itoa (int i)"

definition checkpoint_text :: "nat \<Rightarrow> PlanStep \<Rightarrow> string" where
  "checkpoint_text i step = ''Step '' @ strconv_Itoa (int i) @ '' requires human approval: '' @ ps_Description step"

definition checkpoint_entry :: "Task \<Rightarrow> nat \<Rightarrow> PlanStep \<Rightarrow> HITLCheckpointEntry" where
  "checkpoint_entry task stepIdx step =
     \<lparr>he_ID = checkpoint_id task stepIdx, he_TaskID = t_ID task, he_UserID = t_UserID task, he_OrgID = t_OrgID task,
      he_StepIndex = int stepIdx, he_Description = checkpoint_text stepIdx step, he_Tool = ps_Tool step,
      he_Params = ps_Params step, he_Options = [''approve'', ''reject'', ''modify''], he_Status = []\<rparr>"

definition waitHITLDecision ::
  "('t, 'r) agent_env \<Rightarrow> nat \<Rightarrow> PlanStep \<Rightarrow> ('t, 'r) Agent \<Rightarrow> Task \<Rightarrow> ('t, 'r) Agent \<times> Task \<times> bool" where
  "waitHITLDecision env stepIdx step a task =
     (let entry = checkpoint_entry task stepIdx step;
          answer = ae_submit env stepIdx entry;
          a' = observe [Submitted entry answer] a
      in case answer of
           Inl err \<Rightarrow>
             (a', (fst (transition env stepIdx 3 EventHITLRejected task))\<lparr>t_Error := ''HITL failed: '' @ err\<rparr>, False)
         | Inr result \<Rightarrow>
             if he_Status result = ''approve'' then
               (a', fst (transition env stepIdx 3 EventHITLApproved task), True)
             else if he_Status result = ''reject'' then
               (a', (fst (transition env stepIdx 3 EventHITLRejected task))\<lparr>t_Error := ''rejected by human''\<rparr>, False)
             else
               (a', (fst (transition env stepIdx 3 EventHITLRejected task))\<lparr>t_Error := ''unknown HITL status: '' @ he_Status result\<rparr>, False))"

definition executeStep ::
  "('t, 'r) agent_env \<Rightarrow> nat \<Rightarrow> PlanStep \<Rightarrow> ('t, 'r) Agent \<Rightarrow> ('t, 'r) Agent \<times> StepResult" where
  "executeStep env i step a =
     (let start = ae_clk env i 5;
          ms = (\<lambda>k. go_div (time_Since (ae_clk env i k) start) Millisecond);
          failed = (\<lambda>msg. \<lparr>sp_Step = ps_Index step, sp_Tool = ps_Tool step, sp_Status = ''failed'', sp_Result = [],
                      sp_Error = msg, sp_DurationMs = ms 6, sp_TokensUsed = 0, sp_Cost = 0,
                      sp_StartedAt = zero_time, sp_CompletedAt = None\<rparr>)
      in case tools_Get (ps_Tool step) (ag_tools a) of
           None \<Rightarrow> (a, failed (''tool '' @ ps_Tool step @ '' not found''))
         | Some tool \<Rightarrow>
             (case ae_execute env i (tl_impl tool) (ps_Params step) of
                Inl err \<Rightarrow> (observe [Executed i step] a, failed err)
              | Inr result \<Rightarrow>
                  (observe [Executed i step] a,
                   \<lparr>sp_Step = ps_Index step, sp_Tool = ps_Tool step, sp_Status = ''completed'', sp_Result = tr_Output result,
                    sp_Error = [], sp_DurationMs = ms 7, sp_TokensUsed = estimateTokens (tr_Output result),
                    sp_Cost = tr_Cost result, sp_StartedAt = start, sp_CompletedAt = Some (ae_clk env i 6)\<rparr>)))"

subsection \<open>The step loop\<close>

datatype gate_outcome = GateProceed | GateSkip | GateReject

text \<open>
  The approval gate in front of a step. A step that needs approval while the task is no longer
  executing is skipped, since the transition is refused; without a queue it is approved.
\<close>

definition hitl_gate ::
  "('t, 'r) agent_env \<Rightarrow> nat \<Rightarrow> PlanStep \<Rightarrow> ('t, 'r) Agent \<Rightarrow> Task \<Rightarrow> ('t, 'r) Agent \<times> Task \<times> gate_outcome" where
  "hitl_gate env i step a task =
     (case tools_Get (ps_Tool step) (ag_tools a) of
        None \<Rightarrow> (a, task, GateProceed)
      | Some tool \<Rightarrow>
          if \<not> ae_requires env i (tl_impl tool) (ps_Params step) then (a, task, GateProceed)
          else
            let task1 = task\<lparr>t_HITLRequired := True,
                  t_HITLCheckpoint := Some \<lparr>cp_CheckpointID = checkpoint_id task i, cp_Description = checkpoint_text i step,
                    cp_Options = [''approve'', ''reject'', ''modify''], cp_WaitingSince = ae_clk env i 0\<rparr>\<rparr>
            in case transition env i 1 EventHITLRequired task1 of
                 (task2, Some err) \<Rightarrow> (a, task2, GateSkip)
               | (task2, None) \<Rightarrow>
                   if ag_hitlQueue a then
                     (case waitHITLDecision env i step a task2 of
                        (a', task3, approved) \<Rightarrow>
                          if \<not> approved then (a', fst (transition env i 5 EventStepFailed task3), GateReject)
                          else (a', task3, GateProceed))
                   else (a, fst (transition env i 3 EventHITLApproved task2), GateProceed))"

text \<open>Copies the first \<open>n\<close> of the adjusted steps over the steps after \<open>i\<close>.\<close>

definition replace_steps :: "nat \<Rightarrow> nat \<Rightarrow> PlanStep list \<Rightarrow> PlanStep list \<Rightarrow> PlanStep list" where
  "replace_steps i n valid steps = foldl (\<lambda>ss j. ss[i + 1 + j := valid ! j]) steps [0..<n]"

definition adjust_plan :: "('t, 'r) agent_env \<Rightarrow> nat \<Rightarrow> ('t, 'r) Agent \<Rightarrow> Plan \<Rightarrow> Plan \<Rightarrow> Plan" where
  "adjust_plan env i a plan adjusted =
     (if length (pl_Steps adjusted) = 0 then plan
      else
        let validSteps = filterValidSteps (ag_tools a) (ae_order env (Suc i)) (pl_Steps adjusted);
            remaining = min (pl_TotalSteps plan - int i - 1) (int (length validSteps))
        in plan\<lparr>pl_Steps := replace_steps i (nat remaining) validSteps (pl_Steps plan)\<rparr>)"

datatype step_outcome = NextIter | BreakLoop | CtxCancelled | HumanRejected | IndexPanic

definition step_messages :: "('t, 'r) agent_env \<Rightarrow> nat \<Rightarrow> PlanStep \<Rightarrow> StepResult \<Rightarrow> Message list" where
  "step_messages env i step res =
     [plain_message ''assistant'' (''I executed step '' @ strconv_Itoa (int i) @ '': '' @ ps_Description step @ '' ('' @ ps_Tool step @
        ''). Here are the results.''),
      plain_message ''user'' (''Step result: '' @ ae_marshal env
        [(''tool'', JStr (ps_Tool step)), (''status'', JStr (sp_Status res)), (''output'', JStr (sp_Result res)),
         (''error'', JStr (sp_Error res)), (''durationMs'', JNum (of_int (sp_DurationMs res)))])]"

definition record_step :: "StepResult \<Rightarrow> Task \<Rightarrow> Task" where
  "record_step res task =
     task\<lparr>t_Steps := t_Steps task @ [res], t_ToolTokens := t_ToolTokens task + sp_TokensUsed res,
          t_Cost := fadd (t_Cost task) (sp_Cost res)\<rparr>"

text \<open>What follows the execution of a step with result \<open>res\<close>: the rest of the loop body.\<close>

definition after_step ::
  "('t, 'r) agent_env \<Rightarrow> nat \<Rightarrow> Plan \<Rightarrow> PlanStep \<Rightarrow> StepResult \<Rightarrow> Message list \<Rightarrow> ('t, 'r) Agent \<Rightarrow> Task \<Rightarrow>
   ('t, 'r) Agent \<times> Task \<times> Message list \<times> step_outcome" where
  "after_step env i plan step res history a task0 =
     (let task = record_step res task0
      in if 0 < t_MaxTokens task \<and> t_MaxTokens task \<le> t_InputTokens task + t_OutputTokens task
         then (a, task, history, BreakLoop)
         else
           let history' = history @ step_messages env i step res
           in if sp_Error res \<noteq> [] then
                let task' = fst (transition env i 8 EventStepFailed task)
                in if int i + 1 < pl_TotalSteps plan then
                     (case reflectOnFailure env (Suc i) history' plan a task' of
                        (a', task'', Inl err) \<Rightarrow> (a', task'', history', NextIter)
                      | (a', task'', Inr adjusted) \<Rightarrow>
                          (a', task''\<lparr>t_Plan := Some (adjust_plan env i a' plan adjusted)\<rparr>, history', NextIter))
                   else (a, task', history', NextIter)
              else (a, fst (transition env i 8 EventStepComplete task), history', NextIter))"

definition step_once ::
  "('t, 'r) agent_env \<Rightarrow> nat \<Rightarrow> Message list \<Rightarrow> ('t, 'r) Agent \<Rightarrow> Task \<Rightarrow> ('t, 'r) Agent \<times> Task \<times> Message list \<times> step_outcome" where
  "step_once env i history a task =
     (if ae_done env i then (a, task, history, CtxCancelled)
      else case t_Plan task of
             None \<Rightarrow> (a, task, history, IndexPanic)
           | Some plan \<Rightarrow>
               if length (pl_Steps plan) \<le> i then (a, task, history, IndexPanic)
               else
                 let step = pl_Steps plan ! i
                 in case hitl_gate env i step a (task\<lparr>t_CurrentStep := int i\<rparr>) of
                      (a1, task1, GateSkip) \<Rightarrow> (a1, task1, history, NextIter)
                    | (a1, task1, GateReject) \<Rightarrow> (a1, task1, history, HumanRejected)
                    | (a1, task1, GateProceed) \<Rightarrow>
                        (case executeStep env i step a1 of
                           (a2, res) \<Rightarrow> after_step env i plan step res history a2 task1))"

text \<open>The loop over the step numbers; it stops at the first outcome that is not \<open>NextIter\<close>.\<close>

fun run_steps ::
  "('t, 'r) agent_env \<Rightarrow> nat list \<Rightarrow> Message list \<Rightarrow> ('t, 'r) Agent \<Rightarrow> Task \<Rightarrow>
   ('t, 'r) Agent \<times> Task \<times> Message list \<times> (step_outcome \<times> nat)" where
  "run_steps env [] history a task = (a, task, history, (NextIter, 0))"
| "run_steps env (i # is) history a task =
     (case step_once env i history a task of
        (a', task', history', NextIter) \<Rightarrow> run_steps env is history' a' task'
      | (a', task', history', out) \<Rightarrow> (a', task', history', (out, i)))"

datatype agent_error = StartFailed transition_error | PlanningFailed string | PlanTransitionFailed transition_error
  | ContextError | RejectedByHuman nat string | Panic

definition task_result :: "duration \<Rightarrow> string \<Rightarrow> Task \<Rightarrow> TaskResult" where
  "task_result d res task =
     \<lparr>tres_TaskID = t_ID task, tres_Status = string_of_state (t_State task), tres_Result = res,
      tres_Steps = int (length (t_Steps task)), tres_Cost = t_Cost task, tres_Duration = d,
      tres_TokensUsed = t_TotalTokens task\<rparr>"

text \<open>Phases 3 and 4: review, summary and memory.\<close>

definition finish_task ::
  "('t, 'r) agent_env \<Rightarrow> nat \<Rightarrow> gotime \<Rightarrow> Message list \<Rightarrow> ('t, 'r) Agent \<Rightarrow> Task \<Rightarrow> ('t, 'r) Agent \<times> Task \<times> TaskResult" where
  "finish_task env N start history a task =
     (let task1 = fst (transition env N 6 EventReviewPassed task);
          (a2, res) = buildResult env (Suc N) (t_ID task1) history a;
          task2 = task1\<lparr>t_Result := res, t_TotalTokens := t_InputTokens task1 + t_OutputTokens task1 + t_ToolTokens task1\<rparr>;
          duration = time_Since (ae_clk env N 8) start;
          a3 = (if ag_memory a2 then storeMemory env task2 a2 else a2)
      in (a3, task2, task_result duration res task2))"

definition first_messages :: "('t, 'r) agent_env \<Rightarrow> nat \<Rightarrow> ('t, 'r) Agent \<Rightarrow> Task \<Rightarrow> Message list" where
  "first_messages env N a task =
     [plain_message ''system'' (agent_systemPrompt (ag_tools a) (ae_order env N)),
      plain_message ''user'' (''Task: '' @ t_Title task @ nl @ nl @ ''Description: '' @ t_Description task)]"

text \<open>The result is the pair Go returns: a task result (or nil) and an error (or nil).\<close>

definition ExecuteTask ::
  "('t, 'r) agent_env \<Rightarrow> ('t, 'r) Agent \<Rightarrow> Task \<Rightarrow> ('t, 'r) Agent \<times> Task \<times> TaskResult option \<times> agent_error option" where
  "ExecuteTask env a0 task0 =
     (let N = nat (ag_maxIter a0)
      in case transition env N 0 EventStart task0 of
           (task1, Some err) \<Rightarrow> (a0, task1, None, Some (StartFailed err))
         | (task1, None) \<Rightarrow>
             let start = ae_clk env N 2;
                 task2 = task1\<lparr>t_StartedAt := Some (ae_clk env N 3)\<rparr>;
                 memoryContext = (if ag_memory a0 then recallMemory env a0 task2 else [])
             in case planTask env memoryContext a0 task2 of
                  (a1, task3, Inl err) \<Rightarrow> (a1, fst (transition env N 4 EventStepFailed task3), None, Some (PlanningFailed err))
                | (a1, task3, Inr plan) \<Rightarrow>
                    (case transition env N 4 EventPlanReady (task3\<lparr>t_Plan := Some plan\<rparr>) of
                       (task4, Some err) \<Rightarrow> (a1, task4, None, Some (PlanTransitionFailed err))
                     | (task4, None) \<Rightarrow>
                         (case run_steps env [0..<nat (min (ag_maxIter a1) (pl_TotalSteps plan))] (first_messages env N a1 task4) a1 task4 of
                            (a2, task5, history, (out, i)) \<Rightarrow>
                              if out = CtxCancelled then (a2, task5, None, Some ContextError)
                              else if out = IndexPanic then (a2, task5, None, Some Panic)
                              else if out = HumanRejected then
                                (a2, task5, Some (task_result (time_Since (ae_clk env i 7) start) (t_Error task5) task5),
                                 Some (RejectedByHuman i (t_Error task5)))
                              else (case finish_task env N start history a2 task5 of
                                      (a3, task6, res) \<Rightarrow> (a3, task6, Some res, None)))))"

end
