(* ===== verification/Agent_Props.thy ===== *)
theory Agent_Props
  imports Agent_Loop
begin

text \<open>
  What the agent guarantees: a step that needs approval runs only right after its own
  checkpoint was approved; a rejection ends the task; a completed task finished its plan; the
  token and step accounting; which organization its LLM requests are charged to.
\<close>

subsection \<open>Frames\<close>

lemma Transition_frame [simp]:
  "t_ID (fst (Transition now now' t e)) = t_ID t"
  "t_UserID (fst (Transition now now' t e)) = t_UserID t"
  "t_OrgID (fst (Transition now now' t e)) = t_OrgID t"
  "t_Title (fst (Transition now now' t e)) = t_Title t"
  "t_Plan (fst (Transition now now' t e)) = t_Plan t"
  "t_Steps (fst (Transition now now' t e)) = t_Steps t"
  "t_CurrentStep (fst (Transition now now' t e)) = t_CurrentStep t"
  "t_InputTokens (fst (Transition now now' t e)) = t_InputTokens t"
  "t_OutputTokens (fst (Transition now now' t e)) = t_OutputTokens t"
  "t_ToolTokens (fst (Transition now now' t e)) = t_ToolTokens t"
  "t_Cost (fst (Transition now now' t e)) = t_Cost t"
  "t_MaxRetries (fst (Transition now now' t e)) = t_MaxRetries t"
  "t_MaxTokens (fst (Transition now now' t e)) = t_MaxTokens t"
  "t_OnStateChange (fst (Transition now now' t e)) = t_OnStateChange t"
  unfolding Transition_def Let_def
  by (cases "t_State t"; cases e; simp split: option.split)+

lemma transition_split:
  "fst (transition env n k e t) =
     (if snd (Transition (ae_clk env n k) (ae_clk env n (Suc k)) t e) = None
      then (fst (Transition (ae_clk env n k) (ae_clk env n (Suc k)) t e))
             \<lparr>t_OnStateChange := map_option (\<lambda>calls. calls @ [(t_ID t, t_State t,
                t_State (fst (Transition (ae_clk env n k) (ae_clk env n (Suc k)) t e)))]) (t_OnStateChange t)\<rparr>
      else fst (Transition (ae_clk env n k) (ae_clk env n (Suc k)) t e))"
  "snd (transition env n k e t) = snd (Transition (ae_clk env n k) (ae_clk env n (Suc k)) t e)"
proof -
  obtain t' r where T: "Transition (ae_clk env n k) (ae_clk env n (Suc k)) t e = (t', r)" by fastforce
  have "t_ID t' = t_ID t" "t_OnStateChange t' = t_OnStateChange t"
    using Transition_frame(1,14) [of "ae_clk env n k" "ae_clk env n (Suc k)" t e] T by simp_all
  with T show "fst (transition env n k e t) =
     (if snd (Transition (ae_clk env n k) (ae_clk env n (Suc k)) t e) = None
      then (fst (Transition (ae_clk env n k) (ae_clk env n (Suc k)) t e))
             \<lparr>t_OnStateChange := map_option (\<lambda>calls. calls @ [(t_ID t, t_State t,
                t_State (fst (Transition (ae_clk env n k) (ae_clk env n (Suc k)) t e)))]) (t_OnStateChange t)\<rparr>
      else fst (Transition (ae_clk env n k) (ae_clk env n (Suc k)) t e))"
    "snd (transition env n k e t) = snd (Transition (ae_clk env n k) (ae_clk env n (Suc k)) t e)"
    by (simp_all add: transition_def split: option.split)
qed

lemma transition_frame [simp]:
  "t_ID (fst (transition env n k e t)) = t_ID t"
  "t_UserID (fst (transition env n k e t)) = t_UserID t"
  "t_OrgID (fst (transition env n k e t)) = t_OrgID t"
  "t_Plan (fst (transition env n k e t)) = t_Plan t"
  "t_Steps (fst (transition env n k e t)) = t_Steps t"
  "t_CurrentStep (fst (transition env n k e t)) = t_CurrentStep t"
  "t_InputTokens (fst (transition env n k e t)) = t_InputTokens t"
  "t_OutputTokens (fst (transition env n k e t)) = t_OutputTokens t"
  "t_ToolTokens (fst (transition env n k e t)) = t_ToolTokens t"
  "t_Cost (fst (transition env n k e t)) = t_Cost t"
  "t_MaxRetries (fst (transition env n k e t)) = t_MaxRetries t"
  "t_MaxTokens (fst (transition env n k e t)) = t_MaxTokens t"
  by (simp_all add: transition_split)

lemma transition_state:
  "t_State (fst (transition env n k e t)) = t_State (fst (Transition (ae_clk env n k) (ae_clk env n (Suc k)) t e))"
  "t_RetryCount (fst (transition env n k e t)) = t_RetryCount (fst (Transition (ae_clk env n k) (ae_clk env n (Suc k)) t e))"
  by (simp_all add: transition_split)

lemma transition_accepted [simp]:
  "snd (transition env n k e t) = None \<longleftrightarrow> e \<in> set (ValidTransitions (t_State t))"
  by (simp add: transition_split Transition_valid)

lemma observe_simps [simp]:
  "ag_trace (observe os a) = ag_trace a @ os" "ag_router (observe os a) = ag_router a" "ag_tools (observe os a) = ag_tools a"
  "ag_maxIter (observe os a) = ag_maxIter a" "ag_memory (observe os a) = ag_memory a"
  "ag_tokenCallback (observe os a) = ag_tokenCallback a" "ag_hitlQueue (observe os a) = ag_hitlQueue a"
  by (simp_all add: observe_def)

text \<open>
  \<open>extends P a a'\<close>: the configuration of the agent is unchanged and its trace grew by
  observations that all satisfy \<open>P\<close>.
\<close>

definition same_config :: "('t, 'r) Agent \<Rightarrow> ('t, 'r) Agent \<Rightarrow> bool" where
  "same_config a a' \<longleftrightarrow> ag_tools a' = ag_tools a \<and> ag_maxIter a' = ag_maxIter a \<and> ag_memory a' = ag_memory a \<and>
     ag_tokenCallback a' = ag_tokenCallback a \<and> ag_hitlQueue a' = ag_hitlQueue a"

definition extends :: "(observation \<Rightarrow> bool) \<Rightarrow> ('t, 'r) Agent \<Rightarrow> ('t, 'r) Agent \<Rightarrow> bool" where
  "extends P a a' \<longleftrightarrow> same_config a a' \<and> (\<exists>os. ag_trace a' = ag_trace a @ os \<and> list_all P os)"

text \<open>The observations of a conversation with the LLM or the memory, none of them for an organization.\<close>

definition talk :: "observation \<Rightarrow> bool" where
  "talk ob = (case ob of AskedLLM lt \<Rightarrow> tk_OrgID lt = [] | Token _ _ \<Rightarrow> True | Stored _ _ _ _ _ \<Rightarrow> True | _ \<Rightarrow> False)"

lemma same_config_refl [simp]: "same_config a a" by (simp add: same_config_def)

lemma same_config_trans: "same_config a b \<Longrightarrow> same_config b c \<Longrightarrow> same_config a c" by (simp add: same_config_def)

lemma same_config_observe [simp]: "same_config a (observe os b) \<longleftrightarrow> same_config a b" by (simp add: same_config_def)

lemma same_config_router [simp]: "same_config a (b\<lparr>ag_router := r\<rparr>) \<longleftrightarrow> same_config a b" by (simp add: same_config_def)

lemma extends_refl [simp]: "extends P a a"
  by (auto simp: extends_def)

lemma extends_trans: "extends P a b \<Longrightarrow> extends P b c \<Longrightarrow> extends P a c"
  by (auto simp: extends_def intro: same_config_trans)

lemma extends_observe: "list_all P os \<Longrightarrow> extends P a (observe os (a\<lparr>ag_router := r\<rparr>))"
  by (auto simp: extends_def)

lemma ask_stream_extends: "ask_stream env n tid lt a = (a', x) \<Longrightarrow> tk_OrgID lt = [] \<Longrightarrow> extends talk a a'"
  by (auto simp: ask_stream_def talk_def list_all_iff intro!: extends_observe split: prod.splits sum.splits)

lemma ask_chat_extends: "ask_chat env n lt a = (a', x) \<Longrightarrow> tk_OrgID lt = [] \<Longrightarrow> extends talk a a'"
  by (auto simp: ask_chat_def talk_def intro!: extends_observe split: prod.splits)

lemmas ask_extends = ask_stream_extends ask_chat_extends

lemma requests_orgless [simp]:
  "tk_OrgID (plan_request env a t m) = []" "tk_OrgID (reflect_request env n h a t p) = []" "tk_OrgID (zero_llm_task\<lparr>tk_Messages := ms\<rparr>) = []"
  by (simp_all add: plan_request_def reflect_request_def zero_llm_task_def)

lemma requests_task [simp]:
  "tk_ID (plan_request env a t m) = t_ID t" "tk_ID (reflect_request env n h a t p) = t_ID t" "tk_ID (zero_llm_task\<lparr>tk_Messages := ms\<rparr>) = []"
  by (simp_all add: plan_request_def reflect_request_def zero_llm_task_def)

lemma planTask_extends: "planTask env m a t = (a', t', p) \<Longrightarrow> extends talk a a'"
  by (auto simp: planTask_def Let_def intro: ask_extends split: if_splits prod.splits sum.splits)

lemma reflect_extends: "reflectOnFailure env n h p a t = (a', t', x) \<Longrightarrow> extends talk a a'"
  by (auto simp: reflectOnFailure_def Let_def intro: ask_extends split: if_splits prod.splits sum.splits)

lemma buildResult_extends: "buildResult env n tid h a = (a', x) \<Longrightarrow> extends talk a a'"
  by (auto simp: buildResult_def Let_def intro: ask_extends split: if_splits prod.splits sum.splits)

lemma storeMemory_extends: "extends talk a (storeMemory env t a)"
  using extends_observe [of talk _ a "ag_router a"] by (auto simp: storeMemory_def Let_def talk_def)

lemma finish_extends: "finish_task env N s h a t = (a', t', x) \<Longrightarrow> extends talk a a'"
  by (auto simp: finish_task_def Let_def intro: buildResult_extends extends_trans [OF buildResult_extends storeMemory_extends]
      split: if_splits prod.splits)

lemma reflect_frame:
  "reflectOnFailure env n h p a t = (a', t', x) \<Longrightarrow>
     t_ID t' = t_ID t \<and> t_UserID t' = t_UserID t \<and> t_State t' = t_State t \<and> t_Plan t' = t_Plan t \<and> t_Steps t' = t_Steps t \<and>
     t_RetryCount t' = t_RetryCount t \<and> t_MaxRetries t' = t_MaxRetries t \<and> t_MaxTokens t' = t_MaxTokens t \<and>
     t_ToolTokens t' = t_ToolTokens t \<and> t_CurrentStep t' = t_CurrentStep t"
  by (auto simp: reflectOnFailure_def Let_def split: if_splits prod.splits sum.splits)

lemma record_step_frame [simp]:
  "t_ID (record_step res t) = t_ID t" "t_UserID (record_step res t) = t_UserID t" "t_State (record_step res t) = t_State t"
  "t_Plan (record_step res t) = t_Plan t" "t_Steps (record_step res t) = t_Steps t @ [res]"
  "t_RetryCount (record_step res t) = t_RetryCount t" "t_MaxRetries (record_step res t) = t_MaxRetries t"
  "t_MaxTokens (record_step res t) = t_MaxTokens t" "t_ToolTokens (record_step res t) = t_ToolTokens t + sp_TokensUsed res"
  "t_CurrentStep (record_step res t) = t_CurrentStep t"
  by (simp_all add: record_step_def)

subsection \<open>The approval gate\<close>

definition needs_approval :: "('t, 'r) agent_env \<Rightarrow> 't ToolRegistry \<Rightarrow> nat \<Rightarrow> PlanStep \<Rightarrow> bool" where
  "needs_approval env reg i step =
     (case tools_Get (ps_Tool step) reg of None \<Rightarrow> False | Some tool \<Rightarrow> ae_requires env i (tl_impl tool) (ps_Params step))"

text \<open>The observation is the approval of step \<open>i\<close> of task \<open>tid\<close>, asked for exactly this tool and these parameters.\<close>

definition approval_of :: "string \<Rightarrow> string \<Rightarrow> nat \<Rightarrow> PlanStep \<Rightarrow> observation \<Rightarrow> bool" where
  "approval_of tid uid i step ob =
     (case ob of
        Submitted entry (Inr result) \<Rightarrow>
          he_Status result = ''approve'' \<and> he_ID entry = ''cp-'' @ tid @ ''-'' @ strconv_Itoa (int i) \<and>
          he_TaskID entry = tid \<and> he_UserID entry = uid \<and> he_StepIndex entry = int i \<and>
          he_Tool entry = ps_Tool step \<and> he_Params entry = ps_Params step
      | _ \<Rightarrow> False)"

definition gated :: "('t, 'r) agent_env \<Rightarrow> 't ToolRegistry \<Rightarrow> string \<Rightarrow> string \<Rightarrow> observation list \<Rightarrow> bool" where
  "gated env reg tid uid os \<longleftrightarrow>
     (\<forall>xs i step ys. os = xs @ Executed i step # ys \<longrightarrow> needs_approval env reg i step \<longrightarrow>
        xs \<noteq> [] \<and> approval_of tid uid i step (last xs))"

lemma gated_append: "gated env reg tid uid xs \<Longrightarrow> gated env reg tid uid ys \<Longrightarrow> gated env reg tid uid (xs @ ys)"
  unfolding gated_def
proof (intro allI impI)
  fix us i step vs
  assume x: "\<forall>us i step vs. xs = us @ Executed i step # vs \<longrightarrow> needs_approval env reg i step \<longrightarrow> us \<noteq> [] \<and> approval_of tid uid i step (last us)"
    and y: "\<forall>us i step vs. ys = us @ Executed i step # vs \<longrightarrow> needs_approval env reg i step \<longrightarrow> us \<noteq> [] \<and> approval_of tid uid i step (last us)"
    and e: "xs @ ys = us @ Executed i step # vs" and n: "needs_approval env reg i step"
  from e consider vs' where "xs = us @ Executed i step # vs'" | us' where "us = xs @ us'" "ys = us' @ Executed i step # vs"
    by (auto simp: append_eq_append_conv2 append_eq_Cons_conv)
  then show "us \<noteq> [] \<and> approval_of tid uid i step (last us)"
  proof cases
    case 2
    with y n have "us' \<noteq> [] \<and> approval_of tid uid i step (last us')" by blast
    with 2 show ?thesis by simp
  qed (use x n in blast)
qed

lemma gated_talk: "list_all talk os \<Longrightarrow> gated env reg tid uid os"
  by (auto simp: gated_def talk_def)

lemma gated_Nil [simp]: "gated env reg tid uid []" by (simp add: gated_def)

lemma gated_free: "\<not> needs_approval env reg i step \<Longrightarrow> gated env reg tid uid [Executed i step]"
  by (auto simp: gated_def Cons_eq_append_conv)

lemma gated_approved: "approval_of tid uid i step ob \<Longrightarrow> gated env reg tid uid [ob, Executed i step]"
  by (auto simp: gated_def Cons_eq_append_conv approval_of_def)

lemma gated_single: "(case ob of Executed _ _ \<Rightarrow> False | _ \<Rightarrow> True) \<Longrightarrow> gated env reg tid uid [ob]"
  by (auto simp: gated_def Cons_eq_append_conv)

text \<open>\<open>stays\<close>: what no part of an iteration changes, together with a trace that stays gated.\<close>

definition stays :: "('t, 'r) agent_env \<Rightarrow> ('t, 'r) Agent \<Rightarrow> Task \<Rightarrow> ('t, 'r) Agent \<Rightarrow> Task \<Rightarrow> bool" where
  "stays env a t a' t' \<longleftrightarrow> same_config a a' \<and> t_ID t' = t_ID t \<and> t_UserID t' = t_UserID t \<and>
     (\<exists>os. ag_trace a' = ag_trace a @ os \<and> gated env (ag_tools a) (t_ID t) (t_UserID t) os)"

lemma stays_refl [simp]: "stays env a t a t"
  by (auto simp: stays_def)

lemma stays_trans: "stays env a t b u \<Longrightarrow> stays env b u c v \<Longrightarrow> stays env a t c v"
  unfolding stays_def by (auto simp: same_config_def intro!: gated_append)

lemma stays_talk: "extends talk a a' \<Longrightarrow> t_ID t' = t_ID t \<Longrightarrow> t_UserID t' = t_UserID t \<Longrightarrow> stays env a t a' t'"
  by (auto simp: extends_def stays_def intro: gated_talk)

text \<open>
  The gate lets a step through only with its approval as the last observation, when the queue
  is attached and the step needs one.
\<close>

lemma waitHITLDecision_spec:
  assumes "waitHITLDecision env i step a t = (a', t', ok)"
  shows "same_config a a' \<and> t_ID t' = t_ID t \<and> t_UserID t' = t_UserID t \<and> t_Plan t' = t_Plan t \<and>
    (\<exists>ob. ag_trace a' = ag_trace a @ [ob] \<and> (\<forall>j s. ob \<noteq> Executed j s) \<and> (ok \<longrightarrow> approval_of (t_ID t) (t_UserID t) i step ob))"
  using assms
  by (auto simp: waitHITLDecision_def Let_def checkpoint_entry_def checkpoint_id_def approval_of_def split: if_splits sum.splits)

lemma hitl_gate_spec:
  assumes "hitl_gate env i step a t = (a', t', out)" and "ag_hitlQueue a"
  shows "same_config a a' \<and> t_ID t' = t_ID t \<and> t_UserID t' = t_UserID t \<and> t_Plan t' = t_Plan t \<and>
    (if needs_approval env (ag_tools a) i step then
       (if out = GateSkip then ag_trace a' = ag_trace a
        else \<exists>ob. ag_trace a' = ag_trace a @ [ob] \<and> (\<forall>j s. ob \<noteq> Executed j s) \<and>
               (out = GateProceed \<longrightarrow> approval_of (t_ID t) (t_UserID t) i step ob))
     else ag_trace a' = ag_trace a \<and> out = GateProceed)"
proof (cases "needs_approval env (ag_tools a) i step")
  case False
  with assms(1) show ?thesis by (auto simp: hitl_gate_def needs_approval_def split: option.splits)
next
  case True
  then obtain tool where tool: "tools_Get (ps_Tool step) (ag_tools a) = Some tool" "ae_requires env i (tl_impl tool) (ps_Params step)"
    by (auto simp: needs_approval_def split: option.splits)
  define t1 where "t1 = t\<lparr>t_HITLRequired := True, t_HITLCheckpoint := Some \<lparr>cp_CheckpointID = checkpoint_id t i,
    cp_Description = checkpoint_text i step, cp_Options = [''approve'', ''reject'', ''modify''], cp_WaitingSince = ae_clk env i 0\<rparr>\<rparr>"
  obtain t2 err where T: "transition env i 1 EventHITLRequired t1 = (t2, err)" by fastforce
  have t2: "t_ID t2 = t_ID t" "t_UserID t2 = t_UserID t" "t_Plan t2 = t_Plan t"
    using transition_frame(1,2,4) [of env i 1 EventHITLRequired t1] unfolding T by (simp_all add: t1_def)
  obtain a3 t3 ok where W: "waitHITLDecision env i step a t2 = (a3, t3, ok)" by (metis surj_pair)
  have "hitl_gate env i step a t =
    (if err \<noteq> None then (a, t2, GateSkip)
     else if ok then (a3, t3, GateProceed) else (a3, fst (transition env i 5 EventStepFailed t3), GateReject))"
    using tool T W assms(2) by (simp add: hitl_gate_def t1_def Let_def split: option.split)
  with assms(1) True t2 waitHITLDecision_spec [OF W] show ?thesis by (auto split: if_splits)
qed

lemma executeStep_spec:
  assumes "executeStep env i step a = (a', res)"
  shows "same_config a a' \<and> (ag_trace a' = ag_trace a @ (if tools_Get (ps_Tool step) (ag_tools a) = None then [] else [Executed i step]))"
  using assms by (auto simp: executeStep_def Let_def split: option.splits sum.splits)

lemma after_step_stays: "after_step env i plan step res h a t = (a', t', h', out) \<Longrightarrow> stays env a t a' t'"
proof -
  assume A: "after_step env i plan step res h a t = (a', t', h', out)"
  let ?t = "fst (transition env i 8 EventStepFailed (record_step res t))"
  let ?h = "h @ step_messages env i step res"
  obtain a1 t1 x where R: "reflectOnFailure env (Suc i) ?h plan a ?t = (a1, t1, x)" by (metis surj_pair)
  have "(a' = a \<or> a' = a1) \<and> t_ID t' = t_ID t \<and> t_UserID t' = t_UserID t"
    using A R reflect_frame [OF R] by (auto simp: after_step_def Let_def split: if_splits sum.splits)
  then show ?thesis using reflect_extends [OF R] by (auto intro: stays_talk)
qed

lemma step_once_stays:
  assumes "step_once env i h a t = (a', t', h', out)" and q: "ag_hitlQueue a"
  shows "stays env a t a' t'"
proof (cases "t_Plan t")
  case (Some plan)
  let ?step = "pl_Steps plan ! i"
  obtain a1 t1 g where G: "hitl_gate env i ?step a (t\<lparr>t_CurrentStep := int i\<rparr>) = (a1, t1, g)" by (metis surj_pair)
  obtain a2 res where E: "executeStep env i ?step a1 = (a2, res)" by fastforce
  note gs = hitl_gate_spec [OF G q] and es = executeStep_spec [OF E]
  let ?own = "gated env (ag_tools a) (t_ID t) (t_UserID t)"
  have 1: "stays env a t a1 t1"
  proof -
    from gs consider "ag_trace a1 = ag_trace a" | ob where "ag_trace a1 = ag_trace a @ [ob]" "\<forall>j s. ob \<noteq> Executed j s"
      by (auto split: if_splits)
    then show ?thesis
      by cases (use gs in \<open>auto simp: stays_def split: observation.split intro!: gated_single\<close>)
  qed
  have tools: "ag_tools a1 = ag_tools a" using gs by (simp add: same_config_def)
  have 2: "stays env a t a2 t1" if "g = GateProceed"
  proof (cases "tools_Get (ps_Tool ?step) (ag_tools a) = None")
    case True
    with 1 es tools show ?thesis by (auto simp: stays_def intro: same_config_trans)
  next
    case False
    then have tr: "ag_trace a2 = ag_trace a1 @ [Executed i ?step]" using es tools by simp
    show ?thesis
    proof (cases "needs_approval env (ag_tools a) i ?step")
      case True
      with gs that obtain ob where "ag_trace a1 = ag_trace a @ [ob]" "approval_of (t_ID t) (t_UserID t) i ?step ob" by auto
      with tr gs es show ?thesis by (auto simp: stays_def intro: same_config_trans gated_approved)
    next
      case False
      with gs have "ag_trace a1 = ag_trace a" by simp
      with tr gs es gated_free [OF False] show ?thesis by (auto simp: stays_def intro: same_config_trans)
    qed
  qed
  from assms(1) Some G E consider "a' = a \<and> t' = t" | "a' = a1 \<and> t' = t1"
    | "g = GateProceed" "after_step env i plan ?step res h a2 t1 = (a', t', h', out)"
    by (auto simp: step_once_def Let_def split: if_splits gate_outcome.splits)
  then show ?thesis using 1 2 by cases (auto intro: stays_trans after_step_stays)
qed (use assms in \<open>auto simp: step_once_def split: if_splits\<close>)

lemma run_steps_stays:
  "run_steps env is h a t = (a', t', h', out) \<Longrightarrow> ag_hitlQueue a \<Longrightarrow> stays env a t a' t'"
proof (induction "is" arbitrary: h a t)
  case (Cons i "is")
  obtain a1 t1 h1 o1 where S: "step_once env i h a t = (a1, t1, h1, o1)" by (metis surj_pair)
  have s1: "stays env a t a1 t1" by (rule step_once_stays [OF S Cons.prems(2)])
  then have "ag_hitlQueue a1" using Cons.prems(2) by (simp add: stays_def same_config_def)
  with S s1 Cons show ?case by (auto split: step_outcome.splits intro: stays_trans)
qed simp

lemma planTask_frame:
  "planTask env m a t = (a', t', p) \<Longrightarrow>
     t_ID t' = t_ID t \<and> t_UserID t' = t_UserID t \<and> t_State t' = t_State t \<and> t_Steps t' = t_Steps t \<and>
     t_RetryCount t' = t_RetryCount t \<and> t_MaxRetries t' = t_MaxRetries t \<and> t_ToolTokens t' = t_ToolTokens t \<and>
     t_MaxTokens t' = t_MaxTokens t"
  by (auto simp: planTask_def Let_def split: if_splits prod.splits sum.splits)

lemma finish_frame:
  "finish_task env N s h a t = (a', t', x) \<Longrightarrow> t_ID t' = t_ID t \<and> t_UserID t' = t_UserID t"
  by (auto simp: finish_task_def Let_def split: prod.splits)

text \<open>Every plan has as many steps as it says.\<close>

definition wf_plan :: "Plan \<Rightarrow> bool" where
  "wf_plan plan \<longleftrightarrow> pl_TotalSteps plan = int (length (pl_Steps plan))"

lemma parsed_plan_wf: "parsePlanFromResponse u c = Inr plan \<Longrightarrow> wf_plan plan \<and> pl_Steps plan \<noteq> []"
  by (auto simp: parsePlanFromResponse_def Let_def wf_plan_def enumerate_eq_zip split: if_splits option.splits)

lemma planTask_plan: "planTask env m a t = (a', t', p) \<Longrightarrow> \<exists>plan. p = Inr plan \<and> wf_plan plan \<and> pl_Steps plan \<noteq> []"
proof -
  assume P: "planTask env m a t = (a', t', p)"
  have d: "wf_plan (buildDefaultPlan u) \<and> pl_Steps (buildDefaultPlan u) \<noteq> []" for u
    by (simp add: buildDefaultPlan_def wf_plan_def Let_def)
  have "(\<exists>u. p = Inr (buildDefaultPlan u)) \<or> (\<exists>c plan. parsePlanFromResponse (ae_unmarshal env) c = Inr plan \<and> p = Inr plan)"
    using P by (auto simp: planTask_def Let_def split: if_splits prod.splits sum.splits) (metis (full_types))+
  then show ?thesis using d parsed_plan_wf by blast
qed

text \<open>The phases of \<^verbatim>\<open>ExecuteTask\<close> in the form the proofs use: where it stops, and with what.\<close>

lemma ExecuteTask_phases:
  assumes "ExecuteTask env a t = (a', t', res, err)"
  obtains (not_started) "a' = a" "t' = fst (transition env (nat (ag_maxIter a)) 0 EventStart t)" "t_State t \<noteq> StatePending" "res = None"
      "err = Some (StartFailed (the (snd (transition env (nat (ag_maxIter a)) 0 EventStart t))))"
  | (looped) a1 t3 plan t4 a2 t5 h out i where "t_State t = StatePending"
      "planTask env (if ag_memory a then recallMemory env a ((fst (transition env (nat (ag_maxIter a)) 0 EventStart t))\<lparr>t_StartedAt := Some (ae_clk env (nat (ag_maxIter a)) 3)\<rparr>) else [])
         a ((fst (transition env (nat (ag_maxIter a)) 0 EventStart t))\<lparr>t_StartedAt := Some (ae_clk env (nat (ag_maxIter a)) 3)\<rparr>) = (a1, t3, Inr plan)"
      "t4 = fst (transition env (nat (ag_maxIter a)) 4 EventPlanReady (t3\<lparr>t_Plan := Some plan\<rparr>))"
      "run_steps env [0..<nat (min (ag_maxIter a1) (pl_TotalSteps plan))] (first_messages env (nat (ag_maxIter a)) a1 t4) a1 t4 = (a2, t5, h, (out, i))"
      "if out = CtxCancelled then a' = a2 \<and> t' = t5 \<and> res = None \<and> err = Some ContextError
       else if out = IndexPanic then a' = a2 \<and> t' = t5 \<and> res = None \<and> err = Some Panic
       else if out = HumanRejected then a' = a2 \<and> t' = t5 \<and> err = Some (RejectedByHuman i (t_Error t5)) \<and>
         res = Some (task_result (time_Since (ae_clk env i 7) (ae_clk env (nat (ag_maxIter a)) 2)) (t_Error t5) t5)
       else err = None \<and> (\<exists>r. finish_task env (nat (ag_maxIter a)) (ae_clk env (nat (ag_maxIter a)) 2) h a2 t5 = (a', t', r) \<and> res = Some r)"
proof -
  let ?N = "nat (ag_maxIter a)"
  obtain t1 e1 where T1: "transition env ?N 0 EventStart t = (t1, e1)" by fastforce
  show thesis
  proof (cases "t_State t = StatePending")
    case False
    then have "snd (transition env ?N 0 EventStart t) \<noteq> None" by (cases "t_State t") (simp_all del: transition_accepted add: transition_split Transition_valid)
    with T1 obtain e where "e1 = Some e" by auto
    with assms T1 False show thesis by (intro not_started) (auto simp: ExecuteTask_def Let_def)
  next
    case True
    then have "e1 = None" using transition_accepted [of env ?N 0 EventStart t] T1 by simp
    obtain a1 t3 p where P: "planTask env (if ag_memory a then recallMemory env a (t1\<lparr>t_StartedAt := Some (ae_clk env ?N 3)\<rparr>) else [])
         a (t1\<lparr>t_StartedAt := Some (ae_clk env ?N 3)\<rparr>) = (a1, t3, p)" by (metis surj_pair)
    from planTask_plan [OF P] obtain plan where p: "p = Inr plan" by blast
    have "t_State t1 = StatePlanning" using T1 True transition_state(1) [of env ?N 0 EventStart t] by (simp add: Transition_def)
    then have "t_State t3 = StatePlanning" using planTask_frame [OF P] by simp
    then have acc: "snd (transition env ?N 4 EventPlanReady (t3\<lparr>t_Plan := Some plan\<rparr>)) = None" by simp
    obtain t4 where T4: "transition env ?N 4 EventPlanReady (t3\<lparr>t_Plan := Some plan\<rparr>) = (t4, None)"
      using acc by (metis prod.collapse)
    obtain a2 t5 h out i where R: "run_steps env [0..<nat (min (ag_maxIter a1) (pl_TotalSteps plan))] (first_messages env ?N a1 t4) a1 t4 = (a2, t5, h, (out, i))"
      by (metis surj_pair)
    show thesis
      by (rule looped [OF True, of a1 t3 plan t4 a2 t5 h out i])
        (use assms T1 \<open>e1 = None\<close> P p T4 R in \<open>auto simp: ExecuteTask_def Let_def split: if_splits prod.splits\<close>)
  qed
qed

lemma ExecuteTask_stays:
  assumes "ExecuteTask env a t = (a', t', res, err)" and "ag_hitlQueue a"
  shows "stays env a t a' t'"
  using assms(1)
proof (cases rule: ExecuteTask_phases)
  case (looped a1 t3 plan t4 a2 t5 h out i)
  have "stays env a t a1 t4"
    using planTask_extends [OF looped(2)] planTask_frame [OF looped(2)] looped(3) by (auto intro: stays_talk)
  moreover from this have "ag_hitlQueue a1" using assms(2) by (simp add: stays_def same_config_def)
  ultimately have 5: "stays env a t a2 t5" using run_steps_stays [OF looped(4)] by (blast intro: stays_trans)
  show ?thesis
  proof (cases "err = None")
    case True
    then obtain r where F: "finish_task env (nat (ag_maxIter a)) (ae_clk env (nat (ag_maxIter a)) 2) h a2 t5 = (a', t', r)"
      using looped(5) by (auto split: if_splits)
    have "stays env a2 t5 a' t'" using finish_extends [OF F] finish_frame [OF F] by (auto intro: stays_talk)
    with 5 show ?thesis by (rule stays_trans)
  qed (use 5 looped(5) in \<open>auto split: if_splits\<close>)
qed (auto simp: stays_def)

subsection \<open>Properties: approval\<close>

text \<open>
  C1. No unapproved action: with an approval queue attached, a tool that requires human approval
  for the parameters of its step is run only right after the checkpoint of exactly this step
  (same task, user, step number, tool and parameters) was answered with \<^verbatim>\<open>approve\<close>.
\<close>

theorem no_unapproved_action:
  assumes "ExecuteTask env a t = (a', t', res, err)" and "ag_hitlQueue a" and "ag_trace a = []"
    and "ag_trace a' = xs @ Executed i step # ys" and "needs_approval env (ag_tools a) i step"
  shows "xs \<noteq> [] \<and> approval_of (t_ID t) (t_UserID t) i step (last xs)"
  using ExecuteTask_stays [OF assms(1,2)] assms(3-5) by (auto simp: stays_def gated_def)

subsection \<open>The state of the task in the loop\<close>

definition refused :: "observation \<Rightarrow> bool" where
  "refused ob = (case ob of Submitted _ (Inr result) \<Rightarrow> he_Status result \<noteq> ''approve'' | Submitted _ (Inl _) \<Rightarrow> True | _ \<Rightarrow> False)"

lemma waitHITLDecision_state:
  assumes "waitHITLDecision env i step a t = (a', t', ok)" and "t_State t = StateWaitingHITL"
  shows "t_State t' = (if ok then StateExecuting else StateFailed) \<and> t_Steps t' = t_Steps t \<and> t_RetryCount t' = t_RetryCount t \<and>
    t_MaxRetries t' = t_MaxRetries t \<and> t_CurrentStep t' = t_CurrentStep t \<and> t_ToolTokens t' = t_ToolTokens t \<and>
    (\<exists>ob. ag_trace a' = ag_trace a @ [ob] \<and> refused ob = (\<not> ok))"
  using assms
  by (auto simp: waitHITLDecision_def Let_def refused_def transition_state Transition_def split: if_splits sum.splits)

lemma hitl_gate_state:
  assumes "hitl_gate env i step a t = (a', t', out)" and "t_State t = StateExecuting \<or> t_State t = StateFailed"
  shows "t_Steps t' = t_Steps t \<and> t_RetryCount t' = t_RetryCount t \<and> t_MaxRetries t' = t_MaxRetries t \<and> t_CurrentStep t' = t_CurrentStep t \<and>
    t_Plan t' = t_Plan t \<and> t_ToolTokens t' = t_ToolTokens t \<and>
    (out = GateProceed \<longrightarrow> t_State t' = t_State t) \<and> (out = GateSkip \<longrightarrow> t_State t = StateFailed \<and> t_State t' = StateFailed) \<and>
    (out = GateReject \<longrightarrow> t_State t' = StateFailed) \<and>
    (\<exists>os. ag_trace a' = ag_trace a @ os \<and> (if out = GateReject then \<exists>ob. os = [ob] \<and> refused ob else list_all (\<lambda>ob. \<not> refused ob) os))"
proof (cases "needs_approval env (ag_tools a) i step")
  case False
  with assms show ?thesis by (auto simp: hitl_gate_def needs_approval_def split: option.splits)
next
  case True
  then obtain tool where tool: "tools_Get (ps_Tool step) (ag_tools a) = Some tool" "ae_requires env i (tl_impl tool) (ps_Params step)"
    by (auto simp: needs_approval_def split: option.splits)
  define t1 where "t1 = t\<lparr>t_HITLRequired := True, t_HITLCheckpoint := Some \<lparr>cp_CheckpointID = checkpoint_id t i,
    cp_Description = checkpoint_text i step, cp_Options = [''approve'', ''reject'', ''modify''], cp_WaitingSince = ae_clk env i 0\<rparr>\<rparr>"
  obtain t2 err where T: "transition env i 1 EventHITLRequired t1 = (t2, err)" by fastforce
  have t2: "t_Steps t2 = t_Steps t" "t_MaxRetries t2 = t_MaxRetries t" "t_CurrentStep t2 = t_CurrentStep t" "t_Plan t2 = t_Plan t"
    "t_ToolTokens t2 = t_ToolTokens t"
    using transition_frame(4,5,6,9,11) [of env i 1 EventHITLRequired t1] unfolding T by (simp_all add: t1_def)
  have s2: "t_RetryCount t2 = t_RetryCount t"
    "t_State t2 = (if t_State t = StateExecuting then StateWaitingHITL else StateFailed)" "err = None \<longleftrightarrow> t_State t = StateExecuting"
    using transition_state [of env i 1 EventHITLRequired t1] transition_accepted [of env i 1 EventHITLRequired t1] assms(2)
    unfolding T by (auto simp: t1_def Transition_def)
  obtain a3 t3 ok where W: "waitHITLDecision env i step a t2 = (a3, t3, ok)" by (metis surj_pair)
  have p3: "t_Plan t3 = t_Plan t2" using waitHITLDecision_spec [OF W] by simp
  have H: "hitl_gate env i step a t =
    (if err \<noteq> None then (a, t2, GateSkip)
     else if ag_hitlQueue a then (if ok then (a3, t3, GateProceed) else (a3, fst (transition env i 5 EventStepFailed t3), GateReject))
     else (a, fst (transition env i 3 EventHITLApproved t2), GateProceed))"
    using tool T W by (simp add: hitl_gate_def t1_def Let_def split: option.split)
  show ?thesis
  proof (cases "t_State t = StateExecuting")
    case True
    then have w: "t_State t2 = StateWaitingHITL" "err = None" using s2 by simp_all
    show ?thesis using assms(1) H w s2(1) t2 True waitHITLDecision_state [OF W w(1)] p3
      by (auto simp: transition_state Transition_def split: if_splits)
  qed (use assms H s2 t2 in \<open>auto split: if_splits\<close>)
qed

definition failures :: "Task \<Rightarrow> int" where
  "failures t = int (length (filter (\<lambda>r. sp_Error r \<noteq> []) (t_Steps t)))"

text \<open>The loop invariant, before iteration \<open>i\<close>.\<close>

definition loop_inv :: "nat \<Rightarrow> Task \<Rightarrow> bool" where
  "loop_inv i t \<longleftrightarrow> (\<exists>plan. t_Plan t = Some plan \<and> wf_plan plan \<and>
     (case t_State t of
        StateExecuting \<Rightarrow> length (t_Steps t) = i \<and> failures t = t_RetryCount t \<and> t_RetryCount t < max 1 (t_MaxRetries t)
      | StateReviewing \<Rightarrow> length (t_Steps t) = i \<and> failures t = t_RetryCount t \<and> t_RetryCount t < max 1 (t_MaxRetries t) \<and>
          i = length (pl_Steps plan) \<and> t_Steps t \<noteq> [] \<and> sp_Error (last (t_Steps t)) = []
      | StateFailed \<Rightarrow> True
      | _ \<Rightarrow> False))"

lemma replace_steps_length [simp]: "length (replace_steps i n valid steps) = length steps"
  by (induction n) (simp_all add: replace_steps_def)

lemma adjust_plan_wf [simp]:
  "wf_plan (adjust_plan env i a plan adjusted) = wf_plan plan" "length (pl_Steps (adjust_plan env i a plan adjusted)) = length (pl_Steps plan)"
  by (simp_all add: adjust_plan_def wf_plan_def Let_def)

lemma failed_transition:
  assumes "t_State t = StateExecuting"
  shows "t_State (fst (transition env n k EventStepFailed t)) = (if t_RetryCount t + 1 \<ge> t_MaxRetries t then StateFailed else StateExecuting)"
    and "t_RetryCount (fst (transition env n k EventStepFailed t)) = (if t_RetryCount t + 1 \<ge> t_MaxRetries t then t_RetryCount t else t_RetryCount t + 1)"
  using assms by (simp_all add: transition_state Transition_def)

lemma complete_transition:
  assumes "t_State t = StateExecuting" and "t_Plan t = Some plan"
  shows "t_State (fst (transition env n k EventStepComplete t)) = (if t_CurrentStep t \<ge> pl_TotalSteps plan - 1 then StateReviewing else StateExecuting)"
    and "t_RetryCount (fst (transition env n k EventStepComplete t)) = t_RetryCount t"
  using assms by (simp_all add: transition_state Transition_def Let_def)

lemma refused_transition:
  "t_State t = StateFailed \<Longrightarrow> t_State (fst (transition env n k e t)) = StateFailed"
  by (cases e) (simp_all add: transition_state Transition_def)

lemma failures_record [simp]:
  "failures (record_step res t) = failures t + (if sp_Error res \<noteq> [] then 1 else 0)"
  by (simp add: failures_def)

lemma failures_cong: "t_Steps t' = t_Steps t \<Longrightarrow> failures t' = failures t"
  by (simp add: failures_def)

text \<open>A failed step: the loop goes on in the invariant, whatever the reflection answers.\<close>

lemma after_failure_inv:
  assumes "t_Plan t = Some plan" and "wf_plan plan" and "sp_Error res \<noteq> []" and "t_State t = StateExecuting \<or> t_State t = StateFailed"
    and "t_State t = StateExecuting \<Longrightarrow> length (t_Steps t) = i \<and> failures t = t_RetryCount t"
  shows "loop_inv (Suc i) (fst (transition env i 8 EventStepFailed (record_step res t)))" (is "loop_inv _ ?u")
proof (cases "t_State t = StateExecuting")
  case True
  then have e: "t_State (record_step res t) = StateExecuting" by simp
  have f: "failures ?u = failures t + 1" using assms(3) by (simp add: failures_cong [of ?u "record_step res t"])
  show ?thesis using True assms f failed_transition [OF e, of env i 8] by (auto simp: loop_inv_def)
next
  case False
  then show ?thesis using assms refused_transition [of "record_step res t" env i 8 EventStepFailed] by (auto simp: loop_inv_def)
qed

lemma after_success_inv:
  assumes "t_Plan t = Some plan" and "wf_plan plan" and "sp_Error res = []" and "t_State t = StateExecuting \<or> t_State t = StateFailed"
    and "t_State t = StateExecuting \<Longrightarrow> length (t_Steps t) = i \<and> failures t = t_RetryCount t \<and> t_RetryCount t < max 1 (t_MaxRetries t)"
    and "t_CurrentStep t = int i" and "i < length (pl_Steps plan)"
  shows "loop_inv (Suc i) (fst (transition env i 8 EventStepComplete (record_step res t)))" (is "loop_inv _ ?u")
proof (cases "t_State t = StateExecuting")
  case True
  then have e: "t_State (record_step res t) = StateExecuting" "t_Plan (record_step res t) = Some plan" using assms(1) by simp_all
  have f: "failures ?u = failures t" using assms(3) by (simp add: failures_cong [of ?u "record_step res t"])
  show ?thesis using True assms f complete_transition [OF e, of env i 8] by (auto simp: loop_inv_def wf_plan_def)
next
  case False
  then show ?thesis using assms refused_transition [of "record_step res t" env i 8 EventStepComplete] by (auto simp: loop_inv_def)
qed

lemma loop_inv_reflect:
  assumes "reflectOnFailure env n h p a t = (a', t', x)" and "loop_inv i t" and "t_Plan t = Some plan" and "t_State t \<noteq> StateReviewing"
  shows "loop_inv i t'" and "loop_inv i (t'\<lparr>t_Plan := Some (adjust_plan env j a'' plan adjusted)\<rparr>)"
  using assms(2-4) reflect_frame [OF assms(1)]
  by (auto simp: loop_inv_def failures_def split: TaskState.splits)

lemma after_step_inv:
  assumes A: "after_step env i plan step res h a t = (a', t', h', out)"
    and t: "t_Plan t = Some plan" "wf_plan plan" "t_CurrentStep t = int i" "i < length (pl_Steps plan)"
      "t_State t = StateExecuting \<or> t_State t = StateFailed"
      "t_State t = StateExecuting \<Longrightarrow> length (t_Steps t) = i \<and> failures t = t_RetryCount t \<and> t_RetryCount t < max 1 (t_MaxRetries t)"
  shows "(out = NextIter \<and> loop_inv (Suc i) t') \<or> (out = BreakLoop \<and> t_State t' = t_State t)"
proof -
  let ?u = "fst (transition env i 8 EventStepFailed (record_step res t))"
  obtain a1 t1 x where R: "reflectOnFailure env (Suc i) (h @ step_messages env i step res) plan a ?u = (a1, t1, x)" by (metis surj_pair)
  have p: "t_Plan ?u = Some plan" using t by simp
  show ?thesis
  proof (cases "sp_Error res = []")
    case True
    with A after_success_inv [OF t(1,2) _ t(5,6) t(3,4)] show ?thesis by (auto simp: after_step_def Let_def split: if_splits)
  next
    case False
    have u: "loop_inv (Suc i) ?u" using after_failure_inv [OF t(1,2) False t(5)] t(6) by blast
    have "t_State ?u \<noteq> StateReviewing"
      using t(5) failed_transition(1) [of "record_step res t" env i 8] refused_transition [of "record_step res t" env i 8 EventStepFailed]
      by (auto split: if_splits)
    with A R False u loop_inv_reflect [OF R u p] show ?thesis by (auto simp: after_step_def Let_def split: if_splits sum.splits)
  qed
qed

lemma step_once_inv:
  assumes S: "step_once env i h a t = (a', t', h', out)" and I: "loop_inv i t" and i: "\<exists>plan. t_Plan t = Some plan \<and> i < length (pl_Steps plan)"
  shows "out \<noteq> IndexPanic \<and> (out = NextIter \<longrightarrow> loop_inv (Suc i) t') \<and> (out = BreakLoop \<longrightarrow> t_State t' = StateExecuting \<or> t_State t' = StateFailed) \<and>
    (out = HumanRejected \<longrightarrow> t_State t' = StateFailed)"
proof -
  from I i obtain plan where p: "t_Plan t = Some plan" "wf_plan plan" "i < length (pl_Steps plan)" by (auto simp: loop_inv_def)
  from I p have s: "t_State t = StateExecuting \<or> t_State t = StateFailed"
    "t_State t = StateExecuting \<Longrightarrow> length (t_Steps t) = i \<and> failures t = t_RetryCount t \<and> t_RetryCount t < max 1 (t_MaxRetries t)"
    by (auto simp: loop_inv_def split: TaskState.splits)
  let ?step = "pl_Steps plan ! i" and ?t = "t\<lparr>t_CurrentStep := int i\<rparr>"
  obtain a1 t1 g where G: "hitl_gate env i ?step a ?t = (a1, t1, g)" by (metis surj_pair)
  have s0: "t_State ?t = StateExecuting \<or> t_State ?t = StateFailed" using s(1) by simp
  note gs = hitl_gate_state [OF G s0]
  obtain a2 res where E: "executeStep env i ?step a1 = (a2, res)" by fastforce
  have after: "(out = NextIter \<and> loop_inv (Suc i) t') \<or> (out = BreakLoop \<and> t_State t' = t_State t1)"
    if "g = GateProceed" "after_step env i plan ?step res h a2 t1 = (a', t', h', out)"
    by (rule after_step_inv [OF that(2)]) (use gs that(1) p s in \<open>auto simp: failures_def\<close>)
  have skip: "loop_inv (Suc i) t1" if "g = GateSkip" using gs that p by (auto simp: loop_inv_def)
  show ?thesis
  proof (cases g)
    case GateProceed
    with S p G E after gs s show ?thesis by (auto simp: step_once_def split: if_splits)
  next
    case GateSkip
    with S p G skip show ?thesis by (auto simp: step_once_def split: if_splits)
  next
    case GateReject
    with S p G gs show ?thesis by (auto simp: step_once_def split: if_splits)
  qed
qed

lemma step_once_plan:
  "step_once env i h a t = (a', t', h', NextIter) \<Longrightarrow> t_Plan t = Some plan \<Longrightarrow> loop_inv i t \<Longrightarrow> i < length (pl_Steps plan) \<Longrightarrow>
     \<exists>plan'. t_Plan t' = Some plan' \<and> length (pl_Steps plan') = length (pl_Steps plan) \<and> pl_TotalSteps plan' = pl_TotalSteps plan"
proof -
  assume S: "step_once env i h a t = (a', t', h', NextIter)" and p: "t_Plan t = Some plan" and I: "loop_inv i t" and i: "i < length (pl_Steps plan)"
  let ?step = "pl_Steps plan ! i" and ?t = "t\<lparr>t_CurrentStep := int i\<rparr>"
  obtain a1 t1 g where G: "hitl_gate env i ?step a ?t = (a1, t1, g)" by (metis surj_pair)
  have "t_State ?t = StateExecuting \<or> t_State ?t = StateFailed" using I p i by (auto simp: loop_inv_def split: TaskState.splits)
  from hitl_gate_state [OF G this] p have p1: "t_Plan t1 = Some plan" by simp
  obtain a2 res where E: "executeStep env i ?step a1 = (a2, res)" by fastforce
  let ?u = "fst (transition env i 8 EventStepFailed (record_step res t1))"
  obtain a3 t3 x where R: "reflectOnFailure env (Suc i) (h @ step_messages env i ?step res) plan a2 ?u = (a3, t3, x)" by (metis surj_pair)
  have "t_Plan t3 = Some plan" using reflect_frame [OF R] p1 by simp
  with S p G E R p1 i show ?thesis
    by (auto simp: step_once_def after_step_def Let_def split: if_splits gate_outcome.splits sum.splits)
       (auto simp: adjust_plan_def Let_def)
qed

lemma run_steps_inv:
  "run_steps env [i..<n] h a t = (a', t', h', (out, j)) \<Longrightarrow> loop_inv i t \<Longrightarrow> t_Plan t = Some plan \<Longrightarrow> n \<le> length (pl_Steps plan) \<Longrightarrow> i \<le> n \<Longrightarrow>
     out \<noteq> IndexPanic \<and>
     (out = NextIter \<longrightarrow> loop_inv n t' \<and> (\<exists>plan'. t_Plan t' = Some plan' \<and> length (pl_Steps plan') = length (pl_Steps plan))) \<and>
     (out = BreakLoop \<longrightarrow> t_State t' = StateExecuting \<or> t_State t' = StateFailed) \<and> (out = HumanRejected \<longrightarrow> t_State t' = StateFailed)"
proof (induction "n - i" arbitrary: i h a t plan)
  case 0
  then show ?case by simp
next
  case (Suc k)
  then have i: "i < n" and u: "[i..<n] = i # [Suc i..<n]" by (simp_all add: upt_rec)
  obtain a1 t1 h1 o1 where S: "step_once env i h a t = (a1, t1, h1, o1)" by (metis surj_pair)
  have I: "o1 \<noteq> IndexPanic \<and> (o1 = NextIter \<longrightarrow> loop_inv (Suc i) t1) \<and> (o1 = BreakLoop \<longrightarrow> t_State t1 = StateExecuting \<or> t_State t1 = StateFailed) \<and>
    (o1 = HumanRejected \<longrightarrow> t_State t1 = StateFailed)"
    using step_once_inv [OF S Suc.prems(2)] Suc.prems(3,4) i by auto
  show ?case
  proof (cases "o1 = NextIter")
    case True
    with S Suc.prems u have r: "run_steps env [Suc i..<n] h1 a1 t1 = (a', t', h', (out, j))" by simp
    from S True step_once_plan [of env i h a t a1 t1 h1 plan] Suc.prems(2-4) i obtain plan1 where
      p: "t_Plan t1 = Some plan1" "length (pl_Steps plan1) = length (pl_Steps plan)" by auto
    with Suc.hyps(1) [OF _ r _ p(1)] Suc.hyps(2) Suc.prems(4) I True i show ?thesis by auto
  next
    case False
    with S Suc.prems(1) u have "(a', t', h', (out, j)) = (a1, t1, h1, (o1, i))" by (simp split: step_outcome.splits)
    with I False show ?thesis by simp
  qed
qed

lemma looped_start:
  assumes "t_State t = StatePending" and "t_Steps t = []" and "t_RetryCount t = 0"
    and "planTask env m a ((fst (transition env N 0 EventStart t))\<lparr>t_StartedAt := s\<rparr>) = (a1, t3, Inr plan)"
    and "t4 = fst (transition env N 4 EventPlanReady (t3\<lparr>t_Plan := Some plan\<rparr>))"
  shows "loop_inv 0 t4 \<and> t_Plan t4 = Some plan \<and> wf_plan plan \<and> t_MaxRetries t4 = t_MaxRetries t \<and> t_State t4 = StateExecuting"
proof -
  have "wf_plan plan" using planTask_plan [OF assms(4)] by simp
  moreover have "t_State t3 = StatePlanning" "t_Steps t3 = []" "t_RetryCount t3 = 0" "t_MaxRetries t3 = t_MaxRetries t"
    using planTask_frame [OF assms(4)] assms(1-3) by (simp_all add: transition_state Transition_def)
  ultimately show ?thesis
    using assms(5) by (simp add: loop_inv_def failures_def transition_state Transition_def)
qed

lemma finish_state:
  "finish_task env N s h a t = (a', t', r) \<Longrightarrow>
     t_State t' = (if t_State t = StateReviewing then StateCompleted else t_State t) \<and> t_Steps t' = t_Steps t \<and> t_Plan t' = t_Plan t \<and>
     t_MaxRetries t' = t_MaxRetries t \<and> t_ToolTokens t' = t_ToolTokens t \<and> tres_Status r = string_of_state (t_State t') \<and>
     t_TotalTokens t' = t_InputTokens t' + t_OutputTokens t' + t_ToolTokens t' \<and> tres_TokensUsed r = t_TotalTokens t' \<and>
     tres_Steps r = int (length (t_Steps t'))"
  by (cases "t_State t")
     (auto simp: finish_task_def Let_def task_result_def transition_state Transition_def split: prod.splits)

subsection \<open>Refusals\<close>

text \<open>\<open>refusal_last out a a'\<close>: the trace grew without a refused checkpoint, except as its last observation when \<open>out\<close> is a rejection.\<close>

definition refusal_last :: "step_outcome \<Rightarrow> ('t, 'r) Agent \<Rightarrow> ('t, 'r) Agent \<Rightarrow> bool" where
  "refusal_last out a a' \<longleftrightarrow> (\<exists>os. ag_trace a' = ag_trace a @ os \<and>
     (if out = HumanRejected then \<exists>xs ob. os = xs @ [ob] \<and> refused ob \<and> list_all (\<lambda>ob. \<not> refused ob) xs
      else list_all (\<lambda>ob. \<not> refused ob) os))"

lemma refusal_last_refl [simp]: "out \<noteq> HumanRejected \<Longrightarrow> refusal_last out a a"
  by (simp add: refusal_last_def)

lemma refusal_last_trans: "refusal_last NextIter a b \<Longrightarrow> refusal_last out b c \<Longrightarrow> refusal_last out a c"
  by (auto simp: refusal_last_def split: if_splits)

lemma talk_not_refused: "list_all talk os \<Longrightarrow> list_all (\<lambda>ob. \<not> refused ob) os"
  by (auto simp: list_all_iff talk_def refused_def split: observation.splits)

lemma refusal_last_talk: "extends talk a a' \<Longrightarrow> out \<noteq> HumanRejected \<Longrightarrow> refusal_last out a a'"
  by (auto simp: extends_def refusal_last_def intro: talk_not_refused)

lemma step_once_refusal:
  assumes S: "step_once env i h a t = (a', t', h', out)" and I: "loop_inv i t" and i: "\<exists>plan. t_Plan t = Some plan \<and> i < length (pl_Steps plan)"
  shows "refusal_last out a a'"
proof -
  from I i obtain plan where p: "t_Plan t = Some plan" "i < length (pl_Steps plan)" by auto
  let ?step = "pl_Steps plan ! i" and ?t = "t\<lparr>t_CurrentStep := int i\<rparr>"
  obtain a1 t1 g where G: "hitl_gate env i ?step a ?t = (a1, t1, g)" by (metis surj_pair)
  have "t_State ?t = StateExecuting \<or> t_State ?t = StateFailed" using I p by (auto simp: loop_inv_def split: TaskState.splits)
  from hitl_gate_state [OF G this] have g: "refusal_last (if g = GateReject then HumanRejected else NextIter) a a1"
    by (auto simp: refusal_last_def split: if_splits)
  obtain a2 res where E: "executeStep env i ?step a1 = (a2, res)" by fastforce
  have e: "refusal_last NextIter a1 a2" using executeStep_spec [OF E] by (auto simp: refusal_last_def refused_def)
  have after: "refusal_last out a2 a' \<and> out \<noteq> HumanRejected" if A: "after_step env i plan ?step res h a2 t1 = (a', t', h', out)"
  proof -
    let ?u = "fst (transition env i 8 EventStepFailed (record_step res t1))"
    obtain a3 t3 x where R: "reflectOnFailure env (Suc i) (h @ step_messages env i ?step res) plan a2 ?u = (a3, t3, x)" by (metis surj_pair)
    have "(a' = a2 \<or> a' = a3) \<and> (out = NextIter \<or> out = BreakLoop)"
      using A R by (auto simp: after_step_def Let_def split: if_splits sum.splits)
    then show ?thesis using reflect_extends [OF R] by (auto intro: refusal_last_talk)
  qed
  show ?thesis
  proof (cases g)
    case GateProceed
    with S p G E have "(a' = a \<and> out \<noteq> HumanRejected) \<or> after_step env i plan ?step res h a2 t1 = (a', t', h', out)"
      by (auto simp: step_once_def split: if_splits)
    with after e g GateProceed show ?thesis by (auto intro: refusal_last_trans)
  next
    case GateSkip
    with S p G g show ?thesis by (auto simp: step_once_def split: if_splits)
  next
    case GateReject
    with S p G g show ?thesis by (auto simp: step_once_def split: if_splits)
  qed
qed

lemma run_steps_refusal:
  "run_steps env [i..<n] h a t = (a', t', h', (out, j)) \<Longrightarrow> loop_inv i t \<Longrightarrow> t_Plan t = Some plan \<Longrightarrow> n \<le> length (pl_Steps plan) \<Longrightarrow> i \<le> n \<Longrightarrow>
     refusal_last out a a'"
proof (induction "n - i" arbitrary: i h a t plan)
  case (Suc k)
  then have i: "i < n" and u: "[i..<n] = i # [Suc i..<n]" by (simp_all add: upt_rec)
  obtain a1 t1 h1 o1 where S: "step_once env i h a t = (a1, t1, h1, o1)" by (metis surj_pair)
  have 1: "refusal_last o1 a a1" and I: "o1 = NextIter \<longrightarrow> loop_inv (Suc i) t1"
    using step_once_refusal [OF S Suc.prems(2)] step_once_inv [OF S Suc.prems(2)] Suc.prems(3,4) i by auto
  show ?case
  proof (cases "o1 = NextIter")
    case True
    with S Suc.prems u have r: "run_steps env [Suc i..<n] h1 a1 t1 = (a', t', h', (out, j))" by simp
    from S True step_once_plan [of env i h a t a1 t1 h1 plan] Suc.prems(2-4) i obtain plan1 where
      p: "t_Plan t1 = Some plan1" "length (pl_Steps plan1) = length (pl_Steps plan)" by auto
    with Suc.hyps(1) [OF _ r _ p(1)] Suc.hyps(2) Suc.prems(4) I True i have "refusal_last out a1 a'" by auto
    with 1 True show ?thesis by (auto intro: refusal_last_trans)
  next
    case False
    with S Suc.prems(1) u have "(a', t', h', (out, j)) = (a1, t1, h1, (o1, i))" by (simp split: step_outcome.splits)
    with 1 show ?thesis by simp
  qed
qed simp

text \<open>
  C2. A rejection is final: when any checkpoint was answered by anything but \<^verbatim>\<open>approve\<close> (a
  rejection, a modification, a time-out, an error of the queue), that answer is the last thing
  the task observed (no tool runs and no request is sent after it), the task is failed and
  its caller gets the rejection error.
\<close>

theorem rejection_final:
  assumes "ExecuteTask env a t = (a', t', res, err)" and "ag_trace a = []" and "t_Steps t = []" and "t_RetryCount t = 0"
    and "ob \<in> set (ag_trace a')" and "refused ob"
  shows "last (ag_trace a') = ob \<and> t_State t' = StateFailed \<and> (\<exists>i msg. err = Some (RejectedByHuman i msg))"
  using assms(1)
proof (cases rule: ExecuteTask_phases)
  case not_started
  with assms show ?thesis by simp
next
  case (looped a1 t3 plan t4 a2 t5 h out i)
  have L: "loop_inv 0 t4" "t_Plan t4 = Some plan" "wf_plan plan"
    using looped_start [OF looped(1) assms(3,4) looped(2,3)] by simp_all
  have n: "nat (min (ag_maxIter a1) (pl_TotalSteps plan)) \<le> length (pl_Steps plan)" using L(3) by (simp add: wf_plan_def)
  have "refusal_last NextIter a a1" using planTask_extends [OF looped(2)] by (auto intro: refusal_last_talk)
  with run_steps_refusal [OF looped(4) L(1,2) n] have r: "refusal_last out a a2" by (auto intro: refusal_last_trans)
  note s = run_steps_inv [OF looped(4) L(1,2) n]
  show ?thesis
  proof (cases "out = HumanRejected")
    case True
    with r assms(2,5,6) looped(5) obtain xs ob' where "ag_trace a' = xs @ [ob']" "list_all (\<lambda>ob. \<not> refused ob) xs"
      by (auto simp: refusal_last_def)
    with assms(5,6) have "last (ag_trace a') = ob" by (auto simp: list_all_iff)
    with True s looped(5) show ?thesis by auto
  next
    case False
    have "refusal_last NextIter a a'"
    proof (cases "err = None")
      case True
      then obtain rr where F: "finish_task env (nat (ag_maxIter a)) (ae_clk env (nat (ag_maxIter a)) 2) h a2 t5 = (a', t', rr)"
        using looped(5) by (auto split: if_splits)
      have "refusal_last NextIter a2 a'" using finish_extends [OF F] by (auto intro: refusal_last_talk)
      moreover have "refusal_last NextIter a a2" using r False by (simp add: refusal_last_def)
      ultimately show ?thesis by (blast intro: refusal_last_trans)
    qed (use r False looped(5) in \<open>auto simp: refusal_last_def split: if_splits\<close>)
    with assms(2,5,6) show ?thesis by (auto simp: refusal_last_def list_all_iff)
  qed
qed

subsection \<open>Which steps ran\<close>

definition executions :: "observation list \<Rightarrow> observation list" where
  "executions = filter (\<lambda>ob. case ob of Executed _ _ \<Rightarrow> True | _ \<Rightarrow> False)"

text \<open>The tool runs of the first \<open>n\<close> steps, in order: those whose tool is registered; and their results.\<close>

definition step_runs :: "'t ToolRegistry \<Rightarrow> PlanStep list \<Rightarrow> nat \<Rightarrow> observation list" where
  "step_runs reg steps n = map (\<lambda>k. Executed k (steps ! k)) (filter (\<lambda>k. tools_Get (ps_Tool (steps ! k)) reg \<noteq> None) [0..<n])"

definition step_results :: "('t, 'r) agent_env \<Rightarrow> ('t, 'r) Agent \<Rightarrow> PlanStep list \<Rightarrow> nat \<Rightarrow> StepResult list" where
  "step_results env a steps n = map (\<lambda>k. snd (executeStep env k (steps ! k) a)) [0..<n]"

lemma executions_append [simp]: "executions (xs @ ys) = executions xs @ executions ys"
  by (simp add: executions_def)

lemma talk_executions: "list_all talk os \<Longrightarrow> executions os = []"
  by (auto simp: executions_def list_all_iff talk_def filter_empty_conv split: observation.splits)

lemma step_runs_cong: "(\<And>k. k < n \<Longrightarrow> steps' ! k = steps ! k) \<Longrightarrow> step_runs reg steps' n = step_runs reg steps n"
  unfolding step_runs_def by (rule map_cong [OF filter_cong]) auto

lemma step_results_cong: "(\<And>k. k < n \<Longrightarrow> steps' ! k = steps ! k) \<Longrightarrow> step_results env a steps' n = step_results env a steps n"
  by (simp add: step_results_def)

lemma step_Suc:
  "step_runs reg steps (Suc n) = step_runs reg steps n @ (if tools_Get (ps_Tool (steps ! n)) reg = None then [] else [Executed n (steps ! n)])"
  "step_results env a steps (Suc n) = step_results env a steps n @ [snd (executeStep env n (steps ! n) a)]"
  by (simp_all add: step_runs_def step_results_def)

lemma executeStep_config: "same_config a b \<Longrightarrow> snd (executeStep env i step b) = snd (executeStep env i step a)"
  by (auto simp: executeStep_def Let_def same_config_def split: option.splits sum.splits)

lemma replace_steps_before: "k \<le> i \<Longrightarrow> replace_steps i n valid steps ! k = steps ! k"
  by (induction n) (simp_all add: replace_steps_def)

lemma adjust_plan_before: "k \<le> i \<Longrightarrow> pl_Steps (adjust_plan env i a plan adjusted) ! k = pl_Steps plan ! k"
  by (simp add: adjust_plan_def Let_def replace_steps_before)

text \<open>Before iteration \<open>i\<close>: unless the task has failed, exactly the steps before \<open>i\<close> of its plan have run, each with its own result.\<close>

definition ran_inv :: "('t, 'r) agent_env \<Rightarrow> ('t, 'r) Agent \<Rightarrow> nat \<Rightarrow> ('t, 'r) Agent \<Rightarrow> Task \<Rightarrow> bool" where
  "ran_inv env a0 i a t \<longleftrightarrow> same_config a0 a \<and>
     (t_State t = StateFailed \<or>
      (\<exists>plan os. t_Plan t = Some plan \<and> ag_trace a = ag_trace a0 @ os \<and> executions os = step_runs (ag_tools a0) (pl_Steps plan) i \<and>
         t_Steps t = step_results env a0 (pl_Steps plan) i))"

lemma ran_inv_talk: "ran_inv env a0 i a t \<Longrightarrow> extends talk a b \<Longrightarrow> t_State t' = t_State t \<Longrightarrow> t_Plan t' = t_Plan t \<Longrightarrow> t_Steps t' = t_Steps t \<Longrightarrow>
    ran_inv env a0 i b t'"
  unfolding ran_inv_def extends_def using same_config_trans talk_executions by fastforce

lemma hitl_gate_trace:
  assumes "hitl_gate env i step a t = (a', t', GateProceed)"
  shows "same_config a a' \<and> (\<exists>os. ag_trace a' = ag_trace a @ os \<and> executions os = [])"
proof (cases "tools_Get (ps_Tool step) (ag_tools a)")
  case (Some tool)
  have w: "same_config a b \<and> (\<exists>os. ag_trace b = ag_trace a @ os \<and> executions os = [])" if "waitHITLDecision env i step a u = (b, u', ok)" for u b u' ok
    using waitHITLDecision_spec [OF that] by (auto simp: executions_def split: observation.splits)
  show ?thesis using assms Some w by (auto simp: hitl_gate_def Let_def executions_def split: if_splits prod.splits option.splits)
qed (use assms in \<open>auto simp: hitl_gate_def executions_def\<close>)

lemma hitl_gate_skip: "hitl_gate env i step a t = (a', t', GateSkip) \<Longrightarrow> same_config a a'"
  by (auto simp: hitl_gate_def Let_def split: if_splits prod.splits option.splits)

lemma after_step_ran:
  assumes A: "after_step env i plan (pl_Steps plan ! i) res h a t = (a', t', h', NextIter)" and p: "t_Plan t = Some plan"
    and I: "same_config a0 a" "ag_trace a = ag_trace a0 @ os" "executions os = step_runs (ag_tools a0) (pl_Steps plan) (Suc i)"
      "t_Steps t @ [res] = step_results env a0 (pl_Steps plan) (Suc i)"
  shows "ran_inv env a0 (Suc i) a' t'"
proof -
  let ?u = "fst (transition env i 8 EventStepFailed (record_step res t))" and ?v = "fst (transition env i 8 EventStepComplete (record_step res t))"
  have inv: "ran_inv env a0 (Suc i) a u" if "t_Plan u = Some plan" "t_Steps u = t_Steps t @ [res]" for u
    using I that by (auto simp: ran_inv_def)
  obtain a1 t1 x where R: "reflectOnFailure env (Suc i) (h @ step_messages env i (pl_Steps plan ! i) res) plan a ?u = (a1, t1, x)" by (metis surj_pair)
  have u: "ran_inv env a0 (Suc i) a ?u" "ran_inv env a0 (Suc i) a ?v" using p by (auto intro!: inv)
  have r: "ran_inv env a0 (Suc i) a1 t1" using ran_inv_talk [OF u(1) reflect_extends [OF R]] reflect_frame [OF R] by simp
  have adj: "ran_inv env a0 (Suc i) a1 (t1\<lparr>t_Plan := Some (adjust_plan env i a1 plan adj)\<rparr>)" for adj
  proof -
    have "t_Plan t1 = Some plan" using reflect_frame [OF R] p by simp
    moreover have "step_runs (ag_tools a0) (pl_Steps (adjust_plan env i a1 plan adj)) (Suc i) = step_runs (ag_tools a0) (pl_Steps plan) (Suc i)"
      "step_results env a0 (pl_Steps (adjust_plan env i a1 plan adj)) (Suc i) = step_results env a0 (pl_Steps plan) (Suc i)"
      by (intro step_runs_cong step_results_cong; simp add: adjust_plan_before)+
    ultimately show ?thesis using r by (auto simp: ran_inv_def)
  qed
  show ?thesis using A R u r adj by (auto simp: after_step_def Let_def split: if_splits sum.splits)
qed

lemma step_once_ran:
  assumes S: "step_once env i h a t = (a', t', h', NextIter)" and L: "loop_inv i t" and I: "ran_inv env a0 i a t"
    and i: "\<exists>plan. t_Plan t = Some plan \<and> i < length (pl_Steps plan)"
  shows "ran_inv env a0 (Suc i) a' t'"
proof -
  from i obtain plan where p: "t_Plan t = Some plan" "i < length (pl_Steps plan)" by blast
  let ?step = "pl_Steps plan ! i" and ?t = "t\<lparr>t_CurrentStep := int i\<rparr>"
  obtain a1 t1 g where G: "hitl_gate env i ?step a ?t = (a1, t1, g)" by (metis surj_pair)
  have s0: "t_State ?t = StateExecuting \<or> t_State ?t = StateFailed" using L p by (auto simp: loop_inv_def split: TaskState.splits)
  note gs = hitl_gate_state [OF G s0]
  obtain a2 res where E: "executeStep env i ?step a1 = (a2, res)" by fastforce
  note es = executeStep_spec [OF E]
  have c0: "same_config a0 a" using I by (simp add: ran_inv_def)
  show ?thesis
  proof (cases g)
    case GateProceed
    with S p G E have A: "after_step env i plan ?step res h a2 t1 = (a', t', h', NextIter)" by (auto simp: step_once_def split: if_splits)
    from hitl_gate_trace G GateProceed obtain os where c1: "same_config a a1" and os: "ag_trace a1 = ag_trace a @ os" "executions os = []" by blast
    have c2: "same_config a0 a2" using c0 c1 es same_config_trans by blast
    show ?thesis
    proof (cases "t_State t = StateFailed")
      case True
      have f: "t_State t1 = StateFailed" using gs GateProceed True by simp
      obtain a3 t3 x where R: "reflectOnFailure env (Suc i) (h @ step_messages env i ?step res) plan a2 (fst (transition env i 8 EventStepFailed (record_step res t1))) = (a3, t3, x)"
        by (metis surj_pair)
      have "same_config a2 a3" using reflect_extends [OF R] by (simp add: extends_def)
      moreover have "t_State t3 = StateFailed" using reflect_frame [OF R] refused_transition [of "record_step res t1" env i 8 EventStepFailed] f by simp
      ultimately have "same_config a0 a'" "t_State t' = StateFailed"
        using A R c2 f refused_transition [of "record_step res t1" env i 8] same_config_trans
        by (auto simp: after_step_def Let_def split: if_splits sum.splits)
      then show ?thesis by (simp add: ran_inv_def)
    next
      case False
      with I p obtain os0 where o: "ag_trace a = ag_trace a0 @ os0" "executions os0 = step_runs (ag_tools a0) (pl_Steps plan) i"
        "t_Steps t = step_results env a0 (pl_Steps plan) i" by (auto simp: ran_inv_def)
      let ?run = "if tools_Get (ps_Tool ?step) (ag_tools a1) = None then [] else [Executed i ?step]"
      have tools: "ag_tools a1 = ag_tools a0" using c0 c1 by (simp add: same_config_def)
      have "snd (executeStep env i ?step a1) = snd (executeStep env i ?step a0)" by (rule executeStep_config) (use c0 c1 same_config_trans in blast)
      then have res: "res = snd (executeStep env i ?step a0)" using E by simp
      show ?thesis
      proof (rule after_step_ran [OF A _ c2])
        show "ag_trace a2 = ag_trace a0 @ (os0 @ os @ ?run)" using es os(1) o(1) by simp
        show "executions (os0 @ os @ ?run) = step_runs (ag_tools a0) (pl_Steps plan) (Suc i)"
          using o(2) os(2) tools by (simp add: step_Suc) (simp add: executions_def)
        show "t_Steps t1 @ [res] = step_results env a0 (pl_Steps plan) (Suc i)" using gs o(3) res by (simp add: step_Suc)
      qed (use gs p in simp)
    qed
  next
    case GateSkip
    with S p G have e: "a' = a1" "t' = t1" by (auto simp: step_once_def split: if_splits)
    have "same_config a a1" using G GateSkip hitl_gate_skip by blast
    with e gs GateSkip c0 show ?thesis using same_config_trans by (auto simp: ran_inv_def)
  next
    case GateReject
    with S p G show ?thesis by (auto simp: step_once_def split: if_splits)
  qed
qed

lemma run_steps_ran:
  "run_steps env [i..<n] h a t = (a', t', h', (NextIter, j)) \<Longrightarrow> loop_inv i t \<Longrightarrow> t_Plan t = Some plan \<Longrightarrow> n \<le> length (pl_Steps plan) \<Longrightarrow> i \<le> n \<Longrightarrow>
     ran_inv env a0 i a t \<Longrightarrow> ran_inv env a0 n a' t'"
proof (induction "n - i" arbitrary: i h a t plan)
  case (Suc k)
  then have i: "i < n" and u: "[i..<n] = i # [Suc i..<n]" by (simp_all add: upt_rec)
  obtain a1 t1 h1 o1 where S: "step_once env i h a t = (a1, t1, h1, o1)" by (metis surj_pair)
  show ?case
  proof (cases "o1 = NextIter")
    case True
    with S Suc.prems u have r: "run_steps env [Suc i..<n] h1 a1 t1 = (a', t', h', (NextIter, j))" by simp
    have L: "loop_inv (Suc i) t1" using step_once_inv [OF S Suc.prems(2)] Suc.prems(3,4) i True by auto
    have R: "ran_inv env a0 (Suc i) a1 t1" using step_once_ran [of env i h a t a1 t1 h1 a0] S True Suc.prems i by auto
    from S True step_once_plan [of env i h a t a1 t1 h1 plan] Suc.prems(2-4) i obtain plan1 where
      p: "t_Plan t1 = Some plan1" "length (pl_Steps plan1) = length (pl_Steps plan)" by auto
    with Suc.hyps(1) [OF _ r L p(1) _ _ R] Suc.hyps(2) Suc.prems(4) i show ?thesis by auto
  next
    case False
    with S Suc.prems(1) u show ?thesis by (simp split: step_outcome.splits)
  qed
qed simp

lemma looped_ran:
  assumes "t_State t = StatePending" and "t_Steps t = []" and "t_RetryCount t = 0"
    and "planTask env m a ((fst (transition env N 0 EventStart t))\<lparr>t_StartedAt := s\<rparr>) = (a1, t3, Inr plan)"
    and "t4 = fst (transition env N 4 EventPlanReady (t3\<lparr>t_Plan := Some plan\<rparr>))"
  shows "ran_inv env a 0 a1 t4"
proof -
  obtain os where "same_config a a1" "ag_trace a1 = ag_trace a @ os" "executions os = []"
    using planTask_extends [OF assms(4)] talk_executions by (auto simp: extends_def)
  moreover have "t_Steps t4 = []" "t_Plan t4 = Some plan" using planTask_frame [OF assms(4)] assms(2,5) by simp_all
  ultimately show ?thesis by (auto simp: ran_inv_def step_runs_def step_results_def)
qed

subsection \<open>Properties: completion\<close>

text \<open>
  C3. What the reported status means: a task never panics on its plan; when it returns without an error its status is
  \<^verbatim>\<open>completed\<close>, \<^verbatim>\<open>failed\<close> or \<^verbatim>\<open>executing\<close>; and for a \<^verbatim>\<open>completed\<close> task the tools that ran are exactly those
  of the steps of its final plan, in their order (a step whose tool is not registered runs none), the recorded results are those of these
  steps, in their order, the last one is without an error, and fewer steps failed than the retry limit allows. (A task
  whose last step failed, or that ran out of tokens or iterations, returns \<^verbatim>\<open>executing\<close> and no error.)
\<close>

theorem completed_means_done:
  assumes "ExecuteTask env a t = (a', t', res, err)" and "t_Steps t = []" and "t_RetryCount t = 0"
  shows "err \<noteq> Some Panic \<and>
    (\<forall>r. res = Some r \<and> err = None \<longrightarrow>
       tres_Status r \<in> {''completed'', ''failed'', ''executing''} \<and>
       (tres_Status r = ''completed'' \<longrightarrow>
          (\<exists>plan os. t_Plan t' = Some plan \<and> tres_Steps r = pl_TotalSteps plan \<and> pl_TotalSteps plan = int (length (pl_Steps plan)) \<and>
             ag_trace a' = ag_trace a @ os \<and> executions os = step_runs (ag_tools a) (pl_Steps plan) (length (pl_Steps plan)) \<and>
             t_Steps t' = step_results env a (pl_Steps plan) (length (pl_Steps plan)) \<and>
             t_Steps t' \<noteq> [] \<and> sp_Error (last (t_Steps t')) = [] \<and> failures t' < max 1 (t_MaxRetries t'))))"
  using assms(1)
proof (cases rule: ExecuteTask_phases)
  case (looped a1 t3 plan t4 a2 t5 h out i)
  have L: "loop_inv 0 t4" "t_Plan t4 = Some plan" "wf_plan plan"
    using looped_start [OF looped(1) assms(2,3) looped(2,3)] by simp_all
  let ?n = "nat (min (ag_maxIter a1) (pl_TotalSteps plan))"
  have n: "?n \<le> length (pl_Steps plan)" using L(3) by (simp add: wf_plan_def)
  note s = run_steps_inv [OF looped(4) L(1,2) n]
  have "ran_inv env a 0 a1 t4" by (rule looped_ran [OF looped(1) assms(2,3) looped(2,3)])
  then have R: "ran_inv env a ?n a2 t5" if "out = NextIter" using run_steps_ran [OF _ L(1,2) n] looped(4) that by auto
  show ?thesis
  proof (cases "err = None")
    case True
    then obtain r where F: "finish_task env (nat (ag_maxIter a)) (ae_clk env (nat (ag_maxIter a)) 2) h a2 t5 = (a', t', r)"
      and r: "res = Some r" and o: "out = NextIter \<or> out = BreakLoop"
      using looped(5) by (cases out) auto
    have "t_State t5 = StateExecuting \<or> t_State t5 = StateFailed \<or> t_State t5 = StateReviewing \<and> loop_inv ?n t5 \<and> out = NextIter"
      using s o by (cases "t_State t5") (auto simp: loop_inv_def)
    then show ?thesis
    proof (elim disjE conjE)
      assume v: "t_State t5 = StateReviewing" "loop_inv ?n t5" "out = NextIter"
      obtain plan' os where P: "t_Plan t5 = Some plan'" "ag_trace a2 = ag_trace a @ os"
        "executions os = step_runs (ag_tools a) (pl_Steps plan') ?n" "t_Steps t5 = step_results env a (pl_Steps plan') ?n"
        using R [OF v(3)] v(1) by (auto simp: ran_inv_def)
      obtain os' where "ag_trace a' = ag_trace a2 @ os'" "executions os' = []"
        using finish_extends [OF F] talk_executions by (auto simp: extends_def)
      with P v True r finish_state [OF F] show ?thesis by (auto simp: loop_inv_def wf_plan_def failures_def)
    qed (use True r finish_state [OF F] in simp_all)
  qed (use looped(5) s in \<open>auto split: if_splits\<close>)
qed simp

subsection \<open>Instances\<close>

text \<open>
  An agent with one tool that needs approval, a backend whose answer is a plan with one step,
  and a queue that answers every checkpoint with the status \<open>st\<close>.
\<close>

definition demo_step :: llmPlanStep where
  "demo_step = \<lparr>lp_Tool = ''edit_file'', lp_Description = ''edit'', lp_Params = []\<rparr>"

definition demo_agent_env :: "string \<Rightarrow> (unit, unit) agent_env" where
  "demo_agent_env st =
     \<lparr>ae_clk = \<lambda>n k. int (n + k), ae_done = \<lambda>i. False, ae_order = \<lambda>n. [''edit_file''], ae_requires = \<lambda>i t p. True,
      ae_execute = \<lambda>i t p. Inr \<lparr>tr_Output = [], tr_Cost = 0, tr_Success = True, tr_Error = []\<rparr>, ae_submit = \<lambda>i e. Inr (e\<lparr>he_Status := st\<rparr>),
      ae_chat = \<lambda>n lt r. (r, Inr (sample_response\<lparr>rsp_Content := ''{}''\<rparr>)), ae_stream = \<lambda>n lt r. (r, Inl ''none''),
      ae_recall = \<lambda>u q l. None, ae_unmarshal = \<lambda>s. Some [demo_step], ae_marshal = \<lambda>m. ''{}'', ae_fmt4 = \<lambda>c. ''0''\<rparr>"

definition demo_agent :: "(unit, unit) Agent" where
  "demo_agent = SetHITLQueue True (NewAgent () (Register \<lparr>tl_Name = ''edit_file'', tl_Description = ''edits'', tl_impl = ()\<rparr> NewToolRegistry))"

definition demo_plan :: Plan where
  "demo_plan = \<lparr>pl_Steps = [\<lparr>ps_Index = 0, ps_Tool = ''edit_file'', ps_Description = ''edit'', ps_Params = []\<rparr>], pl_TotalSteps = 1\<rparr>"

lemmas demo_agent_defs = demo_agent_def demo_agent_env_def NewAgent_def SetHITLQueue_def Register_def NewToolRegistry_def

lemma demo_planTask:
  "\<exists>lt u. planTask (demo_agent_env st) m demo_agent t = (observe [AskedLLM lt] demo_agent, u, Inr demo_plan)"
proof -
  have "parsePlanFromResponse (\<lambda>s. Some [demo_step]) ''{}'' = Inr demo_plan"
    by (simp add: parsePlanFromResponse_def demo_plan_def demo_step_def strings_TrimSpace_def is_space_def strings_Index_def
        strings_LastIndex_def Let_def)
  then show ?thesis by (simp add: planTask_def Let_def ask_chat_def demo_agent_defs observe_def)
qed

definition demo_pending :: Task where
  "demo_pending = fresh_task\<lparr>t_Plan := None\<rparr>"

definition demo_entry :: HITLCheckpointEntry where
  "demo_entry = \<lparr>he_ID = ''cp-t1-0'', he_TaskID = ''t1'', he_UserID = ''u1'', he_OrgID = ''o1'', he_StepIndex = 0,
     he_Description = ''Step 0 requires human approval: edit'', he_Tool = ''edit_file'', he_Params = [],
     he_Options = [''approve'', ''reject'', ''modify''], he_Status = []\<rparr>"

text \<open>The loop of the instance, up to the answer of the queue.\<close>

lemma demo_gate:
  assumes "t_State t = StateExecuting" and "t_ID t = ''t1''" and "t_UserID t = ''u1''" and "t_OrgID t = ''o1''" and "ag_tools a = ag_tools demo_agent" and "ag_hitlQueue a"
  shows "\<exists>t'. hitl_gate (demo_agent_env st) 0 (pl_Steps demo_plan ! 0) a t =
    (observe [Submitted demo_entry (Inr (demo_entry\<lparr>he_Status := st\<rparr>))] a, t', if st = ''approve'' then GateProceed else GateReject)"
proof -
  have e: "checkpoint_entry u 0 (pl_Steps demo_plan ! 0) = demo_entry" if "t_ID u = ''t1''" "t_UserID u = ''u1''" "t_OrgID u = ''o1''" for u
    using that by (simp add: checkpoint_entry_def checkpoint_id_def checkpoint_text_def demo_entry_def demo_plan_def)
  have tool: "tools_Get (ps_Tool (pl_Steps demo_plan ! 0)) (ag_tools a) = Some \<lparr>tl_Name = ''edit_file'', tl_Description = ''edits'', tl_impl = ()\<rparr>"
    using assms(5) by (simp add: demo_plan_def demo_agent_defs tools_Get_def)
  have T: "\<exists>u. transition (demo_agent_env st) 0 1 EventHITLRequired v = (u, None) \<and> t_ID u = ''t1'' \<and> t_UserID u = ''u1'' \<and> t_OrgID u = ''o1''"
    if "t_State v = StateExecuting" "t_ID v = ''t1''" "t_UserID v = ''u1''" "t_OrgID v = ''o1''" for v
    using that transition_accepted [of "demo_agent_env st" 0 1 EventHITLRequired v] transition_frame(1,2,3) [of "demo_agent_env st" 0 1 EventHITLRequired v]
    by (metis ValidTransitions.simps(3) list.set_intros(1,2) prod.collapse)
  have "\<exists>t1. waitHITLDecision (demo_agent_env st) 0 (pl_Steps demo_plan ! 0) a u =
     (observe [Submitted demo_entry (Inr (demo_entry\<lparr>he_Status := st\<rparr>))] a, t1, st = ''approve'')"
    if "t_ID u = ''t1''" "t_UserID u = ''u1''" "t_OrgID u = ''o1''" for u
    using e [OF that] by (simp add: waitHITLDecision_def Let_def) (simp add: demo_agent_env_def demo_entry_def)
  note W = this
  have q: "ae_requires (demo_agent_env st) = (\<lambda>i t p. True)" by (simp add: demo_agent_env_def)
  define t1 where "t1 = t\<lparr>t_HITLRequired := True, t_HITLCheckpoint := Some \<lparr>cp_CheckpointID = checkpoint_id t 0,
    cp_Description = checkpoint_text 0 (pl_Steps demo_plan ! 0), cp_Options = [''approve'', ''reject'', ''modify''], cp_WaitingSince = ae_clk (demo_agent_env st) 0 0\<rparr>\<rparr>"
  from T [of t1] assms(1-4) obtain u where u: "transition (demo_agent_env st) 0 1 EventHITLRequired t1 = (u, None)" "t_ID u = ''t1''" "t_UserID u = ''u1''" "t_OrgID u = ''o1''"
    by (auto simp: t1_def)
  from W [OF u(2-4)] obtain t2 where w: "waitHITLDecision (demo_agent_env st) 0 (pl_Steps demo_plan ! 0) a u =
     (observe [Submitted demo_entry (Inr (demo_entry\<lparr>he_Status := st\<rparr>))] a, t2, st = ''approve'')" by blast
  from tool u(1) w assms(6) show ?thesis
    by (simp add: hitl_gate_def q Let_def t1_def [symmetric])
qed

lemma demo_loop:
  assumes "t_State t = StateExecuting" and "t_ID t = ''t1''" and "t_UserID t = ''u1''" and "t_OrgID t = ''o1''" and "ag_tools a = ag_tools demo_agent"
    and "ag_hitlQueue a" and "t_Plan t = Some demo_plan"
  shows "run_steps (demo_agent_env st) [0] h a t = (a', t', h', (out, j)) \<Longrightarrow>
    (if st = ''approve'' then (out = NextIter \<or> out = BreakLoop) \<and>
       ag_trace a' = ag_trace a @ [Submitted demo_entry (Inr (demo_entry\<lparr>he_Status := st\<rparr>)), Executed 0 (pl_Steps demo_plan ! 0)]
     else out = HumanRejected \<and> ag_trace a' = ag_trace a @ [Submitted demo_entry (Inr (demo_entry\<lparr>he_Status := st\<rparr>))])"
proof -
  assume R: "run_steps (demo_agent_env st) [0] h a t = (a', t', h', (out, j))"
  let ?b = "observe [Submitted demo_entry (Inr (demo_entry\<lparr>he_Status := st\<rparr>))] a" and ?s = "pl_Steps demo_plan ! 0"
  obtain u where G: "hitl_gate (demo_agent_env st) 0 ?s a (t\<lparr>t_CurrentStep := int 0\<rparr>) = (?b, u, if st = ''approve'' then GateProceed else GateReject)"
    using demo_gate [of "t\<lparr>t_CurrentStep := int 0\<rparr>" a st] assms by auto
  have len: "\<not> length (pl_Steps demo_plan) \<le> 0" by (simp add: demo_plan_def)
  have tool: "tools_Get (ps_Tool ?s) (ag_tools ?b) = Some \<lparr>tl_Name = ''edit_file'', tl_Description = ''edits'', tl_impl = ()\<rparr>"
    using assms(5) by (simp add: demo_plan_def demo_agent_defs tools_Get_def)
  obtain res where E: "executeStep (demo_agent_env st) 0 ?s ?b = (observe [Executed 0 ?s] ?b, res)" and err: "sp_Error res = []"
    using tool by (simp add: executeStep_def Let_def) (simp add: demo_agent_env_def)
  have A: "after_step (demo_agent_env st) 0 demo_plan ?s res h b v = (b', v', h'', o') \<Longrightarrow> b' = b \<and> (o' = NextIter \<or> o' = BreakLoop)" for b v b' v' h'' o'
    using err by (auto simp: after_step_def Let_def split: if_splits)
  have d: "\<not> ae_done (demo_agent_env st) 0" by (simp add: demo_agent_env_def)
  have S: "step_once (demo_agent_env st) 0 h a t =
    (if st = ''approve'' then after_step (demo_agent_env st) 0 demo_plan ?s res h (observe [Executed 0 ?s] ?b) u else (?b, u, h, HumanRejected))"
    using G E assms(7) len d by (simp add: step_once_def Let_def)
  obtain b' v' h'' o' where A': "after_step (demo_agent_env st) 0 demo_plan ?s res h (observe [Executed 0 ?s] ?b) u = (b', v', h'', o')" by (metis surj_pair)
  show ?thesis using R S A' A [OF A'] by (auto split: step_outcome.splits)
qed

lemma demo_execution:
  "\<exists>a' t' r err lt ys. ExecuteTask (demo_agent_env st) demo_agent demo_pending = (a', t', Some r, err) \<and>
     (err = None \<longleftrightarrow> st = ''approve'') \<and> list_all talk ys \<and>
     ag_trace a' = [AskedLLM lt, Submitted demo_entry (Inr (demo_entry\<lparr>he_Status := st\<rparr>))] @
       (if st = ''approve'' then Executed 0 (pl_Steps demo_plan ! 0) # ys else [])"
proof -
  obtain a' t' res err where X: "ExecuteTask (demo_agent_env st) demo_agent demo_pending = (a', t', res, err)" by (metis surj_pair)
  from X show ?thesis
  proof (cases rule: ExecuteTask_phases)
    case not_started
    then show ?thesis by (simp add: demo_pending_def fresh_task_def)
  next
    case (looped a1 t3 plan t4 a2 t5 h out i)
    from demo_planTask looped(2) obtain lt where a1: "a1 = observe [AskedLLM lt] demo_agent" and pl: "plan = demo_plan"
      by (metis (no_types, lifting) prod.inject sum.inject(2))
    have t3: "t_State t3 = StatePlanning" "t_ID t3 = ''t1''" "t_UserID t3 = ''u1''"
      using planTask_frame [OF looped(2)] by (simp_all add: transition_state Transition_def demo_pending_def fresh_task_def)
    have o3: "t_OrgID t3 = ''o1''"
      using looped(2) by (auto simp: planTask_def Let_def demo_pending_def fresh_task_def split: if_splits prod.splits sum.splits)
    have t4: "t_State t4 = StateExecuting" "t_ID t4 = ''t1''" "t_UserID t4 = ''u1''" "t_OrgID t4 = ''o1''" "t_Plan t4 = Some demo_plan"
      using t3 o3 looped(3) pl by (simp_all add: transition_state Transition_def)
    have "[0..<nat (min (ag_maxIter a1) (pl_TotalSteps plan))] = [0]" by (simp add: a1 pl demo_plan_def demo_agent_defs)
    with looped(4) have R: "run_steps (demo_agent_env st) [0] (first_messages (demo_agent_env st) (nat (ag_maxIter demo_agent)) a1 t4) a1 t4 = (a2, t5, h, (out, i))" by simp
    have q: "ag_tools a1 = ag_tools demo_agent" "ag_hitlQueue a1" "ag_trace a1 = [AskedLLM lt]" by (simp_all add: a1 demo_agent_defs)
    note L = demo_loop [OF t4(1-4) q(1,2) t4(5) R]
    show ?thesis
    proof (cases "st = ''approve''")
      case True
      with L looped(5) obtain r where F: "finish_task (demo_agent_env st) (nat (ag_maxIter demo_agent)) (ae_clk (demo_agent_env st) (nat (ag_maxIter demo_agent)) 2) h a2 t5 = (a', t', r)"
        and r: "res = Some r" "err = None" by (auto split: if_splits)
      from finish_extends [OF F] obtain ys where "ag_trace a' = ag_trace a2 @ ys" "list_all talk ys" by (auto simp: extends_def)
      with X r L True q show ?thesis by auto
    next
      case False
      with X L looped(5) q show ?thesis by (auto intro: exI [of _ "[]"])
    qed
  qed
qed

theorem no_unapproved_action_witness:
  "\<exists>a' t' r lt ys. ExecuteTask (demo_agent_env ''approve'') demo_agent demo_pending = (a', t', Some r, None) \<and>
     ag_trace a' = [AskedLLM lt, Submitted demo_entry (Inr (demo_entry\<lparr>he_Status := ''approve''\<rparr>))] @ Executed 0 (pl_Steps demo_plan ! 0) # ys \<and>
     approval_of ''t1'' ''u1'' 0 (pl_Steps demo_plan ! 0) (Submitted demo_entry (Inr (demo_entry\<lparr>he_Status := ''approve''\<rparr>)))"
proof -
  obtain a' t' r lt ys where X: "ExecuteTask (demo_agent_env ''approve'') demo_agent demo_pending = (a', t', Some r, None)"
    "ag_trace a' = [AskedLLM lt, Submitted demo_entry (Inr (demo_entry\<lparr>he_Status := ''approve''\<rparr>))] @ Executed 0 (pl_Steps demo_plan ! 0) # ys"
    using demo_execution [of "''approve''"] by auto
  have "needs_approval (demo_agent_env ''approve'') (ag_tools demo_agent) 0 (pl_Steps demo_plan ! 0)"
    by (simp add: needs_approval_def demo_agent_defs demo_plan_def tools_Get_def)
  with no_unapproved_action [OF X(1) _ _ X(2)] X show ?thesis
    by (simp add: demo_pending_def fresh_task_def demo_agent_defs)
qed

theorem rejection_final_witness:
  "\<exists>a' t' r i msg. ExecuteTask (demo_agent_env ''modify'') demo_agent demo_pending = (a', t', Some r, Some (RejectedByHuman i msg)) \<and>
     t_State t' = StateFailed"
proof -
  obtain a' t' r err lt where X: "ExecuteTask (demo_agent_env ''modify'') demo_agent demo_pending = (a', t', Some r, err)"
    "ag_trace a' = [AskedLLM lt, Submitted demo_entry (Inr (demo_entry\<lparr>he_Status := ''modify''\<rparr>))]"
    using demo_execution [of "''modify''"] by auto
  from rejection_final [OF X(1), of "Submitted demo_entry (Inr (demo_entry\<lparr>he_Status := ''modify''\<rparr>))"] X show ?thesis
    by (auto simp: refused_def demo_agent_defs demo_pending_def fresh_task_def)
qed

lemma demo_status:
  "map_option tres_Status (fst (snd (snd (ExecuteTask (demo_agent_env ''approve'') demo_agent demo_pending)))) = Some ''completed''"
  by code_simp

theorem completed_means_done_witness:
  "\<exists>a' t' r. ExecuteTask (demo_agent_env ''approve'') demo_agent demo_pending = (a', t', Some r, None) \<and>
     tres_Status r = ''completed'' \<and> executions (ag_trace a') = [Executed 0 (pl_Steps demo_plan ! 0)] \<and> length (t_Steps t') = 1 \<and>
     (\<exists>plan. t_Plan t' = Some plan \<and> executions (ag_trace a') = step_runs (ag_tools demo_agent) (pl_Steps plan) (length (pl_Steps plan)))"
proof -
  obtain a' t' r lt ys where X: "ExecuteTask (demo_agent_env ''approve'') demo_agent demo_pending = (a', t', Some r, None)"
    and ys: "list_all talk ys" "ag_trace a' = [AskedLLM lt, Submitted demo_entry (Inr (demo_entry\<lparr>he_Status := ''approve''\<rparr>)), Executed 0 (pl_Steps demo_plan ! 0)] @ ys"
    using demo_execution [of "''approve''"] by auto
  have ex: "executions (ag_trace a') = [Executed 0 (pl_Steps demo_plan ! 0)]" using ys talk_executions [OF ys(1)] by (simp add: executions_def)
  have st: "tres_Status r = ''completed''" using demo_status X by simp
  have "ag_trace demo_agent = []" by (simp add: demo_agent_defs)
  then obtain plan where P: "t_Plan t' = Some plan" "executions (ag_trace a') = step_runs (ag_tools demo_agent) (pl_Steps plan) (length (pl_Steps plan))"
    "t_Steps t' = step_results (demo_agent_env ''approve'') demo_agent (pl_Steps plan) (length (pl_Steps plan))" "tres_Steps r = pl_TotalSteps plan"
    "pl_TotalSteps plan = int (length (pl_Steps plan))"
    using completed_means_done [OF X] st by (auto simp: demo_pending_def fresh_task_def)
  moreover have "map_option tres_Steps (fst (snd (snd (ExecuteTask (demo_agent_env ''approve'') demo_agent demo_pending)))) = Some 1" by code_simp
  ultimately have "length (t_Steps t') = 1" using X by (simp add: step_results_def)
  with X st ex P show ?thesis by blast
qed

end
