(* ===== verification/Agent_Charging.thy ===== *)
theory Agent_Charging
  imports Agent_Props Router_Props
begin

text \<open>
  The agent on top of the model router: \<open>router_chat\<close> and \<open>router_stream\<close> are the two calls the
  agent makes, \<^verbatim>\<open>ExecuteWithFailover\<close> and \<^verbatim>\<open>StreamWithFailover\<close>. The locale \<open>charging\<close> is what the agent
  relies on for the accounting of its requests: a request changes no other account than those
  of its own organization and task. The router model provides it (interpretation \<open>on_router\<close>).
\<close>

lemma hitl_gate_frame:
  assumes "hitl_gate env i step a t = (a', t', out)"
  shows "ag_router a' = ag_router a \<and> t_ID t' = t_ID t"
proof -
  have "t_ID u = t_ID t" if "transition env i 1 EventHITLRequired (t\<lparr>t_HITLRequired := True, t_HITLCheckpoint := c\<rparr>) = (u, e)" for u e c
    using transition_frame(1) [of env i 1 EventHITLRequired "t\<lparr>t_HITLRequired := True, t_HITLCheckpoint := c\<rparr>"] unfolding that by simp
  moreover have "ag_router b = ag_router a \<and> t_ID v = t_ID u" if "waitHITLDecision env i step a u = (b, v, ok)" for u b v ok
    using that by (auto simp: waitHITLDecision_def Let_def split: if_splits sum.splits)
  ultimately show ?thesis
    using assms by (auto simp del: One_nat_def simp: hitl_gate_def Let_def split: option.splits if_splits prod.splits)
qed

lemma storeMemory_router [simp]: "ag_router (storeMemory env t a) = ag_router a"
  by (simp add: storeMemory_def Let_def)

subsection \<open>The interface\<close>

locale charging =
  fixes chat :: "nat \<Rightarrow> LlmTask \<Rightarrow> 'r \<Rightarrow> 'r \<times> (string + ChatResponse)"
    and stream :: "nat \<Rightarrow> LlmTask \<Rightarrow> 'r \<Rightarrow> 'r \<times> (string + StreamResult \<times> ChatChunk list)"
    and account :: "'r \<Rightarrow> string \<Rightarrow> f64"
    and ready :: "'r \<Rightarrow> bool"
  assumes chat_ready: "ready r \<Longrightarrow> ready (fst (chat n lt r))"
    and stream_ready: "ready r \<Longrightarrow> ready (fst (stream n lt r))"
    and chat_account: "ready r \<Longrightarrow> k \<noteq> ''org:'' @ tk_OrgID lt \<Longrightarrow> k \<noteq> ''task:'' @ tk_ID lt \<Longrightarrow> account (fst (chat n lt r)) k = account r k"
    and stream_account: "ready r \<Longrightarrow> k \<noteq> ''org:'' @ tk_OrgID lt \<Longrightarrow> k \<noteq> ''task:'' @ tk_ID lt \<Longrightarrow> account (fst (stream n lt r)) k = account r k"
begin

definition uses :: "('t, 'r) agent_env \<Rightarrow> bool" where
  "uses env \<longleftrightarrow> ae_chat env = chat \<and> ae_stream env = stream"

text \<open>The accounts an agent running task \<open>tid\<close> can change.\<close>

definition own :: "string \<Rightarrow> string set" where
  "own tid = {''org:'', ''task:'', ''task:'' @ tid}"

definition keeps :: "string \<Rightarrow> ('t, 'r) Agent \<Rightarrow> ('t, 'r) Agent \<Rightarrow> bool" where
  "keeps tid a a' \<longleftrightarrow> (ready (ag_router a) \<longrightarrow> ready (ag_router a') \<and> (\<forall>k. k \<notin> own tid \<longrightarrow> account (ag_router a') k = account (ag_router a) k))"

lemma keeps_refl [simp]: "keeps tid a a" by (simp add: keeps_def)

lemma keeps_trans: "keeps tid a b \<Longrightarrow> keeps tid b c \<Longrightarrow> keeps tid a c" by (auto simp: keeps_def)

lemma keeps_same: "ag_router a' = ag_router a \<Longrightarrow> keeps tid a a'" by (simp add: keeps_def)

lemma ask_stream_keeps:
  assumes "uses env" and "ask_stream env n i lt a = (a', x)" and "tk_OrgID lt = []" and "tk_ID lt = [] \<or> tk_ID lt = tid"
  shows "keeps tid a a'"
proof -
  have "ag_router a' = fst (stream n lt (ag_router a))"
    using assms(1,2) by (auto simp: uses_def ask_stream_def split: prod.splits sum.splits)
  then show ?thesis using assms(3,4) stream_ready [of "ag_router a" n lt] stream_account [of "ag_router a" _ lt n] by (auto simp: keeps_def own_def)
qed

lemma ask_chat_keeps:
  assumes "uses env" and "ask_chat env n lt a = (a', x)" and "tk_OrgID lt = []" and "tk_ID lt = [] \<or> tk_ID lt = tid"
  shows "keeps tid a a'"
proof -
  have "ag_router a' = fst (chat n lt (ag_router a))"
    using assms(1,2) by (auto simp: uses_def ask_chat_def split: prod.splits)
  then show ?thesis using assms(3,4) chat_ready [of "ag_router a" n lt] chat_account [of "ag_router a" _ lt n] by (auto simp: keeps_def own_def)
qed

lemma planTask_keeps: "uses env \<Longrightarrow> planTask env m a t = (a', t', p) \<Longrightarrow> keeps (t_ID t) a a'"
  by (auto simp: planTask_def Let_def intro: ask_stream_keeps ask_chat_keeps split: if_splits prod.splits sum.splits)

lemma reflect_keeps: "uses env \<Longrightarrow> reflectOnFailure env n h p a t = (a', t', x) \<Longrightarrow> keeps (t_ID t) a a'"
  by (auto simp: reflectOnFailure_def Let_def intro: ask_stream_keeps ask_chat_keeps split: if_splits prod.splits sum.splits)

lemma buildResult_keeps: "uses env \<Longrightarrow> buildResult env n i h a = (a', x) \<Longrightarrow> keeps tid a a'"
  by (auto simp: buildResult_def Let_def intro: ask_stream_keeps ask_chat_keeps split: if_splits prod.splits sum.splits)

lemma finish_keeps: "uses env \<Longrightarrow> finish_task env N s h a t = (a', t', r) \<Longrightarrow> keeps tid a a'"
  by (auto simp: finish_task_def Let_def intro: keeps_trans [OF buildResult_keeps keeps_same] buildResult_keeps split: if_splits prod.splits)

lemma step_once_keeps:
  assumes u: "uses env" and S: "step_once env i h a t = (a', t', h', out)"
  shows "keeps (t_ID t) a a' \<and> t_ID t' = t_ID t"
proof (cases "t_Plan t")
  case None
  with S show ?thesis by (auto simp: step_once_def split: if_splits)
next
  case (Some plan)
  let ?step = "pl_Steps plan ! i" and ?t = "t\<lparr>t_CurrentStep := int i\<rparr>"
  obtain a1 t1 g where G: "hitl_gate env i ?step a ?t = (a1, t1, g)" by (metis surj_pair)
  have r1: "ag_router a1 = ag_router a" "t_ID t1 = t_ID t" using hitl_gate_frame [OF G] by simp_all
  obtain a2 res where E: "executeStep env i ?step a1 = (a2, res)" by fastforce
  have r2: "ag_router a2 = ag_router a" using E r1 by (auto simp: executeStep_def Let_def split: option.splits sum.splits)
  let ?u = "fst (transition env i 8 EventStepFailed (record_step res t1))"
  obtain a3 t3 x where R: "reflectOnFailure env (Suc i) (h @ step_messages env i ?step res) plan a2 ?u = (a3, t3, x)" by (metis surj_pair)
  have r3: "keeps (t_ID t) a2 a3" "t_ID t3 = t_ID t" using reflect_keeps [OF u R] reflect_frame [OF R] r1 by simp_all
  have "(a' = a \<or> a' = a1 \<or> a' = a2 \<or> a' = a3) \<and> t_ID t' = t_ID t"
    using S Some G E R r1 r3 by (auto simp: step_once_def after_step_def Let_def split: if_splits gate_outcome.splits sum.splits)
  then show ?thesis using r1 r2 r3 keeps_same [of a2 a "t_ID t"] keeps_same [of a1 a "t_ID t"] by (auto intro: keeps_trans)
qed

lemma run_steps_keeps:
  "uses env \<Longrightarrow> run_steps env is h a t = (a', t', h', out) \<Longrightarrow> keeps (t_ID t) a a' \<and> t_ID t' = t_ID t"
proof (induction "is" arbitrary: h a t)
  case (Cons i "is")
  obtain a1 t1 h1 o1 where S: "step_once env i h a t = (a1, t1, h1, o1)" by (metis surj_pair)
  from step_once_keeps [OF Cons.prems(1) S] S Cons.prems Cons.IH [of h1 a1 t1] show ?case
    by (auto split: step_outcome.splits intro: keeps_trans)
qed simp

text \<open>An execution of a task changes only the accounts in \<open>own\<close>.\<close>

lemma ExecuteTask_keeps:
  assumes u: "uses env" and X: "ExecuteTask env a t = (a', t', res, err)"
  shows "keeps (t_ID t) a a'"
  using X
proof (cases rule: ExecuteTask_phases)
  case not_started
  then show ?thesis by simp
next
  case (looped a1 t3 plan t4 a2 t5 h out i)
  have 1: "keeps (t_ID t) a a1" using planTask_keeps [OF u looped(2)] by simp
  have "t_ID t4 = t_ID t" using planTask_frame [OF looped(2)] looped(3) by simp
  with run_steps_keeps [OF u looped(4)] have 2: "keeps (t_ID t) a1 a2" by simp
  have "a' = a2 \<or> keeps (t_ID t) a2 a'" using looped(5) finish_keeps [OF u] by (auto split: if_splits)
  with 1 2 show ?thesis by (auto intro: keeps_trans)
qed

end

subsection \<open>The router provides it\<close>

text \<open>What a router operation may do to the accounts when it works for \<open>lt\<close>.\<close>

definition charges :: "LlmTask \<Rightarrow> 'p ModelRouter \<Rightarrow> 'p ModelRouter \<Rightarrow> bool" where
  "charges lt r r' \<longleftrightarrow> (budget_settled r \<longrightarrow> budget_settled r' \<and>
     (\<forall>k. k \<noteq> ''org:'' @ tk_OrgID lt \<longrightarrow> k \<noteq> ''task:'' @ tk_ID lt \<longrightarrow> spent r' k = spent r k))"

lemma charges_settled: "charges lt r r' \<Longrightarrow> budget_settled r \<Longrightarrow> budget_settled r'" by (simp add: charges_def)

lemma charges_spent:
  "charges lt r r' \<Longrightarrow> budget_settled r \<Longrightarrow> k \<noteq> ''org:'' @ tk_OrgID lt \<Longrightarrow> k \<noteq> ''task:'' @ tk_ID lt \<Longrightarrow> spent r' k = spent r k"
  unfolding charges_def by blast

lemma charges_refl [simp]: "charges lt r r" by (simp add: charges_def)

lemma charges_trans: "charges lt r s \<Longrightarrow> charges lt s u \<Longrightarrow> charges lt r u" by (auto simp: charges_def)

lemma charges_cong: "mr_budget r' = mr_budget r \<Longrightarrow> charges lt r r'" by (simp add: charges_def budget_settled_def spent_def)

lemma charges_gate: "budget_gate ev lt opt r = (r', e) \<Longrightarrow> charges lt r r'"
proof -
  assume g: "budget_gate ev lt opt r = (r', e)"
  have "budget_settled r'" if s: "budget_settled r"
  proof -
    from s obtain b where b: "mr_budget r = Some b" "bm_loaded b \<or> bm_store b = None" by (cases "mr_budget r") (auto simp: budget_settled_def)
    have "bm_loaded (fst (CheckBudget ok og t p b)) = bm_loaded b \<and> bm_store (fst (CheckBudget ok og t p b)) = bm_store b" for ok og t p
      using ensureLoaded_settled [OF b(2)] by (simp add: CheckBudget_def Let_def notifyExceeded_def)
    moreover have "r' = r\<lparr>mr_budget := Some (fst (CheckBudget (ev_load_ok ev) (tk_OrgID lt) (tk_ID lt) (fo_EstCost opt) b))\<rparr>"
      using g b(1) by (simp add: budget_gate_def split: prod.splits)
    ultimately show ?thesis using b(2) by (simp add: budget_settled_def)
  qed
  with budget_gate_spent(1) [OF _ g] show ?thesis by (simp add: charges_def)
qed

lemma charges_record: "charges lt r (budget_record ev lt c r)"
proof (cases "mr_budget r")
  case (Some b)
  then show ?thesis using spent_budget_record [of r ev lt c]
    by (auto simp: charges_def budget_settled_def budget_record_def RecordCost_def Let_def split: option.splits)
qed (simp add: charges_def budget_settled_def)

lemma attempt_charges: "charges lt r (fst (attempt ev lt opt r))"
proof -
  obtain r' res where a: "attempt ev lt opt r = (r', res)" by fastforce
  then have "charges lt r r'"
  proof (cases rule: attempt_cases)
    case (hit p resp)
    then show ?thesis using cache_lookup_frame(4) [OF hit(3)] by (intro charges_cong)
  next
    case (refused p r1 be)
    show ?thesis by (rule charges_trans [OF charges_cong [OF cache_lookup_frame(4) [OF refused(3)]] charges_gate [OF refused(4)]])
  next
    case (failed p r1 r2 e)
    have "charges lt r2 r'" by (rule charges_cong) (simp add: failed(7))
    with charges_trans [OF charges_cong [OF cache_lookup_frame(4) [OF failed(3)]] charges_gate [OF failed(4)]] show ?thesis by (rule charges_trans)
  next
    case (answered p r1 r2 r4 resp)
    have "charges lt r2 r4" by (rule charges_cong) (simp add: answered(7))
    moreover have "charges lt (budget_record ev lt (rsp_Cost resp) r4) r'" by (rule charges_cong) (simp add: answered(8))
    ultimately have "charges lt r2 r'" using charges_record by (blast intro: charges_trans)
    with charges_trans [OF charges_cong [OF cache_lookup_frame(4) [OF answered(3)]] charges_gate [OF answered(4)]] show ?thesis by (rule charges_trans)
  qed simp_all
  with a show ?thesis by simp
qed

lemma try_attempts_charges: "charges lt r (fst (try_attempts evs lt i as le r))"
proof (induction evs lt i as le r rule: try_attempts.induct)
  case (2 evs task i a as le r)
  obtain r' res where a: "attempt (evs i) task a r = (r', res)" by fastforce
  with attempt_charges [of task r "evs i" a] have "charges task r r'" by simp
  with a "2.IH" show ?case by (auto split: sum.split intro: charges_trans)
qed simp

lemma ExecuteWithFailover_charges: "charges lt r (fst (ExecuteWithFailover evs ks pk mk lt r))"
proof (cases "Route ks lt r")
  case (Some d)
  obtain r1 x where 1: "try_attempts evs lt 0 (ranked_attempts d) None r = (r1, x)" by fastforce
  have c1: "charges lt r r1" using try_attempts_charges [of lt r evs 0 "ranked_attempts d" None] 1 by simp
  show ?thesis
  proof (cases x)
    case (Inl le)
    obtain r2 y where 2: "try_attempts evs lt (length (ranked_attempts d)) (remaining_attempts pk mk (ranked_attempts d) r1) le r1 = (r2, y)" by fastforce
    then have "charges lt r1 r2" using try_attempts_charges [of lt r1] by (metis fst_conv)
    with c1 1 2 Inl Some show ?thesis by (auto simp: ExecuteWithFailover_def Let_def split: sum.split intro: charges_trans)
  qed (use c1 1 Some in \<open>simp add: ExecuteWithFailover_def Let_def\<close>)
qed (simp add: ExecuteWithFailover_def)

lemma streamAttempt_charges: "charges lt r (fst (streamAttempt ev lt opt r))"
proof -
  obtain r1 e where G: "budget_gate ev lt opt r = (r1, e)" by fastforce
  have c: "charges lt r1 (breaker_Execute n n' x p (r1\<lparr>mr_health := h\<rparr>))" for n n' x p h by (rule charges_cong) simp
  show ?thesis using charges_gate [OF G] c
    by (auto simp: streamAttempt_def G Let_def split: option.split sum.split intro: charges_trans)
qed

lemma try_streams_charges: "charges lt r (fst (try_streams evs lt i as r))"
proof (induction evs lt i as r rule: try_streams.induct)
  case (2 evs task i a as r)
  obtain r' res where a: "streamAttempt (evs i) task a r = (r', res)" by fastforce
  with streamAttempt_charges [of task r "evs i" a] have "charges task r r'" by simp
  with a "2.IH" show ?case by (auto split: sum.split intro: charges_trans)
qed simp

lemma stream_settle_charges: "charges lt r (fst (stream_settle ev tbl t0 lt opt es r))"
proof -
  have 1: "charges lt r (breaker_Execute n n' x p (r\<lparr>mr_health := h\<rparr>))" for n n' x p h by (rule charges_cong) simp
  show ?thesis using 1 charges_record [of lt _ ev]
    by (auto simp: stream_settle_def Let_def split: prod.split intro: charges_trans [OF 1 charges_record])
qed

text \<open>
  The two calls of the agent, the \<open>n\<close>-th one with its own environments and iteration orders.
  For a streamed answer the goroutine behind the channel has settled by the time the agent has
  read it.
\<close>

record 'p router_world =
  rw_evs :: "nat \<Rightarrow> nat \<Rightarrow> 'p call_env"
  rw_ks :: "nat \<Rightarrow> string list"
  rw_pk :: "nat \<Rightarrow> string list"
  rw_mk :: "nat \<Rightarrow> string \<Rightarrow> string list"
  rw_tbl :: "nat \<Rightarrow> (string, ModelInfo) gomap"

definition router_chat :: "'p router_world \<Rightarrow> nat \<Rightarrow> LlmTask \<Rightarrow> 'p ModelRouter \<Rightarrow> 'p ModelRouter \<times> (string + ChatResponse)" where
  "router_chat w n lt r =
     (case ExecuteWithFailover (rw_evs w n) (rw_ks w n) (rw_pk w n) (rw_mk w n) lt r of
        (r', Inl err) \<Rightarrow> (r', Inl (case err of RoutingFailed \<Rightarrow> ''routing failed''
                                     | AllProvidersFailed tid e \<Rightarrow> ''all providers failed for task '' @ tid))
      | (r', Inr resp) \<Rightarrow> (r', Inr resp))"

definition router_stream ::
  "'p router_world \<Rightarrow> nat \<Rightarrow> LlmTask \<Rightarrow> 'p ModelRouter \<Rightarrow> 'p ModelRouter \<times> (string + StreamResult \<times> ChatChunk list)" where
  "router_stream w n lt r =
     (case StreamWithFailover (rw_evs w n) (rw_ks w n) lt r of
        (r', Inl err) \<Rightarrow> (r', Inl (case err of RoutingFailed \<Rightarrow> ''routing failed''
                                     | AllProvidersFailed tid e \<Rightarrow> ''all providers failed to stream for task '' @ tid))
      | (r', Inr sr) \<Rightarrow>
          let ch = sr_Ch sr; ev = rw_evs w n (sc_attempt ch)
          in case stream_settle ev (rw_tbl w n) (ev_clk ev 0) lt (sc_opt ch) (sc_events ch) r' of
               (r'', sent) \<Rightarrow> (r'', Inr (sr, sent)))"

lemma router_chat_charges: "charges lt r (fst (router_chat w n lt r))"
  using ExecuteWithFailover_charges [of lt r "rw_evs w n" "rw_ks w n" "rw_pk w n" "rw_mk w n"]
  by (auto simp: router_chat_def split: prod.splits sum.splits)

lemma router_stream_charges: "charges lt r (fst (router_stream w n lt r))"
proof -
  obtain r' x where S: "StreamWithFailover (rw_evs w n) (rw_ks w n) lt r = (r', x)" by fastforce
  have "charges lt r (fst (StreamWithFailover (rw_evs w n) (rw_ks w n) lt r))"
    using try_streams_charges [of lt r "rw_evs w n" 0]
    by (auto simp: StreamWithFailover_def split: option.split prod.split) (metis fst_conv)+
  then have c: "charges lt r r'" using S by simp
  show ?thesis
  proof (cases x)
    case (Inr sr)
    let ?ev = "rw_evs w n (sc_attempt (sr_Ch sr))"
    have "fst (router_stream w n lt r) = fst (stream_settle ?ev (rw_tbl w n) (ev_clk ?ev 0) lt (sc_opt (sr_Ch sr)) (sc_events (sr_Ch sr)) r')"
      by (simp add: router_stream_def S Inr Let_def split: prod.split)
    with c stream_settle_charges show ?thesis by (metis charges_trans)
  qed (use c S in \<open>simp add: router_stream_def\<close>)
qed

interpretation on_router: charging "router_chat w" "router_stream w" spent budget_settled
  by unfold_locales
    (rule charges_settled [OF router_chat_charges] charges_settled [OF router_stream_charges]
          charges_spent [OF router_chat_charges] charges_spent [OF router_stream_charges]; assumption)+

subsection \<open>Properties\<close>

text \<open>
  What running a task on the router charges: only the account of the task itself and the
  accounts with an empty name can change. In particular the spend of the organization that
  owns the task is never increased, because none of the agent's requests names it.
\<close>

theorem agent_charges_no_organization:
  assumes "ae_chat env = router_chat w" and "ae_stream env = router_stream w"
    and "budget_settled (ag_router a)" and "ExecuteTask env a t = (a', t', res, err)"
    and "k \<noteq> ''org:''" and "k \<noteq> ''task:''" and "k \<noteq> ''task:'' @ t_ID t"
  shows "spent (ag_router a') k = spent (ag_router a) k"
proof -
  have "on_router.uses w env" using assms(1,2) by (simp add: on_router.uses_def)
  from on_router.ExecuteTask_keeps [OF this assms(4)] assms(3,5-7) show ?thesis
    by (auto simp: on_router.keeps_def on_router.own_def)
qed

text \<open>Instance: a task of organization \<open>o1\<close> on a router with one provider that charges 1 per answer, planned by that provider.\<close>

definition demo_world :: "unit router_world" where
  "demo_world = \<lparr>rw_evs = \<lambda>n i. demo_env (Inr sample_response), rw_ks = \<lambda>n. [''openai''], rw_pk = \<lambda>n. [''openai''],
     rw_mk = \<lambda>n p. [''gpt-4o-mini''], rw_tbl = \<lambda>n. PriceTable\<rparr>"

definition charged_env :: "(unit, unit ModelRouter) agent_env" where
  "charged_env =
     \<lparr>ae_clk = \<lambda>n k. int (n + k), ae_done = \<lambda>i. False, ae_order = \<lambda>n. [''edit_file''], ae_requires = \<lambda>i t p. True,
      ae_execute = \<lambda>i t p. Inr \<lparr>tr_Output = [], tr_Cost = 0, tr_Success = True, tr_Error = []\<rparr>, ae_submit = \<lambda>i e. Inr (e\<lparr>he_Status := ''approve''\<rparr>),
      ae_chat = router_chat demo_world, ae_stream = router_stream demo_world,
      ae_recall = \<lambda>u q l. None, ae_unmarshal = \<lambda>s. Some [demo_step], ae_marshal = \<lambda>m. ''{}'', ae_fmt4 = \<lambda>c. ''0''\<rparr>"

definition charged_agent :: "(unit, unit ModelRouter) Agent" where
  "charged_agent = NewAgent (demo_router\<lparr>mr_budget := Some (NewBudgetManager None 0 0)\<rparr>) NewToolRegistry"

theorem agent_charges_no_organization_witness:
  "spent (ag_router (fst (ExecuteTask charged_env charged_agent demo_pending))) ''org:o1'' = 0 \<and> t_OrgID demo_pending = ''o1''"
proof -
  obtain a' t' res err where X: "ExecuteTask charged_env charged_agent demo_pending = (a', t', res, err)" by (metis surj_pair)
  have "ae_chat charged_env = router_chat demo_world" "ae_stream charged_env = router_stream demo_world"
    "budget_settled (ag_router charged_agent)"
    by (simp_all add: charged_env_def charged_agent_def NewAgent_def budget_settled_def NewBudgetManager_def)
  from agent_charges_no_organization [OF this X, of "''org:o1''"] X show ?thesis
    by (simp add: demo_pending_def fresh_task_def charged_agent_def NewAgent_def spent_def NewBudgetManager_def amount_def)
qed

end
