(* ===== verification/HITL_Queue.thy ===== *)
theory HITL_Queue
  imports Llm_Types
begin

text \<open>
  The approval queue of \<^verbatim>\<open>internal/middleware/hitl.go\<close>. Entries are shared by reference between the
  queue, the blocked \<^verbatim>\<open>Submit\<close> calls and the HTTP handlers, so they live in a heap
  (\<open>hq_heap\<close>, addresses are numbers) and the pending map holds addresses. \<^verbatim>\<open>decisionCh\<close> is made by
  \<^verbatim>\<open>Submit\<close> and \<open>en_decisionCh\<close> says it was made, \<open>en_decisionClosed\<close> that it is
  closed.

  Every operation that takes the mutex more than once is split at its critical sections, and
  the interleavings of submitters, handlers, the expiry checker and time-outs are the step
  relation \<open>hq_step\<close>. Redis is written and never read by the queue; its two keys are kept
  in \<open>hq_redis\<close>, with an argument \<open>rok\<close> saying which commands reach it. Metrics and logging are
  left out.
\<close>

record HITLEntry =
  en_ID :: string
  en_TaskID :: string
  en_UserID :: string
  en_OrgID :: string
  en_StepIndex :: int
  en_Description :: string
  en_Tool :: string
  en_Params :: "(string \<times> json) list"
  en_Options :: "string list"
  en_Status :: string
  en_Decision :: string
  en_ModifiedData :: string
  en_CreatedAt :: gotime
  en_DecidedAt :: "gotime option"
  en_ExpiresAt :: gotime
  en_decisionCh :: bool
  en_decisionClosed :: bool

record redis_hitl =
  rh_entries :: "(string, HITLEntry) gomap"
  rh_pending :: "string list"

record HITLQueue =
  hq_heap :: "(nat, HITLEntry) gomap"
  hq_pending :: "(string, nat) gomap"
  hq_timeout :: duration
  hq_callback :: "HITLEntry list option"
  hq_redis :: "redis_hitl option"
  hq_checking :: bool

definition NewHITLQueue :: "redis_hitl option \<Rightarrow> duration \<Rightarrow> HITLQueue" where
  "NewHITLQueue client timeout = \<lparr>hq_heap = [], hq_pending = [], hq_timeout = timeout, hq_callback = None, hq_redis = client, hq_checking = True\<rparr>"

text \<open>\<^verbatim>\<open>Close\<close> stops the expiry checker goroutine.\<close>

definition hq_Close :: "HITLQueue \<Rightarrow> HITLQueue" where
  "hq_Close q = q\<lparr>hq_checking := False\<rparr>"

definition SetCallback :: "bool \<Rightarrow> HITLQueue \<Rightarrow> HITLQueue" where
  "SetCallback fn q = q\<lparr>hq_callback := if fn then Some [] else None\<rparr>"

text \<open>\<^verbatim>\<open>Set (key, data)\<close> followed by \<^verbatim>\<open>SAdd\<close> or \<^verbatim>\<open>SRem\<close> on the pending set; each may be lost.\<close>

definition redis_write :: "(nat \<Rightarrow> bool) \<Rightarrow> bool \<Rightarrow> string \<Rightarrow> HITLEntry \<Rightarrow> HITLQueue \<Rightarrow> HITLQueue" where
  "redis_write rok add cid entry q =
     q\<lparr>hq_redis := map_option (\<lambda>r.
         let r1 = (if rok 0 then r\<lparr>rh_entries := gput (''hitl:'' @ cid) entry (rh_entries r)\<rparr> else r)
         in if rok 1 then r1\<lparr>rh_pending := if add then List.insert cid (rh_pending r1) else removeAll cid (rh_pending r1)\<rparr> else r1)
       (hq_redis q)\<rparr>"

text \<open>\<^verbatim>\<open>Submit\<close> up to the point where it blocks, for the entry at address \<open>ref\<close>.\<close>

definition Submit_start :: "(nat \<Rightarrow> bool) \<Rightarrow> gotime \<Rightarrow> gotime \<Rightarrow> nat \<Rightarrow> HITLEntry \<Rightarrow> HITLQueue \<Rightarrow> HITLQueue" where
  "Submit_start rok now now' ref entry0 q =
     (let entry = entry0\<lparr>en_Status := ''pending'', en_CreatedAt := now, en_ExpiresAt := time_Add now' (hq_timeout q),
                         en_decisionCh := True\<rparr>;
          q1 = q\<lparr>hq_heap := gput ref entry (hq_heap q), hq_pending := gput (en_ID entry) ref (hq_pending q)\<rparr>
      in redis_write rok True (en_ID entry) entry q1)"

definition signalDecision :: "nat \<Rightarrow> HITLQueue \<Rightarrow> HITLQueue" where
  "signalDecision ref q =
     (case gget (hq_heap q) ref of
        None \<Rightarrow> q
      | Some entry \<Rightarrow>
          if \<not> en_decisionCh entry then q
          else if \<not> en_decisionClosed entry then q\<lparr>hq_heap := gput ref (entry\<lparr>en_decisionClosed := True\<rparr>) (hq_heap q)\<rparr>
          else q)"

text \<open>The first critical section of \<^verbatim>\<open>markTimeout\<close>, with the Redis writes; the address to signal, if any.\<close>

definition markTimeout_mark :: "(nat \<Rightarrow> bool) \<Rightarrow> string \<Rightarrow> HITLQueue \<Rightarrow> HITLQueue \<times> nat option" where
  "markTimeout_mark rok cid q =
     (case gget (hq_pending q) cid of
        None \<Rightarrow> (q, None)
      | Some ref \<Rightarrow>
          (case gget (hq_heap q) ref of
             None \<Rightarrow> (q, None)
           | Some entry \<Rightarrow>
               let entry' = entry\<lparr>en_Status := ''timed_out''\<rparr>
               in (redis_write rok False cid entry'
                     (q\<lparr>hq_heap := gput ref entry' (hq_heap q), hq_pending := gdel cid (hq_pending q)\<rparr>), Some ref)))"

definition markTimeout :: "(nat \<Rightarrow> bool) \<Rightarrow> string \<Rightarrow> HITLQueue \<Rightarrow> HITLQueue" where
  "markTimeout rok cid q =
     (case markTimeout_mark rok cid q of
        (q', None) \<Rightarrow> q'
      | (q', Some ref) \<Rightarrow> signalDecision ref q')"

datatype decide_error = NotFoundOrDecided string | AlreadyDecided string string

text \<open>\<^verbatim>\<open>Decide\<close> up to the signal: the critical section, the Redis writes and the callback.\<close>

definition Decide_commit ::
  "(nat \<Rightarrow> bool) \<Rightarrow> gotime \<Rightarrow> string \<Rightarrow> string \<Rightarrow> string \<Rightarrow> HITLQueue \<Rightarrow> HITLQueue \<times> (decide_error + nat)" where
  "Decide_commit rok now checkpointID decision modifiedData q =
     (case gget (hq_pending q) checkpointID of
        None \<Rightarrow> (q, Inl (NotFoundOrDecided checkpointID))
      | Some ref \<Rightarrow>
          (case gget (hq_heap q) ref of
             None \<Rightarrow> (q, Inl (NotFoundOrDecided checkpointID))
           | Some entry \<Rightarrow>
               if en_Status entry \<noteq> ''pending'' then (q, Inl (AlreadyDecided checkpointID (en_Status entry)))
               else
                 let entry' = entry\<lparr>en_Decision := decision, en_ModifiedData := modifiedData, en_DecidedAt := Some now, en_Status := decision\<rparr>;
                     q1 = q\<lparr>hq_heap := gput ref entry' (hq_heap q), hq_pending := gdel checkpointID (hq_pending q)\<rparr>;
                     q2 = redis_write rok False checkpointID entry' q1
                 in (q2\<lparr>hq_callback := map_option (\<lambda>calls. calls @ [entry']) (hq_callback q2)\<rparr>, Inr ref)))"

definition Decide ::
  "(nat \<Rightarrow> bool) \<Rightarrow> gotime \<Rightarrow> string \<Rightarrow> string \<Rightarrow> string \<Rightarrow> HITLQueue \<Rightarrow> HITLQueue \<times> decide_error option" where
  "Decide rok now checkpointID decision modifiedData q =
     (case Decide_commit rok now checkpointID decision modifiedData q of
        (q', Inl err) \<Rightarrow> (q', Some err)
      | (q', Inr ref) \<Rightarrow> (signalDecision ref q', None))"

text \<open>\<open>ks\<close>: the iteration order of the pending map.\<close>

definition entry_of :: "HITLQueue \<Rightarrow> string \<Rightarrow> HITLEntry option" where
  "entry_of q cid = (case gget (hq_pending q) cid of None \<Rightarrow> None | Some ref \<Rightarrow> gget (hq_heap q) ref)"

definition GetPending :: "string list \<Rightarrow> string \<Rightarrow> HITLQueue \<Rightarrow> HITLEntry list" where
  "GetPending ks userID q =
     filter (\<lambda>e. en_UserID e = userID \<and> en_Status e = ''pending'') (List.map_filter (entry_of q) ks)"

definition GetPendingByTask :: "string list \<Rightarrow> string \<Rightarrow> HITLQueue \<Rightarrow> HITLEntry list" where
  "GetPendingByTask ks taskID q =
     filter (\<lambda>e. en_TaskID e = taskID \<and> en_Status e = ''pending'') (List.map_filter (entry_of q) ks)"

definition GetByID :: "string \<Rightarrow> HITLQueue \<Rightarrow> HITLEntry option" where
  "GetByID cid q = (case entry_of q cid of None \<Rightarrow> None | Some e \<Rightarrow> if en_Status e \<noteq> ''pending'' then None else Some e)"

text \<open>One visit of the expiry checker to the pending checkpoint \<open>cid\<close>, and one tick over all of them.\<close>

definition expire_one :: "gotime \<Rightarrow> HITLQueue \<Rightarrow> string \<Rightarrow> HITLQueue" where
  "expire_one now q cid =
     (case gget (hq_pending q) cid of
        None \<Rightarrow> q
      | Some ref \<Rightarrow>
          (case gget (hq_heap q) ref of
             None \<Rightarrow> q
           | Some entry \<Rightarrow>
               if en_ExpiresAt entry < now then
                 let e1 = entry\<lparr>en_Status := ''timed_out''\<rparr>;
                     e2 = (if \<not> en_decisionClosed e1 \<and> en_decisionCh e1 then e1\<lparr>en_decisionClosed := True\<rparr> else e1)
                 in q\<lparr>hq_heap := gput ref e2 (hq_heap q), hq_pending := gdel cid (hq_pending q)\<rparr>
               else q))"

definition expiryChecker_tick :: "gotime \<Rightarrow> string list \<Rightarrow> HITLQueue \<Rightarrow> HITLQueue" where
  "expiryChecker_tick now ks q = foldl (expire_one now) q ks"

subsection \<open>HTTP handlers\<close>

record Claims =
  cl_UserID :: string
  cl_Role :: string

record decide_input =
  di_CheckpointID :: string
  di_Decision :: string
  di_ModifiedData :: string

datatype 'a http_result = Unauthorized string | BadRequest string | NotFound string | Forbidden string | StatusOK 'a

definition may_decide :: "Claims \<Rightarrow> HITLEntry \<Rightarrow> bool" where
  "may_decide claims entry \<longleftrightarrow> en_UserID entry = cl_UserID claims \<or> cl_Role claims = ''admin'' \<or> cl_Role claims = ''superadmin''"

definition ListPendingHandler :: "string list \<Rightarrow> Claims option \<Rightarrow> HITLQueue \<Rightarrow> HITLEntry list http_result" where
  "ListPendingHandler ks claims q =
     (case claims of
        None \<Rightarrow> Unauthorized ''missing authentication''
      | Some c \<Rightarrow> StatusOK (GetPending ks (cl_UserID c) q))"

text \<open>\<^verbatim>\<open>DecideHandler\<close> up to its call of \<^verbatim>\<open>Decide\<close>; \<open>None\<close>: a body that does not decode.\<close>

definition DecideHandler_check :: "Claims option \<Rightarrow> decide_input option \<Rightarrow> HITLQueue \<Rightarrow> unit http_result" where
  "DecideHandler_check claims body q =
     (case claims of
        None \<Rightarrow> Unauthorized ''missing authentication''
      | Some c \<Rightarrow>
          (case body of
             None \<Rightarrow> BadRequest ''invalid request body''
           | Some input \<Rightarrow>
               if di_CheckpointID input = [] then BadRequest ''checkpoint_id is required''
               else if di_Decision input \<noteq> ''approve'' \<and> di_Decision input \<noteq> ''reject'' \<and> di_Decision input \<noteq> ''modify''
               then BadRequest ''decision must be approve, reject, or modify''
               else
                 (case GetByID (di_CheckpointID input) q of
                    None \<Rightarrow> NotFound ''checkpoint not found or already decided''
                  | Some entry \<Rightarrow>
                      if \<not> may_decide c entry then Forbidden ''you can only decide your own checkpoints'' else StatusOK ())))"

definition DecideHandler ::
  "(nat \<Rightarrow> bool) \<Rightarrow> gotime \<Rightarrow> Claims option \<Rightarrow> decide_input option \<Rightarrow> HITLQueue \<Rightarrow> HITLQueue \<times> unit http_result" where
  "DecideHandler rok now claims body q =
     (case DecideHandler_check claims body q of
        StatusOK u \<Rightarrow>
          (case body of
             None \<Rightarrow> (q, BadRequest ''invalid request body'')
           | Some input \<Rightarrow>
               (case Decide rok now (di_CheckpointID input) (di_Decision input) (di_ModifiedData input) q of
                  (q', Some err) \<Rightarrow> (q', NotFound (case err of NotFoundOrDecided cid \<Rightarrow> ''checkpoint '' @ cid @ '' not found or already decided''
                                                     | AlreadyDecided cid st \<Rightarrow> ''checkpoint '' @ cid @ '' already decided with status: '' @ st))
                | (q', None) \<Rightarrow> (q', StatusOK ())))
      | res \<Rightarrow> (q, res))"

definition StatusHandler :: "Claims option \<Rightarrow> string \<Rightarrow> HITLQueue \<Rightarrow> HITLEntry http_result" where
  "StatusHandler claims checkpointID q =
     (case claims of
        None \<Rightarrow> Unauthorized ''missing authentication''
      | Some c \<Rightarrow>
          if checkpointID = [] then BadRequest ''id query parameter is required''
          else
            (case GetByID checkpointID q of
               None \<Rightarrow> NotFound ''checkpoint not found or already decided''
             | Some entry \<Rightarrow>
                 if \<not> may_decide c entry then Forbidden ''you can only view your own checkpoints'' else StatusOK entry))"

subsection \<open>The running queue\<close>

datatype hq_event = Decided nat Claims string | Returned nat "string option"

text \<open>
  The queue with the goroutines around it: blocked \<^verbatim>\<open>Submit\<close> calls (by the address of their
  entry), handler calls that passed the ownership check and have not called \<^verbatim>\<open>Decide\<close> yet,
  signals on their way, and the log of decisions and of what \<^verbatim>\<open>Submit\<close> returned (\<open>None\<close>: an error).
\<close>

record hq_sys =
  sy_q :: HITLQueue
  sy_waiting :: "nat list"
  sy_checked :: "(Claims \<times> decide_input) list"
  sy_signals :: "nat list"
  sy_log :: "hq_event list"

text \<open>
  \<open>owner\<close>: the user a checkpoint id belongs to. The agent derives the id from the task id, so all
  submissions under one id are for one user.
\<close>

inductive hq_step :: "(string \<Rightarrow> string) \<Rightarrow> hq_sys \<Rightarrow> hq_sys \<Rightarrow> bool" for owner where
  submit: "gget (hq_heap (sy_q s)) ref = None \<Longrightarrow> en_UserID e = owner (en_ID e) \<Longrightarrow> \<not> en_decisionClosed e \<Longrightarrow>
    hq_step owner s (s\<lparr>sy_q := Submit_start rok now now' ref e (sy_q s), sy_waiting := ref # sy_waiting s\<rparr>)"
| check: "DecideHandler_check (Some c) (Some inp) (sy_q s) = StatusOK () \<Longrightarrow>
    hq_step owner s (s\<lparr>sy_checked := (c, inp) # sy_checked s\<rparr>)"
| decide: "(c, inp) \<in> set (sy_checked s) \<Longrightarrow>
    Decide_commit rok now (di_CheckpointID inp) (di_Decision inp) (di_ModifiedData inp) (sy_q s) = (q', Inr ref) \<Longrightarrow>
    hq_step owner s (s\<lparr>sy_q := q', sy_checked := remove1 (c, inp) (sy_checked s), sy_signals := ref # sy_signals s,
                       sy_log := sy_log s @ [Decided ref c (di_Decision inp)]\<rparr>)"
| too_late: "(c, inp) \<in> set (sy_checked s) \<Longrightarrow>
    Decide_commit rok now (di_CheckpointID inp) (di_Decision inp) (di_ModifiedData inp) (sy_q s) = (q', Inl err) \<Longrightarrow>
    hq_step owner s (s\<lparr>sy_q := q', sy_checked := remove1 (c, inp) (sy_checked s)\<rparr>)"
| signal: "ref \<in> set (sy_signals s) \<Longrightarrow>
    hq_step owner s (s\<lparr>sy_q := signalDecision ref (sy_q s), sy_signals := removeAll ref (sy_signals s)\<rparr>)"
| close: "hq_step owner s (s\<lparr>sy_q := hq_Close (sy_q s)\<rparr>)"
| tick: "hq_checking (sy_q s) \<Longrightarrow> hq_step owner s (s\<lparr>sy_q := expiryChecker_tick now ks (sy_q s)\<rparr>)"
| wake: "ref \<in> set (sy_waiting s) \<Longrightarrow> gget (hq_heap (sy_q s)) ref = Some e \<Longrightarrow> en_decisionClosed e \<Longrightarrow>
    hq_step owner s (s\<lparr>sy_waiting := removeAll ref (sy_waiting s), sy_log := sy_log s @ [Returned ref (Some (en_Status e))]\<rparr>)"
| give_up: "ref \<in> set (sy_waiting s) \<Longrightarrow> gget (hq_heap (sy_q s)) ref = Some e \<Longrightarrow> markTimeout_mark rok (en_ID e) (sy_q s) = (q', woken) \<Longrightarrow>
    hq_step owner s (s\<lparr>sy_q := q', sy_waiting := removeAll ref (sy_waiting s),
                       sy_signals := (case woken of None \<Rightarrow> sy_signals s | Some r \<Rightarrow> r # sy_signals s),
                       sy_log := sy_log s @ [Returned ref None]\<rparr>)"

definition hq_init :: "redis_hitl option \<Rightarrow> duration \<Rightarrow> hq_sys" where
  "hq_init client timeout = \<lparr>sy_q = NewHITLQueue client timeout, sy_waiting = [], sy_checked = [], sy_signals = [], sy_log = []\<rparr>"

definition hq_reachable :: "(string \<Rightarrow> string) \<Rightarrow> hq_sys \<Rightarrow> bool" where
  "hq_reachable owner s \<longleftrightarrow> (\<exists>client timeout. (hq_step owner)\<^sup>*\<^sup>* (hq_init client timeout) s)"

subsection \<open>Invariant\<close>

abbreviation is_admin :: "Claims \<Rightarrow> bool" where
  "is_admin c \<equiv> cl_Role c = ''admin'' \<or> cl_Role c = ''superadmin''"

definition decisions_of :: "nat \<Rightarrow> hq_event list \<Rightarrow> hq_event list" where
  "decisions_of ref evs = filter (\<lambda>ev. case ev of Decided r c d \<Rightarrow> r = ref | Returned _ _ \<Rightarrow> False) evs"

text \<open>A final status is a time-out without a decision, or the one logged decision, by somebody entitled to it.\<close>

definition resolved_ok :: "(string \<Rightarrow> string) \<Rightarrow> hq_event list \<Rightarrow> nat \<Rightarrow> HITLEntry \<Rightarrow> bool" where
  "resolved_ok owner ds ref e \<longleftrightarrow>
     (if en_Status e = ''timed_out'' then ds = []
      else \<exists>c. ds = [Decided ref c (en_Status e)] \<and> (cl_UserID c = owner (en_ID e) \<or> is_admin c) \<and>
             en_Status e \<in> {''approve'', ''reject'', ''modify''})"

text \<open>What holds of the entry \<open>e\<close> at address \<open>ref\<close>.\<close>

definition entry_inv :: "(string \<Rightarrow> string) \<Rightarrow> hq_sys \<Rightarrow> nat \<Rightarrow> HITLEntry \<Rightarrow> bool" where
  "entry_inv owner s ref e \<longleftrightarrow>
     en_UserID e = owner (en_ID e) \<and> en_decisionCh e \<and>
     (if en_Status e = ''pending'' then decisions_of ref (sy_log s) = [] \<and> \<not> en_decisionClosed e \<and> ref \<notin> set (sy_signals s)
      else (en_decisionClosed e \<or> ref \<in> set (sy_signals s)) \<and>
           resolved_ok owner (decisions_of ref (sy_log s)) ref e)"

definition hq_inv :: "(string \<Rightarrow> string) \<Rightarrow> hq_sys \<Rightarrow> bool" where
  "hq_inv owner s \<longleftrightarrow>
     (\<forall>ref e. gget (hq_heap (sy_q s)) ref = Some e \<longrightarrow> entry_inv owner s ref e) \<and>
     (\<forall>ref. gget (hq_heap (sy_q s)) ref = None \<longrightarrow> decisions_of ref (sy_log s) = [] \<and> ref \<notin> set (sy_signals s)) \<and>
     (\<forall>cid ref. gget (hq_pending (sy_q s)) cid = Some ref \<longrightarrow>
        (\<exists>e. gget (hq_heap (sy_q s)) ref = Some e \<and> en_ID e = cid \<and> en_Status e = ''pending'')) \<and>
     (\<forall>(c, inp) \<in> set (sy_checked s). (cl_UserID c = owner (di_CheckpointID inp) \<or> is_admin c) \<and>
        di_Decision inp \<in> {''approve'', ''reject'', ''modify''}) \<and>
     (\<forall>ref st. Returned ref (Some st) \<in> set (sy_log s) \<longrightarrow>
        (\<exists>e. gget (hq_heap (sy_q s)) ref = Some e \<and> en_Status e = st \<and> st \<noteq> ''pending''))"

lemma decisions_of_simps [simp]:
  "decisions_of ref [] = []" "decisions_of ref (evs @ [Returned r x]) = decisions_of ref evs"
  "decisions_of ref (evs @ [Decided r c d]) = decisions_of ref evs @ (if r = ref then [Decided r c d] else [])"
  by (simp_all add: decisions_of_def)

lemma redis_write_simps [simp]:
  "hq_heap (redis_write rok add cid e q) = hq_heap q" "hq_pending (redis_write rok add cid e q) = hq_pending q"
  "hq_timeout (redis_write rok add cid e q) = hq_timeout q" "hq_callback (redis_write rok add cid e q) = hq_callback q"
  by (simp_all add: redis_write_def)

lemma hq_invD:
  assumes "hq_inv owner s"
  shows "gget (hq_heap (sy_q s)) ref = Some e \<Longrightarrow> entry_inv owner s ref e"
    and "gget (hq_heap (sy_q s)) ref = None \<Longrightarrow> decisions_of ref (sy_log s) = [] \<and> ref \<notin> set (sy_signals s)"
    and "gget (hq_pending (sy_q s)) cid = Some ref \<Longrightarrow> \<exists>e. gget (hq_heap (sy_q s)) ref = Some e \<and> en_ID e = cid \<and> en_Status e = ''pending''"
    and "(c, inp) \<in> set (sy_checked s) \<Longrightarrow> (cl_UserID c = owner (di_CheckpointID inp) \<or> is_admin c) \<and> di_Decision inp \<in> {''approve'', ''reject'', ''modify''}"
    and "Returned ref (Some st) \<in> set (sy_log s) \<Longrightarrow> \<exists>e. gget (hq_heap (sy_q s)) ref = Some e \<and> en_Status e = st \<and> st \<noteq> ''pending''"
  using assms unfolding hq_inv_def by auto

text \<open>
  A pending entry is resolved: it leaves the map with a final status, and its waiter is woken or
  a signal for it is on its way.
\<close>

lemma resolved_ok_cong: "en_Status e' = en_Status e \<Longrightarrow> en_ID e' = en_ID e \<Longrightarrow> resolved_ok owner ds ref e' = resolved_ok owner ds ref e"
  by (simp add: resolved_ok_def)

lemma hq_inv_resolve:
  assumes inv: "hq_inv owner s" and p: "gget (hq_pending (sy_q s)) cid = Some ref" and h: "gget (hq_heap (sy_q s)) ref = Some e"
    and e': "en_ID e' = en_ID e" "en_UserID e' = en_UserID e" "en_decisionCh e'" "en_Status e' \<noteq> ''pending''"
    and q': "hq_heap q' = gput ref e' (hq_heap (sy_q s))" "hq_pending q' = gdel cid (hq_pending (sy_q s))"
    and sig: "set (sy_signals s') = (if en_decisionClosed e' then set (sy_signals s) else insert ref (set (sy_signals s)))"
    and chk: "set (sy_checked s') \<subseteq> set (sy_checked s)" and s': "sy_q s' = q'"
    and dec: "\<And>r. r \<noteq> ref \<Longrightarrow> decisions_of r (sy_log s') = decisions_of r (sy_log s)"
    and ret: "\<And>r st. Returned r (Some st) \<in> set (sy_log s') \<Longrightarrow> Returned r (Some st) \<in> set (sy_log s)"
    and status: "resolved_ok owner (decisions_of ref (sy_log s')) ref e'"
  shows "hq_inv owner s'"
proof -
  note d = hq_invD [OF inv]
  from d(3) [OF p] h have e: "en_ID e = cid" "en_Status e = ''pending''" by auto
  have "entry_inv owner s' r x" if "gget (hq_heap q') r = Some x" for r x
  proof (cases "r = ref")
    case True
    with that q' have "x = e'" by simp
    with True e' d(1) [OF h] sig status show ?thesis by (simp add: entry_inv_def)
  next
    case False
    with that q' d(1) [of r x] dec [OF False] sig show ?thesis by (auto simp: entry_inv_def split: if_splits)
  qed
  moreover have "\<exists>x. gget (hq_heap q') r = Some x \<and> en_ID x = c \<and> en_Status x = ''pending''" if "gget (hq_pending q') c = Some r" for c r
    using that q' d(3) [of c r] h e by (auto split: if_splits)
  moreover have "decisions_of r (sy_log s') = [] \<and> r \<notin> set (sy_signals s')" if "gget (hq_heap q') r = None" for r
    using that q' d(2) [of r] dec [of r] sig by (auto split: if_splits)
  moreover have "\<exists>x. gget (hq_heap q') r = Some x \<and> en_Status x = st \<and> st \<noteq> ''pending''" if "Returned r (Some st) \<in> set (sy_log s')" for r st
    using d(5) [OF ret [OF that]] q' h e by auto
  ultimately show ?thesis using inv chk unfolding hq_inv_def s' by blast
qed

lemma hq_inv_frame:
  assumes inv: "hq_inv owner s" and "hq_heap (sy_q s') = hq_heap (sy_q s)" "hq_pending (sy_q s') = hq_pending (sy_q s)" "sy_log s' = sy_log s"
    "set (sy_signals s') = set (sy_signals s)" "set (sy_checked s') \<subseteq> set (sy_checked s)"
  shows "hq_inv owner s'"
  using inv assms(2-) unfolding hq_inv_def entry_inv_def by auto

lemma expire_one_inv: "hq_inv owner s \<Longrightarrow> hq_inv owner (s\<lparr>sy_q := expire_one now (sy_q s) cid\<rparr>)"
proof (cases "gget (hq_pending (sy_q s)) cid")
  case (Some ref)
  assume inv: "hq_inv owner s"
  then obtain e where h: "gget (hq_heap (sy_q s)) ref = Some e" "en_Status e = ''pending''" using hq_invD(3) [OF _ Some] by blast
  have e: "en_decisionCh e" "\<not> en_decisionClosed e" "decisions_of ref (sy_log s) = []"
    using hq_invD(1) [OF inv h(1)] h(2) by (simp_all add: entry_inv_def)
  show ?thesis
  proof (cases "en_ExpiresAt e < now")
    case True
    show ?thesis
      by (rule hq_inv_resolve [OF inv Some h(1), where e' = "e\<lparr>en_Status := ''timed_out'', en_decisionClosed := True\<rparr>"
            and q' = "expire_one now (sy_q s) cid"])
        (use Some h e True in \<open>simp_all add: expire_one_def Let_def resolved_ok_def\<close>)
  qed (use inv Some h in \<open>simp add: expire_one_def hq_inv_frame\<close>)
qed (simp add: expire_one_def hq_inv_frame)

lemma tick_inv: "hq_inv owner s \<Longrightarrow> hq_inv owner (s\<lparr>sy_q := expiryChecker_tick now ks (sy_q s)\<rparr>)"
proof (induction ks arbitrary: s)
  case (Cons k ks)
  then show ?case using expire_one_inv [of owner s now k] by (fastforce simp: expiryChecker_tick_def)
qed (simp add: expiryChecker_tick_def hq_inv_frame)

lemma signal_inv:
  assumes "hq_inv owner s" "ref \<in> set (sy_signals s)"
  shows "hq_inv owner (s\<lparr>sy_q := signalDecision ref (sy_q s), sy_signals := removeAll ref (sy_signals s)\<rparr>)"
proof (cases "gget (hq_heap (sy_q s)) ref")
  case None
  with hq_invD(2) [OF assms(1) None] assms(2) show ?thesis by simp
next
  case (Some e)
  note d = hq_invD [OF assms(1)]
  from d(1) [OF Some] assms(2) have e: "en_decisionCh e" "en_Status e \<noteq> ''pending''" by (auto simp: entry_inv_def split: if_splits)
  have q: "gget (hq_heap (signalDecision ref (sy_q s))) r = (if r = ref then Some (e\<lparr>en_decisionClosed := True\<rparr>) else gget (hq_heap (sy_q s)) r)"
    "hq_pending (signalDecision ref (sy_q s)) = hq_pending (sy_q s)" for r
    using Some e by (cases "en_decisionClosed e"; simp add: signalDecision_def)+
  show ?thesis unfolding hq_inv_def
    using d Some e resolved_ok_cong [of "e\<lparr>en_decisionClosed := True\<rparr>" e]
    by (auto simp: q entry_inv_def split: if_splits) (fastforce dest: d(3) d(5))+
qed

lemma Decide_commit_cases:
  assumes "Decide_commit rok now cid d m q = (q', res)"
  obtains (refused) err where "res = Inl err" "q' = q"
  | (committed) ref e where "res = Inr ref" "gget (hq_pending q) cid = Some ref" "gget (hq_heap q) ref = Some e" "en_Status e = ''pending''"
      "hq_heap q' = gput ref (e\<lparr>en_Decision := d, en_ModifiedData := m, en_DecidedAt := Some now, en_Status := d\<rparr>) (hq_heap q)"
      "hq_pending q' = gdel cid (hq_pending q)"
proof (cases "gget (hq_pending q) cid")
  case (Some ref)
  show thesis
  proof (cases "gget (hq_heap q) ref")
    case e: (Some e)
    show thesis
    proof (cases "en_Status e = ''pending''")
      case True
      with assms Some e show thesis by (intro committed [of ref e]) (auto simp: Decide_commit_def Let_def)
    qed (use assms Some e in \<open>auto simp: Decide_commit_def intro: refused\<close>)
  qed (use assms Some in \<open>auto simp: Decide_commit_def intro: refused\<close>)
qed (use assms in \<open>auto simp: Decide_commit_def intro: refused\<close>)

lemma markTimeout_mark_cases:
  assumes "markTimeout_mark rok cid q = (q', woken)"
  obtains (absent) "woken = None" "q' = q"
  | (marked) ref e where "woken = Some ref" "gget (hq_pending q) cid = Some ref" "gget (hq_heap q) ref = Some e"
      "hq_heap q' = gput ref (e\<lparr>en_Status := ''timed_out''\<rparr>) (hq_heap q)" "hq_pending q' = gdel cid (hq_pending q)"
proof (cases "gget (hq_pending q) cid")
  case (Some ref)
  show thesis
  proof (cases "gget (hq_heap q) ref")
    case e: (Some e)
    with assms Some show thesis by (intro marked [of ref e]) (auto simp: markTimeout_mark_def Let_def)
  qed (use assms Some in \<open>auto simp: markTimeout_mark_def intro: absent\<close>)
qed (use assms in \<open>auto simp: markTimeout_mark_def intro: absent\<close>)

lemma check_ok:
  assumes "DecideHandler_check (Some c) (Some inp) q = StatusOK ()"
  obtains e where "entry_of q (di_CheckpointID inp) = Some e" "en_Status e = ''pending''" "may_decide c e"
    "di_Decision inp \<in> {''approve'', ''reject'', ''modify''}"
  using assms by (auto simp: DecideHandler_check_def GetByID_def split: option.splits if_splits)

lemma pending_facts:
  assumes "hq_inv owner s" "gget (hq_pending (sy_q s)) cid = Some ref" "gget (hq_heap (sy_q s)) ref = Some e"
  shows "en_ID e = cid" "en_Status e = ''pending''" "en_decisionCh e" "\<not> en_decisionClosed e" "decisions_of ref (sy_log s) = []"
proof -
  from hq_invD(3) [OF assms(1,2)] assms(3) show 1: "en_ID e = cid" "en_Status e = ''pending''" by auto
  from hq_invD(1) [OF assms(1,3)] 1 show "en_decisionCh e" "\<not> en_decisionClosed e" "decisions_of ref (sy_log s) = []"
    by (auto simp: entry_inv_def)
qed

lemma submit_inv:
  assumes inv: "hq_inv owner s" and n: "gget (hq_heap (sy_q s)) ref = None" and e: "en_UserID e = owner (en_ID e)" "\<not> en_decisionClosed e"
  shows "hq_inv owner (s\<lparr>sy_q := Submit_start rok now now' ref e (sy_q s), sy_waiting := ref # sy_waiting s\<rparr>)"
proof -
  note d = hq_invD [OF inv]
  have "entry_inv owner s ref (e\<lparr>en_Status := ''pending'', en_CreatedAt := now, en_ExpiresAt := time_Add now' (hq_timeout (sy_q s)), en_decisionCh := True\<rparr>)"
    using d(2) [OF n] e by (simp add: entry_inv_def)
  moreover have "entry_inv owner (s\<lparr>sy_q := x, sy_waiting := y\<rparr>) r z = entry_inv owner s r z" for x y r z by (simp add: entry_inv_def)
  ultimately show ?thesis
    using inv n unfolding hq_inv_def by (auto simp: Submit_start_def Let_def) (metis option.distinct(1))+
qed

lemma hq_step_inv: "hq_step owner s s' \<Longrightarrow> hq_inv owner s \<Longrightarrow> hq_inv owner s'"
proof (induction rule: hq_step.induct)
  case (submit s ref e rok now now')
  then show ?case by (intro submit_inv)
next
  case (check c inp s)
  from check(1) obtain e where e: "entry_of (sy_q s) (di_CheckpointID inp) = Some e" "may_decide c e" "di_Decision inp \<in> {''approve'', ''reject'', ''modify''}"
    by (rule check_ok)
  then obtain ref where r: "gget (hq_pending (sy_q s)) (di_CheckpointID inp) = Some ref" "gget (hq_heap (sy_q s)) ref = Some e"
    by (auto simp: entry_of_def split: option.splits)
  have "en_ID e = di_CheckpointID inp" "en_UserID e = owner (en_ID e)"
    using pending_facts(1) [OF check(2) r] hq_invD(1) [OF check(2) r(2)] by (simp_all add: entry_inv_def)
  then have "(cl_UserID c = owner (di_CheckpointID inp) \<or> is_admin c) \<and> di_Decision inp \<in> {''approve'', ''reject'', ''modify''}"
    using e(2,3) by (auto simp: may_decide_def)
  moreover have "hq_inv owner (s\<lparr>sy_checked := sy_checked s\<rparr>)" using check(2) by (simp add: hq_inv_frame)
  ultimately show ?case using check(2) unfolding hq_inv_def entry_inv_def by auto
next
  case (decide c inp s rok now q' ref)
  from decide(2) show ?case
  proof (cases rule: Decide_commit_cases)
    case (committed ref' e)
    note p = pending_facts [OF decide(3) committed(2,3)] and k = hq_invD(4) [OF decide(3,1)]
    show ?thesis
      by (rule hq_inv_resolve [OF decide(3) committed(2,3) _ _ _ _ committed(5,6)])
        (use committed(1) p k set_remove1_subset [of "(c, inp)" "sy_checked s"] in \<open>auto simp: resolved_ok_def\<close>)
  qed simp
next
  case (too_late c inp s rok now q' err)
  from too_late(2) have "q' = sy_q s" by (cases rule: Decide_commit_cases) simp_all
  with too_late(3) show ?case
    by (elim hq_inv_frame) (use set_remove1_subset [of "(c, inp)" "sy_checked s"] in simp_all)
next
  case (signal ref s)
  then show ?case by (intro signal_inv)
next
  case (close s)
  then show ?case by (elim hq_inv_frame) (simp_all add: hq_Close_def)
next
  case (tick s now ks)
  then show ?case by (intro tick_inv)
next
  case (wake ref s e)
  from hq_invD(1) [OF wake(4,2)] wake(3) have "en_Status e \<noteq> ''pending''" by (auto simp: entry_inv_def split: if_splits)
  with wake show ?case unfolding hq_inv_def entry_inv_def by auto
next
  case (give_up ref s e rok q' woken)
  from give_up(3) show ?case
  proof (cases rule: markTimeout_mark_cases)
    case absent
    with give_up(4) show ?thesis unfolding hq_inv_def entry_inv_def by auto
  next
    case (marked ref' e')
    note p = pending_facts [OF give_up(4) marked(2,3)]
    show ?thesis
      by (rule hq_inv_resolve [OF give_up(4) marked(2,3) _ _ _ _ marked(4,5)])
        (use marked(1) p in \<open>auto simp: resolved_ok_def\<close>)
  qed
qed

lemma reachable_inv: "hq_reachable owner s \<Longrightarrow> hq_inv owner s"
proof -
  assume "hq_reachable owner s"
  then obtain client timeout where "(hq_step owner)\<^sup>*\<^sup>* (hq_init client timeout) s" by (auto simp: hq_reachable_def)
  then show ?thesis
  proof (induction rule: rtranclp_induct)
    case base
    then show ?case by (simp add: hq_inv_def hq_init_def NewHITLQueue_def)
  qed (rule hq_step_inv)
qed

subsection \<open>Properties\<close>

text \<open>
  Only entitled decisions reach a waiting agent: in every interleaving of submissions,
  handlers, expiry and time-outs, when \<^verbatim>\<open>Submit\<close> returned an entry with a status other than
  \<^verbatim>\<open>timed_out\<close>, that checkpoint was decided exactly once, with that decision, by the user the
  checkpoint belongs to or by an administrator.
\<close>

theorem decisions_authorized:
  assumes "hq_reachable owner s" and "Returned ref (Some st) \<in> set (sy_log s)" and "st \<noteq> ''timed_out''"
  shows "\<exists>e c. gget (hq_heap (sy_q s)) ref = Some e \<and> en_Status e = st \<and> en_UserID e = owner (en_ID e) \<and>
    decisions_of ref (sy_log s) = [Decided ref c st] \<and> (cl_UserID c = en_UserID e \<or> is_admin c) \<and>
    st \<in> {''approve'', ''reject'', ''modify''}"
proof -
  note inv = reachable_inv [OF assms(1)]
  from hq_invD(5) [OF inv assms(2)] obtain e where e: "gget (hq_heap (sy_q s)) ref = Some e" "en_Status e = st" "st \<noteq> ''pending''" by blast
  with hq_invD(1) [OF inv e(1)] assms(3) show ?thesis by (auto simp: entry_inv_def resolved_ok_def)
qed

text \<open>
  C33. No lost wake-up: a blocked \<^verbatim>\<open>Submit\<close> whose checkpoint has left the pending state (decided or
  expired) is woken: its channel is closed or the signal is on its way, and delivering it lets
  the call return with exactly the recorded status.
\<close>

theorem no_lost_wakeup:
  assumes "hq_reachable owner s" and "ref \<in> set (sy_waiting s)" and "gget (hq_heap (sy_q s)) ref = Some e" and "en_Status e \<noteq> ''pending''"
  shows "(en_decisionClosed e \<or> ref \<in> set (sy_signals s)) \<and>
    (\<exists>s'. (hq_step owner)\<^sup>*\<^sup>* s s' \<and> Returned ref (Some (en_Status e)) \<in> set (sy_log s'))"
proof -
  from hq_invD(1) [OF reachable_inv [OF assms(1)] assms(3)] assms(4)
  have e: "en_decisionCh e" "en_decisionClosed e \<or> ref \<in> set (sy_signals s)" by (simp_all add: entry_inv_def)
  obtain s1 e1 where 1: "(hq_step owner)\<^sup>*\<^sup>* s s1" "ref \<in> set (sy_waiting s1)" "gget (hq_heap (sy_q s1)) ref = Some e1"
    "en_decisionClosed e1" "en_Status e1 = en_Status e"
  proof (cases "en_decisionClosed e")
    case True
    show thesis by (rule that [of s e]) (use assms True in auto)
  next
    case False
    then have "ref \<in> set (sy_signals s)" using e by simp
    from signal [OF this, of owner] show thesis
      by (intro that [of "s\<lparr>sy_q := signalDecision ref (sy_q s), sy_signals := removeAll ref (sy_signals s)\<rparr>" "e\<lparr>en_decisionClosed := True\<rparr>"])
         (use assms e False in \<open>auto simp: signalDecision_def\<close>)
  qed
  from wake [OF 1(2-4), of owner] 1(1) have "(hq_step owner)\<^sup>*\<^sup>* s (s1\<lparr>sy_waiting := removeAll ref (sy_waiting s1),
      sy_log := sy_log s1 @ [Returned ref (Some (en_Status e1))]\<rparr>)" by (rule rtranclp.rtrancl_into_rtrancl [rotated])
  with 1(5) e(2) show ?thesis by fastforce
qed

text \<open>
  \<^verbatim>\<open>DecideHandler\<close> on a queue at rest: it answers 200 exactly when the caller is authenticated,
  the decision is one of the three, and the checkpoint is pending and the caller may decide it;
  then the checkpoint is no longer pending, carries the decision and its waiter is woken. In
  every other case the queue is unchanged.
\<close>

theorem decide_handler_effect:
  assumes "hq_reachable owner s" and "q = sy_q s" and "DecideHandler rok now claims body q = (q', res)"
  shows "(res = StatusOK () \<longleftrightarrow> DecideHandler_check claims body q = StatusOK ()) \<and>
    (if res = StatusOK () then
       \<exists>c inp ref e. claims = Some c \<and> body = Some inp \<and> may_decide c e \<and> en_Status e = ''pending'' \<and>
         gget (hq_pending q) (di_CheckpointID inp) = Some ref \<and> gget (hq_heap q) ref = Some e \<and>
         GetByID (di_CheckpointID inp) q' = None \<and>
         gget (hq_heap q') ref = Some (e\<lparr>en_Decision := di_Decision inp, en_ModifiedData := di_ModifiedData inp,
           en_DecidedAt := Some now, en_Status := di_Decision inp, en_decisionClosed := True\<rparr>)
     else q' = q)"
proof (cases "DecideHandler_check claims body q = StatusOK ()")
  case True
  from True obtain c inp where ci: "claims = Some c" "body = Some inp" by (auto simp: DecideHandler_check_def split: option.splits)
  from True ci obtain e where e: "entry_of q (di_CheckpointID inp) = Some e" "en_Status e = ''pending''" "may_decide c e"
    by (auto elim: check_ok)
  then obtain ref where r: "gget (hq_pending q) (di_CheckpointID inp) = Some ref" "gget (hq_heap q) ref = Some e"
    by (auto simp: entry_of_def split: option.splits)
  note p = pending_facts [OF reachable_inv [OF assms(1)] r [unfolded assms(2)]]
  let ?e = "e\<lparr>en_Decision := di_Decision inp, en_ModifiedData := di_ModifiedData inp, en_DecidedAt := Some now, en_Status := di_Decision inp\<rparr>"
  from r e(2) p(3,4) have D: "\<exists>q1. Decide rok now (di_CheckpointID inp) (di_Decision inp) (di_ModifiedData inp) q = (q1, None) \<and>
      hq_pending q1 = gdel (di_CheckpointID inp) (hq_pending q) \<and> gget (hq_heap q1) ref = Some (?e\<lparr>en_decisionClosed := True\<rparr>)"
    by (auto simp: Decide_def Decide_commit_def signalDecision_def Let_def)
  with True ci assms(3) r e show ?thesis by (auto simp: DecideHandler_def GetByID_def entry_of_def)
next
  case False
  with assms(3) show ?thesis by (auto simp: DecideHandler_def split: http_result.splits)
qed

subsubsection \<open>Instances\<close>

definition demo_checkpoint :: HITLEntry where
  "demo_checkpoint = \<lparr>en_ID = ''cp-t1-0'', en_TaskID = ''t1'', en_UserID = ''u1'', en_OrgID = ''o1'', en_StepIndex = 0,
     en_Description = ''Step 0 requires human approval: edit'', en_Tool = ''edit_file'', en_Params = [],
     en_Options = [''approve'', ''reject'', ''modify''], en_Status = [], en_Decision = [],
     en_ModifiedData = [], en_CreatedAt = 0, en_DecidedAt = None, en_ExpiresAt = 0, en_decisionCh = False, en_decisionClosed = False\<rparr>"

definition demo_sys1 :: hq_sys where
  "demo_sys1 = (hq_init None (5 * Minute))\<lparr>sy_q := Submit_start (\<lambda>i. True) 10 11 7 demo_checkpoint (sy_q (hq_init None (5 * Minute))), sy_waiting := [7]\<rparr>"

definition demo_input :: decide_input where
  "demo_input = \<lparr>di_CheckpointID = ''cp-t1-0'', di_Decision = ''approve'', di_ModifiedData = []\<rparr>"

definition demo_user :: Claims where
  "demo_user = \<lparr>cl_UserID = ''u1'', cl_Role = ''user''\<rparr>"

lemma demo_sys1_reachable: "hq_reachable (\<lambda>_. ''u1'') demo_sys1"
  using submit [of "hq_init None (5 * Minute)" 7 demo_checkpoint "\<lambda>_. ''u1''" "\<lambda>i. True" 10 11]
  unfolding hq_reachable_def demo_sys1_def
  by (intro exI [of _ None] exI [of _ "5 * Minute"]) (auto simp: hq_init_def NewHITLQueue_def demo_checkpoint_def)

definition same_request :: "HITLEntry \<Rightarrow> HITLEntry \<Rightarrow> bool" where
  "same_request e e' \<longleftrightarrow> en_ID e = en_ID e' \<and> en_TaskID e = en_TaskID e' \<and> en_UserID e = en_UserID e' \<and> en_OrgID e = en_OrgID e' \<and>
     en_StepIndex e = en_StepIndex e' \<and> en_Description e = en_Description e' \<and> en_Tool e = en_Tool e' \<and>
     en_Params e = en_Params e' \<and> en_Options e = en_Options e'"

lemma demo_decided:
  "\<exists>s e. hq_reachable (\<lambda>_. ''u1'') s \<and> 7 \<in> set (sy_waiting s) \<and> gget (hq_heap (sy_q s)) 7 = Some e \<and> en_Status e = ''approve'' \<and>
     same_request e demo_checkpoint"
proof -
  obtain q' where D: "Decide_commit (\<lambda>i. True) 20 ''cp-t1-0'' ''approve'' [] (sy_q demo_sys1) = (q', Inr 7)"
    and e: "\<exists>e. gget (hq_heap q') 7 = Some e \<and> en_Status e = ''approve'' \<and> same_request e demo_checkpoint"
    by (auto simp: same_request_def Decide_commit_def demo_sys1_def hq_init_def NewHITLQueue_def Submit_start_def demo_checkpoint_def Let_def)
  have c: "DecideHandler_check (Some demo_user) (Some demo_input) (sy_q demo_sys1) = StatusOK ()"
    by (simp add: DecideHandler_check_def demo_user_def demo_input_def GetByID_def entry_of_def may_decide_def demo_sys1_def hq_init_def
        NewHITLQueue_def Submit_start_def demo_checkpoint_def Let_def)
  let ?s2 = "demo_sys1\<lparr>sy_checked := (demo_user, demo_input) # sy_checked demo_sys1\<rparr>"
  have 1: "hq_step (\<lambda>_. ''u1'') demo_sys1 ?s2" by (rule check [OF c])
  have 2: "hq_step (\<lambda>_. ''u1'') ?s2 (?s2\<lparr>sy_q := q', sy_checked := remove1 (demo_user, demo_input) (sy_checked ?s2),
      sy_signals := 7 # sy_signals ?s2, sy_log := sy_log ?s2 @ [Decided 7 demo_user (di_Decision demo_input)]\<rparr>)"
    by (rule decide [where rok = "\<lambda>i. True" and now = 20]) (use D in \<open>simp_all add: demo_input_def\<close>)
  from demo_sys1_reachable 1 2 have "hq_reachable (\<lambda>_. ''u1'') (?s2\<lparr>sy_q := q', sy_checked := remove1 (demo_user, demo_input) (sy_checked ?s2),
      sy_signals := 7 # sy_signals ?s2, sy_log := sy_log ?s2 @ [Decided 7 demo_user (di_Decision demo_input)]\<rparr>)"
    unfolding hq_reachable_def by (meson rtranclp.rtrancl_into_rtrancl)
  with e show ?thesis by (force simp: demo_sys1_def)
qed

theorem no_lost_wakeup_witness:
  "\<exists>s s'. hq_reachable (\<lambda>_. ''u1'') s \<and> 7 \<in> set (sy_waiting s) \<and> (hq_step (\<lambda>_. ''u1''))\<^sup>*\<^sup>* s s' \<and> Returned 7 (Some ''approve'') \<in> set (sy_log s')"
proof -
  obtain s e where s: "hq_reachable (\<lambda>_. ''u1'') s" "7 \<in> set (sy_waiting s)" "gget (hq_heap (sy_q s)) 7 = Some e" "en_Status e = ''approve''"
    using demo_decided by blast
  from no_lost_wakeup [OF s(1-3)] s show ?thesis by auto
qed

lemma demo_returned: "\<exists>s e. hq_reachable (\<lambda>_. ''u1'') s \<and> Returned 7 (Some ''approve'') \<in> set (sy_log s) \<and> gget (hq_heap (sy_q s)) 7 = Some e \<and>
     en_Status e = ''approve'' \<and> same_request e demo_checkpoint"
proof -
  obtain s e where s: "hq_reachable (\<lambda>_. ''u1'') s" "7 \<in> set (sy_waiting s)" "gget (hq_heap (sy_q s)) 7 = Some e" "en_Status e = ''approve''" "same_request e demo_checkpoint"
    using demo_decided by blast
  then have e: "en_decisionCh e" "en_decisionClosed e \<or> 7 \<in> set (sy_signals s)"
    using hq_invD(1) [OF reachable_inv [OF s(1)] s(3)] by (simp_all add: entry_inv_def)
  let ?s1 = "s\<lparr>sy_q := signalDecision 7 (sy_q s), sy_signals := removeAll 7 (sy_signals s)\<rparr>"
  have "\<exists>s1 e1. hq_reachable (\<lambda>_. ''u1'') s1 \<and> 7 \<in> set (sy_waiting s1) \<and> gget (hq_heap (sy_q s1)) 7 = Some e1 \<and> en_decisionClosed e1 \<and> en_Status e1 = ''approve'' \<and>
      same_request e1 demo_checkpoint"
  proof (cases "en_decisionClosed e")
    case False
    with e have "7 \<in> set (sy_signals s)" by simp
    from signal [OF this, of "\<lambda>_. ''u1''"] s(1) have "hq_reachable (\<lambda>_. ''u1'') ?s1"
      unfolding hq_reachable_def by (meson rtranclp.rtrancl_into_rtrancl)
    with s e False show ?thesis by (intro exI [of _ ?s1] exI [of _ "e\<lparr>en_decisionClosed := True\<rparr>"]) (simp add: signalDecision_def same_request_def)
  qed (use s in blast)
  then obtain s1 e1 where 1: "hq_reachable (\<lambda>_. ''u1'') s1" "7 \<in> set (sy_waiting s1)" "gget (hq_heap (sy_q s1)) 7 = Some e1" "en_decisionClosed e1" "en_Status e1 = ''approve''"
    "same_request e1 demo_checkpoint" by blast
  from wake [OF 1(2-4), of "\<lambda>_. ''u1''"] 1(1) have "hq_reachable (\<lambda>_. ''u1'') (s1\<lparr>sy_waiting := removeAll 7 (sy_waiting s1),
      sy_log := sy_log s1 @ [Returned 7 (Some (en_Status e1))]\<rparr>)"
    unfolding hq_reachable_def by (meson rtranclp.rtrancl_into_rtrancl)
  with 1(3,5,6) show ?thesis by force
qed

theorem decisions_authorized_witness:
  "\<exists>s c. hq_reachable (\<lambda>_. ''u1'') s \<and> decisions_of 7 (sy_log s) = [Decided 7 c ''approve''] \<and> (cl_UserID c = ''u1'' \<or> is_admin c)"
proof -
  obtain s where s: "hq_reachable (\<lambda>_. ''u1'') s" "Returned 7 (Some ''approve'') \<in> set (sy_log s)" using demo_returned by blast
  from decisions_authorized [OF s] s(1) show ?thesis by auto
qed

theorem decide_handler_effect_witness:
  "snd (DecideHandler (\<lambda>i. True) 20 (Some demo_user) (Some demo_input) (sy_q demo_sys1)) = StatusOK () \<and>
   GetByID ''cp-t1-0'' (fst (DecideHandler (\<lambda>i. True) 20 (Some demo_user) (Some demo_input) (sy_q demo_sys1))) = None"
proof -
  obtain q' res where D: "DecideHandler (\<lambda>i. True) 20 (Some demo_user) (Some demo_input) (sy_q demo_sys1) = (q', res)" by fastforce
  have c: "DecideHandler_check (Some demo_user) (Some demo_input) (sy_q demo_sys1) = StatusOK ()"
    by (simp add: DecideHandler_check_def demo_user_def demo_input_def GetByID_def entry_of_def may_decide_def demo_sys1_def hq_init_def
        NewHITLQueue_def Submit_start_def demo_checkpoint_def Let_def)
  from decide_handler_effect [OF demo_sys1_reachable refl D] c D show ?thesis by (auto simp: demo_input_def)
qed

end
