(* ===== verification/Agent_Approval.thy ===== *)
theory Agent_Approval
  imports Agent_Props HITL_Queue
begin

text \<open>
  The agent behind the approval queue: the \<^verbatim>\<open>hitlAdapter\<close> of \<^verbatim>\<open>internal/server/server.go\<close>, which
  converts between the entry types of the two packages, and the end-to-end statement that ties
  the actions of an agent to decisions of entitled people.
\<close>

definition hitlAdapter_entry :: "HITLCheckpointEntry \<Rightarrow> HITLEntry" where
  "hitlAdapter_entry entry =
     \<lparr>en_ID = he_ID entry, en_TaskID = he_TaskID entry, en_UserID = he_UserID entry, en_OrgID = he_OrgID entry,
      en_StepIndex = he_StepIndex entry, en_Description = he_Description entry, en_Tool = he_Tool entry,
      en_Params = he_Params entry, en_Options = he_Options entry, en_Status = [], en_Decision = [], en_ModifiedData = [],
      en_CreatedAt = zero_time, en_DecidedAt = None, en_ExpiresAt = zero_time, en_decisionCh = False, en_decisionClosed = False\<rparr>"

definition hitlAdapter_result :: "HITLEntry \<Rightarrow> HITLCheckpointEntry" where
  "hitlAdapter_result result =
     \<lparr>he_ID = en_ID result, he_TaskID = en_TaskID result, he_UserID = en_UserID result, he_OrgID = en_OrgID result,
      he_StepIndex = en_StepIndex result, he_Description = en_Description result, he_Tool = en_Tool result,
      he_Params = en_Params result, he_Options = en_Options result, he_Status = en_Status result\<rparr>"

text \<open>
  \<open>answered_by_queue owner sys entry r\<close>: \<open>r\<close> is what the adapter returns for \<open>entry\<close> after the queue's
  \<^verbatim>\<open>Submit\<close> came back, in the state \<open>sys\<close> of the queue, with the entry it was given.
\<close>

definition answered_by_queue :: "(string \<Rightarrow> string) \<Rightarrow> hq_sys \<Rightarrow> HITLCheckpointEntry \<Rightarrow> HITLCheckpointEntry \<Rightarrow> bool" where
  "answered_by_queue owner sys entry r \<longleftrightarrow> hq_reachable owner sys \<and>
     (\<exists>ref e. Returned ref (Some (en_Status e)) \<in> set (sy_log sys) \<and> gget (hq_heap (sy_q sys)) ref = Some e \<and>
        en_ID e = he_ID entry \<and> en_UserID e = he_UserID entry \<and> r = hitlAdapter_result e)"

text \<open>
  C30. Approval end to end: when the agent's queue is the modelled one, behind the adapter, every run
  of a tool that requires approval was approved by a person: in the queue's log there is the one
  decision on that checkpoint, it is \<^verbatim>\<open>approve\<close>, and it was taken by the owner of the task or by
  an administrator.
\<close>

theorem actions_approved_by_people:
  assumes "ExecuteTask env a t = (a', t', res, err)" and "ag_hitlQueue a" and "ag_trace a = []"
    and "ag_trace a' = xs @ Executed i step # ys" and "needs_approval env (ag_tools a) i step"
    and "\<And>entry r. Submitted entry (Inr r) \<in> set (ag_trace a') \<Longrightarrow> \<exists>sys. answered_by_queue owner sys entry r"
  shows "\<exists>sys ref c. hq_reachable owner sys \<and> decisions_of ref (sy_log sys) = [Decided ref c ''approve''] \<and>
    (cl_UserID c = t_UserID t \<or> is_admin c) \<and>
    (\<exists>e. gget (hq_heap (sy_q sys)) ref = Some e \<and> en_ID e = ''cp-'' @ t_ID t @ ''-'' @ strconv_Itoa (int i))"
proof -
  from ExecuteTask_stays [OF assms(1,2)] assms(3-5) have x: "xs \<noteq> []" "approval_of (t_ID t) (t_UserID t) i step (last xs)"
    by (auto simp: stays_def gated_def)
  then obtain entry r where er: "last xs = Submitted entry (Inr r)" "he_Status r = ''approve''" "he_UserID entry = t_UserID t"
    "he_ID entry = ''cp-'' @ t_ID t @ ''-'' @ strconv_Itoa (int i)"
    by (auto simp: approval_of_def split: observation.splits sum.splits)
  have "Submitted entry (Inr r) \<in> set (ag_trace a')" using assms(4) x(1) er(1) by (metis Un_iff last_in_set set_append)
  from assms(6) [OF this] obtain sys ref e where s: "hq_reachable owner sys" "Returned ref (Some (en_Status e)) \<in> set (sy_log sys)"
    "gget (hq_heap (sy_q sys)) ref = Some e" "en_ID e = he_ID entry" "en_UserID e = he_UserID entry" "r = hitlAdapter_result e"
    by (auto simp: answered_by_queue_def)
  from s(6) er(2) have st: "en_Status e = ''approve''" by (simp add: hitlAdapter_result_def)
  from hq_invD(1) [OF reachable_inv [OF s(1)] s(3)] st obtain c where
    "decisions_of ref (sy_log sys) = [Decided ref c ''approve'']" "cl_UserID c = en_UserID e \<or> is_admin c"
    by (auto simp: entry_inv_def resolved_ok_def)
  with s er show ?thesis by auto
qed

theorem actions_approved_by_people_witness:
  "\<exists>sys ref c. hq_reachable (\<lambda>_. ''u1'') sys \<and> decisions_of ref (sy_log sys) = [Decided ref c ''approve''] \<and> (cl_UserID c = ''u1'' \<or> is_admin c)"
proof -
  obtain a' t' r lt ys where X: "ExecuteTask (demo_agent_env ''approve'') demo_agent demo_pending = (a', t', Some r, None)"
    "ag_trace a' = [AskedLLM lt, Submitted demo_entry (Inr (demo_entry\<lparr>he_Status := ''approve''\<rparr>))] @ Executed 0 (pl_Steps demo_plan ! 0) # ys"
    "list_all talk ys"
    using demo_execution [of "''approve''"] by auto
  obtain s e where s: "hq_reachable (\<lambda>_. ''u1'') s" "Returned 7 (Some ''approve'') \<in> set (sy_log s)" "gget (hq_heap (sy_q s)) 7 = Some e"
    "en_Status e = ''approve''" "same_request e demo_checkpoint"
    using demo_returned by blast
  have "hitlAdapter_result e = demo_entry\<lparr>he_Status := ''approve''\<rparr>" "en_ID e = he_ID demo_entry" "en_UserID e = he_UserID demo_entry"
    using s(4,5) by (simp_all add: hitlAdapter_result_def demo_entry_def same_request_def demo_checkpoint_def)
  with s have "answered_by_queue (\<lambda>_. ''u1'') s demo_entry (demo_entry\<lparr>he_Status := ''approve''\<rparr>)"
    unfolding answered_by_queue_def by (metis (no_types))
  moreover have "entry = demo_entry \<and> x = demo_entry\<lparr>he_Status := ''approve''\<rparr>" if "Submitted entry (Inr x) \<in> set (ag_trace a')" for entry x
    using that X(2,3) by (auto simp: list_all_iff talk_def)
  ultimately have q: "\<exists>sys. answered_by_queue (\<lambda>_. ''u1'') sys entry x" if "Submitted entry (Inr x) \<in> set (ag_trace a')" for entry x
    using that by blast
  have "needs_approval (demo_agent_env ''approve'') (ag_tools demo_agent) 0 (pl_Steps demo_plan ! 0)"
    by (simp add: needs_approval_def demo_agent_defs demo_plan_def tools_Get_def)
  moreover have "ag_hitlQueue demo_agent" "ag_trace demo_agent = []" "t_UserID demo_pending = ''u1''"
    by (simp_all add: demo_agent_defs demo_pending_def fresh_task_def)
  ultimately show ?thesis using actions_approved_by_people [OF X(1) _ _ X(2) _ q] by auto
qed

end
