(* ===== verification/Rate_Limit.thy ===== *)
theory Rate_Limit
  imports Float64 Go_Prelude Go_Strings "HOL-Library.Multiset"
begin

text \<open>
  The rate limiters of \<^verbatim>\<open>internal/ratelimit/ratelimit.go\<close> (sliding window, token bucket, fixed
  window), \<^verbatim>\<open>internal/ratelimit/tiered.go\<close> (three token buckets per user) and
  \<^verbatim>\<open>internal/rateguard/rateguard.go\<close> (a sliding window per endpoint).

  The sliding window is stated once, as the locale \<open>sliding_window\<close>: a per-key log of admitted
  requests, pruned to the window and appended to when it has room. Its theorem (never more
  than the limit in any window, no refusal without a full window) is interpreted on both
  implementations.
\<close>

subsection \<open>The sliding window, abstractly\<close>

text \<open>The admitted requests of a sequence of requests.\<close>

primrec admitted :: "(gotime \<Rightarrow> 'k \<Rightarrow> 's \<Rightarrow> 's \<times> bool) \<Rightarrow> (gotime \<times> 'k) list \<Rightarrow> 's \<Rightarrow> (gotime \<times> 'k) list" where
  "admitted allow [] s = []"
| "admitted allow (r # rs) s =
     (if snd (allow (fst r) (snd r) s) then [r] else []) @ admitted allow rs (fst (allow (fst r) (snd r) s))"

primrec after_requests :: "(gotime \<Rightarrow> 'k \<Rightarrow> 's \<Rightarrow> 's \<times> bool) \<Rightarrow> (gotime \<times> 'k) list \<Rightarrow> 's \<Rightarrow> 's" where
  "after_requests allow [] s = s"
| "after_requests allow (r # rs) s = after_requests allow rs (fst (allow (fst r) (snd r) s))"

definition times_of :: "'k \<Rightarrow> (gotime \<times> 'k) list \<Rightarrow> gotime list" where
  "times_of k rs = map fst (filter (\<lambda>r. snd r = k) rs)"

definition in_window :: "gotime \<Rightarrow> gotime \<Rightarrow> gotime list \<Rightarrow> int" where
  "in_window x y ts = int (length (filter (\<lambda>t. x < t \<and> t \<le> y) ts))"

lemma times_of_simps [simp]:
  "times_of k [] = []" "times_of k (r # rs) = (if snd r = k then [fst r] else []) @ times_of k rs"
  "times_of k (rs @ rs') = times_of k rs @ times_of k rs'"
  by (simp_all add: times_of_def)

lemma length_filter_mono: "(\<And>x. x \<in> set xs \<Longrightarrow> P x \<Longrightarrow> Q x) \<Longrightarrow> length (filter P xs) \<le> length (filter Q xs)"
  by (induction xs) (auto intro: le_SucI)

locale sliding_window =
  fixes allow :: "gotime \<Rightarrow> 'k \<Rightarrow> 's \<Rightarrow> 's \<times> bool"
    and log :: "'s \<Rightarrow> 'k \<Rightarrow> gotime list"
    and inv :: "'s \<Rightarrow> bool"
    and limit :: "'k \<Rightarrow> int"
    and window :: "'k \<Rightarrow> duration"
    and valid :: "gotime \<Rightarrow> bool"
  assumes inv_kept: "inv s \<Longrightarrow> valid now \<Longrightarrow> inv (fst (allow now k s))"
    and other_log: "inv s \<Longrightarrow> valid now \<Longrightarrow> k' \<noteq> k \<Longrightarrow> log (fst (allow now k s)) k' = log s k'"
    and allow_iff: "inv s \<Longrightarrow> valid now \<Longrightarrow> snd (allow now k s) \<longleftrightarrow> int (length (filter (\<lambda>t. now - window k < t) (log s k))) < limit k"
    and own_log: "inv s \<Longrightarrow> valid now \<Longrightarrow> mset (log (fst (allow now k s)) k) =
      mset (filter (\<lambda>t. now - window k < t) (log s k) @ (if snd (allow now k s) then [now] else []))"
begin

text \<open>
  \<open>tracks k n ts s\<close>: the log is the part of the admitted times \<open>ts\<close> that is in the window ending
  at \<open>n\<close>, and no window holds more than the limit.
\<close>

definition tracks :: "'k \<Rightarrow> gotime \<Rightarrow> gotime list \<Rightarrow> 's \<Rightarrow> bool" where
  "tracks k n ts s \<longleftrightarrow> inv s \<and> mset (log s k) = mset (filter (\<lambda>t. n - window k < t) ts) \<and> (\<forall>t \<in> set ts. t \<le> n) \<and>
     (\<forall>x. in_window x (x + window k) ts \<le> max 0 (limit k))"

lemma tracks_allow:
  assumes T: "tracks k n ts s" and "n \<le> now" and window_pos: "0 < window k" and v: "valid now"
  shows "tracks k now (ts @ (if snd (allow now k s) then [now] else [])) (fst (allow now k s))"
    and "snd (allow now k s) \<longleftrightarrow> in_window (now - window k) now ts < limit k"
proof -
  have i: "inv s" and l: "mset (log s k) = mset (filter (\<lambda>t. n - window k < t) ts)" and le: "\<forall>t \<in> set ts. t \<le> n"
    and b: "\<And>x. in_window x (x + window k) ts \<le> max 0 (limit k)" using T by (auto simp: tracks_def)
  have live: "mset (filter (\<lambda>t. now - window k < t) (log s k)) = mset (filter (\<lambda>t. now - window k < t) ts)"
    unfolding mset_filter l filter_filter_mset by (rule filter_mset_cong0) (use assms(2) in auto)
  have cnt: "in_window (now - window k) now ts = int (length (filter (\<lambda>t. now - window k < t) ts))"
    unfolding in_window_def by (intro arg_cong [where f = int] arg_cong [where f = length] filter_cong) (use le assms(2) in auto)
  show ok: "snd (allow now k s) \<longleftrightarrow> in_window (now - window k) now ts < limit k"
    using allow_iff [OF i v, of k] mset_eq_length [OF live] cnt by simp
  have "in_window x (x + window k) (ts @ [now]) \<le> max 0 (limit k)" if "snd (allow now k s)" for x
  proof (cases "x < now \<and> now \<le> x + window k")
    case True
    have "length (filter (\<lambda>t. x < t \<and> t \<le> x + window k) ts) \<le> length (filter (\<lambda>t. now - window k < t) ts)"
      using True by (intro length_filter_mono) auto
    then have "in_window x (x + window k) ts \<le> in_window (now - window k) now ts" by (simp add: cnt) (simp add: in_window_def)
    with ok that True show ?thesis by (simp add: in_window_def)
  next
    case False
    then show ?thesis using b [of x] by (auto simp: in_window_def)
  qed
  then show "tracks k now (ts @ (if snd (allow now k s) then [now] else [])) (fst (allow now k s))"
    using inv_kept [OF i v, of k] own_log [OF i v, of k] live le assms(2) b window_pos by (auto simp: tracks_def)
qed

lemma tracks_other:
  assumes "tracks k n ts s" and "k' \<noteq> k" and "valid now"
  shows "tracks k n ts (fst (allow now k' s))"
  using assms inv_kept [of s now k'] other_log [of s now k k'] by (auto simp: tracks_def)

lemma tracks_run:
  "tracks k n ts s \<Longrightarrow> 0 < window k \<Longrightarrow> sorted (n # map fst rs) \<Longrightarrow> \<forall>r \<in> set rs. fst r \<le> b \<and> valid (fst r) \<Longrightarrow> n \<le> b \<Longrightarrow>
     \<exists>m \<le> b. tracks k m (ts @ times_of k (admitted allow rs s)) (after_requests allow rs s)"
proof (induction rs arbitrary: n ts s)
  case (Cons r rs)
  from Cons.prems have le: "n \<le> fst r" "fst r \<le> b" and so: "sorted (fst r # map fst rs)" "sorted (n # map fst rs)" and v: "valid (fst r)" by auto
  show ?case
  proof (cases "snd r = k")
    case True
    from Cons.IH [OF tracks_allow(1) [OF Cons.prems(1) le(1) Cons.prems(2) v] Cons.prems(2) so(1)] Cons.prems(4) le(2) True show ?thesis
      by (auto split: if_splits)
  next
    case False
    from Cons.IH [OF tracks_other [OF Cons.prems(1) False v] Cons.prems(2) so(2)] Cons.prems(4,5) False show ?thesis by auto
  qed
qed auto

text \<open>The two guarantees, for requests in the order of their arrival.\<close>

lemma window_bound:
  assumes "inv s" "log s k = []" "sorted (map fst rs)" "0 < window k" "\<forall>r \<in> set rs. valid (fst r)"
  shows "in_window x (x + window k) (times_of k (admitted allow rs s)) \<le> max 0 (limit k)"
proof (cases rs)
  case (Cons r rs')
  have t: "tracks k (fst r) [] s" using assms(1,2) by (simp add: tracks_def in_window_def)
  have "sorted (fst r # map fst rs)" "\<forall>q \<in> set rs. fst q \<le> Max (fst ` set rs) \<and> valid (fst q)" "fst r \<le> Max (fst ` set rs)"
    using assms(3,5) Cons by simp_all
  from tracks_run [OF t assms(4) this] have "\<exists>m. tracks k m ([] @ times_of k (admitted allow rs s)) (after_requests allow rs s)"
    by blast
  then show ?thesis by (auto simp: tracks_def)
qed (simp add: in_window_def)

lemma refused_only_when_full:
  assumes "inv s" "log s k = []" "sorted (map fst rs @ [now])" "0 < window k" "\<forall>r \<in> set rs. valid (fst r)" "valid now"
  shows "snd (allow now k (after_requests allow rs s)) \<longleftrightarrow>
    in_window (now - window k) now (times_of k (admitted allow rs s)) < limit k"
proof -
  define n where "n = (case rs of [] \<Rightarrow> now | r # _ \<Rightarrow> fst r)"
  have t: "tracks k n [] s" using assms(1,2) by (simp add: tracks_def in_window_def)
  have n: "sorted (n # map fst rs)" "n \<le> now" "\<forall>r \<in> set rs. fst r \<le> now \<and> valid (fst r)"
    using assms(3,5) by (cases rs; auto simp: n_def sorted_append)+
  from tracks_run [OF t assms(4) n(1,3,2)] obtain m where m: "m \<le> now" "tracks k m (times_of k (admitted allow rs s)) (after_requests allow rs s)" by auto
  from tracks_allow(2) [OF m(2,1) assms(4,6)] show ?thesis .
qed

end

subsection \<open>The limiter of \<^verbatim>\<open>ratelimit.go\<close>\<close>

datatype Algorithm = SlidingWindow | TokenBucket | FixedWindow

record windowBucket =
  wb_requests :: "gotime list"
  wb_tokenCount :: f64
  wb_lastRefill :: gotime

record Limiter =
  lm_algorithm :: Algorithm
  lm_limit :: int
  lm_window :: duration
  lm_maxTokens :: f64
  lm_refillRate :: f64
  lm_buckets :: "(string, windowBucket) gomap"
  lm_stopped :: bool

definition NewLimiter :: "Algorithm \<Rightarrow> int \<Rightarrow> duration \<Rightarrow> Limiter" where
  "NewLimiter algorithm limit window =
     \<lparr>lm_algorithm = algorithm, lm_limit = limit, lm_window = window, lm_maxTokens = f_of_int limit,
      lm_refillRate = fdiv (f_of_int limit) (duration_Seconds window), lm_buckets = [], lm_stopped = False\<rparr>"

text \<open>\<open>created\<close>: the clock reading when a bucket has to be created. The bucket stays in the map and is updated there.\<close>

definition getOrCreateBucket :: "gotime \<Rightarrow> string \<Rightarrow> Limiter \<Rightarrow> Limiter \<times> windowBucket" where
  "getOrCreateBucket created key l =
     (case gget (lm_buckets l) key of
        Some bucket \<Rightarrow> (l, bucket)
      | None \<Rightarrow>
          let initTokens = (if lm_algorithm l = TokenBucket then lm_maxTokens l else 0);
              bucket = \<lparr>wb_requests = [], wb_tokenCount = initTokens, wb_lastRefill = created\<rparr>
          in (l\<lparr>lm_buckets := gput key bucket (lm_buckets l)\<rparr>, bucket))"

definition store_bucket :: "string \<Rightarrow> windowBucket \<Rightarrow> Limiter \<Rightarrow> Limiter" where
  "store_bucket key b l = l\<lparr>lm_buckets := gput key b (lm_buckets l)\<rparr>"

definition allowSlidingWindow :: "gotime \<Rightarrow> gotime \<Rightarrow> string \<Rightarrow> Limiter \<Rightarrow> Limiter \<times> bool" where
  "allowSlidingWindow created now key l0 =
     (case getOrCreateBucket created key l0 of
        (l, bucket) \<Rightarrow>
          let cutoff = time_Add now (- lm_window l);
              valid = filter (\<lambda>t. cutoff < t) (wb_requests bucket);
              b1 = bucket\<lparr>wb_requests := valid\<rparr>
          in if lm_limit l \<le> int (length valid) then (store_bucket key b1 l, False)
             else (store_bucket key (b1\<lparr>wb_requests := valid @ [now]\<rparr>) l, True))"

definition allowTokenBucket :: "gotime \<Rightarrow> gotime \<Rightarrow> string \<Rightarrow> Limiter \<Rightarrow> Limiter \<times> bool" where
  "allowTokenBucket created now key l0 =
     (case getOrCreateBucket created key l0 of
        (l, bucket) \<Rightarrow>
          let elapsed = duration_Seconds (time_Sub now (wb_lastRefill bucket));
              c1 = fadd (wb_tokenCount bucket) (fmul elapsed (lm_refillRate l));
              c2 = (if lm_maxTokens l < c1 then lm_maxTokens l else c1);
              b1 = bucket\<lparr>wb_tokenCount := c2, wb_lastRefill := now\<rparr>
          in if c2 < 1 then (store_bucket key b1 l, False)
             else (store_bucket key (b1\<lparr>wb_tokenCount := fsub c2 1\<rparr>) l, True))"

definition allowFixedWindow :: "gotime \<Rightarrow> gotime \<Rightarrow> string \<Rightarrow> Limiter \<Rightarrow> Limiter \<times> bool" where
  "allowFixedWindow created now key l0 =
     (case getOrCreateBucket created key l0 of
        (l, bucket) \<Rightarrow>
          let windowStart = time_Truncate now (lm_window l);
              b1 = (if wb_lastRefill bucket < windowStart
                    then bucket\<lparr>wb_tokenCount := 0, wb_lastRefill := windowStart\<rparr> else bucket)
          in if f_of_int (lm_limit l) \<le> wb_tokenCount b1 then (store_bucket key b1 l, False)
             else (store_bucket key (b1\<lparr>wb_tokenCount := fadd (wb_tokenCount b1) 1\<rparr>) l, True))"

definition AllowKey :: "gotime \<Rightarrow> gotime \<Rightarrow> string \<Rightarrow> Limiter \<Rightarrow> Limiter \<times> bool" where
  "AllowKey created now key l =
     (case lm_algorithm l of
        TokenBucket \<Rightarrow> allowTokenBucket created now key l
      | FixedWindow \<Rightarrow> allowFixedWindow created now key l
      | SlidingWindow \<Rightarrow> allowSlidingWindow created now key l)"

definition lm_Allow :: "gotime \<Rightarrow> gotime \<Rightarrow> Limiter \<Rightarrow> Limiter \<times> bool" where
  "lm_Allow created now l = AllowKey created now ''global'' l"

text \<open>One tick of the cleanup goroutine.\<close>

definition lm_cleanup :: "gotime \<Rightarrow> Limiter \<Rightarrow> Limiter" where
  "lm_cleanup now l = l\<lparr>lm_buckets := gfilter (\<lambda>k b. \<not> 1 * Hour < time_Sub now (wb_lastRefill b)) (lm_buckets l)\<rparr>"

definition lm_Reset :: "Limiter \<Rightarrow> Limiter" where
  "lm_Reset l = l\<lparr>lm_buckets := []\<rparr>"

definition lm_ResetKey :: "string \<Rightarrow> Limiter \<Rightarrow> Limiter" where
  "lm_ResetKey key l = l\<lparr>lm_buckets := gdel key (lm_buckets l)\<rparr>"

text \<open>\<^verbatim>\<open>Stop\<close> closes the channel that ends the cleanup goroutine; closing it twice panics (\<open>None\<close>).\<close>

definition lm_Stop :: "Limiter \<Rightarrow> Limiter option" where
  "lm_Stop l = (if lm_stopped l then None else Some (l\<lparr>lm_stopped := True\<rparr>))"

definition bucket_log :: "Limiter \<Rightarrow> string \<Rightarrow> gotime list" where
  "bucket_log l key = (case gget (lm_buckets l) key of None \<Rightarrow> [] | Some b \<Rightarrow> wb_requests b)"

lemmas limiter_ops = AllowKey_def allowSlidingWindow_def getOrCreateBucket_def store_bucket_def Let_def

interpretation limiter: sliding_window "\<lambda>now key l. AllowKey (cr now) now key l" bucket_log
    "\<lambda>l. lm_algorithm l = SlidingWindow \<and> lm_limit l = n \<and> lm_window l = w" "\<lambda>_. n" "\<lambda>_. w" "\<lambda>_. True" for n w cr
  by unfold_locales (auto simp: limiter_ops bucket_log_def time_Add_def split: option.splits if_splits)

subsection \<open>The endpoint limiter of \<^verbatim>\<open>rateguard.go\<close>\<close>

record EndpointRule =
  er_Pattern :: string
  er_Limit :: int
  er_Window :: duration
  er_Burst :: int

record EndpointConfig =
  ec_Rules :: "EndpointRule list"
  ec_DefaultLimit :: int
  ec_DefaultWindow :: duration

definition DefaultEndpointConfig :: EndpointConfig where
  "DefaultEndpointConfig =
     \<lparr>ec_Rules = [\<lparr>er_Pattern = ''/api/v1/scan'', er_Limit = 10, er_Window = Minute, er_Burst = 2\<rparr>,
                 \<lparr>er_Pattern = ''/api/v1/chat'', er_Limit = 30, er_Window = Minute, er_Burst = 0\<rparr>,
                 \<lparr>er_Pattern = ''/api/v1/tasks'', er_Limit = 50, er_Window = Minute, er_Burst = 0\<rparr>],
      ec_DefaultLimit = 100, ec_DefaultWindow = Minute\<rparr>"

record http_req =
  hr_Method :: string
  hr_Path :: string

record EndpointLimiter =
  el_config :: EndpointConfig
  el_windows :: "(string, gotime list) gomap"
  el_keyFunc :: "http_req \<Rightarrow> string"

definition defaultKeyFunc :: "http_req \<Rightarrow> string" where
  "defaultKeyFunc r = hr_Method r @ '' '' @ hr_Path r"

definition NewEndpointLimiter :: "EndpointConfig \<Rightarrow> EndpointLimiter" where
  "NewEndpointLimiter cfg = \<lparr>el_config = cfg, el_windows = [], el_keyFunc = defaultKeyFunc\<rparr>"

definition SetKeyFunc :: "(http_req \<Rightarrow> string) \<Rightarrow> EndpointLimiter \<Rightarrow> EndpointLimiter" where
  "SetKeyFunc fn el = el\<lparr>el_keyFunc := fn\<rparr>"

definition findRule :: "EndpointConfig \<Rightarrow> string \<Rightarrow> EndpointRule" where
  "findRule cfg path =
     (case filter (\<lambda>rule. er_Pattern rule = path) (ec_Rules cfg) of
        rule # _ \<Rightarrow> rule
      | [] \<Rightarrow> \<lparr>er_Pattern = [], er_Limit = ec_DefaultLimit cfg, er_Window = ec_DefaultWindow cfg, er_Burst = 0\<rparr>)"

definition rule_limit :: "EndpointRule \<Rightarrow> int" where
  "rule_limit rule = (if 0 < er_Burst rule then er_Limit rule + er_Burst rule else er_Limit rule)"

definition el_Allow :: "gotime \<Rightarrow> http_req \<Rightarrow> EndpointLimiter \<Rightarrow> EndpointLimiter \<times> bool" where
  "el_Allow now r el =
     (let key = el_keyFunc el r;
          rule = findRule (el_config el) (hr_Path r);
          timestamps = (case gget (el_windows el) key of None \<Rightarrow> [] | Some ts \<Rightarrow> ts);
          cutoff = time_Add now (- er_Window rule);
          valid = filter (\<lambda>ts. cutoff < ts) timestamps
      in if rule_limit rule \<le> int (length valid) then (el\<lparr>el_windows := gput key valid (el_windows el)\<rparr>, False)
         else (el\<lparr>el_windows := gput key (valid @ [now]) (el_windows el)\<rparr>, True))"

text \<open>\<^verbatim>\<open>Middleware\<close>: the status it answers with, \<open>None\<close> when the next handler runs.\<close>

definition el_Middleware :: "gotime \<Rightarrow> http_req \<Rightarrow> EndpointLimiter \<Rightarrow> EndpointLimiter \<times> int option" where
  "el_Middleware now r el = (case el_Allow now r el of (el', ok) \<Rightarrow> (el', if \<not> ok then Some 429 else None))"

definition el_Cleanup :: "gotime \<Rightarrow> EndpointLimiter \<Rightarrow> EndpointLimiter" where
  "el_Cleanup now el =
     (let cutoff = time_Add now (- ec_DefaultWindow (el_config el))
      in el\<lparr>el_windows := filter (\<lambda>(key, ts). ts \<noteq> []) (map (\<lambda>(key, ts). (key, filter (\<lambda>t. cutoff < t) ts)) (el_windows el))\<rparr>)"

text \<open>
  The view of the endpoint limiter the theorem is about: a family \<open>rep\<close> of requests, one per key
  of the limiter.
\<close>

definition endpoint_log :: "('k \<Rightarrow> http_req) \<Rightarrow> EndpointLimiter \<Rightarrow> 'k \<Rightarrow> gotime list" where
  "endpoint_log rep el k = (case gget (el_windows el) (el_keyFunc el (rep k)) of None \<Rightarrow> [] | Some ts \<Rightarrow> ts)"

definition endpoint_ok :: "EndpointConfig \<Rightarrow> ('k \<Rightarrow> http_req) \<Rightarrow> EndpointLimiter \<Rightarrow> bool" where
  "endpoint_ok cfg rep el \<longleftrightarrow> el_config el = cfg \<and> inj (\<lambda>k. el_keyFunc el (rep k))"

interpretation endpoint: sliding_window "\<lambda>now k el. el_Allow now (rep k) el" "endpoint_log rep" "endpoint_ok cfg rep"
    "\<lambda>k. rule_limit (findRule cfg (hr_Path (rep k)))" "\<lambda>k. er_Window (findRule cfg (hr_Path (rep k)))" "\<lambda>_. True" for cfg rep
  by unfold_locales (auto simp: el_Allow_def endpoint_log_def endpoint_ok_def time_Add_def Let_def inj_def split: option.splits if_splits)

subsection \<open>The tiered limiter of \<^verbatim>\<open>tiered.go\<close>\<close>

record Tier =
  RequestsPerMinute :: int
  RequestsPerHour :: int
  RequestsPerDay :: int

definition FreeTier :: Tier where
  "FreeTier = \<lparr>RequestsPerMinute = 30, RequestsPerHour = 500, RequestsPerDay = 5000\<rparr>"

definition ProTier :: Tier where
  "ProTier = \<lparr>RequestsPerMinute = 120, RequestsPerHour = 5000, RequestsPerDay = 50000\<rparr>"

definition TeamTier :: Tier where
  "TeamTier = \<lparr>RequestsPerMinute = 600, RequestsPerHour = 20000, RequestsPerDay = 200000\<rparr>"

definition GetTier :: "string \<Rightarrow> Tier" where
  "GetTier plan = (if plan = ''pro'' then ProTier else if plan = ''team'' \<or> plan = ''enterprise'' then TeamTier else FreeTier)"

definition tierName :: "Tier \<Rightarrow> string" where
  "tierName t = (if t = TeamTier then ''team'' else if t = ProTier then ''pro'' else ''free'')"

record tokenBucket =
  tb_minuteTokens :: f64
  tb_hourTokens :: f64
  tb_dayTokens :: f64
  tb_lastRefill :: gotime
  tb_tier :: Tier

type_synonym TieredRateLimiter = "(string, tokenBucket) gomap"

definition NewTieredRateLimiter :: TieredRateLimiter where
  "NewTieredRateLimiter = []"

definition full_bucket :: "gotime \<Rightarrow> Tier \<Rightarrow> tokenBucket" where
  "full_bucket now tier =
     \<lparr>tb_minuteTokens = f_of_int (RequestsPerMinute tier), tb_hourTokens = f_of_int (RequestsPerHour tier),
      tb_dayTokens = f_of_int (RequestsPerDay tier), tb_lastRefill = now, tb_tier = tier\<rparr>"

definition cap :: "f64 \<Rightarrow> f64 \<Rightarrow> f64" where
  "cap m x = (if m < x then m else x)"

definition refill :: "gotime \<Rightarrow> Tier \<Rightarrow> tokenBucket \<Rightarrow> tokenBucket" where
  "refill now tier b =
     (let elapsed0 = time_Sub now (tb_lastRefill b)
      in if elapsed0 < Second then b
         else
           let elapsed = elapsed0 - elapsed0 mod Second; secs = duration_Seconds elapsed
           in b\<lparr>tb_minuteTokens := cap (f_of_int (RequestsPerMinute tier))
                  (fadd (tb_minuteTokens b) (fmul (fdiv secs 60) (f_of_int (RequestsPerMinute tier)))),
                tb_hourTokens := cap (f_of_int (RequestsPerHour tier))
                  (fadd (tb_hourTokens b) (fmul (fdiv secs 3600) (f_of_int (RequestsPerHour tier)))),
                tb_dayTokens := cap (f_of_int (RequestsPerDay tier))
                  (fadd (tb_dayTokens b) (fmul (fdiv secs 86400) (f_of_int (RequestsPerDay tier)))),
                tb_lastRefill := now\<rparr>)"

text \<open>The part of \<^verbatim>\<open>Middleware\<close> under the limiter's lock: find, create or re-tier the bucket.\<close>

definition tiered_bucket :: "gotime \<Rightarrow> string \<Rightarrow> Tier \<Rightarrow> TieredRateLimiter \<Rightarrow> tokenBucket" where
  "tiered_bucket now key tier l =
     (case gget l key of
        None \<Rightarrow> full_bucket now tier
      | Some bucket \<Rightarrow> if tb_tier bucket \<noteq> tier then full_bucket now tier else bucket)"

text \<open>\<^verbatim>\<open>Middleware\<close>: the remaining requests reported to the client, or \<open>None\<close> for the answer 429.\<close>

definition tiered_Middleware :: "gotime \<Rightarrow> gotime \<Rightarrow> string \<Rightarrow> Tier \<Rightarrow> TieredRateLimiter \<Rightarrow> TieredRateLimiter \<times> int option" where
  "tiered_Middleware created now key tier l =
     (let b = refill now tier (tiered_bucket created key tier l)
      in if tb_minuteTokens b < 1 \<or> tb_hourTokens b < 1 \<or> tb_dayTokens b < 1 then (gput key b l, None)
         else
           let b' = b\<lparr>tb_minuteTokens := fsub (tb_minuteTokens b) 1, tb_hourTokens := fsub (tb_hourTokens b) 1,
                      tb_dayTokens := fsub (tb_dayTokens b) 1\<rparr>
           in (gput key b' l, Some (int_of_f (tb_minuteTokens b'))))"

definition tiered_cleanup :: "gotime \<Rightarrow> TieredRateLimiter \<Rightarrow> TieredRateLimiter" where
  "tiered_cleanup now l = gfilter (\<lambda>k b. \<not> 1 * Hour < time_Since now (tb_lastRefill b)) l"

inductive tiered_reachable :: "TieredRateLimiter \<Rightarrow> bool" where
  "tiered_reachable NewTieredRateLimiter"
| "tiered_reachable l \<Longrightarrow> tiered_reachable (fst (tiered_Middleware created now key (GetTier plan) l))"
| "tiered_reachable l \<Longrightarrow> tiered_reachable (tiered_cleanup now l)"

definition tier_ok :: "Tier \<Rightarrow> bool" where
  "tier_ok t \<longleftrightarrow> 0 \<le> RequestsPerMinute t \<and> RequestsPerMinute t \<le> 2 ^ 53 \<and> 0 \<le> RequestsPerHour t \<and> RequestsPerHour t \<le> 2 ^ 53 \<and>
     0 \<le> RequestsPerDay t \<and> RequestsPerDay t \<le> 2 ^ 53"

definition tokens_ok :: "int \<Rightarrow> f64 \<Rightarrow> bool" where
  "tokens_ok n x \<longleftrightarrow> is_f64 x \<and> 0 \<le> x \<and> x \<le> of_int n"

definition bucket_ok :: "tokenBucket \<Rightarrow> bool" where
  "bucket_ok b \<longleftrightarrow> tier_ok (tb_tier b) \<and> tokens_ok (RequestsPerMinute (tb_tier b)) (tb_minuteTokens b) \<and>
     tokens_ok (RequestsPerHour (tb_tier b)) (tb_hourTokens b) \<and> tokens_ok (RequestsPerDay (tb_tier b)) (tb_dayTokens b)"

lemma GetTier_ok [simp]: "tier_ok (GetTier plan)"
  by (simp add: tier_ok_def GetTier_def FreeTier_def ProTier_def TeamTier_def)

lemma tokens_full: "0 \<le> n \<Longrightarrow> n \<le> 2 ^ 53 \<Longrightarrow> tokens_ok n (f_of_int n)"
  by (simp add: tokens_ok_def f_of_int_def fl_of_int is_f64_def)

lemma duration_Seconds_nonneg: "0 \<le> d \<Longrightarrow> 0 \<le> duration_Seconds d"
  by (simp add: duration_Seconds_def Let_def float_ops go_div_pos Second_def f64.rnd_nonneg minus_div_mult_eq_mod)

lemma tokens_refill:
  assumes "tokens_ok n x" and "0 \<le> y" and "0 \<le> n" and "n \<le> 2 ^ 53"
  shows "tokens_ok n (cap (f_of_int n) (fadd x y))"
  using assms f64.rnd_nonneg [of "x + y"] by (auto simp: tokens_ok_def cap_def fadd_def f_of_int_def fl_of_int is_f64_def)

lemma tokens_consume: "tokens_ok n x \<Longrightarrow> 1 \<le> x \<Longrightarrow> tokens_ok n (fsub x 1)"
  using f64.sub_one_bounds [of x] by (auto simp: tokens_ok_def fsub_def is_f64_def)

lemma full_bucket_ok: "tier_ok t \<Longrightarrow> bucket_ok (full_bucket now t)"
  by (simp add: bucket_ok_def full_bucket_def tier_ok_def tokens_full)

lemma refill_ok: "bucket_ok b \<Longrightarrow> bucket_ok (refill now (tb_tier b) b)"
proof -
  assume b: "bucket_ok b"
  let ?e = "time_Sub now (tb_lastRefill b)"
  have "0 \<le> duration_Seconds (?e - ?e mod Second)" if "\<not> ?e < Second"
    using that by (intro duration_Seconds_nonneg) (simp add: minus_mod_eq_div_mult Second_def pos_imp_zdiv_nonneg_iff)
  then have "0 \<le> fmul (fdiv (duration_Seconds (?e - ?e mod Second)) c) (f_of_int n)" if "\<not> ?e < Second" "0 \<le> n" "0 < c" for n c
    using that by (simp add: float_ops f64.rnd_nonneg)
  with b show ?thesis
    by (auto simp: refill_def Let_def bucket_ok_def tier_ok_def intro!: tokens_refill)
qed

lemma tiered_step_ok:
  assumes "tier_ok tier" and "\<forall>k b. gget l k = Some b \<longrightarrow> bucket_ok b"
  shows "bucket_ok (refill now tier (tiered_bucket created key tier l)) \<and>
    (\<forall>k b. gget (fst (tiered_Middleware created now key tier l)) k = Some b \<longrightarrow> bucket_ok b)"
proof -
  let ?b = "tiered_bucket created key tier l"
  have t: "tb_tier ?b = tier" "bucket_ok ?b"
    using assms full_bucket_ok [OF assms(1)] by (auto simp: tiered_bucket_def full_bucket_def split: option.split)
  then have r: "bucket_ok (refill now tier ?b)" using refill_ok [of ?b now] by simp
  then show ?thesis using assms(2)
    by (auto simp: tiered_Middleware_def Let_def bucket_ok_def intro: tokens_consume split: if_splits)
qed

lemma tiered_Middleware_wf: "wf_gomap l \<Longrightarrow> wf_gomap (fst (tiered_Middleware created now key tier l))"
  by (simp add: tiered_Middleware_def Let_def)

lemma tiered_reachable_ok: "tiered_reachable l \<Longrightarrow> wf_gomap l \<and> (\<forall>k b. gget l k = Some b \<longrightarrow> bucket_ok b)"
proof (induction rule: tiered_reachable.induct)
  case 1
  then show ?case by (simp add: NewTieredRateLimiter_def)
next
  case (2 l created now key plan)
  then show ?case using tiered_step_ok [OF GetTier_ok, of l now plan created key] tiered_Middleware_wf by blast
next
  case (3 l now)
  then show ?case by (auto simp: tiered_cleanup_def gget_gfilter split: option.splits if_splits)
qed

subsection \<open>Fixed windows\<close>

text \<open>
  \<open>fixed_inv\<close>: the counter of the bucket is an exact integer that bounds the admitted requests of
  the current aligned window, and no aligned window exceeded the limit.
\<close>

definition in_aligned :: "duration \<Rightarrow> gotime \<Rightarrow> gotime list \<Rightarrow> int" where
  "in_aligned w x ts = int (length (filter (\<lambda>t. time_Truncate t w = x) ts))"

definition fixed_inv :: "int \<Rightarrow> duration \<Rightarrow> string \<Rightarrow> gotime \<Rightarrow> gotime list \<Rightarrow> Limiter \<Rightarrow> bool" where
  "fixed_inv n w key m ts l \<longleftrightarrow>
     lm_algorithm l = FixedWindow \<and> lm_limit l = n \<and> lm_window l = w \<and> (\<forall>x. in_aligned w x ts \<le> max 0 n) \<and>
     (case gget (lm_buckets l) key of
        None \<Rightarrow> ts = []
      | Some b \<Rightarrow> \<exists>c. wb_tokenCount b = of_int c \<and> 0 \<le> c \<and> c \<le> max 0 n \<and> wb_lastRefill b \<le> m \<and>
          (\<forall>t \<in> set ts. time_Truncate t w \<le> wb_lastRefill b) \<and> in_aligned w (time_Truncate (wb_lastRefill b) w) ts \<le> c)"

lemma Truncate_same: "time_Truncate t w \<le> u \<Longrightarrow> u \<le> t \<Longrightarrow> time_Truncate u w = time_Truncate t w"
proof -
  assume a: "time_Truncate t w \<le> u" "u \<le> t"
  show ?thesis
  proof (cases "w \<le> 0")
    case False
    then have w: "0 < w" by simp
    have "t - t mod w = (t div w) * w" by (simp add: minus_mod_eq_div_mult)
    with a w have l: "(t div w) * w \<le> u" by (simp add: time_Truncate_def)
    have "t < (t div w + 1) * w" using w by (simp add: distrib_right) (metis div_mod_decomp_int pos_mod_bound add_less_cancel_left)
    with a(2) have "u < (t div w + 1) * w" by linarith
    with l have "u div w = t div w"
      by (intro int_div_pos_eq [of u w "t div w" "u - w * (t div w)"]) (simp_all add: algebra_simps)
    with w show ?thesis by (simp add: time_Truncate_def minus_mod_eq_div_mult)
  qed (use a in \<open>simp add: time_Truncate_def\<close>)
qed

lemma fixed_step:
  assumes I: "fixed_inv n w key m ts l" and "m \<le> now" and "created \<le> now" and n: "\<bar>n\<bar> < 2 ^ 53"
  shows "fixed_inv n w key now (ts @ (if snd (AllowKey created now key l) then [now] else [])) (fst (AllowKey created now key l))"
proof -
  define b0 where "b0 = (case gget (lm_buckets l) key of Some b \<Rightarrow> b | None \<Rightarrow> \<lparr>wb_requests = [], wb_tokenCount = 0, wb_lastRefill = created\<rparr>)"
  have l: "lm_algorithm l = FixedWindow" "lm_limit l = n" "lm_window l = w" and b: "\<And>x. in_aligned w x ts \<le> max 0 n"
    using I by (auto simp: fixed_inv_def)
  obtain c0 where c0: "wb_tokenCount b0 = of_int c0" "0 \<le> c0" "c0 \<le> max 0 n" "wb_lastRefill b0 \<le> now"
      "\<forall>t \<in> set ts. time_Truncate t w \<le> wb_lastRefill b0" "in_aligned w (time_Truncate (wb_lastRefill b0) w) ts \<le> c0"
    using I assms(2,3) by (fastforce simp: fixed_inv_def b0_def in_aligned_def split: option.splits)
  let ?ws = "time_Truncate now w"
  define b1 where "b1 = (if wb_lastRefill b0 < ?ws then b0\<lparr>wb_tokenCount := 0, wb_lastRefill := ?ws\<rparr> else b0)"
  have ws: "?ws \<le> now" by (rule time_Truncate_le)
  obtain c where c: "wb_tokenCount b1 = of_int c" "0 \<le> c" "c \<le> max 0 n" "wb_lastRefill b1 \<le> now" "time_Truncate (wb_lastRefill b1) w = ?ws"
      "?ws \<le> wb_lastRefill b1" "\<forall>t \<in> set ts. time_Truncate t w \<le> wb_lastRefill b1" "in_aligned w ?ws ts \<le> c"
  proof (cases "wb_lastRefill b0 < ?ws")
    case True
    then have "in_aligned w ?ws ts = 0" using c0(5) by (auto simp: in_aligned_def filter_empty_conv)
    with True c0 ws Truncate_same [of now w ?ws] show thesis by (intro that [of 0]) (auto simp: b1_def)
  next
    case False
    with Truncate_same [of now w "wb_lastRefill b0"] c0 show thesis by (intro that [of c0]) (auto simp: b1_def)
  qed
  have A: "AllowKey created now key l =
    (if n \<le> c then (l\<lparr>lm_buckets := gput key b1 (if gget (lm_buckets l) key = None then gput key b0 (lm_buckets l) else lm_buckets l)\<rparr>, False)
     else (l\<lparr>lm_buckets := gput key (b1\<lparr>wb_tokenCount := of_int (c + 1)\<rparr>) (if gget (lm_buckets l) key = None then gput key b0 (lm_buckets l) else lm_buckets l)\<rparr>, True))"
  proof -
    have "f_of_int n = of_int n" using n by (simp add: f_of_int_def fl_of_int)
    moreover have "fadd (of_int c) 1 = of_int (c + 1)" if "\<not> n \<le> c"
      using that c(2,3) n fl_of_int [of "c + 1"] by (simp add: fadd_def)
    moreover have "getOrCreateBucket created key l =
      (if gget (lm_buckets l) key = None then l\<lparr>lm_buckets := gput key b0 (lm_buckets l)\<rparr> else l, b0)"
      using l by (simp add: getOrCreateBucket_def b0_def Let_def split: option.split)
    ultimately show ?thesis using l c(1)
      by (simp add: AllowKey_def allowFixedWindow_def store_bucket_def b1_def [symmetric])
  qed
  have cnt: "in_aligned w x (ts @ [now]) = in_aligned w x ts + (if x = ?ws then 1 else 0)" for x by (auto simp: in_aligned_def)
  show ?thesis
  proof (cases "n \<le> c")
    case True
    with A l b c show ?thesis by (auto simp: fixed_inv_def)
  next
    case False
    have "in_aligned w x (ts @ [now]) \<le> max 0 n" for x using b [of x] c(8) False cnt [of x] by auto
    with False A l c cnt show ?thesis by (auto simp: fixed_inv_def intro!: exI [of _ "c + 1"])
  qed
qed

lemma fixed_other:
  assumes "fixed_inv n w key m ts l" and "key' \<noteq> key"
  shows "fixed_inv n w key m ts (fst (AllowKey created now key' l))"
  using assms by (auto simp: fixed_inv_def AllowKey_def allowFixedWindow_def getOrCreateBucket_def store_bucket_def Let_def split: option.splits)

lemma fixed_run:
  "fixed_inv n w key m ts l \<Longrightarrow> sorted (m # map fst rs) \<Longrightarrow> \<forall>t. cr t \<le> t \<Longrightarrow> \<bar>n\<bar> < 2 ^ 53 \<Longrightarrow>
     \<exists>m'. fixed_inv n w key m' (ts @ times_of key (admitted (\<lambda>now k l. AllowKey (cr now) now k l) rs l))
            (after_requests (\<lambda>now k l. AllowKey (cr now) now k l) rs l)"
proof (induction rs arbitrary: m ts l)
  case (Cons r rs)
  from Cons.prems have le: "m \<le> fst r" "cr (fst r) \<le> fst r" and so: "sorted (fst r # map fst rs)" "sorted (m # map fst rs)" by auto
  show ?case
  proof (cases "snd r = key")
    case True
    from Cons.IH [OF fixed_step [OF Cons.prems(1) le Cons.prems(4)] so(1) Cons.prems(3,4)] True show ?thesis by (auto split: if_splits)
  next
    case False
    from Cons.IH [OF fixed_other [OF Cons.prems(1) False] so(2) Cons.prems(3,4)] False show ?thesis by auto
  qed
qed auto

subsection \<open>Properties\<close>

text \<open>
  The sliding-window limiter keeps its limit exactly: for requests in order of arrival, over any
  mix of keys, no half-open window of the configured length contains more than \<open>limit\<close> admitted
  requests of one key; and a request is refused only when the window ending at its arrival is
  full.
\<close>

theorem sliding_window_limit:
  assumes "0 < w" and "sorted (map fst rs @ [now])"
  shows "in_window x (x + w) (times_of key (admitted (\<lambda>t k l. AllowKey (cr t) t k l) rs (NewLimiter SlidingWindow n w))) \<le> max 0 n \<and>
    (snd (AllowKey (cr now) now key (after_requests (\<lambda>t k l. AllowKey (cr t) t k l) rs (NewLimiter SlidingWindow n w))) \<longleftrightarrow>
       in_window (now - w) now (times_of key (admitted (\<lambda>t k l. AllowKey (cr t) t k l) rs (NewLimiter SlidingWindow n w))) < n)"
proof
  have s: "sorted (map fst rs)" using assms(2) by (simp add: sorted_append)
  show "in_window x (x + w) (times_of key (admitted (\<lambda>t k l. AllowKey (cr t) t k l) rs (NewLimiter SlidingWindow n w))) \<le> max 0 n"
    by (rule limiter.window_bound) (use s assms(1) in \<open>simp_all add: NewLimiter_def bucket_log_def\<close>)
  show "snd (AllowKey (cr now) now key (after_requests (\<lambda>t k l. AllowKey (cr t) t k l) rs (NewLimiter SlidingWindow n w))) \<longleftrightarrow>
       in_window (now - w) now (times_of key (admitted (\<lambda>t k l. AllowKey (cr t) t k l) rs (NewLimiter SlidingWindow n w))) < n"
    by (rule limiter.refused_only_when_full [where n = n]) (use assms in \<open>simp_all add: NewLimiter_def bucket_log_def\<close>)
qed

theorem sliding_window_limit_witness:
  "snd (AllowKey 7 7 ''a'' (after_requests (\<lambda>t k l. AllowKey t t k l) [(1, ''a''), (2, ''b''), (3, ''a'')] (NewLimiter SlidingWindow 2 10))) = False"
proof -
  have "in_window (7 - 10) 7 (times_of ''a'' (admitted (\<lambda>t k l. AllowKey t t k l) [(1, ''a''), (2, ''b''), (3, ''a'')] (NewLimiter SlidingWindow 2 10))) = 2"
    by (simp add: in_window_def limiter_ops NewLimiter_def time_Add_def)
  with sliding_window_limit [of 10 "[(1, ''a''), (2, ''b''), (3, ''a'')]" 7 0 "''a''" "\<lambda>t. t" 2] show ?thesis by simp
qed

text \<open>
  The endpoint limiter keeps the limit (plus burst) of the rule of each endpoint, for every
  family of requests the key function tells apart, and refuses only when the window of the
  endpoint is full.
\<close>

theorem endpoint_limit:
  assumes "endpoint_ok cfg rep el" and "el_windows el = []" and "sorted (map fst rs @ [now])"
    and "0 < er_Window (findRule cfg (hr_Path (rep k)))"
  shows "in_window x (x + er_Window (findRule cfg (hr_Path (rep k)))) (times_of k (admitted (\<lambda>t k el. el_Allow t (rep k) el) rs el))
      \<le> max 0 (rule_limit (findRule cfg (hr_Path (rep k)))) \<and>
    (snd (el_Allow now (rep k) (after_requests (\<lambda>t k el. el_Allow t (rep k) el) rs el)) \<longleftrightarrow>
       in_window (now - er_Window (findRule cfg (hr_Path (rep k)))) now (times_of k (admitted (\<lambda>t k el. el_Allow t (rep k) el) rs el))
         < rule_limit (findRule cfg (hr_Path (rep k))))"
proof
  have s: "sorted (map fst rs)" and l: "endpoint_log rep el k = []" using assms(2,3) by (simp_all add: sorted_append endpoint_log_def)
  show "in_window x (x + er_Window (findRule cfg (hr_Path (rep k)))) (times_of k (admitted (\<lambda>t k el. el_Allow t (rep k) el) rs el))
      \<le> max 0 (rule_limit (findRule cfg (hr_Path (rep k))))"
    by (rule endpoint.window_bound [OF assms(1) l s assms(4)]) simp
  show "snd (el_Allow now (rep k) (after_requests (\<lambda>t k el. el_Allow t (rep k) el) rs el)) \<longleftrightarrow>
       in_window (now - er_Window (findRule cfg (hr_Path (rep k)))) now (times_of k (admitted (\<lambda>t k el. el_Allow t (rep k) el) rs el))
         < rule_limit (findRule cfg (hr_Path (rep k)))"
    by (rule endpoint.refused_only_when_full [OF assms(1) l assms(3,4)]) simp_all
qed

theorem endpoint_limit_witness:
  "in_window 0 Minute (times_of ''/api/v1/scan''
     (admitted (\<lambda>t k el. el_Allow t \<lparr>hr_Method = ''POST'', hr_Path = k\<rparr> el) [(1, ''/api/v1/scan''), (2, ''/api/v1/chat'')]
        (NewEndpointLimiter DefaultEndpointConfig))) \<le> 12"
proof -
  let ?rep = "\<lambda>k. \<lparr>hr_Method = ''POST'', hr_Path = k\<rparr>"
  have ok: "endpoint_ok DefaultEndpointConfig ?rep (NewEndpointLimiter DefaultEndpointConfig)"
    by (simp add: endpoint_ok_def NewEndpointLimiter_def defaultKeyFunc_def inj_def)
  have r: "findRule DefaultEndpointConfig ''/api/v1/scan'' = \<lparr>er_Pattern = ''/api/v1/scan'', er_Limit = 10, er_Window = Minute, er_Burst = 2\<rparr>"
    by (simp add: findRule_def DefaultEndpointConfig_def)
  from endpoint_limit [OF ok, of "[(1, ''/api/v1/scan''), (2, ''/api/v1/chat'')]" 3 "''/api/v1/scan''" 0] r
  show ?thesis by (simp add: NewEndpointLimiter_def rule_limit_def duration_defs)
qed

text \<open>
  The fixed-window limiter admits at most \<open>limit\<close> requests of a key in every aligned window
  (the instants with the same truncation), for requests in order of arrival.
\<close>

theorem fixed_window_limit:
  assumes "sorted (map fst rs)" and "\<forall>t. cr t \<le> t" and "\<bar>n\<bar> < 2 ^ 53"
  shows "in_aligned w x (times_of key (admitted (\<lambda>t k l. AllowKey (cr t) t k l) rs (NewLimiter FixedWindow n w))) \<le> max 0 n"
proof (cases rs)
  case (Cons r rs')
  have "fixed_inv n w key (fst r) [] (NewLimiter FixedWindow n w)" by (simp add: fixed_inv_def NewLimiter_def in_aligned_def)
  from fixed_run [OF this _ assms(2,3), of rs] assms(1) Cons show ?thesis by (auto simp: fixed_inv_def)
qed (simp add: in_aligned_def)

theorem fixed_window_limit_witness:
  "in_aligned 10 20 (times_of ''a'' (admitted (\<lambda>t k l. AllowKey t t k l) [(21, ''a''), (22, ''a''), (29, ''a''), (30, ''a'')] (NewLimiter FixedWindow 2 10))) \<le> 2"
  using fixed_window_limit [of "[(21, ''a''), (22, ''a''), (29, ''a''), (30, ''a'')]" "\<lambda>t. t" 2 10 20 "''a''"] by simp

text \<open>
  Cleanup forgets active sliding windows: a sliding-window bucket older than an hour is
  dropped by the cleanup however recent its last request is, since only the other two
  algorithms move \<^verbatim>\<open>lastRefill\<close>; the next request of that key starts from an empty window.
\<close>

theorem cleanup_forgets_window:
  assumes "wf_gomap (lm_buckets l)" and "gget (lm_buckets l) key = Some b" and "Hour < now - wb_lastRefill b"
    and "lm_algorithm l = SlidingWindow" and "0 < lm_limit l"
  shows "wb_lastRefill (the (gget (lm_buckets (fst (AllowKey created t key l))) key)) = wb_lastRefill b \<and>
    bucket_log (lm_cleanup now l) key = [] \<and> snd (AllowKey created now key (lm_cleanup now l))"
proof -
  have "Hour < time_Sub now (wb_lastRefill b)" using assms(3) by (simp add: time_Sub_gt_iff duration_defs max_duration_def min_duration_def)
  then have g: "gget (lm_buckets (lm_cleanup now l)) key = None" using assms(1,2) by (simp add: lm_cleanup_def gget_gfilter)
  moreover have "lm_algorithm (lm_cleanup now l) = SlidingWindow" "lm_limit (lm_cleanup now l) = lm_limit l" using assms(4) by (simp_all add: lm_cleanup_def)
  ultimately have "bucket_log (lm_cleanup now l) key = []" "snd (AllowKey created now key (lm_cleanup now l))"
    using assms(5) by (simp_all add: bucket_log_def limiter_ops)
  with assms(2,4) show ?thesis by (auto simp: limiter_ops)
qed

text \<open>Instance: a limit of one request per minute lets two through within two nanoseconds, with a cleanup between them.\<close>

theorem cleanup_forgets_window_witness:
  "let l1 = fst (AllowKey 0 0 ''a'' (NewLimiter SlidingWindow 1 Minute)); t = Hour + 1
   in snd (AllowKey t t ''a'' l1) \<and> snd (AllowKey t (t + 2) ''a'' (lm_cleanup (t + 2) (fst (AllowKey t t ''a'' l1)))) \<and>
      snd (AllowKey t (t + 2) ''a'' (fst (AllowKey t t ''a'' l1))) = False"
proof -
  let ?l1 = "fst (AllowKey 0 0 ''a'' (NewLimiter SlidingWindow 1 Minute))" and ?t = "Hour + 1"
  let ?l2 = "fst (AllowKey ?t ?t ''a'' ?l1)"
  have b: "gget (lm_buckets ?l2) ''a'' = Some \<lparr>wb_requests = [?t], wb_tokenCount = 0, wb_lastRefill = 0\<rparr>"
    "wf_gomap (lm_buckets ?l2)" "lm_algorithm ?l2 = SlidingWindow" "lm_limit ?l2 = 1"
    by (simp_all add: limiter_ops NewLimiter_def time_Add_def duration_defs)
  from cleanup_forgets_window [OF b(2,1), of "?t + 2" ?t 0] b have 1: "snd (AllowKey ?t (?t + 2) ''a'' (lm_cleanup (?t + 2) ?l2))" by simp
  have 2: "snd (AllowKey ?t ?t ''a'' ?l1)" "snd (AllowKey ?t (?t + 2) ''a'' ?l2) = False"
    by (simp_all add: limiter_ops NewLimiter_def time_Add_def duration_defs)
  from 1 2 show ?thesis unfolding Let_def by blast
qed

text \<open>
  The tiered limiter: in every reachable state and at every time, a request is admitted exactly
  when all three buckets hold a whole token after the refill, and every bucket of every user
  stays between zero and the limit of the user's tier.
\<close>

theorem tiered_tokens_bounded:
  assumes "tiered_reachable l"
  shows "(snd (tiered_Middleware created now key (GetTier plan) l) \<noteq> None \<longleftrightarrow>
      (let b = refill now (GetTier plan) (tiered_bucket created key (GetTier plan) l)
       in 1 \<le> tb_minuteTokens b \<and> 1 \<le> tb_hourTokens b \<and> 1 \<le> tb_dayTokens b)) \<and>
    (\<forall>k b. gget (fst (tiered_Middleware created now key (GetTier plan) l)) k = Some b \<longrightarrow>
       0 \<le> tb_minuteTokens b \<and> tb_minuteTokens b \<le> of_int (RequestsPerMinute (tb_tier b)) \<and>
       0 \<le> tb_hourTokens b \<and> tb_hourTokens b \<le> of_int (RequestsPerHour (tb_tier b)) \<and>
       0 \<le> tb_dayTokens b \<and> tb_dayTokens b \<le> of_int (RequestsPerDay (tb_tier b)))"
proof -
  have "\<forall>k b. gget (fst (tiered_Middleware created now key (GetTier plan) l)) k = Some b \<longrightarrow> bucket_ok b"
    using tiered_step_ok [OF GetTier_ok] tiered_reachable_ok [OF assms] by blast
  then show ?thesis by (auto simp: bucket_ok_def tokens_ok_def tiered_Middleware_def Let_def not_less)
qed

theorem tiered_tokens_bounded_witness:
  "snd (tiered_Middleware 0 0 ''u'' (GetTier ''free'') NewTieredRateLimiter) \<noteq> None"
  using tiered_tokens_bounded [OF tiered_reachable.intros(1), of 0 0 "''u''" "''free''"]
  by (simp add: tiered_bucket_def NewTieredRateLimiter_def full_bucket_def GetTier_def FreeTier_def refill_def f_of_int_def fl_numeral Let_def Second_def)

end
