(* ===== verification/Access_Control.thy ===== *)
theory Access_Control
  imports Go_Strings
begin

text \<open>
  The access checks of \<^verbatim>\<open>internal/middleware\<close>: account lockout (\<^verbatim>\<open>lockout.go\<close>, the in-memory and the
  Redis implementation of the interface \<^verbatim>\<open>Lockout\<close>, and the middleware over it), token revocation
  (\<^verbatim>\<open>blacklist.go\<close>) and API key scopes (\<^verbatim>\<open>scopes.go\<close>).

  Redis is outside the program: an operation gets the replies to its commands as arguments and
  returns the commands it issues. A reply is a value, the \<^verbatim>\<open>redis.Nil\<close> error the client returns
  for a missing key, or another error.
\<close>

subsection \<open>In-memory lockout\<close>

record lockoutState =
  ls_FailedAttempts :: int
  ls_LockedUntil :: gotime
  ls_LastAttempt :: gotime

record AccountLockout =
  al_attempts :: "(string, lockoutState) gomap"
  al_maxAttempts :: int
  al_lockoutDuration :: duration

definition NewAccountLockout :: "int \<Rightarrow> duration \<Rightarrow> AccountLockout" where
  "NewAccountLockout maxAttempts lockoutDuration =
     \<lparr>al_attempts = [], al_maxAttempts = (if maxAttempts \<le> 0 then 5 else maxAttempts),
      al_lockoutDuration = (if lockoutDuration \<le> 0 then Minute else lockoutDuration)\<rparr>"

text \<open>One tick of the cleanup goroutine.\<close>

definition al_cleanup :: "gotime \<Rightarrow> AccountLockout \<Rightarrow> AccountLockout" where
  "al_cleanup now al =
     al\<lparr>al_attempts := gfilter (\<lambda>ident state.
         let expired = \<not> IsZero (ls_LockedUntil state) \<and> time_Add (ls_LockedUntil state) (al_lockoutDuration al) < now;
             stale = IsZero (ls_LockedUntil state) \<and> time_Add (ls_LastAttempt state) (al_lockoutDuration al) < now
         in \<not> (expired \<or> stale)) (al_attempts al)\<rparr>"

definition al_IsLocked :: "gotime \<Rightarrow> gotime \<Rightarrow> string \<Rightarrow> AccountLockout \<Rightarrow> AccountLockout \<times> bool" where
  "al_IsLocked now now' identifier al =
     (case gget (al_attempts al) identifier of
        None \<Rightarrow> (al, False)
      | Some state \<Rightarrow>
          if \<not> IsZero (ls_LockedUntil state) \<and> now < ls_LockedUntil state then (al, True)
          else if \<not> IsZero (ls_LockedUntil state) \<and> ls_LockedUntil state < now'
          then (al\<lparr>al_attempts := gput identifier (state\<lparr>ls_FailedAttempts := 0, ls_LockedUntil := zero_time\<rparr>) (al_attempts al)\<rparr>, False)
          else (al, False))"

definition al_RecordFailure :: "gotime \<Rightarrow> gotime \<Rightarrow> string \<Rightarrow> AccountLockout \<Rightarrow> AccountLockout" where
  "al_RecordFailure now now' identifier al =
     (let state0 = (case gget (al_attempts al) identifier of Some st \<Rightarrow> st
                    | None \<Rightarrow> \<lparr>ls_FailedAttempts = 0, ls_LockedUntil = zero_time, ls_LastAttempt = zero_time\<rparr>);
          state1 = state0\<lparr>ls_FailedAttempts := ls_FailedAttempts state0 + 1, ls_LastAttempt := now\<rparr>;
          state2 = (if al_maxAttempts al \<le> ls_FailedAttempts state1
                    then state1\<lparr>ls_LockedUntil := time_Add now' (al_lockoutDuration al)\<rparr> else state1)
      in al\<lparr>al_attempts := gput identifier state2 (al_attempts al)\<rparr>)"

definition al_RecordSuccess :: "string \<Rightarrow> AccountLockout \<Rightarrow> AccountLockout" where
  "al_RecordSuccess identifier al = al\<lparr>al_attempts := gdel identifier (al_attempts al)\<rparr>"

definition al_GetRemainingLockout :: "gotime \<Rightarrow> string \<Rightarrow> AccountLockout \<Rightarrow> duration" where
  "al_GetRemainingLockout now identifier al =
     (case gget (al_attempts al) identifier of
        None \<Rightarrow> 0
      | Some state \<Rightarrow>
          if IsZero (ls_LockedUntil state) then 0
          else let remaining = time_Sub (ls_LockedUntil state) now in if remaining < 0 then 0 else remaining)"

subsection \<open>Redis lockout\<close>

datatype redis_reply = RVal string | RNil | RErr string

datatype redis_cmd = CmdSet string string duration | CmdExpire string duration | CmdDel string

record RedisAccountLockout =
  rl_maxAttempts :: int
  rl_lockoutDuration :: duration
  rl_attemptWindow :: duration

definition NewRedisAccountLockout :: "int \<Rightarrow> duration \<Rightarrow> RedisAccountLockout" where
  "NewRedisAccountLockout maxAttempts lockoutDuration =
     \<lparr>rl_maxAttempts = maxAttempts, rl_lockoutDuration = lockoutDuration, rl_attemptWindow = lockoutDuration * 2\<rparr>"

definition lockoutKey :: "string \<Rightarrow> string" where "lockoutKey identifier = ''lockout:'' @ identifier"

definition attemptKey :: "string \<Rightarrow> string" where "attemptKey identifier = ''attempts:'' @ identifier"

text \<open>\<^verbatim>\<open>strconv.ParseBool\<close>, with \<open>False\<close> where it fails.\<close>

definition parse_bool :: "string \<Rightarrow> bool" where
  "parse_bool v \<longleftrightarrow> v \<in> {''1'', ''t'', ''T'', ''true'', ''TRUE'', ''True''}"

definition rl_IsLocked :: "redis_reply \<Rightarrow> bool" where
  "rl_IsLocked got = (case got of RVal val \<Rightarrow> parse_bool val | RNil \<Rightarrow> True | RErr err \<Rightarrow> True)"

text \<open>\<open>count\<close>: the reply to the increment; the commands issued after it.\<close>

definition rl_RecordFailure :: "(string + int) \<Rightarrow> string \<Rightarrow> RedisAccountLockout \<Rightarrow> redis_cmd list" where
  "rl_RecordFailure incr identifier al =
     (case incr of
        Inl err \<Rightarrow> []
      | Inr count \<Rightarrow>
          (if count = 1 then [CmdExpire (attemptKey identifier) (rl_attemptWindow al)] else []) @
          (if rl_maxAttempts al \<le> count
           then [CmdSet (lockoutKey identifier) ''true'' (rl_lockoutDuration al), CmdDel (attemptKey identifier)] else []))"

definition rl_RecordSuccess :: "string \<Rightarrow> redis_cmd list" where
  "rl_RecordSuccess identifier = [CmdDel (attemptKey identifier), CmdDel (lockoutKey identifier)]"

definition rl_GetRemainingLockout :: "(string + duration) \<Rightarrow> duration" where
  "rl_GetRemainingLockout ttl = (case ttl of Inl err \<Rightarrow> 0 | Inr d \<Rightarrow> if d < 0 then 0 else d)"

subsection \<open>The middleware over a lockout\<close>

datatype gate = Pass | TooManyRequests duration | Deny string

text \<open>\<^verbatim>\<open>LockoutMiddleware\<close>, over what its \<^verbatim>\<open>Lockout\<close> answers.\<close>

definition LockoutMiddleware :: "bool \<Rightarrow> duration \<Rightarrow> gate" where
  "LockoutMiddleware locked remaining = (if locked then TooManyRequests remaining else Pass)"

subsection \<open>Token revocation\<close>

definition blacklist_prefix :: string where "blacklist_prefix = ''jwt:blacklist:''"

definition Revoke :: "string \<Rightarrow> duration \<Rightarrow> redis_cmd" where
  "Revoke tokenStr ttl = CmdSet (blacklist_prefix @ tokenStr) ''1'' ttl"

definition IsRevoked :: "redis_reply \<Rightarrow> bool" where
  "IsRevoked got = (case got of RNil \<Rightarrow> False | RErr err \<Rightarrow> True | RVal val \<Rightarrow> val = ''1'')"

definition ExtractBearerToken :: "string \<Rightarrow> string" where
  "ExtractBearerToken authHeader =
     (if authHeader = [] then []
      else
        let parts = strings_SplitN2 authHeader (CHR '' '')
        in if length parts \<noteq> 2 \<or> strings_ToLower (parts ! 0) \<noteq> ''bearer'' then []
           else
             let token = parts ! 1
             in if \<not> strings_Contains token ''.'' \<and> strings_Contains token ''_'' then [] else token)"

text \<open>\<open>get\<close>: what Redis answers for a key.\<close>

definition blacklist_Middleware :: "(string \<Rightarrow> redis_reply) \<Rightarrow> string \<Rightarrow> gate" where
  "blacklist_Middleware get authHeader =
     (let tokenStr = ExtractBearerToken authHeader
      in if tokenStr = [] then Pass
         else if IsRevoked (get (blacklist_prefix @ tokenStr)) then Deny ''token has been revoked'' else Pass)"

definition user_key :: "string \<Rightarrow> string" where "user_key userID = ''jwt:blacklist:user:'' @ userID"

definition RevokeAllForUser :: "int \<Rightarrow> string \<Rightarrow> redis_cmd" where
  "RevokeAllForUser now_unix userID = CmdSet (user_key userID) (strconv_Itoa now_unix) 0"

definition IsUserRevoked :: "redis_reply \<Rightarrow> bool" where
  "IsUserRevoked got = (case got of RNil \<Rightarrow> False | RErr err \<Rightarrow> True | RVal v \<Rightarrow> True)"

definition MiddlewareWithUserRevocation :: "(string \<Rightarrow> redis_reply) \<Rightarrow> string option \<Rightarrow> gate" where
  "MiddlewareWithUserRevocation get claims_user =
     (case claims_user of
        None \<Rightarrow> Pass
      | Some u \<Rightarrow> if IsUserRevoked (get (user_key u)) then Deny ''all tokens for this user have been revoked'' else Pass)"

subsection \<open>Scopes\<close>

record api_claims =
  ac_IsAPIKey :: bool
  ac_Scopes :: "string list"

definition scope_grants :: "string \<Rightarrow> string \<Rightarrow> bool" where
  "scope_grants s0 required =
     (let s = strings_TrimSpace s0
      in s = required \<or>
         (strings_HasSuffix s '':*'' \<and> hd (strings_SplitN2 s (CHR '':'')) = hd (strings_SplitN2 required (CHR '':''))) \<or>
         s = ''*'')"

definition hasScope :: "string list \<Rightarrow> string \<Rightarrow> bool" where
  "hasScope scopes required = list_ex (\<lambda>s. scope_grants s required) scopes"

definition RequireScope :: "string \<Rightarrow> api_claims option \<Rightarrow> gate" where
  "RequireScope scope claims =
     (case claims of
        None \<Rightarrow> Deny ''missing authentication''
      | Some c \<Rightarrow>
          if \<not> ac_IsAPIKey c then Pass
          else if \<not> hasScope (ac_Scopes c) scope then Deny (''API key missing required scope: '' @ scope) else Pass)"

subsection \<open>Runs of the lockout\<close>

datatype lock_op = OpFail string gotime gotime | OpSuccess string | OpCheck string gotime gotime | OpTick gotime

fun lock_step :: "AccountLockout \<Rightarrow> lock_op \<Rightarrow> AccountLockout" where
  "lock_step al (OpFail i t t') = al_RecordFailure t t' i al"
| "lock_step al (OpSuccess i) = al_RecordSuccess i al"
| "lock_step al (OpCheck i t t') = fst (al_IsLocked t t' i al)"
| "lock_step al (OpTick t) = al_cleanup t al"

definition lock_run :: "lock_op list \<Rightarrow> AccountLockout \<Rightarrow> AccountLockout" where
  "lock_run ops al = foldl lock_step al ops"

fun op_in :: "gotime \<Rightarrow> gotime \<Rightarrow> lock_op \<Rightarrow> bool" where
  "op_in a b (OpFail i t t') \<longleftrightarrow> a \<le> t \<and> t \<le> b \<and> a \<le> t' \<and> t' \<le> b"
| "op_in a b (OpSuccess i) = True"
| "op_in a b (OpCheck i t t') \<longleftrightarrow> a \<le> t \<and> t \<le> b \<and> a \<le> t' \<and> t' \<le> b"
| "op_in a b (OpTick t) \<longleftrightarrow> a \<le> t \<and> t \<le> b"

definition fails_of :: "string \<Rightarrow> lock_op list \<Rightarrow> int" where
  "fails_of ident ops = int (length (filter (\<lambda>op. case op of OpFail i _ _ \<Rightarrow> i = ident | _ \<Rightarrow> False) ops))"

text \<open>The state of an account after \<open>c\<close> failures since \<open>t0\<close>, with no success in between.\<close>

definition account_inv :: "int \<Rightarrow> duration \<Rightarrow> string \<Rightarrow> gotime \<Rightarrow> int \<Rightarrow> AccountLockout \<Rightarrow> bool" where
  "account_inv m d ident t0 c al \<longleftrightarrow>
     al_maxAttempts al = m \<and> al_lockoutDuration al = d \<and> wf_gomap (al_attempts al) \<and>
     (case gget (al_attempts al) ident of
        None \<Rightarrow> c = 0
      | Some st \<Rightarrow> ls_FailedAttempts st = c \<and> t0 \<le> ls_LastAttempt st \<and>
          (if m \<le> c then t0 + d \<le> ls_LockedUntil st else ls_LockedUntil st = 0))"

lemma account_step:
  assumes "account_inv m d ident t0 c al" and "0 < m" "0 < d" "0 < t0" and "op_in t0 (t0 + d) op" and "op \<noteq> OpSuccess ident"
  shows "account_inv m d ident t0 (c + fails_of ident [op]) (lock_step al op)"
proof (cases op)
  case (OpFail i t t')
  with assms show ?thesis
    by (cases "gget (al_attempts al) ident")
       (auto simp: account_inv_def fails_of_def al_RecordFailure_def Let_def time_Add_def zero_time_def split: option.splits if_splits)
next
  case (OpCheck i t t')
  with assms show ?thesis
    by (cases "gget (al_attempts al) ident")
       (auto simp: account_inv_def fails_of_def al_IsLocked_def IsZero_def zero_time_def split: option.splits if_splits)
next
  case (OpTick t)
  with assms show ?thesis
    by (cases "gget (al_attempts al) ident")
       (auto simp: account_inv_def fails_of_def al_cleanup_def gget_gfilter Let_def IsZero_def zero_time_def time_Add_def split: if_splits)
next
  case (OpSuccess i)
  with assms show ?thesis by (auto simp: account_inv_def fails_of_def al_RecordSuccess_def)
qed

lemma account_run:
  "account_inv m d ident t0 c al \<Longrightarrow> 0 < m \<Longrightarrow> 0 < d \<Longrightarrow> 0 < t0 \<Longrightarrow> \<forall>op \<in> set ops. op_in t0 (t0 + d) op \<and> op \<noteq> OpSuccess ident \<Longrightarrow>
     account_inv m d ident t0 (c + fails_of ident ops) (lock_run ops al)"
proof (induction ops arbitrary: c al)
  case (Cons op ops)
  from account_step [OF Cons.prems(1-4), of op] Cons.prems(5)
  have "account_inv m d ident t0 (c + fails_of ident [op]) (lock_step al op)" by simp
  from Cons.IH [OF this Cons.prems(2-4)] Cons.prems(5) show ?case
    by (auto simp: lock_run_def fails_of_def add.assoc split: lock_op.splits if_splits)
qed (simp add: lock_run_def fails_of_def)

text \<open>
  Brute force is locked out, and only it: within one lockout period (any interleaving of attempts
  on all accounts, checks and cleanups, and no successful login of this account) the account is
  locked at every instant of the period exactly when at least \<open>maxAttempts\<close> of its logins failed.
\<close>

theorem brute_force_locked:
  assumes "0 < t0" and "\<forall>op \<in> set ops. op_in t0 (t0 + al_lockoutDuration (NewAccountLockout m d)) op \<and> op \<noteq> OpSuccess ident"
    and "t < t0 + al_lockoutDuration (NewAccountLockout m d)"
  shows "snd (al_IsLocked t t' ident (lock_run ops (NewAccountLockout m d))) \<longleftrightarrow>
    al_maxAttempts (NewAccountLockout m d) \<le> fails_of ident ops"
proof -
  let ?al = "NewAccountLockout m d"
  have pos: "0 < al_maxAttempts ?al" "0 < al_lockoutDuration ?al" by (simp_all add: NewAccountLockout_def duration_defs)
  have "account_inv (al_maxAttempts ?al) (al_lockoutDuration ?al) ident t0 0 ?al" by (simp add: account_inv_def NewAccountLockout_def)
  from account_run [OF this pos assms(1,2)] assms(1,3) pos show ?thesis
    by (auto simp: account_inv_def al_IsLocked_def IsZero_def zero_time_def split: option.splits if_splits)
qed

theorem brute_force_locked_witness:
  "snd (al_IsLocked 25 26 ''alice'' (lock_run [OpFail ''alice'' 10 10, OpFail ''bob'' 11 11, OpCheck ''alice'' 12 12, OpFail ''alice'' 13 13]
     (NewAccountLockout 2 100))) \<and>
   snd (al_IsLocked 25 26 ''bob'' (lock_run [OpFail ''alice'' 10 10, OpFail ''bob'' 11 11, OpCheck ''alice'' 12 12, OpFail ''alice'' 13 13]
     (NewAccountLockout 2 100))) = False"
  using brute_force_locked [of 10 "[OpFail ''alice'' 10 10, OpFail ''bob'' 11 11, OpCheck ''alice'' 12 12, OpFail ''alice'' 13 13]" 2 100 "''alice''" 25 26]
    brute_force_locked [of 10 "[OpFail ''alice'' 10 10, OpFail ''bob'' 11 11, OpCheck ''alice'' 12 12, OpFail ''alice'' 13 13]" 2 100 "''bob''" 25 26]
  by (simp add: NewAccountLockout_def fails_of_def)

text \<open>
  The Redis lockout locks every account it knows nothing about: for an account without a
  lockout key Redis answers with the \<^verbatim>\<open>redis.Nil\<close> error, which counts as a failed read, so the
  middleware refuses the request whatever the history of the account; even after a successful
  login, which deletes the key.
\<close>

theorem redis_lockout_refuses_unknown:
  "LockoutMiddleware (rl_IsLocked RNil) (rl_GetRemainingLockout ttl) = TooManyRequests (rl_GetRemainingLockout ttl) \<and>
   CmdDel (lockoutKey ident) \<in> set (rl_RecordSuccess ident)"
  by (simp add: LockoutMiddleware_def rl_IsLocked_def rl_RecordSuccess_def)

lemma takeWhile_append_sep: "c \<notin> set xs \<Longrightarrow> takeWhile (\<lambda>x. x \<noteq> c) (xs @ c # ys) = xs \<and> dropWhile (\<lambda>x. x \<noteq> c) (xs @ c # ys) = c # ys"
  by (induction xs) auto

lemma Contains_char: "strings_Contains s [c] \<longleftrightarrow> c \<in> set s"
proof -
  have "(index_from 0 s [c] = -1) = (c \<notin> set s)"
  proof (induction s)
    case (Cons x s)
    have "index_from 1 s [c] = -1 \<longleftrightarrow> index_from 0 s [c] = -1"
      using index_from_shift [of 1 s "[c]"] index_from_range [of s "[c]"] by (auto simp: Let_def)
    with Cons show ?case by auto
  qed simp
  then show ?thesis using index_from_range [of s "[c]"] by (auto simp: strings_Contains_def strings_Index_def)
qed

text \<open>
  A revoked token is refused: a bearer token that looks like a JWT (it contains a dot) passes
  the revocation check only if Redis answered that it is not revoked; if it is listed, or if
  Redis could not be asked, the request is refused. The scheme name is matched in any case.
\<close>

theorem revoked_token_refused:
  assumes "strings_ToLower scheme = ''bearer''" and "CHR '' '' \<notin> set scheme" and "CHR ''.'' \<in> set token"
  shows "blacklist_Middleware get (scheme @ CHR '' '' # token) =
    (if get (blacklist_prefix @ token) = RVal ''1'' \<or> (\<exists>e. get (blacklist_prefix @ token) = RErr e)
     then Deny ''token has been revoked'' else Pass)"
proof -
  have s: "strings_SplitN2 (scheme @ CHR '' '' # token) (CHR '' '') = [scheme, token]"
    using takeWhile_append_sep [OF assms(2), of token] by (simp add: strings_SplitN2_def)
  have "token \<noteq> []" using assms(3) by auto
  moreover have "ExtractBearerToken (scheme @ CHR '' '' # token) = token"
    using assms s by (simp add: ExtractBearerToken_def Contains_char)
  ultimately show ?thesis by (auto simp: blacklist_Middleware_def IsRevoked_def split: redis_reply.splits)
qed

theorem revoked_token_refused_witness:
  "blacklist_Middleware (\<lambda>k. if k = ''jwt:blacklist:a.b.c'' then RVal ''1'' else RNil) ''BEARER a.b.c'' = Deny ''token has been revoked''"
proof -
  have "strings_ToLower ''BEARER'' = ''bearer''" by code_simp
  from revoked_token_refused [OF this, of "''a.b.c''" "\<lambda>k. if k = ''jwt:blacklist:a.b.c'' then RVal ''1'' else RNil"]
  show ?thesis by (simp add: blacklist_prefix_def)
qed

text \<open>
  Scopes of an API key do not leak between namespaces: when the required scope is
  \<open>ns:action\<close>, a key whose wildcards are all for other namespaces, and that lists neither \<open>*\<close>
  nor the scope itself, is refused; a request without credentials is always refused.
\<close>

theorem scope_isolation:
  assumes "CHR '':'' \<notin> set ns"
    and "\<forall>s \<in> set scopes. strings_TrimSpace s \<noteq> ''*'' \<and> strings_TrimSpace s \<noteq> ns @ '':'' @ action \<and>
      (strings_HasSuffix (strings_TrimSpace s) '':*'' \<longrightarrow> (\<exists>other rest. CHR '':'' \<notin> set other \<and> other \<noteq> ns \<and> strings_TrimSpace s = other @ CHR '':'' # rest))"
  shows "RequireScope (ns @ '':'' @ action) (Some \<lparr>ac_IsAPIKey = True, ac_Scopes = scopes\<rparr>) =
      Deny (''API key missing required scope: '' @ ns @ '':'' @ action) \<and>
    RequireScope (ns @ '':'' @ action) None = Deny ''missing authentication''"
proof -
  have ns: "hd (strings_SplitN2 (ns @ CHR '':'' # action) (CHR '':'')) = ns"
    using takeWhile_append_sep [OF assms(1), of action] by (simp add: strings_SplitN2_def)
  have "\<not> scope_grants s (ns @ CHR '':'' # action)" if "s \<in> set scopes" for s
  proof -
    have 1: "strings_TrimSpace s \<noteq> ''*''" "strings_TrimSpace s \<noteq> ns @ CHR '':'' # action" using assms(2) that by auto
    have "hd (strings_SplitN2 (strings_TrimSpace s) (CHR '':'')) \<noteq> ns" if w: "strings_HasSuffix (strings_TrimSpace s) '':*''"
    proof -
      from assms(2) w \<open>s \<in> set scopes\<close> obtain other rest where o: "CHR '':'' \<notin> set other" "other \<noteq> ns" "strings_TrimSpace s = other @ CHR '':'' # rest" by blast
      with takeWhile_append_sep [OF o(1), of rest] show ?thesis by (simp add: strings_SplitN2_def)
    qed
    with 1 ns show ?thesis by (simp add: scope_grants_def Let_def)
  qed
  then show ?thesis by (auto simp: RequireScope_def hasScope_def list_ex_iff)
qed

theorem scope_isolation_witness:
  "RequireScope ''admin:read'' (Some \<lparr>ac_IsAPIKey = True, ac_Scopes = [''ad:*'', ''tasks:read'']\<rparr>) =
     Deny ''API key missing required scope: admin:read''"
proof -
  have t: "strings_TrimSpace ''ad:*'' = ''ad'' @ CHR '':'' # ''*''" "strings_TrimSpace ''tasks:read'' = ''tasks:read''" by code_simp+
  have n: "\<not> strings_HasSuffix ''tasks:read'' '':*''" by code_simp
  have "CHR '':'' \<notin> set ''ad'' \<and> ''ad'' \<noteq> ''admin'' \<and> strings_TrimSpace ''ad:*'' = ''ad'' @ CHR '':'' # ''*''" using t(1) by simp
  then have w: "\<exists>other rest. CHR '':'' \<notin> set other \<and> other \<noteq> ''admin'' \<and> strings_TrimSpace ''ad:*'' = other @ CHR '':'' # rest" by blast
  from scope_isolation [of "''admin''" "[''ad:*'', ''tasks:read'']" "''read''"] t n w show ?thesis by simp
qed

end
