(* ===== verification/Lru_Spec.thy ===== *)
theory Lru_Spec
  imports Go_Prelude
begin

text \<open>
  What a bounded cache with least-recently-used replacement promises, on its own: the cache is
  the list of its keys and entries from the least to the most recently used. The two caches of the
  program (\<^verbatim>\<open>internal/cache/response_cache.go\<close> and \<^verbatim>\<open>internal/middleware/cache.go\<close>) keep a map and a
  recency list instead; \<open>Lru_Cache\<close> and \<open>Http_Cache\<close> show that they refine this specification. The
  contract the clients rely on is the locale \<open>lru_cache\<close>.
\<close>

subsection \<open>The specification\<close>

type_synonym 'e lru = "(string \<times> 'e) list"

definition lru_remove :: "string \<Rightarrow> 'e lru \<Rightarrow> 'e lru" where
  "lru_remove k l = filter (\<lambda>p. fst p \<noteq> k) l"

definition lru_touch :: "string \<Rightarrow> 'e \<Rightarrow> 'e lru \<Rightarrow> 'e lru" where
  "lru_touch k e l = lru_remove k l @ [(k, e)]"

text \<open>A new key displaces the oldest entries beyond the capacity; a known key only moves.\<close>

definition lru_insert :: "nat \<Rightarrow> string \<Rightarrow> 'e \<Rightarrow> 'e lru \<Rightarrow> 'e lru" where
  "lru_insert cap k e l =
     (if map_of l k \<noteq> None then lru_touch k e l else drop (Suc (length l) - cap) l @ [(k, e)])"

definition lru_wf :: "nat \<Rightarrow> 'e lru \<Rightarrow> bool" where
  "lru_wf cap l \<longleftrightarrow> distinct (map fst l) \<and> length l \<le> cap \<and> 0 < cap"

text \<open>The keys used more recently than \<open>k\<close>.\<close>

fun lru_newer :: "string \<Rightarrow> 'e lru \<Rightarrow> string set" where
  "lru_newer k [] = {}"
| "lru_newer k (p # l) = (if fst p = k then fst ` set l else lru_newer k l)"

subsection \<open>Lemmas on the specification\<close>

lemma keys_remove [simp]: "fst ` set (lru_remove k l) = fst ` set l - {k}"
  by (auto simp: lru_remove_def)

lemma map_of_remove [simp]: "map_of (lru_remove k l) x = (if x = k then None else map_of l x)"
  by (induction l) (auto simp: lru_remove_def)

lemma map_of_touch [simp]: "map_of (lru_touch k e l) x = (if x = k then Some e else map_of l x)"
  by (simp add: lru_touch_def map_add_Some_iff map_add_def split: option.split)

lemma distinct_remove [simp]: "distinct (map fst l) \<Longrightarrow> distinct (map fst (lru_remove k l))"
  by (simp add: lru_remove_def distinct_map_filter)

lemma distinct_touch [simp]: "distinct (map fst l) \<Longrightarrow> distinct (map fst (lru_touch k e l))"
  by (simp add: lru_touch_def)

lemma length_remove_le: "length (lru_remove k l) \<le> length l"
  by (simp add: lru_remove_def)

lemma remove_absent [simp]: "k \<notin> fst ` set l \<Longrightarrow> lru_remove k l = l"
  by (auto simp: lru_remove_def filter_id_conv)

lemma length_remove:
  "distinct (map fst l) \<Longrightarrow> length (lru_remove k l) = (if k \<in> fst ` set l then length l - 1 else length l)"
proof (induction l)
  case (Cons p l)
  then show ?case
    by (cases "fst p = k"; cases l) (auto simp: lru_remove_def filter_id_conv)
qed (simp add: lru_remove_def)

lemma wf_remove: "lru_wf cap l \<Longrightarrow> lru_wf cap (lru_remove k l)"
  using length_remove_le [of k l] by (simp add: lru_wf_def)

lemma wf_touch: "lru_wf cap l \<Longrightarrow> k \<in> fst ` set l \<Longrightarrow> lru_wf cap (lru_touch k e l)"
proof -
  assume wf: "lru_wf cap l" and k: "k \<in> fst ` set l"
  from k have "l \<noteq> []" by auto
  with wf k length_remove [of l k] show ?thesis by (auto simp: lru_wf_def lru_touch_def)
qed

lemma map_of_None_iff: "map_of l k = None \<longleftrightarrow> k \<notin> fst ` set l"
  by (rule map_of_eq_None_iff)

lemma wf_insert: "lru_wf cap l \<Longrightarrow> lru_wf cap (lru_insert cap k e l)"
  by (auto simp: lru_insert_def wf_touch map_of_None_iff)
    (auto simp: lru_wf_def distinct_drop drop_map [symmetric] dest!: in_set_dropD)

lemma lookup_insert_same: "map_of (lru_insert cap k e l) k = Some e"
proof (cases "map_of l k")
  case None
  then have "k \<notin> fst ` set (drop n l)" for n by (auto simp: map_of_None_iff dest: in_set_dropD)
  then have "map_of (drop n l) k = None" for n by (simp add: map_of_None_iff)
  with None show ?thesis by (simp add: lru_insert_def map_add_def)
qed (simp add: lru_insert_def)

lemma insert_room:
  "map_of l k = None \<Longrightarrow> length l < cap \<Longrightarrow> lru_insert cap k e l = l @ [(k, e)]"
  by (simp add: lru_insert_def)

subsection \<open>Recently used keys survive\<close>

lemma newer_append:
  "lru_newer k (l @ l') = (if k \<in> fst ` set l then lru_newer k l \<union> fst ` set l' else lru_newer k l')"
  by (induction l) (auto simp: image_Un)

lemma newer_remove: "x \<noteq> k \<Longrightarrow> lru_newer k (lru_remove x l) = lru_newer k l - {x}"
  by (induction l) (auto simp: lru_remove_def)

lemma newer_touch_other:
  "x \<noteq> k \<Longrightarrow> k \<in> fst ` set l \<Longrightarrow> lru_newer k (lru_touch x e l) \<subseteq> insert x (lru_newer k l)"
  by (auto simp: lru_touch_def newer_append newer_remove)

lemma newer_touch_same: "lru_newer k (lru_touch k e l) = {}"
  by (simp add: lru_touch_def newer_append)

lemma newer_insert_same: "distinct (map fst l) \<Longrightarrow> lru_newer k (lru_insert cap k e l) = {}"
  by (auto simp: lru_insert_def newer_touch_same newer_append map_of_None_iff dest: in_set_dropD)

lemma newer_finite [simp]: "finite (lru_newer k l)"
  by (induction l) auto

lemma newer_card: "distinct (map fst l) \<Longrightarrow> l = (k, e) # l' \<Longrightarrow> card (lru_newer k l) = length l'"
  by (simp add: card_image distinct_map distinct_card)

text \<open>
  Inserting another key keeps \<open>k\<close> as long as fewer than \<open>cap\<close> keys, this one included, were used
  after \<open>k\<close>.
\<close>

lemma insert_keeps:
  assumes wf: "lru_wf cap l" and k: "k \<in> fst ` set l" and x: "x \<noteq> k"
    and few: "card (insert x (lru_newer k l)) < cap"
  shows "map_of (lru_insert cap x e l) k = map_of l k \<and>
         lru_newer k (lru_insert cap x e l) \<subseteq> insert x (lru_newer k l)"
proof (cases "map_of l x")
  case (Some e')
  with x k show ?thesis by (simp add: lru_insert_def newer_touch_other)
next
  case None
  show ?thesis
  proof (cases "length l < cap")
    case True
    with None x k show ?thesis by (auto simp: insert_room newer_append map_add_def split: option.split)
  next
    case False
    with wf have len: "length l = cap" by (simp add: lru_wf_def)
    with wf obtain p l' where l: "l = p # l'" by (cases l) (auto simp: lru_wf_def)
    have "fst p \<noteq> k"
    proof
      assume p: "fst p = k"
      with l wf have "card (lru_newer k l) = length l'"
        using newer_card [of l k "snd p" l'] by (cases p) (auto simp: lru_wf_def)
      moreover have "x \<notin> lru_newer k l" using None l p by (auto simp: map_of_None_iff split: if_splits)
      ultimately have "card (insert x (lru_newer k l)) = Suc (length l')" by simp
      with len l few show False by simp
    qed
    with l k have k': "k \<in> fst ` set l'" by auto
    have "lru_insert cap x e l = l' @ [(x, e)]"
      using None len l by (simp add: lru_insert_def)
    with l k' x \<open>fst p \<noteq> k\<close> show ?thesis
      by (cases p) (auto simp: newer_append map_add_def split: option.split)
  qed
qed

subsection \<open>The interface\<close>

text \<open>
  A run of a cache: stores, lookups and deletions in any order. A store whose eviction loop does
  not end has no result.
\<close>

datatype 'e lru_op = Op_put string 'e | Op_get gotime string | Op_del string

fun lru_run :: "(string \<Rightarrow> 'e \<Rightarrow> 'c \<Rightarrow> 'c option) \<Rightarrow> (gotime \<Rightarrow> string \<Rightarrow> 'c \<Rightarrow> 'c \<times> 'r option) \<Rightarrow> (string \<Rightarrow> 'c \<Rightarrow> 'c) \<Rightarrow>
    'e lru_op list \<Rightarrow> 'c \<Rightarrow> 'c option" where
  "lru_run put get del [] c = Some c"
| "lru_run put get del (Op_put k e # ops) c =
     (case put k e c of None \<Rightarrow> None | Some c' \<Rightarrow> lru_run put get del ops c')"
| "lru_run put get del (Op_get now k # ops) c = lru_run put get del ops (fst (get now k c))"
| "lru_run put get del (Op_del k # ops) c = lru_run put get del ops (del k c)"

fun op_key :: "'e lru_op \<Rightarrow> string" where
  "op_key (Op_put k e) = k"
| "op_key (Op_get now k) = k"
| "op_key (Op_del k) = k"

text \<open>
  The contract: \<open>abs\<close> reads the concrete cache as the list of the specification, and every operation
  is the operation of the specification on it. \<open>stored\<close> is what a store makes of the given entry,
  \<open>fresh\<close> says whether an entry may be served, \<open>hit\<close> what a lookup makes of it, and \<open>expire\<close> what
  a lookup does with an entry that is too old (drop it or leave it).
\<close>

locale lru_cache =
  fixes good :: "'c \<Rightarrow> bool" and capacity :: "'c \<Rightarrow> nat" and abs :: "'c \<Rightarrow> 'e lru"
    and put :: "string \<Rightarrow> 'e \<Rightarrow> 'c \<Rightarrow> 'c option"
    and get :: "gotime \<Rightarrow> string \<Rightarrow> 'c \<Rightarrow> 'c \<times> 'e option"
    and del :: "string \<Rightarrow> 'c \<Rightarrow> 'c"
    and stored :: "'c \<Rightarrow> 'e \<Rightarrow> 'e" and fresh :: "gotime \<Rightarrow> 'e \<Rightarrow> bool" and hit :: "'e \<Rightarrow> 'e"
    and expire :: "string \<Rightarrow> 'e lru \<Rightarrow> 'e lru"
  assumes abs_wf: "good c \<Longrightarrow> lru_wf (capacity c) (abs c)"
    and put_refines: "good c \<Longrightarrow>
          \<exists>c'. put k e c = Some c' \<and> good c' \<and> capacity c' = capacity c \<and>
               abs c' = lru_insert (capacity c) k (stored c e) (abs c)"
    and get_refines: "good c \<Longrightarrow>
          good (fst (get now k c)) \<and> capacity (fst (get now k c)) = capacity c \<and>
          (case map_of (abs c) k of
             None \<Rightarrow> snd (get now k c) = None \<and> abs (fst (get now k c)) = abs c
           | Some e \<Rightarrow>
               if fresh now e
               then snd (get now k c) = Some (hit e) \<and> abs (fst (get now k c)) = lru_touch k (hit e) (abs c)
               else snd (get now k c) = None \<and> abs (fst (get now k c)) = expire k (abs c))"
    and del_refines: "good c \<Longrightarrow>
          good (del k c) \<and> capacity (del k c) = capacity c \<and> abs (del k c) = lru_remove k (abs c)"
    and expire_cases: "expire k l = l \<or> expire k l = lru_remove k l"
begin

lemma put_ok:
  assumes "good c"
  obtains c' where "put k e c = Some c'" "good c'" "capacity c' = capacity c"
    "abs c' = lru_insert (capacity c) k (stored c e) (abs c)"
  using put_refines [OF assms] by blast

lemma get_ok:
  assumes "good c"
  shows "good (fst (get now k c))" "capacity (fst (get now k c)) = capacity c"
  using get_refines [OF assms, of now k] by simp_all

lemma get_other:
  assumes g: "good c" and x: "x \<noteq> k"
  shows "map_of (abs (fst (get now x c))) k = map_of (abs c) k \<and>
         (k \<in> fst ` set (abs c) \<longrightarrow> lru_newer k (abs (fst (get now x c))) \<subseteq> insert x (lru_newer k (abs c)))"
proof (cases "map_of (abs c) x")
  case None
  with get_refines [OF g, of now x] have "abs (fst (get now x c)) = abs c" by simp
  then show ?thesis by auto
next
  case (Some e)
  show ?thesis
  proof (cases "fresh now e")
    case True
    with Some get_refines [OF g, of now x] have "abs (fst (get now x c)) = lru_touch x (hit e) (abs c)" by simp
    then show ?thesis using x newer_touch_other [of x k "abs c" "hit e"] by simp
  next
    case False
    with Some get_refines [OF g, of now x] have a: "abs (fst (get now x c)) = expire x (abs c)" by simp
    show ?thesis unfolding a using expire_cases [of x "abs c"]
    proof
      assume "expire x (abs c) = lru_remove x (abs c)"
      then show "map_of (expire x (abs c)) k = map_of (abs c) k \<and>
        (k \<in> fst ` set (abs c) \<longrightarrow> lru_newer k (expire x (abs c)) \<subseteq> insert x (lru_newer k (abs c)))"
        using x by (auto simp: newer_remove)
    qed auto
  qed
qed

text \<open>Every run ends, keeps the cache well formed and stays within the capacity.\<close>

lemma run_ends:
  "good c \<Longrightarrow> \<exists>c'. lru_run put get del ops c = Some c' \<and> good c' \<and> capacity c' = capacity c"
proof (induction ops arbitrary: c)
  case (Cons op ops)
  show ?case
  proof (cases op)
    case (Op_put k e)
    from put_ok [OF Cons.prems] obtain c' where "put k e c = Some c'" "good c'" "capacity c' = capacity c" by blast
    with Cons.IH [of c'] Op_put show ?thesis by auto
  next
    case (Op_get now k)
    with Cons.IH [of "fst (get now k c)"] get_ok [OF Cons.prems, of now k] show ?thesis by simp
  next
    case (Op_del k)
    with Cons.IH [of "del k c"] del_refines [OF Cons.prems, of k] show ?thesis by simp
  qed
qed simp

lemma run_bounded:
  "good c \<Longrightarrow> lru_run put get del ops c = Some c' \<Longrightarrow> length (abs c') \<le> capacity c"
  using run_ends [of c ops] abs_wf [of c'] by (auto simp: lru_wf_def)

text \<open>A stored entry is served until it is displaced.\<close>

lemma get_after_put:
  assumes "good c" "fresh now (stored c e)"
  shows "\<exists>c'. put k e c = Some c' \<and> snd (get now k c') = Some (hit (stored c e))"
proof -
  from put_ok [OF assms(1)] obtain c' where c': "put k e c = Some c'" "good c'"
    "abs c' = lru_insert (capacity c) k (stored c e) (abs c)" by blast
  with get_refines [OF c'(2), of now k] assms(2) show ?thesis by (simp add: lookup_insert_same)
qed

lemma run_keeps:
  assumes "good c" "map_of (abs c) k = Some v" "k \<notin> op_key ` set ops"
    "lru_newer k (abs c) \<subseteq> used" "finite used" "card (used \<union> op_key ` set ops) < capacity c"
    "lru_run put get del ops c = Some c'"
  shows "map_of (abs c') k = Some v"
  using assms
proof (induction ops arbitrary: c used)
  case (Cons op ops)
  let ?x = "op_key op" and ?U = "used \<union> op_key ` set (op # ops)"
  note x = Cons.prems(3)
  have kin: "k \<in> fst ` set (abs c)"
    using Cons.prems(2) by (metis map_of_None_iff option.distinct(1))
  have "card (insert ?x (lru_newer k (abs c))) \<le> card ?U"
    using Cons.prems(4,5) by (intro card_mono) auto
  with Cons.prems(6) have few: "card (insert ?x (lru_newer k (abs c))) < capacity c" by simp
  have step: "map_of (abs c') k = Some v"
    if "good d" "capacity d = capacity c" "map_of (abs d) k = map_of (abs c) k"
      "lru_newer k (abs d) \<subseteq> insert ?x (lru_newer k (abs c))" "lru_run put get del ops d = Some c'" for d
  proof (rule Cons.IH [of d "insert ?x used"])
    show "card (insert ?x used \<union> op_key ` set ops) < capacity d"
      using Cons.prems(6) that(2) by simp
  qed (use that Cons.prems in auto)
  show ?case
  proof (cases op)
    case (Op_put y e)
    from put_ok [OF Cons.prems(1)] obtain d where d: "put y e c = Some d" "good d" "capacity d = capacity c"
      "abs d = lru_insert (capacity c) y (stored c e) (abs c)" by blast
    from insert_keeps [OF abs_wf [OF Cons.prems(1)] kin, of y "stored c e"] x few d Op_put
    show ?thesis by (intro step [of d]) (use Cons.prems(7) in auto)
  next
    case (Op_get now y)
    with get_other [OF Cons.prems(1), of y k now] kin x get_ok [OF Cons.prems(1), of now y] Cons.prems(7)
    show ?thesis by (intro step [of "fst (get now y c)"]) auto
  next
    case (Op_del y)
    with del_refines [OF Cons.prems(1), of y] x newer_remove [of y k "abs c"] Cons.prems(7)
    show ?thesis by (intro step [of "del y c"]) auto
  qed
qed simp

text \<open>The guarantee of least-recently-used replacement.\<close>

lemma recently_used_served:
  assumes g: "good c" and k: "k \<notin> op_key ` set ops" and few: "card (op_key ` set ops) < capacity c"
    and fr: "fresh now (stored c e)"
  shows "\<exists>c1 c2. put k e c = Some c1 \<and> lru_run put get del ops c1 = Some c2 \<and>
                 snd (get now k c2) = Some (hit (stored c e))"
proof -
  from put_ok [OF g] obtain c1 where c1: "put k e c = Some c1" "good c1" "capacity c1 = capacity c"
    "abs c1 = lru_insert (capacity c) k (stored c e) (abs c)" by blast
  obtain c2 where c2: "lru_run put get del ops c1 = Some c2" "good c2"
    using run_ends [OF c1(2)] by blast
  have "lru_newer k (abs c1) = {}"
    using abs_wf [OF g] c1(4) newer_insert_same [of "abs c"] by (simp add: lru_wf_def)
  moreover have "map_of (abs c1) k = Some (stored c e)" using c1(4) by (simp add: lookup_insert_same)
  ultimately have "map_of (abs c2) k = Some (stored c e)"
    using run_keeps [OF c1(2) _ k _ _ _ c2(1), of "stored c e" "{}"] few c1(3) by simp
  with get_refines [OF c2(2), of now k] fr c1(1) c2(1) show ?thesis by auto
qed

end

subsection \<open>A map with a recency list\<close>

text \<open>Both caches keep their entries in a map and the keys, oldest first, in a slice.\<close>

definition rep_ok :: "(string, 'e) gomap \<Rightarrow> string list \<Rightarrow> bool" where
  "rep_ok m ord \<longleftrightarrow> wf_gomap m \<and> distinct ord \<and> set ord = set (gkeys m)"

definition rep_abs :: "(string, 'e) gomap \<Rightarrow> string list \<Rightarrow> 'e lru" where
  "rep_abs m ord = map (\<lambda>k. (k, the (gget m k))) ord"

lemma rep_keys: "map fst (rep_abs m ord) = ord"
  by (simp add: rep_abs_def comp_def)

lemma rep_fst_set: "fst ` set (rep_abs m ord) = set ord"
  using rep_keys [of m ord] by (metis list.set_map)

lemma rep_length: "rep_ok m ord \<Longrightarrow> glen m = int (length ord)"
  by (auto simp: rep_ok_def glen_def wf_gomap_def gkeys_def dest!: distinct_card)

lemma rep_lookup: "rep_ok m ord \<Longrightarrow> map_of (rep_abs m ord) k = gget m k"
proof (cases "k \<in> set ord")
  case True
  assume ok: "rep_ok m ord"
  then have "distinct (map fst (rep_abs m ord))" by (simp add: rep_keys rep_ok_def)
  moreover have "(k, the (gget m k)) \<in> set (rep_abs m ord)" using True by (simp add: rep_abs_def)
  moreover have "gget m k \<noteq> None" using True ok by (simp add: rep_ok_def set_gkeys)
  ultimately show ?thesis by (auto simp: map_of_is_SomeI)
next
  case False
  assume "rep_ok m ord"
  with False have "gget m k = None" by (simp add: rep_ok_def set_gkeys)
  with False show ?thesis by (simp add: map_of_None_iff rep_fst_set)
qed

lemma rep_in: "rep_ok m ord \<Longrightarrow> k \<in> set ord \<longleftrightarrow> gget m k \<noteq> None"
  by (simp add: rep_ok_def set_gkeys)

lemma rep_remove:
  "rep_ok m ord \<Longrightarrow>
   rep_ok (gdel k m) (remove1 k ord) \<and> rep_abs (gdel k m) (remove1 k ord) = lru_remove k (rep_abs m ord)"
  by (auto simp: rep_ok_def rep_abs_def lru_remove_def set_gkeys distinct_remove1_removeAll removeAll_filter_not_eq
      filter_map comp_def eq_commute)

lemma rep_touch:
  "rep_ok m ord \<Longrightarrow> gget m k \<noteq> None \<Longrightarrow>
   rep_ok (gput k e m) (remove1 k ord @ [k]) \<and>
   rep_abs (gput k e m) (remove1 k ord @ [k]) = lru_touch k e (rep_abs m ord)"
  by (auto simp: rep_ok_def rep_abs_def lru_touch_def lru_remove_def set_gkeys distinct_remove1_removeAll
      removeAll_filter_not_eq filter_map comp_def eq_commute)

lemma rep_append:
  "rep_ok m ord \<Longrightarrow> gget m k = None \<Longrightarrow>
   rep_ok (gput k e m) (ord @ [k]) \<and> rep_abs (gput k e m) (ord @ [k]) = rep_abs m ord @ [(k, e)]"
  by (auto simp: rep_ok_def rep_abs_def set_gkeys)

lemma rep_oldest:
  assumes ok: "rep_ok m (x # ord)"
  shows "rep_ok (gdel x m) ord" "rep_abs (gdel x m) ord = drop 1 (rep_abs m (x # ord))"
proof -
  from ok have "x \<notin> set ord" "set (gkeys m) = insert x (set ord)" by (auto simp: rep_ok_def)
  then show "rep_ok (gdel x m) ord" "rep_abs (gdel x m) ord = drop 1 (rep_abs m (x # ord))"
    using ok by (auto simp: rep_ok_def rep_abs_def set_gkeys)
qed

lemma rep_wf: "rep_ok m ord \<Longrightarrow> length ord \<le> cap \<Longrightarrow> 0 < cap \<Longrightarrow> lru_wf cap (rep_abs m ord)"
  by (simp add: lru_wf_def rep_keys) (simp add: rep_ok_def rep_abs_def)

lemma rep_abs_length [simp]: "length (rep_abs m ord) = length ord"
  by (simp add: rep_abs_def)

end
