(* ===== verification/Lru_Cache.thy ===== *)
theory Lru_Cache
  imports Lru_Spec Float64
begin

text \<open>
  The LLM response cache of \<^verbatim>\<open>internal/cache/response_cache.go\<close>, which the AI middleware pipeline asks
  before it calls a provider: a map of entries with a recency list, a TTL per entry, eviction of the
  least recently used entry at capacity, and hit statistics.

  Entries are pointers, but every one of them is created by the cache and only copies leave it, so
  they are modelled by value. \<open>HashPrompt\<close> takes the SHA-256 function (first 16 bytes, in
  hexadecimal) as an argument. The eviction loop \<^verbatim>\<open>for len(c.entries) >= MaxSize\<close> would not end on a cache
  whose recency list had lost a key, so it is a \<open>partial_function\<close> and its termination is proved.
\<close>

subsection \<open>State\<close>

record CachedResponse =
  cr_Key :: string
  cr_Model :: string
  cr_Prompt :: string
  cr_Response :: string
  cr_TokensUsed :: int
  cr_CostUSD :: f64
  cr_HitCount :: int
  cr_CreatedAt :: gotime
  cr_ExpiresAt :: gotime
  cr_Tags :: "string list"

record CacheStats =
  cs_HitCount :: int
  cs_MissCount :: int
  cs_HitRate :: f64
  cs_TotalSavedUSD :: f64
  cs_EvictionCount :: int
  cs_Size :: int
  cs_MaxSize :: int

record LruConfig =
  MaxSize :: int
  DefaultTTL :: duration
  KeyPrefix :: string
  EnableHash :: bool

record LruCache =
  lc_entries :: "(string, CachedResponse) gomap"
  lc_order :: "string list"
  lc_config :: LruConfig
  lc_stats :: CacheStats

definition zero_stats :: CacheStats where
  "zero_stats = \<lparr>cs_HitCount = 0, cs_MissCount = 0, cs_HitRate = 0, cs_TotalSavedUSD = 0, cs_EvictionCount = 0,
     cs_Size = 0, cs_MaxSize = 0\<rparr>"

subsection \<open>Operations\<close>

definition NewLruCache :: "LruConfig \<Rightarrow> LruCache" where
  "NewLruCache cfg =
     (let cfg = (if MaxSize cfg \<le> 0 then cfg\<lparr>MaxSize := 10000\<rparr> else cfg);
          cfg = (if DefaultTTL cfg = 0 then cfg\<lparr>DefaultTTL := 24 * Hour\<rparr> else cfg);
          cfg = (if KeyPrefix cfg = '''' then cfg\<lparr>KeyPrefix := ''llm:''\<rparr> else cfg)
      in \<lparr>lc_entries = [], lc_order = [], lc_config = cfg, lc_stats = zero_stats\<rparr>)"

definition HashPrompt :: "(string \<Rightarrow> string) \<Rightarrow> string \<Rightarrow> string \<Rightarrow> string" where
  "HashPrompt sha256_16 model prompt = sha256_16 (model @ '':'' @ prompt)"

definition lc_deleteEntry :: "string \<Rightarrow> LruCache \<Rightarrow> LruCache" where
  "lc_deleteEntry key c = c\<lparr>lc_entries := gdel key (lc_entries c), lc_order := remove1 key (lc_order c)\<rparr>"

definition evictOldest :: "LruCache \<Rightarrow> LruCache" where
  "evictOldest c =
     (case lc_order c of
        [] \<Rightarrow> c
      | key # rest \<Rightarrow>
          c\<lparr>lc_order := rest, lc_entries := gdel key (lc_entries c),
            lc_stats := (lc_stats c)\<lparr>cs_EvictionCount := cs_EvictionCount (lc_stats c) + 1\<rparr>\<rparr>)"

definition moveToEnd :: "string \<Rightarrow> LruCache \<Rightarrow> LruCache" where
  "moveToEnd key c = (if key \<in> set (lc_order c) then c\<lparr>lc_order := remove1 key (lc_order c) @ [key]\<rparr> else c)"

definition count_miss :: "LruCache \<Rightarrow> LruCache" where
  "count_miss c = c\<lparr>lc_stats := (lc_stats c)\<lparr>cs_MissCount := cs_MissCount (lc_stats c) + 1\<rparr>\<rparr>"

definition lc_hit :: "CachedResponse \<Rightarrow> CachedResponse" where
  "lc_hit e = e\<lparr>cr_HitCount := cr_HitCount e + 1\<rparr>"

definition lc_Get :: "gotime \<Rightarrow> string \<Rightarrow> LruCache \<Rightarrow> LruCache \<times> CachedResponse option" where
  "lc_Get now key c =
     (case gget (lc_entries c) key of
        None \<Rightarrow> (count_miss c, None)
      | Some e \<Rightarrow>
          if cr_ExpiresAt e < now then (count_miss (lc_deleteEntry key c), None)
          else
            (let c = moveToEnd key c; e' = lc_hit e; st = lc_stats c in
             (c\<lparr>lc_entries := gput key e' (lc_entries c),
                lc_stats := st\<lparr>cs_HitCount := cs_HitCount st + 1,
                               cs_TotalSavedUSD := fadd (cs_TotalSavedUSD st) (cr_CostUSD e)\<rparr>\<rparr>, Some e')))"

definition GetByPrompt :: "(string \<Rightarrow> string) \<Rightarrow> gotime \<Rightarrow> string \<Rightarrow> string \<Rightarrow> LruCache \<Rightarrow> LruCache \<times> CachedResponse option" where
  "GetByPrompt sha256_16 now model prompt c =
     lc_Get now (KeyPrefix (lc_config c) @ HashPrompt sha256_16 model prompt) c"

partial_function (option) evict_loop :: "LruCache \<Rightarrow> LruCache option" where
  "evict_loop c =
     (if MaxSize (lc_config c) \<le> glen (lc_entries c) then evict_loop (evictOldest c) else Some c)"

text \<open>The second half of \<^verbatim>\<open>Put\<close> and \<^verbatim>\<open>PutWithTTL\<close>, which is the same code in both.\<close>

definition lc_store :: "string \<Rightarrow> CachedResponse \<Rightarrow> LruCache \<Rightarrow> LruCache option" where
  "lc_store key e c =
     (if gget (lc_entries c) key \<noteq> None
      then Some (moveToEnd key (c\<lparr>lc_entries := gput key e (lc_entries c)\<rparr>))
      else case evict_loop c of
             None \<Rightarrow> None
           | Some c' \<Rightarrow> Some (c'\<lparr>lc_entries := gput key e (lc_entries c'), lc_order := lc_order c' @ [key]\<rparr>))"

definition lc_Put ::
    "gotime \<Rightarrow> string \<Rightarrow> string \<Rightarrow> string \<Rightarrow> string \<Rightarrow> int \<Rightarrow> f64 \<Rightarrow> string list \<Rightarrow> LruCache \<Rightarrow> LruCache option" where
  "lc_Put now key model prompt response tokensUsed costUSD tags c =
     lc_store key
       \<lparr>cr_Key = key, cr_Model = model, cr_Prompt = prompt, cr_Response = response, cr_TokensUsed = tokensUsed,
        cr_CostUSD = costUSD, cr_HitCount = 0, cr_CreatedAt = now,
        cr_ExpiresAt = time_Add now (DefaultTTL (lc_config c)), cr_Tags = tags\<rparr> c"

definition PutWithTTL ::
    "gotime \<Rightarrow> string \<Rightarrow> string \<Rightarrow> string \<Rightarrow> string \<Rightarrow> int \<Rightarrow> f64 \<Rightarrow> duration \<Rightarrow> LruCache \<Rightarrow> LruCache option" where
  "PutWithTTL now key model prompt response tokensUsed costUSD ttl c =
     lc_store key
       \<lparr>cr_Key = key, cr_Model = model, cr_Prompt = prompt, cr_Response = response, cr_TokensUsed = tokensUsed,
        cr_CostUSD = costUSD, cr_HitCount = 0, cr_CreatedAt = now, cr_ExpiresAt = time_Add now ttl, cr_Tags = []\<rparr> c"

definition lc_Delete :: "string \<Rightarrow> LruCache \<Rightarrow> LruCache \<times> bool" where
  "lc_Delete key c =
     (if gget (lc_entries c) key = None then (c, False) else (lc_deleteEntry key c, True))"

definition lc_Contains :: "gotime \<Rightarrow> string \<Rightarrow> LruCache \<Rightarrow> bool" where
  "lc_Contains now key c =
     (case gget (lc_entries c) key of None \<Rightarrow> False | Some e \<Rightarrow> now < cr_ExpiresAt e)"

definition lc_Size :: "LruCache \<Rightarrow> int" where
  "lc_Size c = glen (lc_entries c)"

definition lc_Stats :: "LruCache \<Rightarrow> CacheStats" where
  "lc_Stats c =
     (let st = (lc_stats c)\<lparr>cs_Size := glen (lc_entries c), cs_MaxSize := MaxSize (lc_config c)\<rparr>;
          total = cs_HitCount st + cs_MissCount st
      in if 0 < total
         then st\<lparr>cs_HitRate := fmul (fdiv (f_of_int (cs_HitCount st)) (f_of_int total)) 100\<rparr> else st)"

definition lc_Clear :: "LruCache \<Rightarrow> LruCache" where
  "lc_Clear c = c\<lparr>lc_entries := [], lc_order := []\<rparr>"

definition expired_keys :: "gotime \<Rightarrow> LruCache \<Rightarrow> string list" where
  "expired_keys now c = gkeys (gfilter (\<lambda>k e. cr_ExpiresAt e < now) (lc_entries c))"

definition PurgeExpired :: "gotime \<Rightarrow> LruCache \<Rightarrow> LruCache \<times> int" where
  "PurgeExpired now c =
     (fold lc_deleteEntry (expired_keys now c) c, int (length (expired_keys now c)))"

text \<open>The keys come out in map order, of which only the set is meaningful.\<close>

definition lc_Keys :: "gotime \<Rightarrow> LruCache \<Rightarrow> string list" where
  "lc_Keys now c = gkeys (gfilter (\<lambda>k e. now < cr_ExpiresAt e) (lc_entries c))"

subsection \<open>Refinement of the specification\<close>

definition lc_ok :: "LruCache \<Rightarrow> bool" where
  "lc_ok c \<longleftrightarrow> rep_ok (lc_entries c) (lc_order c) \<and> 0 < MaxSize (lc_config c) \<and>
     glen (lc_entries c) \<le> MaxSize (lc_config c)"

definition lc_capacity :: "LruCache \<Rightarrow> nat" where
  "lc_capacity c = nat (MaxSize (lc_config c))"

definition lc_abs :: "LruCache \<Rightarrow> CachedResponse lru" where
  "lc_abs c = rep_abs (lc_entries c) (lc_order c)"

definition lc_fresh :: "gotime \<Rightarrow> CachedResponse \<Rightarrow> bool" where
  "lc_fresh now e \<longleftrightarrow> now \<le> cr_ExpiresAt e"

lemmas lc_simps = lc_ok_def lc_capacity_def lc_abs_def

lemma lc_lookup: "lc_ok c \<Longrightarrow> map_of (lc_abs c) k = gget (lc_entries c) k"
  by (simp add: lc_simps rep_lookup)

lemma lc_wf: "lc_ok c \<Longrightarrow> lru_wf (lc_capacity c) (lc_abs c)"
  by (auto simp: lc_simps rep_length intro!: rep_wf)

lemma deleteEntry_refines:
  "lc_ok c \<Longrightarrow>
   lc_ok (lc_deleteEntry k c) \<and> lc_config (lc_deleteEntry k c) = lc_config c \<and>
   lc_abs (lc_deleteEntry k c) = lru_remove k (lc_abs c)"
proof -
  assume ok: "lc_ok c"
  then have "glen (gdel k (lc_entries c)) \<le> glen (lc_entries c)"
    by (auto simp: lc_ok_def rep_ok_def glen_gdel)
  with ok rep_remove [of "lc_entries c" "lc_order c" k] show ?thesis
    by (auto simp: lc_deleteEntry_def lc_simps)
qed

lemma count_miss_same [simp]:
  "lc_ok (count_miss c) = lc_ok c" "lc_abs (count_miss c) = lc_abs c"
  "lc_config (count_miss c) = lc_config c" "lc_entries (count_miss c) = lc_entries c"
  by (simp_all add: count_miss_def lc_simps)

lemma moved_refines:
  assumes "lc_ok c" "gget (lc_entries c) k \<noteq> None" "lc_entries c' = gput k e (lc_entries c)"
    "lc_order c' = remove1 k (lc_order c) @ [k]" "lc_config c' = lc_config c"
  shows "lc_ok c' \<and> lc_abs c' = lru_touch k e (lc_abs c)"
  using assms rep_touch [of "lc_entries c" "lc_order c" k e] by (auto simp: lc_simps glen_gput)

lemma moveToEnd_present: "lc_ok c \<Longrightarrow> gget (lc_entries c) k \<noteq> None \<Longrightarrow>
  moveToEnd k c = c\<lparr>lc_order := remove1 k (lc_order c) @ [k]\<rparr>"
  using rep_in [of "lc_entries c" "lc_order c" k] by (auto simp: moveToEnd_def lc_ok_def)

text \<open>The eviction loop ends on every well-formed cache and leaves room for one entry.\<close>

lemma evictOldest_Cons:
  assumes "rep_ok (lc_entries c) (x # ord)" "lc_order c = x # ord"
  shows "rep_ok (lc_entries (evictOldest c)) (lc_order (evictOldest c))" "lc_order (evictOldest c) = ord"
    "lc_config (evictOldest c) = lc_config c" "lc_abs (evictOldest c) = drop 1 (lc_abs c)"
  using assms rep_oldest [OF assms(1)] by (simp_all add: evictOldest_def lc_abs_def)

lemma evict_loop_ends:
  assumes "rep_ok (lc_entries c) (lc_order c)" "0 < MaxSize (lc_config c)"
  shows "\<exists>c'. evict_loop c = Some c' \<and> rep_ok (lc_entries c') (lc_order c') \<and> lc_config c' = lc_config c \<and>
    glen (lc_entries c') < MaxSize (lc_config c) \<and>
    lc_abs c' = drop (Suc (length (lc_order c)) - lc_capacity c) (lc_abs c)"
  using assms
proof (induction "lc_order c" arbitrary: c)
  case Nil
  then have "glen (lc_entries c) = 0" by (simp add: rep_length)
  with Nil show ?case by (auto simp: evict_loop.simps [of c] lc_abs_def rep_abs_def)
next
  case (Cons x ord)
  note len = rep_length [OF Cons.prems(1)]
  show ?case
  proof (cases "MaxSize (lc_config c) \<le> glen (lc_entries c)")
    case False
    with Cons len show ?thesis by (auto simp: evict_loop.simps [of c] lc_capacity_def)
  next
    case True
    from Cons.hyps(2) Cons.prems(1) have r: "rep_ok (lc_entries c) (x # ord)" by simp
    note ev = evictOldest_Cons [OF r Cons.hyps(2) [symmetric]]
    from Cons.hyps(1) [of "evictOldest c"] ev Cons.prems obtain c' where
      c': "evict_loop (evictOldest c) = Some c'" "rep_ok (lc_entries c') (lc_order c')" "lc_config c' = lc_config c"
        "glen (lc_entries c') < MaxSize (lc_config c)"
        "lc_abs c' = drop (Suc (length ord) - lc_capacity c) (drop 1 (lc_abs c))"
      by (auto simp: lc_capacity_def)
    have "Suc (length ord) - lc_capacity c + 1 = Suc (length (lc_order c)) - lc_capacity c"
      using True len Cons.hyps(2) [symmetric] by (simp add: lc_capacity_def)
    then have "lc_abs c' = drop (Suc (length (lc_order c)) - lc_capacity c) (lc_abs c)"
      unfolding c'(5) drop_drop by (simp only: add.commute)
    with c' True show ?thesis by (auto simp: evict_loop.simps [of c])
  qed
qed

lemma store_refines:
  assumes ok: "lc_ok c"
  shows "\<exists>c'. lc_store k e c = Some c' \<and> lc_ok c' \<and> lc_config c' = lc_config c \<and>
              lc_abs c' = lru_insert (lc_capacity c) k e (lc_abs c)"
proof (cases "gget (lc_entries c) k")
  case (Some e')
  from Some ok rep_in [of "lc_entries c" "lc_order c" k] have "k \<in> set (lc_order c)" by (simp add: lc_ok_def)
  with Some ok show ?thesis
    by (simp add: lc_store_def moveToEnd_def lru_insert_def lc_lookup moved_refines [OF ok, where k = k])
next
  case None
  from ok have r: "rep_ok (lc_entries c) (lc_order c)" and m: "0 < MaxSize (lc_config c)" by (simp_all add: lc_ok_def)
  obtain c' where c': "evict_loop c = Some c'" "rep_ok (lc_entries c') (lc_order c')" "lc_config c' = lc_config c"
    "glen (lc_entries c') < MaxSize (lc_config c)"
    "lc_abs c' = drop (Suc (length (lc_order c)) - lc_capacity c) (lc_abs c)"
    using evict_loop_ends [OF r m] by blast
  have fresh: "gget (lc_entries c') k = None"
  proof -
    have "fst ` set (lc_abs c') \<subseteq> fst ` set (lc_abs c)" unfolding c'(5) by (auto dest: in_set_dropD)
    then have "set (lc_order c') \<subseteq> set (lc_order c)" by (simp add: lc_abs_def rep_fst_set)
    with None rep_in [OF r, of k] rep_in [OF c'(2), of k] show ?thesis by auto
  qed
  from None ok have "map_of (lc_abs c) k = None" by (simp add: lc_lookup)
  moreover have "length (lc_abs c) = length (lc_order c)" by (simp add: lc_abs_def)
  ultimately show ?thesis using None c' m fresh rep_append [OF c'(2) fresh, of e]
    by (simp add: lc_store_def lru_insert_def lc_simps glen_gput)
qed

lemma get_refines:
  assumes ok: "lc_ok c"
  shows "lc_ok (fst (lc_Get now k c)) \<and> lc_config (fst (lc_Get now k c)) = lc_config c \<and>
    (case map_of (lc_abs c) k of
       None \<Rightarrow> snd (lc_Get now k c) = None \<and> lc_abs (fst (lc_Get now k c)) = lc_abs c
     | Some e \<Rightarrow>
         if lc_fresh now e
         then snd (lc_Get now k c) = Some (lc_hit e) \<and> lc_abs (fst (lc_Get now k c)) = lru_touch k (lc_hit e) (lc_abs c)
         else snd (lc_Get now k c) = None \<and> lc_abs (fst (lc_Get now k c)) = lru_remove k (lc_abs c))"
proof (cases "gget (lc_entries c) k")
  case None
  with ok show ?thesis by (simp add: lc_Get_def lc_lookup)
next
  case (Some e)
  show ?thesis
  proof (cases "cr_ExpiresAt e < now")
    case True
    with Some ok deleteEntry_refines [OF ok, of k] show ?thesis by (simp add: lc_Get_def lc_lookup lc_fresh_def)
  next
    case False
    with Some ok show ?thesis
      by (simp add: lc_Get_def lc_lookup lc_fresh_def Let_def moveToEnd_present moved_refines [OF ok, where k = k])
  qed
qed

lemma delete_refines:
  assumes ok: "lc_ok c"
  shows "lc_ok (fst (lc_Delete k c)) \<and> lc_config (fst (lc_Delete k c)) = lc_config c \<and>
    lc_abs (fst (lc_Delete k c)) = lru_remove k (lc_abs c) \<and>
    (snd (lc_Delete k c) \<longleftrightarrow> map_of (lc_abs c) k \<noteq> None)"
proof (cases "gget (lc_entries c) k")
  case None
  with lc_lookup [OF ok, of k] have "k \<notin> fst ` set (lc_abs c)" by (simp add: map_of_None_iff)
  with None ok show ?thesis by (simp add: lc_Delete_def lc_lookup)
qed (use ok deleteEntry_refines [OF ok, of k] in \<open>simp add: lc_Delete_def lc_lookup\<close>)

lemma fold_delete_refines:
  "lc_ok c \<Longrightarrow> lc_ok (fold lc_deleteEntry ks c) \<and> lc_config (fold lc_deleteEntry ks c) = lc_config c \<and>
   lc_abs (fold lc_deleteEntry ks c) = filter (\<lambda>p. fst p \<notin> set ks) (lc_abs c)"
proof (induction ks arbitrary: c)
  case (Cons k ks)
  with deleteEntry_refines [OF Cons.prems, of k] show ?case
    by (auto simp: lru_remove_def filter_filter intro!: filter_cong)
qed simp

lemma purge_refines:
  assumes ok: "lc_ok c"
  shows "lc_ok (fst (PurgeExpired now c)) \<and> lc_config (fst (PurgeExpired now c)) = lc_config c \<and>
    lc_abs (fst (PurgeExpired now c)) = filter (\<lambda>p. lc_fresh now (snd p)) (lc_abs c)"
proof -
  from ok have wf: "wf_gomap (lc_entries c)" by (simp add: lc_ok_def rep_ok_def)
  have "k \<notin> set (expired_keys now c) \<longleftrightarrow> lc_fresh now e" if "(k, e) \<in> set (lc_abs c)" for k e
  proof -
    from that have "k \<in> set (lc_order c)" "e = the (gget (lc_entries c) k)" by (auto simp: lc_abs_def rep_abs_def)
    with ok rep_in [of "lc_entries c" "lc_order c" k] have "gget (lc_entries c) k = Some e" by (auto simp: lc_ok_def)
    with wf show ?thesis by (simp add: expired_keys_def set_gkeys gget_gfilter lc_fresh_def not_less)
  qed
  then have "filter (\<lambda>p. fst p \<notin> set (expired_keys now c)) (lc_abs c) = filter (\<lambda>p. lc_fresh now (snd p)) (lc_abs c)"
    by (intro filter_cong) (auto split: prod.splits)
  with fold_delete_refines [OF ok, of "expired_keys now c"] show ?thesis by (simp add: PurgeExpired_def)
qed

lemma clear_refines: "lc_ok c \<Longrightarrow> lc_ok (lc_Clear c) \<and> lc_config (lc_Clear c) = lc_config c \<and> lc_abs (lc_Clear c) = []"
  by (simp add: lc_Clear_def lc_simps rep_ok_def rep_abs_def glen_def gkeys_def)

lemma new_refines: "lc_ok (NewLruCache cfg) \<and> lc_abs (NewLruCache cfg) = []"
  by (simp add: NewLruCache_def lc_simps Let_def rep_ok_def rep_abs_def glen_def gkeys_def)

interpretation llm_cache: lru_cache lc_ok lc_capacity lc_abs lc_store lc_Get "\<lambda>k c. fst (lc_Delete k c)"
  "\<lambda>c e. e" lc_fresh lc_hit lru_remove
proof unfold_locales
  fix c :: LruCache and k now e
  assume ok: "lc_ok c"
  show "lru_wf (lc_capacity c) (lc_abs c)" by (rule lc_wf [OF ok])
  from store_refines [OF ok, of k e]
  show "\<exists>c'. lc_store k e c = Some c' \<and> lc_ok c' \<and> lc_capacity c' = lc_capacity c \<and>
      lc_abs c' = lru_insert (lc_capacity c) k e (lc_abs c)" by (auto simp: lc_capacity_def)
  from get_refines [OF ok, of now k]
  show "lc_ok (fst (lc_Get now k c)) \<and> lc_capacity (fst (lc_Get now k c)) = lc_capacity c \<and>
    (case map_of (lc_abs c) k of
       None \<Rightarrow> snd (lc_Get now k c) = None \<and> lc_abs (fst (lc_Get now k c)) = lc_abs c
     | Some e \<Rightarrow>
         if lc_fresh now e
         then snd (lc_Get now k c) = Some (lc_hit e) \<and> lc_abs (fst (lc_Get now k c)) = lru_touch k (lc_hit e) (lc_abs c)
         else snd (lc_Get now k c) = None \<and> lc_abs (fst (lc_Get now k c)) = lru_remove k (lc_abs c))"
    by (simp add: lc_capacity_def)
  from delete_refines [OF ok, of k]
  show "lc_ok (fst (lc_Delete k c)) \<and> lc_capacity (fst (lc_Delete k c)) = lc_capacity c \<and>
    lc_abs (fst (lc_Delete k c)) = lru_remove k (lc_abs c)" by (simp add: lc_capacity_def)
qed simp

subsection \<open>Properties\<close>

text \<open>The caches a program can hold: a new one, and whatever its operations make of it.\<close>

inductive lc_reachable :: "LruCache \<Rightarrow> bool" where
  init: "lc_reachable (NewLruCache cfg)"
| get: "lc_reachable c \<Longrightarrow> lc_reachable (fst (lc_Get now k c))"
| put: "lc_reachable c \<Longrightarrow> lc_Put now k model prompt resp toks cost tags c = Some c' \<Longrightarrow> lc_reachable c'"
| put_ttl: "lc_reachable c \<Longrightarrow> PutWithTTL now k model prompt resp toks cost ttl c = Some c' \<Longrightarrow> lc_reachable c'"
| delete: "lc_reachable c \<Longrightarrow> lc_reachable (fst (lc_Delete k c))"
| clear: "lc_reachable c \<Longrightarrow> lc_reachable (lc_Clear c)"
| purge: "lc_reachable c \<Longrightarrow> lc_reachable (fst (PurgeExpired now c))"

lemma store_ok: "lc_ok c \<Longrightarrow> lc_store k e c = Some c' \<Longrightarrow> lc_ok c'"
  using store_refines [of c k e] by auto

lemma lc_reachable_ok: "lc_reachable c \<Longrightarrow> lc_ok c"
  by (induction rule: lc_reachable.induct)
    (auto simp: new_refines get_refines delete_refines clear_refines purge_refines lc_Put_def PutWithTTL_def
      intro: store_ok)

text \<open>
  C37. Refinement: a well-formed cache is an LRU list. A store (of either kind) inserts the new entry as
  the most recent one and displaces only the oldest entries beyond the capacity; a lookup serves an
  unexpired entry, counts the hit and makes it the most recent one, and drops an expired one; deletion
  removes exactly its key; a purge keeps exactly the unexpired entries in their order.
\<close>

theorem lru_cache_refines:
  assumes ok: "lc_ok c"
  shows "(\<exists>c'. lc_Put now k model prompt resp toks cost tags c = Some c' \<and> lc_ok c' \<and>
           lc_abs c' = lru_insert (lc_capacity c) k
             \<lparr>cr_Key = k, cr_Model = model, cr_Prompt = prompt, cr_Response = resp, cr_TokensUsed = toks,
              cr_CostUSD = cost, cr_HitCount = 0, cr_CreatedAt = now,
              cr_ExpiresAt = now + DefaultTTL (lc_config c), cr_Tags = tags\<rparr> (lc_abs c)) \<and>
    (\<exists>c'. PutWithTTL now k model prompt resp toks cost ttl c = Some c' \<and> lc_ok c' \<and>
           lc_abs c' = lru_insert (lc_capacity c) k
             \<lparr>cr_Key = k, cr_Model = model, cr_Prompt = prompt, cr_Response = resp, cr_TokensUsed = toks,
              cr_CostUSD = cost, cr_HitCount = 0, cr_CreatedAt = now, cr_ExpiresAt = now + ttl, cr_Tags = []\<rparr> (lc_abs c)) \<and>
    (case map_of (lc_abs c) k of
           None \<Rightarrow> snd (lc_Get now k c) = None \<and> lc_abs (fst (lc_Get now k c)) = lc_abs c
         | Some e \<Rightarrow>
             if now \<le> cr_ExpiresAt e
             then snd (lc_Get now k c) = Some (lc_hit e) \<and> lc_abs (fst (lc_Get now k c)) = lru_touch k (lc_hit e) (lc_abs c)
             else snd (lc_Get now k c) = None \<and> lc_abs (fst (lc_Get now k c)) = lru_remove k (lc_abs c)) \<and>
    lc_abs (fst (lc_Delete k c)) = lru_remove k (lc_abs c) \<and>
    lc_abs (fst (PurgeExpired now c)) = filter (\<lambda>p. now \<le> cr_ExpiresAt (snd p)) (lc_abs c) \<and>
    lc_Size c = int (length (lc_abs c)) \<and> length (lc_abs c) \<le> lc_capacity c"
proof (intro conjI)
  note st = store_refines [OF ok, of k]
  from st show "\<exists>c'. lc_Put now k model prompt resp toks cost tags c = Some c' \<and> lc_ok c' \<and>
           lc_abs c' = lru_insert (lc_capacity c) k
             \<lparr>cr_Key = k, cr_Model = model, cr_Prompt = prompt, cr_Response = resp, cr_TokensUsed = toks,
              cr_CostUSD = cost, cr_HitCount = 0, cr_CreatedAt = now,
              cr_ExpiresAt = now + DefaultTTL (lc_config c), cr_Tags = tags\<rparr> (lc_abs c)"
    unfolding lc_Put_def time_Add_def by blast
  from st show "\<exists>c'. PutWithTTL now k model prompt resp toks cost ttl c = Some c' \<and> lc_ok c' \<and>
           lc_abs c' = lru_insert (lc_capacity c) k
             \<lparr>cr_Key = k, cr_Model = model, cr_Prompt = prompt, cr_Response = resp, cr_TokensUsed = toks,
              cr_CostUSD = cost, cr_HitCount = 0, cr_CreatedAt = now, cr_ExpiresAt = now + ttl, cr_Tags = []\<rparr> (lc_abs c)"
    unfolding PutWithTTL_def time_Add_def by blast
  show "case map_of (lc_abs c) k of
           None \<Rightarrow> snd (lc_Get now k c) = None \<and> lc_abs (fst (lc_Get now k c)) = lc_abs c
         | Some e \<Rightarrow>
             if now \<le> cr_ExpiresAt e
             then snd (lc_Get now k c) = Some (lc_hit e) \<and> lc_abs (fst (lc_Get now k c)) = lru_touch k (lc_hit e) (lc_abs c)
             else snd (lc_Get now k c) = None \<and> lc_abs (fst (lc_Get now k c)) = lru_remove k (lc_abs c)"
    using get_refines [OF ok, of now k, unfolded lc_fresh_def] by (elim conjE)
  show "lc_Size c = int (length (lc_abs c))"
    using ok by (simp add: lc_Size_def lc_simps rep_length)
  show "length (lc_abs c) \<le> lc_capacity c"
    using lc_wf [OF ok] by (simp add: lru_wf_def)
qed (use delete_refines [OF ok, of k] purge_refines [OF ok, of now] in \<open>simp_all add: lc_fresh_def\<close>)

definition demo_cfg :: LruConfig where
  "demo_cfg = \<lparr>MaxSize = 2, DefaultTTL = 100, KeyPrefix = '''', EnableHash = True\<rparr>"

definition demo_entry :: "string \<Rightarrow> CachedResponse" where
  "demo_entry k = \<lparr>cr_Key = k, cr_Model = ''m'', cr_Prompt = ''p'', cr_Response = ''r'', cr_TokensUsed = 3, cr_CostUSD = 0,
     cr_HitCount = 0, cr_CreatedAt = 0, cr_ExpiresAt = 100, cr_Tags = []\<rparr>"

definition demo_full :: LruCache where
  "demo_full = (NewLruCache demo_cfg)\<lparr>lc_entries := [(''a'', demo_entry ''a''), (''b'', demo_entry ''b'')],
     lc_order := [''b'', ''a'']\<rparr>"

lemma demo_full_ok: "lc_ok demo_full"
  by (auto simp: demo_full_def demo_cfg_def NewLruCache_def lc_simps rep_ok_def wf_gomap_def gkeys_def glen_def)

theorem lru_cache_refines_witness:
  "lc_ok demo_full \<and> lc_abs (fst (lc_Delete ''a'' demo_full)) = [(''b'', demo_entry ''b'')] \<and>
   snd (lc_Get 5 ''a'' demo_full) = Some (lc_hit (demo_entry ''a''))"
  using lru_cache_refines [OF demo_full_ok, where k = "''a''" and now = 5] demo_full_ok
  by (simp add: demo_full_def lc_abs_def rep_abs_def lru_remove_def gget_def demo_entry_def)

text \<open>
  Termination: on every cache a program can reach from \<^verbatim>\<open>NewResponseCache\<close> (whatever the configured
  size) the eviction loop of \<^verbatim>\<open>Put\<close> and \<^verbatim>\<open>PutWithTTL\<close> ends, so the store returns, and the cache
  then holds between one and \<^verbatim>\<open>MaxSize\<close> entries, the new one among them.
\<close>

theorem put_terminates:
  assumes "lc_reachable c"
  shows "(\<exists>c'. lc_Put now k model prompt resp toks cost tags c = Some c' \<and> lc_reachable c' \<and>
              1 \<le> lc_Size c' \<and> lc_Size c' \<le> MaxSize (lc_config c) \<and>
              map_option cr_Response (gget (lc_entries c') k) = Some resp) \<and>
    (\<exists>c'. PutWithTTL now k model prompt resp toks cost ttl c = Some c' \<and> lc_reachable c' \<and>
              1 \<le> lc_Size c' \<and> lc_Size c' \<le> MaxSize (lc_config c) \<and>
              map_option cr_Response (gget (lc_entries c') k) = Some resp)"
proof -
  note ok = lc_reachable_ok [OF assms]
  have *: "\<exists>c'. lc_store k e c = Some c' \<and> 1 \<le> lc_Size c' \<and> lc_Size c' \<le> MaxSize (lc_config c) \<and>
      gget (lc_entries c') k = Some e" for e
  proof -
    obtain c' where c': "lc_store k e c = Some c'" "lc_ok c'" "lc_config c' = lc_config c"
      "lc_abs c' = lru_insert (lc_capacity c) k e (lc_abs c)"
      using store_refines [OF ok] by blast
    then have "gget (lc_entries c') k = Some e" using lc_lookup [OF c'(2), of k] by (simp add: lookup_insert_same)
    moreover from this have "lc_entries c' \<noteq> []" by auto
    then have "1 \<le> lc_Size c'" by (cases "lc_entries c'") (auto simp: lc_Size_def glen_def)
    moreover have "lc_Size c' \<le> MaxSize (lc_config c)" using c'(2,3) by (simp add: lc_ok_def lc_Size_def)
    ultimately show ?thesis using c'(1) by blast
  qed
  show ?thesis
    using * lc_reachable.put [OF assms] lc_reachable.put_ttl [OF assms] by (fastforce simp: lc_Put_def PutWithTTL_def)
qed

theorem put_terminates_witness:
  "\<exists>c'. lc_Put 0 ''k'' ''m'' ''p'' ''answer'' 5 0 [] (NewLruCache (demo_cfg\<lparr>MaxSize := -1\<rparr>)) = Some c' \<and>
        lc_Size c' \<le> 10000 \<and> map_option cr_Response (gget (lc_entries c') ''k'') = Some ''answer''"
  using put_terminates [OF lc_reachable.init [of "demo_cfg\<lparr>MaxSize := -1\<rparr>"], of 0 "''k''" "''m''" "''p''" "''answer''" 5 0 "[]" 0]
  by (auto simp: NewLruCache_def demo_cfg_def Let_def)

text \<open>
  An answer is kept as long as the LRU discipline promises: after it is stored, any sequence of
  stores, lookups and deletions that involves fewer than \<^verbatim>\<open>MaxSize\<close> distinct other keys runs to its end and
  leaves it in place, so that a lookup before its expiry returns it (with one hit counted).
\<close>

theorem recently_used_answer_kept:
  assumes "lc_reachable c" "k \<notin> op_key ` set ops" "int (card (op_key ` set ops)) < MaxSize (lc_config c)"
    "now \<le> cr_ExpiresAt e"
  shows "\<exists>c1 c2. lc_store k e c = Some c1 \<and>
           lru_run lc_store lc_Get (\<lambda>k c. fst (lc_Delete k c)) ops c1 = Some c2 \<and>
           snd (lc_Get now k c2) = Some (lc_hit e)"
  using llm_cache.recently_used_served [of c k ops now e] assms lc_reachable_ok [OF assms(1)]
  by (simp add: lc_fresh_def lc_capacity_def)

theorem recently_used_answer_kept_witness:
  "\<exists>c1 c2. lc_store ''a'' (demo_entry ''a'') (NewLruCache demo_cfg) = Some c1 \<and>
     lru_run lc_store lc_Get (\<lambda>k c. fst (lc_Delete k c))
       [Op_put ''b'' (demo_entry ''b''), Op_get 3 ''b'', Op_put ''b'' (demo_entry ''b'')] c1 = Some c2 \<and>
     snd (lc_Get 50 ''a'' c2) = Some (lc_hit (demo_entry ''a''))"
  by (rule recently_used_answer_kept)
    (rule lc_reachable.init, auto simp: demo_cfg_def NewLruCache_def demo_entry_def)

end
