(* ===== verification/Http.thy ===== *)
theory Http
  imports Go_Strings
begin

text \<open>
  The part of \<^verbatim>\<open>net/http\<close> that the middleware sees. A request carries its method, path, raw query,
  remote address, headers (\<open>rq_Header\<close> is \<^verbatim>\<open>Header.Get\<close>: the empty string for a header that is
  absent) and body. A response is what the client receives: the status (200 unless the handler wrote one),
  the headers and the body, and whether \<^verbatim>\<open>WriteHeader\<close> was called.

  A handler is a function of the request and the state \<open>'s\<close> of everything behind it (databases,
  tasks, ...); a middleware takes the next handler as an argument. Requests are served one after
  the other here; the components whose concurrency matters have their own step relations.
\<close>

record Request =
  rq_Method :: string
  rq_Path :: string
  rq_RawQuery :: string
  rq_RemoteAddr :: string
  rq_Header :: "string \<Rightarrow> string"
  rq_Body :: string

type_synonym Header = "(string, string list) gomap"

record Response =
  rs_Status :: int
  rs_Header :: Header
  rs_Body :: string
  rs_HeaderWritten :: bool

type_synonym 's handler = "Request \<Rightarrow> 's \<Rightarrow> 's \<times> Response"

definition header_Get :: "Header \<Rightarrow> string \<Rightarrow> string" where
  "header_Get h k = (case gget h k of Some (v # vs) \<Rightarrow> v | _ \<Rightarrow> '''')"

definition header_Set :: "string \<Rightarrow> string \<Rightarrow> Header \<Rightarrow> Header" where
  "header_Set k v h = gput k [v] h"

definition header_Add :: "string \<Rightarrow> string \<Rightarrow> Header \<Rightarrow> Header" where
  "header_Add k v h = gput k ((case gget h k of Some vs \<Rightarrow> vs | None \<Rightarrow> []) @ [v]) h"

text \<open>Headers set after the response was started are not sent.\<close>

definition late_Set :: "string \<Rightarrow> string \<Rightarrow> Response \<Rightarrow> Response" where
  "late_Set k v rs =
     (if rs_HeaderWritten rs \<or> rs_Body rs \<noteq> [] then rs else rs\<lparr>rs_Header := header_Set k v (rs_Header rs)\<rparr>)"

definition is_2xx :: "int \<Rightarrow> bool" where
  "is_2xx status \<longleftrightarrow> 200 \<le> status \<and> status < 300"

lemma header_Get_Set [simp]: "header_Get (header_Set k v h) k' = (if k' = k then v else header_Get h k')"
  by (simp add: header_Get_def header_Set_def)

lemma late_Set_simps [simp]:
  "rs_Status (late_Set k v rs) = rs_Status rs" "rs_Body (late_Set k v rs) = rs_Body rs"
  by (simp_all add: late_Set_def)


subsection \<open>Shared by the middleware\<close>

text \<open>
  \<^verbatim>\<open>response.JSON\<close>; the encoded object is reduced to the message it carries. \<open>hs\<close> are the headers
  set before it.
\<close>

definition json_message :: "int \<Rightarrow> Header \<Rightarrow> string \<Rightarrow> Response" where
  "json_message status hs msg =
     \<lparr>rs_Status = status, rs_Header = header_Set ''Content-Type'' ''application/json; charset=utf-8'' hs,
      rs_Body = msg, rs_HeaderWritten = True\<rparr>"

text \<open>Headers set on the writer before the next handler runs; what the handler sets itself replaces them.\<close>

definition preset :: "Header \<Rightarrow> Response \<Rightarrow> Response" where
  "preset hs rs = rs\<lparr>rs_Header := fold (\<lambda>(k, vs). gput k vs) (rs_Header rs) hs\<rparr>"

lemma json_message_status [simp]: "rs_Status (json_message status hs msg) = status"
  by (simp add: json_message_def)

lemma preset_simps [simp]: "rs_Status (preset hs rs) = rs_Status rs" "rs_Body (preset hs rs) = rs_Body rs"
  by (simp_all add: preset_def)

end
