(* ===== verification/Http_Cache.thy ===== *)
theory Http_Cache
  imports Lru_Spec Http Access_Control Float64
begin

text \<open>
  HTTP caching, \<^verbatim>\<open>internal/middleware/cache.go\<close>: the in-memory LRU cache of response bodies, the middleware
  that serves GET requests from it, the middleware that invalidates it on writes, ETag handling,
  and stale-while-revalidate.

  The cache refines \<open>Lru_Spec\<close> (interpretation \<open>page_cache\<close>). The digest of a body (16 bytes of SHA-256 in
  hexadecimal) is the argument \<open>sha\<close>. \<^verbatim>\<open>setupMiddleware\<close> of the router wraps every route in
  \<^verbatim>\<open>ResponseCacheMiddleware\<close> and \<^verbatim>\<open>CacheInvalidationMiddleware\<close>, outside the token blacklist and the authentication of
  the routes; \<open>cached_stack\<close> is that composition.
\<close>

subsection \<open>The cache\<close>

record CacheEntry =
  ce_Body :: string
  ce_ContentType :: string
  ce_ETag :: string
  ce_StatusCode :: int
  ce_StoredAt :: gotime
  ce_TTL :: duration

definition IsExpired :: "gotime \<Rightarrow> CacheEntry \<Rightarrow> bool" where
  "IsExpired now e \<longleftrightarrow> ce_TTL e < time_Since now (ce_StoredAt e)"

record PageCache =
  pc_entries :: "(string, CacheEntry) gomap"
  pc_order :: "string list"
  pc_maxSize :: int
  pc_defaultTTL :: duration
  pc_hits :: int
  pc_misses :: int

record ResponseCacheConfig =
  rcc_MaxSize :: int
  rcc_DefaultTTL :: duration

definition DefaultResponseCacheConfig :: ResponseCacheConfig where
  "DefaultResponseCacheConfig = \<lparr>rcc_MaxSize = 1024, rcc_DefaultTTL = 5 * Minute\<rparr>"

definition NewPageCache :: "ResponseCacheConfig \<Rightarrow> PageCache" where
  "NewPageCache cfg =
     \<lparr>pc_entries = [], pc_order = [],
      pc_maxSize = (if rcc_MaxSize cfg \<le> 0 then 1024 else rcc_MaxSize cfg),
      pc_defaultTTL = (if rcc_DefaultTTL cfg \<le> 0 then 5 * Minute else rcc_DefaultTTL cfg),
      pc_hits = 0, pc_misses = 0\<rparr>"

text \<open>The loop that moves a key to the end of the recency list, if it is in it.\<close>

definition to_end :: "string \<Rightarrow> string list \<Rightarrow> string list" where
  "to_end key ord = (if key \<in> set ord then remove1 key ord @ [key] else ord)"

definition pc_Get :: "gotime \<Rightarrow> string \<Rightarrow> PageCache \<Rightarrow> PageCache \<times> CacheEntry option" where
  "pc_Get now key c =
     (case gget (pc_entries c) key of
        None \<Rightarrow> (c\<lparr>pc_misses := pc_misses c + 1\<rparr>, None)
      | Some e \<Rightarrow>
          if IsExpired now e then (c\<lparr>pc_misses := pc_misses c + 1\<rparr>, None)
          else (c\<lparr>pc_hits := pc_hits c + 1, pc_order := to_end key (pc_order c)\<rparr>, Some e))"

definition pc_GetRaw :: "string \<Rightarrow> PageCache \<Rightarrow> CacheEntry option" where
  "pc_GetRaw key c = gget (pc_entries c) key"

text \<open>\<^verbatim>\<open>for len(c.entries) >= c.maxSize && len(c.order) > 0\<close>\<close>

fun pc_evict :: "int \<Rightarrow> string list \<Rightarrow> (string, CacheEntry) gomap \<Rightarrow> string list \<times> (string, CacheEntry) gomap" where
  "pc_evict maxSize [] m = ([], m)"
| "pc_evict maxSize (oldest # ord) m =
     (if maxSize \<le> glen m then pc_evict maxSize ord (gdel oldest m) else (oldest # ord, m))"

definition with_ttl :: "PageCache \<Rightarrow> CacheEntry \<Rightarrow> CacheEntry" where
  "with_ttl c e = (if ce_TTL e \<le> 0 then e\<lparr>ce_TTL := pc_defaultTTL c\<rparr> else e)"

definition pc_Set :: "string \<Rightarrow> CacheEntry \<Rightarrow> PageCache \<Rightarrow> PageCache" where
  "pc_Set key entry c =
     (let entry = with_ttl c entry in
      if gget (pc_entries c) key \<noteq> None
      then c\<lparr>pc_entries := gput key entry (pc_entries c), pc_order := to_end key (pc_order c)\<rparr>
      else let (ord, m) = pc_evict (pc_maxSize c) (pc_order c) (pc_entries c)
           in c\<lparr>pc_entries := gput key entry m, pc_order := ord @ [key]\<rparr>)"

definition pc_Delete :: "string \<Rightarrow> PageCache \<Rightarrow> PageCache" where
  "pc_Delete key c = c\<lparr>pc_entries := gdel key (pc_entries c), pc_order := remove1 key (pc_order c)\<rparr>"

definition InvalidatePrefix :: "string \<Rightarrow> PageCache \<Rightarrow> PageCache \<times> int" where
  "InvalidatePrefix p c =
     (let gone = filter (\<lambda>k. strings_HasPrefix k p) (pc_order c) in
      (c\<lparr>pc_entries := fold gdel gone (pc_entries c),
         pc_order := filter (\<lambda>k. \<not> strings_HasPrefix k p) (pc_order c)\<rparr>, int (length gone)))"

definition pc_Stats :: "PageCache \<Rightarrow> (string, int) gomap" where
  "pc_Stats c = [(''hits'', pc_hits c), (''misses'', pc_misses c), (''size'', glen (pc_entries c))]"

definition pc_Len :: "PageCache \<Rightarrow> int" where
  "pc_Len c = glen (pc_entries c)"

subsection \<open>Serving from the cache\<close>

definition quoted :: "string \<Rightarrow> string" where
  "quoted h = CHR 0x22 # h @ [CHR 0x22]"

definition cache_key :: "Request \<Rightarrow> string" where
  "cache_key r = rq_Path r @ (if rq_RawQuery r \<noteq> [] then ''?'' @ rq_RawQuery r else [])"

definition cached_response :: "Request \<Rightarrow> CacheEntry \<Rightarrow> Response" where
  "cached_response r e =
     (let match = rq_Header r ''If-None-Match'' in
      if match \<noteq> [] \<and> (match = ce_ETag e \<or> match = ''*'')
      then \<lparr>rs_Status = 304, rs_Header = [], rs_Body = [], rs_HeaderWritten = True\<rparr>
      else \<lparr>rs_Status = ce_StatusCode e,
            rs_Header = [(''Content-Type'', [ce_ContentType e]), (''ETag'', [ce_ETag e]), (''X-Cache'', [''HIT'']),
              (''Cache-Control'', [''max-age='' @ strconv_Itoa (seconds_of (ce_TTL e)) @ '', must-revalidate''])],
            rs_Body = ce_Body e, rs_HeaderWritten = True\<rparr>)"

definition page_of :: "(string \<Rightarrow> string) \<Rightarrow> gotime \<Rightarrow> Response \<Rightarrow> CacheEntry" where
  "page_of sha now rs =
     \<lparr>ce_Body = rs_Body rs,
      ce_ContentType = (let ct = header_Get (rs_Header rs) ''Content-Type'' in if ct = [] then ''application/json'' else ct),
      ce_ETag = quoted (sha (rs_Body rs)), ce_StatusCode = rs_Status rs, ce_StoredAt = now, ce_TTL = 0\<rparr>"

text \<open>
  \<open>now\<close> is the clock when the cache is asked, \<open>now'\<close> when the response is stored. The last component
  says whether the answer came from the cache.
\<close>

definition ResponseCacheMiddleware ::
    "(string \<Rightarrow> string) \<Rightarrow> gotime \<Rightarrow> gotime \<Rightarrow> (PageCache \<times> 's) handler \<Rightarrow> Request \<Rightarrow>
     PageCache \<times> 's \<Rightarrow> (PageCache \<times> 's) \<times> Response \<times> bool" where
  "ResponseCacheMiddleware sha now now' next r cs =
     (if rq_Method r \<noteq> ''GET'' \<or> rq_Header r ''Cache-Control'' = ''no-cache''
      then (let (cs', rs) = next r cs in (cs', rs, False))
      else
        let key = cache_key r; (c1, got) = pc_Get now key (fst cs) in
        case got of
          Some e \<Rightarrow> ((c1, snd cs), cached_response r e, True)
        | None \<Rightarrow>
            let ((c2, s'), rs) = next r (c1, snd cs) in
            if is_2xx (rs_Status rs) \<and> rs_Body rs \<noteq> []
            then ((pc_Set key (page_of sha now' rs) c2, s'),
                  late_Set ''X-Cache'' ''MISS'' (late_Set ''ETag'' (quoted (sha (rs_Body rs))) rs), False)
            else ((c2, s'), late_Set ''X-Cache'' ''MISS'' rs, False))"

subsection \<open>Invalidation\<close>

definition is_write :: "Request \<Rightarrow> bool" where
  "is_write r \<longleftrightarrow> rq_Method r \<in> {''POST'', ''PUT'', ''DELETE'', ''PATCH''}"

definition path_parts :: "string \<Rightarrow> string list" where
  "path_parts path = strings_Split (strings_Trim path ''/'') CHR ''/''"

definition invalidateByMethod :: "PageCache \<Rightarrow> Request \<Rightarrow> PageCache" where
  "invalidateByMethod c r =
     (let path = rq_Path r;
          c = pc_Delete path c;
          c = pc_Delete (path @ ''?'' @ rq_RawQuery r) c;
          parts = path_parts path;
          c = (if 2 \<le> length parts
               then fst (InvalidatePrefix (''/'' @ strings_Join (butlast parts) ''/'') c) else c)
      in if parts \<noteq> [] then fst (InvalidatePrefix (''/'' @ hd parts) c) else c)"

definition CacheInvalidationMiddleware :: "'s handler \<Rightarrow> (PageCache \<times> 's) handler" where
  "CacheInvalidationMiddleware next r cs =
     (let (c, s) = cs; (s', rs) = next r s in
      if \<not> is_write r then ((c, s'), rs)
      else ((if is_2xx (rs_Status rs) then invalidateByMethod c r else c, s'), rs))"

definition cached_stack ::
    "(string \<Rightarrow> string) \<Rightarrow> gotime \<Rightarrow> gotime \<Rightarrow> 's handler \<Rightarrow> Request \<Rightarrow>
     PageCache \<times> 's \<Rightarrow> (PageCache \<times> 's) \<times> Response \<times> bool" where
  "cached_stack sha now now' next = ResponseCacheMiddleware sha now now' (CacheInvalidationMiddleware next)"

subsection \<open>Cache headers\<close>

definition WriteCacheHeaders :: "duration \<Rightarrow> string \<Rightarrow> Header \<Rightarrow> Header" where
  "WriteCacheHeaders maxAge etag h =
     (let directives = [if 0 < maxAge then ''max-age='' @ strconv_Itoa (seconds_of maxAge) else ''no-cache'', ''must-revalidate''];
          h = header_Set ''Cache-Control'' (strings_Join directives '', '') h
      in if etag \<noteq> [] then header_Set ''ETag'' etag h else h)"

fun max_age_of :: "string list \<Rightarrow> duration" where
  "max_age_of [] = 0"
| "max_age_of (part # parts) =
     (let part = strings_TrimSpace part in
      if strings_HasPrefix part ''max-age=''
      then case strconv_Atoi (strings_TrimPrefix part ''max-age='') of
             Some secs \<Rightarrow> wrap64 (secs * Second)
           | None \<Rightarrow> max_age_of parts
      else max_age_of parts)"

definition ParseMaxAge :: "string \<Rightarrow> duration" where
  "ParseMaxAge h = max_age_of (strings_Split h CHR '','')"

subsection \<open>ETags\<close>

record ETagConfig =
  ec_Enabled :: bool
  ec_Weak :: bool
  ec_MaxAge :: duration
  ec_StaleWhileRevalidate :: duration
  ec_SkipPaths :: "string list"
  ec_Authenticated :: bool
  ec_pathPatterns :: "(string, bool) gomap"

definition DefaultETagConfig :: ETagConfig where
  "DefaultETagConfig =
     \<lparr>ec_Enabled = True, ec_Weak = False, ec_MaxAge = 30 * Second, ec_StaleWhileRevalidate = 60 * Second,
      ec_SkipPaths = [''/api/v1/health'', ''/api/v1/ready''], ec_Authenticated = False, ec_pathPatterns = []\<rparr>"

definition WithPathPatterns :: "string list \<Rightarrow> ETagConfig \<Rightarrow> ETagConfig" where
  "WithPathPatterns patterns c = c\<lparr>ec_pathPatterns := fold (\<lambda>p. gput p True) patterns (ec_pathPatterns c)\<rparr>"

definition matchesPath :: "ETagConfig \<Rightarrow> string \<Rightarrow> bool" where
  "matchesPath c path \<longleftrightarrow>
     ec_pathPatterns c = [] \<or> list_ex (\<lambda>p. strings_HasPrefix path p) (gkeys (ec_pathPatterns c))"

definition shouldSkip :: "ETagConfig \<Rightarrow> Request \<Rightarrow> bool" where
  "shouldSkip c r \<longleftrightarrow>
     \<not> ec_Enabled c \<or> (rq_Method r \<noteq> ''GET'' \<and> rq_Method r \<noteq> ''HEAD'') \<or> rq_Path r \<in> set (ec_SkipPaths c)"

definition etag_of :: "(string \<Rightarrow> string) \<Rightarrow> ETagConfig \<Rightarrow> string \<Rightarrow> string" where
  "etag_of sha cfg body = (if ec_Weak cfg then ''W/'' else []) @ quoted (sha body)"

definition etag_directives :: "ETagConfig \<Rightarrow> string" where
  "etag_directives cfg =
     strings_Join
       ((if 0 < ec_MaxAge cfg then [''max-age='' @ strconv_Itoa (seconds_of (ec_MaxAge cfg))] else []) @
        [''must-revalidate''] @
        (if 0 < ec_StaleWhileRevalidate cfg
         then [''stale-while-revalidate='' @ strconv_Itoa (seconds_of (ec_StaleWhileRevalidate cfg))] else []) @
        [''private'']) '', ''"

text \<open>The recorder shares the header map of the outer writer, so what the handler set is sent too.\<close>

definition ETagMiddleware :: "(string \<Rightarrow> string) \<Rightarrow> ETagConfig option \<Rightarrow> 's handler \<Rightarrow> 's handler" where
  "ETagMiddleware sha cfg0 next r s =
     (let cfg = (case cfg0 of None \<Rightarrow> DefaultETagConfig | Some c \<Rightarrow> c) in
      if shouldSkip cfg r \<or> \<not> matchesPath cfg (rq_Path r) then next r s
      else
        let (s', rec) = next r s in
        if \<not> is_2xx (rs_Status rec) \<or> rs_Body rec = [] then (s', rec)
        else
          let etag = etag_of sha cfg (rs_Body rec);
              h = header_Set ''ETag'' etag (header_Set ''Cache-Control'' (etag_directives cfg) (rs_Header rec));
              match = rq_Header r ''If-None-Match''
          in if match \<noteq> [] \<and> (match = etag \<or> match = ''*'')
             then (s', \<lparr>rs_Status = 304, rs_Header = h, rs_Body = [], rs_HeaderWritten = True\<rparr>)
             else (s', rec\<lparr>rs_Header := h\<rparr>))"

subsection \<open>Stale while revalidate\<close>

record SWR =
  sw_duration :: duration
  sw_refreshing :: "(string, bool) gomap"

definition NewStaleWhileRevalidate :: "duration \<Rightarrow> SWR" where
  "NewStaleWhileRevalidate d = \<lparr>sw_duration = d, sw_refreshing = []\<rparr>"

definition stale_response :: "SWR \<Rightarrow> CacheEntry \<Rightarrow> Response" where
  "stale_response w e =
     \<lparr>rs_Status = 200,
      rs_Header = [(''Content-Type'', [ce_ContentType e]), (''ETag'', [ce_ETag e]),
        (''Cache-Control'', [''max-age=0, must-revalidate, stale-while-revalidate='' @ strconv_Itoa (seconds_of (sw_duration w))]),
        (''X-Cache'', [''STALE''])],
      rs_Body = ce_Body e, rs_HeaderWritten = True\<rparr>"

text \<open>
  The foreground part of a request: \<open>Some key\<close> in the last component starts the background refresh
  of that key, whose body is \<open>swr_refresh\<close>. The recorder of the refresh starts with status 0 and only
  \<^verbatim>\<open>WriteHeader\<close> changes it.
\<close>

definition swr_Middleware ::
    "gotime \<Rightarrow> 's handler \<Rightarrow> Request \<Rightarrow> PageCache option \<Rightarrow> SWR \<times> 's \<Rightarrow> (SWR \<times> 's) \<times> Response \<times> string option" where
  "swr_Middleware now next r cache ws =
     (let (w, s) = ws; pass = (let (s', rs) = next r s in ((w, s'), rs, None)) in
      case cache of
        None \<Rightarrow> pass
      | Some c \<Rightarrow>
          if rq_Method r \<noteq> ''GET'' then pass
          else let key = cache_key r in
            case pc_GetRaw key c of
              Some e \<Rightarrow>
                if IsExpired now e
                then (if gget (sw_refreshing w) key = Some True then ((w, s), stale_response w e, None)
                      else ((w\<lparr>sw_refreshing := gput key True (sw_refreshing w)\<rparr>, s), stale_response w e, Some key))
                else pass
            | None \<Rightarrow> pass)"

definition swr_refresh ::
    "(string \<Rightarrow> string) \<Rightarrow> gotime \<Rightarrow> 's handler \<Rightarrow> Request \<Rightarrow> string \<Rightarrow> PageCache \<Rightarrow> SWR \<times> 's \<Rightarrow> PageCache \<times> SWR \<times> 's" where
  "swr_refresh sha now next r key c ws =
     (let (w, s) = ws; (s', rs) = next r s;
          status = (if rs_HeaderWritten rs then rs_Status rs else 0);
          c' = (if is_2xx status \<and> rs_Body rs \<noteq> []
                then pc_Set key \<lparr>ce_Body = rs_Body rs, ce_ContentType = header_Get (rs_Header rs) ''Content-Type'',
                       ce_ETag = quoted (sha (rs_Body rs)), ce_StatusCode = 0, ce_StoredAt = now, ce_TTL = sw_duration w\<rparr> c
                else c)
      in (c', w\<lparr>sw_refreshing := gdel key (sw_refreshing w)\<rparr>, s'))"

subsection \<open>Refinement of the LRU specification\<close>

definition pc_ok :: "PageCache \<Rightarrow> bool" where
  "pc_ok c \<longleftrightarrow> rep_ok (pc_entries c) (pc_order c) \<and> 0 < pc_maxSize c \<and> 0 < pc_defaultTTL c \<and>
     glen (pc_entries c) \<le> pc_maxSize c"

definition pc_capacity :: "PageCache \<Rightarrow> nat" where
  "pc_capacity c = nat (pc_maxSize c)"

definition pc_abs :: "PageCache \<Rightarrow> CacheEntry lru" where
  "pc_abs c = rep_abs (pc_entries c) (pc_order c)"

lemmas pc_simps = pc_ok_def pc_capacity_def pc_abs_def

lemma pc_lookup: "pc_ok c \<Longrightarrow> map_of (pc_abs c) k = gget (pc_entries c) k"
  by (simp add: pc_simps rep_lookup)

lemma pc_wf: "pc_ok c \<Longrightarrow> lru_wf (pc_capacity c) (pc_abs c)"
  by (auto simp: pc_simps rep_length intro!: rep_wf)

lemma pc_evict_spec:
  assumes "rep_ok m ord" "0 < maxSize" "pc_evict maxSize ord m = (ord', m')"
  shows "rep_ok m' ord' \<and> glen m' < maxSize \<and>
    rep_abs m' ord' = drop (Suc (length ord) - nat maxSize) (rep_abs m ord)"
  using assms
proof (induction maxSize ord m rule: pc_evict.induct)
  case (1 maxSize m)
  then have "glen m = 0" by (simp add: rep_length)
  with 1 show ?case by (auto simp: rep_abs_def)
next
  case (2 maxSize x ord m)
  note len = rep_length [OF 2(2)]
  show ?case
  proof (cases "maxSize \<le> glen m")
    case False
    with 2 len show ?thesis by auto
  next
    case True
    with 2(1) [OF True rep_oldest(1) [OF 2(2)] 2(3)] 2(4) have
      IH: "rep_ok m' ord'" "glen m' < maxSize"
        "rep_abs m' ord' = drop (Suc (length ord) - nat maxSize) (rep_abs (gdel x m) ord)" by auto
    have "Suc (length ord) - nat maxSize + 1 = Suc (length (x # ord)) - nat maxSize" using True len by simp
    then have "rep_abs m' ord' = drop (Suc (length (x # ord)) - nat maxSize) (rep_abs m (x # ord))"
      unfolding IH(3) rep_oldest(2) [OF 2(2)] drop_drop by (simp only: add.commute)
    with IH show ?thesis by simp
  qed
qed

lemma pc_moved:
  assumes "pc_ok c" "gget (pc_entries c) k \<noteq> None" "pc_entries c' = gput k e (pc_entries c)"
    "pc_order c' = to_end k (pc_order c)" "pc_maxSize c' = pc_maxSize c" "pc_defaultTTL c' = pc_defaultTTL c"
  shows "pc_ok c' \<and> pc_abs c' = lru_touch k e (pc_abs c)"
  using assms rep_touch [of "pc_entries c" "pc_order c" k e] rep_in [of "pc_entries c" "pc_order c" k]
  by (auto simp: pc_simps glen_gput to_end_def)

lemma gput_same: "wf_gomap m \<Longrightarrow> gget m k = Some e \<Longrightarrow> gput k e m = m"
  unfolding gput_def gget_def wf_gomap_def gkeys_def
proof (induction m)
  case (Cons p m)
  then show ?case by (cases p) (auto split: if_splits dest: map_of_SomeD simp: rev_image_eqI)
qed simp

lemma pc_Set_refines:
  assumes ok: "pc_ok c"
  shows "pc_ok (pc_Set k e c) \<and> pc_maxSize (pc_Set k e c) = pc_maxSize c \<and>
    pc_defaultTTL (pc_Set k e c) = pc_defaultTTL c \<and>
    pc_abs (pc_Set k e c) = lru_insert (pc_capacity c) k (with_ttl c e) (pc_abs c)"
proof (cases "gget (pc_entries c) k")
  case (Some e')
  with ok pc_moved [OF ok, of k "pc_Set k e c" "with_ttl c e"] show ?thesis
    by (simp add: pc_Set_def Let_def lru_insert_def pc_lookup)
next
  case None
  from ok have r: "rep_ok (pc_entries c) (pc_order c)" and m: "0 < pc_maxSize c" by (simp_all add: pc_ok_def)
  obtain ord' m' where ev: "pc_evict (pc_maxSize c) (pc_order c) (pc_entries c) = (ord', m')" by fastforce
  note sp = pc_evict_spec [OF r m ev]
  then have "fst ` set (rep_abs m' ord') \<subseteq> fst ` set (rep_abs (pc_entries c) (pc_order c))"
    by (auto dest: in_set_dropD)
  then have "set ord' \<subseteq> set (pc_order c)" by (simp only: rep_fst_set)
  with None rep_in [OF r, of k] sp have fresh: "gget m' k = None"
    using rep_in [of m' ord' k] by auto
  from None ok have "map_of (pc_abs c) k = None" by (simp add: pc_lookup)
  with None ev sp fresh rep_append [of m' ord' k "with_ttl c e"] ok show ?thesis
    by (simp add: pc_Set_def Let_def lru_insert_def pc_simps glen_gput)
qed

lemma pc_Delete_refines:
  assumes ok: "pc_ok c"
  shows "pc_ok (pc_Delete k c) \<and> pc_maxSize (pc_Delete k c) = pc_maxSize c \<and>
    pc_defaultTTL (pc_Delete k c) = pc_defaultTTL c \<and> pc_abs (pc_Delete k c) = lru_remove k (pc_abs c)"
proof -
  from ok have "glen (gdel k (pc_entries c)) \<le> glen (pc_entries c)" by (auto simp: pc_ok_def rep_ok_def glen_gdel)
  with ok rep_remove [of "pc_entries c" "pc_order c" k] show ?thesis by (auto simp: pc_Delete_def pc_simps)
qed

lemma pc_Get_refines:
  assumes ok: "pc_ok c"
  shows "pc_ok (fst (pc_Get now k c)) \<and> pc_maxSize (fst (pc_Get now k c)) = pc_maxSize c \<and>
    pc_defaultTTL (fst (pc_Get now k c)) = pc_defaultTTL c \<and> pc_entries (fst (pc_Get now k c)) = pc_entries c \<and>
    (case map_of (pc_abs c) k of
       None \<Rightarrow> snd (pc_Get now k c) = None \<and> pc_abs (fst (pc_Get now k c)) = pc_abs c
     | Some e \<Rightarrow>
         if \<not> IsExpired now e
         then snd (pc_Get now k c) = Some e \<and> pc_abs (fst (pc_Get now k c)) = lru_touch k e (pc_abs c)
         else snd (pc_Get now k c) = None \<and> pc_abs (fst (pc_Get now k c)) = pc_abs c)"
proof (cases "gget (pc_entries c) k")
  case None
  with ok show ?thesis by (simp add: pc_Get_def pc_lookup) (simp add: pc_simps)
next
  case (Some e)
  with ok have same: "gput k e (pc_entries c) = pc_entries c" by (simp add: pc_ok_def rep_ok_def gput_same)
  show ?thesis
  proof (cases "IsExpired now e")
    case True
    with Some ok show ?thesis by (simp add: pc_Get_def pc_lookup) (simp add: pc_simps)
  next
    case False
    with Some ok same pc_moved [OF ok, of k "fst (pc_Get now k c)" e] show ?thesis
      by (simp add: pc_Get_def pc_lookup)
  qed
qed

interpretation page_cache: lru_cache pc_ok pc_capacity pc_abs "\<lambda>k e c. Some (pc_Set k e c)" pc_Get pc_Delete
  with_ttl "\<lambda>now e. \<not> IsExpired now e" "\<lambda>e. e" "\<lambda>k l. l"
proof unfold_locales
  fix c :: PageCache and k now e
  assume ok: "pc_ok c"
  show "lru_wf (pc_capacity c) (pc_abs c)" by (rule pc_wf [OF ok])
  from pc_Set_refines [OF ok, of k e]
  show "\<exists>c'. Some (pc_Set k e c) = Some c' \<and> pc_ok c' \<and> pc_capacity c' = pc_capacity c \<and>
      pc_abs c' = lru_insert (pc_capacity c) k (with_ttl c e) (pc_abs c)" by (simp add: pc_capacity_def)
  from pc_Get_refines [OF ok, of now k]
  show "pc_ok (fst (pc_Get now k c)) \<and> pc_capacity (fst (pc_Get now k c)) = pc_capacity c \<and>
    (case map_of (pc_abs c) k of
       None \<Rightarrow> snd (pc_Get now k c) = None \<and> pc_abs (fst (pc_Get now k c)) = pc_abs c
     | Some e \<Rightarrow>
         if \<not> IsExpired now e
         then snd (pc_Get now k c) = Some e \<and> pc_abs (fst (pc_Get now k c)) = lru_touch k e (pc_abs c)
         else snd (pc_Get now k c) = None \<and> pc_abs (fst (pc_Get now k c)) = pc_abs c)"
    unfolding pc_capacity_def by (elim conjE) (intro conjI, simp_all only:)
  from pc_Delete_refines [OF ok, of k]
  show "pc_ok (pc_Delete k c) \<and> pc_capacity (pc_Delete k c) = pc_capacity c \<and>
    pc_abs (pc_Delete k c) = lru_remove k (pc_abs c)" by (simp add: pc_capacity_def)
qed simp

subsection \<open>What a successful write removes\<close>

text \<open>The pages a write to \<open>r\<close> makes stale: its own, and all under the same first path segment.\<close>

definition affects :: "Request \<Rightarrow> string \<Rightarrow> bool" where
  "affects r k \<longleftrightarrow> k = rq_Path r \<or> k = rq_Path r @ ''?'' @ rq_RawQuery r \<or>
     strings_HasPrefix k (''/'' @ hd (path_parts (rq_Path r)))"

lemma gget_fold_gdel: "gget (fold gdel ks m) k = (if k \<in> set ks then None else gget m k)"
  by (induction ks arbitrary: m) auto

lemma wf_fold_gdel: "wf_gomap m \<Longrightarrow> wf_gomap (fold gdel ks m)"
  by (induction ks arbitrary: m) auto

lemma glen_fold_gdel: "wf_gomap m \<Longrightarrow> glen (fold gdel ks m) \<le> glen m"
proof (induction ks arbitrary: m)
  case (Cons k ks)
  from Cons.IH [of "gdel k m"] Cons.prems have "glen (fold gdel ks (gdel k m)) \<le> glen (gdel k m)" by simp
  also have "\<dots> \<le> glen m" using Cons.prems by (simp add: glen_gdel)
  finally show ?case by simp
qed simp

lemma InvalidatePrefix_spec:
  assumes ok: "pc_ok c"
  shows "pc_ok (fst (InvalidatePrefix p c))"
    and "gget (pc_entries (fst (InvalidatePrefix p c))) k = (if strings_HasPrefix k p then None else gget (pc_entries c) k)"
    and "pc_defaultTTL (fst (InvalidatePrefix p c)) = pc_defaultTTL c"
proof -
  let ?gone = "filter (\<lambda>k. strings_HasPrefix k p) (pc_order c)"
  from ok have r: "rep_ok (pc_entries c) (pc_order c)" by (simp add: pc_ok_def)
  show g: "gget (pc_entries (fst (InvalidatePrefix p c))) k = (if strings_HasPrefix k p then None else gget (pc_entries c) k)" for k
    using rep_in [OF r, of k] by (auto simp: InvalidatePrefix_def Let_def gget_fold_gdel)
  have "glen (fold gdel ?gone (pc_entries c)) \<le> pc_maxSize c"
    using ok glen_fold_gdel [of "pc_entries c" ?gone] by (auto simp: pc_ok_def rep_ok_def)
  with ok g show "pc_ok (fst (InvalidatePrefix p c))"
    by (auto simp: pc_ok_def rep_ok_def InvalidatePrefix_def Let_def wf_fold_gdel set_gkeys simp del: HasPrefix_iff)
  show "pc_defaultTTL (fst (InvalidatePrefix p c)) = pc_defaultTTL c"
    by (simp add: InvalidatePrefix_def Let_def)
qed

lemma pc_Delete_spec:
  assumes "pc_ok c"
  shows "pc_ok (pc_Delete k c)" "gget (pc_entries (pc_Delete k c)) x = (if x = k then None else gget (pc_entries c) x)"
    "pc_defaultTTL (pc_Delete k c) = pc_defaultTTL c"
  using pc_Delete_refines [OF assms] by (simp_all add: pc_Delete_def)

lemma split_on_nonempty [simp]: "split_on sep cur s \<noteq> []"
  by (induction s arbitrary: cur) auto

lemma path_parts_nonempty [simp]: "path_parts p \<noteq> []"
  by (simp add: path_parts_def strings_Split_def)

lemma join_prefix: "xs \<noteq> [] \<Longrightarrow> \<exists>t. strings_Join xs sep = hd xs @ t"
  by (cases "(xs, sep)" rule: strings_Join.cases) auto

lemma invalidate_spec:
  assumes ok: "pc_ok c"
  shows "pc_ok (invalidateByMethod c r)"
    and "gget (pc_entries (invalidateByMethod c r)) k = (if affects r k then None else gget (pc_entries c) k)"
    and "pc_defaultTTL (invalidateByMethod c r) = pc_defaultTTL c"
proof -
  define c2 where "c2 = pc_Delete (rq_Path r @ ''?'' @ rq_RawQuery r) (pc_Delete (rq_Path r) c)"
  define parts where "parts = path_parts (rq_Path r)"
  define c3 where "c3 = (if 2 \<le> length parts
    then fst (InvalidatePrefix (''/'' @ strings_Join (butlast parts) ''/'') c2) else c2)"
  have inv: "invalidateByMethod c r = fst (InvalidatePrefix (''/'' @ hd parts) c3)"
    by (simp add: invalidateByMethod_def Let_def c2_def c3_def parts_def)
  note d1 = pc_Delete_spec [OF ok, of "rq_Path r"]
  note d2 = pc_Delete_spec [OF d1(1), of "rq_Path r @ ''?'' @ rq_RawQuery r", folded c2_def]
  note i1 = InvalidatePrefix_spec [OF d2(1), of "''/'' @ strings_Join (butlast parts) ''/''"]
  have c3: "pc_ok c3" "pc_defaultTTL c3 = pc_defaultTTL c"
    using i1 d2 d1 by (simp_all add: c3_def)
  have sub: "strings_HasPrefix k (''/'' @ hd parts)"
    if "2 \<le> length parts" "strings_HasPrefix k (''/'' @ strings_Join (butlast parts) ''/'')"
  proof -
    from that(1) have "butlast parts \<noteq> []" "hd (butlast parts) = hd parts" by (cases parts; auto)+
    with join_prefix [of "butlast parts" "''/''"] that(2) show ?thesis by auto
  qed
  show "pc_ok (invalidateByMethod c r)" "pc_defaultTTL (invalidateByMethod c r) = pc_defaultTTL c"
    unfolding inv using InvalidatePrefix_spec [OF c3(1)] c3 by simp_all
  have "gget (pc_entries c3) k = gget (pc_entries c2) k" if "\<not> strings_HasPrefix k (''/'' @ hd parts)"
    using sub that i1(2) [of k] by (auto simp: c3_def simp del: HasPrefix_iff)
  with InvalidatePrefix_spec(2) [OF c3(1), of "''/'' @ hd parts" k] d2(2) [of k] d1(2) [of k]
  show "gget (pc_entries (invalidateByMethod c r)) k = (if affects r k then None else gget (pc_entries c) k)"
    unfolding inv affects_def parts_def [symmetric] by (auto simp del: HasPrefix_iff)
qed

lemma pc_evict_sub: "pc_evict n ord m = (ord', m') \<Longrightarrow> gget m' x = Some v \<Longrightarrow> gget m x = Some v"
proof (induction n ord m rule: pc_evict.induct)
  case (2 maxSize oldest ord m)
  then show ?case by (auto split: if_splits)
qed simp

lemma pc_Set_entries:
  "gget (pc_entries (pc_Set k e c)) x = Some v \<Longrightarrow> (x = k \<and> v = with_ttl c e) \<or> (x \<noteq> k \<and> gget (pc_entries c) x = Some v)"
  using pc_evict_sub [of "pc_maxSize c" "pc_order c" "pc_entries c"]
  by (auto simp: pc_Set_def Let_def split: prod.splits if_splits)

subsection \<open>Runs of the server\<close>

text \<open>
  The requests of a run with the clock readings of each (when the cache is asked, when a response is
  stored), and the log of what was answered and from where.
\<close>

record event =
  ev_asked :: gotime
  ev_stored :: gotime
  ev_req :: Request
  ev_rsp :: Response
  ev_hit :: bool

fun serve ::
    "(string \<Rightarrow> string) \<Rightarrow> 's handler \<Rightarrow> (gotime \<times> gotime \<times> Request) list \<Rightarrow> PageCache \<times> 's \<Rightarrow> event list \<Rightarrow>
     (PageCache \<times> 's) \<times> event list" where
  "serve sha next [] cs lg = (cs, lg)"
| "serve sha next ((t, t', r) # rs) cs lg =
     (let (cs', rsp, hit) = cached_stack sha t t' next r cs
      in serve sha next rs cs' (lg @ [\<lparr>ev_asked = t, ev_stored = t', ev_req = r, ev_rsp = rsp, ev_hit = hit\<rparr>]))"

definition spoils :: "event \<Rightarrow> string \<Rightarrow> bool" where
  "spoils ev k \<longleftrightarrow> is_write (ev_req ev) \<and> is_2xx (rs_Status (ev_rsp ev)) \<and> affects (ev_req ev) k"

text \<open>
  \<open>origin d lg k e\<close>: the page \<open>e\<close> is what the handler answered to a GET of \<open>k\<close> in the log, and no write
  that makes it stale has succeeded since.
\<close>

definition origin :: "duration \<Rightarrow> event list \<Rightarrow> string \<Rightarrow> CacheEntry \<Rightarrow> bool" where
  "origin d lg k e \<longleftrightarrow>
     (\<exists>pre ev post. lg = pre @ ev # post \<and> \<not> ev_hit ev \<and> rq_Method (ev_req ev) = ''GET'' \<and> cache_key (ev_req ev) = k \<and>
        rs_Body (ev_rsp ev) = ce_Body e \<and> rs_Status (ev_rsp ev) = ce_StatusCode e \<and> ev_stored ev = ce_StoredAt e \<and>
        ce_TTL e = d \<and> list_all (\<lambda>ev'. \<not> spoils ev' k) post)"

definition cache_explained :: "duration \<Rightarrow> event list \<Rightarrow> PageCache \<Rightarrow> bool" where
  "cache_explained d lg c \<longleftrightarrow> (\<forall>k e. gget (pc_entries c) k = Some e \<longrightarrow> origin d lg k e)"

text \<open>Every hit in the log repeats an earlier answer of the handler that was still current.\<close>

definition hit_explained :: "duration \<Rightarrow> event list \<Rightarrow> event \<Rightarrow> bool" where
  "hit_explained d pre ev \<longleftrightarrow>
     (\<exists>e. origin d pre (cache_key (ev_req ev)) e \<and> \<not> IsExpired (ev_asked ev) e \<and> rq_Method (ev_req ev) = ''GET'' \<and>
          ev_rsp ev = cached_response (ev_req ev) e)"

definition run_inv :: "duration \<Rightarrow> event list \<Rightarrow> PageCache \<Rightarrow> bool" where
  "run_inv d lg c \<longleftrightarrow> pc_ok c \<and> pc_defaultTTL c = d \<and> cache_explained d lg c \<and>
     (\<forall>pre ev post. lg = pre @ ev # post \<and> ev_hit ev \<longrightarrow> hit_explained d pre ev)"

lemma origin_snoc: "origin d lg k e \<Longrightarrow> \<not> spoils ev k \<Longrightarrow> origin d (lg @ [ev]) k e"
proof -
  assume "origin d lg k e" "\<not> spoils ev k"
  then obtain pre ev0 post where "lg = pre @ ev0 # post" "\<not> ev_hit ev0" "rq_Method (ev_req ev0) = ''GET''"
    "cache_key (ev_req ev0) = k" "rs_Body (ev_rsp ev0) = ce_Body e" "rs_Status (ev_rsp ev0) = ce_StatusCode e"
    "ev_stored ev0 = ce_StoredAt e" "ce_TTL e = d" "list_all (\<lambda>ev'. \<not> spoils ev' k) (post @ [ev])"
    by (auto simp: origin_def)
  then show ?thesis
    unfolding origin_def by (intro exI [of _ pre] exI [of _ ev0] exI [of _ "post @ [ev]"]) auto
qed

lemma origin_here:
  "\<not> ev_hit ev \<Longrightarrow> rq_Method (ev_req ev) = ''GET'' \<Longrightarrow> cache_key (ev_req ev) = k \<Longrightarrow> rs_Body (ev_rsp ev) = ce_Body e \<Longrightarrow>
   rs_Status (ev_rsp ev) = ce_StatusCode e \<Longrightarrow> ev_stored ev = ce_StoredAt e \<Longrightarrow> ce_TTL e = d \<Longrightarrow> origin d (lg @ [ev]) k e"
  unfolding origin_def by (intro exI [of _ lg] exI [of _ ev] exI [of _ "[]"]) auto

lemma hits_snoc:
  assumes "\<forall>pre ev post. lg = pre @ ev # post \<and> ev_hit ev \<longrightarrow> hit_explained d pre ev"
    and "ev_hit ev \<Longrightarrow> hit_explained d lg ev"
  shows "\<forall>pre ev' post. lg @ [ev] = pre @ ev' # post \<and> ev_hit ev' \<longrightarrow> hit_explained d pre ev'"
proof (intro allI impI)
  fix pre ev' post
  assume *: "lg @ [ev] = pre @ ev' # post \<and> ev_hit ev'"
  show "hit_explained d pre ev'"
  proof (cases post rule: rev_cases)
    case Nil
    with * assms(2) show ?thesis by auto
  next
    case (snoc post' x)
    with * have "lg = pre @ ev' # post'" by (metis append_Cons append_assoc append1_eq_conv)
    with assms(1) * show ?thesis by blast
  qed
qed

lemma get_not_write: "rq_Method r = ''GET'' \<Longrightarrow> \<not> is_write r"
  by (simp add: is_write_def)

lemma explained_snoc:
  assumes "cache_explained d lg c" "\<And>k e. gget (pc_entries c') k = Some e \<Longrightarrow>
     (gget (pc_entries c) k = Some e \<and> \<not> spoils ev k) \<or> origin d (lg @ [ev]) k e"
  shows "cache_explained d (lg @ [ev]) c'"
  using assms origin_snoc [of d lg _ _ ev] unfolding cache_explained_def by blast

text \<open>One request preserves the invariant.\<close>

lemma passed_inv:
  assumes inv: "run_inv d lg c" and nx: "CacheInvalidationMiddleware next r (c, s) = ((c', s'), rs)"
    and ev: "ev_req ev = r" "rs_Status (ev_rsp ev) = rs_Status rs" "\<not> ev_hit ev"
  shows "run_inv d (lg @ [ev]) c'"
proof -
  from inv have ok: "pc_ok c" and ttl: "pc_defaultTTL c = d" and ex: "cache_explained d lg c"
    and hits: "\<forall>pre ev post. lg = pre @ ev # post \<and> ev_hit ev \<longrightarrow> hit_explained d pre ev"
    by (simp_all add: run_inv_def)
  have c': "c' = (if is_write r \<and> is_2xx (rs_Status rs) then invalidateByMethod c r else c)"
    using nx by (auto simp: CacheInvalidationMiddleware_def split: prod.splits if_splits)
  note iv = invalidate_spec [OF ok, of r]
  have "cache_explained d (lg @ [ev]) c'"
    by (rule explained_snoc [OF ex]) (use iv(2) ev c' in \<open>auto simp: spoils_def split: if_splits\<close>)
  moreover have "pc_ok c' \<and> pc_defaultTTL c' = d" using c' ok ttl iv by simp
  moreover have "\<forall>pre ev' post. lg @ [ev] = pre @ ev' # post \<and> ev_hit ev' \<longrightarrow> hit_explained d pre ev'"
    by (rule hits_snoc [OF hits]) (use ev in simp)
  ultimately show ?thesis by (simp add: run_inv_def)
qed

lemma get_entries_inv:
  assumes inv: "run_inv d lg c"
  shows "run_inv d lg (fst (pc_Get now k c))"
  using inv pc_Get_refines [of c now k] by (simp add: run_inv_def cache_explained_def)

lemma stored_inv:
  assumes inv: "run_inv d (lg @ [ev]) c" and "\<not> ev_hit ev" "rq_Method (ev_req ev) = ''GET''"
    "rs_Body (ev_rsp ev) = rs_Body rs" "rs_Status (ev_rsp ev) = rs_Status rs" "ev_stored ev = now'"
  shows "run_inv d (lg @ [ev]) (pc_Set (cache_key (ev_req ev)) (page_of sha now' rs) c)"
proof -
  let ?c = "pc_Set (cache_key (ev_req ev)) (page_of sha now' rs) c"
  from inv have ok: "pc_ok c" and d: "pc_defaultTTL c = d" and ex: "cache_explained d (lg @ [ev]) c"
    by (simp_all add: run_inv_def)
  have "cache_explained d (lg @ [ev]) ?c"
    unfolding cache_explained_def
  proof (intro allI impI)
    fix k e
    assume "gget (pc_entries ?c) k = Some e"
    from pc_Set_entries [OF this] consider "k = cache_key (ev_req ev)" "e = with_ttl c (page_of sha now' rs)"
      | "gget (pc_entries c) k = Some e" by blast
    then show "origin d (lg @ [ev]) k e"
    proof cases
      case 1
      with assms d show ?thesis by (intro origin_here) (auto simp: with_ttl_def page_of_def)
    next
      case 2
      with ex show ?thesis by (simp add: cache_explained_def)
    qed
  qed
  with inv pc_Set_refines [OF ok] show ?thesis by (simp add: run_inv_def)
qed

lemma stack_inv:
  assumes inv: "run_inv d lg c" and st: "cached_stack sha t t' next r (c, s) = ((c', s'), rsp, hit)"
  shows "run_inv d (lg @ [\<lparr>ev_asked = t, ev_stored = t', ev_req = r, ev_rsp = rsp, ev_hit = hit\<rparr>]) c'"
proof (cases "rq_Method r \<noteq> ''GET'' \<or> rq_Header r ''Cache-Control'' = ''no-cache''")
  case True
  obtain c1 s1 rs where nx: "CacheInvalidationMiddleware next r (c, s) = ((c1, s1), rs)" by (metis surj_pair)
  with st True have "c' = c1" "rsp = rs" "\<not> hit"
    by (auto simp: cached_stack_def ResponseCacheMiddleware_def)
  with passed_inv [OF inv nx] show ?thesis by simp
next
  case False
  then have m: "rq_Method r = ''GET''" by simp
  obtain c1 got where g: "pc_Get t (cache_key r) c = (c1, got)" by fastforce
  have inv1: "run_inv d lg c1" using get_entries_inv [OF inv, of t "cache_key r"] g by simp
  show ?thesis
  proof (cases got)
    case (Some e)
    with st False g have r: "c' = c1" "rsp = cached_response r e" "hit"
      by (auto simp: cached_stack_def ResponseCacheMiddleware_def)
    from g Some have e: "gget (pc_entries c) (cache_key r) = Some e" "\<not> IsExpired t e"
      by (auto simp: pc_Get_def split: option.splits if_splits)
    let ?ev = "\<lparr>ev_asked = t, ev_stored = t', ev_req = r, ev_rsp = rsp, ev_hit = hit\<rparr>"
    have "hit_explained d lg ?ev"
      using e inv r m by (auto simp: hit_explained_def run_inv_def cache_explained_def)
    with inv1 have "\<forall>pre ev' post. lg @ [?ev] = pre @ ev' # post \<and> ev_hit ev' \<longrightarrow> hit_explained d pre ev'"
      by (intro hits_snoc) (auto simp: run_inv_def)
    moreover have "cache_explained d (lg @ [?ev]) c1"
      by (rule explained_snoc [of d lg c1]) (use inv1 m in \<open>auto simp: run_inv_def spoils_def get_not_write\<close>)
    ultimately show ?thesis using inv1 r by (simp add: run_inv_def)
  next
    case None
    obtain c2 s2 rs where nx: "CacheInvalidationMiddleware next r (c1, s) = ((c2, s2), rs)" by (metis surj_pair)
    let ?ev = "\<lparr>ev_asked = t, ev_stored = t', ev_req = r, ev_rsp = rsp, ev_hit = hit\<rparr>"
    from st False g None nx have r: "\<not> hit" "rs_Status rsp = rs_Status rs" "rs_Body rsp = rs_Body rs"
      and c': "c' = (if is_2xx (rs_Status rs) \<and> rs_Body rs \<noteq> [] then pc_Set (cache_key r) (page_of sha t' rs) c2 else c2)"
      by (auto simp: cached_stack_def ResponseCacheMiddleware_def split: if_splits)
    have inv2: "run_inv d (lg @ [?ev]) c2" by (rule passed_inv [OF inv1 nx]) (use r in auto)
    with stored_inv [OF inv2, of rs t' sha] r m c' show ?thesis by auto
  qed
qed

lemma serve_inv: "run_inv d lg c \<Longrightarrow> serve sha next rs (c, s) lg = ((c', s'), lg') \<Longrightarrow> run_inv d lg' c'"
proof (induction rs arbitrary: c s lg)
  case (Cons q rs)
  obtain t t' r where q: "q = (t, t', r)" by (metis surj_pair)
  obtain c1 s1 rsp hit where st: "cached_stack sha t t' next r (c, s) = ((c1, s1), rsp, hit)" by (metis surj_pair)
  from Cons.IH [OF stack_inv [OF Cons.prems(1) st]] Cons.prems(2) q st show ?case by simp
qed simp

lemma new_inv: "run_inv (pc_defaultTTL (NewPageCache cfg)) [] (NewPageCache cfg)"
  by (simp add: run_inv_def NewPageCache_def pc_ok_def rep_ok_def cache_explained_def glen_def gkeys_def duration_defs)

subsection \<open>Properties\<close>

text \<open>
  C35. Coherence of the page cache, for every handler and every sequence of requests through
  \<^verbatim>\<open>ResponseCacheMiddleware\<close> and \<^verbatim>\<open>CacheInvalidationMiddleware\<close> from a new cache: an answer from the cache
  repeats the status and body the handler gave to an earlier GET of the same path and query (or is a
  304 for it), given at most one default TTL before, and no write under the same first path segment
  has succeeded in between.
\<close>

theorem cached_pages_current:
  assumes "serve sha next rs (NewPageCache cfg, s) [] = ((c, s'), lg)" "lg = pre @ ev # post" "ev_hit ev"
  shows "\<exists>pre1 ev0 mid. pre = pre1 @ ev0 # mid \<and> \<not> ev_hit ev0 \<and>
           rq_Method (ev_req ev0) = ''GET'' \<and> cache_key (ev_req ev0) = cache_key (ev_req ev) \<and>
           time_Since (ev_asked ev) (ev_stored ev0) \<le> pc_defaultTTL (NewPageCache cfg) \<and>
           list_all (\<lambda>ev'. \<not> (is_write (ev_req ev') \<and> is_2xx (rs_Status (ev_rsp ev')) \<and>
                           affects (ev_req ev') (cache_key (ev_req ev)))) mid \<and>
           (rs_Status (ev_rsp ev) = 304 \<or>
            rs_Status (ev_rsp ev) = rs_Status (ev_rsp ev0) \<and> rs_Body (ev_rsp ev) = rs_Body (ev_rsp ev0))"
proof -
  from serve_inv [OF new_inv assms(1)] assms(2,3) have "hit_explained (pc_defaultTTL (NewPageCache cfg)) pre ev"
    by (simp add: run_inv_def)
  then obtain e pre1 ev0 mid where e: "\<not> IsExpired (ev_asked ev) e" "ev_rsp ev = cached_response (ev_req ev) e"
    and o: "pre = pre1 @ ev0 # mid" "\<not> ev_hit ev0" "rq_Method (ev_req ev0) = ''GET''"
      "cache_key (ev_req ev0) = cache_key (ev_req ev)" "rs_Body (ev_rsp ev0) = ce_Body e"
      "rs_Status (ev_rsp ev0) = ce_StatusCode e" "ev_stored ev0 = ce_StoredAt e"
      "ce_TTL e = pc_defaultTTL (NewPageCache cfg)" "list_all (\<lambda>ev'. \<not> spoils ev' (cache_key (ev_req ev))) mid"
    unfolding hit_explained_def origin_def by blast
  have "rs_Status (ev_rsp ev) = 304 \<or> rs_Status (ev_rsp ev) = ce_StatusCode e \<and> rs_Body (ev_rsp ev) = ce_Body e"
    unfolding e(2) by (simp add: cached_response_def Let_def)
  with e(1) o show ?thesis
    by (intro exI [of _ pre1] exI [of _ ev0] exI [of _ mid]) (auto simp: IsExpired_def spoils_def)
qed

definition demo_req :: "string \<Rightarrow> string \<Rightarrow> string \<Rightarrow> Request" where
  "demo_req m p auth = \<lparr>rq_Method = m, rq_Path = p, rq_RawQuery = [], rq_RemoteAddr = ''10.0.0.1:1'',
     rq_Header = (\<lambda>h. if h = ''Authorization'' then auth else []), rq_Body = []\<rparr>"

definition demo_handler :: "string handler" where
  "demo_handler r s = (s, \<lparr>rs_Status = 200, rs_Header = [], rs_Body = ''profile of '' @ rq_Header r ''Authorization'', rs_HeaderWritten = True\<rparr>)"

definition demo_run :: "(gotime \<times> gotime \<times> Request) list" where
  "demo_run = [(1, 2, demo_req ''GET'' ''/api/v1/users/me'' ''alice''), (3, 4, demo_req ''GET'' ''/api/v1/users/me'' ''bob'')]"

lemmas demo_http = demo_req_def demo_handler_def demo_run_def cached_stack_def ResponseCacheMiddleware_def
  CacheInvalidationMiddleware_def is_write_def pc_Get_def cache_key_def is_2xx_def page_of_def pc_Set_def with_ttl_def
  IsExpired_def time_defs cached_response_def NewPageCache_def DefaultResponseCacheConfig_def duration_defs
  gget_def gput_def glen_def to_end_def quoted_def late_Set_def

theorem cached_pages_current_witness:
  "\<exists>ev0 ev1. snd (serve (\<lambda>b. b) demo_handler demo_run (NewPageCache DefaultResponseCacheConfig, []) []) = [ev0, ev1] \<and>
     ev_hit ev1 \<and> \<not> ev_hit ev0 \<and> rs_Body (ev_rsp ev1) = ''profile of alice''"
proof -
  obtain cs lg where run: "serve (\<lambda>b. b) demo_handler demo_run (NewPageCache DefaultResponseCacheConfig, []) [] = (cs, lg)"
    by fastforce
  have "\<exists>ev0 ev1. lg = [ev0, ev1] \<and> ev_hit ev1 \<and> rs_Status (ev_rsp ev1) \<noteq> 304 \<and> rs_Body (ev_rsp ev0) = ''profile of alice''"
    using run by (auto simp: demo_http Let_def)
  then obtain ev0 ev1 where lg: "lg = [ev0, ev1]" "ev_hit ev1" "rs_Status (ev_rsp ev1) \<noteq> 304"
    "rs_Body (ev_rsp ev0) = ''profile of alice''" by blast
  obtain c s' where cs: "cs = (c, s')" by fastforce
  have "\<not> ev_hit ev0 \<and> rs_Body (ev_rsp ev1) = rs_Body (ev_rsp ev0)"
    using cached_pages_current [OF run [unfolded cs], of "[ev0]" ev1 "[]"] lg by (auto simp: Cons_eq_append_conv)
  with lg run show ?thesis by auto
qed

text \<open>
  The order in which \<^verbatim>\<open>setupMiddleware\<close> wraps the routes: the two cache middlewares first, the token
  blacklist behind them.
\<close>

definition refuse_401 :: "string \<Rightarrow> Response" where
  "refuse_401 msg = \<lparr>rs_Status = 401, rs_Header = [], rs_Body = msg, rs_HeaderWritten = True\<rparr>"

definition behind_blacklist :: "(string \<Rightarrow> redis_reply) \<Rightarrow> 's handler \<Rightarrow> 's handler" where
  "behind_blacklist get next r s =
     (case blacklist_Middleware get (rq_Header r ''Authorization'') of
        Pass \<Rightarrow> next r s
      | Deny msg \<Rightarrow> (s, refuse_401 msg)
      | TooManyRequests d \<Rightarrow> (s, refuse_401 []))"

definition router_stack ::
    "(string \<Rightarrow> string) \<Rightarrow> gotime \<Rightarrow> gotime \<Rightarrow> (string \<Rightarrow> redis_reply) \<Rightarrow> 's handler \<Rightarrow> Request \<Rightarrow>
     PageCache \<times> 's \<Rightarrow> (PageCache \<times> 's) \<times> Response \<times> bool" where
  "router_stack sha now now' get next = cached_stack sha now now' (behind_blacklist get next)"

lemma stack_hit:
  assumes "rq_Method r = ''GET''" "rq_Header r ''Cache-Control'' \<noteq> ''no-cache''"
    "gget (pc_entries c) (cache_key r) = Some e" "\<not> IsExpired t e"
  shows "cached_stack sha t t' next r (c, s) = ((fst (pc_Get t (cache_key r) c), s), cached_response r e, True)"
  using assms by (simp add: cached_stack_def ResponseCacheMiddleware_def pc_Get_def)

lemma stack_miss_stores:
  assumes "pc_ok c" "rq_Method r = ''GET''" "rq_Header r ''Cache-Control'' \<noteq> ''no-cache''"
    "gget (pc_entries c) (cache_key r) = None" "nxt r s = (s', rs)" "is_2xx (rs_Status rs)" "rs_Body rs \<noteq> []"
  shows "\<exists>c' rs'. cached_stack sha t t' nxt r (c, s) = ((c', s'), rs', False) \<and> rs_Body rs' = rs_Body rs \<and>
     gget (pc_entries c') (cache_key r) = Some ((page_of sha t' rs)\<lparr>ce_TTL := pc_defaultTTL c\<rparr>)"
proof -
  let ?c1 = "c\<lparr>pc_misses := pc_misses c + 1\<rparr>"
  have g: "pc_Get t (cache_key r) c = (?c1, None)" using assms(4) by (simp add: pc_Get_def)
  have ok1: "pc_ok ?c1" using assms(1) by (simp add: pc_ok_def)
  have "gget (pc_entries (pc_Set (cache_key r) (page_of sha t' rs) ?c1)) (cache_key r) = Some (with_ttl ?c1 (page_of sha t' rs))"
    using pc_Set_refines [OF ok1, of "cache_key r" "page_of sha t' rs"] pc_lookup [of "pc_Set (cache_key r) (page_of sha t' rs) ?c1" "cache_key r"]
    by (simp add: lookup_insert_same)
  moreover have "with_ttl ?c1 (page_of sha t' rs) = (page_of sha t' rs)\<lparr>ce_TTL := pc_defaultTTL c\<rparr>"
    by (simp add: with_ttl_def page_of_def)
  ultimately show ?thesis
    using assms(2-) g get_not_write [OF assms(2)]
    by (simp add: cached_stack_def ResponseCacheMiddleware_def CacheInvalidationMiddleware_def)
qed

text \<open>
  The page cache answers before anyone is authenticated. When a GET that passes the blacklist has
  been answered by the handler with a page (status 2xx, non-empty body) and the next request is a GET of
  the same path and query before the default TTL has passed, it is answered with that page and its
  status, also when it presents a token the blacklist would refuse: the blacklist is then not asked, and
  the handler is not run.
\<close>

theorem cache_bypasses_blacklist:
  assumes ok: "pc_ok c"
    and r1: "rq_Method r1 = ''GET''" "rq_Header r1 ''Cache-Control'' \<noteq> ''no-cache''"
      "blacklist_Middleware get (rq_Header r1 ''Authorization'') = Pass" "gget (pc_entries c) (cache_key r1) = None"
    and page: "next r1 s = (s', rs)" "is_2xx (rs_Status rs)" "rs_Body rs \<noteq> []"
    and r2: "rq_Method r2 = ''GET''" "rq_Header r2 ''Cache-Control'' \<noteq> ''no-cache''" "rq_Header r2 ''If-None-Match'' = []"
      "cache_key r2 = cache_key r1" "blacklist_Middleware get (rq_Header r2 ''Authorization'') = Deny msg"
    and time: "time_Since u t' \<le> pc_defaultTTL c"
  shows "\<exists>c1 rs1 c2 rs2. router_stack sha t t' get next r1 (c, s) = ((c1, s'), rs1, False) \<and>
     router_stack sha u u' get next r2 (c1, s') = ((c2, s'), rs2, True) \<and>
     rs_Status rs2 = rs_Status rs \<and> rs_Body rs2 = rs_Body rs"
proof -
  have b1: "behind_blacklist get next r1 s = (s', rs)" using r1(3) page(1) by (simp add: behind_blacklist_def)
  from stack_miss_stores [where nxt = "behind_blacklist get next", OF ok r1(1,2,4) b1 page(2,3), of sha t t']
  obtain c1 rs1 where s1: "router_stack sha t t' get next r1 (c, s) = ((c1, s'), rs1, False)"
    and e: "gget (pc_entries c1) (cache_key r2) = Some ((page_of sha t' rs)\<lparr>ce_TTL := pc_defaultTTL c\<rparr>)"
    by (auto simp: router_stack_def r2(4))
  have "\<not> IsExpired u ((page_of sha t' rs)\<lparr>ce_TTL := pc_defaultTTL c\<rparr>)"
    using time by (simp add: IsExpired_def page_of_def not_less)
  from stack_hit [OF r2(1,2) e this, of sha u' "behind_blacklist get next" s'] s1 r2(3) show ?thesis
    by (simp add: router_stack_def cached_response_def page_of_def)
qed

theorem cache_bypasses_blacklist_witness:
  "\<exists>c1 rs1 c2 rs2.
     router_stack (\<lambda>b. b) 1 2 (\<lambda>k. if k = ''jwt:blacklist:a.stolen.t'' then RVal ''1'' else RNil) demo_handler
       (demo_req ''GET'' ''/api/v1/users/me'' ''Bearer a.valid.t'') (NewPageCache DefaultResponseCacheConfig, []) = ((c1, []), rs1, False) \<and>
     router_stack (\<lambda>b. b) 3 4 (\<lambda>k. if k = ''jwt:blacklist:a.stolen.t'' then RVal ''1'' else RNil) demo_handler
       (demo_req ''GET'' ''/api/v1/users/me'' ''Bearer a.stolen.t'') (c1, []) = ((c2, []), rs2, True) \<and>
     rs_Status rs2 = 200 \<and> rs_Body rs2 = ''profile of Bearer a.valid.t''"
proof -
  let ?get = "\<lambda>k. if k = ''jwt:blacklist:a.stolen.t'' then RVal ''1'' else RNil"
  let ?r1 = "demo_req ''GET'' ''/api/v1/users/me'' ''Bearer a.valid.t''"
  let ?r2 = "demo_req ''GET'' ''/api/v1/users/me'' ''Bearer a.stolen.t''"
  have ok: "pc_ok (NewPageCache DefaultResponseCacheConfig)"
    using new_inv [of DefaultResponseCacheConfig] by (simp add: run_inv_def)
  have b1: "blacklist_Middleware ?get ''Bearer a.valid.t'' = Pass" by code_simp
  have "\<exists>msg. blacklist_Middleware ?get ''Bearer a.stolen.t'' = Deny msg"
  proof -
    have "blacklist_Middleware ?get ''Bearer a.stolen.t'' \<noteq> Pass" by code_simp
    then show ?thesis by (auto simp: blacklist_Middleware_def Let_def split: if_splits)
  qed
  then obtain msg where b2: "blacklist_Middleware ?get ''Bearer a.stolen.t'' = Deny msg" by blast
  show ?thesis
    using cache_bypasses_blacklist [OF ok, of ?r1 ?get demo_handler "[]" "[]" _ ?r2 msg 3 2 "\<lambda>b. b" 1 4] b1 b2
    by (simp add: demo_req_def demo_handler_def NewPageCache_def DefaultResponseCacheConfig_def is_2xx_def cache_key_def
        time_defs duration_defs)
qed

subsection \<open>Cache headers and ETags\<close>

lemma split_on_no_sep: "sep \<notin> set s \<Longrightarrow> split_on sep cur (s @ sep # t) = (rev cur @ s) # split_on sep [] t"
  by (induction s arbitrary: cur) auto

lemma digit_not_special:
  assumes "c \<in> set (digits_of n)"
  shows "c \<noteq> CHR '','' \<and> \<not> is_space c"
proof -
  from digit_chars [OF assms] obtain d :: nat where d: "d < 10" "c = char_of (48 + d)" by blast
  have "(of_char c :: int) = 48 + int d" unfolding d(2) by (rule of_char_digit [OF d(1)])
  then show ?thesis by (auto simp: is_space_def)
qed

text \<open>A positive age in whole seconds written by \<^verbatim>\<open>WriteCacheHeaders\<close> is read back by \<^verbatim>\<open>ParseMaxAge\<close>.\<close>

lemma max_age_roundtrip:
  assumes "0 < n" "maxAge = n * Second" "in_int64 maxAge"
  shows "ParseMaxAge (header_Get (WriteCacheHeaders maxAge etag h) ''Cache-Control'') = maxAge"
proof -
  let ?n = n
  have n: "0 \<le> ?n" "?n \<le> maxAge" "0 < maxAge" using assms(1,2) by (simp_all add: Second_def)
  have ws: "seconds_of maxAge = ?n"
    unfolding assms(2) by (rule seconds_of_whole) (use assms in \<open>simp add: in_int64_def Second_def\<close>)
  let ?d = "digits_of (nat ?n)"
  have it: "strconv_Itoa ?n = ?d" using n(1) by (simp add: strconv_Itoa_def)
  let ?p = "''max-age='' @ ?d"
  have hdr: "header_Get (WriteCacheHeaders maxAge etag h) ''Cache-Control'' = ?p @ CHR '','' # '' must-revalidate''"
    using n(3) by (simp add: WriteCacheHeaders_def Let_def ws it)
  have nc: "CHR '','' \<notin> set ?p" using digit_not_special [of _ "nat ?n"] by auto
  have split: "strings_Split (?p @ CHR '','' # '' must-revalidate'') CHR '','' = ?p # strings_Split '' must-revalidate'' CHR '',''"
    unfolding strings_Split_def using split_on_no_sep [OF nc, of "[]"] by (simp only: rev.simps append_Nil)
  have last: "rev ?d \<noteq> []" "\<not> is_space (hd (rev ?d))"
    using digit_not_special [of "last ?d" "nat ?n"] by (auto simp: hd_rev)
  have trim: "strings_TrimSpace ?p = ?p"
    using last by (cases "rev ?d") (auto simp: strings_TrimSpace_def is_space_def rev_swap)
  have at: "strconv_Atoi ?d = Some ?n"
    using Atoi_Itoa [of ?n] it n assms(3) by (simp add: in_int64_def)
  have "wrap64 (?n * Second) = ?n * Second"
    using assms by (intro wrap64_id) simp
  with at trim show ?thesis
    unfolding ParseMaxAge_def hdr split by (simp add: strings_TrimPrefix_def Let_def assms(2))
qed

text \<open>
  A handler behind \<^verbatim>\<open>ETagMiddleware\<close> runs exactly as without it; the client gets its status and body unless
  it presented the tag of exactly this body (or \<^verbatim>\<open>*\<close>), and then a 304 without a body.
\<close>

lemma etag_transparent:
  assumes "nxt r s = (s', rs)"
  shows "fst (ETagMiddleware sha cfg nxt r s) = s' \<and>
    (let out = snd (ETagMiddleware sha cfg nxt r s) in
     rs_Status out = rs_Status rs \<and> rs_Body out = rs_Body rs \<or>
     rs_Status out = 304 \<and> rs_Body out = [] \<and> is_2xx (rs_Status rs) \<and>
     (rq_Header r ''If-None-Match'' = ''*'' \<or>
      rq_Header r ''If-None-Match'' = etag_of sha (case cfg of None \<Rightarrow> DefaultETagConfig | Some c \<Rightarrow> c) (rs_Body rs)))"
  using assms by (auto simp: ETagMiddleware_def Let_def)

text \<open>At most one refresh of a key is running: a second stale answer does not start another.\<close>

lemma swr_single_refresh:
  assumes "swr_Middleware t nxt r (Some c) (w, s) = ((w', s'), rsp, Some key)"
  shows "snd (snd (swr_Middleware u nxt r (Some c) (w', s'))) = None"
  using assms by (auto simp: swr_Middleware_def Let_def split: option.splits if_splits prod.splits)

end
