(* ===== verification/Go_Paths.thy ===== *)
theory Go_Paths
  imports Go_Strings
begin

text \<open>
  The functions of \<^verbatim>\<open>path/filepath\<close> that the tools call, as they behave on Unix, where
  \<^verbatim>\<open>ToSlash\<close> is the identity and the separator is one slash. \<open>filepath_Abs\<close> takes the working directory,
  which may be unavailable.
\<close>

definition filepath_IsAbs :: "string \<Rightarrow> bool" where
  "filepath_IsAbs path \<longleftrightarrow> strings_HasPrefix path ''/''"

text \<open>One path element: empty ones and dots vanish, \<^verbatim>\<open>..\<close> removes the element before it if there is one.\<close>

definition clean_step :: "bool \<Rightarrow> string \<Rightarrow> string list \<Rightarrow> string list" where
  "clean_step rooted el stack =
     (if el = [] \<or> el = ''.'' then stack
      else if el = ''..'' then
        (case stack of
           [] \<Rightarrow> if rooted then [] else [''..'']
         | x # xs \<Rightarrow> if x = ''..'' then ''..'' # stack else xs)
      else el # stack)"

definition clean_elements :: "string \<Rightarrow> string list" where
  "clean_elements path = rev (fold (clean_step (filepath_IsAbs path)) (strings_Split path CHR ''/'') [])"

definition filepath_Clean :: "string \<Rightarrow> string" where
  "filepath_Clean path =
     (let body = strings_Join (clean_elements path) ''/''
      in if filepath_IsAbs path then ''/'' @ body else if body = [] then ''.'' else body)"

definition filepath_Join :: "string list \<Rightarrow> string" where
  "filepath_Join elems =
     (let es = dropWhile (\<lambda>e. e = []) elems
      in if es = [] then [] else filepath_Clean (strings_Join es ''/''))"

definition filepath_Abs :: "string option \<Rightarrow> string \<Rightarrow> string option" where
  "filepath_Abs cwd path =
     (if filepath_IsAbs path then Some (filepath_Clean path)
      else map_option (\<lambda>wd. filepath_Join [wd, path]) cwd)"

definition filepath_Dir :: "string \<Rightarrow> string" where
  "filepath_Dir path =
     (let i = strings_LastIndex path ''/'' in filepath_Clean (take (nat (i + 1)) path))"

definition filepath_Base :: "string \<Rightarrow> string" where
  "filepath_Base path =
     (if path = [] then ''.''
      else let p = rev (dropWhile (\<lambda>c. c = CHR ''/'') (rev path));
               b = drop (nat (strings_LastIndex p ''/'' + 1)) p
           in if b = [] then ''/'' else b)"

subsection \<open>Lemmas\<close>

text \<open>An absolute cleaned path has no dots in it.\<close>

lemma clean_step_elements:
  "rooted \<Longrightarrow> list_all (\<lambda>c. c \<noteq> [] \<and> c \<noteq> ''.'' \<and> c \<noteq> ''..'') stack \<Longrightarrow>
   list_all (\<lambda>c. c \<noteq> [] \<and> c \<noteq> ''.'' \<and> c \<noteq> ''..'') (clean_step rooted el stack)"
  by (cases stack) (auto simp: clean_step_def)

lemma clean_fold_elements:
  "rooted \<Longrightarrow> list_all (\<lambda>c. c \<noteq> [] \<and> c \<noteq> ''.'' \<and> c \<noteq> ''..'') stack \<Longrightarrow>
   list_all (\<lambda>c. c \<noteq> [] \<and> c \<noteq> ''.'' \<and> c \<noteq> ''..'') (fold (clean_step rooted) comps stack)"
  by (induction comps arbitrary: stack) (auto simp: clean_step_elements)

lemma clean_elements_abs:
  "filepath_IsAbs path \<Longrightarrow> c \<in> set (clean_elements path) \<Longrightarrow> c \<noteq> [] \<and> c \<noteq> ''.'' \<and> c \<noteq> ''..''"
  using clean_fold_elements [of True "[]" "strings_Split path CHR ''/''"]
  by (simp add: clean_elements_def list_all_iff)

lemma split_on_elements: "c \<in> set (split_on sep cur s) \<Longrightarrow> sep \<notin> set cur \<Longrightarrow> sep \<notin> set c"
proof (induction s arbitrary: cur)
  case (Cons x s)
  from Cons.IH [of "[]"] Cons.IH [of "x # cur"] Cons.prems show ?case by (auto split: if_splits)
qed simp

lemma clean_step_sub: "c \<in> set (clean_step b el stack) \<Longrightarrow> c = el \<or> c \<in> set stack \<or> c = ''..''"
  by (cases stack) (auto simp: clean_step_def split: if_splits)

lemma clean_fold_sub: "c \<in> set (fold (clean_step b) comps stack) \<Longrightarrow> c \<in> set comps \<or> c \<in> set stack \<or> c = ''..''"
proof (induction comps arbitrary: stack)
  case (Cons d comps)
  from Cons.IH [of "clean_step b d stack"] Cons.prems clean_step_sub [of c b d stack] show ?case by auto
qed simp

lemma clean_elements_slash: "c \<in> set (clean_elements path) \<Longrightarrow> CHR ''/'' \<notin> set c"
  using clean_fold_sub [of c "filepath_IsAbs path" "strings_Split path CHR ''/''" "[]"]
    split_on_elements [of c "CHR ''/''" "[]" path]
  by (auto simp: clean_elements_def strings_Split_def)

lemma split_join:
  assumes "xs \<noteq> []" "\<forall>x\<in>set xs. sep \<notin> set x"
  shows "split_on sep [] (strings_Join xs [sep]) = xs"
proof -
  have *: "sep \<notin> set s \<Longrightarrow> split_on sep cur (s @ sep # t) = (rev cur @ s) # split_on sep [] t" for s cur t
    by (induction s arbitrary: cur) auto
  have **: "sep \<notin> set s \<Longrightarrow> split_on sep cur s = [rev cur @ s]" for s cur
    by (induction s arbitrary: cur) auto
  show ?thesis using assms
  proof (induction xs "[sep]" rule: strings_Join.induct)
    case (2 x)
    then show ?case by (simp add: **)
  next
    case (3 x y xs)
    then show ?case by (simp add: *)
  qed simp
qed

lemma fold_clean_id:
  "list_all (\<lambda>c. c \<noteq> [] \<and> c \<noteq> ''.'' \<and> c \<noteq> ''..'') comps \<Longrightarrow> fold (clean_step b) comps stack = rev comps @ stack"
  by (induction comps arbitrary: stack) (auto simp: clean_step_def)

text \<open>Cleaning an absolute path again changes nothing.\<close>

lemma Clean_idem_abs:
  assumes "filepath_IsAbs path"
  shows "filepath_Clean (filepath_Clean path) = filepath_Clean path"
proof -
  let ?es = "clean_elements path"
  have c: "filepath_Clean path = ''/'' @ strings_Join ?es ''/''" using assms by (simp add: filepath_Clean_def)
  have abs: "filepath_IsAbs (''/'' @ t)" for t by (simp add: filepath_IsAbs_def)
  have sp: "strings_Split (''/'' @ strings_Join ?es ''/'') CHR ''/'' = [] # (if ?es = [] then [[]] else ?es)"
    using split_join [of ?es "CHR ''/''"] clean_elements_slash [of _ path] by (simp add: strings_Split_def)
  have good: "list_all (\<lambda>c. c \<noteq> [] \<and> c \<noteq> ''.'' \<and> c \<noteq> ''..'') ?es"
    using clean_elements_abs [OF assms] by (auto simp: list_all_iff)
  have "clean_elements (''/'' @ strings_Join ?es ''/'') = ?es"
    unfolding clean_elements_def [of "''/'' @ strings_Join ?es ''/''"] sp
    using fold_clean_id [OF good, of True "[]"] abs by (simp add: clean_step_def)
  then show ?thesis unfolding c using abs by (simp add: filepath_Clean_def)
qed

end
