(* ===== verification/Tools.thy ===== *)
theory Tools
  imports Go_Paths Agent_Loop
begin

text \<open>
  The built-in tools of the agent, \<^verbatim>\<open>internal/tools\<close>: the file tools with their path validation
  (\<^verbatim>\<open>file.go\<close>), the terminal tool with its command policy (\<^verbatim>\<open>terminal.go\<close>), the code search
  (\<^verbatim>\<open>search.go\<close>) and the sandbox (\<^verbatim>\<open>sandbox.go\<close>).

  The operating system is the environment record \<open>os_env\<close>: the working directory, which paths exist and what
  they resolve to, and what reading, writing, listing and running answer. Executing a tool returns the
  effects it had on the system, in order, with its result. \<open>os_quote\<close> is the \<^verbatim>\<open>%q\<close> verb of \<^verbatim>\<open>fmt\<close>, which
  only appears in messages. \<^verbatim>\<open>Duration\<close> and \<^verbatim>\<open>Metadata\<close> of a result, which nothing reads, are left out.
\<close>

subsection \<open>The operating system\<close>

record os_env =
  os_cwd :: "string option"
  os_Lstat :: "string \<Rightarrow> bool"
  os_Stat :: "string \<Rightarrow> bool"
  os_EvalSymlinks :: "string \<Rightarrow> string + string"
  os_ReadFile :: "string \<Rightarrow> string + string"
  os_MkdirAll :: "string \<Rightarrow> string option"
  os_WriteFile :: "string \<Rightarrow> string option"
  os_ReadDir :: "string \<Rightarrow> string + (string \<times> bool) list"
  os_run :: "string \<Rightarrow> string list \<Rightarrow> int \<Rightarrow> string \<times> string option"
  os_exit1 :: "string \<Rightarrow> bool"
  os_quote :: "string \<Rightarrow> string"

datatype effect =
    ReadF string
  | WroteF string string
  | MadeDir string
  | ListedDir string
  | Ran string "string list" int

text \<open>\<^verbatim>\<open>v, _ := params[k].(string)\<close>: the empty string unless the value is a string.\<close>

definition param_str :: "params \<Rightarrow> string \<Rightarrow> string" where
  "param_str ps k = (case map_of ps k of Some (JStr s) \<Rightarrow> s | _ \<Rightarrow> [])"

definition fail :: "string \<Rightarrow> ToolResult" where
  "fail msg = \<lparr>tr_Output = [], tr_Cost = 0, tr_Success = False, tr_Error = msg\<rparr>"

definition succeed :: "string \<Rightarrow> ToolResult" where
  "succeed out = \<lparr>tr_Output = out, tr_Cost = 0, tr_Success = True, tr_Error = []\<rparr>"

subsection \<open>File paths\<close>

type_synonym FileSecurityConfig = "string list"

definition below :: "string \<Rightarrow> string \<Rightarrow> bool" where
  "below dir p \<longleftrightarrow> p = dir \<or> strings_HasPrefix p (dir @ ''/'')"

definition resolve_path :: "os_env \<Rightarrow> string \<Rightarrow> string + string" where
  "resolve_path os absPath =
     (if os_Lstat os absPath
      then case os_EvalSymlinks os absPath of
             Inl err \<Rightarrow> Inl (''failed to resolve symlinks: '' @ err)
           | Inr resolved \<Rightarrow> Inr resolved
      else case os_EvalSymlinks os (filepath_Dir absPath) of
             Inr resolvedParent \<Rightarrow> Inr (filepath_Join [resolvedParent, filepath_Base absPath])
           | Inl err \<Rightarrow> Inr absPath)"

definition validateFilePath :: "os_env \<Rightarrow> string \<Rightarrow> FileSecurityConfig \<Rightarrow> string option" where
  "validateFilePath os path allowedDirs =
     (if path = [] then Some ''path is required''
      else if allowedDirs = [] then Some ''file access not configured: no allowed directories set''
      else if ''..'' \<in> set (strings_Split path CHR ''/'') then Some ''path traversal detected: '..' component not allowed''
      else
        case filepath_Abs (os_cwd os) (filepath_Clean path) of
          None \<Rightarrow> Some ''failed to resolve path''
        | Some absPath \<Rightarrow>
            (case resolve_path os absPath of
               Inl err \<Rightarrow> Some err
             | Inr resolved \<Rightarrow>
                 if list_ex (\<lambda>dir. case filepath_Abs (os_cwd os) dir of
                                     None \<Rightarrow> False | Some absDir \<Rightarrow> below absDir resolved) allowedDirs
                 then None
                 else Some ''access denied: path is outside allowed directories''))"

subsection \<open>File tools\<close>

definition ReadFile_Execute :: "os_env \<Rightarrow> FileSecurityConfig option \<Rightarrow> params \<Rightarrow> effect list \<times> ToolResult" where
  "ReadFile_Execute os security ps =
     (case security of
        None \<Rightarrow> ([], fail ''file tool requires security configuration'')
      | Some dirs \<Rightarrow>
          let path = param_str ps ''path'' in
          if path = [] then ([], fail ''path is required'')
          else case validateFilePath os path dirs of
                 Some err \<Rightarrow> ([], fail err)
               | None \<Rightarrow>
                   (case os_ReadFile os path of
                      Inl err \<Rightarrow> ([ReadF path], fail (''failed to read file: '' @ err))
                    | Inr dat \<Rightarrow> ([ReadF path], succeed dat)))"

definition WriteFile_Execute :: "os_env \<Rightarrow> FileSecurityConfig option \<Rightarrow> params \<Rightarrow> effect list \<times> ToolResult" where
  "WriteFile_Execute os security ps =
     (case security of
        None \<Rightarrow> ([], fail ''file tool requires security configuration'')
      | Some dirs \<Rightarrow>
          let path = param_str ps ''path''; content = param_str ps ''content'' in
          if path = [] then ([], fail ''path is required'')
          else case validateFilePath os path dirs of
                 Some err \<Rightarrow> ([], fail err)
               | None \<Rightarrow>
                   let dir = filepath_Dir path in
                   (case os_MkdirAll os dir of
                      Some err \<Rightarrow> ([MadeDir dir], fail (''failed to create directory: '' @ err))
                    | None \<Rightarrow>
                        (case os_WriteFile os path of
                           Some err \<Rightarrow> ([MadeDir dir, WroteF path content], fail (''failed to write file: '' @ err))
                         | None \<Rightarrow>
                             ([MadeDir dir, WroteF path content],
                              succeed (''Successfully wrote '' @ strconv_Itoa (int (length content)) @ '' bytes to '' @ path)))))"

text \<open>\<^verbatim>\<open>strings.Replace(s, old, new, 1)\<close> for a non-empty \<open>old\<close>.\<close>

definition strings_Replace1 :: "string \<Rightarrow> string \<Rightarrow> string \<Rightarrow> string" where
  "strings_Replace1 s old new =
     (let i = strings_Index s old
      in if i < 0 then s else take (nat i) s @ new @ drop (nat i + length old) s)"

definition EditFile_Execute :: "os_env \<Rightarrow> FileSecurityConfig option \<Rightarrow> params \<Rightarrow> effect list \<times> ToolResult" where
  "EditFile_Execute os security ps =
     (let path = param_str ps ''path''; oldStr = param_str ps ''old_string''; newStr = param_str ps ''new_string'' in
      if path = [] \<or> oldStr = [] then ([], fail ''path and old_string are required'')
      else case security of
        None \<Rightarrow> ([], fail ''file tool requires security configuration'')
      | Some dirs \<Rightarrow>
          (case validateFilePath os path dirs of
             Some err \<Rightarrow> ([], fail err)
           | None \<Rightarrow>
               (case os_ReadFile os path of
                  Inl err \<Rightarrow> ([ReadF path], fail (''failed to read file: '' @ err))
                | Inr content \<Rightarrow>
                    if \<not> strings_Contains content oldStr then ([ReadF path], fail ''old_string not found in file'')
                    else
                      let newContent = strings_Replace1 content oldStr newStr in
                      (case os_WriteFile os path of
                         Some err \<Rightarrow> ([ReadF path, WroteF path newContent], fail (''failed to write file: '' @ err))
                       | None \<Rightarrow> ([ReadF path, WroteF path newContent], succeed (''Successfully edited '' @ path))))))"

definition ListDirectory_Execute :: "os_env \<Rightarrow> FileSecurityConfig option \<Rightarrow> params \<Rightarrow> effect list \<times> ToolResult" where
  "ListDirectory_Execute os security ps =
     (let path = (let p = param_str ps ''path'' in if p = [] then ''.'' else p) in
      case security of
        None \<Rightarrow> ([], fail ''file tool requires security configuration'')
      | Some dirs \<Rightarrow>
          (case validateFilePath os path dirs of
             Some err \<Rightarrow> ([], fail err)
           | None \<Rightarrow>
               (case os_ReadDir os path of
                  Inl err \<Rightarrow> ([ListedDir path], fail (''failed to list directory: '' @ err))
                | Inr entries \<Rightarrow>
                    let dirs = map (\<lambda>e. fst e @ ''/'') (filter snd entries);
                        files = map fst (filter (\<lambda>e. \<not> snd e) entries)
                    in ([ListedDir path],
                        succeed (''Directories: '' @ strings_Join dirs '', '' @ nl @ ''Files: '' @ strings_Join files '', '')))))"

subsection \<open>Commands\<close>

record CommandSecurityConfig =
  Blocklist :: "string list"
  Allowlist :: "string list"

text \<open>
  The loop that strips \<^verbatim>\<open>sudo\<close> and variable assignments in front of the command. It ends because every
  round drops at least one character.
\<close>

definition strip_assignment :: "string \<Rightarrow> string option" where
  "strip_assignment command =
     (let eqIdx = strings_Index command ''='' in
      if 0 \<le> eqIdx \<and> CHR '' '' \<notin> set (take (nat eqIdx) command)
      then (case strings_SplitN2 command CHR '' '' of [_, rest] \<Rightarrow> Some rest | _ \<Rightarrow> None)
      else None)"

lemma SplitN2_rest: "strings_SplitN2 s sep = [a, rest] \<Longrightarrow> s = a @ sep # rest"
proof -
  assume "strings_SplitN2 s sep = [a, rest]"
  then have m: "sep \<in> set s" "a = takeWhile (\<lambda>c. c \<noteq> sep) s" "rest = tl (dropWhile (\<lambda>c. c \<noteq> sep) s)"
    by (auto simp: strings_SplitN2_def split: if_splits)
  from m(1) have "dropWhile (\<lambda>c. c \<noteq> sep) s \<noteq> []" by (simp add: dropWhile_eq_Nil_conv)
  then have "dropWhile (\<lambda>c. c \<noteq> sep) s = sep # rest"
    using hd_dropWhile [of "\<lambda>c. c \<noteq> sep" s] m(3) by (cases "dropWhile (\<lambda>c. c \<noteq> sep) s") auto
  with m(2) show ?thesis by (metis takeWhile_dropWhile_id)
qed

lemma strip_assignment_suffix: "strip_assignment command = Some rest \<Longrightarrow> \<exists>a. command = a @ CHR '' '' # rest"
  by (auto simp: strip_assignment_def Let_def split: if_splits list.splits dest: SplitN2_rest)

function strip_prefixes :: "string \<Rightarrow> string" where
  "strip_prefixes command =
     (if strings_HasPrefix command ''sudo '' then strip_prefixes (strings_TrimPrefix command ''sudo '')
      else case strip_assignment command of
             Some rest \<Rightarrow> strip_prefixes rest
           | None \<Rightarrow> command)"
  by pat_completeness auto

termination
proof (relation "measure length")
  fix command
  assume "strings_HasPrefix command ''sudo ''"
  then show "(strings_TrimPrefix command ''sudo '', command) \<in> measure length"
    by (auto simp: strings_TrimPrefix_def)
next
  fix command rest
  assume "strip_assignment command = Some rest"
  from strip_assignment_suffix [OF this] show "(rest, command) \<in> measure length" by auto
qed simp

declare strip_prefixes.simps [simp del]

datatype cmd_error =
    NoSecurityConfig | CommandRequired | EmptyAfterParsing | BlockedCommand string | ShellMetacharacter string | NotInAllowlist string

definition shell_tokens :: "string list" where
  "shell_tokens = ['';'', ''&&'', ''||'', ''|'', ''>'', ''<'', [CHR 0x60], ''$('', ''${'']"

definition rejectShellInjection :: "string \<Rightarrow> cmd_error option" where
  "rejectShellInjection command =
     map_option ShellMetacharacter (find (\<lambda>tok. strings_Contains command tok) shell_tokens)"

definition validateCommand :: "string \<Rightarrow> CommandSecurityConfig option \<Rightarrow> cmd_error option" where
  "validateCommand command0 security =
     (case security of
        None \<Rightarrow> Some NoSecurityConfig
      | Some sec \<Rightarrow>
          let command = strings_TrimSpace command0 in
          if command = [] then Some CommandRequired
          else
            let command = strip_prefixes command; fields = strings_Fields command in
            if fields = [] then Some EmptyAfterParsing
            else
              let cmd = filepath_Base (hd fields) in
              if cmd \<in> set (Blocklist sec) then Some (BlockedCommand cmd)
              else if Allowlist sec \<noteq> [] then
                (if cmd \<in> set (Allowlist sec) then rejectShellInjection command else Some (NotInAllowlist cmd))
              else None)"

definition cmd_message :: "os_env \<Rightarrow> cmd_error \<Rightarrow> string" where
  "cmd_message os e =
     (case e of
        NoSecurityConfig \<Rightarrow> ''command validation: no security config configured''
      | CommandRequired \<Rightarrow> ''command is required''
      | EmptyAfterParsing \<Rightarrow> ''empty command after parsing''
      | BlockedCommand c \<Rightarrow> ''command '' @ os_quote os c @ '' is blocked by security policy''
      | ShellMetacharacter t \<Rightarrow> ''command contains shell metacharacter '' @ os_quote os t @ '' which is not allowed in strict (allowlist) mode''
      | NotInAllowlist c \<Rightarrow> ''command '' @ os_quote os c @ '' is not in the allowlist'')"

definition shellCommand :: "bool \<Rightarrow> string \<Rightarrow> string \<times> string list" where
  "shellCommand windows command = (if windows then (''cmd'', [''/c'', command]) else (''sh'', [''-c'', command]))"

text \<open>The timeout in seconds: the default, the parameter when positive, and the cap of 300.\<close>

definition run_timeout :: "params \<Rightarrow> int" where
  "run_timeout ps =
     (let t = (case map_of ps ''timeout_seconds'' of Some (JNum ts) \<Rightarrow> if 0 < ts then int_of_f ts else 30 | _ \<Rightarrow> 30)
      in if 300 < t then 300 else t)"

definition RunCommand_Execute :: "os_env \<Rightarrow> CommandSecurityConfig option \<Rightarrow> params \<Rightarrow> effect list \<times> ToolResult" where
  "RunCommand_Execute os security ps =
     (let command = param_str ps ''command'' in
      if command = [] then ([], fail ''command is required'')
      else case validateCommand command security of
             Some err \<Rightarrow> ([], fail (cmd_message os err))
           | None \<Rightarrow>
               let timeout = run_timeout ps; (shell, args) = shellCommand False command; (out, err) = os_run os shell args timeout in
               ([Ran shell args timeout],
                \<lparr>tr_Output = out, tr_Cost = 0, tr_Success = (err = None),
                 tr_Error = (case err of None \<Rightarrow> [] | Some e \<Rightarrow> ''command failed: '' @ e)\<rparr>))"

subsection \<open>Code search\<close>

text \<open>No timeout is set on the search; \<open>os_exit1\<close> tells whether an error is exit code 1.\<close>

definition SearchCode_Execute :: "os_env \<Rightarrow> params \<Rightarrow> effect list \<times> ToolResult" where
  "SearchCode_Execute os ps =
     (let pattern = param_str ps ''pattern'' in
      if pattern = [] then ([], fail ''pattern is required'')
      else
        let searchPath = (let p = param_str ps ''path'' in if p = [] then ''.'' else p) in
        if strings_Contains searchPath ''..'' then ([], fail (''path must not contain '..'' @ [CHR 0x27]))
        else
          let glob = param_str ps ''glob'';
              args = (if glob \<noteq> [] then [''-n'', ''--color=never'', ''-g'', glob, pattern, searchPath]
                      else [''-n'', ''--color=never'', pattern, searchPath]);
              (out, err) = os_run os ''rg'' args 0
          in ([Ran ''rg'' args 0],
              case err of
                None \<Rightarrow> succeed out
              | Some e \<Rightarrow> if os_exit1 os e then succeed ''No matches found'' else fail (''search failed: '' @ e)))"

subsection \<open>The tools together\<close>

datatype builtin =
    ReadFileTool "FileSecurityConfig option"
  | WriteFileTool "FileSecurityConfig option"
  | EditFileTool "FileSecurityConfig option"
  | ListDirectoryTool "FileSecurityConfig option"
  | RunCommandTool "CommandSecurityConfig option"
  | SearchCodeTool

fun tool_Name :: "builtin \<Rightarrow> string" where
  "tool_Name (ReadFileTool s) = ''read_file''"
| "tool_Name (WriteFileTool s) = ''write_file''"
| "tool_Name (EditFileTool s) = ''edit_file''"
| "tool_Name (ListDirectoryTool s) = ''list_directory''"
| "tool_Name (RunCommandTool s) = ''run_command''"
| "tool_Name SearchCodeTool = ''search_code''"

fun tool_Description :: "builtin \<Rightarrow> string" where
  "tool_Description (ReadFileTool s) = ''Read the contents of a file''"
| "tool_Description (WriteFileTool s) = ''Write content to a file (creates or overwrites)''"
| "tool_Description (EditFileTool s) = ''Edit a file by replacing a specific string with new content''"
| "tool_Description (ListDirectoryTool s) = ''List files and directories in a path''"
| "tool_Description (RunCommandTool s) = ''Execute a terminal command and return output''"
| "tool_Description SearchCodeTool = ''Search for patterns in the codebase''"

fun tool_RequiresHITL :: "os_env \<Rightarrow> builtin \<Rightarrow> params \<Rightarrow> bool" where
  "tool_RequiresHITL os (ReadFileTool s) ps = False"
| "tool_RequiresHITL os (WriteFileTool s) ps =
     (let path = param_str ps ''path'' in path \<noteq> [] \<and> os_Stat os path)"
| "tool_RequiresHITL os (EditFileTool s) ps = True"
| "tool_RequiresHITL os (ListDirectoryTool s) ps = False"
| "tool_RequiresHITL os (RunCommandTool s) ps = True"
| "tool_RequiresHITL os SearchCodeTool ps = False"

fun tool_Execute :: "os_env \<Rightarrow> builtin \<Rightarrow> params \<Rightarrow> effect list \<times> ToolResult" where
  "tool_Execute os (ReadFileTool s) ps = ReadFile_Execute os s ps"
| "tool_Execute os (WriteFileTool s) ps = WriteFile_Execute os s ps"
| "tool_Execute os (EditFileTool s) ps = EditFile_Execute os s ps"
| "tool_Execute os (ListDirectoryTool s) ps = ListDirectory_Execute os s ps"
| "tool_Execute os (RunCommandTool s) ps = RunCommand_Execute os s ps"
| "tool_Execute os SearchCodeTool ps = SearchCode_Execute os ps"

definition register_builtin :: "builtin \<Rightarrow> builtin ToolRegistry \<Rightarrow> builtin ToolRegistry" where
  "register_builtin t = Register \<lparr>tl_Name = tool_Name t, tl_Description = tool_Description t, tl_impl = t\<rparr>"

text \<open>The registry the server builds at startup.\<close>

definition server_tools :: "builtin ToolRegistry" where
  "server_tools =
     fold register_builtin
       [ReadFileTool None, WriteFileTool None, EditFileTool None, ListDirectoryTool None, RunCommandTool None, SearchCodeTool]
       NewToolRegistry"

subsection \<open>The sandbox\<close>

record SandboxConfig =
  sb_Engine :: string
  sb_Image :: string
  sb_Timeout :: duration
  sb_MaxMemory :: string
  sb_Network :: bool
  sb_WorkDir :: string

definition DefaultSandboxConfig :: SandboxConfig where
  "DefaultSandboxConfig = \<lparr>sb_Engine = ''local'', sb_Image = [], sb_Timeout = 30 * Second, sb_MaxMemory = [], sb_Network = True, sb_WorkDir = []\<rparr>"

definition DockerSandboxConfig :: SandboxConfig where
  "DockerSandboxConfig = \<lparr>sb_Engine = ''docker'', sb_Image = ''golang:1.22-alpine'', sb_Timeout = 60 * Second,
     sb_MaxMemory = ''256m'', sb_Network = False, sb_WorkDir = ''/workspace''\<rparr>"

definition NewSandbox :: "SandboxConfig option \<Rightarrow> SandboxConfig" where
  "NewSandbox cfg = (case cfg of None \<Rightarrow> DefaultSandboxConfig | Some c \<Rightarrow> c)"

definition docker_args :: "SandboxConfig \<Rightarrow> string \<Rightarrow> string list" where
  "docker_args c command =
     [''run'', ''--rm''] @ (if sb_MaxMemory c \<noteq> [] then [''--memory'', sb_MaxMemory c] else []) @
     (if \<not> sb_Network c then [''--network'', ''none''] else []) @
     (if sb_WorkDir c \<noteq> [] then [''-w'', sb_WorkDir c] else []) @
     [sb_Image c, ''sh'', ''-c'', command]"

text \<open>What is started, with which timeout; \<open>expired\<close> and \<open>err\<close> are what the run reports.\<close>

definition sandbox_command :: "SandboxConfig \<Rightarrow> string \<Rightarrow> string \<times> string list \<times> duration" where
  "sandbox_command c command =
     (if sb_Engine c = ''docker''
      then (''docker'', docker_args c command, if sb_Timeout c \<le> 0 then 60 * Second else sb_Timeout c)
      else (''sh'', [''-c'', command], if sb_Timeout c \<le> 0 then 30 * Second else sb_Timeout c))"

datatype sandbox_error = SandboxTimeout duration | SandboxFailed string

definition sandbox_Execute ::
    "(string \<times> string list \<times> duration \<Rightarrow> string \<times> bool \<times> string option) \<Rightarrow> SandboxConfig \<Rightarrow> string \<Rightarrow> string \<times> sandbox_error option" where
  "sandbox_Execute run c command =
     (let cmd = sandbox_command c command; (out, expired, err) = run cmd in
      (out, if expired then Some (SandboxTimeout (snd (snd cmd)))
            else map_option SandboxFailed err))"

end
