(* ===== verification/Tool_Props.thy ===== *)
theory Tool_Props
  imports Tools
begin

text \<open>
  What the guards of the built-in tools guarantee and what they do not: where the file tools can reach,
  what the command policy lets through, and how the agent sees a tool that refused.
\<close>

subsection \<open>File access\<close>

fun tool_dirs :: "builtin \<Rightarrow> FileSecurityConfig option" where
  "tool_dirs (ReadFileTool s) = s"
| "tool_dirs (WriteFileTool s) = s"
| "tool_dirs (EditFileTool s) = s"
| "tool_dirs (ListDirectoryTool s) = s"
| "tool_dirs _ = None"

text \<open>The path whose check has to license an effect: for a created directory, that of a file to be written in it.\<close>

fun effect_path :: "effect \<Rightarrow> string \<Rightarrow> bool" where
  "effect_path (ReadF q) p \<longleftrightarrow> p = q"
| "effect_path (WroteF q c) p \<longleftrightarrow> p = q"
| "effect_path (ListedDir q) p \<longleftrightarrow> p = q"
| "effect_path (MadeDir dir) p \<longleftrightarrow> dir = filepath_Dir p"
| "effect_path (Ran cmd args seconds) p \<longleftrightarrow> False"

text \<open>The path a file tool is called with; only the listing has a default.\<close>

definition tool_path :: "builtin \<Rightarrow> params \<Rightarrow> string" where
  "tool_path t ps = (case t of
     ListDirectoryTool s \<Rightarrow> if param_str ps ''path'' = [] then ''.'' else param_str ps ''path''
   | _ \<Rightarrow> param_str ps ''path'')"

fun touches_files :: "effect \<Rightarrow> bool" where
  "touches_files (Ran cmd args seconds) \<longleftrightarrow> False"
| "touches_files _ \<longleftrightarrow> True"

lemma validate_accepts:
  assumes "validateFilePath os path dirs = None"
  obtains ap rp d ad where "filepath_Abs (os_cwd os) (filepath_Clean path) = Some ap" "resolve_path os ap = Inr rp"
    "d \<in> set dirs" "filepath_Abs (os_cwd os) d = Some ad" "below ad rp" "''..'' \<notin> set (strings_Split path CHR ''/'')"
proof -
  from assms have p: "''..'' \<notin> set (strings_Split path CHR ''/'')"
    by (auto simp: validateFilePath_def split: if_splits)
  from assms obtain ap where ap: "filepath_Abs (os_cwd os) (filepath_Clean path) = Some ap"
    by (auto simp: validateFilePath_def split: if_splits option.splits)
  from assms ap obtain rp where rp: "resolve_path os ap = Inr rp"
    by (cases "resolve_path os ap") (auto simp: validateFilePath_def split: if_splits)
  from assms ap rp have "list_ex (\<lambda>dir. case filepath_Abs (os_cwd os) dir of None \<Rightarrow> False | Some absDir \<Rightarrow> below absDir rp) dirs"
    by (auto simp: validateFilePath_def split: if_splits)
  then obtain d ad where "d \<in> set dirs" "filepath_Abs (os_cwd os) d = Some ad" "below ad rp"
    by (auto simp: list_ex_iff split: option.splits)
  with that ap rp p show ?thesis by blast
qed

lemma resolve_cases:
  assumes "resolve_path os ap = Inr rp"
  shows "(os_Lstat os ap \<longrightarrow> os_EvalSymlinks os ap = Inr rp) \<and>
    (\<not> os_Lstat os ap \<longrightarrow>
       (case os_EvalSymlinks os (filepath_Dir ap) of
          Inr parent \<Rightarrow> rp = filepath_Join [parent, filepath_Base ap] | Inl err \<Rightarrow> rp = ap))"
  using assms by (auto simp: resolve_path_def split: if_splits sum.splits)

lemma file_effects_validated:
  assumes "tool_Execute os t ps = (effs, res)" "e \<in> set effs" "touches_files e"
  shows "\<exists>dirs. tool_dirs t = Some dirs \<and> effect_path e (tool_path t ps) \<and>
    validateFilePath os (tool_path t ps) dirs = None"
proof (cases t)
  case (ReadFileTool s)
  with assms show ?thesis
    by (auto simp: ReadFile_Execute_def tool_path_def Let_def split: option.splits if_splits sum.splits)
next
  case (WriteFileTool s)
  with assms show ?thesis
    by (auto simp: WriteFile_Execute_def tool_path_def Let_def split: option.splits if_splits)
next
  case (EditFileTool s)
  with assms show ?thesis
    by (auto simp: EditFile_Execute_def tool_path_def Let_def split: option.splits if_splits sum.splits)
next
  case (ListDirectoryTool s)
  with assms show ?thesis
    by (auto simp: ListDirectory_Execute_def tool_path_def Let_def split: option.splits if_splits sum.splits)
next
  case (RunCommandTool s)
  with assms show ?thesis
    by (auto simp: RunCommand_Execute_def tool_path_def Let_def split: option.splits if_splits prod.splits)
next
  case SearchCodeTool
  with assms show ?thesis
    by (auto simp: SearchCode_Execute_def tool_path_def Let_def split: option.splits if_splits prod.splits)
qed

text \<open>
  C29. Where the file tools reach. Whatever a built-in tool does to files concerns the one path given to
  it (the listing defaults to \<^verbatim>\<open>.\<close>): that path is read, written or listed, or its directory is created. Nothing of this happens, the
  creation of the directory included, unless the tool has configured directories and the path has no
  \<^verbatim>\<open>..\<close> element and, if it exists, resolves (all symbolic links followed) to one of these directories
  or a path below it. If it does not exist yet, its resolved parent is what is compared; and when not
  even the parent resolves, only the spelling of the path is, so the directories created for it may then
  lie behind a link.
\<close>

theorem file_tools_confined:
  assumes "tool_Execute os t ps = (effs, res)" "e \<in> set effs" "touches_files e"
  shows "\<exists>p dirs d ad ap. effect_path e p \<and> p = tool_path t ps \<and> tool_dirs t = Some dirs \<and> d \<in> set dirs \<and>
     filepath_Abs (os_cwd os) d = Some ad \<and> filepath_Abs (os_cwd os) (filepath_Clean p) = Some ap \<and> ''..'' \<notin> set (strings_Split p CHR ''/'') \<and>
     (if os_Lstat os ap then \<exists>rp. os_EvalSymlinks os ap = Inr rp \<and> below ad rp
      else case os_EvalSymlinks os (filepath_Dir ap) of
             Inr parent \<Rightarrow> below ad (filepath_Join [parent, filepath_Base ap])
           | Inl err \<Rightarrow> below ad ap)"
proof -
  let ?p = "tool_path t ps"
  from file_effects_validated [OF assms] obtain dirs where
    dirs: "tool_dirs t = Some dirs" "effect_path e ?p" "validateFilePath os ?p dirs = None" by blast
  from dirs(3) obtain ap rp d ad where
    v: "filepath_Abs (os_cwd os) (filepath_Clean ?p) = Some ap" "resolve_path os ap = Inr rp" "d \<in> set dirs"
      "filepath_Abs (os_cwd os) d = Some ad" "below ad rp" "''..'' \<notin> set (strings_Split ?p CHR ''/'')"
    by (rule validate_accepts)
  from resolve_cases [OF v(2)] v(5) have "if os_Lstat os ap then \<exists>rp. os_EvalSymlinks os ap = Inr rp \<and> below ad rp
      else case os_EvalSymlinks os (filepath_Dir ap) of
             Inr parent \<Rightarrow> below ad (filepath_Join [parent, filepath_Base ap])
           | Inl err \<Rightarrow> below ad ap" by (auto split: sum.splits)
  with dirs v show ?thesis by blast
qed

text \<open>
  A system with one allowed directory \<^verbatim>\<open>/srv\<close> that contains a link to \<^verbatim>\<open>/etc\<close>: the existing file
  behind the link is refused, a new file in a new directory behind it is not.
\<close>

definition demo_os :: os_env where
  "demo_os = \<lparr>os_cwd = Some ''/'', os_Lstat = (\<lambda>p. p \<in> set [''/srv'', ''/srv/a'', ''/srv/link'', ''/srv/link/passwd'']),
     os_Stat = (\<lambda>p. p \<in> set [''/srv'', ''/srv/a'', ''/srv/link'', ''/srv/link/passwd'']),
     os_EvalSymlinks = (\<lambda>p. if p = ''/srv/link'' then Inr ''/etc'' else if p = ''/srv/link/passwd'' then Inr ''/etc/passwd''
       else if p \<in> set [''/srv'', ''/srv/a''] then Inr p else Inl ''no such file''),
     os_ReadFile = (\<lambda>p. Inr ''data''), os_MkdirAll = (\<lambda>p. None), os_WriteFile = (\<lambda>p. None), os_ReadDir = (\<lambda>p. Inr []),
     os_run = (\<lambda>s a t. ([], None)), os_exit1 = (\<lambda>e. False), os_quote = (\<lambda>s. s)\<rparr>"

lemma demo_link_refused: "validateFilePath demo_os ''/srv/link/passwd'' [''/srv''] \<noteq> None"
  by code_simp

lemma demo_link_escape:
  "tool_Execute demo_os (WriteFileTool (Some [''/srv''])) [(''path'', JStr ''/srv/link/new/f''), (''content'', JStr ''x'')]
     = ([MadeDir ''/srv/link/new'', WroteF ''/srv/link/new/f'' ''x''], succeed ''Successfully wrote 1 bytes to /srv/link/new/f'')"
  by code_simp

theorem file_tools_confined_witness:
  "fst (tool_Execute demo_os (ReadFileTool (Some [''/srv''])) [(''path'', JStr ''/srv/a'')]) = [ReadF ''/srv/a''] \<and>
   (\<exists>rp. os_EvalSymlinks demo_os ''/srv/a'' = Inr rp \<and> below ''/srv'' rp)"
proof -
  have run: "tool_Execute demo_os (ReadFileTool (Some [''/srv''])) [(''path'', JStr ''/srv/a'')] = ([ReadF ''/srv/a''], succeed ''data'')"
    by code_simp
  have "filepath_Abs (os_cwd demo_os) ''/srv'' = Some ''/srv''" "filepath_Abs (os_cwd demo_os) (filepath_Clean ''/srv/a'') = Some ''/srv/a''"
    "os_Lstat demo_os ''/srv/a''" by code_simp+
  with file_tools_confined [OF run, of "ReadF ''/srv/a''"] run show ?thesis by auto
qed

subsection \<open>Commands\<close>

text \<open>What the policy looks at is the end of the command, behind what was stripped.\<close>

lemma strip_prefixes_suffix: "\<exists>a. command = a @ strip_prefixes command"
proof (induction command rule: strip_prefixes.induct)
  case (1 command)
  show ?case
  proof (cases "strings_HasPrefix command ''sudo ''")
    case True
    then obtain t where t: "command = ''sudo '' @ t" by auto
    then have "strings_TrimPrefix command ''sudo '' = t" by (simp add: strings_TrimPrefix_def)
    with 1(1) [OF True] obtain b where "t = b @ strip_prefixes t" by metis
    with t have "command = (''sudo '' @ b) @ strip_prefixes t" by simp
    moreover have "strip_prefixes command = strip_prefixes t"
      using True \<open>strings_TrimPrefix command ''sudo '' = t\<close> by (subst strip_prefixes.simps) simp
    ultimately show ?thesis by metis
  next
    case False
    show ?thesis
    proof (cases "strip_assignment command")
      case None
      with False show ?thesis by (subst strip_prefixes.simps) simp
    next
      case (Some rest)
      from strip_assignment_suffix [OF Some] obtain a where a: "command = a @ CHR '' '' # rest" by blast
      from 1(2) [OF False Some] obtain b where "rest = b @ strip_prefixes rest" by blast
      with a have "command = (a @ CHR '' '' # b) @ strip_prefixes rest" by simp
      with False Some show ?thesis by (subst strip_prefixes.simps) auto
    qed
  qed
qed

lemma reject_none: "rejectShellInjection command = None \<longleftrightarrow> list_all (\<lambda>tok. \<not> strings_Contains command tok) shell_tokens"
  by (auto simp: rejectShellInjection_def find_None_iff list_all_iff)

lemma validate_command_accepts:
  assumes "validateCommand command (Some sec) = None" "Allowlist sec \<noteq> []"
  shows "strings_Fields (strip_prefixes (strings_TrimSpace command)) \<noteq> [] \<and>
    filepath_Base (hd (strings_Fields (strip_prefixes (strings_TrimSpace command)))) \<in> set (Allowlist sec) - set (Blocklist sec) \<and>
    rejectShellInjection (strip_prefixes (strings_TrimSpace command)) = None"
  using assms by (auto simp: validateCommand_def Let_def split: if_splits)

text \<open>Plain words, and what the policy does with one.\<close>

definition plain_word :: "string \<Rightarrow> bool" where
  "plain_word w \<longleftrightarrow> w \<noteq> [] \<and> list_all (\<lambda>c. 97 \<le> (of_char c :: int) \<and> (of_char c :: int) \<le> 122) w"

lemma plain_char: "plain_word w \<Longrightarrow> c \<in> set w \<Longrightarrow> 97 \<le> (of_char c :: int) \<and> (of_char c :: int) \<le> 122"
  by (auto simp: plain_word_def list_all_iff)

lemma plain_not_in:
  assumes "plain_word w" "(of_char c :: int) < 97 \<or> 122 < (of_char c :: int)"
  shows "c \<notin> set w"
  using assms plain_char by fastforce

lemma plain_no_token:
  assumes "plain_word w" "c \<in> set tok" "(of_char c :: int) < 97 \<or> 122 < (of_char c :: int)"
  shows "\<not> strings_Contains w tok"
  using plain_not_in [OF assms(1,3)] assms(2) by (auto simp: Contains_iff)

lemma plain_fields:
  assumes "plain_word w"
  shows "strings_Fields w = [w]"
proof -
  have ns: "\<not> is_space c" if "c \<in> set w" for c
    using plain_char [OF assms that] by (auto simp: is_space_def)
  have "\<forall>c\<in>set v. \<not> is_space c \<Longrightarrow> v \<noteq> [] \<or> cur \<noteq> [] \<Longrightarrow> fields_from cur v = [rev cur @ v]" for v cur
    by (induction v arbitrary: cur) auto
  from this [of w "[]"] ns assms show ?thesis by (simp add: strings_Fields_def plain_word_def)
qed

lemma plain_base:
  assumes "plain_word w"
  shows "filepath_Base w = w"
proof -
  have sl: "CHR ''/'' \<notin> set w" by (rule plain_not_in [OF assms]) simp
  have nf: "last_index_from f i v ''/'' = f" if "CHR ''/'' \<notin> set v" for f i v
    using that by (induction v arbitrary: i) auto
  have d: "rev (dropWhile (\<lambda>c. c = CHR ''/'') (rev w)) = w"
  proof -
    have "rev w = [] \<or> hd (rev w) \<noteq> CHR ''/''" using sl by (metis hd_in_set set_rev)
    then have "dropWhile (\<lambda>c. c = CHR ''/'') (rev w) = rev w" by (simp add: dropWhile_eq_self_iff)
    then show ?thesis by simp
  qed
  from nf [OF sl] d assms show ?thesis
    by (simp add: filepath_Base_def strings_LastIndex_def Let_def plain_word_def)
qed

lemma plain_reject:
  assumes "plain_word w"
  shows "rejectShellInjection w = None"
proof -
  have "list_all (\<lambda>tok. tok \<noteq> [] \<and> ((of_char (hd tok) :: int) < 97 \<or> 122 < (of_char (hd tok) :: int))) shell_tokens"
    by code_simp
  then show ?thesis
    unfolding reject_none list_all_iff using plain_no_token [OF assms] hd_in_set by blast
qed

lemma plain_strip:
  assumes "plain_word w"
  shows "strip_prefixes w = w"
proof -
  have "\<not> strings_Contains w ''=''" by (rule plain_no_token [OF assms, of "CHR ''=''"]) simp_all
  then have "strip_assignment w = None" by (simp add: strip_assignment_def strings_Contains_def)
  moreover have "CHR '' '' \<notin> set w" by (rule plain_not_in [OF assms]) simp
  then have "\<not> strings_HasPrefix w ''sudo ''" by auto
  ultimately show ?thesis by (subst strip_prefixes.simps) simp
qed

text \<open>An assignment with a command substitution in front of an allowed word.\<close>

definition smuggled :: "string \<Rightarrow> string \<Rightarrow> string" where
  "smuggled payload w = ''X=$('' @ payload @ '') '' @ w"

lemma smuggled_trim:
  assumes "plain_word w"
  shows "strings_TrimSpace (smuggled payload w) = smuggled payload w"
proof -
  have "\<not> is_space (last w)" using assms plain_char [OF assms, of "last w"] by (auto simp: is_space_def plain_word_def)
  then have "dropWhile is_space (rev (smuggled payload w)) = rev (smuggled payload w)"
    using assms by (cases w rule: rev_cases) (auto simp: smuggled_def plain_word_def)
  moreover have "dropWhile is_space (smuggled payload w) = smuggled payload w"
    by (simp add: smuggled_def is_space_def)
  ultimately show ?thesis by (simp add: strings_TrimSpace_def)
qed

lemma smuggled_strip:
  assumes "plain_word w" "CHR '' '' \<notin> set payload"
  shows "strip_prefixes (smuggled payload w) = w"
proof -
  have i: "strings_Index (smuggled payload w) ''='' = 1"
    by (simp add: smuggled_def strings_Index_def)
  have sp: "strings_SplitN2 (smuggled payload w) CHR '' '' = [''X=$('' @ payload @ '')'', w]"
    using assms(2) by (simp add: strings_SplitN2_def smuggled_def takeWhile_append dropWhile_append)
  have "strip_assignment (smuggled payload w) = Some w"
    using i sp by (simp add: strip_assignment_def) (simp add: smuggled_def)
  moreover have "\<not> strings_HasPrefix (smuggled payload w) ''sudo ''" by (simp add: smuggled_def)
  ultimately show ?thesis using plain_strip [OF assms(1)] by (subst strip_prefixes.simps) simp
qed

text \<open>
  The command policy in allowlist mode. In a command that passes, what remains behind the stripped
  prefixes has an allowed, not blocked first word (without directory) and none of the shell metacharacters;
  but what is checked is only this part: for every allowed plain word and every payload without a space,
  the command \<^verbatim>\<open>X=$(payload) word\<close> passes and is handed to the shell whole, although its own text has
  the rejected token \<^verbatim>\<open>$(\<close>.
\<close>

theorem allowlist_checks_suffix_only:
  assumes "Allowlist sec \<noteq> []"
  shows "(validateCommand command (Some sec) = None \<longrightarrow>
           (let checked = strip_prefixes (strings_TrimSpace command)
            in strings_Fields checked \<noteq> [] \<and>
               filepath_Base (hd (strings_Fields checked)) \<in> set (Allowlist sec) - set (Blocklist sec) \<and>
               list_all (\<lambda>tok. \<not> strings_Contains checked tok) shell_tokens)) \<and>
    (plain_word w \<and> w \<in> set (Allowlist sec) - set (Blocklist sec) \<and> CHR '' '' \<notin> set payload \<longrightarrow>
       validateCommand (smuggled payload w) (Some sec) = None \<and> strings_Contains (smuggled payload w) ''$('' \<and>
       Ran ''sh'' [''-c'', smuggled payload w] 30 \<in>
         set (fst (RunCommand_Execute os (Some sec) [(''command'', JStr (smuggled payload w))])))"
proof (intro conjI impI)
  assume v: "validateCommand command (Some sec) = None"
  from validate_command_accepts [OF v assms] show "let checked = strip_prefixes (strings_TrimSpace command)
      in strings_Fields checked \<noteq> [] \<and> filepath_Base (hd (strings_Fields checked)) \<in> set (Allowlist sec) - set (Blocklist sec) \<and>
      list_all (\<lambda>tok. \<not> strings_Contains checked tok) shell_tokens"
    by (simp add: reject_none Let_def)
next
  assume *: "plain_word w \<and> w \<in> set (Allowlist sec) - set (Blocklist sec) \<and> CHR '' '' \<notin> set payload"
  have ne: "smuggled payload w \<noteq> []" by (simp add: smuggled_def)
  show v: "validateCommand (smuggled payload w) (Some sec) = None"
    using * assms ne by (simp add: validateCommand_def smuggled_trim smuggled_strip plain_fields plain_base plain_reject Let_def)
  show "strings_Contains (smuggled payload w) ''$(''"
    unfolding Contains_iff smuggled_def by (intro exI [of _ "''X=''"] exI [of _ "payload @ '') '' @ w"]) simp
  show "Ran ''sh'' [''-c'', smuggled payload w] 30 \<in>
         set (fst (RunCommand_Execute os (Some sec) [(''command'', JStr (smuggled payload w))]))"
    using v ne by (simp add: RunCommand_Execute_def param_str_def run_timeout_def shellCommand_def Let_def split: prod.splits)
qed

theorem allowlist_checks_suffix_only_witness:
  "Ran ''sh'' [''-c'', ''X=$(reboot) git''] 30 \<in>
     set (fst (RunCommand_Execute demo_os (Some \<lparr>Blocklist = [''rm''], Allowlist = [''git'']\<rparr>) [(''command'', JStr ''X=$(reboot) git'')]))"
proof -
  have "plain_word ''git''" by code_simp
  with allowlist_checks_suffix_only [of "\<lparr>Blocklist = [''rm''], Allowlist = [''git'']\<rparr>" "[]" "''git''" "''reboot''" demo_os]
  show ?thesis by (simp add: smuggled_def)
qed

subsection \<open>How the agent sees a refusal\<close>

text \<open>The agent of the server: its tools are the built-in ones, run on the operating system.\<close>

definition runs_builtins :: "(nat \<Rightarrow> os_env) \<Rightarrow> (builtin, 'r) agent_env \<Rightarrow> bool" where
  "runs_builtins os env \<longleftrightarrow>
     (\<forall>i t ps. ae_execute env i t ps = Inr (snd (tool_Execute (os i) t ps)) \<and>
               ae_requires env i t ps = tool_RequiresHITL (os i) t ps)"

lemma server_lookup:
  "tools_Get name server_tools = Some tool1 \<Longrightarrow> name \<noteq> ''search_code'' \<Longrightarrow>
   tl_impl tool1 \<in> {ReadFileTool None, WriteFileTool None, EditFileTool None, ListDirectoryTool None, RunCommandTool None}"
  by (auto simp: server_tools_def register_builtin_def Register_def NewToolRegistry_def tools_Get_def split: if_splits)

lemma unconfigured_refuses:
  "t \<in> {ReadFileTool None, WriteFileTool None, EditFileTool None, ListDirectoryTool None, RunCommandTool None} \<Longrightarrow>
   fst (tool_Execute os t ps) = [] \<and> \<not> tr_Success (snd (tool_Execute os t ps)) \<and> tr_Output (snd (tool_Execute os t ps)) = []"
  by (elim insertE emptyE)
    (simp_all add: ReadFile_Execute_def WriteFile_Execute_def EditFile_Execute_def ListDirectory_Execute_def
      RunCommand_Execute_def validateCommand_def fail_def Let_def)

text \<open>
  With the registry the server builds, every registered tool but the code search refuses every
  call and touches nothing, since it has no security configuration; and the agent records the step as
  completed without an error, with an empty result, because it looks at the error of the call only and
  the tools report failures in their result.
\<close>

theorem refused_tools_complete:
  assumes "runs_builtins os env" "ag_tools a = server_tools" "tools_Get (ps_Tool step) server_tools = Some tool1"
    "ps_Tool step \<noteq> ''search_code''"
  shows "fst (tool_Execute (os i) (tl_impl tool1) (ps_Params step)) = [] \<and>
    \<not> tr_Success (snd (tool_Execute (os i) (tl_impl tool1) (ps_Params step))) \<and>
    sp_Status (snd (executeStep env i step a)) = ''completed'' \<and>
    sp_Error (snd (executeStep env i step a)) = [] \<and> sp_Result (snd (executeStep env i step a)) = []"
  using assms unconfigured_refuses [OF server_lookup [OF assms(3,4)], of "os i" "ps_Params step"]
  by (simp add: executeStep_def runs_builtins_def Let_def)

definition demo_builtin_env :: "(builtin, unit) agent_env" where
  "demo_builtin_env = \<lparr>ae_clk = \<lambda>n k. 0, ae_done = \<lambda>n. False, ae_order = \<lambda>n. [], ae_requires = \<lambda>i. tool_RequiresHITL demo_os,
     ae_execute = \<lambda>i t ps. Inr (snd (tool_Execute demo_os t ps)), ae_submit = \<lambda>i e. Inl ''none'',
     ae_chat = \<lambda>i t r. (r, Inl ''none''), ae_stream = \<lambda>i t r. (r, Inl ''none''), ae_recall = \<lambda>u q l. None,
     ae_unmarshal = \<lambda>s. None, ae_marshal = \<lambda>x. [], ae_fmt4 = \<lambda>x. []\<rparr>"

definition demo_step :: PlanStep where
  "demo_step = \<lparr>ps_Index = 0, ps_Tool = ''run_command'', ps_Description = ''run'', ps_Params = [(''command'', JStr ''ls'')]\<rparr>"

theorem refused_tools_complete_witness:
  "sp_Status (snd (executeStep demo_builtin_env 0 demo_step (NewAgent () server_tools))) = ''completed''"
proof -
  obtain tool1 where tool1: "tools_Get ''run_command'' server_tools = Some tool1"
    by (simp add: server_tools_def register_builtin_def Register_def NewToolRegistry_def tools_Get_def)
  have "runs_builtins (\<lambda>i. demo_os) demo_builtin_env"
    by (simp add: runs_builtins_def demo_builtin_env_def)
  with refused_tools_complete [of "\<lambda>i. demo_os" demo_builtin_env "NewAgent () server_tools" demo_step tool1 0] tool1
  show ?thesis by (simp add: NewAgent_def demo_step_def)
qed

end
