(* ===== verification/Idempotency.thy ===== *)
theory Idempotency
  imports Http
begin

text \<open>
  Request deduplication by idempotency key, in its two implementations:
  \<^verbatim>\<open>internal/idempotency/idempotency.go\<close> (a \<^verbatim>\<open>Store\<close> for every method, wired by
  \<^verbatim>\<open>setupResilienceMiddleware\<close>) and \<^verbatim>\<open>internal/middleware/idempotency.go\<close> (for POST requests, keyed by the
  SHA-256 of the header).

  Both handle a request in the same critical sections: one that decides (\<open>begin\<close>: replay, wait for the
  request in flight, or reserve the key and run the handler), one that records the answer of the handler
  (\<open>finish\<close>), and the looks of the waiting loop (\<open>peek\<close>). The locale \<open>idempotent_requests\<close> states what these
  promise; goroutines interleave in the step relation \<open>idem_step\<close>, and the guarantee is proved once there.

  The order in which a map is iterated when the oldest entry is evicted is an argument.
\<close>

subsection \<open>Entries and decisions\<close>

record answer =
  an_statusCode :: int
  an_body :: string
  an_headers :: Header

record idem_entry =
  ie_answer :: answer
  ie_createdAt :: gotime
  ie_processing :: bool

datatype decision = D_run | D_wait | D_replay answer

definition zero_answer :: answer where
  "zero_answer = \<lparr>an_statusCode = 0, an_body = [], an_headers = []\<rparr>"

type_synonym idem_map = "(string, idem_entry) gomap"

text \<open>The scan for the oldest entry: the first key in iteration order with the least creation time.\<close>

definition oldest_step :: "idem_map \<Rightarrow> string \<Rightarrow> string \<times> gotime \<Rightarrow> string \<times> gotime" where
  "oldest_step m key acc =
     (case gget m key of
        None \<Rightarrow> acc
      | Some e \<Rightarrow> if fst acc = [] \<or> ie_createdAt e < snd acc then (key, ie_createdAt e) else acc)"

definition evict_oldest :: "string list \<Rightarrow> idem_map \<Rightarrow> idem_map" where
  "evict_oldest ord m =
     (let oldestKey = fst (fold (oldest_step m) ord ([], zero_time))
      in if oldestKey \<noteq> [] then gdel oldestKey m else m)"

subsection \<open>The store of \<^verbatim>\<open>internal/idempotency\<close>\<close>

record IdemConfig =
  ic_KeyHeader :: string
  ic_MaxAge :: duration
  ic_MaxEntries :: int

definition DefaultIdemConfig :: IdemConfig where
  "DefaultIdemConfig = \<lparr>ic_KeyHeader = ''Idempotency-Key'', ic_MaxAge = 24 * Hour, ic_MaxEntries = 10000\<rparr>"

record IdemStore =
  st_entries :: idem_map
  st_config :: IdemConfig

definition NewStore :: "IdemConfig \<Rightarrow> IdemStore" where
  "NewStore cfg = \<lparr>st_entries = [], st_config = cfg\<rparr>"

definition st_Get :: "gotime \<Rightarrow> string \<Rightarrow> IdemStore \<Rightarrow> idem_entry option" where
  "st_Get now key s =
     (case gget (st_entries s) key of
        None \<Rightarrow> None
      | Some e \<Rightarrow> if ic_MaxAge (st_config s) < time_Since now (ie_createdAt e) then None else Some e)"

definition st_room :: "string list \<Rightarrow> IdemStore \<Rightarrow> idem_map" where
  "st_room ord s =
     (if ic_MaxEntries (st_config s) \<le> glen (st_entries s) then evict_oldest ord (st_entries s) else st_entries s)"

definition st_Set :: "gotime \<Rightarrow> string list \<Rightarrow> string \<Rightarrow> answer \<Rightarrow> IdemStore \<Rightarrow> IdemStore" where
  "st_Set now ord key a s =
     s\<lparr>st_entries := gput key \<lparr>ie_answer = a, ie_createdAt = now, ie_processing = False\<rparr> (st_room ord s)\<rparr>"

definition st_Delete :: "string \<Rightarrow> IdemStore \<Rightarrow> IdemStore" where
  "st_Delete key s = s\<lparr>st_entries := gdel key (st_entries s)\<rparr>"

definition st_Cleanup :: "gotime \<Rightarrow> IdemStore \<Rightarrow> IdemStore \<times> int" where
  "st_Cleanup now s =
     (let kept = gfilter (\<lambda>k e. \<not> ic_MaxAge (st_config s) < time_Since now (ie_createdAt e)) (st_entries s)
      in (s\<lparr>st_entries := kept\<rparr>, glen (st_entries s) - glen kept))"

definition st_Size :: "IdemStore \<Rightarrow> int" where
  "st_Size s = glen (st_entries s)"

text \<open>The first critical section of \<^verbatim>\<open>Middleware\<close>; \<open>now'\<close> is read when the key is reserved.\<close>

definition st_begin :: "gotime \<Rightarrow> gotime \<Rightarrow> string list \<Rightarrow> string \<Rightarrow> IdemStore \<Rightarrow> IdemStore \<times> decision" where
  "st_begin now now' ord key s =
     (let reserve = (s\<lparr>st_entries := gput key \<lparr>ie_answer = zero_answer, ie_createdAt = now', ie_processing = True\<rparr> (st_room ord s)\<rparr>, D_run)
      in case gget (st_entries s) key of
           None \<Rightarrow> reserve
         | Some e \<Rightarrow>
             if time_Since now (ie_createdAt e) \<le> ic_MaxAge (st_config s)
             then (s, if ie_processing e then D_wait else D_replay (ie_answer e))
             else reserve)"

definition st_finish :: "gotime \<Rightarrow> string \<Rightarrow> answer \<Rightarrow> IdemStore \<Rightarrow> IdemStore" where
  "st_finish now key a s =
     s\<lparr>st_entries := gput key \<lparr>ie_answer = a, ie_createdAt = now, ie_processing = False\<rparr> (st_entries s)\<rparr>"

text \<open>One look of \<^verbatim>\<open>waitForCompletion\<close>: the answer to replay, if it is there.\<close>

definition st_peek :: "gotime \<Rightarrow> string \<Rightarrow> IdemStore \<Rightarrow> answer option" where
  "st_peek now key s =
     (case gget (st_entries s) key of
        None \<Rightarrow> None
      | Some e \<Rightarrow>
          if \<not> ie_processing e \<and> time_Since now (ie_createdAt e) \<le> ic_MaxAge (st_config s) then Some (ie_answer e) else None)"

text \<open>
  The recorder keeps the first megabyte of what is written. \<open>rw_skipped\<close> stops it once something
  did not fit.
\<close>

definition MaxBodySize :: int where
  "MaxBodySize = 2 ^ 20"

record rec_body =
  rw_body :: string
  rw_skipped :: bool

definition rw_Write :: "string \<Rightarrow> rec_body \<Rightarrow> rec_body" where
  "rw_Write b rw =
     (if rw_skipped rw then rw
      else let remaining = MaxBodySize - int (length (rw_body rw)) in
        if remaining \<le> 0 then rw\<lparr>rw_skipped := True\<rparr>
        else if remaining < int (length b)
        then rw\<lparr>rw_body := rw_body rw @ take (nat remaining) b, rw_skipped := True\<rparr>
        else rw\<lparr>rw_body := rw_body rw @ b\<rparr>)"

definition recorded :: "string list \<Rightarrow> string" where
  "recorded writes = rw_body (fold rw_Write writes \<lparr>rw_body = [], rw_skipped = False\<rparr>)"

definition replay_response :: "answer \<Rightarrow> Response" where
  "replay_response a =
     \<lparr>rs_Status = an_statusCode a, rs_Header = header_Set ''Idempotent-Replayed'' ''true'' (an_headers a),
      rs_Body = an_body a, rs_HeaderWritten = True\<rparr>"

text \<open>
  The middleware when nothing else is going on: the response, and what is stored. A request that finds
  its key in flight waits; what the wait ends with is \<open>waited\<close> (nothing is written on a timeout).
\<close>

definition idem_Middleware ::
    "gotime \<Rightarrow> gotime \<Rightarrow> gotime \<Rightarrow> string list \<Rightarrow> answer option \<Rightarrow> 's handler \<Rightarrow> Request \<Rightarrow> IdemStore \<times> 's \<Rightarrow> (IdemStore \<times> 's) \<times> Response" where
  "idem_Middleware now now' now'' ord waited next r ss =
     (let (st, s) = ss; key = rq_Header r (ic_KeyHeader (st_config st)) in
      if key = [] then (let (s', rs) = next r s in ((st, s'), rs))
      else case st_begin now now' ord key st of
             (st', D_replay a) \<Rightarrow> ((st', s), replay_response a)
           | (st', D_wait) \<Rightarrow>
               ((st', s), case waited of
                            Some a \<Rightarrow> replay_response a
                          | None \<Rightarrow> \<lparr>rs_Status = 200, rs_Header = [], rs_Body = [], rs_HeaderWritten = False\<rparr>)
           | (st', D_run) \<Rightarrow>
               let (s', rs) = next r s in
               ((st_finish now'' key \<lparr>an_statusCode = rs_Status rs, an_body = recorded [rs_Body rs], an_headers = rs_Header rs\<rparr> st', s'), rs))"

subsection \<open>The middleware of \<^verbatim>\<open>internal/middleware\<close>\<close>

definition maxCacheEntries :: int where
  "maxCacheEntries = 10000"

record IdempotencyMiddleware =
  im_cache :: idem_map
  im_ttl :: duration

definition NewIdempotencyMiddleware :: "duration \<Rightarrow> IdempotencyMiddleware" where
  "NewIdempotencyMiddleware ttl = \<lparr>im_cache = [], im_ttl = ttl\<rparr>"

definition im_begin :: "gotime \<Rightarrow> gotime \<Rightarrow> string list \<Rightarrow> string \<Rightarrow> IdempotencyMiddleware \<Rightarrow> IdempotencyMiddleware \<times> decision" where
  "im_begin now now' ord key m =
     (let room = (if maxCacheEntries \<le> glen (im_cache m) then evict_oldest ord (im_cache m) else im_cache m);
          reserve = (m\<lparr>im_cache := gput key \<lparr>ie_answer = zero_answer, ie_createdAt = now', ie_processing = True\<rparr> room\<rparr>, D_run)
      in case gget (im_cache m) key of
           None \<Rightarrow> reserve
         | Some e \<Rightarrow>
             if time_Since now (ie_createdAt e) < im_ttl m
             then (m, if ie_processing e then D_wait else D_replay (ie_answer e))
             else reserve)"

definition im_finish :: "gotime \<Rightarrow> string \<Rightarrow> answer \<Rightarrow> IdempotencyMiddleware \<Rightarrow> IdempotencyMiddleware" where
  "im_finish now key a m =
     m\<lparr>im_cache := gput key \<lparr>ie_answer = a, ie_createdAt = now, ie_processing = False\<rparr> (im_cache m)\<rparr>"

definition im_peek :: "gotime \<Rightarrow> string \<Rightarrow> IdempotencyMiddleware \<Rightarrow> answer option" where
  "im_peek now key m =
     (case gget (im_cache m) key of
        None \<Rightarrow> None
      | Some e \<Rightarrow> if \<not> ie_processing e \<and> time_Since now (ie_createdAt e) < im_ttl m then Some (ie_answer e) else None)"

definition im_cleanup :: "gotime \<Rightarrow> IdempotencyMiddleware \<Rightarrow> IdempotencyMiddleware" where
  "im_cleanup now m = m\<lparr>im_cache := gfilter (\<lambda>k e. \<not> im_ttl m < time_Since now (ie_createdAt e)) (im_cache m)\<rparr>"

definition im_conflict :: "Response" where
  "im_conflict =
     \<lparr>rs_Status = 409, rs_Header = [(''Content-Type'', [''application/json; charset=utf-8''])],
      rs_Body = ''request with this idempotency key is still processing'', rs_HeaderWritten = True\<rparr>"

definition AsMiddleware ::
    "(string \<Rightarrow> string) \<Rightarrow> gotime \<Rightarrow> gotime \<Rightarrow> gotime \<Rightarrow> string list \<Rightarrow> answer option \<Rightarrow> 's handler \<Rightarrow> Request \<Rightarrow>
     IdempotencyMiddleware \<times> 's \<Rightarrow> (IdempotencyMiddleware \<times> 's) \<times> Response" where
  "AsMiddleware sha256 now now' now'' ord waited next r ms =
     (let (m, s) = ms; pass = (let (s', rs) = next r s in ((m, s'), rs));
          replay = (\<lambda>a. \<lparr>rs_Status = an_statusCode a, rs_Header = header_Set ''Idempotency-Replayed'' ''true'' (an_headers a),
                         rs_Body = an_body a, rs_HeaderWritten = True\<rparr>)
      in if rq_Method r \<noteq> ''POST'' then pass
         else let key = rq_Header r ''Idempotency-Key'' in
           if key = [] then pass
           else case im_begin now now' ord (sha256 key) m of
                  (m', D_replay a) \<Rightarrow> ((m', s), replay a)
                | (m', D_wait) \<Rightarrow> ((m', s), case waited of Some a \<Rightarrow> replay a | None \<Rightarrow> im_conflict)
                | (m', D_run) \<Rightarrow>
                    let (s', rs) = next r s in
                    ((im_finish now'' (sha256 key) \<lparr>an_statusCode = rs_Status rs, an_body = rs_Body rs, an_headers = rs_Header rs\<rparr> m', s'), rs))"

subsection \<open>Interleavings\<close>

text \<open>
  Goroutines that handle requests at the same time. \<open>sy_running\<close>: keys whose handler is running;
  \<open>sy_waiting\<close>: keys somebody waits for; \<open>sy_starts\<close>: every start of a handler; \<open>sy_answers\<close>: what each
  finished handler answered; \<open>sy_replays\<close>: what was replayed instead of running one.
\<close>

record 's idem_sys =
  sy_store :: 's
  sy_running :: "string list"
  sy_waiting :: "string list"
  sy_starts :: "string list"
  sy_answers :: "(string \<times> answer) list"
  sy_replays :: "(string \<times> answer) list"

definition idem_init :: "'s \<Rightarrow> 's idem_sys" where
  "idem_init s = \<lparr>sy_store = s, sy_running = [], sy_waiting = [], sy_starts = [], sy_answers = [], sy_replays = []\<rparr>"

text \<open>The steps, all clock readings within \<open>t0 .. t1\<close> and all keys in \<open>K\<close>.\<close>

inductive idem_step ::
  "(gotime \<Rightarrow> gotime \<Rightarrow> string list \<Rightarrow> string \<Rightarrow> 's \<Rightarrow> 's \<times> decision) \<Rightarrow> (gotime \<Rightarrow> string \<Rightarrow> answer \<Rightarrow> 's \<Rightarrow> 's) \<Rightarrow>
   (gotime \<Rightarrow> string \<Rightarrow> 's \<Rightarrow> answer option) \<Rightarrow> (gotime \<Rightarrow> 's \<Rightarrow> 's) \<Rightarrow> gotime \<Rightarrow> gotime \<Rightarrow> string set \<Rightarrow>
   's idem_sys \<Rightarrow> 's idem_sys \<Rightarrow> bool"
  for ibegin ifinish ipeek isweep t0 t1 K where
  start: "ibegin now now' ord k (sy_store y) = (s', D_run) \<Longrightarrow> k \<in> K \<Longrightarrow> {now, now'} \<subseteq> {t0..t1} \<Longrightarrow>
    idem_step ibegin ifinish ipeek isweep t0 t1 K y
      (y\<lparr>sy_store := s', sy_running := k # sy_running y, sy_starts := sy_starts y @ [k]\<rparr>)"
| replay: "ibegin now now' ord k (sy_store y) = (s', D_replay a) \<Longrightarrow> k \<in> K \<Longrightarrow> {now, now'} \<subseteq> {t0..t1} \<Longrightarrow>
    idem_step ibegin ifinish ipeek isweep t0 t1 K y (y\<lparr>sy_store := s', sy_replays := sy_replays y @ [(k, a)]\<rparr>)"
| wait: "ibegin now now' ord k (sy_store y) = (s', D_wait) \<Longrightarrow> k \<in> K \<Longrightarrow> {now, now'} \<subseteq> {t0..t1} \<Longrightarrow>
    idem_step ibegin ifinish ipeek isweep t0 t1 K y (y\<lparr>sy_store := s', sy_waiting := k # sy_waiting y\<rparr>)"
| finish: "k \<in> set (sy_running y) \<Longrightarrow> now \<in> {t0..t1} \<Longrightarrow>
    idem_step ibegin ifinish ipeek isweep t0 t1 K y
      (y\<lparr>sy_store := ifinish now k a (sy_store y), sy_running := remove1 k (sy_running y), sy_answers := sy_answers y @ [(k, a)]\<rparr>)"
| woken: "k \<in> set (sy_waiting y) \<Longrightarrow> ipeek now k (sy_store y) = Some a \<Longrightarrow> now \<in> {t0..t1} \<Longrightarrow>
    idem_step ibegin ifinish ipeek isweep t0 t1 K y
      (y\<lparr>sy_waiting := remove1 k (sy_waiting y), sy_replays := sy_replays y @ [(k, a)]\<rparr>)"
| timeout: "k \<in> set (sy_waiting y) \<Longrightarrow>
    idem_step ibegin ifinish ipeek isweep t0 t1 K y (y\<lparr>sy_waiting := remove1 k (sy_waiting y)\<rparr>)"
| sweep: "now \<in> {t0..t1} \<Longrightarrow>
    idem_step ibegin ifinish ipeek isweep t0 t1 K y (y\<lparr>sy_store := isweep now (sy_store y)\<rparr>)"

text \<open>The invariant: the store knows exactly which keys were started, and what they answered.\<close>

definition idem_inv :: "idem_map \<Rightarrow> gotime \<Rightarrow> gotime \<Rightarrow> string set \<Rightarrow> 's idem_sys \<Rightarrow> bool" where
  "idem_inv m t0 t1 K y \<longleftrightarrow>
     wf_gomap m \<and> set (sy_starts y) \<subseteq> K \<and> distinct (sy_starts y) \<and> distinct (sy_running y) \<and> distinct (map fst (sy_answers y)) \<and>
     (\<forall>k. gget m k = None \<longleftrightarrow> k \<notin> set (sy_starts y)) \<and>
     (\<forall>k e. gget m k = Some e \<longrightarrow> ie_createdAt e \<in> {t0..t1} \<and> (ie_processing e \<longleftrightarrow> k \<in> set (sy_running y)) \<and>
              (\<not> ie_processing e \<longrightarrow> (k, ie_answer e) \<in> set (sy_answers y))) \<and>
     set (sy_running y) \<subseteq> set (sy_starts y) \<and> fst ` set (sy_answers y) \<subseteq> set (sy_starts y) - set (sy_running y) \<and>
     set (sy_replays y) \<subseteq> set (sy_answers y)"

locale idempotent_requests =
  fixes ibegin :: "gotime \<Rightarrow> gotime \<Rightarrow> string list \<Rightarrow> string \<Rightarrow> 's \<Rightarrow> 's \<times> decision"
    and ifinish :: "gotime \<Rightarrow> string \<Rightarrow> answer \<Rightarrow> 's \<Rightarrow> 's"
    and ipeek :: "gotime \<Rightarrow> string \<Rightarrow> 's \<Rightarrow> answer option"
    and isweep :: "gotime \<Rightarrow> 's \<Rightarrow> 's"
    and entries :: "'s \<Rightarrow> idem_map"
    and window :: "'s \<Rightarrow> duration"
    and capacity :: "'s \<Rightarrow> int"
  assumes begin_live: "gget (entries s) k = Some e \<Longrightarrow> time_Since now (ie_createdAt e) < window s \<Longrightarrow>
          ibegin now now' ord k s = (s, if ie_processing e then D_wait else D_replay (ie_answer e))"
    and begin_new: "gget (entries s) k = None \<Longrightarrow> glen (entries s) < capacity s \<Longrightarrow>
          \<exists>s'. ibegin now now' ord k s = (s', D_run) \<and> window s' = window s \<and> capacity s' = capacity s \<and>
               entries s' = gput k \<lparr>ie_answer = zero_answer, ie_createdAt = now', ie_processing = True\<rparr> (entries s)"
    and finish_entries: "entries (ifinish now k a s) =
          gput k \<lparr>ie_answer = a, ie_createdAt = now, ie_processing = False\<rparr> (entries s)"
    and finish_params: "window (ifinish now k a s) = window s" "capacity (ifinish now k a s) = capacity s"
    and peek_some: "ipeek now k s = Some a \<Longrightarrow> \<exists>e. gget (entries s) k = Some e \<and> \<not> ie_processing e \<and> ie_answer e = a"
    and sweep_live: "wf_gomap (entries s) \<Longrightarrow>
          (\<And>k e. gget (entries s) k = Some e \<Longrightarrow> time_Since now (ie_createdAt e) < window s) \<Longrightarrow>
          entries (isweep now s) = entries s"
    and sweep_params: "window (isweep now s) = window s" "capacity (isweep now s) = capacity s"
begin

abbreviation "step \<equiv> idem_step ibegin ifinish ipeek isweep"

definition "sys_inv t0 t1 K d c y \<longleftrightarrow>
  idem_inv (entries (sy_store y)) t0 t1 K y \<and> window (sy_store y) = d \<and> capacity (sy_store y) = c"

lemma in_window: "t1 - t0 < d \<Longrightarrow> d < max_duration \<Longrightarrow> now \<in> {t0..t1} \<Longrightarrow> c \<in> {t0..t1} \<Longrightarrow> time_Since now c < d"
  by (auto simp: time_defs)

lemma room_left:
  assumes "idem_inv m t0 t1 K y" "finite K" "int (card K) \<le> c" "k \<in> K" "gget m k = None"
  shows "glen m < c"
proof -
  have "wf_gomap m" "set (gkeys m) = set (sy_starts y)" "set (sy_starts y) \<subseteq> K" "k \<notin> set (sy_starts y)"
    using assms(1,5) by (auto simp: idem_inv_def set_gkeys)
  moreover from this have "card (set (gkeys m)) < card K" using assms(2,4) by (intro psubset_card_mono) auto
  ultimately show ?thesis
    using assms(3) distinct_card [of "gkeys m"] by (auto simp: glen_def wf_gomap_def gkeys_def)
qed

lemma step_inv:
  assumes "step t0 t1 K y y'" "sys_inv t0 t1 K d c y" "finite K" "int (card K) \<le> c" "t1 - t0 < d" "d < max_duration"
  shows "sys_inv t0 t1 K d c y'"
  using assms(1)
proof cases
  case (start now now' ord k s')
  note inv = assms(2) [unfolded sys_inv_def]
  have none: "gget (entries (sy_store y)) k = None"
  proof (rule ccontr)
    assume "gget (entries (sy_store y)) k \<noteq> None"
    then obtain e where e: "gget (entries (sy_store y)) k = Some e" by auto
    with inv have "ie_createdAt e \<in> {t0..t1}" by (auto simp: idem_inv_def)
    with begin_live [OF e, of now now' ord] in_window [of t1 t0 d now] assms(5,6) start inv show False by (auto split: if_splits)
  qed
  from begin_new [OF none, of now now' ord] room_left [OF _ assms(3,4) _ none] start inv have
    "entries s' = gput k \<lparr>ie_answer = zero_answer, ie_createdAt = now', ie_processing = True\<rparr> (entries (sy_store y))"
    "window s' = d" "capacity s' = c" by auto
  moreover have "k \<notin> set (sy_starts y)" using none inv by (auto simp: idem_inv_def)
  ultimately show ?thesis using start inv unfolding sys_inv_def idem_inv_def
    by (auto split: if_splits)
next
  case (finish k now a)
  then show ?thesis using assms(2) unfolding sys_inv_def idem_inv_def
    by (auto simp: finish_entries finish_params split: if_splits)
next
  case (woken k now a)
  from peek_some [OF woken(3)] obtain e where "gget (entries (sy_store y)) k = Some e" "\<not> ie_processing e" "ie_answer e = a" by blast
  then show ?thesis using assms(2) woken unfolding sys_inv_def idem_inv_def by auto
next
  case (timeout k)
  then show ?thesis using assms(2) unfolding sys_inv_def idem_inv_def by auto
next
  case (sweep now)
  from assms(2) have "entries (isweep now (sy_store y)) = entries (sy_store y)"
    using in_window [of t1 t0 d now] sweep(2) assms(5,6) by (intro sweep_live) (auto simp: sys_inv_def idem_inv_def)
  then show ?thesis using assms(2) sweep unfolding sys_inv_def idem_inv_def by (auto simp: sweep_params)
next
  case (replay now now' ord k s' a)
  note inv = assms(2) [unfolded sys_inv_def]
  have "gget (entries (sy_store y)) k \<noteq> None"
    using begin_new [of "sy_store y" k now now' ord] room_left [of "entries (sy_store y)" t0 t1 K y c k] assms(3,4) inv replay by auto
  then obtain e where e: "gget (entries (sy_store y)) k = Some e" by auto
  with inv have "ie_createdAt e \<in> {t0..t1}" by (auto simp: idem_inv_def)
  with begin_live [OF e, of now now' ord] in_window [of t1 t0 d now] assms(5,6) replay inv
  have "s' = sy_store y" "\<not> ie_processing e" "a = ie_answer e" by (auto split: if_splits)
  with e inv replay show ?thesis unfolding sys_inv_def idem_inv_def by auto
next
  case (wait now now' ord k s')
  note inv = assms(2) [unfolded sys_inv_def]
  have "gget (entries (sy_store y)) k \<noteq> None"
    using begin_new [of "sy_store y" k now now' ord] room_left [of "entries (sy_store y)" t0 t1 K y c k] assms(3,4) inv wait by auto
  then obtain e where e: "gget (entries (sy_store y)) k = Some e" by auto
  with inv have "ie_createdAt e \<in> {t0..t1}" by (auto simp: idem_inv_def)
  with begin_live [OF e, of now now' ord] in_window [of t1 t0 d now] assms(5,6) wait inv
  have "s' = sy_store y" by (auto split: if_splits)
  with inv wait show ?thesis unfolding sys_inv_def idem_inv_def by auto
qed

text \<open>At most one run per key, and every replay repeats the answer of that run.\<close>

lemma at_most_once:
  assumes "(step t0 t1 K)\<^sup>*\<^sup>* (idem_init s) y" "entries s = []" "finite K" "int (card K) \<le> capacity s"
    "t1 - t0 < window s" "window s < max_duration"
  shows "distinct (sy_starts y) \<and> distinct (map fst (sy_answers y)) \<and> set (sy_replays y) \<subseteq> set (sy_answers y) \<and>
     fst ` set (sy_answers y) \<subseteq> set (sy_starts y)"
proof -
  have "sys_inv t0 t1 K (window s) (capacity s) y"
    using assms(1)
  proof (induction rule: rtranclp_induct)
    case base
    show ?case using assms(2) by (simp add: sys_inv_def idem_inv_def idem_init_def)
  next
    case (step y z)
    then show ?case using step_inv [OF step(2)] assms by blast
  qed
  then show ?thesis by (auto simp: sys_inv_def idem_inv_def)
qed

end

subsection \<open>Both implementations keep the contract\<close>

interpretation idem_store: idempotent_requests st_begin st_finish st_peek "\<lambda>now s. fst (st_Cleanup now s)" st_entries
  "\<lambda>s. ic_MaxAge (st_config s)" "\<lambda>s. ic_MaxEntries (st_config s)"
proof unfold_locales
  fix s :: IdemStore and k now a
  assume "st_peek now k s = Some a"
  then show "\<exists>e. gget (st_entries s) k = Some e \<and> \<not> ie_processing e \<and> ie_answer e = a"
    by (auto simp: st_peek_def split: option.splits if_splits)
next
  fix s :: IdemStore and now
  assume "wf_gomap (st_entries s)"
    and "\<And>k e. gget (st_entries s) k = Some e \<Longrightarrow> time_Since now (ie_createdAt e) < ic_MaxAge (st_config s)"
  then have "(k, e) \<in> set (st_entries s) \<Longrightarrow> \<not> ic_MaxAge (st_config s) < time_Since now (ie_createdAt e)" for k e
    by (force simp: gget_def wf_gomap_def gkeys_def intro: map_of_is_SomeI)
  then show "st_entries (fst (st_Cleanup now s)) = st_entries s"
    by (auto simp: st_Cleanup_def gfilter_def Let_def filter_id_conv)
qed (auto simp: st_begin_def st_finish_def st_room_def st_Cleanup_def Let_def)

interpretation idem_post: idempotent_requests im_begin im_finish im_peek im_cleanup im_cache im_ttl "\<lambda>m. maxCacheEntries"
proof unfold_locales
  fix s :: IdempotencyMiddleware and k now a
  assume "im_peek now k s = Some a"
  then show "\<exists>e. gget (im_cache s) k = Some e \<and> \<not> ie_processing e \<and> ie_answer e = a"
    by (auto simp: im_peek_def split: option.splits if_splits)
next
  fix s :: IdempotencyMiddleware and now
  assume "wf_gomap (im_cache s)"
    and "\<And>k e. gget (im_cache s) k = Some e \<Longrightarrow> time_Since now (ie_createdAt e) < im_ttl s"
  then have "(k, e) \<in> set (im_cache s) \<Longrightarrow> \<not> im_ttl s < time_Since now (ie_createdAt e)" for k e
    by (force simp: gget_def wf_gomap_def gkeys_def intro: map_of_is_SomeI)
  then show "im_cache (im_cleanup now s) = im_cache s"
    by (auto simp: im_cleanup_def gfilter_def filter_id_conv)
qed (auto simp: im_begin_def im_finish_def im_cleanup_def Let_def)

subsection \<open>The recorder\<close>

lemma rw_Write_inv:
  assumes "rw_body rw = take (nat MaxBodySize) w" "rw_skipped rw \<Longrightarrow> MaxBodySize \<le> int (length w)"
  shows "rw_body (rw_Write b rw) = take (nat MaxBodySize) (w @ b) \<and>
    (rw_skipped (rw_Write b rw) \<longrightarrow> MaxBodySize \<le> int (length (w @ b)))"
proof (cases "MaxBodySize \<le> int (length w)")
  case True
  then have "nat MaxBodySize \<le> length w" by simp
  with assms True show ?thesis by (auto simp: rw_Write_def Let_def)
next
  case False
  then have l: "length w < nat MaxBodySize" by simp
  with assms False have b: "rw_body rw = w" "\<not> rw_skipped rw" by auto
  have n: "nat (MaxBodySize - int (length w)) = nat MaxBodySize - length w" by simp
  show ?thesis
  proof (cases "MaxBodySize - int (length w) < int (length b)")
    case True
    with b l n show ?thesis by (auto simp: rw_Write_def Let_def)
  next
    case False
    with b l have "length (w @ b) \<le> nat MaxBodySize" by simp
    moreover have "\<not> MaxBodySize \<le> int (length w)" using l by linarith
    ultimately show ?thesis using b False by (simp add: rw_Write_def Let_def)
  qed
qed

lemma fold_rw_Write:
  "rw_body rw = take (nat MaxBodySize) w \<Longrightarrow> (rw_skipped rw \<longrightarrow> MaxBodySize \<le> int (length w)) \<Longrightarrow>
   rw_body (fold rw_Write bs rw) = take (nat MaxBodySize) (w @ concat bs)"
proof (induction bs arbitrary: rw w)
  case (Cons b bs)
  from rw_Write_inv [of rw w b] Cons.prems Cons.IH [of "rw_Write b rw" "w @ b"] show ?case by simp
qed simp

text \<open>However the handler splits its writes, the first megabyte is recorded, and a longer body is cut there.\<close>

lemma recorded_prefix: "recorded writes = take (nat MaxBodySize) (concat writes)"
  using fold_rw_Write [of "\<lparr>rw_body = [], rw_skipped = False\<rparr>" "[]" writes] by (simp add: recorded_def)

text \<open>
  A repeated request is answered with the status and headers of the first one and what was recorded of its
  body: all of it up to a megabyte, a truncated one above that. The handler is not run again.
\<close>

lemma repeated_request:
  assumes key: "rq_Header r (ic_KeyHeader (st_config st)) \<noteq> []"
    and first: "gget (st_entries st) (rq_Header r (ic_KeyHeader (st_config st))) = None"
    and nx: "nxt r s = (s', rs)"
    and again: "rq_Header r2 (ic_KeyHeader (st_config st)) = rq_Header r (ic_KeyHeader (st_config st))"
    and time: "time_Since u t'' \<le> ic_MaxAge (st_config st)"
  shows "\<exists>st1 st2. idem_Middleware t t' t'' ord w nxt r (st, s) = ((st1, s'), rs) \<and>
    idem_Middleware u u' u'' ord2 w2 nxt2 r2 (st1, s') =
      ((st2, s'), \<lparr>rs_Status = rs_Status rs, rs_Header = header_Set ''Idempotent-Replayed'' ''true'' (rs_Header rs),
                   rs_Body = take (nat MaxBodySize) (rs_Body rs), rs_HeaderWritten = True\<rparr>)"
  using assms by (simp add: idem_Middleware_def st_begin_def st_finish_def Let_def recorded_prefix replay_response_def)

text \<open>
  At capacity the oldest key is evicted even while its handler is running, and a repetition of that
  request then runs the handler a second time.
\<close>

lemma eviction_runs_twice:
  assumes "st = fst (st_begin 1 1 [] ''a'' (NewStore (DefaultIdemConfig\<lparr>ic_MaxEntries := 1\<rparr>)))"
    "st' = fst (st_begin 2 2 [''a''] ''b'' st)"
  shows "snd (st_begin 1 1 [] ''a'' (NewStore (DefaultIdemConfig\<lparr>ic_MaxEntries := 1\<rparr>))) = D_run \<and>
    snd (st_begin 3 3 [''b''] ''a'' st') = D_run"
  unfolding assms by code_simp

subsection \<open>Properties\<close>

text \<open>
  C36. At most one run per idempotency key, in every interleaving of requests, finishing handlers,
  waiting loops and cleanups, for both implementations: as long as the run lasts less than the retention
  time and uses no more keys than the capacity, no handler is started twice for the same key, and
  everything that is replayed for a key is what its one handler run answered.
\<close>

theorem duplicate_requests_run_once:
  assumes "finite K"
  shows "((idem_step st_begin st_finish st_peek (\<lambda>now s. fst (st_Cleanup now s)) t0 t1 K)\<^sup>*\<^sup>* (idem_init (NewStore cfg)) y \<and>
       int (card K) \<le> ic_MaxEntries cfg \<and> t1 - t0 < ic_MaxAge cfg \<and> ic_MaxAge cfg < max_duration \<longrightarrow>
     distinct (sy_starts y) \<and> distinct (map fst (sy_answers y)) \<and> set (sy_replays y) \<subseteq> set (sy_answers y) \<and>
     fst ` set (sy_answers y) \<subseteq> set (sy_starts y)) \<and>
   ((idem_step im_begin im_finish im_peek im_cleanup t0 t1 K)\<^sup>*\<^sup>* (idem_init (NewIdempotencyMiddleware ttl)) z \<and>
       int (card K) \<le> maxCacheEntries \<and> t1 - t0 < ttl \<and> ttl < max_duration \<longrightarrow>
     distinct (sy_starts z) \<and> distinct (map fst (sy_answers z)) \<and> set (sy_replays z) \<subseteq> set (sy_answers z) \<and>
     fst ` set (sy_answers z) \<subseteq> set (sy_starts z))"
  using idem_store.at_most_once [of t0 t1 K "NewStore cfg" y] assms
    idem_post.at_most_once [of t0 t1 K "NewIdempotencyMiddleware ttl" z]
  by (simp add: NewStore_def NewIdempotencyMiddleware_def)

definition demo_answer :: answer where
  "demo_answer = \<lparr>an_statusCode = 201, an_body = ''created'', an_headers = []\<rparr>"

text \<open>Two requests with the same key: the second arrives while the first is running and waits for it.\<close>

definition demo_idem_end :: "IdemStore idem_sys" where
  "demo_idem_end = \<lparr>sy_store = \<lparr>st_entries = [(''k'', \<lparr>ie_answer = demo_answer, ie_createdAt = 3, ie_processing = False\<rparr>)],
       st_config = DefaultIdemConfig\<rparr>,
     sy_running = [], sy_waiting = [], sy_starts = [''k''], sy_answers = [(''k'', demo_answer)], sy_replays = [(''k'', demo_answer)]\<rparr>"

lemma demo_idem_run:
  "(idem_step st_begin st_finish st_peek (\<lambda>now s. fst (st_Cleanup now s)) 0 10 {''k''})\<^sup>*\<^sup>* (idem_init (NewStore DefaultIdemConfig)) demo_idem_end"
proof -
  let ?step = "idem_step st_begin st_finish st_peek (\<lambda>now s. fst (st_Cleanup now s)) 0 10 {''k''}"
  define y0 where "y0 = idem_init (NewStore DefaultIdemConfig)"
  define y1 where "y1 = y0\<lparr>sy_store := fst (st_begin 1 1 [] ''k'' (sy_store y0)), sy_running := ''k'' # sy_running y0, sy_starts := sy_starts y0 @ [''k'']\<rparr>"
  define y2 where "y2 = y1\<lparr>sy_store := sy_store y1, sy_waiting := ''k'' # sy_waiting y1\<rparr>"
  define y3 where "y3 = y2\<lparr>sy_store := st_finish 3 ''k'' demo_answer (sy_store y2), sy_running := remove1 ''k'' (sy_running y2), sy_answers := sy_answers y2 @ [(''k'', demo_answer)]\<rparr>"
  define y4 where "y4 = y3\<lparr>sy_waiting := remove1 ''k'' (sy_waiting y3), sy_replays := sy_replays y3 @ [(''k'', demo_answer)]\<rparr>"
  note defs = y0_def y1_def y2_def y3_def y4_def idem_init_def NewStore_def st_begin_def st_finish_def st_peek_def st_room_def
    glen_def gput_def gget_def DefaultIdemConfig_def duration_defs time_defs Let_def
  have "?step y0 y1" unfolding y1_def by (rule idem_step.start [of _ 1 1 "[]"]) (simp_all add: defs)
  moreover have "?step y1 y2" unfolding y2_def by (rule idem_step.wait [of _ 2 2 "[]"]) (simp_all add: defs)
  moreover have "?step y2 y3" unfolding y3_def by (rule idem_step.finish) (simp_all add: defs)
  moreover have "?step y3 y4" unfolding y4_def by (rule idem_step.woken [of _ _ _ 4]) (simp_all add: defs)
  ultimately have "?step\<^sup>*\<^sup>* y0 y4" by (meson converse_rtranclp_into_rtranclp rtranclp.rtrancl_refl)
  moreover have "y4 = demo_idem_end" by (simp add: defs demo_idem_end_def)
  ultimately show ?thesis by (simp add: y0_def)
qed

theorem duplicate_requests_run_once_witness:
  "(idem_step st_begin st_finish st_peek (\<lambda>now s. fst (st_Cleanup now s)) 0 10 {''k''})\<^sup>*\<^sup>* (idem_init (NewStore DefaultIdemConfig)) demo_idem_end \<and>
   distinct (sy_starts demo_idem_end) \<and> set (sy_replays demo_idem_end) \<subseteq> set (sy_answers demo_idem_end)"
  using duplicate_requests_run_once [of "{''k''}" 0 10 DefaultIdemConfig demo_idem_end 0 "idem_init (NewIdempotencyMiddleware 0)"]
    demo_idem_run
  by (simp add: DefaultIdemConfig_def duration_defs max_duration_def)

end
