(* ===== verification/Go_Order.thy ===== *)
theory Go_Order
  imports Go_Strings "HOL-Library.List_Lexorder" "HOL-Library.Char_ord"
begin

text \<open>
  Go compares strings byte by byte; this is the lexicographic order of \<open>List_Lexorder\<close> over the
  order of the character codes (\<open>Char_ord\<close>). \<^verbatim>\<open>sort.Strings\<close>, and \<^verbatim>\<open>sort.Slice\<close> with a key that
  determines the element, have one possible result, whatever algorithm finds it: the library's
  \<open>sort\<close> and \<open>sort_key\<close>.

  A \<^verbatim>\<open>map[string]bool\<close> used as a set is a map all of whose values are true.
\<close>

definition sort_Strings :: "string list \<Rightarrow> string list" where
  "sort_Strings xs = sort xs"

lemma sort_Strings_simps [simp]:
  "set (sort_Strings xs) = set xs" "sorted (sort_Strings xs)" "distinct (sort_Strings xs) = distinct xs"
  "length (sort_Strings xs) = length xs"
  by (simp_all add: sort_Strings_def)

text \<open>The result depends only on the elements, not on the order they are given in.\<close>

lemma sort_Strings_unique: "distinct xs \<Longrightarrow> distinct ys \<Longrightarrow> set xs = set ys \<Longrightarrow> sort_Strings xs = sort_Strings ys"
  by (simp add: sort_Strings_def sorted_distinct_set_unique)

type_synonym strset = "(string, bool) gomap"

definition strset_has :: "strset \<Rightarrow> string \<Rightarrow> bool" where
  "strset_has m k \<longleftrightarrow> gget m k = Some True"

definition strset_add :: "string \<Rightarrow> strset \<Rightarrow> strset" where
  "strset_add k m = gput k True m"

definition strset_ok :: "strset \<Rightarrow> bool" where
  "strset_ok m \<longleftrightarrow> wf_gomap m \<and> False \<notin> snd ` set m"

lemma strset_has_empty [simp]: "\<not> strset_has [] k"
  by (simp add: strset_has_def)

lemma strset_has_add [simp]: "strset_has (strset_add k m) x \<longleftrightarrow> x = k \<or> strset_has m x"
  by (simp add: strset_has_def strset_add_def)

lemma strset_ok_empty [simp]: "strset_ok []"
  by (simp add: strset_ok_def)

lemma snd_update: "snd ` set (AList.update k v m) \<subseteq> insert v (snd ` set m)"
  by (induction m) auto

lemma strset_ok_add [simp]: "strset_ok m \<Longrightarrow> strset_ok (strset_add k m)"
  using snd_update [of k True m] by (auto simp: strset_ok_def strset_add_def gput_def [symmetric])

lemma strset_keys: "strset_ok m \<Longrightarrow> set (gkeys m) = {k. strset_has m k}"
  by (auto simp: strset_ok_def strset_has_def set_gkeys gget_def dest: map_of_SomeD)
    (metis (full_types) image_eqI map_of_SomeD snd_conv)

text \<open>Go runs over a map in an arbitrary order; \<open>ranges\<close> says that a list is such an order.\<close>

definition ranges :: "'k list \<Rightarrow> ('k, 'v) gomap \<Rightarrow> bool" where
  "ranges ks m \<longleftrightarrow> distinct ks \<and> set ks = set (gkeys m)"

lemma ranges_gkeys: "wf_gomap m \<Longrightarrow> ranges (gkeys m) m"
  by (simp add: ranges_def wf_gomap_def)

subsection \<open>First occurrences\<close>

text \<open>Both loops keep the first element of each key; \<open>keep_new key S xs\<close> skips the keys already in \<open>S\<close>.\<close>

fun keep_new :: "('a \<Rightarrow> 'k) \<Rightarrow> 'k set \<Rightarrow> 'a list \<Rightarrow> 'a list" where
  "keep_new key S [] = []"
| "keep_new key S (x # xs) = (if key x \<in> S then keep_new key S xs else x # keep_new key (insert (key x) S) xs)"

lemma keep_new_append: "keep_new key S (xs @ ys) = keep_new key S xs @ keep_new key (S \<union> key ` set xs) ys"
  by (induction key S xs rule: keep_new.induct) (simp_all add: insert_absorb)

lemma keep_new_keys: "key ` set (keep_new key S xs) = key ` set xs - S"
  by (induction key S xs rule: keep_new.induct) auto

lemma keep_new_sub: "set (keep_new key S xs) \<subseteq> set xs"
  by (induction key S xs rule: keep_new.induct) auto

lemma keep_new_distinct: "distinct (map key (keep_new key S xs))"
proof (induction key S xs rule: keep_new.induct)
  case (2 key S x xs)
  have "key x \<notin> set (map key (keep_new key (insert (key x) S) xs))" using keep_new_keys [of key "insert (key x) S" xs] by auto
  with 2 show ?case by simp
qed simp

lemma keep_new_map: "keep_new key S (map f xs) = map f (keep_new (\<lambda>x. key (f x)) S xs)"
  by (induction xs arbitrary: S) simp_all

text \<open>When equal keys mean equal parts, no part is lost.\<close>

lemma keep_new_image:
  assumes "inj_on k (g ` set xs)"
  shows "g ` set (keep_new (\<lambda>x. k (g x)) {} xs) = g ` set xs"
proof -
  have "k ` g ` set (keep_new (\<lambda>x. k (g x)) {} xs) = k ` g ` set xs"
    using keep_new_keys [of "\<lambda>x. k (g x)" "{}" xs] by (simp add: image_image)
  moreover have "g ` set (keep_new (\<lambda>x. k (g x)) {} xs) \<subseteq> g ` set xs" by (intro image_mono keep_new_sub)
  ultimately show ?thesis using assms by (metis inj_on_image_eq_iff subset_refl)
qed

text \<open>The loop that does it: a set of the keys seen, and a report to which each new element is added.\<close>

abbreviation seen_keys :: "strset \<Rightarrow> string set" where
  "seen_keys m \<equiv> {k. strset_has m k}"

lemma seen_keys_add: "seen_keys (strset_add k m) = insert k (seen_keys m)"
  by auto

definition first_step :: "('a \<Rightarrow> string) \<Rightarrow> ('a \<Rightarrow> 'r \<Rightarrow> 'r) \<Rightarrow> 'a \<Rightarrow> strset \<times> 'r \<Rightarrow> strset \<times> 'r" where
  "first_step key emit x st =
     (if strset_has (fst st) (key x) then st else (strset_add (key x) (fst st), emit x (snd st)))"

lemma fold_first:
  "\<exists>seen'. fold (first_step key emit) xs (seen, rep) = (seen', fold emit (keep_new key (seen_keys seen) xs) rep) \<and>
     seen_keys seen' = seen_keys seen \<union> key ` set xs"
proof (induction xs arbitrary: seen rep)
  case (Cons x xs)
  show ?case
  proof (cases "strset_has seen (key x)")
    case True
    with Cons.IH [of seen rep] show ?thesis by (auto simp: first_step_def)
  next
    case False
    with Cons.IH [of "strset_add (key x) seen" "emit x rep"] show ?thesis
      unfolding seen_keys_add by (simp add: first_step_def)
  qed
qed simp

lemma fold_selected: "fold (\<lambda>r st. if P r then fold f (h r) st else st) rs st = fold f (concat (map h (filter P rs))) st"
  by (induction rs arbitrary: st) simp_all

end
