(* ===== verification/Knowledge_Graph.thy ===== *)
theory Knowledge_Graph
  imports Go_Order Float64
begin

text \<open>
  The knowledge graph of \<^verbatim>\<open>internal/knowledge/graph.go\<close>: nodes, directed edges with an adjacency index,
  breadth-first reachability, and the control rules a prompt is checked against.

  PostgreSQL is outside the program: an operation returns the statements it issues, and the rows
  a query yields are arguments (\<open>None\<close> for a failed query; an element \<open>None\<close> for a row whose
  scan fails). The vector embedding is kept as an opaque value.
\<close>

subsection \<open>Data\<close>

type_synonym EntityType = string

record Node =
  nd_ID :: string
  nd_Type :: EntityType
  nd_Name :: string
  nd_ProjectID :: string
  nd_Attributes :: "(string, string) gomap"
  nd_Embedding :: "f64 list"
  nd_CreatedAt :: gotime
  nd_UpdatedAt :: gotime

record Edge =
  eg_From :: string
  eg_To :: string
  eg_Relation :: string
  eg_Confidence :: f64
  eg_ProjectID :: string
  eg_CreatedAt :: gotime

record ControlRule =
  cr_Entity :: string
  cr_Controls :: "string list"
  cr_Severity :: string

definition DefaultControlRules :: "ControlRule list" where
  "DefaultControlRules =
     [\<lparr>cr_Entity = ''payment'', cr_Controls = [''audit_log'', ''encryption'', ''rate_limiting'', ''fraud_detection'', ''pci_compliance''], cr_Severity = ''critical''\<rparr>,
      \<lparr>cr_Entity = ''auth'', cr_Controls = [''session_management'', ''mfa'', ''password_policy'', ''brute_force_protection''], cr_Severity = ''critical''\<rparr>,
      \<lparr>cr_Entity = ''admin'', cr_Controls = [''access_control'', ''audit_log'', ''mfa'', ''ip_allowlist''], cr_Severity = ''critical''\<rparr>,
      \<lparr>cr_Entity = ''database'', cr_Controls = [''encryption_at_rest'', ''backup'', ''access_control'', ''connection_encryption''], cr_Severity = ''high''\<rparr>,
      \<lparr>cr_Entity = ''api'', cr_Controls = [''rate_limiting'', ''input_validation'', ''authentication'', ''request_size_limits''], cr_Severity = ''high''\<rparr>,
      \<lparr>cr_Entity = ''file'', cr_Controls = [''path_traversal_protection'', ''content_validation'', ''size_limits''], cr_Severity = ''medium''\<rparr>,
      \<lparr>cr_Entity = ''email'', cr_Controls = [''header_injection_protection'', ''rate_limiting'', ''unsubscribe''], cr_Severity = ''medium''\<rparr>,
      \<lparr>cr_Entity = ''webhook'', cr_Controls = [''signature_validation'', ''ssrf_protection'', ''timeout'', ''retry_limits''], cr_Severity = ''high''\<rparr>,
      \<lparr>cr_Entity = ''secrets'', cr_Controls = [''encryption'', ''access_control'', ''rotation'', ''audit_logging''], cr_Severity = ''critical''\<rparr>,
      \<lparr>cr_Entity = ''logging'', cr_Controls = [''pii_redaction'', ''log_injection_protection'', ''retention_policy''], cr_Severity = ''medium''\<rparr>]"

text \<open>\<open>kg_pool\<close>: whether the graph has a database.\<close>

record Graph =
  kg_nodes :: "(string, Node) gomap"
  kg_edges :: "Edge list"
  kg_index :: "(string, strset) gomap"
  kg_controlRules :: "ControlRule list"
  kg_pool :: bool

datatype kg_stmt = InsertNode Node | InsertEdge Edge | InsertRule ControlRule string | CreateTables

definition NewGraph :: Graph where
  "NewGraph = \<lparr>kg_nodes = [], kg_edges = [], kg_index = [], kg_controlRules = DefaultControlRules, kg_pool = False\<rparr>"

text \<open>
  \<^verbatim>\<open>ensureTables\<close>: the tables are created and, when the rule table is empty, the default rules are
  stored for the empty project. \<open>created\<close> says whether the tables could be created, \<open>count\<close> is
  the number of stored rules (0 when the query fails).
\<close>

definition ensureTables :: "bool \<Rightarrow> int \<Rightarrow> kg_stmt list" where
  "ensureTables created count =
     CreateTables # (if created \<and> count = 0 then map (\<lambda>rule. InsertRule rule []) DefaultControlRules else [])"

definition NewGraphWithDB :: "bool \<Rightarrow> bool \<Rightarrow> int \<Rightarrow> Graph \<times> kg_stmt list" where
  "NewGraphWithDB pool created count =
     (if pool then (NewGraph\<lparr>kg_pool := created\<rparr>, ensureTables created count) else (NewGraph, []))"

subsection \<open>Updates\<close>

definition index_node :: "string \<Rightarrow> (string, strset) gomap \<Rightarrow> (string, strset) gomap" where
  "index_node k ix = (if gget ix k = None then gput k [] ix else ix)"

definition succs :: "(string, strset) gomap \<Rightarrow> string \<Rightarrow> strset" where
  "succs ix k = (case gget ix k of None \<Rightarrow> [] | Some tos \<Rightarrow> tos)"

definition index_edge :: "string \<Rightarrow> string \<Rightarrow> (string, strset) gomap \<Rightarrow> (string, strset) gomap" where
  "index_edge from to ix = gput from (strset_add to (succs ix from)) ix"

definition AddNode :: "gotime \<Rightarrow> Node \<Rightarrow> Graph \<Rightarrow> Graph \<times> kg_stmt list" where
  "AddNode now n0 g =
     (let n = n0\<lparr>nd_CreatedAt := (if IsZero (nd_CreatedAt n0) then now else nd_CreatedAt n0), nd_UpdatedAt := now\<rparr>
      in (g\<lparr>kg_nodes := gput (nd_ID n) n (kg_nodes g), kg_index := index_node (nd_ID n) (kg_index g)\<rparr>,
          if kg_pool g then [InsertNode n] else []))"

definition AddEdge :: "gotime \<Rightarrow> Edge \<Rightarrow> Graph \<Rightarrow> Graph \<times> kg_stmt list" where
  "AddEdge now e0 g =
     (let e = (if IsZero (eg_CreatedAt e0) then e0\<lparr>eg_CreatedAt := now\<rparr> else e0)
      in (g\<lparr>kg_edges := kg_edges g @ [e], kg_index := index_edge (eg_From e) (eg_To e) (kg_index g)\<rparr>,
          if kg_pool g then [InsertEdge e] else []))"

definition GetNode :: "string \<Rightarrow> Graph \<Rightarrow> Node option" where
  "GetNode k g = gget (kg_nodes g) k"

definition GetEdgesFrom :: "string \<Rightarrow> Graph \<Rightarrow> Edge list" where
  "GetEdgesFrom k g = filter (\<lambda>e. eg_From e = k) (kg_edges g)"

definition GetEdgesTo :: "string \<Rightarrow> Graph \<Rightarrow> Edge list" where
  "GetEdgesTo k g = filter (\<lambda>e. eg_To e = k) (kg_edges g)"

subsection \<open>Breadth-first search\<close>

text \<open>
  \<open>ord\<close> gives, for a node, the order in which its successors are iterated; each node is expanded
  once, so an order per node covers every run.
\<close>

definition visit :: "string \<Rightarrow> strset \<times> string list \<Rightarrow> strset \<times> string list" where
  "visit to = (\<lambda>(visited, nxt). if \<not> strset_has visited to then (strset_add to visited, nxt @ [to]) else (visited, nxt))"

definition expand :: "(string \<Rightarrow> string list) \<Rightarrow> string list \<Rightarrow> strset \<Rightarrow> strset \<times> string list" where
  "expand ord queue visited = fold (\<lambda>k. fold visit (ord k)) queue (visited, [])"

fun bfs :: "(string \<Rightarrow> string list) \<Rightarrow> nat \<Rightarrow> string list \<Rightarrow> strset \<Rightarrow> strset" where
  "bfs ord 0 queue visited = visited"
| "bfs ord (Suc d) queue visited =
     (if queue = [] then visited else case expand ord queue visited of (visited', nxt) \<Rightarrow> bfs ord d nxt visited')"

text \<open>
  \<open>out_ord\<close>: the order in which the visited nodes are collected. The loop runs while
  \<^verbatim>\<open>depth < maxDepth\<close>, hence \<open>nat maxDepth\<close> times at most.
\<close>

definition Reachable :: "(string \<Rightarrow> string list) \<Rightarrow> (strset \<Rightarrow> string list) \<Rightarrow> string \<Rightarrow> int \<Rightarrow> Graph \<Rightarrow> string list" where
  "Reachable ord out_ord startID maxDepth g =
     (let visited = bfs ord (nat maxDepth) [startID] (strset_add startID [])
      in sort_Strings (filter (\<lambda>k. k \<noteq> startID) (out_ord visited)))"

text \<open>\<open>ids\<close>: the order in which the nodes are iterated.\<close>

definition NodesByType :: "string list \<Rightarrow> EntityType \<Rightarrow> Graph \<Rightarrow> Node list" where
  "NodesByType ids t g =
     sort_key nd_ID (filter (\<lambda>n. nd_Type n = t) (List.map_filter (gget (kg_nodes g)) ids))"

definition Count :: "Graph \<Rightarrow> int \<times> int" where
  "Count g = (glen (kg_nodes g), int (length (kg_edges g)))"

subsection \<open>Control rules\<close>

record ValidationWarning =
  vw_Entity :: string
  vw_Control :: string
  vw_Severity :: string
  vw_Message :: string

definition replace_underscore :: "char \<Rightarrow> string \<Rightarrow> string" where
  "replace_underscore c s = map (\<lambda>x. if x = CHR ''_'' then c else x) s"

definition warn :: "ControlRule \<Rightarrow> string \<Rightarrow> ValidationWarning" where
  "warn rule control =
     \<lparr>vw_Entity = cr_Entity rule, vw_Control = control, vw_Severity = cr_Severity rule,
      vw_Message = cr_Entity rule @ '' requires '' @ control\<rparr>"

definition mentions :: "string \<Rightarrow> string \<Rightarrow> bool" where
  "mentions lower control \<longleftrightarrow>
     strings_Contains lower (replace_underscore (CHR '' '') control) \<or>
     strings_Contains lower (replace_underscore (CHR ''-'') control) \<or> strings_Contains lower control"

definition rule_warnings :: "(string \<Rightarrow> bool) \<Rightarrow> string \<Rightarrow> ControlRule \<Rightarrow> ValidationWarning list" where
  "rule_warnings named lower rule =
     (if strings_Contains lower (cr_Entity rule)
      then map (warn rule) (filter (\<lambda>control. \<not> named control) (cr_Controls rule)) else [])"

definition db_mentions :: "string \<Rightarrow> string \<Rightarrow> bool" where
  "db_mentions lower control \<longleftrightarrow>
     strings_Contains lower (replace_underscore (CHR '' '') control) \<or> strings_Contains lower control"

definition checkDBRules :: "ControlRule option list option \<Rightarrow> string \<Rightarrow> ValidationWarning list" where
  "checkDBRules rows lower =
     (case rows of
        None \<Rightarrow> []
      | Some rs \<Rightarrow> concat (map (rule_warnings (db_mentions lower) lower) (List.map_filter (\<lambda>r. r) rs)))"

text \<open>\<open>rows\<close>: the rules the database holds for the project or for the empty project.\<close>

definition ValidatePrompt :: "ControlRule option list option \<Rightarrow> string \<Rightarrow> string \<Rightarrow> Graph \<Rightarrow> ValidationWarning list" where
  "ValidatePrompt rows prompt code g =
     (let lower = strings_ToLower (prompt @ '' '' @ code) in
      concat (map (rule_warnings (mentions lower) lower) (kg_controlRules g)) @
      (if kg_pool g then checkDBRules rows lower else []))"

definition AddControlRule :: "ControlRule \<Rightarrow> string \<Rightarrow> Graph \<Rightarrow> kg_stmt list" where
  "AddControlRule rule projectID g = (if kg_pool g then [InsertRule rule projectID] else [])"

text \<open>\<open>rows\<close>: the rules the database holds for the project.\<close>

definition GetControlRules :: "ControlRule option list option \<Rightarrow> Graph \<Rightarrow> ControlRule list" where
  "GetControlRules rows g =
     kg_controlRules g @ (if kg_pool g then (case rows of None \<Rightarrow> [] | Some rs \<Rightarrow> List.map_filter (\<lambda>r. r) rs) else [])"

subsection \<open>Loading\<close>

text \<open>
  The query for the nodes does not select attributes and embedding. \<open>ids\<close>, \<open>froms\<close> and \<open>tos\<close> are the
  orders in which the loaded maps are iterated.
\<close>

definition node_row :: "Node \<Rightarrow> Node" where
  "node_row n = n\<lparr>nd_Attributes := [], nd_Embedding := []\<rparr>"

definition load_nodes :: "Node option list \<Rightarrow> (string, Node) gomap" where
  "load_nodes rows = fold (\<lambda>n. gput (nd_ID n) (node_row n)) (List.map_filter (\<lambda>r. r) rows) []"

definition load_index :: "Edge list \<Rightarrow> (string, strset) gomap" where
  "load_index es = fold (\<lambda>e. index_edge (eg_From e) (eg_To e)) es []"

definition merge_nodes :: "(string, Node) gomap \<Rightarrow> string list \<Rightarrow> Graph \<Rightarrow> Graph" where
  "merge_nodes nodes ids g =
     fold (\<lambda>k g. case gget nodes k of None \<Rightarrow> g
       | Some n \<Rightarrow> g\<lparr>kg_nodes := gput k n (kg_nodes g), kg_index := index_node k (kg_index g)\<rparr>) ids g"

definition merge_index :: "string list \<Rightarrow> (string \<Rightarrow> string list) \<Rightarrow> (string, strset) gomap \<Rightarrow> (string, strset) gomap" where
  "merge_index froms tos ix = fold (\<lambda>from ix. fold (index_edge from) (tos from) (index_node from ix)) froms ix"

datatype kg_error = NodesQueryFailed | EdgesQueryFailed

definition LoadFromDB ::
  "Node option list option \<Rightarrow> Edge option list option \<Rightarrow> string list \<Rightarrow> string list \<Rightarrow> (string \<Rightarrow> string list) \<Rightarrow>
     Graph \<Rightarrow> Graph \<times> kg_error option" where
  "LoadFromDB node_rows edge_rows ids froms tos g =
     (if \<not> kg_pool g then (g, None)
      else case node_rows of
        None \<Rightarrow> (g, Some NodesQueryFailed)
      | Some nrows \<Rightarrow>
          case edge_rows of
            None \<Rightarrow> (g, Some EdgesQueryFailed)
          | Some erows \<Rightarrow>
              let edges = List.map_filter (\<lambda>r. r) erows;
                  g1 = merge_nodes (load_nodes nrows) ids g
              in (g1\<lparr>kg_edges := kg_edges g1 @ edges, kg_index := merge_index froms tos (kg_index g1)\<rparr>, None))"


subsection \<open>Well-formedness\<close>

text \<open>
  The index is the adjacency of the edge list, every node is indexed, and a node is stored under
  its own ID.
\<close>

definition kg_ok :: "Graph \<Rightarrow> bool" where
  "kg_ok g \<longleftrightarrow> wf_gomap (kg_nodes g) \<and> wf_gomap (kg_index g) \<and>
     (\<forall>k n. gget (kg_nodes g) k = Some n \<longrightarrow> nd_ID n = k \<and> gget (kg_index g) k \<noteq> None) \<and>
     (\<forall>k. strset_ok (succs (kg_index g) k)) \<and>
     (\<forall>from to. strset_has (succs (kg_index g) from) to \<longleftrightarrow> (from, to) \<in> (\<lambda>e. (eg_From e, eg_To e)) ` set (kg_edges g))"

definition edge_rel :: "Graph \<Rightarrow> (string \<times> string) set" where
  "edge_rel g = (\<lambda>e. (eg_From e, eg_To e)) ` set (kg_edges g)"

inductive kg_reachable :: "Graph \<Rightarrow> bool" where
  kg_new: "kg_reachable (fst (NewGraphWithDB pool created count))"
| kg_node: "kg_reachable g \<Longrightarrow> kg_reachable (fst (AddNode now n g))"
| kg_edge: "kg_reachable g \<Longrightarrow> kg_reachable (fst (AddEdge now e g))"
| kg_load: "kg_reachable g \<Longrightarrow> ranges ids (load_nodes nrows) \<Longrightarrow>
    ranges froms (load_index (List.map_filter (\<lambda>r. r) erows)) \<Longrightarrow>
    (\<And>from. ranges (tos from) (succs (load_index (List.map_filter (\<lambda>r. r) erows)) from)) \<Longrightarrow>
    kg_reachable (fst (LoadFromDB (Some nrows) (Some erows) ids froms tos g))"

lemma succs_empty [simp]: "succs [] k = []"
  by (simp add: succs_def)

lemma succs_index_node [simp]: "succs (index_node k ix) x = succs ix x"
  by (auto simp: succs_def index_node_def split: option.splits)

lemma succs_index_edge [simp]: "succs (index_edge from to ix) x = (if x = from then strset_add to (succs ix from) else succs ix x)"
  by (simp add: succs_def index_edge_def)

lemma wf_index [simp]: "wf_gomap ix \<Longrightarrow> wf_gomap (index_node k ix)" "wf_gomap ix \<Longrightarrow> wf_gomap (index_edge from to ix)"
  by (simp_all add: index_node_def index_edge_def)

lemma indexed_mono:
  "gget ix k \<noteq> None \<Longrightarrow> gget (index_node x ix) k \<noteq> None"
  "gget ix k \<noteq> None \<Longrightarrow> gget (index_edge from to ix) k \<noteq> None"
  by (auto simp: index_node_def index_edge_def)

lemma indexed_self [simp]: "\<exists>tos. gget (index_node k ix) k = Some tos"
  by (auto simp: index_node_def)

lemma fold_index_edge:
  fixes ps :: "(string \<times> string) list"
  assumes "wf_gomap ix" "\<forall>k. strset_ok (succs ix k)"
  defines "ix' \<equiv> fold (\<lambda>(from, to). index_edge from to) ps ix"
  shows "wf_gomap ix' \<and> (\<forall>k. strset_ok (succs ix' k)) \<and> (\<forall>k. gget ix k \<noteq> None \<longrightarrow> gget ix' k \<noteq> None) \<and>
    (\<forall>from to. strset_has (succs ix' from) to \<longleftrightarrow> strset_has (succs ix from) to \<or> (from, to) \<in> set ps)"
  using assms(1,2) unfolding ix'_def
proof (induction ps arbitrary: ix)
  case (Cons p ps)
  obtain f t where p: "p = (f, t)" by (cases p)
  have "wf_gomap (index_edge f t ix)" "\<forall>k. strset_ok (succs (index_edge f t ix) k)" using Cons.prems by simp_all
  from Cons.IH [OF this] show ?case using indexed_mono(2) [of ix _ f t] by (auto simp: p)
qed simp

lemma load_index_has:
  "wf_gomap (load_index es) \<and> (\<forall>k. strset_ok (succs (load_index es) k)) \<and>
   (\<forall>from to. strset_has (succs (load_index es) from) to \<longleftrightarrow> (from, to) \<in> (\<lambda>e. (eg_From e, eg_To e)) ` set es)"
proof -
  have "load_index es = fold (\<lambda>(from, to). index_edge from to) (map (\<lambda>e. (eg_From e, eg_To e)) es) []"
    by (simp add: load_index_def fold_map comp_def)
  then show ?thesis using fold_index_edge [of "[]" "map (\<lambda>e. (eg_From e, eg_To e)) es"] by simp
qed

lemma merge_index_has:
  fixes froms :: "string list" and tos :: "string \<Rightarrow> string list"
  assumes "wf_gomap ix" "\<forall>k. strset_ok (succs ix k)"
  defines "ix' \<equiv> merge_index froms tos ix"
  shows "wf_gomap ix' \<and> (\<forall>k. strset_ok (succs ix' k)) \<and> (\<forall>k. gget ix k \<noteq> None \<longrightarrow> gget ix' k \<noteq> None) \<and>
    (\<forall>from to. strset_has (succs ix' from) to \<longleftrightarrow> strset_has (succs ix from) to \<or> from \<in> set froms \<and> to \<in> set (tos from))"
  using assms(1,2) unfolding ix'_def
proof (induction froms arbitrary: ix)
  case Nil
  then show ?case by (simp add: merge_index_def)
next
  case (Cons f froms)
  define ix1 where "ix1 = fold (index_edge f) (tos f) (index_node f ix)"
  have "ix1 = fold (\<lambda>(from, to). index_edge from to) (map (Pair f) (tos f)) (index_node f ix)"
    by (simp add: ix1_def fold_map comp_def)
  then have s: "wf_gomap ix1 \<and> (\<forall>k. strset_ok (succs ix1 k)) \<and> (\<forall>k. gget ix k \<noteq> None \<longrightarrow> gget ix1 k \<noteq> None) \<and>
    (\<forall>from to. strset_has (succs ix1 from) to \<longleftrightarrow> strset_has (succs ix from) to \<or> from = f \<and> to \<in> set (tos f))"
    using fold_index_edge [of "index_node f ix" "map (Pair f) (tos f)"] Cons.prems indexed_mono(1) [of ix _ f] by auto
  have "merge_index (f # froms) tos ix = merge_index froms tos ix1" by (simp add: merge_index_def ix1_def)
  with Cons.IH [of ix1] s show ?case by auto
qed

lemma node_row_nd: "nd_ID (node_row n) = nd_ID n"
  by (simp add: node_row_def)

lemma fold_put_nodes:
  "wf_gomap m \<and> (\<forall>k n. gget m k = Some n \<longrightarrow> nd_ID n = k) \<Longrightarrow>
   wf_gomap (fold (\<lambda>n. gput (nd_ID n) (node_row n)) ns m) \<and>
   (\<forall>k n. gget (fold (\<lambda>n. gput (nd_ID n) (node_row n)) ns m) k = Some n \<longrightarrow> nd_ID n = k)"
proof (induction ns arbitrary: m)
  case (Cons n ns)
  have key: "nd_ID n' = k" if "gget (gput (nd_ID n) (node_row n) m) k = Some n'" for k n'
    using Cons.prems that by (cases "k = nd_ID n") (auto simp only: gget_gput simp_thms if_False if_True option.inject node_row_nd)
  show ?case unfolding fold_simps
    by (rule Cons.IH, intro conjI allI impI) (rule wf_gomap_gput [OF conjunct1 [OF Cons.prems]], rule key)
qed simp

lemma load_nodes_ok:
  "wf_gomap (load_nodes rows) \<and> (\<forall>k n. gget (load_nodes rows) k = Some n \<longrightarrow> nd_ID n = k)"
  unfolding load_nodes_def by (rule fold_put_nodes) simp

lemma merge_nodes_ok:
  "kg_ok g \<Longrightarrow> \<forall>k n. gget nodes k = Some n \<longrightarrow> nd_ID n = k \<Longrightarrow>
     kg_ok (merge_nodes nodes ids g) \<and> kg_edges (merge_nodes nodes ids g) = kg_edges g"
proof (induction ids arbitrary: g)
  case Nil
  then show ?case by (simp add: merge_nodes_def)
next
  case (Cons k ids)
  define g' where "g' = (case gget nodes k of None \<Rightarrow> g
       | Some n \<Rightarrow> g\<lparr>kg_nodes := gput k n (kg_nodes g), kg_index := index_node k (kg_index g)\<rparr>)"
  have "kg_ok g' \<and> kg_edges g' = kg_edges g"
    using Cons.prems indexed_mono(1) [of "kg_index g" _ k] by (auto simp: g'_def kg_ok_def split: option.splits)
  moreover have "merge_nodes nodes (k # ids) g = merge_nodes nodes ids g'" by (simp add: merge_nodes_def g'_def)
  ultimately show ?case using Cons.IH [of g'] Cons.prems(2) by simp
qed

lemma load_ok:
  assumes g: "kg_ok g" and "ranges froms (load_index (List.map_filter (\<lambda>r. r) erows))"
    and "\<And>from. ranges (tos from) (succs (load_index (List.map_filter (\<lambda>r. r) erows)) from)"
  shows "kg_ok (fst (LoadFromDB (Some nrows) (Some erows) ids froms tos g))"
proof (cases "kg_pool g")
  case True
  define es g1 where "es = List.map_filter (\<lambda>r. r) erows" and "g1 = merge_nodes (load_nodes nrows) ids g"
  have g1: "kg_ok g1" using merge_nodes_ok [OF g] load_nodes_ok unfolding g1_def by blast
  have to: "t \<in> set (tos f) \<longleftrightarrow> strset_has (succs (load_index es) f) t" for f t
    using assms(3) [of f] strset_keys load_index_has [of es] unfolding ranges_def es_def by auto
  have fr: "strset_has (succs (load_index es) f) t \<Longrightarrow> f \<in> set froms" for f t
    using assms(2) by (auto simp: ranges_def es_def set_gkeys succs_def split: option.splits)
  have m: "f \<in> set froms \<and> t \<in> set (tos f) \<longleftrightarrow> (f, t) \<in> (\<lambda>e. (eg_From e, eg_To e)) ` set es" for f t
    using to fr load_index_has [of es] by blast
  have "wf_gomap (kg_index g1)" "\<forall>k. strset_ok (succs (kg_index g1) k)" using g1 by (simp_all add: kg_ok_def)
  from merge_index_has [OF this, of froms tos] g1 show ?thesis
    using True by (simp add: LoadFromDB_def Let_def es_def [symmetric] g1_def [symmetric] kg_ok_def m image_Un)
qed (use g in \<open>simp add: LoadFromDB_def\<close>)

lemma new_ok: "kg_ok (fst (NewGraphWithDB pool created count))"
  by (simp add: NewGraphWithDB_def NewGraph_def kg_ok_def)

lemma AddNode_ok: "kg_ok g \<Longrightarrow> kg_ok (fst (AddNode now n g))"
  using indexed_mono(1) [of "kg_index g" _ "nd_ID n"] by (auto simp: AddNode_def Let_def kg_ok_def)

lemma AddEdge_ok: "kg_ok g \<Longrightarrow> kg_ok (fst (AddEdge now e g))"
  using indexed_mono(2) [of "kg_index g" _ "eg_From e" "eg_To e"] by (auto simp: AddEdge_def Let_def kg_ok_def)

lemma reachable_ok: "kg_reachable g \<Longrightarrow> kg_ok g"
  by (induction rule: kg_reachable.induct) (simp_all add: new_ok AddNode_ok AddEdge_ok load_ok)


subsection \<open>What the search finds\<close>

lemma visit_simps:
  "strset_has v t \<Longrightarrow> visit t (v, nxt) = (v, nxt)" "\<not> strset_has v t \<Longrightarrow> visit t (v, nxt) = (strset_add t v, nxt @ [t])"
  by (simp_all add: visit_def)

lemma fold_visit:
  "strset_ok v \<Longrightarrow> fold visit ts (v, nxt) = (v', nxt') \<Longrightarrow>
     strset_ok v' \<and> (\<forall>x. strset_has v' x \<longleftrightarrow> strset_has v x \<or> x \<in> set ts) \<and>
     set nxt' = set nxt \<union> {x \<in> set ts. \<not> strset_has v x}"
proof (induction ts arbitrary: v nxt)
  case (Cons t ts)
  then show ?case
  proof (cases "strset_has v t")
    case True
    with Cons.prems(2) have "fold visit ts (v, nxt) = (v', nxt')" by (simp add: visit_simps)
    from Cons.IH [OF Cons.prems(1) this] True show ?thesis by auto
  next
    case False
    with Cons.prems(2) have "fold visit ts (strset_add t v, nxt @ [t]) = (v', nxt')" by (simp add: visit_simps)
    from Cons.IH [OF _ this] Cons.prems(1) False show ?thesis by auto
  qed
qed simp

lemma fold_expand:
  "strset_ok v \<Longrightarrow> fold (\<lambda>k. fold visit (ord k)) queue (v, nxt) = (v', nxt') \<Longrightarrow>
     strset_ok v' \<and> (\<forall>x. strset_has v' x \<longleftrightarrow> strset_has v x \<or> (\<exists>k \<in> set queue. x \<in> set (ord k))) \<and>
     set nxt' = set nxt \<union> {x. \<exists>k \<in> set queue. x \<in> set (ord k) \<and> \<not> strset_has v x}"
proof (induction queue arbitrary: v nxt)
  case (Cons k queue)
  obtain v1 nxt1 where v1: "fold visit (ord k) (v, nxt) = (v1, nxt1)" by (cases "fold visit (ord k) (v, nxt)")
  from fold_visit [OF Cons.prems(1) v1] have s: "strset_ok v1" "\<And>x. strset_has v1 x \<longleftrightarrow> strset_has v x \<or> x \<in> set (ord k)"
    "set nxt1 = set nxt \<union> {x \<in> set (ord k). \<not> strset_has v x}" by auto
  from Cons.prems(2) v1 have "fold (\<lambda>k. fold visit (ord k)) queue (v1, nxt1) = (v', nxt')" by simp
  from Cons.IH [OF s(1) this] s(2,3) show ?case by auto
qed auto

text \<open>The nodes within \<open>d\<close> steps of a set.\<close>

primrec ball :: "('a \<times> 'a) set \<Rightarrow> nat \<Rightarrow> 'a set \<Rightarrow> 'a set" where
  "ball R 0 V = V"
| "ball R (Suc d) V = ball R d (V \<union> R `` V)"

lemma ball_relpow: "ball R d V = {x. \<exists>v \<in> V. \<exists>n \<le> d. (v, x) \<in> R ^^ n}"
proof (induction d arbitrary: V)
  case (Suc d)
  have "(\<exists>v \<in> V \<union> R `` V. \<exists>n \<le> d. (v, x) \<in> R ^^ n) \<longleftrightarrow> (\<exists>v \<in> V. \<exists>n \<le> Suc d. (v, x) \<in> R ^^ n)" for x
  proof
    assume "\<exists>v \<in> V \<union> R `` V. \<exists>n \<le> d. (v, x) \<in> R ^^ n"
    then show "\<exists>v \<in> V. \<exists>n \<le> Suc d. (v, x) \<in> R ^^ n" by (blast intro: relpow_Suc_I2 le_SucI Suc_le_mono [THEN iffD2])
  next
    assume "\<exists>v \<in> V. \<exists>n \<le> Suc d. (v, x) \<in> R ^^ n"
    then obtain v n where v: "v \<in> V" "n \<le> Suc d" "(v, x) \<in> R ^^ n" by blast
    show "\<exists>v \<in> V \<union> R `` V. \<exists>n \<le> d. (v, x) \<in> R ^^ n"
    proof (cases n)
      case 0
      with v have "x \<in> V" "(x, x) \<in> R ^^ 0" by auto
      then show ?thesis by blast
    next
      case (Suc m)
      with v(3) obtain y where "(v, y) \<in> R" "(y, x) \<in> R ^^ m" by (blast dest: relpow_Suc_D2)
      with v Suc show ?thesis by auto
    qed
  qed
  with Suc show ?case by simp
qed auto

lemma ball_closed: "R `` V \<subseteq> V \<Longrightarrow> ball R d V = V"
  by (induction d) (simp_all add: Un_absorb2)

lemma bfs_ball:
  assumes ord: "\<And>k. set (ord k) = R `` {k}"
  shows "strset_ok v \<Longrightarrow> set queue \<subseteq> Collect (strset_has v) \<Longrightarrow> R `` (Collect (strset_has v) - set queue) \<subseteq> Collect (strset_has v) \<Longrightarrow>
    strset_ok (bfs ord d queue v) \<and> Collect (strset_has (bfs ord d queue v)) = ball R d (Collect (strset_has v))"
proof (induction d arbitrary: queue v)
  case (Suc d)
  show ?case
  proof (cases "queue = []")
    case True
    with Suc.prems show ?thesis by (simp add: ball_closed Un_absorb2)
  next
    case False
    obtain v' nxt where e: "expand ord queue v = (v', nxt)" by (cases "expand ord queue v")
    have x: "strset_ok v'" "\<And>x. strset_has v' x \<longleftrightarrow> strset_has v x \<or> x \<in> R `` set queue"
      "set nxt = {x. x \<in> R `` set queue \<and> \<not> strset_has v x}"
      using fold_expand [OF Suc.prems(1) e [unfolded expand_def]] ord by auto
    have c: "Collect (strset_has v') = Collect (strset_has v) \<union> R `` Collect (strset_has v)"
      using Suc.prems(2,3) x(2) by blast
    have "strset_ok (bfs ord d nxt v') \<and> Collect (strset_has (bfs ord d nxt v')) = ball R d (Collect (strset_has v'))"
      using c x by (intro Suc.IH) auto
    with False e c show ?thesis by simp
  qed
qed simp

lemma Reachable_set:
  assumes ok: "kg_ok g" and ord: "\<And>k. ranges (ord k) (succs (kg_index g) k)" and out: "\<And>m. strset_ok m \<Longrightarrow> ranges (out_ord m) m"
  shows "set (Reachable ord out_ord startID maxDepth g) = {x. x \<noteq> startID \<and> (\<exists>n \<le> nat maxDepth. (startID, x) \<in> edge_rel g ^^ n)}"
    and "distinct (Reachable ord out_ord startID maxDepth g)"
proof -
  define v where "v = bfs ord (nat maxDepth) [startID] (strset_add startID [])"
  have o: "set (ord k) = edge_rel g `` {k}" for k
    using ord [of k] ok by (auto simp: ranges_def kg_ok_def strset_keys edge_rel_def)
  have c: "Collect (strset_has (strset_add startID [])) = {startID}" by auto
  from bfs_ball [where R = "edge_rel g" and ord = ord, OF o, of "strset_add startID []" "[startID]" "nat maxDepth"]
  have v: "strset_ok v" "Collect (strset_has v) = {x. \<exists>n \<le> nat maxDepth. (startID, x) \<in> edge_rel g ^^ n}"
    by (simp_all add: v_def c ball_relpow)
  have "set (out_ord v) = Collect (strset_has v)" "distinct (out_ord v)"
    using out [OF v(1)] strset_keys [OF v(1)] by (auto simp: ranges_def)
  with v(2) show "set (Reachable ord out_ord startID maxDepth g) = {x. x \<noteq> startID \<and> (\<exists>n \<le> nat maxDepth. (startID, x) \<in> edge_rel g ^^ n)}"
    and "distinct (Reachable ord out_ord startID maxDepth g)"
    by (auto simp: Reachable_def v_def [symmetric])
qed


subsection \<open>Properties\<close>

text \<open>
  C34. Well-formedness of the graph, in every state that additions and loads from the database can
  reach: nodes are stored under their own ID and are indexed, the index is a map of sets, and it agrees with the
  edge list in both directions, so that lookups through the index, \<^verbatim>\<open>GetEdgesFrom\<close> and
  \<^verbatim>\<open>GetEdgesTo\<close> describe the same relation.
\<close>

theorem graph_well_formed:
  assumes "kg_reachable g"
  shows "wf_gomap (kg_nodes g) \<and> wf_gomap (kg_index g) \<and>
    (\<forall>k n. GetNode k g = Some n \<longrightarrow> nd_ID n = k \<and> gget (kg_index g) k \<noteq> None) \<and>
    (\<forall>k. strset_ok (succs (kg_index g) k)) \<and>
    (\<forall>f t. strset_has (succs (kg_index g) f) t \<longleftrightarrow> t \<in> eg_To ` set (GetEdgesFrom f g)) \<and>
    (\<forall>f t. strset_has (succs (kg_index g) f) t \<longleftrightarrow> f \<in> eg_From ` set (GetEdgesTo t g))"
proof -
  have ok: "kg_ok g" using assms by (rule reachable_ok)
  have "(f, t) \<in> (\<lambda>e. (eg_From e, eg_To e)) ` set (kg_edges g) \<longleftrightarrow> t \<in> eg_To ` set (GetEdgesFrom f g)"
    "(f, t) \<in> (\<lambda>e. (eg_From e, eg_To e)) ` set (kg_edges g) \<longleftrightarrow> f \<in> eg_From ` set (GetEdgesTo t g)" for f t
    by (auto simp: GetEdgesFrom_def GetEdgesTo_def)
  with ok show ?thesis by (simp add: kg_ok_def GetNode_def)
qed

text \<open>
  \<^verbatim>\<open>Reachable\<close> is exact: whatever order Go iterates its maps in, it returns, sorted and without
  repetition, the nodes other than the start that a path of at most \<^verbatim>\<open>maxDepth\<close> edges leads to.
\<close>

theorem reachable_within_depth:
  assumes "kg_reachable g"
    and "\<And>k. ranges (ord k) (succs (kg_index g) k)" and "\<And>m. strset_ok m \<Longrightarrow> ranges (out_ord m) m"
  shows "sorted (Reachable ord out_ord startID maxDepth g) \<and> distinct (Reachable ord out_ord startID maxDepth g) \<and>
    set (Reachable ord out_ord startID maxDepth g) =
      {x. x \<noteq> startID \<and> (\<exists>n. int n \<le> maxDepth \<and> (startID, x) \<in> edge_rel g ^^ n)}"
proof -
  have R: "set (Reachable ord out_ord startID maxDepth g) = {x. x \<noteq> startID \<and> (\<exists>n \<le> nat maxDepth. (startID, x) \<in> edge_rel g ^^ n)}"
    "distinct (Reachable ord out_ord startID maxDepth g)"
    by (rule Reachable_set [OF reachable_ok [OF assms(1)]]; rule assms(2,3); assumption)+
  have "(\<exists>n \<le> nat maxDepth. (startID, x) \<in> edge_rel g ^^ n) \<longleftrightarrow> (\<exists>n. int n \<le> maxDepth \<and> (startID, x) \<in> edge_rel g ^^ n)" if "x \<noteq> startID" for x
  proof -
    have "n \<le> nat maxDepth \<and> (startID, x) \<in> edge_rel g ^^ n \<longleftrightarrow> int n \<le> maxDepth \<and> (startID, x) \<in> edge_rel g ^^ n" for n
      using that by (cases n) (auto simp: nat_le_iff le_nat_iff)
    then show ?thesis by blast
  qed
  then have "set (Reachable ord out_ord startID maxDepth g) = {x. x \<noteq> startID \<and> (\<exists>n. int n \<le> maxDepth \<and> (startID, x) \<in> edge_rel g ^^ n)}"
    unfolding R(1) by (intro Collect_cong conj_cong refl)
  moreover have "sorted (Reachable ord out_ord startID maxDepth g)" by (simp add: Reachable_def Let_def)
  ultimately show ?thesis using R(2) by blast
qed

text \<open>A service that uses a database storing personal data, and a second path of two edges.\<close>

definition demo_edge :: "string \<Rightarrow> string \<Rightarrow> Edge" where
  "demo_edge f t = \<lparr>eg_From = f, eg_To = t, eg_Relation = ''uses'', eg_Confidence = 1, eg_ProjectID = ''p'', eg_CreatedAt = 0\<rparr>"

definition demo_node :: "string \<Rightarrow> Node" where
  "demo_node k = \<lparr>nd_ID = k, nd_Type = ''service'', nd_Name = k, nd_ProjectID = ''p'', nd_Attributes = [(''a'', ''b'')], nd_Embedding = [],
     nd_CreatedAt = 0, nd_UpdatedAt = 0\<rparr>"

definition demo_graph :: Graph where
  "demo_graph =
     fst (AddEdge 3 (demo_edge ''pii'' ''audit'') (fst (AddEdge 2 (demo_edge ''db'' ''pii'') (fst (AddEdge 1 (demo_edge ''pay'' ''db'')
       (fst (AddNode 5 (demo_node ''pay'') (fst (NewGraphWithDB False False 0)))))))))"

definition demo_ord :: "string \<Rightarrow> string list" where
  "demo_ord k = gkeys (succs (kg_index demo_graph) k)"

lemma demo_graph_reachable: "kg_reachable demo_graph"
  unfolding demo_graph_def by (intro kg_edge kg_node kg_new)

lemma gkeys_ranges: "strset_ok m \<Longrightarrow> ranges (gkeys m) m"
  by (rule ranges_gkeys) (simp add: strset_ok_def)

lemma kg_ok_succs: "kg_ok g \<Longrightarrow> strset_ok (succs (kg_index g) k)"
  by (simp add: kg_ok_def)

lemma demo_ord_ranges: "ranges (demo_ord k) (succs (kg_index demo_graph) k)"
  unfolding demo_ord_def by (intro gkeys_ranges kg_ok_succs reachable_ok demo_graph_reachable)

theorem graph_well_formed_witness:
  "strset_has (succs (kg_index demo_graph) ''pay'') ''db'' \<and> ''db'' \<in> eg_To ` set (GetEdgesFrom ''pay'' demo_graph) \<and>
   (\<exists>n. GetNode ''pay'' demo_graph = Some n \<and> nd_ID n = ''pay'')"
proof -
  have "strset_has (succs (kg_index demo_graph) ''pay'') ''db''" by code_simp
  moreover have "GetNode ''pay'' demo_graph \<noteq> None" by code_simp
  ultimately show ?thesis using graph_well_formed [OF demo_graph_reachable] by blast
qed

theorem reachable_within_depth_witness:
  "Reachable demo_ord gkeys ''pay'' 2 demo_graph = [''db'', ''pii''] \<and>
   set [''db'', ''pii''] = {x. x \<noteq> ''pay'' \<and> (\<exists>n. int n \<le> 2 \<and> (''pay'', x) \<in> edge_rel demo_graph ^^ n)}"
proof -
  have "Reachable demo_ord gkeys ''pay'' 2 demo_graph = [''db'', ''pii'']" by code_simp
  with reachable_within_depth [OF demo_graph_reachable demo_ord_ranges gkeys_ranges, where startID = "''pay''" and maxDepth = 2] show ?thesis by simp
qed

text \<open>
  A load replaces the nodes in memory by rows without attributes and embedding, and repeats the
  edges that are already in memory.
\<close>

lemma load_drops_attributes:
  assumes "kg_pool g" "ids = [nd_ID n]"
  shows "GetNode (nd_ID n) (fst (LoadFromDB (Some [Some n]) (Some []) ids [] tos g)) = Some (n\<lparr>nd_Attributes := [], nd_Embedding := []\<rparr>)"
  using assms by (simp add: LoadFromDB_def GetNode_def merge_nodes_def load_nodes_def node_row_def map_filter_simps merge_index_def)

lemma load_repeats_edges:
  assumes "kg_pool g" "ranges ids (load_nodes nrows)"
  shows "kg_edges (fst (LoadFromDB (Some nrows) (Some (map Some (kg_edges g))) ids froms tos g)) = kg_edges g @ kg_edges g"
proof -
  have "kg_edges (merge_nodes nodes ks h) = kg_edges h" for nodes ks h
    by (induction ks arbitrary: h) (simp_all add: merge_nodes_def split: option.splits)
  moreover have "List.map_filter (\<lambda>r. r) (map Some es) = es" for es :: "Edge list"
    by (induction es) (simp_all add: map_filter_simps)
  ultimately show ?thesis using assms(1) by (simp add: LoadFromDB_def Let_def)
qed

text \<open>
  The rules the database was seeded with are the built-in ones, so every missing control is
  reported a second time, and a control named with hyphens, which the built-in check accepts, is
  reported as missing by the copy.
\<close>

lemma db_rules_repeat:
  assumes "kg_pool g" "kg_controlRules g = DefaultControlRules"
  shows "\<exists>D. ValidatePrompt (Some (map Some DefaultControlRules)) prompt code g = ValidatePrompt None prompt code g @ D \<and>
    set (ValidatePrompt None prompt code g) \<subseteq> set D"
proof -
  have "List.map_filter (\<lambda>r. r) (map Some es) = es" for es :: "ControlRule list"
    by (induction es) (simp_all add: map_filter_simps)
  then show ?thesis using assms
    by (auto simp: ValidatePrompt_def Let_def checkDBRules_def rule_warnings_def mentions_def db_mentions_def split: if_splits)
qed

lemma db_rules_reject_hyphens:
  "checkDBRules (Some (map Some DefaultControlRules)) ''email with header-injection-protection, rate limiting and unsubscribe''
     = [warn (DefaultControlRules ! 6) ''header_injection_protection'']"
  "concat (map (rule_warnings (mentions ''email with header-injection-protection, rate limiting and unsubscribe'')
     ''email with header-injection-protection, rate limiting and unsubscribe'') DefaultControlRules) = []"
  by code_simp+

end
