(* ===== verification/Rate_Middleware.thy ===== *)
theory Rate_Middleware
  imports Rate_Limit Access_Control Http
begin

text \<open>
  The request limiters of \<^verbatim>\<open>internal/middleware/ratelimit.go\<close> that count requests per key: the
  Redis sliding window with its Lua script, the informational header middleware, and the limiter
  of API key creation.

  Redis is a parameter, the record \<open>redis_ops\<close> of the commands the code issues, over an abstract
  server state. What the code relies on is the documented behaviour of these commands, stated as
  the predicates \<open>counter_laws\<close> and \<open>zset_laws\<close>; they describe a server that answers and no key
  of which expires while it is looked at.
\<close>

subsection \<open>Redis\<close>

record 'r redis_ops =
  ro_Get :: "string \<Rightarrow> 'r \<Rightarrow> redis_reply"
  ro_IncrBy :: "string \<Rightarrow> int \<Rightarrow> 'r \<Rightarrow> 'r \<times> (string + int)"
  ro_Expire :: "string \<Rightarrow> duration \<Rightarrow> 'r \<Rightarrow> 'r"
  ro_Set :: "string \<Rightarrow> string \<Rightarrow> duration \<Rightarrow> 'r \<Rightarrow> 'r"
  ro_Del :: "string \<Rightarrow> 'r \<Rightarrow> 'r"
  ro_TTL :: "string \<Rightarrow> 'r \<Rightarrow> string + duration"
  ro_ZRemRangeByScore :: "string \<Rightarrow> int \<Rightarrow> int \<Rightarrow> 'r \<Rightarrow> 'r"
  ro_ZCard :: "string \<Rightarrow> 'r \<Rightarrow> int"
  ro_ZAdd :: "string \<Rightarrow> int \<Rightarrow> string \<Rightarrow> 'r \<Rightarrow> 'r"
  ro_ZFirst :: "string \<Rightarrow> 'r \<Rightarrow> int option"
  ro_random :: "'r \<Rightarrow> string"
  ro_script_error :: "'r \<Rightarrow> string option"

text \<open>
  \<open>zv\<close> reads the sorted set under a key, as a map from members to scores. The script's
  \<^verbatim>\<open>EXPIRE\<close> lasts for a window, after which every member is out of the window and would be removed
  before it is counted, so that it changes nothing here.
\<close>

definition zset_laws :: "'r redis_ops \<Rightarrow> ('r \<Rightarrow> string \<Rightarrow> string \<rightharpoonup> int) \<Rightarrow> bool" where
  "zset_laws ops zv \<longleftrightarrow>
     (\<forall>r k. finite (dom (zv r k))) \<and>
     (\<forall>r. ro_script_error ops r = None) \<and>
     (\<forall>r k k' lo hi. zv (ro_ZRemRangeByScore ops k lo hi r) k' =
        (if k' = k then (\<lambda>m. case zv r k m of None \<Rightarrow> None | Some s \<Rightarrow> if lo \<le> s \<and> s \<le> hi then None else Some s) else zv r k')) \<and>
     (\<forall>r k. ro_ZCard ops k r = int (card (dom (zv r k)))) \<and>
     (\<forall>r k k' s m. zv (ro_ZAdd ops k s m r) k' = (if k' = k then (zv r k)(m \<mapsto> s) else zv r k')) \<and>
     (\<forall>r k d. zv (ro_Expire ops k d r) = zv r) \<and>
     (\<forall>r k. (ro_ZFirst ops k r = None \<longleftrightarrow> dom (zv r k) = {}) \<and>
        (\<forall>s. ro_ZFirst ops k r = Some s \<longrightarrow> s \<in> ran (zv r k) \<and> (\<forall>t \<in> ran (zv r k). s \<le> t)))"

subsection \<open>The sliding window script\<close>

text \<open>\<open>rateLimitScript\<close>: the count and the seconds to wait.\<close>

definition zmember :: "int \<Rightarrow> string \<Rightarrow> string" where
  "zmember now rnd = strconv_Itoa now @ ''-'' @ rnd"

definition rateLimitScript :: "'r redis_ops \<Rightarrow> string \<Rightarrow> int \<Rightarrow> int \<Rightarrow> int \<Rightarrow> 'r \<Rightarrow> 'r \<times> int \<times> int" where
  "rateLimitScript ops key window limit now r =
     (let r1 = ro_ZRemRangeByScore ops key 0 (now - window) r;
          count = ro_ZCard ops key r1
      in if count < limit
         then (ro_Expire ops key (window * Second) (ro_ZAdd ops key now (zmember now (ro_random ops r1)) r1), count + 1, 0)
         else (r1, count, case ro_ZFirst ops key r1 of None \<Rightarrow> 0 | Some oldest \<Rightarrow> window - (now - oldest)))"

record RateLimiter =
  rt_limit :: int
  rt_window :: duration

definition NewRateLimiter :: "int \<Rightarrow> duration \<Rightarrow> RateLimiter" where
  "NewRateLimiter limit window = \<lparr>rt_limit = limit, rt_window = window\<rparr>"

text \<open>\<^verbatim>\<open>Time.Unix\<close>; a \<open>gotime\<close> counts nanoseconds since Go's zero time, the first of January of year 1.\<close>

definition unix :: "gotime \<Rightarrow> int" where
  "unix t = t div Second - 62135596800"

text \<open>
  \<^verbatim>\<open>RateLimiter.Middleware\<close>. The client is \<open>None\<close> when Redis is not configured; the state is
  the Redis server's and that of the handlers behind.
\<close>

definition rt_Middleware ::
    "'r redis_ops option \<Rightarrow> gotime \<Rightarrow> (Request \<Rightarrow> string) \<Rightarrow> RateLimiter \<Rightarrow> 's handler \<Rightarrow> Request \<Rightarrow>
     'r \<times> 's \<Rightarrow> ('r \<times> 's) \<times> Response" where
  "rt_Middleware client time keyFunc rl next q st =
     (let (r, s) = st in
      case client of
        None \<Rightarrow> (let (s', rs) = next q s in ((r, s'), rs))
      | Some ops \<Rightarrow>
          let key = ''ratelimit:'' @ keyFunc q; now = unix time in
          case ro_script_error ops r of
            Some err \<Rightarrow> (let (s', rs) = next q s in ((r, s'), rs))
          | None \<Rightarrow>
              let (r', count, retryAfter) = rateLimitScript ops key (seconds_of (rt_window rl)) (rt_limit rl) now r;
                  hs = [(''X-RateLimit-Limit'', [strconv_Itoa (rt_limit rl)]),
                        (''X-RateLimit-Remaining'', [strconv_Itoa (max 0 (rt_limit rl - count))]),
                        (''X-RateLimit-Reset'', [strconv_Itoa (now + seconds_of (rt_window rl))])]
              in if 0 < retryAfter
                 then ((r', s), json_message 429 (hs @ [(''Retry-After'', [strconv_Itoa retryAfter])]) ''rate limit exceeded'')
                 else let (s', rs) = next q s in ((r', s'), preset hs rs))"

subsection \<open>Keys\<close>

text \<open>The address part of \<^verbatim>\<open>RemoteAddr\<close>; \<^verbatim>\<open>extractIP\<close> and \<^verbatim>\<open>RateLimitByIPKey\<close> compute it alike.\<close>

definition extractIP :: "Request \<Rightarrow> string" where
  "extractIP q =
     (let ip = rq_RemoteAddr q in
      if strings_HasPrefix ip ''[''
      then let idx = strings_LastIndex ip '']:'' in
           if idx \<noteq> -1 then take (nat (idx - 1)) (drop 1 ip) else strings_Trim ip ''[]''
      else if strings_Count1 ip (CHR '':'') = 1
      then let idx = strings_LastIndex ip '':'' in if idx \<noteq> -1 then take (nat idx) ip else ip
      else ip)"

definition RateLimitByIPKey :: "Request \<Rightarrow> string" where
  "RateLimitByIPKey q = ''ip:'' @ extractIP q"

text \<open>\<open>claims\<close>: the user of the token in the request's context.\<close>

definition user_or_ip_key :: "(Request \<Rightarrow> string option) \<Rightarrow> Request \<Rightarrow> string" where
  "user_or_ip_key claims q = (case claims q of Some u \<Rightarrow> ''user:'' @ u | None \<Rightarrow> RateLimitByIPKey q)"

definition RateLimitByKey ::
    "'r redis_ops option \<Rightarrow> gotime \<Rightarrow> string \<Rightarrow> int \<Rightarrow> duration \<Rightarrow> 's handler \<Rightarrow> Request \<Rightarrow> 'r \<times> 's \<Rightarrow> ('r \<times> 's) \<times> Response" where
  "RateLimitByKey client time key limit window = rt_Middleware client time (\<lambda>q. key) (NewRateLimiter limit window)"

definition RateLimitByIP ::
    "'r redis_ops option \<Rightarrow> gotime \<Rightarrow> int \<Rightarrow> duration \<Rightarrow> 's handler \<Rightarrow> Request \<Rightarrow> 'r \<times> 's \<Rightarrow> ('r \<times> 's) \<times> Response" where
  "RateLimitByIP client time limit window = rt_Middleware client time RateLimitByIPKey (NewRateLimiter limit window)"

definition RateLimitByUser ::
    "(Request \<Rightarrow> string option) \<Rightarrow> 'r redis_ops option \<Rightarrow> gotime \<Rightarrow> int \<Rightarrow> duration \<Rightarrow> 's handler \<Rightarrow> Request \<Rightarrow>
     'r \<times> 's \<Rightarrow> ('r \<times> 's) \<times> Response" where
  "RateLimitByUser claims client time limit window =
     rt_Middleware client time (user_or_ip_key claims) (NewRateLimiter limit window)"

subsection \<open>Informational headers\<close>

record slidingWindow =
  hw_count :: int
  hw_windowStart :: gotime

record RateLimitHeaders =
  rh_limit :: int
  rh_window :: duration
  rh_counters :: "(string, slidingWindow) gomap"

definition NewRateLimitHeaders :: "int \<Rightarrow> duration \<Rightarrow> RateLimitHeaders" where
  "NewRateLimitHeaders limit window = \<lparr>rh_limit = limit, rh_window = window, rh_counters = []\<rparr>"

definition rh_cleanup :: "gotime \<Rightarrow> RateLimitHeaders \<Rightarrow> RateLimitHeaders" where
  "rh_cleanup now rl =
     rl\<lparr>rh_counters := gfilter (\<lambda>k sw. \<not> rh_window rl < time_Sub now (hw_windowStart sw)) (rh_counters rl)\<rparr>"

definition rh_Middleware ::
    "gotime \<Rightarrow> (Request \<Rightarrow> string) \<Rightarrow> 's handler \<Rightarrow> Request \<Rightarrow> RateLimitHeaders \<times> 's \<Rightarrow> (RateLimitHeaders \<times> 's) \<times> Response" where
  "rh_Middleware now keyFunc next q st =
     (let (rl, s) = st; key = keyFunc q in
      if key = [] then (let (s', rs) = next q s in ((rl, s'), rs))
      else
        let sw = (case gget (rh_counters rl) key of
                    Some sw \<Rightarrow> if rh_window rl < time_Sub now (hw_windowStart sw) then \<lparr>hw_count = 0, hw_windowStart = now\<rparr> else sw
                  | None \<Rightarrow> \<lparr>hw_count = 0, hw_windowStart = now\<rparr>);
            sw' = sw\<lparr>hw_count := hw_count sw + 1\<rparr>;
            hs = [(''X-RateLimit-Limit'', [strconv_Itoa (rh_limit rl)]),
                  (''X-RateLimit-Remaining'', [strconv_Itoa (if rh_limit rl - hw_count sw' < 0 then 0 else rh_limit rl - hw_count sw')]),
                  (''X-RateLimit-Reset'', [strconv_Itoa (unix (time_Add (hw_windowStart sw') (rh_window rl)))])];
            (s', rs) = next q s
        in ((rl\<lparr>rh_counters := gput key sw' (rh_counters rl)\<rparr>, s'), preset hs rs))"

subsection \<open>API key creation\<close>

record apikeyWindowState =
  aw_Count :: int
  aw_WindowStart :: gotime

record APIKeyCreateRateLimiter =
  ak_counts :: "(string, apikeyWindowState) gomap"
  ak_maxKeys :: int
  ak_window :: duration

record APIKeyCreateRateLimiterConfig =
  akc_MaxKeys :: int
  akc_Window :: duration

definition DefaultAPIKeyCreateRateLimiterConfig :: APIKeyCreateRateLimiterConfig where
  "DefaultAPIKeyCreateRateLimiterConfig = \<lparr>akc_MaxKeys = 3, akc_Window = 1 * Hour\<rparr>"

definition NewAPIKeyCreateRateLimiter :: "APIKeyCreateRateLimiterConfig \<Rightarrow> APIKeyCreateRateLimiter" where
  "NewAPIKeyCreateRateLimiter cfg0 =
     (let cfg = (if akc_MaxKeys cfg0 \<le> 0 then DefaultAPIKeyCreateRateLimiterConfig else cfg0)
      in \<lparr>ak_counts = [], ak_maxKeys = akc_MaxKeys cfg, ak_window = akc_Window cfg\<rparr>)"

definition ak_cleanup :: "gotime \<Rightarrow> APIKeyCreateRateLimiter \<Rightarrow> APIKeyCreateRateLimiter" where
  "ak_cleanup now l =
     l\<lparr>ak_counts := gfilter (\<lambda>k st. \<not> ak_window l < time_Sub now (aw_WindowStart st)) (ak_counts l)\<rparr>"

definition keyPrefix :: "string \<Rightarrow> string" where
  "keyPrefix userID = ''apikey_create:'' @ userID"

text \<open>An unparsable or missing counter counts as an error, as in \<^verbatim>\<open>Get(...).Int()\<close>.\<close>

definition reply_int :: "redis_reply \<Rightarrow> int option" where
  "reply_int rep = (case rep of RVal v \<Rightarrow> strconv_Atoi v | _ \<Rightarrow> None)"

definition ak_allowRedis :: "'r redis_ops \<Rightarrow> string \<Rightarrow> APIKeyCreateRateLimiter \<Rightarrow> 'r \<Rightarrow> bool" where
  "ak_allowRedis ops key l r = (case reply_int (ro_Get ops key r) of None \<Rightarrow> True | Some cnt \<Rightarrow> cnt < ak_maxKeys l)"

definition ak_allowMemory :: "gotime \<Rightarrow> string \<Rightarrow> APIKeyCreateRateLimiter \<Rightarrow> bool" where
  "ak_allowMemory now key l =
     (case gget (ak_counts l) key of
        None \<Rightarrow> True
      | Some st \<Rightarrow> if ak_window l < time_Since now (aw_WindowStart st) then True else aw_Count st < ak_maxKeys l)"

definition ak_Allow :: "'r redis_ops option \<Rightarrow> gotime \<Rightarrow> string \<Rightarrow> APIKeyCreateRateLimiter \<times> 'r \<Rightarrow> bool" where
  "ak_Allow client now userID lr =
     (case client of Some ops \<Rightarrow> ak_allowRedis ops (keyPrefix userID) (fst lr) (snd lr)
      | None \<Rightarrow> ak_allowMemory now (keyPrefix userID) (fst lr))"

definition ak_recordRedis :: "'r redis_ops \<Rightarrow> string \<Rightarrow> APIKeyCreateRateLimiter \<Rightarrow> 'r \<Rightarrow> 'r" where
  "ak_recordRedis ops key l r =
     (case ro_IncrBy ops key 1 r of
        (r', Inl err) \<Rightarrow> r'
      | (r', Inr cnt) \<Rightarrow> if cnt = 1 then ro_Expire ops key (ak_window l) r' else r')"

text \<open>The three clock readings of \<^verbatim>\<open>recordMemory\<close>.\<close>

definition ak_recordMemory :: "gotime \<Rightarrow> gotime \<Rightarrow> gotime \<Rightarrow> string \<Rightarrow> APIKeyCreateRateLimiter \<Rightarrow> APIKeyCreateRateLimiter" where
  "ak_recordMemory created now now' key l =
     (let st0 = (case gget (ak_counts l) key of Some st \<Rightarrow> st | None \<Rightarrow> \<lparr>aw_Count = 0, aw_WindowStart = created\<rparr>);
          st1 = (if ak_window l < time_Since now (aw_WindowStart st0) then \<lparr>aw_Count = 0, aw_WindowStart = now'\<rparr> else st0)
      in l\<lparr>ak_counts := gput key (st1\<lparr>aw_Count := aw_Count st1 + 1\<rparr>) (ak_counts l)\<rparr>)"

definition ak_Record ::
    "'r redis_ops option \<Rightarrow> gotime \<Rightarrow> gotime \<Rightarrow> gotime \<Rightarrow> string \<Rightarrow> APIKeyCreateRateLimiter \<times> 'r \<Rightarrow> APIKeyCreateRateLimiter \<times> 'r" where
  "ak_Record client created now now' userID lr =
     (case client of Some ops \<Rightarrow> (fst lr, ak_recordRedis ops (keyPrefix userID) (fst lr) (snd lr))
      | None \<Rightarrow> (ak_recordMemory created now now' (keyPrefix userID) (fst lr), snd lr))"

definition ak_GetRemaining :: "'r redis_ops option \<Rightarrow> gotime \<Rightarrow> string \<Rightarrow> APIKeyCreateRateLimiter \<times> 'r \<Rightarrow> int" where
  "ak_GetRemaining client now userID lr =
     (let l = fst lr; key = keyPrefix userID in
      case client of
        Some ops \<Rightarrow>
          (case reply_int (ro_Get ops key (snd lr)) of
             None \<Rightarrow> ak_maxKeys l
           | Some cnt \<Rightarrow> if ak_maxKeys l - cnt < 0 then 0 else ak_maxKeys l - cnt)
      | None \<Rightarrow>
          (case gget (ak_counts l) key of
             None \<Rightarrow> ak_maxKeys l
           | Some st \<Rightarrow> if ak_window l < time_Since now (aw_WindowStart st) then ak_maxKeys l
                        else if ak_maxKeys l - aw_Count st < 0 then 0 else ak_maxKeys l - aw_Count st))"

definition isAPIKeyCreatePath :: "string \<Rightarrow> bool" where
  "isAPIKeyCreatePath path \<longleftrightarrow> path = ''/api/v1/api-keys'' \<or> path = ''/api-keys''"

definition ak_Middleware ::
    "'r redis_ops option \<Rightarrow> gotime \<Rightarrow> (Request \<Rightarrow> string option) \<Rightarrow> (APIKeyCreateRateLimiter \<times> 'r) handler \<Rightarrow>
     (APIKeyCreateRateLimiter \<times> 'r) handler" where
  "ak_Middleware client now claims next q lr =
     (if rq_Method q \<noteq> ''POST'' \<or> \<not> isAPIKeyCreatePath (rq_Path q) then next q lr
      else case claims q of
        None \<Rightarrow> next q lr
      | Some userID \<Rightarrow>
          if \<not> ak_Allow client now userID lr
          then (lr, json_message 429
                  [(''X-RateLimit-Limit'', [strconv_Itoa (ak_maxKeys (fst lr))]),
                   (''X-RateLimit-Remaining'', [strconv_Itoa (ak_GetRemaining client now userID lr)]),
                   (''Retry-After'', [strconv_Itoa (seconds_of (ak_window (fst lr)))])]
                  ''API key creation rate limit exceeded'')
          else next q lr)"


subsection \<open>What the script admits\<close>

lemmas zset_lawsD = zset_laws_def [THEN iffD1]

lemma zset_simps:
  assumes "zset_laws ops zv"
  shows "zv (ro_ZRemRangeByScore ops k lo hi r) k' =
        (if k' = k then (\<lambda>m. case zv r k m of None \<Rightarrow> None | Some s \<Rightarrow> if lo \<le> s \<and> s \<le> hi then None else Some s) else zv r k')"
    and "ro_ZCard ops k r = int (card (dom (zv r k)))"
    and "zv (ro_ZAdd ops k s m r) k' = (if k' = k then (zv r k)(m \<mapsto> s) else zv r k')"
    and "zv (ro_Expire ops k d r) = zv r"
    and "ro_script_error ops r = None" and "finite (dom (zv r k))"
  using assms by (simp_all add: zset_laws_def)

lemma zfirst:
  assumes "zset_laws ops zv"
  shows "ro_ZFirst ops k r = None \<longleftrightarrow> dom (zv r k) = {}" and "ro_ZFirst ops k r = Some s \<Longrightarrow> s \<in> ran (zv r k)"
  using assms by (simp_all add: zset_laws_def)

text \<open>One request against a key: whether the middleware lets it pass.\<close>

definition script_allow :: "'r redis_ops \<Rightarrow> int \<Rightarrow> int \<Rightarrow> gotime \<Rightarrow> string \<Rightarrow> 'r \<Rightarrow> 'r \<times> bool" where
  "script_allow ops window limit now key r =
     (case rateLimitScript ops key window limit now r of (r', cnt, retryAfter) \<Rightarrow> (r', \<not> 0 < retryAfter))"

text \<open>All scores are times after 1970.\<close>

definition zscores_ok :: "('r \<Rightarrow> string \<Rightarrow> string \<rightharpoonup> int) \<Rightarrow> 'r \<Rightarrow> bool" where
  "zscores_ok zv r \<longleftrightarrow> (\<forall>k m s. zv r k m = Some s \<longrightarrow> 0 \<le> s)"

definition pruned :: "(string \<rightharpoonup> int) \<Rightarrow> int \<Rightarrow> string \<rightharpoonup> int" where
  "pruned z cutoff = (\<lambda>m. case z m of None \<Rightarrow> None | Some s \<Rightarrow> if cutoff < s then Some s else None)"

lemma pruned_rem:
  assumes "zset_laws ops zv" "zscores_ok zv r"
  shows "zv (ro_ZRemRangeByScore ops k 0 hi r) k = pruned (zv r k) hi"
  using assms(2) by (auto simp: zset_simps [OF assms(1)] pruned_def zscores_ok_def fun_eq_iff split: option.splits)

lemma pruned_Some: "pruned z cutoff m = Some s \<longleftrightarrow> z m = Some s \<and> cutoff < s"
  by (auto simp: pruned_def split: option.splits)

lemma script_allow_iff:
  assumes L: "zset_laws ops zv" and ok: "zscores_ok zv r" and lim: "0 < limit"
  shows "snd (script_allow ops window limit now key r) \<longleftrightarrow> int (card (dom (pruned (zv r key) (now - window)))) < limit"
proof -
  define r1 where "r1 = ro_ZRemRangeByScore ops key 0 (now - window) r"
  have z: "zv r1 key = pruned (zv r key) (now - window)" unfolding r1_def by (rule pruned_rem [OF L ok])
  show ?thesis
  proof (cases "ro_ZCard ops key r1 < limit")
    case True
    then show ?thesis by (simp add: script_allow_def rateLimitScript_def Let_def r1_def [symmetric] zset_simps(2) [OF L] z)
  next
    case False
    then have "dom (zv r1 key) \<noteq> {}" using lim by (auto simp: zset_simps(2) [OF L])
    then obtain s where s: "ro_ZFirst ops key r1 = Some s" using zfirst(1) [OF L] by (cases "ro_ZFirst ops key r1") auto
    with zfirst(2) [OF L, of key r1 s] have "now - window < s" by (auto simp: z ran_def pruned_Some)
    with False s show ?thesis by (simp add: script_allow_def rateLimitScript_def Let_def r1_def [symmetric] zset_simps(2) [OF L] z)
  qed
qed

lemma script_state:
  fixes window now :: int and key :: string
  assumes L: "zset_laws ops zv" and ok: "zscores_ok zv r" and lim: "0 < limit"
  defines "r1 \<equiv> ro_ZRemRangeByScore ops key 0 (now - window) r"
  shows "zv (fst (script_allow ops window limit now key r)) k' =
    (if k' \<noteq> key then zv r k'
     else if snd (script_allow ops window limit now key r)
     then (pruned (zv r key) (now - window))(zmember now (ro_random ops r1) \<mapsto> now)
     else pruned (zv r key) (now - window))"
proof -
  have z: "zv r1 key = pruned (zv r key) (now - window)" unfolding r1_def by (rule pruned_rem [OF L ok])
  have o: "k' \<noteq> key \<Longrightarrow> zv r1 k' = zv r k'" by (simp add: r1_def zset_simps [OF L])
  have "snd (script_allow ops window limit now key r) \<longleftrightarrow> ro_ZCard ops key r1 < limit"
    by (simp add: script_allow_iff [OF L ok lim] zset_simps(2) [OF L] z)
  then show ?thesis using z o
    by (auto simp: script_allow_def rateLimitScript_def Let_def r1_def [symmetric] zset_simps(3,4) [OF L])
qed

lemma script_scores_ok:
  assumes "zset_laws ops zv" "zscores_ok zv r" "0 < limit" "0 \<le> now"
  shows "zscores_ok zv (fst (script_allow ops window limit now key r))"
  using assms(2,4) unfolding zscores_ok_def script_state [OF assms(1-3)] by (auto simp: pruned_Some split: if_splits)

subsection \<open>With distinct members\<close>

text \<open>The scores of a sorted set, as the log of the abstract sliding window.\<close>

definition zlog :: "('r \<Rightarrow> string \<Rightarrow> string \<rightharpoonup> int) \<Rightarrow> 'r \<Rightarrow> string \<Rightarrow> gotime list" where
  "zlog zv r k = sorted_list_of_multiset (image_mset (\<lambda>m. the (zv r k m)) (mset_set (dom (zv r k))))"

definition fresh_members :: "'r redis_ops \<Rightarrow> ('r \<Rightarrow> string \<Rightarrow> string \<rightharpoonup> int) \<Rightarrow> bool" where
  "fresh_members ops zv \<longleftrightarrow> (\<forall>r k now. zv r k (zmember now (ro_random ops r)) = None)"

lemma mset_zlog: "mset (zlog zv r k) = image_mset (\<lambda>m. the (zv r k m)) (mset_set (dom (zv r k)))"
  by (simp add: zlog_def)

lemma dom_pruned: "dom (pruned z cutoff) = {m \<in> dom z. cutoff < the (z m)}"
  by (auto simp: pruned_def split: option.splits if_splits)

lemma filter_zlog:
  assumes "zset_laws ops zv"
  shows "mset (filter (\<lambda>t. cutoff < t) (zlog zv r k)) =
    image_mset (\<lambda>m. the (pruned (zv r k) cutoff m)) (mset_set (dom (pruned (zv r k) cutoff)))"
proof -
  have f: "finite (dom (zv r k))" by (rule zset_simps(6) [OF assms])
  have "mset (filter (\<lambda>t. cutoff < t) (zlog zv r k)) = image_mset (\<lambda>m. the (zv r k m)) (mset_set (dom (pruned (zv r k) cutoff)))"
    by (simp add: mset_zlog filter_mset_image_mset dom_pruned f)
  also have "\<dots> = image_mset (\<lambda>m. the (pruned (zv r k) cutoff m)) (mset_set (dom (pruned (zv r k) cutoff)))"
    using f by (intro image_mset_cong) (auto simp: pruned_def dom_pruned [unfolded pruned_def] split: option.splits)
  finally show ?thesis .
qed

lemma script_window:
  assumes L: "zset_laws ops zv" and F: "fresh_members ops zv" and lim: "0 < limit"
  shows "sliding_window (script_allow ops window limit) (zlog zv) (zscores_ok zv) (\<lambda>_. limit) (\<lambda>_. window) (\<lambda>t. 0 \<le> t)"
proof
  fix r now k
  assume ok: "zscores_ok zv r" and now: "0 \<le> (now :: gotime)"
  let ?z = "pruned (zv r k) (now - window)" and ?r1 = "ro_ZRemRangeByScore ops k 0 (now - window) r"
  have f: "finite (dom ?z)" using zset_simps(6) [OF L] by (simp add: dom_pruned)
  show "zscores_ok zv (fst (script_allow ops window limit now k r))" by (rule script_scores_ok [OF L ok lim now])
  show "zlog zv (fst (script_allow ops window limit now k r)) k' = zlog zv r k'" if "k' \<noteq> k" for k'
    using that by (simp add: zlog_def script_state [OF L ok lim])
  show "snd (script_allow ops window limit now k r) \<longleftrightarrow> int (length (filter (\<lambda>t. now - window < t) (zlog zv r k))) < limit"
    using arg_cong [OF filter_zlog [OF L, of "now - window" r k], of size]
    by (simp add: script_allow_iff [OF L ok lim] del: mset_filter)
  have "zv ?r1 k = ?z" by (rule pruned_rem [OF L ok])
  with F have new: "zmember now (ro_random ops ?r1) \<notin> dom ?z" by (metis domIff fresh_members_def)
  show "mset (zlog zv (fst (script_allow ops window limit now k r)) k) =
      mset (filter (\<lambda>t. now - window < t) (zlog zv r k) @ (if snd (script_allow ops window limit now k r) then [now] else []))"
  proof (cases "snd (script_allow ops window limit now k r)")
    case True
    have "image_mset (\<lambda>m. the ((?z(zmember now (ro_random ops ?r1) \<mapsto> now)) m)) (mset_set (dom ?z)) = image_mset (\<lambda>m. the (?z m)) (mset_set (dom ?z))"
      using new f by (intro image_mset_cong) auto
    moreover have "mset (zlog zv (fst (script_allow ops window limit now k r)) k) =
        image_mset (\<lambda>m. the ((?z(zmember now (ro_random ops ?r1) \<mapsto> now)) m)) (mset_set (insert (zmember now (ro_random ops ?r1)) (dom ?z)))"
      using True by (simp add: mset_zlog script_state [OF L ok lim])
    ultimately show ?thesis unfolding mset_append filter_zlog [OF L] using True new f by simp
  next
    case False
    then show ?thesis unfolding mset_append filter_zlog [OF L] by (simp add: mset_zlog script_state [OF L ok lim])
  qed
qed

subsection \<open>With the random numbers of Redis\<close>

text \<open>
  Redis documents that \<^verbatim>\<open>math.random\<close> yields the same sequence in every run of a script, so that
  its first value is always the same. Then the members of one second coincide, and the set
  counts seconds, not requests.
\<close>

definition seeded_alike :: "'r redis_ops \<Rightarrow> bool" where
  "seeded_alike ops \<longleftrightarrow> (\<forall>r r'. ro_random ops r = ro_random ops r')"

definition per_second :: "('r \<Rightarrow> string \<Rightarrow> string \<rightharpoonup> int) \<Rightarrow> string \<Rightarrow> int \<Rightarrow> 'r \<Rightarrow> bool" where
  "per_second zv c now r \<longleftrightarrow> (\<forall>k m s. zv r k m = Some s \<longrightarrow> m = zmember s c \<and> 0 \<le> s \<and> s \<le> now)"

lemma per_second_card:
  assumes L: "zset_laws ops zv" and r: "per_second zv c n r" and "n \<le> now" "0 \<le> window"
  shows "int (card (dom (pruned (zv r k) (now - window)))) \<le> window"
proof -
  have "dom (pruned (zv r k) (now - window)) \<subseteq> (\<lambda>s. zmember s c) ` {now - window <.. now}"
    using r assms(3) by (fastforce simp: pruned_Some per_second_def)
  then have "card (dom (pruned (zv r k) (now - window))) \<le> card ((\<lambda>s. zmember s c) ` {now - window <.. now})"
    by (intro card_mono) simp_all
  also have "\<dots> \<le> card {now - window <.. now}" by (rule card_image_le) simp
  finally show ?thesis using assms(4) by simp
qed

lemma per_second_step:
  assumes L: "zset_laws ops zv" and S: "\<And>r. ro_random ops r = c" and r: "per_second zv c n r"
    and "n \<le> now" "0 \<le> now" "0 \<le> window" "window < limit"
  shows "snd (script_allow ops window limit now key r)" and "per_second zv c now (fst (script_allow ops window limit now key r))"
proof -
  have ok: "zscores_ok zv r" using r by (auto simp: per_second_def zscores_ok_def)
  have lim: "0 < limit" using assms(6,7) by simp
  show "snd (script_allow ops window limit now key r)"
    using per_second_card [OF L r assms(4,6), of key] assms(7) by (simp add: script_allow_iff [OF L ok lim])
  show "per_second zv c now (fst (script_allow ops window limit now key r))"
    using r assms(4,5) unfolding per_second_def script_state [OF L ok lim] S
    by (auto simp: pruned_Some split: if_splits dest: order_trans)
qed

text \<open>A run of requests through the limiter, each with the time it is served at.\<close>

definition rt_run ::
    "'r redis_ops option \<Rightarrow> (Request \<Rightarrow> string) \<Rightarrow> RateLimiter \<Rightarrow> 's handler \<Rightarrow> (gotime \<times> Request) list \<Rightarrow> 'r \<times> 's \<Rightarrow> 'r \<times> 's" where
  "rt_run client keyFunc rl next rs st = fold (\<lambda>(t, q) st. fst (rt_Middleware client t keyFunc rl next q st)) rs st"

lemma rt_Middleware_state:
  fixes rl :: RateLimiter
  assumes "zset_laws ops zv"
  defines "a \<equiv> script_allow ops (seconds_of (rt_window rl)) (rt_limit rl)"
  shows "fst (rt_Middleware (Some ops) t keyFunc rl next q (r, s)) =
    (fst (a (unix t) (''ratelimit:'' @ keyFunc q) r), if snd (a (unix t) (''ratelimit:'' @ keyFunc q) r) then fst (next q s) else s)"
proof -
  obtain r' cnt ra where "rateLimitScript ops (''ratelimit:'' @ keyFunc q) (seconds_of (rt_window rl)) (rt_limit rl) (unix t) r = (r', cnt, ra)"
    by (metis prod_cases3)
  then show ?thesis by (simp add: a_def rt_Middleware_def script_allow_def zset_simps(5) [OF assms(1)] Let_def split: prod.split)
qed

lemma unix_mono: "t \<le> t' \<Longrightarrow> unix t \<le> unix t'"
  by (simp add: unix_def Second_def zdiv_mono1)

lemma rt_run_unlimited:
  assumes L: "zset_laws ops zv" and S: "\<And>r. ro_random ops r = c"
    and w: "0 \<le> seconds_of (rt_window rl)" "seconds_of (rt_window rl) < rt_limit rl"
  shows "per_second zv c n r \<Longrightarrow> sorted (map fst rs) \<Longrightarrow> \<forall>x \<in> set rs. n \<le> unix (fst x) \<and> 0 \<le> unix (fst x) \<Longrightarrow>
    snd (rt_run (Some ops) keyFunc rl next rs (r, s)) = fold (\<lambda>(t, q) s. fst (next q s)) rs s"
proof (induction rs arbitrary: n r s)
  case Nil
  then show ?case by (simp add: rt_run_def)
next
  case (Cons x rs)
  obtain t q where x: "x = (t, q)" by (cases x)
  have le: "n \<le> unix t" "0 \<le> unix t" using Cons.prems(3) x by simp_all
  note step = per_second_step [OF L S Cons.prems(1) le w, where key = "''ratelimit:'' @ keyFunc q"]
  have later: "\<forall>y \<in> set rs. unix t \<le> unix (fst y) \<and> 0 \<le> unix (fst y)"
    using Cons.prems(2,3) x by (auto intro: unix_mono)
  have "sorted (map fst rs)" using Cons.prems(2) by simp
  from Cons.IH [OF step(2) this later, of "fst (next q s)"] show ?case
    using rt_Middleware_state [OF L, of t keyFunc rl "next" q r s] step(1) x by (simp add: rt_run_def)
qed

text \<open>
  The Redis limiter does not limit. With the documented random numbers of Redis scripts, a limit
  above the number of seconds of the window is never reached: whatever requests arrive and
  whatever handler is behind, every request is served, and the handler's state after the run is
  the one it reaches without the limiter. The server's limiter of 100 requests a minute is such a one.
\<close>

theorem redis_limiter_never_refuses:
  assumes "zset_laws ops zv" "seeded_alike ops" "\<And>k. zv r k = Map.empty"
    and "sorted (map fst rs)" "\<forall>x \<in> set rs. 0 \<le> unix (fst x)"
    and "0 \<le> seconds_of window" "seconds_of window < limit"
  shows "snd (rt_run (Some ops) keyFunc (NewRateLimiter limit window) next rs (r, s)) = fold (\<lambda>(t, q) s. fst (next q s)) rs s"
proof (rule rt_run_unlimited [OF assms(1), where n = 0])
  show "\<And>r'. ro_random ops r' = ro_random ops r" using assms(2) by (simp add: seeded_alike_def)
  show "per_second zv (ro_random ops r) 0 r" using assms(3) by (simp add: per_second_def)
qed (use assms in \<open>simp_all add: NewRateLimiter_def\<close>)

text \<open>
  With a fresh member for every request the script is a correct sliding window: no window holds
  more admitted requests of a key than the limit, and a request is refused only when the window
  before it is full.
\<close>

theorem redis_window_limit:
  assumes "zset_laws ops zv" "fresh_members ops zv" "0 < limit" "0 < window"
    and "\<And>k. zv r k = Map.empty" "sorted (map fst rs @ [now])" "\<forall>x \<in> set rs. 0 \<le> fst x" "0 \<le> now"
  shows "in_window x (x + window) (times_of key (admitted (script_allow ops window limit) rs r)) \<le> limit \<and>
    (snd (script_allow ops window limit now key (after_requests (script_allow ops window limit) rs r)) \<longleftrightarrow>
       in_window (now - window) now (times_of key (admitted (script_allow ops window limit) rs r)) < limit)"
proof -
  note W = script_window [OF assms(1-3), of window]
  have i: "zscores_ok zv r" "zlog zv r key = []" using assms(5) by (simp_all add: zscores_ok_def zlog_def)
  have "sorted (map fst rs)" using assms(6) by (simp add: sorted_append)
  from sliding_window.window_bound [OF W i this assms(4), of x] sliding_window.refused_only_when_full [OF W i assms(6,4)]
  show ?thesis using assms(3,7,8) by simp
qed


text \<open>
  A server that satisfies the laws: the members of all sorted sets with their scores, the latest
  entry for a member counting. \<open>rnd\<close> are its random numbers.
\<close>

type_synonym zserver = "((string \<times> string) \<times> int) list"

definition zserver_ops :: "(zserver \<Rightarrow> string) \<Rightarrow> zserver redis_ops" where
  "zserver_ops rnd =
     \<lparr>ro_Get = \<lambda>k r. RNil, ro_IncrBy = \<lambda>k n r. (r, Inr n), ro_Expire = \<lambda>k d r. r, ro_Set = \<lambda>k v d r. r, ro_Del = \<lambda>k r. r,
      ro_TTL = \<lambda>k r. Inr 0,
      ro_ZRemRangeByScore = \<lambda>k lo hi r. filter (\<lambda>(x, _). \<not> (fst x = k \<and> lo \<le> the (map_of r x) \<and> the (map_of r x) \<le> hi)) r,
      ro_ZCard = \<lambda>k r. int (card {m. map_of r (k, m) \<noteq> None}),
      ro_ZAdd = \<lambda>k s m r. ((k, m), s) # r,
      ro_ZFirst = \<lambda>k r. if {m. map_of r (k, m) \<noteq> None} = {} then None
         else Some (Min ((\<lambda>m. the (map_of r (k, m))) ` {m. map_of r (k, m) \<noteq> None})),
      ro_random = rnd, ro_script_error = \<lambda>r. None\<rparr>"

definition zserver_view :: "zserver \<Rightarrow> string \<Rightarrow> string \<rightharpoonup> int" where
  "zserver_view r k m = map_of r (k, m)"

lemma map_of_filter_key: "map_of (filter (\<lambda>(x, _). P x) xs) k = (if P k then map_of xs k else None)"
  by (induction xs) auto

lemma zserver_finite: "finite {m. map_of r (k, m) \<noteq> None}"
proof -
  have "{m. map_of r (k, m) \<noteq> None} \<subseteq> (\<lambda>x. snd (fst x)) ` set r"
    by (auto dest!: map_of_SomeD intro!: rev_image_eqI)
  then show ?thesis by (rule finite_subset) simp
qed

lemma zserver_laws: "zset_laws (zserver_ops rnd) zserver_view"
proof -
  have d: "dom (zserver_view r k) = {m. map_of r (k, m) \<noteq> None}" for r k by (simp add: zserver_view_def dom_def)
  have "s \<in> ran (zserver_view r k) \<and> (\<forall>t \<in> ran (zserver_view r k). s \<le> t)"
    if "ro_ZFirst (zserver_ops rnd) k r = Some s" for r k s
  proof -
    have ran: "ran (zserver_view r k) = (\<lambda>m. the (map_of r (k, m))) ` {m. map_of r (k, m) \<noteq> None}"
      by (auto simp: ran_def zserver_view_def image_iff) (metis option.sel)
    show ?thesis using that zserver_finite [of r k] unfolding ran
      by (auto simp: zserver_ops_def split: if_splits intro: Min_in Min_le)
  qed
  moreover have "finite (dom (zserver_view r k))" for r k unfolding d by (rule zserver_finite)
  ultimately show ?thesis unfolding zset_laws_def
    by (simp add: zserver_ops_def zserver_view_def [abs_def] map_of_filter_key fun_eq_iff dom_def split: option.splits)
qed

definition longer_than_all :: "zserver \<Rightarrow> string" where
  "longer_than_all r = replicate (Suc (sum_list (map (\<lambda>x. length (snd (fst x))) r))) (CHR ''x'')"

lemma zserver_fresh: "fresh_members (zserver_ops longer_than_all) zserver_view"
proof -
  have "map_of r (k, m) = None" if "sum_list (map (\<lambda>x. length (snd (fst x))) r) < length m" for r :: zserver and k m
  proof (rule ccontr)
    assume "map_of r (k, m) \<noteq> None"
    then obtain s where "((k, m), s) \<in> set r" by (auto dest: map_of_SomeD)
    then have "length m \<in> set (map (\<lambda>x. length (snd (fst x))) r)" by force
    from member_le_sum_list [OF this] that show False by simp
  qed
  then show ?thesis by (simp add: fresh_members_def zserver_view_def zserver_ops_def longer_than_all_def zmember_def)
qed

definition demo_get :: Request where
  "demo_get = \<lparr>rq_Method = ''GET'', rq_Path = ''/api/v1/events'', rq_RawQuery = [], rq_RemoteAddr = ''10.0.0.1:999'',
     rq_Header = \<lambda>_. [], rq_Body = []\<rparr>"

definition counting_handler :: "nat handler" where
  "counting_handler q n = (Suc n, \<lparr>rs_Status = 200, rs_Header = [], rs_Body = [], rs_HeaderWritten = True\<rparr>)"

theorem redis_limiter_never_refuses_witness:
  "snd (rt_run (Some (zserver_ops (\<lambda>_. ''0.17''))) RateLimitByIPKey (NewRateLimiter 100 Minute) counting_handler
     (replicate 500 (2000000000 * 62135596800, demo_get)) ([], 0)) = 500"
proof -
  have c: "fold (\<lambda>(t, q) s. fst (counting_handler q s)) (replicate n (t :: gotime, q)) m = m + n" for n t q m
    by (induction n arbitrary: m) (simp_all add: counting_handler_def)
  have m: "seconds_of 60000000000 = 60" using seconds_of_whole [of 60] by (simp add: Second_def)
  have "snd (rt_run (Some (zserver_ops (\<lambda>_. ''0.17''))) RateLimitByIPKey (NewRateLimiter 100 Minute) counting_handler
     (replicate 500 (2000000000 * 62135596800, demo_get)) ([], 0)) =
     fold (\<lambda>(t :: gotime, q) s. fst (counting_handler q s)) (replicate 500 (2000000000 * 62135596800, demo_get)) 0"
    by (rule redis_limiter_never_refuses [OF zserver_laws])
      (simp_all add: seeded_alike_def zserver_ops_def zserver_view_def [abs_def] unix_def m duration_defs)
  then show ?thesis unfolding c by simp
qed

theorem redis_window_limit_witness:
  "in_window 0 60 (times_of ''u'' (admitted (script_allow (zserver_ops longer_than_all) 60 2) [(10, ''u''), (10, ''u''), (11, ''u'')] [])) \<le> 2 \<and>
   (snd (script_allow (zserver_ops longer_than_all) 60 2 12 ''u''
       (after_requests (script_allow (zserver_ops longer_than_all) 60 2) [(10, ''u''), (10, ''u''), (11, ''u'')] [])) \<longleftrightarrow>
     in_window (12 - 60) 12 (times_of ''u'' (admitted (script_allow (zserver_ops longer_than_all) 60 2) [(10, ''u''), (10, ''u''), (11, ''u'')] [])) < 2)"
  using redis_window_limit [OF zserver_laws zserver_fresh, of 2 60 "[]" "[(10, ''u''), (10, ''u''), (11, ''u'')]" 12 0 "''u''"]
  by (simp add: zserver_view_def [abs_def])

end
