(* ===== verification/App_Errors.thy ===== *)
theory App_Errors
  imports Http
begin

text \<open>
  The application errors of \<^verbatim>\<open>internal/errors/errors.go\<close>: the machine-readable codes, the error
  value with its HTTP status, and the table from codes to statuses.
\<close>

datatype ErrorCode =
    ErrMissingAuth | ErrInvalidCredentials | ErrTokenExpired | ErrTokenInvalid | ErrAccountLocked | ErrAccountDisabled
  | ErrInsufficientPerms | ErrEmailNotVerified | ErrPasswordTooWeak | ErrDuplicateEmail | ErrAPIKeyInvalid | ErrHashFailed
  | ErrAPIKeyExpired | ErrInvalidBody | ErrMissingField | ErrInvalidEmail | ErrInvalidID | ErrPayloadTooLarge
  | ErrInvalidQuery | ErrInvalidPagination | ErrNotFound | ErrAlreadyExists | ErrConflict | ErrDeleted
  | ErrScanFailed | ErrScanTimeout | ErrScanInputEmpty | ErrUnsupportedLang | ErrReviewFailed | ErrNoLLMProvider
  | ErrSkillNotFound | ErrSkillNotPublished | ErrSkillUploadFailed | ErrSkillScanFailed | ErrSkillVersionInvalid | ErrSkillSearchFailed
  | ErrBillingNotConfigured | ErrCheckoutFailed | ErrSubscriptionNotFound | ErrPaymentFailed | ErrRateLimited | ErrServiceDown
  | ErrDBError | ErrCacheError | ErrQueueError | ErrWebhookFailed

fun code_string :: "ErrorCode \<Rightarrow> string" where
  "code_string ErrMissingAuth = ''AUTH_001''"
| "code_string ErrInvalidCredentials = ''AUTH_002''"
| "code_string ErrTokenExpired = ''AUTH_003''"
| "code_string ErrTokenInvalid = ''AUTH_004''"
| "code_string ErrAccountLocked = ''AUTH_005''"
| "code_string ErrAccountDisabled = ''AUTH_006''"
| "code_string ErrInsufficientPerms = ''AUTH_007''"
| "code_string ErrEmailNotVerified = ''AUTH_008''"
| "code_string ErrPasswordTooWeak = ''AUTH_009''"
| "code_string ErrDuplicateEmail = ''AUTH_010''"
| "code_string ErrAPIKeyInvalid = ''AUTH_011''"
| "code_string ErrHashFailed = ''AUTH_012''"
| "code_string ErrAPIKeyExpired = ''AUTH_013''"
| "code_string ErrInvalidBody = ''VAL_001''"
| "code_string ErrMissingField = ''VAL_002''"
| "code_string ErrInvalidEmail = ''VAL_003''"
| "code_string ErrInvalidID = ''VAL_004''"
| "code_string ErrPayloadTooLarge = ''VAL_005''"
| "code_string ErrInvalidQuery = ''VAL_006''"
| "code_string ErrInvalidPagination = ''VAL_007''"
| "code_string ErrNotFound = ''RES_001''"
| "code_string ErrAlreadyExists = ''RES_002''"
| "code_string ErrConflict = ''RES_003''"
| "code_string ErrDeleted = ''RES_004''"
| "code_string ErrScanFailed = ''SCAN_001''"
| "code_string ErrScanTimeout = ''SCAN_002''"
| "code_string ErrScanInputEmpty = ''SCAN_003''"
| "code_string ErrUnsupportedLang = ''SCAN_004''"
| "code_string ErrReviewFailed = ''SCAN_005''"
| "code_string ErrNoLLMProvider = ''SCAN_006''"
| "code_string ErrSkillNotFound = ''SKILL_001''"
| "code_string ErrSkillNotPublished = ''SKILL_002''"
| "code_string ErrSkillUploadFailed = ''SKILL_003''"
| "code_string ErrSkillScanFailed = ''SKILL_004''"
| "code_string ErrSkillVersionInvalid = ''SKILL_005''"
| "code_string ErrSkillSearchFailed = ''SKILL_006''"
| "code_string ErrBillingNotConfigured = ''BILL_001''"
| "code_string ErrCheckoutFailed = ''BILL_002''"
| "code_string ErrSubscriptionNotFound = ''BILL_003''"
| "code_string ErrPaymentFailed = ''BILL_004''"
| "code_string ErrRateLimited = ''INFRA_001''"
| "code_string ErrServiceDown = ''INFRA_002''"
| "code_string ErrDBError = ''INFRA_003''"
| "code_string ErrCacheError = ''INFRA_004''"
| "code_string ErrQueueError = ''INFRA_005''"
| "code_string ErrWebhookFailed = ''INFRA_006''"

fun errorCodeToStatus :: "ErrorCode \<Rightarrow> int" where
  "errorCodeToStatus ErrMissingAuth = 401"
| "errorCodeToStatus ErrInvalidCredentials = 401"
| "errorCodeToStatus ErrTokenExpired = 401"
| "errorCodeToStatus ErrTokenInvalid = 401"
| "errorCodeToStatus ErrAccountDisabled = 401"
| "errorCodeToStatus ErrEmailNotVerified = 401"
| "errorCodeToStatus ErrAPIKeyInvalid = 401"
| "errorCodeToStatus ErrAPIKeyExpired = 401"
| "errorCodeToStatus ErrHashFailed = 400"
| "errorCodeToStatus ErrInsufficientPerms = 403"
| "errorCodeToStatus ErrAccountLocked = 429"
| "errorCodeToStatus ErrPasswordTooWeak = 400"
| "errorCodeToStatus ErrDuplicateEmail = 409"
| "errorCodeToStatus ErrInvalidBody = 400"
| "errorCodeToStatus ErrMissingField = 400"
| "errorCodeToStatus ErrInvalidEmail = 400"
| "errorCodeToStatus ErrInvalidID = 400"
| "errorCodeToStatus ErrPayloadTooLarge = 413"
| "errorCodeToStatus ErrInvalidQuery = 400"
| "errorCodeToStatus ErrInvalidPagination = 400"
| "errorCodeToStatus ErrNotFound = 404"
| "errorCodeToStatus ErrAlreadyExists = 409"
| "errorCodeToStatus ErrConflict = 409"
| "errorCodeToStatus ErrDeleted = 410"
| "errorCodeToStatus ErrScanInputEmpty = 400"
| "errorCodeToStatus ErrUnsupportedLang = 400"
| "errorCodeToStatus ErrNoLLMProvider = 503"
| "errorCodeToStatus ErrScanFailed = 500"
| "errorCodeToStatus ErrScanTimeout = 504"
| "errorCodeToStatus ErrReviewFailed = 500"
| "errorCodeToStatus ErrSkillNotFound = 404"
| "errorCodeToStatus ErrSkillNotPublished = 404"
| "errorCodeToStatus ErrSkillVersionInvalid = 400"
| "errorCodeToStatus ErrSkillUploadFailed = 500"
| "errorCodeToStatus ErrSkillScanFailed = 500"
| "errorCodeToStatus ErrSkillSearchFailed = 500"
| "errorCodeToStatus ErrBillingNotConfigured = 503"
| "errorCodeToStatus ErrSubscriptionNotFound = 404"
| "errorCodeToStatus ErrCheckoutFailed = 400"
| "errorCodeToStatus ErrPaymentFailed = 402"
| "errorCodeToStatus ErrRateLimited = 429"
| "errorCodeToStatus ErrServiceDown = 503"
| "errorCodeToStatus ErrDBError = 500"
| "errorCodeToStatus ErrCacheError = 503"
| "errorCodeToStatus ErrQueueError = 500"
| "errorCodeToStatus ErrWebhookFailed = 500"

record APIError =
  ae_Code :: ErrorCode
  ae_Message :: string
  ae_Status :: int
  ae_Details :: "string option"

definition apierror_New :: "ErrorCode \<Rightarrow> string \<Rightarrow> APIError" where
  "apierror_New code message = \<lparr>ae_Code = code, ae_Message = message, ae_Status = errorCodeToStatus code, ae_Details = None\<rparr>"

definition WithDetails :: "string \<Rightarrow> APIError \<Rightarrow> APIError" where
  "WithDetails details e = e\<lparr>ae_Details := Some details\<rparr>"

definition HTTPStatus :: "APIError \<Rightarrow> int" where
  "HTTPStatus e = (if 0 < ae_Status e then ae_Status e else errorCodeToStatus (ae_Code e))"

definition ae_Error :: "APIError \<Rightarrow> string" where
  "ae_Error e = ''['' @ code_string (ae_Code e) @ ''] '' @ ae_Message e"

text \<open>\<^verbatim>\<open>response.JSON(w, apiErr.HTTPStatus(), apiErr)\<close>\<close>

definition error_response :: "Header \<Rightarrow> ErrorCode \<Rightarrow> string \<Rightarrow> Response" where
  "error_response hs code message = json_message (HTTPStatus (apierror_New code message)) hs (ae_Error (apierror_New code message))"

text \<open>Codes are told apart by their strings, and every code is a client or a server error.\<close>

lemma code_string_inj: "code_string c = code_string d \<longleftrightarrow> c = d"
proof -
  let ?all = "[ErrMissingAuth, ErrInvalidCredentials, ErrTokenExpired, ErrTokenInvalid, ErrAccountLocked, ErrAccountDisabled,
    ErrInsufficientPerms, ErrEmailNotVerified, ErrPasswordTooWeak, ErrDuplicateEmail, ErrAPIKeyInvalid,
    ErrHashFailed, ErrAPIKeyExpired, ErrInvalidBody, ErrMissingField, ErrInvalidEmail, ErrInvalidID,
    ErrPayloadTooLarge, ErrInvalidQuery, ErrInvalidPagination, ErrNotFound, ErrAlreadyExists, ErrConflict,
    ErrDeleted, ErrScanFailed, ErrScanTimeout, ErrScanInputEmpty, ErrUnsupportedLang, ErrReviewFailed,
    ErrNoLLMProvider, ErrSkillNotFound, ErrSkillNotPublished, ErrSkillUploadFailed, ErrSkillScanFailed,
    ErrSkillVersionInvalid, ErrSkillSearchFailed, ErrBillingNotConfigured, ErrCheckoutFailed,
    ErrSubscriptionNotFound, ErrPaymentFailed, ErrRateLimited, ErrServiceDown, ErrDBError, ErrCacheError,
    ErrQueueError, ErrWebhookFailed]"
  have "distinct (map code_string ?all)" by code_simp
  then have "inj_on code_string (set ?all)" by (simp only: distinct_map)
  moreover have "x \<in> set ?all" for x by (cases x) simp_all
  ultimately show ?thesis by (metis inj_on_eq_iff)
qed

lemma errorCodeToStatus_range: "400 \<le> errorCodeToStatus c \<and> errorCodeToStatus c < 600"
  by (cases c) simp_all

lemma error_response_status [simp]: "rs_Status (error_response hs code message) = errorCodeToStatus code"
  using errorCodeToStatus_range [of code] by (simp add: error_response_def HTTPStatus_def apierror_New_def)

end
