(* ===== verification/Login.thy ===== *)
theory Login
  imports Rate_Middleware App_Errors
begin

text \<open>
  Logging in: the login rate limiter of \<^verbatim>\<open>internal/middleware/ratelimit.go\<close> (per address and e-mail,
  with progressive lockout, in memory or in Redis), the handler \<^verbatim>\<open>loginHandler\<close> of
  \<^verbatim>\<open>internal/router/router.go\<close> with the account lockout behind it, and the route that puts one in
  front of the other (\<^verbatim>\<open>internal/router/routes.go\<close>).

  Clock readings are arguments; the handler reads the clock several times, \<open>clk i\<close> is its \<open>i\<close>-th
  reading. The JSON decoder, the user table, bcrypt and the token service are the record \<open>login_env\<close>.
\<close>

subsection \<open>The limiter\<close>

record loginAttemptState =
  la_Count :: int
  la_WindowStart :: gotime
  la_LockedUntil :: gotime
  la_LockoutLevel :: int

record LoginRateLimiter =
  ll_attempts :: "(string, loginAttemptState) gomap"
  ll_maxAttempts :: int
  ll_window :: duration
  ll_lockoutDurations :: "duration list"

record LoginRateLimiterConfig =
  lc_MaxAttempts :: int
  lc_Window :: duration
  lc_LockoutDurations :: "duration list"

definition DefaultLoginRateLimiterConfig :: LoginRateLimiterConfig where
  "DefaultLoginRateLimiterConfig =
     \<lparr>lc_MaxAttempts = 5, lc_Window = 1 * Minute, lc_LockoutDurations = [1 * Minute, 5 * Minute, 15 * Minute, 30 * Minute]\<rparr>"

definition NewLoginRateLimiter :: "LoginRateLimiterConfig \<Rightarrow> LoginRateLimiter" where
  "NewLoginRateLimiter cfg0 =
     (let cfg1 = (if lc_MaxAttempts cfg0 \<le> 0 then DefaultLoginRateLimiterConfig else cfg0);
          durations = (if lc_LockoutDurations cfg1 = [] then lc_LockoutDurations DefaultLoginRateLimiterConfig else lc_LockoutDurations cfg1)
      in \<lparr>ll_attempts = [], ll_maxAttempts = lc_MaxAttempts cfg1, ll_window = lc_Window cfg1, ll_lockoutDurations = durations\<rparr>)"

text \<open>One tick of the cleanup goroutine.\<close>

definition ll_cleanup :: "gotime \<Rightarrow> LoginRateLimiter \<Rightarrow> LoginRateLimiter" where
  "ll_cleanup now l =
     l\<lparr>ll_attempts := gfilter (\<lambda>key st.
         let expired = \<not> IsZero (la_LockedUntil st) \<and> la_LockedUntil st < now;
             stale = IsZero (la_LockedUntil st) \<and> ll_window l * 2 < time_Sub now (la_WindowStart st)
         in \<not> (expired \<or> stale)) (ll_attempts l)\<rparr>"

definition stateKey :: "string \<Rightarrow> string \<Rightarrow> string" where
  "stateKey ip email = ip @ '':'' @ email"

text \<open>\<^verbatim>\<open>level, _ := strconv.Atoi(val)\<close>: zero for a text that is not a number.\<close>

definition atoi_level :: "string \<Rightarrow> int" where
  "atoi_level v = (case strconv_Atoi v of Some n \<Rightarrow> n | None \<Rightarrow> 0)"

definition isLockedRedis :: "'r redis_ops \<Rightarrow> string \<Rightarrow> string \<Rightarrow> 'r \<Rightarrow> bool" where
  "isLockedRedis ops ip email r =
     (case ro_Get ops (''login_lockout:'' @ ip @ '':'' @ email) r of
        RVal val \<Rightarrow> 0 \<le> atoi_level val | RNil \<Rightarrow> True | RErr err \<Rightarrow> True)"

definition ll_IsLocked :: "'r redis_ops option \<Rightarrow> gotime \<Rightarrow> string \<Rightarrow> string \<Rightarrow> LoginRateLimiter \<times> 'r \<Rightarrow> bool" where
  "ll_IsLocked client now ip email lr =
     (case client of
        Some ops \<Rightarrow> isLockedRedis ops ip email (snd lr)
      | None \<Rightarrow>
          (case gget (ll_attempts (fst lr)) (stateKey ip email) of
             None \<Rightarrow> False
           | Some st \<Rightarrow> \<not> IsZero (la_LockedUntil st) \<and> now < la_LockedUntil st))"

text \<open>Indexing out of range panics: \<open>None\<close>.\<close>

definition index_opt :: "'a list \<Rightarrow> int \<Rightarrow> 'a option" where
  "index_opt xs i = (if 0 \<le> i \<and> i < int (length xs) then Some (xs ! nat i) else None)"

definition recordFailureRedis :: "'r redis_ops \<Rightarrow> string \<Rightarrow> string \<Rightarrow> LoginRateLimiter \<Rightarrow> 'r \<Rightarrow> ('r \<times> duration) option" where
  "recordFailureRedis ops ip email l r =
     (let attemptK = ''login_attempts:'' @ ip @ '':'' @ email; lockoutK = ''login_lockout:'' @ ip @ '':'' @ email in
      case ro_IncrBy ops attemptK 1 r of
        (r1, Inl err) \<Rightarrow> Some (r1, 0)
      | (r1, Inr cnt) \<Rightarrow>
          let r2 = (if cnt = 1 then ro_Expire ops attemptK (ll_window l) r1 else r1); n = int (length (ll_lockoutDurations l)) in
          if cnt = ll_maxAttempts l
          then (case index_opt (ll_lockoutDurations l) 0 of
                  None \<Rightarrow> None
                | Some duration \<Rightarrow> Some (ro_Set ops lockoutK ''0'' duration r2, duration))
          else if ll_maxAttempts l < cnt
          then let level0 = (case ro_Get ops lockoutK r2 of RVal val \<Rightarrow> atoi_level val | _ \<Rightarrow> 0);
                   level = (if n \<le> level0 then n - 1 else level0);
                   nextLevel = (if n \<le> level + 1 then n - 1 else level + 1)
               in (case index_opt (ll_lockoutDurations l) level of
                     None \<Rightarrow> None
                   | Some duration \<Rightarrow> Some (ro_Set ops lockoutK (strconv_Itoa nextLevel) duration r2, duration))
          else Some (r2, 0))"

text \<open>\<open>t1\<close> to \<open>t4\<close>: the clock readings for a new state, the age of the window, the new window and the lock.\<close>

definition recordFailureMemory ::
    "gotime \<Rightarrow> gotime \<Rightarrow> gotime \<Rightarrow> gotime \<Rightarrow> string \<Rightarrow> string \<Rightarrow> LoginRateLimiter \<Rightarrow> (LoginRateLimiter \<times> duration) option" where
  "recordFailureMemory t1 t2 t3 t4 ip email l =
     (let key = stateKey ip email;
          st0 = (case gget (ll_attempts l) key of Some st \<Rightarrow> st
                 | None \<Rightarrow> \<lparr>la_Count = 0, la_WindowStart = t1, la_LockedUntil = zero_time, la_LockoutLevel = 0\<rparr>);
          st1 = (if ll_window l < time_Since t2 (la_WindowStart st0)
                 then st0\<lparr>la_Count := 0, la_WindowStart := t3, la_LockedUntil := zero_time\<rparr> else st0);
          st2 = st1\<lparr>la_Count := la_Count st1 + 1\<rparr>;
          put = (\<lambda>st. l\<lparr>ll_attempts := gput key st (ll_attempts l)\<rparr>);
          n = int (length (ll_lockoutDurations l))
      in if ll_maxAttempts l \<le> la_Count st2
         then let level = (if n \<le> la_LockoutLevel st2 then n - 1 else la_LockoutLevel st2) in
              (case index_opt (ll_lockoutDurations l) level of
                 None \<Rightarrow> None
               | Some duration \<Rightarrow>
                   Some (put (st2\<lparr>la_LockedUntil := time_Add t4 duration, la_LockoutLevel := level + 1\<rparr>), duration))
         else Some (put st2, 0))"

definition ll_RecordFailure ::
    "'r redis_ops option \<Rightarrow> gotime \<Rightarrow> gotime \<Rightarrow> gotime \<Rightarrow> gotime \<Rightarrow> string \<Rightarrow> string \<Rightarrow> LoginRateLimiter \<times> 'r \<Rightarrow>
     ((LoginRateLimiter \<times> 'r) \<times> duration) option" where
  "ll_RecordFailure client t1 t2 t3 t4 ip email lr =
     (case client of
        Some ops \<Rightarrow> map_option (\<lambda>(r, d). ((fst lr, r), d)) (recordFailureRedis ops ip email (fst lr) (snd lr))
      | None \<Rightarrow> map_option (\<lambda>(l, d). ((l, snd lr), d)) (recordFailureMemory t1 t2 t3 t4 ip email (fst lr)))"

definition ll_RecordSuccess :: "'r redis_ops option \<Rightarrow> string \<Rightarrow> string \<Rightarrow> LoginRateLimiter \<times> 'r \<Rightarrow> LoginRateLimiter \<times> 'r" where
  "ll_RecordSuccess client ip email lr =
     (case client of
        Some ops \<Rightarrow> (fst lr, ro_Del ops (''login_lockout:'' @ ip @ '':'' @ email) (ro_Del ops (''login_attempts:'' @ ip @ '':'' @ email) (snd lr)))
      | None \<Rightarrow> ((fst lr)\<lparr>ll_attempts := gdel (stateKey ip email) (ll_attempts (fst lr))\<rparr>, snd lr))"

definition ll_GetRemainingLockout :: "'r redis_ops option \<Rightarrow> gotime \<Rightarrow> string \<Rightarrow> string \<Rightarrow> LoginRateLimiter \<times> 'r \<Rightarrow> duration" where
  "ll_GetRemainingLockout client now ip email lr =
     (case client of
        Some ops \<Rightarrow>
          (case ro_TTL ops (''login_lockout:'' @ ip @ '':'' @ email) (snd lr) of Inl err \<Rightarrow> 0 | Inr ttl \<Rightarrow> if ttl < 0 then 0 else ttl)
      | None \<Rightarrow>
          (case gget (ll_attempts (fst lr)) (stateKey ip email) of
             None \<Rightarrow> 0
           | Some st \<Rightarrow>
               if IsZero (la_LockedUntil st) then 0
               else let remaining = time_Sub (la_LockedUntil st) now in if remaining < 0 then 0 else remaining))"

subsection \<open>The handler\<close>

record User =
  us_ID :: string
  us_Email :: string
  us_PasswordHash :: string
  us_Role :: string
  us_IsActive :: bool

text \<open>
  \<open>le_email\<close>: the e-mail the middleware decodes from the body; \<open>le_login\<close>: e-mail and password the handler
  decodes; \<open>le_find\<close>: \<^verbatim>\<open>FindByEmail\<close>; \<open>le_check\<close>: \<^verbatim>\<open>auth.CheckPassword\<close>; \<open>le_token\<close>: \<^verbatim>\<open>GenerateToken\<close>.
\<close>

record login_env =
  le_email :: "string \<Rightarrow> string option"
  le_login :: "string \<Rightarrow> (string \<times> string) option"
  le_find :: "string \<Rightarrow> User option"
  le_check :: "string \<Rightarrow> string \<Rightarrow> bool"
  le_token :: "User \<Rightarrow> string option"

text \<open>
  The state behind the route: the account lockout (in memory, as without Redis), the login
  limiter, and the users whose last login was updated.
\<close>

record 'r login_state =
  lg_lockout :: AccountLockout
  lg_limiter :: LoginRateLimiter
  lg_redis :: 'r
  lg_logins :: "string list"

definition extractLoginIP :: "Request \<Rightarrow> string" where
  "extractLoginIP q =
     (let ip = rq_RemoteAddr q; idx = strings_LastIndex ip '':'' in if 0 < idx then take (nat idx) ip else ip)"

definition limiter_pair :: "'r login_state \<Rightarrow> LoginRateLimiter \<times> 'r" where
  "limiter_pair st = (lg_limiter st, lg_redis st)"

definition with_limiter :: "LoginRateLimiter \<times> 'r \<Rightarrow> 'r login_state \<Rightarrow> 'r login_state" where
  "with_limiter lr st = st\<lparr>lg_limiter := fst lr, lg_redis := snd lr\<rparr>"

definition loginHandler :: "login_env \<Rightarrow> 'r redis_ops option \<Rightarrow> (nat \<Rightarrow> gotime) \<Rightarrow> Request \<Rightarrow> 'r login_state \<Rightarrow> ('r login_state \<times> Response) option" where
  "loginHandler env client clk q st0 =
     (case le_login env (rq_Body q) of
        None \<Rightarrow> Some (st0, error_response [] ErrInvalidBody ''invalid request body'')
      | Some (email, password) \<Rightarrow>
          let (al, locked) = al_IsLocked (clk 0) (clk 1) email (lg_lockout st0); st = st0\<lparr>lg_lockout := al\<rparr> in
          if locked
          then Some (st, error_response [(''Retry-After'', [strconv_Itoa (seconds_rounded (al_GetRemainingLockout (clk 2) email al))])]
                           ErrAccountLocked ''account locked due to too many failed attempts'')
          else case le_find env email of
            None \<Rightarrow> Some (st, error_response [] ErrInvalidCredentials ''invalid credentials'')
          | Some user \<Rightarrow>
              if \<not> le_check env password (us_PasswordHash user)
              then let st1 = st\<lparr>lg_lockout := al_RecordFailure (clk 2) (clk 3) email (lg_lockout st)\<rparr> in
                   (case ll_RecordFailure client (clk 4) (clk 5) (clk 6) (clk 7) (extractLoginIP q) email (limiter_pair st1) of
                      None \<Rightarrow> None
                    | Some (lr, d) \<Rightarrow> Some (with_limiter lr st1, error_response [] ErrInvalidCredentials ''invalid credentials''))
              else if \<not> us_IsActive user
              then Some (st, error_response [] ErrAccountDisabled ''account is disabled'')
              else
                let st1 = st\<lparr>lg_lockout := al_RecordSuccess email (lg_lockout st)\<rparr>;
                    st2 = with_limiter (ll_RecordSuccess client (extractLoginIP q) email (limiter_pair st1)) st1;
                    st3 = st2\<lparr>lg_logins := lg_logins st2 @ [us_ID user]\<rparr>
                in (case le_token env user of
                      None \<Rightarrow> Some (st3, error_response [] ErrTokenInvalid ''failed to generate token'')
                    | Some token \<Rightarrow> Some (st3, json_message 200 [] token)))"

text \<open>\<^verbatim>\<open>io.ReadAll(io.LimitReader(r.Body, 1<<20))\<close>\<close>

definition limited_body :: "string \<Rightarrow> string" where
  "limited_body b = (if int (length b) \<le> 2 ^ 20 then b else take (nat (2 ^ 20)) b)"

text \<open>
  The limiter in front of a handler; a handler returns \<open>None\<close> when it panics. The body is read up
  to \<open>2 ^ 20\<close> bytes and what was read is passed on.
\<close>

definition ll_Middleware ::
    "login_env \<Rightarrow> 'r redis_ops option \<Rightarrow> gotime \<Rightarrow> gotime \<Rightarrow> (Request \<Rightarrow> 'r login_state \<Rightarrow> ('r login_state \<times> Response) option) \<Rightarrow>
     Request \<Rightarrow> 'r login_state \<Rightarrow> ('r login_state \<times> Response) option" where
  "ll_Middleware env client now now' next q st =
     (if rq_Method q \<noteq> ''POST'' then next q st
      else
        let body = limited_body (rq_Body q); q' = q\<lparr>rq_Body := body\<rparr>;
            email = (case le_email env body of Some e \<Rightarrow> strings_TrimSpace e | None \<Rightarrow> []);
            ip = extractIP q
        in if email = [] then next q' st
           else if ll_IsLocked client now ip email (limiter_pair st)
           then Some (st, json_message 429
                  [(''Retry-After'', [strconv_Itoa (seconds_of (ll_GetRemainingLockout client now' ip email (limiter_pair st)))])]
                  ''too many login attempts, please try again later'')
           else next q' st)"

text \<open>\<^verbatim>\<open>public.With(r.loginRateLimiter.Middleware()).Post("/auth/login", r.loginHandler)\<close>\<close>

definition login_route ::
    "login_env \<Rightarrow> 'r redis_ops option \<Rightarrow> (nat \<Rightarrow> gotime) \<Rightarrow> Request \<Rightarrow> 'r login_state \<Rightarrow> ('r login_state \<times> Response) option" where
  "login_route env client clk = ll_Middleware env client (clk 0) (clk 1) (loginHandler env client (\<lambda>i. clk (i + 2)))"

end
