(* ===== verification/Login_Props.thy ===== *)
theory Login_Props
  imports Login
begin

text \<open>
  What the login route guarantees: it always answers, hands out a token only for the right password
  of an active, unlocked account, locks an address and e-mail after the configured number of
  failures, and, because the middleware and the handler read the client address differently,
  never limits IPv6 clients.
\<close>

subsection \<open>The limiter never panics\<close>

definition ll_ok :: "LoginRateLimiter \<Rightarrow> bool" where
  "ll_ok l \<longleftrightarrow> ll_lockoutDurations l \<noteq> [] \<and> wf_gomap (ll_attempts l) \<and>
     (\<forall>k st. gget (ll_attempts l) k = Some st \<longrightarrow> 0 \<le> la_LockoutLevel st)"

lemma new_limiter_ok: "ll_ok (NewLoginRateLimiter cfg)"
  by (simp add: ll_ok_def NewLoginRateLimiter_def DefaultLoginRateLimiterConfig_def Let_def)

text \<open>The state a failure is counted in: a new one, one whose window starts again, or the present one.\<close>

definition attempt_state :: "gotime \<Rightarrow> gotime \<Rightarrow> gotime \<Rightarrow> string \<Rightarrow> LoginRateLimiter \<Rightarrow> loginAttemptState" where
  "attempt_state t1 t2 t3 key l =
     (let st0 = (case gget (ll_attempts l) key of Some st \<Rightarrow> st
                 | None \<Rightarrow> \<lparr>la_Count = 0, la_WindowStart = t1, la_LockedUntil = zero_time, la_LockoutLevel = 0\<rparr>)
      in if ll_window l < time_Since t2 (la_WindowStart st0)
         then st0\<lparr>la_Count := 0, la_WindowStart := t3, la_LockedUntil := zero_time\<rparr> else st0)"

lemma attempt_level: "ll_ok l \<Longrightarrow> 0 \<le> la_LockoutLevel (attempt_state t1 t2 t3 key l)"
  by (auto simp: attempt_state_def Let_def ll_ok_def split: option.splits)

lemma recordFailureMemory_unfold:
  fixes t1 t2 t3 :: gotime and ip email :: string
  assumes "ll_ok l"
  defines "st \<equiv> attempt_state t1 t2 t3 (stateKey ip email) l"
  defines "lv \<equiv> min (la_LockoutLevel st) (int (length (ll_lockoutDurations l)) - 1)"
  shows "recordFailureMemory t1 t2 t3 t4 ip email l =
    (if ll_maxAttempts l \<le> la_Count st + 1
     then Some (l\<lparr>ll_attempts := gput (stateKey ip email) (st\<lparr>la_Count := la_Count st + 1,
            la_LockedUntil := time_Add t4 (ll_lockoutDurations l ! nat lv), la_LockoutLevel := lv + 1\<rparr>) (ll_attempts l)\<rparr>,
          ll_lockoutDurations l ! nat lv)
     else Some (l\<lparr>ll_attempts := gput (stateKey ip email) (st\<lparr>la_Count := la_Count st + 1\<rparr>) (ll_attempts l)\<rparr>, 0))"
proof -
  have "0 \<le> la_LockoutLevel st" unfolding st_def by (rule attempt_level [OF assms(1)])
  moreover have "0 < length (ll_lockoutDurations l)" using assms(1) by (simp add: ll_ok_def)
  ultimately show ?thesis
    unfolding recordFailureMemory_def lv_def by (simp add: st_def attempt_state_def Let_def index_opt_def min_def)
qed


text \<open>Which keys the limiter knows after an operation, and that it stays well-formed.\<close>

definition known :: "LoginRateLimiter \<Rightarrow> string set" where
  "known l = {k. gget (ll_attempts l) k \<noteq> None}"

lemma record_failure:
  assumes "ll_ok l"
  obtains l' d where "recordFailureMemory t1 t2 t3 t4 ip email l = Some (l', d)" "ll_ok l'"
    "known l' = insert (stateKey ip email) (known l)"
proof -
  let ?st = "attempt_state t1 t2 t3 (stateKey ip email) l"
  have lv: "0 \<le> la_LockoutLevel ?st" by (rule attempt_level [OF assms])
  have ok: "ll_ok (l\<lparr>ll_attempts := gput (stateKey ip email) st (ll_attempts l)\<rparr>)" if "0 \<le> la_LockoutLevel st" for st
    using assms that by (auto simp: ll_ok_def)
  have k: "known (l\<lparr>ll_attempts := gput (stateKey ip email) st (ll_attempts l)\<rparr>) = insert (stateKey ip email) (known l)" for st
    by (auto simp: known_def)
  have "0 < length (ll_lockoutDurations l)" using assms by (simp add: ll_ok_def)
  then have "0 \<le> min (la_LockoutLevel ?st) (int (length (ll_lockoutDurations l)) - 1) + 1" using lv by simp
  with lv k show ?thesis
    by (cases "ll_maxAttempts l \<le> la_Count ?st + 1") (rule that, simp add: recordFailureMemory_unfold [OF assms], rule ok, simp, rule k)+
qed

lemma success_limiter:
  "ll_ok l \<Longrightarrow> ll_ok (fst (ll_RecordSuccess None ip email (l, r))) \<and> known (fst (ll_RecordSuccess None ip email (l, r))) \<subseteq> known l"
  by (auto simp: ll_RecordSuccess_def ll_ok_def known_def split: if_splits)

text \<open>How the handler changes the limiter.\<close>

lemma loginHandler_limiter:
  assumes "ll_ok (lg_limiter st)"
  shows "\<exists>st' rs. loginHandler env None clk q st = Some (st', rs) \<and> ll_ok (lg_limiter st') \<and>
    known (lg_limiter st') \<subseteq> known (lg_limiter st) \<union> range (stateKey (extractLoginIP q))"
proof (cases "le_login env (rq_Body q)")
  case None
  with assms show ?thesis by (auto simp: loginHandler_def)
next
  case (Some ep)
  obtain email password where ep: "ep = (email, password)" by (cases ep)
  obtain al locked where al: "al_IsLocked (clk 0) (clk 1) email (lg_lockout st) = (al, locked)" by (cases "al_IsLocked (clk 0) (clk 1) email (lg_lockout st)")
  note H = loginHandler_def Some ep al
  show ?thesis
  proof (cases "locked \<or> le_find env email = None")
    case True
    with assms show ?thesis by (cases locked) (auto simp: H Let_def simp del: One_nat_def)
  next
    case False
    then obtain user where u: "\<not> locked" "le_find env email = Some user" by auto
    show ?thesis
    proof (cases "le_check env password (us_PasswordHash user)")
      case True
      with u assms success_limiter [OF assms, of "extractLoginIP q" email "lg_redis st"] show ?thesis
        by (cases "us_IsActive user"; cases "le_token env user") (auto simp: H Let_def limiter_pair_def with_limiter_def simp del: One_nat_def)
    next
      case False
      from record_failure [OF assms] obtain l' d where f:
        "recordFailureMemory (clk 4) (clk 5) (clk 6) (clk 7) (extractLoginIP q) email (lg_limiter st) = Some (l', d)" "ll_ok l'"
        "known l' = insert (stateKey (extractLoginIP q) email) (known (lg_limiter st))" by blast
      with u False show ?thesis
        by (auto simp: H Let_def limiter_pair_def with_limiter_def ll_RecordFailure_def simp del: One_nat_def)
    qed
  qed
qed

text \<open>The route is the handler on the request whose body was read, or a refusal that changes nothing.\<close>

definition forwarded :: "Request \<Rightarrow> Request" where
  "forwarded q = (if rq_Method q = ''POST'' then q\<lparr>rq_Body := limited_body (rq_Body q)\<rparr> else q)"

definition login_email :: "login_env \<Rightarrow> Request \<Rightarrow> string" where
  "login_email env q = (case le_email env (rq_Body (forwarded q)) of Some e \<Rightarrow> strings_TrimSpace e | None \<Rightarrow> [])"

definition refuses :: "login_env \<Rightarrow> 'r redis_ops option \<Rightarrow> gotime \<Rightarrow> Request \<Rightarrow> 'r login_state \<Rightarrow> bool" where
  "refuses env client now q st \<longleftrightarrow> rq_Method q = ''POST'' \<and> login_email env q \<noteq> [] \<and>
     ll_IsLocked client now (extractIP q) (login_email env q) (limiter_pair st)"

lemma route_passes:
  "\<not> refuses env client (clk 0) q st \<Longrightarrow>
     login_route env client clk q st = loginHandler env client (\<lambda>i. clk (i + 2)) (forwarded q) st"
  by (auto simp: refuses_def login_route_def ll_Middleware_def Let_def forwarded_def login_email_def)

lemma route_refuses:
  "refuses env client (clk 0) q st \<Longrightarrow> \<exists>rs. login_route env client clk q st = Some (st, rs) \<and> rs_Status rs = 429"
  by (auto simp: refuses_def login_route_def ll_Middleware_def Let_def forwarded_def login_email_def)

lemma forwarded_ip [simp]: "extractLoginIP (forwarded q) = extractLoginIP q"
  by (simp add: forwarded_def extractLoginIP_def)

lemma route_limiter:
  assumes "ll_ok (lg_limiter st)"
  shows "\<exists>st' rs. login_route env None clk q st = Some (st', rs) \<and> ll_ok (lg_limiter st') \<and>
    known (lg_limiter st') \<subseteq> known (lg_limiter st) \<union> range (stateKey (extractLoginIP q))"
proof (cases "refuses env None (clk 0) q st")
  case True
  with route_refuses [where clk = clk] assms show ?thesis by blast
next
  case False
  from loginHandler_limiter [OF assms, of env "\<lambda>i. clk (i + 2)" "forwarded q"] route_passes [where clk = clk, OF False] show ?thesis by simp
qed

subsection \<open>Runs\<close>

text \<open>Requests to the route, one after the other, and ticks of the two cleanup goroutines.\<close>

datatype login_event = Attempt "nat \<Rightarrow> gotime" Request | Tick gotime

fun login_step :: "login_env \<Rightarrow> login_event \<Rightarrow> 'r login_state \<Rightarrow> 'r login_state" where
  "login_step env (Attempt clk q) st = (case login_route env None clk q st of Some (st', rs) \<Rightarrow> st' | None \<Rightarrow> st)"
| "login_step env (Tick t) st = st\<lparr>lg_limiter := ll_cleanup t (lg_limiter st), lg_lockout := al_cleanup t (lg_lockout st)\<rparr>"

definition login_run :: "login_env \<Rightarrow> login_event list \<Rightarrow> 'r login_state \<Rightarrow> 'r login_state" where
  "login_run env evs st = fold (login_step env) evs st"

fun event_keys :: "login_event \<Rightarrow> string set" where
  "event_keys (Attempt clk q) = range (stateKey (extractLoginIP q))"
| "event_keys (Tick t) = {}"

lemma cleanup_limiter: "ll_ok l \<Longrightarrow> ll_ok (ll_cleanup t l) \<and> known (ll_cleanup t l) \<subseteq> known l"
  by (auto simp: ll_ok_def known_def ll_cleanup_def gget_gfilter split: option.splits if_splits)

lemma login_step_limiter:
  assumes "ll_ok (lg_limiter st)"
  shows "ll_ok (lg_limiter (login_step env ev st)) \<and> known (lg_limiter (login_step env ev st)) \<subseteq> known (lg_limiter st) \<union> event_keys ev"
proof (cases ev)
  case (Attempt clk q)
  with route_limiter [OF assms, of env clk q] show ?thesis by auto
next
  case (Tick t)
  with cleanup_limiter [OF assms, of t] show ?thesis by auto
qed

lemma login_run_limiter:
  "ll_ok (lg_limiter st) \<Longrightarrow> ll_ok (lg_limiter (login_run env evs st)) \<and>
     known (lg_limiter (login_run env evs st)) \<subseteq> known (lg_limiter st) \<union> (\<Union>ev \<in> set evs. event_keys ev)"
proof (induction evs arbitrary: st)
  case (Cons ev evs)
  note s = login_step_limiter [OF Cons.prems, of env ev]
  from Cons.IH [of "login_step env ev st"] s show ?case by (auto simp: login_run_def)
qed (simp add: login_run_def)


subsection \<open>The route answers\<close>

lemma handler_200:
  assumes "loginHandler env client clk q st = Some (st', rs)" "rs_Status rs = 200"
  shows "\<exists>email password user. le_login env (rq_Body q) = Some (email, password) \<and> le_find env email = Some user \<and>
    le_check env password (us_PasswordHash user) \<and> us_IsActive user \<and> le_token env user = Some (rs_Body rs) \<and>
    \<not> snd (al_IsLocked (clk 0) (clk 1) email (lg_lockout st))"
  using assms by (auto simp: loginHandler_def Let_def json_message_def simp del: One_nat_def split: option.splits prod.splits if_splits)

text \<open>
  After any sequence of login requests and cleanup ticks the login route answers every request
  (no index of the progressive lockout is out of range), and an answer with status 200 carries
  the token of a user who was found by the e-mail of the request, is active, whose password was
  checked successfully, and whose account was not locked at that moment.
\<close>

theorem login_route_answers:
  assumes "lg_limiter st = NewLoginRateLimiter cfg"
  shows "\<exists>st' rs. login_route env None clk q (login_run env evs st) = Some (st', rs) \<and>
    (rs_Status rs = 200 \<longrightarrow>
      (\<exists>email password user. le_login env (rq_Body (forwarded q)) = Some (email, password) \<and> le_find env email = Some user \<and>
        le_check env password (us_PasswordHash user) \<and> us_IsActive user \<and> le_token env user = Some (rs_Body rs) \<and>
        \<not> snd (al_IsLocked (clk 2) (clk 3) email (lg_lockout (login_run env evs st)))))"
proof -
  let ?st = "login_run env evs st"
  have "ll_ok (lg_limiter ?st)" using login_run_limiter [of st env evs] assms by (simp add: new_limiter_ok)
  from route_limiter [OF this, of env clk q] obtain st' rs where r: "login_route env None clk q ?st = Some (st', rs)" by blast
  show ?thesis
  proof (cases "refuses env None (clk 0) q ?st")
    case True
    with route_refuses [where clk = clk and env = env and client = None and q = q and st = ?st] show ?thesis by auto
  next
    case False
    from route_passes [where clk = clk, OF False] r have "loginHandler env None (\<lambda>i. clk (i + 2)) (forwarded q) ?st = Some (st', rs)" by simp
    from handler_200 [OF this] r show ?thesis by (auto simp: numeral_eq_Suc)
  qed
qed

subsection \<open>Lockout\<close>

text \<open>Operations on the limiter, with the time they are performed at.\<close>

datatype limit_op = OpFailed gotime string string | OpSucceeded string string | OpSweep gotime

fun limit_step :: "limit_op \<Rightarrow> LoginRateLimiter \<Rightarrow> LoginRateLimiter" where
  "limit_step (OpFailed t ip email) l = (case recordFailureMemory t t t t ip email l of Some (l', d) \<Rightarrow> l' | None \<Rightarrow> l)"
| "limit_step (OpSucceeded ip email) l = fst (ll_RecordSuccess None ip email (l, ()))"
| "limit_step (OpSweep t) l = ll_cleanup t l"

definition limit_run :: "limit_op list \<Rightarrow> LoginRateLimiter \<Rightarrow> LoginRateLimiter" where
  "limit_run ops l = fold limit_step ops l"

fun op_key :: "limit_op \<Rightarrow> string option" where
  "op_key (OpFailed t ip email) = Some (stateKey ip email)"
| "op_key (OpSucceeded ip email) = Some (stateKey ip email)"
| "op_key (OpSweep t) = None"

fun op_time :: "limit_op \<Rightarrow> gotime option" where
  "op_time (OpFailed t ip email) = Some t"
| "op_time (OpSucceeded ip email) = None"
| "op_time (OpSweep t) = Some t"

lemma recordFailureMemory_fields:
  assumes "ll_ok l" "recordFailureMemory t1 t2 t3 t4 ip email l = Some (l', d)"
  shows "ll_maxAttempts l' = ll_maxAttempts l \<and> ll_window l' = ll_window l \<and> ll_lockoutDurations l' = ll_lockoutDurations l \<and>
    (\<forall>k. k \<noteq> stateKey ip email \<longrightarrow> gget (ll_attempts l') k = gget (ll_attempts l) k)"
  using assms(2) by (auto simp: recordFailureMemory_unfold [OF assms(1)] split: if_splits)

lemma limit_step_ok:
  assumes "ll_ok l"
  shows "ll_ok (limit_step p l) \<and> ll_maxAttempts (limit_step p l) = ll_maxAttempts l \<and> ll_window (limit_step p l) = ll_window l \<and>
    ll_lockoutDurations (limit_step p l) = ll_lockoutDurations l"
proof (cases p)
  case (OpFailed t ip email)
  from record_failure [OF assms, of t t t t ip email] obtain l' d where
    "recordFailureMemory t t t t ip email l = Some (l', d)" "ll_ok l'" by blast
  with recordFailureMemory_fields [OF assms this(1)] OpFailed show ?thesis by simp
next
  case (OpSucceeded ip email)
  with success_limiter [OF assms, of ip email "()"] show ?thesis by (simp add: ll_RecordSuccess_def)
next
  case (OpSweep t)
  with cleanup_limiter [OF assms, of t] show ?thesis by (simp add: ll_cleanup_def)
qed

lemma limit_step_other:
  assumes "ll_ok l" "op_key p \<noteq> Some k"
  shows "gget (ll_attempts (limit_step p l)) k =
    (case p of OpSweep t \<Rightarrow> gget (ll_attempts (ll_cleanup t l)) k | _ \<Rightarrow> gget (ll_attempts l) k)"
proof (cases p)
  case (OpFailed t ip email)
  from record_failure [OF assms(1), of t t t t ip email] obtain l' d where
    r: "recordFailureMemory t t t t ip email l = Some (l', d)" by blast
  have "k \<noteq> stateKey ip email" using assms(2) OpFailed by auto
  with recordFailureMemory_fields [OF assms(1) r] r OpFailed show ?thesis by simp
next
  case (OpSucceeded ip email)
  with assms(2) show ?thesis by (simp add: ll_RecordSuccess_def)
qed simp


text \<open>\<open>n\<close> failures of a key have been counted since \<open>t0\<close>, without a lock.\<close>

definition counting :: "string \<Rightarrow> gotime \<Rightarrow> nat \<Rightarrow> LoginRateLimiter \<Rightarrow> bool" where
  "counting k t0 n l \<longleftrightarrow> ll_ok l \<and> (case gget (ll_attempts l) k of
     None \<Rightarrow> n = 0
   | Some st \<Rightarrow> la_Count st = int n \<and> t0 \<le> la_WindowStart st \<and> IsZero (la_LockedUntil st) \<and> la_LockoutLevel st = 0)"

definition locked_until :: "string \<Rightarrow> gotime \<Rightarrow> LoginRateLimiter \<Rightarrow> bool" where
  "locked_until k u l \<longleftrightarrow> ll_ok l \<and> (\<exists>st. gget (ll_attempts l) k = Some st \<and> la_LockedUntil st = u)"

text \<open>An operation in the window that starts at \<open>t0\<close>.\<close>

definition in_time :: "gotime \<Rightarrow> duration \<Rightarrow> limit_op \<Rightarrow> bool" where
  "in_time t0 w p \<longleftrightarrow> (case op_time p of None \<Rightarrow> True | Some t \<Rightarrow> t0 \<le> t \<and> t \<le> t0 + w)"

lemma since_le: "t0 \<le> ws \<Longrightarrow> t \<le> t0 + w \<Longrightarrow> 0 \<le> w \<Longrightarrow> w \<le> max_duration \<Longrightarrow> \<not> w < time_Sub t ws"
  by (auto simp: time_defs)

lemma counting_other:
  assumes c: "counting k t0 n l" and o: "op_key p \<noteq> Some k" and t: "in_time t0 (ll_window l) p" and w: "0 \<le> ll_window l" "ll_window l \<le> max_duration"
  shows "counting k t0 n (limit_step p l)"
proof -
  have ok: "ll_ok l" using c by (simp add: counting_def)
  have "gget (ll_attempts (limit_step p l)) k = gget (ll_attempts l) k"
  proof (cases p)
    case (OpSweep x)
    have "\<not> (\<not> IsZero (la_LockedUntil st) \<and> la_LockedUntil st < x \<or> IsZero (la_LockedUntil st) \<and> ll_window l * 2 < time_Sub x (la_WindowStart st))"
      if "gget (ll_attempts l) k = Some st" for st
      using c that t OpSweep since_le [of t0 "la_WindowStart st" x "ll_window l"] w by (auto simp: counting_def in_time_def)
    then show ?thesis using limit_step_other [OF ok o] OpSweep ok by (auto simp: ll_cleanup_def gget_gfilter ll_ok_def split: option.splits)
  qed (use limit_step_other [OF ok o] in simp_all)
  with c limit_step_ok [OF ok, of p] show ?thesis by (simp add: counting_def)
qed

lemma counting_attempt:
  assumes c: "counting (stateKey ip email) t0 n l" and t: "t0 \<le> t" "t \<le> t0 + ll_window l" and w: "0 \<le> ll_window l" "ll_window l \<le> max_duration"
  defines "st \<equiv> attempt_state t t t (stateKey ip email) l"
  shows "la_Count st = int n \<and> t0 \<le> la_WindowStart st \<and> IsZero (la_LockedUntil st) \<and> la_LockoutLevel st = 0"
  using c t(1) since_le [OF _ t(2) w]
  by (auto simp: st_def counting_def attempt_state_def Let_def time_Since_def zero_time_def IsZero_def split: option.splits)

lemma counting_fail:
  assumes c: "counting (stateKey ip email) t0 n l" and t: "t0 \<le> t" "t \<le> t0 + ll_window l" and w: "0 \<le> ll_window l" "ll_window l \<le> max_duration"
  shows "int n + 1 < ll_maxAttempts l \<Longrightarrow> counting (stateKey ip email) t0 (Suc n) (limit_step (OpFailed t ip email) l)"
    and "ll_maxAttempts l \<le> int n + 1 \<Longrightarrow> locked_until (stateKey ip email) (t + hd (ll_lockoutDurations l)) (limit_step (OpFailed t ip email) l)"
proof -
  have ok: "ll_ok l" using c by (simp add: counting_def)
  then have ne: "ll_lockoutDurations l \<noteq> []" by (simp add: ll_ok_def)
  note st = counting_attempt [OF c t w]
  have ok': "ll_ok (limit_step (OpFailed t ip email) l)" using limit_step_ok [OF ok] by blast
  show "counting (stateKey ip email) t0 (Suc n) (limit_step (OpFailed t ip email) l)" if "int n + 1 < ll_maxAttempts l"
    using ok' st that by (simp add: counting_def recordFailureMemory_unfold [OF ok])
  show "locked_until (stateKey ip email) (t + hd (ll_lockoutDurations l)) (limit_step (OpFailed t ip email) l)" if "ll_maxAttempts l \<le> int n + 1"
    using ok' st that ne by (simp add: locked_until_def recordFailureMemory_unfold [OF ok] time_Add_def hd_conv_nth min_def)
qed

lemma counting_run:
  "counting (stateKey ip email) t0 n l \<Longrightarrow> 0 \<le> ll_window l \<Longrightarrow> ll_window l \<le> max_duration \<Longrightarrow> list_all (in_time t0 (ll_window l)) ops \<Longrightarrow>
     list_all (\<lambda>p. op_key p = Some (stateKey ip email) \<longrightarrow> (\<exists>t. p = OpFailed t ip email)) ops \<Longrightarrow>
     int n + int (length (filter (\<lambda>p. op_key p = Some (stateKey ip email)) ops)) < ll_maxAttempts l \<Longrightarrow>
     counting (stateKey ip email) t0 (n + length (filter (\<lambda>p. op_key p = Some (stateKey ip email)) ops)) (limit_run ops l) \<and>
     ll_window (limit_run ops l) = ll_window l \<and> ll_maxAttempts (limit_run ops l) = ll_maxAttempts l \<and>
     ll_lockoutDurations (limit_run ops l) = ll_lockoutDurations l"
proof (induction ops arbitrary: n l)
  case (Cons p ops)
  let ?k = "stateKey ip email"
  have ok: "ll_ok l" using Cons.prems(1) by (simp add: counting_def)
  note f = limit_step_ok [OF ok, of p]
  have run: "limit_run (p # ops) l = limit_run ops (limit_step p l)" by (simp add: limit_run_def)
  show ?case
  proof (cases "op_key p = Some ?k")
    case False
    have "counting ?k t0 n (limit_step p l)" using counting_other [OF Cons.prems(1) False _ Cons.prems(2,3)] Cons.prems(4) by simp
    from Cons.IH [OF this] Cons.prems(2-6) f False show ?thesis unfolding run by simp
  next
    case True
    with Cons.prems(5) obtain t where p: "p = OpFailed t ip email" by auto
    have "t0 \<le> t" "t \<le> t0 + ll_window l" using Cons.prems(4) p by (simp_all add: in_time_def)
    from counting_fail(1) [OF Cons.prems(1) this Cons.prems(2,3)] Cons.prems(6) True
    have "counting ?k t0 (Suc n) (limit_step p l)" unfolding p by simp
    from Cons.IH [OF this] Cons.prems(2-6) f True show ?thesis unfolding run by simp
  qed
qed (simp add: limit_run_def)

lemma locked_run:
  "locked_until k u l \<Longrightarrow> \<not> IsZero u \<Longrightarrow> list_all (\<lambda>p. op_key p \<noteq> Some k \<and> (\<forall>t. p = OpSweep t \<longrightarrow> t \<le> u)) ops \<Longrightarrow>
     locked_until k u (limit_run ops l)"
proof (induction ops arbitrary: l)
  case (Cons p ops)
  have ok: "ll_ok l" using Cons.prems(1) by (simp add: locked_until_def)
  have "gget (ll_attempts (limit_step p l)) k = gget (ll_attempts l) k"
  proof (cases p)
    case (OpSweep x)
    then show ?thesis using limit_step_other [OF ok, of p k] Cons.prems ok
      by (auto simp: ll_cleanup_def gget_gfilter ll_ok_def locked_until_def)
  qed (use limit_step_other [OF ok, of p k] Cons.prems(3) in simp_all)
  then have "locked_until k u (limit_step p l)" using Cons.prems(1) limit_step_ok [OF ok, of p] by (simp add: locked_until_def)
  from Cons.IH [OF this Cons.prems(2)] Cons.prems(3) show ?case by (simp add: limit_run_def)
qed (simp add: limit_run_def)


text \<open>
  The in-memory login limiter locks an address and e-mail at the configured number of failures
  within a window, not before, and keeps the lock for the first lockout duration, whatever
  happens to other keys and however often the cleanup runs meanwhile.
\<close>

theorem login_lockout:
  fixes cfg ip email
  defines "l \<equiv> NewLoginRateLimiter cfg" and "k \<equiv> stateKey ip email"
  assumes w: "0 \<le> ll_window l" "ll_window l \<le> max_duration"
    and ops1: "list_all (in_time t0 (ll_window l)) ops1"
      "list_all (\<lambda>p. op_key p = Some k \<longrightarrow> (\<exists>t. p = OpFailed t ip email)) ops1"
      "int (length (filter (\<lambda>p. op_key p = Some k) ops1)) + 1 = ll_maxAttempts l"
    and t: "t0 \<le> t" "t \<le> t0 + ll_window l" and u: "u = t + hd (ll_lockoutDurations l)" "\<not> IsZero u"
    and ops2: "list_all (\<lambda>p. op_key p \<noteq> Some k \<and> (\<forall>x. p = OpSweep x \<longrightarrow> x \<le> u)) ops2"
  shows "\<not> ll_IsLocked None now ip email (limit_run ops1 l, ()) \<and>
    (now < u \<longrightarrow> ll_IsLocked None now ip email (limit_run (ops1 @ OpFailed t ip email # ops2) l, ()))"
proof -
  have "counting k t0 0 l" using new_limiter_ok [of cfg] by (simp add: counting_def l_def NewLoginRateLimiter_def Let_def)
  from counting_run [OF this [unfolded k_def] w ops1(1) ops1(2) [unfolded k_def]] ops1(3) have c:
    "counting k t0 (length (filter (\<lambda>p. op_key p = Some k) ops1)) (limit_run ops1 l)" "ll_window (limit_run ops1 l) = ll_window l"
    "ll_maxAttempts (limit_run ops1 l) = ll_maxAttempts l" "ll_lockoutDurations (limit_run ops1 l) = ll_lockoutDurations l"
    by (simp_all add: k_def)
  have "locked_until k u (limit_step (OpFailed t ip email) (limit_run ops1 l))"
    using counting_fail(2) [OF c(1) [unfolded k_def], of t] t w ops1(3) c(2-4) by (simp add: k_def u)
  from locked_run [OF this u(2) ops2] have "locked_until k u (limit_run (ops1 @ OpFailed t ip email # ops2) l)"
    by (simp add: limit_run_def)
  then have "now < u \<Longrightarrow> ll_IsLocked None now ip email (limit_run (ops1 @ OpFailed t ip email # ops2) l, ())"
    using u(2) by (auto simp: locked_until_def ll_IsLocked_def k_def)
  moreover have "\<not> ll_IsLocked None now ip email (limit_run ops1 l, ())"
    using c(1) by (auto simp: counting_def ll_IsLocked_def k_def split: option.splits)
  ultimately show ?thesis by blast
qed

theorem login_lockout_witness:
  "ll_IsLocked None (70 * Second) ''10.0.0.1'' ''a@b''
     (limit_run ([OpFailed Second ''10.0.0.1'' ''a@b'', OpFailed (2 * Second) ''10.0.0.1'' ''a@b'', OpFailed (3 * Second) ''10.0.0.9'' ''a@b'',
        OpFailed (3 * Second) ''10.0.0.1'' ''a@b'', OpFailed (4 * Second) ''10.0.0.1'' ''a@b''] @
      OpFailed (20 * Second) ''10.0.0.1'' ''a@b'' # [OpSweep (61 * Second)]) (NewLoginRateLimiter DefaultLoginRateLimiterConfig), ())"
  using login_lockout [of DefaultLoginRateLimiterConfig Second "[OpFailed Second ''10.0.0.1'' ''a@b'', OpFailed (2 * Second) ''10.0.0.1'' ''a@b'',
        OpFailed (3 * Second) ''10.0.0.9'' ''a@b'', OpFailed (3 * Second) ''10.0.0.1'' ''a@b'', OpFailed (4 * Second) ''10.0.0.1'' ''a@b'']"
      "''10.0.0.1''" "''a@b''" "20 * Second" "80 * Second" "[OpSweep (61 * Second)]" "70 * Second"]
  by (simp add: NewLoginRateLimiter_def DefaultLoginRateLimiterConfig_def duration_defs max_duration_def in_time_def stateKey_def IsZero_def zero_time_def)

subsection \<open>IPv6 clients\<close>

text \<open>\<^verbatim>\<open>net/http\<close> reports an IPv6 client as an address in brackets, followed by the port.\<close>

definition bracketed :: "Request \<Rightarrow> bool" where
  "bracketed q \<longleftrightarrow> (\<exists>c s. rq_RemoteAddr q = CHR ''['' # c # s \<and> c \<noteq> CHR ''['')"

lemma trim_head: "strings_Trim s cs = c # t \<Longrightarrow> c \<notin> set cs"
proof -
  assume s: "strings_Trim s cs = c # t"
  define d where "d = dropWhile (\<lambda>c. c \<in> set cs) s"
  have "rev (dropWhile (\<lambda>c. c \<in> set cs) (rev d)) = c # t" using s by (simp add: strings_Trim_def d_def)
  then have "d = (c # t) @ rev (takeWhile (\<lambda>c. c \<in> set cs) (rev d))"
    by (metis rev_append rev_rev_ident takeWhile_dropWhile_id)
  then have "d \<noteq> []" "hd d = c" by (auto, metis append_Cons list.sel(1))
  then show ?thesis using hd_dropWhile [of "\<lambda>c. c \<in> set cs" s] d_def by metis
qed

lemma extractIP_head: "bracketed q \<Longrightarrow> stateKey (extractIP q) email \<noteq> CHR ''['' # s"
proof
  assume q: "bracketed q" and k: "stateKey (extractIP q) email = CHR ''['' # s"
  obtain c t where a: "rq_RemoteAddr q = CHR ''['' # c # t" "c \<noteq> CHR ''[''" using q by (auto simp: bracketed_def)
  have "extractIP q = take (nat (strings_LastIndex (rq_RemoteAddr q) '']:'' - 1)) (c # t) \<or> extractIP q = strings_Trim (rq_RemoteAddr q) ''[]''"
    by (auto simp: extractIP_def Let_def a(1))
  moreover have "extractIP q = [] \<or> (\<exists>u. extractIP q = CHR ''['' # u)" using k by (cases "extractIP q") (auto simp: stateKey_def)
  moreover have "extractIP q \<noteq> []" using k by (auto simp: stateKey_def)
  moreover have "CHR ''['' # u \<noteq> strings_Trim (rq_RemoteAddr q) ''[]''" for u
    using trim_head [of "rq_RemoteAddr q" "''[]''" "CHR ''[''" u] by auto
  ultimately show False using a(2) by (auto simp: take_Cons split: nat.splits)
qed

lemma extractLoginIP_head: "bracketed q \<Longrightarrow> \<exists>s. stateKey (extractLoginIP q) email = CHR ''['' # s"
  by (auto simp: bracketed_def extractLoginIP_def stateKey_def Let_def take_Cons split: nat.splits)

fun v6_event :: "login_event \<Rightarrow> bool" where
  "v6_event (Attempt clk q) \<longleftrightarrow> bracketed q"
| "v6_event (Tick t) \<longleftrightarrow> True"

text \<open>
  The limiter does not limit IPv6 clients: the handler records failures under the address with its
  brackets, the middleware looks them up under the address without. So after any sequence of
  logins of such clients, failed or not, the route behaves as the bare handler does.
\<close>

theorem ipv6_logins_not_limited:
  assumes "lg_limiter st = NewLoginRateLimiter cfg" "list_all v6_event evs" "bracketed q"
  shows "login_route env None clk q (login_run env evs st) =
    loginHandler env None (\<lambda>i. clk (i + 2)) (forwarded q) (login_run env evs st)"
proof (rule route_passes)
  let ?st = "login_run env evs st"
  have "known (lg_limiter ?st) \<subseteq> (\<Union>ev \<in> set evs. event_keys ev)"
    using login_run_limiter [of st env evs] assms(1) new_limiter_ok [of cfg] by (simp add: known_def NewLoginRateLimiter_def Let_def)
  moreover have "\<exists>s. key = CHR ''['' # s" if "key \<in> event_keys ev" "v6_event ev" for key ev
    using that extractLoginIP_head by (cases ev) auto
  ultimately have keys: "\<exists>s. key = CHR ''['' # s" if "key \<in> known (lg_limiter ?st)" for key
    using that assms(2) by (fastforce simp: list_all_iff)
  have "gget (ll_attempts (lg_limiter ?st)) (stateKey (extractIP q) email) = None" for email
  proof (rule ccontr)
    assume "gget (ll_attempts (lg_limiter ?st)) (stateKey (extractIP q) email) \<noteq> None"
    then have "stateKey (extractIP q) email \<in> known (lg_limiter ?st)" by (simp add: known_def)
    from keys [OF this] extractIP_head [OF assms(3)] show False by blast
  qed
  then show "\<not> refuses env None (clk 0) q ?st" by (simp add: refuses_def ll_IsLocked_def limiter_pair_def)
qed


text \<open>A client that guesses a password six times within a second, and then once more.\<close>

definition demo_user :: User where
  "demo_user = \<lparr>us_ID = ''u1'', us_Email = ''a@b'', us_PasswordHash = ''h'', us_Role = ''user'', us_IsActive = True\<rparr>"

definition demo_login_env :: login_env where
  "demo_login_env =
     \<lparr>le_email = \<lambda>b. Some ''a@b'', le_login = \<lambda>b. Some (''a@b'', b), le_find = \<lambda>e. if e = ''a@b'' then Some demo_user else None,
      le_check = \<lambda>p h. p = ''secret'', le_token = \<lambda>u. Some ''token''\<rparr>"

definition demo_login_request :: "string \<Rightarrow> string \<Rightarrow> Request" where
  "demo_login_request addr password =
     \<lparr>rq_Method = ''POST'', rq_Path = ''/api/v1/auth/login'', rq_RawQuery = [], rq_RemoteAddr = addr, rq_Header = \<lambda>_. [], rq_Body = password\<rparr>"

definition demo_login_state :: "unit login_state" where
  "demo_login_state =
     \<lparr>lg_lockout = NewAccountLockout 10 Minute, lg_limiter = NewLoginRateLimiter DefaultLoginRateLimiterConfig, lg_redis = (), lg_logins = []\<rparr>"

definition demo_guesses :: "string \<Rightarrow> login_event list" where
  "demo_guesses addr = map (\<lambda>i. Attempt (\<lambda>j. Second + int i) (demo_login_request addr ''guess'')) [0..<6]"

text \<open>An IPv4 client is refused after these guesses, an IPv6 client is not.\<close>

lemma demo_v4_refused:
  "map_option (\<lambda>x. rs_Status (snd x)) (login_route demo_login_env None (\<lambda>j. 2 * Second) (demo_login_request ''10.0.0.1:99'' ''secret'')
     (login_run demo_login_env (demo_guesses ''10.0.0.1:99'') demo_login_state)) = Some 429"
  by code_simp

theorem ipv6_logins_not_limited_witness:
  "login_route demo_login_env None (\<lambda>j. 2 * Second) (demo_login_request ''[::1]:99'' ''secret'')
     (login_run demo_login_env (demo_guesses ''[::1]:99'') demo_login_state) =
   loginHandler demo_login_env None (\<lambda>j. 2 * Second) (forwarded (demo_login_request ''[::1]:99'' ''secret''))
     (login_run demo_login_env (demo_guesses ''[::1]:99'') demo_login_state)"
proof -
  have "list_all v6_event (demo_guesses ''[::1]:99'')"
    by (simp add: demo_guesses_def list_all_iff demo_login_request_def bracketed_def)
  from ipv6_logins_not_limited [OF _ this, of demo_login_state DefaultLoginRateLimiterConfig "demo_login_request ''[::1]:99'' ''secret''"
    demo_login_env "\<lambda>j. 2 * Second"] show ?thesis
    by (simp add: demo_login_state_def demo_login_request_def bracketed_def)
qed

theorem login_route_answers_witness:
  "\<exists>st' rs. login_route demo_login_env None (\<lambda>j. 2 * Second) (demo_login_request ''10.0.0.1:99'' ''secret'') (login_run demo_login_env [] demo_login_state)
     = Some (st', rs) \<and> rs_Status rs = 200 \<and> rs_Body rs = ''token''"
proof -
  have "map_option (\<lambda>x. rs_Status (snd x)) (login_route demo_login_env None (\<lambda>j. 2 * Second) (demo_login_request ''10.0.0.1:99'' ''secret'')
     (login_run demo_login_env [] demo_login_state)) = Some 200" by code_simp
  with login_route_answers [of demo_login_state DefaultLoginRateLimiterConfig demo_login_env "\<lambda>j. 2 * Second"
      "demo_login_request ''10.0.0.1:99'' ''secret''" "[]"] show ?thesis
    by (auto simp: demo_login_state_def demo_login_env_def)
qed

end
