(* ===== verification/Plan_Quota.thy ===== *)
theory Plan_Quota
  imports Rate_Middleware
begin

text \<open>
  Plans: the limits per subscription tier, the usage counters, the plan-aware rate limiter, usage
  metering and quota enforcement of \<^verbatim>\<open>internal/middleware/ratelimit.go\<close>, the extraction of
  organization and plan (\<^verbatim>\<open>internal/router/ratelimit_handlers.go\<close>), and the order in which
  \<^verbatim>\<open>internal/router/routes.go\<close> stacks them.

  Calendar formatting in the server's time zone is a parameter: \<open>period\<close> is
  \<^verbatim>\<open>Format("2006-01")\<close>, \<open>day\<close> is \<^verbatim>\<open>Format("2006-01-02")\<close>. \<open>clk i\<close> is the \<open>i\<close>-th clock reading of a request.
\<close>

subsection \<open>Tiers\<close>

type_synonym PlanTier = string

definition PlanFree :: PlanTier where "PlanFree = ''free''"
definition PlanPro :: PlanTier where "PlanPro = ''pro''"
definition PlanTeam :: PlanTier where "PlanTeam = ''team''"
definition PlanEnterprise :: PlanTier where "PlanEnterprise = ''enterprise''"

record PlanLimits =
  pl_RequestsPerMinute :: int
  pl_RequestsPerDay :: int
  pl_RequestsPerMonth :: int
  pl_BurstSize :: int
  pl_TokensPerMonth :: int
  pl_TasksPerMonth :: int
  pl_ScansPerMonth :: int
  pl_MonthlyBudgetUsd :: f64
  pl_MaxConcurrentTasks :: int
  pl_MaxProjectMembers :: int
  pl_MaxProjects :: int
  pl_MaxAgentsPerProject :: int
  pl_PriorityQueue :: bool
  pl_SupportSLA :: string

definition zero_limits :: PlanLimits where
  "zero_limits =
     \<lparr>pl_RequestsPerMinute = 0, pl_RequestsPerDay = 0, pl_RequestsPerMonth = 0, pl_BurstSize = 0, pl_TokensPerMonth = 0, pl_TasksPerMonth = 0,
      pl_ScansPerMonth = 0, pl_MonthlyBudgetUsd = 0, pl_MaxConcurrentTasks = 0, pl_MaxProjectMembers = 0, pl_MaxProjects = 0,
      pl_MaxAgentsPerProject = 0, pl_PriorityQueue = False, pl_SupportSLA = []\<rparr>"

definition DefaultLimits :: "(PlanTier, PlanLimits) gomap" where
  "DefaultLimits =
     [(PlanFree,
       \<lparr>pl_RequestsPerMinute = 30, pl_RequestsPerDay = 500, pl_RequestsPerMonth = 10000, pl_BurstSize = 10, pl_TokensPerMonth = 500000,
        pl_TasksPerMonth = 50, pl_ScansPerMonth = 100, pl_MonthlyBudgetUsd = 5, pl_MaxConcurrentTasks = 1, pl_MaxProjectMembers = 3,
        pl_MaxProjects = 1, pl_MaxAgentsPerProject = 2, pl_PriorityQueue = False, pl_SupportSLA = ''community''\<rparr>),
      (PlanPro,
       \<lparr>pl_RequestsPerMinute = 120, pl_RequestsPerDay = 5000, pl_RequestsPerMonth = 100000, pl_BurstSize = 30, pl_TokensPerMonth = 5000000,
        pl_TasksPerMonth = 500, pl_ScansPerMonth = 1000, pl_MonthlyBudgetUsd = 50, pl_MaxConcurrentTasks = 5, pl_MaxProjectMembers = 10,
        pl_MaxProjects = 5, pl_MaxAgentsPerProject = 10, pl_PriorityQueue = True, pl_SupportSLA = ''email_48h''\<rparr>),
      (PlanTeam,
       \<lparr>pl_RequestsPerMinute = 300, pl_RequestsPerDay = 20000, pl_RequestsPerMonth = 500000, pl_BurstSize = 100, pl_TokensPerMonth = 20000000,
        pl_TasksPerMonth = 2000, pl_ScansPerMonth = 5000, pl_MonthlyBudgetUsd = 200, pl_MaxConcurrentTasks = 15, pl_MaxProjectMembers = 50,
        pl_MaxProjects = 20, pl_MaxAgentsPerProject = 25, pl_PriorityQueue = True, pl_SupportSLA = ''priority_24h''\<rparr>),
      (PlanEnterprise,
       \<lparr>pl_RequestsPerMinute = 1000, pl_RequestsPerDay = 100000, pl_RequestsPerMonth = 0, pl_BurstSize = 500, pl_TokensPerMonth = 0,
        pl_TasksPerMonth = 0, pl_ScansPerMonth = 0, pl_MonthlyBudgetUsd = 0, pl_MaxConcurrentTasks = 50, pl_MaxProjectMembers = 0,
        pl_MaxProjects = 0, pl_MaxAgentsPerProject = 0, pl_PriorityQueue = True, pl_SupportSLA = ''dedicated''\<rparr>)]"

subsection \<open>Usage counters\<close>

definition UsageKey :: "string \<Rightarrow> string \<Rightarrow> string \<Rightarrow> string" where
  "UsageKey orgID metric per = ''usage:'' @ orgID @ '':'' @ metric @ '':'' @ per"

definition IncrementUsage :: "'r redis_ops \<Rightarrow> string \<Rightarrow> string \<Rightarrow> string \<Rightarrow> int \<Rightarrow> 'r \<Rightarrow> 'r \<times> (string + int)" where
  "IncrementUsage ops per orgID metric amount r =
     (let key = UsageKey orgID metric per in
      case ro_IncrBy ops key amount r of
        (r', Inl err) \<Rightarrow> (r', Inl err)
      | (r', Inr val) \<Rightarrow> (ro_Expire ops key (45 * 24 * Hour) r', Inr val))"

definition GetUsage :: "'r redis_ops \<Rightarrow> string \<Rightarrow> string \<Rightarrow> string \<Rightarrow> 'r \<Rightarrow> string + int" where
  "GetUsage ops per orgID metric r =
     (case ro_Get ops (UsageKey orgID metric per) r of
        RNil \<Rightarrow> Inr 0
      | RErr err \<Rightarrow> Inl err
      | RVal v \<Rightarrow> (case strconv_Atoi v of Some n \<Rightarrow> Inr n | None \<Rightarrow> Inl ''invalid syntax''))"

text \<open>Allowed, remaining, error.\<close>

definition CheckQuota :: "'r redis_ops \<Rightarrow> string \<Rightarrow> string \<Rightarrow> string \<Rightarrow> int \<Rightarrow> 'r \<Rightarrow> bool \<times> int \<times> string option" where
  "CheckQuota ops per orgID metric limit r =
     (if limit \<le> 0 then (True, -1, None)
      else case GetUsage ops per orgID metric r of
        Inl err \<Rightarrow> (True, 0, Some err)
      | Inr usage \<Rightarrow> let rem = limit - usage in (0 < rem, rem, None))"

subsection \<open>The plan-aware limiter\<close>

type_synonym PlanAwareRateLimiter = "(PlanTier, PlanLimits) gomap"

definition NewPlanAwareRateLimiter :: PlanAwareRateLimiter where
  "NewPlanAwareRateLimiter = DefaultLimits"

definition SetLimits :: "PlanTier \<Rightarrow> PlanLimits \<Rightarrow> (PlanTier, PlanLimits) gomap \<Rightarrow> (PlanTier, PlanLimits) gomap" where
  "SetLimits tier limits p = gput tier limits p"

text \<open>A missing key of a map of structs reads as the zero struct.\<close>

definition limits_at :: "(PlanTier, PlanLimits) gomap \<Rightarrow> PlanTier \<Rightarrow> PlanLimits" where
  "limits_at p tier = (case gget p tier of Some l \<Rightarrow> l | None \<Rightarrow> zero_limits)"

definition GetLimits :: "PlanTier \<Rightarrow> PlanAwareRateLimiter \<Rightarrow> PlanLimits" where
  "GetLimits tier p = (case gget p tier of Some l \<Rightarrow> l | None \<Rightarrow> limits_at p PlanFree)"

definition checkMinuteLimit :: "'r redis_ops option \<Rightarrow> string \<Rightarrow> int \<Rightarrow> 'r \<Rightarrow> 'r \<times> bool \<times> int" where
  "checkMinuteLimit client key limit r =
     (case client of
        None \<Rightarrow> (r, True, 0)
      | Some ops \<Rightarrow>
          (case ro_IncrBy ops key 1 r of
             (r', Inl err) \<Rightarrow> (r', True, 0)
           | (r', Inr cnt) \<Rightarrow> ((if cnt = 1 then ro_Expire ops key (65 * Second) r' else r'), cnt \<le> limit, cnt)))"

text \<open>The Lua script of the daily quota: the new value and whether it was incremented.\<close>

definition dayScript :: "'r redis_ops \<Rightarrow> string \<Rightarrow> int \<Rightarrow> int \<Rightarrow> 'r \<Rightarrow> 'r \<times> (string + int \<times> int)" where
  "dayScript ops key limit ttl r =
     (case ro_script_error ops r of
        Some err \<Rightarrow> (r, Inl err)
      | None \<Rightarrow>
          let current = (case reply_int (ro_Get ops key r) of None \<Rightarrow> 0 | Some n \<Rightarrow> n) in
          if limit \<le> current then (r, Inr (current, 0))
          else case ro_IncrBy ops key 1 r of
            (r', Inl err) \<Rightarrow> (r', Inl err)
          | (r', Inr newval) \<Rightarrow> ((if newval = 1 then ro_Expire ops key (ttl * Second) r' else r'), Inr (newval, 1)))"

definition minuteKey :: "string \<Rightarrow> gotime \<Rightarrow> string" where
  "minuteKey orgID now = ''ratelimit:org:'' @ orgID @ '':'' @ strconv_Itoa (go_div (unix now) 60)"

definition dayKey :: "(gotime \<Rightarrow> string) \<Rightarrow> string \<Rightarrow> gotime \<Rightarrow> string" where
  "dayKey day orgID now = ''ratelimit:org:'' @ orgID @ '':day:'' @ day now"

definition quotaExceeded :: "PlanTier \<Rightarrow> Response" where
  "quotaExceeded plan = json_message 429 [] ''daily quota exceeded''"

text \<open>The end of the current minute.\<close>

definition next_minute :: "gotime \<Rightarrow> gotime" where
  "next_minute now = time_Add (time_Truncate now Minute) Minute"

text \<open>The daily check: the state and whether the request is refused.\<close>

definition day_check :: "'r redis_ops option \<Rightarrow> string \<Rightarrow> int \<Rightarrow> 'r \<Rightarrow> 'r \<times> bool" where
  "day_check client key perDay r =
     (case client of
        Some ops \<Rightarrow>
          if 0 < perDay
          then (if perDay \<le> (case reply_int (ro_Get ops key r) of None \<Rightarrow> 0 | Some n \<Rightarrow> n) then (r, True)
                else case dayScript ops key perDay (go_div (25 * Hour) Second) r of
                  (r', Inl err) \<Rightarrow> (r', False)
                | (r', Inr (newval, incremented)) \<Rightarrow> (r', incremented = 0))
          else (r, False)
      | None \<Rightarrow> (r, False))"

text \<open>What the limiter decides: a response, or the headers with which the next handler runs.\<close>

definition plan_gate ::
    "'r redis_ops option \<Rightarrow> (gotime \<Rightarrow> string) \<Rightarrow> (Request \<Rightarrow> string \<times> PlanTier) \<Rightarrow> PlanAwareRateLimiter \<Rightarrow> (nat \<Rightarrow> gotime) \<Rightarrow>
     Request \<Rightarrow> 'r \<Rightarrow> 'r \<times> (Response + Header)" where
  "plan_gate client day orgPlanFn p clk q r =
     (let (org0, plan0) = orgPlanFn q;
          orgID = (if org0 = [] then ''anonymous'' else org0);
          plan = (if org0 = [] then PlanFree else plan0);
          limits = GetLimits plan p;
          (r1, allowed, cnt) = checkMinuteLimit client (minuteKey orgID (clk 0)) (pl_RequestsPerMinute limits) r
      in if \<not> allowed
         then (let retryAfter = time_Sub (next_minute (clk 1)) (clk 2) in
               (r1, Inl (json_message 429
                 [(''X-RateLimit-Limit'', [strconv_Itoa (pl_RequestsPerMinute limits)]), (''X-RateLimit-Remaining'', [''0'']),
                  (''X-RateLimit-Reset'', [strconv_Itoa (unix (time_Add (clk 3) retryAfter))]),
                  (''Retry-After'', [strconv_Itoa (seconds_of retryAfter + 1)]), (''X-RateLimit-Plan'', [plan])]
                 ''rate limit exceeded'')))
         else case day_check client (dayKey day orgID (clk 1)) (pl_RequestsPerDay limits) r1 of
           (r2, True) \<Rightarrow> (r2, Inl (quotaExceeded plan))
         | (r2, False) \<Rightarrow>
             (r2, Inr [(''X-RateLimit-Limit'', [strconv_Itoa (pl_RequestsPerMinute limits)]),
                       (''X-RateLimit-Remaining'', [strconv_Itoa (max 0 (pl_RequestsPerMinute limits - cnt))]),
                       (''X-RateLimit-Reset'', [strconv_Itoa (unix (next_minute (clk 2)))]), (''X-RateLimit-Plan'', [plan])]))"

definition plan_Middleware ::
    "'r redis_ops option \<Rightarrow> (gotime \<Rightarrow> string) \<Rightarrow> (Request \<Rightarrow> string \<times> PlanTier) \<Rightarrow> PlanAwareRateLimiter \<Rightarrow> (nat \<Rightarrow> gotime) \<Rightarrow>
     ('r \<times> 's) handler \<Rightarrow> ('r \<times> 's) handler" where
  "plan_Middleware client day orgPlanFn p clk next q st =
     (case plan_gate client day orgPlanFn p clk q (fst st) of
        (r', Inl rs) \<Rightarrow> ((r', snd st), rs)
      | (r', Inr hs) \<Rightarrow> (let (st', rs) = next q (r', snd st) in (st', preset hs rs)))"

subsection \<open>Metering and quotas\<close>

text \<open>
  \<^verbatim>\<open>UsageMeteringMiddleware\<close>. Its tracker holds the Redis client itself; without one the
  increment dereferences a nil pointer, so a client is always given here.
\<close>

definition metering_Middleware ::
    "'r redis_ops \<Rightarrow> string \<Rightarrow> (Request \<Rightarrow> string \<times> PlanTier) \<Rightarrow> ('r \<times> 's) handler \<Rightarrow> ('r \<times> 's) handler" where
  "metering_Middleware ops per orgPlanFn next q st =
     (let (orgID, plan) = orgPlanFn q; ((r, s), rs) = next q st
      in if rs_Status rs < 400 \<and> orgID \<noteq> [] then ((fst (IncrementUsage ops per orgID ''api_requests'' 1 r), s), rs) else ((r, s), rs))"

type_synonym QuotaEnforcer = "(PlanTier, PlanLimits) gomap"

definition NewQuotaEnforcer :: QuotaEnforcer where
  "NewQuotaEnforcer = DefaultLimits"

definition CheckTasksQuota :: "'r redis_ops \<Rightarrow> string \<Rightarrow> string \<Rightarrow> PlanTier \<Rightarrow> QuotaEnforcer \<Rightarrow> 'r \<Rightarrow> bool \<times> int \<times> string option" where
  "CheckTasksQuota ops per orgID plan qe r = CheckQuota ops per orgID ''tasks'' (pl_TasksPerMonth (limits_at qe plan)) r"

definition CheckTokensQuota :: "'r redis_ops \<Rightarrow> string \<Rightarrow> string \<Rightarrow> PlanTier \<Rightarrow> QuotaEnforcer \<Rightarrow> 'r \<Rightarrow> bool \<times> int \<times> string option" where
  "CheckTokensQuota ops per orgID plan qe r = CheckQuota ops per orgID ''tokens'' (pl_TokensPerMonth (limits_at qe plan)) r"

definition CheckScansQuota :: "'r redis_ops \<Rightarrow> string \<Rightarrow> string \<Rightarrow> PlanTier \<Rightarrow> QuotaEnforcer \<Rightarrow> 'r \<Rightarrow> bool \<times> int \<times> string option" where
  "CheckScansQuota ops per orgID plan qe r = CheckQuota ops per orgID ''scans'' (pl_ScansPerMonth (limits_at qe plan)) r"

definition quota_Middleware ::
    "'r redis_ops \<Rightarrow> string \<Rightarrow> (Request \<Rightarrow> string \<times> PlanTier) \<Rightarrow> QuotaEnforcer \<Rightarrow> ('r \<times> 's) handler \<Rightarrow> ('r \<times> 's) handler" where
  "quota_Middleware ops per orgPlanFn qe next q st =
     (if rq_Method q \<noteq> ''POST'' \<or> \<not> strings_Contains (rq_Path q) ''/tasks'' then next q st
      else
        let (orgID, plan) = orgPlanFn q in
        if orgID = [] then next q st
        else case CheckTasksQuota ops per orgID plan qe (fst st) of
          (allowed, remaining, Some err) \<Rightarrow> next q st
        | (allowed, remaining, None) \<Rightarrow>
            let hs = [(''X-Quota-Tasks-Remaining'', [strconv_Itoa remaining]), (''X-Quota-Plan'', [plan])] in
            if \<not> allowed then (st, json_message 429 hs ''monthly task quota exceeded'')
            else let (st', rs) = next q st in (st', preset hs rs))"

subsection \<open>The organization of a request\<close>

text \<open>
  \<open>query_org\<close>: the \<^verbatim>\<open>org_id\<close> of the query string; \<open>claims_org\<close>: the organization of the token, \<open>None\<close> without a token;
  \<open>billing_plan\<close>: the plan column of an organization, \<open>None\<close> without a database or a row.
\<close>

definition orgPlanExtractor ::
    "(Request \<Rightarrow> string) \<Rightarrow> (Request \<Rightarrow> string option) \<Rightarrow> (string \<Rightarrow> string option) \<Rightarrow> Request \<Rightarrow> string \<times> PlanTier" where
  "orgPlanExtractor query_org claims_org billing_plan q =
     (case claims_org q of
        None \<Rightarrow> ([], PlanFree)
      | Some own \<Rightarrow>
          let orgID = (if query_org q = [] then own else query_org q) in
          (orgID, if orgID = [] then PlanFree
                  else case billing_plan orgID of
                    Some planStr \<Rightarrow> if planStr \<noteq> [] then strings_ToLower planStr else PlanFree
                  | None \<Rightarrow> PlanFree))"

text \<open>The stack of the protected routes: limiter, metering, quota.\<close>

definition protected_stack ::
    "'r redis_ops \<Rightarrow> (gotime \<Rightarrow> string) \<Rightarrow> (gotime \<Rightarrow> string) \<Rightarrow> (Request \<Rightarrow> string \<times> PlanTier) \<Rightarrow> PlanAwareRateLimiter \<Rightarrow>
     QuotaEnforcer \<Rightarrow> (nat \<Rightarrow> gotime) \<Rightarrow> 's handler \<Rightarrow> ('r \<times> 's) handler" where
  "protected_stack ops day period fn p qe clk next =
     plan_Middleware (Some ops) day fn p clk
       (metering_Middleware ops (period (clk 10)) fn
         (quota_Middleware ops (period (clk 9)) fn qe (\<lambda>q (r, s). let (s', rs) = next q s in ((r, s'), rs))))"


subsection \<open>What the counters guarantee\<close>

text \<open>
  The documented behaviour of Redis counters: a decimal integer of 64 bits, incremented unless
  that overflows. \<open>cv\<close> reads the counter under a key; no counter expires during the runs below (the keys
  carry their minute, day or month, and live longer).
\<close>

definition cval :: "('r \<Rightarrow> string \<rightharpoonup> int) \<Rightarrow> 'r \<Rightarrow> string \<Rightarrow> int" where
  "cval cv r k = (case cv r k of None \<Rightarrow> 0 | Some v \<Rightarrow> v)"

definition counter_laws :: "'r redis_ops \<Rightarrow> ('r \<Rightarrow> string \<rightharpoonup> int) \<Rightarrow> bool" where
  "counter_laws ops cv \<longleftrightarrow>
     (\<forall>r k. case cv r k of None \<Rightarrow> ro_Get ops k r = RNil | Some v \<Rightarrow> (\<exists>s. ro_Get ops k r = RVal s \<and> strconv_Atoi s = Some v)) \<and>
     (\<forall>r k n. in_int64 (cval cv r k + n) \<longrightarrow> snd (ro_IncrBy ops k n r) = Inr (cval cv r k + n) \<and>
        cv (fst (ro_IncrBy ops k n r)) = (cv r)(k \<mapsto> cval cv r k + n)) \<and>
     (\<forall>r k d. cv (ro_Expire ops k d r) = cv r) \<and> (\<forall>r. ro_script_error ops r = None)"

lemma counter_simps:
  assumes "counter_laws ops cv"
  shows "reply_int (ro_Get ops k r) = cv r k" and "(case reply_int (ro_Get ops k r) of None \<Rightarrow> 0 | Some n \<Rightarrow> n) = cval cv r k"
    and "cv (ro_Expire ops k d r) = cv r" and "ro_script_error ops r = None"
    and "GetUsage ops per org metric r = Inr (cval cv r (UsageKey org metric per))"
proof -
  have g: "case cv r k of None \<Rightarrow> ro_Get ops k r = RNil | Some v \<Rightarrow> (\<exists>s. ro_Get ops k r = RVal s \<and> strconv_Atoi s = Some v)" for k
    using assms by (simp add: counter_laws_def)
  show r: "reply_int (ro_Get ops k r) = cv r k" for k using g [of k] by (auto simp: reply_int_def split: option.splits)
  then show "(case reply_int (ro_Get ops k r) of None \<Rightarrow> 0 | Some n \<Rightarrow> n) = cval cv r k" by (simp add: cval_def)
  show "cv (ro_Expire ops k d r) = cv r" "ro_script_error ops r = None" using assms by (simp_all add: counter_laws_def)
  show "GetUsage ops per org metric r = Inr (cval cv r (UsageKey org metric per))"
    using g [of "UsageKey org metric per"] by (auto simp: GetUsage_def cval_def split: option.splits)
qed

lemma counter_incr:
  assumes "counter_laws ops cv" "0 \<le> cval cv r k" "cval cv r k < 2 ^ 63 - 1"
  obtains r' where "ro_IncrBy ops k 1 r = (r', Inr (cval cv r k + 1))" "cval cv r' = (cval cv r)(k := cval cv r k + 1)"
proof -
  have "in_int64 (cval cv r k + 1)" using assms(2,3) by (simp add: in_int64_def)
  with assms(1) have "snd (ro_IncrBy ops k 1 r) = Inr (cval cv r k + 1)" "cv (fst (ro_IncrBy ops k 1 r)) = (cv r)(k \<mapsto> cval cv r k + 1)"
    by (auto simp: counter_laws_def)
  then show ?thesis by (intro that [of "fst (ro_IncrBy ops k 1 r)"]) (auto simp: prod_eq_iff cval_def fun_eq_iff)
qed

lemma cval_expire: "counter_laws ops cv \<Longrightarrow> cval cv (ro_Expire ops k d r) = cval cv r"
  by (simp add: cval_def fun_eq_iff counter_simps(3))

lemma minute_check:
  assumes "counter_laws ops cv" "0 \<le> cval cv r k" "cval cv r k < 2 ^ 63 - 1" "checkMinuteLimit (Some ops) k limit r = (r', allowed, cnt)"
  shows "cval cv r' = (cval cv r)(k := cval cv r k + 1) \<and> (allowed \<longleftrightarrow> cval cv r k + 1 \<le> limit)"
proof -
  from counter_incr [OF assms(1-3)] obtain r1 where "ro_IncrBy ops k 1 r = (r1, Inr (cval cv r k + 1))" "cval cv r1 = (cval cv r)(k := cval cv r k + 1)" .
  with assms(4) show ?thesis by (auto simp: checkMinuteLimit_def cval_expire [OF assms(1)] split: if_splits)
qed

lemma day_check_step:
  assumes "counter_laws ops cv" "0 \<le> cval cv r k" "cval cv r k < 2 ^ 63 - 1" "day_check (Some ops) k perDay r = (r', refused)"
  shows "cval cv r' = (if 0 < perDay \<and> cval cv r k < perDay then (cval cv r)(k := cval cv r k + 1) else cval cv r) \<and>
    (refused \<longleftrightarrow> 0 < perDay \<and> perDay \<le> cval cv r k)"
proof (cases "0 < perDay \<and> cval cv r k < perDay")
  case True
  from counter_incr [OF assms(1-3)] obtain r1 where "ro_IncrBy ops k 1 r = (r1, Inr (cval cv r k + 1))" "cval cv r1 = (cval cv r)(k := cval cv r k + 1)" .
  with assms(4) True show ?thesis
    by (auto simp: day_check_def dayScript_def counter_simps(2,4) [OF assms(1)] cval_expire [OF assms(1)] Let_def split: if_splits)
next
  case False
  with assms(4) show ?thesis by (auto simp: day_check_def counter_simps(2) [OF assms(1)] split: if_splits)
qed

text \<open>The keys of a request.\<close>

definition gate_org :: "(Request \<Rightarrow> string \<times> PlanTier) \<Rightarrow> Request \<Rightarrow> string" where
  "gate_org fn q = (if fst (fn q) = [] then ''anonymous'' else fst (fn q))"

definition gate_limits :: "(Request \<Rightarrow> string \<times> PlanTier) \<Rightarrow> PlanAwareRateLimiter \<Rightarrow> Request \<Rightarrow> PlanLimits" where
  "gate_limits fn p q = GetLimits (if fst (fn q) = [] then PlanFree else snd (fn q)) p"

lemma keys_differ: "minuteKey org t \<noteq> dayKey day org t'"
proof
  assume e: "minuteKey org t = dayKey day org t'"
  have "strconv_Itoa (go_div (unix t) 60) = ''day:'' @ day t'" using e by (simp add: minuteKey_def dayKey_def)
  then have h: "hd (strconv_Itoa (go_div (unix t) 60)) = CHR ''d''" by simp
  then have "hd (digits_of (nat (go_div (unix t) 60))) = CHR ''d''" by (auto simp: strconv_Itoa_def split: if_splits)
  then have "CHR ''d'' \<in> set (digits_of (nat (go_div (unix t) 60)))" by (metis digits_of_nonempty hd_in_set)
  from digit_chars [OF this] obtain d :: nat where "d < 10" "CHR ''d'' = char_of (48 + d)" by blast
  with of_char_digit [of d] have "(of_char (CHR ''d'') :: int) = 48 + int d" "d < 10" by simp_all
  then show False by simp
qed

text \<open>The effect of one request: every counter grows by at most one, and what passing it means.\<close>

lemma gate_step:
  assumes L: "counter_laws ops cv" and r: "\<forall>k. 0 \<le> cval cv r k \<and> cval cv r k < 2 ^ 63 - 1"
    and g: "plan_gate (Some ops) day fn p clk q r = (r', res)"
  defines "mk \<equiv> minuteKey (gate_org fn q) (clk 0)" and "dk \<equiv> dayKey day (gate_org fn q) (clk 1)" and "lmt \<equiv> gate_limits fn p q"
  shows "(\<forall>k. cval cv r k \<le> cval cv r' k \<and> cval cv r' k \<le> cval cv r k + 1) \<and>
    (\<forall>k. k \<noteq> mk \<and> k \<noteq> dk \<longrightarrow> cval cv r' k = cval cv r k) \<and>
    ((\<exists>hs. res = Inr hs) \<longrightarrow> cval cv r' mk = cval cv r mk + 1 \<and> cval cv r' mk \<le> pl_RequestsPerMinute lmt \<and>
       (0 < pl_RequestsPerDay lmt \<longrightarrow> cval cv r' dk = cval cv r dk + 1 \<and> cval cv r' dk \<le> pl_RequestsPerDay lmt))"
proof -
  obtain org plan where fn: "fn q = (org, plan)" by (cases "fn q")
  obtain r1 allowed cnt where m: "checkMinuteLimit (Some ops) mk (pl_RequestsPerMinute lmt) r = (r1, allowed, cnt)" by (metis prod_cases3)
  have c1: "cval cv r1 = (cval cv r)(mk := cval cv r mk + 1)" "allowed \<longleftrightarrow> cval cv r mk + 1 \<le> pl_RequestsPerMinute lmt"
    using minute_check [OF L _ _ m] r by blast+
  have ne: "mk \<noteq> dk" unfolding mk_def dk_def by (rule keys_differ)
  have "cval cv r1 dk = cval cv r dk" using c1(1) ne by simp
  moreover obtain r2 refused where d: "day_check (Some ops) dk (pl_RequestsPerDay lmt) r1 = (r2, refused)" by (cases "day_check (Some ops) dk (pl_RequestsPerDay lmt) r1")
  ultimately have c2: "cval cv r2 = (if 0 < pl_RequestsPerDay lmt \<and> cval cv r dk < pl_RequestsPerDay lmt then (cval cv r1)(dk := cval cv r dk + 1) else cval cv r1)"
    "refused \<longleftrightarrow> 0 < pl_RequestsPerDay lmt \<and> pl_RequestsPerDay lmt \<le> cval cv r dk"
    using day_check_step [OF L _ _ d] r by auto
  have u: "(r', res) = (if \<not> allowed then (r1, Inl (projl res)) else if refused then (r2, Inl (projl res)) else (r2, Inr (projr res)))"
    using g m d by (auto simp: plan_gate_def fn mk_def dk_def lmt_def gate_org_def gate_limits_def Let_def split: if_splits bool.splits)
  then show ?thesis using c1 c2 ne by (auto split: if_splits)
qed


text \<open>The requests of a run that pass the limiter.\<close>

primrec gate_passed ::
    "'r redis_ops \<Rightarrow> (gotime \<Rightarrow> string) \<Rightarrow> (Request \<Rightarrow> string \<times> PlanTier) \<Rightarrow> PlanAwareRateLimiter \<Rightarrow> ((nat \<Rightarrow> gotime) \<times> Request) list \<Rightarrow> 'r \<Rightarrow>
     ((nat \<Rightarrow> gotime) \<times> Request) list" where
  "gate_passed ops day fn p [] r = []"
| "gate_passed ops day fn p (x # rs) r =
     (case plan_gate (Some ops) day fn p (fst x) (snd x) r of
        (r', res) \<Rightarrow> (if isl res then [] else [x]) @ gate_passed ops day fn p rs r')"

definition small :: "('r \<Rightarrow> string \<rightharpoonup> int) \<Rightarrow> int \<Rightarrow> 'r \<Rightarrow> bool" where
  "small cv b r \<longleftrightarrow> (\<forall>k. 0 \<le> cval cv r k \<and> cval cv r k \<le> b)"

lemma small_less: "small cv b r \<Longrightarrow> b < c \<Longrightarrow> \<forall>k. 0 \<le> cval cv r k \<and> cval cv r k < c"
  by (auto simp: small_def intro: le_less_trans)

lemma small_mono: "small cv b r \<Longrightarrow> b \<le> c \<Longrightarrow> small cv c r"
  by (auto simp: small_def intro: order_trans)

lemma passed_bound:
  assumes L: "counter_laws ops cv"
    and step: "\<And>x r r' hs. x \<in> X \<Longrightarrow> P x \<Longrightarrow> small cv (2 ^ 63 - 2) r \<Longrightarrow> plan_gate (Some ops) day fn p (fst x) (snd x) r = (r', Inr hs) \<Longrightarrow>
      cval cv r' k = cval cv r k + 1 \<and> cval cv r' k \<le> most"
  shows "set rs \<subseteq> X \<Longrightarrow> small cv b r \<Longrightarrow> b + int (length rs) < 2 ^ 63 - 1 \<Longrightarrow>
    int (length (filter P (gate_passed ops day fn p rs r))) \<le> max 0 (most - cval cv r k)"
proof (induction rs arbitrary: r b)
  case (Cons x rs)
  obtain r' res where g: "plan_gate (Some ops) day fn p (fst x) (snd x) r = (r', res)" by (cases "plan_gate (Some ops) day fn p (fst x) (snd x) r")
  have sm: "small cv (2 ^ 63 - 2) r" using Cons.prems(2) by (rule small_mono) (use Cons.prems(3) in simp)
  have "\<forall>k. 0 \<le> cval cv r k \<and> cval cv r k < 2 ^ 63 - 1" using sm by (rule small_less) simp
  note G = gate_step [OF L this g]
  have "small cv (b + 1) r'" using Cons.prems(2) G by (auto simp: small_def intro: order_trans)
  from Cons.IH [OF _ this] Cons.prems(1,3) have IH: "int (length (filter P (gate_passed ops day fn p rs r'))) \<le> max 0 (most - cval cv r' k)" by simp
  have mono: "cval cv r k \<le> cval cv r' k" using G by blast
  show ?case
  proof (cases "\<not> isl res \<and> P x")
    case True
    then obtain hs where "res = Inr hs" by (cases res) auto
    with step [of x r r' hs] True Cons.prems(1) sm g have "cval cv r' k = cval cv r k + 1" "cval cv r' k \<le> most" by auto
    with IH g True show ?thesis by simp
  next
    case False
    with IH g mono show ?thesis by auto
  qed
qed simp

text \<open>
  The plan limits hold for every sequence of requests: of an organization whose limits do not change, at
  most \<^verbatim>\<open>RequestsPerMinute\<close> requests pass in any minute and, when a daily limit is set, at most
  \<^verbatim>\<open>RequestsPerDay\<close> on any day.
\<close>

theorem plan_limits_enforced:
  assumes "counter_laws ops cv" "\<And>k. cv r k = None" "int (length rs) < 2 ^ 62"
    and "\<forall>x \<in> set rs. gate_org fn (snd x) = org \<longrightarrow> gate_limits fn p (snd x) = lmt"
  shows "int (length (filter (\<lambda>x. gate_org fn (snd x) = org \<and> go_div (unix (fst x 0)) 60 = m) (gate_passed ops day fn p rs r)))
      \<le> max 0 (pl_RequestsPerMinute lmt) \<and>
    (0 < pl_RequestsPerDay lmt \<longrightarrow>
      int (length (filter (\<lambda>x. gate_org fn (snd x) = org \<and> day (fst x 1) = d) (gate_passed ops day fn p rs r))) \<le> pl_RequestsPerDay lmt)"
proof -
  have z: "small cv 0 r" "\<And>k. cval cv r k = 0" using assms(2) by (simp_all add: small_def cval_def)
  have G: "cval cv r' (minuteKey (gate_org fn (snd x)) (fst x 0)) = cval cv r1 (minuteKey (gate_org fn (snd x)) (fst x 0)) + 1 \<and>
      cval cv r' (minuteKey (gate_org fn (snd x)) (fst x 0)) \<le> pl_RequestsPerMinute (gate_limits fn p (snd x)) \<and>
      (0 < pl_RequestsPerDay (gate_limits fn p (snd x)) \<longrightarrow>
        cval cv r' (dayKey day (gate_org fn (snd x)) (fst x 1)) = cval cv r1 (dayKey day (gate_org fn (snd x)) (fst x 1)) + 1 \<and>
        cval cv r' (dayKey day (gate_org fn (snd x)) (fst x 1)) \<le> pl_RequestsPerDay (gate_limits fn p (snd x)))"
    if "small cv (2 ^ 63 - 2) r1" "plan_gate (Some ops) day fn p (fst x) (snd x) r1 = (r', Inr hs)" for x r1 r' hs
    using gate_step [OF assms(1) small_less [OF that(1)] that(2)] by auto
  have "int (length (filter (\<lambda>x. gate_org fn (snd x) = org \<and> go_div (unix (fst x 0)) 60 = m) (gate_passed ops day fn p rs r)))
      \<le> max 0 (pl_RequestsPerMinute lmt - cval cv r (''ratelimit:org:'' @ org @ '':'' @ strconv_Itoa m))"
    by (rule passed_bound [OF assms(1), where X = "set rs" and b = 0])
      (use assms(3,4) z G in \<open>fastforce simp: minuteKey_def\<close>)+
  moreover have "int (length (filter (\<lambda>x. gate_org fn (snd x) = org \<and> day (fst x 1) = d) (gate_passed ops day fn p rs r)))
      \<le> max 0 (pl_RequestsPerDay lmt - cval cv r (''ratelimit:org:'' @ org @ '':day:'' @ d))" if "0 < pl_RequestsPerDay lmt"
    by (rule passed_bound [OF assms(1), where X = "set rs" and b = 0])
      (use assms(3,4) z G that in \<open>fastforce simp: dayKey_def\<close>)+
  ultimately show ?thesis by (auto simp: z(2))
qed


subsection \<open>The task quota\<close>

text \<open>A run of the protected stack.\<close>

definition stack_run ::
    "'r redis_ops \<Rightarrow> (gotime \<Rightarrow> string) \<Rightarrow> (gotime \<Rightarrow> string) \<Rightarrow> (Request \<Rightarrow> string \<times> PlanTier) \<Rightarrow> PlanAwareRateLimiter \<Rightarrow> QuotaEnforcer \<Rightarrow>
     's handler \<Rightarrow> ((nat \<Rightarrow> gotime) \<times> Request) list \<Rightarrow> 'r \<times> 's \<Rightarrow> 'r \<times> 's" where
  "stack_run ops day period fn p qe next rs st = fold (\<lambda>(clk, q) st. fst (protected_stack ops day period fn p qe clk next q st)) rs st"

lemma usage_keys_differ: "length per = length per' \<Longrightarrow> UsageKey org ''tasks'' per \<noteq> UsageKey org' ''api_requests'' per'"
proof
  assume l: "length per = length per'" and e: "UsageKey org ''tasks'' per = UsageKey org' ''api_requests'' per'"
  have "(org @ '':task'') @ ''s:'' @ per = (org' @ '':api_request'') @ ''s:'' @ per'" using e by (simp add: UsageKey_def)
  moreover have "length (''s:'' @ per) = length (''s:'' @ per')" using l by simp
  ultimately have "org @ '':task'' = org' @ '':api_request''" by (metis append_eq_append_conv)
  then have "last (org @ '':task'') = last (org' @ '':api_request'')" by simp
  then show False by simp
qed

lemma usage_gate_keys: "UsageKey org metric per \<noteq> minuteKey org' t" "UsageKey org metric per \<noteq> dayKey day org' t"
  by (simp_all add: UsageKey_def minuteKey_def dayKey_def)

definition no_tasks :: "('r \<Rightarrow> string \<rightharpoonup> int) \<Rightarrow> nat \<Rightarrow> 'r \<Rightarrow> bool" where
  "no_tasks cv n r \<longleftrightarrow> (\<forall>org per. length per = n \<longrightarrow> cval cv r (UsageKey org ''tasks'' per) = 0)"

lemma metering_step:
  assumes L: "counter_laws ops cv" and r: "small cv b r" "b < 2 ^ 63 - 1" and n: "no_tasks cv n r" "length per = n"
  shows "small cv (b + 1) (fst (IncrementUsage ops per org ''api_requests'' 1 r)) \<and>
    no_tasks cv n (fst (IncrementUsage ops per org ''api_requests'' 1 r))"
proof -
  let ?k = "UsageKey org ''api_requests'' per"
  have "0 \<le> cval cv r ?k" "cval cv r ?k < 2 ^ 63 - 1" using small_less [OF r] by auto
  from counter_incr [OF L this] obtain r' where i: "ro_IncrBy ops ?k 1 r = (r', Inr (cval cv r ?k + 1))" "cval cv r' = (cval cv r)(?k := cval cv r ?k + 1)" .
  then have c: "cval cv (fst (IncrementUsage ops per org ''api_requests'' 1 r)) = (cval cv r)(?k := cval cv r ?k + 1)"
    by (simp add: IncrementUsage_def Let_def cval_expire [OF L])
  have "small cv (b + 1) (fst (IncrementUsage ops per org ''api_requests'' 1 r))"
    using r(1) c by (auto simp: small_def intro: order_trans)
  moreover have "no_tasks cv n (fst (IncrementUsage ops per org ''api_requests'' 1 r))"
    using n usage_keys_differ [of _ per _ org] c by (auto simp: no_tasks_def)
  ultimately show ?thesis by blast
qed

lemma quota_state: "fst (fst (quota_Middleware ops per fn qe (\<lambda>q (r, s). let (s', rs) = next q s in ((r, s'), rs)) q (r, s))) = r"
  by (simp add: quota_Middleware_def Let_def split: prod.splits option.splits)

lemma metering_state:
  assumes "fst (fst (h q (r, s))) = r"
  shows "fst (fst (metering_Middleware ops per fn h q (r, s))) = r \<or>
    (\<exists>org. fst (fst (metering_Middleware ops per fn h q (r, s))) = fst (IncrementUsage ops per org ''api_requests'' 1 r))"
  using assms by (auto simp: metering_Middleware_def Let_def split: prod.splits)

lemma stack_step:
  assumes L: "counter_laws ops cv" and r: "small cv b r" "b + 1 < 2 ^ 63 - 1" and n: "no_tasks cv n r" "\<And>t. length (period t) = n"
  shows "small cv (b + 2) (fst (fst (protected_stack ops day period fn p qe clk next q (r, s)))) \<and>
    no_tasks cv n (fst (fst (protected_stack ops day period fn p qe clk next q (r, s))))"
proof -
  obtain r1 res where g: "plan_gate (Some ops) day fn p clk q r = (r1, res)" by (cases "plan_gate (Some ops) day fn p clk q r")
  have "b < 2 ^ 63 - 1" using r(2) by simp
  note G = gate_step [OF L small_less [OF r(1) this] g]
  have r1: "small cv (b + 1) r1" using r(1) G by (auto simp: small_def intro: order_trans)
  have n1: "no_tasks cv n r1" using n(1) G usage_gate_keys by (auto simp: no_tasks_def)
  let ?h = "quota_Middleware ops (period (clk 9)) fn qe (\<lambda>q (r, s). let (s', rs) = next q s in ((r, s'), rs))"
  have h: "fst (fst (?h q (r1, s))) = r1" by (rule quota_state)
  have "fst (fst (protected_stack ops day period fn p qe clk next q (r, s))) =
      (if isl res then r1 else fst (fst (metering_Middleware ops (period (clk 10)) fn ?h q (r1, s))))"
    using g by (cases res) (simp_all add: protected_stack_def plan_Middleware_def split: prod.split)
  with metering_state [of ?h, OF h, where ops = ops and per = "period (clk 10)" and fn = fn] metering_step [OF L r1 r(2) n1 n(2)] n1 small_mono [OF r1, of "b + 2"]
  show ?thesis by (auto simp: add.commute add.left_commute split: if_splits)
qed

text \<open>
  The monthly task quota is never reached. Only the metering of API requests increments usage
  counters, so whatever requests pass through the protected stack, whatever handlers are behind it
  and whatever limits are configured, the quota check allows every organization another task.
\<close>

theorem task_quota_never_reached:
  assumes "counter_laws ops cv" "\<And>k. cv r k = None" "int (length rs) < 2 ^ 60" "\<And>t. length (period t) = 7"
  shows "fst (CheckTasksQuota ops (period t) org plan qe' (fst (stack_run ops day period fn p qe next rs (r, s))))"
proof -
  have "small cv b r' \<Longrightarrow> no_tasks cv 7 r' \<Longrightarrow> b + 2 * int (length rs) < 2 ^ 63 - 1 \<Longrightarrow>
      no_tasks cv 7 (fst (stack_run ops day period fn p qe next rs (r', s')))" for b r' s'
    using assms(3)
  proof (induction rs arbitrary: b r' s')
    case (Cons x rs)
    obtain clk q where x: "x = (clk, q)" by (cases x)
    obtain r1 s1 where st: "fst (protected_stack ops day period fn p qe clk next q (r', s')) = (r1, s1)"
      by (cases "fst (protected_stack ops day period fn p qe clk next q (r', s'))")
    have "b + 1 < 2 ^ 63 - 1" using Cons.prems(3) by simp
    have "small cv (b + 2) (fst (fst (protected_stack ops day period fn p qe clk next q (r', s')))) \<and>
      no_tasks cv 7 (fst (fst (protected_stack ops day period fn p qe clk next q (r', s'))))"
      by (rule stack_step [OF assms(1) Cons.prems(1) \<open>b + 1 < 2 ^ 63 - 1\<close> Cons.prems(2) assms(4)])
    with st have "small cv (b + 2) r1" "no_tasks cv 7 r1" by simp_all
    from Cons.IH [OF this, of s1] Cons.prems(3,4) st x show ?case by (simp add: stack_run_def)
  qed (simp add: stack_run_def)
  moreover have "small cv 0 r" "no_tasks cv 7 r" using assms(2) by (simp_all add: small_def no_tasks_def cval_def)
  ultimately have "no_tasks cv 7 (fst (stack_run ops day period fn p qe next rs (r, s)))" using assms(3) by simp
  then show ?thesis using assms(4) [of t]
    by (auto simp: CheckTasksQuota_def CheckQuota_def Let_def counter_simps(5) [OF assms(1)] no_tasks_def)
qed


text \<open>A server with counters, as the laws ask for.\<close>

type_synonym cserver = "(string, int) gomap"

definition cserver_view :: "cserver \<Rightarrow> string \<rightharpoonup> int" where
  "cserver_view r k = (case gget r k of None \<Rightarrow> None | Some v \<Rightarrow> if in_int64 v then Some v else None)"

definition cserver_ops :: "cserver redis_ops" where
  "cserver_ops =
     \<lparr>ro_Get = \<lambda>k r. (case cserver_view r k of None \<Rightarrow> RNil | Some v \<Rightarrow> RVal (strconv_Itoa v)),
      ro_IncrBy = \<lambda>k n r. let v = (case cserver_view r k of None \<Rightarrow> 0 | Some v \<Rightarrow> v) + n in
        if in_int64 v then (gput k v r, Inr v) else (r, Inl ''overflow''),
      ro_Expire = \<lambda>k d r. r, ro_Set = \<lambda>k v d r. r, ro_Del = \<lambda>k r. gdel k r, ro_TTL = \<lambda>k r. Inr 0,
      ro_ZRemRangeByScore = \<lambda>k lo hi r. r, ro_ZCard = \<lambda>k r. 0, ro_ZAdd = \<lambda>k s m r. r, ro_ZFirst = \<lambda>k r. None,
      ro_random = \<lambda>r. ''0'', ro_script_error = \<lambda>r. None\<rparr>"

lemma cserver_laws: "counter_laws cserver_ops cserver_view"
proof -
  have "cserver_view (gput k v r) = (cserver_view r)(k \<mapsto> v)" if "in_int64 v" for k v r
    using that by (auto simp: cserver_view_def fun_eq_iff)
  moreover have "cserver_view r k = Some v \<Longrightarrow> strconv_Atoi (strconv_Itoa v) = Some v" for r k v
    by (rule Atoi_Itoa) (auto simp: cserver_view_def split: option.splits if_splits)
  ultimately show ?thesis by (auto simp: counter_laws_def cserver_ops_def cval_def Let_def split: option.splits)
qed

definition demo_fn :: "Request \<Rightarrow> string \<times> PlanTier" where
  "demo_fn q = (''acme'', PlanFree)"

definition demo_task_request :: Request where
  "demo_task_request = \<lparr>rq_Method = ''POST'', rq_Path = ''/api/v1/tasks'', rq_RawQuery = [], rq_RemoteAddr = ''10.0.0.1:999'',
     rq_Header = \<lambda>_. [], rq_Body = []\<rparr>"

theorem plan_limits_enforced_witness:
  "int (length (filter (\<lambda>x. gate_org demo_fn (snd x) = ''acme'' \<and> go_div (unix (fst x 0)) 60 = 5)
     (gate_passed cserver_ops (\<lambda>t. ''1970-01-01'') demo_fn DefaultLimits (replicate 100 (\<lambda>i. (62135596800 + 300) * Second, demo_task_request)) []))) \<le> 30"
  using plan_limits_enforced [OF cserver_laws, where r = "[]" and rs = "replicate 100 (\<lambda>i. (62135596800 + 300) * Second, demo_task_request)"
    and fn = demo_fn and p = DefaultLimits and org = "''acme''" and lmt = "GetLimits PlanFree DefaultLimits" and m = 5 and day = "\<lambda>t. ''1970-01-01''"]
  by (simp add: cserver_view_def demo_fn_def gate_org_def gate_limits_def GetLimits_def DefaultLimits_def gget_def)

theorem task_quota_never_reached_witness:
  "fst (CheckTasksQuota cserver_ops ''1970-01'' ''acme'' PlanFree DefaultLimits
     (fst (stack_run cserver_ops (\<lambda>t. ''1970-01-01'') (\<lambda>t. ''1970-01'') demo_fn DefaultLimits DefaultLimits counting_handler
       (replicate 100 (\<lambda>i. int i, demo_task_request)) ([], 0))))"
  by (rule task_quota_never_reached [OF cserver_laws, where period = "\<lambda>t. ''1970-01''"]) (simp_all add: cserver_view_def)

text \<open>
  An organization in the query string takes the place of the token's, so that a caller chooses whose limits and
  counters apply.
\<close>

lemma org_from_query: "query_org q \<noteq> [] \<Longrightarrow> claims_org q \<noteq> None \<Longrightarrow> fst (orgPlanExtractor query_org claims_org billing_plan q) = query_org q"
  by (auto simp: orgPlanExtractor_def Let_def)

text \<open>An unknown tier has the limits of the free plan in the limiter, and none in the quota.\<close>

lemma unknown_tier:
  assumes "tier \<notin> set [PlanFree, PlanPro, PlanTeam, PlanEnterprise]"
  shows "GetLimits tier DefaultLimits = GetLimits PlanFree DefaultLimits" and "CheckTasksQuota ops per org tier DefaultLimits r = (True, -1, None)"
  using assms by (simp_all add: GetLimits_def DefaultLimits_def gget_def limits_at_def CheckTasksQuota_def CheckQuota_def zero_limits_def)

end
