(* ===== verification/Memory.thy ===== *)
theory Memory
  imports Rate_Middleware
begin

text \<open>
  The memory manager of \<^verbatim>\<open>internal/memory/manager.go\<close>: working memory (optionally kept in Redis),
  episodic and semantic memory in PostgreSQL, learned workflows, and the cascading recall over
  them.

  The embedding provider, the distance of pgvector (\<open>dst\<close>), the row scanner of the database
  driver (\<open>scan\<close>), Redis and the JSON codec are parameters. The SQL queries are translated to list functions;
  rows with equal sort keys keep their table order.
\<close>

subsection \<open>Embedding\<close>

type_synonym vector = "f64 list"

record Embedder =
  em_Name :: string
  em_Dimensions :: int
  em_Embed :: "string \<Rightarrow> string + vector"

definition NewNoOpEmbedder :: "int \<Rightarrow> Embedder" where
  "NewNoOpEmbedder dimensions =
     \<lparr>em_Name = ''noop'', em_Dimensions = dimensions, em_Embed = \<lambda>_. Inr (replicate (nat dimensions) 0)\<rparr>"

text \<open>A failed embedding is replaced by the zero vector.\<close>

definition embed_or_zero :: "Embedder \<Rightarrow> string \<Rightarrow> vector" where
  "embed_or_zero e text = (case em_Embed e text of Inr v \<Rightarrow> v | Inl err \<Rightarrow> replicate (nat (em_Dimensions e)) 0)"

subsection \<open>Working memory\<close>

record WorkingMessage =
  wm_UserID :: string
  wm_Role :: string
  wm_Content :: string
  wm_Tokens :: int
  wm_Timestamp :: gotime

record WorkingMemory =
  wk_messages :: "WorkingMessage list"
  wk_sessionID :: string
  wk_redis :: bool
  wk_ttl :: duration

text \<open>The JSON codec of a message list.\<close>

record msg_codec =
  mc_Marshal :: "WorkingMessage list \<Rightarrow> string option"
  mc_Unmarshal :: "string \<Rightarrow> WorkingMessage list option"

definition NewWorkingMemory :: "duration \<Rightarrow> WorkingMemory" where
  "NewWorkingMemory ignored = \<lparr>wk_messages = [], wk_sessionID = [], wk_redis = False, wk_ttl = 0\<rparr>"

definition workingMemoryKey :: "string \<Rightarrow> string" where
  "workingMemoryKey sessionID = ''vigilagent:working_memory:'' @ sessionID"

definition loadFromRedis :: "'r redis_ops \<Rightarrow> msg_codec \<Rightarrow> 'r \<Rightarrow> WorkingMemory \<Rightarrow> WorkingMemory" where
  "loadFromRedis ops codec r w =
     (if \<not> wk_redis w \<or> wk_sessionID w = [] then w
      else case ro_Get ops (workingMemoryKey (wk_sessionID w)) r of
        RVal data \<Rightarrow> (case mc_Unmarshal codec data of Some msgs \<Rightarrow> w\<lparr>wk_messages := msgs\<rparr> | None \<Rightarrow> w)
      | _ \<Rightarrow> w)"

definition NewRedisBackedWorkingMemory :: "'r redis_ops \<Rightarrow> msg_codec \<Rightarrow> bool \<Rightarrow> string \<Rightarrow> duration \<Rightarrow> 'r \<Rightarrow> WorkingMemory" where
  "NewRedisBackedWorkingMemory ops codec rds sessionID ttl r =
     (let w = \<lparr>wk_messages = [], wk_sessionID = sessionID, wk_redis = rds, wk_ttl = ttl\<rparr>
      in if rds \<and> sessionID \<noteq> [] then loadFromRedis ops codec r w else w)"

definition persistToRedis :: "'r redis_ops \<Rightarrow> msg_codec \<Rightarrow> WorkingMemory \<Rightarrow> 'r \<Rightarrow> 'r" where
  "persistToRedis ops codec w r =
     (if \<not> wk_redis w \<or> wk_sessionID w = [] then r
      else case mc_Marshal codec (wk_messages w) of
        None \<Rightarrow> r
      | Some data \<Rightarrow> ro_Set ops (workingMemoryKey (wk_sessionID w)) data (if wk_ttl w \<le> 0 then 24 * Hour else wk_ttl w) r)"

definition wk_Add :: "'r redis_ops \<Rightarrow> msg_codec \<Rightarrow> gotime \<Rightarrow> WorkingMessage \<Rightarrow> WorkingMemory \<times> 'r \<Rightarrow> WorkingMemory \<times> 'r" where
  "wk_Add ops codec now msg wr =
     (let w = (fst wr)\<lparr>wk_messages := wk_messages (fst wr) @ [msg\<lparr>wm_Timestamp := now\<rparr>]\<rparr>
      in (w, if wk_redis w then persistToRedis ops codec w (snd wr) else snd wr))"

definition wk_Get :: "WorkingMemory \<Rightarrow> WorkingMessage list" where
  "wk_Get w = wk_messages w"

text \<open>The loop stops when enough messages were found.\<close>

fun search_messages :: "string \<Rightarrow> string \<Rightarrow> int \<Rightarrow> WorkingMessage list \<Rightarrow> WorkingMessage list \<Rightarrow> WorkingMessage list" where
  "search_messages userID queryLower limit results [] = results"
| "search_messages userID queryLower limit results (msg # msgs) =
     (if limit \<le> int (length results) then results
      else if wm_UserID msg \<noteq> [] \<and> userID \<noteq> [] \<and> wm_UserID msg \<noteq> userID then search_messages userID queryLower limit results msgs
      else if strings_Contains (strings_ToLower (wm_Content msg)) queryLower
      then search_messages userID queryLower limit (results @ [msg]) msgs
      else search_messages userID queryLower limit results msgs)"

definition wk_Search :: "string \<Rightarrow> string \<Rightarrow> int \<Rightarrow> WorkingMemory \<Rightarrow> WorkingMessage list" where
  "wk_Search userID query limit w = search_messages userID (strings_ToLower query) limit [] (wk_messages w)"

definition wk_Clear :: "WorkingMemory \<Rightarrow> WorkingMemory" where
  "wk_Clear w = w\<lparr>wk_messages := []\<rparr>"

definition wk_Count :: "WorkingMemory \<Rightarrow> int" where
  "wk_Count w = int (length (wk_messages w))"

definition wk_TokenCount :: "WorkingMemory \<Rightarrow> int" where
  "wk_TokenCount w = sum_list (map wm_Tokens (wk_messages w))"

subsection \<open>Episodic and semantic memory\<close>

record EpisodicMemory =
  ep_ID :: string
  ep_UserID :: string
  ep_ProjectID :: string
  ep_EpisodeType :: string
  ep_Title :: string
  ep_Content :: string
  ep_Importance :: f64
  ep_Tags :: "string list"
  ep_Embedding :: vector
  ep_CreatedAt :: gotime
  ep_expires_at :: "gotime option"

record Pattern =
  pt_ID :: string
  pt_UserID :: string
  pt_ProjectID :: string
  pt_PatternType :: string
  pt_Name :: string
  pt_Description :: string
  pt_Confidence :: f64
  pt_ObservationCount :: int
  pt_Embedding :: vector
  pt_CreatedAt :: gotime

text \<open>
  \<open>scan cols dests row\<close>: scanning a row of \<open>cols\<close> columns into \<open>dests\<close> destinations; rows that fail are skipped.
\<close>

definition scan_rows :: "(nat \<Rightarrow> nat \<Rightarrow> 'a \<Rightarrow> 'a option) \<Rightarrow> nat \<Rightarrow> nat \<Rightarrow> 'a list \<Rightarrow> 'a list" where
  "scan_rows scan cols dests rows = List.map_filter (scan cols dests) rows"

definition live :: "gotime \<Rightarrow> EpisodicMemory \<Rightarrow> bool" where
  "live now e \<longleftrightarrow> (case ep_expires_at e of None \<Rightarrow> True | Some t \<Rightarrow> now < t)"

text \<open>The query selects twelve columns into twelve destinations.\<close>

definition ep_Search ::
    "(nat \<Rightarrow> nat \<Rightarrow> EpisodicMemory \<Rightarrow> EpisodicMemory option) \<Rightarrow> (vector \<Rightarrow> vector \<Rightarrow> f64) \<Rightarrow> gotime \<Rightarrow> string \<Rightarrow> vector \<Rightarrow> int \<Rightarrow>
     EpisodicMemory list \<Rightarrow> EpisodicMemory list" where
  "ep_Search scan dst now userID embedding limit rows =
     scan_rows scan 12 12
       (take (nat limit) (sort_key (\<lambda>e. dst (ep_Embedding e) embedding)
         (filter (\<lambda>e. (userID = [] \<or> ep_UserID e = userID) \<and> live now e) rows)))"

definition ep_ListByUser ::
    "(nat \<Rightarrow> nat \<Rightarrow> EpisodicMemory \<Rightarrow> EpisodicMemory option) \<Rightarrow> gotime \<Rightarrow> string \<Rightarrow> int \<Rightarrow> EpisodicMemory list \<Rightarrow> EpisodicMemory list" where
  "ep_ListByUser scan now userID limit rows =
     scan_rows scan 8 8
       (take (nat limit) (sort_key (\<lambda>e. - ep_Importance e) (sort_key (\<lambda>e. - ep_CreatedAt e)
         (filter (\<lambda>e. ep_UserID e = userID \<and> live now e) rows))))"

text \<open>The query selects eleven columns, with the similarity last, but scans into ten destinations.\<close>

definition pt_Search ::
    "(nat \<Rightarrow> nat \<Rightarrow> Pattern \<Rightarrow> Pattern option) \<Rightarrow> (vector \<Rightarrow> vector \<Rightarrow> f64) \<Rightarrow> string \<Rightarrow> string \<Rightarrow> vector \<Rightarrow> int \<Rightarrow> Pattern list \<Rightarrow> Pattern list" where
  "pt_Search scan dst userID projectID embedding limit rows =
     scan_rows scan 11 10
       (take (nat limit) (sort_key (\<lambda>p. dst (pt_Embedding p) embedding)
         (filter (\<lambda>p. (userID = [] \<or> pt_UserID p = userID) \<and> (projectID = [] \<or> pt_ProjectID p = projectID)) rows)))"

definition pt_ListByProject :: "(nat \<Rightarrow> nat \<Rightarrow> Pattern \<Rightarrow> Pattern option) \<Rightarrow> string \<Rightarrow> int \<Rightarrow> Pattern list \<Rightarrow> Pattern list" where
  "pt_ListByProject scan projectID limit rows =
     scan_rows scan 7 7
       (take (nat limit) (sort_key (\<lambda>p. - pt_Confidence p) (sort_key (\<lambda>p. - pt_ObservationCount p)
         (filter (\<lambda>p. pt_ProjectID p = projectID) rows))))"

subsection \<open>Workflows\<close>

record WorkflowStep =
  ws_Action :: string
  ws_Description :: string
  ws_Tool :: string

record Workflow =
  wf_ID :: string
  wf_UserID :: string
  wf_Name :: string
  wf_Description :: string
  wf_Steps :: "WorkflowStep list"
  wf_SuccessRate :: f64
  wf_UsageCount :: int
  wf_CreatedAt :: gotime

type_synonym ProceduralStore = "(string, Workflow) gomap"

definition NewProceduralStore :: ProceduralStore where
  "NewProceduralStore = []"

definition wf_Store :: "gotime \<Rightarrow> Workflow \<Rightarrow> ProceduralStore \<Rightarrow> ProceduralStore" where
  "wf_Store now flow s = gput (wf_ID flow) (flow\<lparr>wf_CreatedAt := now\<rparr>) s"

definition wf_Get :: "string \<Rightarrow> ProceduralStore \<Rightarrow> string + Workflow" where
  "wf_Get k s = (case gget s k of None \<Rightarrow> Inl (''workflow not found: '' @ k) | Some flow \<Rightarrow> Inr flow)"

text \<open>\<open>ids\<close>: the order in which the map is iterated; the loop stops at the limit.\<close>

definition wf_select :: "(Workflow \<Rightarrow> bool) \<Rightarrow> string list \<Rightarrow> int \<Rightarrow> ProceduralStore \<Rightarrow> Workflow list" where
  "wf_select P ids limit s = take (nat limit) (filter P (List.map_filter (gget s) ids))"

definition wf_Search :: "string list \<Rightarrow> string \<Rightarrow> int \<Rightarrow> ProceduralStore \<Rightarrow> Workflow list" where
  "wf_Search ids query limit s =
     wf_select (\<lambda>flow. strings_Contains (strings_ToLower (wf_Name flow)) (strings_ToLower query) \<or>
                     strings_Contains (strings_ToLower (wf_Description flow)) (strings_ToLower query)) ids limit s"

definition wf_ListByUser :: "string list \<Rightarrow> string \<Rightarrow> int \<Rightarrow> ProceduralStore \<Rightarrow> Workflow list" where
  "wf_ListByUser ids userID limit s = wf_select (\<lambda>flow. wf_UserID flow = userID) ids limit s"

subsection \<open>The manager\<close>

text \<open>The two tables are part of the state.\<close>

record Manager =
  mg_episodes :: "EpisodicMemory list"
  mg_patterns :: "Pattern list"
  mg_procedural :: ProceduralStore
  mg_working :: WorkingMemory
  mg_embedder :: Embedder

text \<open>\<open>dbDim\<close>: the dimension found in the table, \<open>None\<close> without a database or a row.\<close>

definition NewManagerWithEmbedder :: "int option \<Rightarrow> EpisodicMemory list \<Rightarrow> Pattern list \<Rightarrow> Embedder option \<Rightarrow> Manager" where
  "NewManagerWithEmbedder dbDim episodes patterns embedder0 =
     (let embedder1 = (case embedder0 of None \<Rightarrow> NewNoOpEmbedder 1536 | Some e \<Rightarrow> e);
          embedder = (case dbDim of Some d \<Rightarrow> if d \<noteq> em_Dimensions embedder1 then NewNoOpEmbedder d else embedder1 | None \<Rightarrow> embedder1)
      in \<lparr>mg_episodes = episodes, mg_patterns = patterns, mg_procedural = NewProceduralStore,
          mg_working = NewWorkingMemory (30 * Minute), mg_embedder = embedder\<rparr>)"

definition NewManager :: "int option \<Rightarrow> EpisodicMemory list \<Rightarrow> Pattern list \<Rightarrow> Manager" where
  "NewManager dbDim episodes patterns = NewManagerWithEmbedder dbDim episodes patterns (Some (NewNoOpEmbedder 1536))"

record RecallResult =
  rc_Type :: string
  rc_Content :: string
  rc_Title :: string
  rc_Score :: f64

definition of_message :: "WorkingMessage \<Rightarrow> RecallResult" where
  "of_message msg = \<lparr>rc_Type = ''working'', rc_Content = wm_Content msg, rc_Title = [], rc_Score = fl (9 / 10)\<rparr>"

definition of_episode :: "EpisodicMemory \<Rightarrow> RecallResult" where
  "of_episode e = \<lparr>rc_Type = ''episodic'', rc_Content = ep_Content e, rc_Title = ep_Title e, rc_Score = ep_Importance e\<rparr>"

definition of_pattern :: "Pattern \<Rightarrow> RecallResult" where
  "of_pattern p = \<lparr>rc_Type = ''semantic'', rc_Content = pt_Description p, rc_Title = pt_Name p, rc_Score = pt_Confidence p\<rparr>"

text \<open>
  The database environment: scanners, distance, clock, and whether the two queries succeed.
\<close>

record mem_env =
  me_scan_ep :: "nat \<Rightarrow> nat \<Rightarrow> EpisodicMemory \<Rightarrow> EpisodicMemory option"
  me_scan_pt :: "nat \<Rightarrow> nat \<Rightarrow> Pattern \<Rightarrow> Pattern option"
  me_dst :: "vector \<Rightarrow> vector \<Rightarrow> f64"
  me_now :: gotime
  me_ep_ok :: bool
  me_pt_ok :: bool

definition mg_Recall :: "mem_env \<Rightarrow> string \<Rightarrow> string \<Rightarrow> int \<Rightarrow> Manager \<Rightarrow> RecallResult list" where
  "mg_Recall env userID query limit m =
     (let r1 = map of_message (wk_Search userID query limit (mg_working m)) in
      if limit \<le> int (length r1) then r1
      else
        let queryVec = embed_or_zero (mg_embedder m) query in
        if list_all (\<lambda>v. v = 0) queryVec then r1
        else
          let r2 = r1 @ (if me_ep_ok env
                then map of_episode (ep_Search (me_scan_ep env) (me_dst env) (me_now env) userID queryVec (limit - int (length r1)) (mg_episodes m)) else [])
          in if limit \<le> int (length r2) then r2
             else r2 @ (if me_pt_ok env
                then map of_pattern (pt_Search (me_scan_pt env) (me_dst env) userID [] queryVec (limit - int (length r2)) (mg_patterns m)) else []))"

text \<open>The inserted row; \<open>ident\<close> and \<open>now\<close> are what the database assigns, \<open>ok\<close> whether the insert succeeds.\<close>

definition StoreEpisode ::
    "bool \<Rightarrow> string \<Rightarrow> gotime \<Rightarrow> string \<Rightarrow> string \<Rightarrow> string \<Rightarrow> string \<Rightarrow> f64 \<Rightarrow> Manager \<Rightarrow> Manager \<times> bool" where
  "StoreEpisode ok ident now userID episodeType title content importance m =
     (if \<not> ok then (m, False)
      else (m\<lparr>mg_episodes := mg_episodes m @
                [\<lparr>ep_ID = ident, ep_UserID = userID, ep_ProjectID = [], ep_EpisodeType = episodeType, ep_Title = title, ep_Content = content,
                  ep_Importance = importance, ep_Tags = [], ep_Embedding = embed_or_zero (mg_embedder m) (title @ [CHR 0x0A] @ content),
                  ep_CreatedAt = now, ep_expires_at = None\<rparr>]\<rparr>, True))"

definition StorePattern ::
    "bool \<Rightarrow> string \<Rightarrow> gotime \<Rightarrow> string \<Rightarrow> string \<Rightarrow> string \<Rightarrow> string \<Rightarrow> string \<Rightarrow> Manager \<Rightarrow> Manager \<times> bool" where
  "StorePattern ok ident now userID projectID patternType name description m =
     (if \<not> ok then (m, False)
      else (m\<lparr>mg_patterns := mg_patterns m @
                [\<lparr>pt_ID = ident, pt_UserID = userID, pt_ProjectID = projectID, pt_PatternType = patternType, pt_Name = name,
                  pt_Description = description, pt_Confidence = 1 / 2, pt_ObservationCount = 0,
                  pt_Embedding = embed_or_zero (mg_embedder m) (name @ [CHR 0x0A] @ description), pt_CreatedAt = now\<rparr>]\<rparr>, True))"

definition AddWorkingMessageForUser ::
    "'r redis_ops \<Rightarrow> msg_codec \<Rightarrow> gotime \<Rightarrow> string \<Rightarrow> string \<Rightarrow> string \<Rightarrow> int \<Rightarrow> Manager \<times> 'r \<Rightarrow> Manager \<times> 'r" where
  "AddWorkingMessageForUser ops codec now userID role content tokens mr =
     (let (w, r) = wk_Add ops codec now \<lparr>wm_UserID = userID, wm_Role = role, wm_Content = content, wm_Tokens = tokens, wm_Timestamp = zero_time\<rparr>
                     (mg_working (fst mr), snd mr)
      in ((fst mr)\<lparr>mg_working := w\<rparr>, r))"

definition AddWorkingMessage :: "'r redis_ops \<Rightarrow> msg_codec \<Rightarrow> gotime \<Rightarrow> string \<Rightarrow> string \<Rightarrow> int \<Rightarrow> Manager \<times> 'r \<Rightarrow> Manager \<times> 'r" where
  "AddWorkingMessage ops codec now role content tokens mr = AddWorkingMessageForUser ops codec now [] role content tokens mr"

definition EnableRedisBacking :: "'r redis_ops \<Rightarrow> msg_codec \<Rightarrow> bool \<Rightarrow> string \<Rightarrow> Manager \<times> 'r \<Rightarrow> Manager \<times> 'r" where
  "EnableRedisBacking ops codec rds sessionID mr =
     (if \<not> rds \<or> sessionID = [] then mr
      else ((fst mr)\<lparr>mg_working := NewRedisBackedWorkingMemory ops codec rds sessionID (24 * Hour) (snd mr)\<rparr>, snd mr))"

definition ClearWorkingMemory :: "Manager \<Rightarrow> Manager" where
  "ClearWorkingMemory m = m\<lparr>mg_working := wk_Clear (mg_working m)\<rparr>"

fun filter_results :: "string list \<Rightarrow> int \<Rightarrow> f64 \<Rightarrow> RecallResult list \<Rightarrow> RecallResult list \<Rightarrow> RecallResult list" where
  "filter_results types limit minRelevance filtered [] = filtered"
| "filter_results types limit minRelevance filtered (r # rs) =
     (if rc_Score r < minRelevance then filter_results types limit minRelevance filtered rs
      else if types \<noteq> [] \<and> rc_Type r \<notin> set types then filter_results types limit minRelevance filtered rs
      else if limit \<le> int (length (filtered @ [r])) then filtered @ [r]
      else filter_results types limit minRelevance (filtered @ [r]) rs)"

definition SearchMemory :: "mem_env \<Rightarrow> string \<Rightarrow> string \<Rightarrow> string list \<Rightarrow> int \<Rightarrow> f64 \<Rightarrow> Manager \<Rightarrow> RecallResult list" where
  "SearchMemory env userID query types limit minRelevance m =
     filter_results types limit minRelevance [] (mg_Recall env userID query (limit * 2) m)"


subsection \<open>Properties\<close>

text \<open>What a user may see of the memory.\<close>

definition visible_to :: "string \<Rightarrow> WorkingMessage \<Rightarrow> bool" where
  "visible_to userID msg \<longleftrightarrow> wm_UserID msg = [] \<or> wm_UserID msg = userID"

definition own_view :: "string \<Rightarrow> Manager \<Rightarrow> WorkingMessage list \<times> EpisodicMemory list \<times> Pattern list \<times> Embedder" where
  "own_view userID m =
     (filter (visible_to userID) (wk_messages (mg_working m)), filter (\<lambda>e. ep_UserID e = userID) (mg_episodes m),
      filter (\<lambda>p. pt_UserID p = userID) (mg_patterns m), mg_embedder m)"

lemma search_messages_full: "limit \<le> int (length results) \<Longrightarrow> search_messages userID q limit results msgs = results"
  by (cases msgs) simp_all

lemma search_messages_visible:
  "userID \<noteq> [] \<Longrightarrow> search_messages userID q limit results msgs = search_messages userID q limit results (filter (visible_to userID) msgs)"
  by (induction userID q limit results msgs rule: search_messages.induct) (auto simp: visible_to_def search_messages_full)

lemma ep_Search_own:
  "userID \<noteq> [] \<Longrightarrow> ep_Search scan d now userID v limit rows = ep_Search scan d now userID v limit (filter (\<lambda>e. ep_UserID e = userID) rows)"
  by (simp add: ep_Search_def conj_commute conj_left_commute)

lemma pt_Search_own:
  "userID \<noteq> [] \<Longrightarrow> pt_Search scan d userID proj v limit rows = pt_Search scan d userID proj v limit (filter (\<lambda>p. pt_UserID p = userID) rows)"
  by (simp add: pt_Search_def conj_commute conj_left_commute)

lemma recall_view:
  assumes "userID \<noteq> []" "own_view userID m = own_view userID m'"
  shows "mg_Recall env userID query limit m = mg_Recall env userID query limit m'"
proof -
  have w: "wk_Search userID query limit (mg_working m) = wk_Search userID query limit (mg_working m')"
    using assms search_messages_visible [OF assms(1)] by (metis own_view_def wk_Search_def fst_conv)
  have e: "ep_Search s d now userID v n (mg_episodes m) = ep_Search s d now userID v n (mg_episodes m')" for s d now v n
    using assms ep_Search_own [OF assms(1)] by (metis own_view_def fst_conv snd_conv)
  have p: "pt_Search s d userID [] v n (mg_patterns m) = pt_Search s d userID [] v n (mg_patterns m')" for s d v n
    using assms pt_Search_own [OF assms(1)] by (metis own_view_def fst_conv snd_conv)
  have emb: "mg_embedder m = mg_embedder m'" using assms(2) by (simp add: own_view_def)
  show ?thesis unfolding mg_Recall_def w e p emb by (rule refl)
qed

text \<open>
  C32. Cross-tenant isolation of memory, as non-interference: what a named user recalls or finds does
  not depend on the messages, episodes and patterns of other users. Two managers that agree on
  the user's own and on the system's entries give the same results, in the same order.
\<close>

theorem recall_isolated:
  assumes "userID \<noteq> []" "own_view userID m = own_view userID m'"
  shows "mg_Recall env userID query limit m = mg_Recall env userID query limit m' \<and>
    SearchMemory env userID query types n rel m = SearchMemory env userID query types n rel m'"
  using recall_view [OF assms] by (simp add: SearchMemory_def)

definition demo_message :: "string \<Rightarrow> string \<Rightarrow> WorkingMessage" where
  "demo_message u c = \<lparr>wm_UserID = u, wm_Role = ''user'', wm_Content = c, wm_Tokens = 1, wm_Timestamp = 0\<rparr>"

definition demo_manager :: "WorkingMessage list \<Rightarrow> Manager" where
  "demo_manager msgs = (NewManager None [] [])\<lparr>mg_working := (NewWorkingMemory 0)\<lparr>wk_messages := msgs\<rparr>\<rparr>"

definition demo_mem_env :: mem_env where
  "demo_mem_env = \<lparr>me_scan_ep = \<lambda>c d r. if c = d then Some r else None, me_scan_pt = \<lambda>c d r. if c = d then Some r else None,
     me_dst = \<lambda>v w. 0, me_now = 0, me_ep_ok = True, me_pt_ok = True\<rparr>"

theorem recall_isolated_witness:
  "mg_Recall demo_mem_env ''ann'' ''key'' 5 (demo_manager [demo_message ''ann'' ''my key'', demo_message ''bob'' ''his key'']) =
   mg_Recall demo_mem_env ''ann'' ''key'' 5 (demo_manager [demo_message ''ann'' ''my key'']) \<and>
   mg_Recall demo_mem_env ''ann'' ''key'' 5 (demo_manager [demo_message ''ann'' ''my key'']) = [of_message (demo_message ''ann'' ''my key'')]"
proof -
  have "own_view ''ann'' (demo_manager [demo_message ''ann'' ''my key'', demo_message ''bob'' ''his key'']) =
      own_view ''ann'' (demo_manager [demo_message ''ann'' ''my key''])"
    by (simp add: own_view_def demo_manager_def demo_message_def visible_to_def)
  moreover have "mg_Recall demo_mem_env ''ann'' ''key'' 5 (demo_manager [demo_message ''ann'' ''my key'']) = [of_message (demo_message ''ann'' ''my key'')]"
    by (simp add: mg_Recall_def demo_manager_def wk_Search_def NewManager_def NewManagerWithEmbedder_def NewNoOpEmbedder_def embed_or_zero_def
        demo_message_def strings_Contains_def strings_Index_def strings_ToLower_def ascii_lower_def list_all_iff)
  ultimately show ?thesis using recall_isolated [of "''ann''"] by (metis list.distinct(1))
qed

text \<open>
  The semantic layer never contributes: its query has one column more than it has destinations, the
  driver refuses to scan such rows, and the rows it refuses are skipped. So no result of a
  recall is of type semantic, whatever patterns are stored.
\<close>

theorem semantic_recall_empty:
  assumes "\<And>cols dests row. cols \<noteq> dests \<Longrightarrow> me_scan_pt env cols dests row = None"
  shows "pt_Search (me_scan_pt env) d userID proj v n rows = [] \<and> ''semantic'' \<notin> rc_Type ` set (mg_Recall env userID query limit m)"
proof -
  have "List.map_filter (me_scan_pt env 11 10) xs = []" for xs using assms by (induction xs) (simp_all add: map_filter_simps)
  then have "pt_Search (me_scan_pt env) d userID proj v n rows = []" for d userID proj v n rows by (simp add: pt_Search_def scan_rows_def)
  then show ?thesis by (auto simp: mg_Recall_def Let_def of_message_def of_episode_def split: if_splits)
qed

definition vector_embedder :: Embedder where
  "vector_embedder = \<lparr>em_Name = ''unit'', em_Dimensions = 1, em_Embed = \<lambda>_. Inr [1]\<rparr>"

theorem semantic_recall_empty_witness:
  "mg_Recall demo_mem_env ''ann'' ''q'' 5 (fst (StorePattern True ''1'' 0 ''ann'' ''p'' ''codebase'' ''q'' ''q'' (NewManagerWithEmbedder None [] [] (Some vector_embedder)))) = []"
proof -
  let ?m = "fst (StorePattern True ''1'' 0 ''ann'' ''p'' ''codebase'' ''q'' ''q'' (NewManagerWithEmbedder None [] [] (Some vector_embedder)))"
  have s: "pt_Search (me_scan_pt demo_mem_env) d userID proj v n rows = []" for d userID proj v n rows
    using semantic_recall_empty [of demo_mem_env d userID proj v n rows] by (simp add: demo_mem_env_def)
  show ?thesis unfolding mg_Recall_def s
    by (simp add: StorePattern_def NewManagerWithEmbedder_def vector_embedder_def wk_Search_def NewWorkingMemory_def ep_Search_def scan_rows_def map_filter_simps Let_def)
qed

text \<open>
  Working memory kept in Redis survives a restart: a memory created for the same session holds the
  messages present after the last addition. It also survives clearing, which is not written to
  Redis: a restart brings the cleared messages back.
\<close>

theorem working_memory_survives:
  assumes "\<And>k v d r. ro_Get ops k (ro_Set ops k v d r) = RVal v"
    and "mc_Marshal codec (wk_messages w @ [msg\<lparr>wm_Timestamp := now\<rparr>]) = Some data"
      "mc_Unmarshal codec data = Some (wk_messages w @ [msg\<lparr>wm_Timestamp := now\<rparr>])"
    and "wk_redis w" "wk_sessionID w \<noteq> []" "wk_Add ops codec now msg (w, r) = (w', r')"
  shows "wk_messages (NewRedisBackedWorkingMemory ops codec True (wk_sessionID w) ttl r') = wk_messages w @ [msg\<lparr>wm_Timestamp := now\<rparr>] \<and>
    wk_messages (wk_Clear w') = [] \<and>
    wk_messages (NewRedisBackedWorkingMemory ops codec True (wk_sessionID (wk_Clear w')) ttl r') = wk_messages w @ [msg\<lparr>wm_Timestamp := now\<rparr>]"
  using assms by (auto simp: wk_Add_def persistToRedis_def NewRedisBackedWorkingMemory_def loadFromRedis_def wk_Clear_def Let_def)

definition kv_ops :: "(string, string) gomap redis_ops" where
  "kv_ops =
     \<lparr>ro_Get = \<lambda>k r. (case gget r k of None \<Rightarrow> RNil | Some v \<Rightarrow> RVal v), ro_IncrBy = \<lambda>k n r. (r, Inl ''error''), ro_Expire = \<lambda>k d r. r,
      ro_Set = \<lambda>k v d r. gput k v r, ro_Del = \<lambda>k r. gdel k r, ro_TTL = \<lambda>k r. Inr 0,
      ro_ZRemRangeByScore = \<lambda>k lo hi r. r, ro_ZCard = \<lambda>k r. 0, ro_ZAdd = \<lambda>k s m r. r, ro_ZFirst = \<lambda>k r. None,
      ro_random = \<lambda>r. ''0'', ro_script_error = \<lambda>r. None\<rparr>"

text \<open>A codec that keeps the contents of messages.\<close>

definition line_codec :: msg_codec where
  "line_codec =
     \<lparr>mc_Marshal = \<lambda>msgs. Some (strings_Join (map wm_Content msgs) ''|''),
      mc_Unmarshal = \<lambda>d. Some (map (demo_message []) (strings_Split d (CHR ''|'')))\<rparr>"

theorem working_memory_survives_witness:
  "wk_messages (NewRedisBackedWorkingMemory kv_ops line_codec True ''s1'' Hour
     (snd (wk_Add kv_ops line_codec 0 (demo_message [] ''b'') (\<lparr>wk_messages = [demo_message [] ''a''], wk_sessionID = ''s1'', wk_redis = True, wk_ttl = 0\<rparr>, []))))
   = [demo_message [] ''a'', demo_message [] ''b'']"
proof -
  let ?w = "\<lparr>wk_messages = [demo_message [] ''a''], wk_sessionID = ''s1'', wk_redis = True, wk_ttl = 0\<rparr>"
  have "mc_Marshal line_codec [demo_message [] ''a'', demo_message [] ''b''] = Some ''a|b''"
    "mc_Unmarshal line_codec ''a|b'' = Some [demo_message [] ''a'', demo_message [] ''b'']" by code_simp+
  then show ?thesis
    using working_memory_survives [where ops = kv_ops and codec = line_codec and w = ?w and msg = "demo_message [] ''b''" and now = 0 and data = "''a|b''" and r = "[]"
      and w' = "fst (wk_Add kv_ops line_codec 0 (demo_message [] ''b'') (?w, []))" and r' = "snd (wk_Add kv_ops line_codec 0 (demo_message [] ''b'') (?w, []))" and ttl = Hour]
    by (simp add: kv_ops_def demo_message_def)
qed

end
