(* ===== verification/Keyword_Match.thy ===== *)
theory Keyword_Match
  imports Go_Strings Float64
begin

text \<open>
  Keyword matching of the deterministic engines (\<open>util/util.go\<close>): \<open>ContainsWord\<close>, the search
  for an occurrence that starts a word, and the match score by which the requirement and
  compliance rules fire. The search loop advances an offset into the text; it is a function with a
  termination proof, and \<open>HasWordBoundary_iff\<close> is its specification.
\<close>

definition IsWordChar :: "char \<Rightarrow> bool" where
  "IsWordChar c \<longleftrightarrow>
     (let n = (of_char c :: nat) in (97 \<le> n \<and> n \<le> 122) \<or> (65 \<le> n \<and> n \<le> 90) \<or> (48 \<le> n \<and> n \<le> 57) \<or> n = 95)"

text \<open>
  One round of the loop per call; \<open>start\<close> is the offset of the unread part. An offset past the end
  would panic in Go; \<open>search_word_iff\<close> shows that the loop returns before it gets there.
\<close>

function search_word :: "string \<Rightarrow> string \<Rightarrow> nat \<Rightarrow> bool" where
  "search_word text keyword start =
     (if length text < start then False
      else let idx = strings_Index (drop start text) keyword in
        if idx = -1 then False
        else let absIdx = start + nat idx in
          if 0 < absIdx \<and> IsWordChar (text ! (absIdx - 1)) then search_word text keyword (absIdx + 1)
          else True)"
  by pat_completeness auto
termination
  by (relation "measure (\<lambda>(text, keyword, start). length text + 1 - start)") auto

declare search_word.simps [simp del]

definition HasWordBoundary :: "string \<Rightarrow> string \<Rightarrow> bool" where
  "HasWordBoundary text keyword = search_word text keyword 0"

definition ContainsWord :: "string \<Rightarrow> string \<Rightarrow> bool" where
  "ContainsWord text keyword \<longleftrightarrow>
     (if \<not> strings_Contains text keyword then False
      else if length keyword \<le> 3 then HasWordBoundary text keyword else True)"

definition Truncate :: "string \<Rightarrow> nat \<Rightarrow> string" where
  "Truncate s maxLen = (if length s \<le> maxLen then s else take maxLen s @ ''...'')"

definition ComputeMatchScore :: "string \<Rightarrow> string list \<Rightarrow> string list \<Rightarrow> f64" where
  "ComputeMatchScore text keywords excludes =
     (if list_ex (ContainsWord text) excludes then 0
      else if keywords = [] then 0
      else fdiv (f_of_int (int (length (filter (ContainsWord text) keywords)))) (f_of_int (int (length keywords))))"

subsection \<open>Occurrences\<close>

text \<open>\<open>occurs_at text kw k\<close>: the keyword stands at offset \<open>k\<close>. \<open>Index\<close> finds the first such offset.\<close>

definition occurs_at :: "string \<Rightarrow> string \<Rightarrow> nat \<Rightarrow> bool" where
  "occurs_at text kw k \<longleftrightarrow> k \<le> length text \<and> (\<exists>b. drop k text = kw @ b)"

lemma index_from_least: "index_from 0 s sub = int k \<Longrightarrow> j < k \<Longrightarrow> \<not> occurs_at s sub j"
proof (induction s arbitrary: j k)
  case (Cons c s)
  from Cons.prems have neq: "\<not> (\<exists>t. c # s = sub @ t)" by (auto split: if_splits)
  with Cons.prems(1) have step: "index_from 1 s sub = int k" by (auto split: if_splits)
  with index_from_shift [of 1 s sub] Cons.prems(2) have tail: "index_from 0 s sub = int (k - 1)"
    by (auto simp: Let_def split: if_splits)
  show ?case
  proof (cases j)
    case 0
    with neq show ?thesis by (simp add: occurs_at_def)
  next
    case (Suc i)
    with Cons.IH [OF tail, of i] Cons.prems(2) show ?thesis by (auto simp: occurs_at_def)
  qed
qed (auto split: if_splits)

lemma Index_first:
  assumes "strings_Index s sub = int k"
  shows "occurs_at s sub k \<and> (\<forall>j < k. \<not> occurs_at s sub j)"
proof -
  have i: "index_from 0 s sub = int k" using assms by (simp add: strings_Index_def)
  then have "index_from 0 s sub \<noteq> -1" by simp
  from index_from_at [OF this] i have "\<exists>t. drop k s = sub @ t" by simp
  moreover have "k \<le> length s" using index_from_range [of s sub] i by linarith
  ultimately show ?thesis using index_from_least [OF i] by (auto simp: occurs_at_def)
qed

lemma Index_none: "strings_Index s sub = -1 \<longleftrightarrow> (\<forall>k. \<not> occurs_at s sub k)"
proof
  assume "strings_Index s sub = -1"
  then have "\<not> strings_Contains s sub" by (simp add: strings_Contains_def)
  then show "\<forall>k. \<not> occurs_at s sub k" unfolding Contains_iff occurs_at_def by (metis append_take_drop_id)
next
  assume none: "\<forall>k. \<not> occurs_at s sub k"
  show "strings_Index s sub = -1"
  proof (rule ccontr)
    assume "strings_Index s sub \<noteq> -1"
    then have "strings_Index s sub = int (nat (strings_Index s sub))" using Index_range [of s sub] by auto
    from Index_first [OF this] none show False by blast
  qed
qed

lemma occurs_at_drop: "start \<le> length text \<Longrightarrow> occurs_at (drop start text) kw k \<longleftrightarrow> occurs_at text kw (start + k)"
  by (auto simp: occurs_at_def add.commute)

text \<open>An occurrence that starts a word: nothing before it, or no word character.\<close>

definition starts_word :: "string \<Rightarrow> nat \<Rightarrow> bool" where
  "starts_word text k \<longleftrightarrow> k = 0 \<or> \<not> IsWordChar (text ! (k - 1))"

lemma search_word_iff:
  "start \<le> length text \<Longrightarrow> search_word text kw start \<longleftrightarrow> (\<exists>k \<ge> start. occurs_at text kw k \<and> starts_word text k)"
proof (induction "text" kw start rule: search_word.induct)
  case (1 t kw start)
  define idx where "idx = strings_Index (drop start t) kw"
  show ?case
  proof (cases "idx = -1")
    case True
    then have none: "\<not> occurs_at t kw k" if "start \<le> k" for k
      using Index_none [of "drop start t" kw] occurs_at_drop [OF "1.prems", of kw "k - start"] that by (simp add: idx_def)
    have "search_word t kw start = False"
      using True by (subst search_word.simps) (simp add: idx_def)
    with none show ?thesis by blast
  next
    case False
    define p where "p = start + nat idx"
    have found: "strings_Index (drop start t) kw = int (nat idx)"
      using False Index_range [of "drop start t" kw] by (auto simp: idx_def)
    from Index_first [OF found] have here: "occurs_at t kw p" and before: "\<And>k. start \<le> k \<Longrightarrow> k < p \<Longrightarrow> \<not> occurs_at t kw k"
      using occurs_at_drop [OF "1.prems", of kw]
      by (auto simp: p_def) (metis add_diff_inverse_nat less_diff_conv2 not_less add.commute)
    have p_le: "p \<le> length t" using here by (simp add: occurs_at_def)
    have step: "search_word t kw start = (if 0 < p \<and> IsWordChar (t ! (p - 1)) then search_word t kw (p + 1) else True)"
      using False "1.prems" by (subst search_word.simps) (simp add: Let_def flip: idx_def p_def)
    show ?thesis
    proof (cases "0 < p \<and> IsWordChar (t ! (p - 1))")
      case no: False
      with step here show ?thesis by (auto simp: starts_word_def p_def intro!: exI [of _ p])
    next
      case yes: True
      then have here_not: "\<not> starts_word t p" by (simp add: starts_word_def)
      have split: "(\<exists>k \<ge> start. occurs_at t kw k \<and> starts_word t k) \<longleftrightarrow> (\<exists>k \<ge> p + 1. occurs_at t kw k \<and> starts_word t k)"
      proof -
        have "p + 1 \<le> k" if "start \<le> k" "occurs_at t kw k" "starts_word t k" for k
          using before [OF that(1)] here_not that by (metis Suc_eq_plus1 Suc_leI linorder_neqE_nat)
        moreover have "start \<le> k" if "p + 1 \<le> k" for k using that p_def by linarith
        ultimately show ?thesis by blast
      qed
      show ?thesis
      proof (cases "p + 1 \<le> length t")
        case True
        have "search_word t kw (p + 1) \<longleftrightarrow> (\<exists>k \<ge> p + 1. occurs_at t kw k \<and> starts_word t k)"
          using "1.IH" [of idx p] "1.prems" False yes True by (auto simp: idx_def p_def)
        with step yes split show ?thesis by simp
      next
        case over: False
        then have "search_word t kw (p + 1) = False" by (subst search_word.simps) simp
        moreover have "\<not> (\<exists>k \<ge> p + 1. occurs_at t kw k \<and> starts_word t k)" using over by (auto simp: occurs_at_def)
        ultimately show ?thesis using step yes split by simp
      qed
    qed
  qed
qed

lemma HasWordBoundary_iff: "HasWordBoundary text kw \<longleftrightarrow> (\<exists>k. occurs_at text kw k \<and> starts_word text k)"
  by (simp add: HasWordBoundary_def search_word_iff)

lemma ContainsWord_sub: "ContainsWord text kw \<Longrightarrow> strings_Contains text kw"
  by (simp add: ContainsWord_def split: if_splits)

subsection \<open>The score as a threshold\<close>

text \<open>
  A rule whose minimum score is positive and at most the score of a single keyword fires exactly
  when some keyword occurs and no exclusion does.
\<close>

lemma score_threshold:
  assumes "0 < minScore" "minScore \<le> fdiv 1 (f_of_int (int (length kws)))" "length kws \<le> 2 ^ 53"
  shows "minScore \<le> ComputeMatchScore text kws excludes \<longleftrightarrow>
    list_ex (ContainsWord text) kws \<and> \<not> list_ex (ContainsWord text) excludes"
proof -
  define n where "n = length (filter (ContainsWord text) kws)"
  have keys: "f_of_int (int (length kws)) = of_nat (length kws)" and hits: "f_of_int (int n) = of_nat n"
    using assms(3) fl_of_int [of "int (length kws)"] fl_of_int [of "int n"] length_filter_le [of "ContainsWord text" kws]
    by (simp_all add: f_of_int_def n_def)
  have hit: "0 < n \<longleftrightarrow> list_ex (ContainsWord text) kws" by (auto simp: n_def list_ex_iff filter_empty_conv)
  have one: "minScore \<le> fdiv (of_nat n) (of_nat (length kws))" if "0 < n"
  proof -
    have "fl (1 / of_nat (length kws)) \<le> fl (of_nat n / of_nat (length kws) :: rat)"
      using that by (intro fl_mono divide_right_mono) simp_all
    with assms(2) show ?thesis by (simp add: fdiv_def keys)
  qed
  have none: "fdiv (of_nat 0) (of_nat (length kws)) = 0" by (simp add: fdiv_def)
  have score: "ComputeMatchScore text kws excludes = (if list_ex (ContainsWord text) excludes then 0 else if kws = [] then 0
      else fdiv (of_nat n) (of_nat (length kws)))"
    by (simp add: ComputeMatchScore_def keys hits flip: n_def)
  have "kws = [] \<Longrightarrow> n = 0" by (simp add: n_def)
  then show ?thesis
    using assms(1) one none by (cases "n = 0") (auto simp: score simp flip: hit)
qed

end
