(* ===== verification/Scanner.thy ===== *)
theory Scanner
  imports Keyword_Match Go_Order Go_Sort Go_Paths
begin

text \<open>
  The deterministic scanner (\<open>scanner/\<close>): findings and their severity, fingerprint and confidence
  (\<open>finding.go\<close>), the engine that runs the analyzers, merges what they report, suppresses and
  filters it (\<open>engine.go\<close>), the three analyzers (\<open>builtin.go\<close>, \<open>bandit.go\<close>,
  \<open>semgrep.go\<close>) and the SARIF export.

  An analyzer is a record of its three methods. The regular expression of a built-in rule is the
  function \<open>br_pattern\<close> that says whether it matches a line; SHA-256 is the argument \<open>sha\<close>,
  the external tools with their temporary files the record \<open>tool_env\<close>.
\<close>

subsection \<open>Findings\<close>

type_synonym Severity = string

definition SeverityCritical :: Severity where "SeverityCritical = ''critical''"
definition SeverityHigh :: Severity where "SeverityHigh = ''high''"
definition SeverityMedium :: Severity where "SeverityMedium = ''medium''"
definition SeverityLow :: Severity where "SeverityLow = ''low''"
definition SeverityInfo :: Severity where "SeverityInfo = ''info''"

lemmas severity_defs = SeverityCritical_def SeverityHigh_def SeverityMedium_def SeverityLow_def SeverityInfo_def

definition SeverityRank :: "Severity \<Rightarrow> int" where
  "SeverityRank s =
     (if s = SeverityCritical then 5 else if s = SeverityHigh then 4 else if s = SeverityMedium then 3
      else if s = SeverityLow then 2 else if s = SeverityInfo then 1 else 0)"

record Finding =
  fi_RuleID :: string
  fi_Analyzers :: "string list"
  fi_Severity :: Severity
  fi_Category :: string
  fi_Title :: string
  fi_Message :: string
  fi_Filename :: string
  fi_Line :: int
  fi_Snippet :: string
  fi_Fix :: string
  fi_Confidence :: f64
  fi_Fingerprint :: string

record ScanReport =
  sr_Findings :: "Finding list"
  sr_AnalyzersRun :: "string list"
  sr_AnalyzersSkipped :: "(string, string) gomap"
  sr_AnalyzerErrors :: "(string, string) gomap"

definition normalizeSnippet :: "string \<Rightarrow> string" where
  "normalizeSnippet s = strings_Join (strings_Fields s) '' ''"

definition ComputeFingerprint :: "(string \<Rightarrow> string) \<Rightarrow> string \<Rightarrow> int \<Rightarrow> string \<Rightarrow> string \<Rightarrow> string" where
  "ComputeFingerprint sha filename line snippet ruleID =
     take 16 (sha (filename @ ''|'' @ strconv_Itoa line @ ''|'' @ ruleID @ ''|'' @ normalizeSnippet snippet))"

subsection \<open>Confidence\<close>

definition baseConfidence :: "Severity \<Rightarrow> f64" where
  "baseConfidence sev =
     (if sev = SeverityCritical then fl (65 / 100) else if sev = SeverityHigh then fl (55 / 100)
      else if sev = SeverityMedium then fl (40 / 100) else if sev = SeverityLow then fl (30 / 100) else fl (20 / 100))"

definition analyzerWeight :: "string list \<Rightarrow> f64" where
  "analyzerWeight analyzers =
     (let hasRealTool = list_ex (\<lambda>a. a = ''bandit'' \<or> a = ''semgrep'') analyzers;
          hasBuiltin = list_ex (\<lambda>a. a = ''builtin'') analyzers
      in if hasRealTool \<and> \<not> hasBuiltin then fl (15 / 100) else if hasRealTool \<and> hasBuiltin then fl (10 / 100) else 0)"

definition contextPenalty :: "string \<Rightarrow> f64" where
  "contextPenalty filename =
     (let lower = strings_ToLower filename
      in if strings_HasSuffix lower ''_test.go'' \<or> strings_Contains lower ''_test.'' then fl (- 15 / 100)
         else if strings_Contains lower ''example'' \<or> strings_Contains lower ''sample'' then fl (- 20 / 100)
         else if strings_HasSuffix lower ''_bench_test.go'' \<or> strings_Contains lower ''bench'' then fl (- 20 / 100)
         else if strings_HasSuffix lower ''.md'' \<or> strings_HasSuffix lower ''.txt'' then fl (- 30 / 100)
         else 0)"

definition snippetConfidence :: "string \<Rightarrow> f64" where
  "snippetConfidence snippet =
     (if (strings_Contains snippet '':='' \<or> strings_Contains snippet ''='') \<and>
         strings_Contains snippet [CHR 0x22] \<and> \<not> strings_Contains snippet ''env'' \<and> \<not> strings_Contains snippet ''os.Getenv''
      then fl (5 / 100)
      else if strings_Contains snippet ''var '' \<or> strings_Contains snippet ''func '' then fl (- 5 / 100)
      else 0)"

definition clampFloat :: "f64 \<Rightarrow> f64 \<Rightarrow> f64 \<Rightarrow> f64" where
  "clampFloat v lo hi = (if v < lo then lo else if hi < v then hi else v)"

definition Confidence :: "Severity \<Rightarrow> string list \<Rightarrow> f64" where
  "Confidence sev analyzers =
     (let c = fadd (baseConfidence sev) (analyzerWeight analyzers);
          c' = (if 2 \<le> length analyzers then fadd c (fl (25 / 100)) else c)
      in clampFloat c' (fl (5 / 100)) (fl (99 / 100)))"

definition ConfidenceWithFile :: "Severity \<Rightarrow> string list \<Rightarrow> string \<Rightarrow> string \<Rightarrow> f64" where
  "ConfidenceWithFile sev analyzers filename snippet =
     clampFloat (fadd (fadd (Confidence sev analyzers) (contextPenalty filename)) (snippetConfidence snippet))
       (fl (5 / 100)) (fl (99 / 100))"

definition IsHighConfidence :: "f64 \<Rightarrow> bool" where
  "IsHighConfidence c \<longleftrightarrow> fl (30 / 100) \<le> c"

definition ShouldReport :: "Finding \<Rightarrow> bool" where
  "ShouldReport f = IsHighConfidence (fi_Confidence f)"

subsection \<open>Files and suppression markers\<close>

definition isTestFile :: "string \<Rightarrow> bool" where
  "isTestFile filename \<longleftrightarrow>
     strings_HasSuffix filename ''_test.go'' \<or> strings_HasSuffix filename ''_fuzz.go'' \<or>
     strings_Contains filename ''_test.'' \<or> strings_Contains filename ''/test/'' \<or> strings_Contains filename ''/tests/''"

definition isTestDataFile :: "string \<Rightarrow> bool" where
  "isTestDataFile filename \<longleftrightarrow>
     strings_Contains filename ''/testdata/'' \<or> strings_HasPrefix filename ''testdata/'' \<or>
     strings_Contains filename (CHR 0x5C # ''testdata'' @ [CHR 0x5C])"

definition has_marker :: "string \<Rightarrow> bool" where
  "has_marker l \<longleftrightarrow>
     (let lower = strings_ToLower l
      in strings_Contains lower ''#nosec'' \<or> strings_Contains lower ''# nosec'' \<or> strings_Contains lower ''nosemgrep'')"

text \<open>\<open>i\<close> is the index of the matched line; the slice is \<^verbatim>\<open>lines[max(i-3,0) : i+1]\<close>.\<close>

definition hasNosecMarker :: "string list \<Rightarrow> nat \<Rightarrow> bool" where
  "hasNosecMarker lines i = list_ex has_marker (drop (i - 3) (take (i + 1) lines))"

definition isGeneratedFile :: "string \<Rightarrow> bool" where
  "isGeneratedFile filename \<longleftrightarrow>
     (let lower = strings_ToLower filename
      in strings_Contains lower ''generated'' \<or> strings_Contains lower ''vendor/'' \<or> strings_Contains lower ''.pb.go'' \<or>
         strings_Contains lower ''_generated'' \<or> strings_Contains lower ''mock_'' \<or> strings_Contains lower ''stub_'')"

subsection \<open>Analyzers\<close>

record Input =
  in_Language :: string
  in_Code :: string
  in_Filename :: string

record Analyzer =
  an_Name :: string
  an_Available :: bool
  an_Analyze :: "Input \<Rightarrow> string + Finding list"

record builtinRule =
  br_name :: string
  br_description :: string
  br_severity :: Severity
  br_pattern :: "string \<Rightarrow> bool"
  br_fix :: string
  br_category :: string
  br_excludeFilenames :: "string list"
  br_requireContext :: "string list"
  br_suppressCheck :: "(string list \<Rightarrow> nat \<Rightarrow> bool) option"

text \<open>Whether a rule reports a line: the conditions of the inner loop, in its order.\<close>

definition rule_fires :: "string \<Rightarrow> string list \<Rightarrow> builtinRule \<Rightarrow> nat \<Rightarrow> bool" where
  "rule_fires normName lines r i \<longleftrightarrow>
     (let line = lines ! i in
      br_pattern r line \<and>
      (br_requireContext r \<noteq> [] \<longrightarrow> list_ex (strings_Contains line) (br_requireContext r)) \<and>
      \<not> list_ex (strings_Contains normName) (br_excludeFilenames r) \<and>
      \<not> (case br_suppressCheck r of None \<Rightarrow> False | Some chk \<Rightarrow> chk lines i) \<and>
      \<not> hasNosecMarker lines i)"

definition builtin_finding :: "(string \<Rightarrow> string) \<Rightarrow> string \<Rightarrow> string list \<Rightarrow> builtinRule \<Rightarrow> nat \<Rightarrow> Finding" where
  "builtin_finding sha filename lines r i =
     (let snip = strings_TrimSpace (lines ! i) in
      \<lparr>fi_RuleID = br_name r, fi_Analyzers = [''builtin''], fi_Severity = br_severity r, fi_Category = br_category r,
       fi_Title = br_name r, fi_Message = br_description r, fi_Filename = filename, fi_Line = int i + 1,
       fi_Snippet = snip, fi_Fix = br_fix r, fi_Confidence = 0,
       fi_Fingerprint = ComputeFingerprint sha filename (int i + 1) snip (br_name r)\<rparr>)"

definition slashed :: "string \<Rightarrow> string" where
  "slashed s = map (\<lambda>c. if c = CHR 0x5C then CHR ''/'' else c) s"

definition builtin_Analyze :: "(string \<Rightarrow> string) \<Rightarrow> builtinRule list \<Rightarrow> Input \<Rightarrow> string + Finding list" where
  "builtin_Analyze sha rules inp =
     (let filename = (if in_Filename inp = [] then ''input'' else in_Filename inp);
          normName = slashed filename;
          lines = strings_Split (in_Code inp) (CHR 0x0A)
      in if isGeneratedFile normName then Inr []
         else Inr (concat (map (\<lambda>r.
           if isTestFile normName \<and> SeverityRank (br_severity r) \<le> SeverityRank SeverityLow then []
           else map (builtin_finding sha filename lines r) (filter (rule_fires normName lines r) [0..<length lines])) rules)))"

definition NewBuiltinAnalyzer :: "(string \<Rightarrow> string) \<Rightarrow> builtinRule list \<Rightarrow> Analyzer" where
  "NewBuiltinAnalyzer sha rules = \<lparr>an_Name = ''builtin'', an_Available = True, an_Analyze = builtin_Analyze sha rules\<rparr>"

text \<open>
  What the two external analyzers need: a temporary directory, writing a file, running a command
  (standard output, standard error, error), and decoding the tool's JSON, with the fields the
  sources read: rule, severity, category, message, line and code.
\<close>

record tool_row =
  tr_id :: string
  tr_severity :: string
  tr_category :: string
  tr_message :: string
  tr_line :: int
  tr_code :: string

record tool_env =
  te_MkdirTemp :: "string + string"
  te_WriteFile :: "string \<Rightarrow> string \<Rightarrow> string option"
  te_Run :: "string \<Rightarrow> string list \<Rightarrow> string \<times> string \<times> string option"
  te_Unmarshal :: "string \<Rightarrow> string + tool_row list"

definition run_tool :: "tool_env \<Rightarrow> string \<Rightarrow> string list \<Rightarrow> string \<Rightarrow> Input \<Rightarrow> string + tool_row list" where
  "run_tool env tool args name inp =
     (case te_MkdirTemp env of
        Inl err \<Rightarrow> Inl (tool @ '': temp dir: '' @ err)
      | Inr dir \<Rightarrow>
          let path = filepath_Join [dir, filepath_Base name] in
          case te_WriteFile env path (in_Code inp) of
            Some err \<Rightarrow> Inl (tool @ '': write temp: '' @ err)
          | None \<Rightarrow>
              let (stdout, stderr, runErr) = te_Run env tool (args @ [path]) in
              case te_Unmarshal env stdout of
                Inl jsonErr \<Rightarrow>
                  (case runErr of Some e \<Rightarrow> Inl (tool @ '': '' @ e @ '': '' @ stderr)
                                | None \<Rightarrow> Inl (tool @ '': unparseable output: '' @ jsonErr))
              | Inr rows \<Rightarrow> Inr rows)"

definition banditSeverity :: "string \<Rightarrow> Severity" where
  "banditSeverity s =
     (if s = ''HIGH'' then SeverityHigh else if s = ''MEDIUM'' then SeverityMedium
      else if s = ''LOW'' then SeverityLow else SeverityInfo)"

definition bandit_finding :: "(string \<Rightarrow> string) \<Rightarrow> string \<Rightarrow> tool_row \<Rightarrow> Finding" where
  "bandit_finding sha fn r =
     \<lparr>fi_RuleID = tr_id r, fi_Analyzers = [''bandit''], fi_Severity = banditSeverity (tr_severity r), fi_Category = tr_category r,
      fi_Title = tr_category r, fi_Message = tr_message r, fi_Filename = fn, fi_Line = tr_line r, fi_Snippet = tr_code r,
      fi_Fix = [], fi_Confidence = 0, fi_Fingerprint = ComputeFingerprint sha fn (tr_line r) (tr_code r) (tr_id r)\<rparr>"

definition bandit_Analyze :: "(string \<Rightarrow> string) \<Rightarrow> tool_env \<Rightarrow> Input \<Rightarrow> string + Finding list" where
  "bandit_Analyze sha env inp =
     (if in_Language inp \<noteq> [] \<and> in_Language inp \<noteq> ''python'' then Inr []
      else let name = (if in_Filename inp = [] then ''snippet.py'' else in_Filename inp) in
        case run_tool env ''bandit'' [''-f'', ''json'', ''-q''] name inp of
          Inl err \<Rightarrow> Inl err
        | Inr rows \<Rightarrow> Inr (map (bandit_finding sha name) rows))"

definition semgrepSeverity :: "string \<Rightarrow> Severity" where
  "semgrepSeverity s =
     (if s = ''ERROR'' then SeverityHigh else if s = ''WARNING'' then SeverityMedium
      else if s = ''INFO'' then SeverityLow else SeverityInfo)"

definition semgrep_finding :: "(string \<Rightarrow> string) \<Rightarrow> string \<Rightarrow> tool_row \<Rightarrow> Finding" where
  "semgrep_finding sha fn r =
     \<lparr>fi_RuleID = tr_id r, fi_Analyzers = [''semgrep''], fi_Severity = semgrepSeverity (tr_severity r), fi_Category = tr_category r,
      fi_Title = tr_id r, fi_Message = tr_message r, fi_Filename = fn, fi_Line = tr_line r, fi_Snippet = tr_code r,
      fi_Fix = [], fi_Confidence = 0, fi_Fingerprint = ComputeFingerprint sha fn (tr_line r) (tr_code r) (tr_id r)\<rparr>"

definition semgrep_Analyze :: "(string \<Rightarrow> string) \<Rightarrow> tool_env \<Rightarrow> Input \<Rightarrow> string + Finding list" where
  "semgrep_Analyze sha env inp =
     (let name = (if in_Filename inp = [] then ''snippet.txt'' else in_Filename inp) in
      case run_tool env ''semgrep'' [''--json'', ''--config'', ''auto'', ''-q''] name inp of
        Inl err \<Rightarrow> Inl err
      | Inr rows \<Rightarrow> Inr (map (semgrep_finding sha name) rows))"

definition NewBanditAnalyzer :: "(string \<Rightarrow> string) \<Rightarrow> bool \<Rightarrow> tool_env \<Rightarrow> Analyzer" where
  "NewBanditAnalyzer sha exists env = \<lparr>an_Name = ''bandit'', an_Available = exists, an_Analyze = bandit_Analyze sha env\<rparr>"

definition NewSemgrepAnalyzer :: "(string \<Rightarrow> string) \<Rightarrow> bool \<Rightarrow> tool_env \<Rightarrow> Analyzer" where
  "NewSemgrepAnalyzer sha exists env = \<lparr>an_Name = ''semgrep'', an_Available = exists, an_Analyze = semgrep_Analyze sha env\<rparr>"

subsection \<open>The engine\<close>

record Engine =
  eg_analyzers :: "Analyzer list"
  eg_minConfidence :: f64
  eg_suppressTestFP :: bool

definition NewEngine :: "Analyzer list \<Rightarrow> Engine" where
  "NewEngine analyzers = \<lparr>eg_analyzers = analyzers, eg_minConfidence = fl (30 / 100), eg_suppressTestFP = True\<rparr>"

definition WithMinConfidence :: "f64 \<Rightarrow> Engine \<Rightarrow> Engine" where
  "WithMinConfidence m e = e\<lparr>eg_minConfidence := m\<rparr>"

definition WithTestFPSuppression :: "Engine \<Rightarrow> Engine" where
  "WithTestFPSuppression e = e\<lparr>eg_suppressTestFP := True\<rparr>"

definition DefaultEngine :: "(string \<Rightarrow> string) \<Rightarrow> builtinRule list \<Rightarrow> bool \<Rightarrow> tool_env \<Rightarrow> bool \<Rightarrow> tool_env \<Rightarrow> Engine" where
  "DefaultEngine sha rules hasBandit benv hasSemgrep senv =
     NewEngine [NewBuiltinAnalyzer sha rules, NewBanditAnalyzer sha hasBandit benv, NewSemgrepAnalyzer sha hasSemgrep senv]"

definition maxCodeSize :: int where
  "maxCodeSize = 5 * 1024 * 1024"

text \<open>\<open>unionSorted\<close> ranges over a set kept in a map and sorts; the order of the range does not show.\<close>

definition unionSorted :: "string list \<Rightarrow> string list \<Rightarrow> string list" where
  "unionSorted a b = sort_Strings (remdups (a @ b))"

text \<open>\<open>suppressTestFP\<close> never returns nil; the severities are compared as strings, as in the source.\<close>

definition suppressTestFP :: "Finding \<Rightarrow> Finding" where
  "suppressTestFP f =
     (let solo = (fi_Analyzers f = [''builtin'']);
          f1 = (if fi_Category f = ''secrets'' \<and> SeverityCritical \<le> fi_Severity f \<and> solo
                then f\<lparr>fi_Severity := SeverityInfo,
                       fi_Confidence := clampFloat (fsub (fi_Confidence f) (fl (2 / 10))) (fl (5 / 100)) (fl (99 / 100))\<rparr>
                else f);
          f2 = (if fi_Category f1 = ''crypto'' \<and> isTestFile (fi_Filename f1)
                then f1\<lparr>fi_Confidence := clampFloat (fsub (fi_Confidence f1) (fl (15 / 100))) (fl (5 / 100)) (fl (99 / 100))\<rparr>
                else f1)
      in if fi_Category f2 = ''injection'' \<and> isTestFile (fi_Filename f2) \<and> solo
         then f2\<lparr>fi_Severity := SeverityLow,
                 fi_Confidence := clampFloat (fsub (fi_Confidence f2) (fl (2 / 10))) (fl (5 / 100)) (fl (99 / 100))\<rparr>
         else f2)"

text \<open>The map \<open>byFP\<close> and the slice \<open>order\<close> of the merge loop.\<close>

type_synonym merge_state = "(string, Finding) gomap \<times> string list"

definition with_fingerprint :: "(string \<Rightarrow> string) \<Rightarrow> Finding \<Rightarrow> Finding" where
  "with_fingerprint sha f =
     (if fi_Fingerprint f = []
      then f\<lparr>fi_Fingerprint := ComputeFingerprint sha (fi_Filename f) (fi_Line f) (fi_Snippet f) (fi_RuleID f)\<rparr> else f)"

definition merge_into :: "Finding \<Rightarrow> Finding \<Rightarrow> Finding" where
  "merge_into ex f =
     ex\<lparr>fi_Analyzers := unionSorted (fi_Analyzers ex) (fi_Analyzers f),
        fi_Severity := (if SeverityRank (fi_Severity ex) < SeverityRank (fi_Severity f) then fi_Severity f else fi_Severity ex),
        fi_Fix := (if fi_Fix ex = [] then fi_Fix f else fi_Fix ex),
        fi_Message := (if fi_Message ex = [] then fi_Message f else fi_Message ex)\<rparr>"

definition merge_step :: "(string \<Rightarrow> string) \<Rightarrow> Finding \<Rightarrow> merge_state \<Rightarrow> merge_state" where
  "merge_step sha raw st =
     (let (byFP, order) = st; f = with_fingerprint sha raw; fp = fi_Fingerprint f
      in case gget byFP fp of
           Some ex \<Rightarrow> (gput fp (merge_into ex f) byFP, order)
         | None \<Rightarrow> (gput fp f byFP, order @ [fp]))"

definition merge_all :: "(string \<Rightarrow> string) \<Rightarrow> Finding list \<Rightarrow> merge_state" where
  "merge_all sha raw = fold (merge_step sha) raw ([], [])"

definition score_one :: "Engine \<Rightarrow> Finding \<Rightarrow> Finding option" where
  "score_one e f =
     (let f1 = f\<lparr>fi_Confidence := ConfidenceWithFile (fi_Severity f) (fi_Analyzers f) (fi_Filename f) (fi_Snippet f)\<rparr>;
          f2 = (if eg_suppressTestFP e \<and> isTestFile (fi_Filename f1) then suppressTestFP f1 else f1)
      in if isTestDataFile (fi_Filename f1) then None
         else if eg_minConfidence e \<le> fi_Confidence f2 then Some f2 else None)"

definition finding_less :: "Finding \<Rightarrow> Finding \<Rightarrow> bool" where
  "finding_less a b \<longleftrightarrow>
     (if SeverityRank (fi_Severity a) \<noteq> SeverityRank (fi_Severity b) then SeverityRank (fi_Severity b) < SeverityRank (fi_Severity a)
      else if fi_Confidence a \<noteq> fi_Confidence b then fi_Confidence b < fi_Confidence a
      else fi_Line a < fi_Line b)"

definition mergeScoreAndFilter :: "(string \<Rightarrow> string) \<Rightarrow> Engine \<Rightarrow> Finding list \<Rightarrow> Finding list" where
  "mergeScoreAndFilter sha e raw =
     (let (byFP, order) = merge_all sha raw
      in go_sort finding_less (List.map_filter (\<lambda>fp. case gget byFP fp of None \<Rightarrow> None | Some f \<Rightarrow> score_one e f) order))"

text \<open>The loop over the analyzers; the report collects names, skips and errors.\<close>

definition run_analyzer :: "Input \<Rightarrow> Analyzer \<Rightarrow> ScanReport \<times> Finding list \<Rightarrow> ScanReport \<times> Finding list" where
  "run_analyzer inp a st =
     (let (rep, raw) = st in
      if \<not> an_Available a
      then (rep\<lparr>sr_AnalyzersSkipped := gput (an_Name a) (an_Name a @ '' not available'') (sr_AnalyzersSkipped rep)\<rparr>, raw)
      else let rep' = rep\<lparr>sr_AnalyzersRun := sr_AnalyzersRun rep @ [an_Name a]\<rparr> in
        case an_Analyze a inp of
          Inl err \<Rightarrow> (rep'\<lparr>sr_AnalyzerErrors := gput (an_Name a) err (sr_AnalyzerErrors rep')\<rparr>, raw)
        | Inr fs \<Rightarrow> (rep', raw @ fs))"

definition empty_report :: ScanReport where
  "empty_report = \<lparr>sr_Findings = [], sr_AnalyzersRun = [], sr_AnalyzersSkipped = [], sr_AnalyzerErrors = []\<rparr>"

definition nosec_suppressed :: "string list \<Rightarrow> Finding \<Rightarrow> bool" where
  "nosec_suppressed lines f \<longleftrightarrow> 0 < fi_Line f \<and> fi_Line f \<le> int (length lines) \<and> hasNosecMarker lines (nat (fi_Line f - 1))"

definition scan_Run :: "(string \<Rightarrow> string) \<Rightarrow> Engine \<Rightarrow> Input \<Rightarrow> ScanReport" where
  "scan_Run sha e inp =
     (if maxCodeSize < int (length (in_Code inp))
      then empty_report\<lparr>sr_AnalyzerErrors := gput ''engine''
             (''code too large: '' @ strconv_Itoa (int (length (in_Code inp))) @ '' bytes (max '' @ strconv_Itoa maxCodeSize @ '')'') []\<rparr>
      else let (rep, raw) = fold (run_analyzer inp) (eg_analyzers e) (empty_report, []);
               lines = strings_Split (in_Code inp) (CHR 0x0A)
           in rep\<lparr>sr_Findings := filter (\<lambda>f. \<not> nosec_suppressed lines f) (mergeScoreAndFilter sha e raw)\<rparr>)"

definition HasHighConfidenceFindings :: "ScanReport \<Rightarrow> bool" where
  "HasHighConfidenceFindings rep =
     list_ex (\<lambda>f. fl (50 / 100) \<le> fi_Confidence f \<and> \<not> strings_Contains (fi_Filename f) ''_test.go'') (sr_Findings rep)"

subsection \<open>Confidence lies in its range\<close>

lemma clampFloat_range: "lo \<le> hi \<Longrightarrow> lo \<le> clampFloat v lo hi \<and> clampFloat v lo hi \<le> hi"
  by (simp add: clampFloat_def)

lemma clampFloat_ge: "m \<le> v \<Longrightarrow> m \<le> hi \<Longrightarrow> m \<le> clampFloat v lo hi"
  by (simp add: clampFloat_def)

lemma fadd_mono: "a \<le> a' \<Longrightarrow> b \<le> b' \<Longrightarrow> fadd a b \<le> fadd a' b'"
  unfolding fadd_def by (intro fl_mono add_mono)

lemma fadd_ge: "is_f64 a \<Longrightarrow> 0 \<le> b \<Longrightarrow> a \<le> fadd a b"
  using fl_mono [of a "a + b"] by (simp add: fadd_def is_f64_def)

lemma fl_nonneg: "0 \<le> x \<Longrightarrow> 0 \<le> fl x"
  using fl_mono [of 0 x] by simp

lemma score_limits: "fl (5 / 100) \<le> fl (99 / 100)" "fl (65 / 100) \<le> fl (99 / 100)" "fl (30 / 100) \<le> fl (99 / 100)"
  by (intro fl_mono, simp)+

lemma analyzerWeight_nonneg: "0 \<le> analyzerWeight as"
  by (simp add: analyzerWeight_def Let_def fl_nonneg)

lemma snippetConfidence_ge: "fl (- 5 / 100) \<le> snippetConfidence s"
proof -
  have "fl (- 5 / 100) \<le> 0" using fl_mono [of "- 5 / 100" 0] by simp
  moreover have "(0::rat) \<le> fl (5 / 100)" by (simp add: fl_nonneg)
  ultimately show ?thesis by (auto simp: snippetConfidence_def)
qed

lemma Confidence_critical: "fl (65 / 100) \<le> Confidence SeverityCritical as"
proof -
  have base: "fl (65 / 100) \<le> fadd (fl (65 / 100)) (analyzerWeight as)"
    using fadd_ge [OF _ analyzerWeight_nonneg, of "fl (65 / 100)" as] by simp
  also have "\<dots> \<le> fadd (fadd (fl (65 / 100)) (analyzerWeight as)) (fl (25 / 100))" by (intro fadd_ge is_f64_ops fl_nonneg) simp
  finally have more: "fl (65 / 100) \<le> fadd (fadd (fl (65 / 100)) (analyzerWeight as)) (fl (25 / 100))" .
  show ?thesis unfolding Confidence_def Let_def baseConfidence_def
    by (rule clampFloat_ge) (use base more score_limits in auto)
qed

lemma critical_floor: "fl (30 / 100) \<le> fl (fl (65 / 100) + fl (- 5 / 100))"
  by code_simp

text \<open>A critical finding in an ordinary file is above the reporting threshold.\<close>

lemma critical_reportable:
  assumes "contextPenalty fn = 0"
  shows "fl (30 / 100) \<le> ConfidenceWithFile SeverityCritical as fn snip"
proof -
  have "fl (65 / 100) \<le> fadd (Confidence SeverityCritical as) 0"
    using fl_mono [OF Confidence_critical] by (simp add: fadd_def)
  then have "fl (fl (65 / 100) + fl (- 5 / 100)) \<le> fadd (fadd (Confidence SeverityCritical as) 0) (snippetConfidence snip)"
    unfolding fadd_def [of _ "snippetConfidence snip"] by (intro fl_mono add_mono snippetConfidence_ge)
  with critical_floor show ?thesis unfolding ConfidenceWithFile_def assms
    by (intro clampFloat_ge) (use score_limits in auto)
qed

lemma ConfidenceWithFile_range: "fl (5 / 100) \<le> ConfidenceWithFile s as fn sn \<and> ConfidenceWithFile s as fn sn \<le> fl (99 / 100)"
  unfolding ConfidenceWithFile_def by (rule clampFloat_range) (rule score_limits)

subsection \<open>Merging\<close>

text \<open>
  The specification of the merge: the findings with one fingerprint, in the order they were
  reported, are folded into the first of them.
\<close>

fun merge_group :: "Finding list \<Rightarrow> Finding option" where
  "merge_group [] = None"
| "merge_group (f # fs) = Some (foldl merge_into f fs)"

definition group :: "string \<Rightarrow> Finding list \<Rightarrow> Finding list" where
  "group fp fs = filter (\<lambda>f. fi_Fingerprint f = fp) fs"

lemma merge_group_snoc: "merge_group (fs @ [f]) = (case merge_group fs of None \<Rightarrow> Some f | Some ex \<Rightarrow> Some (merge_into ex f))"
  by (cases fs) simp_all

lemma group_snoc: "group fp (fs @ [f]) = (if fi_Fingerprint f = fp then group fp fs @ [f] else group fp fs)"
  by (simp add: group_def)

lemma merge_group_None: "merge_group fs = None \<longleftrightarrow> fs = []"
  by (cases fs) simp_all

lemma merge_all_spec:
  assumes "merge_all sha raw = (byFP, order)"
  shows "gget byFP fp = merge_group (group fp (map (with_fingerprint sha) raw))" (is ?a)
    and "distinct order" (is ?b)
    and "set order = fi_Fingerprint ` with_fingerprint sha ` set raw" (is ?c)
proof -
  have "(\<forall>fp. gget byFP fp = merge_group (group fp (map (with_fingerprint sha) raw))) \<and> distinct order \<and>
      set order = fi_Fingerprint ` with_fingerprint sha ` set raw"
    using assms
  proof (induction raw arbitrary: byFP order rule: rev_induct)
    case Nil
    then show ?case by (simp add: merge_all_def group_def)
  next
    case (snoc f raw)
    obtain m ord where prev: "merge_all sha raw = (m, ord)" by fastforce
    note IH = snoc.IH [OF prev]
    let ?f = "with_fingerprint sha f"
    from snoc.prems prev have step: "(byFP, order) = merge_step sha f (m, ord)" by (simp add: merge_all_def)
    have member: "gget m (fi_Fingerprint ?f) = None \<longleftrightarrow> fi_Fingerprint ?f \<notin> set ord"
      using IH by (auto simp: merge_group_None group_def filter_empty_conv) (metis imageI)
    show ?case
      using step IH member
      by (auto simp: merge_step_def Let_def group_snoc merge_group_snoc split: option.splits)
  qed
  then show ?a ?b ?c by blast+
qed

text \<open>What a merged finding keeps of the first one, and its severity: the highest reported.\<close>

lemma merge_keeps:
  "fi_Fingerprint (foldl merge_into f fs) = fi_Fingerprint f" "fi_Filename (foldl merge_into f fs) = fi_Filename f"
  "fi_Line (foldl merge_into f fs) = fi_Line f" "fi_Snippet (foldl merge_into f fs) = fi_Snippet f"
  "fi_Category (foldl merge_into f fs) = fi_Category f" "fi_RuleID (foldl merge_into f fs) = fi_RuleID f"
  by (induction fs arbitrary: f) (simp_all add: merge_into_def)

lemma merge_severity_in: "fi_Severity (foldl merge_into f fs) \<in> fi_Severity ` set (f # fs)"
proof (induction fs arbitrary: f)
  case (Cons g fs)
  have "fi_Severity (merge_into f g) \<in> {fi_Severity f, fi_Severity g}" by (simp add: merge_into_def)
  with Cons.IH [of "merge_into f g"] show ?case by auto
qed simp

lemma merge_severity_ge: "g \<in> set (f # fs) \<Longrightarrow> SeverityRank (fi_Severity g) \<le> SeverityRank (fi_Severity (foldl merge_into f fs))"
proof (induction fs arbitrary: f g)
  case (Cons h fs)
  have both: "SeverityRank (fi_Severity f) \<le> SeverityRank (fi_Severity (merge_into f h))"
    "SeverityRank (fi_Severity h) \<le> SeverityRank (fi_Severity (merge_into f h))" by (simp_all add: merge_into_def)
  have "SeverityRank (fi_Severity (merge_into f h)) \<le> SeverityRank (fi_Severity (foldl merge_into (merge_into f h) fs))"
    by (rule Cons.IH) simp
  with both Cons show ?case by (auto intro: order_trans)
qed simp

lemma SeverityRank_le_5: "SeverityRank s \<le> 5"
  by (simp add: SeverityRank_def)

lemma SeverityRank_5: "SeverityRank s = 5 \<longleftrightarrow> s = SeverityCritical"
  by (simp add: SeverityRank_def)

subsection \<open>What a report holds\<close>

interpretation findings: less_function finding_less
proof
  show "\<not> finding_less b a" if "finding_less a b" for a b using that by (auto simp: finding_less_def split: if_splits)
  show "finding_less a b \<or> finding_less b c" if "finding_less a c" for a b c
    using that by (auto simp: finding_less_def split: if_splits)
qed

text \<open>The raw findings: those of the available analyzers that did not fail, in their order.\<close>

definition analyzer_findings :: "Input \<Rightarrow> Analyzer \<Rightarrow> Finding list" where
  "analyzer_findings inp a = (if an_Available a then case an_Analyze a inp of Inl _ \<Rightarrow> [] | Inr fs \<Rightarrow> fs else [])"

lemma run_analyzers_raw:
  "snd (fold (run_analyzer inp) as (rep, raw)) = raw @ concat (map (analyzer_findings inp) as)"
proof (induction as arbitrary: rep raw)
  case (Cons a as)
  have "snd (run_analyzer inp a (rep, raw)) = raw @ analyzer_findings inp a"
    by (auto simp: run_analyzer_def analyzer_findings_def Let_def split: sum.splits)
  with Cons.IH [of "fst (run_analyzer inp a (rep, raw))" "snd (run_analyzer inp a (rep, raw))"] show ?case
    by (cases "run_analyzer inp a (rep, raw)") simp
qed simp

definition raw_findings :: "Engine \<Rightarrow> Input \<Rightarrow> Finding list" where
  "raw_findings e inp = concat (map (analyzer_findings inp) (eg_analyzers e))"

lemma raw_findings_mem:
  "f \<in> set (raw_findings e inp) \<longleftrightarrow> (\<exists>a \<in> set (eg_analyzers e). an_Available a \<and> (\<exists>fs. an_Analyze a inp = Inr fs \<and> f \<in> set fs))"
proof -
  have "f \<in> set (analyzer_findings inp a) \<longleftrightarrow> an_Available a \<and> (\<exists>fs. an_Analyze a inp = Inr fs \<and> f \<in> set fs)" for a
    unfolding analyzer_findings_def by (cases "an_Analyze a inp"; cases "an_Available a"; simp)
  then show ?thesis by (simp add: raw_findings_def)
qed

lemma scan_findings:
  assumes "int (length (in_Code inp)) \<le> maxCodeSize"
  shows "sr_Findings (scan_Run sha e inp) =
    filter (\<lambda>f. \<not> nosec_suppressed (strings_Split (in_Code inp) (CHR 0x0A)) f) (mergeScoreAndFilter sha e (raw_findings e inp))"
  using assms run_analyzers_raw [of inp "eg_analyzers e" empty_report "[]"]
  by (cases "fold (run_analyzer inp) (eg_analyzers e) (empty_report, [])") (simp add: scan_Run_def raw_findings_def Let_def)

lemma suppressTestFP_keeps:
  "fi_Fingerprint (suppressTestFP f) = fi_Fingerprint f" "fi_Filename (suppressTestFP f) = fi_Filename f"
  "fi_Line (suppressTestFP f) = fi_Line f"
  by (simp_all add: suppressTestFP_def Let_def)

lemma clamped: "fl (5 / 100) \<le> clampFloat v (fl (5 / 100)) (fl (99 / 100))" "clampFloat v (fl (5 / 100)) (fl (99 / 100)) \<le> fl (99 / 100)"
  using clampFloat_range [OF score_limits(1)] by blast+

lemma suppressTestFP_range:
  assumes "fl (5 / 100) \<le> fi_Confidence f" "fi_Confidence f \<le> fl (99 / 100)"
  shows "fl (5 / 100) \<le> fi_Confidence (suppressTestFP f) \<and> fi_Confidence (suppressTestFP f) \<le> fl (99 / 100)"
  using assms clamped by (simp add: suppressTestFP_def Let_def)

lemma score_one_Some:
  assumes "score_one e f = Some g"
  shows "fi_Fingerprint g = fi_Fingerprint f" "fi_Filename g = fi_Filename f" "fi_Line g = fi_Line f"
    "\<not> isTestDataFile (fi_Filename f)" "eg_minConfidence e \<le> fi_Confidence g"
    "fl (5 / 100) \<le> fi_Confidence g" "fi_Confidence g \<le> fl (99 / 100)"
    "\<not> isTestFile (fi_Filename f) \<Longrightarrow> fi_Severity g = fi_Severity f"
  using assms ConfidenceWithFile_range
    suppressTestFP_range [of "f\<lparr>fi_Confidence := ConfidenceWithFile (fi_Severity f) (fi_Analyzers f) (fi_Filename f) (fi_Snippet f)\<rparr>"]
  by (auto simp: score_one_def Let_def suppressTestFP_keeps split: if_splits)

text \<open>A finding of the merged list comes from the group of its fingerprint.\<close>

lemma mergeScoreAndFilter_mem:
  "g \<in> set (mergeScoreAndFilter sha e raw) \<longleftrightarrow>
     (\<exists>f fs. group (fi_Fingerprint f) (map (with_fingerprint sha) raw) = f # fs \<and> score_one e (foldl merge_into f fs) = Some g)"
  (is "_ \<longleftrightarrow> ?rhs")
proof -
  let ?raw = "map (with_fingerprint sha) raw"
  obtain byFP order where m: "merge_all sha raw = (byFP, order)" by fastforce
  note spec = merge_all_spec [OF m]
  have ord: "fp \<in> set order \<longleftrightarrow> group fp ?raw \<noteq> []" for fp
    using spec(3) by (auto simp: group_def filter_empty_conv)
  have "g \<in> set (mergeScoreAndFilter sha e raw) \<longleftrightarrow> (\<exists>fp. group fp ?raw \<noteq> [] \<and> Option.bind (merge_group (group fp ?raw)) (score_one e) = Some g)"
    using spec(1) ord
    by (auto simp: mergeScoreAndFilter_def m List.map_filter_def image_iff split: option.splits bind_splits)
  also have "\<dots> \<longleftrightarrow> ?rhs"
  proof
    assume "\<exists>fp. group fp ?raw \<noteq> [] \<and> Option.bind (merge_group (group fp ?raw)) (score_one e) = Some g"
    then obtain fp f fs where gr: "group fp ?raw = f # fs" and "score_one e (foldl merge_into f fs) = Some g"
      by (auto simp: neq_Nil_conv)
    moreover have "fi_Fingerprint f = fp" using gr by (auto simp: group_def filter_eq_Cons_iff)
    ultimately show ?rhs by blast
  next
    assume ?rhs
    then obtain f fs where "group (fi_Fingerprint f) ?raw = f # fs" "score_one e (foldl merge_into f fs) = Some g" by blast
    then show "\<exists>fp. group fp ?raw \<noteq> [] \<and> Option.bind (merge_group (group fp ?raw)) (score_one e) = Some g"
      by (intro exI [of _ "fi_Fingerprint f"]) simp
  qed
  finally show ?thesis .
qed

lemma map_filter_keys:
  assumes "\<And>k y. h k = Some y \<Longrightarrow> key y = k"
  shows "map key (List.map_filter h ks) = filter (\<lambda>k. h k \<noteq> None) ks"
  using assms by (induction ks) (auto simp: map_filter_simps split: option.splits)

lemma mergeScoreAndFilter_distinct: "distinct (map fi_Fingerprint (mergeScoreAndFilter sha e raw))"
proof -
  obtain byFP order where m: "merge_all sha raw = (byFP, order)" by fastforce
  note spec = merge_all_spec [OF m]
  let ?h = "\<lambda>fp. case gget byFP fp of None \<Rightarrow> None | Some f \<Rightarrow> score_one e f"
  have key: "fi_Fingerprint y = k" if h: "?h k = Some y" for k y
  proof -
    from h obtain z where z: "gget byFP k = Some z" "score_one e z = Some y" by (auto split: option.splits)
    obtain f fs where g: "group k (map (with_fingerprint sha) raw) = f # fs" "z = foldl merge_into f fs"
      using z(1) spec(1) by (cases "group k (map (with_fingerprint sha) raw)") auto
    from g(1) have "fi_Fingerprint f = k" by (auto simp: group_def filter_eq_Cons_iff)
    with score_one_Some(1) [OF z(2)] g(2) show ?thesis by (simp add: merge_keeps)
  qed
  have "mset (map fi_Fingerprint (mergeScoreAndFilter sha e raw)) = mset (map fi_Fingerprint (List.map_filter ?h order))"
    by (simp add: mergeScoreAndFilter_def m)
  moreover have "distinct (map fi_Fingerprint (List.map_filter ?h order))"
    using map_filter_keys [of ?h fi_Fingerprint order, OF key] spec(2) by simp
  ultimately show ?thesis by (metis mset_eq_imp_distinct_iff)
qed

text \<open>Where a reported finding comes from.\<close>

lemma mergeScoreAndFilter_origin:
  assumes "g \<in> set (mergeScoreAndFilter sha e raw)"
  shows "\<exists>f \<in> set raw. fi_Fingerprint (with_fingerprint sha f) = fi_Fingerprint g \<and> fi_Filename f = fi_Filename g \<and> fi_Line f = fi_Line g"
    and "\<not> isTestFile (fi_Filename g) \<Longrightarrow> f \<in> set raw \<Longrightarrow> fi_Fingerprint (with_fingerprint sha f) = fi_Fingerprint g \<Longrightarrow>
      SeverityRank (fi_Severity f) \<le> SeverityRank (fi_Severity g)"
proof -
  from assms obtain h hs where gr: "group (fi_Fingerprint h) (map (with_fingerprint sha) raw) = h # hs" and sc: "score_one e (foldl merge_into h hs) = Some g"
    unfolding mergeScoreAndFilter_mem by blast
  note same = score_one_Some(1-3) [OF sc, unfolded merge_keeps]
  have "h \<in> set (group (fi_Fingerprint h) (map (with_fingerprint sha) raw))" by (simp add: gr)
  then obtain f0 where "f0 \<in> set raw" "h = with_fingerprint sha f0" by (auto simp: group_def)
  with same show "\<exists>f \<in> set raw. fi_Fingerprint (with_fingerprint sha f) = fi_Fingerprint g \<and> fi_Filename f = fi_Filename g \<and> fi_Line f = fi_Line g"
    by (auto simp: with_fingerprint_def split: if_splits)
  assume prod: "\<not> isTestFile (fi_Filename g)" and f: "f \<in> set raw" "fi_Fingerprint (with_fingerprint sha f) = fi_Fingerprint g"
  then have "with_fingerprint sha f \<in> set (group (fi_Fingerprint h) (map (with_fingerprint sha) raw))" using same by (auto simp: group_def)
  then have "SeverityRank (fi_Severity (with_fingerprint sha f)) \<le> SeverityRank (fi_Severity (foldl merge_into h hs))"
    unfolding gr by (rule merge_severity_ge)
  moreover have "fi_Severity g = fi_Severity (foldl merge_into h hs)"
    using score_one_Some(8) [OF sc] prod same by (simp add: merge_keeps)
  ultimately show "SeverityRank (fi_Severity f) \<le> SeverityRank (fi_Severity g)" by (simp add: with_fingerprint_def split: if_splits)
qed

text \<open>
  C25. What the scanner reports. The findings have distinct fingerprints and are ordered by severity,
  then confidence, then line. Each was reported by an available analyzer at the same place, reaches
  the engine's confidence threshold with a confidence between 0.05 and 0.99, is not in a test data
  directory and has no suppression marker on its line or the three lines above; outside test files
  its severity is at least that of every finding merged into it.
\<close>

theorem scan_report_sound:
  assumes "rep = scan_Run sha e inp" "int (length (in_Code inp)) \<le> maxCodeSize"
  shows "distinct (map fi_Fingerprint (sr_Findings rep)) \<and> sorted_wrt (\<lambda>a b. \<not> finding_less b a) (sr_Findings rep) \<and>
    (\<forall>g \<in> set (sr_Findings rep).
       eg_minConfidence e \<le> fi_Confidence g \<and> fl (5 / 100) \<le> fi_Confidence g \<and> fi_Confidence g \<le> fl (99 / 100) \<and>
       \<not> isTestDataFile (fi_Filename g) \<and> \<not> nosec_suppressed (strings_Split (in_Code inp) (CHR 0x0A)) g \<and>
       (\<exists>a \<in> set (eg_analyzers e). an_Available a \<and> (\<exists>fs f. an_Analyze a inp = Inr fs \<and> f \<in> set fs \<and>
          fi_Fingerprint (with_fingerprint sha f) = fi_Fingerprint g \<and> fi_Filename f = fi_Filename g \<and> fi_Line f = fi_Line g)) \<and>
       (\<not> isTestFile (fi_Filename g) \<longrightarrow> (\<forall>f \<in> set (raw_findings e inp). fi_Fingerprint (with_fingerprint sha f) = fi_Fingerprint g \<longrightarrow>
          SeverityRank (fi_Severity f) \<le> SeverityRank (fi_Severity g))))"
proof -
  let ?M = "mergeScoreAndFilter sha e (raw_findings e inp)"
  have F: "sr_Findings rep = filter (\<lambda>f. \<not> nosec_suppressed (strings_Split (in_Code inp) (CHR 0x0A)) f) ?M"
    unfolding assms(1) by (rule scan_findings [OF assms(2)])
  have "sorted_wrt (\<lambda>a b. \<not> finding_less b a) ?M"
    by (simp add: mergeScoreAndFilter_def findings.go_sort_sorted split: prod.splits)
  then have sorted: "sorted_wrt (\<lambda>a b. \<not> finding_less b a) (sr_Findings rep)" unfolding F by (rule sorted_wrt_filter)
  have dist: "distinct (map fi_Fingerprint (sr_Findings rep))"
    unfolding F by (rule distinct_map_filter) (rule mergeScoreAndFilter_distinct)
  have scored: "eg_minConfidence e \<le> fi_Confidence g \<and> fl (5 / 100) \<le> fi_Confidence g \<and> fi_Confidence g \<le> fl (99 / 100) \<and>
      \<not> isTestDataFile (fi_Filename g)" if "g \<in> set ?M" for g
    using that score_one_Some unfolding mergeScoreAndFilter_mem by metis
  have origin: "\<exists>a \<in> set (eg_analyzers e). an_Available a \<and> (\<exists>fs f. an_Analyze a inp = Inr fs \<and> f \<in> set fs \<and>
      fi_Fingerprint (with_fingerprint sha f) = fi_Fingerprint g \<and> fi_Filename f = fi_Filename g \<and> fi_Line f = fi_Line g)"
    if "g \<in> set ?M" for g
    using mergeScoreAndFilter_origin(1) [OF that] raw_findings_mem [of _ e inp] by metis
  show ?thesis using sorted dist scored origin mergeScoreAndFilter_origin(2) unfolding F by auto
qed

definition demo_finding :: Finding where
  "demo_finding =
     \<lparr>fi_RuleID = ''sql_injection'', fi_Analyzers = [''builtin''], fi_Severity = SeverityCritical, fi_Category = ''injection'',
      fi_Title = ''sql_injection'', fi_Message = ''SQL injection'', fi_Filename = ''a.go'', fi_Line = 1, fi_Snippet = ''q'',
      fi_Fix = [], fi_Confidence = 0, fi_Fingerprint = []\<rparr>"

definition demo_scanner :: Engine where
  "demo_scanner = NewEngine [\<lparr>an_Name = ''builtin'', an_Available = True, an_Analyze = \<lambda>_. Inr [demo_finding]\<rparr>]"

definition demo_input :: Input where
  "demo_input = \<lparr>in_Language = ''go'', in_Code = ''q'', in_Filename = ''a.go''\<rparr>"

lemma demo_size: "int (length (in_Code demo_input)) \<le> maxCodeSize"
  by (simp add: demo_input_def maxCodeSize_def)

theorem scan_report_sound_witness:
  "distinct (map fi_Fingerprint (sr_Findings (scan_Run (\<lambda>s. s) demo_scanner demo_input))) \<and>
   int (length (in_Code demo_input)) \<le> maxCodeSize"
  using scan_report_sound [OF refl demo_size, of "\<lambda>s. s" demo_scanner] demo_size by blast

lemma critical_kept:
  assumes "int (length (in_Code inp)) \<le> maxCodeSize" "eg_minConfidence e \<le> fl (30 / 100)"
    and "a \<in> set (eg_analyzers e)" "an_Available a" "an_Analyze a inp = Inr fs" "f \<in> set fs" "fi_Severity f = SeverityCritical"
    and "contextPenalty (fi_Filename f) = 0" "\<not> isTestFile (fi_Filename f)" "\<not> isTestDataFile (fi_Filename f)"
    and "\<not> nosec_suppressed (strings_Split (in_Code inp) (CHR 0x0A)) f"
    and "\<And>g. g \<in> set (raw_findings e inp) \<Longrightarrow> fi_Fingerprint (with_fingerprint sha g) = fi_Fingerprint (with_fingerprint sha f) \<Longrightarrow>
      fi_Filename g = fi_Filename f \<and> fi_Line g = fi_Line f"
  shows "\<exists>g \<in> set (sr_Findings (scan_Run sha e inp)). fi_Severity g = SeverityCritical \<and>
    fi_Fingerprint g = fi_Fingerprint (with_fingerprint sha f) \<and> fi_Filename g = fi_Filename f \<and> fi_Line g = fi_Line f"
proof -
  let ?fp = "fi_Fingerprint (with_fingerprint sha f)" and ?raw = "map (with_fingerprint sha) (raw_findings e inp)"
  have raw: "f \<in> set (raw_findings e inp)" using assms(3-6) unfolding raw_findings_mem by blast
  then have in_group: "with_fingerprint sha f \<in> set (group ?fp ?raw)" by (auto simp: group_def)
  then obtain h hs where gr: "group ?fp ?raw = h # hs" by (cases "group ?fp ?raw") auto
  then have "h \<in> set (group ?fp ?raw)" by simp
  then obtain h0 where h0: "h0 \<in> set (raw_findings e inp)" "h = with_fingerprint sha h0" and h_fp: "fi_Fingerprint h = ?fp" by (auto simp: group_def)
  have place: "fi_Filename h = fi_Filename f" "fi_Line h = fi_Line f"
    using assms(12) [OF h0(1)] h_fp h0(2) by (auto simp: with_fingerprint_def split: if_splits)
  define m where "m = foldl merge_into h hs"
  have kept: "fi_Filename m = fi_Filename f" "fi_Line m = fi_Line f" "fi_Fingerprint m = ?fp"
    by (simp_all add: m_def merge_keeps place h_fp)
  have "SeverityRank (fi_Severity (with_fingerprint sha f)) \<le> SeverityRank (fi_Severity m)"
    unfolding m_def using in_group gr by (intro merge_severity_ge) simp
  moreover have "fi_Severity (with_fingerprint sha f) = SeverityCritical" using assms(7) by (simp add: with_fingerprint_def)
  ultimately have crit: "fi_Severity m = SeverityCritical"
    using SeverityRank_le_5 [of "fi_Severity m"] SeverityRank_5 by (metis antisym)
  define g where "g = m\<lparr>fi_Confidence := ConfidenceWithFile (fi_Severity m) (fi_Analyzers m) (fi_Filename m) (fi_Snippet m)\<rparr>"
  have "score_one e m = Some g"
    using order_trans [OF assms(2) critical_reportable [OF assms(8)]] assms(9,10)
    by (simp add: score_one_def Let_def g_def kept crit)
  then have "g \<in> set (mergeScoreAndFilter sha e (raw_findings e inp))"
    unfolding mergeScoreAndFilter_mem using gr h_fp m_def by metis
  moreover have "\<not> nosec_suppressed (strings_Split (in_Code inp) (CHR 0x0A)) g"
    using assms(11) kept(2) by (simp add: nosec_suppressed_def g_def)
  ultimately have "g \<in> set (sr_Findings (scan_Run sha e inp))" by (simp add: scan_findings [OF assms(1)])
  then show ?thesis by (rule rev_bexI) (simp add: g_def crit kept)
qed

text \<open>
  No critical finding is lost: when an available analyzer reports one in an ordinary file (not a
  test, sample, benchmark or document) and no marker suppresses it, the report of an engine with the
  default threshold holds a critical finding with its fingerprint, file and line, whatever else the
  analyzers report and however the findings are merged, given that fingerprints tell places apart.
\<close>

theorem critical_findings_reported:
  assumes "int (length (in_Code inp)) \<le> maxCodeSize" "eg_minConfidence e \<le> fl (30 / 100)"
    and "a \<in> set (eg_analyzers e)" "an_Available a" "an_Analyze a inp = Inr fs" "f \<in> set fs" "fi_Severity f = SeverityCritical"
    and "contextPenalty (fi_Filename f) = 0" "\<not> isTestFile (fi_Filename f)" "\<not> isTestDataFile (fi_Filename f)"
    and "\<not> nosec_suppressed (strings_Split (in_Code inp) (CHR 0x0A)) f"
    and "\<And>g. g \<in> set (raw_findings e inp) \<Longrightarrow> fi_Fingerprint (with_fingerprint sha g) = fi_Fingerprint (with_fingerprint sha f) \<Longrightarrow>
      fi_Filename g = fi_Filename f \<and> fi_Line g = fi_Line f"
  shows "\<exists>g \<in> set (sr_Findings (scan_Run sha e inp)). fi_Severity g = SeverityCritical \<and>
    fi_Fingerprint g = fi_Fingerprint (with_fingerprint sha f) \<and> fi_Filename g = fi_Filename f \<and> fi_Line g = fi_Line f"
  using assms by (rule critical_kept)

lemma demo_raw: "raw_findings demo_scanner demo_input = [demo_finding]"
  by (simp add: raw_findings_def demo_scanner_def NewEngine_def analyzer_findings_def)

lemma demo_place: "contextPenalty (fi_Filename demo_finding) = 0" "\<not> isTestFile (fi_Filename demo_finding)" "\<not> isTestDataFile (fi_Filename demo_finding)"
  "\<not> nosec_suppressed (strings_Split (in_Code demo_input) (CHR 0x0A)) demo_finding"
  by code_simp+

theorem critical_findings_reported_witness:
  "\<exists>g. g \<in> set (sr_Findings (scan_Run (\<lambda>s. s) demo_scanner demo_input)) \<and> fi_Severity g = SeverityCritical \<and> fi_Line g = 1"
proof -
  have "\<exists>g \<in> set (sr_Findings (scan_Run (\<lambda>s. s) demo_scanner demo_input)). fi_Severity g = SeverityCritical \<and>
      fi_Fingerprint g = fi_Fingerprint (with_fingerprint (\<lambda>s. s) demo_finding) \<and> fi_Filename g = fi_Filename demo_finding \<and> fi_Line g = fi_Line demo_finding"
    by (rule critical_findings_reported [OF demo_size, where fs = "[demo_finding]" and a = "hd (eg_analyzers demo_scanner)"])
      (use demo_place in \<open>simp_all add: demo_raw\<close>, simp_all add: demo_scanner_def NewEngine_def demo_finding_def)
  then show ?thesis by (auto simp: demo_finding_def)
qed

end
