(* ===== verification/Sarif.thy ===== *)
theory Sarif
  imports Scanner
begin

text \<open>
  The SARIF report of the scanner (\<open>scanner/finding.go\<close>): each rule once, in the order of first
  use, with the worst severity of its findings, and one result per finding that refers to its rule
  by index. The model stops before the JSON encoding: a report is its rules and results.
\<close>

definition sarifLevel :: "Severity \<Rightarrow> string" where
  "sarifLevel sev =
     (if sev = SeverityCritical \<or> sev = SeverityHigh then ''error'' else if sev = SeverityMedium then ''warning'' else ''note'')"

definition securitySeverity :: "Severity \<Rightarrow> string" where
  "securitySeverity sev =
     (if sev = SeverityCritical then ''9.0'' else if sev = SeverityHigh then ''7.5'' else if sev = SeverityMedium then ''5.0''
      else if sev = SeverityLow then ''3.1'' else ''1.0'')"

record sarifRule =
  sar_ID :: string
  sar_text :: string
  sar_severity :: string

record sarifLocation =
  sal_URI :: string
  sal_StartLine :: "int option"
  sal_Snippet :: "string option"

record sarifResult =
  sas_RuleID :: string
  sas_RuleIndex :: nat
  sas_Level :: string
  sas_Message :: string
  sas_Locations :: "sarifLocation list"
  sas_Fingerprint :: string
  sas_severity :: string
  sas_security_severity :: string
  sas_confidence :: f64
  sas_category :: "string option"
  sas_fix :: "string option"

text \<open>The first loop: \<open>ruleIDs\<close>, \<open>seen\<close> and \<open>worst\<close>.\<close>

definition sarif_step :: "Finding \<Rightarrow> string list \<times> strset \<times> (string, Severity) gomap \<Rightarrow> string list \<times> strset \<times> (string, Severity) gomap" where
  "sarif_step f st =
     (let (ruleIDs, seen, worst) = st; k = fi_RuleID f;
          ruleIDs' = (if strset_has seen k then ruleIDs else ruleIDs @ [k]);
          worse = (case gget worst k of None \<Rightarrow> True | Some cur \<Rightarrow> SeverityRank cur < SeverityRank (fi_Severity f))
      in (ruleIDs', strset_add k seen, if worse then gput k (fi_Severity f) worst else worst))"

definition sarif_rules :: "Finding list \<Rightarrow> string list \<times> (string, Severity) gomap" where
  "sarif_rules findings = (let (ruleIDs, seen, worst) = fold sarif_step findings ([], [], []) in (ruleIDs, worst))"

definition sarif_rule :: "(string, Severity) gomap \<Rightarrow> string \<Rightarrow> sarifRule" where
  "sarif_rule worst i =
     \<lparr>sar_ID = i, sar_text = (if strings_TrimSpace i \<noteq> [] then strings_TrimSpace i else i),
      sar_severity = securitySeverity (case gget worst i of None \<Rightarrow> [] | Some s \<Rightarrow> s)\<rparr>"

text \<open>\<open>ruleIndex\<close> maps a rule to its position; a missing one would read as 0.\<close>

definition rule_index :: "string list \<Rightarrow> string \<Rightarrow> nat" where
  "rule_index ids k = (case gget (fold (\<lambda>i. gput (ids ! i) i) [0..<length ids] []) k of None \<Rightarrow> 0 | Some i \<Rightarrow> i)"

definition sarif_location :: "Finding \<Rightarrow> sarifLocation list" where
  "sarif_location f =
     (if fi_Filename f = [] then []
      else [\<lparr>sal_URI = fi_Filename f, sal_StartLine = (if 0 < fi_Line f then Some (fi_Line f) else None),
             sal_Snippet = (if 0 < fi_Line f \<and> fi_Snippet f \<noteq> [] then Some (fi_Snippet f) else None)\<rparr>])"

definition sarif_result :: "string list \<Rightarrow> Finding \<Rightarrow> sarifResult" where
  "sarif_result ids f =
     \<lparr>sas_RuleID = fi_RuleID f, sas_RuleIndex = rule_index ids (fi_RuleID f), sas_Level = sarifLevel (fi_Severity f),
      sas_Message = (if fi_Message f \<noteq> [] then fi_Message f else if fi_Title f \<noteq> [] then fi_Title f else fi_RuleID f),
      sas_Locations = sarif_location f, sas_Fingerprint = fi_Fingerprint f, sas_severity = fi_Severity f,
      sas_security_severity = securitySeverity (fi_Severity f), sas_confidence = fi_Confidence f,
      sas_category = (if fi_Category f \<noteq> [] then Some (fi_Category f) else None), sas_fix = (if fi_Fix f \<noteq> [] then Some (fi_Fix f) else None)\<rparr>"

definition ExportSARIF :: "Finding list \<Rightarrow> sarifRule list \<times> sarifResult list" where
  "ExportSARIF findings = (let (ids, worst) = sarif_rules findings in (map (sarif_rule worst) ids, map (sarif_result ids) findings))"

subsection \<open>Results refer to their rules\<close>

lemma sarif_fold:
  "fold sarif_step fs (ids, seen, worst) = (ids', seen', worst') \<Longrightarrow>
     ids' = ids @ keep_new (\<lambda>x. x) (seen_keys seen) (map fi_RuleID fs)"
proof (induction fs arbitrary: ids seen worst)
  case (Cons f fs)
  let ?k = "fi_RuleID f"
  obtain w where step: "sarif_step f (ids, seen, worst) = (if strset_has seen ?k then ids else ids @ [?k], strset_add ?k seen, w)"
    by (simp add: sarif_step_def Let_def)
  from Cons.prems have "fold sarif_step fs (if strset_has seen ?k then ids else ids @ [?k], strset_add ?k seen, w) = (ids', seen', worst')"
    by (simp add: step)
  from Cons.IH [OF this] show ?case unfolding seen_keys_add by (simp add: insert_absorb)
qed simp

lemma sarif_rule_ids: "fst (sarif_rules fs) = keep_new (\<lambda>x. x) {} (map fi_RuleID fs)"
  using sarif_fold [of fs "[]" "[]" "[]"] by (auto simp: sarif_rules_def split: prod.splits)

lemma index_map: "distinct ids \<Longrightarrow> n \<le> length ids \<Longrightarrow> gget (fold (\<lambda>i. gput (ids ! i) i) [0..<n] []) k = (if \<exists>i < n. ids ! i = k then Some (THE i. i < n \<and> ids ! i = k) else None)"
proof (induction n)
  case (Suc n)
  show ?case
  proof (cases "ids ! n = k")
    case True
    have "(THE i. i < Suc n \<and> ids ! i = k) = n" using True Suc.prems by (intro the_equality) (auto simp: nth_eq_iff_index_eq)
    with True show ?thesis by auto
  next
    case False
    then have "(i < Suc n \<and> ids ! i = k) \<longleftrightarrow> (i < n \<and> ids ! i = k)" for i by (auto simp: less_Suc_eq)
    with False Suc show ?thesis by simp
  qed
qed simp

lemma rule_index_nth: "distinct ids \<Longrightarrow> k \<in> set ids \<Longrightarrow> rule_index ids k < length ids \<and> ids ! rule_index ids k = k"
proof -
  assume d: "distinct ids" and k: "k \<in> set ids"
  obtain i where i: "i < length ids" "ids ! i = k" using k by (meson in_set_conv_nth)
  have the: "(THE j. j < length ids \<and> ids ! j = k) = i" using i d by (intro the_equality) (auto simp: nth_eq_iff_index_eq)
  have "rule_index ids k = i" unfolding rule_index_def using index_map [OF d order_refl, of k] i the by auto
  with i show ?thesis by simp
qed

text \<open>
  A SARIF report is consistent: its rules have distinct IDs, there is one result per finding, and
  the rule at a result's index is the rule the result names.
\<close>

theorem sarif_consistent:
  assumes "ExportSARIF findings = (rules, results)"
  shows "distinct (map sar_ID rules) \<and> map sas_RuleID results = map fi_RuleID findings \<and>
    (\<forall>r \<in> set results. sas_RuleIndex r < length rules \<and> sar_ID (rules ! sas_RuleIndex r) = sas_RuleID r)"
proof -
  obtain ids worst where sr: "sarif_rules findings = (ids, worst)" by fastforce
  have ids: "ids = keep_new (\<lambda>x. x) {} (map fi_RuleID findings)" using sarif_rule_ids [of findings] sr by simp
  have dist: "distinct ids" using keep_new_distinct [of "\<lambda>x. x" "{}" "map fi_RuleID findings"] by (simp add: ids)
  have mem: "fi_RuleID f \<in> set ids" if "f \<in> set findings" for f
    using keep_new_keys [of "\<lambda>x. x" "{}" "map fi_RuleID findings"] that by (auto simp: ids)
  have rules: "rules = map (sarif_rule worst) ids" and results: "results = map (sarif_result ids) findings"
    using assms by (simp_all add: ExportSARIF_def sr)
  have same: "map sar_ID rules = ids" by (simp add: rules sarif_rule_def comp_def)
  have "sas_RuleIndex r < length rules \<and> sar_ID (rules ! sas_RuleIndex r) = sas_RuleID r" if r: "r \<in> set results" for r
  proof -
    obtain f where f: "f \<in> set findings" "r = sarif_result ids f" using r results by auto
    from rule_index_nth [OF dist mem [OF f(1)]] f(2) show ?thesis by (simp add: sarif_result_def rules sarif_rule_def)
  qed
  with dist same show ?thesis by (simp add: results sarif_result_def comp_def)
qed

theorem sarif_consistent_witness:
  "distinct (map sar_ID (fst (ExportSARIF [demo_finding, demo_finding]))) \<and> length (fst (ExportSARIF [demo_finding, demo_finding])) = 1"
proof -
  obtain rules results where e: "ExportSARIF [demo_finding, demo_finding] = (rules, results)" by fastforce
  have "rules = [sarif_rule (snd (sarif_rules [demo_finding, demo_finding])) ''sql_injection'']"
    using e sarif_rule_ids [of "[demo_finding, demo_finding]"] by (auto simp: ExportSARIF_def demo_finding_def split: prod.splits)
  with sarif_consistent [OF e] show ?thesis by (simp add: e)
qed

end
