(* ===== verification/Requirements.thy ===== *)
theory Requirements
  imports Scanner
begin

text \<open>
  Required controls (\<open>requirements/resolver.go\<close>, layer 2 of the deterministic engine) and the
  compliance checker (\<open>compliance/checker.go\<close>, layer 3). Both run a fixed rule table over the
  description: a rule that matches mandates its controls, a control belongs to the first rule that
  mandates it, and is satisfied when the developer declared it. The two loops differ only in the
  report they fill; \<open>mandated\<close> is what they share.
\<close>

subsection \<open>Resolver\<close>

record Control =
  ct_ID :: string
  ct_Title :: string
  ct_Severity :: Severity
  ct_Description :: string

record Requirement =
  rq_Entity :: string
  rq_Control :: Control

record RequirementsReport =
  rr_Entities :: "string list"
  rr_Required :: "Requirement list"
  rr_Satisfied :: "Requirement list"
  rr_Missing :: "Requirement list"

record 'c entityRule =
  er_entity :: string
  er_keywords :: "string list"
  er_excludes :: "string list"
  er_minScore :: f64
  er_controls :: "'c list"

definition requirement_less :: "Requirement \<Rightarrow> Requirement \<Rightarrow> bool" where
  "requirement_less a b \<longleftrightarrow>
     (let ri = SeverityRank (ct_Severity (rq_Control a)); rj = SeverityRank (ct_Severity (rq_Control b))
      in if ri \<noteq> rj then rj < ri else ct_ID (rq_Control a) < ct_ID (rq_Control b))"

definition sortRequirements :: "Requirement list \<Rightarrow> Requirement list" where
  "sortRequirements reqs = go_sort requirement_less reqs"

definition declared_set :: "string list \<Rightarrow> strset" where
  "declared_set declared = fold (\<lambda>d. strset_add (strings_ToLower (strings_TrimSpace d))) declared []"

text \<open>The loop over the controls of a rule that matched; the state holds \<open>seenControl\<close> and the report.\<close>

definition add_control :: "strset \<Rightarrow> string \<Rightarrow> Control \<Rightarrow> strset \<times> RequirementsReport \<Rightarrow> strset \<times> RequirementsReport" where
  "add_control declaredSet entity c st =
     (let (seen, rep) = st in
      if strset_has seen (ct_ID c) then (seen, rep)
      else let req = \<lparr>rq_Entity = entity, rq_Control = c\<rparr>;
               rep1 = rep\<lparr>rr_Required := rr_Required rep @ [req]\<rparr>
           in (strset_add (ct_ID c) seen,
               if strset_has declaredSet (ct_ID c) then rep1\<lparr>rr_Satisfied := rr_Satisfied rep1 @ [req]\<rparr>
               else rep1\<lparr>rr_Missing := rr_Missing rep1 @ [req]\<rparr>))"

text \<open>One round of the loop over the rules: \<open>seenEntity\<close>, \<open>seenControl\<close> and the report.\<close>

definition resolve_rule ::
    "string \<Rightarrow> strset \<Rightarrow> Control entityRule \<Rightarrow> strset \<times> strset \<times> RequirementsReport \<Rightarrow> strset \<times> strset \<times> RequirementsReport" where
  "resolve_rule lower declaredSet rule st =
     (let (seenEntity, seenControl, rep) = st in
      if ComputeMatchScore lower (er_keywords rule) (er_excludes rule) < er_minScore rule then (seenEntity, seenControl, rep)
      else let rep1 = (if strset_has seenEntity (er_entity rule) then rep else rep\<lparr>rr_Entities := rr_Entities rep @ [er_entity rule]\<rparr>)
           in (strset_add (er_entity rule) seenEntity, fold (add_control declaredSet (er_entity rule)) (er_controls rule) (seenControl, rep1)))"

definition empty_requirements :: RequirementsReport where
  "empty_requirements = \<lparr>rr_Entities = [], rr_Required = [], rr_Satisfied = [], rr_Missing = []\<rparr>"

definition Resolve :: "Control entityRule list \<Rightarrow> string \<Rightarrow> string list \<Rightarrow> RequirementsReport" where
  "Resolve rules description declared =
     (let rep = snd (snd (fold (resolve_rule (strings_ToLower description) (declared_set declared)) rules ([], [], empty_requirements)))
      in \<lparr>rr_Entities = sort_Strings (rr_Entities rep), rr_Required = sortRequirements (rr_Required rep),
          rr_Satisfied = sortRequirements (rr_Satisfied rep), rr_Missing = sortRequirements (rr_Missing rep)\<rparr>)"

definition controlEncryption :: Control where
  "controlEncryption = \<lparr>ct_ID = ''encryption'', ct_Title = ''Encryption at rest and in transit'', ct_Severity = SeverityCritical,
     ct_Description = ''Sensitive data must be encrypted in transit (TLS) and at rest.''\<rparr>"

definition controlAuditLog :: Control where
  "controlAuditLog = \<lparr>ct_ID = ''audit_log'', ct_Title = ''Audit logging'', ct_Severity = SeverityHigh,
     ct_Description = ''Security-relevant actions must be recorded in a tamper-evident audit log.''\<rparr>"

definition controlRateLimit :: Control where
  "controlRateLimit = \<lparr>ct_ID = ''rate_limit'', ct_Title = ''Rate limiting'', ct_Severity = SeverityHigh,
     ct_Description = ''Endpoints must be rate-limited to resist abuse and brute force.''\<rparr>"

definition controlFraud :: Control where
  "controlFraud = \<lparr>ct_ID = ''fraud_monitoring'', ct_Title = ''Fraud monitoring'', ct_Severity = SeverityHigh,
     ct_Description = ''Money-handling flows must be monitored for fraudulent activity.''\<rparr>"

definition controlMFA :: Control where
  "controlMFA = \<lparr>ct_ID = ''mfa'', ct_Title = ''Multi-factor authentication'', ct_Severity = SeverityHigh,
     ct_Description = ''Authentication must support a second factor for sensitive accounts.''\<rparr>"

definition controlAccess :: Control where
  "controlAccess = \<lparr>ct_ID = ''access_control'', ct_Title = ''Access control'', ct_Severity = SeverityHigh,
     ct_Description = ''Resources must enforce least-privilege authorization checks.''\<rparr>"

definition controlPII :: Control where
  "controlPII = \<lparr>ct_ID = ''pii_minimization'', ct_Title = ''PII minimization & retention'', ct_Severity = SeverityMedium,
     ct_Description = ''Collect only necessary PII and enforce a retention/deletion policy.''\<rparr>"

definition controlConsent :: Control where
  "controlConsent = \<lparr>ct_ID = ''consent'', ct_Title = ''Consent management'', ct_Severity = SeverityMedium,
     ct_Description = ''User consent must be captured and revocable for personal data.''\<rparr>"

definition controlInputVal :: Control where
  "controlInputVal = \<lparr>ct_ID = ''input_validation'', ct_Title = ''Input validation'', ct_Severity = SeverityHigh,
     ct_Description = ''All external input must be validated and sanitized.''\<rparr>"

definition requirement_rules :: "Control entityRule list" where
  "requirement_rules =
     [\<lparr>er_entity = ''payment'',
       er_keywords = [''payment'', ''card data'', ''credit card'', ''checkout'', ''billing'', ''transaction''],
       er_excludes = [''unpaid'', ''payment method'', ''payment gateway''], er_minScore = fl (15 / 100),
       er_controls = [controlEncryption, controlAuditLog, controlRateLimit, controlFraud, controlAccess]\<rparr>,
      \<lparr>er_entity = ''auth'',
       er_keywords = [''authentication'', ''login'', ''sign in'', ''sign-in'', ''auth service'', ''identity provider''],
       er_excludes = [''authorization'', ''oauth client''], er_minScore = fl (15 / 100),
       er_controls = [controlMFA, controlRateLimit, controlAuditLog, controlAccess]\<rparr>,
      \<lparr>er_entity = ''pii'',
       er_keywords = [''pii'', ''personal data'', ''customer data'', ''user profile'', ''email address'', ''phone number''],
       er_excludes = [''pii compliance''], er_minScore = fl (16 / 100),
       er_controls = [controlEncryption, controlPII, controlConsent, controlAccess]\<rparr>,
      \<lparr>er_entity = ''api'',
       er_keywords = ['' api'', ''endpoint'', ''rest '', ''graphql'', ''webhook''],
       er_excludes = [], er_minScore = fl (20 / 100),
       er_controls = [controlRateLimit, controlInputVal, controlAuditLog]\<rparr>]"

subsection \<open>What the resolver reports\<close>

definition rule_matches :: "string \<Rightarrow> 'c entityRule \<Rightarrow> bool" where
  "rule_matches lower rule \<longleftrightarrow> er_minScore rule \<le> ComputeMatchScore lower (er_keywords rule) (er_excludes rule)"

definition required_by :: "string \<Rightarrow> Control entityRule list \<Rightarrow> Requirement list" where
  "required_by lower rules =
     concat (map (\<lambda>r. map (\<lambda>c. \<lparr>rq_Entity = er_entity r, rq_Control = c\<rparr>) (er_controls r)) (filter (rule_matches lower) rules))"

abbreviation req_ID :: "Requirement \<Rightarrow> string" where
  "req_ID q \<equiv> ct_ID (rq_Control q)"

definition extend_report :: "strset \<Rightarrow> Requirement list \<Rightarrow> RequirementsReport \<Rightarrow> RequirementsReport" where
  "extend_report D new rep =
     rep\<lparr>rr_Required := rr_Required rep @ new,
         rr_Satisfied := rr_Satisfied rep @ filter (\<lambda>q. strset_has D (req_ID q)) new,
         rr_Missing := rr_Missing rep @ filter (\<lambda>q. \<not> strset_has D (req_ID q)) new\<rparr>"

lemma extend_report_append: "extend_report D ys (extend_report D xs rep) = extend_report D (xs @ ys) rep"
  by (simp add: extend_report_def)

lemma extend_report_Nil: "extend_report D [] rep = rep"
  by (simp add: extend_report_def)

lemma fold_extend: "fold (\<lambda>q. extend_report D [q]) new rep = extend_report D new rep"
  by (induction new arbitrary: rep) (simp_all add: extend_report_Nil extend_report_append)

lemma add_control_first: "add_control D ent = (\<lambda>c. first_step req_ID (\<lambda>q. extend_report D [q]) \<lparr>rq_Entity = ent, rq_Control = c\<rparr>)"
  by (intro ext) (auto simp: add_control_def first_step_def extend_report_def Let_def split: prod.splits)

lemma fold_add_control:
  "\<exists>seen'. fold (add_control D ent) cs (seen, rep) =
     (seen', extend_report D (keep_new req_ID (seen_keys seen) (map (\<lambda>c. \<lparr>rq_Entity = ent, rq_Control = c\<rparr>) cs)) rep) \<and>
     seen_keys seen' = seen_keys seen \<union> ct_ID ` set cs"
  using fold_first [of req_ID "\<lambda>q. extend_report D [q]" "map (\<lambda>c. \<lparr>rq_Entity = ent, rq_Control = c\<rparr>) cs" seen rep]
  by (simp add: add_control_first fold_map comp_def fold_extend image_image)

lemma rr_Entities_extend [simp]: "rr_Entities (extend_report D xs rep) = rr_Entities rep"
  by (simp add: extend_report_def)

lemma extend_report_entities: "extend_report D xs (rep\<lparr>rr_Entities := es\<rparr>) = (extend_report D xs rep)\<lparr>rr_Entities := es\<rparr>"
  by (simp add: extend_report_def)

lemma fold_resolve_rule:
  "snd (snd (fold (resolve_rule lower D) rules (seenE, seenC, rep))) =
     (extend_report D (keep_new req_ID (seen_keys seenC) (required_by lower rules)) rep)
       \<lparr>rr_Entities := rr_Entities rep @ keep_new (\<lambda>x. x) (seen_keys seenE) (map er_entity (filter (rule_matches lower) rules))\<rparr>"
proof (induction rules arbitrary: seenE seenC rep)
  case Nil
  show ?case by (simp add: required_by_def extend_report_Nil)
next
  case (Cons r rules)
  show ?case
  proof (cases "rule_matches lower r")
    case False
    then have "resolve_rule lower D r (seenE, seenC, rep) = (seenE, seenC, rep)"
      by (simp add: resolve_rule_def rule_matches_def)
    with Cons.IH False show ?thesis by (simp add: required_by_def)
  next
    case True
    define new where "new = map (\<lambda>c. \<lparr>rq_Entity = er_entity r, rq_Control = c\<rparr>) (er_controls r)"
    define rep1 where "rep1 = (if strset_has seenE (er_entity r) then rep else rep\<lparr>rr_Entities := rr_Entities rep @ [er_entity r]\<rparr>)"
    obtain seen' where f: "fold (add_control D (er_entity r)) (er_controls r) (seenC, rep1) =
        (seen', extend_report D (keep_new req_ID (seen_keys seenC) new) rep1)" "seen_keys seen' = seen_keys seenC \<union> ct_ID ` set (er_controls r)"
      using fold_add_control [of D "er_entity r" "er_controls r" seenC rep1] unfolding new_def by blast
    have step: "resolve_rule lower D r (seenE, seenC, rep) = (strset_add (er_entity r) seenE, seen', extend_report D (keep_new req_ID (seen_keys seenC) new) rep1)"
      using True f(1) by (simp add: resolve_rule_def rule_matches_def rep1_def Let_def not_less [symmetric])
    have ids: "req_ID ` set new = ct_ID ` set (er_controls r)" by (simp add: new_def image_image)
    have req: "required_by lower (r # rules) = new @ required_by lower rules" using True by (simp add: required_by_def new_def)
    show ?thesis
      unfolding fold_Cons comp_apply step Cons.IH req keep_new_append f(2) ids [symmetric]
      by (simp add: rep1_def extend_report_append extend_report_entities True seen_keys_add insert_absorb del: strset_has_add)
  qed
qed

text \<open>The report: the first requirement of each control, split by declaration, each part sorted.\<close>

lemma Resolve_eq:
  "Resolve rules description declared =
     (let req = keep_new req_ID {} (required_by (strings_ToLower description) rules); D = declared_set declared
      in \<lparr>rr_Entities = sort_Strings (keep_new (\<lambda>x. x) {} (map er_entity (filter (rule_matches (strings_ToLower description)) rules))),
          rr_Required = sortRequirements req,
          rr_Satisfied = sortRequirements (filter (\<lambda>q. strset_has D (req_ID q)) req),
          rr_Missing = sortRequirements (filter (\<lambda>q. \<not> strset_has D (req_ID q)) req)\<rparr>)"
  by (simp add: Resolve_def fold_resolve_rule extend_report_def empty_requirements_def Let_def)

lemma declared_set_iff: "strset_has (declared_set ds) k \<longleftrightarrow> k \<in> (\<lambda>d. strings_ToLower (strings_TrimSpace d)) ` set ds"
proof -
  have "strset_has (fold (\<lambda>d. strset_add (strings_ToLower (strings_TrimSpace d))) ds m) k \<longleftrightarrow>
      strset_has m k \<or> k \<in> (\<lambda>d. strings_ToLower (strings_TrimSpace d)) ` set ds" for m
    by (induction ds arbitrary: m) auto
  then show ?thesis by (simp add: declared_set_def)
qed

interpretation requirements: less_function requirement_less
proof
  show "\<not> requirement_less b a" if "requirement_less a b" for a b
    using that by (auto simp: requirement_less_def Let_def split: if_splits)
  show "requirement_less a b \<or> requirement_less b c" if "requirement_less a c" for a b c
    using that by (auto simp: requirement_less_def Let_def split: if_splits)
qed

subsection \<open>The built-in rules\<close>

text \<open>One keyword is enough for every built-in rule, and one exclusion turns it off.\<close>

definition rule_fires_on :: "string \<Rightarrow> 'c entityRule \<Rightarrow> bool" where
  "rule_fires_on lower r \<longleftrightarrow> list_ex (ContainsWord lower) (er_keywords r) \<and> \<not> list_ex (ContainsWord lower) (er_excludes r)"

lemma requirement_scores:
  "0 < fl (15 / 100)" "0 < fl (16 / 100)" "0 < fl (20 / 100)"
  "fl (15 / 100) \<le> fdiv 1 (f_of_int 6)" "fl (16 / 100) \<le> fdiv 1 (f_of_int 6)" "fl (20 / 100) \<le> fdiv 1 (f_of_int 5)"
proof -
  have "fl (1 / 10) \<le> fl (15 / 100)" "fl (1 / 10) \<le> fl (16 / 100)" "fl (1 / 10) \<le> fl (20 / 100)" by (simp_all add: fl_mono)
  then show "0 < fl (15 / 100)" "0 < fl (16 / 100)" "0 < fl (20 / 100)" by (simp_all add: fl_constants)
qed (simp_all add: fdiv_def f_of_int_def fl_numeral fl_mono)

lemma requirement_rule_matches:
  assumes "r \<in> set requirement_rules"
  shows "rule_matches lower r \<longleftrightarrow> rule_fires_on lower r"
proof -
  have "0 < er_minScore r \<and> er_minScore r \<le> fdiv 1 (f_of_int (int (length (er_keywords r)))) \<and> length (er_keywords r) \<le> 6"
    using assms requirement_scores by (auto simp: requirement_rules_def)
  then show ?thesis unfolding rule_matches_def rule_fires_on_def by (intro score_threshold) auto
qed

lemmas control_defs = controlEncryption_def controlAuditLog_def controlRateLimit_def controlFraud_def controlMFA_def
  controlAccess_def controlPII_def controlConsent_def controlInputVal_def

lemma requirement_controls_inj: "inj_on ct_ID (\<Union>r \<in> set requirement_rules. set (er_controls r))"
proof -
  let ?cs = "[controlEncryption, controlAuditLog, controlRateLimit, controlFraud, controlMFA, controlAccess, controlPII, controlConsent, controlInputVal]"
  have "distinct (map ct_ID ?cs)" by (simp add: control_defs)
  then have "inj_on ct_ID (set ?cs)" by (simp only: distinct_map)
  moreover have "(\<Union>r \<in> set requirement_rules. set (er_controls r)) \<subseteq> set ?cs" by (simp add: requirement_rules_def)
  ultimately show ?thesis by (rule inj_on_subset)
qed

lemma required_controls:
  "rq_Control ` set (required_by lower rules) = (\<Union>r \<in> {r \<in> set rules. rule_matches lower r}. set (er_controls r))"
  by (force simp: required_by_def)

lemma required_kept:
  "rq_Control ` set (keep_new req_ID {} (required_by lower requirement_rules)) = rq_Control ` set (required_by lower requirement_rules)"
  by (rule keep_new_image) (rule inj_on_subset [OF requirement_controls_inj], auto simp: required_controls)

lemma sortRequirements_mset [simp]: "mset (sortRequirements xs) = mset xs" "set (sortRequirements xs) = set xs"
  by (simp_all add: sortRequirements_def)

lemma sortRequirements_sorted: "sorted_wrt (\<lambda>a b. \<not> requirement_less b a) (sortRequirements xs)"
  unfolding sortRequirements_def by (rule requirements.go_sort_sorted)

text \<open>
  C27. The resolver computes what its rule table says. For every description and declaration the
  missing controls are exactly the controls of the rules one of whose keywords occurs in the
  lower-cased description and none of whose exclusions does, less those declared (ignoring case and
  surrounding space); the required ones are the satisfied and the missing ones, no control is
  required twice, and the lists are in order of severity and name.
\<close>

theorem requirements_exact:
  "let rep = Resolve requirement_rules description declared; lower = strings_ToLower description;
       decl = (\<lambda>d. strings_ToLower (strings_TrimSpace d)) ` set declared
   in rq_Control ` set (rr_Missing rep) =
        {c. (\<exists>r \<in> set requirement_rules. rule_fires_on lower r \<and> c \<in> set (er_controls r)) \<and> ct_ID c \<notin> decl} \<and>
      set (rr_Entities rep) = {er_entity r | r. r \<in> set requirement_rules \<and> rule_fires_on lower r} \<and>
      mset (rr_Required rep) = mset (rr_Satisfied rep) + mset (rr_Missing rep) \<and>
      distinct (map req_ID (rr_Required rep)) \<and>
      sorted_wrt (\<lambda>a b. \<not> requirement_less b a) (rr_Required rep) \<and> sorted_wrt (\<lambda>a b. \<not> requirement_less b a) (rr_Missing rep)"
proof -
  define lower where "lower = strings_ToLower description"
  define req where "req = keep_new req_ID {} (required_by lower requirement_rules)"
  define D where "D = declared_set declared"
  have rep: "Resolve requirement_rules description declared =
      \<lparr>rr_Entities = sort_Strings (keep_new (\<lambda>x. x) {} (map er_entity (filter (rule_matches lower) requirement_rules))),
       rr_Required = sortRequirements req, rr_Satisfied = sortRequirements (filter (\<lambda>q. strset_has D (req_ID q)) req),
       rr_Missing = sortRequirements (filter (\<lambda>q. \<not> strset_has D (req_ID q)) req)\<rparr>"
    by (simp add: Resolve_eq Let_def req_def D_def lower_def)
  have controls: "rq_Control ` set req = {c. \<exists>r \<in> set requirement_rules. rule_fires_on lower r \<and> c \<in> set (er_controls r)}"
    unfolding req_def required_kept required_controls using requirement_rule_matches by blast
  have missing: "rq_Control ` {q \<in> set req. \<not> strset_has D (req_ID q)} = {c \<in> rq_Control ` set req. \<not> strset_has D (ct_ID c)}" by blast
  have ents: "set (keep_new (\<lambda>x. x) {} (map er_entity (filter (rule_matches lower) requirement_rules))) =
      {er_entity r | r. r \<in> set requirement_rules \<and> rule_fires_on lower r}"
    using keep_new_keys [of "\<lambda>x. x" "{}" "map er_entity (filter (rule_matches lower) requirement_rules)"] requirement_rule_matches by auto
  have dist: "distinct (map req_ID (sortRequirements req))"
  proof -
    have "mset (map req_ID (sortRequirements req)) = mset (map req_ID req)" by simp
    moreover have "distinct (map req_ID req)" unfolding req_def by (rule keep_new_distinct)
    ultimately show ?thesis by (metis mset_eq_imp_distinct_iff)
  qed
  have part: "mset req = mset (filter (\<lambda>q. strset_has D (req_ID q)) req) + mset (filter (\<lambda>q. \<not> strset_has D (req_ID q)) req)"
    by (simp flip: multiset_partition)
  show ?thesis
    unfolding Let_def rep
    using controls missing ents dist part
    by (simp add: sortRequirements_sorted declared_set_iff D_def flip: lower_def)
qed

end
