(* ===== verification/Compliance.thy ===== *)
theory Compliance
  imports Requirements
begin

text \<open>
  The compliance checker (\<open>compliance/checker.go\<close>, layer 3 of the deterministic engine): the
  regulatory controls that the entities named in a description trigger, split into satisfied and
  missing ones. The range over the set of frameworks is followed by a sort, so its order does not
  show.
\<close>

type_synonym Framework = string

definition FrameworkSOC2 :: Framework where "FrameworkSOC2 = ''SOC2''"
definition FrameworkGDPR :: Framework where "FrameworkGDPR = ''GDPR''"
definition FrameworkHIPAA :: Framework where "FrameworkHIPAA = ''HIPAA''"
definition FrameworkPCIDSS :: Framework where "FrameworkPCIDSS = ''PCI-DSS''"

lemmas framework_defs = FrameworkSOC2_def FrameworkGDPR_def FrameworkHIPAA_def FrameworkPCIDSS_def

record ComplianceControl =
  cc_ID :: string
  cc_Framework :: Framework
  cc_Title :: string
  cc_Severity :: Severity
  cc_Description :: string

record Mapping =
  mp_Entity :: string
  mp_Controls :: "ComplianceControl list"

record ComplianceReport =
  cr_Frameworks :: "Framework list"
  cr_Required :: "Mapping list"
  cr_Satisfied :: "Mapping list"
  cr_Missing :: "Mapping list"
  cr_frameworkSet :: strset

definition mapping_less :: "Mapping \<Rightarrow> Mapping \<Rightarrow> bool" where
  "mapping_less a b \<longleftrightarrow>
     (case (mp_Controls a, mp_Controls b) of
        (ca # _, cb # _) \<Rightarrow>
          (let si = SeverityRank (cc_Severity ca); sj = SeverityRank (cc_Severity cb)
           in if si \<noteq> sj then sj < si else cc_ID ca < cc_ID cb)
      | _ \<Rightarrow> length (mp_Controls b) < length (mp_Controls a))"

definition sortMappings :: "Mapping list \<Rightarrow> Mapping list" where
  "sortMappings ms = go_sort mapping_less ms"

definition add_mapping :: "strset \<Rightarrow> string \<Rightarrow> ComplianceControl \<Rightarrow> strset \<times> ComplianceReport \<Rightarrow> strset \<times> ComplianceReport" where
  "add_mapping declaredSet entity c st =
     (let (seen, rep) = st in
      if strset_has seen (cc_ID c) then (seen, rep)
      else let req = \<lparr>mp_Entity = entity, mp_Controls = [c]\<rparr>;
               rep1 = rep\<lparr>cr_frameworkSet := strset_add (cc_Framework c) (cr_frameworkSet rep), cr_Required := cr_Required rep @ [req]\<rparr>
           in (strset_add (cc_ID c) seen,
               if strset_has declaredSet (cc_ID c) then rep1\<lparr>cr_Satisfied := cr_Satisfied rep1 @ [req]\<rparr>
               else rep1\<lparr>cr_Missing := cr_Missing rep1 @ [req]\<rparr>))"

definition check_rule :: "string \<Rightarrow> strset \<Rightarrow> ComplianceControl entityRule \<Rightarrow> strset \<times> ComplianceReport \<Rightarrow> strset \<times> ComplianceReport" where
  "check_rule lower declaredSet rule st =
     (if ComputeMatchScore lower (er_keywords rule) (er_excludes rule) < er_minScore rule then st
      else fold (add_mapping declaredSet (er_entity rule)) (er_controls rule) st)"

definition Check :: "ComplianceControl entityRule list \<Rightarrow> string \<Rightarrow> string list \<Rightarrow> ComplianceReport" where
  "Check rules description declared =
     (let rep = snd (fold (check_rule (strings_ToLower description) (declared_set declared)) rules
                       ([], \<lparr>cr_Frameworks = [], cr_Required = [], cr_Satisfied = [], cr_Missing = [], cr_frameworkSet = []\<rparr>))
      in rep\<lparr>cr_Frameworks := sort_Strings (gkeys (cr_frameworkSet rep)), cr_Required := sortMappings (cr_Required rep),
             cr_Satisfied := sortMappings (cr_Satisfied rep), cr_Missing := sortMappings (cr_Missing rep)\<rparr>)"

definition compliance_rules :: "ComplianceControl entityRule list" where
  "compliance_rules =
     [\<lparr>er_entity = ''payment'',
       er_keywords = [''payment'', ''card data'', ''credit card'', ''checkout'', ''billing'', ''transaction''],
       er_excludes = [''payment method'', ''payment gateway''], er_minScore = fl (15 / 100),
       er_controls =
        [\<lparr>cc_ID = ''pci_encrypt'', cc_Framework = FrameworkPCIDSS, cc_Title = ''PCI-DSS: Encrypt cardholder data'', cc_Severity = SeverityCritical,
          cc_Description = ''Cardholder data must be encrypted in transit and at rest per PCI-DSS Req 3.4 and 4.1.''\<rparr>,
         \<lparr>cc_ID = ''pci_access'', cc_Framework = FrameworkPCIDSS, cc_Title = ''PCI-DSS: Restrict access to cardholder data'', cc_Severity = SeverityCritical,
          cc_Description = ''Access to cardholder data must be restricted to need-to-know per PCI-DSS Req 7.''\<rparr>,
         \<lparr>cc_ID = ''pci_audit'', cc_Framework = FrameworkPCIDSS, cc_Title = ''PCI-DSS: Maintain audit trail'', cc_Severity = SeverityHigh,
          cc_Description = ''Track all access to cardholder data per PCI-DSS Req 10.''\<rparr>,
         \<lparr>cc_ID = ''soc2_logging'', cc_Framework = FrameworkSOC2, cc_Title = ''SOC2: Security event logging'', cc_Severity = SeverityHigh,
          cc_Description = ''Security-relevant events must be logged per SOC2 CC6.1.''\<rparr>]\<rparr>,
      \<lparr>er_entity = ''auth'',
       er_keywords = [''authentication'', ''authenticate'', ''login'', ''sign in'', ''sign-in'', ''auth service'', ''identity provider''],
       er_excludes = [''authorization'', ''oauth client''], er_minScore = fl (13 / 100),
       er_controls =
        [\<lparr>cc_ID = ''soc2_access'', cc_Framework = FrameworkSOC2, cc_Title = ''SOC2: Logical access controls'', cc_Severity = SeverityHigh,
          cc_Description = ''Logical access controls must be in place per SOC2 CC6.1.''\<rparr>,
         \<lparr>cc_ID = ''soc2_mfa'', cc_Framework = FrameworkSOC2, cc_Title = ''SOC2: Multi-factor authentication'', cc_Severity = SeverityHigh,
          cc_Description = ''MFA must be available for sensitive access per SOC2 CC6.1.''\<rparr>,
         \<lparr>cc_ID = ''gdpr_access'', cc_Framework = FrameworkGDPR, cc_Title = ''GDPR: Right to erasure support'', cc_Severity = SeverityMedium,
          cc_Description = ''Authentication system must support account deletion per GDPR Art. 17.''\<rparr>]\<rparr>,
      \<lparr>er_entity = ''pii'',
       er_keywords = [''pii'', ''personal data'', ''personal information'', ''customer data'', ''user profile'', ''email address'', ''phone number'', ''patient data'', ''health data'', ''medical record'', ''patient health''],
       er_excludes = [''pii compliance''], er_minScore = fl (9 / 100),
       er_controls =
        [\<lparr>cc_ID = ''gdpr_consent'', cc_Framework = FrameworkGDPR, cc_Title = ''GDPR: Explicit consent'', cc_Severity = SeverityHigh,
          cc_Description = ''Explicit consent required for PII processing per GDPR Art. 6.''\<rparr>,
         \<lparr>cc_ID = ''gdpr_minimize'', cc_Framework = FrameworkGDPR, cc_Title = ''GDPR: Data minimization'', cc_Severity = SeverityHigh,
          cc_Description = ''Collect only necessary PII per GDPR Art. 5(1)(c).''\<rparr>,
         \<lparr>cc_ID = ''gdpr_retention'', cc_Framework = FrameworkGDPR, cc_Title = ''GDPR: Data retention policy'', cc_Severity = SeverityMedium,
          cc_Description = ''PII retention must be defined and enforced per GDPR Art. 5(1)(e).''\<rparr>,
         \<lparr>cc_ID = ''hipaa_phi'', cc_Framework = FrameworkHIPAA, cc_Title = ''HIPAA: PHI protection'', cc_Severity = SeverityCritical,
          cc_Description = ''Protected Health Information must be encrypted and access-controlled per HIPAA '' @ [CHR 0xC2, CHR 0xA7] @ ''164.312.''\<rparr>]\<rparr>]"

subsection \<open>What the checker reports\<close>

interpretation mappings: less_function mapping_less
proof
  show "\<not> mapping_less b a" if "mapping_less a b" for a b
    using that by (cases "mp_Controls a"; cases "mp_Controls b") (auto simp: mapping_less_def Let_def split: if_splits)
  show "mapping_less a b \<or> mapping_less b c" if "mapping_less a c" for a b c
    using that by (cases "mp_Controls a"; cases "mp_Controls b"; cases "mp_Controls c") (auto simp: mapping_less_def Let_def split: if_splits)
qed

text \<open>The pairs of entity and control that the matching rules list, in their order.\<close>

definition triggered_by :: "string \<Rightarrow> ComplianceControl entityRule list \<Rightarrow> (string \<times> ComplianceControl) list" where
  "triggered_by lower rules = concat (map (\<lambda>r. map (Pair (er_entity r)) (er_controls r)) (filter (rule_matches lower) rules))"

definition to_mapping :: "string \<times> ComplianceControl \<Rightarrow> Mapping" where
  "to_mapping p = \<lparr>mp_Entity = fst p, mp_Controls = [snd p]\<rparr>"

definition emit_mapping :: "strset \<Rightarrow> string \<times> ComplianceControl \<Rightarrow> ComplianceReport \<Rightarrow> ComplianceReport" where
  "emit_mapping D p rep =
     rep\<lparr>cr_frameworkSet := strset_add (cc_Framework (snd p)) (cr_frameworkSet rep), cr_Required := cr_Required rep @ [to_mapping p],
         cr_Satisfied := cr_Satisfied rep @ (if strset_has D (cc_ID (snd p)) then [to_mapping p] else []),
         cr_Missing := cr_Missing rep @ (if strset_has D (cc_ID (snd p)) then [] else [to_mapping p])\<rparr>"

abbreviation pair_ID :: "string \<times> ComplianceControl \<Rightarrow> string" where
  "pair_ID p \<equiv> cc_ID (snd p)"

lemma add_mapping_first: "add_mapping D ent = (\<lambda>c. first_step pair_ID (emit_mapping D) (ent, c))"
  by (intro ext) (auto simp: add_mapping_def first_step_def emit_mapping_def to_mapping_def Let_def split: prod.splits)

lemma check_rules_fold:
  "fold (check_rule lower D) rules st = fold (first_step pair_ID (emit_mapping D)) (triggered_by lower rules) st"
proof -
  have "check_rule lower D = (\<lambda>r st. if rule_matches lower r then fold (first_step pair_ID (emit_mapping D)) (map (Pair (er_entity r)) (er_controls r)) st else st)"
    by (intro ext) (auto simp: check_rule_def rule_matches_def add_mapping_first fold_map comp_def)
  then show ?thesis by (simp add: fold_selected triggered_by_def)
qed

lemma fold_emit_mapping:
  "cr_Required (fold (emit_mapping D) ps rep) = cr_Required rep @ map to_mapping ps"
  "cr_Missing (fold (emit_mapping D) ps rep) = cr_Missing rep @ map to_mapping (filter (\<lambda>p. \<not> strset_has D (pair_ID p)) ps)"
  "cr_Satisfied (fold (emit_mapping D) ps rep) = cr_Satisfied rep @ map to_mapping (filter (\<lambda>p. strset_has D (pair_ID p)) ps)"
  "seen_keys (cr_frameworkSet (fold (emit_mapping D) ps rep)) = seen_keys (cr_frameworkSet rep) \<union> cc_Framework ` snd ` set ps"
  "strset_ok (cr_frameworkSet rep) \<Longrightarrow> strset_ok (cr_frameworkSet (fold (emit_mapping D) ps rep))"
  by (induction ps arbitrary: rep) (auto simp: emit_mapping_def)

lemma Check_eq:
  fixes description declared rules
  defines "ps \<equiv> keep_new pair_ID {} (triggered_by (strings_ToLower description) rules)" and "D \<equiv> declared_set declared"
  shows "cr_Required (Check rules description declared) = sortMappings (map to_mapping ps)"
    "cr_Missing (Check rules description declared) = sortMappings (map to_mapping (filter (\<lambda>p. \<not> strset_has D (pair_ID p)) ps))"
    "cr_Satisfied (Check rules description declared) = sortMappings (map to_mapping (filter (\<lambda>p. strset_has D (pair_ID p)) ps))"
    "set (cr_Frameworks (Check rules description declared)) = cc_Framework ` snd ` set ps"
proof -
  define rep0 where "rep0 = \<lparr>cr_Frameworks = [], cr_Required = [], cr_Satisfied = [], cr_Missing = [], cr_frameworkSet = []\<rparr>"
  obtain seen' where "fold (first_step pair_ID (emit_mapping D)) (triggered_by (strings_ToLower description) rules) ([], rep0) = (seen', fold (emit_mapping D) ps rep0)"
    using fold_first [of pair_ID "emit_mapping D" "triggered_by (strings_ToLower description) rules" "[]" rep0] by (auto simp: ps_def)
  then have c: "Check rules description declared = (let rep = fold (emit_mapping D) ps rep0
      in rep\<lparr>cr_Frameworks := sort_Strings (gkeys (cr_frameworkSet rep)), cr_Required := sortMappings (cr_Required rep),
             cr_Satisfied := sortMappings (cr_Satisfied rep), cr_Missing := sortMappings (cr_Missing rep)\<rparr>)"
    by (simp add: Check_def check_rules_fold D_def rep0_def)
  show "cr_Required (Check rules description declared) = sortMappings (map to_mapping ps)"
    "cr_Missing (Check rules description declared) = sortMappings (map to_mapping (filter (\<lambda>p. \<not> strset_has D (pair_ID p)) ps))"
    "cr_Satisfied (Check rules description declared) = sortMappings (map to_mapping (filter (\<lambda>p. strset_has D (pair_ID p)) ps))"
    by (simp_all add: c Let_def fold_emit_mapping rep0_def)
  show "set (cr_Frameworks (Check rules description declared)) = cc_Framework ` snd ` set ps"
    using fold_emit_mapping(4) [of D ps rep0] fold_emit_mapping(5) [of rep0 D ps] by (simp add: c Let_def strset_keys rep0_def)
qed

subsection \<open>The built-in rules\<close>

lemma compliance_scores:
  "0 < fl (13 / 100)" "0 < fl (9 / 100)" "fl (13 / 100) \<le> fdiv 1 (f_of_int 7)" "fl (9 / 100) \<le> fdiv 1 (f_of_int 11)"
proof -
  have "fl (13 / 100) \<le> fdiv 1 (f_of_int 7)" "fl (9 / 100) \<le> fdiv 1 (f_of_int 11)" by (simp_all add: fdiv_def f_of_int_def fl_numeral fl_mono)
  moreover have "fl (1 / 16) \<le> fl (13 / 100)" "fl (1 / 16) \<le> fl (9 / 100)" by (simp_all add: fl_mono)
  moreover have "fl (1 / 16) = 1 / 16" using fl_value [of "1 / 16" 56 4503599627370496] by simp
  ultimately show "0 < fl (13 / 100)" "0 < fl (9 / 100)" "fl (13 / 100) \<le> fdiv 1 (f_of_int 7)" "fl (9 / 100) \<le> fdiv 1 (f_of_int 11)" by simp_all
qed

lemma compliance_rule_matches:
  assumes "r \<in> set compliance_rules"
  shows "rule_matches lower r \<longleftrightarrow> rule_fires_on lower r"
proof -
  have "0 < er_minScore r \<and> er_minScore r \<le> fdiv 1 (f_of_int (int (length (er_keywords r)))) \<and> length (er_keywords r) \<le> 11"
    using assms requirement_scores compliance_scores by (auto simp: compliance_rules_def)
  then show ?thesis unfolding rule_matches_def rule_fires_on_def by (intro score_threshold) auto
qed

lemma compliance_controls_inj: "inj_on cc_ID (\<Union>r \<in> set compliance_rules. set (er_controls r))"
proof -
  have "distinct (map cc_ID (concat (map er_controls compliance_rules)))" by (simp add: compliance_rules_def)
  then show ?thesis by (simp only: distinct_map set_concat set_map image_image image_UN)
qed

lemma triggered_controls: "snd ` set (triggered_by lower rules) = (\<Union>r \<in> {r \<in> set rules. rule_matches lower r}. set (er_controls r))"
  by (force simp: triggered_by_def)

lemma triggered_kept:
  "snd ` set (keep_new pair_ID {} (triggered_by lower compliance_rules)) = snd ` set (triggered_by lower compliance_rules)"
  by (rule keep_new_image) (rule inj_on_subset [OF compliance_controls_inj], auto simp: triggered_controls)

text \<open>The missing controls of a check, exactly.\<close>

lemma compliance_missing:
  "(\<exists>m \<in> set (cr_Missing (Check compliance_rules description declared)). c \<in> set (mp_Controls m)) \<longleftrightarrow>
     (\<exists>r \<in> set compliance_rules. rule_fires_on (strings_ToLower description) r \<and> c \<in> set (er_controls r)) \<and>
     cc_ID c \<notin> (\<lambda>d. strings_ToLower (strings_TrimSpace d)) ` set declared"
proof -
  let ?ps = "keep_new pair_ID {} (triggered_by (strings_ToLower description) compliance_rules)"
  have "(\<exists>m \<in> set (cr_Missing (Check compliance_rules description declared)). c \<in> set (mp_Controls m)) \<longleftrightarrow>
      (\<exists>p \<in> set ?ps. snd p = c \<and> \<not> strset_has (declared_set declared) (pair_ID p))"
    by (auto simp: Check_eq sortMappings_def to_mapping_def intro!: rev_bexI)
  also have "\<dots> \<longleftrightarrow> c \<in> snd ` set ?ps \<and> \<not> strset_has (declared_set declared) (cc_ID c)" by blast
  also have "c \<in> snd ` set ?ps \<longleftrightarrow> (\<exists>r \<in> set compliance_rules. rule_fires_on (strings_ToLower description) r \<and> c \<in> set (er_controls r))"
    unfolding triggered_kept triggered_controls using compliance_rule_matches by blast
  finally show ?thesis by (simp add: declared_set_iff)
qed

end
