(* ===== verification/Schema_Check.thy ===== *)
theory Schema_Check
  imports Go_Order Go_Sort
begin

text \<open>
  Schema validation of a model's output (\<open>schema/validator.go\<close>, layer 1 of the deterministic
  engine). The output is a decoded JSON object: a \<^verbatim>\<open>map[string]any\<close>. Only nested maps matter to the
  validator; every other value, arrays included, is a leaf. The orders in which Go ranges over the
  rules (for the partial match) and over the output are arguments.
\<close>

datatype gany = AMap "(string \<times> gany) list" | AOther string

record SchemaRule =
  sc_Entity :: string
  sc_RequiredFields :: "string list"
  sc_ForbiddenFields :: "string list"
  sc_MaxDepth :: int
  sc_AllowedTopLevel :: "string list"

record Violation =
  vi_Rule :: string
  vi_Field :: string
  vi_Message :: string

record SchemaReport =
  se_Violations :: "Violation list"
  se_Passed :: bool

type_synonym Validator = "(string, SchemaRule) gomap"

definition NewValidatorWithRules :: "SchemaRule list \<Rightarrow> Validator" where
  "NewValidatorWithRules rules = fold (\<lambda>r. gput (sc_Entity r) r) rules []"

fun value_depth :: "gany \<Rightarrow> int" where
  "value_depth (AMap m) = 1 + fold max (map (\<lambda>(k, v). value_depth v) m) 0"
| "value_depth (AOther _) = 0"

definition computeDepth :: "(string, gany) gomap \<Rightarrow> int" where
  "computeDepth m = value_depth (AMap m)"

text \<open>The rule for an entity: the exact one, or the first in the order of the range that contains it or is contained in it.\<close>

definition find_rule :: "string list \<Rightarrow> Validator \<Rightarrow> string \<Rightarrow> SchemaRule option" where
  "find_rule order v entity =
     (let lower = strings_ToLower entity in
      case gget v lower of
        Some r \<Rightarrow> Some r
      | None \<Rightarrow> (case find (\<lambda>k. strings_Contains lower k \<or> strings_Contains k lower) order of
                   Some k \<Rightarrow> gget v k | None \<Rightarrow> None))"

definition violation_less :: "Violation \<Rightarrow> Violation \<Rightarrow> bool" where
  "violation_less a b \<longleftrightarrow> (if vi_Rule a \<noteq> vi_Rule b then vi_Rule a < vi_Rule b else vi_Field a < vi_Field b)"

definition required_violation :: "string \<Rightarrow> Violation" where
  "required_violation field =
     \<lparr>vi_Rule = ''required_field'', vi_Field = field, vi_Message = ''required field '' @ strconv_Quote field @ '' is missing''\<rparr>"

definition forbidden_violation :: "string \<Rightarrow> Violation" where
  "forbidden_violation field =
     \<lparr>vi_Rule = ''forbidden_field'', vi_Field = field, vi_Message = ''forbidden field '' @ strconv_Quote field @ '' is present''\<rparr>"

definition unknown_violation :: "string \<Rightarrow> Violation" where
  "unknown_violation key =
     \<lparr>vi_Rule = ''unknown_field'', vi_Field = key, vi_Message = ''field '' @ strconv_Quote key @ '' is not in the allowed set''\<rparr>"

definition depth_violation :: "int \<Rightarrow> int \<Rightarrow> Violation" where
  "depth_violation actual maxd =
     \<lparr>vi_Rule = ''max_depth'', vi_Field = [],
      vi_Message = ''output depth '' @ strconv_Itoa actual @ '' exceeds maximum '' @ strconv_Itoa maxd\<rparr>"

text \<open>\<open>ks\<close> is the order in which the loop over the output visits its keys.\<close>

definition violations_of :: "string list \<Rightarrow> SchemaRule \<Rightarrow> (string, gany) gomap \<Rightarrow> Violation list" where
  "violations_of ks rule output =
     map required_violation (filter (\<lambda>f. gget output f = None) (sc_RequiredFields rule)) @
     map forbidden_violation (filter (\<lambda>f. gget output f \<noteq> None) (sc_ForbiddenFields rule)) @
     (if sc_AllowedTopLevel rule \<noteq> [] then map unknown_violation (filter (\<lambda>k. k \<notin> set (sc_AllowedTopLevel rule)) ks) else []) @
     (if 0 < sc_MaxDepth rule \<and> sc_MaxDepth rule < computeDepth output
      then [depth_violation (computeDepth output) (sc_MaxDepth rule)] else [])"

definition Validate :: "string list \<Rightarrow> string list \<Rightarrow> Validator \<Rightarrow> string \<Rightarrow> (string, gany) gomap \<Rightarrow> SchemaReport" where
  "Validate order ks v entity output =
     (case find_rule order v entity of
        None \<Rightarrow> \<lparr>se_Violations = [], se_Passed = True\<rparr>
      | Some rule \<Rightarrow>
          let vs = go_sort violation_less (violations_of ks rule output)
          in \<lparr>se_Violations = vs, se_Passed = (vs = [])\<rparr>)"

definition schema_rules :: "SchemaRule list" where
  "schema_rules =
     [\<lparr>sc_Entity = ''architecture'', sc_RequiredFields = [''components'', ''risks''], sc_ForbiddenFields = [], sc_MaxDepth = 5,
       sc_AllowedTopLevel = [''components'', ''risks'', ''controls'', ''threats'', ''description'', ''diagram'']\<rparr>,
      \<lparr>sc_Entity = ''finding'', sc_RequiredFields = [''severity'', ''message'', ''file''], sc_ForbiddenFields = [], sc_MaxDepth = 0,
       sc_AllowedTopLevel = []\<rparr>,
      \<lparr>sc_Entity = ''payment'', sc_RequiredFields = [''components''], sc_ForbiddenFields = [], sc_MaxDepth = 0, sc_AllowedTopLevel = []\<rparr>,
      \<lparr>sc_Entity = ''auth'', sc_RequiredFields = [''components''], sc_ForbiddenFields = [], sc_MaxDepth = 0, sc_AllowedTopLevel = []\<rparr>,
      \<lparr>sc_Entity = ''security_review'', sc_RequiredFields = [''findings'', ''summary''], sc_ForbiddenFields = [], sc_MaxDepth = 0,
       sc_AllowedTopLevel = [''findings'', ''summary'', ''recommendations'', ''risk_level'']\<rparr>,
      \<lparr>sc_Entity = ''vulnerability_report'', sc_RequiredFields = [''vulnerabilities'', ''summary''], sc_ForbiddenFields = [], sc_MaxDepth = 0,
       sc_AllowedTopLevel = [''vulnerabilities'', ''summary'', ''risk_score'', ''remediations'']\<rparr>]"

text \<open>The built-in map is keyed by the entity of each rule.\<close>

definition NewValidator :: Validator where
  "NewValidator = map (\<lambda>r. (sc_Entity r, r)) schema_rules"

subsection \<open>Validation does not depend on the order of the ranges\<close>

interpretation violations: less_function violation_less
  by unfold_locales (auto simp: violation_less_def split: if_splits)

text \<open>Rule and field name a violation.\<close>

definition violation_named :: "SchemaRule \<Rightarrow> (string, gany) gomap \<Rightarrow> string \<Rightarrow> string \<Rightarrow> Violation" where
  "violation_named rule output r f =
     (if r = ''required_field'' then required_violation f else if r = ''forbidden_field'' then forbidden_violation f
      else if r = ''unknown_field'' then unknown_violation f else depth_violation (computeDepth output) (sc_MaxDepth rule))"

lemma violation_shapes:
  "required_violation f = violation_named rule output (vi_Rule (required_violation f)) (vi_Field (required_violation f))"
  "forbidden_violation f = violation_named rule output (vi_Rule (forbidden_violation f)) (vi_Field (forbidden_violation f))"
  "unknown_violation f = violation_named rule output (vi_Rule (unknown_violation f)) (vi_Field (unknown_violation f))"
  "depth_violation (computeDepth output) (sc_MaxDepth rule) = violation_named rule output (vi_Rule (depth_violation (computeDepth output) (sc_MaxDepth rule))) []"
  by (simp_all add: violation_named_def required_violation_def forbidden_violation_def unknown_violation_def depth_violation_def)

lemma violation_shape:
  assumes "a \<in> set (violations_of ks rule output)"
  shows "a = violation_named rule output (vi_Rule a) (vi_Field a)"
proof -
  have "vi_Field (depth_violation x y) = []" for x y by (simp add: depth_violation_def)
  then have "(\<exists>f. a = required_violation f) \<or> (\<exists>f. a = forbidden_violation f) \<or> (\<exists>f. a = unknown_violation f) \<or>
      (a = depth_violation (computeDepth output) (sc_MaxDepth rule) \<and> vi_Field a = [])"
    using assms by (auto simp: violations_of_def split: if_splits)
  then show ?thesis using violation_shapes [where rule = rule] by metis
qed

lemma violations_determined:
  assumes "a \<in> set (violations_of ks rule output)" "b \<in> set (violations_of ks rule output)" "\<not> violation_less a b" "\<not> violation_less b a"
  shows "a = b"
proof -
  have "vi_Rule a = vi_Rule b" "vi_Field a = vi_Field b" using assms(3,4) by (auto simp: violation_less_def split: if_splits)
  with violation_shape [OF assms(1)] violation_shape [OF assms(2)] show ?thesis by metis
qed

lemma violations_mset:
  assumes "ranges ks output" "ranges ks' output"
  shows "mset (violations_of ks rule output) = mset (violations_of ks' rule output)"
proof -
  have "mset ks = mset ks'" using assms unfolding ranges_def by (metis set_eq_iff_mset_eq_distinct)
  then have "mset (filter P ks) = mset (filter P ks')" for P by simp
  then show ?thesis by (simp add: violations_of_def)
qed

lemma Validate_order:
  assumes "gget v (strings_ToLower entity) \<noteq> None" "ranges ks output" "ranges ks' output"
  shows "Validate order ks v entity output = Validate order' ks' v entity output"
proof -
  from assms(1) obtain r where "gget v (strings_ToLower entity) = Some r" by blast
  then have rule: "find_rule order v entity = Some r" "find_rule order' v entity = Some r" by (simp_all add: find_rule_def)
  have "go_sort violation_less (violations_of ks r output) = go_sort violation_less (violations_of ks' r output)"
    by (rule violations.go_sort_unique [OF violations_mset [OF assms(2,3)]]) (rule violations_determined)
  with rule show ?thesis by (simp add: Validate_def)
qed

lemma go_sort_Nil_iff [simp]: "go_sort lt xs = [] \<longleftrightarrow> xs = []"
  using length_go_sort [of lt xs] by (metis length_0_conv)

text \<open>When an output passes the rule it is checked against.\<close>

definition satisfies_rule :: "SchemaRule \<Rightarrow> (string, gany) gomap \<Rightarrow> bool" where
  "satisfies_rule rule output \<longleftrightarrow>
     set (sc_RequiredFields rule) \<subseteq> set (gkeys output) \<and> set (sc_ForbiddenFields rule) \<inter> set (gkeys output) = {} \<and>
     (sc_AllowedTopLevel rule = [] \<or> set (gkeys output) \<subseteq> set (sc_AllowedTopLevel rule)) \<and>
     (sc_MaxDepth rule \<le> 0 \<or> computeDepth output \<le> sc_MaxDepth rule)"

lemma violations_none: "ranges ks output \<Longrightarrow> violations_of ks rule output = [] \<longleftrightarrow> satisfies_rule rule output"
  by (auto simp: violations_of_def satisfies_rule_def ranges_def set_gkeys filter_empty_conv)

lemma Validate_passed:
  assumes "find_rule order v entity = Some rule" "ranges ks output"
  shows "se_Passed (Validate order ks v entity output) \<longleftrightarrow> satisfies_rule rule output"
  using assms violations_none [OF assms(2)] by (simp add: Validate_def Let_def)

end
