(* ===== verification/Validation_Pipeline.thy ===== *)
theory Validation_Pipeline
  imports Compliance Schema_Check
begin

text \<open>
  The validation pipeline (\<open>pipeline/pipeline.go\<close>): schema check, required controls, compliance
  and static analysis in sequence, with one verdict and the share of layers that passed. The source
  asks the context four times whether it was cancelled; \<open>cancelled i\<close> is the answer to the
  \<open>i\<close>-th question.
\<close>

record PipelineRequest =
  pq_Description :: string
  pq_Declared :: "string list"
  pq_Output :: "(string, gany) gomap"
  pq_Code :: string
  pq_Language :: string
  pq_Filename :: string

record LayerResult =
  lr_Name :: string
  lr_Passed :: bool
  lr_Skipped :: bool

record PipelineReport =
  pr_Passed :: bool
  pr_Confidence :: f64
  pr_Schema :: "SchemaReport option"
  pr_Requirements :: "RequirementsReport option"
  pr_Compliance :: "ComplianceReport option"
  pr_ScanResult :: "ScanReport option"
  pr_Layers :: "LayerResult list"
  pr_Reasons :: "string list"

record Pipeline =
  pl_validator :: Validator
  pl_requirements :: "Control entityRule list"
  pl_compliance :: "ComplianceControl entityRule list"
  pl_engine :: "Engine option"

text \<open>A nil component is replaced by the default one, except the engine.\<close>

definition NewPipeline :: "Validator option \<Rightarrow> Control entityRule list option \<Rightarrow> ComplianceControl entityRule list option \<Rightarrow> Engine option \<Rightarrow> Pipeline" where
  "NewPipeline v r c e =
     \<lparr>pl_validator = (case v of None \<Rightarrow> NewValidator | Some x \<Rightarrow> x),
      pl_requirements = (case r of None \<Rightarrow> requirement_rules | Some x \<Rightarrow> x),
      pl_compliance = (case c of None \<Rightarrow> compliance_rules | Some x \<Rightarrow> x), pl_engine = e\<rparr>"

definition inferEntity :: "string \<Rightarrow> string" where
  "inferEntity desc =
     (let lower = strings_ToLower desc in
      if strings_Contains lower ''payment'' \<or> strings_Contains lower ''card'' \<or> strings_Contains lower ''billing'' then ''payment''
      else if strings_Contains lower ''auth'' \<or> strings_Contains lower ''login'' \<or> strings_Contains lower ''identity'' then ''auth''
      else if strings_Contains lower ''security'' \<or> strings_Contains lower ''vulnerability'' then ''security_review''
      else ''architecture'')"

definition is_critical :: "Severity \<Rightarrow> bool" where
  "is_critical s \<longleftrightarrow> SeverityRank SeverityCritical \<le> SeverityRank s"

text \<open>A layer adds its result and reasons, and turns the verdict off when it did not pass.\<close>

definition record_layer :: "string \<Rightarrow> bool \<Rightarrow> string list \<Rightarrow> PipelineReport \<Rightarrow> PipelineReport" where
  "record_layer name passed reasons rep =
     rep\<lparr>pr_Layers := pr_Layers rep @ [\<lparr>lr_Name = name, lr_Passed = passed, lr_Skipped = False\<rparr>],
         pr_Passed := pr_Passed rep \<and> passed, pr_Reasons := pr_Reasons rep @ reasons\<rparr>"

definition schema_layer :: "string list \<Rightarrow> string list \<Rightarrow> Pipeline \<Rightarrow> PipelineRequest \<Rightarrow> PipelineReport \<Rightarrow> PipelineReport" where
  "schema_layer order ks p req rep =
     (if pq_Output req = [] then rep
      else let entity = (if pq_Description req \<noteq> [] then inferEntity (pq_Description req) else ''architecture'');
               schemaRep = Validate order ks (pl_validator p) entity (pq_Output req)
           in record_layer ''schema'' (se_Passed schemaRep)
                (if se_Passed schemaRep then [] else map (\<lambda>v. ''schema: '' @ vi_Message v) (se_Violations schemaRep))
                (rep\<lparr>pr_Schema := Some schemaRep\<rparr>))"

definition requirements_layer :: "Pipeline \<Rightarrow> PipelineRequest \<Rightarrow> PipelineReport \<Rightarrow> PipelineReport" where
  "requirements_layer p req rep =
     (let reqRep = Resolve (pl_requirements p) (pq_Description req) (pq_Declared req);
          bad = filter (\<lambda>m. is_critical (ct_Severity (rq_Control m))) (rr_Missing reqRep)
      in record_layer ''requirements'' (bad = []) (map (\<lambda>m. ''requirements: missing '' @ ct_ID (rq_Control m) @ '' (critical)'') bad)
           (rep\<lparr>pr_Requirements := Some reqRep\<rparr>))"

definition compliance_layer :: "Pipeline \<Rightarrow> PipelineRequest \<Rightarrow> PipelineReport \<Rightarrow> PipelineReport" where
  "compliance_layer p req rep =
     (let compRep = Check (pl_compliance p) (pq_Description req) (pq_Declared req);
          bad = filter (\<lambda>c. is_critical (cc_Severity c)) (concat (map mp_Controls (cr_Missing compRep)))
      in record_layer ''compliance'' (bad = []) (map (\<lambda>c. ''compliance: missing '' @ cc_ID c @ '' ('' @ cc_Framework c @ '')'') bad)
           (rep\<lparr>pr_Compliance := Some compRep\<rparr>))"

definition scan_layer :: "(string \<Rightarrow> string) \<Rightarrow> Pipeline \<Rightarrow> PipelineRequest \<Rightarrow> PipelineReport \<Rightarrow> PipelineReport" where
  "scan_layer sha p req rep =
     (if pq_Code req = [] then rep
      else case pl_engine p of
        Some e \<Rightarrow>
          let scanRep = scan_Run sha e \<lparr>in_Language = pq_Language req, in_Code = pq_Code req, in_Filename = pq_Filename req\<rparr>;
              bad = filter (\<lambda>f. is_critical (fi_Severity f)) (sr_Findings scanRep)
          in record_layer ''static_analysis'' (bad = []) (map (\<lambda>f. ''scan: '' @ fi_Message f @ '' at '' @ fi_Filename f) bad)
               (rep\<lparr>pr_ScanResult := Some scanRep\<rparr>)
      | None \<Rightarrow> rep\<lparr>pr_Layers := pr_Layers rep @ [\<lparr>lr_Name = ''static_analysis'', lr_Passed = False, lr_Skipped = True\<rparr>]\<rparr>)"

definition with_confidence :: "PipelineReport \<Rightarrow> PipelineReport" where
  "with_confidence rep =
     (let ran = filter (\<lambda>l. \<not> lr_Skipped l) (pr_Layers rep);
          passed = filter lr_Passed ran
      in if ran = [] then rep else rep\<lparr>pr_Confidence := fdiv (f_of_int (int (length passed))) (f_of_int (int (length ran)))\<rparr>)"

definition initial_report :: PipelineReport where
  "initial_report = \<lparr>pr_Passed = True, pr_Confidence = 0, pr_Schema = None, pr_Requirements = None, pr_Compliance = None,
     pr_ScanResult = None, pr_Layers = [], pr_Reasons = []\<rparr>"

definition pipeline_Run :: "(string \<Rightarrow> string) \<Rightarrow> string list \<Rightarrow> string list \<Rightarrow> (nat \<Rightarrow> bool) \<Rightarrow> Pipeline \<Rightarrow> PipelineRequest \<Rightarrow> PipelineReport" where
  "pipeline_Run sha order ks cancelled p req =
     (if cancelled 0 then initial_report
      else let rep1 = schema_layer order ks p req initial_report in
        if cancelled 1 then rep1
        else let rep2 = requirements_layer p req rep1 in
          if cancelled 2 then rep2
          else let rep3 = compliance_layer p req rep2 in
            if cancelled 3 then rep3 else with_confidence (scan_layer sha p req rep3))"

subsection \<open>The verdict\<close>

lemma is_critical_iff: "is_critical s \<longleftrightarrow> s = SeverityCritical"
  by (simp add: is_critical_def SeverityRank_def)

lemma record_layer_simps [simp]:
  "pr_Passed (record_layer n b rs rep) \<longleftrightarrow> pr_Passed rep \<and> b"
  "pr_Layers (record_layer n b rs rep) = pr_Layers rep @ [\<lparr>lr_Name = n, lr_Passed = b, lr_Skipped = False\<rparr>]"
  by (simp_all add: record_layer_def)

lemma with_confidence_simps [simp]: "pr_Passed (with_confidence rep) = pr_Passed rep" "pr_Layers (with_confidence rep) = pr_Layers rep"
  by (simp_all add: with_confidence_def Let_def)

definition scan_rejects :: "(string \<Rightarrow> string) \<Rightarrow> Pipeline \<Rightarrow> PipelineRequest \<Rightarrow> bool" where
  "scan_rejects sha p req \<longleftrightarrow> pq_Code req \<noteq> [] \<and> (\<exists>e f. pl_engine p = Some e \<and>
     f \<in> set (sr_Findings (scan_Run sha e \<lparr>in_Language = pq_Language req, in_Code = pq_Code req, in_Filename = pq_Filename req\<rparr>)) \<and>
     fi_Severity f = SeverityCritical)"

lemma scan_layer_passed: "pr_Passed (scan_layer sha p req rep) \<longleftrightarrow> pr_Passed rep \<and> \<not> scan_rejects sha p req"
  by (auto simp: scan_layer_def scan_rejects_def Let_def is_critical_iff filter_empty_conv split: option.splits)

lemma requirements_layer_passed:
  "pr_Passed (requirements_layer p req rep) \<longleftrightarrow>
     pr_Passed rep \<and> (\<forall>m \<in> set (rr_Missing (Resolve (pl_requirements p) (pq_Description req) (pq_Declared req))). ct_Severity (rq_Control m) \<noteq> SeverityCritical)"
  by (auto simp: requirements_layer_def Let_def is_critical_iff filter_empty_conv)

lemma compliance_layer_passed:
  "pr_Passed (compliance_layer p req rep) \<longleftrightarrow>
     pr_Passed rep \<and> (\<forall>m \<in> set (cr_Missing (Check (pl_compliance p) (pq_Description req) (pq_Declared req))). \<forall>c \<in> set (mp_Controls m). cc_Severity c \<noteq> SeverityCritical)"
  by (auto simp: compliance_layer_def Let_def is_critical_iff filter_empty_conv)

text \<open>The schema rule for a request: the entity is always one the built-in validator knows.\<close>

definition request_entity :: "PipelineRequest \<Rightarrow> string" where
  "request_entity req = (if pq_Description req \<noteq> [] then inferEntity (pq_Description req) else ''architecture'')"

lemma request_entity_cases: "request_entity req \<in> {''payment'', ''auth'', ''security_review'', ''architecture''}"
  by (simp add: request_entity_def inferEntity_def Let_def)

lemma known_entity: "e \<in> {''payment'', ''auth'', ''security_review'', ''architecture''} \<Longrightarrow> \<exists>rule. gget NewValidator e = Some rule \<and> strings_ToLower e = e"
proof -
  have "strings_ToLower ''payment'' = ''payment''" "strings_ToLower ''auth'' = ''auth''"
    "strings_ToLower ''security_review'' = ''security_review''" "strings_ToLower ''architecture'' = ''architecture''" by code_simp+
  moreover assume "e \<in> {''payment'', ''auth'', ''security_review'', ''architecture''}"
  ultimately show ?thesis by (auto simp: NewValidator_def schema_rules_def gget_def)
qed

definition output_rejected :: "PipelineRequest \<Rightarrow> bool" where
  "output_rejected req \<longleftrightarrow> pq_Output req \<noteq> [] \<and> (\<exists>rule. gget NewValidator (request_entity req) = Some rule \<and> \<not> satisfies_rule rule (pq_Output req))"

lemma schema_layer_passed:
  assumes "pl_validator p = NewValidator" "ranges ks (pq_Output req)"
  shows "pr_Passed (schema_layer order ks p req rep) \<longleftrightarrow> pr_Passed rep \<and> \<not> output_rejected req"
proof -
  obtain rule where rule: "gget NewValidator (request_entity req) = Some rule" "strings_ToLower (request_entity req) = request_entity req"
    using known_entity [OF request_entity_cases] by blast
  then have found: "find_rule order NewValidator (request_entity req) = Some rule" by (simp add: find_rule_def)
  show ?thesis
    using Validate_passed [OF found assms(2)] rule(1)
    by (auto simp: schema_layer_def output_rejected_def assms(1) Let_def simp flip: request_entity_def)
qed

abbreviation declared_ids :: "string list \<Rightarrow> string set" where
  "declared_ids ds \<equiv> (\<lambda>d. strings_ToLower (strings_TrimSpace d)) ` set ds"

lemma requirements_missing:
  "rq_Control ` set (rr_Missing (Resolve requirement_rules description declared)) =
     {c. (\<exists>r \<in> set requirement_rules. rule_fires_on (strings_ToLower description) r \<and> c \<in> set (er_controls r)) \<and> ct_ID c \<notin> declared_ids declared}"
proof -
  have "rq_Control ` set (rr_Missing (Resolve requirement_rules description declared)) =
      {c \<in> rq_Control ` set (keep_new req_ID {} (required_by (strings_ToLower description) requirement_rules)). \<not> strset_has (declared_set declared) (ct_ID c)}"
    by (auto simp: Resolve_eq Let_def)
  then show ?thesis unfolding required_kept required_controls declared_set_iff using requirement_rule_matches by blast
qed

text \<open>
  C24. What the verdict means. For the pipeline with the built-in rules, a run that is not cancelled
  passes exactly when the output satisfies the schema rule of the entity named in the description,
  every critical control of every requirement and compliance rule that fires on the description is
  declared, and the scan reports no critical finding. The verdict does not depend on the order in
  which the maps are ranged over.
\<close>

theorem pipeline_verdict:
  assumes "p = NewPipeline None None None eng" "ranges ks (pq_Output req)" "\<And>i. \<not> cancelled i"
  shows "pr_Passed (pipeline_Run sha order ks cancelled p req) \<longleftrightarrow>
    \<not> output_rejected req \<and>
    (\<forall>r \<in> set requirement_rules. \<forall>c \<in> set (er_controls r). rule_fires_on (strings_ToLower (pq_Description req)) r \<longrightarrow>
       ct_Severity c = SeverityCritical \<longrightarrow> ct_ID c \<in> declared_ids (pq_Declared req)) \<and>
    (\<forall>r \<in> set compliance_rules. \<forall>c \<in> set (er_controls r). rule_fires_on (strings_ToLower (pq_Description req)) r \<longrightarrow>
       cc_Severity c = SeverityCritical \<longrightarrow> cc_ID c \<in> declared_ids (pq_Declared req)) \<and>
    \<not> scan_rejects sha p req"
proof -
  have parts: "pl_validator p = NewValidator" "pl_requirements p = requirement_rules" "pl_compliance p = compliance_rules"
    by (simp_all add: assms(1) NewPipeline_def)
  have init: "pr_Passed initial_report" by (simp add: initial_report_def)
  have req: "(\<forall>m \<in> set (rr_Missing (Resolve requirement_rules d ds)). ct_Severity (rq_Control m) \<noteq> SeverityCritical) \<longleftrightarrow>
      (\<forall>r \<in> set requirement_rules. \<forall>c \<in> set (er_controls r). rule_fires_on (strings_ToLower d) r \<longrightarrow> ct_Severity c = SeverityCritical \<longrightarrow> ct_ID c \<in> declared_ids ds)"
    for d ds
  proof -
    have "(\<forall>m \<in> set (rr_Missing (Resolve requirement_rules d ds)). ct_Severity (rq_Control m) \<noteq> SeverityCritical) \<longleftrightarrow>
        (\<forall>c \<in> rq_Control ` set (rr_Missing (Resolve requirement_rules d ds)). ct_Severity c \<noteq> SeverityCritical)" by blast
    then show ?thesis unfolding requirements_missing by blast
  qed
  have com: "(\<forall>m \<in> set (cr_Missing (Check compliance_rules d ds)). \<forall>c \<in> set (mp_Controls m). cc_Severity c \<noteq> SeverityCritical) \<longleftrightarrow>
      (\<forall>r \<in> set compliance_rules. \<forall>c \<in> set (er_controls r). rule_fires_on (strings_ToLower d) r \<longrightarrow> cc_Severity c = SeverityCritical \<longrightarrow> cc_ID c \<in> declared_ids ds)"
    for d ds
    using compliance_missing [of d ds] by blast
  show ?thesis
    by (simp add: pipeline_Run_def assms(3) scan_layer_passed compliance_layer_passed requirements_layer_passed
        schema_layer_passed [OF parts(1) assms(2)] init parts req com)
qed

definition payment_request :: PipelineRequest where
  "payment_request = \<lparr>pq_Description = ''payment service'', pq_Declared = [''Encryption'', ''pci_encrypt''], pq_Output = [], pq_Code = [], pq_Language = [], pq_Filename = []\<rparr>"

theorem pipeline_verdict_witness:
  "\<not> pr_Passed (pipeline_Run (\<lambda>s. s) [] [] (\<lambda>_. False) (NewPipeline None None None None) payment_request) \<and>
   pr_Passed (pipeline_Run (\<lambda>s. s) [] [] (\<lambda>_. False) (NewPipeline None None None None) (payment_request\<lparr>pq_Declared := [''Encryption'', ''pci_encrypt'', ''pci_access '']\<rparr>))"
proof -
  have out: "ranges [] (pq_Output payment_request)" "ranges [] (pq_Output (payment_request\<lparr>pq_Declared := x\<rparr>))" for x
    by (simp_all add: ranges_def payment_request_def gkeys_def)
  have no_output: "output_rejected payment_request = False" "output_rejected (payment_request\<lparr>pq_Declared := x\<rparr>) = False"
    "scan_rejects sha p payment_request = False" "scan_rejects sha p (payment_request\<lparr>pq_Declared := x\<rparr>) = False" for x sha p
    by (simp_all add: output_rejected_def scan_rejects_def payment_request_def)
  show ?thesis unfolding pipeline_verdict [OF refl out(1), of "\<lambda>_. False", simplified] pipeline_verdict [OF refl out(2), of "\<lambda>_. False", simplified] no_output
    by code_simp
qed

text \<open>
  C28. The pipeline fails open. A run whose context is cancelled before the first layer reports that it
  passed, with no layer run. Code above the size limit of five megabytes is not scanned at all, and
  the static analysis layer is reported as run and passed, whatever the analyzers would find; so it
  is when every available analyzer fails.
\<close>

theorem pipeline_fails_open:
  assumes "pl_engine p = Some e" "pq_Code req \<noteq> []" "\<And>i. \<not> cancelled i"
    and "maxCodeSize < int (length (pq_Code req)) \<or>
      raw_findings e \<lparr>in_Language = pq_Language req, in_Code = pq_Code req, in_Filename = pq_Filename req\<rparr> = []"
  shows "pr_Passed (pipeline_Run sha order ks (\<lambda>_. True) p req) \<and> pr_Layers (pipeline_Run sha order ks (\<lambda>_. True) p req) = [] \<and>
    \<lparr>lr_Name = ''static_analysis'', lr_Passed = True, lr_Skipped = False\<rparr> \<in> set (pr_Layers (pipeline_Run sha order ks cancelled p req))"
proof -
  let ?inp = "\<lparr>in_Language = pq_Language req, in_Code = pq_Code req, in_Filename = pq_Filename req\<rparr>"
  have none: "sr_Findings (scan_Run sha e ?inp) = []"
  proof (cases "maxCodeSize < int (length (pq_Code req))")
    case True
    then show ?thesis by (simp add: scan_Run_def empty_report_def)
  next
    case False
    with assms(4) have "raw_findings e ?inp = []" by simp
    with False show ?thesis by (subst scan_findings) (simp_all add: mergeScoreAndFilter_def merge_all_def map_filter_simps)
  qed
  have "\<lparr>lr_Name = ''static_analysis'', lr_Passed = True, lr_Skipped = False\<rparr> \<in> set (pr_Layers (scan_layer sha p req rep))" for rep
    using assms(1,2) by (simp add: scan_layer_def none)
  then show ?thesis by (simp add: pipeline_Run_def assms(3) initial_report_def)
qed

definition large_request :: PipelineRequest where
  "large_request = payment_request\<lparr>pq_Code := replicate (nat (maxCodeSize + 1)) (CHR ''x'')\<rparr>"

theorem pipeline_fails_open_witness:
  "\<lparr>lr_Name = ''static_analysis'', lr_Passed = True, lr_Skipped = False\<rparr> \<in>
     set (pr_Layers (pipeline_Run (\<lambda>s. s) [] [] (\<lambda>_. False) (NewPipeline None None None (Some demo_scanner)) large_request))"
proof -
  have size: "int (length (pq_Code large_request)) = maxCodeSize + 1" by (simp add: large_request_def maxCodeSize_def)
  then have "pq_Code large_request \<noteq> []" by (auto simp: maxCodeSize_def)
  then show ?thesis
    using pipeline_fails_open [of "NewPipeline None None None (Some demo_scanner)" demo_scanner large_request "\<lambda>_. False"] size
    by (simp add: NewPipeline_def)
qed

text \<open>
  C17. From an analyzer to the verdict: when an available analyzer reports a critical finding in an
  ordinary file and no marker suppresses it, a run that is not cancelled does not pass, with any
  rule tables, given that the code is within the size limit and fingerprints tell places apart.
\<close>

theorem critical_code_rejected:
  assumes "inp = \<lparr>in_Language = pq_Language req, in_Code = pq_Code req, in_Filename = pq_Filename req\<rparr>"
    and "pl_engine p = Some e" "pq_Code req \<noteq> []" "\<And>i. \<not> cancelled i"
    and "int (length (in_Code inp)) \<le> maxCodeSize" "eg_minConfidence e \<le> fl (30 / 100)"
    and "a \<in> set (eg_analyzers e)" "an_Available a" "an_Analyze a inp = Inr fs" "f \<in> set fs" "fi_Severity f = SeverityCritical"
    and "contextPenalty (fi_Filename f) = 0" "\<not> isTestFile (fi_Filename f)" "\<not> isTestDataFile (fi_Filename f)"
    and "\<not> nosec_suppressed (strings_Split (in_Code inp) (CHR 0x0A)) f"
    and "\<And>g. g \<in> set (raw_findings e inp) \<Longrightarrow> fi_Fingerprint (with_fingerprint sha g) = fi_Fingerprint (with_fingerprint sha f) \<Longrightarrow>
      fi_Filename g = fi_Filename f \<and> fi_Line g = fi_Line f"
  shows "\<not> pr_Passed (pipeline_Run sha order ks cancelled p req)"
proof -
  obtain g where "g \<in> set (sr_Findings (scan_Run sha e inp))" "fi_Severity g = SeverityCritical"
    using critical_kept [OF assms(5-16)] by blast
  then have "scan_rejects sha p req" using assms(1-3) by (auto simp: scan_rejects_def)
  then show ?thesis by (simp add: pipeline_Run_def assms(4) scan_layer_passed)
qed

definition code_request :: PipelineRequest where
  "code_request = \<lparr>pq_Description = [], pq_Declared = [], pq_Output = [], pq_Code = ''q'', pq_Language = ''go'', pq_Filename = ''a.go''\<rparr>"

theorem critical_code_rejected_witness:
  "\<not> pr_Passed (pipeline_Run (\<lambda>s. s) [] [] (\<lambda>_. False) (NewPipeline None None None (Some demo_scanner)) code_request)"
proof -
  have inp: "demo_input = \<lparr>in_Language = pq_Language code_request, in_Code = pq_Code code_request, in_Filename = pq_Filename code_request\<rparr>"
    by (simp add: demo_input_def code_request_def)
  show ?thesis
    by (rule critical_code_rejected [OF inp, where e = demo_scanner and f = demo_finding and fs = "[demo_finding]" and a = "hd (eg_analyzers demo_scanner)"])
      (use demo_place demo_size in \<open>simp_all add: demo_raw\<close>,
        simp_all add: demo_scanner_def NewEngine_def NewPipeline_def demo_finding_def code_request_def)
qed

end
