(* ===== verification/Evidence_Score.thy ===== *)
theory Evidence_Score
  imports Scanner
begin

text \<open>
  The confidence engine (\<open>confidence/engine.go\<close>): evidence is counted by verdict and weighted
  into a score between 0 and 1, halved for every critical failure, with a grade and a reason.
\<close>

record Evidence =
  ev_Source :: string
  ev_Verdict :: string
  ev_Severity :: string
  ev_Detail :: string
  ev_Weight :: f64

record Score =
  cs_Confidence :: f64
  cs_Grade :: string
  cs_Passed :: int
  cs_Failed :: int
  cs_Warned :: int
  cs_Evidence :: "Evidence list"
  cs_Reason :: string

definition gradeFromScore :: "f64 \<Rightarrow> string" where
  "gradeFromScore score =
     (if fl (95 / 100) \<le> score then ''A+'' else if fl (90 / 100) \<le> score then ''A'' else if fl (80 / 100) \<le> score then ''B+''
      else if fl (70 / 100) \<le> score then ''B'' else if fl (60 / 100) \<le> score then ''C'' else if fl (50 / 100) \<le> score then ''D'' else ''F'')"

text \<open>The severities of this package are numbers: info, low, medium, high, critical are 0 to 4.\<close>

definition parseSeverity :: "string \<Rightarrow> int" where
  "parseSeverity s =
     (if s = ''critical'' then 4 else if s = ''high'' then 3 else if s = ''medium'' then 2 else if s = ''low'' then 1 else 0)"

definition worst_failure :: "Evidence list \<Rightarrow> int" where
  "worst_failure evs = foldl (\<lambda>worst ev. if ev_Verdict ev = ''fail'' \<and> worst < parseSeverity (ev_Severity ev) then parseSeverity (ev_Severity ev) else worst) 0 evs"

definition buildReason :: "Score \<Rightarrow> string" where
  "buildReason s =
     (if cs_Evidence s = [] then ''No evidence collected''
      else strings_Join
        ([strconv_Itoa (cs_Passed s) @ '' passed''] @
         (if 0 < cs_Failed s then [strconv_Itoa (cs_Failed s) @ '' failed''] else []) @
         (if 0 < cs_Warned s then [strconv_Itoa (cs_Warned s) @ '' warnings''] else []) @
         (if 4 \<le> worst_failure (cs_Evidence s) then [''critical issues found'']
          else if 3 \<le> worst_failure (cs_Evidence s) then [''high severity issues found''] else [])) '', '')"

definition count_verdict :: "string \<Rightarrow> Evidence list \<Rightarrow> int" where
  "count_verdict v evs = int (length (filter (\<lambda>ev. ev_Verdict ev = v) evs))"

text \<open>The weighting loop, with \<open>totalWeight\<close> and \<open>passedWeight\<close>.\<close>

definition weigh :: "f64 \<times> f64 \<Rightarrow> Evidence \<Rightarrow> f64 \<times> f64" where
  "weigh st ev =
     (let w = (if ev_Weight ev \<le> 0 then fl (5 / 10) else ev_Weight ev)
      in (fadd (fst st) w, if ev_Verdict ev = ''pass'' then fadd (snd st) w else snd st))"

definition penalize :: "f64 \<Rightarrow> Evidence \<Rightarrow> f64" where
  "penalize c ev = (if ev_Verdict ev = ''fail'' \<and> ev_Severity ev = ''critical'' then fmul c (fl (5 / 10)) else c)"

definition score_confidence :: "Evidence list \<Rightarrow> f64" where
  "score_confidence evs =
     (let (totalWeight, passedWeight) = foldl weigh (0, 0) evs;
          c = (if 0 < totalWeight then fdiv passedWeight totalWeight else 1)
      in max 0 (min 1 (foldl penalize c evs)))"

definition score_Score :: "Evidence list \<Rightarrow> Score" where
  "score_Score evs =
     (if evs = [] then \<lparr>cs_Confidence = 1, cs_Grade = ''A+'', cs_Passed = 0, cs_Failed = 0, cs_Warned = 0, cs_Evidence = [], cs_Reason = ''No evidence collected''\<rparr>
      else let s = \<lparr>cs_Confidence = score_confidence evs, cs_Grade = gradeFromScore (score_confidence evs), cs_Passed = count_verdict ''pass'' evs,
                    cs_Failed = count_verdict ''fail'' evs, cs_Warned = count_verdict ''warn'' evs, cs_Evidence = evs, cs_Reason = []\<rparr>
           in s\<lparr>cs_Reason := buildReason s\<rparr>)"

definition finding_verdict :: "Severity \<Rightarrow> string" where
  "finding_verdict sev =
     (if sev = SeverityCritical \<or> sev = SeverityHigh then ''fail'' else if sev = SeverityMedium then ''warn'' else ''pass'')"

definition ScoreFromFindings :: "Finding list \<Rightarrow> Score" where
  "ScoreFromFindings findings =
     score_Score (map (\<lambda>f. \<lparr>ev_Source = ''scan'', ev_Verdict = finding_verdict (fi_Severity f), ev_Severity = fi_Severity f,
       ev_Detail = fi_Message f, ev_Weight = fl (8 / 10)\<rparr>) findings)"

definition evidence_less :: "Evidence \<Rightarrow> Evidence \<Rightarrow> bool" where
  "evidence_less a b \<longleftrightarrow>
     (let si = parseSeverity (ev_Severity a); sj = parseSeverity (ev_Severity b)
      in if si \<noteq> sj then sj < si else ev_Source a < ev_Source b)"

definition SortEvidence :: "Evidence list \<Rightarrow> Evidence list" where
  "SortEvidence evs = go_sort evidence_less evs"

subsection \<open>Lemmas\<close>

interpretation evidence: less_function evidence_less
proof
  show "\<not> evidence_less b a" if "evidence_less a b" for a b
    using that by (auto simp: evidence_less_def Let_def split: if_splits)
  show "evidence_less a b \<or> evidence_less b c" if "evidence_less a c" for a b c
    using that by (auto simp: evidence_less_def Let_def split: if_splits)
qed

lemma weigh_invariant:
  assumes "0 \<le> snd st" "snd st \<le> fst st" "is_f64 (fst st)"
  shows "0 \<le> snd (foldl weigh st evs) \<and> snd (foldl weigh st evs) \<le> fst (foldl weigh st evs)"
  using assms
proof (induction evs arbitrary: st)
  case (Cons ev evs)
  define w where "w = (if ev_Weight ev \<le> 0 then fl (5 / 10) else ev_Weight ev)"
  have w: "0 \<le> w" by (simp add: w_def fl_nonneg)
  have step: "weigh st ev = (fadd (fst st) w, if ev_Verdict ev = ''pass'' then fadd (snd st) w else snd st)" by (simp add: weigh_def w_def Let_def)
  have up: "fst st \<le> fadd (fst st) w" using Cons.prems(3) w by (rule fadd_ge)
  have "0 \<le> fadd (snd st) w" using Cons.prems(1) w by (simp add: fadd_def fl_nonneg)
  then have "0 \<le> snd (weigh st ev)" "snd (weigh st ev) \<le> fst (weigh st ev)" "is_f64 (fst (weigh st ev))"
    using Cons.prems up fadd_mono [OF Cons.prems(2) order_refl, of w] by (auto simp: step)
  from Cons.IH [OF this] show ?case by simp
qed simp

lemma fmul_half_le: "0 \<le> c \<Longrightarrow> c \<le> 1 \<Longrightarrow> 0 \<le> fmul c (fl (5 / 10)) \<and> fmul c (fl (5 / 10)) \<le> fl (5 / 10) \<and> fmul c (fl (5 / 10)) \<le> 1"
proof -
  assume c: "0 \<le> c" "c \<le> 1"
  have h: "0 \<le> fl (5 / 10)" "fl (5 / 10) \<le> 1" using fl_mono [of "5 / 10" 1] by (simp_all add: fl_nonneg)
  have "fl (c * fl (5 / 10)) \<le> fl (1 * fl (5 / 10))" using c h by (intro fl_mono mult_right_mono)
  with c h show ?thesis by (simp add: fmul_def fl_nonneg)
qed

lemma penalize_range: "0 \<le> c \<Longrightarrow> c \<le> 1 \<Longrightarrow> 0 \<le> foldl penalize c evs \<and> foldl penalize c evs \<le> 1"
proof (induction evs arbitrary: c)
  case (Cons ev evs)
  with fmul_half_le have "0 \<le> penalize c ev \<and> penalize c ev \<le> 1" by (simp add: penalize_def)
  with Cons.IH show ?case by simp
qed simp

lemma half_le: "fmul c (fl (5 / 10)) \<le> fl (5 / 10)" if "0 \<le> c" "c \<le> 1"
  using fmul_half_le [OF that] by simp

lemma penalize_half:
  assumes "0 \<le> c" "c \<le> fl (5 / 10)"
  shows "foldl penalize c evs \<le> fl (5 / 10)"
  using assms
proof (induction evs arbitrary: c)
  case (Cons ev evs)
  have "fl (5 / 10) \<le> 1" using fl_mono [of "5 / 10" 1] by simp
  with Cons.prems fmul_half_le [of c] have "0 \<le> penalize c ev" "penalize c ev \<le> fl (5 / 10)" by (simp_all add: penalize_def)
  from Cons.IH [OF this] show ?case by simp
qed simp

lemma penalize_critical:
  assumes "0 \<le> c" "c \<le> 1" "ev \<in> set evs" "ev_Verdict ev = ''fail''" "ev_Severity ev = ''critical''"
  shows "foldl penalize c evs \<le> fl (5 / 10)"
proof -
  obtain xs ys where evs: "evs = xs @ ev # ys" using assms(3) by (meson split_list)
  have "0 \<le> foldl penalize c xs" "foldl penalize c xs \<le> 1" using penalize_range [OF assms(1,2)] by blast+
  then have "0 \<le> penalize (foldl penalize c xs) ev" "penalize (foldl penalize c xs) ev \<le> fl (5 / 10)"
    using fmul_half_le assms(4,5) by (simp_all add: penalize_def)
  from penalize_half [OF this] show ?thesis by (simp add: evs)
qed

lemma weighted_range:
  "0 \<le> (let (t, p) = foldl weigh (0, 0) evs in if 0 < t then fdiv p t else 1) \<and>
   (let (t, p) = foldl weigh (0, 0) evs in if 0 < t then fdiv p t else 1) \<le> 1"
proof -
  obtain t p where tp: "foldl weigh (0, 0) evs = (t, p)" by fastforce
  have "0 \<le> p" "p \<le> t" using weigh_invariant [of "(0, 0)" evs] tp by simp_all
  moreover have "fl (p / t) \<le> fl 1" if "0 < t" using that \<open>p \<le> t\<close> by (intro fl_mono) simp
  ultimately show ?thesis by (simp add: tp fdiv_def fl_nonneg)
qed

lemma low_grades: "fl (5 / 10) < fl (60 / 100)" "fl (5 / 10) < fl (70 / 100)" "fl (5 / 10) < fl (80 / 100)" "fl (5 / 10) < fl (90 / 100)" "fl (5 / 10) < fl (95 / 100)"
proof -
  have half: "fl (5 / 10) = 1 / 2" "fl (9 / 16) = 9 / 16"
    using fl_value [of "1 / 2" 53 4503599627370496] fl_value [of "9 / 16" 53 5066549580791808] by simp_all
  have above: "fl (5 / 10) < fl x" if "9 / 16 \<le> x" for x using fl_mono [OF that] by (simp only: half)
  show "fl (5 / 10) < fl (60 / 100)" "fl (5 / 10) < fl (70 / 100)" "fl (5 / 10) < fl (80 / 100)" "fl (5 / 10) < fl (90 / 100)" "fl (5 / 10) < fl (95 / 100)"
    by (rule above; simp)+
qed

lemma grade_half: "gradeFromScore (fl (5 / 10)) = ''D''"
  using low_grades by (simp add: gradeFromScore_def)

lemma grade_zero: "gradeFromScore 0 = ''F''"
proof -
  have "0 < fl (5 / 10)" using fl_value [of "1 / 2" 53 4503599627370496] by simp
  then show ?thesis using low_grades by (simp add: gradeFromScore_def)
qed

text \<open>
  A critical failure is never outweighed: with one in the evidence the confidence lies between 0
  and one half and the grade is D or F, however much other evidence passes.
\<close>

theorem critical_failure_caps_score:
  assumes "ev \<in> set evs" "ev_Verdict ev = ''fail''" "ev_Severity ev = ''critical''"
  shows "0 \<le> cs_Confidence (score_Score evs) \<and> cs_Confidence (score_Score evs) \<le> fl (5 / 10) \<and>
    (cs_Grade (score_Score evs) = ''D'' \<or> cs_Grade (score_Score evs) = ''F'') \<and> 0 < cs_Failed (score_Score evs)"
proof -
  define c where "c = (let (t, p) = foldl weigh (0, 0) evs in if 0 < t then fdiv p t else 1)"
  have c: "0 \<le> c" "c \<le> 1" using weighted_range [of evs] by (simp_all add: c_def)
  have half: "foldl penalize c evs \<le> fl (5 / 10)" using penalize_critical [OF c assms] .
  have score: "score_confidence evs = max 0 (min 1 (foldl penalize c evs))"
    by (simp add: score_confidence_def c_def Let_def split: prod.splits)
  have "0 \<le> fl (5 / 10)" by (simp add: fl_nonneg)
  with half have capped: "score_confidence evs \<le> fl (5 / 10)" by (simp add: score)
  have "evs \<noteq> []" using assms(1) by auto
  moreover have "0 < count_verdict ''fail'' evs" using assms(1,2) by (force simp: count_verdict_def filter_empty_conv)
  moreover have "0 \<le> score_confidence evs" by (simp add: score)
  moreover have "gradeFromScore (score_confidence evs) \<in> {''D'', ''F''}"
    unfolding gradeFromScore_def using order_le_less_trans [OF capped] low_grades by (simp add: not_le)
  ultimately show ?thesis using capped by (simp add: score_Score_def Let_def)
qed

definition demo_evidence :: "Evidence list" where
  "demo_evidence =
     [\<lparr>ev_Source = ''scan'', ev_Verdict = ''pass'', ev_Severity = ''low'', ev_Detail = [], ev_Weight = 1\<rparr>,
      \<lparr>ev_Source = ''scan'', ev_Verdict = ''fail'', ev_Severity = ''critical'', ev_Detail = [], ev_Weight = 0\<rparr>]"

theorem critical_failure_caps_score_witness:
  "cs_Confidence (score_Score demo_evidence) \<le> fl (5 / 10) \<and> cs_Failed (score_Score demo_evidence) = 1"
  using critical_failure_caps_score [of "demo_evidence ! 1" demo_evidence]
  by (simp add: demo_evidence_def score_Score_def Let_def count_verdict_def)

text \<open>
  Findings of low severity count as passing evidence, so they raise the score: a lone high finding
  is graded F, the same finding with a low one beside it D.
\<close>

lemma low_findings_raise_grade:
  "cs_Grade (ScoreFromFindings [demo_finding\<lparr>fi_Severity := SeverityHigh\<rparr>]) = ''F'' \<and>
   cs_Grade (ScoreFromFindings [demo_finding\<lparr>fi_Severity := SeverityHigh\<rparr>, demo_finding\<lparr>fi_Severity := SeverityLow\<rparr>]) = ''D''"
proof -
  have half: "fl (1 / 2) = 1 / 2" using fl_value [of "1 / 2" 53 4503599627370496] by simp
  have eight: "fadd 0 (fl (8 / 10)) = fl (8 / 10)" "0 < fl (8 / 10)" by (simp_all add: fadd_def) (simp add: fl_constants)
  have "fl (2 * (3602879701896397 / 4503599627370496)) = 2 * (3602879701896397 / 4503599627370496)"
    using fl_value [of "2 * (3602879701896397 / 4503599627370496)" 52 7205759403792794] by simp
  then have "fadd (fl (8 / 10)) (fl (8 / 10)) = 2 * fl (8 / 10)" by (simp add: fadd_def fl_constants)
  with eight have "fadd (fadd 0 (fl (8 / 10))) (fl (8 / 10)) = 2 * fl (8 / 10)" "fadd 0 (fl (8 / 10)) = fl (8 / 10)" "0 < fl (8 / 10)"
    "gradeFromScore 0 = ''F''" "gradeFromScore (max 0 (min 1 (fl (1 / 2)))) = ''D''"
    using grade_half by (simp_all add: grade_zero half)
  then show ?thesis
    by (simp add: ScoreFromFindings_def score_Score_def score_confidence_def weigh_def penalize_def finding_verdict_def severity_defs Let_def fdiv_def)
qed

end
