(* ===== verification/Attack_Graph.thy ===== *)
theory Attack_Graph
  imports Keyword_Match Go_Order
begin

text \<open>
  Attack paths (\<open>attackgraph/graph.go\<close>): each finding is held against a rule table; a matching
  rule yields its path once, and a generic path stands for findings that match nothing. The
  free-form metadata of requests, paths and steps is reduced to what the code writes: the title of
  the finding, the entity and the number of rules.
\<close>

record AttackStep =
  as_Index :: int
  as_Action :: string
  as_Vector :: string
  as_Entity :: string
  as_Finding :: string
  as_Prerequisite :: string

record AttackPath =
  ap_ID :: string
  ap_Name :: string
  ap_Description :: string
  ap_Steps :: "AttackStep list"
  ap_Impact :: string
  ap_Severity :: string
  ap_Confidence :: f64
  ap_finding :: "string option"

record FindingInput =
  fp_Title :: string
  fp_Description :: string
  fp_Severity :: string
  fp_Category :: string
  fp_File :: string
  fp_Line :: int

record FindingsRequest =
  fr_Description :: string
  fr_Findings :: "FindingInput list"
  fr_Entity :: string

record GraphResponse =
  gr_Paths :: "AttackPath list"
  gr_Summary :: string
  gr_entity :: string
  gr_rules :: nat

record graphRule =
  gu_entity :: string
  gu_finding :: string
  gu_pathName :: string
  gu_impact :: string
  gu_severity :: string
  gu_steps :: "AttackStep list"

definition matchesRule :: "graphRule \<Rightarrow> string \<Rightarrow> FindingInput \<Rightarrow> bool" where
  "matchesRule rule entity f \<longleftrightarrow>
     (gu_entity rule = [] \<or> ContainsWord entity (gu_entity rule)) \<and>
     (gu_finding rule = [] \<or> ContainsWord (strings_ToLower (fp_Title f)) (gu_finding rule))"

definition path_id :: "string \<Rightarrow> string" where
  "path_id name = map (\<lambda>c. if c = CHR '' '' then CHR ''-'' else c) (strings_ToLower name)"

definition buildPath :: "graphRule \<Rightarrow> FindingInput \<Rightarrow> AttackPath" where
  "buildPath rule f =
     \<lparr>ap_ID = path_id (gu_pathName rule), ap_Name = gu_pathName rule, ap_Description = ''Attack path via '' @ fp_Title f,
      ap_Steps = gu_steps rule, ap_Impact = gu_impact rule, ap_Severity = gu_severity rule, ap_Confidence = fl (6 / 10),
      ap_finding = Some (fp_Title f)\<rparr>"

definition attack_step :: "int \<Rightarrow> string \<Rightarrow> string \<Rightarrow> string \<Rightarrow> AttackStep" where
  "attack_step i act vec pre =
     \<lparr>as_Index = i, as_Action = act, as_Vector = vec, as_Entity = [], as_Finding = [], as_Prerequisite = pre\<rparr>"

definition genericPath :: "FindingsRequest \<Rightarrow> AttackPath option" where
  "genericPath req =
     (case fr_Findings req of
        [] \<Rightarrow> None
      | f # _ \<Rightarrow> Some
          \<lparr>ap_ID = ''generic-exploitation'', ap_Name = ''Generic Exploitation Path'',
           ap_Description = ''Potential exploitation via: '' @ fp_Title f,
           ap_Steps = [attack_step 1 ''Discover vulnerability'' (fp_Title f) [], attack_step 2 ''Craft exploit'' ''custom'' [],
             attack_step 3 ''Execute attack'' (fp_Severity f) []],
           ap_Impact = fp_Severity f, ap_Severity = fp_Severity f, ap_Confidence = fl (4 / 10), ap_finding = None\<rparr>)"

definition graph_inferEntity :: "string \<Rightarrow> string" where
  "graph_inferEntity desc =
     (let lower = strings_ToLower desc in
      if strings_Contains lower ''payment'' then ''payment''
      else if strings_Contains lower ''auth'' \<or> strings_Contains lower ''login'' then ''auth''
      else if strings_Contains lower ''database'' \<or> strings_Contains lower ''db'' then ''database''
      else if strings_Contains lower ''user'' then ''user''
      else if strings_Contains lower ''api'' then ''api''
      else ''general'')"

text \<open>\<open>summarize\<close> reads the first byte of the entity: None is the panic on an empty one.\<close>

definition summarize :: "AttackPath list \<Rightarrow> string \<Rightarrow> string option" where
  "summarize paths entity =
     (if paths = [] then Some ''No attack paths identified''
      else case entity of
        [] \<Rightarrow> None
      | c # rest \<Rightarrow> Some ((ascii_upper c # rest) @ '': '' @ strconv_Itoa (int (length paths)) @ '' attack path(s) identified''))"

definition graph_buildRules :: "graphRule list" where
  "graph_buildRules =
     [\<lparr>gu_entity = ''payment'', gu_finding = ''sql injection'', gu_pathName = ''Payment Data Exfiltration'', gu_impact = ''PCI-DSS breach'', gu_severity = ''critical'',
       gu_steps =
        [attack_step 1 ''Identify injection point'' ''SQL Injection'' ''Accessible payment endpoint'',
         attack_step 2 ''Craft malicious query'' ''SQL Injection'' [],
         attack_step 3 ''Extract payment data'' ''Data Exfiltration'' [],
         attack_step 4 ''Exfiltrate card data'' ''PCI-DSS impact'' []]\<rparr>,
      \<lparr>gu_entity = ''auth'', gu_finding = ''broken authentication'', gu_pathName = ''Authentication Bypass'', gu_impact = ''Account takeover'', gu_severity = ''critical'',
       gu_steps =
        [attack_step 1 ''Identify auth weakness'' ''Broken Authentication'' [],
         attack_step 2 ''Exploit vulnerability'' ''Session Hijack'' [],
         attack_step 3 ''Escalate privileges'' ''Privilege Escalation'' []]\<rparr>,
      \<lparr>gu_entity = ''auth'', gu_finding = ''credential leak'', gu_pathName = ''Credential Harvesting'', gu_impact = ''Account compromise'', gu_severity = ''high'',
       gu_steps =
        [attack_step 1 ''Locate exposed credentials'' ''Information Disclosure'' [],
         attack_step 2 ''Use credentials'' ''Credential Stuffing'' [],
         attack_step 3 ''Access protected resources'' ''Unauthorized Access'' []]\<rparr>,
      \<lparr>gu_entity = ''api'', gu_finding = ''missing rate limit'', gu_pathName = ''API Abuse Path'', gu_impact = ''Service degradation'', gu_severity = ''high'',
       gu_steps =
        [attack_step 1 ''Identify unprotected endpoints'' ''Missing Rate Limit'' [],
         attack_step 2 ''Launch brute force'' ''Brute Force'' [],
         attack_step 3 ''Extract data or disrupt service'' ''Denial of Service'' []]\<rparr>,
      \<lparr>gu_entity = ''payment'', gu_finding = ''hardcoded secret'', gu_pathName = ''Secret Extraction'', gu_impact = ''System compromise'', gu_severity = ''high'',
       gu_steps =
        [attack_step 1 ''Source code access'' ''Code Repository'' [],
         attack_step 2 ''Extract secret'' ''Hardcoded Secret'' [],
         attack_step 3 ''Use secret for unauthorized access'' ''Unauthorized Access'' []]\<rparr>]"

text \<open>The two nested loops, with \<open>paths\<close> and \<open>seen\<close>.\<close>

definition add_path :: "string \<Rightarrow> FindingInput \<Rightarrow> graphRule \<Rightarrow> AttackPath list \<times> strset \<Rightarrow> AttackPath list \<times> strset" where
  "add_path entity f rule st =
     (let (paths, seen) = st in
      if matchesRule rule entity f
      then let path = buildPath rule f in
        if strset_has seen (ap_ID path) then (paths, seen) else (paths @ [path], strset_add (ap_ID path) seen)
      else (paths, seen))"

definition request_graph_entity :: "FindingsRequest \<Rightarrow> string" where
  "request_graph_entity req =
     (let entity = strings_ToLower (strings_TrimSpace (fr_Entity req)) in if entity = [] then graph_inferEntity (fr_Description req) else entity)"

definition Generate :: "graphRule list \<Rightarrow> FindingsRequest \<Rightarrow> GraphResponse option" where
  "Generate rules req =
     (let entity = request_graph_entity req;
          paths0 = fst (fold (\<lambda>f st. fold (add_path entity f) rules st) (fr_Findings req) ([], []));
          paths = (if paths0 = [] \<and> fr_Findings req \<noteq> [] then (case genericPath req of None \<Rightarrow> [] | Some p \<Rightarrow> [p]) else paths0)
      in case summarize paths entity of
           None \<Rightarrow> None
         | Some s \<Rightarrow> Some \<lparr>gr_Paths = paths, gr_Summary = s, gr_entity = entity, gr_rules = length rules\<rparr>)"

subsection \<open>Lemmas\<close>

lemma request_graph_entity_nonempty: "request_graph_entity req \<noteq> []"
  by (simp add: request_graph_entity_def graph_inferEntity_def Let_def)

text \<open>The loops keep the first path of each ID.\<close>

definition candidate_paths :: "string \<Rightarrow> graphRule list \<Rightarrow> FindingInput list \<Rightarrow> AttackPath list" where
  "candidate_paths entity rules fs = concat (map (\<lambda>f. map (\<lambda>r. buildPath r f) (filter (\<lambda>r. matchesRule r entity f) rules)) fs)"

lemma add_path_fold:
  "fold (add_path entity f) rules (paths, seen) =
     prod.swap (fold (first_step ap_ID (\<lambda>p ps. ps @ [p])) (map (\<lambda>r. buildPath r f) (filter (\<lambda>r. matchesRule r entity f) rules)) (seen, paths))"
proof (induction rules arbitrary: paths seen)
  case (Cons r rules)
  then show ?case by (simp add: add_path_def first_step_def Let_def)
qed simp

lemma paths_fold:
  "fst (fold (\<lambda>f st. fold (add_path entity f) rules st) fs (paths, seen)) =
     snd (fold (first_step ap_ID (\<lambda>p ps. ps @ [p])) (candidate_paths entity rules fs) (seen, paths))"
proof (induction fs arbitrary: paths seen)
  case (Cons f fs)
  obtain s' p' where st: "fold (first_step ap_ID (\<lambda>p ps. ps @ [p])) (map (\<lambda>r. buildPath r f) (filter (\<lambda>r. matchesRule r entity f) rules)) (seen, paths) = (s', p')"
    by fastforce
  with Cons.IH [of p' s'] show ?case by (simp add: add_path_fold candidate_paths_def)
qed (simp add: candidate_paths_def)

lemma fold_append: "fold (\<lambda>p ps. ps @ [p]) xs acc = acc @ xs"
  by (induction xs arbitrary: acc) simp_all

lemma paths_eq: "fst (fold (\<lambda>f st. fold (add_path entity f) rules st) fs ([], [])) = keep_new ap_ID {} (candidate_paths entity rules fs)"
  using fold_first [of ap_ID "\<lambda>p ps. ps @ [p]" "candidate_paths entity rules fs" "[]" "[]"]
  by (auto simp: paths_fold fold_append)

text \<open>
  Attack path generation always returns. Without findings there is no path. With findings there
  is at least one; the paths have distinct IDs, and they are the first path of each matching pair of
  finding and rule, or the generic path for the first finding when no rule matches any.
\<close>

theorem attack_paths_exact:
  "\<exists>resp. Generate rules req = Some resp \<and> distinct (map ap_ID (gr_Paths resp)) \<and>
     (gr_Paths resp = [] \<longleftrightarrow> fr_Findings req = []) \<and>
     gr_Paths resp =
       (if candidate_paths (request_graph_entity req) rules (fr_Findings req) = [] then (case genericPath req of None \<Rightarrow> [] | Some p \<Rightarrow> [p])
        else keep_new ap_ID {} (candidate_paths (request_graph_entity req) rules (fr_Findings req)))"
proof -
  let ?c = "candidate_paths (request_graph_entity req) rules (fr_Findings req)"
  define paths where "paths = (if ?c = [] then (case genericPath req of None \<Rightarrow> [] | Some p \<Rightarrow> [p]) else keep_new ap_ID {} ?c)"
  have nil: "keep_new ap_ID {} ?c = [] \<longleftrightarrow> ?c = []" by (cases ?c) simp_all
  have empty: "paths = [] \<longleftrightarrow> fr_Findings req = []"
  proof (cases "fr_Findings req = []")
    case True
    then show ?thesis by (simp add: paths_def genericPath_def candidate_paths_def)
  next
    case False
    then show ?thesis using nil by (auto simp: paths_def genericPath_def split: list.splits)
  qed
  have dist: "distinct (map ap_ID paths)" by (simp add: paths_def keep_new_distinct split: option.splits)
  obtain s where s: "summarize paths (request_graph_entity req) = Some s"
    using request_graph_entity_nonempty [of req] by (cases "request_graph_entity req"; cases "paths = []") (simp_all add: summarize_def)
  have "(if keep_new ap_ID {} ?c = [] \<and> fr_Findings req \<noteq> [] then (case genericPath req of None \<Rightarrow> [] | Some p \<Rightarrow> [p]) else keep_new ap_ID {} ?c) = paths"
    unfolding paths_def nil by (cases "fr_Findings req") (simp_all add: genericPath_def candidate_paths_def)
  with s have "Generate rules req = Some \<lparr>gr_Paths = paths, gr_Summary = s, gr_entity = request_graph_entity req, gr_rules = length rules\<rparr>"
    unfolding Generate_def Let_def paths_eq by simp
  with dist empty show ?thesis by (simp add: paths_def)
qed

end
