(* ===== verification/Skill_Engine.thy ===== *)
theory Skill_Engine
  imports Go_Order Go_Sort Float64
begin

text \<open>
  The skill registry (\<open>skillengine/engine.go\<close>). Two Go maps point at the same skill objects: one
  by skill ID, one by trigger; the objects are the cells of a heap (a list that only grows), the maps
  hold their addresses, so an update through one map is seen through the other. SHA-256 in
  hexadecimal is the argument \<open>sha\<close>; clock readings are arguments, one per call of \<^verbatim>\<open>time.Now\<close>.
\<close>

record Skill =
  sk_ID :: string
  sk_Name :: string
  sk_Trigger :: string
  sk_Fix :: string
  sk_Verification :: string
  sk_Evidence :: "string list"
  sk_Confidence :: f64
  sk_UsageCount :: int
  sk_SuccessRate :: f64
  sk_CreatedAt :: gotime
  sk_UpdatedAt :: gotime

record SkillFinding =
  sf_Severity :: string
  sf_Message :: string
  sf_Filename :: string
  sf_Line :: int
  sf_Fix :: string
  sf_Analyzers :: "string list"
  sf_Confidence :: f64

record SkillRank =
  rk_SkillID :: string
  rk_UsageCount :: int
  rk_SuccessRate :: f64
  rk_Score :: f64

record SkillEngine =
  eng_heap :: "Skill list"
  eng_skills :: "(string, nat) gomap"
  eng_triggers :: "(string, nat) gomap"

definition NewSkillEngine :: SkillEngine where
  "NewSkillEngine = \<lparr>eng_heap = [], eng_skills = [], eng_triggers = []\<rparr>"

text \<open>The loop of \<open>normalizeTrigger\<close>; the first argument is \<open>prevSpace\<close>.\<close>

fun normalize_from :: "bool \<Rightarrow> string \<Rightarrow> string" where
  "normalize_from prevSpace [] = []"
| "normalize_from prevSpace (c # cs) =
     (if 65 \<le> (of_char c :: nat) \<and> (of_char c :: nat) \<le> 90 then char_of ((of_char c :: nat) + 32) # normalize_from False cs
      else if c = CHR '' '' \<or> c = CHR 0x09 \<or> c = CHR 0x0A
      then (if prevSpace then normalize_from True cs else CHR '' '' # normalize_from True cs)
      else c # normalize_from False cs)"

definition normalizeTrigger :: "string \<Rightarrow> string" where
  "normalizeTrigger msg = normalize_from False msg"

definition generateSkillID :: "(string \<Rightarrow> string) \<Rightarrow> SkillFinding \<Rightarrow> string" where
  "generateSkillID sha f = ''skill-'' @ take 32 (sha (sf_Message f @ ''|'' @ sf_Fix f @ ''|'' @ sf_Filename f @ ''|'' @ strconv_Itoa (sf_Line f)))"

definition new_skill :: "(string \<Rightarrow> string) \<Rightarrow> gotime \<Rightarrow> gotime \<Rightarrow> SkillFinding \<Rightarrow> Skill" where
  "new_skill sha t1 t2 f =
     \<lparr>sk_ID = generateSkillID sha f, sk_Name = sf_Message f, sk_Trigger = normalizeTrigger (sf_Message f), sk_Fix = sf_Fix f,
      sk_Verification = ''verify: '' @ sf_Fix f, sk_Evidence = sf_Analyzers f, sk_Confidence = sf_Confidence f, sk_UsageCount = 1,
      sk_SuccessRate = 0, sk_CreatedAt = t1, sk_UpdatedAt = t2\<rparr>"

definition used_again :: "gotime \<Rightarrow> Skill \<Rightarrow> Skill" where
  "used_again now s = s\<lparr>sk_UsageCount := sk_UsageCount s + 1, sk_UpdatedAt := now\<rparr>"

definition ExtractFromFinding :: "(string \<Rightarrow> string) \<Rightarrow> gotime \<Rightarrow> gotime \<Rightarrow> SkillFinding \<Rightarrow> SkillEngine \<Rightarrow> SkillEngine \<times> Skill \<times> bool" where
  "ExtractFromFinding sha t1 t2 f e =
     (let trigger = normalizeTrigger (sf_Message f) in
      case gget (eng_triggers e) trigger of
        Some r \<Rightarrow>
          let s = used_again t1 (eng_heap e ! r) in (e\<lparr>eng_heap := (eng_heap e)[r := s]\<rparr>, s, False)
      | None \<Rightarrow>
          let s = new_skill sha t1 t2 f; r = length (eng_heap e)
          in (e\<lparr>eng_heap := eng_heap e @ [s], eng_skills := gput (sk_ID s) r (eng_skills e), eng_triggers := gput trigger r (eng_triggers e)\<rparr>, s, True))"

definition outcome :: "gotime \<Rightarrow> bool \<Rightarrow> Skill \<Rightarrow> Skill" where
  "outcome now accepted s =
     (let alpha = fl (1 / 10);
          rate = (if accepted then fadd (fmul (sk_SuccessRate s) (fsub 1 alpha)) alpha else fmul (sk_SuccessRate s) (fsub 1 alpha));
          weight = (if sk_UsageCount s < 5 then fl (3 / 10) else fl (7 / 10))
      in s\<lparr>sk_SuccessRate := rate, sk_Confidence := fadd (fmul (sk_Confidence s) (fsub 1 weight)) (fmul rate weight), sk_UpdatedAt := now\<rparr>)"

definition RecordOutcome :: "gotime \<Rightarrow> string \<Rightarrow> bool \<Rightarrow> SkillEngine \<Rightarrow> SkillEngine" where
  "RecordOutcome now skillID accepted e =
     (case gget (eng_skills e) skillID of
        None \<Rightarrow> e
      | Some r \<Rightarrow> e\<lparr>eng_heap := (eng_heap e)[r := outcome now accepted (eng_heap e ! r)]\<rparr>)"

definition FindByTrigger :: "string \<Rightarrow> SkillEngine \<Rightarrow> Skill option" where
  "FindByTrigger trigger e = map_option ((!) (eng_heap e)) (gget (eng_triggers e) (normalizeTrigger trigger))"

definition scoreSkill :: "Skill \<Rightarrow> f64" where
  "scoreSkill s =
     (let u = fdiv (f_of_int (sk_UsageCount s)) 100; usageScore = (if 1 < u then 1 else u)
      in fadd (fadd (fmul (fl (4 / 10)) (sk_Confidence s)) (fmul (fl (3 / 10)) usageScore)) (fmul (fl (3 / 10)) (sk_SuccessRate s)))"

text \<open>\<open>ids\<close> is the order of the range over the skills.\<close>

definition skills_in :: "string list \<Rightarrow> SkillEngine \<Rightarrow> Skill list" where
  "skills_in ids e = List.map_filter (\<lambda>i. map_option ((!) (eng_heap e)) (gget (eng_skills e) i)) ids"

definition GetAllSkills :: "string list \<Rightarrow> SkillEngine \<Rightarrow> Skill list" where
  "GetAllSkills ids e = go_sort (\<lambda>a b. scoreSkill b < scoreSkill a) (skills_in ids e)"

definition skill_Rank :: "string list \<Rightarrow> SkillEngine \<Rightarrow> SkillRank list" where
  "skill_Rank ids e =
     go_sort (\<lambda>a b. rk_Score b < rk_Score a)
       (map (\<lambda>s. \<lparr>rk_SkillID = sk_ID s, rk_UsageCount = sk_UsageCount s, rk_SuccessRate = sk_SuccessRate s, rk_Score = scoreSkill s\<rparr>) (skills_in ids e))"

definition skill_Count :: "SkillEngine \<Rightarrow> int" where
  "skill_Count e = glen (eng_skills e)"

subsection \<open>Bounds\<close>

definition unit_interval :: "f64 \<Rightarrow> bool" where
  "unit_interval x \<longleftrightarrow> 0 \<le> x \<and> x \<le> 1"

lemma complements:
  "fsub 1 (fl (1 / 10)) = 8106479329266893 / 9007199254740992" "fsub 1 (fl (3 / 10)) = 3152519739159347 / 4503599627370496"
  "fsub 1 (fl (7 / 10)) = 1351079888211149 / 4503599627370496"
  using fl_value [of "1 - fl (1 / 10)" 53 8106479329266893] fl_value [of "1 - fl (3 / 10)" 53 6305039478318694]
    fl_value [of "1 - fl (7 / 10)" 54 5404319552844596] by (simp_all add: fl_constants fsub_def)

lemma mix_bounds: "fl (fl (fsub 1 (fl (1 / 10))) + fl (1 / 10)) \<le> 1" "fl (fl (fsub 1 (fl (3 / 10))) + fl (fl (3 / 10))) \<le> 1"
  "fl (fl (fsub 1 (fl (7 / 10))) + fl (fl (7 / 10))) \<le> 1" "0 \<le> fsub 1 (fl (1 / 10))" "0 \<le> fsub 1 (fl (3 / 10))" "0 \<le> fsub 1 (fl (7 / 10))"
proof -
  have idem: "fl (fsub a b) = fsub a b" for a b by (simp add: fsub_def)
  have round: "fl (36028797018963969 / 36028797018963968) = 1" "fl (18014398509481983 / 18014398509481984) \<le> 1"
    using fl_value [of "36028797018963969 / 36028797018963968" 52 "4503599627370496"] fl_mono [of "18014398509481983 / 18014398509481984" 1] by simp_all
  show "fl (fl (fsub 1 (fl (1 / 10))) + fl (1 / 10)) \<le> 1" "fl (fl (fsub 1 (fl (3 / 10))) + fl (fl (3 / 10))) \<le> 1"
    "fl (fl (fsub 1 (fl (7 / 10))) + fl (fl (7 / 10))) \<le> 1"
    unfolding idem fl_idem unfolding complements unfolding fl_constants using round by simp_all
qed (simp_all add: complements)

text \<open>A weighted mean of two numbers of the unit interval, rounded at each step, stays there.\<close>

lemma fmul_le: "0 \<le> x \<Longrightarrow> x \<le> 1 \<Longrightarrow> 0 \<le> w \<Longrightarrow> 0 \<le> fmul x w \<and> fmul x w \<le> fl w"
proof -
  assume x: "0 \<le> x" "x \<le> 1" and w: "0 \<le> w"
  have "x * w \<le> 1 * w" using x w by (intro mult_right_mono)
  then have "fl (x * w) \<le> fl (1 * w)" by (rule fl_mono)
  moreover have "0 \<le> fl (x * w)" using fl_mono [of 0 "x * w"] x w by simp
  ultimately show ?thesis by (simp add: fmul_def)
qed

lemma fadd_unit: "0 \<le> a \<Longrightarrow> a \<le> a' \<Longrightarrow> 0 \<le> b \<Longrightarrow> b \<le> b' \<Longrightarrow> fl (a' + b') \<le> 1 \<Longrightarrow> unit_interval (fadd a b)"
  using fl_mono [of "a + b" "a' + b'"] fl_mono [of 0 "a + b"] by (simp add: unit_interval_def fadd_def)

lemma outcome_bounds:
  assumes "unit_interval (sk_SuccessRate s)" "unit_interval (sk_Confidence s)"
  shows "unit_interval (sk_SuccessRate (outcome now accepted s)) \<and> unit_interval (sk_Confidence (outcome now accepted s))"
proof -
  define rate where "rate = sk_SuccessRate (outcome now accepted s)"
  have nn: "0 \<le> fl (1 / 10)" "0 \<le> fl (3 / 10)" "0 \<le> fl (7 / 10)" by (simp_all add: fl_constants)
  have old: "0 \<le> fmul (sk_SuccessRate s) (fsub 1 (fl (1 / 10)))" "fmul (sk_SuccessRate s) (fsub 1 (fl (1 / 10))) \<le> fl (fsub 1 (fl (1 / 10)))"
    using fmul_le [of "sk_SuccessRate s" "fsub 1 (fl (1 / 10))"] assms(1) mix_bounds(4) by (auto simp: unit_interval_def)
  have le1: "fl (fsub 1 (fl (1 / 10))) \<le> 1" by (simp add: fsub_def) (simp add: complements(1) flip: fsub_def)
  have rate: "unit_interval rate"
  proof (cases accepted)
    case True
    then show ?thesis using fadd_unit [OF old nn(1) order_refl mix_bounds(1)] by (simp add: rate_def outcome_def Let_def)
  next
    case False
    then show ?thesis using old le1 by (simp add: rate_def outcome_def Let_def unit_interval_def)
  qed
  define w where "w = (if sk_UsageCount s < 5 then fl (3 / 10) else fl (7 / 10))"
  have w: "0 \<le> w" "0 \<le> fsub 1 w" "fl (fl (fsub 1 w) + fl w) \<le> 1" using mix_bounds nn by (auto simp: w_def)
  have "unit_interval (fadd (fmul (sk_Confidence s) (fsub 1 w)) (fmul rate w))"
    using fmul_le [of "sk_Confidence s" "fsub 1 w"] fmul_le [of rate w] rate assms(2) w
    by (intro fadd_unit [where a' = "fl (fsub 1 w)" and b' = "fl w"]) (auto simp: unit_interval_def)
  moreover have "sk_Confidence (outcome now accepted s) = fadd (fmul (sk_Confidence s) (fsub 1 w)) (fmul rate w)"
    by (simp add: outcome_def Let_def w_def rate_def)
  ultimately show ?thesis using rate by (simp add: rate_def)
qed

subsection \<open>Usage\<close>

datatype skill_op = Extract gotime gotime SkillFinding | Outcome gotime string bool

fun skill_step :: "(string \<Rightarrow> string) \<Rightarrow> skill_op \<Rightarrow> SkillEngine \<Rightarrow> SkillEngine" where
  "skill_step sha (Extract t1 t2 f) e = fst (ExtractFromFinding sha t1 t2 f e)"
| "skill_step sha (Outcome t i b) e = RecordOutcome t i b e"

definition skill_run :: "(string \<Rightarrow> string) \<Rightarrow> skill_op list \<Rightarrow> SkillEngine" where
  "skill_run sha ops = fold (skill_step sha) ops NewSkillEngine"

text \<open>How often findings with a trigger were extracted.\<close>

fun extracts :: "string \<Rightarrow> skill_op \<Rightarrow> bool" where
  "extracts trig (Extract _ _ f) \<longleftrightarrow> normalizeTrigger (sf_Message f) = trig"
| "extracts trig (Outcome _ _ _) \<longleftrightarrow> False"

definition uses :: "string \<Rightarrow> skill_op list \<Rightarrow> int" where
  "uses trig ops = int (length (filter (extracts trig) ops))"

fun op_ok :: "skill_op \<Rightarrow> bool" where
  "op_ok (Extract _ _ f) \<longleftrightarrow> unit_interval (sf_Confidence f)"
| "op_ok (Outcome _ _ _) \<longleftrightarrow> True"

fun entry_ok :: "Skill list \<Rightarrow> string \<Rightarrow> int \<Rightarrow> nat option \<Rightarrow> bool" where
  "entry_ok h trig n None \<longleftrightarrow> n = 0"
| "entry_ok h trig n (Some r) \<longleftrightarrow> r < length h \<and> sk_Trigger (h ! r) = trig \<and> sk_UsageCount (h ! r) = n \<and> 0 < n"

definition skill_inv :: "skill_op list \<Rightarrow> SkillEngine \<Rightarrow> bool" where
  "skill_inv ops e \<longleftrightarrow>
     (\<forall>trig. entry_ok (eng_heap e) trig (uses trig ops) (gget (eng_triggers e) trig)) \<and>
     (\<forall>i r. gget (eng_skills e) i = Some r \<longrightarrow> r < length (eng_heap e)) \<and>
     (\<forall>r < length (eng_heap e). unit_interval (sk_SuccessRate (eng_heap e ! r)) \<and> unit_interval (sk_Confidence (eng_heap e ! r)))"

lemma uses_snoc: "uses trig (ops @ [x]) = uses trig ops + (if extracts trig x then 1 else 0)"
  by (simp add: uses_def)

lemma uses_nonneg: "0 \<le> uses trig ops"
  by (simp add: uses_def)

text \<open>An update of one cell that keeps its trigger.\<close>

lemma skill_inv_cell:
  assumes "skill_inv ops e" "r < length (eng_heap e)" "sk_Trigger s = sk_Trigger (eng_heap e ! r)"
    and "unit_interval (sk_SuccessRate s)" "unit_interval (sk_Confidence s)"
    and "\<And>trig. uses trig ops' = uses trig ops + (if gget (eng_triggers e) trig = Some r then sk_UsageCount s - sk_UsageCount (eng_heap e ! r) else 0)"
    and "sk_UsageCount (eng_heap e ! r) \<le> sk_UsageCount s"
  shows "skill_inv ops' (e\<lparr>eng_heap := (eng_heap e)[r := s]\<rparr>)"
proof -
  have trig: "entry_ok ((eng_heap e)[r := s]) trig (uses trig ops') (gget (eng_triggers e) trig)" for trig
  proof -
    have old: "entry_ok (eng_heap e) trig (uses trig ops) (gget (eng_triggers e) trig)" using assms(1) by (simp add: skill_inv_def)
    show ?thesis
    proof (cases "gget (eng_triggers e) trig")
      case None
      with old assms(6) show ?thesis by simp
    next
      case (Some q)
      with old assms(3,6,7) show ?thesis by (cases "q = r") auto
    qed
  qed
  moreover have "unit_interval (sk_SuccessRate ((eng_heap e)[r := s] ! q)) \<and> unit_interval (sk_Confidence ((eng_heap e)[r := s] ! q))"
    if "q < length (eng_heap e)" for q
    using assms(1,4,5) that by (cases "q = r") (auto simp: skill_inv_def)
  ultimately show ?thesis using assms(1) by (simp add: skill_inv_def)
qed

lemma skill_inv_step:
  assumes "skill_inv ops e" "op_ok x"
  shows "skill_inv (ops @ [x]) (skill_step sha x e)"
proof (cases x)
  case (Outcome t i b)
  then have same: "uses trig (ops @ [x]) = uses trig ops" for trig by (simp add: uses_snoc)
  show ?thesis
  proof (cases "gget (eng_skills e) i")
    case None
    with Outcome same assms(1) show ?thesis by (simp add: RecordOutcome_def skill_inv_def)
  next
    case (Some r)
    then have r: "r < length (eng_heap e)" using assms(1) by (auto simp: skill_inv_def)
    then have "unit_interval (sk_SuccessRate (eng_heap e ! r))" "unit_interval (sk_Confidence (eng_heap e ! r))"
      using assms(1) by (auto simp: skill_inv_def)
    note bounds = outcome_bounds [OF this, of t b]
    have kept: "sk_Trigger (outcome t b s) = sk_Trigger s" "sk_UsageCount (outcome t b s) = sk_UsageCount s" for s
      by (simp_all add: outcome_def Let_def)
    have "skill_inv (ops @ [x]) (e\<lparr>eng_heap := (eng_heap e)[r := outcome t b (eng_heap e ! r)]\<rparr>)"
      using bounds kept same by (intro skill_inv_cell [OF assms(1) r]) simp_all
    with Outcome Some show ?thesis by (simp add: RecordOutcome_def)
  qed
next
  case (Extract t1 t2 f)
  let ?t = "normalizeTrigger (sf_Message f)"
  have step: "uses trig (ops @ [x]) = uses trig ops + (if trig = ?t then 1 else 0)" for trig using Extract by (auto simp: uses_snoc)
  show ?thesis
  proof (cases "gget (eng_triggers e) ?t")
    case (Some r)
    have entry: "entry_ok (eng_heap e) trig (uses trig ops) (gget (eng_triggers e) trig)" for trig using assms(1) by (simp add: skill_inv_def)
    from entry [of ?t] Some have r: "r < length (eng_heap e)" and tr: "sk_Trigger (eng_heap e ! r) = ?t" by auto
    have only: "gget (eng_triggers e) trig = Some r \<longleftrightarrow> trig = ?t" for trig using entry [of trig] tr Some by auto
    have "skill_inv (ops @ [x]) (e\<lparr>eng_heap := (eng_heap e)[r := used_again t1 (eng_heap e ! r)]\<rparr>)"
      using assms(1) r step only by (intro skill_inv_cell [OF assms(1) r]) (auto simp: used_again_def skill_inv_def)
    with Extract Some show ?thesis by (simp add: ExtractFromFinding_def Let_def)
  next
    case None
    let ?s = "new_skill sha t1 t2 f" and ?h = "eng_heap e"
    have entry: "entry_ok (?h @ [?s]) trig (uses trig (ops @ [x])) (gget (gput ?t (length ?h) (eng_triggers e)) trig)" for trig
    proof -
      have old: "entry_ok ?h trig (uses trig ops) (gget (eng_triggers e) trig)" using assms(1) by (simp add: skill_inv_def)
      show ?thesis
      proof (cases "trig = ?t")
        case True
        with old None show ?thesis by (simp add: step new_skill_def)
      next
        case False
        with old step show ?thesis by (cases "gget (eng_triggers e) trig") (simp_all add: nth_append)
      qed
    qed
    have "unit_interval 0" by (simp add: unit_interval_def)
    then have "unit_interval (sk_SuccessRate ((?h @ [?s]) ! r)) \<and> unit_interval (sk_Confidence ((?h @ [?s]) ! r))" if "r < Suc (length ?h)" for r
      using assms Extract that by (cases "r = length ?h") (auto simp: skill_inv_def new_skill_def nth_append)
    with entry assms(1) Extract None show ?thesis
      by (auto simp: ExtractFromFinding_def Let_def skill_inv_def less_Suc_eq)
  qed
qed

lemma skill_run_inv: "list_all op_ok ops \<Longrightarrow> skill_inv ops (skill_run sha ops)"
proof (induction ops rule: rev_induct)
  case Nil
  show ?case by (simp add: skill_inv_def skill_run_def NewSkillEngine_def uses_def)
next
  case (snoc x ops)
  then show ?case using skill_inv_step [of ops "skill_run sha ops" x sha] by (simp add: skill_run_def)
qed

text \<open>
  The registry learns: after any sequence of extractions and outcomes, looking up a message finds
  a skill exactly when a finding with the same normalized message was extracted, and the usage count
  of the skill is the number of those extractions, whatever outcomes were recorded in between. Its
  success rate and confidence stay between 0 and 1, as those of the findings.
\<close>

theorem skill_usage_exact:
  assumes "list_all op_ok ops"
  shows "case FindByTrigger msg (skill_run sha ops) of
      None \<Rightarrow> uses (normalizeTrigger msg) ops = 0
    | Some s \<Rightarrow> 0 < uses (normalizeTrigger msg) ops \<and> sk_UsageCount s = uses (normalizeTrigger msg) ops \<and>
        sk_Trigger s = normalizeTrigger msg \<and> unit_interval (sk_SuccessRate s) \<and> unit_interval (sk_Confidence s)"
proof -
  let ?e = "skill_run sha ops"
  have inv: "skill_inv ops ?e" by (rule skill_run_inv [OF assms])
  then have entry: "entry_ok (eng_heap ?e) (normalizeTrigger msg) (uses (normalizeTrigger msg) ops) (gget (eng_triggers ?e) (normalizeTrigger msg))"
    by (simp add: skill_inv_def)
  show ?thesis
  proof (cases "gget (eng_triggers ?e) (normalizeTrigger msg)")
    case None
    with entry show ?thesis by (simp add: FindByTrigger_def)
  next
    case (Some r)
    with entry inv show ?thesis by (simp add: FindByTrigger_def skill_inv_def)
  qed
qed

definition demo_skill_finding :: "string \<Rightarrow> SkillFinding" where
  "demo_skill_finding m = \<lparr>sf_Severity = ''high'', sf_Message = m, sf_Filename = ''a.go'', sf_Line = 1, sf_Fix = ''bind'', sf_Analyzers = [], sf_Confidence = 1\<rparr>"

theorem skill_usage_exact_witness:
  "\<exists>s. FindByTrigger ''sql  injection'' (skill_run (\<lambda>s. s) [Extract 0 0 (demo_skill_finding ''SQL injection''), Extract 1 1 (demo_skill_finding ''sql Injection'')]) = Some s \<and>
     sk_UsageCount s = 2"
proof -
  define ops where "ops = [Extract 0 0 (demo_skill_finding ''SQL injection''), Extract 1 1 (demo_skill_finding ''sql Injection'')]"
  have ok: "list_all op_ok ops" by (simp add: ops_def demo_skill_finding_def unit_interval_def)
  have n: "uses (normalizeTrigger ''sql  injection'') ops = 2" unfolding ops_def by code_simp
  from skill_usage_exact [OF ok, of "''sql  injection''" "\<lambda>s. s"] n show ?thesis
    unfolding ops_def [symmetric] by (auto split: option.splits)
qed

end
