(* ===== verification/Review_Props.thy ===== *)
theory Review_Props
  imports Review_Pipeline
begin

text \<open>
  Properties of the review pipeline: how many model calls a review makes, when it rewrites code, and
  what its report says. The calls are read off the list of tasks that the model threads.
\<close>

subsection \<open>Model calls\<close>

lemma ask_tasks: "ask llm task st = (a, st') \<Longrightarrow> snd st' = snd st @ [task]"
  by (auto simp: ask_def Let_def split: prod.splits)

text \<open>\<open>sends st st' ts\<close>: going from one state to the other the tasks \<open>ts\<close> were sent.\<close>

definition sends :: "'w llm_state \<Rightarrow> 'w llm_state \<Rightarrow> LlmTask list \<Rightarrow> bool" where
  "sends st st' ts \<longleftrightarrow> snd st' = snd st @ ts"

lemma sends_refl: "sends st st []"
  by (simp add: sends_def)

lemma sends_ask: "ask llm task st = (a, st') \<Longrightarrow> sends st st' [task]"
  by (simp add: sends_def ask_tasks)

lemma sends_trans: "sends st st' ts \<Longrightarrow> sends st' st'' us \<Longrightarrow> sends st st'' (ts @ us)"
  by (simp add: sends_def)

lemma sends_none: "\<exists>ts. sends st st ts \<and> length ts \<le> n"
  by (rule exI [of _ "[]"]) (simp add: sends_refl)

lemma sends_one: "ask llm task st = (a, st') \<Longrightarrow> \<exists>ts. sends st st' ts \<and> length ts \<le> 1"
  by (rule exI [of _ "[task]"]) (simp add: sends_ask)

lemma main_response_sends:
  assumes "main_response env szp req st = (r, st')"
  shows "\<exists>ts. sends st st' ts \<and> length ts \<le> 1"
proof (cases "rv_Code req \<noteq> [] \<or> sz_DeterministicOnly szp \<or> rv_llm env = None")
  case True
  with assms have "st' = st" by (auto simp: main_response_def runMainLLM_def split: if_splits)
  then show ?thesis using sends_none by simp
next
  case False
  then obtain llm where "rv_llm env = Some llm" by auto
  with False assms obtain task a where "ask llm task st = (a, st')"
    by (auto simp: main_response_def runMainLLM_def Let_def split: prod.splits sum.splits)
  then show ?thesis by (rule sends_one)
qed

lemma runSingleReviewer_sends:
  assumes "runSingleReviewer router ctx prompt d st = (r, st')"
  shows "\<exists>ts. sends st st' ts \<and> length ts \<le> 1"
proof (cases router)
  case None
  with assms have "st' = st" by (simp add: runSingleReviewer_def)
  then show ?thesis using sends_none by simp
next
  case (Some llm)
  with assms obtain task a where "ask llm task st = (a, st')"
    by (auto simp: runSingleReviewer_def Let_def split: prod.splits sum.splits)
  then show ?thesis by (rule sends_one)
qed

lemma runReviewers_sends: "runReviewers router ctx prompt ds st = (rs, st') \<Longrightarrow> \<exists>ts. sends st st' ts \<and> length ts \<le> length ds"
proof (induction ds arbitrary: st rs)
  case Nil
  then have "st' = st" by simp
  then show ?case by (simp add: sends_refl)
next
  case (Cons d ds)
  from Cons.prems obtain r st1 rs' where 1: "runSingleReviewer router ctx prompt d st = (r, st1)" and 2: "runReviewers router ctx prompt ds st1 = (rs', st')"
    by (auto simp: Let_def split: prod.splits)
  obtain ts us where "sends st st1 ts" "length ts \<le> 1" "sends st1 st' us" "length us \<le> length ds"
    using runSingleReviewer_sends [OF 1] Cons.IH [OF 2] by blast
  then show ?case by (intro exI [of _ "ts @ us"]) (auto intro: sends_trans)
qed

lemma reviewers_sends:
  assumes "runSingleCallReviewers env ctx prompt st = (rs, st')"
  shows "\<exists>ts. sends st st' ts \<and> length ts \<le> 1 + length (rv_finish env)"
proof (cases "rv_llm env")
  case None
  with assms have "runReviewers None ctx prompt (rv_finish env) st = (rs, st')" by (simp add: runSingleCallReviewers_def)
  from runReviewers_sends [OF this] show ?thesis by (auto intro: le_SucI)
next
  case (Some llm)
  define task where "task = review_task ''reviewers-single-call'' ''security'' ''5-role review in a single LLM call'' [''review'', ''single-call'']
    [chat_message ''system'' singleCallReviewerInstructions, chat_message ''user'' (''Original developer request: '' @ prompt @ nl @ nl @ ''<CODE>'' @ nl @ ctx @ nl @ ''</CODE>'')]"
  obtain a st1 where a: "ask llm task st = (a, st1)" by (cases "ask llm task st")
  have one: "sends st st1 [task]" using sends_ask [OF a] .
  have cases: "st' = st1 \<or> runReviewers (Some llm) ctx prompt (rv_finish env) st1 = (rs, st')"
    using assms Some a unfolding runSingleCallReviewers_def task_def [symmetric]
    by (auto split: sum.splits option.splits prod.splits)
  then show ?thesis
  proof
    assume "st' = st1"
    with one show ?thesis by (intro exI [of _ "[task]"]) simp
  next
    assume "runReviewers (Some llm) ctx prompt (rv_finish env) st1 = (rs, st')"
    from runReviewers_sends [OF this] obtain us where "sends st1 st' us" "length us \<le> length (rv_finish env)" by blast
    with sends_trans [OF one, of st' us] show ?thesis by (intro exI [of _ "[task] @ us"]) simp
  qed
qed

lemma runSecurityFix_sends:
  "runSecurityFix router code fs rs st = (r, st') \<Longrightarrow>
     (if router = None then sends st st' [] else \<exists>task. sends st st' [task] \<and> tk_ID task = ''security-fix'')"
  by (cases router) (auto simp: runSecurityFix_def sends_refl review_task_def Let_def split: prod.splits sum.splits dest!: sends_ask intro!: exI)

text \<open>The loop: at most \<open>left\<close> calls, as many retries as it made, and evidence that only grows.\<close>

lemma fix_loop_facts:
  assumes "fix_loop env e language filename rs retry left code fs rep st = ((final, rep'), st')"
  shows "(\<exists>ts. sends st st' ts \<and> length ts \<le> left) \<and> rp_Retries rep' \<le> rp_Retries rep + left \<and>
    (\<exists>evs. rp_Evidence rep' = rp_Evidence rep @ evs) \<and> rp_AttackPaths rep' = rp_AttackPaths rep \<and> rp_Suggestions rep' = rp_Suggestions rep \<and>
    (rp_Confidence rep = Some (score_Score (rp_Evidence rep)) \<longrightarrow> rp_Confidence rep' = Some (score_Score (rp_Evidence rep')))"
  using assms
proof (induction env e language filename rs retry left code fs rep st arbitrary: final rule: fix_loop.induct)
  case (1 env e language filename reviewers retry code findings rep st)
  then have "st' = st" "rep' = rep" by simp_all
  then show ?case by (simp add: sends_refl)
next
  case (2 env e language filename reviewers retry left code findings rep st)
  obtain r st1 where fix1: "runSecurityFix (rv_llm env) code findings reviewers st = (r, st1)"
    by (cases "runSecurityFix (rv_llm env) code findings reviewers st")
  have one: "\<exists>ts. sends st st1 ts \<and> length ts \<le> 1" using runSecurityFix_sends [OF fix1] by (fastforce split: if_splits)
  show ?case
  proof (cases r)
    case (Inl err)
    with 2(2) fix1 one show ?thesis by auto
  next
    case (Inr fixedCode)
    define scanned where "scanned = sr_Findings (scan_Run (rv_sha env) e \<lparr>in_Language = language, in_Code = fixedCode, in_Filename = filename\<rparr>)"
    define rep1 where "rep1 = rep\<lparr>rp_Retries := rp_Retries rep + 1, rp_MainLLMResponse := fixedCode, rp_DeterministicFindings := scanned,
      rp_Evidence := rp_Evidence rep @ [revalidation retry scanned], rp_Confidence := Some (score_Score (rp_Evidence rep @ [revalidation retry scanned]))\<rparr>"
    have round: "fix_loop env e language filename reviewers retry (Suc left) code findings rep st =
        (if scanned = [] then ((fixedCode, rep1), st1) else fix_loop env e language filename reviewers (retry + 1) left fixedCode scanned rep1 st1)"
      by (simp add: fix1 Inr Let_def scanned_def rep1_def)
    show ?thesis
    proof (cases "scanned = []")
      case True
      with 2(2) round have "rep' = rep1" "st' = st1" by simp_all
      with one show ?thesis by (auto simp: rep1_def)
    next
      case False
      with 2(2) round have rest: "fix_loop env e language filename reviewers (retry + 1) left fixedCode scanned rep1 st1 = ((final, rep'), st')" by simp
      note IH = 2(1) [OF fix1 [symmetric] Inr scanned_def refl rep1_def False rest]
      from IH one obtain ts us where "sends st st1 ts" "length ts \<le> 1" "sends st1 st' us" "length us \<le> left" by blast
      then have "\<exists>ts. sends st st' ts \<and> length ts \<le> Suc left" by (intro exI [of _ "ts @ us"]) (auto intro: sends_trans)
      with IH show ?thesis by (auto simp: rep1_def)
    qed
  qed
qed

subsection \<open>Whole reviews\<close>

lemma review_RunE:
  assumes "review_Run env szp req st = (Inr rep, szp', st')"
  obtains resp st1 reviewers st2 final rep1 where "main_response env szp req st = (Inr resp, st1)"
    "review_reviewers env szp req resp st1 = (reviewers, st2)" "revalidate env szp req resp reviewers st2 = ((final, rep1), st')"
    "rep = finish_report (rv_duration env) final rep1"
  using assms by (auto simp: review_Run_def Let_def split: sum.splits prod.splits)

lemma finish_report_simps [simp]:
  "rp_Retries (finish_report d f rep) = rp_Retries rep" "rp_FinalOutput (finish_report d f rep) = f"
  "rp_MainLLMResponse (finish_report d f rep) = rp_MainLLMResponse rep" "rp_Evidence (finish_report d f rep) = rp_Evidence rep"
  "rp_Confidence (finish_report d f rep) = rp_Confidence rep" "rp_AttackPaths (finish_report d f rep) = rp_AttackPaths rep"
  "rp_Suggestions (finish_report d f rep) = rp_Suggestions rep"
  by (simp_all add: finish_report_def Let_def)

text \<open>What re-validation changes of the first report.\<close>

lemma revalidate_facts:
  assumes "revalidate env szp req resp reviewers st = ((final, rep), st')"
  shows "(\<exists>ts. sends st st' ts \<and> length ts \<le> 2) \<and> rp_Retries rep \<le> 2 \<and>
    rp_Confidence rep = Some (score_Score (rp_Evidence rep)) \<and> (\<exists>evs. rp_Evidence rep = review_evidence env szp req resp reviewers @ evs) \<and>
    rp_AttackPaths rep = attack_stage (sz_attackGraph szp) (rv_Prompt req) (review_scan env szp req resp) \<and>
    rp_Suggestions rep = buildSuggestions (review_scan env szp req resp) reviewers \<and>
    (0 < rp_Retries rep \<longrightarrow> 0 < cs_Failed (score_Score (review_evidence env szp req resp reviewers)))"
proof -
  let ?rep0 = "first_report env szp req resp reviewers"
  have first: "rp_Retries ?rep0 = 0" "rp_Evidence ?rep0 = review_evidence env szp req resp reviewers"
    "rp_Confidence ?rep0 = Some (score_Score (rp_Evidence ?rep0))"
    "rp_AttackPaths ?rep0 = attack_stage (sz_attackGraph szp) (rv_Prompt req) (review_scan env szp req resp)"
    "rp_Suggestions ?rep0 = buildSuggestions (review_scan env szp req resp) reviewers"
    by (simp_all add: first_report_def Let_def)
  show ?thesis
  proof (cases "\<not> sz_SuggestionMode szp \<and> 0 < cs_Failed (score_Score (rp_Evidence ?rep0))")
    case True
    with assms have "fix_loop env (sz_engine szp) (review_language req resp) (review_filename req resp) reviewers 0 2 resp (review_scan env szp req resp) ?rep0 st = ((final, rep), st')"
      by (simp add: revalidate_def Let_def)
    from fix_loop_facts [OF this] first True show ?thesis by auto
  next
    case False
    with assms have "rep = ?rep0" "st' = st" by (auto simp: revalidate_def Let_def)
    with first sends_none [of st 2] show ?thesis by simp
  qed
qed

subsection \<open>A concrete review\<close>

definition demo_review_env :: "unit review_env" where
  "demo_review_env =
     \<lparr>rv_llm = Some (\<lambda>task w. (Inr ''VERDICT: pass'', w)), rv_sha = \<lambda>s. s, rv_json = \<lambda>_. None, rv_finish = reviewerDefs, rv_cancelled = \<lambda>_. False,
      rv_schema_order = [], rv_rows = None, rv_node_ids = [], rv_succ_order = \<lambda>_. [], rv_visited_order = gkeys, rv_services = gkeys service_controls,
      rv_clock = 0, rv_duration = ''1ms''\<rparr>"

definition demo_szp :: "bool \<Rightarrow> bool \<Rightarrow> ShiftZeroPipeline" where
  "demo_szp det sugg =
     \<lparr>sz_engine = demo_scanner, sz_knowledge = NewGraph, sz_skills = NewSkillEngine, sz_attackGraph = graph_buildRules, sz_pipeline = None,
      sz_DeterministicOnly = det, sz_SuggestionMode = sugg\<rparr>"

definition demo_review :: ReviewRequest where
  "demo_review = \<lparr>rv_Prompt = ''query'', rv_Code = ''q'', rv_Language = ''go'', rv_Filename = ''a.go'', rv_Context = []\<rparr>"

lemma demo_review_simps [simp]:
  "length (rv_finish demo_review_env) = 5" "sz_DeterministicOnly (demo_szp det sugg) = det" "sz_SuggestionMode (demo_szp det sugg) = sugg" "rv_Code demo_review = ''q''"
  "rv_llm demo_review_env = Some (\<lambda>task w. (Inr ''VERDICT: pass'', w))"
  by (simp_all add: demo_review_env_def demo_szp_def demo_review_def reviewerDefs_def)

lemma demo_review_scan: "\<exists>g. g \<in> set (review_scan demo_review_env (demo_szp det sugg) demo_review ''q'') \<and> fi_Severity g = SeverityCritical"
proof -
  have "review_scan demo_review_env (demo_szp det sugg) demo_review ''q'' = sr_Findings (scan_Run (\<lambda>s. s) demo_scanner demo_input)"
    by (simp add: review_scan_def demo_review_env_def demo_szp_def demo_review_def demo_input_def review_language_def review_filename_def review_code_def)
  moreover have "\<exists>g \<in> set (sr_Findings (scan_Run (\<lambda>s. s) demo_scanner demo_input)). fi_Severity g = SeverityCritical \<and>
      fi_Fingerprint g = fi_Fingerprint (with_fingerprint (\<lambda>s. s) demo_finding) \<and> fi_Filename g = fi_Filename demo_finding \<and> fi_Line g = fi_Line demo_finding"
    by (rule critical_kept [OF demo_size, where fs = "[demo_finding]" and a = "hd (eg_analyzers demo_scanner)"])
      (use demo_place in \<open>simp_all add: demo_raw\<close>, simp_all add: demo_scanner_def NewEngine_def demo_finding_def)
  ultimately show ?thesis by auto
qed

lemma review_calls:
  assumes "length (rv_finish env) = 5" "review_Run env szp req st = (r, szp', st')"
  shows "\<exists>ts. sends st st' ts \<and> length ts \<le> 9 \<and> (case r of Inl err \<Rightarrow> length ts \<le> 1 | Inr rep \<Rightarrow> rp_Retries rep \<le> 2)"
proof (cases r)
  case (Inl err)
  with assms(2) have main: "main_response env szp req st = (Inl err, st')"
    by (auto simp: review_Run_def Let_def split: sum.splits prod.splits)
  then show ?thesis using main_response_sends [OF main] Inl by fastforce
next
  case (Inr rep)
  obtain resp st1 reviewers st2 final rep1 where run: "main_response env szp req st = (Inr resp, st1)"
    "review_reviewers env szp req resp st1 = (reviewers, st2)" "revalidate env szp req resp reviewers st2 = ((final, rep1), st')"
    "rep = finish_report (rv_duration env) final rep1"
    using review_RunE [OF assms(2) [unfolded Inr]] .
  obtain t1 where t1: "sends st st1 t1" "length t1 \<le> 1" using main_response_sends [OF run(1)] by blast
  have "\<exists>ts. sends st1 st2 ts \<and> length ts \<le> 6"
  proof (cases "sz_DeterministicOnly szp")
    case True
    with run(2) have "st2 = st1" by (simp add: review_reviewers_def)
    then show ?thesis using sends_none by simp
  next
    case False
    with run(2) show ?thesis using reviewers_sends assms(1) by (fastforce simp: review_reviewers_def)
  qed
  then obtain t2 where t2: "sends st1 st2 t2" "length t2 \<le> 6" by blast
  obtain t3 where t3: "sends st2 st' t3" "length t3 \<le> 2" and few: "rp_Retries rep1 \<le> 2" using revalidate_facts [OF run(3)] by blast
  have "sends st st' (t1 @ t2 @ t3)" using sends_trans [OF t1(1) sends_trans [OF t2(1) t3(1)]] .
  with t1 t2 t3 few run(4) Inr show ?thesis by (intro exI [of _ "t1 @ t2 @ t3"]) simp
qed

lemma review_error_iff:
  assumes "review_Run env szp req st = (r, szp', st')"
  shows "r = Inl err \<longleftrightarrow> rv_Code req = [] \<and> \<not> sz_DeterministicOnly szp \<and>
    (\<exists>e. fst (runMainLLM (rv_llm env) req st) = Inl e \<and> err = ''main LLM failed: '' @ e)"
proof -
  obtain m st1 where main: "main_response env szp req st = (m, st1)" by (metis surj_pair)
  have "r = Inl err \<longleftrightarrow> m = Inl err" using assms main by (cases m) (auto simp: review_Run_def case_prod_beta Let_def)
  also have "\<dots> \<longleftrightarrow> fst (main_response env szp req st) = Inl err" by (simp add: main)
  also have "\<dots> \<longleftrightarrow> rv_Code req = [] \<and> \<not> sz_DeterministicOnly szp \<and>
    (\<exists>e. fst (runMainLLM (rv_llm env) req st) = Inl e \<and> err = ''main LLM failed: '' @ e)"
    by (auto simp: main_response_def split: prod.splits sum.splits)
  finally show ?thesis .
qed

text \<open>
  C19. A review is bounded. Whatever the models answer, it ends after at most nine model calls (the
  main answer, one call for all reviewers, the five separate ones, two rewrites) and two rewrites. It
  fails exactly when no code was given, it is not in deterministic-only mode, and the call of the main model failed,
  with the text of that error, after at most this one call; otherwise it returns a report.
\<close>

theorem review_bounded:
  assumes "length (rv_finish env) = 5" "review_Run env szp req st = (r, szp', st')"
  shows "(\<exists>ts. sends st st' ts \<and> length ts \<le> 9 \<and> (case r of Inl err \<Rightarrow> length ts \<le> 1 | Inr rep \<Rightarrow> rp_Retries rep \<le> 2)) \<and>
    (\<forall>err. r = Inl err \<longleftrightarrow> rv_Code req = [] \<and> \<not> sz_DeterministicOnly szp \<and>
       (\<exists>e. fst (runMainLLM (rv_llm env) req st) = Inl e \<and> err = ''main LLM failed: '' @ e))"
  using review_calls [OF assms] review_error_iff [OF assms(2)] by blast

text \<open>A review of given code, and one whose main model is down.\<close>

definition down_env :: "unit review_env" where
  "down_env = demo_review_env\<lparr>rv_llm := Some (\<lambda>task w. (Inl ''down'', w))\<rparr>"

theorem review_bounded_witness:
  "(\<exists>ts rep. sends ((), []) (snd (snd (review_Run demo_review_env (demo_szp False False) demo_review ((), [])))) ts \<and> length ts \<le> 9 \<and>
     fst (review_Run demo_review_env (demo_szp False False) demo_review ((), [])) = Inr rep) \<and>
   (\<exists>err. fst (review_Run down_env (demo_szp False False) (demo_review\<lparr>rv_Code := []\<rparr>) ((), [])) = Inl (''main LLM failed: '' @ err))"
proof -
  obtain r szp' st' where run: "review_Run demo_review_env (demo_szp False False) demo_review ((), []) = (r, szp', st')" by (rule prod_cases3)
  obtain r2 szp2 st2 where run2: "review_Run down_env (demo_szp False False) (demo_review\<lparr>rv_Code := []\<rparr>) ((), []) = (r2, szp2, st2)" by (rule prod_cases3)
  have fin: "length (rv_finish demo_review_env) = 5" "length (rv_finish down_env) = 5" by (simp_all add: down_env_def)
  note first = review_bounded [OF fin(1) run] and second = review_bounded [OF fin(2) run2]
  obtain rep where "r = Inr rep" using first by (cases r) auto
  moreover have "\<exists>e. fst (runMainLLM (rv_llm down_env) (demo_review\<lparr>rv_Code := []\<rparr>) ((), [])) = Inl e"
    by (simp add: runMainLLM_def down_env_def ask_def)
  ultimately show ?thesis using first second by (auto simp: run run2)
qed

text \<open>
  In suggestion mode code is never rewritten: a review of given code returns exactly that code,
  with no retry, and sends no rewriting task to a model.
\<close>

theorem suggestion_mode_never_rewrites:
  assumes "sz_SuggestionMode szp" "rv_Code req \<noteq> []" "review_Run env szp req st = (r, szp', st')"
  shows "\<exists>rep. r = Inr rep \<and> rp_FinalOutput rep = rv_Code req \<and> rp_MainLLMResponse rep = rv_Code req \<and> rp_Retries rep = 0 \<and>
    (\<exists>reviewers. review_reviewers env szp req (rv_Code req) st = (reviewers, st'))"
proof -
  have main: "main_response env szp req st = (Inr (rv_Code req), st)" using assms(2) by (simp add: main_response_def)
  obtain reviewers st2 where rev: "review_reviewers env szp req (rv_Code req) st = (reviewers, st2)"
    by (cases "review_reviewers env szp req (rv_Code req) st")
  have reval: "revalidate env szp req (rv_Code req) reviewers st2 = ((rv_Code req, first_report env szp req (rv_Code req) reviewers), st2)"
    using assms(1) by (simp add: revalidate_def)
  have "r = Inr (finish_report (rv_duration env) (rv_Code req) (first_report env szp req (rv_Code req) reviewers))" "st' = st2"
    using assms(3) by (simp_all add: review_Run_def main rev reval)
  with rev show ?thesis by (auto simp: first_report_def Let_def)
qed

theorem suggestion_mode_never_rewrites_witness:
  "\<exists>rep. fst (review_Run demo_review_env (demo_szp False True) demo_review ((), [])) = Inr rep \<and> rp_FinalOutput rep = ''q''"
proof -
  obtain r szp' st' where run: "review_Run demo_review_env (demo_szp False True) demo_review ((), []) = (r, szp', st')" by (rule prod_cases3)
  from suggestion_mode_never_rewrites [OF _ _ run] show ?thesis by (auto simp: run)
qed

text \<open>
  The deterministic-only mode is not free of model calls: when the scan of the given code reports
  a critical or high finding and a router is configured, the first thing a review outside suggestion
  mode sends is a rewriting task.
\<close>

theorem deterministic_only_still_asks:
  assumes "sz_DeterministicOnly szp" "\<not> sz_SuggestionMode szp" "rv_llm env = Some llm" "rv_Code req \<noteq> []"
    and "f \<in> set (review_scan env szp req (rv_Code req))" "fi_Severity f = SeverityCritical \<or> fi_Severity f = SeverityHigh"
    and "review_Run env szp req st = (r, szp', st')"
  shows "\<exists>task ts. sends st st' (task # ts) \<and> tk_ID task = ''security-fix''"
proof -
  let ?code = "rv_Code req"
  have main: "main_response env szp req st = (Inr ?code, st)" using assms(4) by (simp add: main_response_def)
  have rev: "review_reviewers env szp req ?code st = ([], st)" using assms(1) by (simp add: review_reviewers_def)
  have "scanner_evidence f \<in> set (review_evidence env szp req ?code [])"
    using assms(5) by (simp add: review_evidence_def aggregateEvidence_def Let_def)
  moreover have "ev_Verdict (scanner_evidence f) = ''fail''" using assms(6) by (auto simp: scanner_evidence_def finding_verdict_def)
  ultimately have "0 < count_verdict ''fail'' (review_evidence env szp req ?code [])" "review_evidence env szp req ?code [] \<noteq> []"
    by (force simp: count_verdict_def filter_empty_conv)+
  then have failed: "0 < cs_Failed (score_Score (rp_Evidence (first_report env szp req ?code [])))"
    by (simp add: first_report_def Let_def score_Score_def)
  obtain r1 st1 where fix1: "runSecurityFix (rv_llm env) ?code (review_scan env szp req ?code) [] st = (r1, st1)"
    by (cases "runSecurityFix (rv_llm env) ?code (review_scan env szp req ?code) [] st")
  obtain task where task: "sends st st1 [task]" "tk_ID task = ''security-fix''" using runSecurityFix_sends [OF fix1] assms(3) by auto
  obtain final rep where reval: "revalidate env szp req ?code [] st = ((final, rep), st')"
    using assms(7) by (auto simp: review_Run_def main rev Let_def split: prod.splits)
  then have loop: "fix_loop env (sz_engine szp) (review_language req ?code) (review_filename req ?code) [] 0 (Suc (Suc 0)) ?code (review_scan env szp req ?code)
      (first_report env szp req ?code []) st = ((final, rep), st')"
    using assms(2) failed by (simp add: revalidate_def Let_def numeral_2_eq_2)
  have "\<exists>ts. sends st1 st' ts"
  proof (cases r1)
    case (Inl err)
    with loop fix1 have "st' = st1" by simp
    then show ?thesis using sends_refl by metis
  next
    case (Inr fixed)
    with loop fix1 consider "st' = st1" | rep1 fs where "fix_loop env (sz_engine szp) (review_language req ?code) (review_filename req ?code) [] 1 (Suc 0) fixed fs rep1 st1 = ((final, rep), st')"
      by (auto simp: Let_def split: if_splits)
    then show ?thesis
    proof cases
      case 1
      then show ?thesis using sends_refl by metis
    next
      case 2
      from fix_loop_facts [OF this] show ?thesis by blast
    qed
  qed
  then obtain ts where "sends st1 st' ts" by blast
  with sends_trans [OF task(1)] task(2) show ?thesis by fastforce
qed

theorem deterministic_only_still_asks_witness:
  "\<exists>task ts. snd (snd (snd (review_Run demo_review_env (demo_szp True False) demo_review ((), [])))) = task # ts \<and> tk_ID task = ''security-fix''"
proof -
  obtain r szp' st' where run: "review_Run demo_review_env (demo_szp True False) demo_review ((), []) = (r, szp', st')" by (rule prod_cases3)
  obtain g where "g \<in> set (review_scan demo_review_env (demo_szp True False) demo_review (rv_Code demo_review))" "fi_Severity g = SeverityCritical"
    using demo_review_scan by auto
  with deterministic_only_still_asks [OF _ _ _ _ _ _ run, of "\<lambda>task w. (Inr ''VERDICT: pass'', w)" g] show ?thesis by (auto simp: run sends_def)
qed

text \<open>
  What a report can say. Attack paths are never reported: the generator is called without
  findings. A review that rewrote the code at least once still counts a failure in its final
  confidence, also when the last scan found nothing: the evidence of the first scan is kept.
\<close>

theorem review_report_limits:
  assumes "review_Run env szp req st = (Inr rep, szp', st')"
  shows "rp_AttackPaths rep = [] \<and>
    (0 < rp_Retries rep \<longrightarrow> (\<exists>score. rp_Confidence rep = Some score \<and> 0 < cs_Failed score))"
proof -
  obtain resp st1 reviewers st2 final rep1 where run: "revalidate env szp req resp reviewers st2 = ((final, rep1), st')"
    "rep = finish_report (rv_duration env) final rep1"
    using review_RunE [OF assms] by metis
  note facts = revalidate_facts [OF run(1)]
  have paths: "attack_stage rules prompt fs = []" for rules prompt fs
  proof -
    have "Generate rules \<lparr>fr_Description = prompt, fr_Findings = [], fr_Entity = inferEntityFromPrompt prompt\<rparr> = Some r \<Longrightarrow> gr_Paths r = []" for r
      by (auto simp: Generate_def Let_def split: option.splits)
    then show ?thesis by (auto simp: attack_stage_def split: option.splits)
  qed
  have "0 < cs_Failed (score_Score (evs @ more))" if "0 < cs_Failed (score_Score evs)" for evs more
    using that by (simp add: score_Score_def count_verdict_def Let_def split: if_splits) (simp add: add_pos_nonneg)
  with facts run(2) paths show ?thesis by auto
qed

theorem review_report_limits_witness:
  "\<exists>rep. fst (review_Run demo_review_env (demo_szp False False) demo_review ((), [])) = Inr rep \<and> rp_AttackPaths rep = []"
proof -
  obtain r szp' st' where run: "review_Run demo_review_env (demo_szp False False) demo_review ((), []) = (r, szp', st')" by (rule prod_cases3)
  have "main_response demo_review_env (demo_szp False False) demo_review ((), []) = (Inr ''q'', ((), []))" by (simp add: main_response_def)
  then obtain rep where r: "r = Inr rep" using run by (auto simp: review_Run_def Let_def split: prod.splits)
  from review_report_limits [OF run [unfolded r]] show ?thesis by (auto simp: run r)
qed

subsection \<open>Suggestions\<close>

lemma dedupe_facts:
  "[] \<notin> sg_ID ` set ss \<Longrightarrow> set (dedupe seen ss) \<subseteq> set ss \<and> distinct (map sg_ID (dedupe seen ss)) \<and> sg_ID ` set (dedupe seen ss) = sg_ID ` set ss - seen_keys seen"
proof (induction seen ss rule: dedupe.induct)
  case (2 seen s ss)
  then show ?case by (cases "strset_has seen (sg_ID s)") (auto simp: image_iff)
qed simp

lemma corroborate_keeps:
  "sg_ID (corroborate fs s) = sg_ID s" "sg_LineStart (corroborate fs s) = sg_LineStart s" "sg_LineEnd (corroborate fs s) = sg_LineEnd s"
  by (simp_all add: corroborate_def)

lemma reviewer_suggestion_facts:
  assumes "s \<in> set (reviewer_suggestions fs r)"
  shows "sg_ID s \<noteq> [] \<and> (0 < sg_LineStart s \<or> 0 < sg_LineEnd s)"
  using assms by (auto simp: reviewer_suggestions_def Let_def corroborate_keeps split: if_splits)

lemma scanner_suggestion_facts: "sg_ID (scanner_suggestion f) \<noteq> []" "sg_LineStart (scanner_suggestion f) = fi_Line f"
  by (simp_all add: scanner_suggestion_def)

lemma candidate_facts:
  assumes "s \<in> set (map scanner_suggestion (filter (\<lambda>f. 0 < fi_Line f) fs) @ concat (map (reviewer_suggestions fs) rs))"
  shows "sg_ID s \<noteq> [] \<and> (0 < sg_LineStart s \<or> 0 < sg_LineEnd s)"
  using assms reviewer_suggestion_facts [of s fs] by (auto simp: scanner_suggestion_facts)

text \<open>
  Suggestions can be accepted one by one: their IDs are distinct, each is anchored at a line,
  and every scanner finding with a line number has its suggestion.
\<close>

theorem suggestions_unique:
  "distinct (map sg_ID (buildSuggestions findings reviewers)) \<and>
   (\<forall>s \<in> set (buildSuggestions findings reviewers). 0 < sg_LineStart s \<or> 0 < sg_LineEnd s) \<and>
   (\<forall>f \<in> set findings. 0 < fi_Line f \<longrightarrow> sg_ID (scanner_suggestion f) \<in> sg_ID ` set (buildSuggestions findings reviewers))"
proof -
  let ?c = "map scanner_suggestion (filter (\<lambda>f. 0 < fi_Line f) findings) @ concat (map (reviewer_suggestions findings) reviewers)"
  have "[] \<notin> sg_ID ` set ?c" using candidate_facts [of _ findings reviewers] by (metis imageE)
  note d = dedupe_facts [OF this, of "[]"]
  have anchored: "0 < sg_LineStart s \<or> 0 < sg_LineEnd s" if "s \<in> set (dedupe [] ?c)" for s
    using d that candidate_facts [of s findings reviewers] by blast
  have found: "sg_ID (scanner_suggestion f) \<in> sg_ID ` set (dedupe [] ?c)" if "f \<in> set findings" "0 < fi_Line f" for f
  proof -
    have "scanner_suggestion f \<in> set ?c" using that by simp
    then show ?thesis using d by auto
  qed
  show ?thesis unfolding buildSuggestions_def using d anchored found by blast
qed

theorem suggestions_unique_witness:
  "sg_ID (scanner_suggestion demo_finding) \<in> sg_ID ` set (buildSuggestions [demo_finding] [])"
  using suggestions_unique [of "[demo_finding]" "[]"] by (simp add: demo_finding_def)

end
