(* ===== verification/Auth.thy ===== *)
theory Auth
  imports App_Errors Access_Control
begin

text \<open>
  Authentication: session tokens (\<^verbatim>\<open>auth/jwt.go\<close>), API keys (\<^verbatim>\<open>auth/apikey.go\<close>, the statements of
  \<^verbatim>\<open>repository/apikey.go\<close> and the key handlers of \<^verbatim>\<open>router/auth_handlers.go\<close>), the middlewares of
  \<^verbatim>\<open>middleware/auth.go\<close>, and the authentication, administration and refresh steps of
  \<^verbatim>\<open>router/router.go\<close>.

  The JWT library, bcrypt, SHA-256 and HMAC are parameters. The table \<^verbatim>\<open>api_keys\<close> is the list of its
  rows in the order a query returns them, and the SQL statements are list operations on it; whether
  a database call fails is an argument. A handler behind the authentication gets the claims of the
  request context as an argument.
\<close>

subsection \<open>Claims and the token library\<close>

record Claims =
  cl_UserID :: string
  cl_Email :: string
  cl_Role :: string
  cl_OrgID :: string
  cl_Scopes :: "string list"
  cl_IsAPIKey :: bool
  cl_Fingerprint :: string
  cl_Issuer :: string
  cl_Subject :: string
  cl_Audience :: "string list"
  cl_IssuedAt :: "gotime option"
  cl_ExpiresAt :: "gotime option"

text \<open>
  What the sources use of \<^verbatim>\<open>golang-jwt\<close>: the precision of dates, signing with HS256, and parsing with
  a key function (asked whether the method of the token is an HMAC), a required issuer and a
  required audience. Parsing checks the signature and the claims at the given time.
\<close>

record jwt_lib =
  jw_NumericDate :: "gotime \<Rightarrow> gotime"
  jw_Sign :: "string \<Rightarrow> Claims \<Rightarrow> string option"
  jw_Parse :: "(bool \<Rightarrow> string option) \<Rightarrow> string \<Rightarrow> string \<Rightarrow> gotime \<Rightarrow> string \<Rightarrow> Claims option"
  jw_ParseUnverified :: "string \<Rightarrow> Claims option"

text \<open>
  The documented behaviour, for one set of claims: the signed token has dots, and parsing it with the
  same key returns the claims if issuer and audience fit and the expiry lies ahead. Dates are
  rounded down to seconds.
\<close>

definition signs_faithfully :: "jwt_lib \<Rightarrow> string \<Rightarrow> Claims \<Rightarrow> bool" where
  "signs_faithfully j key c \<longleftrightarrow>
     (\<forall>tok. jw_Sign j key c = Some tok \<longrightarrow> CHR ''.'' \<in> set tok \<and>
       (\<forall>kf issuer audience now. kf True = Some key \<longrightarrow>
          jw_Parse j kf issuer audience now tok =
            (if cl_Issuer c = issuer \<and> audience \<in> set (cl_Audience c) \<and> (case cl_ExpiresAt c of None \<Rightarrow> True | Some e \<Rightarrow> now < e)
             then Some c else None)))"

definition dates_in_seconds :: "jwt_lib \<Rightarrow> bool" where
  "dates_in_seconds j \<longleftrightarrow> (\<forall>t. jw_NumericDate j t \<le> t \<and> t < jw_NumericDate j t + Second)"

subsection \<open>Session tokens\<close>

record AuthConfig =
  ac_JWTSecret :: string
  ac_JWTExpiration :: duration
  ac_JWTAudience :: string
  ac_JWTBindToIP :: bool
  ac_JWTBindToUserAgent :: bool

record JWT =
  jt_secret :: string
  jt_expiration :: duration
  jt_audience :: string
  jt_bindToIP :: bool
  jt_bindToUserAgent :: bool
  jt_revocationTimestamps :: "(string, gotime) gomap"

datatype auth_error =
    ErrInvalidToken | ErrTokenRevoked | ErrFingerprintMismatch | ErrInvalidAPIKey | ErrExpiredAPIKey | ErrStore string

text \<open>The constructor panics on a short secret.\<close>

definition NewJWT :: "AuthConfig \<Rightarrow> JWT option" where
  "NewJWT cfg =
     (if length (ac_JWTSecret cfg) < 32 then None
      else Some \<lparr>jt_secret = ac_JWTSecret cfg, jt_expiration = ac_JWTExpiration cfg,
                 jt_audience = (if ac_JWTAudience cfg = [] then ''vigilagent-api'' else ac_JWTAudience cfg),
                 jt_bindToIP = ac_JWTBindToIP cfg, jt_bindToUserAgent = ac_JWTBindToUserAgent cfg, jt_revocationTimestamps = []\<rparr>)"

definition ComputeFingerprint :: "(string \<Rightarrow> string) \<Rightarrow> string \<Rightarrow> string \<Rightarrow> string" where
  "ComputeFingerprint sha ip userAgent = sha (ip @ ''|'' @ userAgent)"

definition token_claims :: "jwt_lib \<Rightarrow> gotime \<Rightarrow> string \<Rightarrow> string \<Rightarrow> string \<Rightarrow> string \<Rightarrow> string \<Rightarrow> JWT \<Rightarrow> Claims" where
  "token_claims lib now userID email role orgID fingerprint j =
     \<lparr>cl_UserID = userID, cl_Email = email, cl_Role = role, cl_OrgID = orgID, cl_Scopes = [], cl_IsAPIKey = False,
      cl_Fingerprint = fingerprint, cl_Issuer = ''vigilagent'', cl_Subject = userID, cl_Audience = [jt_audience j],
      cl_IssuedAt = Some (jw_NumericDate lib now), cl_ExpiresAt = Some (jw_NumericDate lib (time_Add now (jt_expiration j)))\<rparr>"

definition GenerateTokenWithFingerprint ::
    "jwt_lib \<Rightarrow> gotime \<Rightarrow> string \<Rightarrow> string \<Rightarrow> string \<Rightarrow> string \<Rightarrow> string \<Rightarrow> JWT \<Rightarrow> string option" where
  "GenerateTokenWithFingerprint lib now userID email role orgID fingerprint j =
     (if length (jt_secret j) < 32 then None
      else jw_Sign lib (jt_secret j) (token_claims lib now userID email role orgID fingerprint j))"

definition GenerateToken :: "jwt_lib \<Rightarrow> gotime \<Rightarrow> string \<Rightarrow> string \<Rightarrow> string \<Rightarrow> string \<Rightarrow> JWT \<Rightarrow> string option" where
  "GenerateToken lib now userID email role orgID j = GenerateTokenWithFingerprint lib now userID email role orgID [] j"

text \<open>Issued before the user's tokens were revoked; shared by validation and the revocation middleware.\<close>

definition issued_before_revocation :: "JWT \<Rightarrow> Claims \<Rightarrow> bool" where
  "issued_before_revocation j c =
     (case (gget (jt_revocationTimestamps j) (cl_UserID c), cl_IssuedAt c) of
        (Some revokedAt, Some issued) \<Rightarrow> issued < revokedAt | _ \<Rightarrow> False)"

definition ValidateToken :: "jwt_lib \<Rightarrow> gotime \<Rightarrow> string \<Rightarrow> JWT \<Rightarrow> auth_error + Claims" where
  "ValidateToken lib now tokenStr j =
     (case jw_Parse lib (\<lambda>hmac. if hmac then Some (jt_secret j) else None) ''vigilagent'' (jt_audience j) now tokenStr of
        None \<Rightarrow> Inl ErrInvalidToken
      | Some c \<Rightarrow> if issued_before_revocation j c then Inl ErrTokenRevoked else Inr c)"

text \<open>The comparison is of the digests of the fingerprints, which constant time requires.\<close>

definition ValidateTokenWithFingerprint ::
    "jwt_lib \<Rightarrow> (string \<Rightarrow> string) \<Rightarrow> gotime \<Rightarrow> string \<Rightarrow> string \<Rightarrow> string \<Rightarrow> JWT \<Rightarrow> auth_error + Claims" where
  "ValidateTokenWithFingerprint lib sha now tokenStr ip userAgent j =
     (case ValidateToken lib now tokenStr j of
        Inl e \<Rightarrow> Inl e
      | Inr c \<Rightarrow>
          if \<not> jt_bindToIP j \<and> \<not> jt_bindToUserAgent j then Inr c
          else if cl_Fingerprint c = [] then Inl ErrFingerprintMismatch
          else let expected = ComputeFingerprint sha (if jt_bindToIP j then ip else []) (if jt_bindToUserAgent j then userAgent else [])
               in if sha expected \<noteq> sha (cl_Fingerprint c) then Inl ErrFingerprintMismatch else Inr c)"

definition RevokeAllUserTokens :: "gotime \<Rightarrow> string \<Rightarrow> JWT \<Rightarrow> JWT" where
  "RevokeAllUserTokens now userID j = j\<lparr>jt_revocationTimestamps := gput userID now (jt_revocationTimestamps j)\<rparr>"

definition GetRevocationTime :: "string \<Rightarrow> JWT \<Rightarrow> gotime option" where
  "GetRevocationTime userID j = gget (jt_revocationTimestamps j) userID"

definition extractBearerToken :: "Request \<Rightarrow> string" where
  "extractBearerToken q =
     (let authHeader = rq_Header q ''Authorization'' in
      if authHeader = [] then []
      else let parts = strings_SplitN2 authHeader (CHR '' '')
           in if length parts \<noteq> 2 \<or> strings_ToLower (parts ! 0) \<noteq> ''bearer'' then [] else parts ! 1)"

definition RevocationMiddleware :: "jwt_lib \<Rightarrow> JWT \<Rightarrow> 's handler \<Rightarrow> 's handler" where
  "RevocationMiddleware lib j nxt q s =
     (let tokenStr = extractBearerToken q in
      if tokenStr = [] then nxt q s
      else case jw_ParseUnverified lib tokenStr of
             None \<Rightarrow> nxt q s
           | Some c \<Rightarrow>
               if cl_UserID c = [] then nxt q s
               else if issued_before_revocation j c
                    then (s, \<lparr>rs_Status = 401, rs_Header = [], rs_Body = ''token revoked by password change'', rs_HeaderWritten = True\<rparr>)
                    else nxt q s)"

subsection \<open>API keys\<close>

text \<open>
  Digests: \<open>cr_sha\<close> is SHA-256, \<open>cr_hmac\<close> the keyed digest with the pepper, \<open>cr_bcrypt\<close> hashes a
  digest (with the salt it draws) and \<open>cr_compare\<close> compares a stored hash with a digest.
\<close>

record crypto =
  cr_sha :: "string \<Rightarrow> string"
  cr_hmac :: "string \<Rightarrow> string"
  cr_bcrypt :: "string \<Rightarrow> string option"
  cr_compare :: "string \<Rightarrow> string \<Rightarrow> bool"

record APIKeyService =
  as_prefix :: string

definition shortPrefix :: "string \<Rightarrow> string \<Rightarrow> string" where
  "shortPrefix plaintext servicePrefix =
     (if length plaintext < length servicePrefix + 1 then plaintext
      else take (if length plaintext < 10 then length plaintext else 10) plaintext)"

text \<open>\<open>random\<close>: the hexadecimal form of the 32 bytes read, or None when reading fails.\<close>

definition GenerateKey :: "crypto \<Rightarrow> string option \<Rightarrow> APIKeyService \<Rightarrow> (string \<times> string \<times> string) option" where
  "GenerateKey cr random s =
     (case random of
        None \<Rightarrow> None
      | Some hexed \<Rightarrow>
          let plaintext = as_prefix s @ hexed
          in case cr_bcrypt cr (cr_sha cr plaintext) of
               None \<Rightarrow> None | Some hashed \<Rightarrow> Some (plaintext, hashed, shortPrefix plaintext (as_prefix s)))"

definition VerifyKey :: "crypto \<Rightarrow> string \<Rightarrow> string \<Rightarrow> bool" where
  "VerifyKey cr plaintext hash = cr_compare cr hash (cr_sha cr plaintext)"

definition ExtractPrefix :: "string \<Rightarrow> APIKeyService \<Rightarrow> string" where
  "ExtractPrefix plaintext s = shortPrefix plaintext (as_prefix s)"

definition ValidatePrefix :: "string \<Rightarrow> APIKeyService \<Rightarrow> bool" where
  "ValidatePrefix plaintext s = strings_HasPrefix plaintext (as_prefix s)"

definition SHA256Hash :: "crypto \<Rightarrow> string \<Rightarrow> string" where
  "SHA256Hash cr s = cr_hmac cr s"

definition GenerateRotationToken :: "crypto \<Rightarrow> string option \<Rightarrow> (string \<times> string) option" where
  "GenerateRotationToken cr random = (case random of None \<Rightarrow> None | Some hexed \<Rightarrow> Some (hexed, SHA256Hash cr hexed))"

record RotationResult =
  rt_NewPlaintext :: string
  rt_NewHash :: string
  rt_NewPrefix :: string
  rt_RotationTokenHash :: string

text \<open>The rotation token itself is dropped; only its hash is kept.\<close>

definition RotateKey :: "crypto \<Rightarrow> string option \<Rightarrow> string option \<Rightarrow> APIKeyService \<Rightarrow> RotationResult option" where
  "RotateKey cr random random' s =
     (case GenerateKey cr random s of
        None \<Rightarrow> None
      | Some (plaintext, hash, prefix) \<Rightarrow>
          (case GenerateRotationToken cr random' of
             None \<Rightarrow> None
           | Some (_, rotHash) \<Rightarrow>
               Some \<lparr>rt_NewPlaintext = plaintext, rt_NewHash = hash, rt_NewPrefix = prefix, rt_RotationTokenHash = rotHash\<rparr>))"

subsection \<open>The table of keys\<close>

record APIKey =
  ak_ID :: string
  ak_UserID :: string
  ak_Name :: string
  ak_KeyHash :: string
  ak_Prefix :: string
  ak_Scopes :: "string list"
  ak_IsActive :: bool
  ak_LastUsedAt :: "gotime option"
  ak_ExpiresAt :: "gotime option"
  ak_RotationTokenHash :: string
  ak_RotatedAt :: "gotime option"
  ak_CreatedAt :: gotime

type_synonym key_table = "APIKey list"

text \<open>\<open>fresh\<close>: the identifier the database generates; \<open>ok\<close>: whether the statement succeeds.\<close>

definition key_Create :: "bool \<Rightarrow> string \<Rightarrow> gotime \<Rightarrow> APIKey \<Rightarrow> key_table \<Rightarrow> key_table \<times> APIKey option" where
  "key_Create ok fresh now key tab =
     (if \<not> ok then (tab, None)
      else let row = key\<lparr>ak_ID := fresh, ak_CreatedAt := now, ak_LastUsedAt := None, ak_RotationTokenHash := [], ak_RotatedAt := None\<rparr>
           in (tab @ [row], Some row))"

definition FindByHash :: "bool \<Rightarrow> gotime \<Rightarrow> string \<Rightarrow> key_table \<Rightarrow> APIKey option" where
  "FindByHash ok now keyHash tab =
     (if \<not> ok then None
      else find (\<lambda>k. ak_KeyHash k = keyHash \<and> ak_IsActive k \<and> (case ak_ExpiresAt k of None \<Rightarrow> True | Some e \<Rightarrow> now < e)) tab)"

definition UpdateLastUsed :: "bool \<Rightarrow> gotime \<Rightarrow> string \<Rightarrow> key_table \<Rightarrow> key_table \<times> bool" where
  "UpdateLastUsed ok now ident tab =
     (if \<not> ok \<or> \<not> list_ex (\<lambda>k. ak_ID k = ident) tab then (tab, False)
      else (map (\<lambda>k. if ak_ID k = ident then k\<lparr>ak_LastUsedAt := Some now\<rparr> else k) tab, True))"

definition key_Delete :: "bool \<Rightarrow> string \<Rightarrow> string \<Rightarrow> key_table \<Rightarrow> key_table \<times> bool" where
  "key_Delete ok ident userID tab =
     (if \<not> ok \<or> \<not> list_ex (\<lambda>k. ak_ID k = ident \<and> ak_UserID k = userID) tab then (tab, False)
      else (filter (\<lambda>k. \<not> (ak_ID k = ident \<and> ak_UserID k = userID)) tab, True))"

definition mark_rotated :: "gotime \<Rightarrow> string \<Rightarrow> duration \<Rightarrow> APIKey \<Rightarrow> APIKey" where
  "mark_rotated now rotationTokenHash grace k =
     k\<lparr>ak_ExpiresAt := Some (now + (grace div Second) * Second), ak_RotationTokenHash := rotationTokenHash, ak_RotatedAt := Some now\<rparr>"

text \<open>The transaction: all of it or nothing.\<close>

definition RotateAPIKey ::
    "bool \<Rightarrow> string \<Rightarrow> gotime \<Rightarrow> string \<Rightarrow> string \<Rightarrow> string \<Rightarrow> string \<Rightarrow> string \<Rightarrow> duration \<Rightarrow> key_table \<Rightarrow> key_table \<times> APIKey option" where
  "RotateAPIKey ok fresh now oldKeyID userID newKeyHash newPrefix rotationTokenHash grace tab =
     (case find (\<lambda>k. ak_ID k = oldKeyID \<and> ak_UserID k = userID) tab of
        None \<Rightarrow> (tab, None)
      | Some old \<Rightarrow>
          if \<not> ok then (tab, None)
          else
            let new = \<lparr>ak_ID = fresh, ak_UserID = userID, ak_Name = ak_Name old, ak_KeyHash = newKeyHash, ak_Prefix = newPrefix,
                       ak_Scopes = ak_Scopes old, ak_IsActive = True, ak_LastUsedAt = None, ak_ExpiresAt = None,
                       ak_RotationTokenHash = [], ak_RotatedAt = None, ak_CreatedAt = now\<rparr>
            in (map (\<lambda>k. if ak_ID k = oldKeyID then mark_rotated now rotationTokenHash grace k else k) tab @ [new], Some new))"

definition key_expired :: "gotime \<Rightarrow> APIKey \<Rightarrow> bool" where
  "key_expired now k = (case ak_ExpiresAt k of None \<Rightarrow> False | Some e \<Rightarrow> e < now)"

definition CleanupExpiredKeys :: "gotime \<Rightarrow> key_table \<Rightarrow> key_table \<times> int" where
  "CleanupExpiredKeys now tab =
     (let hit = (\<lambda>k. key_expired now k \<and> ak_IsActive k);
          tab1 = map (\<lambda>k. if hit k then k\<lparr>ak_IsActive := False\<rparr> else k) tab;
          gone = (\<lambda>k. key_expired (now - 7 * 24 * Hour) k \<and> \<not> ak_IsActive k)
      in (filter (\<lambda>k. \<not> gone k) tab1, int (length (filter hit tab)) + int (length (filter gone tab1))))"

subsection \<open>Key authentication\<close>

record APIKeyAuth =
  aa_allowLocalDev :: bool

definition localDevKey :: string where "localDevKey = ''local-dev''"

text \<open>The first word must be \<^verbatim>\<open>Bearer\<close>; a key is told from a token by an underscore and no dot.\<close>

definition looks_like_key :: "string \<Rightarrow> bool" where
  "looks_like_key token \<longleftrightarrow> token = localDevKey \<or> (strings_Contains token ''_'' \<and> \<not> strings_Contains token ''.'')"

definition extractAPIKey :: "Request \<Rightarrow> string" where
  "extractAPIKey q =
     (if rq_Header q ''X-API-Key'' \<noteq> [] then rq_Header q ''X-API-Key''
      else let token = extractBearerToken q in if token \<noteq> [] \<and> looks_like_key token then token else [])"

text \<open>
  The answers of the database to one authentication: the error of the scan over the keys, the error
  of the rotation lookup, and the role of a user (None is an error, also that of a missing user).
\<close>

record key_db =
  kd_scan :: "string option"
  kd_rotation :: "string option"
  kd_role :: "string \<Rightarrow> string option"

definition findAPIKeyByHash :: "crypto \<Rightarrow> key_db \<Rightarrow> string \<Rightarrow> key_table \<Rightarrow> string + APIKey option" where
  "findAPIKeyByHash cr db plaintext tab =
     (case kd_scan db of
        Some e \<Rightarrow> Inl e
      | None \<Rightarrow> Inr (find (\<lambda>k. ak_IsActive k \<and> VerifyKey cr plaintext (ak_KeyHash k)) tab))"

definition rotated_key :: "crypto \<Rightarrow> key_db \<Rightarrow> string \<Rightarrow> key_table \<Rightarrow> APIKey option" where
  "rotated_key cr db plaintext tab =
     (case kd_rotation db of
        Some e \<Rightarrow> None
      | None \<Rightarrow> find (\<lambda>k. ak_RotationTokenHash k = SHA256Hash cr plaintext \<and> ak_RotatedAt k \<noteq> None) tab)"

definition key_claims :: "string \<Rightarrow> APIKey \<Rightarrow> Claims" where
  "key_claims role k =
     \<lparr>cl_UserID = ak_UserID k, cl_Email = [], cl_Role = role, cl_OrgID = [], cl_Scopes = ak_Scopes k, cl_IsAPIKey = True,
      cl_Fingerprint = [], cl_Issuer = [], cl_Subject = [], cl_Audience = [], cl_IssuedAt = None, cl_ExpiresAt = None\<rparr>"

definition local_dev_claims :: Claims where
  "local_dev_claims =
     \<lparr>cl_UserID = ''local-dev'', cl_Email = ''local-dev@vigilagent'', cl_Role = ''admin'', cl_OrgID = [], cl_Scopes = [''*''],
      cl_IsAPIKey = True, cl_Fingerprint = [], cl_Issuer = [], cl_Subject = [], cl_Audience = [], cl_IssuedAt = None, cl_ExpiresAt = None\<rparr>"

text \<open>The checks on the row found, and its owner's role.\<close>

definition admit_key :: "key_db \<Rightarrow> gotime \<Rightarrow> APIKey \<Rightarrow> auth_error + Claims option" where
  "admit_key db now k =
     (if \<not> ak_IsActive k then Inl ErrInvalidAPIKey
      else if key_expired now k then Inl ErrExpiredAPIKey
      else case kd_role db (ak_UserID k) of
             None \<Rightarrow> Inl (ErrStore ''failed to resolve user role'')
           | Some role \<Rightarrow> Inr (Some (key_claims role k)))"

definition Authenticate :: "crypto \<Rightarrow> key_db \<Rightarrow> gotime \<Rightarrow> APIKeyAuth \<Rightarrow> Request \<Rightarrow> key_table \<Rightarrow> auth_error + Claims option" where
  "Authenticate cr db now a q tab =
     (let plaintext = extractAPIKey q in
      if plaintext = [] then Inr None
      else if plaintext = localDevKey then (if aa_allowLocalDev a then Inr (Some local_dev_claims) else Inl ErrInvalidAPIKey)
      else case findAPIKeyByHash cr db plaintext tab of
             Inl e \<Rightarrow> Inl ErrInvalidAPIKey
           | Inr (Some k) \<Rightarrow> admit_key db now k
           | Inr None \<Rightarrow> (case rotated_key cr db plaintext tab of None \<Rightarrow> Inl ErrInvalidAPIKey | Some k \<Rightarrow> admit_key db now k))"

subsection \<open>Middleware\<close>

text \<open>A handler that reads the claims the authentication put into the request context.\<close>

type_synonym 's claims_handler = "Claims option \<Rightarrow> 's handler"

definition Unauthorized :: "string \<Rightarrow> Response" where
  "Unauthorized msg = json_message 401 [] msg"

definition auth_message :: "auth_error \<Rightarrow> string" where
  "auth_message e =
     (case e of ErrInvalidToken \<Rightarrow> ''invalid or expired token'' | ErrTokenRevoked \<Rightarrow> ''token revoked by password change''
      | ErrFingerprintMismatch \<Rightarrow> ''token fingerprint mismatch'' | ErrInvalidAPIKey \<Rightarrow> ''invalid or unknown API key''
      | ErrExpiredAPIKey \<Rightarrow> ''API key has expired'' | ErrStore msg \<Rightarrow> msg)"

definition WrapIntoChiMiddleware ::
    "crypto \<Rightarrow> key_db \<Rightarrow> gotime \<Rightarrow> APIKeyAuth \<Rightarrow> key_table \<Rightarrow> 's claims_handler \<Rightarrow> 's handler" where
  "WrapIntoChiMiddleware cr db now a tab nxt q s =
     (case Authenticate cr db now a q tab of
        Inl e \<Rightarrow> (s, Unauthorized (auth_message e))
      | Inr claims \<Rightarrow> nxt claims q s)"

record JWTRotationConfig =
  rc_MaxTokenAge :: duration
  rc_RotateOnEndpoints :: "string list"

definition DefaultJWTRotationConfig :: JWTRotationConfig where
  "DefaultJWTRotationConfig = \<lparr>rc_MaxTokenAge = 15 * Minute, rc_RotateOnEndpoints = [''/auth/refresh'', ''/users/me'']\<rparr>"

definition renewed_token :: "jwt_lib \<Rightarrow> gotime \<Rightarrow> JWT \<Rightarrow> Claims \<Rightarrow> string option" where
  "renewed_token lib now j c = GenerateToken lib now (cl_UserID c) (cl_Email c) (cl_Role c) (cl_OrgID c) j"

definition JWTRotationMiddleware :: "jwt_lib \<Rightarrow> gotime \<Rightarrow> JWTRotationConfig option \<Rightarrow> JWT \<Rightarrow> 's claims_handler \<Rightarrow> 's claims_handler" where
  "JWTRotationMiddleware lib now cfg j nxt claims q s =
     (let cfg' = (case cfg of None \<Rightarrow> DefaultJWTRotationConfig | Some c \<Rightarrow> c)
      in case claims of
           None \<Rightarrow> nxt claims q s
         | Some c \<Rightarrow>
             if list_ex (strings_HasPrefix (rq_Path q)) (rc_RotateOnEndpoints cfg')
             then (case renewed_token lib now j c of
                     None \<Rightarrow> nxt claims q s
                   | Some tok \<Rightarrow>
                       let (s', rs) = nxt claims q s
                       in (s', preset [(''X-New-Token'', [tok]), (''X-Token-Rotated'', [''true''])] rs))
             else nxt claims q s)"

definition RequireJWTRefresh :: "jwt_lib \<Rightarrow> gotime \<Rightarrow> JWT \<Rightarrow> 's claims_handler \<Rightarrow> 's claims_handler" where
  "RequireJWTRefresh lib now j nxt claims q s =
     (case claims of
        None \<Rightarrow> (s, Unauthorized ''missing authentication'')
      | Some c \<Rightarrow>
          (case renewed_token lib now j c of
             None \<Rightarrow> (s, json_message 500 [] ''failed to rotate token'')
           | Some tok \<Rightarrow> let (s', rs) = nxt claims q s in (s', preset [(''X-New-Token'', [tok])] rs)))"

record FingerprintBindingConfig =
  fb_BindToIP :: bool
  fb_BindToUserAgent :: bool

definition NewFingerprintBindingConfig :: "AuthConfig \<Rightarrow> FingerprintBindingConfig" where
  "NewFingerprintBindingConfig cfg = \<lparr>fb_BindToIP = ac_JWTBindToIP cfg, fb_BindToUserAgent = ac_JWTBindToUserAgent cfg\<rparr>"

definition remote_ip :: "Request \<Rightarrow> string" where
  "remote_ip q = (let ip = rq_RemoteAddr q; idx = strings_LastIndex ip '':'' in if 0 < idx then take (nat idx) ip else ip)"

definition FingerprintBindingMiddleware ::
    "(string \<Rightarrow> string) \<Rightarrow> FingerprintBindingConfig option \<Rightarrow> 's claims_handler \<Rightarrow> 's claims_handler" where
  "FingerprintBindingMiddleware sha cfg nxt claims q s =
     (case cfg of
        None \<Rightarrow> nxt claims q s
      | Some b \<Rightarrow>
          if \<not> fb_BindToIP b \<and> \<not> fb_BindToUserAgent b then nxt claims q s
          else case claims of
                 None \<Rightarrow> nxt claims q s
               | Some c \<Rightarrow>
                   if cl_IsAPIKey c \<or> cl_Fingerprint c = [] then nxt claims q s
                   else let expected = ComputeFingerprint sha (if fb_BindToIP b then remote_ip q else [])
                                         (if fb_BindToUserAgent b then rq_Header q ''User-Agent'' else [])
                        in if cl_Fingerprint c \<noteq> expected
                           then (s, Unauthorized ''token fingerprint mismatch: IP or User-Agent changed'')
                           else nxt claims q s)"

subsection \<open>The router\<close>

text \<open>
  What the authentication of a request depends on: the key service when one is configured, with the
  table and the answers of the database, and the token service.
\<close>

record auth_state =
  at_apiKeyAuth :: "APIKeyAuth option"
  at_keys :: key_table
  at_jwt :: JWT

record auth_env =
  ae_lib :: jwt_lib
  ae_crypto :: crypto
  ae_db :: key_db

text \<open>Which claims a request gets, or the error it is answered with.\<close>

definition request_claims :: "auth_env \<Rightarrow> gotime \<Rightarrow> auth_state \<Rightarrow> Request \<Rightarrow> (ErrorCode \<times> string) + Claims" where
  "request_claims env now st q =
     (case (case at_apiKeyAuth st of None \<Rightarrow> Inr None | Some a \<Rightarrow> Authenticate (ae_crypto env) (ae_db env) now a q (at_keys st)) of
        Inl e \<Rightarrow> Inl (ErrAPIKeyInvalid, ''invalid API key'')
      | Inr (Some c) \<Rightarrow> Inr c
      | Inr None \<Rightarrow>
          let authHeader = rq_Header q ''Authorization'' in
          if authHeader = [] then Inl (ErrMissingAuth, ''missing authorization header'')
          else let parts = strings_SplitN2 authHeader (CHR '' '') in
               if length parts \<noteq> 2 \<or> strings_ToLower (parts ! 0) \<noteq> ''bearer'' then Inl (ErrTokenInvalid, ''invalid authorization format'')
               else case ValidateToken (ae_lib env) now (parts ! 1) (at_jwt st) of
                      Inl e \<Rightarrow> Inl (ErrTokenExpired, ''invalid or expired token'')
                    | Inr c \<Rightarrow> Inr c)"

definition authMiddleware :: "auth_env \<Rightarrow> gotime \<Rightarrow> auth_state \<Rightarrow> 's claims_handler \<Rightarrow> 's handler" where
  "authMiddleware env now st nxt q s =
     (case request_claims env now st q of
        Inl (code, msg) \<Rightarrow> (s, error_response [] code msg)
      | Inr c \<Rightarrow> nxt (Some c) q s)"

definition adminMiddleware :: "'s claims_handler \<Rightarrow> 's claims_handler" where
  "adminMiddleware nxt claims q s =
     (case claims of
        None \<Rightarrow> (s, error_response [] ErrMissingAuth ''unauthorized'')
      | Some c \<Rightarrow> if cl_Role c \<noteq> ''admin'' \<and> cl_Role c \<noteq> ''superadmin''
                  then (s, error_response [] ErrInsufficientPerms ''insufficient permissions'') else nxt claims q s)"

definition refreshTokenHandler :: "jwt_lib \<Rightarrow> gotime \<Rightarrow> JWT \<Rightarrow> 's claims_handler" where
  "refreshTokenHandler lib now j claims q s =
     (case claims of
        None \<Rightarrow> (s, Unauthorized ''missing authentication'')
      | Some c \<Rightarrow>
          (case renewed_token lib now j c of
             None \<Rightarrow> (s, error_response [] ErrTokenInvalid ''failed to generate token'')
           | Some tok \<Rightarrow> (s, json_message 200 [] tok)))"

text \<open>The scope check of Access\_Control as a middleware: \<open>gate\<close> values become responses.\<close>

definition scope_claims :: "Claims \<Rightarrow> api_claims" where
  "scope_claims c = \<lparr>ac_IsAPIKey = cl_IsAPIKey c, ac_Scopes = cl_Scopes c\<rparr>"

definition scope_Middleware :: "string \<Rightarrow> 's claims_handler \<Rightarrow> 's claims_handler" where
  "scope_Middleware scope nxt claims q s =
     (case RequireScope scope (map_option scope_claims claims) of
        Pass \<Rightarrow> nxt claims q s
      | Deny msg \<Rightarrow> (s, json_message (if claims = None then 401 else 403) [] msg)
      | TooManyRequests remaining \<Rightarrow> (s, json_message 429 [] []))"

subsection \<open>Key handlers\<close>

text \<open>
  Creation, rotation and deletion of keys, on the key table. \<open>input\<close> is the decoded body (None when
  it does not decode), \<open>ok\<close> whether the statements succeed. The dispatched webhook event and the
  creation limiter are left out here; Webhook and Rate\_Middleware model them.
\<close>

definition createAPIKeyHandler ::
    "crypto \<Rightarrow> string option \<Rightarrow> bool \<Rightarrow> string \<Rightarrow> gotime \<Rightarrow> string \<Rightarrow> (string \<times> string list) option \<Rightarrow> Claims option \<Rightarrow> key_table \<Rightarrow>
     key_table \<times> int \<times> string option" where
  "createAPIKeyHandler cr random ok fresh now prefix inp claims tab =
     (case claims of
        None \<Rightarrow> (tab, 401, None)
      | Some c \<Rightarrow>
          (case inp of
             None \<Rightarrow> (tab, 400, None)
           | Some (name, scopes) \<Rightarrow>
               if strings_TrimSpace name = [] then (tab, 400, None)
               else case GenerateKey cr random \<lparr>as_prefix = prefix\<rparr> of
                      None \<Rightarrow> (tab, 500, None)
                    | Some (plaintext, hash, short) \<Rightarrow>
                        let key = \<lparr>ak_ID = [], ak_UserID = cl_UserID c, ak_Name = strings_TrimSpace name, ak_KeyHash = hash, ak_Prefix = short,
                                   ak_Scopes = scopes, ak_IsActive = True, ak_LastUsedAt = None, ak_ExpiresAt = None,
                                   ak_RotationTokenHash = [], ak_RotatedAt = None, ak_CreatedAt = 0\<rparr>
                        in case key_Create ok fresh now key tab of
                             (tab', None) \<Rightarrow> (tab', 500, None)
                           | (tab', Some row) \<Rightarrow> (tab', 201, Some plaintext)))"

definition rotateAPIKeyHandler ::
    "crypto \<Rightarrow> string option \<Rightarrow> string option \<Rightarrow> bool \<Rightarrow> string \<Rightarrow> gotime \<Rightarrow> string \<Rightarrow> string \<Rightarrow> Claims option \<Rightarrow> key_table \<Rightarrow>
     key_table \<times> int \<times> string option" where
  "rotateAPIKeyHandler cr random random' ok fresh now prefix keyID claims tab =
     (case claims of
        None \<Rightarrow> (tab, 401, None)
      | Some c \<Rightarrow>
          (case RotateKey cr random random' \<lparr>as_prefix = prefix\<rparr> of
             None \<Rightarrow> (tab, 500, None)
           | Some r \<Rightarrow>
               (case RotateAPIKey ok fresh now keyID (cl_UserID c) (rt_NewHash r) (rt_NewPrefix r) (rt_RotationTokenHash r) (24 * Hour) tab of
                  (tab', Some new) \<Rightarrow> (tab', 201, Some (rt_NewPlaintext r))
                | (tab', None) \<Rightarrow>
                    (tab', if list_ex (\<lambda>k. ak_ID k = keyID \<and> ak_UserID k = cl_UserID c) tab then 500 else 404, None))))"

definition deleteAPIKeyHandler :: "bool \<Rightarrow> string \<Rightarrow> Claims option \<Rightarrow> key_table \<Rightarrow> key_table \<times> int" where
  "deleteAPIKeyHandler ok keyID claims tab =
     (case claims of
        None \<Rightarrow> (tab, 401)
      | Some c \<Rightarrow>
          (case key_Delete ok keyID (cl_UserID c) tab of
             (tab', True) \<Rightarrow> (tab', 204)
           | (tab', False) \<Rightarrow> (tab', if ok then 404 else 500)))"

subsection \<open>Properties of authentication\<close>

lemma find_SomeD: "find P xs = Some x \<Longrightarrow> x \<in> set xs \<and> P x"
  by (auto simp: find_Some_iff)

lemma admit_key_Inr:
  "admit_key db now k = Inr r \<longleftrightarrow>
     ak_IsActive k \<and> \<not> key_expired now k \<and> (\<exists>role. kd_role db (ak_UserID k) = Some role \<and> r = Some (key_claims role k))"
  by (auto simp: admit_key_def split: option.splits)

text \<open>The row behind a presented key: it matches by its hash, or the key is its rotation token.\<close>

definition key_matches :: "crypto \<Rightarrow> string \<Rightarrow> APIKey \<Rightarrow> bool" where
  "key_matches cr plaintext k \<longleftrightarrow>
     VerifyKey cr plaintext (ak_KeyHash k) \<or> (ak_RotationTokenHash k = SHA256Hash cr plaintext \<and> ak_RotatedAt k \<noteq> None)"

lemma Authenticate_Some:
  assumes "Authenticate cr db now a q tab = Inr (Some c)"
  shows "(extractAPIKey q = localDevKey \<and> aa_allowLocalDev a \<and> c = local_dev_claims) \<or>
    (extractAPIKey q \<noteq> [] \<and> extractAPIKey q \<noteq> localDevKey \<and>
     (\<exists>k \<in> set tab. \<exists>role. key_matches cr (extractAPIKey q) k \<and> ak_IsActive k \<and> \<not> key_expired now k \<and>
        kd_role db (ak_UserID k) = Some role \<and> c = key_claims role k))"
  using assms unfolding Authenticate_def Let_def findAPIKeyByHash_def rotated_key_def key_matches_def
  by (auto simp: admit_key_Inr split: if_splits option.splits dest!: find_SomeD)

lemma Authenticate_None: "Authenticate cr db now a q tab = Inr None \<longleftrightarrow> extractAPIKey q = []"
  unfolding Authenticate_def Let_def findAPIKeyByHash_def
  by (auto simp: admit_key_Inr localDevKey_def split: if_splits option.splits)

text \<open>
  C4. Who gets past the authentication. A handler behind it runs only with claims that come from an
  active, unexpired key of the table that matches the presented key, whose owner exists, with that
  key's user and scopes; or, when no key is presented, from a bearer token the token service
  validates; or from the development key where it is allowed. Every other request, also when the
  database fails, is answered with 401 and the state behind is not touched.
\<close>

theorem authentication_sound:
  assumes "authMiddleware env now st nxt q s = (s', rs)" "at_apiKeyAuth st = Some a"
  shows "(s' = s \<and> rs_Status rs = 401) \<or>
    (\<exists>c. nxt (Some c) q s = (s', rs) \<and>
       ((cl_IsAPIKey c \<and> extractAPIKey q = localDevKey \<and> aa_allowLocalDev a \<and> c = local_dev_claims) \<or>
        (cl_IsAPIKey c \<and> extractAPIKey q \<noteq> [] \<and>
         (\<exists>k \<in> set (at_keys st). key_matches (ae_crypto env) (extractAPIKey q) k \<and> ak_IsActive k \<and> \<not> key_expired now k \<and>
            cl_UserID c = ak_UserID k \<and> cl_Scopes c = ak_Scopes k \<and> kd_role (ae_db env) (ak_UserID k) = Some (cl_Role c))) \<or>
        (extractAPIKey q = [] \<and> ValidateToken (ae_lib env) now (extractBearerToken q) (at_jwt st) = Inr c)))"
proof (cases "request_claims env now st q")
  case (Inl e)
  then have "fst e \<in> {ErrAPIKeyInvalid, ErrMissingAuth, ErrTokenInvalid, ErrTokenExpired}"
    unfolding request_claims_def Let_def assms(2) by (auto split: sum.splits option.splits if_splits)
  then show ?thesis using assms(1) Inl
    by (cases e) (auto simp: authMiddleware_def error_response_def HTTPStatus_def apierror_New_def)
next
  case (Inr c)
  then have run: "nxt (Some c) q s = (s', rs)" using assms(1) by (simp add: authMiddleware_def)
  consider "Authenticate (ae_crypto env) (ae_db env) now a q (at_keys st) = Inr (Some c)"
    | "Authenticate (ae_crypto env) (ae_db env) now a q (at_keys st) = Inr None" "ValidateToken (ae_lib env) now (extractBearerToken q) (at_jwt st) = Inr c"
    using Inr unfolding request_claims_def Let_def assms(2)
    by (auto simp: extractBearerToken_def Let_def split: sum.splits option.splits if_splits)
  then show ?thesis
  proof cases
    case 1
    show ?thesis using Authenticate_Some [OF 1]
      by - (rule disjI2, rule exI [of _ c], rule conjI, rule run, auto simp: key_claims_def local_dev_claims_def)
  next
    case 2
    then show ?thesis by - (rule disjI2, rule exI [of _ c], rule conjI, rule run, simp add: Authenticate_None)
  qed
qed

lemma bearer_header: "rq_Header q ''Authorization'' = ''Bearer '' @ tok \<Longrightarrow> extractBearerToken q = tok"
proof -
  assume h: "rq_Header q ''Authorization'' = ''Bearer '' @ tok"
  have "strings_SplitN2 (''Bearer'' @ CHR '' '' # tok) (CHR '' '') = [''Bearer'', tok]"
    using takeWhile_append_sep [of "CHR '' ''" "''Bearer''" tok] by (simp add: strings_SplitN2_def)
  moreover have "strings_ToLower ''Bearer'' = ''bearer''" by code_simp
  ultimately show ?thesis by (simp add: extractBearerToken_def h)
qed

lemma dotted_no_key: "CHR ''.'' \<in> set tok \<Longrightarrow> \<not> looks_like_key tok"
  by (auto simp: looks_like_key_def localDevKey_def Contains_char)

lemma bearer_request_claims:
  assumes "rq_Header q ''X-API-Key'' = []" "rq_Header q ''Authorization'' = ''Bearer '' @ tok" "CHR ''.'' \<in> set tok"
    and "ValidateToken (ae_lib env) now tok (at_jwt st) = Inr c"
  shows "request_claims env now st q = Inr c"
proof -
  have e: "extractBearerToken q = tok" by (rule bearer_header [OF assms(2)])
  have "extractAPIKey q = []" using assms(1,3) dotted_no_key by (simp add: extractAPIKey_def Let_def e)
  then have none: "Authenticate cr db now a q tab = Inr None" for cr db a tab by (simp add: Authenticate_None)
  have "strings_SplitN2 (''Bearer'' @ CHR '' '' # tok) (CHR '' '') = [''Bearer'', tok]"
    using takeWhile_append_sep [of "CHR '' ''" "''Bearer''" tok] by (simp add: strings_SplitN2_def)
  moreover have "strings_ToLower ''Bearer'' = ''bearer''" by code_simp
  ultimately show ?thesis using assms(2,4) none by (simp add: request_claims_def split: option.splits)
qed

text \<open>A concrete deployment: one key with one scope, and a library that signs every claim as one token.\<close>

definition demo_key :: APIKey where
  "demo_key =
     \<lparr>ak_ID = ''k1'', ak_UserID = ''u1'', ak_Name = ''ci'', ak_KeyHash = ''va_1'', ak_Prefix = ''va_1'', ak_Scopes = [''scan:write''],
      ak_IsActive = True, ak_LastUsedAt = None, ak_ExpiresAt = Some (5 * Second), ak_RotationTokenHash = [], ak_RotatedAt = None, ak_CreatedAt = 0\<rparr>"

definition demo_crypto :: crypto where
  "demo_crypto = \<lparr>cr_sha = (\<lambda>s. s), cr_hmac = (\<lambda>s. ''h'' @ s), cr_bcrypt = Some, cr_compare = (=)\<rparr>"

definition demo_jwt :: JWT where
  "demo_jwt =
     \<lparr>jt_secret = replicate 32 (CHR ''s''), jt_expiration = 60 * Minute, jt_audience = ''vigilagent-api'', jt_bindToIP = False,
      jt_bindToUserAgent = False, jt_revocationTimestamps = []\<rparr>"

definition demo_auth_state :: auth_state where
  "demo_auth_state = \<lparr>at_apiKeyAuth = Some \<lparr>aa_allowLocalDev = False\<rparr>, at_keys = [demo_key], at_jwt = demo_jwt\<rparr>"

definition demo_lib :: "Claims \<Rightarrow> jwt_lib" where
  "demo_lib c =
     \<lparr>jw_NumericDate = (\<lambda>t. t div Second * Second), jw_Sign = (\<lambda>key c'. if c' = c then Some ''t.1'' else None),
      jw_Parse = (\<lambda>kf issuer audience now tok.
        if tok = ''t.1'' \<and> kf True \<noteq> None \<and> cl_Issuer c = issuer \<and> audience \<in> set (cl_Audience c) \<and>
           (case cl_ExpiresAt c of None \<Rightarrow> True | Some e \<Rightarrow> now < e) then Some c else None),
      jw_ParseUnverified = (\<lambda>tok. if tok = ''t.1'' then Some c else None)\<rparr>"

definition demo_auth_env :: "Claims \<Rightarrow> auth_env" where
  "demo_auth_env c =
     \<lparr>ae_lib = demo_lib c, ae_crypto = demo_crypto, ae_db = \<lparr>kd_scan = None, kd_rotation = None, kd_role = (\<lambda>u. Some ''user'')\<rparr>\<rparr>"

definition demo_header_request :: "string \<Rightarrow> string \<Rightarrow> Request" where
  "demo_header_request name value =
     \<lparr>rq_Method = ''POST'', rq_Path = ''/api/v1/auth/refresh'', rq_RawQuery = [], rq_RemoteAddr = ''10.0.0.1:99'',
      rq_Header = (\<lambda>h. if h = name then value else []), rq_Body = []\<rparr>"

text \<open>A handler that answers with the user it was called for.\<close>

definition echo_user :: "string list claims_handler" where
  "echo_user claims q s = (case claims of None \<Rightarrow> (s, Unauthorized []) | Some c \<Rightarrow> (s @ [cl_UserID c], json_message 200 [] (cl_UserID c)))"

lemmas demo_auth_defs = demo_auth_env_def demo_auth_state_def demo_crypto_def demo_key_def demo_lib_def demo_jwt_def demo_header_request_def

lemma demo_lib_signs: "signs_faithfully (demo_lib c) key c" "dates_in_seconds (demo_lib c)"
proof -
  show "signs_faithfully (demo_lib c) key c" by (auto simp: signs_faithfully_def demo_lib_def)
  have "t div Second * Second \<le> t \<and> t < t div Second * Second + Second" for t
    by (simp add: Second_def) presburger
  then show "dates_in_seconds (demo_lib c)" by (simp add: dates_in_seconds_def demo_lib_def)
qed

theorem authentication_sound_witness:
  "fst (authMiddleware (demo_auth_env local_dev_claims) 0 demo_auth_state echo_user (demo_header_request ''X-API-Key'' ''va_1'') []) = [''u1''] \<and>
   (\<exists>k. k \<in> set (at_keys demo_auth_state) \<and> key_matches demo_crypto ''va_1'' k \<and> ak_UserID k = ''u1'') \<and>
   fst (authMiddleware (demo_auth_env local_dev_claims) (6 * Second) demo_auth_state echo_user (demo_header_request ''X-API-Key'' ''va_1'') []) = []"
proof -
  obtain s' rs where run: "authMiddleware (demo_auth_env local_dev_claims) 0 demo_auth_state echo_user (demo_header_request ''X-API-Key'' ''va_1'') [] = (s', rs)"
    by fastforce
  have res: "s' = [''u1''] \<and> rs_Status rs = 200 \<and> extractAPIKey (demo_header_request ''X-API-Key'' ''va_1'') = ''va_1''"
    using run by (auto simp: authMiddleware_def request_claims_def Authenticate_def findAPIKeyByHash_def VerifyKey_def extractAPIKey_def
      localDevKey_def admit_key_def key_expired_def key_claims_def echo_user_def Let_def Second_def demo_auth_defs)
  from authentication_sound [OF run, of "\<lparr>aa_allowLocalDev = False\<rparr>"] res
  have "\<exists>k. k \<in> set (at_keys demo_auth_state) \<and> key_matches demo_crypto ''va_1'' k \<and> ak_UserID k = ''u1''"
    by (auto simp: demo_auth_state_def demo_auth_env_def echo_user_def)
  moreover have "fst (authMiddleware (demo_auth_env local_dev_claims) (6 * Second) demo_auth_state echo_user (demo_header_request ''X-API-Key'' ''va_1'') []) = []"
    by (simp add: authMiddleware_def request_claims_def Authenticate_def findAPIKeyByHash_def VerifyKey_def extractAPIKey_def
      localDevKey_def admit_key_def key_expired_def Let_def Second_def demo_auth_defs)
  ultimately show ?thesis using run res by simp
qed

lemma token_validation:
  assumes "dates_in_seconds lib" "GenerateToken lib t0 userID email role orgID j = Some tok"
    and "signs_faithfully lib (jt_secret j) (token_claims lib t0 userID email role orgID [] j)"
    and "jt_secret j' = jt_secret j" "jt_audience j' = jt_audience j"
  shows "(t0 + jt_expiration j \<le> now \<longrightarrow> ValidateToken lib now tok j' = Inl ErrInvalidToken) \<and>
    (\<forall>t. GetRevocationTime userID j' = Some t \<longrightarrow> t0 < t \<longrightarrow> (\<exists>e. ValidateToken lib now tok j' = Inl e)) \<and>
    (now + Second \<le> t0 + jt_expiration j \<longrightarrow> (\<forall>t. GetRevocationTime userID j' = Some t \<longrightarrow> t + Second \<le> t0) \<longrightarrow>
      ValidateToken lib now tok j' = Inr (token_claims lib t0 userID email role orgID [] j))"
proof -
  let ?c = "token_claims lib t0 userID email role orgID [] j"
  have d: "jw_NumericDate lib t \<le> t" "t < jw_NumericDate lib t + Second" for t using assms(1) by (auto simp: dates_in_seconds_def)
  have "jw_Sign lib (jt_secret j) ?c = Some tok"
    using assms(2) by (simp add: GenerateToken_def GenerateTokenWithFingerprint_def split: if_splits)
  then have parse: "jw_Parse lib (\<lambda>hmac. if hmac then Some (jt_secret j') else None) ''vigilagent'' (jt_audience j') now tok =
      (if now < jw_NumericDate lib (t0 + jt_expiration j) then Some ?c else None)"
    using assms(3-5) by (simp add: signs_faithfully_def token_claims_def time_Add_def)
  have rev: "issued_before_revocation j' ?c \<longleftrightarrow> (\<exists>t. GetRevocationTime userID j' = Some t \<and> jw_NumericDate lib t0 < t)"
    by (auto simp: issued_before_revocation_def token_claims_def GetRevocationTime_def split: option.splits)
  have val: "ValidateToken lib now tok j' =
      (if now < jw_NumericDate lib (t0 + jt_expiration j)
       then if issued_before_revocation j' ?c then Inl ErrTokenRevoked else Inr ?c else Inl ErrInvalidToken)"
    by (simp add: ValidateToken_def parse)
  have over: "ValidateToken lib now tok j' = Inl ErrInvalidToken" if "t0 + jt_expiration j \<le> now"
    using that d(1) [of "t0 + jt_expiration j"] by (simp add: val)
  have revoked: "\<exists>e. ValidateToken lib now tok j' = Inl e" if "GetRevocationTime userID j' = Some t" "t0 < t" for t
    using that d(1) [of t0] order_le_less_trans by (auto simp: val rev)
  have fine: "ValidateToken lib now tok j' = Inr ?c"
    if "now + Second \<le> t0 + jt_expiration j" "\<forall>t. GetRevocationTime userID j' = Some t \<longrightarrow> t + Second \<le> t0"
  proof -
    have "now < jw_NumericDate lib (t0 + jt_expiration j)" using that(1) d(2) [of "t0 + jt_expiration j"] by simp
    moreover have "\<not> issued_before_revocation j' ?c" using that(2) d(2) [of t0] by (auto simp: rev)
    ultimately show ?thesis by (simp add: val)
  qed
  show ?thesis using over revoked fine by blast
qed

lemma token_accepted:
  assumes "dates_in_seconds lib" "GenerateToken lib t0 userID email role orgID j = Some tok"
    and "signs_faithfully lib (jt_secret j) (token_claims lib t0 userID email role orgID [] j)"
    and "now + Second \<le> t0 + jt_expiration j" "\<forall>t. GetRevocationTime userID j = Some t \<longrightarrow> t + Second \<le> t0"
  shows "ValidateToken lib now tok j = Inr (token_claims lib t0 userID email role orgID [] j)"
  using token_validation [OF assms(1-3) refl refl, of now] assms(4,5) by blast

text \<open>
  C10. The life of a session token: a token issued at \<open>t0\<close> is refused once its time is over, and
  refused when the tokens of its user were revoked after \<open>t0\<close>; it is accepted, with the claims it
  was issued for, until a second before its end if the last revocation is a second older. (Dates
  in tokens are in seconds, so a token issued in the second of the revocation is refused.)
\<close>

theorem token_lifecycle:
  assumes "dates_in_seconds lib" "GenerateToken lib t0 userID email role orgID j = Some tok"
    and "signs_faithfully lib (jt_secret j) (token_claims lib t0 userID email role orgID [] j)"
    and "jt_secret j' = jt_secret j" "jt_audience j' = jt_audience j"
  shows "(t0 + jt_expiration j \<le> now \<longrightarrow> ValidateToken lib now tok j' = Inl ErrInvalidToken) \<and>
    (\<forall>t. GetRevocationTime userID j' = Some t \<longrightarrow> t0 < t \<longrightarrow> (\<exists>e. ValidateToken lib now tok j' = Inl e)) \<and>
    (now + Second \<le> t0 + jt_expiration j \<longrightarrow> (\<forall>t. GetRevocationTime userID j' = Some t \<longrightarrow> t + Second \<le> t0) \<longrightarrow>
      ValidateToken lib now tok j' = Inr (token_claims lib t0 userID email role orgID [] j))"
  using assms by (rule token_validation)

theorem token_lifecycle_witness:
  "\<exists>c. c = token_claims (demo_lib c) Second ''u1'' [] ''user'' [] [] demo_jwt \<and>
     ValidateToken (demo_lib c) (2 * Second) ''t.1'' demo_jwt = Inr c \<and>
     (\<exists>e. ValidateToken (demo_lib c) (3 * Second) ''t.1'' (RevokeAllUserTokens (2 * Second) ''u1'' demo_jwt) = Inl e)"
proof -
  define c where "c = token_claims (demo_lib local_dev_claims) Second ''u1'' [] ''user'' [] [] demo_jwt"
  have c: "token_claims (demo_lib c) Second ''u1'' [] ''user'' [] [] demo_jwt = c"
    by (simp add: c_def token_claims_def demo_lib_def)
  have "length (jt_secret demo_jwt) = 32" by (simp add: demo_jwt_def)
  then have gen: "GenerateToken (demo_lib c) Second ''u1'' [] ''user'' [] demo_jwt = Some ''t.1''"
    by (simp add: GenerateToken_def GenerateTokenWithFingerprint_def c) (simp add: demo_lib_def)
  have sf: "signs_faithfully (demo_lib c) (jt_secret demo_jwt) (token_claims (demo_lib c) Second ''u1'' [] ''user'' [] [] demo_jwt)"
    unfolding c by (rule demo_lib_signs)
  note life = token_lifecycle [OF demo_lib_signs(2) gen sf]
  have "ValidateToken (demo_lib c) (2 * Second) ''t.1'' demo_jwt = Inr c"
    using life [of demo_jwt "2 * Second"] by (simp add: c GetRevocationTime_def) (simp add: demo_jwt_def Minute_def Second_def)
  moreover have "GetRevocationTime ''u1'' (RevokeAllUserTokens (2 * Second) ''u1'' demo_jwt) = Some (2 * Second)"
    "Second < 2 * Second" by (simp_all add: GetRevocationTime_def RevokeAllUserTokens_def Second_def)
  then have "\<exists>e. ValidateToken (demo_lib c) (3 * Second) ''t.1'' (RevokeAllUserTokens (2 * Second) ''u1'' demo_jwt) = Inl e"
    using life [of "RevokeAllUserTokens (2 * Second) ''u1'' demo_jwt" "3 * Second"] by (simp add: RevokeAllUserTokens_def)
  ultimately show ?thesis using c by metis
qed

subsection \<open>Scopes and refresh\<close>

lemma session_passes_scopes: "\<not> cl_IsAPIKey c \<Longrightarrow> RequireScope scope (Some (scope_claims c)) = Pass"
  by (simp add: RequireScope_def scope_claims_def)

lemma refresh_answer:
  assumes "authMiddleware env now st (refreshTokenHandler (ae_lib env) now (at_jwt st)) q s = (s', rs)" "rs_Status rs = 200"
  shows "\<exists>c. request_claims env now st q = Inr c \<and> renewed_token (ae_lib env) now (at_jwt st) c = Some (rs_Body rs)"
proof (cases "request_claims env now st q")
  case (Inl e)
  then have "rs_Status rs = errorCodeToStatus (fst e)"
    using assms(1) by (cases e) (auto simp: authMiddleware_def error_response_def HTTPStatus_def apierror_New_def)
  moreover have "errorCodeToStatus code \<noteq> 200" for code by (cases code) simp_all
  ultimately show ?thesis using assms(2) by simp
next
  case (Inr c)
  then show ?thesis using assms
    by (auto simp: authMiddleware_def refreshTokenHandler_def json_message_def error_response_def HTTPStatus_def apierror_New_def split: option.splits)
qed

text \<open>
  C9. Scopes of a key do not bind its holder. While the key itself is refused with 403 on every route whose scope it lacks,
  the refresh route has no scope check: it answers a request with an API key with 200 and a session token. Presented in a later
  request, also after the key was deleted or has expired, that token is accepted with the user and role of the
  key, is not an API key any more, and passes the scope check of every route.
\<close>

theorem refresh_escalates_scopes:
  assumes "dates_in_seconds (ae_lib env)"
    and "at_apiKeyAuth st = Some auth" "Authenticate (ae_crypto env) (ae_db env) now auth q (at_keys st) = Inr (Some (key_claims role k))"
    and "32 \<le> length (jt_secret (at_jwt st))"
    and "jw_Sign (ae_lib env) (jt_secret (at_jwt st)) (token_claims (ae_lib env) now (ak_UserID k) [] role [] [] (at_jwt st)) = Some tok"
    and "signs_faithfully (ae_lib env) (jt_secret (at_jwt st)) (token_claims (ae_lib env) now (ak_UserID k) [] role [] [] (at_jwt st))"
    and "at_jwt st' = at_jwt st" "now' + Second \<le> now + jt_expiration (at_jwt st)"
    and "\<forall>t. GetRevocationTime (ak_UserID k) (at_jwt st) = Some t \<longrightarrow> t + Second \<le> now"
    and "rq_Header q' ''X-API-Key'' = []" "rq_Header q' ''Authorization'' = ''Bearer '' @ tok"
  shows "authMiddleware env now st (refreshTokenHandler (ae_lib env) now (at_jwt st)) q s = (s, json_message 200 [] tok) \<and>
    (\<forall>scope nxt. \<not> hasScope (ak_Scopes k) scope \<longrightarrow> rs_Status (snd (authMiddleware env now st (scope_Middleware scope nxt) q s)) = 403) \<and>
    (\<exists>c'. request_claims env now' st' q' = Inr c' \<and> cl_UserID c' = ak_UserID k \<and> cl_Role c' = role \<and> \<not> cl_IsAPIKey c' \<and>
       (\<forall>scope nxt. authMiddleware env now' st' (scope_Middleware scope nxt) q' s = nxt (Some c') q' s))"
proof -
  let ?c = "token_claims (ae_lib env) now (ak_UserID k) [] role [] [] (at_jwt st)" and ?j = "at_jwt st"
  have key: "request_claims env now st q = Inr (key_claims role k)" using assms(2,3) by (simp add: request_claims_def)
  have tok: "GenerateToken (ae_lib env) now (ak_UserID k) [] role [] ?j = Some tok"
    using assms(4,5) by (simp add: GenerateToken_def GenerateTokenWithFingerprint_def)
  have refreshed: "authMiddleware env now st (refreshTokenHandler (ae_lib env) now ?j) q s = (s, json_message 200 [] tok)"
    using tok by (simp add: authMiddleware_def key refreshTokenHandler_def renewed_token_def key_claims_def)
  have denied: "rs_Status (snd (authMiddleware env now st (scope_Middleware scope nxt) q s)) = 403" if "\<not> hasScope (ak_Scopes k) scope" for scope nxt
    using that by (simp add: authMiddleware_def key scope_Middleware_def RequireScope_def scope_claims_def key_claims_def json_message_def)
  have dot: "CHR ''.'' \<in> set tok" using assms(5,6) by (simp add: signs_faithfully_def)
  have "ValidateToken (ae_lib env) now' tok (at_jwt st') = Inr ?c"
    using token_accepted [OF assms(1) tok assms(6)] assms(7-9) by simp
  then have "request_claims env now' st' q' = Inr ?c"
    by (rule bearer_request_claims [OF assms(10,11) dot])
  moreover have "\<not> cl_IsAPIKey ?c" by (simp add: token_claims_def)
  ultimately show ?thesis using session_passes_scopes [of ?c] refreshed denied
    by (intro conjI exI [of _ ?c]) (auto simp: token_claims_def scope_Middleware_def authMiddleware_def)
qed

text \<open>
  A key with the scope of the scanner only: it is refused where \<^verbatim>\<open>admin\<close> is required, refreshed, and admitted there with the
  token after it was deleted.
\<close>

theorem refresh_escalates_scopes_witness:
  "\<exists>c. rs_Status (snd (authMiddleware (demo_auth_env c) 0 demo_auth_state (scope_Middleware ''admin'' (\<lambda>_ _ _. (True, json_message 200 [] []))) (demo_header_request ''X-API-Key'' ''va_1'') False)) = 403 \<and>
     authMiddleware (demo_auth_env c) 0 demo_auth_state (refreshTokenHandler (demo_lib c) 0 demo_jwt) (demo_header_request ''X-API-Key'' ''va_1'') False
       = (False, json_message 200 [] ''t.1'') \<and>
     fst (authMiddleware (demo_auth_env c) (7 * Second) (demo_auth_state\<lparr>at_keys := []\<rparr>) (scope_Middleware ''admin'' (\<lambda>_ _ _. (True, json_message 200 [] [])))
       (demo_header_request ''Authorization'' ''Bearer t.1'') False)"
proof -
  define c where "c = token_claims (demo_lib local_dev_claims) 0 ''u1'' [] ''user'' [] [] demo_jwt"
  let ?q = "demo_header_request ''X-API-Key'' ''va_1''"
  let ?q' = "demo_header_request ''Authorization'' ''Bearer t.1''"
  have c: "token_claims (demo_lib c) 0 ''u1'' [] ''user'' [] [] demo_jwt = c"
    by (simp add: c_def token_claims_def demo_lib_def)
  have lib: "ae_lib (demo_auth_env c) = demo_lib c" "at_jwt demo_auth_state = demo_jwt" by (simp_all add: demo_auth_env_def demo_auth_state_def)
  have auth: "at_apiKeyAuth demo_auth_state = Some (the (at_apiKeyAuth demo_auth_state))" by (simp add: demo_auth_state_def)
  have claims: "Authenticate (ae_crypto (demo_auth_env c)) (ae_db (demo_auth_env c)) 0 (the (at_apiKeyAuth demo_auth_state)) ?q (at_keys demo_auth_state) = Inr (Some (key_claims ''user'' demo_key))"
    by (simp add: Authenticate_def findAPIKeyByHash_def VerifyKey_def extractAPIKey_def
      localDevKey_def admit_key_def key_expired_def Let_def Second_def demo_auth_env_def demo_auth_state_def demo_crypto_def demo_key_def demo_header_request_def)
  have k: "ak_UserID demo_key = ''u1''" by (simp add: demo_key_def)
  have sign: "jw_Sign (demo_lib c) (jt_secret demo_jwt) c = Some ''t.1''" by (simp add: demo_lib_def)
  have scope: "\<not> hasScope (ak_Scopes demo_key) ''admin''" by code_simp
  note r = refresh_escalates_scopes [OF _ auth claims, where tok = "''t.1''" and st' = "demo_auth_state\<lparr>at_keys := []\<rparr>" and now' = "7 * Second" and q' = ?q' and s = False, unfolded lib k c]
  have r': "authMiddleware (demo_auth_env c) 0 demo_auth_state (refreshTokenHandler (demo_lib c) 0 demo_jwt) ?q False = (False, json_message 200 [] ''t.1'') \<and>
    (\<forall>scope nxt. \<not> hasScope (ak_Scopes demo_key) scope \<longrightarrow> rs_Status (snd (authMiddleware (demo_auth_env c) 0 demo_auth_state (scope_Middleware scope nxt) ?q False)) = 403) \<and>
    (\<exists>c'. request_claims (demo_auth_env c) (7 * Second) (demo_auth_state\<lparr>at_keys := []\<rparr>) ?q' = Inr c' \<and> cl_UserID c' = ''u1'' \<and> cl_Role c' = ''user'' \<and> \<not> cl_IsAPIKey c' \<and>
       (\<forall>scope nxt. authMiddleware (demo_auth_env c) (7 * Second) (demo_auth_state\<lparr>at_keys := []\<rparr>) (scope_Middleware scope nxt) ?q' False = nxt (Some c') ?q' False))"
    by (rule r) (simp_all add: sign lib demo_lib_signs GetRevocationTime_def, simp_all add: demo_jwt_def demo_header_request_def demo_auth_state_def Minute_def Second_def)
  then show ?thesis using scope by (intro exI [of _ c]) fastforce
qed

subsection \<open>Rotation\<close>

lemma find_only: "x \<in> set xs \<Longrightarrow> P x \<Longrightarrow> (\<And>y. y \<in> set xs \<Longrightarrow> P y \<Longrightarrow> y = x) \<Longrightarrow> find P xs = Some x"
  by (cases "find P xs") (metis find_None_iff, metis find_SomeD)

lemma Authenticate_unique:
  assumes "extractAPIKey q = p" "p \<noteq> []" "p \<noteq> localDevKey" "kd_scan db = None" "k \<in> set tab" "ak_IsActive k" "VerifyKey cr p (ak_KeyHash k)"
    and "\<And>k'. k' \<in> set tab \<Longrightarrow> VerifyKey cr p (ak_KeyHash k') \<Longrightarrow> k' = k" "kd_role db (ak_UserID k) = Some role"
  shows "Authenticate cr db t a q tab = (if key_expired t k then Inl ErrExpiredAPIKey else Inr (Some (key_claims role k)))"
proof -
  have "find (\<lambda>k. ak_IsActive k \<and> VerifyKey cr p (ak_KeyHash k)) tab = Some k"
    by (rule find_only [OF assms(5)]) (use assms(6-8) in blast)+
  then show ?thesis using assms(1-4,6,9) by (simp add: Authenticate_def findAPIKeyByHash_def admit_key_def)
qed

text \<open>
  Rotation. After a successful rotation of a key, the key handed out is accepted at any later
  time with the user and the scopes of the old one; the old key is accepted for exactly 24 hours
  and refused as expired afterwards. Both hold whatever expiry the old key had: a key that had
  already expired is accepted again for a day, and its successor does not expire. (Each of the two
  keys is assumed to match the hash of its own row only.)
\<close>

theorem rotation_grace:
  assumes "rotateAPIKeyHandler cr random random' True fresh now prefix (ak_ID old) (Some c) tab = (tab', 201, Some newKey)"
    and "old \<in> set tab" "ak_UserID old = cl_UserID c" "ak_IsActive old" "distinct (map ak_ID tab)" "kd_scan db = None"
    and "kd_role db (cl_UserID c) = Some role"
    and "RotateKey cr random random' \<lparr>as_prefix = prefix\<rparr> = Some r" "VerifyKey cr newKey (rt_NewHash r)" "\<not> VerifyKey cr p (rt_NewHash r)"
    and "\<And>k. k \<in> set tab \<Longrightarrow> \<not> VerifyKey cr newKey (ak_KeyHash k) \<and> (VerifyKey cr p (ak_KeyHash k) \<longleftrightarrow> k = old)"
    and "extractAPIKey q = p" "p \<noteq> []" "p \<noteq> localDevKey" "extractAPIKey q' = newKey" "newKey \<noteq> []" "newKey \<noteq> localDevKey"
  shows "(\<exists>k \<in> set tab'. ak_Scopes k = ak_Scopes old \<and> ak_UserID k = ak_UserID old \<and> Authenticate cr db t a q' tab' = Inr (Some (key_claims role k))) \<and>
    (t \<le> now + 24 * Hour \<longrightarrow> (\<exists>k \<in> set tab'. ak_ID k = ak_ID old \<and> Authenticate cr db t a q tab' = Inr (Some (key_claims role k)))) \<and>
    (now + 24 * Hour < t \<longrightarrow> Authenticate cr db t a q tab' = Inl ErrExpiredAPIKey)"
proof -
  have same: "k = old" if "k \<in> set tab" "ak_ID k = ak_ID old" for k
    using assms(2,5) that by (metis distinct_map inj_on_eq_iff)
  have "find (\<lambda>k. ak_ID k = ak_ID old \<and> ak_UserID k = cl_UserID c) tab = Some old"
    using assms(2,3) same by (intro find_only) auto
  then obtain new where tab': "tab' = map (\<lambda>k. if ak_ID k = ak_ID old then mark_rotated now (rt_RotationTokenHash r) (24 * Hour) k else k) tab @ [new]"
    and new: "ak_KeyHash new = rt_NewHash r" "ak_Scopes new = ak_Scopes old" "ak_UserID new = cl_UserID c" "ak_IsActive new" "ak_ExpiresAt new = None"
    using assms(1,8) by (auto simp: rotateAPIKeyHandler_def RotateAPIKey_def Let_def)
  define old' where "old' = mark_rotated now (rt_RotationTokenHash r) (24 * Hour) old"
  have old': "ak_KeyHash old' = ak_KeyHash old" "ak_UserID old' = cl_UserID c" "ak_IsActive old'" "ak_ID old' = ak_ID old"
    "key_expired t old' \<longleftrightarrow> now + 24 * Hour < t"
    using assms(3,4) by (simp_all add: old'_def mark_rotated_def key_expired_def Hour_def Minute_def Second_def)
  have mem: "k \<in> set tab' \<longleftrightarrow> k = new \<or> k = old' \<or> (k \<in> set tab \<and> ak_ID k \<noteq> ak_ID old)" for k
    unfolding tab' using assms(2) same by (auto simp: old'_def image_iff)
  have oldhash: "VerifyKey cr p (ak_KeyHash old)" using assms(2) assms(11) by blast
  have isnew: "k = new" if "k \<in> set tab'" "VerifyKey cr newKey (ak_KeyHash k)" for k
    using that assms(2) assms(11) by (auto simp: mem old'(1))
  have isold: "k = old'" if "k \<in> set tab'" "VerifyKey cr p (ak_KeyHash k)" for k
    using that assms(10) assms(11) by (auto simp: mem new(1))
  have a: "Authenticate cr db t a q' tab' = Inr (Some (key_claims role new))"
  proof (subst Authenticate_unique [OF assms(15-17,6)])
    show "new \<in> set tab'" by (simp add: mem)
    show "k' = new" if "k' \<in> set tab'" "VerifyKey cr newKey (ak_KeyHash k')" for k' using isnew that .
  qed (use assms(7,9) new in \<open>simp_all add: key_expired_def\<close>)
  have b: "Authenticate cr db t a q tab' = (if now + 24 * Hour < t then Inl ErrExpiredAPIKey else Inr (Some (key_claims role old')))"
  proof (subst Authenticate_unique [OF assms(12-14,6)])
    show "old' \<in> set tab'" by (simp add: mem)
    show "k' = old'" if "k' \<in> set tab'" "VerifyKey cr p (ak_KeyHash k')" for k' using isold that .
  qed (use assms(7) old' oldhash in simp_all)
  show ?thesis using a b new(2,3) old'(4) assms(3) mem by auto
qed

theorem rotation_grace_witness:
  "\<exists>tab'. key_expired (9 * Second) demo_key \<and>
     rotateAPIKeyHandler demo_crypto (Some ''2'') (Some ''3'') True ''k2'' (9 * Second) ''va_'' ''k1'' (Some (key_claims ''user'' demo_key)) [demo_key] =
       (tab', 201, Some ''va_2'') \<and>
     (\<exists>k. k \<in> set tab' \<and> ak_ID k = ''k1'' \<and>
       Authenticate demo_crypto \<lparr>kd_scan = None, kd_rotation = None, kd_role = (\<lambda>u. Some ''user'')\<rparr> (10 * Second) \<lparr>aa_allowLocalDev = False\<rparr>
         (demo_header_request ''X-API-Key'' ''va_1'') tab' = Inr (Some (key_claims ''user'' k)))"
proof -
  let ?db = "\<lparr>kd_scan = None, kd_rotation = None, kd_role = (\<lambda>u. Some ''user'')\<rparr>"
  obtain tab' where run: "rotateAPIKeyHandler demo_crypto (Some ''2'') (Some ''3'') True ''k2'' (9 * Second) ''va_'' (ak_ID demo_key)
      (Some (key_claims ''user'' demo_key)) [demo_key] = (tab', 201, Some ''va_2'')"
    by (simp add: rotateAPIKeyHandler_def RotateKey_def GenerateKey_def GenerateRotationToken_def RotateAPIKey_def Let_def key_claims_def demo_key_def demo_crypto_def)
  have rot: "\<exists>r. RotateKey demo_crypto (Some ''2'') (Some ''3'') \<lparr>as_prefix = ''va_''\<rparr> = Some r \<and> rt_NewHash r = ''va_2''"
    by (simp add: RotateKey_def GenerateKey_def GenerateRotationToken_def Let_def demo_crypto_def)
  then obtain r where r: "RotateKey demo_crypto (Some ''2'') (Some ''3'') \<lparr>as_prefix = ''va_''\<rparr> = Some r" "rt_NewHash r = ''va_2''" by blast
  have "(10 * Second \<le> 9 * Second + 24 * Hour \<longrightarrow> (\<exists>k \<in> set tab'. ak_ID k = ak_ID demo_key \<and>
      Authenticate demo_crypto ?db (10 * Second) \<lparr>aa_allowLocalDev = False\<rparr> (demo_header_request ''X-API-Key'' ''va_1'') tab' = Inr (Some (key_claims ''user'' k))))"
    using rotation_grace [OF run, of ?db "''user''" r "''va_1''" "demo_header_request ''X-API-Key'' ''va_1''" "demo_header_request ''X-API-Key'' ''va_2''"
      "10 * Second" "\<lparr>aa_allowLocalDev = False\<rparr>"] r
    by (auto simp: key_claims_def demo_key_def VerifyKey_def demo_crypto_def extractAPIKey_def demo_header_request_def localDevKey_def)
  moreover have "10 * Second \<le> 9 * Second + 24 * Hour" "ak_ID demo_key = ''k1''" "key_expired (9 * Second) demo_key"
    by (simp_all add: Hour_def Minute_def Second_def demo_key_def key_expired_def)
  ultimately show ?thesis using run by auto
qed

end
