(* ===== verification/Permissions.thy ===== *)
theory Permissions
  imports Go_Prelude
begin

text \<open>
  Tenant checks of the handlers (\<^verbatim>\<open>router/permissions.go\<close>): what belongs to which organization, and who
  may see it. The repositories are a record of lookups, which answer a row or the text of an error, also that of a
  missing row. The checks answer what they found or the text of an error. The stored entities carry the fields the
  checks read.
\<close>

record Project =
  pj_ID :: string
  pj_OrgID :: string

record project_child =
  pc_ID :: string
  pc_ProjectID :: string

record 'o stores =
  st_org :: "string \<Rightarrow> string + 'o"
  st_project :: "string \<Rightarrow> string + Project"
  st_agent :: "string \<Rightarrow> string + project_child"
  st_session :: "string \<Rightarrow> string + project_child"
  st_task :: "string \<Rightarrow> string + project_child"
  st_IsMember :: "string \<Rightarrow> string \<Rightarrow> string + bool"
  st_IsOwner :: "string \<Rightarrow> string \<Rightarrow> string + bool"

definition errAccessDenied :: string where
  "errAccessDenied = ''access denied''"

definition member_of :: "'o stores \<Rightarrow> string \<Rightarrow> string \<Rightarrow> bool" where
  "member_of st orgID userID \<longleftrightarrow> st_IsMember st orgID userID = Inr True"

definition owner_of :: "'o stores \<Rightarrow> string \<Rightarrow> string \<Rightarrow> bool" where
  "owner_of st orgID userID \<longleftrightarrow> st_IsOwner st orgID userID = Inr True"

definition requireOrgMember :: "'o stores \<Rightarrow> string \<Rightarrow> string \<Rightarrow> string option" where
  "requireOrgMember st orgID userID = (if \<not> member_of st orgID userID then Some errAccessDenied else None)"

definition requireOrgMemberWithOrg :: "'o stores \<Rightarrow> string \<Rightarrow> string \<Rightarrow> string + 'o" where
  "requireOrgMemberWithOrg st orgID userID =
     (case st_org st orgID of
        Inl err \<Rightarrow> Inl errAccessDenied
      | Inr org \<Rightarrow> if \<not> member_of st orgID userID then Inl errAccessDenied else Inr org)"

definition requireOrgOwner :: "'o stores \<Rightarrow> string \<Rightarrow> string \<Rightarrow> string option" where
  "requireOrgOwner st orgID userID = (if \<not> owner_of st orgID userID then Some errAccessDenied else None)"

definition requireProjectMember :: "'o stores \<Rightarrow> string \<Rightarrow> string \<Rightarrow> string + Project" where
  "requireProjectMember st projectID userID =
     (case st_project st projectID of
        Inl err \<Rightarrow> Inl errAccessDenied
      | Inr project \<Rightarrow> if \<not> member_of st (pj_OrgID project) userID then Inl errAccessDenied else Inr project)"

text \<open>The common shape of the checks on agents, sessions and tasks.\<close>

definition require_child :: "'o stores \<Rightarrow> string + project_child \<Rightarrow> string \<Rightarrow> string + project_child \<times> Project" where
  "require_child st child userID =
     (case child of
        Inl err \<Rightarrow> Inl errAccessDenied
      | Inr x \<Rightarrow>
          (case st_project st (pc_ProjectID x) of
             Inl err \<Rightarrow> Inl errAccessDenied
           | Inr project \<Rightarrow> if \<not> member_of st (pj_OrgID project) userID then Inl errAccessDenied else Inr (x, project)))"

definition requireAgentMember :: "'o stores \<Rightarrow> string \<Rightarrow> string \<Rightarrow> string + project_child \<times> Project" where
  "requireAgentMember st agentID userID = require_child st (st_agent st agentID) userID"

definition requireSessionMember :: "'o stores \<Rightarrow> string \<Rightarrow> string \<Rightarrow> string + project_child \<times> Project" where
  "requireSessionMember st sessionID userID = require_child st (st_session st sessionID) userID"

definition requireTaskMember :: "'o stores \<Rightarrow> string \<Rightarrow> string \<Rightarrow> string + project_child \<times> Project" where
  "requireTaskMember st taskID userID = require_child st (st_task st taskID) userID"

subsection \<open>Tenants are separate\<close>

text \<open>The answers of all seven checks to a user, as functions of the identifier asked for.\<close>

definition visible :: "'o stores \<Rightarrow> string \<Rightarrow> (string \<Rightarrow> string option) list \<times> (string \<Rightarrow> string + 'o) \<times>
    (string \<Rightarrow> string + Project) \<times> (string \<Rightarrow> string + project_child \<times> Project) list" where
  "visible st u = ([\<lambda>i. requireOrgMember st i u, \<lambda>i. requireOrgOwner st i u], \<lambda>i. requireOrgMemberWithOrg st i u,
     \<lambda>i. requireProjectMember st i u,
     [\<lambda>i. requireAgentMember st i u, \<lambda>i. requireSessionMember st i u, \<lambda>i. requireTaskMember st i u])"

text \<open>The rows of the stores that lie in organizations of which the user is a member.\<close>

definition own_orgs :: "'o stores \<Rightarrow> string \<Rightarrow> string \<Rightarrow> 'o option" where
  "own_orgs st u i = (case st_org st i of Inr org \<Rightarrow> if member_of st i u then Some org else None | Inl err \<Rightarrow> None)"

definition own_projects :: "'o stores \<Rightarrow> string \<Rightarrow> string \<Rightarrow> Project option" where
  "own_projects st u i = (case st_project st i of Inr p \<Rightarrow> if member_of st (pj_OrgID p) u then Some p else None | Inl err \<Rightarrow> None)"

definition own_child :: "'o stores \<Rightarrow> string \<Rightarrow> string + project_child \<Rightarrow> (project_child \<times> Project) option" where
  "own_child st u c = (case c of Inr x \<Rightarrow> map_option (Pair x) (own_projects st u (pc_ProjectID x)) | Inl err \<Rightarrow> None)"

lemma require_child_own: "require_child st c u = (case own_child st u c of None \<Rightarrow> Inl errAccessDenied | Some xp \<Rightarrow> Inr xp)"
  by (simp add: require_child_def own_child_def own_projects_def split: sum.splits)

lemma org_own: "requireOrgMemberWithOrg st i u = (case own_orgs st u i of None \<Rightarrow> Inl errAccessDenied | Some org \<Rightarrow> Inr org)"
  by (simp add: requireOrgMemberWithOrg_def own_orgs_def split: sum.splits)

lemma project_own: "requireProjectMember st i u = (case own_projects st u i of None \<Rightarrow> Inl errAccessDenied | Some p \<Rightarrow> Inr p)"
  by (simp add: requireProjectMember_def own_projects_def split: sum.splits)

text \<open>
  C5. Tenants are separate. If two states of the stores agree on the organizations a user belongs to or owns
  and on what the former own, then each of the seven checks answers the user alike in both, the text of the error
  included: from an answer, a user learns nothing about the organizations, projects, agents, sessions and tasks of
  others, neither whether an identifier exists nor why a lookup failed. And a check on an entity succeeds exactly for the rows that lie in
  an organization of the user.
\<close>

theorem tenants_separate:
  assumes "\<And>i. member_of st i u = member_of st' i u" "\<And>i. owner_of st i u = owner_of st' i u"
    and "\<And>i. own_orgs st u i = own_orgs st' u i" "\<And>i. own_projects st u i = own_projects st' u i"
    and "\<And>i. own_child st u (st_agent st i) = own_child st' u (st_agent st' i)"
    and "\<And>i. own_child st u (st_session st i) = own_child st' u (st_session st' i)"
    and "\<And>i. own_child st u (st_task st i) = own_child st' u (st_task st' i)"
  shows "visible st u = visible st' u \<and>
    (\<forall>i p. requireProjectMember st i u = Inr p \<longleftrightarrow> st_project st i = Inr p \<and> member_of st (pj_OrgID p) u) \<and>
    (\<forall>c x p. require_child st c u = Inr (x, p) \<longleftrightarrow>
       c = Inr x \<and> st_project st (pc_ProjectID x) = Inr p \<and> member_of st (pj_OrgID p) u)"
proof -
  have "visible st u = visible st' u" using assms
    by (simp add: visible_def org_own project_own requireAgentMember_def requireSessionMember_def requireTaskMember_def require_child_own
        requireOrgMember_def requireOrgOwner_def fun_eq_iff)
  then show ?thesis by (auto simp: requireProjectMember_def require_child_def split: sum.splits if_splits)
qed

text \<open>Two states: in the second one the organization of others, its project and its task exist, and other errors are reported.\<close>

definition demo_stores :: "bool \<Rightarrow> unit stores" where
  "demo_stores other =
     (let missing = Inl (if other then ''timeout'' else ''no rows'') in
     \<lparr>st_org = (\<lambda>i. if i = ''mine'' \<or> (other \<and> i = ''theirs'') then Inr () else missing),
      st_project = (\<lambda>i. if i = ''p'' then Inr \<lparr>pj_ID = ''p'', pj_OrgID = ''mine''\<rparr>
                        else if other \<and> i = ''x'' then Inr \<lparr>pj_ID = ''x'', pj_OrgID = ''theirs''\<rparr> else Inl ''no rows''),
      st_agent = (\<lambda>i. Inl ''no rows''), st_session = (\<lambda>i. Inl (if other then ''timeout'' else ''no rows'')),
      st_task = (\<lambda>i. if i = ''t'' then Inr \<lparr>pc_ID = ''t'', pc_ProjectID = ''p''\<rparr>
                     else if other \<and> i = ''y'' then Inr \<lparr>pc_ID = ''y'', pc_ProjectID = ''x''\<rparr> else Inl ''no rows''),
      st_IsMember = (\<lambda>o_id u. Inr (o_id = ''mine'' \<and> u = ''me'')), st_IsOwner = (\<lambda>o_id u. Inr False)\<rparr>)"

theorem tenants_separate_witness:
  "visible (demo_stores True) ''me'' = visible (demo_stores False) ''me'' \<and>
   requireTaskMember (demo_stores True) ''y'' ''me'' = Inl errAccessDenied \<and>
   requireTaskMember (demo_stores True) ''t'' ''me'' = Inr (\<lparr>pc_ID = ''t'', pc_ProjectID = ''p''\<rparr>, \<lparr>pj_ID = ''p'', pj_OrgID = ''mine''\<rparr>)"
proof -
  have "visible (demo_stores True) ''me'' = visible (demo_stores False) ''me''"
    by (rule conjunct1 [OF tenants_separate]) (auto simp: demo_stores_def Let_def member_of_def owner_of_def own_orgs_def own_projects_def own_child_def)
  then show ?thesis
    by (simp add: requireTaskMember_def require_child_def demo_stores_def Let_def member_of_def)
qed

end
