(* ===== verification/Go_Regexp.thy ===== *)
theory Go_Regexp
  imports Go_Strings "HOL-Library.Char_ord"
begin

text \<open>
  What the sources use of Go's \<^verbatim>\<open>regexp\<close> package. An expression is a datatype; \<open>mt r s\<close> lists
  the cursors at which a match of \<open>r\<close> that starts at \<open>s\<close> can end, in the order of preference
  (alternatives left to right, \<open>Star\<close> as long as possible first, \<open>Lazy\<close> as short as possible
  first): the first one is the end of the match the package reports (leftmost-first). A cursor is the character before it, if any_char, and
  the text after it. Texts are bytes: the package counts a multi-byte character as one, which makes a
  difference for counted repetitions and negated classes on text outside ASCII only.
\<close>

datatype re =
    Eps
  | Cls "char \<Rightarrow> bool"
  | Cat re re
  | Alt re re
  | Star re
  | Lazy re
  | WordB
  | EndText

type_synonym cursor = "char option \<times> string"

definition word_char :: "char \<Rightarrow> bool" where
  "word_char c \<longleftrightarrow> (CHR ''0'' \<le> c \<and> c \<le> CHR ''9'') \<or> (CHR ''A'' \<le> c \<and> c \<le> CHR ''Z'') \<or> (CHR ''a'' \<le> c \<and> c \<le> CHR ''z'') \<or> c = CHR ''_''"

definition word_boundary :: "cursor \<Rightarrow> bool" where
  "word_boundary s \<longleftrightarrow>
     (case fst s of None \<Rightarrow> False | Some c \<Rightarrow> word_char c) \<noteq> (case snd s of [] \<Rightarrow> False | c # cs \<Rightarrow> word_char c)"

text \<open>The ends reached from those cursors that are further on: an iteration takes some text.\<close>

fun onward :: "nat \<Rightarrow> (cursor \<Rightarrow> cursor list) \<Rightarrow> cursor list \<Rightarrow> cursor list" where
  "onward n f [] = []"
| "onward n f (t # ts) = (if length (snd t) < n then f t else []) @ onward n f ts"

lemma onward_cong [fundef_cong]:
  "n = n' \<Longrightarrow> ts = ts' \<Longrightarrow> (\<And>t. t \<in> set ts' \<Longrightarrow> length (snd t) < n' \<Longrightarrow> f t = g t) \<Longrightarrow> onward n f ts = onward n' g ts'"
  by (induction ts arbitrary: ts') auto

lemma set_onward [simp]: "set (onward n f ts) = {u. \<exists>t \<in> set ts. length (snd t) < n \<and> u \<in> set (f t)}"
  by (induction ts) auto

function mt :: "re \<Rightarrow> cursor \<Rightarrow> cursor list" where
  "mt Eps s = [s]"
| "mt (Cls P) s = (case snd s of [] \<Rightarrow> [] | c # cs \<Rightarrow> if P c then [(Some c, cs)] else [])"
| "mt (Cat r1 r2) s = concat (map (mt r2) (mt r1 s))"
| "mt (Alt r1 r2) s = mt r1 s @ mt r2 s"
| "mt (Star r) s = onward (length (snd s)) (mt (Star r)) (mt r s) @ [s]"
| "mt (Lazy r) s = s # onward (length (snd s)) (mt (Lazy r)) (mt r s)"
| "mt WordB s = (if word_boundary s then [s] else [])"
| "mt EndText s = (if snd s = [] then [s] else [])"
  by pat_completeness auto
termination
  by (relation "measures [\<lambda>(r, s). size r, \<lambda>(r, s). length (snd s)]") auto

lemmas mt_iterate = mt.simps(5,6)

declare mt.simps(5,6) [simp del]

subsection \<open>Writing expressions\<close>

fun lit :: "string \<Rightarrow> re" where
  "lit [] = Eps"
| "lit (c # cs) = Cat (Cls (\<lambda>d. d = c)) (lit cs)"

fun ci :: "string \<Rightarrow> re" where
  "ci [] = Eps"
| "ci (c # cs) = Cat (Cls (\<lambda>d. ascii_lower d = ascii_lower c)) (ci cs)"

fun seqs :: "re list \<Rightarrow> re" where
  "seqs [] = Eps"
| "seqs [r] = r"
| "seqs (r # rs) = Cat r (seqs rs)"

fun alts :: "re list \<Rightarrow> re" where
  "alts [] = Cls (\<lambda>c. False)"
| "alts [r] = r"
| "alts (r # rs) = Alt r (alts rs)"

definition optional :: "re \<Rightarrow> re" where "optional r = Alt r Eps"

definition many1 :: "re \<Rightarrow> re" where "many1 r = Cat r (Star r)"

fun rep_n :: "nat \<Rightarrow> re \<Rightarrow> re" where
  "rep_n 0 r = Eps"
| "rep_n (Suc n) r = Cat r (rep_n n r)"

fun up_to :: "nat \<Rightarrow> re \<Rightarrow> re" where
  "up_to 0 r = Eps"
| "up_to (Suc n) r = optional (Cat r (up_to n r))"

definition at_least :: "nat \<Rightarrow> re \<Rightarrow> re" where "at_least n r = Cat (rep_n n r) (Star r)"

definition between :: "nat \<Rightarrow> nat \<Rightarrow> re \<Rightarrow> re" where "between m n r = Cat (rep_n m r) (up_to (n - m) r)"

definition any_char :: re where "any_char = Cls (\<lambda>c. True)"

text \<open>Without the flag \<open>s\<close> the dot_char stops at a line break.\<close>

definition dot_char :: re where "dot_char = Cls (\<lambda>c. c \<noteq> CHR 0x0A)"

definition space_class :: "char \<Rightarrow> bool" where
  "space_class c \<longleftrightarrow> c \<in> {CHR 0x09, CHR 0x0A, CHR 0x0C, CHR 0x0D, CHR '' ''}"

definition spaces :: re where "spaces = Star (Cls space_class)"

definition one_of :: "string \<Rightarrow> re" where "one_of cs = Cls (\<lambda>c. c \<in> set cs)"

definition none_of :: "string \<Rightarrow> re" where "none_of cs = Cls (\<lambda>c. c \<notin> set cs)"

subsection \<open>Searching\<close>

text \<open>The leftmost match: where it starts and where it ends.\<close>

fun find_match :: "re \<Rightarrow> char option \<Rightarrow> string \<Rightarrow> (cursor \<times> cursor) option" where
  "find_match r p [] = (case mt r (p, []) of [] \<Rightarrow> None | t # ts \<Rightarrow> Some ((p, []), t))"
| "find_match r p (c # cs) = (case mt r (p, c # cs) of [] \<Rightarrow> find_match r (Some c) cs | t # ts \<Rightarrow> Some ((p, c # cs), t))"

definition MatchString :: "re \<Rightarrow> string \<Rightarrow> bool" where
  "MatchString r s \<longleftrightarrow> find_match r None s \<noteq> None"

text \<open>
  \<^verbatim>\<open>ReplaceAllString\<close> with a replacement without \<open>$\<close>, for expressions that match no empty text (an
  empty match is passed over, which keeps the function total).
\<close>

function replace_all :: "re \<Rightarrow> string \<Rightarrow> char option \<Rightarrow> string \<Rightarrow> string" where
  "replace_all r new p [] = []"
| "replace_all r new p (c # cs) =
     (case mt r (p, c # cs) of
        t # ts \<Rightarrow> if length (snd t) \<le> length cs then new @ replace_all r new (fst t) (snd t) else c # replace_all r new (Some c) cs
      | [] \<Rightarrow> c # replace_all r new (Some c) cs)"
  by pat_completeness auto
termination
  by (relation "measure (\<lambda>(r, new, p, s). length s)") auto

definition ReplaceAllString :: "re \<Rightarrow> string \<Rightarrow> string \<Rightarrow> string" where
  "ReplaceAllString r s new = replace_all r new None s"

text \<open>
  Matches with groups: the expression is given as the list of the parts between group boundaries, a
  match as the list of the cursors at which the parts end.
\<close>

fun mts :: "re list \<Rightarrow> cursor \<Rightarrow> cursor list list" where
  "mts [] s = [[]]"
| "mts (r # rs) s = concat (map (\<lambda>t. map ((#) t) (mts rs t)) (mt r s))"

function all_matches :: "re list \<Rightarrow> char option \<Rightarrow> string \<Rightarrow> (cursor \<times> cursor list) list" where
  "all_matches rs p [] = []"
| "all_matches rs p (c # cs) =
     (case mts rs (p, c # cs) of
        ts # tss \<Rightarrow>
          if ts \<noteq> [] \<and> length (snd (last ts)) \<le> length cs
          then ((p, c # cs), ts) # all_matches rs (fst (last ts)) (snd (last ts)) else all_matches rs (Some c) cs
      | [] \<Rightarrow> all_matches rs (Some c) cs)"
  by pat_completeness auto
termination
  by (relation "measure (\<lambda>(rs, p, s). length s)") (auto simp: case_prod_beta)

text \<open>The text between two cursors of one text.\<close>

definition text_between :: "cursor \<Rightarrow> cursor \<Rightarrow> string" where
  "text_between s t = take (length (snd s) - length (snd t)) (snd s)"

subsection \<open>What a match is\<close>

text \<open>The matches of an expression, without their order of preference.\<close>

inductive matches :: "re \<Rightarrow> cursor \<Rightarrow> cursor \<Rightarrow> bool" where
  eps: "matches Eps s s"
| cls: "P c \<Longrightarrow> matches (Cls P) (p, c # cs) (Some c, cs)"
| cat: "matches r1 s t \<Longrightarrow> matches r2 t u \<Longrightarrow> matches (Cat r1 r2) s u"
| alt1: "matches r1 s t \<Longrightarrow> matches (Alt r1 r2) s t"
| alt2: "matches r2 s t \<Longrightarrow> matches (Alt r1 r2) s t"
| star0: "matches (Star r) s s"
| star: "matches r s t \<Longrightarrow> length (snd t) < length (snd s) \<Longrightarrow> matches (Star r) t u \<Longrightarrow> matches (Star r) s u"
| lazy0: "matches (Lazy r) s s"
| lazy: "matches r s t \<Longrightarrow> length (snd t) < length (snd s) \<Longrightarrow> matches (Lazy r) t u \<Longrightarrow> matches (Lazy r) s u"
| wordb: "word_boundary s \<Longrightarrow> matches WordB s s"
| endtext: "snd s = [] \<Longrightarrow> matches EndText s s"

inductive_cases matches_elims:
  "matches Eps s t" "matches (Cls P) s t" "matches (Cat r1 r2) s t" "matches (Alt r1 r2) s t"
  "matches (Star r) s t" "matches (Lazy r) s t" "matches WordB s t" "matches EndText s t"

lemma matches_cls: "snd s = c # cs \<Longrightarrow> P c \<Longrightarrow> matches (Cls P) s (Some c, cs)"
  using matches.cls [of P c "fst s" cs] by (metis prod.collapse)

lemma set_mt_iterate:
  "set (mt (Star r) s) = insert s {u. \<exists>t \<in> set (mt r s). length (snd t) < length (snd s) \<and> u \<in> set (mt (Star r) t)}"
  "set (mt (Lazy r) s) = insert s {u. \<exists>t \<in> set (mt r s). length (snd t) < length (snd s) \<and> u \<in> set (mt (Lazy r) t)}"
  by (subst mt_iterate, simp)+

lemma mt_sound: "t \<in> set (mt r s) \<Longrightarrow> matches r s t"
proof (induction r s arbitrary: t rule: mt.induct)
  case (2 P s)
  then show ?case by (auto split: list.splits if_splits intro: matches_cls)
next
  case (5 r s)
  then have "t = s \<or> (\<exists>u \<in> set (mt r s). length (snd u) < length (snd s) \<and> t \<in> set (mt (Star r) u))" by (simp add: set_mt_iterate(1) [of r s])
  with 5 show ?case by (meson matches.star matches.star0)
next
  case (6 r s)
  then have "t = s \<or> (\<exists>u \<in> set (mt r s). length (snd u) < length (snd s) \<and> t \<in> set (mt (Lazy r) u))" by (simp add: set_mt_iterate(2) [of r s])
  with 6 show ?case by (meson matches.lazy matches.lazy0)
next
  case (3 r1 r2 s)
  then obtain u where "u \<in> set (mt r1 s)" "t \<in> set (mt r2 u)" by auto
  with 3 show ?case by (meson matches.cat)
qed (auto split: if_splits intro: matches.intros(1,4,5,10,11))

lemma mt_complete: "matches r s t \<Longrightarrow> t \<in> set (mt r s)"
proof (induction rule: matches.induct)
  case (star0 r s)
  show ?case by (simp add: set_mt_iterate(1) [of r s])
next
  case (lazy0 r s)
  show ?case by (simp add: set_mt_iterate(2) [of r s])
next
  case (star r s t u)
  then show ?case using set_mt_iterate(1) [of r s] by blast
next
  case (lazy r s t u)
  then show ?case using set_mt_iterate(2) [of r s] by blast
qed auto

lemma mt_iff: "t \<in> set (mt r s) \<longleftrightarrow> matches r s t"
  using mt_sound mt_complete by blast

text \<open>A match takes a part of the text; the cursor behind it knows its last character.\<close>

lemma matches_part: "matches r s t \<Longrightarrow> \<exists>xs. snd s = xs @ snd t \<and> fst t = (if xs = [] then fst s else Some (last xs))"
proof (induction rule: matches.induct)
  case (cat r1 s t r2 u)
  then obtain xs ys where "snd s = xs @ snd t" "fst t = (if xs = [] then fst s else Some (last xs))"
    "snd t = ys @ snd u" "fst u = (if ys = [] then fst t else Some (last ys))" by blast
  then show ?case by (intro exI [of _ "xs @ ys"]) auto
next
  case (star r s t u)
  then obtain xs ys where "snd s = xs @ snd t" "fst t = (if xs = [] then fst s else Some (last xs))"
    "snd t = ys @ snd u" "fst u = (if ys = [] then fst t else Some (last ys))" by blast
  then show ?case by (intro exI [of _ "xs @ ys"]) auto
next
  case (lazy r s t u)
  then obtain xs ys where "snd s = xs @ snd t" "fst t = (if xs = [] then fst s else Some (last xs))"
    "snd t = ys @ snd u" "fst u = (if ys = [] then fst t else Some (last ys))" by blast
  then show ?case by (intro exI [of _ "xs @ ys"]) auto
qed auto

lemma matches_lit: "matches (lit w) s t \<longleftrightarrow> snd s = w @ snd t \<and> fst t = (if w = [] then fst s else Some (last w))"
proof (induction w arbitrary: s)
  case Nil
  then show ?case by (cases s; cases t) (auto intro: matches.intros elim: matches_elims)
next
  case (Cons c w)
  show ?case
  proof
    assume "matches (lit (c # w)) s t"
    then obtain u where "matches (Cls (\<lambda>d. d = c)) s u" "matches (lit w) u t" by (auto elim: matches_elims)
    then show "snd s = (c # w) @ snd t \<and> fst t = (if c # w = [] then fst s else Some (last (c # w)))"
      using Cons.IH by (auto elim!: matches_elims)
  next
    assume "snd s = (c # w) @ snd t \<and> fst t = (if c # w = [] then fst s else Some (last (c # w)))"
    then have "matches (Cls (\<lambda>d. d = c)) s (Some c, w @ snd t)" "matches (lit w) (Some c, w @ snd t) t"
      using Cons.IH by (auto intro: matches_cls)
    then show "matches (lit (c # w)) s t" by (auto intro: matches.intros)
  qed
qed

lemma mt_lit: "mt (lit w) s = (if \<exists>v. snd s = w @ v then [(if w = [] then fst s else Some (last w), drop (length w) (snd s))] else [])"
proof (induction w arbitrary: s)
  case (Cons c w)
  then show ?case by (cases s) (auto split: list.splits)
qed simp

text \<open>A search that finds nothing, and what a search finds.\<close>

lemma find_match_None: "find_match r p cs = None \<longleftrightarrow> (\<forall>xs ys. cs = xs @ ys \<longrightarrow> mt r (if xs = [] then p else Some (last xs), ys) = [])"
proof (induction r p cs rule: find_match.induct)
  case (1 r p)
  then show ?case by (auto split: list.splits)
next
  case (2 r p c cs)
  show ?case
  proof (cases "mt r (p, c # cs)")
    case Nil
    then have "find_match r p (c # cs) = None \<longleftrightarrow> (\<forall>xs ys. cs = xs @ ys \<longrightarrow> mt r (if xs = [] then Some c else Some (last xs), ys) = [])"
      using 2 by simp
    also have "\<dots> \<longleftrightarrow> (\<forall>xs ys. c # cs = xs @ ys \<longrightarrow> mt r (if xs = [] then p else Some (last xs), ys) = [])"
    proof (intro iffI allI impI)
      fix xs ys
      assume all: "\<forall>xs ys. cs = xs @ ys \<longrightarrow> mt r (if xs = [] then Some c else Some (last xs), ys) = []" and e: "c # cs = xs @ ys"
      show "mt r (if xs = [] then p else Some (last xs), ys) = []"
      proof (cases xs)
        case Nil
        then show ?thesis using e \<open>mt r (p, c # cs) = []\<close> by simp
      next
        case (Cons x xs')
        then have "cs = xs' @ ys" "x = c" using e by auto
        then have "mt r (if xs' = [] then Some c else Some (last xs'), ys) = []" using all by blast
        then show ?thesis using Cons \<open>x = c\<close> by (simp split: if_splits)
      qed
    next
      fix xs ys
      assume all: "\<forall>xs ys. c # cs = xs @ ys \<longrightarrow> mt r (if xs = [] then p else Some (last xs), ys) = []" and e: "cs = xs @ ys"
      show "mt r (if xs = [] then Some c else Some (last xs), ys) = []"
        using all [rule_format, of "c # xs" ys] e by (simp split: if_splits)
    qed
    finally show ?thesis .
  next
    case (Cons t ts)
    then show ?thesis by (auto intro!: exI [of _ "[]"])
  qed
qed

lemma MatchString_iff:
  "MatchString r s \<longleftrightarrow> (\<exists>xs ys t. s = xs @ ys \<and> matches r (if xs = [] then None else Some (last xs), ys) t)"
  unfolding MatchString_def find_match_None using mt_iff by (metis list.set_intros(1) list.set_cases list.exhaust empty_iff list.set(1))

subsection \<open>First matches\<close>

text \<open>The cursor behind a part of the text.\<close>

definition behind :: "char option \<Rightarrow> string \<Rightarrow> string \<Rightarrow> cursor" where
  "behind p xs ys = (if xs = [] then p else Some (last xs), ys)"

lemma behind_Nil [simp]: "behind p [] ys = (p, ys)"
  by (simp add: behind_def)

lemma behind_Cons [simp]: "behind p (c # xs) ys = behind (Some c) xs ys"
  by (simp add: behind_def)

lemma snd_behind [simp]: "snd (behind p xs ys) = ys"
  by (simp add: behind_def)

lemma behind_behind [simp]: "behind (fst (behind p xs zs)) ys vs = behind p (xs @ ys) vs"
  by (simp add: behind_def)

lemma mt_lit_behind [simp]: "mt (lit w) (p, w @ ys) = [behind p w ys]"
  by (simp add: mt_lit behind_def)

lemma mt_lit_no: "\<nexists>v. snd s = w @ v \<Longrightarrow> mt (lit w) s = []"
  by (simp add: mt_lit)

text \<open>A repetition takes every character of its class, if what follows can then match.\<close>

lemma mt_star_class:
  "(\<And>c. c \<in> set xs \<Longrightarrow> P c) \<Longrightarrow> (ys = [] \<or> \<not> P (hd ys)) \<Longrightarrow> \<exists>l. mt (Star (Cls P)) (p, xs @ ys) = behind p xs ys # l"
proof (induction xs arbitrary: p)
  case Nil
  then show ?case by (subst mt_iterate) (cases ys; simp)
next
  case (Cons c xs)
  then obtain l where "mt (Star (Cls P)) (Some c, xs @ ys) = behind (Some c) xs ys # l" by fastforce
  then show ?case using Cons.prems by (subst mt_iterate) simp
qed

lemma mt_lazy_any: "mt (Lazy any_char) (p, []) = [(p, [])]" "mt (Lazy any_char) (p, c # cs) = (p, c # cs) # mt (Lazy any_char) (Some c, cs)"
  by (subst mt_iterate, simp add: any_char_def)+

text \<open>A lazy repetition stops where the rest matches for the first time.\<close>

lemma mt_lazy_prefix:
  "\<exists>l. mt (Lazy any_char) (p, xs @ ys) = map (\<lambda>k. behind p (take k xs) (drop k xs @ ys)) [0..<length xs] @ behind p xs ys # l"
proof (induction xs arbitrary: p)
  case Nil
  then show ?case by (cases ys) (simp_all add: mt_lazy_any)
next
  case (Cons c xs)
  obtain l where "mt (Lazy any_char) (Some c, xs @ ys) =
      map (\<lambda>k. behind (Some c) (take k xs) (drop k xs @ ys)) [0..<length xs] @ behind (Some c) xs ys # l"
    using Cons.IH [of "Some c"] by blast
  then show ?case by (simp add: mt_lazy_any map_upt_Suc del: upt_Suc)
qed

text \<open>Matches with groups: the first alternative whose rest matches is taken.\<close>

lemma mts_first:
  assumes "mt r s = l1 @ t # l2" "\<And>u. u \<in> set l1 \<Longrightarrow> mts rs u = []" "mts rs t = us # uss"
  shows "\<exists>w. mts (r # rs) s = (t # us) # w"
proof -
  have "concat (map (\<lambda>t. map ((#) t) (mts rs t)) l1) = []" using assms(2) by simp
  then have "mts (r # rs) s = map ((#) t) (us # uss) @ concat (map (\<lambda>t. map ((#) t) (mts rs t)) l2)"
    by (simp only: mts.simps assms(1,3) map_append concat_append list.map concat.simps append_Nil)
  then show ?thesis by simp
qed

lemma mts_none: "(\<And>t. t \<in> set (mt r s) \<Longrightarrow> mts rs t = []) \<Longrightarrow> mts (r # rs) s = []"
  by simp

text \<open>No match starts in a text that lacks the character every match starts with.\<close>

lemma all_matches_skip:
  assumes "\<And>p c cs. c \<noteq> f \<Longrightarrow> mts rs (p, c # cs) = []" "f \<notin> set xs"
  shows "all_matches rs p (xs @ ys) = all_matches rs (fst (behind p xs ys)) ys"
  using assms(2)
proof (induction xs arbitrary: p)
  case (Cons c xs)
  then have "mts rs (p, c # xs @ ys) = []" using assms(1) by auto
  then show ?case using Cons by simp
qed simp

lemma replace_all_skip:
  assumes "\<And>p c cs. c \<noteq> f \<Longrightarrow> mt r (p, c # cs) = []" "f \<notin> set xs"
  shows "replace_all r new p (xs @ ys) = xs @ replace_all r new (fst (behind p xs ys)) ys"
  using assms(2)
proof (induction xs arbitrary: p)
  case (Cons c xs)
  then have "mt r (p, c # xs @ ys) = []" using assms(1) by auto
  then show ?case using Cons by simp
qed simp

end
