(* ===== verification/Code_Fences.thy ===== *)
theory Code_Fences
  imports Go_Regexp Go_Sort
begin

text \<open>
  Fenced code blocks in the answers of models: extraction (\<open>proxy/enricher.go\<close>) and withholding
  (\<open>proxy/proxy.go\<close>, \<open>redactCodeBlocks\<close>). A fence is the text between two marks of three
  backticks or three tildes.
\<close>

record CodeBlock =
  cb_Language :: string
  cb_Code :: string
  cb_StartIndex :: nat
  cb_EndIndex :: nat

definition backtick :: char where "backtick = CHR 0x60"
definition tilde :: char where "tilde = CHR ''~''"

abbreviation mark3 :: "char \<Rightarrow> string" where
  "mark3 f \<equiv> [f, f, f]"

definition lang_char :: "char \<Rightarrow> bool" where
  "lang_char c \<longleftrightarrow> word_char c \<or> c = CHR ''+'' \<or> c = CHR ''-''"

text \<open>The expression of a fence, divided at its two groups: language and code.\<close>

definition cr :: re where "cr = optional (lit [CHR 0x0D])"
definition lf :: re where "lf = optional (lit [CHR 0x0A])"

definition fence_parts :: "char \<Rightarrow> re list" where
  "fence_parts f = [lit (mark3 f), Star (Cls lang_char), cr, lf, Lazy any_char, cr, lf, lit (mark3 f)]"

text \<open>The exchange sort by start position, as written.\<close>

fun exchange :: "('a \<Rightarrow> nat) \<Rightarrow> 'a \<Rightarrow> 'a list \<Rightarrow> 'a \<times> 'a list" where
  "exchange key x [] = (x, [])"
| "exchange key x (y # ys) =
     (if key y < key x then (let (m, zs) = exchange key y ys in (m, x # zs)) else (let (m, zs) = exchange key x ys in (m, y # zs)))"

lemma length_exchange: "length (snd (exchange key x ys)) = length ys"
  by (induction key x ys rule: exchange.induct) (auto simp: case_prod_beta)

function exchange_sort :: "('a \<Rightarrow> nat) \<Rightarrow> 'a list \<Rightarrow> 'a list" where
  "exchange_sort key [] = []"
| "exchange_sort key (x # xs) = fst (exchange key x xs) # exchange_sort key (snd (exchange key x xs))"
  by pat_completeness auto
termination
  by (relation "measure (\<lambda>(key, xs). length xs)") (simp_all add: length_exchange)

text \<open>A block from the cursors of a match in a text of the given length.\<close>

definition block_of :: "nat \<Rightarrow> cursor \<times> cursor list \<Rightarrow> CodeBlock" where
  "block_of n m =
     \<lparr>cb_Language = text_between (snd m ! 0) (snd m ! 1), cb_Code = text_between (snd m ! 3) (snd m ! 4),
      cb_StartIndex = n - length (snd (fst m)), cb_EndIndex = n - length (snd (last (snd m)))\<rparr>"

definition ExtractCodeBlocks :: "string \<Rightarrow> CodeBlock list" where
  "ExtractCodeBlocks content =
     (let n = length content in
      exchange_sort cb_StartIndex
        (map (block_of n) (all_matches (fence_parts backtick) None content @ all_matches (fence_parts tilde) None content)))"

text \<open>The notice put in place of withheld code, in UTF-8.\<close>

definition withheld_notice :: string where
  "withheld_notice =
     ''['' @ [CHR 0xF0, CHR 0x9F, CHR 0x9B, CHR 0xA1, CHR 0xEF, CHR 0xB8, CHR 0x8F] @ '' code withheld by VigilAgent policy '' @
     [CHR 0xE2, CHR 0x80, CHR 0x94] @ '' review the scan findings before applying]''"

definition codeFenceRe :: re where
  "codeFenceRe = seqs [lit (mark3 backtick), Star (none_of [backtick, CHR 0x0A]), lit [CHR 0x0A], Lazy any_char, lit (mark3 backtick)]"

definition redactCodeBlocks :: "string \<Rightarrow> string" where
  "redactCodeBlocks content = ReplaceAllString codeFenceRe content withheld_notice"

subsection \<open>The exchange sort\<close>

lemma mset_exchange: "add_mset (fst (exchange key x ys)) (mset (snd (exchange key x ys))) = add_mset x (mset ys)"
  by (induction key x ys rule: exchange.induct) (auto simp: case_prod_beta add_mset_commute)

lemma exchange_least: "y \<in> insert x (set ys) \<Longrightarrow> key (fst (exchange key x ys)) \<le> key y"
  by (induction key x ys arbitrary: y rule: exchange.induct) (fastforce simp: case_prod_beta)+

lemma mset_exchange_sort [simp]: "mset (exchange_sort key xs) = mset xs"
  by (induction key xs rule: exchange_sort.induct) (simp_all add: mset_exchange)

lemma set_exchange_sort [simp]: "set (exchange_sort key xs) = set xs"
  by (metis mset_exchange_sort set_mset_mset)

lemma exchange_sort_sorted: "sorted (map key (exchange_sort key xs))"
proof (induction key xs rule: exchange_sort.induct)
  case (2 key x xs)
  have "set (snd (exchange key x xs)) \<subseteq> insert x (set xs)"
    using mset_exchange [of key x xs] by (metis insert_subset set_mset_add_mset_insert set_mset_mset subset_insertI)
  then show ?case using 2 exchange_least [of _ x xs key] by auto
qed simp

interpretation by_key: less_function "\<lambda>a b. (key a :: nat) < key b" for key :: "'a \<Rightarrow> nat"
  by unfold_locales auto

lemma exchange_sort_eq:
  assumes "sorted_wrt (\<lambda>a b. key a < key b) ys" "mset xs = mset ys"
  shows "exchange_sort key xs = ys"
proof (rule by_key.sorted_unique)
  show "sorted_wrt (\<lambda>a b. \<not> key b < key a) (exchange_sort key xs)"
    using exchange_sort_sorted [of key xs] by (auto simp: sorted_map elim!: sorted_wrt_mono_rel [rotated])
  show "sorted_wrt (\<lambda>a b. \<not> key b < key a) ys"
    using assms(1) by (rule sorted_wrt_mono_rel [rotated]) auto
  have same: "a = b" if "a \<in> set ys" "b \<in> set ys" "key a = key b" for a b
    using assms(1) that by (auto simp: sorted_wrt_iff_nth_less in_set_conv_nth) (metis linorder_neqE_nat less_irrefl)
  show "a = b" if "a \<in> set (exchange_sort key xs)" "b \<in> set (exchange_sort key xs)" "\<not> key a < key b" "\<not> key b < key a" for a b
    using that same assms(2) mset_eq_setD [OF assms(2)] by auto
qed (use assms in simp)

subsection \<open>Where fences are not seen\<close>

lemma fence_starts: "c \<noteq> f \<Longrightarrow> mts (fence_parts f) (p, c # cs) = []"
  unfolding fence_parts_def by (rule mts_none) (simp add: mt_lit split: if_splits)

lemma redact_starts: "c \<noteq> backtick \<Longrightarrow> mt codeFenceRe (p, c # cs) = []"
  by (simp add: codeFenceRe_def mt_lit)

text \<open>A text without the mark has no fence; a text without two of them neither.\<close>

lemma mts_Cons_iff: "ts \<in> set (mts (r # rs) s) \<longleftrightarrow> (\<exists>t us. matches r s t \<and> us \<in> set (mts rs t) \<and> ts = t # us)"
  by (auto simp: mt_iff image_iff simp del: split_paired_Ex)

lemma mts_ends: "ts \<in> set (mts rs s) \<Longrightarrow> rs \<noteq> [] \<Longrightarrow> \<exists>xs u. snd s = xs @ snd u \<and> matches (last rs) u (last ts)"
proof (induction rs arbitrary: s ts)
  case (Cons r rs)
  then obtain t us where t: "matches r s t" "us \<in> set (mts rs t)" "ts = t # us" unfolding mts_Cons_iff by blast
  show ?case
  proof (cases "rs = []")
    case True
    then show ?thesis using t by (intro exI [of _ "[]"] exI [of _ s]) simp
  next
    case False
    then have "us \<noteq> []" using t(2) by (cases rs) auto
    then show ?thesis using Cons.IH [OF t(2) False] matches_part [OF t(1)] t(3) False by (metis append.assoc last_ConsR)
  qed
qed simp

lemma fence_two_marks:
  assumes "mts (fence_parts f) s \<noteq> []"
  shows "\<exists>a b. snd s = mark3 f @ a @ mark3 f @ b"
proof -
  obtain ts where "ts \<in> set (mts (fence_parts f) s)" using assms by (cases "mts (fence_parts f) s") auto
  then obtain t us where t: "matches (lit (mark3 f)) s t"
      "us \<in> set (mts [Star (Cls lang_char), cr, lf, Lazy any_char, cr, lf, lit (mark3 f)] t)"
    unfolding fence_parts_def by (subst (asm) mts_Cons_iff) blast
  obtain xs u where "snd t = xs @ snd u" "matches (lit (mark3 f)) u (last us)" using mts_ends [OF t(2)] by auto
  then show ?thesis using t(1) unfolding matches_lit by auto
qed

text \<open>Whether a text has two marks; without them it has no block, whatever else it contains.\<close>

definition marked_twice :: "char \<Rightarrow> string \<Rightarrow> bool" where
  "marked_twice f s \<longleftrightarrow> (\<exists>x a b. s = x @ mark3 f @ a @ mark3 f @ b)"

lemma all_matches_none: "(\<And>xs ys p. cs = xs @ ys \<Longrightarrow> mts rs (p, ys) = []) \<Longrightarrow> all_matches rs p cs = []"
proof (induction rs p cs rule: all_matches.induct)
  case (2 rs p c cs)
  have none: "mts rs (p, c # cs) = []" by (rule "2.prems" [of "[]"]) simp
  have "all_matches rs (Some c) cs = []"
  proof (rule "2.IH"(1) [OF none])
    show "mts rs (q, ys) = []" if "cs = xs @ ys" for xs ys q using that by (intro "2.prems" [of "c # xs"]) simp
  qed
  then show ?case using none by simp
qed simp

lemma no_fence: "\<not> marked_twice f s \<Longrightarrow> all_matches (fence_parts f) p s = []"
proof (rule all_matches_none)
  fix xs ys q
  assume "\<not> marked_twice f s" "s = xs @ ys"
  then show "mts (fence_parts f) (q, ys) = []" using fence_two_marks [of f "(q, ys)"] by (auto simp: marked_twice_def)
qed

lemma no_blocks: "\<not> marked_twice backtick s \<Longrightarrow> \<not> marked_twice tilde s \<Longrightarrow> ExtractCodeBlocks s = []"
  by (simp add: ExtractCodeBlocks_def no_fence)

lemma nothing_redacted: "backtick \<notin> set s \<Longrightarrow> redactCodeBlocks s = s"
  using replace_all_skip [of backtick codeFenceRe s withheld_notice None "[]"] redact_starts
  by (simp add: redactCodeBlocks_def ReplaceAllString_def)

subsection \<open>Well-formed documents\<close>

text \<open>
  A document of prose and fenced blocks: the language on the line of the opening mark, the closing mark
  on a line of its own. Neither prose nor code contains a character of either mark, and code does not
  end in a carriage return.
\<close>

datatype segment = Prose string | Fence bool string string

definition plain :: "string \<Rightarrow> bool" where
  "plain s \<longleftrightarrow> backtick \<notin> set s \<and> tilde \<notin> set s"

fun segment_ok :: "segment \<Rightarrow> bool" where
  "segment_ok (Prose s) \<longleftrightarrow> plain s"
| "segment_ok (Fence t lang code) \<longleftrightarrow> list_all lang_char lang \<and> plain code \<and> (code = [] \<or> last code \<noteq> CHR 0x0D)"

definition mark_of :: "bool \<Rightarrow> char" where
  "mark_of t = (if t then tilde else backtick)"

definition fenced :: "char \<Rightarrow> string \<Rightarrow> string \<Rightarrow> string" where
  "fenced f lang code = mark3 f @ lang @ [CHR 0x0A] @ code @ [CHR 0x0A] @ mark3 f"

fun render :: "segment \<Rightarrow> string" where
  "render (Prose s) = s"
| "render (Fence t lang code) = fenced (mark_of t) lang code"

definition document :: "segment list \<Rightarrow> string" where
  "document segs = concat (map render segs)"

text \<open>What should be extracted from a document, and what it looks like with its backtick blocks withheld.\<close>

fun code_of :: "segment \<Rightarrow> (string \<times> string) list" where
  "code_of (Prose s) = []"
| "code_of (Fence t lang code) = [(lang, code)]"

fun withheld :: "segment \<Rightarrow> string" where
  "withheld (Fence False lang code) = withheld_notice"
| "withheld seg = render seg"

lemma mark_chars [simp]: "backtick \<noteq> tilde" "tilde \<noteq> backtick" "\<not> lang_char (mark_of t)" "CHR 0x0A \<noteq> mark_of t" "CHR 0x0D \<noteq> mark_of t"
  "mark_of t \<noteq> CHR 0x0A" "mark_of t \<noteq> CHR 0x0D"
  by (auto simp: backtick_def tilde_def mark_of_def lang_char_def word_char_def less_eq_char_def)

lemma mark_of_simps [simp]: "mark_of True = tilde" "mark_of False = backtick"
  by (simp_all add: mark_of_def)

lemma mark_not_lf [simp]: "backtick \<noteq> CHR 0x0A" "tilde \<noteq> CHR 0x0A"
  by (simp_all add: backtick_def tilde_def)

lemma lang_plain:
  assumes "list_all lang_char lang"
  shows "mark_of t \<notin> set lang" "CHR 0x0A \<notin> set lang" "\<And>c. c \<in> set lang \<Longrightarrow> lang_char c"
proof -
  have "\<not> lang_char (CHR 0x0A)" by (simp add: lang_char_def word_char_def less_eq_char_def)
  then show "mark_of t \<notin> set lang" "CHR 0x0A \<notin> set lang" "\<And>c. c \<in> set lang \<Longrightarrow> lang_char c"
    using assms mark_chars(3) [of t] by (auto simp: list_all_iff)
qed

lemma mt_crlf:
  "mt cr (p, c # cs) = (if c = CHR 0x0D then [(Some c, cs)] else []) @ [(p, c # cs)]"
  "mt lf (p, c # cs) = (if c = CHR 0x0A then [(Some c, cs)] else []) @ [(p, c # cs)]"
  "mt cr (p, []) = [(p, [])]" "mt lf (p, []) = [(p, [])]"
  by (simp_all add: cr_def lf_def optional_def)

text \<open>The rest of the expression behind the code: it matches at the closing mark and nowhere in the code.\<close>

lemma closing_match:
  "mts [cr, lf, lit (mark3 f)] (p, CHR 0x0A # mark3 f @ ys) = [[(p, CHR 0x0A # mark3 f @ ys), (Some (CHR 0x0A), mark3 f @ ys), (Some f, ys)]]"
  if "f \<noteq> CHR 0x0A"
  using that by (auto simp: mt_crlf mt_lit)

lemma closing_none:
  assumes "xs \<noteq> []" "f \<notin> set xs" "last xs \<noteq> CHR 0x0D" "f \<noteq> CHR 0x0A" "f \<noteq> CHR 0x0D"
  shows "mts [cr, lf, lit (mark3 f)] (p, xs @ CHR 0x0A # ys) = []"
proof -
  have "mts [lf, lit (mark3 f)] (q, zs @ CHR 0x0A # ys) = []" if "zs \<noteq> []" "f \<notin> set zs" for q zs
    using that assms(4) by (cases zs; cases "List.tl zs") (auto simp: mt_crlf mt_lit)
  note rest = this
  obtain x zs where xs: "xs = x # zs" using assms(1) by (cases xs) auto
  show ?thesis
  proof (rule mts_none)
    fix u assume "u \<in> set (mt cr (p, xs @ CHR 0x0A # ys))"
    then have "u = (p, xs @ CHR 0x0A # ys) \<or> (u = (Some x, zs @ CHR 0x0A # ys) \<and> x = CHR 0x0D)"
      by (auto simp: xs mt_crlf split: if_splits)
    then show "mts [lf, lit (mark3 f)] u = []"
    proof
      assume u: "u = (p, xs @ CHR 0x0A # ys)"
      show ?thesis unfolding u by (rule rest [OF assms(1,2)])
    next
      assume u: "u = (Some x, zs @ CHR 0x0A # ys) \<and> x = CHR 0x0D"
      then have "zs \<noteq> []" "f \<notin> set zs" using assms(2,3) xs by auto
      from rest [OF this, of "Some x"] show ?thesis using u by (simp only:)
    qed
  qed
qed

lemma fence_match:
  fixes ys :: string
  assumes "list_all lang_char lang" "plain code" "code = [] \<or> last code \<noteq> CHR 0x0D" "f = mark_of t"
  defines "close \<equiv> CHR 0x0A # mark3 f @ ys"
  shows "\<exists>w. mts (fence_parts f) (p, fenced f lang code @ ys) =
    [(Some f, lang @ CHR 0x0A # code @ close), behind (Some f) lang (CHR 0x0A # code @ close), behind (Some f) lang (CHR 0x0A # code @ close),
     (Some (CHR 0x0A), code @ close), behind (Some (CHR 0x0A)) code close, behind (Some (CHR 0x0A)) code close, (Some (CHR 0x0A), mark3 f @ ys), (Some f, ys)] # w"
proof -
  have f: "f \<noteq> CHR 0x0A" "f \<noteq> CHR 0x0D" "f \<notin> set code"
    using assms(2) mark_chars(6,7) by (simp_all add: assms(4)) (auto simp: plain_def mark_of_def)
  let ?c1 = "behind (Some (CHR 0x0A)) code close"
  have ending: "mts [cr, lf, lit (mark3 f)] ?c1 = [[?c1, (Some (CHR 0x0A), mark3 f @ ys), (Some f, ys)]]"
    unfolding close_def behind_def by (rule closing_match [OF f(1)])
  have before: "mts [cr, lf, lit (mark3 f)] (behind (Some (CHR 0x0A)) (take k code) (drop k code @ close)) = []" if "k < length code" for k
    unfolding close_def behind_def using that f assms(3) by (intro closing_none) (auto dest: in_set_dropD)
  obtain l where stops: "mt (Lazy any_char) (Some (CHR 0x0A), code @ close) =
      map (\<lambda>k. behind (Some (CHR 0x0A)) (take k code) (drop k code @ close)) [0..<length code] @ ?c1 # l"
    using mt_lazy_prefix by blast
  obtain w1 where w1: "mts [Lazy any_char, cr, lf, lit (mark3 f)] (Some (CHR 0x0A), code @ close) =
      [?c1, ?c1, (Some (CHR 0x0A), mark3 f @ ys), (Some f, ys)] # w1"
    using mts_first [OF stops _ ending] before by fastforce
  let ?c2 = "behind (Some f) lang (CHR 0x0A # code @ close)"
  have "mt lf ?c2 = [] @ (Some (CHR 0x0A), code @ close) # [?c2]" by (simp add: behind_def mt_crlf)
  from mts_first [OF this _ w1] obtain w2 where w2: "mts [lf, Lazy any_char, cr, lf, lit (mark3 f)] ?c2 =
      [(Some (CHR 0x0A), code @ close), ?c1, ?c1, (Some (CHR 0x0A), mark3 f @ ys), (Some f, ys)] # w2" by auto
  have "mt cr ?c2 = [] @ ?c2 # []" by (simp add: behind_def mt_crlf)
  from mts_first [OF this _ w2] obtain w3 where w3: "mts [cr, lf, Lazy any_char, cr, lf, lit (mark3 f)] ?c2 =
      [?c2, (Some (CHR 0x0A), code @ close), ?c1, ?c1, (Some (CHR 0x0A), mark3 f @ ys), (Some f, ys)] # w3" by auto
  have "\<not> lang_char (CHR 0x0A)" by (simp add: lang_char_def word_char_def less_eq_char_def)
  then obtain l where "mt (Star (Cls lang_char)) (Some f, lang @ CHR 0x0A # code @ close) = [] @ ?c2 # l"
    using mt_star_class [of lang lang_char "CHR 0x0A # code @ close"] lang_plain(3) [OF assms(1)] by auto
  from mts_first [OF this _ w3] obtain w4 where w4: "mts [Star (Cls lang_char), cr, lf, Lazy any_char, cr, lf, lit (mark3 f)] (Some f, lang @ CHR 0x0A # code @ close) =
      [?c2, ?c2, (Some (CHR 0x0A), code @ close), ?c1, ?c1, (Some (CHR 0x0A), mark3 f @ ys), (Some f, ys)] # w4" by auto
  have "mt (lit (mark3 f)) (p, fenced f lang code @ ys) = [] @ (Some f, lang @ CHR 0x0A # code @ close) # []"
    by (simp add: mt_lit fenced_def close_def)
  from mts_first [OF this _ w4] show ?thesis unfolding fence_parts_def by auto
qed

text \<open>The blocks of a document, of one kind of mark and of both, with their positions.\<close>

fun blocks_of :: "(bool \<Rightarrow> bool) \<Rightarrow> nat \<Rightarrow> segment list \<Rightarrow> CodeBlock list" where
  "blocks_of kind i [] = []"
| "blocks_of kind i (Prose s # segs) = blocks_of kind (i + length s) segs"
| "blocks_of kind i (Fence t lang code # segs) =
     (let j = i + length (fenced (mark_of t) lang code) in
      (if kind t then [\<lparr>cb_Language = lang, cb_Code = code, cb_StartIndex = i, cb_EndIndex = j\<rparr>] else []) @ blocks_of kind j segs)"

lemma document_simps [simp]: "document [] = []" "document (seg # segs) = render seg @ document segs"
  by (simp_all add: document_def)

lemma other_mark: "segment_ok seg \<Longrightarrow> (\<And>lang code. seg \<noteq> Fence t lang code) \<Longrightarrow> mark_of t \<notin> set (render seg)"
proof (cases seg)
  case (Fence u lang code)
  assume ok: "segment_ok seg" and ne: "\<And>lang code. seg \<noteq> Fence t lang code"
  then have "mark_of t \<noteq> mark_of u" using Fence by (auto simp: mark_of_def)
  then show ?thesis using ok Fence lang_plain(1) [of lang t] by (auto simp: fenced_def plain_def mark_of_def)
qed (auto simp: plain_def mark_of_def)

lemma matches_of_document:
  assumes "list_all segment_ok segs"
  shows "map (block_of (i + length (document segs))) (all_matches (fence_parts (mark_of t)) p (document segs)) = blocks_of ((=) t) i segs"
  using assms
proof (induction segs arbitrary: i p)
  case (Cons seg segs)
  let ?f = "mark_of t"
  have IH: "map (block_of (i + length (render seg) + length (document segs))) (all_matches (fence_parts ?f) q (document segs)) =
      blocks_of ((=) t) (i + length (render seg)) segs" for q using Cons by simp
  have total: "i + length (document (seg # segs)) = i + length (render seg) + length (document segs)" by simp
  show ?case
  proof (cases "\<exists>lang code. seg = Fence t lang code")
    case False
    then have "?f \<notin> set (render seg)" using other_mark Cons.prems by auto
    then have "all_matches (fence_parts ?f) p (document (seg # segs)) =
        all_matches (fence_parts ?f) (fst (behind p (render seg) (document segs))) (document segs)"
      using all_matches_skip [OF fence_starts] by simp
    moreover have "blocks_of ((=) t) i (seg # segs) = blocks_of ((=) t) (i + length (render seg)) segs"
      using False by (cases seg) (auto simp: Let_def)
    ultimately show ?thesis unfolding total using IH by simp
  next
    case True
    then obtain lang code where seg: "seg = Fence t lang code" by blast
    let ?ys = "document segs" and ?cl = "CHR 0x0A # mark3 ?f @ document segs"
    obtain w where w: "mts (fence_parts ?f) (p, render seg @ ?ys) =
      [(Some ?f, lang @ CHR 0x0A # code @ ?cl), behind (Some ?f) lang (CHR 0x0A # code @ ?cl), behind (Some ?f) lang (CHR 0x0A # code @ ?cl),
       (Some (CHR 0x0A), code @ ?cl), behind (Some (CHR 0x0A)) code ?cl, behind (Some (CHR 0x0A)) code ?cl, (Some (CHR 0x0A), mark3 ?f @ ?ys), (Some ?f, ?ys)] # w"
      using fence_match [of lang code ?f t p ?ys] Cons.prems seg by auto
    have shape: "render seg @ ?ys = ?f # ?f # ?f # lang @ CHR 0x0A # code @ ?cl" by (simp add: seg fenced_def)
    define ts where "ts = [(Some ?f, lang @ CHR 0x0A # code @ ?cl), behind (Some ?f) lang (CHR 0x0A # code @ ?cl), behind (Some ?f) lang (CHR 0x0A # code @ ?cl),
         (Some (CHR 0x0A), code @ ?cl), behind (Some (CHR 0x0A)) code ?cl, behind (Some (CHR 0x0A)) code ?cl, (Some (CHR 0x0A), mark3 ?f @ ?ys), (Some ?f, ?ys)]"
    have "all_matches (fence_parts ?f) p (document (seg # segs)) = ((p, render seg @ ?ys), ts) # all_matches (fence_parts ?f) (Some ?f) ?ys"
      using w unfolding document_simps shape ts_def by simp
    moreover have "block_of (i + length (render seg) + length ?ys) ((p, render seg @ ?ys), ts) =
        \<lparr>cb_Language = lang, cb_Code = code, cb_StartIndex = i, cb_EndIndex = i + length (render seg)\<rparr>"
      by (simp add: block_of_def text_between_def ts_def)
    ultimately show ?thesis unfolding total using IH [of "Some ?f"] by (simp add: seg Let_def)
  qed
qed simp

lemma blocks_of_split: "mset (blocks_of ((=) False) i segs) + mset (blocks_of ((=) True) i segs) = mset (blocks_of (\<lambda>t. True) i segs)"
  by (induction "\<lambda>t::bool. True" i segs rule: blocks_of.induct) (auto simp: Let_def)

lemma blocks_of_start: "b \<in> set (blocks_of kind i segs) \<Longrightarrow> i \<le> cb_StartIndex b"
  by (induction kind i segs rule: blocks_of.induct) (fastforce simp: Let_def split: if_splits)+

lemma blocks_of_sorted: "sorted_wrt (\<lambda>a b. cb_StartIndex a < cb_StartIndex b) (blocks_of kind i segs)"
proof (induction kind i segs rule: blocks_of.induct)
  case (3 kind i t lang code segs)
  then show ?case using blocks_of_start [of _ kind "i + length (fenced (mark_of t) lang code)" segs]
    by (fastforce simp: Let_def fenced_def)
qed simp_all

lemma blocks_code: "map (\<lambda>b. (cb_Language b, cb_Code b)) (blocks_of (\<lambda>t. True) i segs) = concat (map code_of segs)"
  by (induction "\<lambda>t::bool. True" i segs rule: blocks_of.induct) (simp_all add: Let_def)

lemma extract_document:
  assumes "list_all segment_ok segs"
  shows "ExtractCodeBlocks (document segs) = blocks_of (\<lambda>t. True) 0 segs"
proof -
  have "map (block_of (length (document segs))) (all_matches (fence_parts (mark_of t)) None (document segs)) = blocks_of ((=) t) 0 segs" for t
    using matches_of_document [OF assms, of 0] by simp
  from this [of False] this [of True] show ?thesis unfolding ExtractCodeBlocks_def Let_def
    by (intro exchange_sort_eq blocks_of_sorted) (simp add: blocks_of_split)
qed

lemma extracted_code:
  "list_all segment_ok segs \<Longrightarrow> map (\<lambda>b. (cb_Language b, cb_Code b)) (ExtractCodeBlocks (document segs)) = concat (map code_of segs)"
  by (simp add: extract_document blocks_code)

subsection \<open>Withholding in well-formed documents\<close>

lemma mt_first:
  assumes "mt r1 s = l1 @ t # l2" "\<And>u. u \<in> set l1 \<Longrightarrow> mt r2 u = []" "mt r2 t = v # vs"
  shows "\<exists>w. mt (Cat r1 r2) s = v # w"
proof -
  have "concat (map (mt r2) l1) = []" using assms(2) by simp
  then have "mt (Cat r1 r2) s = (v # vs) @ concat (map (mt r2) l2)"
    by (simp only: mt.simps assms(1,3) map_append concat_append list.map concat.simps append_Nil)
  then show ?thesis by simp
qed

lemma redact_match:
  fixes ys :: string
  assumes "list_all lang_char lang" "plain code"
  shows "\<exists>w. mt codeFenceRe (p, fenced backtick lang code @ ys) = (Some backtick, ys) # w"
proof -
  let ?text = "code @ [CHR 0x0A]" and ?closing = "mark3 backtick @ ys"
  have ending: "mt (lit (mark3 backtick)) (behind (Some (CHR 0x0A)) ?text ?closing) = [(Some backtick, ys)]"
    by (simp add: mt_lit)
  have free: "backtick \<notin> set ?text" using assms(2) by (simp add: plain_def)
  have before: "mt (lit (mark3 backtick)) (behind (Some (CHR 0x0A)) (take k ?text) (drop k ?text @ ?closing)) = []" if k: "k < length ?text" for k
  proof -
    obtain c cs where d: "drop k ?text = c # cs" using Cons_nth_drop_Suc [OF k] by metis
    then have "c \<in> set ?text" by (metis in_set_dropD list.set_intros(1))
    then have "c \<noteq> backtick" using free by blast
    then show ?thesis unfolding d by (simp add: mt_lit behind_def)
  qed
  obtain l where stops: "mt (Lazy any_char) (Some (CHR 0x0A), ?text @ ?closing) =
      map (\<lambda>k. behind (Some (CHR 0x0A)) (take k ?text) (drop k ?text @ ?closing)) [0..<length ?text] @ behind (Some (CHR 0x0A)) ?text ?closing # l"
    using mt_lazy_prefix by blast
  obtain w1 where w1: "mt (Cat (Lazy any_char) (lit (mark3 backtick))) (Some (CHR 0x0A), ?text @ ?closing) = (Some backtick, ys) # w1"
  proof -
    have "\<exists>w. mt (Cat (Lazy any_char) (lit (mark3 backtick))) (Some (CHR 0x0A), ?text @ ?closing) = (Some backtick, ys) # w"
    proof (rule mt_first [OF stops _ ending])
      fix u assume "u \<in> set (map (\<lambda>k. behind (Some (CHR 0x0A)) (take k ?text) (drop k ?text @ ?closing)) [0..<length ?text])"
      then obtain k where "k < length ?text" "u = behind (Some (CHR 0x0A)) (take k ?text) (drop k ?text @ ?closing)"
        unfolding set_map set_upt image_iff atLeastLessThan_iff Bex_def by blast
      then show "mt (lit (mark3 backtick)) u = []" using before by (simp only:)
    qed
    then show thesis using that by blast
  qed
  let ?c = "behind (Some backtick) lang (CHR 0x0A # ?text @ ?closing)"
  have "mt (lit [CHR 0x0A]) ?c = [] @ (Some (CHR 0x0A), ?text @ ?closing) # []" by (simp add: mt_lit behind_def)
  from mt_first [OF this _ w1] obtain w2 where
    w2: "mt (Cat (lit [CHR 0x0A]) (Cat (Lazy any_char) (lit (mark3 backtick)))) ?c = (Some backtick, ys) # w2" by auto
  have "\<exists>l. mt (Star (none_of [backtick, CHR 0x0A])) (Some backtick, lang @ CHR 0x0A # ?text @ ?closing) = ?c # l"
    unfolding none_of_def by (rule mt_star_class) (use lang_plain(1) [OF assms(1), of False] lang_plain(2) [OF assms(1)] in auto)
  then obtain l' where "mt (Star (none_of [backtick, CHR 0x0A])) (Some backtick, lang @ CHR 0x0A # ?text @ ?closing) = [] @ ?c # l'" by auto
  from mt_first [OF this _ w2] obtain w3 where
    w3: "mt (Cat (Star (none_of [backtick, CHR 0x0A])) (Cat (lit [CHR 0x0A]) (Cat (Lazy any_char) (lit (mark3 backtick)))))
       (Some backtick, lang @ CHR 0x0A # ?text @ ?closing) = (Some backtick, ys) # w3" by auto
  have "mt (lit (mark3 backtick)) (p, fenced backtick lang code @ ys) = [] @ (Some backtick, lang @ CHR 0x0A # ?text @ ?closing) # []"
    by (simp add: mt_lit fenced_def)
  from mt_first [OF this _ w3] show ?thesis by (simp add: codeFenceRe_def)
qed

lemma replace_document: "list_all segment_ok segs \<Longrightarrow> replace_all codeFenceRe withheld_notice p (document segs) = concat (map withheld segs)"
proof (induction segs arbitrary: p)
  case (Cons seg segs)
  show ?case
  proof (cases "\<exists>lang code. seg = Fence False lang code")
    case False
    then have "backtick \<notin> set (render seg)" using other_mark [of seg False] Cons.prems by auto
    then have "replace_all codeFenceRe withheld_notice p (document (seg # segs)) = render seg @ concat (map withheld segs)"
      using replace_all_skip [OF redact_starts] Cons by simp
    moreover have "withheld seg = render seg" using False by (cases seg rule: withheld.cases) auto
    ultimately show ?thesis by simp
  next
    case True
    then obtain lang code where seg: "seg = Fence False lang code" by blast
    obtain w where w: "mt codeFenceRe (p, render seg @ document segs) = (Some backtick, document segs) # w"
      using redact_match [of lang code p "document segs"] Cons.prems seg by auto
    obtain cs where cs: "render seg @ document segs = backtick # cs" "length (document segs) \<le> length cs"
      by (auto simp: seg fenced_def)
    show ?thesis using w Cons cs(2) unfolding document_simps cs(1) by (simp add: seg)
  qed
qed simp

lemma redacted_document: "list_all segment_ok segs \<Longrightarrow> redactCodeBlocks (document segs) = concat (map withheld segs)"
  by (simp add: redactCodeBlocks_def ReplaceAllString_def replace_document)

end
