(* ===== verification/Proxy_Policy.thy ===== *)
theory Proxy_Policy
  imports Dual_Engine
begin

text \<open>
  The policy engine of the gateway (\<^verbatim>\<open>proxy/proxy.go\<close>): the verdict on an answer, the release decision
  under an enforcement mode, and the gate that decides what of a stream may leave before the answer
  is complete (\<^verbatim>\<open>proxy/streaming.go\<close>). Decisions and modes are strings, as in the source: the mode is
  whatever the client writes into a header.
\<close>

subsection \<open>Verdict\<close>

type_synonym PolicyDecision = string
type_synonym EnforcementMode = string

definition PolicyAllow :: PolicyDecision where "PolicyAllow = ''allow''"
definition PolicyAllowWithNotice :: PolicyDecision where "PolicyAllowWithNotice = ''allow_with_notice''"
definition PolicyRequireAck :: PolicyDecision where "PolicyRequireAck = ''require_acknowledgement''"
definition PolicyHoldForReview :: PolicyDecision where "PolicyHoldForReview = ''hold_for_review''"
definition PolicyBlock :: PolicyDecision where "PolicyBlock = ''block''"
definition PolicyScannerUnavailable :: PolicyDecision where "PolicyScannerUnavailable = ''scanner_unavailable''"

definition ModeObserve :: EnforcementMode where "ModeObserve = ''observe''"
definition ModeBalanced :: EnforcementMode where "ModeBalanced = ''balanced''"
definition ModeStrict :: EnforcementMode where "ModeStrict = ''strict''"
definition ModePassthrough :: EnforcementMode where "ModePassthrough = ''passthrough''"

lemmas policy_defs = PolicyAllow_def PolicyAllowWithNotice_def PolicyRequireAck_def PolicyHoldForReview_def PolicyBlock_def
  PolicyScannerUnavailable_def
lemmas mode_defs = ModeObserve_def ModeBalanced_def ModeStrict_def ModePassthrough_def

record AnalysisOutcome =
  ao_Verdict :: string
  ao_Grade :: string
  ao_Score :: int
  ao_FindingsCount :: nat
  ao_Corroborated :: nat
  ao_Policy :: PolicyDecision
  ao_ScanID :: string
  ao_ScannersUnavailable :: bool

definition ComputeVerdict :: "ProxyFinding list \<Rightarrow> AnalysisOutcome" where
  "ComputeVerdict findings =
     (let (score, grade) = CalculateScore findings;
          hasCriticalOrHigh = list_ex (\<lambda>f. pf_Severity f \<in> {''critical'', ''high''}) findings;
          hasMedium = list_ex (\<lambda>f. pf_Severity f = ''medium'') findings
      in \<lparr>ao_Verdict = (if hasCriticalOrHigh then ''block'' else if hasMedium \<or> score < 70 then ''warn'' else ''pass''),
          ao_Grade = grade, ao_Score = score, ao_FindingsCount = length findings,
          ao_Corroborated = length (filter is_corroborated findings), ao_Policy = [], ao_ScanID = [], ao_ScannersUnavailable = False\<rparr>)"

definition ComputePolicy :: "AnalysisOutcome \<Rightarrow> EnforcementMode \<Rightarrow> PolicyDecision" where
  "ComputePolicy o1 mode =
     (if mode = ModePassthrough then PolicyAllow
      else if ao_ScannersUnavailable o1 \<and> mode = ModeStrict then PolicyScannerUnavailable
      else if ao_Verdict o1 = ''block'' then (if mode = ModeStrict then PolicyBlock else PolicyHoldForReview)
      else if ao_Verdict o1 = ''warn'' then (if mode = ModeStrict then PolicyRequireAck else PolicyAllowWithNotice)
      else PolicyAllow)"

text \<open>The release: \<open>None\<close>, or the status and reason of a refusal.\<close>

definition enforcePolicy :: "PolicyDecision \<Rightarrow> EnforcementMode \<Rightarrow> (int \<times> string) option" where
  "enforcePolicy policy mode =
     (if policy = PolicyBlock \<and> mode = ModeStrict
      then Some (451, ''blocked by VigilAgent policy: output withheld until the scan findings are resolved'')
      else if policy = PolicyScannerUnavailable \<and> mode = ModeStrict
      then Some (503, ''scanner unavailable: failing closed per policy '' @ [CHR 0xE2, CHR 0x80, CHR 0x94] @ '' no output released'')
      else None)"

text \<open>The analyses of the blocks in the order in which they finish: all findings, and how many had an error of the model.\<close>

fun analyze_blocks :: "analysis_env \<Rightarrow> 'w chat option \<Rightarrow> CodeBlock list \<Rightarrow> 'w \<Rightarrow> (ProxyFinding list \<times> nat) \<times> 'w" where
  "analyze_blocks env router [] w = (([], 0), w)"
| "analyze_blocks env router (b # bs) w =
     (let (r, w1) = AnalyzeWithDualEngine env router (cb_Code b) (cb_Language b) w;
          ((fs, n), w2) = analyze_blocks env router bs w1
      in ((de_Findings r @ fs, (if de_LLMError r \<noteq> [] then 1 else 0) + n), w2))"

definition analyzeAndVerdict ::
    "analysis_env \<Rightarrow> 'w chat option \<Rightarrow> string \<Rightarrow> 'w \<Rightarrow> (AnalysisOutcome option \<times> ProxyFinding list \<times> string \<times> bool) \<times> 'w" where
  "analyzeAndVerdict env router content w =
     (let blocks = ExtractCodeBlocks content
      in if blocks = [] then ((None, [], [], False), w)
         else
           let ((allFindings, llmErrCount), w1) = analyze_blocks env router (ax_finish env blocks) w;
               unique = DeduplicateFindings allFindings;
               o0 = ComputeVerdict unique;
               o1 = (if length blocks \<le> llmErrCount \<and> unique = [] then o0\<lparr>ao_ScannersUnavailable := True\<rparr> else o0);
               summary = (if unique \<noteq> [] then BuildSummary unique (ao_Score o1) (ao_Grade o1) (ao_Corroborated o1) else [])
           in ((Some o1, unique, summary, 0 < llmErrCount), w1))"

subsection \<open>The streaming gate\<close>

record streamingGate =
  sg_mode :: EnforcementMode
  sg_strict :: bool
  sg_inCode :: bool
  sg_buf :: string
  sg_heldCode :: "string list"

definition newStreamingGate :: "EnforcementMode \<Rightarrow> streamingGate" where
  "newStreamingGate mode = \<lparr>sg_mode = mode, sg_strict = (mode = ModeStrict), sg_inCode = False, sg_buf = [], sg_heldCode = []\<rparr>"

definition isTripleBacktickAt :: "string \<Rightarrow> bool" where
  "isTripleBacktickAt txt \<longleftrightarrow> take 3 txt = mark3 backtick"

text \<open>A mark opens or closes a held block.\<close>

definition gate_mark :: "streamingGate \<Rightarrow> streamingGate" where
  "gate_mark g =
     (if sg_inCode g
      then g\<lparr>sg_heldCode := sg_heldCode g @ [sg_buf g @ mark3 backtick], sg_buf := [], sg_inCode := False\<rparr>
      else g\<lparr>sg_buf := sg_buf g @ mark3 backtick, sg_inCode := True\<rparr>)"

function gate_scan :: "string \<Rightarrow> streamingGate \<Rightarrow> streamingGate \<times> string" where
  "gate_scan [] g = (g, [])"
| "gate_scan (c # cs) g =
     (if isTripleBacktickAt (c # cs) then gate_scan (drop 2 cs) (gate_mark g)
      else if sg_inCode g then gate_scan cs (g\<lparr>sg_buf := sg_buf g @ [c]\<rparr>)
      else (let (g', out) = gate_scan cs g in (g', c # out)))"
  by pat_completeness auto
termination
  by (relation "measure (\<lambda>(cs, g). length cs)") auto

definition gate_push :: "string \<Rightarrow> streamingGate \<Rightarrow> streamingGate \<times> string" where
  "gate_push txt g =
     (if sg_mode g = ModeObserve \<or> sg_mode g = ModePassthrough then (g, txt)
      else if sg_strict g then (g\<lparr>sg_buf := sg_buf g @ txt\<rparr>, [])
      else gate_scan txt g)"

definition gate_finish :: "PolicyDecision \<Rightarrow> streamingGate \<Rightarrow> string \<times> bool" where
  "gate_finish policy g =
     (if sg_mode g = ModeObserve \<or> sg_mode g = ModePassthrough then ([], False)
      else if sg_strict g
      then (if policy = PolicyBlock \<or> policy = PolicyScannerUnavailable then ([], True) else (sg_buf g, False))
      else if sg_heldCode g = [] then ([], False)
      else if policy = PolicyHoldForReview \<or> policy = PolicyBlock
      then (concat (map (\<lambda>h. withheld_notice @ nl) (sg_heldCode g)), True)
      else (strings_Join (sg_heldCode g) nl, False))"

text \<open>A whole stream: the pieces released while it runs, and the gate at its end.\<close>

fun gate_run :: "string list \<Rightarrow> streamingGate \<Rightarrow> streamingGate \<times> string" where
  "gate_run [] g = (g, [])"
| "gate_run (c # cs) g = (let (g1, out) = gate_push c g; (g2, outs) = gate_run cs g1 in (g2, out @ outs))"

end
