(* ===== verification/Proxy_Analysis.thy ===== *)
theory Proxy_Analysis
  imports Proxy_Policy
begin

text \<open>
  What the analysis and the gate of the gateway guarantee: which verdict a set of findings gets, which
  findings survive merging and deduplication, and what of a stream the gate lets through.
\<close>

subsection \<open>Verdict and score\<close>

lemma verdict_block: "ao_Verdict (ComputeVerdict fs) = ''block'' \<longleftrightarrow> (\<exists>f \<in> set fs. pf_Severity f \<in> {''critical'', ''high''})"
  by (auto simp: ComputeVerdict_def case_prod_beta Let_def list_ex_iff)

lemma policy_strict: "ao_Verdict o1 = ''block'' \<Longrightarrow> \<not> ao_ScannersUnavailable o1 \<Longrightarrow> ComputePolicy o1 ModeStrict = PolicyBlock"
  by (simp add: ComputePolicy_def mode_defs)

lemma enforced_only_when_strict: "mode \<noteq> ModeStrict \<Longrightarrow> enforcePolicy policy mode = None"
  by (simp add: enforcePolicy_def)

subsection \<open>Merging and deduplication\<close>

lemma dedup_keep_new: "dedup_findings seen fs = keep_new finding_key (seen_keys seen) fs"
proof (induction seen fs rule: dedup_findings.induct)
  case (2 seen f fs)
  then show ?case by (cases "strset_has seen (finding_key f)") (simp_all add: seen_keys_add del: strset_has_add)
qed simp

text \<open>The first finding of each key survives.\<close>

lemma keep_new_first:
  "x \<in> set xs \<Longrightarrow> key x \<notin> S \<Longrightarrow>
   \<exists>as g bs. xs = as @ g # bs \<and> key g = key x \<and> x \<in> set (g # bs) \<and> g \<in> set (keep_new key S xs)"
proof (induction key S xs rule: keep_new.induct)
  case (2 key S y ys)
  show ?case
  proof (cases "key y = key x")
    case True
    then show ?thesis using 2 by (intro exI [of _ "[]"]) auto
  next
    case False
    then have x: "x \<in> set ys" "key x \<notin> (if key y \<in> S then S else insert (key y) S)" using 2 by auto
    have "\<exists>as g bs. ys = as @ g # bs \<and> key g = key x \<and> x \<in> set (g # bs) \<and>
        g \<in> set (keep_new key (if key y \<in> S then S else insert (key y) S) ys)"
      using 2 x by (cases "key y \<in> S") auto
    then obtain as g bs where "ys = as @ g # bs" "key g = key x" "x \<in> set (g # bs)"
      "g \<in> set (keep_new key (if key y \<in> S then S else insert (key y) S) ys)" by blast
    then show ?thesis by (intro exI [of _ "y # as"] exI [of _ g] exI [of _ bs]) auto
  qed
qed simp

interpretation merged: less_function merged_less
  by unfold_locales (auto simp: merged_less_def split: if_splits)

lemma rank_le: "severityRank s \<le> 5"
  by (simp add: severityRank_def Let_def)

lemma rank_not_less [simp]: "\<not> 5 < severityRank s"
  using rank_le [of s] by simp

lemma rank_critical: "severityRank s = 5 \<longleftrightarrow> strings_ToLower s = ''critical''"
  by (simp add: severityRank_def Let_def)

lemma rank_of_critical [simp]: "severityRank ''critical'' = 5"
  by code_simp

lemma add_llm_keeps: "f \<in> set merged \<Longrightarrow> f \<in> set (fold add_llm_only llm merged)"
  by (induction llm arbitrary: merged) (auto simp: add_llm_only_def)

lemma merged_contains: "f \<in> set det \<Longrightarrow> corroborate_with llm f \<in> set (MergeFindings det llm)"
  by (simp add: MergeFindings_def add_llm_keeps)

text \<open>A critical deterministic finding keeps severity, category and message.\<close>

lemma critical_survives:
  "pf_Severity f = ''critical'' \<Longrightarrow>
   pf_Severity (corroborate_with llm f) = ''critical'' \<and> finding_key (corroborate_with llm f) = finding_key f"
  by (simp add: corroborate_with_def finding_key_def split: list.splits)

text \<open>
  A finding that shadows another one in the deduplication has the same key. Of the keys of the local
  critical rules, only one part between colons reads \<^verbatim>\<open>critical\<close> in any spelling.
\<close>

fun critical_spellings :: "string \<Rightarrow> bool" where
  "critical_spellings [] \<longleftrightarrow> True"
| "critical_spellings (c # cs) \<longleftrightarrow>
     (if c = CHR '':'' then strings_ToLower (take 8 cs) = ''critical'' \<longrightarrow> take 8 cs = ''critical'' else True) \<and> critical_spellings cs"

lemma critical_spellings_at:
  "critical_spellings (c @ CHR '':'' # s @ m) \<Longrightarrow> strings_ToLower s = ''critical'' \<Longrightarrow> s = ''critical''"
proof (induction c)
  case Nil
  then have "length s = 8" by (auto simp: strings_ToLower_def dest: arg_cong [of _ _ length])
  then show ?case using Nil by simp
qed simp

lemma key_severity:
  "finding_key g = k \<Longrightarrow> critical_spellings k \<Longrightarrow> strings_ToLower (pf_Severity g) = ''critical'' \<Longrightarrow> pf_Severity g = ''critical''"
  using critical_spellings_at [of "pf_Category g" "pf_Severity g" "CHR '':'' # pf_Message g"] by (auto simp: finding_key_def)

definition local_critical :: "ProxyFinding list" where
  "local_critical = filter (\<lambda>f. pf_Severity f = ''critical'') (map snd local_rules)"

lemma local_spellings: "f \<in> set local_critical \<Longrightarrow> critical_spellings (finding_key f)"
proof -
  have "list_all (\<lambda>k. critical_spellings k)
     [''injection:critical:Potential SQL injection: string concatenation with user input in SQL query'',
      ''secrets:critical:Potential hardcoded secret detected'',
      ''injection:critical:Potential command injection: user input in shell command'']" by code_simp
  moreover assume "f \<in> set local_critical"
  ultimately show ?thesis by (auto simp: local_critical_def local_rules_def finding_def finding_key_def)
qed

lemma local_scan_critical:
  assumes "f \<in> set (localDeterministicScan code)" "pf_Severity f = ''critical''"
  shows "f \<in> set local_critical"
  using assms by (auto simp: localDeterministicScan_def local_critical_def)

lemma critical_not_shadowed:
  assumes "f \<in> set (localDeterministicScan code)" "pf_Severity f = ''critical''"
  shows "\<exists>g \<in> set (DeduplicateFindings (MergeFindings (localDeterministicScan code) llm)). pf_Severity g = ''critical''"
proof -
  let ?m = "MergeFindings (localDeterministicScan code) llm" and ?f = "corroborate_with llm f"
  have f: "pf_Severity ?f = ''critical''" "finding_key ?f = finding_key f" using critical_survives [OF assms(2)] by auto
  have "?f \<in> set ?m" by (rule merged_contains [OF assms(1)])
  then obtain as g bs where g: "?m = as @ g # bs" "finding_key g = finding_key ?f" "?f \<in> set (g # bs)"
    "g \<in> set (keep_new finding_key {} ?m)" using keep_new_first [of ?f ?m finding_key "{}"] by auto
  have "sorted_wrt (\<lambda>a b. \<not> merged_less b a) ?m" unfolding MergeFindings_def by (rule merged.go_sort_sorted)
  then have "\<not> merged_less ?f g \<or> g = ?f" using g(1,3) by (auto simp: sorted_wrt_append)
  then have "5 \<le> severityRank (pf_Severity g)" using f(1) by (auto simp: merged_less_def split: if_splits)
  then have "strings_ToLower (pf_Severity g) = ''critical''" using rank_le rank_critical by (metis order_antisym)
  then have "pf_Severity g = ''critical''"
    using key_severity [of g] g(2) f(2) local_spellings [OF local_scan_critical [OF assms]] by simp
  then show ?thesis using g(4) by (auto simp: DeduplicateFindings_def dedup_keep_new)
qed

text \<open>With one block, no answer of the model hides what the local rules find in it.\<close>

lemma local_critical_blocks:
  assumes "ExtractCodeBlocks content = [b]" "ax_finish env [b] = [b]" "ax_backend env (cb_Code b) (cb_Language b) = None"
    and "(r, f) \<in> set local_rules" "pf_Severity f = ''critical''" "MatchString r (cb_Code b)"
  shows "\<exists>o1 fs sum e w'. analyzeAndVerdict env router content w = ((Some o1, fs, sum, e), w') \<and>
    ao_Verdict o1 = ''block'' \<and> \<not> ao_ScannersUnavailable o1"
proof -
  have "f \<in> set (localDeterministicScan (cb_Code b))" using assms(4,6) by (force simp: localDeterministicScan_def)
  then have ex: "\<exists>g \<in> set (DeduplicateFindings (MergeFindings (localDeterministicScan (cb_Code b)) llm)). pf_Severity g = ''critical''" for llm
    using critical_not_shadowed assms(5) by blast
  obtain llm cost err w1 where llm: "runLLMEngine env router (cb_Code b) (cb_Language b) w = ((llm, cost, err), w1)"
    by (metis surj_pair)
  let ?u = "DeduplicateFindings (MergeFindings (localDeterministicScan (cb_Code b)) llm)"
  have "?u \<noteq> []" "ao_Verdict (ComputeVerdict ?u) = ''block''" using ex [of llm] verdict_block [of ?u] by auto
  moreover have "\<not> ao_ScannersUnavailable (ComputeVerdict ?u)" by (simp add: ComputeVerdict_def case_prod_beta Let_def)
  ultimately show ?thesis using assms(1-3) llm
    by (simp add: analyzeAndVerdict_def Analyze_def AnalyzeWithDualEngine_def runDeterministicEngine_def case_prod_beta Let_def)
qed

text \<open>What the model alone reports: one finding per category, the first.\<close>

definition llm_only :: "ProxyFinding \<Rightarrow> ProxyFinding" where
  "llm_only f = f\<lparr>pf_Confidence := clamp_float (pf_Confidence f) 0 (fl (7 / 10))\<rparr>"

lemma llm_only_simps [simp]: "pf_Category (llm_only f) = pf_Category f" "pf_Severity (llm_only f) = pf_Severity f" "is_corroborated (llm_only f) = is_corroborated f"
  by (simp_all add: llm_only_def is_corroborated_def)

lemma add_llm_first_of_category:
  assumes "list_all (\<lambda>f. \<not> is_corroborated f) merged" "list_all (\<lambda>f. \<not> is_corroborated f) llm"
  shows "fold add_llm_only llm merged = merged @ map llm_only (keep_new pf_Category (pf_Category ` set merged) llm)"
  using assms
proof (induction llm arbitrary: merged)
  case (Cons f llm)
  have ex: "list_ex (\<lambda>m. pf_Category m = pf_Category f \<and> \<not> is_corroborated m) merged \<longleftrightarrow> pf_Category f \<in> pf_Category ` set merged"
    using Cons.prems(1) by (auto simp: list_ex_iff list_all_iff image_iff) metis
  show ?case
  proof (cases "pf_Category f \<in> pf_Category ` set merged")
    case True
    then have "add_llm_only f merged = merged" using ex by (simp add: add_llm_only_def)
    then show ?thesis using Cons True by simp
  next
    case False
    then have "add_llm_only f merged = merged @ [llm_only f]" using ex by (simp add: add_llm_only_def llm_only_def)
    then show ?thesis using Cons False by simp
  qed
qed simp

lemma merge_llm_only:
  "list_all (\<lambda>f. \<not> is_corroborated f) llm \<Longrightarrow> set (MergeFindings [] llm) = llm_only ` set (keep_new pf_Category {} llm)"
  using add_llm_first_of_category [of "[]" llm] by (simp add: MergeFindings_def)

subsection \<open>The streaming gate\<close>

text \<open>In strict mode everything is held until the decision.\<close>

lemma strict_gate_holds: "sg_strict g \<Longrightarrow> sg_mode g = ModeStrict \<Longrightarrow> gate_run cs g = (g\<lparr>sg_buf := sg_buf g @ concat cs\<rparr>, [])"
  by (induction cs arbitrary: g) (simp_all add: gate_push_def mode_defs)

lemma strict_gate:
  "gate_run cs (newStreamingGate ModeStrict) = (g, out) \<Longrightarrow>
   out = [] \<and> gate_finish policy g = (if policy \<in> {PolicyBlock, PolicyScannerUnavailable} then ([], True) else (concat cs, False))"
  using strict_gate_holds [of "newStreamingGate ModeStrict" cs] by (auto simp: newStreamingGate_def gate_finish_def mode_defs)

text \<open>The scan of a text in two parts, when no mark lies across the cut.\<close>

definition cut_ok :: "string \<Rightarrow> bool" where
  "cut_ok xs \<longleftrightarrow> xs = [] \<or> last xs \<noteq> backtick"

lemma triple_append: "xs \<noteq> [] \<Longrightarrow> cut_ok xs \<Longrightarrow> isTripleBacktickAt (xs @ ys) = isTripleBacktickAt xs"
  by (cases xs; cases "drop 1 xs"; cases "drop 2 xs") (auto simp: isTripleBacktickAt_def cut_ok_def neq_Nil_conv Cons_eq_append_conv)

lemma gate_scan_mode: "gate_scan xs g = (g', out) \<Longrightarrow> sg_mode g' = sg_mode g \<and> sg_strict g' = sg_strict g"
  by (induction xs g arbitrary: g' out rule: gate_scan.induct)
    (auto simp: gate_mark_def Let_def split: if_splits prod.splits)

lemma gate_scan_append:
  "cut_ok xs \<Longrightarrow> gate_scan (xs @ ys) g = (let (g1, o1) = gate_scan xs g; (g2, o2) = gate_scan ys g1 in (g2, o1 @ o2))"
proof (induction xs g rule: gate_scan.induct)
  case (2 c cs g)
  have same: "isTripleBacktickAt (c # cs @ ys) = isTripleBacktickAt (c # cs)" using triple_append [of "c # cs" ys] "2.prems" by simp
  have tail: "cut_ok cs" using "2.prems" by (auto simp: cut_ok_def split: if_splits)
  show ?case
  proof (cases "isTripleBacktickAt (c # cs)")
    case True
    then obtain zs where cs: "cs = backtick # backtick # zs" by (cases cs; cases "List.tl cs") (auto simp: isTripleBacktickAt_def)
    then have "cut_ok zs" using tail by (auto simp: cut_ok_def split: if_splits)
    then show ?thesis using 2(1) [OF True] True same cs by simp
  next
    case False
    then show ?thesis using 2(2,3) [OF False] same tail by (auto simp: case_prod_beta Let_def)
  qed
qed simp

lemma gate_run_concat:
  assumes "sg_mode g \<notin> {ModeObserve, ModePassthrough}" "\<not> sg_strict g" "list_all cut_ok (butlast cs)"
  shows "gate_run cs g = gate_scan (concat cs) g"
  using assms
proof (induction cs arbitrary: g)
  case (Cons c cs)
  have push: "gate_push c g = gate_scan c g" using Cons.prems by (simp add: gate_push_def)
  obtain g1 out where sc: "gate_scan c g = (g1, out)" by fastforce
  then have g1: "sg_mode g1 \<notin> {ModeObserve, ModePassthrough}" "\<not> sg_strict g1" using gate_scan_mode Cons.prems by auto
  show ?case
  proof (cases "cs = []")
    case False
    then have "cut_ok c" "list_all cut_ok (butlast cs)" using Cons.prems(3) by auto
    then show ?thesis using Cons.IH [OF g1] push sc gate_scan_append by (simp add: case_prod_beta Let_def)
  qed (simp add: push sc)
qed simp

text \<open>A text without a mark: it flows outside of a held block and is held inside.\<close>

lemma triple_needs_backtick: "backtick \<noteq> c \<Longrightarrow> \<not> isTripleBacktickAt (c # cs)"
  by (simp add: isTripleBacktickAt_def)

lemma gate_scan_out:
  "backtick \<notin> set xs \<Longrightarrow> \<not> sg_inCode g \<Longrightarrow> gate_scan (xs @ ys) g = (let (g', out) = gate_scan ys g in (g', xs @ out))"
  by (induction xs) (auto simp: triple_needs_backtick case_prod_beta Let_def)

lemma gate_scan_in:
  "backtick \<notin> set xs \<Longrightarrow> sg_inCode g \<Longrightarrow> gate_scan (xs @ ys) g = gate_scan ys (g\<lparr>sg_buf := sg_buf g @ xs\<rparr>)"
  by (induction xs arbitrary: g) (auto simp: triple_needs_backtick)

lemma gate_scan_mark: "gate_scan (mark3 backtick @ ys) g = gate_scan ys (gate_mark g)"
  by (simp add: isTripleBacktickAt_def)

text \<open>What flows and what is held of a document.\<close>

fun live :: "segment \<Rightarrow> string" where
  "live (Fence False lang code) = []"
| "live seg = render seg"

fun held :: "segment \<Rightarrow> string list" where
  "held (Fence False lang code) = [fenced backtick lang code]"
| "held seg = []"

lemma gate_scan_document:
  assumes "list_all segment_ok segs" "\<not> sg_inCode g" "sg_buf g = []"
  shows "gate_scan (document segs) g = (g\<lparr>sg_heldCode := sg_heldCode g @ concat (map held segs)\<rparr>, concat (map live segs))"
  using assms
proof (induction segs arbitrary: g)
  case (Cons seg segs)
  show ?case
  proof (cases "\<exists>lang code. seg = Fence False lang code")
    case False
    then have "backtick \<notin> set (render seg)" using other_mark [of seg False] Cons.prems by auto
    moreover have "live seg = render seg" "held seg = []" using False by (cases seg rule: live.cases; auto)+
    ultimately show ?thesis using Cons by (simp add: gate_scan_out)
  next
    case True
    then obtain lang code where seg: "seg = Fence False lang code" by blast
    let ?mid = "lang @ [CHR 0x0A] @ code @ [CHR 0x0A]"
    have free: "backtick \<notin> set ?mid" using Cons.prems(1) seg lang_plain(1) [of lang False] by (auto simp: plain_def)
    have doc: "document (seg # segs) = mark3 backtick @ ?mid @ mark3 backtick @ document segs" by (simp add: seg fenced_def)
    have g1: "gate_mark g = g\<lparr>sg_buf := mark3 backtick, sg_inCode := True\<rparr>" using Cons.prems by (simp add: gate_mark_def)
    have "gate_scan (document (seg # segs)) g = gate_scan (document segs) (gate_mark (gate_mark g\<lparr>sg_buf := mark3 backtick @ ?mid\<rparr>))"
      unfolding doc gate_scan_mark using gate_scan_in [OF free, of "gate_mark g"] gate_scan_mark g1 by simp
    also have "gate_mark (gate_mark g\<lparr>sg_buf := mark3 backtick @ ?mid\<rparr>) = g\<lparr>sg_heldCode := sg_heldCode g @ [fenced backtick lang code]\<rparr>"
      using Cons.prems(2,3) by (simp add: g1) (simp add: gate_mark_def fenced_def)
    finally show ?thesis using Cons seg by simp
  qed
qed simp

text \<open>A mark divided between pieces is no mark.\<close>

definition marked :: "string \<Rightarrow> bool" where
  "marked xs \<longleftrightarrow> (\<exists>a b. xs = a @ mark3 backtick @ b)"

lemma gate_scan_unmarked: "\<not> marked xs \<Longrightarrow> \<not> sg_inCode g \<Longrightarrow> gate_scan xs g = (g, xs)"
proof (induction xs)
  case (Cons c cs)
  have "\<not> isTripleBacktickAt (c # cs)"
    using Cons.prems(1) append_take_drop_id [of 3 "c # cs"] unfolding isTripleBacktickAt_def marked_def
    by (metis append_Nil)
  moreover have "\<not> marked cs" using Cons.prems(1) unfolding marked_def by (metis append_Cons)
  ultimately show ?case using Cons by simp
qed simp

lemma gate_run_unmarked:
  assumes "list_all (\<lambda>c. \<not> marked c) cs" "\<not> sg_inCode g" "\<not> sg_strict g"
  shows "gate_run cs g = (g, concat cs)"
  using assms by (induction cs) (simp_all add: gate_push_def gate_scan_unmarked)

end
