(* ===== verification/Provenance.thy ===== *)
theory Provenance
  imports Go_Order Http Float64
begin

text \<open>
  Request signatures and provenance records (\<^verbatim>\<open>signing/signing.go\<close>) and the store of signed records
  of the gateway (\<^verbatim>\<open>proxy/proxy.go\<close>). HMAC-SHA256, SHA-256, the JSON encoder on an object of strings and
  the RFC 3339 rendering of times are a parameter. Header names are kept in lower case: they are
  compared without case, and only their lower-case form enters a signature.
\<close>

record sign_lib =
  sl_HMAC :: "string \<Rightarrow> string \<Rightarrow> string"
  sl_SHA256 :: "string \<Rightarrow> string"
  sl_Marshal :: "(string \<times> string) list \<Rightarrow> string"
  sl_RFC3339Nano :: "gotime \<Rightarrow> string"

subsection \<open>Signed requests\<close>

record Signer =
  sn_secret :: string
  sn_clockSkew :: duration

record signed_request =
  sq_Method :: string
  sq_Path :: string
  sq_RawQuery :: string
  sq_Header :: Header
  sq_Body :: string

definition NewSigner :: "string \<Rightarrow> Signer" where
  "NewSigner secret = \<lparr>sn_secret = secret, sn_clockSkew = 5 * Minute\<rparr>"

definition SetClockSkew :: "duration \<Rightarrow> Signer \<Rightarrow> Signer" where
  "SetClockSkew d s = s\<lparr>sn_clockSkew := d\<rparr>"

definition HMACSign :: "sign_lib \<Rightarrow> string \<Rightarrow> string \<Rightarrow> string" where
  "HMACSign lib secret payload = sl_HMAC lib secret payload"

text \<open>The signed headers, in order: those whose name begins with \<open>x-\<close>, but not the signature.\<close>

definition signed_keys :: "Header \<Rightarrow> string list" where
  "signed_keys h = filter (\<lambda>k. k \<noteq> ''x-signature'') (sort_Strings (filter (\<lambda>k. strings_HasPrefix k ''x-'') (gkeys h)))"

definition buildCanonical :: "sign_lib \<Rightarrow> int \<Rightarrow> signed_request \<Rightarrow> string" where
  "buildCanonical lib timestamp r =
     strings_ToUpper (sq_Method r) @ nl @ sq_Path r @ nl @ sq_RawQuery r @ nl @ strconv_Itoa timestamp @ nl @
     (if sq_Body r \<noteq> [] then sl_SHA256 lib (sq_Body r) else ''empty'') @ nl @
     concat (map (\<lambda>k. k @ '':'' @ strings_TrimSpace (header_Get (sq_Header r) k) @ nl) (signed_keys (sq_Header r)))"

text \<open>\<open>unix\<close> is the clock in seconds.\<close>

definition SignRequest :: "sign_lib \<Rightarrow> int \<Rightarrow> Signer \<Rightarrow> signed_request \<Rightarrow> signed_request" where
  "SignRequest lib unix s r =
     (let r1 = r\<lparr>sq_Header := header_Set ''x-timestamp'' (strconv_Itoa unix) (sq_Header r)\<rparr>;
          sig = HMACSign lib (sn_secret s) (buildCanonical lib unix r1)
      in r1\<lparr>sq_Header := header_Set ''x-signature'' sig (sq_Header r1)\<rparr>)"

datatype sign_error = MissingSignature | MissingTimestamp | InvalidTimestamp | OutsideWindow | SignatureMismatch

text \<open>The differences of the clock readings are 64-bit integers.\<close>

definition VerifyRequest :: "sign_lib \<Rightarrow> int \<Rightarrow> Signer \<Rightarrow> signed_request \<Rightarrow> sign_error option" where
  "VerifyRequest lib now s r =
     (let sig = header_Get (sq_Header r) ''x-signature''; tsStr = header_Get (sq_Header r) ''x-timestamp''
      in if sig = [] then Some MissingSignature
         else if tsStr = [] then Some MissingTimestamp
         else case strconv_Atoi tsStr of
                None \<Rightarrow> Some InvalidTimestamp
              | Some ts \<Rightarrow>
                  if wrap64 (now - ts) > seconds_of (sn_clockSkew s) \<or> wrap64 (ts - now) > seconds_of (sn_clockSkew s) then Some OutsideWindow
                  else if sig \<noteq> HMACSign lib (sn_secret s) (buildCanonical lib ts r) then Some SignatureMismatch
                  else None)"

subsection \<open>Provenance records\<close>

definition ProvenanceVerified :: string where "ProvenanceVerified = ''verified''"
definition ProvenanceUnverified :: string where "ProvenanceUnverified = ''unverified''"
definition ProvenanceBypassed :: string where "ProvenanceBypassed = ''bypassed''"

record ProvenanceRecord =
  pr_ScanID :: string
  pr_RequestID :: string
  pr_Provider :: string
  pr_Model :: string
  pr_TenantID :: string
  pr_UserID :: string
  pr_ProjectID :: string
  pr_ClientType :: string
  pr_ClientVersion :: string
  pr_PolicyVersion :: string
  pr_ScannerVersion :: string
  pr_ProvenanceStatus :: string
  pr_ResponseHash :: string
  pr_Decision :: string
  pr_Mode :: string
  pr_Timestamp :: gotime

definition HashContent :: "sign_lib \<Rightarrow> string \<Rightarrow> string" where
  "HashContent lib content = sl_SHA256 lib content"

definition canonicalProvenance :: "sign_lib \<Rightarrow> ProvenanceRecord \<Rightarrow> string" where
  "canonicalProvenance lib rec =
     sl_Marshal lib
       [(''scan_id'', pr_ScanID rec), (''request_id'', pr_RequestID rec), (''provider'', pr_Provider rec), (''model'', pr_Model rec),
        (''tenant_id'', pr_TenantID rec), (''user_id'', pr_UserID rec), (''project_id'', pr_ProjectID rec),
        (''client_type'', pr_ClientType rec), (''client_version'', pr_ClientVersion rec), (''policy_version'', pr_PolicyVersion rec),
        (''scanner_version'', pr_ScannerVersion rec), (''provenance_status'', pr_ProvenanceStatus rec),
        (''response_hash'', pr_ResponseHash rec), (''decision'', pr_Decision rec), (''mode'', pr_Mode rec),
        (''timestamp'', sl_RFC3339Nano lib (pr_Timestamp rec))]"

definition SignProvenance :: "sign_lib \<Rightarrow> string \<Rightarrow> ProvenanceRecord \<Rightarrow> string option" where
  "SignProvenance lib secret rec = (if secret = [] then None else Some (HMACSign lib secret (canonicalProvenance lib rec)))"

text \<open>Whether the record verifies; the two errors are an absent secret and a mismatch.\<close>

definition VerifyProvenance :: "sign_lib \<Rightarrow> string \<Rightarrow> ProvenanceRecord \<Rightarrow> string \<Rightarrow> string option" where
  "VerifyProvenance lib secret rec sig =
     (case SignProvenance lib secret rec of
        None \<Rightarrow> Some ''provenance signing secret is not configured''
      | Some expected \<Rightarrow> if sig \<noteq> expected then Some ''provenance signature mismatch'' else None)"

subsection \<open>The store\<close>

record provenanceStore =
  ps_records :: "(string, ProvenanceRecord) gomap"
  ps_sigs :: "(string, string) gomap"
  ps_order :: "string list"
  ps_cap :: nat

definition newProvenanceStore :: "nat \<Rightarrow> provenanceStore" where
  "newProvenanceStore capacity = \<lparr>ps_records = [], ps_sigs = [], ps_order = [], ps_cap = capacity\<rparr>"

definition drop_oldest :: "provenanceStore \<Rightarrow> provenanceStore" where
  "drop_oldest p =
     (case ps_order p of
        [] \<Rightarrow> p
      | oldest # rest \<Rightarrow> p\<lparr>ps_order := rest, ps_records := gdel oldest (ps_records p), ps_sigs := gdel oldest (ps_sigs p)\<rparr>)"

function trim_store :: "provenanceStore \<Rightarrow> provenanceStore" where
  "trim_store p = (if ps_cap p < length (ps_order p) then trim_store (drop_oldest p) else p)"
  by pat_completeness auto
termination
  by (relation "measure (\<lambda>p. length (ps_order p))") (auto simp: drop_oldest_def split: list.splits)

declare trim_store.simps [simp del]

definition provenance_put :: "ProvenanceRecord \<Rightarrow> string \<Rightarrow> provenanceStore \<Rightarrow> provenanceStore" where
  "provenance_put rec sig p =
     (let p1 = (if gget (ps_records p) (pr_ScanID rec) = None then p\<lparr>ps_order := ps_order p @ [pr_ScanID rec]\<rparr> else p)
      in trim_store (p1\<lparr>ps_records := gput (pr_ScanID rec) rec (ps_records p1), ps_sigs := gput (pr_ScanID rec) sig (ps_sigs p1)\<rparr>))"

definition provenance_get :: "string \<Rightarrow> provenanceStore \<Rightarrow> (ProvenanceRecord \<times> string) option" where
  "provenance_get scanID p =
     (case gget (ps_records p) scanID of
        None \<Rightarrow> None
      | Some rec \<Rightarrow> Some (rec, (case gget (ps_sigs p) scanID of Some sig \<Rightarrow> sig | None \<Rightarrow> [])))"

subsection \<open>Handlers\<close>

datatype provenance_answer =
    BadRequest string
  | NotFound string
  | RecordAnswer ProvenanceRecord string
  | VerifyAnswer bool string

definition handleProvenanceGet :: "string \<Rightarrow> provenanceStore \<Rightarrow> provenance_answer" where
  "handleProvenanceGet scanID p =
     (if scanID = [] then BadRequest ''scan_id query parameter is required''
      else case provenance_get scanID p of
             None \<Rightarrow> NotFound ''unknown scan_id''
           | Some (rec, sig) \<Rightarrow> RecordAnswer rec sig)"

text \<open>The decoded body: scan identifier, signature, record. \<open>None\<close> is an undecodable body.\<close>

definition verdict_of :: "string option \<Rightarrow> provenance_answer" where
  "verdict_of e = (case e of None \<Rightarrow> VerifyAnswer True [] | Some reason \<Rightarrow> VerifyAnswer False reason)"

definition handleProvenanceVerify ::
    "sign_lib \<Rightarrow> string \<Rightarrow> (string \<times> string \<times> ProvenanceRecord option) option \<Rightarrow> provenanceStore \<Rightarrow> provenance_answer" where
  "handleProvenanceVerify lib secret body p =
     (case body of
        None \<Rightarrow> BadRequest ''invalid JSON''
      | Some (scanID, signature, record) \<Rightarrow>
          (case record of
             Some rec \<Rightarrow> verdict_of (VerifyProvenance lib secret rec signature)
           | None \<Rightarrow>
               if scanID \<noteq> []
               then (case provenance_get scanID p of
                       None \<Rightarrow> VerifyAnswer False ''unknown scan_id''
                     | Some (rec, sig) \<Rightarrow>
                         if sig = [] then VerifyAnswer False ''record was not signed''
                         else verdict_of (VerifyProvenance lib secret rec signature))
               else BadRequest ''provide scan_id+signature or a full record''))"

subsection \<open>What a signature binds\<close>

lemma signed_keys_sorted: "signed_keys h = sort_Strings (filter (\<lambda>k. strings_HasPrefix k ''x-'' \<and> k \<noteq> ''x-signature'') (gkeys h))"
  by (simp add: signed_keys_def sort_Strings_def filter_sort conj_commute del: HasPrefix_iff)

lemma signed_keys_signature: "wf_gomap h \<Longrightarrow> signed_keys (header_Set ''x-signature'' v h) = signed_keys h"
  unfolding signed_keys_sorted
  by (rule sort_Strings_unique)
    (auto simp: header_Set_def set_gkeys wf_gomap_def [symmetric] simp flip: wf_gomap_def simp del: HasPrefix_iff split: if_splits)

lemma canonical_signature:
  "wf_gomap (sq_Header r) \<Longrightarrow> buildCanonical lib t (r\<lparr>sq_Header := header_Set ''x-signature'' v (sq_Header r)\<rparr>) = buildCanonical lib t r"
proof -
  assume wf: "wf_gomap (sq_Header r)"
  have "map (\<lambda>k. k @ '':'' @ strings_TrimSpace (header_Get (header_Set ''x-signature'' v (sq_Header r)) k) @ nl) (signed_keys (sq_Header r)) =
    map (\<lambda>k. k @ '':'' @ strings_TrimSpace (header_Get (sq_Header r) k) @ nl) (signed_keys (sq_Header r))"
    by (rule map_cong [OF refl]) (auto simp: signed_keys_def)
  moreover have "sq_Header (r\<lparr>sq_Header := h\<rparr>) = h" "sq_Method (r\<lparr>sq_Header := h\<rparr>) = sq_Method r" "sq_Path (r\<lparr>sq_Header := h\<rparr>) = sq_Path r"
    "sq_RawQuery (r\<lparr>sq_Header := h\<rparr>) = sq_RawQuery r" "sq_Body (r\<lparr>sq_Header := h\<rparr>) = sq_Body r" for h by simp_all
  ultimately show ?thesis unfolding buildCanonical_def by (simp only: signed_keys_signature [OF wf])
qed

text \<open>A signed request verifies as long as the clock is within the window, any number of times.\<close>

lemma signed_verifies:
  assumes "wf_gomap (sq_Header r)" "in_int64 unix" "in_int64 (now - unix)" "in_int64 (unix - now)" "\<bar>now - unix\<bar> \<le> seconds_of (sn_clockSkew s)"
    and "\<And>x. sl_HMAC lib (sn_secret s) x \<noteq> []"
  shows "VerifyRequest lib now s (SignRequest lib unix s r) = None"
proof -
  let ?r1 = "r\<lparr>sq_Header := header_Set ''x-timestamp'' (strconv_Itoa unix) (sq_Header r)\<rparr>"
  have wf: "wf_gomap (sq_Header ?r1)" using assms(1) by (simp add: header_Set_def)
  have "strconv_Itoa unix \<noteq> []" by (simp add: strconv_Itoa_def)
  moreover have "header_Get (sq_Header (SignRequest lib unix s r)) ''x-timestamp'' = strconv_Itoa unix"
    "header_Get (sq_Header (SignRequest lib unix s r)) ''x-signature'' = HMACSign lib (sn_secret s) (buildCanonical lib unix ?r1)"
    by (simp_all add: SignRequest_def Let_def)
  moreover have "buildCanonical lib unix (SignRequest lib unix s r) = buildCanonical lib unix ?r1"
    unfolding SignRequest_def Let_def by (rule canonical_signature [OF wf])
  ultimately show ?thesis using assms(2-6)
    by (auto simp: VerifyRequest_def Atoi_Itoa wrap64_id HMACSign_def Let_def)
qed

text \<open>Parts that end at a line break.\<close>

lemma line_inj: "a @ nl @ x = b @ nl @ y \<Longrightarrow> CHR 0x0A \<notin> set a \<Longrightarrow> CHR 0x0A \<notin> set b \<Longrightarrow> a = b \<and> x = y"
proof (induction a arbitrary: b)
  case (Cons c a)
  then show ?case by (cases b) (auto simp: nl_def)
qed (auto simp: nl_def Cons_eq_append_conv)

lemma lines_inj:
  "concat (map (\<lambda>l. l @ nl) ls) = concat (map (\<lambda>l. l @ nl) ms) \<Longrightarrow>
   (\<And>l. l \<in> set ls \<union> set ms \<Longrightarrow> CHR 0x0A \<notin> set l) \<Longrightarrow> ls = ms"
proof (induction ls arbitrary: ms)
  case Nil
  then show ?case by (cases ms) (auto simp: nl_def)
next
  case (Cons l ls)
  then obtain m ms' where ms: "ms = m # ms'" by (cases ms) (auto simp: nl_def)
  have "l @ nl @ concat (map (\<lambda>l. l @ nl) ls) = m @ nl @ concat (map (\<lambda>l. l @ nl) ms')" using Cons.prems(1) ms by simp
  then have eq: "l = m \<and> concat (map (\<lambda>l. l @ nl) ls) = concat (map (\<lambda>l. l @ nl) ms')"
    by (rule line_inj) (use Cons.prems(2) ms in simp_all)
  then have "ls = ms'" using Cons.IH [of ms'] Cons.prems(2) ms by simp
  then show ?case using eq ms by simp
qed

lemma field_inj: "a @ '':'' @ x = b @ '':'' @ y \<Longrightarrow> CHR '':'' \<notin> set a \<Longrightarrow> CHR '':'' \<notin> set b \<Longrightarrow> a = b \<and> x = y"
proof (induction a arbitrary: b)
  case (Cons c a)
  then show ?case by (cases b) auto
qed (auto simp: Cons_eq_append_conv)

text \<open>
  What HTTP allows: no line break in method, raw query and header values, no line break or colon in header
  names. The path is the decoded one and may contain a line break; here it does not.
\<close>

definition one_line_request :: "signed_request \<Rightarrow> bool" where
  "one_line_request r \<longleftrightarrow> CHR 0x0A \<notin> set (sq_Method r) \<and> CHR 0x0A \<notin> set (sq_Path r) \<and> CHR 0x0A \<notin> set (sq_RawQuery r) \<and>
     (\<forall>k \<in> set (gkeys (sq_Header r)). CHR 0x0A \<notin> set k \<and> CHR '':'' \<notin> set k \<and> CHR 0x0A \<notin> set (header_Get (sq_Header r) k))"

definition signed_values :: "signed_request \<Rightarrow> (string \<times> string) list" where
  "signed_values r = map (\<lambda>k. (k, strings_TrimSpace (header_Get (sq_Header r) k))) (signed_keys (sq_Header r))"

lemma TrimSpace_set: "set (strings_TrimSpace s) \<subseteq> set s"
  unfolding strings_TrimSpace_def by (auto dest!: set_dropWhileD set_takeWhileD)

lemma ascii_upper_nl: "ascii_upper c = CHR 0x0A \<Longrightarrow> c = CHR 0x0A"
  by (erule ascii_upper_other) simp

lemma canonical_binds:
  fixes r r' :: signed_request
  assumes "buildCanonical lib t r = buildCanonical lib t' r'" "one_line_request r" "one_line_request r'"
    and sha: "sl_SHA256 lib (sq_Body r) = sl_SHA256 lib (sq_Body r') \<Longrightarrow> sq_Body r = sq_Body r'" "\<And>x. sl_SHA256 lib x \<noteq> ''empty'' \<and> CHR 0x0A \<notin> set (sl_SHA256 lib x)"
    and "0 \<le> t" "0 \<le> t'"
  shows "strings_ToUpper (sq_Method r) = strings_ToUpper (sq_Method r') \<and> sq_Path r = sq_Path r' \<and> sq_RawQuery r = sq_RawQuery r' \<and>
    t = t' \<and> sq_Body r = sq_Body r' \<and> signed_values r = signed_values r'"
proof -
  define ln where "ln (q :: signed_request) = map (\<lambda>k. k @ '':'' @ strings_TrimSpace (header_Get (sq_Header q) k)) (signed_keys (sq_Header q))" for q
  define hash where "hash (q :: signed_request) = (if sq_Body q \<noteq> [] then sl_SHA256 lib (sq_Body q) else ''empty'')" for q
  define fields where "fields u (q :: signed_request) = [strings_ToUpper (sq_Method q), sq_Path q, sq_RawQuery q, strconv_Itoa u, hash q] @ ln q" for u q
  have shape: "buildCanonical lib u q = concat (map (\<lambda>l. l @ nl) (fields u q))" for u q
    by (simp add: buildCanonical_def fields_def ln_def hash_def comp_def)
  have itoa: "CHR 0x0A \<notin> set (strconv_Itoa u)" if "0 \<le> u" for u
  proof
    assume "CHR 0x0A \<in> set (strconv_Itoa u)"
    then have "CHR 0x0A \<in> set (digits_of (nat u))" using \<open>0 \<le> u\<close> by (simp add: strconv_Itoa_def)
    from digit_chars [OF this] obtain d :: nat where d: "d < 10" "CHR 0x0A = char_of (48 + d)" by blast
    have "(of_char (char_of (48 + d) :: char) :: int) = 10" unfolding d(2) [symmetric] by simp
    then show False using of_char_digit [OF d(1)] by simp
  qed
  have keys: "set (signed_keys h) \<subseteq> set (gkeys h)" for h by (auto simp: signed_keys_def)
  have free: "CHR 0x0A \<notin> set l" if "one_line_request q" "0 \<le> u" "l \<in> set (fields u q)" for l u q
  proof -
    have "CHR 0x0A \<notin> set (strings_ToUpper (sq_Method q))"
      using that(1) ascii_upper_nl by (auto simp: one_line_request_def strings_ToUpper_def) (metis)
    moreover have "CHR 0x0A \<notin> set (k @ '':'' @ strings_TrimSpace (header_Get (sq_Header q) k))" if k: "k \<in> set (signed_keys (sq_Header q))" for k
      using k keys [of "sq_Header q"] \<open>one_line_request q\<close> TrimSpace_set by (fastforce simp: one_line_request_def)
    ultimately show ?thesis using that itoa sha(2) by (auto simp: fields_def ln_def hash_def one_line_request_def split: if_splits)
  qed
  have "fields t r = fields t' r'"
  proof (rule lines_inj)
    show "concat (map (\<lambda>l. l @ nl) (fields t r)) = concat (map (\<lambda>l. l @ nl) (fields t' r'))" using assms(1) unfolding shape .
    show "CHR 0x0A \<notin> set l" if "l \<in> set (fields t r) \<union> set (fields t' r')" for l
      using that free [OF assms(2,6)] free [OF assms(3,7)] by blast
  qed
  then have eq: "strings_ToUpper (sq_Method r) = strings_ToUpper (sq_Method r')" "sq_Path r = sq_Path r'" "sq_RawQuery r = sq_RawQuery r'"
    "strconv_Itoa t = strconv_Itoa t'" "hash r = hash r'" "ln r = ln r'" by (simp_all add: fields_def)
  have "t = t'" using eq(4) Itoa_inj_nat assms(6,7) by blast
  moreover have "sq_Body r = sq_Body r'" using eq(5) sha(1) sha(2) [of "sq_Body r"] sha(2) [of "sq_Body r'"]
    unfolding hash_def by argo
  moreover have "signed_values r = signed_values r'"
  proof (rule nth_equalityI)
    have len: "length (signed_keys (sq_Header r)) = length (signed_keys (sq_Header r'))" using eq(6) by (auto simp: ln_def dest: map_eq_imp_length_eq)
    then show "length (signed_values r) = length (signed_values r')" by (simp add: signed_values_def)
    fix i assume i: "i < length (signed_values r)"
    let ?k = "signed_keys (sq_Header r) ! i" and ?k' = "signed_keys (sq_Header r') ! i"
    have mem: "?k \<in> set (gkeys (sq_Header r))" "?k' \<in> set (gkeys (sq_Header r'))"
      using i len keys nth_mem by (force simp: signed_values_def)+
    have "?k @ '':'' @ strings_TrimSpace (header_Get (sq_Header r) ?k) = ?k' @ '':'' @ strings_TrimSpace (header_Get (sq_Header r') ?k')"
      using arg_cong [OF eq(6), of "\<lambda>l. l ! i"] i len by (simp add: ln_def signed_values_def)
    then have "?k = ?k' \<and> strings_TrimSpace (header_Get (sq_Header r) ?k) = strings_TrimSpace (header_Get (sq_Header r') ?k')"
      by (rule field_inj) (use mem assms(2,3) in \<open>auto simp: one_line_request_def\<close>)
    then show "signed_values r ! i = signed_values r' ! i" using i len by (simp add: signed_values_def) metis
  qed
  ultimately show ?thesis using eq by blast
qed

subsection \<open>What the store keeps\<close>

definition store_ok :: "provenanceStore \<Rightarrow> bool" where
  "store_ok p \<longleftrightarrow> distinct (ps_order p) \<and> length (ps_order p) \<le> ps_cap p \<and>
     (\<forall>k. (k \<in> set (ps_order p)) = (gget (ps_records p) k \<noteq> None)) \<and> (\<forall>k. (k \<in> set (ps_order p)) = (gget (ps_sigs p) k \<noteq> None)) \<and>
     (\<forall>k rec. gget (ps_records p) k = Some rec \<longrightarrow> pr_ScanID rec = k)"

text \<open>Trimming drops the oldest identifiers, and what is stored under them.\<close>

definition without :: "string set \<Rightarrow> (string, 'v) gomap \<Rightarrow> string \<Rightarrow> 'v option" where
  "without ks m k = (if k \<in> ks then None else gget m k)"

lemma trim_store_drops:
  "ps_order (trim_store p) = drop (length (ps_order p) - ps_cap p) (ps_order p) \<and> ps_cap (trim_store p) = ps_cap p \<and>
   gget (ps_records (trim_store p)) = without (set (take (length (ps_order p) - ps_cap p) (ps_order p))) (ps_records p) \<and>
   gget (ps_sigs (trim_store p)) = without (set (take (length (ps_order p) - ps_cap p) (ps_order p))) (ps_sigs p)"
proof (induction p rule: trim_store.induct)
  case (1 p)
  show ?case
  proof (cases "ps_cap p < length (ps_order p)")
    case False
    then show ?thesis by (subst (1 2 3 4) trim_store.simps) (auto simp: without_def)
  next
    case True
    then obtain x xs where o: "ps_order p = x # xs" by (cases "ps_order p") auto
    have k: "length (ps_order p) - ps_cap p = Suc (length xs - ps_cap p)" using True o by simp
    have "trim_store p = trim_store (drop_oldest p)" using True by (subst trim_store.simps) simp
    then show ?thesis using 1 [OF True] o unfolding k by (auto simp: drop_oldest_def without_def fun_eq_iff)
  qed
qed

definition put_ids :: "ProvenanceRecord \<Rightarrow> provenanceStore \<Rightarrow> string list" where
  "put_ids rec p = (if gget (ps_records p) (pr_ScanID rec) = None then ps_order p @ [pr_ScanID rec] else ps_order p)"

lemma put_shape:
  "ps_order (provenance_put rec sig p) = drop (length (put_ids rec p) - ps_cap p) (put_ids rec p)"
  "ps_cap (provenance_put rec sig p) = ps_cap p"
  "gget (ps_records (provenance_put rec sig p)) =
     without (set (take (length (put_ids rec p) - ps_cap p) (put_ids rec p))) (gput (pr_ScanID rec) rec (ps_records p))"
  "gget (ps_sigs (provenance_put rec sig p)) =
     without (set (take (length (put_ids rec p) - ps_cap p) (put_ids rec p))) (gput (pr_ScanID rec) sig (ps_sigs p))"
  by (simp_all add: provenance_put_def Let_def trim_store_drops put_ids_def)

lemma store_ok_new: "store_ok (newProvenanceStore n)"
  by (simp add: store_ok_def newProvenanceStore_def)

lemma store_ok_put: "store_ok p \<Longrightarrow> store_ok (provenance_put rec sig p)"
proof -
  assume ok: "store_ok p"
  let ?id = "pr_ScanID rec"
  define o1 where "o1 = put_ids rec p"
  define k where "k = length o1 - ps_cap p"
  have o1: "distinct o1" "set o1 = insert ?id (set (ps_order p))" using ok by (auto simp: o1_def put_ids_def store_ok_def)
  have split: "set (drop k o1) = set o1 - set (take k o1)"
    using o1(1) append_take_drop_id [of k o1] by (metis Diff_cancel Un_Diff Un_Diff_Int distinct_append set_append inf_commute Diff_triv sup_bot.left_neutral)
  have put: "ps_order (provenance_put rec sig p) = drop k o1"
    "gget (ps_records (provenance_put rec sig p)) = without (set (take k o1)) (gput ?id rec (ps_records p))"
    "gget (ps_sigs (provenance_put rec sig p)) = without (set (take k o1)) (gput ?id sig (ps_sigs p))"
    by (simp_all add: put_shape o1_def k_def)
  have "distinct (drop k o1)" "length (drop k o1) \<le> ps_cap p" using o1(1) by (auto simp: k_def)
  moreover have "(x \<in> set (drop k o1)) = (without (set (take k o1)) (gput ?id rec (ps_records p)) x \<noteq> None)"
    "(x \<in> set (drop k o1)) = (without (set (take k o1)) (gput ?id sig (ps_sigs p)) x \<noteq> None)" for x
    using ok o1(2) unfolding split by (auto simp: without_def store_ok_def)
  ultimately show ?thesis using ok unfolding store_ok_def put put_shape(2) by (auto simp: without_def split: if_splits)
qed

text \<open>A record stored under a new identifier stays until as many others were stored as the store holds.\<close>

lemma record_retained:
  assumes "store_ok p" "gget (ps_records p) (pr_ScanID rec) = None" "length later < ps_cap p"
    and "\<And>r s. (r, s) \<in> set later \<Longrightarrow> pr_ScanID r \<noteq> pr_ScanID rec"
  shows "provenance_get (pr_ScanID rec) (fold (\<lambda>(r, s). provenance_put r s) later (provenance_put rec sig p)) = Some (rec, sig)"
proof -
  let ?id = "pr_ScanID rec"
  define kept where "kept n q \<longleftrightarrow> store_ok q \<and> ps_cap q = ps_cap p \<and> gget (ps_records q) ?id = Some rec \<and> gget (ps_sigs q) ?id = Some sig \<and>
      (\<exists>xs ys. ps_order q = xs @ ?id # ys \<and> length ys \<le> n)" for n q
  have step: "kept (Suc n) (provenance_put r s q)" if k: "kept n q" "Suc n < ps_cap p" "pr_ScanID r \<noteq> ?id" for n q r s
  proof -
    define o1 where "o1 = put_ids r q"
    obtain xs ys where o: "ps_order q = xs @ ?id # ys" "length ys \<le> n" using k(1) by (auto simp: kept_def)
    then have "o1 = xs @ ?id # (if gget (ps_records q) (pr_ScanID r) = None then ys @ [pr_ScanID r] else ys)" by (simp add: o1_def put_ids_def)
    then obtain zs where o1: "o1 = xs @ ?id # zs" "length zs \<le> Suc n" using o(2) by (auto split: if_splits)
    let ?k = "length o1 - ps_cap p"
    have le: "?k \<le> length xs" using o1 k(2) by simp
    then have cut: "drop ?k o1 = drop ?k xs @ ?id # zs" "take ?k o1 = take ?k xs" using o1 by simp_all
    have "?id \<notin> set xs" using k(1) o by (auto simp: kept_def store_ok_def)
    then have stays: "?id \<notin> set (take ?k o1)" unfolding cut by (auto dest: in_set_takeD)
    have q: "store_ok q" "ps_cap q = ps_cap p" "gget (ps_records q) ?id = Some rec" "gget (ps_sigs q) ?id = Some sig"
      using k(1) by (simp_all add: kept_def)
    note put = put_shape [of r s q, folded o1_def, unfolded q(2)]
    show ?thesis unfolding kept_def put
    proof (intro conjI)
      show "\<exists>xs ys. drop ?k o1 = xs @ ?id # ys \<and> length ys \<le> Suc n" using cut(1) o1(2) by blast
    qed (use q(1,3,4) store_ok_put stays k(3) in \<open>auto simp: without_def\<close>)
  qed
  have "kept 0 (provenance_put rec sig p)"
  proof -
    have "gget (ps_sigs p) ?id = None" "?id \<notin> set (ps_order p)" using assms(1,2) unfolding store_ok_def by metis+
    moreover have "length (ps_order p) + 1 - ps_cap p \<le> length (ps_order p)" using assms(3) by simp
    moreover from calculation have "?id \<notin> set (take (length (ps_order p) + 1 - ps_cap p) (ps_order p))" by (auto dest: in_set_takeD)
    ultimately show ?thesis using assms(1,2) store_ok_put [OF assms(1), of rec sig]
      by (simp add: kept_def put_shape put_ids_def without_def)
  qed
  then have "kept (length later) (fold (\<lambda>(r, s). provenance_put r s) later (provenance_put rec sig p))"
    using assms(3,4)
  proof (induction later rule: rev_induct)
    case (snoc rs later)
    have "kept (length later) (fold (\<lambda>(r, s). provenance_put r s) later (provenance_put rec sig p))"
      by (rule snoc.IH) (use snoc.prems in auto)
    moreover obtain r s where rs: "rs = (r, s)" by fastforce
    moreover have "pr_ScanID r \<noteq> ?id" by (rule snoc.prems(3) [of r s]) (simp add: rs)
    ultimately show ?case using step [of "length later" _ r s] snoc.prems(2) by simp
  qed simp
  then show ?thesis by (simp add: kept_def provenance_get_def)
qed

end
