(* ===== verification/Proxy_Server.thy ===== *)
theory Proxy_Server
  imports Proxy_Policy Provenance Model_Router
begin

text \<open>
  The gateway (\<^verbatim>\<open>proxy/proxy.go\<close>, \<^verbatim>\<open>proxy/providers.go\<close>): state, access control, choice of provider, the
  design gate and the non-streaming completion, from the request to the policy decision.

  Arguments (\<open>proxy_env\<close>): the constructors of provider clients; the model router's
  \<^verbatim>\<open>ExecuteWithFailover\<close> and \<^verbatim>\<open>StreamWithFailover\<close> (\<open>routed_chat\<close> and \<open>routed_stream\<close> are the ones of
  Model\_Router); JSON decoding of requests; one reading of the clock per request; DNS and URL
  parsing. A response body is the data that is encoded. The answer of a request is computed in one step:
  handlers that run in parallel share only the state that each locks for its own update.
\<close>

subsection \<open>State\<close>

record ProxyConfig =
  pc_APIKey :: string
  pc_AllowedAPIKeys :: string
  pc_ProvenanceSecret :: string
  pc_AllowedModels :: string
  pc_PerKeyDailyQuota :: int
  pc_OpenAIKey :: string
  pc_AnthropicKey :: string
  pc_GeminiKey :: string
  pc_NVIDIAKey :: string
  pc_GroqKey :: string
  pc_MistralKey :: string
  pc_CohereKey :: string
  pc_OpenRouterKey :: string
  pc_DeepSeekKey :: string

record KeyUsage =
  ku_RequestCount :: int
  ku_TotalCost :: f64
  ku_TotalTokens :: int
  ku_LastUsed :: int
  ku_ErrorCount :: int

record clientState =
  cs_count :: int
  cs_resetTime :: gotime

record ProxyServer =
  px_cfg :: ProxyConfig
  px_reqCount :: int
  px_errCount :: int
  px_latencies :: "int list"
  px_usageByKey :: "(string, KeyUsage) gomap"
  px_allowedKeys :: "string list"
  px_sharedCache :: InMemoryCache
  px_provenance :: provenanceStore
  px_provenanceSecret :: string
  px_decisionCount :: "(string, int) gomap"
  px_clients :: "(string, clientState) gomap"

definition parseAllowedKeys :: "string \<Rightarrow> string list" where
  "parseAllowedKeys csv = (if csv = [] then [] else filter (\<lambda>k. k \<noteq> []) (map strings_TrimSpace (strings_Split csv (CHR '',''))))"

definition resolveAllowedKeys :: "ProxyConfig \<Rightarrow> string list" where
  "resolveAllowedKeys cfg =
     (if pc_AllowedAPIKeys cfg \<noteq> [] then parseAllowedKeys (pc_AllowedAPIKeys cfg)
      else if pc_APIKey cfg \<noteq> [] then [pc_APIKey cfg] else [])"

definition resolveProvenanceSecret :: "ProxyConfig \<Rightarrow> string" where
  "resolveProvenanceSecret cfg =
     (if pc_ProvenanceSecret cfg \<noteq> [] then pc_ProvenanceSecret cfg
      else if pc_APIKey cfg \<noteq> [] then pc_APIKey cfg else ''vigilagent-dev-provenance-secret'')"

definition NewServer :: "ProxyConfig \<Rightarrow> ProxyServer" where
  "NewServer cfg =
     \<lparr>px_cfg = cfg, px_reqCount = 0, px_errCount = 0, px_latencies = [], px_usageByKey = [], px_allowedKeys = resolveAllowedKeys cfg,
      px_sharedCache = NewInMemoryCache (5 * Minute), px_provenance = newProvenanceStore 1000,
      px_provenanceSecret = resolveProvenanceSecret cfg, px_decisionCount = [], px_clients = []\<rparr>"

text \<open>Counters are unsigned 64-bit integers.\<close>

definition inc64 :: "int \<Rightarrow> int" where
  "inc64 n = (n + 1) mod 2 ^ 64"

subsection \<open>Answers\<close>

record completion =
  co_Model :: string
  co_Provider :: string
  co_Content :: string
  co_StopReason :: string
  co_InputTokens :: int
  co_OutputTokens :: int
  co_Outcome :: "AnalysisOutcome option"
  co_DesignFindings :: "nat option"
  co_Provenance :: "(ProvenanceRecord \<times> string) option"

datatype sse =
    SseContent string
  | SsePolicyError string PolicyDecision string string
  | SseLine string
  | SseCreated string
  | SseFailed string PolicyDecision string
  | SseCompleted string "AnalysisOutcome option" bool
  | SseDone

record proxy_metrics =
  pm_Requests :: int
  pm_Errors :: int
  pm_AvgLatency :: f64
  pm_P50Latency :: f64
  pm_Decisions :: int
  pm_Breakdown :: "(string, int) gomap"
  pm_TrackedKeys :: nat
  pm_TotalRequests :: int
  pm_TotalErrors :: int
  pm_TotalTokens :: int
  pm_TotalCost :: f64

datatype proxy_body =
    ErrorBody string
  | WithheldBody string AnalysisOutcome "ProxyFinding list" ProvenanceRecord string
  | CompletionBody completion
  | ResponsesBody completion
  | StreamBody "sse list"
  | AnalysisBody DualEngineResult
  | ProvenanceBody provenance_answer
  | UsageBody "(string, KeyUsage) gomap"
  | MetricsBody proxy_metrics
  | PlainBody

record proxy_answer =
  pa_Status :: int
  pa_Header :: Header
  pa_Body :: proxy_body

definition http_Error :: "Header \<Rightarrow> string \<Rightarrow> int \<Rightarrow> proxy_answer" where
  "http_Error h msg status = \<lparr>pa_Status = status, pa_Header = h, pa_Body = ErrorBody msg\<rparr>"

subsection \<open>Access\<close>

text \<open>The port of the remote address is cut off, by the first middleware and again by the limiter.\<close>

definition strip_port :: "string \<Rightarrow> string" where
  "strip_port ip = (let i = strings_LastIndex ip '':'' in if 0 < i then take (nat i) ip else ip)"

definition presented_key :: "Request \<Rightarrow> string" where
  "presented_key q =
     (let key = rq_Header q ''X-API-Key''; a = rq_Header q ''Authorization''
      in if key \<noteq> [] then key else if strings_HasPrefix a ''Bearer '' then strings_TrimPrefix a ''Bearer '' else [])"

text \<open>The handler gets the key that the middleware stored in the context; it is empty for the two open paths.\<close>

definition proxy_authMiddleware ::
    "(string \<Rightarrow> Request \<Rightarrow> ProxyServer \<Rightarrow> ProxyServer \<times> proxy_answer) \<Rightarrow> Request \<Rightarrow> ProxyServer \<Rightarrow> ProxyServer \<times> proxy_answer" where
  "proxy_authMiddleware nxt q s =
     (if rq_Path q = ''/health'' \<or> rq_Path q = ''/metrics'' then nxt [] q s
      else
        let key = presented_key q
        in if key = [] then (s, http_Error [] ''missing API key: provide X-API-Key header or Authorization: Bearer <key>'' 401)
           else if key \<notin> set (px_allowedKeys s) then (s, http_Error [] ''invalid API key'' 401)
           else nxt key q s)"

definition rateLimitMiddleware ::
    "gotime \<Rightarrow> (Request \<Rightarrow> ProxyServer \<Rightarrow> ProxyServer \<times> proxy_answer) \<Rightarrow> Request \<Rightarrow> ProxyServer \<Rightarrow> ProxyServer \<times> proxy_answer" where
  "rateLimitMiddleware now nxt q s =
     (let ip = strip_port (rq_RemoteAddr q);
          fresh = \<lparr>cs_count = 0, cs_resetTime = now + Minute\<rparr>;
          st = (case gget (px_clients s) ip of None \<Rightarrow> fresh | Some st \<Rightarrow> if cs_resetTime st < now then fresh else st);
          st1 = st\<lparr>cs_count := cs_count st + 1\<rparr>;
          s1 = s\<lparr>px_clients := gput ip st1 (px_clients s)\<rparr>
      in if 100 < cs_count st1 then (s1, http_Error [] ''rate limit exceeded'' 429) else nxt q s1)"

definition metricsMiddleware ::
    "int \<Rightarrow> (Request \<Rightarrow> ProxyServer \<Rightarrow> ProxyServer \<times> proxy_answer) \<Rightarrow> Request \<Rightarrow> ProxyServer \<Rightarrow> ProxyServer \<times> proxy_answer" where
  "metricsMiddleware latency nxt q s =
     (let (s1, a) = nxt q (s\<lparr>px_reqCount := inc64 (px_reqCount s)\<rparr>);
          l = px_latencies s1 @ [latency];
          s2 = s1\<lparr>px_latencies := (if 1000 < length l then tl l else l)\<rparr>
      in (if 400 \<le> pa_Status a then s2\<lparr>px_errCount := inc64 (px_errCount s2)\<rparr> else s2, a))"

subsection \<open>Usage, quota and allowed models\<close>

definition recordUsage :: "gotime \<Rightarrow> string \<Rightarrow> f64 \<Rightarrow> int \<Rightarrow> bool \<Rightarrow> ProxyServer \<Rightarrow> ProxyServer" where
  "recordUsage now key cost tokens err s =
     (if key = [] then s
      else
        let u = (case gget (px_usageByKey s) key of
                   Some u \<Rightarrow> u | None \<Rightarrow> \<lparr>ku_RequestCount = 0, ku_TotalCost = 0, ku_TotalTokens = 0, ku_LastUsed = 0, ku_ErrorCount = 0\<rparr>);
            u1 = \<lparr>ku_RequestCount = inc64 (ku_RequestCount u), ku_TotalCost = fadd (ku_TotalCost u) cost,
                  ku_TotalTokens = wrap64 (ku_TotalTokens u + tokens), ku_LastUsed = now div Second,
                  ku_ErrorCount = (if err then inc64 (ku_ErrorCount u) else ku_ErrorCount u)\<rparr>
        in s\<lparr>px_usageByKey := gput key u1 (px_usageByKey s)\<rparr>)"

definition usageCount :: "string \<Rightarrow> ProxyServer \<Rightarrow> int" where
  "usageCount key s = (case gget (px_usageByKey s) key of None \<Rightarrow> 0 | Some u \<Rightarrow> ku_RequestCount u)"

definition modelAllowed :: "ProxyConfig \<Rightarrow> string \<Rightarrow> bool" where
  "modelAllowed cfg model =
     (if pc_AllowedModels cfg = [] \<or> model = [] then True
      else list_ex (\<lambda>p. let pat = strings_TrimSpace p in
             pat \<noteq> [] \<and> (pat = ''*'' \<or> pat = model \<or> (strings_HasSuffix pat ''*'' \<and> strings_HasPrefix model (strings_TrimSuffix pat ''*''))))
           (strings_Split (pc_AllowedModels cfg) (CHR '','')))"

text \<open>The checks before any provider is called.\<close>

definition tenant_check :: "string \<Rightarrow> string \<Rightarrow> ProxyServer \<Rightarrow> proxy_answer option" where
  "tenant_check key model s =
     (if \<not> modelAllowed (px_cfg s) model then Some (http_Error [] ''model not allowed by tenant policy'' 403)
      else if 0 < pc_PerKeyDailyQuota (px_cfg s) \<and> pc_PerKeyDailyQuota (px_cfg s) \<le> usageCount key s
      then Some (http_Error [] ''daily request quota exceeded'' 429)
      else None)"

definition recordDecision :: "string \<Rightarrow> PolicyDecision \<Rightarrow> ProxyServer \<Rightarrow> ProxyServer" where
  "recordDecision verdict policy s =
     (let k = verdict @ '':'' @ policy
      in s\<lparr>px_decisionCount := gput k (inc64 (case gget (px_decisionCount s) k of None \<Rightarrow> 0 | Some n \<Rightarrow> n)) (px_decisionCount s)\<rparr>)"

subsection \<open>Providers\<close>

definition starts_with :: "string \<Rightarrow> string list \<Rightarrow> bool" where
  "starts_with s ps = list_ex (strings_HasPrefix s) ps"

definition inferProviderFromModel :: "string \<Rightarrow> ProxyConfig \<Rightarrow> string" where
  "inferProviderFromModel model cfg =
     (if pc_OpenRouterKey cfg \<noteq> [] \<and> (strings_Contains model ''/'' \<or> strings_HasSuffix model '':free'') then ''openrouter''
      else if starts_with model [''gpt-'', ''o1-'', ''o3-'', ''o4-'', ''gpt-4.5''] then ''openai''
      else if starts_with model [''claude-''] then ''anthropic''
      else if starts_with model [''gemini-''] then ''gemini''
      else if starts_with model [''llama-'', ''mixtral-'', ''gemma'']
      then (if pc_GroqKey cfg \<noteq> [] then ''groq'' else if pc_NVIDIAKey cfg \<noteq> [] then ''nvidia_nim'' else ''groq'')
      else if starts_with model [''mistral'', ''open-mixtral'', ''codestral'', ''pixtral''] then ''mistral''
      else if starts_with model [''command''] then ''cohere''
      else if starts_with model [''nvidia/'', ''meta/'', ''mistralai/'', ''moonshotai/'', ''qwen/'', ''deepseek-ai/''] then ''nvidia_nim''
      else if starts_with model [''deepseek-'', ''kimi-''] then (if pc_NVIDIAKey cfg \<noteq> [] then ''nvidia_nim'' else ''deepseek'')
      else if pc_NVIDIAKey cfg \<noteq> [] then ''nvidia_nim''
      else if pc_OpenAIKey cfg \<noteq> [] then ''openai''
      else if pc_AnthropicKey cfg \<noteq> [] then ''anthropic''
      else ''openai'')"

text \<open>Key prefixes of the catalogue (\<^verbatim>\<open>llm/models.go\<close>), a map: the longest wins, of equal ones the first in the map's order.\<close>

definition key_prefixes :: "(string, string) gomap" where
  "key_prefixes =
     [(''openai'', ''sk-''), (''anthropic'', ''sk-ant-''), (''gemini'', ''AIza''), (''groq'', ''gsk_''), (''mistral'', ''ms-''),
      (''cohere'', ''co-''), (''nvidia_nim'', ''nvapi-''), (''deepseek'', ''sk-''), (''openrouter'', ''sk-or-'')]"

definition better_prefix :: "string \<Rightarrow> string \<Rightarrow> (string \<times> nat) option \<Rightarrow> (string \<times> nat) option" where
  "better_prefix key i best =
     (case gget key_prefixes i of
        None \<Rightarrow> best
      | Some p \<Rightarrow>
          if p \<noteq> [] \<and> strings_HasPrefix key p \<and> (case best of None \<Rightarrow> 0 | Some (b, n) \<Rightarrow> n) < length p then Some (i, length p) else best)"

definition ProviderByKeyPrefix :: "string list \<Rightarrow> string \<Rightarrow> string option" where
  "ProviderByKeyPrefix order key = map_option fst (fold (better_prefix key) order None)"

definition resolveProviderID :: "string list \<Rightarrow> string \<Rightarrow> string \<Rightarrow> string" where
  "resolveProviderID order apiKey hint =
     (if hint \<noteq> []
      then (let h = strings_ToLower (map (\<lambda>c. if c = CHR '' '' then CHR ''_'' else c) hint)
            in if h = ''nvidia'' \<or> h = ''nvidia_nim'' \<or> h = ''nvidia nim'' then ''nvidia_nim'' else h)
      else case ProviderByKeyPrefix order apiKey of Some i \<Rightarrow> i | None \<Rightarrow> ''openai'')"

definition known_providers :: "string list" where
  "known_providers = [''openai'', ''anthropic'', ''gemini'', ''groq'', ''mistral'', ''cohere'', ''nvidia_nim'', ''openrouter'', ''deepseek'']"

definition createProvider :: "(string \<Rightarrow> string \<Rightarrow> 'p option) \<Rightarrow> string \<Rightarrow> string \<Rightarrow> 'p option" where
  "createProvider new i apiKey = new (if i \<in> set known_providers then i else ''openai'') apiKey"

record ProviderConfig =
  pv_Name :: string
  pv_BaseURL :: string
  pv_APIKey :: string

definition provider_at :: "string \<Rightarrow> string \<Rightarrow> string \<Rightarrow> ProviderConfig" where
  "provider_at name url key = \<lparr>pv_Name = name, pv_BaseURL = url, pv_APIKey = key\<rparr>"

definition buildProviderConfig :: "string \<Rightarrow> string \<Rightarrow> ProviderConfig" where
  "buildProviderConfig i apiKey =
     (if i = ''anthropic'' then provider_at ''anthropic'' ''https://api.anthropic.com'' apiKey
      else if i = ''gemini'' then provider_at ''gemini'' ''https://generativelanguage.googleapis.com'' apiKey
      else if i = ''groq'' then provider_at ''groq'' ''https://api.groq.com'' apiKey
      else if i = ''mistral'' then provider_at ''mistral'' ''https://api.mistral.ai'' apiKey
      else if i = ''cohere'' then provider_at ''cohere'' ''https://api.cohere.com'' apiKey
      else if i = ''nvidia_nim'' then provider_at ''nvidia'' ''https://build.nvidia.com'' apiKey
      else if i = ''openrouter'' then provider_at ''openrouter'' ''https://openrouter.ai'' apiKey
      else if i = ''deepseek'' then provider_at ''deepseek'' ''https://api.deepseek.com'' apiKey
      else provider_at ''openai'' ''https://api.openai.com'' apiKey)"

definition RouteRequest :: "string \<Rightarrow> ProxyConfig \<Rightarrow> ProviderConfig option" where
  "RouteRequest model cfg =
     (if pc_OpenRouterKey cfg \<noteq> [] \<and> (strings_Contains model ''/'' \<or> strings_HasSuffix model '':free'')
      then Some (provider_at ''openrouter'' ''https://openrouter.ai/api'' (pc_OpenRouterKey cfg))
      else if starts_with model [''gpt-'', ''o1-'', ''o3-'', ''o4-'', ''gpt-4.5''] then Some (provider_at ''openai'' ''https://api.openai.com'' (pc_OpenAIKey cfg))
      else if starts_with model [''claude-''] then Some (provider_at ''anthropic'' ''https://api.anthropic.com'' (pc_AnthropicKey cfg))
      else if starts_with model [''gemini-''] then Some (provider_at ''gemini'' ''https://generativelanguage.googleapis.com'' (pc_GeminiKey cfg))
      else if strings_HasSuffix model '':free'' \<or> (pc_OpenRouterKey cfg \<noteq> [] \<and> strings_Contains model ''/'')
      then Some (provider_at ''openrouter'' ''https://openrouter.ai/api'' (pc_OpenRouterKey cfg))
      else if starts_with model [''kimi-'', ''deepseek-'', ''nvidia/'', ''meta/'', ''mistralai/'', ''moonshotai/'', ''qwen/'', ''deepseek-ai/'']
      then Some (provider_at ''nvidia'' ''https://build.nvidia.com'' (pc_NVIDIAKey cfg))
      else if starts_with model [''llama-'', ''mixtral-'', ''gemma''] then Some (provider_at ''groq'' ''https://api.groq.com'' (pc_GroqKey cfg))
      else if starts_with model [''mistral'', ''open-mixtral'', ''codestral'', ''pixtral''] then Some (provider_at ''mistral'' ''https://api.mistral.ai'' (pc_MistralKey cfg))
      else if starts_with model [''command''] then Some (provider_at ''cohere'' ''https://api.cohere.com'' (pc_CohereKey cfg))
      else if strings_Contains model ''/'' then Some (provider_at ''openrouter'' ''https://openrouter.ai'' (pc_OpenRouterKey cfg))
      else None)"

definition resolveProvider :: "string list \<Rightarrow> ProxyConfig \<Rightarrow> string \<Rightarrow> string \<Rightarrow> string \<Rightarrow> ProviderConfig option" where
  "resolveProvider order cfg model llmKey hint =
     (if llmKey \<noteq> [] then Some (buildProviderConfig (resolveProviderID order llmKey hint) llmKey) else RouteRequest model cfg)"

subsection \<open>The environment of a request\<close>

record stream_start =
  ss_Chunks :: "ChatChunk list"
  ss_Model :: string
  ss_Provider :: string
  ss_EstInput :: int

record ip_class =
  ip_Loopback :: bool
  ip_Unspecified :: bool
  ip_LinkLocal :: bool
  ip_Private :: bool

text \<open>The decoded \<^verbatim>\<open>input\<close> of a Responses request.\<close>

datatype responses_input = InputMissing | InputText string | InputMessages "(string \<times> string) list" | InputInvalid

record 'p proxy_env =
  pe_ax :: analysis_env
  pe_new :: "string \<Rightarrow> string \<Rightarrow> 'p option"
  pe_chat :: "LlmTask \<Rightarrow> 'p ModelRouter \<Rightarrow> (string + ChatResponse) \<times> 'p ModelRouter"
  pe_stream :: "LlmTask \<Rightarrow> 'p ModelRouter \<Rightarrow> (string + stream_start) \<times> 'p ModelRouter"
  pe_prices :: "(string, ModelInfo) gomap"
  pe_order :: "string list"
  pe_readable :: bool
  pe_decode :: "string \<Rightarrow> (string \<times> bool) option"
  pe_messages :: "string \<Rightarrow> (string \<times> string) list option"
  pe_input :: "string \<Rightarrow> responses_input"
  pe_chat_body :: "string \<Rightarrow> Message list \<Rightarrow> string"
  pe_set_model :: "string \<Rightarrow> string \<Rightarrow> string"
  pe_set_messages :: "string \<Rightarrow> Message list \<Rightarrow> string option"
  pe_parse_url :: "string \<Rightarrow> (string \<times> string) option"
  pe_lookup :: "string \<Rightarrow> ip_class list option"
  pe_forward :: "(string \<times> string) list \<Rightarrow> string \<Rightarrow> string \<Rightarrow> string + string list"
  pe_delta :: "string \<Rightarrow> string \<Rightarrow> string"
  pe_flusher :: bool
  pe_now :: gotime
  pe_stamp :: string
  pe_lib :: sign_lib
  pe_request_id :: string
  pe_fmt6 :: "f64 \<Rightarrow> string"

text \<open>The router of \<^verbatim>\<open>llm/provider.go\<close> behind this interface; \<open>err\<close> renders its errors, \<open>t0\<close> is the start of a stream.\<close>

definition routed_chat ::
    "(route_error \<Rightarrow> string) \<Rightarrow> (nat \<Rightarrow> 'p call_env) \<Rightarrow> string list \<Rightarrow> string list \<Rightarrow> (string \<Rightarrow> string list) \<Rightarrow> 'p ModelRouter chat" where
  "routed_chat err evs ks pk mk task r =
     (case ExecuteWithFailover evs ks pk mk task r of (r', Inl e) \<Rightarrow> (Inl (err e), r') | (r', Inr resp) \<Rightarrow> (Inr resp, r'))"

definition routed_stream ::
    "(route_error \<Rightarrow> string) \<Rightarrow> (nat \<Rightarrow> 'p call_env) \<Rightarrow> string list \<Rightarrow> (string, ModelInfo) gomap \<Rightarrow> gotime \<Rightarrow> LlmTask \<Rightarrow> 'p ModelRouter \<Rightarrow>
     (string + stream_start) \<times> 'p ModelRouter" where
  "routed_stream err evs ks tbl t0 task r =
     (case StreamWithFailover evs ks task r of
        (r', Inl e) \<Rightarrow> (Inl (err e), r')
      | (r', Inr sr) \<Rightarrow>
          (let ch = sr_Ch sr; (r2, sent) = stream_settle (evs (sc_attempt ch)) tbl t0 task (sc_opt ch) (sc_events ch) r'
           in (Inr \<lparr>ss_Chunks = sent, ss_Model = sr_Model sr, ss_Provider = sr_Provider sr, ss_EstInput = sr_EstInput sr\<rparr>, r2)))"

subsection \<open>The router of a request\<close>

definition register :: "'p proxy_env \<Rightarrow> string \<times> string \<Rightarrow> 'p ModelRouter \<Rightarrow> 'p ModelRouter" where
  "register env ik r = (if snd ik = [] then r else case pe_new env (fst ik) (snd ik) of None \<Rightarrow> r | Some p \<Rightarrow> mr_RegisterProvider (fst ik) p r)"

definition backend_keys :: "ProxyConfig \<Rightarrow> (string \<times> string) list" where
  "backend_keys cfg =
     [(''openai'', pc_OpenAIKey cfg), (''anthropic'', pc_AnthropicKey cfg), (''gemini'', pc_GeminiKey cfg), (''groq'', pc_GroqKey cfg),
      (''mistral'', pc_MistralKey cfg), (''cohere'', pc_CohereKey cfg), (''nvidia_nim'', pc_NVIDIAKey cfg),
      (''openrouter'', pc_OpenRouterKey cfg), (''deepseek'', pc_DeepSeekKey cfg)]"

definition buildRouter :: "'p proxy_env \<Rightarrow> string \<Rightarrow> string \<Rightarrow> ProxyServer \<Rightarrow> 'p ModelRouter" where
  "buildRouter env llmKey hint s =
     (let router = SetCache (Some (px_sharedCache s))
            (NewModelRouter (pe_prices env) (Some \<lparr>cfg_DefaultModel = ''gpt-4o-mini'', BudgetPerTask = 10, DefaultOutputTokens = 4096\<rparr>))
      in if llmKey \<noteq> []
         then (let i = resolveProviderID (pe_order env) llmKey hint
               in case createProvider (pe_new env) i llmKey of None \<Rightarrow> router | Some p \<Rightarrow> mr_RegisterProvider i p router)
         else fold (register env) (backend_keys (px_cfg s)) router)"

text \<open>The requested model is priced, whatever it is.\<close>

definition request_router :: "'p proxy_env \<Rightarrow> string \<Rightarrow> string \<Rightarrow> string \<Rightarrow> ProxyServer \<Rightarrow> 'p ModelRouter" where
  "request_router env llmKey hint model s =
     (let r = buildRouter env llmKey hint s
      in if model = [] then r
         else
           let pid = (if llmKey = [] then inferProviderFromModel model (px_cfg s) else resolveProviderID (pe_order env) llmKey hint);
               info = \<lparr>mi_Name = model, mi_Provider = pid, InputCostPer1K = fl (1 / 1000), OutputCostPer1K = fl (2 / 1000), mi_MaxTokens = 4096,
                       Capabilities = [''tools'', ''vision'', ''reasoning'']\<rparr>
           in SetPrices (gput model info (AllPrices (pe_prices env))) r)"

text \<open>The cache of the router is the server's: what the calls stored stays.\<close>

definition keep_cache :: "'p ModelRouter \<Rightarrow> ProxyServer \<Rightarrow> ProxyServer" where
  "keep_cache r s = (case mr_cache r of None \<Rightarrow> s | Some c \<Rightarrow> s\<lparr>px_sharedCache := c\<rparr>)"

subsection \<open>The task and the design gate\<close>

definition message_of :: "string \<times> string \<Rightarrow> Message" where
  "message_of rc = chat_message (fst rc) (snd rc)"

definition buildTask :: "'p proxy_env \<Rightarrow> string \<Rightarrow> string \<Rightarrow> LlmTask option" where
  "buildTask env body model =
     (case pe_messages env body of
        None \<Rightarrow> None
      | Some ms \<Rightarrow>
          if ms = [] then None
          else Some ((review_task (''proxy-'' @ pe_stamp env) ''feature'' ''Proxy request'' [] (map message_of ms))\<lparr>TargetModel := model\<rparr>))"

definition design_constraint :: "ProxyFinding \<Rightarrow> string" where
  "design_constraint f =
     ''- ['' @ strings_ToUpper (pf_Severity f) @ ''] '' @ pf_Message f @ '' Required fix: '' @
     (if pf_Fix f = [] then ''address this requirement'' else pf_Fix f) @ nl"

definition constraints_text :: "ProxyFinding list \<Rightarrow> string" where
  "constraints_text findings =
     ''SECURE DESIGN CONSTRAINTS '' @ [CHR 0xE2, CHR 0x80, CHR 0x94] @ '' policy-mandated by the design-stage scan of your request. '' @
     ''These requirements are NOT optional suggestions; the policy engine requires them. '' @
     ''Incorporate ALL of the following into your design and output:'' @ nl @ concat (map design_constraint findings)"

definition applyDesignGate :: "LlmTask \<Rightarrow> LlmTask \<times> ProxyFinding list" where
  "applyDesignGate task =
     (if tk_Messages task = [] \<or> msg_Role (last (tk_Messages task)) \<noteq> ''user'' then (task, [])
      else
        let findings = localDeterministicScan (msg_Content (last (tk_Messages task)))
        in if findings = [] then (task, [])
           else (task\<lparr>tk_Messages := tk_Messages task @ [chat_message ''system'' (constraints_text findings)]\<rparr>, findings))"

definition gate_header :: "bool \<Rightarrow> EnforcementMode \<Rightarrow> Header \<Rightarrow> Header" where
  "gate_header constrained mode h =
     (if constrained then header_Set ''X-VigilAgent-Design-Gate'' ''constrained'' h
      else if mode \<noteq> ModePassthrough then header_Set ''X-VigilAgent-Design-Gate'' ''passed'' h else h)"

definition request_mode :: "Request \<Rightarrow> EnforcementMode" where
  "request_mode q = (let m = rq_Header q ''X-VigilAgent-Mode'' in if m = [] then ModeObserve else m)"

subsection \<open>Provenance of an answer\<close>

definition newScanID :: "'p proxy_env \<Rightarrow> ProxyServer \<Rightarrow> string \<times> ProxyServer" where
  "newScanID env s =
     (let n = inc64 (px_reqCount s)
      in (''scan_'' @ strconv_Itoa (pe_now env) @ ''_'' @ strconv_Itoa n, s\<lparr>px_reqCount := n\<rparr>))"

definition sign_and_store :: "'p proxy_env \<Rightarrow> ProvenanceRecord \<Rightarrow> ProxyServer \<Rightarrow> (ProvenanceRecord \<times> string) \<times> ProxyServer" where
  "sign_and_store env rec s =
     (let sig = (case SignProvenance (pe_lib env) (px_provenanceSecret s) rec of None \<Rightarrow> [] | Some sig \<Rightarrow> sig)
      in ((rec, sig), s\<lparr>px_provenance := provenance_put rec sig (px_provenance s)\<rparr>))"

definition recordProvenance ::
    "'p proxy_env \<Rightarrow> Request \<Rightarrow> string \<Rightarrow> string \<Rightarrow> PolicyDecision \<Rightarrow> EnforcementMode \<Rightarrow> string \<Rightarrow> string \<Rightarrow> ProxyServer \<Rightarrow>
     (ProvenanceRecord \<times> string) \<times> ProxyServer" where
  "recordProvenance env q provider model decision mode content scanID s =
     (let (i, s1) = (if scanID = [] then newScanID env s else (scanID, s))
      in sign_and_store env
           \<lparr>pr_ScanID = i, pr_RequestID = pe_request_id env, pr_Provider = provider, pr_Model = model, pr_TenantID = [], pr_UserID = [],
            pr_ProjectID = [], pr_ClientType = rq_Header q ''X-Client-Type'', pr_ClientVersion = rq_Header q ''X-Client-Version'',
            pr_PolicyVersion = [], pr_ScannerVersion = [], pr_ProvenanceStatus = ProvenanceVerified,
            pr_ResponseHash = HashContent (pe_lib env) content, pr_Decision = decision, pr_Mode = mode, pr_Timestamp = pe_now env\<rparr> s1)"

text \<open>The record of content scanned elsewhere: provider, model, decision, hash, client type and version of the decoded body.\<close>

definition handleProvenanceAttest ::
    "'p proxy_env \<Rightarrow> (string \<times> string \<times> string \<times> string \<times> string \<times> string) option \<Rightarrow> ProxyServer \<Rightarrow> ProxyServer \<times> provenance_answer" where
  "handleProvenanceAttest env body s =
     (case body of
        None \<Rightarrow> (s, BadRequest ''invalid JSON'')
      | Some (provider, model, decision, hash, clientType, clientVersion) \<Rightarrow>
          if decision = [] \<or> hash = [] then (s, BadRequest ''decision and response_hash are required'')
          else
            let (i, s1) = newScanID env s;
                ((rec, sig), s2) = sign_and_store env
                  \<lparr>pr_ScanID = i, pr_RequestID = pe_request_id env, pr_Provider = provider, pr_Model = model, pr_TenantID = [], pr_UserID = [],
                   pr_ProjectID = [], pr_ClientType = clientType, pr_ClientVersion = clientVersion, pr_PolicyVersion = [],
                   pr_ScannerVersion = [], pr_ProvenanceStatus = ProvenanceVerified, pr_ResponseHash = hash, pr_Decision = decision,
                   pr_Mode = [], pr_Timestamp = pe_now env\<rparr> s1
            in (s2, RecordAnswer rec sig))"

subsection \<open>Releasing a completion\<close>

definition applyAnalysisHeaders :: "AnalysisOutcome \<Rightarrow> Header \<Rightarrow> Header" where
  "applyAnalysisHeaders o1 h =
     header_Set ''X-VigilAgent-Corroborated'' (strconv_Itoa (int (ao_Corroborated o1)))
      (header_Set ''X-VigilAgent-Findings'' (strconv_Itoa (int (ao_FindingsCount o1)))
       (header_Set ''X-VigilAgent-Score'' (strconv_Itoa (ao_Score o1))
        (header_Set ''X-VigilAgent-Grade'' (ao_Grade o1) (header_Set ''X-VigilAgent-Verdict'' (ao_Verdict o1) h))))"

definition trim_right :: "string \<Rightarrow> char \<Rightarrow> string" where
  "trim_right s c = rev (dropWhile (\<lambda>d. d = c) (rev s))"

definition formatFloat :: "(f64 \<Rightarrow> string) \<Rightarrow> f64 \<Rightarrow> string" where
  "formatFloat fmt6 f = trim_right (trim_right (fmt6 f) (CHR ''0'')) (CHR ''.'')"

text \<open>The answer with status 200: \<open>text\<close> is the content of the response by then.\<close>

definition release_answer ::
    "'p proxy_env \<Rightarrow> ChatResponse \<Rightarrow> string \<Rightarrow> AnalysisOutcome option \<Rightarrow> ProxyFinding list \<Rightarrow> (ProvenanceRecord \<times> string) option \<Rightarrow> Header \<Rightarrow> proxy_answer" where
  "release_answer env resp content outcome design prov h0 =
     (let h1 = header_Set ''X-VigilAgent-Model'' (rsp_Model resp) (header_Set ''X-VigilAgent-Provider'' (rsp_Provider resp) h0);
          h2 = (if 0 < rsp_Cost resp then header_Set ''X-VigilAgent-Cost'' (formatFloat (pe_fmt6 env) (rsp_Cost resp)) h1 else h1);
          h3 = (case outcome of None \<Rightarrow> h2 | Some o1 \<Rightarrow> header_Set ''X-VigilAgent-Policy'' (ao_Policy o1) (applyAnalysisHeaders o1 h2));
          h4 = (case prov of
                  None \<Rightarrow> h3
                | Some (rec, sig) \<Rightarrow>
                    let h = header_Set ''X-VigilAgent-Provenance'' ProvenanceVerified (header_Set ''X-VigilAgent-Scan-ID'' (pr_ScanID rec) h3)
                    in if sig \<noteq> [] then header_Set ''X-VigilAgent-Provenance-Signature'' sig h else h)
      in \<lparr>pa_Status = 200, pa_Header = header_Set ''Content-Type'' ''application/json'' h4,
          pa_Body = CompletionBody
            \<lparr>co_Model = rsp_Model resp, co_Provider = rsp_Provider resp, co_Content = content, co_StopReason = rsp_StopReason resp,
             co_InputTokens = rsp_InputTokens resp, co_OutputTokens = rsp_OutputTokens resp, co_Outcome = outcome,
             co_DesignFindings = (if design \<noteq> [] then Some (length design) else None), co_Provenance = prov\<rparr>\<rparr>)"

text \<open>The refusal: status and reason are the policy's.\<close>

definition withheld_answer :: "int \<Rightarrow> string \<Rightarrow> AnalysisOutcome \<Rightarrow> ProxyFinding list \<Rightarrow> ProvenanceRecord \<Rightarrow> string \<Rightarrow> Header \<Rightarrow> proxy_answer" where
  "withheld_answer status reason o1 findings rec sig h =
     \<lparr>pa_Status = status,
      pa_Header = header_Set ''Content-Type'' ''application/json'' (header_Set ''X-VigilAgent-Scan-ID'' (pr_ScanID rec)
        (header_Set ''X-VigilAgent-Policy'' (ao_Policy o1) (applyAnalysisHeaders o1 h))),
      pa_Body = WithheldBody reason o1 findings rec sig\<rparr>"

text \<open>What happens with a model's response: analysis, decision, record, enforcement.\<close>

definition release_completion ::
    "'p proxy_env \<Rightarrow> Request \<Rightarrow> string \<Rightarrow> ChatResponse \<Rightarrow> ProxyFinding list \<Rightarrow> Header \<Rightarrow> 'p ModelRouter \<Rightarrow> ProxyServer \<Rightarrow> ProxyServer \<times> proxy_answer" where
  "release_completion env q key resp design h router s =
     (let mode = request_mode q
      in if mode = ModePassthrough then (s, release_answer env resp (rsp_Content resp) None design None h)
         else
           case analyzeAndVerdict (pe_ax env) (Some (pe_chat env)) (rsp_Content resp) router of
             ((None, findings, summary, degraded), r1) \<Rightarrow> (keep_cache r1 s, release_answer env resp (rsp_Content resp) None design None h)
           | ((Some o0, findings, summary, degraded), r1) \<Rightarrow>
               let policy = ComputePolicy o0 mode;
                   content = (if summary \<noteq> [] then rsp_Content resp @ nl @ nl @ summary else rsp_Content resp);
                   s1 = recordDecision (ao_Verdict o0) policy (keep_cache r1 s);
                   ((rec, sig), s2) = recordProvenance env q (rsp_Provider resp) (rsp_Model resp) policy mode (rsp_Content resp) [] s1;
                   o1 = o0\<lparr>ao_Policy := policy, ao_ScanID := pr_ScanID rec\<rparr>
               in case enforcePolicy policy mode of
                    Some (status, reason) \<Rightarrow> (s2, withheld_answer status reason o1 findings rec sig h)
                  | None \<Rightarrow>
                      (s2, release_answer env resp (if policy = PolicyHoldForReview \<and> mode = ModeBalanced then redactCodeBlocks content else content)
                             (Some o1) design (Some (rec, sig)) h))"

definition complete_request ::
    "'p proxy_env \<Rightarrow> Request \<Rightarrow> string \<Rightarrow> string \<Rightarrow> 'p ModelRouter \<Rightarrow> ProxyServer \<Rightarrow> ProxyServer \<times> proxy_answer" where
  "complete_request env q key model router s =
     (case buildTask env (rq_Body q) model of
        None \<Rightarrow> (s, http_Error [] ''invalid request: missing messages'' 400)
      | Some task0 \<Rightarrow>
          let (task, design) = applyDesignGate task0;
              h = gate_header (design \<noteq> []) (request_mode q) []
          in case pe_chat env task router of
               (Inl err, r1) \<Rightarrow> (recordUsage (pe_now env) key 0 0 True (keep_cache r1 s), http_Error h (''llm request failed: '' @ err) 502)
             | (Inr resp, r1) \<Rightarrow>
                 release_completion env q key resp design h r1
                   (recordUsage (pe_now env) key (rsp_Cost resp) (wrap64 (rsp_InputTokens resp + rsp_OutputTokens resp)) False (keep_cache r1 s)))"

text \<open>The front part, shared by the two completion formats; \<open>stream\<close> is the streaming handler.\<close>

definition maxRequestBodySize :: int where "maxRequestBodySize = 10485760"

definition handleProxyRequest ::
    "'p proxy_env \<Rightarrow> (Request \<Rightarrow> string \<Rightarrow> string \<Rightarrow> 'p ModelRouter \<Rightarrow> ProxyServer \<Rightarrow> ProxyServer \<times> proxy_answer) \<Rightarrow>
     string \<Rightarrow> Request \<Rightarrow> ProxyServer \<Rightarrow> ProxyServer \<times> proxy_answer" where
  "handleProxyRequest env stream key q s =
     (if \<not> pe_readable env then (s, http_Error [] ''failed to read request body'' 400)
      else if maxRequestBodySize < int (length (rq_Body q)) then (s, http_Error [] ''request body too large (max 10MB)'' 413)
      else case pe_decode env (rq_Body q) of
             None \<Rightarrow> (s, http_Error [] ''invalid JSON'' 400)
           | Some (model0, streaming) \<Rightarrow>
               let llmKey = rq_Header q ''X-LLM-Key''; hint = rq_Header q ''X-LLM-Provider''; override = rq_Header q ''X-LLM-Model'';
                   model = (if override \<noteq> [] then override else model0)
               in case tenant_check key model s of
                    Some refusal \<Rightarrow> (s, refusal)
                  | None \<Rightarrow>
                      let router = request_router env llmKey hint model s
                      in if streaming then stream q key model router s else complete_request env q key model router s)"

end
