(* ===== verification/Proxy_Stream.thy ===== *)
theory Proxy_Stream
  imports Proxy_Server
begin

text \<open>
  The streaming completions, the Responses surface, the analysis endpoints and the dispatch of the gateway
  (\<^verbatim>\<open>proxy/streaming.go\<close>, \<^verbatim>\<open>proxy/providers.go\<close>, the rest of \<^verbatim>\<open>proxy/proxy.go\<close>). A stream is the list
  of events that the client receives; the client stays connected. Chunks are the ones that
  the router's channel delivers. The direct fallback reads the complete lines of the provider's answer.
\<close>

definition maxStreamContent :: nat where "maxStreamContent = 10485760"

subsection \<open>Streaming completions\<close>

text \<open>The loop over the chunks: the collected content and the events sent meanwhile.\<close>

fun stream_loop :: "bool \<Rightarrow> ChatChunk list \<Rightarrow> string \<Rightarrow> string \<times> sse list" where
  "stream_loop strict [] full = (full, [])"
| "stream_loop strict (c # cs) full =
     (if ch_Content c \<noteq> []
      then if maxStreamContent < length full + length (ch_Content c) then (full, [])
           else if strict then stream_loop strict cs (full @ ch_Content c)
           else (let (r, out) = (if ch_Finish c then (full @ ch_Content c, []) else stream_loop strict cs (full @ ch_Content c))
                 in (r, SseContent (ch_Content c) # out))
      else if ch_Finish c then (full, []) else stream_loop strict cs full)"

definition shield :: string where
  "shield = [CHR 0xF0, CHR 0x9F, CHR 0x9B, CHR 0xA1, CHR 0xEF, CHR 0xB8, CHR 0x8F]"

definition long_dash :: string where
  "long_dash = [CHR 0xE2, CHR 0x80, CHR 0x94]"

definition verdict_line :: "AnalysisOutcome \<Rightarrow> PolicyDecision \<Rightarrow> string" where
  "verdict_line o1 policy =
     shield @ '' VigilAgent verdict: '' @ strings_ToUpper (ao_Verdict o1) @ '' (grade '' @ ao_Grade o1 @ '', '' @ strconv_Itoa (ao_Score o1) @
     ''/100) '' @ long_dash @ '' policy: '' @ policy"

definition buffered :: "string \<Rightarrow> sse list" where
  "buffered buf = (if buf \<noteq> [] then [SseContent buf] else [])"

definition stream_header :: "string \<Rightarrow> string \<Rightarrow> bool \<Rightarrow> EnforcementMode \<Rightarrow> string \<Rightarrow> Header" where
  "stream_header provider model constrained mode scanID =
     header_Set ''X-VigilAgent-Provenance'' ProvenanceVerified (header_Set ''X-VigilAgent-Scan-ID'' scanID
       (gate_header constrained mode
         (header_Set ''X-VigilAgent-Model'' model (header_Set ''X-VigilAgent-Provider'' provider
           (header_Set ''Connection'' ''keep-alive'' (header_Set ''Cache-Control'' ''no-cache'' (header_Set ''Content-Type'' ''text/event-stream'' [])))))))"

text \<open>What follows the loop: analysis, decision, record; in strict mode the release of the buffer or the refusal.\<close>

definition stream_analysis ::
    "'p proxy_env \<Rightarrow> Request \<Rightarrow> EnforcementMode \<Rightarrow> string \<Rightarrow> string \<Rightarrow> string \<Rightarrow> string \<Rightarrow> 'p ModelRouter \<Rightarrow> ProxyServer \<Rightarrow>
     (AnalysisOutcome option \<times> string) \<times> ProxyServer" where
  "stream_analysis env q mode provider model content scanID router s =
     (case analyzeAndVerdict (pe_ax env) (Some (pe_chat env)) content router of
        ((None, findings, summary, degraded), r1) \<Rightarrow> ((None, summary), keep_cache r1 s)
      | ((Some o0, findings, summary, degraded), r1) \<Rightarrow>
          let policy = ComputePolicy o0 mode;
              s1 = recordDecision (ao_Verdict o0) policy (keep_cache r1 s);
              ((rec, sig), s2) = recordProvenance env q provider model policy mode content scanID s1
          in ((Some (o0\<lparr>ao_Policy := policy, ao_ScanID := pr_ScanID rec\<rparr>), summary), s2))"

definition finish_stream :: "EnforcementMode \<Rightarrow> string \<Rightarrow> AnalysisOutcome option \<Rightarrow> string \<Rightarrow> sse list" where
  "finish_stream mode full outcome summary =
     (case outcome of
        None \<Rightarrow> if mode = ModeStrict then buffered full else []
      | Some o1 \<Rightarrow>
          (if mode = ModeStrict
           then (case enforcePolicy (ao_Policy o1) mode of
                   Some (status, reason) \<Rightarrow> [SsePolicyError reason (ao_Policy o1) (ao_Verdict o1) (ao_ScanID o1)]
                 | None \<Rightarrow> buffered full)
           else []) @
          (if summary \<noteq> [] then [SseContent (nl @ nl @ verdict_line o1 (ao_Policy o1) @ nl @ nl @ summary)] else []))"

definition stream_answer :: "Header \<Rightarrow> sse list \<Rightarrow> proxy_answer" where
  "stream_answer h events = \<lparr>pa_Status = 200, pa_Header = h, pa_Body = StreamBody events\<rparr>"

definition handleStreaming ::
    "'p proxy_env \<Rightarrow> (Request \<Rightarrow> ProxyServer \<Rightarrow> ProxyServer \<times> proxy_answer) \<Rightarrow>
     Request \<Rightarrow> string \<Rightarrow> string \<Rightarrow> 'p ModelRouter \<Rightarrow> ProxyServer \<Rightarrow> ProxyServer \<times> proxy_answer" where
  "handleStreaming env direct q key model router s =
     (case pe_messages env (rq_Body q) of
        None \<Rightarrow> (s, http_Error [] ''invalid request: missing messages'' 400)
      | Some [] \<Rightarrow> (s, http_Error [] ''invalid request: missing messages'' 400)
      | Some ms \<Rightarrow>
          let mode = request_mode q;
              task0 = review_task (''proxy-stream-'' @ pe_stamp env) ''feature'' ''Proxy streaming request'' [] (map message_of ms);
              (task, design) = applyDesignGate task0
          in case pe_stream env task router of
               (Inl err, r1) \<Rightarrow> direct q (keep_cache r1 s)
             | (Inr st, r1) \<Rightarrow>
                 let (scanID, s1) = newScanID env (keep_cache r1 s);
                     h = stream_header (ss_Provider st) (ss_Model st) (design \<noteq> []) mode scanID
                 in if \<not> pe_flusher env then (s1, http_Error h ''Streaming unsupported'' 500)
                    else
                      let (full, events) = stream_loop (mode = ModeStrict) (ss_Chunks st) [];
                          ((outcome, summary), s2) =
                            (if mode = ModePassthrough then ((None, []), s1)
                             else stream_analysis env q mode (ss_Provider st) (ss_Model st) full scanID r1 s1)
                      in (s2, stream_answer h (events @ finish_stream mode full outcome summary @ [SseDone])))"

subsection \<open>The direct fallback\<close>

definition forbidden_ip :: "ip_class \<Rightarrow> bool" where
  "forbidden_ip i \<longleftrightarrow> ip_Loopback i \<or> ip_Unspecified i \<or> ip_LinkLocal i \<or> ip_Private i"

definition validateTargetURL :: "'p proxy_env \<Rightarrow> string \<Rightarrow> bool" where
  "validateTargetURL env url =
     (case pe_parse_url env url of
        None \<Rightarrow> False
      | Some (scheme, host) \<Rightarrow>
          (scheme = ''http'' \<or> scheme = ''https'') \<and>
          (case pe_lookup env host of None \<Rightarrow> False | Some ips \<Rightarrow> ips \<noteq> [] \<and> list_all (\<lambda>i. \<not> forbidden_ip i) ips))"

text \<open>The credentials sent to the provider. There are none for the name \<^verbatim>\<open>deepseek\<close>.\<close>

definition direct_credentials :: "ProviderConfig \<Rightarrow> (string \<times> string) list" where
  "direct_credentials p =
     (if pv_Name p \<in> {''openai'', ''nvidia'', ''groq'', ''mistral'', ''openrouter''} then [(''Authorization'', ''Bearer '' @ pv_APIKey p)]
      else if pv_Name p = ''anthropic'' then [(''x-api-key'', pv_APIKey p), (''anthropic-version'', ''2023-06-01'')]
      else if pv_Name p = ''gemini'' then [(''x-goog-api-key'', pv_APIKey p)]
      else if pv_Name p = ''cohere'' then [(''Authorization'', ''Bearer '' @ pv_APIKey p)]
      else [])"

text \<open>The content of a line: \<open>pe_delta\<close> decodes the data of an event in the client's format.\<close>

definition line_data :: "string \<Rightarrow> string option" where
  "line_data line = (if strings_HasPrefix line ''data: '' then Some (strings_TrimSpace (drop 6 line)) else None)"

fun direct_loop :: "(string \<Rightarrow> string) \<Rightarrow> string list \<Rightarrow> string \<Rightarrow> string \<times> sse list" where
  "direct_loop delta [] full = (full, [])"
| "direct_loop delta (line # lines) full =
     (if line_data line = Some ''[DONE]'' then direct_loop delta lines full
      else
        let full1 = (case line_data line of None \<Rightarrow> full | Some d \<Rightarrow> full @ delta d)
        in if maxStreamContent < length full1 then (full1, [])
           else (let (r, out) = direct_loop delta lines full1 in (r, SseLine line # out)))"

text \<open>The analysis after the forwarded lines; it is recorded when there is something to report.\<close>

definition direct_finish ::
    "'p proxy_env \<Rightarrow> string \<Rightarrow> Request \<Rightarrow> string \<Rightarrow> string \<Rightarrow> string \<Rightarrow> ProxyServer \<Rightarrow> sse list \<times> ProxyServer" where
  "direct_finish env fmt q provider model full s =
     (case analyzeAndVerdict (pe_ax env) (Some (pe_chat env)) full (buildRouter env (rq_Header q ''X-LLM-Key'') [] s) of
        ((None, findings, summary, degraded), r1) \<Rightarrow> ([], keep_cache r1 s)
      | ((Some o0, findings, summary, degraded), r1) \<Rightarrow>
          if summary = [] then ([], keep_cache r1 s)
          else
            let mode = request_mode q;
                policy = ComputePolicy o0 mode;
                s1 = recordDecision (ao_Verdict o0) policy (keep_cache r1 s);
                (_, s2) = recordProvenance env q provider model policy mode full [] s1
            in (if fmt \<in> {''openai'', ''anthropic''} then [SseContent (nl @ nl @ verdict_line o0 policy @ nl @ nl @ summary)] else [], s2))"

text \<open>The body that is forwarded, and the header of the design gate.\<close>

definition direct_body :: "'p proxy_env \<Rightarrow> Request \<Rightarrow> string \<times> Header" where
  "direct_body env q =
     (let override = rq_Header q ''X-LLM-Model'';
          body = (if override \<noteq> [] then pe_set_model env (rq_Body q) override else rq_Body q)
      in case pe_messages env body of
           None \<Rightarrow> (body, [])
         | Some ms \<Rightarrow>
             (let (task, design) = applyDesignGate (review_task ''proxy-stream-direct'' ''feature'' [] [] (map message_of ms))
              in if design = [] then (body, [])
                 else case pe_set_messages env body (tk_Messages task) of
                        None \<Rightarrow> (body, [])
                      | Some b \<Rightarrow> (b, header_Set ''X-VigilAgent-Design-Gate'' ''constrained'' [])))"

definition handleStreamingDirect :: "'p proxy_env \<Rightarrow> string \<Rightarrow> Request \<Rightarrow> ProxyServer \<Rightarrow> ProxyServer \<times> proxy_answer" where
  "handleStreamingDirect env fmt q s =
     (let override = rq_Header q ''X-LLM-Model'';
          model = (if override \<noteq> [] then override else case pe_decode env (rq_Body q) of None \<Rightarrow> [] | Some (m, _) \<Rightarrow> m)
      in case resolveProvider (pe_order env) (px_cfg s) model (rq_Header q ''X-LLM-Key'') (rq_Header q ''X-LLM-Provider'') of
           None \<Rightarrow> (s, http_Error [] ''unsupported model'' 400)
         | Some p \<Rightarrow>
             if \<not> validateTargetURL env (pv_BaseURL p @ rq_Path q) then (s, http_Error [] ''SSRF protection: '' 403)
             else
               let (body, h0) = direct_body env q
               in case pe_forward env (direct_credentials p) (pv_BaseURL p @ rq_Path q) body of
                    Inl err \<Rightarrow> (s, http_Error h0 (''failed to forward stream: '' @ err) 502)
                  | Inr lines \<Rightarrow>
                      let h = header_Set ''Connection'' ''keep-alive'' (header_Set ''Cache-Control'' ''no-cache'' (header_Set ''Content-Type'' ''text/event-stream'' h0))
                      in if \<not> pe_flusher env then (s, http_Error h ''Streaming unsupported'' 500)
                         else
                           let (full, events) = direct_loop (pe_delta env fmt) lines [];
                               (tail, s1) = (if request_mode q = ModePassthrough then ([], s) else direct_finish env fmt q (pv_Name p) model full s)
                           in (s1, stream_answer h (events @ tail @ [SseDone])))"

subsection \<open>The Responses surface\<close>

definition parseResponsesInput :: "responses_input \<Rightarrow> Message list option" where
  "parseResponsesInput i =
     (case i of
        InputMissing \<Rightarrow> None
      | InputText t \<Rightarrow> Some [chat_message ''user'' t]
      | InputMessages ms \<Rightarrow> if ms = [] then None else Some (map message_of ms)
      | InputInvalid \<Rightarrow> None)"

text \<open>The loop over the chunks: gate, collected content, and the events sent meanwhile.\<close>

fun responses_loop :: "ChatChunk list \<Rightarrow> streamingGate \<Rightarrow> string \<Rightarrow> (streamingGate \<times> string) \<times> string list" where
  "responses_loop [] g full = ((g, full), [])"
| "responses_loop (c # cs) g full =
     (if ch_Content c = [] then (if ch_Finish c then ((g, full), []) else responses_loop cs g full)
      else if maxStreamContent < length full + length (ch_Content c) then ((g, full), [])
      else
        let (g1, live) = gate_push (ch_Content c) g;
            (r, out) = (if ch_Finish c then ((g1, full @ ch_Content c), []) else responses_loop cs g1 (full @ ch_Content c))
        in (r, (if live \<noteq> [] then live # out else out)))"

definition deltas :: "string list \<Rightarrow> sse list" where
  "deltas ts = map SseContent ts"

text \<open>What is sent after the loop, once the policy is known.\<close>

definition finish_responses ::
    "EnforcementMode \<Rightarrow> string \<Rightarrow> string \<Rightarrow> bool \<Rightarrow> streamingGate \<Rightarrow> string list \<Rightarrow> AnalysisOutcome option \<Rightarrow> string \<Rightarrow> sse list" where
  "finish_responses mode model scanID constrained g sent outcome summary =
     (let policy = (case outcome of None \<Rightarrow> PolicyAllow | Some o1 \<Rightarrow> ao_Policy o1)
      in if mode = ModeStrict \<and> (policy = PolicyBlock \<or> policy = PolicyScannerUnavailable)
         then [SseFailed (case enforcePolicy policy mode of None \<Rightarrow> [] | Some (status, reason) \<Rightarrow> reason) policy scanID, SseDone]
         else
           let (release, redacted) = gate_finish policy g;
               tail = (case outcome of
                         Some o1 \<Rightarrow>
                           if summary \<noteq> []
                           then nl @ nl @ verdict_line o1 policy @ (if redacted then '' '' @ long_dash @ '' code withheld for review'' else [])
                           else []
                       | None \<Rightarrow> []);
               late = filter (\<lambda>t. t \<noteq> []) [release, tail]
           in deltas late @ [SseCompleted (concat sent @ concat late) outcome constrained, SseDone])"

definition handleResponsesStream :: "'p proxy_env \<Rightarrow> string \<Rightarrow> Request \<Rightarrow> string \<Rightarrow> responses_input \<Rightarrow> ProxyServer \<Rightarrow> ProxyServer \<times> proxy_answer" where
  "handleResponsesStream env key q model0 input s =
     (case parseResponsesInput input of
        None \<Rightarrow> (s, http_Error [] ''invalid input: must be a string or an array of {role, content} messages'' 400)
      | Some messages \<Rightarrow>
          let llmKey = rq_Header q ''X-LLM-Key''; override = rq_Header q ''X-LLM-Model'';
              model = (if override \<noteq> [] then override else model0)
          in case tenant_check key model s of
               Some refusal \<Rightarrow> (s, refusal)
             | None \<Rightarrow>
                 let mode = request_mode q;
                     router = buildRouter env llmKey (rq_Header q ''X-LLM-Provider'') s;
                     (task, design) = applyDesignGate (review_task (''proxy-responses-stream-'' @ pe_stamp env) ''feature''
                                        ''Proxy responses streaming request'' [] messages)
                 in case pe_stream env task router of
                      (Inl err, r1) \<Rightarrow> (keep_cache r1 s, http_Error [] (''llm request failed: '' @ err) 502)
                    | (Inr st, r1) \<Rightarrow>
                        let (scanID, s1) = newScanID env (keep_cache r1 s);
                            h = stream_header (ss_Provider st) (ss_Model st) (design \<noteq> []) mode scanID
                        in if \<not> pe_flusher env then (s1, http_Error h ''Streaming unsupported'' 500)
                           else
                             let ((g, full), sent) = responses_loop (ss_Chunks st) (newStreamingGate mode) [];
                                 ((outcome, summary), s2) =
                                   (if mode = ModePassthrough then ((None, []), s1)
                                    else stream_analysis env q mode (ss_Provider st) (ss_Model st) full scanID r1 s1)
                             in (s2, stream_answer h (SseCreated (ss_Model st) # deltas sent @
                                       finish_responses mode (ss_Model st) scanID (design \<noteq> []) g sent outcome summary)))"

definition vigil_headers :: "Header \<Rightarrow> Header" where
  "vigil_headers h = filter (\<lambda>(k, v). strings_HasPrefix (strings_ToLower k) ''x-vigilagent-'') h"

text \<open>The non-streaming form runs the chat completion and changes the shape of its answer.\<close>

definition handleResponses ::
    "'p proxy_env \<Rightarrow> (string \<Rightarrow> Request \<Rightarrow> ProxyServer \<Rightarrow> ProxyServer \<times> proxy_answer) \<Rightarrow> string \<Rightarrow> Request \<Rightarrow> ProxyServer \<Rightarrow> ProxyServer \<times> proxy_answer" where
  "handleResponses env chat key q s =
     (if \<not> pe_readable env then (s, http_Error [] ''failed to read request body'' 400)
      else if maxRequestBodySize < int (length (rq_Body q)) then (s, http_Error [] ''request body too large (max 10MB)'' 413)
      else case pe_decode env (rq_Body q) of
             None \<Rightarrow> (s, http_Error [] ''invalid JSON'' 400)
           | Some (model, streaming) \<Rightarrow>
               let input = pe_input env (rq_Body q)
               in if streaming then handleResponsesStream env key q model input s
                  else case parseResponsesInput input of
                         None \<Rightarrow> (s, http_Error [] ''invalid input: must be a string or an array of {role, content} messages'' 400)
                       | Some messages \<Rightarrow>
                           let (s1, a) = chat key (q\<lparr>rq_Body := pe_chat_body env model messages\<rparr>) s;
                               h = header_Set ''Content-Type'' ''application/json'' (vigil_headers (pa_Header a))
                           in (s1, if pa_Status a \<noteq> 200 then \<lparr>pa_Status = pa_Status a, pa_Header = h, pa_Body = pa_Body a\<rparr>
                                   else case pa_Body a of
                                          CompletionBody co \<Rightarrow> \<lparr>pa_Status = 200, pa_Header = h, pa_Body = ResponsesBody co\<rparr>
                                        | _ \<Rightarrow> http_Error h ''failed to translate gateway response'' 500))"

subsection \<open>Analysis, usage and metrics\<close>

text \<open>Code and language of the decoded body; \<open>None\<close> also for a body over a megabyte.\<close>

definition handleAnalyze :: "'p proxy_env \<Rightarrow> (string \<times> string) option \<Rightarrow> Request \<Rightarrow> ProxyServer \<Rightarrow> ProxyServer \<times> proxy_answer" where
  "handleAnalyze env body q s =
     (case body of
        None \<Rightarrow> (s, http_Error [] ''invalid JSON'' 400)
      | Some (code, language0) \<Rightarrow>
          if code = [] then (s, http_Error [] ''code is required'' 400)
          else
            let language = (if language0 = [] then ''go'' else language0);
                (r, r1) = AnalyzeWithDualEngine (pe_ax env) (Some (pe_chat env)) code language (buildRouter env (rq_Header q ''X-LLM-Key'') [] s)
            in (keep_cache r1 s, \<lparr>pa_Status = 200, pa_Header = header_Set ''Content-Type'' ''application/json'' [], pa_Body = AnalysisBody r\<rparr>))"

definition handleDeepAnalyze :: "'p proxy_env \<Rightarrow> (string \<times> string) option \<Rightarrow> Request \<Rightarrow> ProxyServer \<Rightarrow> ProxyServer \<times> proxy_answer" where
  "handleDeepAnalyze env body q s =
     (case body of
        None \<Rightarrow> (s, http_Error [] ''invalid JSON'' 400)
      | Some (code, language0) \<Rightarrow>
          if code = [] then (s, http_Error [] ''code is required'' 400)
          else
            let language = (if language0 = [] then ''go'' else language0);
                (r, r1) = AnalyzeWithDualEngine (pe_ax env) (Some (pe_chat env)) code language (buildRouter env (rq_Header q ''X-LLM-Key'') [] s)
            in (keep_cache r1 s, \<lparr>pa_Status = 200, pa_Header = header_Set ''Content-Type'' ''application/json'' [], pa_Body = AnalysisBody r\<rparr>))"

definition handleUsage :: "ProxyServer \<Rightarrow> ProxyServer \<times> proxy_answer" where
  "handleUsage s = (s, \<lparr>pa_Status = 200, pa_Header = header_Set ''Content-Type'' ''application/json'' [], pa_Body = UsageBody (px_usageByKey s)\<rparr>)"

definition sum64 :: "int list \<Rightarrow> int" where
  "sum64 ns = fold (\<lambda>n a. (a + n) mod 2 ^ 64) ns 0"

definition handleMetrics :: "ProxyServer \<Rightarrow> ProxyServer \<times> proxy_answer" where
  "handleMetrics s =
     (let ls = px_latencies s; us = map snd (px_usageByKey s);
          total = fold (\<lambda>l a. wrap64 (a + l)) ls 0
      in (s, \<lparr>pa_Status = 200, pa_Header = header_Set ''Content-Type'' ''application/json'' [],
              pa_Body = MetricsBody
                \<lparr>pm_Requests = px_reqCount s, pm_Errors = px_errCount s,
                 pm_AvgLatency = (if ls = [] then 0 else fdiv (fl (of_int total)) (of_int (int (length ls)))),
                 pm_P50Latency = (if ls = [] then 0 else fl (of_int (sort ls ! (length ls div 2)))),
                 pm_Decisions = sum64 (map snd (px_decisionCount s)), pm_Breakdown = px_decisionCount s,
                 pm_TrackedKeys = length us, pm_TotalRequests = sum64 (map ku_RequestCount us), pm_TotalErrors = sum64 (map ku_ErrorCount us),
                 pm_TotalTokens = fold (\<lambda>u a. wrap64 (a + ku_TotalTokens u)) us 0,
                 pm_TotalCost = fold (\<lambda>u a. fadd a (ku_TotalCost u)) us 0\<rparr>\<rparr>))"

subsection \<open>Dispatch\<close>

text \<open>
  The decoded bodies of the endpoints that are not completions, and the catalogue endpoints, which read no state.
\<close>

record endpoint_env =
  ee_scan_id :: string
  ee_verify :: "(string \<times> string \<times> ProvenanceRecord option) option"
  ee_attest :: "(string \<times> string \<times> string \<times> string \<times> string \<times> string) option"
  ee_analyze :: "(string \<times> string) option"
  ee_catalog :: proxy_answer

definition provenance_status :: "provenance_answer \<Rightarrow> int" where
  "provenance_status a = (case a of BadRequest m \<Rightarrow> 400 | NotFound m \<Rightarrow> 404 | _ \<Rightarrow> 200)"

definition provenance_reply :: "provenance_answer \<Rightarrow> proxy_answer" where
  "provenance_reply a = \<lparr>pa_Status = provenance_status a, pa_Header = header_Set ''Content-Type'' ''application/json'' [], pa_Body = ProvenanceBody a\<rparr>"

definition completions :: "'p proxy_env \<Rightarrow> string \<Rightarrow> string \<Rightarrow> Request \<Rightarrow> ProxyServer \<Rightarrow> ProxyServer \<times> proxy_answer" where
  "completions env fmt key q s =
     handleProxyRequest env (\<lambda>q key model router s. handleStreaming env (handleStreamingDirect env fmt) q key model router s) key q s"

definition handleChatCompletions :: "'p proxy_env \<Rightarrow> string \<Rightarrow> Request \<Rightarrow> ProxyServer \<Rightarrow> ProxyServer \<times> proxy_answer" where
  "handleChatCompletions env = completions env ''openai''"

definition handleMessages :: "'p proxy_env \<Rightarrow> string \<Rightarrow> Request \<Rightarrow> ProxyServer \<Rightarrow> ProxyServer \<times> proxy_answer" where
  "handleMessages env = completions env ''anthropic''"

definition routes :: "'p proxy_env \<Rightarrow> endpoint_env \<Rightarrow> string \<Rightarrow> Request \<Rightarrow> ProxyServer \<Rightarrow> ProxyServer \<times> proxy_answer" where
  "routes env ee key q s =
     (if rq_Method q = ''GET'' \<and> rq_Path q = ''/health'' then (s, \<lparr>pa_Status = 200, pa_Header = [], pa_Body = PlainBody\<rparr>)
      else if rq_Method q = ''GET'' \<and> rq_Path q = ''/metrics'' then handleMetrics s
      else if rq_Method q = ''GET'' \<and> rq_Path q = ''/v1/usage'' then handleUsage s
      else if rq_Method q = ''POST'' \<and> rq_Path q = ''/v1/chat/completions'' then handleChatCompletions env key q s
      else if rq_Method q = ''POST'' \<and> rq_Path q = ''/v1/messages'' then handleMessages env key q s
      else if rq_Method q = ''POST'' \<and> rq_Path q = ''/v1/responses'' then handleResponses env (completions env ''openai'') key q s
      else if rq_Method q = ''GET'' \<and> rq_Path q = ''/v1/provenance'' then (s, provenance_reply (handleProvenanceGet (ee_scan_id ee) (px_provenance s)))
      else if rq_Method q = ''POST'' \<and> rq_Path q = ''/v1/provenance/verify''
      then (s, provenance_reply (handleProvenanceVerify (pe_lib env) (px_provenanceSecret s) (ee_verify ee) (px_provenance s)))
      else if rq_Method q = ''POST'' \<and> rq_Path q = ''/v1/provenance/attest''
      then (let (s1, a) = handleProvenanceAttest env (ee_attest ee) s in (s1, provenance_reply a))
      else if rq_Method q = ''POST'' \<and> rq_Path q = ''/v1/analyze'' then handleAnalyze env (ee_analyze ee) q s
      else if rq_Method q = ''POST'' \<and> rq_Path q = ''/v1/deep-analyze'' then handleDeepAnalyze env (ee_analyze ee) q s
      else (s, ee_catalog ee))"

text \<open>One request: port cut, metrics, rate limit, authentication, route. \<open>latency\<close> is in milliseconds.\<close>

definition serve :: "'p proxy_env \<Rightarrow> endpoint_env \<Rightarrow> int \<Rightarrow> Request \<Rightarrow> ProxyServer \<Rightarrow> ProxyServer \<times> proxy_answer" where
  "serve env ee latency q s =
     metricsMiddleware latency (rateLimitMiddleware (pe_now env) (proxy_authMiddleware (routes env ee)))
       (q\<lparr>rq_RemoteAddr := strip_port (rq_RemoteAddr q)\<rparr>) s"

end
