(* ===== verification/Proxy_Props.thy ===== *)
theory Proxy_Props
  imports Proxy_Analysis Proxy_Stream
begin

text \<open>
  What the gateway promises and what it does not: the strict and the balanced mode on complete and
  on streamed answers, access control and quotas, signed requests and provenance records.
\<close>

subsection \<open>Decision and enforcement\<close>

abbreviation analysis_of :: "'p proxy_env \<Rightarrow> string \<Rightarrow> 'p ModelRouter \<Rightarrow> (AnalysisOutcome option \<times> ProxyFinding list \<times> string \<times> bool) \<times> 'p ModelRouter" where
  "analysis_of env content r \<equiv> analyzeAndVerdict (pe_ax env) (Some (pe_chat env)) content r"

lemma mode_distinct [simp]: "ModeStrict \<noteq> ModePassthrough" "ModeBalanced \<noteq> ModePassthrough" "ModeBalanced \<noteq> ModeStrict"
  "ModeStrict \<noteq> ModeBalanced" "ModeStrict \<noteq> ModeObserve" "ModeBalanced \<noteq> ModeObserve" "ModePassthrough \<noteq> ModeStrict"
  by (simp_all add: mode_defs)

lemma policy_distinct [simp]: "PolicyBlock \<noteq> PolicyScannerUnavailable" "PolicyScannerUnavailable \<noteq> PolicyBlock"
  "PolicyRequireAck \<noteq> PolicyBlock" "PolicyRequireAck \<noteq> PolicyScannerUnavailable" "PolicyAllow \<noteq> PolicyBlock"
  "PolicyAllow \<noteq> PolicyScannerUnavailable" "PolicyHoldForReview \<noteq> PolicyBlock" "PolicyAllowWithNotice \<noteq> PolicyHoldForReview"
  "PolicyAllow \<noteq> PolicyHoldForReview"
  by (simp_all add: policy_defs)

lemma warn_not_block [simp]: "''warn'' \<noteq> ''block''" "''block'' \<noteq> ''warn''" by simp_all

lemma enforced_status: "enforcePolicy policy mode = Some (status, reason) \<Longrightarrow> status = 451 \<or> status = 503"
  by (auto simp: enforcePolicy_def split: if_splits)

lemma strict_status:
  "enforcePolicy (ComputePolicy o1 ModeStrict) ModeStrict =
     (if ao_ScannersUnavailable o1 then Some (503, ''scanner unavailable: failing closed per policy '' @ long_dash @ '' no output released'')
      else if ao_Verdict o1 = ''block'' then Some (451, ''blocked by VigilAgent policy: output withheld until the scan findings are resolved'')
      else None)"
  by (cases "ao_Verdict o1 = ''warn''") (simp_all add: enforcePolicy_def ComputePolicy_def long_dash_def)

subsection \<open>Complete answers\<close>

text \<open>A client gets the text of an answer by a completion only.\<close>

fun released_text :: "proxy_body \<Rightarrow> string option" where
  "released_text (CompletionBody co) = Some (co_Content co)"
| "released_text (ResponsesBody co) = Some (co_Content co)"
| "released_text _ = None"

lemma release_simps [simp]:
  "pa_Status (release_answer env resp content outcome design prov h) = 200"
  "released_text (pa_Body (release_answer env resp content outcome design prov h)) = Some content"
  "pa_Status (withheld_answer status reason o1 fs rec sig h) = status"
  "released_text (pa_Body (withheld_answer status reason o1 fs rec sig h)) = None"
  "pa_Status (http_Error h msg status) = status"
  "released_text (pa_Body (http_Error h msg status)) = None"
  by (simp_all add: release_answer_def withheld_answer_def http_Error_def Let_def)

text \<open>The summary of the findings, as it is appended to a released text.\<close>

definition summary_tail :: "string \<Rightarrow> string" where
  "summary_tail smy = (if smy \<noteq> [] then nl @ nl @ smy else [])"

lemma release_strict:
  assumes "request_mode q = ModeStrict" "release_completion env q key resp design h r s = (s', a)"
    and an: "analysis_of env (rsp_Content resp) r = ((outcome, fs, smy, d), r1)"
  shows "(case outcome of
       None \<Rightarrow> pa_Status a = 200 \<and> released_text (pa_Body a) = Some (rsp_Content resp)
     | Some o1 \<Rightarrow>
         if ao_ScannersUnavailable o1 then pa_Status a = 503 \<and> released_text (pa_Body a) = None
         else if ao_Verdict o1 = ''block'' then pa_Status a = 451 \<and> released_text (pa_Body a) = None
         else pa_Status a = 200 \<and> released_text (pa_Body a) = Some (rsp_Content resp @ summary_tail smy))"
proof (cases outcome)
  case None
  then show ?thesis using assms by (auto simp: release_completion_def)
next
  case (Some o1)
  obtain rec sig s2 where rp: "recordProvenance env q (rsp_Provider resp) (rsp_Model resp) (ComputePolicy o1 ModeStrict) ModeStrict
      (rsp_Content resp) [] (recordDecision (ao_Verdict o1) (ComputePolicy o1 ModeStrict) (keep_cache r1 s)) = ((rec, sig), s2)"
    by (metis surj_pair)
  show ?thesis using assms(1,2) an Some rp
    by (auto simp: release_completion_def strict_status summary_tail_def split: if_splits)
qed

text \<open>The completion handler after its request was accepted.\<close>

lemma complete_answered:
  assumes "buildTask env (rq_Body q) model = Some task0" "pe_chat env (fst (applyDesignGate task0)) router = (Inr resp, r1)"
    and "complete_request env q key model router s = (s', a)"
  shows "\<exists>design h s1. release_completion env q key resp design h r1 s1 = (s', a)"
  using assms by (auto simp: complete_request_def case_prod_beta Let_def)

lemma strict_exact_lemma:
  assumes "request_mode q = ModeStrict"
    and "buildTask env (rq_Body q) model = Some task0" "pe_chat env (fst (applyDesignGate task0)) router = (Inr resp, r1)"
    and "complete_request env q key model router s = (s', a)"
  shows "(case fst (analysis_of env (rsp_Content resp) r1) of (outcome, fs, smy, d) \<Rightarrow> case outcome of
       None \<Rightarrow> pa_Status a = 200 \<and> released_text (pa_Body a) = Some (rsp_Content resp)
     | Some o1 \<Rightarrow>
         if ao_ScannersUnavailable o1 then pa_Status a = 503 \<and> released_text (pa_Body a) = None
         else if ao_Verdict o1 = ''block'' then pa_Status a = 451 \<and> released_text (pa_Body a) = None
         else pa_Status a = 200 \<and> released_text (pa_Body a) = Some (rsp_Content resp @ summary_tail smy))"
proof -
  obtain design h s1 where rel: "release_completion env q key resp design h r1 s1 = (s', a)"
    using complete_answered [OF assms(2-4)] by blast
  obtain outcome fs smy d r2 where an: "analysis_of env (rsp_Content resp) r1 = ((outcome, fs, smy, d), r2)" by (metis surj_pair)
  show ?thesis using release_strict [OF assms(1) rel an] an by simp
qed

text \<open>A document with a single fence.\<close>

lemma single_block:
  assumes "list_all segment_ok segs" "concat (map code_of segs) = [(lang, code)]"
  shows "\<exists>b. ExtractCodeBlocks (document segs) = [b] \<and> cb_Code b = code \<and> cb_Language b = lang"
  using extracted_code [OF assms(1)] assms(2) by auto

lemma local_critical_refused:
  assumes "request_mode q = ModeStrict"
    and "buildTask env (rq_Body q) model = Some task0" "pe_chat env (fst (applyDesignGate task0)) router = (Inr resp, r1)"
    and "complete_request env q key model router s = (s', a)"
    and "rsp_Content resp = document segs" "list_all segment_ok segs" "concat (map code_of segs) = [(lang, code)]"
    and "ax_backend (pe_ax env) code lang = None" "\<And>b. ax_finish (pe_ax env) [b] = [b]"
    and "(r, f) \<in> set local_rules" "pf_Severity f = ''critical''" "MatchString r code"
  shows "pa_Status a = 451 \<and> released_text (pa_Body a) = None"
proof -
  obtain b where b: "ExtractCodeBlocks (rsp_Content resp) = [b]" "cb_Code b = code" "cb_Language b = lang"
    using single_block [OF assms(6,7)] assms(5) by auto
  obtain o1 fs smy e w' where "analysis_of env (rsp_Content resp) r1 = ((Some o1, fs, smy, e), w')"
    "ao_Verdict o1 = ''block''" "\<not> ao_ScannersUnavailable o1"
    using local_critical_blocks [of "rsp_Content resp" b "pe_ax env" r f "Some (pe_chat env)" r1] b assms(8-12) by auto
  then show ?thesis using strict_exact_lemma [OF assms(1-4)] by simp
qed

lemma strict_unfenced_lemma:
  assumes "request_mode q = ModeStrict"
    and "buildTask env (rq_Body q) model = Some task0" "pe_chat env (fst (applyDesignGate task0)) router = (Inr resp, r1)"
    and "complete_request env q key model router s = (s', a)"
    and "\<not> marked_twice backtick (rsp_Content resp)" "\<not> marked_twice tilde (rsp_Content resp)"
  shows "pa_Status a = 200 \<and> released_text (pa_Body a) = Some (rsp_Content resp)"
  using strict_exact_lemma [OF assms(1-4)] no_blocks [OF assms(5,6)] by (simp add: analyzeAndVerdict_def)

subsection \<open>The balanced mode\<close>

lemma BuildSummary_nonempty: "BuildSummary fs score grade c \<noteq> []"
  by (simp add: BuildSummary_def)

lemma block_summary:
  assumes "analysis_of env content r = ((Some o1, fs, smy, d), r1)" "ao_Verdict o1 = ''block''"
  shows "smy \<noteq> [] \<and> fs \<noteq> []"
proof -
  obtain all n w where ab: "analyze_blocks (pe_ax env) (Some (pe_chat env)) (ax_finish (pe_ax env) (ExtractCodeBlocks content)) r = ((all, n), w)"
    by (metis surj_pair)
  have o1: "fs = DeduplicateFindings all" "ao_Verdict o1 = ao_Verdict (ComputeVerdict fs)"
    "smy = (if fs \<noteq> [] then BuildSummary fs (ao_Score o1) (ao_Grade o1) (ao_Corroborated o1) else [])"
    using assms(1) ab by (auto simp: analyzeAndVerdict_def Let_def split: if_splits)
  then have "fs \<noteq> []" using assms(2) verdict_block [of fs] by auto
  then show ?thesis using o1(3) by (simp add: BuildSummary_nonempty)
qed

lemma balanced_lemma:
  assumes "request_mode q = ModeBalanced"
    and "buildTask env (rq_Body q) model = Some task0" "pe_chat env (fst (applyDesignGate task0)) router = (Inr resp, r1)"
    and "complete_request env q key model router s = (s', a)"
    and "rsp_Content resp = document segs" "list_all segment_ok segs"
    and "analysis_of env (rsp_Content resp) r1 = ((Some o1, fs, smy, d), r2)" "ao_Verdict o1 = ''block''" "plain smy"
  shows "pa_Status a = 200 \<and> released_text (pa_Body a) = Some (concat (map withheld segs) @ nl @ nl @ smy)"
proof -
  obtain design h s1 where rel: "release_completion env q key resp design h r1 s1 = (s', a)"
    using complete_answered [OF assms(2-4)] by blast
  obtain rec sig s2 where rp: "recordProvenance env q (rsp_Provider resp) (rsp_Model resp) (ComputePolicy o1 ModeBalanced) ModeBalanced
      (rsp_Content resp) [] (recordDecision (ao_Verdict o1) (ComputePolicy o1 ModeBalanced) (keep_cache r2 s1)) = ((rec, sig), s2)"
    by (metis surj_pair)
  have "plain (nl @ nl @ smy)" using assms(9) by (simp add: plain_def nl_def backtick_def tilde_def)
  then have doc: "redactCodeBlocks (document segs @ nl @ nl @ smy) = concat (map withheld segs) @ nl @ nl @ smy"
    using redacted_document [of "segs @ [Prose (nl @ nl @ smy)]"] assms(6) by (simp add: document_def)
  have pol: "ComputePolicy o1 ModeBalanced = PolicyHoldForReview" using assms(8) by (simp add: ComputePolicy_def)
  have "enforcePolicy PolicyHoldForReview ModeBalanced = None" by (simp add: enforcePolicy_def)
  then show ?thesis using rel rp assms(1,5,7) doc pol block_summary [OF assms(7,8)]
    by (auto simp: release_completion_def)
qed


subsection \<open>Streams\<close>

text \<open>The pieces of text of a stream.\<close>

fun event_text :: "sse \<Rightarrow> string" where
  "event_text (SseContent t) = t"
| "event_text (SseLine l) = l"
| "event_text _ = []"

definition stream_text :: "sse list \<Rightarrow> string" where
  "stream_text es = concat (map event_text es)"

lemma stream_text_simps [simp]:
  "stream_text [] = []" "stream_text (e # es) = event_text e @ stream_text es" "stream_text (es @ fs) = stream_text es @ stream_text fs"
  "stream_text (deltas ts) = concat ts"
  by (simp_all add: stream_text_def deltas_def comp_def)

lemma stream_text_buffered [simp]: "stream_text (buffered t) = t"
  by (simp add: buffered_def)

text \<open>A stream that ends by itself: the content fits and only the last chunk may be marked as the end.\<close>

definition whole_stream :: "ChatChunk list \<Rightarrow> bool" where
  "whole_stream cs \<longleftrightarrow> length (concat (map ch_Content cs)) \<le> maxStreamContent \<and> list_all (\<lambda>c. \<not> ch_Finish c) (butlast cs)"

lemma stream_loop_whole:
  assumes "length (full @ concat (map ch_Content cs)) \<le> maxStreamContent" "list_all (\<lambda>c. \<not> ch_Finish c) (butlast cs)"
  shows "fst (stream_loop strict cs full) = full @ concat (map ch_Content cs) \<and>
    stream_text (snd (stream_loop strict cs full)) = (if strict then [] else concat (map ch_Content cs))"
  using assms
proof (induction cs arbitrary: full)
  case (Cons c cs)
  have IH: "fst (stream_loop strict cs (full @ ch_Content c)) = (full @ ch_Content c) @ concat (map ch_Content cs) \<and>
      stream_text (snd (stream_loop strict cs (full @ ch_Content c))) = (if strict then [] else concat (map ch_Content cs))"
    using Cons.prems by (intro Cons.IH) (auto split: if_splits)
  have last: "ch_Finish c \<Longrightarrow> cs = []" using Cons.prems(2) by (cases cs) auto
  show ?case
  proof (cases "ch_Content c = []")
    case True
    then show ?thesis using IH last by auto
  next
    case False
    then show ?thesis using IH last Cons.prems(1) by (auto simp: case_prod_beta Let_def)
  qed
qed simp

lemma gate_push_empty: "gate_push [] g = (g, [])"
  by (simp add: gate_push_def)

lemma responses_loop_whole:
  assumes "length (full @ concat (map ch_Content cs)) \<le> maxStreamContent" "list_all (\<lambda>c. \<not> ch_Finish c) (butlast cs)"
  shows "fst (responses_loop cs g full) = (fst (gate_run (map ch_Content cs) g), full @ concat (map ch_Content cs)) \<and>
    concat (snd (responses_loop cs g full)) = snd (gate_run (map ch_Content cs) g)"
  using assms
proof (induction cs arbitrary: full g)
  case (Cons c cs)
  have IH: "fst (responses_loop cs h (full @ ch_Content c)) = (fst (gate_run (map ch_Content cs) h), (full @ ch_Content c) @ concat (map ch_Content cs)) \<and>
      concat (snd (responses_loop cs h (full @ ch_Content c))) = snd (gate_run (map ch_Content cs) h)" for h
    using Cons.prems by (intro Cons.IH) (auto split: if_splits)
  have last: "ch_Finish c \<Longrightarrow> cs = []" using Cons.prems(2) by (cases cs) auto
  show ?case
  proof (cases "ch_Content c = []")
    case True
    then show ?thesis using IH [of g] last by (auto simp: gate_push_empty case_prod_beta)
  next
    case False
    then show ?thesis using IH [of "fst (gate_push (ch_Content c) g)"] last Cons.prems(1)
      by (auto simp: case_prod_beta Let_def)
  qed
qed simp

text \<open>Both streaming handlers after the router has accepted the request.\<close>

lemma handleStreaming_started:
  assumes "pe_messages env (rq_Body q) = Some (m # ms)"
    and "pe_stream env (fst (applyDesignGate (review_task (''proxy-stream-'' @ pe_stamp env) ''feature'' ''Proxy streaming request'' [] (map message_of (m # ms))))) router
        = (Inr st, r1)"
    and "pe_flusher env" "request_mode q \<noteq> ModePassthrough"
    and "analysis_of env (fst (stream_loop (request_mode q = ModeStrict) (ss_Chunks st) [])) r1 = ((outcome, fs, smy, d), r2)"
    and "handleStreaming env direct q key model router s = (s', a)"
  shows "\<exists>h o2. a = stream_answer h (snd (stream_loop (request_mode q = ModeStrict) (ss_Chunks st) []) @
      finish_stream (request_mode q) (fst (stream_loop (request_mode q = ModeStrict) (ss_Chunks st) [])) o2 smy @ [SseDone]) \<and>
    (case outcome of None \<Rightarrow> o2 = None
     | Some o1 \<Rightarrow> \<exists>i. o2 = Some (o1\<lparr>ao_Policy := ComputePolicy o1 (request_mode q), ao_ScanID := i\<rparr>))"
  using assms by (cases outcome) (auto simp: handleStreaming_def stream_analysis_def case_prod_beta Let_def)

lemma handleResponsesStream_started:
  assumes "parseResponsesInput input = Some messages" "tenant_check key (if rq_Header q ''X-LLM-Model'' \<noteq> [] then rq_Header q ''X-LLM-Model'' else model0) s = None"
    and "pe_stream env (fst (applyDesignGate (review_task (''proxy-responses-stream-'' @ pe_stamp env) ''feature'' ''Proxy responses streaming request'' [] messages)))
        (buildRouter env (rq_Header q ''X-LLM-Key'') (rq_Header q ''X-LLM-Provider'') s) = (Inr st, r1)"
    and "pe_flusher env" "request_mode q \<noteq> ModePassthrough"
    and loop: "responses_loop (ss_Chunks st) (newStreamingGate (request_mode q)) [] = ((g, full), sent)"
    and "analysis_of env full r1 = ((outcome, fs, smy, d), r2)"
    and "handleResponsesStream env key q model0 input s = (s', a)"
  shows "\<exists>h o2 i c. a = stream_answer h (SseCreated (ss_Model st) # deltas sent @
      finish_responses (request_mode q) (ss_Model st) i c g sent o2 smy) \<and>
    (case outcome of None \<Rightarrow> o2 = None
     | Some o1 \<Rightarrow> \<exists>j. o2 = Some (o1\<lparr>ao_Policy := ComputePolicy o1 (request_mode q), ao_ScanID := j\<rparr>))"
  using assms by (cases outcome) (auto simp: handleResponsesStream_def stream_analysis_def case_prod_beta Let_def)


text \<open>The strict mode sends nothing before the decision and nothing of the answer after a refusal.\<close>

lemma stream_loop_strict: "snd (stream_loop True cs full) = []"
  by (induction cs arbitrary: full) simp_all

definition refused :: "AnalysisOutcome \<Rightarrow> bool" where
  "refused o1 \<longleftrightarrow> ao_Verdict o1 = ''block'' \<or> ao_ScannersUnavailable o1"

lemma strict_refusal: "refused o1 \<Longrightarrow> \<exists>st reason. enforcePolicy (ComputePolicy o1 ModeStrict) ModeStrict = Some (st, reason)"
  by (auto simp: strict_status refused_def)

lemma strict_policy: "ComputePolicy o1 ModeStrict \<in> {PolicyBlock, PolicyScannerUnavailable} \<longleftrightarrow> refused o1"
  by (cases "ao_Verdict o1 = ''warn''") (auto simp: ComputePolicy_def refused_def)

definition verdict_events :: "string \<Rightarrow> AnalysisOutcome \<Rightarrow> EnforcementMode \<Rightarrow> sse list" where
  "verdict_events smy o1 mode =
     (if smy \<noteq> [] then [SseContent (nl @ nl @ verdict_line o1 (ComputePolicy o1 mode) @ nl @ nl @ smy)] else [])"

lemma verdict_line_updates [simp]: "verdict_line (o1\<lparr>ao_Policy := p, ao_ScanID := i\<rparr>) = verdict_line o1"
  by (simp add: verdict_line_def fun_eq_iff)

lemma strict_stream_lemma:
  assumes "request_mode q = ModeStrict" "pe_messages env (rq_Body q) = Some (m # ms)"
    and "pe_stream env (fst (applyDesignGate (review_task (''proxy-stream-'' @ pe_stamp env) ''feature'' ''Proxy streaming request'' [] (map message_of (m # ms))))) router
        = (Inr st, r1)"
    and "pe_flusher env"
    and "analysis_of env (fst (stream_loop True (ss_Chunks st) [])) r1 = ((Some o1, fs, smy, d), r2)"
    and "handleStreaming env direct q key model router s = (s', a)"
  shows "\<exists>reason i. pa_Body a = StreamBody
    ((if refused o1 then [SsePolicyError reason (ComputePolicy o1 ModeStrict) (ao_Verdict o1) i]
      else buffered (fst (stream_loop True (ss_Chunks st) []))) @ verdict_events smy o1 ModeStrict @ [SseDone])"
proof -
  let ?full = "fst (stream_loop True (ss_Chunks st) [])"
  obtain h o2 where a: "a = stream_answer h (snd (stream_loop True (ss_Chunks st) []) @ finish_stream ModeStrict ?full o2 smy @ [SseDone])"
    and ex: "\<exists>i. o2 = Some (o1\<lparr>ao_Policy := ComputePolicy o1 ModeStrict, ao_ScanID := i\<rparr>)"
    using handleStreaming_started [OF assms(2-4) _ _ assms(6), of "Some o1" fs smy d r2] assms(1,5) by auto
  from ex obtain i where o2: "o2 = Some (o1\<lparr>ao_Policy := ComputePolicy o1 ModeStrict, ao_ScanID := i\<rparr>)" by blast
  have ev: "finish_stream ModeStrict ?full o2 smy =
      (case enforcePolicy (ComputePolicy o1 ModeStrict) ModeStrict of
         Some (st, reason) \<Rightarrow> [SsePolicyError reason (ComputePolicy o1 ModeStrict) (ao_Verdict o1) i] | None \<Rightarrow> buffered ?full) @
      verdict_events smy o1 ModeStrict"
    by (simp add: finish_stream_def o2 verdict_events_def split: option.split)
  show ?thesis
  proof (cases "refused o1")
    case True
    then show ?thesis using a ev strict_refusal [OF True] by (auto simp: stream_answer_def stream_loop_strict)
  next
    case False
    then have "enforcePolicy (ComputePolicy o1 ModeStrict) ModeStrict = None" by (simp add: strict_status refused_def)
    then show ?thesis using a ev False by (simp add: stream_answer_def stream_loop_strict)
  qed
qed

lemma responses_loop_strict:
  "sg_strict g \<Longrightarrow> sg_mode g = ModeStrict \<Longrightarrow> snd (responses_loop cs g full) = [] \<and>
   sg_strict (fst (fst (responses_loop cs g full))) \<and> sg_mode (fst (fst (responses_loop cs g full))) = ModeStrict"
  by (induction cs arbitrary: g full) (auto simp: gate_push_def mode_defs case_prod_beta Let_def)

lemma strict_responses_lemma:
  assumes "request_mode q = ModeStrict" "parseResponsesInput input = Some messages"
    and "tenant_check key (if rq_Header q ''X-LLM-Model'' \<noteq> [] then rq_Header q ''X-LLM-Model'' else model0) s = None"
    and "pe_stream env (fst (applyDesignGate (review_task (''proxy-responses-stream-'' @ pe_stamp env) ''feature'' ''Proxy responses streaming request'' [] messages)))
        (buildRouter env (rq_Header q ''X-LLM-Key'') (rq_Header q ''X-LLM-Provider'') s) = (Inr st, r1)"
    and "pe_flusher env"
    and "analysis_of env (snd (fst (responses_loop (ss_Chunks st) (newStreamingGate ModeStrict) []))) r1 = ((Some o1, fs, smy, d), r2)"
    and "refused o1" "handleResponsesStream env key q model0 input s = (s', a)"
  shows "\<exists>reason i. pa_Body a = StreamBody [SseCreated (ss_Model st), SseFailed reason (ComputePolicy o1 ModeStrict) i, SseDone]"
proof -
  obtain g full sent where loop: "responses_loop (ss_Chunks st) (newStreamingGate ModeStrict) [] = ((g, full), sent)" by (metis surj_pair)
  have sent: "sent = []" using responses_loop_strict [of "newStreamingGate ModeStrict" "ss_Chunks st" "[]"] loop by (simp add: newStreamingGate_def)
  have "\<exists>h o2 i c. a = stream_answer h (SseCreated (ss_Model st) # deltas sent @ finish_responses ModeStrict (ss_Model st) i c g sent o2 smy) \<and>
      (\<exists>j. o2 = Some (o1\<lparr>ao_Policy := ComputePolicy o1 ModeStrict, ao_ScanID := j\<rparr>))"
    using handleResponsesStream_started [OF assms(2-5) _ _ _ assms(8), of g full sent "Some o1" fs smy d r2] assms(1,6) loop by simp
  then obtain h o2 i c where a: "a = stream_answer h (SseCreated (ss_Model st) # deltas sent @ finish_responses ModeStrict (ss_Model st) i c g sent o2 smy)"
    and ex: "\<exists>j. o2 = Some (o1\<lparr>ao_Policy := ComputePolicy o1 ModeStrict, ao_ScanID := j\<rparr>)" by blast
  from ex have pol: "(case o2 of None \<Rightarrow> PolicyAllow | Some p \<Rightarrow> ao_Policy p) = ComputePolicy o1 ModeStrict" by auto
  then show ?thesis using a sent strict_policy [of o1] assms(7)
    by (auto simp: finish_responses_def stream_answer_def deltas_def)
qed


text \<open>The balanced mode on a stream with a refused verdict: what flowed, what the gate held, and the verdict.\<close>

definition gate_tail :: "string list \<Rightarrow> string" where
  "gate_tail helds = concat (map (\<lambda>h. withheld_notice @ nl) helds)"

lemma balanced_responses_lemma:
  assumes "request_mode q = ModeBalanced" "parseResponsesInput input = Some messages"
    and "tenant_check key (if rq_Header q ''X-LLM-Model'' \<noteq> [] then rq_Header q ''X-LLM-Model'' else model0) s = None"
    and "pe_stream env (fst (applyDesignGate (review_task (''proxy-responses-stream-'' @ pe_stamp env) ''feature'' ''Proxy responses streaming request'' [] messages)))
        (buildRouter env (rq_Header q ''X-LLM-Key'') (rq_Header q ''X-LLM-Provider'') s) = (Inr st, r1)"
    and "pe_flusher env" "whole_stream (ss_Chunks st)"
    and "gate_run (map ch_Content (ss_Chunks st)) (newStreamingGate ModeBalanced) = (g, flowed)"
    and "sg_mode g = ModeBalanced" "\<not> sg_strict g"
    and "analysis_of env (concat (map ch_Content (ss_Chunks st))) r1 = ((Some o1, fs, smy, d), r2)" "ao_Verdict o1 = ''block''"
    and "handleResponsesStream env key q model0 input s = (s', a)"
  shows "\<exists>es tail. pa_Body a = StreamBody es \<and> stream_text es = flowed @ gate_tail (sg_heldCode g) @ tail \<and>
    tail = nl @ nl @ verdict_line o1 PolicyHoldForReview @ (if sg_heldCode g \<noteq> [] then '' '' @ long_dash @ '' code withheld for review'' else [])"
proof -
  obtain g' full sent where loop: "responses_loop (ss_Chunks st) (newStreamingGate ModeBalanced) [] = ((g', full), sent)" by (metis surj_pair)
  have g: "g' = g" "full = concat (map ch_Content (ss_Chunks st))" "concat sent = flowed"
    using responses_loop_whole [of "[]" "ss_Chunks st" "newStreamingGate ModeBalanced"] assms(6,7) loop by (simp_all add: whole_stream_def)
  have pol: "ComputePolicy o1 ModeBalanced = PolicyHoldForReview" using assms(11) by (simp add: ComputePolicy_def)
  have smy: "smy \<noteq> []" using block_summary [OF assms(10,11)] by simp
  have "\<exists>h o2 i c. a = stream_answer h (SseCreated (ss_Model st) # deltas sent @ finish_responses ModeBalanced (ss_Model st) i c g sent o2 smy) \<and>
      (\<exists>j. o2 = Some (o1\<lparr>ao_Policy := PolicyHoldForReview, ao_ScanID := j\<rparr>))"
    using handleResponsesStream_started [OF assms(2-5) _ _ _ assms(12), of g full sent "Some o1" fs smy d r2] assms(1,10) loop g pol by simp
  then obtain h o2 i c j where a: "a = stream_answer h (SseCreated (ss_Model st) # deltas sent @ finish_responses ModeBalanced (ss_Model st) i c g sent o2 smy)"
    and o2: "o2 = Some (o1\<lparr>ao_Policy := PolicyHoldForReview, ao_ScanID := j\<rparr>)" by blast
  have fin: "gate_finish PolicyHoldForReview g = (gate_tail (sg_heldCode g), sg_heldCode g \<noteq> [])"
    using assms(8,9) by (simp add: gate_finish_def gate_tail_def)
  show ?thesis using a g(3) smy by (auto simp: stream_answer_def finish_responses_def o2 fin nl_def Let_def)
qed

text \<open>What follows the live text of a balanced stream: notices or the held code, and the verdict.\<close>

definition gate_close :: "AnalysisOutcome option \<Rightarrow> string list \<Rightarrow> string \<Rightarrow> string" where
  "gate_close outcome helds smy =
     (case outcome of
        None \<Rightarrow> strings_Join helds nl
      | Some o1 \<Rightarrow>
          (if ao_Verdict o1 = ''block'' then gate_tail helds else strings_Join helds nl) @
          (if smy = [] then []
           else nl @ nl @ verdict_line o1 (ComputePolicy o1 ModeBalanced) @
             (if ao_Verdict o1 = ''block'' \<and> helds \<noteq> [] then '' '' @ long_dash @ '' code withheld for review'' else [])))"

lemma balanced_policy: "ComputePolicy o1 ModeBalanced = PolicyHoldForReview \<longleftrightarrow> ao_Verdict o1 = ''block''" "ComputePolicy o1 ModeBalanced \<noteq> PolicyBlock"
proof -
  have modes: "ModeBalanced \<noteq> ModePassthrough" "ModeBalanced \<noteq> ModeStrict" by simp_all
  have policies: "PolicyAllow \<noteq> PolicyHoldForReview" "PolicyAllowWithNotice \<noteq> PolicyHoldForReview"
    "PolicyAllow \<noteq> PolicyBlock" "PolicyAllowWithNotice \<noteq> PolicyBlock" "PolicyHoldForReview \<noteq> PolicyBlock" by code_simp+
  show "ComputePolicy o1 ModeBalanced = PolicyHoldForReview \<longleftrightarrow> ao_Verdict o1 = ''block''" "ComputePolicy o1 ModeBalanced \<noteq> PolicyBlock"
    unfolding ComputePolicy_def using modes policies by argo+
qed

lemma balanced_gate_close:
  assumes "sg_mode g = ModeBalanced" "\<not> sg_strict g"
  shows "gate_finish (ComputePolicy o1 ModeBalanced) g =
    (if ao_Verdict o1 = ''block'' then (gate_tail (sg_heldCode g), sg_heldCode g \<noteq> []) else (strings_Join (sg_heldCode g) nl, False))"
    "gate_finish PolicyAllow g = (strings_Join (sg_heldCode g) nl, False)"
proof -
  have "strings_Join [] nl = []" by simp
  then have free: "gate_finish p g = (strings_Join (sg_heldCode g) nl, False)" if "p \<noteq> PolicyHoldForReview" "p \<noteq> PolicyBlock" for p
    using assms that by (simp add: gate_finish_def)
  have "PolicyAllow \<noteq> PolicyHoldForReview" "PolicyAllow \<noteq> PolicyBlock" by code_simp+
  from free [OF this] show "gate_finish PolicyAllow g = (strings_Join (sg_heldCode g) nl, False)" .
  show "gate_finish (ComputePolicy o1 ModeBalanced) g =
      (if ao_Verdict o1 = ''block'' then (gate_tail (sg_heldCode g), sg_heldCode g \<noteq> []) else (strings_Join (sg_heldCode g) nl, False))"
  proof (cases "ao_Verdict o1 = ''block''")
    case True
    then have "ComputePolicy o1 ModeBalanced = PolicyHoldForReview" by (simp only: balanced_policy)
    with True assms show ?thesis by (simp add: gate_finish_def gate_tail_def)
  next
    case False
    then have "ComputePolicy o1 ModeBalanced \<noteq> PolicyHoldForReview" by (simp only: balanced_policy) simp
    from free [OF this balanced_policy(2)] False show ?thesis by simp
  qed
qed

lemma balanced_stream_lemma:
  assumes "request_mode q = ModeBalanced" "parseResponsesInput input = Some messages"
    and "tenant_check key (if rq_Header q ''X-LLM-Model'' \<noteq> [] then rq_Header q ''X-LLM-Model'' else model0) s = None"
    and "pe_stream env (fst (applyDesignGate (review_task (''proxy-responses-stream-'' @ pe_stamp env) ''feature'' ''Proxy responses streaming request'' [] messages)))
        (buildRouter env (rq_Header q ''X-LLM-Key'') (rq_Header q ''X-LLM-Provider'') s) = (Inr st, r1)"
    and "pe_flusher env" "whole_stream (ss_Chunks st)"
    and "gate_run (map ch_Content (ss_Chunks st)) (newStreamingGate ModeBalanced) = (g, flowed)"
    and "sg_mode g = ModeBalanced" "\<not> sg_strict g"
    and "analysis_of env (concat (map ch_Content (ss_Chunks st))) r1 = ((outcome, fs, smy, d), r2)"
    and "handleResponsesStream env key q model0 input s = (s', a)"
  shows "\<exists>sent late o2 c. pa_Body a = StreamBody (SseCreated (ss_Model st) # deltas sent @ deltas late @
      [SseCompleted (concat sent @ concat late) o2 c, SseDone]) \<and>
    concat sent = flowed \<and> concat late = gate_close outcome (sg_heldCode g) smy"
proof -
  obtain g' full sent where loop: "responses_loop (ss_Chunks st) (newStreamingGate ModeBalanced) [] = ((g', full), sent)" by (metis surj_pair)
  have g: "g' = g" "full = concat (map ch_Content (ss_Chunks st))" "concat sent = flowed"
    using responses_loop_whole [of "[]" "ss_Chunks st" "newStreamingGate ModeBalanced"] assms(6,7) loop by (simp_all add: whole_stream_def)
  have "\<exists>h o2 i c. a = stream_answer h (SseCreated (ss_Model st) # deltas sent @ finish_responses ModeBalanced (ss_Model st) i c g sent o2 smy) \<and>
      (case outcome of None \<Rightarrow> o2 = None | Some o1 \<Rightarrow> \<exists>j. o2 = Some (o1\<lparr>ao_Policy := ComputePolicy o1 ModeBalanced, ao_ScanID := j\<rparr>))"
    using handleResponsesStream_started [OF assms(2-5) _ _ _ assms(11), of g full sent outcome fs smy d r2] assms(1,10) loop g by (simp cong: option.case_cong)
  then obtain h o2 i c where a: "a = stream_answer h (SseCreated (ss_Model st) # deltas sent @ finish_responses ModeBalanced (ss_Model st) i c g sent o2 smy)"
    and o2: "case outcome of None \<Rightarrow> o2 = None | Some o1 \<Rightarrow> \<exists>j. o2 = Some (o1\<lparr>ao_Policy := ComputePolicy o1 ModeBalanced, ao_ScanID := j\<rparr>)" by blast
  have late: "concat (filter (\<lambda>t. t \<noteq> []) [x, y]) = x @ y" for x y :: string by simp
  have "\<exists>late. finish_responses ModeBalanced (ss_Model st) i c g sent o2 smy = deltas late @ [SseCompleted (concat sent @ concat late) o2 c, SseDone] \<and>
      concat late = gate_close outcome (sg_heldCode g) smy"
    using o2 balanced_gate_close [OF assms(8,9)]
    by (cases outcome) (auto simp: finish_responses_def gate_close_def Let_def split: if_splits intro!: exI [of _ "filter (\<lambda>t. t \<noteq> []) [_, _]"])
  then obtain late where "finish_responses ModeBalanced (ss_Model st) i c g sent o2 smy = deltas late @ [SseCompleted (concat sent @ concat late) o2 c, SseDone]"
    "concat late = gate_close outcome (sg_heldCode g) smy" by blast
  with a g(3) show ?thesis by (intro exI [of _ sent] exI [of _ late] exI [of _ o2] exI [of _ c]) (simp add: stream_answer_def)
qed

lemma new_balanced_gate [simp]: "sg_mode (newStreamingGate ModeBalanced) = ModeBalanced" "\<not> sg_strict (newStreamingGate ModeBalanced)"
  "\<not> sg_inCode (newStreamingGate ModeBalanced)" "sg_buf (newStreamingGate ModeBalanced) = []" "sg_heldCode (newStreamingGate ModeBalanced) = []"
  by (simp_all add: newStreamingGate_def)

lemma balanced_gate_document:
  assumes "list_all segment_ok segs" "list_all cut_ok (butlast cs)" "concat cs = document segs"
  shows "\<exists>g. gate_run cs (newStreamingGate ModeBalanced) = (g, concat (map live segs)) \<and> sg_mode g = ModeBalanced \<and> \<not> sg_strict g \<and>
    sg_heldCode g = concat (map held segs)"
  using gate_run_concat [of "newStreamingGate ModeBalanced" cs] gate_scan_document [of segs "newStreamingGate ModeBalanced"] assms by simp

subsection \<open>The fallback of the streaming handler\<close>

text \<open>The lines that are passed on, all but the end marks, and the text in them.\<close>

definition passed_lines :: "string list \<Rightarrow> string list" where
  "passed_lines = filter (\<lambda>l. line_data l \<noteq> Some ''[DONE]'')"

definition forwarded :: "(string \<Rightarrow> string) \<Rightarrow> string list \<Rightarrow> string" where
  "forwarded delta lines = concat (map (\<lambda>l. case line_data l of None \<Rightarrow> [] | Some d \<Rightarrow> delta d) (passed_lines lines))"

lemma direct_loop_whole:
  assumes "length (full @ forwarded delta lines) \<le> maxStreamContent"
  shows "direct_loop delta lines full = (full @ forwarded delta lines, map SseLine (passed_lines lines))"
  using assms
proof (induction lines arbitrary: full)
  case (Cons l ls)
  show ?case
  proof (cases "line_data l = Some ''[DONE]''")
    case True
    then have "forwarded delta (l # ls) = forwarded delta ls" "passed_lines (l # ls) = passed_lines ls" by (simp_all add: forwarded_def passed_lines_def)
    with True Cons.IH [of full] Cons.prems show ?thesis by simp
  next
    case False
    let ?p = "case line_data l of None \<Rightarrow> [] | Some d \<Rightarrow> delta d"
    have "forwarded delta (l # ls) = ?p @ forwarded delta ls" "passed_lines (l # ls) = l # passed_lines ls"
      using False by (simp_all add: forwarded_def passed_lines_def)
    with False Cons.IH [of "full @ ?p"] Cons.prems show ?thesis by (auto simp: Let_def split: option.splits)
  qed
qed (simp add: forwarded_def passed_lines_def)

text \<open>After the lines at most one more piece of text follows, never an error.\<close>

lemma direct_finish_notice: "length (fst (direct_finish env fmt q p m full s)) \<le> 1 \<and> (\<forall>e \<in> set (fst (direct_finish env fmt q p m full s)). \<exists>t. e = SseContent t)"
  by (auto simp: direct_finish_def Let_def case_prod_beta split: prod.splits option.splits)

lemma fallback_lemma:
  assumes "pe_messages env (rq_Body q) = Some (m # ms)"
    and "pe_stream env (fst (applyDesignGate (review_task (''proxy-stream-'' @ pe_stamp env) ''feature'' ''Proxy streaming request'' [] (map message_of (m # ms))))) router
        = (Inl err, r1)"
    and "pe_flusher env" "rq_Header q ''X-LLM-Model'' = []" "pe_decode env (rq_Body q) = Some (model, True)"
    and "resolveProvider (pe_order env) (px_cfg s) model (rq_Header q ''X-LLM-Key'') (rq_Header q ''X-LLM-Provider'') = Some p"
    and "validateTargetURL env (pv_BaseURL p @ rq_Path q)"
    and "\<And>body. pe_forward env (direct_credentials p) (pv_BaseURL p @ rq_Path q) body = Inr lines"
    and "length (forwarded (pe_delta env fmt) lines) \<le> maxStreamContent"
    and "handleStreaming env (handleStreamingDirect env fmt) q key model' router s = (s', a)"
  shows "pa_Status a = 200 \<and> (\<exists>notice. pa_Body a = StreamBody (map SseLine (passed_lines lines) @ notice @ [SseDone]) \<and>
    length notice \<le> 1 \<and> (\<forall>e \<in> set notice. \<exists>t. e = SseContent t))"
proof -
  have cfg: "px_cfg (keep_cache r1 s) = px_cfg s" by (simp add: keep_cache_def split: option.splits)
  let ?full = "forwarded (pe_delta env fmt) lines" and ?s = "keep_cache r1 s"
  let ?tail = "if request_mode q = ModePassthrough then [] else fst (direct_finish env fmt q (pv_Name p) model ?full ?s)"
  have "handleStreamingDirect env fmt q ?s = (s', a)"
    using assms(1,2,10) by (simp add: handleStreaming_def case_prod_beta Let_def)
  then obtain h where "a = stream_answer h (map SseLine (passed_lines lines) @ ?tail @ [SseDone])"
    using assms(3-9) direct_loop_whole [of "[]" "pe_delta env fmt" lines] cfg
    by (auto simp: handleStreamingDirect_def case_prod_beta Let_def split: if_splits option.splits prod.splits)
  with direct_finish_notice [of env fmt q "pv_Name p" model ?full ?s] show ?thesis
    by (intro conjI exI [of _ ?tail]) (auto simp: stream_answer_def)
qed

subsection \<open>What the handlers leave alone\<close>

text \<open>Usage counters and keys: only a completion that is not streamed counts, and no request changes the allowed keys.\<close>

lemma keep_cache_simps [simp]:
  "px_usageByKey (keep_cache r s) = px_usageByKey s" "px_allowedKeys (keep_cache r s) = px_allowedKeys s" "px_cfg (keep_cache r s) = px_cfg s"
  by (simp_all add: keep_cache_def split: option.splits)

lemma recordDecision_simps [simp]:
  "px_usageByKey (recordDecision v p s) = px_usageByKey s" "px_allowedKeys (recordDecision v p s) = px_allowedKeys s"
  by (simp_all add: recordDecision_def Let_def)

lemma newScanID_simps [simp]:
  "px_usageByKey (snd (newScanID env s)) = px_usageByKey s" "px_allowedKeys (snd (newScanID env s)) = px_allowedKeys s"
  by (simp_all add: newScanID_def Let_def)

lemma sign_and_store_simps [simp]:
  "px_usageByKey (snd (sign_and_store env rec s)) = px_usageByKey s" "px_allowedKeys (snd (sign_and_store env rec s)) = px_allowedKeys s"
  by (simp_all add: sign_and_store_def Let_def)

lemma recordProvenance_simps [simp]:
  "px_usageByKey (snd (recordProvenance env q p m d md c i s)) = px_usageByKey s"
  "px_allowedKeys (snd (recordProvenance env q p m d md c i s)) = px_allowedKeys s"
  by (simp_all add: recordProvenance_def case_prod_beta Let_def)

lemma recordUsage_keys [simp]: "px_allowedKeys (recordUsage now key cost tokens err s) = px_allowedKeys s"
  by (simp add: recordUsage_def Let_def)

lemma stream_analysis_simps [simp]:
  "px_usageByKey (snd (stream_analysis env q mode p m c i r s)) = px_usageByKey s"
  "px_allowedKeys (snd (stream_analysis env q mode p m c i r s)) = px_allowedKeys s"
  by (simp_all add: stream_analysis_def case_prod_beta Let_def split: option.split prod.split)

lemma attest_simps [simp]: "px_allowedKeys (fst (handleProvenanceAttest env body s)) = px_allowedKeys s"
  by (simp add: handleProvenanceAttest_def case_prod_beta Let_def split: option.split prod.split)

lemma release_completion_simps [simp]:
  "px_usageByKey (fst (release_completion env q key resp design h r s)) = px_usageByKey s"
  "px_allowedKeys (fst (release_completion env q key resp design h r s)) = px_allowedKeys s"
  by (auto simp: release_completion_def case_prod_beta Let_def split: option.split prod.split)

lemma complete_request_keys [simp]: "px_allowedKeys (fst (complete_request env q key model r s)) = px_allowedKeys s"
  by (auto simp: complete_request_def case_prod_beta Let_def split: option.split prod.split sum.split)

lemma direct_finish_simps [simp]:
  "px_usageByKey (snd (direct_finish env fmt q p m full s)) = px_usageByKey s"
  "px_allowedKeys (snd (direct_finish env fmt q p m full s)) = px_allowedKeys s"
  by (auto simp: direct_finish_def case_prod_beta Let_def split: option.split)

lemma direct_simps [simp]:
  "px_usageByKey (fst (handleStreamingDirect env fmt q s)) = px_usageByKey s"
  "px_allowedKeys (fst (handleStreamingDirect env fmt q s)) = px_allowedKeys s"
  by (auto simp: handleStreamingDirect_def case_prod_beta Let_def split: option.split sum.split)

lemma streaming_simps [simp]:
  "px_usageByKey (fst (handleStreaming env (handleStreamingDirect env fmt) q key model r s)) = px_usageByKey s"
  "px_allowedKeys (fst (handleStreaming env (handleStreamingDirect env fmt) q key model r s)) = px_allowedKeys s"
  by (auto simp: handleStreaming_def case_prod_beta Let_def split: option.split prod.split sum.split list.split)

lemma responses_stream_simps [simp]:
  "px_usageByKey (fst (handleResponsesStream env key q model input s)) = px_usageByKey s"
  "px_allowedKeys (fst (handleResponsesStream env key q model input s)) = px_allowedKeys s"
  by (auto simp: handleResponsesStream_def case_prod_beta Let_def split: option.split prod.split sum.split)

lemma completions_keys [simp]: "px_allowedKeys (fst (completions env fmt key q s)) = px_allowedKeys s"
  by (auto simp: completions_def handleProxyRequest_def Let_def split: option.split prod.split)

lemma handleResponses_keys [simp]: "px_allowedKeys (fst (handleResponses env (completions env fmt) key q s)) = px_allowedKeys s"
  by (auto simp: handleResponses_def case_prod_beta Let_def split: option.split prod.split)

lemma analyze_keys [simp]: "px_allowedKeys (fst (handleAnalyze env body q s)) = px_allowedKeys s"
  "px_allowedKeys (fst (handleDeepAnalyze env body q s)) = px_allowedKeys s"
  by (auto simp: handleAnalyze_def handleDeepAnalyze_def case_prod_beta Let_def split: option.split prod.split)

lemma routes_keys: "px_allowedKeys (fst (routes env ee key q s)) = px_allowedKeys s"
  by (simp add: routes_def handleMetrics_def handleUsage_def handleChatCompletions_def handleMessages_def case_prod_beta Let_def)


subsection \<open>Quotas\<close>

lemma usageCount_recordUsage:
  "key \<noteq> [] \<Longrightarrow> usageCount key (recordUsage now key cost tokens err s) = inc64 (usageCount key s)"
  by (simp add: usageCount_def recordUsage_def Let_def split: option.split)

lemma usageCount_cong: "px_usageByKey s = px_usageByKey t \<Longrightarrow> usageCount key s = usageCount key t"
  by (simp add: usageCount_def)

lemma complete_counts:
  assumes "key \<noteq> []" "buildTask env (rq_Body q) model = Some task"
  shows "usageCount key (fst (complete_request env q key model r s)) = inc64 (usageCount key s)"
proof -
  obtain t design where g: "applyDesignGate task = (t, design)" by fastforce
  obtain res r1 where c: "pe_chat env t r = (res, r1)" by fastforce
  have same: "usageCount key (keep_cache r1 s) = usageCount key s" by (rule usageCount_cong) simp
  show ?thesis
  proof (cases res)
    case (Inl e)
    then show ?thesis using assms g c same by (simp add: complete_request_def usageCount_recordUsage)
  next
    case (Inr resp)
    let ?s = "recordUsage (pe_now env) key (rsp_Cost resp) (wrap64 (rsp_InputTokens resp + rsp_OutputTokens resp)) False (keep_cache r1 s)"
    have "usageCount key (fst (release_completion env q key resp design h r1 ?s)) = usageCount key ?s" for h
      by (rule usageCount_cong) simp
    then show ?thesis using Inr assms g c same by (simp add: complete_request_def usageCount_recordUsage)
  qed
qed

lemma streaming_usage:
  assumes "pe_decode env (rq_Body q) = Some (model, True)"
  shows "px_usageByKey (fst (completions env fmt key q s)) = px_usageByKey s"
  using assms by (auto simp: completions_def handleProxyRequest_def Let_def split: option.split)

lemma responses_usage:
  assumes "pe_decode env (rq_Body q) = Some (model, True)"
  shows "px_usageByKey (fst (handleResponses env chat key q s)) = px_usageByKey s"
  using assms by (auto simp: handleResponses_def Let_def split: option.split)

text \<open>A streaming request to one of the three completion surfaces.\<close>

definition stream_request :: "'p proxy_env \<Rightarrow> Request \<Rightarrow> bool" where
  "stream_request env q \<longleftrightarrow> rq_Path q \<in> {''/v1/chat/completions'', ''/v1/messages'', ''/v1/responses''} \<and> rq_Method q = ''POST'' \<and>
     (\<exists>model. pe_decode env (rq_Body q) = Some (model, True))"

lemma stream_request_usage: "stream_request env q \<Longrightarrow> px_usageByKey (fst (routes env ee key q s)) = px_usageByKey s"
  by (auto simp: stream_request_def routes_def handleChatCompletions_def handleMessages_def streaming_usage responses_usage)

lemma streaming_usage_all:
  assumes "\<And>env ee q. (env, ee, q) \<in> set reqs \<Longrightarrow> stream_request env q"
  shows "usageCount key (fold (\<lambda>(env, ee, q) s. fst (routes env ee key q s)) reqs s) = usageCount key s"
  using assms
proof (induction reqs arbitrary: s)
  case (Cons r reqs)
  obtain env ee q where r: "r = (env, ee, q)" by (metis surj_pair)
  then have "stream_request env q" using Cons.prems by auto
  then have "usageCount key (fst (routes env ee key q s)) = usageCount key s" by (intro usageCount_cong stream_request_usage)
  moreover have "usageCount key (fold (\<lambda>(env, ee, q) s. fst (routes env ee key q s)) reqs (fst (routes env ee key q s))) =
      usageCount key (fst (routes env ee key q s))" using Cons.prems by (intro Cons.IH) auto
  ultimately show ?case by (simp add: r)
qed simp

subsection \<open>Access\<close>

text \<open>Everything but the counters of requests and clients.\<close>

definition same_service :: "ProxyServer \<Rightarrow> ProxyServer \<Rightarrow> bool" where
  "same_service s t \<longleftrightarrow>
     t\<lparr>px_reqCount := px_reqCount s, px_errCount := px_errCount s, px_latencies := px_latencies s, px_clients := px_clients s\<rparr> = s"

lemma serve_keys: "px_allowedKeys (fst (serve env ee latency q s)) = px_allowedKeys s"
  by (auto simp: serve_def metricsMiddleware_def rateLimitMiddleware_def proxy_authMiddleware_def case_prod_beta Let_def routes_keys)

lemma unauthorized_lemma:
  assumes "rq_Path q \<notin> {''/health'', ''/metrics''}" "presented_key q \<notin> set (px_allowedKeys s) \<or> presented_key q = []"
    and "serve env ee latency q s = (s', a)"
  shows "pa_Status a \<in> {401, 429} \<and> (\<exists>e. pa_Body a = ErrorBody e) \<and> same_service s s'"
proof -
  have key: "presented_key (q\<lparr>rq_RemoteAddr := i\<rparr>) = presented_key q" for i by (simp add: presented_key_def)
  show ?thesis using assms
    by (auto simp: serve_def metricsMiddleware_def rateLimitMiddleware_def proxy_authMiddleware_def case_prod_beta Let_def same_service_def key
      http_Error_def split: if_splits)
qed

fun serve_all :: "('p proxy_env \<times> endpoint_env \<times> int \<times> Request) list \<Rightarrow> ProxyServer \<Rightarrow> ProxyServer" where
  "serve_all [] s = s"
| "serve_all ((env, ee, latency, q) # rs) s = serve_all rs (fst (serve env ee latency q s))"

lemma serve_all_keys: "px_allowedKeys (serve_all rs s) = px_allowedKeys s"
  by (induction rs s rule: serve_all.induct) (simp_all add: serve_keys)


subsection \<open>Records\<close>

fun answer_record :: "proxy_body \<Rightarrow> (ProvenanceRecord \<times> string) option" where
  "answer_record (CompletionBody co) = co_Provenance co"
| "answer_record (WithheldBody reason o1 fs rec sig) = Some (rec, sig)"
| "answer_record _ = None"

lemma answer_record_simps [simp]:
  "answer_record (pa_Body (release_answer env resp content outcome design prov h)) = prov"
  "answer_record (pa_Body (withheld_answer status reason o1 fs rec sig h)) = Some (rec, sig)"
  by (simp_all add: release_answer_def withheld_answer_def Let_def)

lemma secret_simps [simp]:
  "px_provenanceSecret (keep_cache r s) = px_provenanceSecret s" "px_provenanceSecret (recordDecision v p s) = px_provenanceSecret s"
  "px_provenanceSecret (recordUsage now key cost tokens err s) = px_provenanceSecret s" "px_provenanceSecret (snd (newScanID env s)) = px_provenanceSecret s"
  by (simp_all add: keep_cache_def recordDecision_def recordUsage_def newScanID_def Let_def split: option.splits)

lemma sign_and_store_verifies:
  assumes "sign_and_store env rec s = ((rec', sig), s')" "px_provenanceSecret s \<noteq> []"
  shows "rec' = rec \<and> VerifyProvenance (pe_lib env) (px_provenanceSecret s) rec sig = None"
  using assms by (auto simp: sign_and_store_def SignProvenance_def VerifyProvenance_def Let_def)

lemma recordProvenance_verifies:
  assumes "recordProvenance env q p m decision mode content i s = ((rec, sig), s')" "px_provenanceSecret s \<noteq> []"
  shows "VerifyProvenance (pe_lib env) (px_provenanceSecret s) rec sig = None \<and> pr_Decision rec = decision \<and> pr_Mode rec = mode \<and>
    pr_ResponseHash rec = HashContent (pe_lib env) content"
proof -
  obtain j s1 where j: "(if i = [] then newScanID env s else (i, s)) = (j, s1)" by fastforce
  then have s1: "px_provenanceSecret s1 = px_provenanceSecret s" by (metis secret_simps(4) snd_conv)
  have "sign_and_store env
      \<lparr>pr_ScanID = j, pr_RequestID = pe_request_id env, pr_Provider = p, pr_Model = m, pr_TenantID = [], pr_UserID = [],
       pr_ProjectID = [], pr_ClientType = rq_Header q ''X-Client-Type'', pr_ClientVersion = rq_Header q ''X-Client-Version'',
       pr_PolicyVersion = [], pr_ScannerVersion = [], pr_ProvenanceStatus = ProvenanceVerified,
       pr_ResponseHash = HashContent (pe_lib env) content, pr_Decision = decision, pr_Mode = mode, pr_Timestamp = pe_now env\<rparr> s1 = ((rec, sig), s')"
    using assms(1) j by (simp add: recordProvenance_def)
  from sign_and_store_verifies [OF this] s1 assms(2) show ?thesis by auto
qed

lemma release_recorded:
  assumes "release_completion env q key resp design h r s = (s', a)" "px_provenanceSecret s \<noteq> []" "request_mode q \<noteq> ModePassthrough"
    and "analysis_of env (rsp_Content resp) r = ((Some o1, fs, smy, d), r1)"
  shows "\<exists>rec sig. answer_record (pa_Body a) = Some (rec, sig) \<and> VerifyProvenance (pe_lib env) (px_provenanceSecret s) rec sig = None \<and>
    pr_Decision rec = ComputePolicy o1 (request_mode q) \<and> pr_Mode rec = request_mode q \<and> pr_ResponseHash rec = HashContent (pe_lib env) (rsp_Content resp)"
proof -
  let ?m = "request_mode q"
  obtain rec sig s2 where rp: "recordProvenance env q (rsp_Provider resp) (rsp_Model resp) (ComputePolicy o1 ?m) ?m
      (rsp_Content resp) [] (recordDecision (ao_Verdict o1) (ComputePolicy o1 ?m) (keep_cache r1 s)) = ((rec, sig), s2)"
    by (metis surj_pair)
  have "answer_record (pa_Body a) = Some (rec, sig)" using assms(1,3,4) rp
    by (auto simp: release_completion_def Let_def split: option.splits)
  then show ?thesis using recordProvenance_verifies [OF rp] assms(2) by simp
qed

lemma complete_recorded:
  assumes "buildTask env (rq_Body q) model = Some task0" "pe_chat env (fst (applyDesignGate task0)) router = (Inr resp, r1)"
    and "complete_request env q key model router s = (s', a)" "px_provenanceSecret s \<noteq> []" "request_mode q \<noteq> ModePassthrough"
    and "analysis_of env (rsp_Content resp) r1 = ((Some o1, fs, smy, d), r2)"
  shows "\<exists>rec sig. answer_record (pa_Body a) = Some (rec, sig) \<and> VerifyProvenance (pe_lib env) (px_provenanceSecret s) rec sig = None \<and>
    pr_Decision rec = ComputePolicy o1 (request_mode q) \<and> pr_Mode rec = request_mode q \<and> pr_ResponseHash rec = HashContent (pe_lib env) (rsp_Content resp)"
proof -
  obtain t design where g: "applyDesignGate task0 = (t, design)" by fastforce
  show ?thesis
    using assms(1-3) g release_recorded [OF _ _ assms(5,6), of key design _ "recordUsage (pe_now env) key (rsp_Cost resp) (wrap64 (rsp_InputTokens resp + rsp_OutputTokens resp)) False (keep_cache r1 s)" s' a] assms(4)
    by (simp add: complete_request_def)
qed

lemma attest_lemma:
  assumes "decision \<noteq> []" "hash \<noteq> []" "px_provenanceSecret s \<noteq> []"
  shows "\<exists>s' rec sig. handleProvenanceAttest env (Some (provider, model, decision, hash, ct, cv)) s = (s', RecordAnswer rec sig) \<and>
    VerifyProvenance (pe_lib env) (px_provenanceSecret s) rec sig = None \<and>
    pr_Decision rec = decision \<and> pr_ResponseHash rec = hash \<and> pr_ProvenanceStatus rec = ProvenanceVerified"
proof -
  obtain i s1 where i: "newScanID env s = (i, s1)" by fastforce
  then have s1: "px_provenanceSecret s1 = px_provenanceSecret s" by (metis secret_simps(4) snd_conv)
  let ?rec = "\<lparr>pr_ScanID = i, pr_RequestID = pe_request_id env, pr_Provider = provider, pr_Model = model, pr_TenantID = [], pr_UserID = [],
     pr_ProjectID = [], pr_ClientType = ct, pr_ClientVersion = cv, pr_PolicyVersion = [], pr_ScannerVersion = [],
     pr_ProvenanceStatus = ProvenanceVerified, pr_ResponseHash = hash, pr_Decision = decision, pr_Mode = [], pr_Timestamp = pe_now env\<rparr>"
  obtain rec sig s2 where sg: "sign_and_store env ?rec s1 = ((rec, sig), s2)" by (metis surj_pair)
  show ?thesis using sign_and_store_verifies [OF sg] s1 i sg assms by (simp add: handleProvenanceAttest_def)
qed

end
