(* ===== verification/Gateway_Props.thy ===== *)
theory Gateway_Props
  imports Proxy_Props "HOL-Library.Sublist"
begin

text \<open>
  The properties of the gateway, with a concrete gateway on which each of them is applied: a model that
  always answers the same text, no back end, no decodable findings.
\<close>

subsection \<open>Texts of findings\<close>

lemma plain_simps [simp]: "plain []" "plain (c # cs) \<longleftrightarrow> c \<noteq> backtick \<and> c \<noteq> tilde \<and> plain cs" "plain (a @ b) \<longleftrightarrow> plain a \<and> plain b"
  by (auto simp: plain_def)

lemma plain_concat: "plain (concat xs) \<longleftrightarrow> list_all plain xs"
  by (induction xs) auto

lemmas mark_codes = backtick_def tilde_def

lemma plain_digit: "plain (strconv_Itoa n)"
proof -
  have "c \<noteq> backtick \<and> c \<noteq> tilde" if c: "c \<in> set (digits_of k)" for c k
  proof -
    obtain d where "d < 10" "c = char_of (48 + d :: nat)" using digit_chars [OF c] by blast
    then have "(of_char c :: nat) = 48 + d" by simp
    then show ?thesis using \<open>d < 10\<close> by (auto simp: mark_codes)
  qed
  then have "plain (digits_of k)" for k by (auto simp: plain_def)
  then show ?thesis by (simp add: strconv_Itoa_def mark_codes)
qed

lemma plain_upper: "plain s \<Longrightarrow> plain (strings_ToUpper s)"
proof -
  have "ascii_upper c = backtick \<Longrightarrow> c = backtick" "ascii_upper c = tilde \<Longrightarrow> c = tilde" for c
    by (erule ascii_upper_other, simp add: mark_codes)+
  then show "plain s \<Longrightarrow> plain (strings_ToUpper s)" unfolding plain_def strings_ToUpper_def set_map image_iff by metis
qed

definition plain_finding :: "ProxyFinding \<Rightarrow> bool" where
  "plain_finding f \<longleftrightarrow> plain (pf_Severity f) \<and> plain (pf_Message f) \<and> plain (pf_Fix f)"

lemma plain_icon: "plain (SeverityIcon sev)"
  by (simp add: SeverityIcon_def mark_codes)

lemma plain_line: "plain_finding f \<Longrightarrow> plain (summary_line f)"
  by (auto simp: summary_line_def plain_finding_def plain_icon plain_upper nl_def mark_codes)

lemma plain_part: "plain icon \<Longrightarrow> plain sev \<Longrightarrow> plain (severity_part icon sev fs)"
  by (simp add: severity_part_def Let_def plain_digit mark_codes)

lemma plain_summary:
  assumes "list_all plain_finding fs" "plain grade"
  shows "plain (BuildSummary fs score grade n)"
proof -
  have "plain (concat (map summary_line (take 5 fs)))"
    using assms(1) by (auto simp: plain_concat list_all_iff dest: in_set_takeD intro: plain_line)
  then show ?thesis using assms(2) by (simp add: BuildSummary_def plain_part plain_digit nl_def mark_codes)
qed


lemma analysis_summary:
  assumes "analysis_of env content r = ((Some o1, fs, smy, d), r1)"
  shows "smy = [] \<or> smy = BuildSummary fs (ao_Score o1) (ao_Grade o1) (ao_Corroborated o1) \<and> ao_Grade o1 \<in> {''A'', ''B'', ''C'', ''D'', ''F''}"
proof -
  have "ao_Grade (ComputeVerdict gs) \<in> {''A'', ''B'', ''C'', ''D'', ''F''}" for gs
    by (auto simp: ComputeVerdict_def CalculateScore_def ScoreToGrade_def case_prod_beta Let_def)
  then show ?thesis using assms by (auto simp: analyzeAndVerdict_def case_prod_beta Let_def split: if_splits)
qed

lemma plain_analysis:
  assumes "analysis_of env content r = ((Some o1, fs, smy, d), r1)" "list_all plain_finding fs"
  shows "plain smy"
proof (cases "smy = []")
  case False
  have "g \<in> {''A'', ''B'', ''C'', ''D'', ''F''} \<Longrightarrow> plain g" for g by (auto simp: mark_codes)
  then show ?thesis using analysis_summary [OF assms(1)] False plain_summary [OF assms(2)] by metis
qed simp

subsection \<open>A gateway to apply the properties to\<close>

definition demo_analysis :: analysis_env where
  "demo_analysis = \<lparr>ax_backend = \<lambda>code lang. None, ax_json = \<lambda>t. None, ax_stamp = [], ax_finish = \<lambda>bs. bs\<rparr>"

definition demo_response :: "string \<Rightarrow> ChatResponse" where
  "demo_response content =
     \<lparr>rsp_Content = content, rsp_ToolCalls = [], rsp_InputTokens = 1, rsp_OutputTokens = 1, rsp_Cost = 0, rsp_Latency = 0,
      rsp_Model = ''m'', rsp_Provider = ''p'', rsp_StopReason = ''stop''\<rparr>"

definition demo_chunks :: "string list \<Rightarrow> ChatChunk list" where
  "demo_chunks ts = map (\<lambda>t. \<lparr>ch_Content = t, ch_ToolCalls = [], ch_StopReason = [], ch_Finish = False\<rparr>) ts"

definition demo :: "bool \<Rightarrow> string list \<Rightarrow> unit proxy_env" where
  "demo streaming ts =
     \<lparr>pe_ax = demo_analysis, pe_new = \<lambda>i k. None,
      pe_chat = \<lambda>t r. (Inr (demo_response (concat ts)), r),
      pe_stream = \<lambda>t r. (if ts = [] then Inl ''no provider'' else Inr \<lparr>ss_Chunks = demo_chunks ts, ss_Model = ''m'', ss_Provider = ''p'', ss_EstInput = 1\<rparr>, r),
      pe_prices = [], pe_order = [], pe_readable = True, pe_decode = \<lambda>b. Some (''gpt-4o'', streaming), pe_messages = \<lambda>b. Some [(''user'', ''hi'')],
      pe_input = \<lambda>b. InputText ''hi'', pe_chat_body = \<lambda>m ms. [], pe_set_model = \<lambda>b m. b, pe_set_messages = \<lambda>b ms. Some b,
      pe_parse_url = \<lambda>u. Some (''https'', ''api.openai.com''),
      pe_lookup = \<lambda>h. Some [\<lparr>ip_Loopback = False, ip_Unspecified = False, ip_LinkLocal = False, ip_Private = False\<rparr>],
      pe_forward = \<lambda>p u b. Inr [''data: x''], pe_delta = \<lambda>f d. d, pe_flusher = True, pe_now = 0, pe_stamp = [],
      pe_lib = \<lparr>sl_HMAC = \<lambda>k x. ''mac'', sl_SHA256 = \<lambda>x. x, sl_Marshal = \<lambda>fs. [], sl_RFC3339Nano = \<lambda>t. []\<rparr>,
      pe_request_id = [], pe_fmt6 = \<lambda>f. []\<rparr>"

definition demo_request :: "EnforcementMode \<Rightarrow> Request" where
  "demo_request mode =
     \<lparr>rq_Method = ''POST'', rq_Path = ''/v1/chat/completions'', rq_RawQuery = [], rq_RemoteAddr = ''1.2.3.4:5'',
      rq_Header = \<lambda>k. if k = ''X-VigilAgent-Mode'' then mode else [], rq_Body = ''b''\<rparr>"

definition demo_router :: "unit ModelRouter" where
  "demo_router = NewModelRouter [] None"

definition demo_config :: ProxyConfig where
  "demo_config =
     \<lparr>pc_APIKey = ''k'', pc_AllowedAPIKeys = [], pc_ProvenanceSecret = [], pc_AllowedModels = [], pc_PerKeyDailyQuota = 1, pc_OpenAIKey = ''o'',
      pc_AnthropicKey = [], pc_GeminiKey = [], pc_NVIDIAKey = [], pc_GroqKey = [], pc_MistralKey = [], pc_CohereKey = [], pc_OpenRouterKey = [],
      pc_DeepSeekKey = []\<rparr>"

lemmas demo_defs = demo_analysis_def demo_response_def demo_chunks_def demo_def demo_request_def demo_config_def


text \<open>The steps that the demonstration gateway takes.\<close>

lemma demo_simps [simp]:
  "request_mode (demo_request mode) = (if mode = [] then ModeObserve else mode)"
  "buildTask (demo b ts) c m = Some ((review_task ''proxy-'' ''feature'' ''Proxy request'' [] [message_of (''user'', ''hi'')])\<lparr>TargetModel := m\<rparr>)"
  "pe_chat (demo b ts) = (\<lambda>t r. (Inr (demo_response (concat ts)), r))" "pe_messages (demo b ts) c = Some [(''user'', ''hi'')]"
  "pe_stream (demo b (x # ts)) u r = (Inr \<lparr>ss_Chunks = demo_chunks (x # ts), ss_Model = ''m'', ss_Provider = ''p'', ss_EstInput = 1\<rparr>, r)"
  "pe_stream (demo b []) u r = (Inl ''no provider'', r)" "pe_flusher (demo b ts)" "rsp_Content (demo_response c) = c"
  "ax_backend (pe_ax (demo b ts)) = (\<lambda>code lang. None)" "ax_finish (pe_ax (demo b ts)) bs = bs" "ax_json (pe_ax (demo b ts)) = (\<lambda>t. None)"
  "pe_decode (demo b ts) c = Some (''gpt-4o'', b)"
  by (simp_all add: demo_defs request_mode_def buildTask_def)

lemma demo_code:
  "(cmdRe, finding ''local-cmd-injection'' ''deterministic'' ''critical'' ''injection'' ''Potential command injection: user input in shell command''
      ''Use parameterized commands or a safe execution library'' (fl (80 / 100))) \<in> set local_rules"
  "MatchString cmdRe ''os.exec''"
  by (simp add: local_rules_def) code_simp

text \<open>The findings on the code of the demonstration carry no marks.\<close>

lemma plain_merge:
  assumes "list_all plain_finding det" "list_all plain_finding llm"
  shows "list_all plain_finding (MergeFindings det llm)"
proof -
  have upd: "plain_finding (f\<lparr>pf_Confidence := x\<rparr>) = plain_finding f" "plain_finding (f\<lparr>pf_RuleID := y\<rparr>) = plain_finding f" for f x y
    by (simp_all add: plain_finding_def)
  have cor: "plain_finding (corroborate_with llm f)" if f: "plain_finding f" for f
  proof (cases "filter (\<lambda>g. pf_Category g = pf_Category f) llm")
    case (Cons m ms)
    then have "m \<in> set llm" by (auto simp: filter_eq_Cons_iff)
    then show ?thesis using Cons f assms(2) by (auto simp: corroborate_with_def plain_finding_def list_all_iff)
  qed (simp add: corroborate_with_def f)
  have add: "list_all plain_finding (fold add_llm_only gs ms)" if "list_all plain_finding ms" "list_all plain_finding gs" for gs ms
    using that by (induction gs arbitrary: ms) (auto simp: add_llm_only_def upd)
  have "list_all plain_finding (fold add_llm_only llm (map (corroborate_with llm) det))"
    using assms by (intro add) (auto simp: list_all_iff cor)
  then show ?thesis by (simp add: MergeFindings_def list_all_iff)
qed

lemma dedup_subset: "set (dedup_findings seen fs) \<subseteq> set fs"
  by (induction seen fs rule: dedup_findings.induct) auto

lemma demo_findings:
  assumes "analysis_of (demo b ts) content r = ((Some o1, fs, smy, d), r1)"
  shows "list_all plain_finding fs"
proof -
  have "list_all plain_finding (map snd local_rules)" by (simp add: local_rules_def finding_def plain_finding_def mark_codes)
  then have local: "list_all plain_finding (localDeterministicScan code)" for code
    by (auto simp: localDeterministicScan_def list_all_iff)
  have fb: "plain_finding parse_fallback" by (simp add: parse_fallback_def finding_def plain_finding_def mark_codes)
  have one: "list_all plain_finding (de_Findings (fst (AnalyzeWithDualEngine (pe_ax (demo b ts)) (Some (pe_chat (demo b ts))) code lang w)))" for code lang w
    by (auto simp: AnalyzeWithDualEngine_def Analyze_def runDeterministicEngine_def runLLMEngine_def ParseLLMFindings_def case_prod_beta Let_def fb local intro!: plain_merge)
  have all: "list_all plain_finding (fst (fst (analyze_blocks (pe_ax (demo b ts)) (Some (pe_chat (demo b ts))) bs w)))" for bs w
  proof (induction bs arbitrary: w)
    case (Cons c bs)
    then show ?case using one by (auto simp: case_prod_beta Let_def)
  qed simp
  then show ?thesis using assms all dedup_subset
    by (fastforce simp: analyzeAndVerdict_def DeduplicateFindings_def list_all_iff case_prod_beta Let_def split: if_splits)
qed

text \<open>Its verdict on a fence with a command.\<close>

definition demo_text :: string where
  "demo_text = document [Prose ''see '', Fence False ''go'' ''os.exec'']"

lemma demo_document: "list_all segment_ok [Prose ''see '', Fence False ''go'' ''os.exec'']"
  by (simp add: lang_char_def word_char_def mark_codes less_eq_char_def)

lemma demo_verdict:
  "\<exists>o1 fs smy d r1. analysis_of (demo b ts) demo_text r = ((Some o1, fs, smy, d), r1) \<and> ao_Verdict o1 = ''block'' \<and> \<not> ao_ScannersUnavailable o1"
proof -
  obtain c where "ExtractCodeBlocks demo_text = [c]" "cb_Code c = ''os.exec''"
    using single_block [OF demo_document] by (auto simp: demo_text_def)
  then show ?thesis
    using local_critical_blocks [of demo_text c "pe_ax (demo b ts)" _ _ "Some (pe_chat (demo b ts))" r, OF _ _ _ demo_code(1)] demo_code(2)
    by (auto simp: finding_def)
qed


subsection \<open>Complete answers\<close>

text \<open>
  C11. In strict mode the analysis of the answer of the model decides what leaves the gateway, and nothing else does: without a code
  block the whole text is released and no scan has taken place; with code blocks, the whole text, followed by the summary of the
  findings if there are any, is released exactly when the verdict is not \<^verbatim>\<open>block\<close> and a scanner was available; otherwise the
  client gets 451 or 503 and no text.
\<close>

theorem strict_mode_exact:
  assumes "request_mode q = ModeStrict"
    and "buildTask env (rq_Body q) model = Some task0" "pe_chat env (fst (applyDesignGate task0)) router = (Inr resp, r1)"
    and "complete_request env q key model router s = (s', a)"
  shows "(case fst (analysis_of env (rsp_Content resp) r1) of (outcome, fs, smy, d) \<Rightarrow> case outcome of
       None \<Rightarrow> pa_Status a = 200 \<and> released_text (pa_Body a) = Some (rsp_Content resp)
     | Some o1 \<Rightarrow>
         if ao_ScannersUnavailable o1 then pa_Status a = 503 \<and> released_text (pa_Body a) = None
         else if ao_Verdict o1 = ''block'' then pa_Status a = 451 \<and> released_text (pa_Body a) = None
         else pa_Status a = 200 \<and> released_text (pa_Body a) = Some (rsp_Content resp @ summary_tail smy))"
  by (rule strict_exact_lemma [OF assms])

lemma strict_mode_exact_witness:
  "pa_Status (snd (complete_request (demo False [demo_text]) (demo_request ModeStrict) ''k'' ''gpt-4o'' demo_router (NewServer demo_config))) = 451"
proof -
  let ?env = "demo False [demo_text]"
  obtain s' a where c: "complete_request ?env (demo_request ModeStrict) ''k'' ''gpt-4o'' demo_router (NewServer demo_config) = (s', a)" by fastforce
  obtain o1 fs smy d r1 where an: "analysis_of ?env demo_text demo_router = ((Some o1, fs, smy, d), r1)" "ao_Verdict o1 = ''block''" "\<not> ao_ScannersUnavailable o1"
    using demo_verdict [of False "[demo_text]" demo_router] by blast
  have mode: "request_mode (demo_request ModeStrict) = ModeStrict" by (simp add: mode_defs)
  have chat: "pe_chat ?env t demo_router = (Inr (demo_response demo_text), demo_router)" for t by simp
  show ?thesis using strict_mode_exact [OF mode demo_simps(2) chat c] an c by (simp del: demo_simps(3))
qed

text \<open>
  C6. When the back end cannot be asked, an answer with one fence whose code one of the local critical expressions
  matches (a concatenated SQL statement, a hardcoded secret, a shell command) is refused in strict mode with 451, whatever
  the language model reports about that code.
\<close>

theorem critical_code_refused:
  assumes "request_mode q = ModeStrict"
    and "buildTask env (rq_Body q) model = Some task0" "pe_chat env (fst (applyDesignGate task0)) router = (Inr resp, r1)"
    and "complete_request env q key model router s = (s', a)"
    and "rsp_Content resp = document segs" "list_all segment_ok segs" "concat (map code_of segs) = [(lang, code)]"
    and "ax_backend (pe_ax env) code lang = None" "\<And>b. ax_finish (pe_ax env) [b] = [b]"
    and "(r, f) \<in> set local_rules" "pf_Severity f = ''critical''" "MatchString r code"
  shows "pa_Status a = 451 \<and> released_text (pa_Body a) = None"
  by (rule local_critical_refused [OF assms])

lemma critical_code_refused_witness:
  "released_text (pa_Body (snd (complete_request (demo False [demo_text]) (demo_request ModeStrict) ''k'' ''gpt-4o'' demo_router (NewServer demo_config)))) = None"
proof -
  let ?env = "demo False [demo_text]"
  obtain s' a where c: "complete_request ?env (demo_request ModeStrict) ''k'' ''gpt-4o'' demo_router (NewServer demo_config) = (s', a)" by fastforce
  have mode: "request_mode (demo_request ModeStrict) = ModeStrict" by (simp add: mode_defs)
  have chat: "pe_chat ?env t demo_router = (Inr (demo_response demo_text), demo_router)" for t by simp
  show ?thesis using critical_code_refused [OF mode demo_simps(2) chat c _ demo_document _ _ _ demo_code(1) _ demo_code(2)] c
    by (simp add: demo_text_def finding_def)
qed

text \<open>
  C16. The strict mode looks at complete fences only: an answer in which neither the backtick nor the tilde mark occurs twice
  (code without a fence, or with a fence that is not closed) is released whole with status 200, and no scanner is asked.
\<close>

theorem unfenced_code_released:
  assumes "request_mode q = ModeStrict"
    and "buildTask env (rq_Body q) model = Some task0" "pe_chat env (fst (applyDesignGate task0)) router = (Inr resp, r1)"
    and "complete_request env q key model router s = (s', a)"
    and "\<not> marked_twice backtick (rsp_Content resp)" "\<not> marked_twice tilde (rsp_Content resp)"
  shows "pa_Status a = 200 \<and> released_text (pa_Body a) = Some (rsp_Content resp)"
  by (rule strict_unfenced_lemma [OF assms])

lemma twice_count: "marked_twice f s \<Longrightarrow> 6 \<le> length (filter (\<lambda>c. c = f) s)"
  by (auto simp: marked_twice_def)

definition open_text :: string where
  "open_text = mark3 backtick @ ''go'' @ nl @ ''os.exec''"

lemma unfenced_code_released_witness:
  "released_text (pa_Body (snd (complete_request (demo False [open_text]) (demo_request ModeStrict) ''k'' ''gpt-4o'' demo_router (NewServer demo_config)))) =
     Some open_text"
proof -
  let ?env = "demo False [open_text]"
  obtain s' a where c: "complete_request ?env (demo_request ModeStrict) ''k'' ''gpt-4o'' demo_router (NewServer demo_config) = (s', a)" by fastforce
  have mode: "request_mode (demo_request ModeStrict) = ModeStrict" by (simp add: mode_defs)
  have chat: "pe_chat ?env t demo_router = (Inr (demo_response open_text), demo_router)" for t by simp
  have "\<not> marked_twice backtick open_text" "\<not> marked_twice tilde open_text"
    using twice_count [of backtick open_text] twice_count [of tilde open_text] by (auto simp: open_text_def mark_codes nl_def)
  then show ?thesis using unfenced_code_released [OF mode demo_simps(2) chat c] c by simp
qed

text \<open>
  C12. In balanced mode a refused answer leaves as prose: in a document of prose and fences, each fence of backticks is replaced
  by the notice and the rest is released as it is, followed by the summary. Fences of tildes are part of that rest:
  their code was scanned and refused, and is released.
\<close>

theorem balanced_mode_redacts:
  assumes "request_mode q = ModeBalanced"
    and "buildTask env (rq_Body q) model = Some task0" "pe_chat env (fst (applyDesignGate task0)) router = (Inr resp, r1)"
    and "complete_request env q key model router s = (s', a)"
    and "rsp_Content resp = document segs" "list_all segment_ok segs"
    and "analysis_of env (rsp_Content resp) r1 = ((Some o1, fs, smy, d), r2)" "ao_Verdict o1 = ''block''" "list_all plain_finding fs"
  shows "pa_Status a = 200 \<and> released_text (pa_Body a) = Some (concat (map withheld segs) @ nl @ nl @ smy) \<and>
    (\<forall>lang code. Fence True lang code \<in> set segs \<longrightarrow> sublist (fenced tilde lang code) (concat (map withheld segs)))"
proof -
  have "sublist (fenced tilde lang code) (concat (map withheld segs))" if f: "Fence True lang code \<in> set segs" for lang code
  proof -
    obtain xs ys where "segs = xs @ Fence True lang code # ys" using split_list [OF f] by blast
    then show ?thesis by (auto simp: sublist_def)
  qed
  then show ?thesis using balanced_lemma [OF assms(1-8) plain_analysis [OF assms(7,9)]] by blast
qed

lemma balanced_mode_redacts_witness:
  "\<exists>smy. released_text (pa_Body (snd (complete_request (demo False [demo_text]) (demo_request ModeBalanced) ''k'' ''gpt-4o'' demo_router (NewServer demo_config)))) =
     Some (''see '' @ withheld_notice @ nl @ nl @ smy)"
proof -
  let ?env = "demo False [demo_text]"
  obtain s' a where c: "complete_request ?env (demo_request ModeBalanced) ''k'' ''gpt-4o'' demo_router (NewServer demo_config) = (s', a)" by fastforce
  obtain o1 fs smy d r1 where an: "analysis_of ?env (rsp_Content (demo_response demo_text)) demo_router = ((Some o1, fs, smy, d), r1)" "ao_Verdict o1 = ''block''"
    using demo_verdict [of False "[demo_text]" demo_router] by auto
  have mode: "request_mode (demo_request ModeBalanced) = ModeBalanced" by (simp add: mode_defs)
  have chat: "pe_chat ?env t demo_router = (Inr (demo_response demo_text), demo_router)" for t by simp
  have doc: "rsp_Content (demo_response demo_text) = document [Prose ''see '', Fence False ''go'' ''os.exec'']" by (simp add: demo_text_def)
  show ?thesis using balanced_mode_redacts [OF mode demo_simps(2) chat c doc demo_document an demo_findings [OF an(1)]] c by simp
qed


subsection \<open>Streams\<close>

definition stream_task :: "'p proxy_env \<Rightarrow> (string \<times> string) list \<Rightarrow> LlmTask" where
  "stream_task env ms = fst (applyDesignGate (review_task (''proxy-stream-'' @ pe_stamp env) ''feature'' ''Proxy streaming request'' [] (map message_of ms)))"

definition responses_task :: "'p proxy_env \<Rightarrow> Message list \<Rightarrow> LlmTask" where
  "responses_task env ms = fst (applyDesignGate (review_task (''proxy-responses-stream-'' @ pe_stamp env) ''feature'' ''Proxy responses streaming request'' [] ms))"

definition requested_model :: "Request \<Rightarrow> string \<Rightarrow> string" where
  "requested_model q model0 = (if rq_Header q ''X-LLM-Model'' \<noteq> [] then rq_Header q ''X-LLM-Model'' else model0)"

definition client_router :: "'p proxy_env \<Rightarrow> Request \<Rightarrow> ProxyServer \<Rightarrow> 'p ModelRouter" where
  "client_router env q s = buildRouter env (rq_Header q ''X-LLM-Key'') (rq_Header q ''X-LLM-Provider'') s"

lemmas stream_tasks = stream_task_def responses_task_def requested_model_def client_router_def

text \<open>
  C8. A stream in strict mode carries no piece of the answer before the decision. After a refusal it carries an error and the
  summary of the findings; otherwise one event with the collected text, then the summary.
\<close>

theorem strict_stream_holds_all:
  assumes "request_mode q = ModeStrict" "pe_messages env (rq_Body q) = Some (m # ms)"
    and "pe_stream env (stream_task env (m # ms)) router = (Inr st, r1)" "pe_flusher env"
    and "analysis_of env (fst (stream_loop True (ss_Chunks st) [])) r1 = ((Some o1, fs, smy, d), r2)"
    and "handleStreaming env direct q key model router s = (s', a)"
  shows "\<exists>reason i. pa_Body a = StreamBody
    ((if refused o1 then [SsePolicyError reason (ComputePolicy o1 ModeStrict) (ao_Verdict o1) i]
      else buffered (fst (stream_loop True (ss_Chunks st) []))) @ verdict_events smy o1 ModeStrict @ [SseDone])"
  by (rule strict_stream_lemma [OF assms(1,2) assms(3) [unfolded stream_tasks] assms(4-6)])

lemma demo_stream:
  assumes "concat ts = c" "length c \<le> maxStreamContent"
  shows "fst (stream_loop b (demo_chunks ts) []) = c" "whole_stream (demo_chunks ts)" "map ch_Content (demo_chunks ts) = ts"
proof -
  have m: "map ch_Content (demo_chunks ts) = ts" for ts by (simp add: demo_chunks_def comp_def)
  have f: "list_all (\<lambda>c. \<not> ch_Finish c) (butlast (demo_chunks ts))" by (auto simp: demo_chunks_def list_all_iff dest!: in_set_butlastD)
  show "fst (stream_loop b (demo_chunks ts) []) = c" "whole_stream (demo_chunks ts)" "map ch_Content (demo_chunks ts) = ts"
    using stream_loop_whole [OF _ f, of "[]" b] assms f by (simp_all add: whole_stream_def m)
qed

lemma strict_stream_holds_all_witness:
  "\<exists>e es. pa_Body (snd (handleStreaming (demo True [''see '', drop 4 demo_text]) (\<lambda>q s. (s, http_Error [] [] 0)) (demo_request ModeStrict) ''k'' ''gpt-4o'' demo_router
       (NewServer demo_config))) = StreamBody (e # es) \<and> event_text e = []"
proof -
  let ?ts = "[''see '', drop 4 demo_text]" let ?env = "demo True ?ts"
  obtain s' a where c: "handleStreaming ?env (\<lambda>q s. (s, http_Error [] [] 0)) (demo_request ModeStrict) ''k'' ''gpt-4o'' demo_router (NewServer demo_config) = (s', a)"
    by fastforce
  have ts: "concat ?ts = demo_text" "length demo_text \<le> maxStreamContent"
    by (simp_all add: demo_text_def document_def fenced_def maxStreamContent_def)
  obtain o1 fs smy d r1 where an: "analysis_of ?env demo_text demo_router = ((Some o1, fs, smy, d), r1)" "ao_Verdict o1 = ''block''"
    using demo_verdict [of True ?ts demo_router] by blast
  have mode: "request_mode (demo_request ModeStrict) = ModeStrict" by (simp add: mode_defs)
  have st: "pe_stream ?env (stream_task ?env [(''user'', ''hi'')]) demo_router = (Inr \<lparr>ss_Chunks = demo_chunks ?ts, ss_Model = ''m'', ss_Provider = ''p'', ss_EstInput = 1\<rparr>, demo_router)"
    by simp
  show ?thesis using strict_stream_holds_all [OF mode _ st _ _ c] an c demo_stream [OF ts] by (fastforce simp: refused_def)
qed

text \<open>
  A stream of the Responses surface in strict mode whose answer is refused consists of the announcement, the refusal and
  the end, whatever chunks the model has sent.
\<close>

theorem strict_responses_refused:
  assumes "request_mode q = ModeStrict" "parseResponsesInput input = Some messages" "tenant_check key (requested_model q model0) s = None"
    and "pe_stream env (responses_task env messages) (client_router env q s) = (Inr st, r1)" "pe_flusher env"
    and "analysis_of env (snd (fst (responses_loop (ss_Chunks st) (newStreamingGate ModeStrict) []))) r1 = ((Some o1, fs, smy, d), r2)"
    and "refused o1" "handleResponsesStream env key q model0 input s = (s', a)"
  shows "\<exists>reason i. pa_Body a = StreamBody [SseCreated (ss_Model st), SseFailed reason (ComputePolicy o1 ModeStrict) i, SseDone]"
  by (rule strict_responses_lemma [OF assms(1,2) assms(3,4) [unfolded stream_tasks] assms(5-8)])

text \<open>
  C13. Streams of the Responses surface in balanced mode: when the answer is a document of prose and fences and no chunk but the last
  ends with a backtick, the text outside of backtick fences, and nothing else, flows before the decision, for every division into
  chunks. Behind it come, for a refused answer, one notice for each fence, for any other the fences themselves, and then the line with the
  verdict if there are findings; the event that completes the stream repeats exactly the text that was sent.
\<close>

theorem balanced_stream_withholds:
  assumes "request_mode q = ModeBalanced" "parseResponsesInput input = Some messages" "tenant_check key (requested_model q model0) s = None"
    and "pe_stream env (responses_task env messages) (client_router env q s) = (Inr st, r1)" "pe_flusher env" "whole_stream (ss_Chunks st)"
    and "list_all segment_ok segs" "concat (map ch_Content (ss_Chunks st)) = document segs" "list_all cut_ok (butlast (map ch_Content (ss_Chunks st)))"
    and "analysis_of env (document segs) r1 = ((outcome, fs, smy, d), r2)"
    and "handleResponsesStream env key q model0 input s = (s', a)"
  shows "\<exists>sent late o2 c. pa_Body a = StreamBody (SseCreated (ss_Model st) # deltas sent @ deltas late @
      [SseCompleted (concat sent @ concat late) o2 c, SseDone]) \<and>
    concat sent = concat (map live segs) \<and> concat late = gate_close outcome (concat (map held segs)) smy"
proof -
  obtain g where g: "gate_run (map ch_Content (ss_Chunks st)) (newStreamingGate ModeBalanced) = (g, concat (map live segs))"
    "sg_mode g = ModeBalanced" "\<not> sg_strict g" "sg_heldCode g = concat (map held segs)"
    using balanced_gate_document [OF assms(7,9,8)] by blast
  show ?thesis
    using balanced_stream_lemma [OF assms(1,2) assms(3,4) [unfolded stream_tasks] assms(5,6) g(1-3) assms(10) [folded assms(8)] assms(11)] g(4)
    by simp
qed

lemma demo_responses:
  assumes "whole_stream (demo_chunks ts)"
  shows "snd (fst (responses_loop (demo_chunks ts) g [])) = concat ts"
  using responses_loop_whole [of "[]" "demo_chunks ts" g] assms by (simp add: whole_stream_def demo_chunks_def comp_def)

lemma demo_tenant: "tenant_check ''k'' (requested_model (demo_request mode) ''gpt-4o'') (NewServer demo_config) = None"
  by (simp add: tenant_check_def requested_model_def modelAllowed_def NewServer_def usageCount_def demo_defs)

lemma demo_input: "parseResponsesInput (InputText ''hi'') = Some [chat_message ''user'' ''hi'']"
  by (simp add: parseResponsesInput_def)

lemma strict_responses_refused_witness:
  "\<exists>e. pa_Body (snd (handleResponsesStream (demo True [demo_text]) ''k'' (demo_request ModeStrict) ''gpt-4o'' (InputText ''hi'') (NewServer demo_config))) =
     StreamBody [SseCreated ''m'', e, SseDone]"
proof -
  let ?env = "demo True [demo_text]" let ?q = "demo_request ModeStrict" let ?r = "client_router ?env ?q (NewServer demo_config)"
  obtain s' a where c: "handleResponsesStream ?env ''k'' ?q ''gpt-4o'' (InputText ''hi'') (NewServer demo_config) = (s', a)" by fastforce
  have ts: "concat [demo_text] = demo_text" "length demo_text \<le> maxStreamContent"
    by (simp_all add: demo_text_def document_def fenced_def maxStreamContent_def)
  obtain o1 fs smy d r1 where an: "analysis_of ?env demo_text ?r = ((Some o1, fs, smy, d), r1)" "refused o1"
    using demo_verdict [of True "[demo_text]" ?r] unfolding refused_def by blast
  have mode: "request_mode ?q = ModeStrict" by (simp add: mode_defs)
  have st: "pe_stream ?env (responses_task ?env [chat_message ''user'' ''hi'']) ?r =
      (Inr \<lparr>ss_Chunks = demo_chunks [demo_text], ss_Model = ''m'', ss_Provider = ''p'', ss_EstInput = 1\<rparr>, ?r)" by simp
  have an2: "analysis_of ?env (snd (fst (responses_loop (ss_Chunks \<lparr>ss_Chunks = demo_chunks [demo_text], ss_Model = ''m'', ss_Provider = ''p'', ss_EstInput = 1\<rparr>)
      (newStreamingGate ModeStrict) []))) ?r = ((Some o1, fs, smy, d), r1)"
    using an demo_responses [OF demo_stream(2) [OF ts]] by (simp del: demo_simps)
  show ?thesis using strict_responses_refused [OF mode demo_input demo_tenant st _ an2 an(2) c] c by auto
qed

lemma balanced_stream_withholds_witness:
  "\<exists>sent late o2 c o1. pa_Body (snd (handleResponsesStream (demo True [''see '' @ mark3 backtick @ ''g'', ''o'' @ nl @ ''os.exec'' @ nl @ mark3 backtick]) ''k''
       (demo_request ModeBalanced) ''gpt-4o'' (InputText ''hi'') (NewServer demo_config))) =
     StreamBody (SseCreated ''m'' # deltas sent @ deltas late @ [SseCompleted (concat sent @ concat late) o2 c, SseDone]) \<and>
     concat sent = ''see '' \<and>
     concat late = withheld_notice @ nl @ nl @ nl @ verdict_line o1 PolicyHoldForReview @ '' '' @ long_dash @ '' code withheld for review''"
proof -
  let ?ts = "[''see '' @ mark3 backtick @ ''g'', ''o'' @ nl @ ''os.exec'' @ nl @ mark3 backtick]"
  let ?env = "demo True ?ts" let ?q = "demo_request ModeBalanced" let ?r = "client_router ?env ?q (NewServer demo_config)"
  let ?st = "\<lparr>ss_Chunks = demo_chunks ?ts, ss_Model = ''m'', ss_Provider = ''p'', ss_EstInput = 1\<rparr>"
  obtain s' a where c: "handleResponsesStream ?env ''k'' ?q ''gpt-4o'' (InputText ''hi'') (NewServer demo_config) = (s', a)" by fastforce
  have ts: "concat ?ts = demo_text" "length demo_text \<le> maxStreamContent"
    by (simp_all add: demo_text_def document_def fenced_def maxStreamContent_def nl_def)
  obtain o1 fs smy d r1 where an: "analysis_of ?env demo_text ?r = ((Some o1, fs, smy, d), r1)" "ao_Verdict o1 = ''block''"
    using demo_verdict [of True ?ts ?r] by blast
  have smy: "smy \<noteq> []" using block_summary [OF an] by simp
  have mode: "request_mode ?q = ModeBalanced" by (simp add: mode_defs)
  have st: "pe_stream ?env (responses_task ?env [chat_message ''user'' ''hi'']) ?r = (Inr ?st, ?r)" by simp
  have cut: "list_all cut_ok (butlast (map ch_Content (ss_Chunks ?st)))"
    using demo_stream(3) [OF ts] by (simp only: stream_start.simps) (simp add: cut_ok_def mark_codes)
  have doc: "concat (map ch_Content (ss_Chunks ?st)) = document [Prose ''see '', Fence False ''go'' ''os.exec'']"
    using demo_stream(3) [OF ts] ts(1) by (simp add: demo_text_def)
  have flush: "pe_flusher ?env" and whole: "whole_stream (ss_Chunks ?st)" using demo_stream(2) [OF ts] by simp_all
  have held: "concat (map held [Prose ''see '', Fence False ''go'' ''os.exec'']) = [fenced backtick ''go'' ''os.exec'']"
    and live: "concat (map live [Prose ''see '', Fence False ''go'' ''os.exec'']) = ''see ''" by simp_all
  have pol: "ComputePolicy o1 ModeBalanced = PolicyHoldForReview" using an(2) by (simp only: balanced_policy)
  have close: "gate_close (Some o1) [fenced backtick ''go'' ''os.exec''] smy =
      withheld_notice @ nl @ nl @ nl @ verdict_line o1 PolicyHoldForReview @ '' '' @ long_dash @ '' code withheld for review''"
    using an(2) smy pol by (simp add: gate_close_def gate_tail_def)
  obtain sent late o2 k where "pa_Body a = StreamBody (SseCreated (ss_Model ?st) # deltas sent @ deltas late @
      [SseCompleted (concat sent @ concat late) o2 k, SseDone]) \<and>
    concat sent = ''see '' \<and> concat late = gate_close (Some o1) [fenced backtick ''go'' ''os.exec''] smy"
    using balanced_stream_withholds [OF mode demo_input demo_tenant st flush whole demo_document doc cut an(1) [unfolded demo_text_def] c] unfolding held live by blast
  then show ?thesis unfolding c close snd_conv
    by (intro exI [of _ sent] exI [of _ late] exI [of _ o2] exI [of _ k] exI [of _ o1]) simp
qed

text \<open>
  C14. A mark that is divided between chunks opens nothing: when no single chunk contains three backticks in a row, the balanced
  mode sends the whole answer live, its code included, also when the verdict is \<^verbatim>\<open>block\<close>.
\<close>

theorem divided_marks_flow:
  assumes "request_mode q = ModeBalanced" "parseResponsesInput input = Some messages" "tenant_check key (requested_model q model0) s = None"
    and "pe_stream env (responses_task env messages) (client_router env q s) = (Inr st, r1)" "pe_flusher env" "whole_stream (ss_Chunks st)"
    and "list_all (\<lambda>t. \<not> marked t) (map ch_Content (ss_Chunks st))"
    and "analysis_of env (concat (map ch_Content (ss_Chunks st))) r1 = ((Some o1, fs, smy, d), r2)" "ao_Verdict o1 = ''block''"
    and "handleResponsesStream env key q model0 input s = (s', a)"
  shows "\<exists>es. pa_Body a = StreamBody es \<and>
    stream_text es = concat (map ch_Content (ss_Chunks st)) @ nl @ nl @ verdict_line o1 PolicyHoldForReview"
proof -
  have g: "gate_run (map ch_Content (ss_Chunks st)) (newStreamingGate ModeBalanced) = (newStreamingGate ModeBalanced, concat (map ch_Content (ss_Chunks st)))"
    using gate_run_unmarked [OF assms(7)] by simp
  show ?thesis
    using balanced_responses_lemma [OF assms(1,2) assms(3,4) [unfolded stream_tasks] assms(5,6) g _ _ assms(8-10)]
    by (simp add: gate_tail_def)
qed

lemma unmarked_count: "length (filter (\<lambda>c. c = backtick) t) < 3 \<Longrightarrow> \<not> marked t"
  by (auto simp: marked_def)

lemma divided_marks_flow_witness:
  "\<exists>es rest. pa_Body (snd (handleResponsesStream (demo True [''see '' @ [backtick], [backtick, backtick] @ ''go'' @ nl @ ''os.exec'' @ nl, [backtick, backtick], [backtick]]) ''k''
       (demo_request ModeBalanced) ''gpt-4o'' (InputText ''hi'') (NewServer demo_config))) = StreamBody es \<and>
     stream_text es = ''see '' @ mark3 backtick @ ''go'' @ nl @ ''os.exec'' @ nl @ mark3 backtick @ rest"
proof -
  let ?ts = "[''see '' @ [backtick], [backtick, backtick] @ ''go'' @ nl @ ''os.exec'' @ nl, [backtick, backtick], [backtick]]"
  let ?env = "demo True ?ts" let ?q = "demo_request ModeBalanced" let ?r = "client_router ?env ?q (NewServer demo_config)"
  let ?st = "\<lparr>ss_Chunks = demo_chunks ?ts, ss_Model = ''m'', ss_Provider = ''p'', ss_EstInput = 1\<rparr>"
  obtain s' a where c: "handleResponsesStream ?env ''k'' ?q ''gpt-4o'' (InputText ''hi'') (NewServer demo_config) = (s', a)" by fastforce
  have ts: "concat ?ts = demo_text" "length demo_text \<le> maxStreamContent"
    by (simp_all add: demo_text_def document_def fenced_def maxStreamContent_def nl_def)
  have m: "map ch_Content (ss_Chunks ?st) = ?ts" using demo_stream(3) [OF ts] by simp
  obtain o1 fs smy d r1 where an: "analysis_of ?env (concat (map ch_Content (ss_Chunks ?st))) ?r = ((Some o1, fs, smy, d), r1)" "ao_Verdict o1 = ''block''"
    using demo_verdict [of True ?ts ?r] unfolding m ts(1) by blast
  have mode: "request_mode ?q = ModeBalanced" by (simp add: mode_defs)
  have st: "pe_stream ?env (responses_task ?env [chat_message ''user'' ''hi'']) ?r = (Inr ?st, ?r)" by simp
  have un: "list_all (\<lambda>t. \<not> marked t) (map ch_Content (ss_Chunks ?st))"
    unfolding m list.pred_inject by (intro conjI TrueI unmarked_count) (simp_all add: nl_def mark_codes)
  have whole: "whole_stream (ss_Chunks ?st)" using demo_stream(2) [OF ts] by simp
  have f: "pe_flusher ?env" by simp
  show ?thesis
    using divided_marks_flow [OF mode demo_input demo_tenant st f whole un an c] c unfolding m by fastforce
qed


text \<open>
  C15. When no provider of the router accepts a stream, the mode of the request is not kept, strict or not: the request is forwarded
  directly and every line of the provider's answer but the end marks is sent to the client before any analysis; whatever the
  analysis finds, at most one more piece of text follows, and no refusal.
\<close>

theorem fallback_streams_unscanned:
  assumes "pe_messages env (rq_Body q) = Some (m # ms)"
    and "pe_stream env (stream_task env (m # ms)) router = (Inl err, r1)" "pe_flusher env"
    and "rq_Header q ''X-LLM-Model'' = []" "pe_decode env (rq_Body q) = Some (model, True)"
    and "resolveProvider (pe_order env) (px_cfg s) model (rq_Header q ''X-LLM-Key'') (rq_Header q ''X-LLM-Provider'') = Some p"
    and "validateTargetURL env (pv_BaseURL p @ rq_Path q)"
    and "\<And>body. pe_forward env (direct_credentials p) (pv_BaseURL p @ rq_Path q) body = Inr lines"
    and "length (forwarded (pe_delta env fmt) lines) \<le> maxStreamContent"
    and "handleStreaming env (handleStreamingDirect env fmt) q key model' router s = (s', a)"
  shows "pa_Status a = 200 \<and> (\<exists>notice. pa_Body a = StreamBody (map SseLine (passed_lines lines) @ notice @ [SseDone]) \<and>
    length notice \<le> 1 \<and> (\<forall>e \<in> set notice. \<exists>t. e = SseContent t))"
  by (rule fallback_lemma [OF assms(1) assms(2) [unfolded stream_tasks] assms(3-10)])

text \<open>A strict request, and a provider whose answer ends with the end mark.\<close>

lemma fallback_streams_unscanned_witness:
  "request_mode (demo_request ModeStrict) = ModeStrict \<and>
   (\<exists>rest. pa_Body (snd (handleStreaming (demo True []\<lparr>pe_forward := \<lambda>cr u b. Inr [''data: x'', ''data: [DONE]'']\<rparr>)
       (handleStreamingDirect (demo True []\<lparr>pe_forward := \<lambda>cr u b. Inr [''data: x'', ''data: [DONE]'']\<rparr>) ''openai'') (demo_request ModeStrict) ''k'' ''gpt-4o'' demo_router
       (NewServer demo_config))) = StreamBody (SseLine ''data: x'' # rest))"
proof -
  let ?env = "demo True []\<lparr>pe_forward := \<lambda>cr u b. Inr [''data: x'', ''data: [DONE]'']\<rparr>" let ?q = "demo_request ModeStrict"
  obtain s' a where c: "handleStreaming ?env (handleStreamingDirect ?env ''openai'') ?q ''k'' ''gpt-4o'' demo_router (NewServer demo_config) = (s', a)" by fastforce
  have mode: "request_mode ?q = ModeStrict" by (simp add: mode_defs)
  have st: "pe_stream ?env (stream_task ?env [(''user'', ''hi'')]) demo_router = (Inl ''no provider'', demo_router)" by simp
  have p: "resolveProvider (pe_order ?env) (px_cfg (NewServer demo_config)) ''gpt-4o'' (rq_Header ?q ''X-LLM-Key'') (rq_Header ?q ''X-LLM-Provider'') =
      Some (provider_at ''openai'' ''https://api.openai.com'' ''o'')"
    by (simp add: resolveProvider_def RouteRequest_def NewServer_def demo_defs starts_with_def)
  have v: "validateTargetURL ?env u" for u by (simp add: validateTargetURL_def demo_defs forbidden_ip_def)
  have f: "pe_forward ?env cr u b = Inr [''data: x'', ''data: [DONE]'']" for cr u b by simp
  have lines: "passed_lines [''data: x'', ''data: [DONE]''] = [''data: x'']" by code_simp
  have d: "length (forwarded (pe_delta ?env ''openai'') [''data: x'', ''data: [DONE]'']) \<le> maxStreamContent"
    unfolding forwarded_def lines by (simp add: line_data_def demo_defs maxStreamContent_def strings_TrimSpace_def)
  have h: "rq_Header ?q ''X-LLM-Model'' = []" by (simp add: demo_defs)
  have b: "pe_messages ?env (rq_Body ?q) = Some [(''user'', ''hi'')]" "pe_flusher ?env" "pe_decode ?env (rq_Body ?q) = Some (''gpt-4o'', True)" by simp_all
  show ?thesis
    using fallback_streams_unscanned [OF b(1) st b(2) h b(3) p v f d c] c mode unfolding lines by auto
qed

subsection \<open>Access and quotas\<close>

text \<open>
  C7. After any sequence of requests to a new gateway, a request that presents no key of the configuration and is not one for
  \<^verbatim>\<open>/health\<close> or \<^verbatim>\<open>/metrics\<close> (which need no key) is answered 401 or 429 with an error text and changes nothing but
  the counters of requests and clients; without configured keys no key is accepted at all.
\<close>

theorem gateway_fails_closed:
  assumes "rq_Path q \<notin> {''/health'', ''/metrics''}" "presented_key q \<notin> set (resolveAllowedKeys cfg)"
    and "serve env ee latency q (serve_all reqs (NewServer cfg)) = (s', a)"
  shows "pa_Status a \<in> {401, 429} \<and> (\<exists>e. pa_Body a = ErrorBody e) \<and> same_service (serve_all reqs (NewServer cfg)) s'"
proof -
  have "px_allowedKeys (serve_all reqs (NewServer cfg)) = resolveAllowedKeys cfg" by (simp add: serve_all_keys NewServer_def)
  then show ?thesis using unauthorized_lemma [OF assms(1) _ assms(3)] assms(2) by simp
qed

definition demo_endpoint :: endpoint_env where
  "demo_endpoint = \<lparr>ee_scan_id = [], ee_verify = None, ee_attest = None, ee_analyze = None, ee_catalog = http_Error [] [] 404\<rparr>"

lemma gateway_fails_closed_witness:
  "pa_Status (snd (serve (demo False [demo_text]) demo_endpoint 0 (demo_request ModeStrict) (serve_all [] (NewServer demo_config)))) \<in> {401, 429}"
proof -
  obtain s' a where c: "serve (demo False [demo_text]) demo_endpoint 0 (demo_request ModeStrict) (serve_all [] (NewServer demo_config)) = (s', a)" by fastforce
  have "presented_key (demo_request ModeStrict) \<notin> set (resolveAllowedKeys demo_config)" "rq_Path (demo_request ModeStrict) \<notin> {''/health'', ''/metrics''}"
    by (simp_all add: presented_key_def resolveAllowedKeys_def demo_defs)
  from gateway_fails_closed [OF this(2,1) c] c show ?thesis by simp
qed

text \<open>
  C20. The quota of a key counts its complete answers only: each request that is answered in one piece adds one, failed calls of
  the model included, while no number of streaming requests to the three completion surfaces changes the count, so a client
  that only streams is never refused for its quota.
\<close>

theorem quota_counts_complete_answers:
  assumes "key \<noteq> []" "buildTask env (rq_Body q) model = Some task"
    and "\<And>env ee q. (env, ee, q) \<in> set streams \<Longrightarrow> stream_request env q"
  shows "usageCount key (fst (complete_request env q key model r s)) = inc64 (usageCount key s) \<and>
    usageCount key (fold (\<lambda>(env, ee, q) s. fst (routes env ee key q s)) streams s) = usageCount key s"
  by (intro conjI complete_counts [OF assms(1,2)] streaming_usage_all) (rule assms(3))

definition demo_streams :: "(unit proxy_env \<times> endpoint_env \<times> Request) list" where
  "demo_streams = map (\<lambda>p. (demo True [demo_text], demo_endpoint, (demo_request ModeStrict)\<lparr>rq_Method := ''POST'', rq_Path := p\<rparr>))
     [''/v1/chat/completions'', ''/v1/messages'', ''/v1/responses'']"

lemma quota_counts_complete_answers_witness:
  "usageCount ''k'' (fst (complete_request (demo False [demo_text]) (demo_request ModeStrict) ''k'' ''gpt-4o'' demo_router (NewServer demo_config))) = 1 \<and>
   length demo_streams = 3 \<and>
   usageCount ''k'' (fold (\<lambda>(env, ee, q) s. fst (routes env ee ''k'' q s)) demo_streams (NewServer demo_config)) = 0"
proof -
  have st: "stream_request env q" if "(env, ee, q) \<in> set demo_streams" for env ee q
    using that by (auto simp: demo_streams_def stream_request_def)
  have zero: "usageCount ''k'' (NewServer demo_config) = 0" by (simp add: usageCount_def NewServer_def)
  have key: "''k'' \<noteq> []" by simp
  show ?thesis
    using quota_counts_complete_answers [OF key demo_simps(2), of demo_streams False "[demo_text]" "demo_request ModeStrict" "''gpt-4o''" demo_router "NewServer demo_config"] st
    unfolding zero by (simp add: inc64_def demo_streams_def)
qed

subsection \<open>Records and signatures\<close>

text \<open>
  C23. Every analysed complete answer, released or refused, carries a signed record that verifies with the gateway's secret and
  names the decision, the mode and the digest of the text of the model (not of the text that the client gets, which
  may be redacted and has the summary appended).
\<close>

theorem answers_carry_records:
  assumes "buildTask env (rq_Body q) model = Some task0" "pe_chat env (fst (applyDesignGate task0)) router = (Inr resp, r1)"
    and "complete_request env q key model router s = (s', a)" "px_provenanceSecret s \<noteq> []" "request_mode q \<noteq> ModePassthrough"
    and "analysis_of env (rsp_Content resp) r1 = ((Some o1, fs, smy, d), r2)"
  shows "\<exists>rec sig. answer_record (pa_Body a) = Some (rec, sig) \<and> VerifyProvenance (pe_lib env) (px_provenanceSecret s) rec sig = None \<and>
    pr_Decision rec = ComputePolicy o1 (request_mode q) \<and> pr_Mode rec = request_mode q \<and> pr_ResponseHash rec = HashContent (pe_lib env) (rsp_Content resp)"
  by (rule complete_recorded [OF assms])

lemma demo_secret: "px_provenanceSecret (NewServer demo_config) = ''k''"
  by (simp add: NewServer_def resolveProvenanceSecret_def demo_config_def)

lemma answers_carry_records_witness:
  "\<exists>rec sig. answer_record (pa_Body (snd (complete_request (demo False [demo_text]) (demo_request ModeBalanced) ''k'' ''gpt-4o'' demo_router (NewServer demo_config)))) =
     Some (rec, sig) \<and> pr_ResponseHash rec = demo_text \<and> pr_Decision rec = PolicyHoldForReview"
proof -
  let ?env = "demo False [demo_text]" let ?q = "demo_request ModeBalanced"
  obtain s' a where c: "complete_request ?env ?q ''k'' ''gpt-4o'' demo_router (NewServer demo_config) = (s', a)" by fastforce
  obtain o1 fs smy d r1 where an: "analysis_of ?env (rsp_Content (demo_response demo_text)) demo_router = ((Some o1, fs, smy, d), r1)" "ao_Verdict o1 = ''block''"
    using demo_verdict [of False "[demo_text]" demo_router] by auto
  have chat: "pe_chat ?env t demo_router = (Inr (demo_response demo_text), demo_router)" for t by simp
  have mode: "request_mode ?q = ModeBalanced" by (simp add: mode_defs)
  have sec: "px_provenanceSecret (NewServer demo_config) \<noteq> []" by (simp add: demo_secret)
  have np: "request_mode ?q \<noteq> ModePassthrough" unfolding mode by simp
  have hash: "HashContent (pe_lib ?env) t = t" for t by (simp add: HashContent_def demo_def)
  show ?thesis
    using answers_carry_records [OF demo_simps(2) chat c sec np an(1)] c an(2) unfolding mode hash by (auto simp: ComputePolicy_def)
qed

text \<open>
  The attestation endpoint signs whatever it is given: for any decision and any digest, without a text and without a scan,
  the gateway stores and returns a record marked \<^verbatim>\<open>verified\<close> whose signature verifies.
\<close>

theorem attestation_signs_anything:
  assumes "decision \<noteq> []" "hash \<noteq> []" "px_provenanceSecret s \<noteq> []"
  shows "\<exists>s' rec sig. handleProvenanceAttest env (Some (provider, model, decision, hash, ct, cv)) s = (s', RecordAnswer rec sig) \<and>
    VerifyProvenance (pe_lib env) (px_provenanceSecret s) rec sig = None \<and>
    pr_Decision rec = decision \<and> pr_ResponseHash rec = hash \<and> pr_ProvenanceStatus rec = ProvenanceVerified"
  by (rule attest_lemma [OF assms])

lemma attestation_signs_anything_witness:
  "\<exists>s' rec sig. handleProvenanceAttest (demo False []) (Some ([], [], ''allow'', ''x'', [], [])) (NewServer demo_config) = (s', RecordAnswer rec sig) \<and>
     pr_Decision rec = ''allow''"
  using attestation_signs_anything [of "''allow''" "''x''" "NewServer demo_config" "demo False []" "[]" "[]" "[]" "[]"] by (auto simp: demo_secret)

text \<open>
  C31. A record stays retrievable until as many others were stored as the store has room for: after any shorter sequence of records with
  other identifiers, the lookup of its identifier returns the record with its signature.
\<close>

theorem records_retained:
  assumes "store_ok p" "gget (ps_records p) (pr_ScanID rec) = None" "length later < ps_cap p"
    and "\<And>r s. (r, s) \<in> set later \<Longrightarrow> pr_ScanID r \<noteq> pr_ScanID rec"
  shows "provenance_get (pr_ScanID rec) (fold (\<lambda>(r, s). provenance_put r s) later (provenance_put rec sig p)) = Some (rec, sig)"
  by (rule record_retained [OF assms])

definition demo_record :: "string \<Rightarrow> ProvenanceRecord" where
  "demo_record i =
     \<lparr>pr_ScanID = i, pr_RequestID = [], pr_Provider = [], pr_Model = [], pr_TenantID = [], pr_UserID = [], pr_ProjectID = [], pr_ClientType = [],
      pr_ClientVersion = [], pr_PolicyVersion = [], pr_ScannerVersion = [], pr_ProvenanceStatus = [], pr_ResponseHash = [], pr_Decision = [],
      pr_Mode = [], pr_Timestamp = 0\<rparr>"

lemma records_retained_witness:
  "provenance_get ''a'' (provenance_put (demo_record ''b'') ''t'' (provenance_put (demo_record ''a'') ''s'' (newProvenanceStore 2))) =
     Some (demo_record ''a'', ''s'')"
  using records_retained [OF store_ok_new [of 2], of "demo_record ''a''" "[(demo_record ''b'', ''t'')]" "''s''"]
  by (simp add: newProvenanceStore_def demo_record_def)

text \<open>
  C21. A request that was signed is accepted by a verifier with the same secret as long as the two clocks, in seconds, differ by at most
  the allowed skew.
\<close>

theorem signed_requests_verify:
  assumes "wf_gomap (sq_Header r)" "in_int64 unix" "in_int64 (now - unix)" "in_int64 (unix - now)" "\<bar>now - unix\<bar> \<le> seconds_of (sn_clockSkew s)"
    and "\<And>x. sl_HMAC lib (sn_secret s) x \<noteq> []"
  shows "VerifyRequest lib now s (SignRequest lib unix s r) = None"
  by (rule signed_verifies [OF assms])

lemma signed_requests_verify_witness:
  "VerifyRequest (pe_lib (demo False [])) 300 (NewSigner ''s'')
     (SignRequest (pe_lib (demo False [])) 0 (NewSigner ''s'') \<lparr>sq_Method = ''POST'', sq_Path = ''/p'', sq_RawQuery = [], sq_Header = [], sq_Body = ''b''\<rparr>) = None"
proof (rule signed_requests_verify)
  have "sn_clockSkew (NewSigner ''s'') = 300 * Second" by (simp add: NewSigner_def Minute_def)
  then show "\<bar>300 - 0\<bar> \<le> seconds_of (sn_clockSkew (NewSigner ''s''))" using seconds_of_whole [of 300] by simp
qed (simp_all add: wf_gomap_def gkeys_def in_int64_def demo_def)

text \<open>
  C22. A signature binds the request: two requests of one line each with the same signed text agree in method (up to case), path, query,
  time, body and in the first value, without surrounding spaces, of every \<^verbatim>\<open>x-\<close> header, unless two different bodies have the
  same digest.
\<close>

theorem signature_binds_request:
  fixes r r' :: signed_request
  assumes "buildCanonical lib t r = buildCanonical lib t' r'" "one_line_request r" "one_line_request r'"
    and "sl_SHA256 lib (sq_Body r) = sl_SHA256 lib (sq_Body r') \<Longrightarrow> sq_Body r = sq_Body r'" and "\<And>x. sl_SHA256 lib x \<noteq> ''empty'' \<and> CHR 0x0A \<notin> set (sl_SHA256 lib x)"
    and "0 \<le> t" "0 \<le> t'"
  shows "strings_ToUpper (sq_Method r) = strings_ToUpper (sq_Method r') \<and> sq_Path r = sq_Path r' \<and> sq_RawQuery r = sq_RawQuery r' \<and>
    t = t' \<and> sq_Body r = sq_Body r' \<and> signed_values r = signed_values r'"
  by (rule canonical_binds [OF assms])

text \<open>
  Two different requests with the same signed text: the method in lower case, a header value with a space behind it, and a header that is not
  signed.
\<close>

definition loose_request :: signed_request where
  "loose_request = \<lparr>sq_Method = ''post'', sq_Path = ''/p'', sq_RawQuery = ''q=1'', sq_Header = [(''x-user'', [''u '']), (''accept'', [''a''])], sq_Body = ''b''\<rparr>"

definition tight_request :: signed_request where
  "tight_request = \<lparr>sq_Method = ''POST'', sq_Path = ''/p'', sq_RawQuery = ''q=1'', sq_Header = [(''x-user'', [''u''])], sq_Body = ''b''\<rparr>"

lemma signature_binds_request_witness:
  "loose_request \<noteq> tight_request \<and> sq_Header loose_request \<noteq> sq_Header tight_request \<and>
   signed_values loose_request = signed_values tight_request \<and> signed_values loose_request \<noteq> []"
proof -
  let ?lib = "\<lparr>sl_HMAC = \<lambda>k x. ''mac'', sl_SHA256 = \<lambda>x. ''d'', sl_Marshal = \<lambda>fs. [], sl_RFC3339Nano = \<lambda>t. []\<rparr>"
  have same: "buildCanonical ?lib 1 loose_request = buildCanonical ?lib 1 tight_request" by code_simp
  have one: "one_line_request loose_request" "one_line_request tight_request" by code_simp+
  have "signed_values loose_request \<noteq> []" by code_simp
  moreover have "signed_values loose_request = signed_values tight_request"
    using signature_binds_request [OF same one] by (simp add: loose_request_def tight_request_def)
  ultimately show ?thesis by (simp add: loose_request_def tight_request_def)
qed

end
