(* ===== verification/Builtin_Rules.thy ===== *)
theory Builtin_Rules
  imports Scanner Go_Regexp
begin

text \<open>
  The rule table of the built-in analyzer (\<open>builtinRules\<close> in \<open>scanner/builtin.go\<close>) and the
  cross-line checks of its rules. Each expression is written with the constructors of Go\_Regexp, part by part as in
  the source; \<open>ci\<close> is a literal under the flag \<open>i\<close>. The first part proves what the analyzer reports on such a
  table, the last ones what two of its rules catch and what escapes them.
\<close>

subsection \<open>Parts of expressions\<close>

definition in_range :: "char \<Rightarrow> char \<Rightarrow> char \<Rightarrow> bool" where
  "in_range a b c \<longleftrightarrow> a \<le> c \<and> c \<le> b"

definition dquote :: re where
  "dquote = Cls (\<lambda>c. c = CHR 0x22)"

subsection \<open>Cross-line checks\<close>

text \<open>\<open>i\<close> is the index of the matched line; the windows are slices of the lines around it.\<close>

definition secret_comparison :: "string list \<Rightarrow> nat \<Rightarrow> bool" where
  "secret_comparison lines i \<longleftrightarrow> strings_Contains (lines ! i) ''=='' \<or> strings_Contains (lines ! i) ''!=''"

definition peer_verified_nearby :: "string list \<Rightarrow> nat \<Rightarrow> bool" where
  "peer_verified_nearby lines i \<longleftrightarrow>
     list_ex (\<lambda>l. strings_Contains l ''VerifyPeerCertificate'') (drop (i - 5) (take (i + 6) lines))"

definition rows_released :: "string list \<Rightarrow> nat \<Rightarrow> bool" where
  "rows_released lines i \<longleftrightarrow>
     strings_Contains (lines ! i) ''URL.Query('' \<or>
     list_ex (\<lambda>l. strings_Contains l ''.Close('' \<or> strings_Contains l ''return rows'') (drop (i + 1) (take (i + 41) lines))"

text \<open>
  \<open>mutexLockRe\<close>, cut at its group, and the expression built from what the group matched. That is a
  sequence of word characters, so quoting its metacharacters leaves it as it is.
\<close>

definition mutexLockRe :: "re list" where
  "mutexLockRe = [many1 (Cls word_char), seqs [lit ''.Lock()'', spaces, EndText]]"

definition locked_name :: "string \<Rightarrow> string option" where
  "locked_name line =
     (case all_matches mutexLockRe None line of
        (s, t # ts) # ms \<Rightarrow> Some (text_between s t)
      | _ \<Rightarrow> None)"

definition unlockRe :: "string \<Rightarrow> re" where
  "unlockRe varName =
     seqs [optional (seqs [lit ''defer'', many1 (Cls space_class)]),
       Star (seqs [Cls (\<lambda>c. in_range CHR ''A'' CHR ''Z'' c \<or> in_range CHR ''a'' CHR ''z'' c \<or> c = CHR ''_''),
         Star (Cls word_char), lit ''.'']),
       lit varName, lit ''.Unlock()'']"

definition mutex_released :: "string list \<Rightarrow> nat \<Rightarrow> bool" where
  "mutex_released lines i \<longleftrightarrow>
     (case locked_name (lines ! i) of
        None \<Rightarrow> False
      | Some varName \<Rightarrow> list_ex (MatchString (unlockRe varName)) (drop (i + 1) (take (i + 41) lines)))"

definition comment_line :: "string list \<Rightarrow> nat \<Rightarrow> bool" where
  "comment_line lines i \<longleftrightarrow>
     (let trimmed = strings_TrimSpace (lines ! i)
      in strings_HasPrefix trimmed ''//'' \<or> strings_HasPrefix trimmed ''/*'' \<or>
         strings_HasPrefix trimmed ''*'' \<or> strings_HasPrefix trimmed ''#'')"

subsection \<open>Injection\<close>

definition rule_sql_injection :: builtinRule where
  "rule_sql_injection =
     \<lparr>br_name = ''sql_injection'',
      br_description = ''Potential SQL injection via string concatenation or fmt.Sprintf in query'',
      br_severity = SeverityCritical,
      br_pattern = MatchString (seqs [alts [ci ''fmt.Sprintf'', seqs [optional dquote, spaces, lit ''+'', spaces],
        lit ''${''], Star dot_char, alts [seqs [WordB, ci ''SELECT'', WordB], seqs [WordB, ci ''INSERT'', WordB],
        seqs [WordB, ci ''UPDATE'', WordB], seqs [WordB, ci ''DELETE'', WordB], seqs [WordB, ci ''DROP'', WordB],
        seqs [WordB, ci ''EXEC'', WordB], seqs [WordB, ci ''EXECUTE'', WordB]]]),
      br_fix = ''Use parameterized queries ($1, $2) instead of string interpolation'',
      br_category = ''injection'', br_excludeFilenames = [''skills/scanner.go''], br_requireContext = [],
        br_suppressCheck = None\<rparr>"

definition rule_sql_injection_raw_query :: builtinRule where
  "rule_sql_injection_raw_query =
     \<lparr>br_name = ''sql_injection_raw_query'',
      br_description = ''Raw SQL query with variable interpolation'',
      br_severity = SeverityCritical,
      br_pattern = MatchString (seqs [alts [ci ''db.Exec'', ci ''db.Query'', ci ''db.QueryRow'', ci ''.ExecContext'',
        ci ''.QueryContext''], spaces, lit ''('', spaces, ci ''fmt.Sprintf'']),
      br_fix = ''Pass parameters as separate arguments to Exec/Query instead of formatting the query string'',
      br_category = ''injection'', br_excludeFilenames = [], br_requireContext = [], br_suppressCheck = None\<rparr>"

definition rule_sql_injection_string_concat :: builtinRule where
  "rule_sql_injection_string_concat =
     \<lparr>br_name = ''sql_injection_string_concat'',
      br_description = ''Potential SQL injection via string concatenation after a SQL literal'',
      br_severity = SeverityCritical,
      br_pattern = MatchString (seqs [dquote, Star (none_of [CHR 0x22]), WordB, alts [ci ''SELECT'', ci ''INSERT'',
        ci ''UPDATE'', ci ''DELETE'', ci ''DROP''], WordB, Star (none_of [CHR 0x22]), dquote, spaces, lit ''+'']),
      br_fix = ''Use parameterized queries ($1, $2) instead of concatenating the query string'',
      br_category = ''injection'', br_excludeFilenames = [''builtin.go''], br_requireContext = [],
        br_suppressCheck = None\<rparr>"

definition rule_command_injection :: builtinRule where
  "rule_command_injection =
     \<lparr>br_name = ''command_injection'',
      br_description = ''Potential command injection via unsanitized input in exec.Command'',
      br_severity = SeverityCritical,
      br_pattern = MatchString (seqs [lit ''exec.Command('', Star (none_of '')''), alts [lit ''req.'',
        seqs [lit ''r.'', alts [lit ''Form'', lit ''URL'', lit ''Body'', lit ''Header'']], lit ''params.'',
        lit ''input.'', lit ''fmt.Sprintf'']]),
      br_fix = ''Use allowlists for commands; never pass user input directly to exec.Command arguments'',
      br_category = ''injection'', br_excludeFilenames = [], br_requireContext = [''req.'', ''r.Form'', ''r.URL'',
        ''r.Body'', ''r.Header'', ''params.'', ''input.'', ''fmt.Sprintf''], br_suppressCheck = None\<rparr>"

definition rule_command_injection_shell_concat :: builtinRule where
  "rule_command_injection_shell_concat =
     \<lparr>br_name = ''command_injection_shell_concat'',
      br_description = ''Shell command built via string concatenation in exec.Command '' @ [CHR 0xE2, CHR 0x80,
        CHR 0x94] @ '' command injection risk'',
      br_severity = SeverityCritical,
      br_pattern = MatchString (seqs [lit ''exec.Command'', spaces, lit ''('', Star (none_of '')''),
        alts [seqs [dquote, optional (seqs [Star (none_of [CHR 0x22]), lit ''/'']), alts [ci ''sh'', ci ''bash''],
        dquote, spaces, lit '','', spaces, ci ([CHR 0x22] @ ''-c'' @ [CHR 0x22])], seqs [dquote,
        optional (seqs [Star (none_of [CHR 0x22]), one_of ([CHR 0x5C] @ ''/'')]), ci ''cmd'', optional (ci ''.exe''),
        dquote, spaces, lit '','', spaces, ci ([CHR 0x22] @ ''/c'' @ [CHR 0x22])], seqs [dquote,
        optional (seqs [Star (none_of [CHR 0x22]), one_of ([CHR 0x5C] @ ''/'')]), ci ''powershell'',
        optional (ci ''.exe''), dquote, spaces, lit '','', spaces, ci ([CHR 0x22] @ ''-Command'' @ [CHR 0x22])]],
        Star (none_of '')''), lit ''+'']),
      br_fix = ''Pass command arguments as a string slice (no shell), or validate/allowlist the input; never concatenate into a shell command string'',
      br_category = ''injection'', br_excludeFilenames = [''builtin.go''], br_requireContext = [],
        br_suppressCheck = None\<rparr>"

definition rule_command_injection_shell_variable :: builtinRule where
  "rule_command_injection_shell_variable =
     \<lparr>br_name = ''command_injection_shell_variable'',
      br_description = ''Shell command passed as a variable or expression to exec.Command('' @ [CHR 0x22] @ ''sh'' @
        [CHR 0x22] @ '', '' @ [CHR 0x22] @ ''-c'' @ [CHR 0x22] @ '', ...) / ('' @ [CHR 0x22] @ ''cmd'' @ [CHR 0x22] @
        '', '' @ [CHR 0x22] @ ''/c'' @ [CHR 0x22] @ '', ...) '' @ [CHR 0xE2, CHR 0x80, CHR 0x94] @
        '' command injection risk'',
      br_severity = SeverityCritical,
      br_pattern = MatchString (seqs [lit ''exec.Command'', optional (lit ''Context''), spaces, lit ''('', spaces,
        optional (seqs [lit ''ctx,'', spaces]), alts [seqs [dquote, optional (seqs [Star (none_of [CHR 0x22]),
        lit ''/'']), alts [ci ''sh'', ci ''bash''], dquote, spaces, lit '','', spaces, ci ([CHR 0x22] @ ''-c'' @
        [CHR 0x22])], seqs [dquote, optional (seqs [Star (none_of [CHR 0x22]), one_of ([CHR 0x5C] @ ''/'')]),
        ci ''cmd'', optional (ci ''.exe''), dquote, spaces, lit '','', spaces, ci ([CHR 0x22] @ ''/c'' @ [CHR 0x22])],
        seqs [dquote, optional (seqs [Star (none_of [CHR 0x22]), one_of ([CHR 0x5C] @ ''/'')]), ci ''powershell'',
        optional (ci ''.exe''), dquote, spaces, lit '','', spaces, ci ([CHR 0x22] @ ''-Command'' @ [CHR 0x22])]],
        spaces, lit '','', spaces, Cls (\<lambda>c. c \<noteq> (CHR 0x22) \<and> \<not> space_class c)]),
      br_fix = ''Pass command arguments as a string slice (no shell), or validate the command string against a strict allowlist before execution'',
      br_category = ''injection'', br_excludeFilenames = [''builtin.go''], br_requireContext = [],
        br_suppressCheck = None\<rparr>"

definition rule_xss_unsafe_html :: builtinRule where
  "rule_xss_unsafe_html =
     \<lparr>br_name = ''xss_unsafe_html'',
      br_description = ''Unsafe HTML rendering that may allow XSS'',
      br_severity = SeverityHigh,
      br_pattern = MatchString (seqs [lit ''template.HTML'', spaces, lit ''('', spaces,
        Cls (in_range CHR ''a'' CHR ''z'')]),
      br_fix = ''Use template escaping or validate/sanitize input before rendering as HTML'',
      br_category = ''xss'', br_excludeFilenames = [], br_requireContext = [], br_suppressCheck = None\<rparr>"

definition rule_xss_unsafe_js :: builtinRule where
  "rule_xss_unsafe_js =
     \<lparr>br_name = ''xss_unsafe_js'',
      br_description = ''Potential XSS via JavaScript innerHTML/outerHTML with user input'',
      br_severity = SeverityMedium,
      br_pattern = MatchString (seqs [alts [ci ''innerHTML'', ci ''outerHTML'', ci ''document.write''], spaces,
        lit ''='', spaces, Star (none_of '';''), lit ''+'']),
      br_fix = ''Use textContent instead of innerHTML, or sanitize input before insertion'',
      br_category = ''xss'', br_excludeFilenames = [], br_requireContext = [], br_suppressCheck = None\<rparr>"

definition rule_xss_http_redirect :: builtinRule where
  "rule_xss_http_redirect =
     \<lparr>br_name = ''xss_http_redirect'',
      br_description = ''Open redirect vulnerability '' @ [CHR 0xE2, CHR 0x80, CHR 0x94] @
        '' user input in redirect URL'',
      br_severity = SeverityHigh,
      br_pattern = MatchString (seqs [lit ''http.Redirect('', many1 (none_of '',''), lit '','', spaces,
        many1 (none_of '',''), lit '','', spaces, Star (none_of '',''), lit ''r.URL'']),
      br_fix = ''Validate redirect URLs against an allowlist before redirecting'',
      br_category = ''xss'', br_excludeFilenames = [], br_requireContext = [''r.URL''], br_suppressCheck = None\<rparr>"

definition rule_template_injection :: builtinRule where
  "rule_template_injection =
     \<lparr>br_name = ''template_injection'',
      br_description = ''Potential template injection '' @ [CHR 0xE2, CHR 0x80, CHR 0x94] @
        '' user input in template parsing'',
      br_severity = SeverityHigh,
      br_pattern = MatchString (seqs [lit ''template.'', alts [lit ''New'', lit ''Must''], lit ''('',
        Star (none_of '')''), alts [lit ''req.'', lit ''r.'', lit ''input.'']]),
      br_fix = ''Never pass user input directly to template constructors; use predefined templates'',
      br_category = ''injection'', br_excludeFilenames = [], br_requireContext = [''req.'', ''r.'', ''input.''],
        br_suppressCheck = None\<rparr>"

definition rule_log_injection :: builtinRule where
  "rule_log_injection =
     \<lparr>br_name = ''log_injection'',
      br_description = ''Potential log injection via unsanitized user input'',
      br_severity = SeverityMedium,
      br_pattern = MatchString (seqs [alts [lit ''log.'', lit ''slog.'', lit ''fmt.Print'', lit ''fmt.Fprint''],
        Star (Cls word_char), lit ''('', Star (none_of '')''), alts [lit ''req.'', lit ''input.'', lit ''user.'']]),
      br_fix = ''Sanitize user input before logging; use structured logging with key-value pairs'',
      br_category = ''injection'', br_excludeFilenames = [], br_requireContext = [''req.'', ''input.'', ''user.''],
        br_suppressCheck = None\<rparr>"

subsection \<open>Python\<close>

definition rule_python_command_injection :: builtinRule where
  "rule_python_command_injection =
     \<lparr>br_name = ''python_command_injection'',
      br_description = ''Potential command injection via unsanitized input in os.system/os.popen/subprocess'',
      br_severity = SeverityCritical,
      br_pattern = MatchString (alts [seqs [ci ''os.system'', spaces, lit ''(''], seqs [ci ''os.popen'', spaces,
        lit ''(''], seqs [ci ''commands.getoutput'', spaces, lit ''(''], seqs [ci ''subprocess.'', alts [ci ''Popen'',
        ci ''run'', ci ''call'', ci ''check_call'', ci ''check_output''], spaces, lit ''('', Star (none_of '')''),
        ci ''shell'', spaces, lit ''='', spaces, ci ''True'']]),
      br_fix = ''Never pass user input to a shell; use subprocess with a string list and shell=False, and validate arguments against an allowlist'',
      br_category = ''injection'', br_excludeFilenames = [], br_requireContext = [''request.args'', ''request.form'',
        ''request.json'', ''request.get_json'', ''input('', ''sys.argv'', ''os.environ'', ''getenv(''],
        br_suppressCheck = None\<rparr>"

definition rule_python_eval_exec :: builtinRule where
  "rule_python_eval_exec =
     \<lparr>br_name = ''python_eval_exec'',
      br_description = ''eval()/exec() with user-controllable input allows arbitrary code execution'',
      br_severity = SeverityCritical,
      br_pattern = MatchString (seqs [WordB, alts [ci ''eval'', ci ''exec''], spaces, lit ''('']),
      br_fix = ''Avoid eval/exec entirely; use ast.literal_eval for safe literal parsing or a dedicated parser'',
      br_category = ''injection'', br_excludeFilenames = [], br_requireContext = [''request.args'', ''request.form'',
        ''request.json'', ''input('', ''sys.argv'', ''os.environ'', ''getenv(''], br_suppressCheck = None\<rparr>"

definition rule_python_pickle_load :: builtinRule where
  "rule_python_pickle_load =
     \<lparr>br_name = ''python_pickle_load'',
      br_description = ''Unpickling untrusted data can execute arbitrary code (CWE-502)'',
      br_severity = SeverityHigh,
      br_pattern = MatchString (seqs [WordB, alts [ci ''pickle.loads'', ci ''pickle.load'', ci ''cPickle.loads'',
        ci ''cPickle.load''], spaces, lit ''('']),
      br_fix = ''Never unpickle untrusted data; use JSON or a safe serialization format'',
      br_category = ''deserialization'', br_excludeFilenames = [], br_requireContext = [], br_suppressCheck = None\<rparr>"

definition rule_python_unsafe_yaml :: builtinRule where
  "rule_python_unsafe_yaml =
     \<lparr>br_name = ''python_unsafe_yaml'',
      br_description = ''yaml.load without a safe Loader can execute arbitrary code'',
      br_severity = SeverityHigh,
      br_pattern = MatchString (seqs [ci ''yaml.load'', spaces, lit ''('']),
      br_fix = ''Use yaml.safe_load or yaml.load with Loader=yaml.SafeLoader'',
      br_category = ''deserialization'', br_excludeFilenames = [], br_requireContext = [], br_suppressCheck = None\<rparr>"

definition rule_python_sql_injection_fstring :: builtinRule where
  "rule_python_sql_injection_fstring =
     \<lparr>br_name = ''python_sql_injection_fstring'',
      br_description = ''Potential SQL injection via f-string interpolation in a query'',
      br_severity = SeverityCritical,
      br_pattern = MatchString (seqs [alts [ci ''cursor.execute'', ci ''cursor.executemany'', ci ''.execute_query''],
        spaces, lit ''('', spaces, ci ''f'', one_of [CHR 0x22, CHR 0x27], Star (none_of [CHR 0x22, CHR 0x27]),
        lit ''{'']),
      br_fix = ''Use parameterized queries (?, %s placeholders with a params tuple) instead of f-string interpolation'',
      br_category = ''injection'', br_excludeFilenames = [], br_requireContext = [], br_suppressCheck = None\<rparr>"

definition rule_python_sql_injection_format :: builtinRule where
  "rule_python_sql_injection_format =
     \<lparr>br_name = ''python_sql_injection_format'',
      br_description = ''Potential SQL injection via %-formatting into a query'',
      br_severity = SeverityCritical,
      br_pattern = MatchString (seqs [alts [ci ''cursor.execute'', ci ''cursor.executemany'', ci ''.execute_query''],
        spaces, lit ''('', spaces, optional (ci ''r''), one_of [CHR 0x22, CHR 0x27], Star (none_of [CHR 0x22,
        CHR 0x27]), lit ''%'', one_of ''sdSD'', one_of [CHR 0x22, CHR 0x27], spaces, lit ''%'']),
      br_fix = ''Use parameterized queries with a params tuple instead of %-formatting the query string'',
      br_category = ''injection'', br_excludeFilenames = [], br_requireContext = [], br_suppressCheck = None\<rparr>"

definition rule_python_ssrf :: builtinRule where
  "rule_python_ssrf =
     \<lparr>br_name = ''python_ssrf'',
      br_description = ''Potential SSRF '' @ [CHR 0xE2, CHR 0x80, CHR 0x94] @
        '' user-controlled URL passed to an HTTP client'',
      br_severity = SeverityHigh,
      br_pattern = MatchString (seqs [WordB, alts [seqs [ci ''requests.'', alts [ci ''get'', ci ''post'', ci ''put'',
        ci ''delete'', ci ''head'', ci ''patch'']], seqs [ci ''urllib.'', alts [ci ''request.urlopen'',
        ci ''urlopen'']], seqs [ci ''httpx.'', alts [ci ''get'', ci ''post'', ci ''put'', ci ''delete'']],
        ci ''aiohttp.ClientSession''], spaces, lit ''('']),
      br_fix = ''Validate URLs against an allowlist; block private/internal IP ranges before making the request'',
      br_category = ''ssrf'', br_excludeFilenames = [], br_requireContext = [''request.args'', ''request.form'',
        ''request.json'', ''input('', ''sys.argv'', ''getenv(''], br_suppressCheck = None\<rparr>"

definition rule_python_path_traversal :: builtinRule where
  "rule_python_path_traversal =
     \<lparr>br_name = ''python_path_traversal'',
      br_description = ''Potential path traversal via user-controlled filename in file operations'',
      br_severity = SeverityHigh,
      br_pattern = MatchString (seqs [WordB, alts [seqs [lit ''open'', spaces, lit ''(''], seqs [lit ''os.open'',
        spaces, lit ''(''], seqs [lit ''os.remove'', spaces, lit ''(''], seqs [lit ''os.rename'', spaces, lit ''(''],
        seqs [lit ''shutil.'', alts [lit ''copy'', lit ''move'', lit ''rmtree''], spaces, lit ''(''],
        seqs [lit ''send_file'', spaces, lit ''(''], seqs [lit ''send_from_directory'', spaces, lit ''('']]]),
      br_fix = ''Validate the resolved path stays within an allowed base directory using os.path.realpath'',
      br_category = ''path_traversal'', br_excludeFilenames = [], br_requireContext = [''request.args'',
        ''request.form'', ''request.files'', ''filename'', ''input('', ''sys.argv''], br_suppressCheck = None\<rparr>"

subsection \<open>Secrets\<close>

definition rule_hardcoded_password :: builtinRule where
  "rule_hardcoded_password =
     \<lparr>br_name = ''hardcoded_password'',
      br_description = ''Hardcoded password or secret in source code'',
      br_severity = SeverityCritical,
      br_pattern = MatchString (seqs [alts [ci ''password'', ci ''passwd'', ci ''secret'', ci ''api_key'',
        ci ''apikey'', seqs [ci ''api'', optional (one_of ''-_''), ci ''secret''], seqs [ci ''private'',
        optional (one_of ''-_''), ci ''key'']], spaces, many1 (one_of '':=''), spaces, dquote,
        at_least 8 (none_of [CHR 0x22]), dquote]),
      br_fix = ''Use environment variables or a secrets manager (e.g., HashiCorp Vault)'',
      br_category = ''secrets'', br_excludeFilenames = [''example'', ''sample'', ''mock_'', ''stub_'', ''fuzz''],
        br_requireContext = [], br_suppressCheck = Some secret_comparison\<rparr>"

definition rule_hardcoded_connection_string :: builtinRule where
  "rule_hardcoded_connection_string =
     \<lparr>br_name = ''hardcoded_connection_string'',
      br_description = ''Hardcoded database connection string with embedded credentials'',
      br_severity = SeverityCritical,
      br_pattern = MatchString (seqs [alts [ci ''postgres'', ci ''mysql'', ci ''mongodb'', ci ''redis''], lit ''://'',
        many1 (none_of '':''), lit '':'', many1 (none_of ''@''), lit ''@'']),
      br_fix = ''Load connection strings from environment variables or config files excluded from version control'',
      br_category = ''secrets'', br_excludeFilenames = [], br_requireContext = [], br_suppressCheck = None\<rparr>"

definition rule_aws_access_key :: builtinRule where
  "rule_aws_access_key =
     \<lparr>br_name = ''aws_access_key'',
      br_description = ''Potential AWS access key hardcoded in source'',
      br_severity = SeverityCritical,
      br_pattern = MatchString (seqs [dquote, alts [lit ''AKIA'', lit ''AGPA'', lit ''AIDA'', lit ''AROA'',
        lit ''AIPA'', lit ''ANPA'', lit ''ANVA'', lit ''ASIA''],
        rep_n 16 (Cls (\<lambda>c. in_range CHR ''A'' CHR ''Z'' c \<or> in_range CHR ''0'' CHR ''9'' c)), dquote]),
      br_fix = ''Use AWS IAM roles or environment variables; rotate the exposed key immediately'',
      br_category = ''secrets'', br_excludeFilenames = [], br_requireContext = [], br_suppressCheck = None\<rparr>"

definition rule_aws_secret_key :: builtinRule where
  "rule_aws_secret_key =
     \<lparr>br_name = ''aws_secret_key'',
      br_description = ''Potential AWS secret access key hardcoded in source'',
      br_severity = SeverityCritical,
      br_pattern = MatchString (seqs [alts [ci ''aws_secret_access_key'', ci ''aws_secret''], spaces,
        many1 (one_of '':=''), spaces, dquote,
        rep_n 40 (Cls (\<lambda>c. in_range CHR ''A'' CHR ''Z'' c \<or> in_range CHR ''a'' CHR ''z'' c \<or> in_range CHR ''0'' CHR ''9'' c \<or> c = CHR ''/'' \<or> c = CHR ''+'' \<or> c = CHR ''='')),
        dquote]),
      br_fix = ''Use AWS IAM roles or environment variables; rotate the exposed key immediately'',
      br_category = ''secrets'', br_excludeFilenames = [], br_requireContext = [], br_suppressCheck = None\<rparr>"

definition rule_github_token :: builtinRule where
  "rule_github_token =
     \<lparr>br_name = ''github_token'',
      br_description = ''Potential GitHub personal access token hardcoded in source'',
      br_severity = SeverityCritical,
      br_pattern = MatchString (alts [seqs [lit ([CHR 0x22] @ ''ghp_''),
        rep_n 36 (Cls (\<lambda>c. in_range CHR ''A'' CHR ''Z'' c \<or> in_range CHR ''a'' CHR ''z'' c \<or> in_range CHR ''0'' CHR ''9'' c)),
        dquote], seqs [lit ([CHR 0x22] @ ''gho_''),
        rep_n 36 (Cls (\<lambda>c. in_range CHR ''A'' CHR ''Z'' c \<or> in_range CHR ''a'' CHR ''z'' c \<or> in_range CHR ''0'' CHR ''9'' c)),
        dquote], seqs [lit ([CHR 0x22] @ ''github_pat_''),
        rep_n 82 (Cls (\<lambda>c. in_range CHR ''A'' CHR ''Z'' c \<or> in_range CHR ''a'' CHR ''z'' c \<or> in_range CHR ''0'' CHR ''9'' c \<or> c = CHR ''_'')),
        dquote]]),
      br_fix = ''Use GitHub Actions secrets or environment variables; revoke the exposed token immediately'',
      br_category = ''secrets'', br_excludeFilenames = [], br_requireContext = [], br_suppressCheck = None\<rparr>"

definition rule_slack_token :: builtinRule where
  "rule_slack_token =
     \<lparr>br_name = ''slack_token'',
      br_description = ''Potential Slack token hardcoded in source'',
      br_severity = SeverityCritical,
      br_pattern = MatchString (seqs [lit ([CHR 0x22] @ ''xox''), one_of ''bpsa'', lit ''-'',
        many1 (Cls (\<lambda>c. in_range CHR ''A'' CHR ''Z'' c \<or> in_range CHR ''a'' CHR ''z'' c \<or> in_range CHR ''0'' CHR ''9'' c \<or> c = CHR ''-'')),
        dquote]),
      br_fix = ''Use environment variables; revoke the exposed token immediately'',
      br_category = ''secrets'', br_excludeFilenames = [], br_requireContext = [], br_suppressCheck = None\<rparr>"

definition rule_private_key_literal :: builtinRule where
  "rule_private_key_literal =
     \<lparr>br_name = ''private_key_literal'',
      br_description = ''Private key material embedded in source code'',
      br_severity = SeverityCritical,
      br_pattern = MatchString (seqs [lit ''-----BEGIN '', optional (alts [lit ''RSA '', lit ''EC '', lit ''DSA '',
        lit ''OPENSSH '']), lit ''PRIVATE KEY-----'']),
      br_fix = ''Load private keys from encrypted files or a key vault; never embed in source'',
      br_category = ''secrets'', br_excludeFilenames = [], br_requireContext = [], br_suppressCheck = None\<rparr>"

definition rule_gcp_service_account_key :: builtinRule where
  "rule_gcp_service_account_key =
     \<lparr>br_name = ''gcp_service_account_key'',
      br_description = ''GCP service account key embedded in source'',
      br_severity = SeverityCritical,
      br_pattern = MatchString (seqs [lit ([CHR 0x22] @ ''type'' @ [CHR 0x22]), spaces, lit '':'', spaces,
        lit ([CHR 0x22] @ ''service_account'' @ [CHR 0x22])]),
      br_fix = ''Use GCP Workload Identity or environment-based key injection'',
      br_category = ''secrets'', br_excludeFilenames = [], br_requireContext = [], br_suppressCheck = None\<rparr>"

subsection \<open>Cryptography\<close>

definition rule_weak_hash_md5 :: builtinRule where
  "rule_weak_hash_md5 =
     \<lparr>br_name = ''weak_hash_md5'',
      br_description = ''Use of MD5 hashing which is cryptographically broken'',
      br_severity = SeverityHigh,
      br_pattern = MatchString (alts [lit ''crypto/md5'', lit ''md5.New()'', lit ''md5.Sum('']),
      br_fix = ''Use SHA-256 (crypto/sha256) or bcrypt for password hashing'',
      br_category = ''crypto'', br_excludeFilenames = [''builtin.go''], br_requireContext = [],
        br_suppressCheck = None\<rparr>"

definition rule_weak_hash_sha1 :: builtinRule where
  "rule_weak_hash_sha1 =
     \<lparr>br_name = ''weak_hash_sha1'',
      br_description = ''Use of SHA-1 which is vulnerable to collision attacks'',
      br_severity = SeverityMedium,
      br_pattern = MatchString (alts [lit ''crypto/sha1'', lit ''sha1.New()'', lit ''sha1.Sum('']),
      br_fix = ''Use SHA-256 or SHA-3 for new applications'',
      br_category = ''crypto'', br_excludeFilenames = [''builtin.go''], br_requireContext = [],
        br_suppressCheck = None\<rparr>"

definition rule_weak_random :: builtinRule where
  "rule_weak_random =
     \<lparr>br_name = ''weak_random'',
      br_description = ''Use of math/rand instead of crypto/rand for security-sensitive operations'',
      br_severity = SeverityHigh,
      br_pattern = MatchString (alts [lit ([CHR 0x22] @ ''math/rand'' @ [CHR 0x22]), lit ''rand.Intn('',
        lit ''rand.Float'']),
      br_fix = ''Use crypto/rand for tokens, keys, and other security-sensitive random values'',
      br_category = ''crypto'', br_excludeFilenames = [''builtin.go''], br_requireContext = [],
        br_suppressCheck = None\<rparr>"

definition rule_insecure_tls :: builtinRule where
  "rule_insecure_tls =
     \<lparr>br_name = ''insecure_tls'',
      br_description = ''TLS verification disabled '' @ [CHR 0xE2, CHR 0x80, CHR 0x94] @
        '' man-in-the-middle vulnerability'',
      br_severity = SeverityCritical,
      br_pattern = MatchString (seqs [lit ''InsecureSkipVerify'', spaces, lit '':'', spaces, lit ''true'']),
      br_fix = ''Never disable TLS verification in production; configure proper CA certificates'',
      br_category = ''crypto'', br_excludeFilenames = [], br_requireContext = [],
        br_suppressCheck = Some peer_verified_nearby\<rparr>"

definition rule_weak_jwt_secret :: builtinRule where
  "rule_weak_jwt_secret =
     \<lparr>br_name = ''weak_jwt_secret'',
      br_description = ''JWT signed with a hardcoded HMAC secret'',
      br_severity = SeverityHigh,
      br_pattern = MatchString (seqs [lit ''.SignedString('', spaces, dquote, spaces,
        at_least 4 (none_of [CHR 0x22])]),
      br_fix = ''Use RSA or ECDSA signing keys loaded from a secure key store, with minimum 256-bit keys'',
      br_category = ''crypto'', br_excludeFilenames = [], br_requireContext = [], br_suppressCheck = None\<rparr>"

definition rule_weak_cipher_des :: builtinRule where
  "rule_weak_cipher_des =
     \<lparr>br_name = ''weak_cipher_des'',
      br_description = ''Use of DES/3DES which are deprecated encryption algorithms'',
      br_severity = SeverityHigh,
      br_pattern = MatchString (alts [lit ''crypto/des'', lit ''des.NewTripleDESCipher'', lit ''des.NewCipher'']),
      br_fix = ''Use AES-256-GCM for symmetric encryption'',
      br_category = ''crypto'', br_excludeFilenames = [''builtin.go''], br_requireContext = [],
        br_suppressCheck = None\<rparr>"

definition rule_insecure_ecb_mode :: builtinRule where
  "rule_insecure_ecb_mode =
     \<lparr>br_name = ''insecure_ecb_mode'',
      br_description = ''ECB mode encryption is insecure '' @ [CHR 0xE2, CHR 0x80, CHR 0x94] @
        '' patterns leak through encryption'',
      br_severity = SeverityHigh,
      br_pattern = MatchString (alts [ci ''cipher.ECB'', ci ''ecb.NewEncrypter'', seqs [ci ''ECB'',
        many1 (Cls space_class), ci ''mode'']]),
      br_fix = ''Use CBC or GCM mode for symmetric encryption'',
      br_category = ''crypto'', br_excludeFilenames = [''builtin.go''], br_requireContext = [],
        br_suppressCheck = None\<rparr>"

definition rule_hardcoded_iv :: builtinRule where
  "rule_hardcoded_iv =
     \<lparr>br_name = ''hardcoded_iv'',
      br_description = ''Hardcoded initialization vector for encryption'',
      br_severity = SeverityHigh,
      br_pattern = MatchString (seqs [alts [ci ''iv'', ci ''nonce'', seqs [ci ''initialization'', dot_char,
        ci ''vector'']], spaces, many1 (one_of '':=''), spaces, ci ''[]byte'', spaces, lit ''{'',
        at_least 4 (none_of ''}''), lit ''}'']),
      br_fix = ''Generate IVs randomly for each encryption operation using crypto/rand'',
      br_category = ''crypto'', br_excludeFilenames = [], br_requireContext = [], br_suppressCheck = None\<rparr>"

subsection \<open>Path traversal\<close>

definition rule_path_traversal :: builtinRule where
  "rule_path_traversal =
     \<lparr>br_name = ''path_traversal'',
      br_description = ''Potential path traversal via unsanitized user input in file operations'',
      br_severity = SeverityHigh,
      br_pattern = MatchString (seqs [alts [lit ''os.Open'', lit ''os.Create'', lit ''os.ReadFile'',
        lit ''os.WriteFile'', lit ''ioutil.ReadFile'', lit ''filepath.Join''], spaces, lit ''('',
        Star (none_of '')''), alts [lit ''req.'', lit ''r.'', lit ''params.'', lit ''input.'']]),
      br_fix = ''Validate and sanitize file paths; use filepath.Clean and verify the path stays within allowed directories'',
      br_category = ''path_traversal'', br_excludeFilenames = [], br_requireContext = [''req.'', ''r.'', ''params.'',
        ''input.''], br_suppressCheck = None\<rparr>"

definition rule_path_traversal_unsanitized :: builtinRule where
  "rule_path_traversal_unsanitized =
     \<lparr>br_name = ''path_traversal_unsanitized'',
      br_description = ''File operation with potentially unsanitized path concatenation'',
      br_severity = SeverityMedium,
      br_pattern = MatchString (seqs [alts [lit ''os.Open'', lit ''os.Create'', lit ''os.ReadFile''], spaces,
        lit ''('', Star (none_of '')''), lit ''+'', spaces, alts [lit ''r.'', lit ''req.'', lit ''input.'']]),
      br_fix = ''Use filepath.Clean() and validate the resolved path stays within allowed directories'',
      br_category = ''path_traversal'', br_excludeFilenames = [], br_requireContext = [''r.'', ''req.'', ''input.''],
        br_suppressCheck = None\<rparr>"

definition rule_symlink_attack :: builtinRule where
  "rule_symlink_attack =
     \<lparr>br_name = ''symlink_attack'',
      br_description = ''Potential symlink following in file operations'',
      br_severity = SeverityMedium,
      br_pattern = MatchString (seqs [alts [ci ''os.ReadFile'', ci ''os.Open'', ci ''ioutil.ReadFile''], spaces,
        lit ''('', Star (none_of '')''), alts [ci ''r.'', ci ''req.'']]),
      br_fix = ''Use os.Lstat to check for symlinks before following them; validate path boundaries'',
      br_category = ''path_traversal'', br_excludeFilenames = [], br_requireContext = [''r.'', ''req.''],
        br_suppressCheck = None\<rparr>"

subsection \<open>Server-side request forgery\<close>

definition rule_ssrf_http_get :: builtinRule where
  "rule_ssrf_http_get =
     \<lparr>br_name = ''ssrf_http_get'',
      br_description = ''Potential SSRF '' @ [CHR 0xE2, CHR 0x80, CHR 0x94] @
        '' user-controlled URL passed to HTTP client'',
      br_severity = SeverityHigh,
      br_pattern = MatchString (seqs [lit ''http.'', alts [lit ''Get'', lit ''Post'', lit ''Head'', lit ''Do''],
        spaces, lit ''('', spaces, alts [lit ''req.'', lit ''r.'']]),
      br_fix = ''Validate URLs against an allowlist; block internal/private IP ranges'',
      br_category = ''ssrf'', br_excludeFilenames = [], br_requireContext = [''req.'', ''r.''],
        br_suppressCheck = None\<rparr>"

definition rule_ssrf_http_client :: builtinRule where
  "rule_ssrf_http_client =
     \<lparr>br_name = ''ssrf_http_client'',
      br_description = ''HTTP client request with user-controlled URL via variable'',
      br_severity = SeverityMedium,
      br_pattern = MatchString (seqs [alts [lit ''Client'', lit ''HttpClient'', lit ''http.Client''], spaces,
        lit ''.'', spaces, alts [lit ''Get'', lit ''Post'', lit ''Do'', lit ''GetWithContext'',
        lit ''PostWithContext''], spaces, lit ''('', spaces, optional (seqs [lit ''ctx,'', spaces]), alts [lit ''r.'',
        lit ''req.'', lit ''input.'', lit ''params.'']]),
      br_fix = ''Validate URLs against an allowlist; use URL parsing to block internal ranges'',
      br_category = ''ssrf'', br_excludeFilenames = [], br_requireContext = [''r.'', ''req.'', ''input.'',
        ''params.''], br_suppressCheck = None\<rparr>"

definition rule_ssrf_url_parse :: builtinRule where
  "rule_ssrf_url_parse =
     \<lparr>br_name = ''ssrf_url_parse'',
      br_description = ''URL parsed from user input without validation'',
      br_severity = SeverityMedium,
      br_pattern = MatchString (seqs [lit ''url.Parse'', spaces, lit ''('', spaces, alts [lit ''r.'', lit ''req.'',
        lit ''input.''], alts [lit ''URL'', lit ''Body'', lit ''Form'', lit ''Query'']]),
      br_fix = ''Validate parsed URL scheme, host, and port against an allowlist'',
      br_category = ''ssrf'', br_excludeFilenames = [], br_requireContext = [''r.'', ''req.'', ''input.''],
        br_suppressCheck = None\<rparr>"

subsection \<open>Deserialization\<close>

definition rule_insecure_json_decode :: builtinRule where
  "rule_insecure_json_decode =
     \<lparr>br_name = ''insecure_json_decode'',
      br_description = ''Decoding JSON from untrusted source without size limits'',
      br_severity = SeverityMedium,
      br_pattern = MatchString (seqs [lit ''json.NewDecoder('', alts [lit ''req.'', lit ''r.''],
        lit ''Body).Decode(&'', many1 (none_of '')''), lit '')'']),
      br_fix = ''Use http.MaxBytesReader to limit request body size before decoding'',
      br_category = ''deserialization'', br_excludeFilenames = [], br_requireContext = [''req.Body'', ''r.Body''],
        br_suppressCheck = None\<rparr>"

definition rule_unsafe_xml_parse :: builtinRule where
  "rule_unsafe_xml_parse =
     \<lparr>br_name = ''unsafe_xml_parse'',
      br_description = ''XML parsing vulnerable to XXE (XML External Entity) attacks'',
      br_severity = SeverityCritical,
      br_pattern = MatchString (alts [lit ''xml.NewDecoder('', lit ''xml.Unmarshal('']),
      br_fix = ''Use xml.Decoder with a strict charset reader; disable external entity processing'',
      br_category = ''deserialization'', br_excludeFilenames = [], br_requireContext = [], br_suppressCheck = None\<rparr>"

definition rule_unsafe_yaml_decode :: builtinRule where
  "rule_unsafe_yaml_decode =
     \<lparr>br_name = ''unsafe_yaml_decode'',
      br_description = ''YAML decoding that may allow code execution via !! tags'',
      br_severity = SeverityHigh,
      br_pattern = MatchString (seqs [lit ''yaml.'', alts [lit ''Unmarshal'', lit ''NewDecoder''], lit ''('']),
      br_fix = ''Use yaml.Unmarshal with a safe decoder that rejects !!python/object and similar tags'',
      br_category = ''deserialization'', br_excludeFilenames = [], br_requireContext = [], br_suppressCheck = None\<rparr>"

definition rule_gorilla_unsafe_mux :: builtinRule where
  "rule_gorilla_unsafe_mux =
     \<lparr>br_name = ''gorilla_unsafe_mux'',
      br_description = ''Gorilla mux route variable used without sanitization'',
      br_severity = SeverityMedium,
      br_pattern = MatchString (seqs [lit ''mux.Vars('', alts [lit ''r'', lit ''req''], lit '')['']),
      br_fix = ''Validate and sanitize route variables before use; apply allowlists'',
      br_category = ''deserialization'', br_excludeFilenames = [], br_requireContext = [], br_suppressCheck = None\<rparr>"

subsection \<open>Information disclosure\<close>

definition rule_error_in_response :: builtinRule where
  "rule_error_in_response =
     \<lparr>br_name = ''error_in_response'',
      br_description = ''Internal error details exposed to HTTP response'',
      br_severity = SeverityMedium,
      br_pattern = MatchString (seqs [lit ''w.Write('', spaces, lit ''['', spaces, optional (lit '']''), spaces,
        lit ''byte('', spaces, lit (''fmt.Sprintf('' @ [CHR 0x22]), Star (none_of [CHR 0x22]), lit ''%'',
        one_of ''vw'']),
      br_fix = ''Log internal errors; return generic error messages to users'',
      br_category = ''info_disclosure'', br_excludeFilenames = [], br_requireContext = [], br_suppressCheck = None\<rparr>"

definition rule_stack_trace_exposure :: builtinRule where
  "rule_stack_trace_exposure =
     \<lparr>br_name = ''stack_trace_exposure'',
      br_description = ''Stack trace or debug information potentially exposed to users'',
      br_severity = SeverityMedium,
      br_pattern = MatchString (seqs [alts [ci ''debug.PrintStack'', ci ''runtime.Stack'', ci ''debug.Stack''],
        lit ''()'']),
      br_fix = ''Only log stack traces server-side; never expose debug information in HTTP responses'',
      br_category = ''info_disclosure'', br_excludeFilenames = [], br_requireContext = [], br_suppressCheck = None\<rparr>"

definition rule_verbose_error_handler :: builtinRule where
  "rule_verbose_error_handler =
     \<lparr>br_name = ''verbose_error_handler'',
      br_description = ''HTTP error handler that exposes internal error details'',
      br_severity = SeverityMedium,
      br_pattern = MatchString (seqs [lit ''http.Error('', many1 (Cls word_char), lit '','', spaces,
        alts [lit ''err.Error'', seqs [lit ''fmt.Sprintf'', Star dot_char, lit ''err'']]]),
      br_fix = ''Return generic error messages to users; log detailed errors server-side'',
      br_category = ''info_disclosure'', br_excludeFilenames = [], br_requireContext = [''err''],
        br_suppressCheck = None\<rparr>"

definition rule_debug_endpoint_exposed :: builtinRule where
  "rule_debug_endpoint_exposed =
     \<lparr>br_name = ''debug_endpoint_exposed'',
      br_description = ''Debug/pprof endpoint potentially exposed in production'',
      br_severity = SeverityMedium,
      br_pattern = MatchString (alts [lit ''net/http/pprof'', lit (''_ '' @ [CHR 0x22] @ ''net/http/pprof'' @
        [CHR 0x22])]),
      br_fix = ''Ensure debug endpoints are behind authentication or only available in development builds'',
      br_category = ''info_disclosure'', br_excludeFilenames = [], br_requireContext = [], br_suppressCheck = None\<rparr>"

subsection \<open>Permissions\<close>

definition rule_insecure_file_perms :: builtinRule where
  "rule_insecure_file_perms =
     \<lparr>br_name = ''insecure_file_perms'',
      br_description = ''File created with overly permissive permissions'',
      br_severity = SeverityLow,
      br_pattern = MatchString (seqs [lit ''os.WriteFile('', Star (none_of '')''), lit ''0'', one_of ''67'',
        one_of ''67'', one_of ''67'']),
      br_fix = ''Use restrictive permissions (0600 for secrets, 0644 for config, 0755 for executables only)'',
      br_category = ''permissions'', br_excludeFilenames = [], br_requireContext = [], br_suppressCheck = None\<rparr>"

definition rule_world_readable_secret :: builtinRule where
  "rule_world_readable_secret =
     \<lparr>br_name = ''world_readable_secret'',
      br_description = ''Secret or key file created with world-readable permissions'',
      br_severity = SeverityHigh,
      br_pattern = MatchString (seqs [alts [ci ''os.WriteFile'', ci ''os.Create''], spaces, lit ''('',
        Star (none_of '')''), alts [ci ''key'', ci ''secret'', ci ''token'', ci ''credential''], Star (none_of '')''),
        lit '','', spaces, lit ''0'', Cls (in_range CHR ''0'' CHR ''7''), one_of ''67'',
        Cls (in_range CHR ''0'' CHR ''7'')]),
      br_fix = ''Use 0600 permissions for all secret files; never use group/world-readable permissions'',
      br_category = ''permissions'', br_excludeFilenames = [], br_requireContext = [''key'', ''secret'', ''token'',
        ''credential''], br_suppressCheck = None\<rparr>"

definition rule_chmod_777 :: builtinRule where
  "rule_chmod_777 =
     \<lparr>br_name = ''chmod_777'',
      br_description = ''chmod 777 grants world-writable permissions'',
      br_severity = SeverityCritical,
      br_pattern = MatchString (seqs [alts [lit ''os.Chmod'', lit ''chmod''], spaces, lit ''('', Star (none_of '')''),
        optional (lit ''0''), lit ''777'']),
      br_fix = ''Never use 777 permissions; use 0755 for directories, 0644 for files'',
      br_category = ''permissions'', br_excludeFilenames = [], br_requireContext = [], br_suppressCheck = None\<rparr>"

subsection \<open>Go anti-patterns\<close>

definition rule_goroutine_without_recovery :: builtinRule where
  "rule_goroutine_without_recovery =
     \<lparr>br_name = ''goroutine_without_recovery'',
      br_description = ''Goroutine launched without defer/recover for panic handling'',
      br_severity = SeverityMedium,
      br_pattern = MatchString (seqs [lit ''go'', many1 (Cls space_class), lit ''func'', spaces, lit ''('', spaces,
        lit '')'', spaces, lit ''{'', Star (none_of ''}''), lit ''}'', spaces, lit ''()'']),
      br_fix = ''Add defer recovery in goroutines to prevent cascading panics'',
      br_category = ''quality'', br_excludeFilenames = [], br_requireContext = [], br_suppressCheck = None\<rparr>"

definition rule_sql_rows_not_closed :: builtinRule where
  "rule_sql_rows_not_closed =
     \<lparr>br_name = ''sql_rows_not_closed'',
      br_description = ''sql.Rows result not closed '' @ [CHR 0xE2, CHR 0x80, CHR 0x94] @
        '' will leak database connections'',
      br_severity = SeverityHigh,
      br_pattern = MatchString (seqs [many1 (Cls word_char), lit ''.Query'', optional (lit ''Context''), spaces,
        lit ''('']),
      br_fix = ''Always defer rows.Close() after a successful Query call'',
      br_category = ''quality'', br_excludeFilenames = [], br_requireContext = [],
        br_suppressCheck = Some rows_released\<rparr>"

definition rule_mutex_not_unlocked :: builtinRule where
  "rule_mutex_not_unlocked =
     \<lparr>br_name = ''mutex_not_unlocked'',
      br_description = ''Mutex Lock() without deferred Unlock() '' @ [CHR 0xE2, CHR 0x80, CHR 0x94] @
        '' risk of deadlock'',
      br_severity = SeverityHigh,
      br_pattern = MatchString (seqs [many1 (Cls word_char), lit ''.Lock()'', spaces, EndText]),
      br_fix = ''Use defer mu.Unlock() immediately after mu.Lock() to prevent deadlocks'',
      br_category = ''quality'', br_excludeFilenames = [], br_requireContext = [],
        br_suppressCheck = Some mutex_released\<rparr>"

definition rule_context_leak :: builtinRule where
  "rule_context_leak =
     \<lparr>br_name = ''context_leak'',
      br_description = ''Background context used instead of request context '' @ [CHR 0xE2, CHR 0x80, CHR 0x94] @
        '' ignores cancellation'',
      br_severity = SeverityMedium,
      br_pattern = MatchString (lit ''context.Background()''),
      br_fix = ''Use request context (r.Context()) instead of Background() to respect cancellation'',
      br_category = ''quality'', br_excludeFilenames = [], br_requireContext = [],
        br_suppressCheck = Some comment_line\<rparr>"

definition rule_time_sleep_in_handler :: builtinRule where
  "rule_time_sleep_in_handler =
     \<lparr>br_name = ''time_sleep_in_handler'',
      br_description = ''time.Sleep in request handler '' @ [CHR 0xE2, CHR 0x80, CHR 0x94] @
        '' blocks the goroutine pool'',
      br_severity = SeverityMedium,
      br_pattern = MatchString (lit ''time.Sleep(''),
      br_fix = ''Use context.WithTimeout or rate limiters instead of sleep in handlers'',
      br_category = ''quality'', br_excludeFilenames = [], br_requireContext = [], br_suppressCheck = None\<rparr>"

subsection \<open>The table\<close>

definition builtinRules :: "builtinRule list" where
  "builtinRules =
     [rule_sql_injection, rule_sql_injection_raw_query, rule_sql_injection_string_concat, rule_command_injection,
       rule_command_injection_shell_concat, rule_command_injection_shell_variable, rule_xss_unsafe_html,
       rule_xss_unsafe_js, rule_xss_http_redirect, rule_template_injection, rule_log_injection,
       rule_python_command_injection, rule_python_eval_exec, rule_python_pickle_load, rule_python_unsafe_yaml,
       rule_python_sql_injection_fstring, rule_python_sql_injection_format, rule_python_ssrf,
       rule_python_path_traversal, rule_hardcoded_password, rule_hardcoded_connection_string, rule_aws_access_key,
       rule_aws_secret_key, rule_github_token, rule_slack_token, rule_private_key_literal,
       rule_gcp_service_account_key, rule_weak_hash_md5, rule_weak_hash_sha1, rule_weak_random, rule_insecure_tls,
       rule_weak_jwt_secret, rule_weak_cipher_des, rule_insecure_ecb_mode, rule_hardcoded_iv, rule_path_traversal,
       rule_path_traversal_unsanitized, rule_symlink_attack, rule_ssrf_http_get, rule_ssrf_http_client,
       rule_ssrf_url_parse, rule_insecure_json_decode, rule_unsafe_xml_parse, rule_unsafe_yaml_decode,
       rule_gorilla_unsafe_mux, rule_error_in_response, rule_stack_trace_exposure, rule_verbose_error_handler,
       rule_debug_endpoint_exposed, rule_insecure_file_perms, rule_world_readable_secret, rule_chmod_777,
       rule_goroutine_without_recovery, rule_sql_rows_not_closed, rule_mutex_not_unlocked, rule_context_leak,
       rule_time_sleep_in_handler]"

subsection \<open>Texts an expression matches wherever they stand\<close>

definition takes :: "re \<Rightarrow> string \<Rightarrow> bool" where
  "takes r xs \<longleftrightarrow> (\<forall>p ys. matches r (p, xs @ ys) (behind p xs ys))"

lemma takes_MatchString: "takes r xs \<Longrightarrow> MatchString r (as @ xs @ bs)"
  unfolding MatchString_iff takes_def by blast

lemma takes_Cat:
  assumes "takes r1 xs" "takes r2 ys"
  shows "takes (Cat r1 r2) (xs @ ys)"
  unfolding takes_def
proof (intro allI)
  fix p zs
  have "matches r1 (p, xs @ ys @ zs) (behind p xs (ys @ zs))" using assms(1) by (simp add: takes_def)
  moreover have "matches r2 (behind p xs (ys @ zs)) (behind p (xs @ ys) zs)"
    using assms(2) [unfolded takes_def, rule_format, of "fst (behind p xs (ys @ zs))" zs] unfolding behind_behind
    by (metis prod.collapse snd_behind)
  ultimately show "matches (Cat r1 r2) (p, (xs @ ys) @ zs) (behind p (xs @ ys) zs)" by (simp add: matches.cat)
qed

lemma takes_Eps [simp]: "takes Eps []"
  by (simp add: takes_def matches.eps)

lemma takes_Cls: "P c \<Longrightarrow> takes (Cls P) [c]"
  by (simp add: takes_def matches.cls)

lemma takes_seqs: "takes r xs \<Longrightarrow> takes (seqs rs) ys \<Longrightarrow> takes (seqs (r # rs)) (xs @ ys)"
proof (cases rs)
  case Nil
  assume "takes r xs" "takes (seqs rs) ys"
  moreover have "ys = []" if "takes Eps ys"
  proof -
    have "matches Eps (None, ys @ []) (behind None ys [])" using that by (simp only: takes_def)
    then show ?thesis by (cases ys) (auto elim: matches_elims simp: behind_def)
  qed
  ultimately show ?thesis using Nil by simp
qed (simp add: takes_Cat)

lemma takes_alts: "r \<in> set rs \<Longrightarrow> takes r xs \<Longrightarrow> takes (alts rs) xs"
proof (induction rs rule: alts.induct)
  case (3 r1 r2 rs)
  then show ?case by (auto simp: takes_def intro: matches.alt1 matches.alt2)
qed auto

lemma takes_optional: "takes r xs \<Longrightarrow> takes (optional r) xs" "takes (optional r) []"
  by (auto simp: takes_def optional_def intro: matches.intros)

lemma takes_lit: "takes (lit w) w"
  by (simp add: takes_def matches_lit behind_def)

lemma takes_ci: "map ascii_lower xs = map ascii_lower w \<Longrightarrow> takes (ci w) xs"
proof (induction w arbitrary: xs)
  case (Cons c w)
  then obtain d ys where xs: "xs = d # ys" "ascii_lower d = ascii_lower c" "map ascii_lower ys = map ascii_lower w"
    by (cases xs) auto
  then have "takes (Cat (Cls (\<lambda>d. ascii_lower d = ascii_lower c)) (ci w)) ([d] @ ys)"
    by (intro takes_Cat takes_Cls Cons.IH) simp_all
  with xs show ?case by simp
qed simp

lemma takes_star: "set xs \<subseteq> Collect P \<Longrightarrow> takes (Star (Cls P)) xs"
proof (induction xs)
  case Nil
  then show ?case by (simp add: takes_def matches.star0)
next
  case (Cons c xs)
  then have IH: "matches (Star (Cls P)) (q, xs @ ys) (behind q xs ys)" for q ys by (auto simp: takes_def)
  have "matches (Cls P) (p, c # xs @ ys) (Some c, xs @ ys)" for p ys using Cons.prems by (simp add: matches.cls)
  from matches.star [OF this _ IH] show ?case by (simp add: takes_def)
qed

lemma takes_many1: "xs \<noteq> [] \<Longrightarrow> set xs \<subseteq> Collect P \<Longrightarrow> takes (many1 (Cls P)) xs"
  using takes_Cat [OF takes_Cls takes_star, of P "hd xs" "tl xs" P] by (cases xs) (auto simp: many1_def)

lemma takes_rep_n: "length xs = n \<Longrightarrow> set xs \<subseteq> Collect P \<Longrightarrow> takes (rep_n n (Cls P)) xs"
proof (induction n arbitrary: xs)
  case (Suc n)
  then obtain c ys where xs: "xs = c # ys" "length ys = n" "P c" "set ys \<subseteq> Collect P" by (cases xs) auto
  with takes_Cat [OF takes_Cls Suc.IH, of P c ys] show ?case by simp
qed simp

lemma takes_at_least: "n \<le> length xs \<Longrightarrow> set xs \<subseteq> Collect P \<Longrightarrow> takes (at_least n (Cls P)) xs"
  using takes_Cat [OF takes_rep_n takes_star, of "take n xs" n P "drop n xs" P] set_take_subset [of n xs] set_drop_subset [of n xs]
  by (simp add: at_least_def)

subsection \<open>What the built-in analyzer reports\<close>

lemma builtin_reports:
  assumes "fn = (if in_Filename inp = [] then ''input'' else in_Filename inp)" "\<not> isGeneratedFile (slashed fn)"
    and "lines = strings_Split (in_Code inp) (CHR 0x0A)"
  shows "\<exists>fs. builtin_Analyze sha rules inp = Inr fs \<and>
    (\<forall>f. f \<in> set fs \<longleftrightarrow> (\<exists>r \<in> set rules. \<exists>i < length lines.
       \<not> (isTestFile (slashed fn) \<and> SeverityRank (br_severity r) \<le> SeverityRank SeverityLow) \<and>
       rule_fires (slashed fn) lines r i \<and> f = builtin_finding sha fn lines r i))"
  using assms(2) unfolding builtin_Analyze_def assms(1,3) Let_def by (auto split: if_splits)

lemma builtin_finding_place [simp]:
  "fi_Filename (builtin_finding sha fn lines r i) = fn" "fi_Line (builtin_finding sha fn lines r i) = int i + 1"
  "fi_RuleID (builtin_finding sha fn lines r i) = br_name r" "fi_Severity (builtin_finding sha fn lines r i) = br_severity r"
  "fi_Category (builtin_finding sha fn lines r i) = br_category r"
  by (simp_all add: builtin_finding_def Let_def)

text \<open>The engine the pipeline, the reviewer and the router build when none is given.\<close>

definition builtin_engine :: "(string \<Rightarrow> string) \<Rightarrow> Engine" where
  "builtin_engine sha = NewEngine [NewBuiltinAnalyzer sha builtinRules]"

lemma builtin_engine_simps [simp]:
  "eg_analyzers (builtin_engine sha) = [NewBuiltinAnalyzer sha builtinRules]"
  "eg_minConfidence (builtin_engine sha) = fl (30 / 100)"
  by (simp_all add: builtin_engine_def NewEngine_def)

lemma builtin_analyzer_simps [simp]:
  "an_Available (NewBuiltinAnalyzer sha rules)" "an_Analyze (NewBuiltinAnalyzer sha rules) = builtin_Analyze sha rules"
  by (simp_all add: NewBuiltinAnalyzer_def)

subsection \<open>Hardcoded secrets\<close>

definition secret_words :: "string list" where
  "secret_words =
     [''password'', ''passwd'', ''secret'', ''api_key'', ''apikey'', ''apisecret'', ''api-secret'', ''api_secret'',
      ''privatekey'', ''private-key'', ''private_key'']"

text \<open>An assignment of a literal \<open>v\<close> in double quotes to a name that ends with a secret word.\<close>

definition secret_assignment :: "string \<Rightarrow> string \<Rightarrow> bool" where
  "secret_assignment v line \<longleftrightarrow>
     (\<exists>pre kw sp ops sp' post. line = pre @ kw @ sp @ ops @ sp' @ [CHR 0x22] @ v @ [CHR 0x22] @ post \<and>
        map ascii_lower kw \<in> set secret_words \<and> set sp \<subseteq> Collect space_class \<and> set sp' \<subseteq> Collect space_class \<and>
        ops \<noteq> [] \<and> set ops \<subseteq> {CHR '':'', CHR ''=''} \<and> 8 \<le> length v \<and> CHR 0x22 \<notin> set v)"

lemma lower_range: "ascii_lower c = c \<or> 97 \<le> (of_char (ascii_lower c) :: nat) \<and> (of_char (ascii_lower c) :: nat) \<le> 122"
  by (simp add: ascii_lower_def)

lemma lower_mark: "ascii_lower c = CHR ''-'' \<Longrightarrow> c = CHR ''-''" "ascii_lower c = CHR ''_'' \<Longrightarrow> c = CHR ''_''"
  using lower_range [of c] by auto

lemma takes_joined:
  assumes "map ascii_lower kw = map ascii_lower a @ m @ map ascii_lower b" "m = [] \<or> m = ''-'' \<or> m = ''_''"
  shows "takes (seqs [ci a, optional (one_of ''-_''), ci b]) kw"
proof -
  obtain xs ys zs where kw: "kw = xs @ ys @ zs" "map ascii_lower xs = map ascii_lower a" "map ascii_lower ys = m" "map ascii_lower zs = map ascii_lower b"
    using assms(1) unfolding map_eq_append_conv append_eq_map_conv by (metis map_eq_append_conv)
  have "takes (optional (one_of ''-_'')) ys"
  proof (cases "ys = []")
    case False
    then obtain c where "ys = [c]" "c \<in> set ''-_''" using assms(2) kw(3) lower_mark by auto
    then show ?thesis by (auto simp: one_of_def intro!: takes_optional takes_Cls)
  qed (simp add: takes_optional)
  then have "takes (seqs [ci a, optional (one_of ''-_''), ci b]) (xs @ ys @ zs @ [])"
    by (intro takes_seqs takes_ci kw) simp_all
  then show ?thesis by (simp add: kw)
qed

text \<open>The words of the pattern that stand for themselves, and the two with an optional mark inside.\<close>

definition plain_words :: "string list" where
  "plain_words = [''password'', ''passwd'', ''secret'', ''api_key'', ''apikey'']"

lemma secret_word_cases:
  assumes "w \<in> set secret_words"
  shows "w \<in> set plain_words \<or> (\<exists>m \<in> set [[], ''-'', ''_'']. w = ''api'' @ m @ ''secret'' \<or> w = ''private'' @ m @ ''key'')"
proof -
  have "list_all (\<lambda>w. w \<in> set plain_words \<or> list_ex (\<lambda>m. w = ''api'' @ m @ ''secret'' \<or> w = ''private'' @ m @ ''key'') [[], ''-'', ''_'']) secret_words"
    by code_simp
  with assms show ?thesis unfolding list_all_iff list_ex_iff by blast
qed

lemma lower_parts:
  "map ascii_lower ''api'' = ''api''" "map ascii_lower ''secret'' = ''secret''"
  "map ascii_lower ''private'' = ''private''" "map ascii_lower ''key'' = ''key''"
  by code_simp+

lemma lower_plain: "w \<in> set plain_words \<Longrightarrow> map ascii_lower w = w"
proof -
  have "list_all (\<lambda>w. map ascii_lower w = w) plain_words" by code_simp
  then show "w \<in> set plain_words \<Longrightarrow> map ascii_lower w = w" by (simp only: list_all_iff)
qed

lemma takes_word:
  assumes "map ascii_lower kw \<in> set secret_words"
  shows "takes (alts [ci ''password'', ci ''passwd'', ci ''secret'', ci ''api_key'', ci ''apikey'',
     seqs [ci ''api'', optional (one_of ''-_''), ci ''secret''], seqs [ci ''private'', optional (one_of ''-_''), ci ''key'']]) kw"
    (is "takes (alts ?rs) kw")
proof -
  consider "map ascii_lower kw \<in> set plain_words"
    | m where "m \<in> set [[], ''-'', ''_'']" "map ascii_lower kw = ''api'' @ m @ ''secret''"
    | m where "m \<in> set [[], ''-'', ''_'']" "map ascii_lower kw = ''private'' @ m @ ''key''"
    using secret_word_cases [OF assms] by blast
  then show ?thesis
  proof cases
    case 1
    then have "takes (ci (map ascii_lower kw)) kw" by (intro takes_ci) (simp only: lower_plain)
    moreover have "ci w \<in> set ?rs" if "w \<in> set plain_words" for w using that unfolding plain_words_def by (simp only: list.set) blast
    ultimately show ?thesis using 1 by (blast intro: takes_alts)
  next
    case (2 m)
    then have "takes (seqs [ci ''api'', optional (one_of ''-_''), ci ''secret'']) kw"
      by (intro takes_joined [where m = m]) (simp_all only: lower_parts list.set insert_iff empty_iff HOL.simp_thms)
    then show ?thesis by (rule takes_alts [rotated]) simp
  next
    case (3 m)
    then have "takes (seqs [ci ''private'', optional (one_of ''-_''), ci ''key'']) kw"
      by (intro takes_joined [where m = m]) (simp_all only: lower_parts list.set insert_iff empty_iff HOL.simp_thms)
    then show ?thesis by (rule takes_alts [rotated]) simp
  qed
qed

lemma assignment_matched:
  assumes "secret_assignment v line"
  shows "br_pattern rule_hardcoded_password line"
proof -
  from assms obtain pre kw sp ops sp' post where line: "line = pre @ kw @ sp @ ops @ sp' @ [CHR 0x22] @ v @ [CHR 0x22] @ post"
    and kw: "map ascii_lower kw \<in> set secret_words" and sp: "set sp \<subseteq> Collect space_class" "set sp' \<subseteq> Collect space_class"
    and ops: "ops \<noteq> []" "set ops \<subseteq> {CHR '':'', CHR ''=''}" and v: "8 \<le> length v" "CHR 0x22 \<notin> set v"
    unfolding secret_assignment_def by blast
  let ?words = "[ci ''password'', ci ''passwd'', ci ''secret'', ci ''api_key'', ci ''apikey'',
     seqs [ci ''api'', optional (one_of ''-_''), ci ''secret''], seqs [ci ''private'', optional (one_of ''-_''), ci ''key'']]"
  have word: "takes (alts ?words) kw"
    using kw by (rule takes_word)
  have o: "takes (many1 (one_of '':='')) ops" unfolding one_of_def by (rule takes_many1) (use ops in auto)
  have q: "takes dquote [CHR 0x22]" unfolding dquote_def by (rule takes_Cls) simp
  have vv: "takes (at_least 8 (none_of [CHR 0x22])) v" unfolding none_of_def by (rule takes_at_least) (use v in auto)
  have s: "takes spaces sp" "takes spaces sp'" unfolding spaces_def by (intro takes_star sp)+
  have "takes (seqs [alts ?words, spaces, many1 (one_of '':=''), spaces, dquote, at_least 8 (none_of [CHR 0x22]), dquote])
      (kw @ sp @ ops @ sp' @ [CHR 0x22] @ v @ [CHR 0x22] @ [])"
    by (intro takes_seqs word o q vv s) simp
  from takes_MatchString [OF this, of pre post] show ?thesis unfolding line rule_hardcoded_password_def by simp
qed


text \<open>The names of the rules, and two rules that are told apart from the others by theirs.\<close>

definition rule_names :: "string list" where
  "rule_names =
    [''sql_injection'', ''sql_injection_raw_query'', ''sql_injection_string_concat'', ''command_injection'',
     ''command_injection_shell_concat'', ''command_injection_shell_variable'', ''xss_unsafe_html'',
     ''xss_unsafe_js'', ''xss_http_redirect'', ''template_injection'', ''log_injection'',
     ''python_command_injection'', ''python_eval_exec'', ''python_pickle_load'', ''python_unsafe_yaml'',
     ''python_sql_injection_fstring'', ''python_sql_injection_format'', ''python_ssrf'', ''python_path_traversal'',
     ''hardcoded_password'', ''hardcoded_connection_string'', ''aws_access_key'', ''aws_secret_key'',
     ''github_token'', ''slack_token'', ''private_key_literal'', ''gcp_service_account_key'', ''weak_hash_md5'',
     ''weak_hash_sha1'', ''weak_random'', ''insecure_tls'', ''weak_jwt_secret'', ''weak_cipher_des'',
     ''insecure_ecb_mode'', ''hardcoded_iv'', ''path_traversal'', ''path_traversal_unsanitized'', ''symlink_attack'',
     ''ssrf_http_get'', ''ssrf_http_client'', ''ssrf_url_parse'', ''insecure_json_decode'', ''unsafe_xml_parse'',
     ''unsafe_yaml_decode'', ''gorilla_unsafe_mux'', ''error_in_response'', ''stack_trace_exposure'',
     ''verbose_error_handler'', ''debug_endpoint_exposed'', ''insecure_file_perms'', ''world_readable_secret'',
     ''chmod_777'', ''goroutine_without_recovery'', ''sql_rows_not_closed'', ''mutex_not_unlocked'',
     ''context_leak'', ''time_sleep_in_handler'']"

lemma map_rule_names: "map br_name builtinRules = rule_names"
  unfolding builtinRules_def rule_names_def list.map
    rule_sql_injection_def rule_sql_injection_raw_query_def rule_sql_injection_string_concat_def
    rule_command_injection_def rule_command_injection_shell_concat_def rule_command_injection_shell_variable_def
    rule_xss_unsafe_html_def rule_xss_unsafe_js_def rule_xss_http_redirect_def rule_template_injection_def
    rule_log_injection_def rule_python_command_injection_def rule_python_eval_exec_def
    rule_python_pickle_load_def rule_python_unsafe_yaml_def rule_python_sql_injection_fstring_def
    rule_python_sql_injection_format_def rule_python_ssrf_def rule_python_path_traversal_def
    rule_hardcoded_password_def rule_hardcoded_connection_string_def rule_aws_access_key_def
    rule_aws_secret_key_def rule_github_token_def rule_slack_token_def rule_private_key_literal_def
    rule_gcp_service_account_key_def rule_weak_hash_md5_def rule_weak_hash_sha1_def rule_weak_random_def
    rule_insecure_tls_def rule_weak_jwt_secret_def rule_weak_cipher_des_def rule_insecure_ecb_mode_def
    rule_hardcoded_iv_def rule_path_traversal_def rule_path_traversal_unsanitized_def rule_symlink_attack_def
    rule_ssrf_http_get_def rule_ssrf_http_client_def rule_ssrf_url_parse_def rule_insecure_json_decode_def
    rule_unsafe_xml_parse_def rule_unsafe_yaml_decode_def rule_gorilla_unsafe_mux_def rule_error_in_response_def
    rule_stack_trace_exposure_def rule_verbose_error_handler_def rule_debug_endpoint_exposed_def
    rule_insecure_file_perms_def rule_world_readable_secret_def rule_chmod_777_def
    rule_goroutine_without_recovery_def rule_sql_rows_not_closed_def rule_mutex_not_unlocked_def
    rule_context_leak_def rule_time_sleep_in_handler_def builtinRule.select_convs
  by (rule refl)

lemma name_unique:
  assumes "k < length rs" "rs ! k = r" "list_all (\<lambda>n. n \<noteq> br_name r) (take k (map br_name rs) @ drop (Suc k) (map br_name rs))"
    and "q \<in> set rs" "br_name q = br_name r"
  shows "q = r"
proof -
  have "set rs = insert r (set (take k rs @ drop (Suc k) rs))" using id_take_nth_drop [OF assms(1)] assms(2) by (metis list.simps(15) set_append Un_insert_right)
  with assms(3-5) show ?thesis by (auto simp: list_all_iff take_map drop_map)
qed

lemma password_rule_unique: "q \<in> set builtinRules \<Longrightarrow> br_name q = br_name rule_hardcoded_password \<Longrightarrow> q = rule_hardcoded_password"
proof (rule name_unique [of 19 _ rule_hardcoded_password])
  show "list_all (\<lambda>n. n \<noteq> br_name rule_hardcoded_password) (take 19 (map br_name builtinRules) @ drop (Suc 19) (map br_name builtinRules))"
    unfolding map_rule_names rule_hardcoded_password_def builtinRule.select_convs by code_simp
qed (simp_all add: builtinRules_def)

lemma mutex_rule_unique: "q \<in> set builtinRules \<Longrightarrow> br_name q = br_name rule_mutex_not_unlocked \<Longrightarrow> q = rule_mutex_not_unlocked"
proof (rule name_unique [of 54 _ rule_mutex_not_unlocked])
  show "list_all (\<lambda>n. n \<noteq> br_name rule_mutex_not_unlocked) (take 54 (map br_name builtinRules) @ drop (Suc 54) (map br_name builtinRules))"
    unfolding map_rule_names rule_mutex_not_unlocked_def builtinRule.select_convs by code_simp
qed (simp_all add: builtinRules_def)

lemma listed_rules: "rule_hardcoded_password \<in> set builtinRules" "rule_mutex_not_unlocked \<in> set builtinRules"
  by (simp_all add: builtinRules_def)

text \<open>The findings of one rule at one line.\<close>

lemma builtin_rule_reports:
  assumes "fn = (if in_Filename inp = [] then ''input'' else in_Filename inp)" "\<not> isGeneratedFile (slashed fn)"
    and "lines = strings_Split (in_Code inp) (CHR 0x0A)" "r \<in> set builtinRules" "SeverityRank SeverityLow < SeverityRank (br_severity r)"
    and "i < length lines" "\<And>q. q \<in> set builtinRules \<Longrightarrow> br_name q = br_name r \<Longrightarrow> q = r"
  shows "\<exists>fs. builtin_Analyze sha builtinRules inp = Inr fs \<and>
    ((\<exists>f \<in> set fs. fi_RuleID f = br_name r \<and> fi_Line f = int i + 1) \<longleftrightarrow> rule_fires (slashed fn) lines r i)"
proof -
  obtain fs where fs: "builtin_Analyze sha builtinRules inp = Inr fs"
    and mem: "f \<in> set fs \<longleftrightarrow> (\<exists>r \<in> set builtinRules. \<exists>i < length lines.
       \<not> (isTestFile (slashed fn) \<and> SeverityRank (br_severity r) \<le> SeverityRank SeverityLow) \<and>
       rule_fires (slashed fn) lines r i \<and> f = builtin_finding sha fn lines r i)" for f
    using builtin_reports [OF assms(1-3)] by blast
  have "rule_fires (slashed fn) lines r i" if "f \<in> set fs" "fi_RuleID f = br_name r" "fi_Line f = int i + 1" for f
    using that assms(7) unfolding mem by fastforce
  moreover have "builtin_finding sha fn lines r i \<in> set fs" if "rule_fires (slashed fn) lines r i"
    using that assms(4-6) unfolding mem by (intro bexI [of _ r] exI [of _ i]) auto
  ultimately have "(\<exists>f \<in> set fs. fi_RuleID f = br_name r \<and> fi_Line f = int i + 1) \<longleftrightarrow> rule_fires (slashed fn) lines r i"
    by (metis builtin_finding_place(2,3))
  with fs show ?thesis by blast
qed

lemma secret_fires:
  assumes "secret_assignment v (lines ! i)" "\<not> secret_comparison lines i" "\<not> hasNosecMarker lines i"
    and "\<not> list_ex (strings_Contains name) (br_excludeFilenames rule_hardcoded_password)"
  shows "rule_fires name lines rule_hardcoded_password i"
  using assms assignment_matched [OF assms(1)] by (simp add: rule_fires_def Let_def rule_hardcoded_password_def)

subsection \<open>Locks without a release\<close>

lemma takes_star_nil: "takes (Star r) []"
  by (simp add: takes_def matches.star0)

lemma unlock_matched: "MatchString (unlockRe v) l \<longleftrightarrow> strings_Contains l (v @ ''.Unlock()'')"
proof
  assume "strings_Contains l (v @ ''.Unlock()'')"
  then obtain a b where l: "l = a @ (v @ ''.Unlock()'') @ b" by (auto simp: Contains_iff)
  have "takes (unlockRe v) ([] @ [] @ v @ ''.Unlock()'' @ [])"
    unfolding unlockRe_def by (intro takes_seqs takes_optional(2) takes_star_nil takes_lit) simp
  from takes_MatchString [OF this, of a b] show "MatchString (unlockRe v) l" by (simp add: l)
next
  assume "MatchString (unlockRe v) l"
  then obtain xs ys t where l: "l = xs @ ys" "matches (unlockRe v) (if xs = [] then None else Some (last xs), ys) t"
    unfolding MatchString_iff by blast
  from l(2) obtain r1 r2 u1 u2 u3 where m: "matches r1 (if xs = [] then None else Some (last xs), ys) u1" "matches r2 u1 u2"
    and v: "matches (lit v) u2 u3" "matches (lit ''.Unlock()'') u3 t"
    unfolding unlockRe_def seqs.simps by (blast elim: matches_elims)
  from matches_part [OF m(1)] matches_part [OF m(2)] obtain as bs where "ys = as @ bs @ snd u2" by auto
  with v l(1) show "strings_Contains l (v @ ''.Unlock()'')"
    unfolding Contains_iff matches_lit by (intro exI [of _ "xs @ as @ bs"] exI [of _ "snd t"]) simp
qed

lemma trailing_unique:
  assumes "xs @ [x] @ ss = ys @ [x] @ ts" "\<not> P x" "\<And>c. c \<in> set ss \<Longrightarrow> P c" "\<And>c. c \<in> set ts \<Longrightarrow> P c"
  shows "xs = ys \<and> ss = ts"
proof -
  have "takeWhile P (rev (as @ [x] @ cs)) = rev cs" if "\<And>c. c \<in> set cs \<Longrightarrow> P c" for as cs
    using that assms(2) by (simp add: takeWhile_append)
  then have "rev ss = rev ts" using assms(1,3,4) by metis
  with assms(1) show ?thesis by simp
qed

text \<open>A line that ends with a call of \<open>Lock\<close>: the name is the word before the call.\<close>

definition lock_call :: "string \<Rightarrow> string \<Rightarrow> bool" where
  "lock_call v line \<longleftrightarrow>
     (\<exists>pre sp. line = pre @ v @ ''.Lock()'' @ sp \<and> v \<noteq> [] \<and> set v \<subseteq> Collect word_char \<and>
        (pre = [] \<or> \<not> word_char (last pre)) \<and> set sp \<subseteq> Collect space_class)"

definition lock_call_re :: re where
  "lock_call_re = seqs [lit ''.Lock()'', spaces, EndText]"

lemma matches_spaces: "matches spaces s t \<Longrightarrow> \<exists>xs. snd s = xs @ snd t \<and> set xs \<subseteq> Collect space_class"
proof (induction "spaces" s t rule: matches.induct)
  case (star r s t u)
  then have "matches (Cls space_class) s t" "\<exists>xs. snd t = xs @ snd u \<and> set xs \<subseteq> Collect space_class" by (simp_all add: spaces_def)
  then obtain xs c cs where "snd t = xs @ snd u" "set xs \<subseteq> Collect space_class" "snd s = c # snd t" "space_class c"
    by (auto elim: matches_elims)
  then show ?case by (intro exI [of _ "c # xs"]) simp
qed (simp_all add: spaces_def)

lemma lock_call_re_text: "matches lock_call_re s t \<Longrightarrow> \<exists>sp. snd s = ''.Lock()'' @ sp \<and> set sp \<subseteq> Collect space_class \<and> snd t = []"
proof -
  assume "matches lock_call_re s t"
  then obtain u v where "matches (lit ''.Lock()'') s u" "matches spaces u v" "matches EndText v t"
    unfolding lock_call_re_def seqs.simps by (blast elim: matches_elims)
  moreover obtain xs where "snd u = xs @ snd v" "set xs \<subseteq> Collect space_class" using calculation(2) matches_spaces by blast
  moreover have "snd v = []" "t = v" using calculation(3) by (auto elim: matches.cases)
  ultimately show ?thesis by (simp add: matches_lit del: lit.simps)
qed

lemma lock_call_re_matches: "set sp \<subseteq> Collect space_class \<Longrightarrow> \<exists>t. matches lock_call_re (p, ''.Lock()'' @ sp) t"
proof -
  assume sp: "set sp \<subseteq> Collect space_class"
  let ?u = "behind p ''.Lock()'' sp" and ?v = "behind p (''.Lock()'' @ sp) []"
  have "matches (lit ''.Lock()'') (p, ''.Lock()'' @ sp) ?u" using takes_lit unfolding takes_def by blast
  moreover have "matches spaces ?u ?v"
    using takes_star [OF sp] unfolding takes_def spaces_def by (metis append_Nil2 behind_behind prod.collapse snd_behind)
  moreover have "matches EndText ?v ?v" by (rule matches.endtext) simp
  ultimately show ?thesis unfolding lock_call_re_def seqs.simps by (blast intro: matches.cat)
qed

lemma many1_text: "matches (many1 (Cls P)) s t \<Longrightarrow> \<exists>xs. snd s = xs @ snd t \<and> xs \<noteq> [] \<and> set xs \<subseteq> Collect P"
proof -
  have star: "\<exists>xs. snd s = xs @ snd t \<and> set xs \<subseteq> Collect P" if "matches (Star (Cls P)) s t" for s t
    using that
  proof (induction "Star (Cls P)" s t rule: matches.induct)
    case (star s t u)
    then obtain xs c where "snd t = xs @ snd u" "set xs \<subseteq> Collect P" "snd s = c # snd t" "P c" by (auto elim: matches_elims)
    then show ?case by (intro exI [of _ "c # xs"]) simp
  qed simp
  assume "matches (many1 (Cls P)) s t"
  then obtain u where "matches (Cls P) s u" "matches (Star (Cls P)) u t" unfolding many1_def by (blast elim: matches_elims)
  with star [of u t] obtain c xs where "snd s = c # snd u" "P c" "snd u = xs @ snd t" "set xs \<subseteq> Collect P" by (auto elim: matches_elims)
  then show ?thesis by (intro exI [of _ "c # xs"]) simp
qed

text \<open>Where the expression for a lock can match at all, and what its group then holds.\<close>

lemma lock_starts:
  assumes "mts mutexLockRe s \<noteq> []"
  shows "\<exists>xs sp. snd s = xs @ ''.Lock()'' @ sp \<and> xs \<noteq> [] \<and> set xs \<subseteq> Collect word_char \<and> set sp \<subseteq> Collect space_class"
proof -
  have split: "mutexLockRe = [many1 (Cls word_char), lock_call_re]" by (simp only: mutexLockRe_def lock_call_re_def)
  from assms obtain t where t: "t \<in> set (mt (many1 (Cls word_char)) s)" "mts [lock_call_re] t \<noteq> []"
    unfolding split using mts_none [of "many1 (Cls word_char)" s "[lock_call_re]"] by blast
  obtain u where "u \<in> set (mt lock_call_re t)" using t(2) mts_none [of lock_call_re t "[]"] by blast
  with t(1) have "matches (many1 (Cls word_char)) s t" "matches lock_call_re t u" by (simp_all only: mt_iff)
  with many1_text [of word_char s t] lock_call_re_text [of t u] show ?thesis by metis
qed

lemma space_mark: "\<not> space_class CHR '')''" "\<not> word_char CHR ''.''"
  by code_simp+

lemma lock_not_before:
  assumes "set v \<subseteq> Collect word_char" "set sp \<subseteq> Collect space_class" "ws \<noteq> []" "\<not> word_char (last ws)"
  shows "mts mutexLockRe (p, ws @ v @ ''.Lock()'' @ sp) = []"
proof (rule ccontr)
  assume "mts mutexLockRe (p, ws @ v @ ''.Lock()'' @ sp) \<noteq> []"
  from lock_starts [OF this] obtain xs sp' where e: "ws @ v @ ''.Lock()'' @ sp = xs @ ''.Lock()'' @ sp'"
    and xs: "set xs \<subseteq> Collect word_char" and sp': "set sp' \<subseteq> Collect space_class" by auto
  from e have "(ws @ v @ ''.Lock('') @ [CHR '')''] @ sp = (xs @ ''.Lock('') @ [CHR '')''] @ sp'" by simp
  from trailing_unique [OF this, of space_class] assms(2) sp' space_mark(1) have "ws @ v = xs" by auto
  then have "last ws \<in> set xs" using assms(3) by auto
  with xs assms(4) show False by auto
qed

lemma all_matches_from:
  assumes "\<And>a b p. xs = a @ b \<Longrightarrow> b \<noteq> [] \<Longrightarrow> mts rs (p, b @ ys) = []"
  shows "all_matches rs p (xs @ ys) = all_matches rs (fst (behind p xs ys)) ys"
  using assms
proof (induction xs arbitrary: p)
  case (Cons c xs)
  have "mts rs (p, c # xs @ ys) = []" using Cons.prems [of "[]" "c # xs"] by simp
  moreover have "mts rs (q, b @ ys) = []" if "xs = a @ b" "b \<noteq> []" for a b q using Cons.prems [of "c # a" b] that by simp
  then have "all_matches rs (Some c) (xs @ ys) = all_matches rs (fst (behind (Some c) xs ys)) ys" by (rule Cons.IH)
  ultimately show ?case by simp
qed simp

lemma mt_many1_class:
  assumes "xs \<noteq> []" "set xs \<subseteq> Collect P" "ys = [] \<or> \<not> P (hd ys)"
  shows "\<exists>l. mt (many1 (Cls P)) (p, xs @ ys) = behind p xs ys # l"
proof -
  obtain c cs where xs: "xs = c # cs" using assms(1) by (cases xs) auto
  have "\<exists>l. mt (Star (Cls P)) (Some c, cs @ ys) = behind (Some c) cs ys # l"
    by (rule mt_star_class) (use assms(2,3) xs in auto)
  with xs assms(2) show ?thesis by (auto simp: many1_def)
qed

lemma locked_name_of:
  assumes "lock_call v line"
  shows "locked_name line = Some v"
proof -
  from assms obtain pre sp where line: "line = pre @ v @ ''.Lock()'' @ sp" and v: "v \<noteq> []" "set v \<subseteq> Collect word_char"
    and pre: "pre = [] \<or> \<not> word_char (last pre)" and sp: "set sp \<subseteq> Collect space_class"
    unfolding lock_call_def by blast
  let ?L = "''.Lock()'' @ sp" and ?q = "fst (behind None pre (v @ ''.Lock()'' @ sp))"
  have "mts mutexLockRe (p, b @ v @ ?L) = []" if "pre = a @ b" "b \<noteq> []" for a b p
    using lock_not_before [OF v(2) sp that(2)] pre that by auto
  from all_matches_from [of pre mutexLockRe "v @ ?L", OF this]
  have am: "all_matches mutexLockRe None line = all_matches mutexLockRe ?q (v @ ?L)" unfolding line by simp
  obtain l where first: "mt (many1 (Cls word_char)) (?q, v @ ?L) = [] @ behind ?q v ?L # l"
    using mt_many1_class [OF v, of ?L ?q] space_mark(2) by auto
  obtain t where "matches lock_call_re (behind ?q v ?L) t"
    using lock_call_re_matches [OF sp, of "fst (behind ?q v ?L)"] by (metis prod.collapse snd_behind)
  then have "t \<in> set (mt lock_call_re (behind ?q v ?L))" by (simp only: mt_iff)
  then obtain u us where us: "mt lock_call_re (behind ?q v ?L) = u # us" by (cases "mt lock_call_re (behind ?q v ?L)") auto
  then have "u \<in> set (mt lock_call_re (behind ?q v ?L))" by simp
  then have u: "snd u = []" using lock_call_re_text mt_iff by blast
  have "mts [lock_call_re] (behind ?q v ?L) = [u] # map (\<lambda>t. [t]) us"
    unfolding mts.simps us by (simp add: concat_map_singleton)
  from mts_first [OF first _ this] obtain w where w: "mts mutexLockRe (?q, v @ ?L) = [behind ?q v ?L, u] # w"
    by (auto simp: mutexLockRe_def lock_call_re_def simp del: mts.simps seqs.simps)
  obtain c cs where c: "v @ ?L = c # cs" using v(1) by (cases v) auto
  have "\<exists>ms. all_matches mutexLockRe ?q (v @ ?L) = ((?q, v @ ?L), [behind ?q v ?L, u]) # ms"
    using w unfolding c by (simp add: u)
  then obtain ms where "all_matches mutexLockRe ?q (v @ ?L) = ((?q, v @ ?L), [behind ?q v ?L, u]) # ms" by blast
  then show ?thesis by (simp add: locked_name_def am text_between_def)
qed

lemma lock_fires:
  assumes "lock_call v (lines ! i)"
  shows "rule_fires name lines rule_mutex_not_unlocked i \<longleftrightarrow>
    \<not> hasNosecMarker lines i \<and> \<not> list_ex (\<lambda>l. strings_Contains l (v @ ''.Unlock()'')) (drop (i + 1) (take (i + 41) lines))"
proof -
  from assms obtain pre sp where line: "lines ! i = pre @ (v @ ''.Lock()'' @ sp @ []) @ []" and v: "v \<noteq> []" "set v \<subseteq> Collect word_char"
    and sp: "set sp \<subseteq> Collect space_class"
    unfolding lock_call_def by auto
  let ?p = "if pre = [] then None else Some (last pre)" and ?L = "''.Lock()'' @ sp"
  have u: "MatchString (unlockRe v) = (\<lambda>l. strings_Contains l (v @ ''.Unlock()''))" by (rule ext) (rule unlock_matched)
  have "takes (many1 (Cls word_char)) v" using v by (rule takes_many1)
  then have m: "matches (many1 (Cls word_char)) (?p, v @ ?L) (behind ?p v ?L)" unfolding takes_def by blast
  obtain t where "matches lock_call_re (fst (behind ?p v ?L), ?L) t" using lock_call_re_matches [OF sp] by blast
  moreover have "(fst (behind ?p v ?L), ?L) = behind ?p v ?L" by (simp only: behind_def fst_conv)
  ultimately have "matches lock_call_re (behind ?p v ?L) t" by (simp only:)
  with m have "matches (Cat (many1 (Cls word_char)) lock_call_re) (?p, v @ ?L) t" by (rule matches.cat)
  then have "MatchString (Cat (many1 (Cls word_char)) lock_call_re) (lines ! i)"
    unfolding MatchString_iff line append_Nil2 by blast
  moreover have "br_pattern rule_mutex_not_unlocked = MatchString (Cat (many1 (Cls word_char)) lock_call_re)"
    by (simp only: rule_mutex_not_unlocked_def lock_call_re_def builtinRule.select_convs seqs.simps)
  ultimately have "br_pattern rule_mutex_not_unlocked (lines ! i)" by (simp only:)
  moreover have "br_requireContext rule_mutex_not_unlocked = []" "br_excludeFilenames rule_mutex_not_unlocked = []"
    "br_suppressCheck rule_mutex_not_unlocked = Some mutex_released"
    by (simp_all only: rule_mutex_not_unlocked_def builtinRule.select_convs)
  moreover have "mutex_released lines i \<longleftrightarrow> list_ex (\<lambda>l. strings_Contains l (v @ ''.Unlock()'')) (drop (i + 1) (take (i + 41) lines))"
    by (simp only: mutex_released_def locked_name_of [OF assms] option.case u)
  ultimately show ?thesis unfolding rule_fires_def Let_def by (simp add: conj_commute)
qed

end
