(* ===== verification/Builtin_Props.thy ===== *)
theory Builtin_Props
  imports Builtin_Rules Validation_Pipeline
begin



definition secret_line :: string where
  "secret_line = ''password := '' @ [CHR 0x22] @ ''hunter2hunter2'' @ [CHR 0x22]"


definition secret_input :: Input where
  "secret_input = \<lparr>in_Language = ''go'', in_Code = secret_line, in_Filename = ''main.go''\<rparr>"



lemma secret_line_plain:
  "\<not> secret_comparison [secret_line] 0" "\<not> hasNosecMarker [secret_line] 0" "\<not> isGeneratedFile (slashed ''main.go'')"
  "\<not> list_ex (strings_Contains (slashed ''main.go'')) [''example'', ''sample'', ''mock_'', ''stub_'', ''fuzz'']"
  "contextPenalty ''main.go'' = 0" "\<not> isTestFile ''main.go''" "\<not> isTestDataFile ''main.go''"
  by code_simp+



text \<open>
  A secret the rule cannot see. The check against comparisons looks at the whole line, the value included: whatever
  a line with two equality signs assigns, for example a secret in padded base64, no finding of the rule for hardcoded
  passwords is reported for it.
\<close>

theorem padded_secret_missed:
  assumes "lines = strings_Split (in_Code inp) (CHR 0x0A)" "i < length lines"
    and "secret_assignment v (lines ! i)" "strings_HasSuffix v ''==''"
  shows "\<exists>fs. builtin_Analyze sha builtinRules inp = Inr fs \<and>
    \<not> (\<exists>f \<in> set fs. fi_RuleID f = br_name rule_hardcoded_password \<and> fi_Line f = int i + 1)"
proof -
  define fn where "fn = (if in_Filename inp = [] then ''input'' else in_Filename inp)"
  obtain pre kw sp ops sp' post where "lines ! i = pre @ kw @ sp @ ops @ sp' @ [CHR 0x22] @ v @ [CHR 0x22] @ post"
    using assms(3) unfolding secret_assignment_def by blast
  then have "lines ! i = (pre @ kw @ sp @ ops @ sp' @ [CHR 0x22]) @ v @ [CHR 0x22] @ post" by simp
  then obtain a b where "lines ! i = a @ v @ b" by blast
  moreover obtain c where "v = c @ ''==''" using assms(4) by (auto simp: strings_HasSuffix_def)
  ultimately have "strings_Contains (lines ! i) ''==''"
    unfolding Contains_iff by (intro exI [of _ "a @ c"] exI [of _ b]) simp
  then have quiet: "\<not> rule_fires name lines rule_hardcoded_password i" for name
    by (simp add: rule_fires_def Let_def rule_hardcoded_password_def secret_comparison_def)
  show ?thesis
  proof (cases "isGeneratedFile (slashed fn)")
    case True
    then show ?thesis by (simp add: builtin_Analyze_def fn_def)
  next
    case False
    have "SeverityRank SeverityLow < SeverityRank (br_severity rule_hardcoded_password)"
      by (simp add: rule_hardcoded_password_def SeverityRank_def severity_defs)
    from builtin_rule_reports [OF fn_def False assms(1) listed_rules(1) this assms(2) password_rule_unique] quiet
    show ?thesis by blast
  qed
qed

definition padded_line :: string where
  "padded_line = ''secret := '' @ [CHR 0x22] @ ''c2VjcmV0c2VjcmV0cw=='' @ [CHR 0x22]"

theorem padded_secret_missed_witness:
  "\<exists>fs. builtin_Analyze (\<lambda>s. s) builtinRules (secret_input\<lparr>in_Code := padded_line\<rparr>) = Inr fs \<and>
    \<not> (\<exists>f \<in> set fs. fi_RuleID f = br_name rule_hardcoded_password \<and> fi_Line f = int 0 + 1)"
proof (rule padded_secret_missed [where lines = "[padded_line]" and v = "''c2VjcmV0c2VjcmV0cw==''"])
  show "[padded_line] = strings_Split (in_Code (secret_input\<lparr>in_Code := padded_line\<rparr>)) (CHR 0x0A)" by code_simp
  show "secret_assignment ''c2VjcmV0c2VjcmV0cw=='' ([padded_line] ! 0)"
    unfolding secret_assignment_def
  proof (intro exI conjI)
    show "[padded_line] ! 0 = [] @ ''secret'' @ '' '' @ '':='' @ '' '' @ [CHR 0x22] @ ''c2VjcmV0c2VjcmV0cw=='' @ [CHR 0x22] @ []"
      by (simp add: padded_line_def)
    show "map ascii_lower ''secret'' \<in> set secret_words" by code_simp
  qed (simp_all add: space_class_def)
  show "strings_HasSuffix ''c2VjcmV0c2VjcmV0cw=='' ''==''" by code_simp
qed simp

text \<open>
  C26. Locks without a release. For a line of an ordinary file that ends with a call of \<open>Lock\<close> on the name \<open>v\<close>, the
  analyzer reports the rule exactly when no marker stands on the line or the three above it and none of the next 40 lines
  contains \<open>v.Unlock()\<close> as a text; a longer name that ends with \<open>v\<close> counts as a release too.
\<close>

theorem lock_reported_iff:
  assumes "fn = (if in_Filename inp = [] then ''input'' else in_Filename inp)" "\<not> isGeneratedFile (slashed fn)"
    and "lines = strings_Split (in_Code inp) (CHR 0x0A)" "i < length lines" "lock_call v (lines ! i)"
  shows "\<exists>fs. builtin_Analyze sha builtinRules inp = Inr fs \<and>
    ((\<exists>f \<in> set fs. fi_RuleID f = br_name rule_mutex_not_unlocked \<and> fi_Line f = int i + 1) \<longleftrightarrow>
       \<not> hasNosecMarker lines i \<and> \<not> list_ex (\<lambda>l. strings_Contains l (v @ ''.Unlock()'')) (drop (i + 1) (take (i + 41) lines)))"
proof -
  have "SeverityRank SeverityLow < SeverityRank (br_severity rule_mutex_not_unlocked)"
    by (simp add: rule_mutex_not_unlocked_def SeverityRank_def severity_defs)
  from builtin_rule_reports [OF assms(1-3) listed_rules(2) this assms(4) mutex_rule_unique] lock_fires [OF assms(5)]
  show ?thesis by simp
qed

definition lock_code :: string where
  "lock_code = ''s.mu.Lock()'' @ [CHR 0x0A] @ ''muxmu.Unlock()''"

theorem lock_reported_iff_witness:
  "\<exists>fs. builtin_Analyze (\<lambda>s. s) builtinRules (secret_input\<lparr>in_Code := lock_code\<rparr>) = Inr fs \<and>
    \<not> (\<exists>f \<in> set fs. fi_RuleID f = br_name rule_mutex_not_unlocked \<and> fi_Line f = int 0 + 1)"
proof -
  have "lock_call ''mu'' (take 11 lock_code)" unfolding lock_call_def
  proof (intro exI conjI)
    show "take 11 lock_code = ''s.'' @ ''mu'' @ ''.Lock()'' @ []" by (simp add: lock_code_def)
    show "''s.'' = [] \<or> \<not> word_char (last ''s.'')" by code_simp
    show "set ''mu'' \<subseteq> Collect word_char" by (simp add: word_char_def)
  qed simp_all
  moreover have "strings_Split lock_code (CHR 0x0A) = [take 11 lock_code, drop 12 lock_code]" by code_simp
  moreover have "strings_Contains (drop 12 lock_code) (''mu'' @ ''.Unlock()'')" by code_simp
  ultimately show ?thesis
    using lock_reported_iff [of "''main.go''" "secret_input\<lparr>in_Code := lock_code\<rparr>" _ 0 "''mu''" "\<lambda>s. s", OF _ _ refl] secret_line_plain(3)
    by (simp add: secret_input_def)
qed

end
