(* ===== verification/Spec2Isabelle.thy ===== *)
theory Spec2Isabelle
  imports Router_Props Agent_Charging Agent_Approval Rate_Limit Access_Control Lru_Cache Http_Cache Tool_Props Idempotency
    Knowledge_Graph Login_Props Plan_Quota Memory Sarif Review_Props Auth Permissions
    Gateway_Props Builtin_Props
begin

text \<open>
  Verification of the Pre-Code server: an HTTP service that lets language-model agents plan and
  execute engineering tasks, asks people for approval of risky steps, and keeps the cost, the rate
  and the access of its callers within limits. The theories translate the Go sources under
  \<open>src/internal\<close> definition by definition: a struct is a record, an enumeration of string
  constants a datatype or a string, a method a function from the receiver's state to the new state
  and its results, an error an \<open>option\<close> or the left part of a sum, a \<open>map\<close> the type
  \<open>gomap\<close> of Go\_Prelude (lookups and updates; where the code ranges over a map the order is
  an argument, so every theorem holds for every order), \<open>time.Time\<close> and
  \<open>time.Duration\<close> integers in nanoseconds, \<open>float64\<close> the rounded arithmetic of
  Float64, \<open>int\<close> the 64-bit word where it can wrap and an integer elsewhere.

  The parts and how they work together. An agent (\<open>agent/\<close>) drives a task through its
  state machine; it asks the model router (\<open>llm/\<close>) for plans and answers and charges their
  cost to the budget manager (\<open>cost/\<close>), asks the approval queue (\<open>middleware/hitl.go\<close>)
  before a step that needs a person, and runs tools (\<open>tools/\<close>). The model router chooses
  among providers by health, circuit breaker and price. In front stand the HTTP middlewares: page
  cache, token blacklist, session tokens and API keys, scopes, tenant checks, rate limits, login limits,
  plan quotas and idempotency keys. Knowledge graph and memory keep what tasks learned. Generated code is
  judged by deterministic engines (scanner, requirements, compliance, schema, evidence score), which the
  validation pipeline and the review pipeline compose. The gateway (\<open>proxy/\<close>) is a server of its own between
  clients and language models: it scans the answers, decides under an enforcement mode what leaves, and signs a record.

  Theories and sources.
  \<^item> Foundations: Go\_Prelude, Go\_Strings, Go\_Sort, Go\_Order, Go\_Paths and Float64 model
    what the sources use of the language and its standard library: maps, strings, sorting, path
    cleaning, floating point. Http models requests, responses and handlers.
  \<^item> Language models: Circuit\_Breaker (\<open>llm/circuit_breaker.go\<close>), Llm\_Types
    (\<open>llm/models.go\<close>), Health\_Monitor (\<open>llm/health.go\<close>), Response\_Cache
    (\<open>llm/cache.go\<close>), Budget (\<open>cost/budget.go\<close>), Model\_Router and Router\_Props
    (\<open>llm/provider.go\<close>): ranking, failover, streaming, and what an attempt records,
    charges and reports. Shown: at most one probe in a half-open breaker, recorded spend that of an abstract ledger, and
    within every limit while calls cost no more than was checked (which the router does not ensure), failover tries every admissible provider in rank order, each attempt is accounted for once,
    an open circuit is never probed again.
  \<^item> Agents: Agent\_State (\<open>agent/state.go\<close>), Agent\_Loop (\<open>agent/agent.go\<close>), with
    Agent\_Props, Agent\_Charging and Agent\_Approval. Shown: no step that needs approval runs
    without one, a rejection is final, a completed task ran every step; with the approval queue of
    HITL\_Queue (\<open>middleware/hitl.go\<close>, \<open>router/hitl_handlers.go\<close>) the approval
    comes from a person allowed to give it and no waiting agent misses its wake-up.
  \<^item> Tools, Tool\_Props: \<open>tools/\<close> and the registry of \<open>server/server.go\<close>. Shown: the
    file tools touch files and directories below the allowed directories only, except that a path whose parent does not
    resolve is checked by its spelling; what the command allowlist fails to
    check; what happens with the configuration the server really uses.
  \<^item> Access: Access\_Control (\<open>middleware/lockout.go\<close>, \<open>blacklist.go\<close>,
    \<open>scopes.go\<close>), Login and Login\_Props (login limiter and handler), App\_Errors
    (\<open>errors/errors.go\<close>).
  \<^item> Identity: Auth (\<open>auth/jwt.go\<close>, \<open>auth/apikey.go\<close>, \<open>repository/apikey.go\<close>,
    \<open>middleware/auth.go\<close>, \<open>router/auth_handlers.go\<close>) and Permissions (\<open>router/permissions.go\<close>). Shown:
    which requests get claims and which claims, the life of a token and of a rotated key, that the permission checks
    reveal nothing of other tenants, and that refreshing a token escalates the scopes of a key.
  \<^item> Limits: Rate\_Limit (\<open>ratelimit/\<close>, \<open>rateguard/\<close>), Rate\_Middleware and
    Plan\_Quota (\<open>middleware/ratelimit.go\<close>), Idempotency (\<open>idempotency/\<close>).
  \<^item> Caches: Lru\_Spec, the abstract list of entries in order of use; Lru\_Cache
    (\<open>cache/response_cache.go\<close>) and Http\_Cache (\<open>middleware/cache.go\<close>) refine it.
  \<^item> Knowledge: Knowledge\_Graph (\<open>knowledge/graph.go\<close>), Memory
    (\<open>memory/manager.go\<close>).
  \<^item> Judging code: Keyword\_Match (\<open>util/util.go\<close>), Scanner (\<open>scanner/\<close>, with the analyzers of
    \<open>semgrep.go\<close> and \<open>bandit.go\<close>), Sarif (\<open>scanner/finding.go\<close>), Builtin\_Rules (the 57 rules of
    \<open>scanner/builtin.go\<close>, as terms of Go\_Regexp, and their cross-line checks) and Builtin\_Props,
    Requirements (\<open>requirements/\<close>), Compliance (\<open>compliance/\<close>), Schema\_Check (\<open>schema/\<close>), Evidence\_Score (\<open>confidence/\<close>), Attack\_Graph
    (\<open>attackgraph/\<close>), Skill\_Engine (\<open>skillengine/\<close>), Validation\_Pipeline (\<open>pipeline/pipeline.go\<close>),
    Review\_Pipeline and Review\_Props (\<open>pipeline/review.go\<close>). Shown: critical findings are never lost by merging,
    scoring and filtering; a hardcoded secret fails the pipeline, except where a check hides it, and which locks are
    reported; what passes the pipeline, and where it fails open; a review ends after a bounded number of model calls.
  \<^item> Gateway: Go\_Regexp, the regular expressions of the standard library as data, with an executable matcher in
    Go's order of preference and the relation it implements; Code\_Fences (\<open>proxy/enricher.go\<close>), extraction and
    withholding of code, with a grammar of well-formed documents; Dual\_Engine (\<open>proxy/dualengine.go\<close>);
    Proxy\_Policy (verdict, policy, streaming gate) and Proxy\_Analysis, their lemmas; Provenance
    (\<open>signing/signing.go\<close> and the records); Proxy\_Server and Proxy\_Stream (\<open>proxy/proxy.go\<close>,
    \<open>providers.go\<close>, \<open>streaming.go\<close>), the state, the middlewares, every handler that changes state and
    the dispatch; Proxy\_Props and Gateway\_Props, what the modes promise. Shown: strict answers and streams hold
    everything until the decision, critical local findings survive whatever the model says, the balanced mode withholds
    exactly the backtick fences of a document, requests without a key change only counters, signed requests verify and bind;
    and where this ends: code outside fences, divided marks, the direct fallback, uncounted streams.

  Interfaces. What one part promises another is a locale, interpreted on the model's own
  definitions in the theory of the part that provides it: the sliding windows of the rate limiters,
  the LRU list of the two caches, the clocks. Code outside the repository is a parameter with named
  laws: the operating system (\<open>os_env\<close>), Redis (\<open>redis_ops\<close> with \<open>zset_laws\<close>
  and \<open>counter_laws\<close>), the user table, passwords and tokens (\<open>login_env\<close>), providers
  and their prices (\<open>agent_env\<close>), row scanning and vector distance (\<open>mem_env\<close>), the
  JSON codec of stored messages, digests and message authentication codes, password hashing and the token
  library (\<open>crypto\<close>), the analyzers and models of a review (\<open>review_env\<close>), providers, DNS and request
  decoding of the gateway (\<open>proxy_env\<close>, \<open>analysis_env\<close>), and the iteration order of maps. Each theorem that needs
  a law has a witness on a concrete instance.

  Loops. Loops over data are recursive functions; the prefix stripping of commands and the
  breadth-first search carry termination proofs; the eviction loop of the answer cache, which would
  not end on an inconsistent cache, is a partial function proved to return on every reachable cache.
  No definition uses fuel. Interleavings (idempotency keys, the approval queue) are inductive step
  relations over the atomic sections the mutexes delimit.

  Not modelled: the HTTP clients of the providers and of the embedder, the SQL of the repositories
  and migrations (except where its meaning carries a property, as for API keys), configuration loading,
  telemetry, logging and metrics, the OpenAPI document, the request decoding of handlers and the handlers
  that only list or store rows, the MCP server, e-mail and webhooks, benchmarks and command-line programs. They do
  input and output, or build constant documents, around the parts above, and appear as parameters where those
  parts call them. The
  catalogue endpoints of the gateway, which read a constant table, are a parameter of its dispatch. Logging
  calls are left out of the translated functions.
\<close>

end
